(* ===== verification/Prelude.thy ===== *)
theory Prelude
  imports Main "HOL-Library.Word"
begin

text \<open>
  Shared vocabulary of the development: machine-integer helpers with the overflow checks of
  Rust's \<open>checked_*\<close> operations, the result type and its sequencing combinator, the few facts
  about UTF-8 strings that the program uses, and the generic list lemmas the component theories
  rest on.  A Rust \<open>String\<close> is its UTF-8 byte sequence (an Isabelle \<open>string\<close>), so \<open>length\<close>
  is \<open>str::len\<close>.  A \<open>Result<T, E>\<close> is \<open>E + T\<close> with \<open>Inl\<close> for \<open>Err\<close>.
\<close>

unbundle bit_operations_syntax

named_theorems result_simps \<open>case analysis of successful and failed results\<close>
named_theorems checked_simps \<open>what a successful checked operation returns\<close>

section \<open>Results\<close>

text \<open>\<open>bindR m f\<close> is the \<open>?\<close> operator: an error leaves the function at once.\<close>

definition bindR :: "'e + 'a \<Rightarrow> ('a \<Rightarrow> 'e + 'b) \<Rightarrow> 'e + 'b" where
  "bindR m f = (case m of Inl e \<Rightarrow> Inl e | Inr x \<Rightarrow> f x)"

text \<open>\<open>map_err\<close> is \<open>Result::map_err\<close>; \<open>ok_or\<close> is \<open>Option::ok_or\<close>.\<close>

definition map_err :: "('e \<Rightarrow> 'f) \<Rightarrow> 'e + 'a \<Rightarrow> 'f + 'a" where
  "map_err g m = (case m of Inl e \<Rightarrow> Inl (g e) | Inr x \<Rightarrow> Inr x)"

definition ok_or :: "'e \<Rightarrow> 'a option \<Rightarrow> 'e + 'a" where
  "ok_or e m = (case m of None \<Rightarrow> Inl e | Some x \<Rightarrow> Inr x)"

definition requireR :: "bool \<Rightarrow> 'e \<Rightarrow> 'e + unit" where
  "requireR c e = (if c then Inr () else Inl e)"

definition is_ok :: "'e + 'a \<Rightarrow> bool" where
  "is_ok m = (case m of Inl _ \<Rightarrow> False | Inr _ \<Rightarrow> True)"

lemma bindR_simps [simp]:
  "bindR (Inl e) f = Inl e"
  "bindR (Inr x) f = f x"
  by (simp_all add: bindR_def)

lemma bindR_Inr_iff [result_simps]: "bindR m f = Inr y \<longleftrightarrow> (\<exists>x. m = Inr x \<and> f x = Inr y)"
  by (cases m) (auto simp: bindR_def)

lemma bindR_InrE:
  assumes "bindR m f = Inr y"
  obtains x where "m = Inr x" "f x = Inr y"
  using assms by (auto simp: result_simps)

lemma bindR_Inl_iff: "bindR m f = Inl e \<longleftrightarrow> m = Inl e \<or> (\<exists>x. m = Inr x \<and> f x = Inl e)"
  by (cases m) (auto simp: bindR_def)

lemma bindR_cong [fundef_cong]:
  "m = m' \<Longrightarrow> (\<And>x. m' = Inr x \<Longrightarrow> f x = g x) \<Longrightarrow> bindR m f = bindR m' g"
  by (cases m') (auto simp: bindR_def)

lemma map_err_simps [simp]:
  "map_err g (Inl e) = Inl (g e)"
  "map_err g (Inr x) = Inr x"
  by (simp_all add: map_err_def)

lemma map_err_Inr_iff [result_simps]: "map_err g m = Inr y \<longleftrightarrow> m = Inr y"
  by (cases m) auto

lemma ok_or_simps [simp]:
  "ok_or e None = Inl e"
  "ok_or e (Some x) = Inr x"
  by (simp_all add: ok_or_def)

lemma ok_or_Inr_iff [result_simps]: "ok_or e m = Inr y \<longleftrightarrow> m = Some y"
  by (cases m) auto

lemma requireR_Inr_iff [result_simps]: "requireR c e = Inr u \<longleftrightarrow> c"
  by (auto simp: requireR_def)

lemma requireR_True [simp]: "requireR True e = Inr ()"
  by (simp add: requireR_def)

lemma requireR_False [simp]: "requireR False e = Inl e"
  by (simp add: requireR_def)

lemma is_ok_simps [simp]: "\<not> is_ok (Inl e)" "is_ok (Inr x)"
  by (simp_all add: is_ok_def)

lemma is_ok_iff: "is_ok m \<longleftrightarrow> (\<exists>x. m = Inr x)"
  by (cases m) auto

text \<open>\<open>try_fold\<close> of the standard library, over a result.\<close>

primrec try_fold :: "('b \<Rightarrow> 'a \<Rightarrow> 'e + 'b) \<Rightarrow> 'b \<Rightarrow> 'a list \<Rightarrow> 'e + 'b" where
  "try_fold f b [] = Inr b"
| "try_fold f b (x # xs) = bindR (f b x) (\<lambda>b'. try_fold f b' xs)"

lemma try_fold_append:
  "try_fold f b (xs @ ys) = bindR (try_fold f b xs) (\<lambda>b'. try_fold f b' ys)"
proof (induction xs arbitrary: b)
  case (Cons x xs)
  then show ?case by (cases "f b x") simp_all
qed simp

lemma try_fold_cong [fundef_cong]:
  "xs = ys \<Longrightarrow> b = c \<Longrightarrow> (\<And>x d. x \<in> set ys \<Longrightarrow> f d x = g d x) \<Longrightarrow> try_fold f b xs = try_fold g c ys"
proof (induction xs arbitrary: ys b c)
  case (Cons x xs)
  have "try_fold f d xs = try_fold g d xs" for d
    by (rule Cons.IH) (use Cons.prems in auto)
  moreover have "f c x = g c x"
    using Cons.prems by auto
  ultimately show ?case
    using Cons.prems by (auto simp: bindR_def split: sum.splits)
qed simp

section \<open>Machine integers\<close>

text \<open>
  \<open>u64\<close> and \<open>usize\<close> (64 bits on every supported target) are natural numbers below
  \<open>2 ^ 64\<close>; \<open>i64\<close> is an integer in its two's complement range.  Every operation that can
  leave the range is the program's checked one.
\<close>

definition U64_LIMIT :: nat where
  "U64_LIMIT = 18446744073709551616"

definition I64_MAX :: int where
  "I64_MAX = 9223372036854775807"

definition MAX_SAFE_INTEGER :: nat where
  "MAX_SAFE_INTEGER = 9007199254740991"

definition checked_add_u64 :: "nat \<Rightarrow> nat \<Rightarrow> nat option" where
  "checked_add_u64 a b = (if a + b < U64_LIMIT then Some (a + b) else None)"

definition checked_sub_u64 :: "nat \<Rightarrow> nat \<Rightarrow> nat option" where
  "checked_sub_u64 a b = (if b \<le> a then Some (a - b) else None)"

definition checked_add_i64 :: "int \<Rightarrow> int \<Rightarrow> int option" where
  "checked_add_i64 a b =
     (if - I64_MAX - 1 \<le> a + b \<and> a + b \<le> I64_MAX then Some (a + b) else None)"

definition saturating_add_u64 :: "nat \<Rightarrow> nat \<Rightarrow> nat" where
  "saturating_add_u64 a b = min (a + b) (U64_LIMIT - 1)"

definition div_ceil :: "nat \<Rightarrow> nat \<Rightarrow> nat" where
  "div_ceil a b = (a + b - 1) div b"

lemma checked_add_u64_Some [checked_simps]:
  "checked_add_u64 a b = Some c \<longleftrightarrow> c = a + b \<and> a + b < U64_LIMIT"
  by (auto simp: checked_add_u64_def)

lemma checked_sub_u64_Some [checked_simps]:
  "checked_sub_u64 a b = Some c \<longleftrightarrow> c = a - b \<and> b \<le> a"
  by (auto simp: checked_sub_u64_def)

lemma checked_add_i64_Some [checked_simps]:
  "checked_add_i64 a b = Some c \<longleftrightarrow> c = a + b \<and> - I64_MAX - 1 \<le> a + b \<and> a + b \<le> I64_MAX"
  by (auto simp: checked_add_i64_def)

lemma MAX_SAFE_lt_U64: "MAX_SAFE_INTEGER < U64_LIMIT"
  by (simp add: MAX_SAFE_INTEGER_def U64_LIMIT_def)

text \<open>The sum of a list of \<open>u64\<close> values as the program folds it: \<open>None\<close> on overflow.\<close>

definition sum_u64 :: "nat list \<Rightarrow> nat option" where
  "sum_u64 xs = (if sum_list xs < U64_LIMIT then Some (sum_list xs) else None)"

section \<open>UTF-8 strings\<close>

text \<open>
  \<open>char::is_control\<close> holds for U+0000 to U+001F and U+007F to U+009F.  In well-formed UTF-8
  the latter range is the byte 0x7F and the two-byte sequences 0xC2 0x80 to 0xC2 0x9F, and 0xC2
  occurs only as a lead byte.
\<close>

fun has_control :: "string \<Rightarrow> bool" where
  "has_control [] = False"
| "has_control (c # cs) =
     (of_char c < (32::nat) \<or> of_char c = (127::nat)
      \<or> (of_char c = (194::nat) \<and> (case cs of [] \<Rightarrow> False | d # _ \<Rightarrow> of_char d < (160::nat)))
      \<or> has_control cs)"

text \<open>\<open>str::encode_utf16().count()\<close>: one unit per scalar value, two beyond U+FFFF.\<close>

definition utf16_units :: "char \<Rightarrow> nat" where
  "utf16_units c = (let n = of_char c in
     if (128::nat) \<le> n \<and> n < 192 then 0 else if 240 \<le> n then 2 else 1)"

definition utf16_len :: "string \<Rightarrow> nat" where
  "utf16_len s = sum_list (map utf16_units s)"

text \<open>\<open>str::chars().count()\<close>: the bytes that are not continuation bytes.\<close>

definition is_continuation :: "char \<Rightarrow> bool" where
  "is_continuation c = (let n = of_char c in (128::nat) \<le> n \<and> n < 192)"

definition char_count :: "string \<Rightarrow> nat" where
  "char_count s = length (filter (\<lambda>c. \<not> is_continuation c) s)"

definition starts_with :: "string \<Rightarrow> string \<Rightarrow> bool" where
  "starts_with s p = (take (length p) s = p)"

lemma starts_with_append [simp]: "starts_with (p @ s) p"
  by (simp add: starts_with_def)

lemma utf16_len_append [simp]: "utf16_len (s @ t) = utf16_len s + utf16_len t"
  by (simp add: utf16_len_def)

lemma utf16_len_le: "utf16_len s \<le> 2 * length s"
  by (induction s) (auto simp: utf16_len_def utf16_units_def Let_def)

section \<open>Lists\<close>

text \<open>\<open>Iterator::position\<close> and \<open>Iterator::find\<close>.\<close>

primrec position :: "('a \<Rightarrow> bool) \<Rightarrow> 'a list \<Rightarrow> nat option" where
  "position P [] = None"
| "position P (x # xs) = (if P x then Some 0 else map_option Suc (position P xs))"

text \<open>The first matching element is rewritten in place, as through \<open>iter_mut().find\<close>.\<close>

primrec update_first :: "('a \<Rightarrow> bool) \<Rightarrow> ('a \<Rightarrow> 'a) \<Rightarrow> 'a list \<Rightarrow> 'a list" where
  "update_first P f [] = []"
| "update_first P f (x # xs) = (if P x then f x # xs else x # update_first P f xs)"

definition remove_at :: "nat \<Rightarrow> 'a list \<Rightarrow> 'a list" where
  "remove_at i xs = take i xs @ drop (Suc i) xs"

lemma position_SomeD: "position P xs = Some i \<Longrightarrow> i < length xs \<and> P (xs ! i) \<and> (\<forall>j<i. \<not> P (xs ! j))"
proof (induction xs arbitrary: i)
  case (Cons x xs)
  then show ?case by (fastforce split: if_splits simp: less_Suc_eq_0_disj nth_Cons')
qed simp

lemma position_None_iff: "position P xs = None \<longleftrightarrow> (\<forall>x\<in>set xs. \<not> P x)"
  by (induction xs) auto

lemma position_nth: "i < length xs \<Longrightarrow> P (xs ! i) \<Longrightarrow> (\<And>j. j < i \<Longrightarrow> \<not> P (xs ! j)) \<Longrightarrow> position P xs = Some i"
proof (induction xs arbitrary: i)
  case (Cons x xs)
  show ?case
  proof (cases i)
    case 0
    with Cons.prems show ?thesis by simp
  next
    case (Suc k)
    from Cons.prems(3)[of 0] Suc have "\<not> P x" by simp
    moreover have "position P xs = Some k"
    proof (rule Cons.IH)
      show "\<not> P (xs ! j)" if "j < k" for j
        using Cons.prems(3)[of "Suc j"] that Suc by simp
    qed (use Cons.prems Suc in auto)
    ultimately show ?thesis using Suc by simp
  qed
qed simp

lemma length_update_first [simp]: "length (update_first P f xs) = length xs"
  by (induction xs) auto

lemma update_first_split:
  "(\<forall>x\<in>set xs. \<not> P x) \<Longrightarrow> P y \<Longrightarrow> update_first P f (xs @ y # ys) = xs @ f y # ys"
  by (induction xs) auto

lemma map_update_first:
  "(\<And>x. g (f x) = g x) \<Longrightarrow> map g (update_first P f xs) = map g xs"
  by (induction xs) auto

lemma find_split_list:
  "find P xs = Some y \<Longrightarrow> \<exists>us vs. xs = us @ y # vs \<and> (\<forall>x\<in>set us. \<not> P x) \<and> P y"
proof (induction xs)
  case (Cons x xs)
  show ?case
  proof (cases "P x")
    case True
    with Cons.prems show ?thesis by (intro exI[of _ "[]"] exI[of _ xs]) simp
  next
    case False
    with Cons obtain us vs where "xs = us @ y # vs" "\<forall>x\<in>set us. \<not> P x" "P y" by auto
    with False show ?thesis by (intro exI[of _ "x # us"] exI[of _ vs]) simp
  qed
qed simp

lemma remove_at_append [simp]: "remove_at (length us) (us @ y # vs) = us @ vs"
  by (simp add: remove_at_def)

lemma set_remove_at_subset: "set (remove_at i xs) \<subseteq> set xs"
  by (auto simp: remove_at_def dest: in_set_takeD in_set_dropD)

lemma position_split:
  "position P xs = Some i \<Longrightarrow> \<exists>us y vs. xs = us @ y # vs \<and> length us = i \<and> P y \<and> (\<forall>x\<in>set us. \<not> P x)"
proof (induction xs arbitrary: i)
  case (Cons x xs)
  show ?case
  proof (cases "P x")
    case True
    with Cons.prems show ?thesis by (intro exI[of _ "[]"] exI[of _ x] exI[of _ xs]) simp
  next
    case False
    with Cons.prems obtain k where k: "position P xs = Some k" "i = Suc k" by auto
    from Cons.IH[OF k(1)] obtain us y vs
      where "xs = us @ y # vs" "length us = k" "P y" "\<forall>x\<in>set us. \<not> P x" by blast
    with False k show ?thesis by (intro exI[of _ "x # us"] exI[of _ y] exI[of _ vs]) simp
  qed
qed simp

lemma map_filter_append [simp]: "List.map_filter f (xs @ ys) = List.map_filter f xs @ List.map_filter f ys"
  by (simp add: List.map_filter_def)

lemma map_filter_Cons: "List.map_filter f (x # xs) = (case f x of None \<Rightarrow> [] | Some y \<Rightarrow> [y]) @ List.map_filter f xs"
  by (simp add: List.map_filter_def split: option.split)

lemma map_filter_Nil_iff: "List.map_filter f xs = [] \<longleftrightarrow> (\<forall>x\<in>set xs. f x = None)"
  by (induction xs) (auto simp: map_filter_Cons List.map_filter_def split: option.splits)

end
