(* ===== verification/Incremental.thy ===== *)
theory Incremental
  imports Prelude
begin

text \<open>
  The interface of the incremental decoders: an operation that consumes a list of inputs one by
  one until a stopping condition holds.  What a client relies on is that cutting the input into
  pieces makes no difference and that a property kept by one input is kept by all of them.
\<close>

locale incremental =
  fixes run :: "'i list \<Rightarrow> 's \<Rightarrow> 's"
    and step :: "'i \<Rightarrow> 's \<Rightarrow> 's"
    and halted :: "'s \<Rightarrow> bool"
  assumes run_Nil: "run [] s = s"
    and run_Cons: "run (x # xs) s = (if halted s then s else run xs (step x s))"
begin

lemma run_halted: "halted s \<Longrightarrow> run xs s = s"
  by (cases xs) (simp_all add: run_Nil run_Cons)

lemma run_append: "run (xs @ ys) s = run ys (run xs s)"
  by (induction xs arbitrary: s) (simp_all add: run_Nil run_Cons run_halted)

lemma run_concat: "run (concat xss) s = fold run xss s"
  by (induction xss arbitrary: s) (simp_all add: run_Nil run_append)

lemma run_invariant:
  assumes "\<And>x s. I s \<Longrightarrow> \<not> halted s \<Longrightarrow> I (step x s)" "I s"
  shows "I (run xs s)"
  using assms(2) by (induction xs arbitrary: s) (auto simp: run_Nil run_Cons assms(1))

text \<open>Two cuttings of one input agree.\<close>

lemma chunks_irrelevant: "concat xss = concat yss \<Longrightarrow> fold run xss s = fold run yss s"
  by (simp flip: run_concat)

end

end
