(* ===== verification/Utf8.thy ===== *)
theory Utf8
  imports Prelude
begin

text \<open>
  The UTF-8 decoder of the Rust standard library, as the program uses it:
  \<open>std::str::from_utf8\<close> with its \<open>error_len\<close>, \<open>char::encode_utf8\<close> and
  \<open>String::from_utf8_lossy\<close>.  Bytes are HOL characters, read as numbers by \<open>byte\<close>; a scalar
  value is a natural number.
\<close>

definition byte :: "char \<Rightarrow> nat" where
  "byte c = of_char c"

lemma byte_lt [simp]: "byte c < 256"
  by (simp add: byte_def)

lemma byte_char_of [simp]: "byte (char_of (n::nat)) = n mod 256"
  by (simp add: byte_def)

lemma byte_eq_iff [simp]: "byte c = byte d \<longleftrightarrow> c = d"
  by (simp add: byte_def)

lemma byte_Char_eq: "byte c = n \<Longrightarrow> c = char_of n"
  by (auto simp: byte_def)

definition is_cont :: "nat \<Rightarrow> bool" where
  "is_cont b = (128 \<le> b \<and> b < 192)"

datatype utf8_head = Scalar nat nat | Incomplete | Malformed nat

text \<open>
  The first scalar value of a non-empty byte sequence with its width, or the length of the
  ill-formed subsequence, or the information that the input ends inside a sequence.
\<close>

definition second_ok :: "nat \<Rightarrow> nat \<Rightarrow> bool" where
  "second_ok b0 b1 =
     (if b0 < 224 then is_cont b1
      else if b0 = 224 then 160 \<le> b1 \<and> b1 < 192
      else if b0 = 237 then 128 \<le> b1 \<and> b1 < 160
      else if b0 < 240 then is_cont b1
      else if b0 = 240 then 144 \<le> b1 \<and> b1 < 192
      else if b0 < 244 then is_cont b1
      else 128 \<le> b1 \<and> b1 < 144)"

definition utf8_next :: "nat \<Rightarrow> nat list \<Rightarrow> utf8_head" where
  "utf8_next b0 bs =
     (if b0 < 128 then Scalar b0 1
      else if b0 < 194 \<or> 244 < b0 then Malformed 1
      else case bs of
        [] \<Rightarrow> Incomplete
      | b1 # bs1 \<Rightarrow>
          if \<not> second_ok b0 b1 then Malformed 1
          else if b0 < 224 then Scalar ((b0 - 192) * 64 + (b1 - 128)) 2
          else case bs1 of
            [] \<Rightarrow> Incomplete
          | b2 # bs2 \<Rightarrow>
              if \<not> is_cont b2 then Malformed 2
              else if b0 < 240 then Scalar (((b0 - 224) * 64 + (b1 - 128)) * 64 + (b2 - 128)) 3
              else case bs2 of
                [] \<Rightarrow> Incomplete
              | b3 # _ \<Rightarrow>
                  if \<not> is_cont b3 then Malformed 3
                  else Scalar ((((b0 - 240) * 64 + (b1 - 128)) * 64 + (b2 - 128)) * 64 + (b3 - 128)) 4)"

text \<open>
  \<open>from_utf8\<close>: the scalar values, or the error with its \<open>error_len\<close> (\<open>None\<close> when more input
  could complete the sequence).
\<close>

fun from_utf8 :: "string \<Rightarrow> nat option + nat list" where
  "from_utf8 [] = Inr []"
| "from_utf8 (c # cs) =
     (case utf8_next (byte c) (map byte cs) of
        Scalar u n \<Rightarrow> bindR (from_utf8 (drop (n - 1) cs)) (\<lambda>us. Inr (u # us))
      | Incomplete \<Rightarrow> Inl None
      | Malformed k \<Rightarrow> Inl (Some k))"

definition REPLACEMENT :: string where
  "REPLACEMENT = [CHR 0xEF, CHR 0xBF, CHR 0xBD]"

text \<open>\<open>from_utf8_lossy\<close>: one U+FFFD per maximal ill-formed subsequence.\<close>

fun from_utf8_lossy :: "string \<Rightarrow> string" where
  "from_utf8_lossy [] = []"
| "from_utf8_lossy (c # cs) =
     (case utf8_next (byte c) (map byte cs) of
        Scalar u n \<Rightarrow> c # take (n - 1) cs @ from_utf8_lossy (drop (n - 1) cs)
      | Incomplete \<Rightarrow> REPLACEMENT
      | Malformed k \<Rightarrow> REPLACEMENT @ from_utf8_lossy (drop (k - 1) cs))"

definition is_scalar :: "nat \<Rightarrow> bool" where
  "is_scalar u = (u < 55296 \<or> 57343 < u \<and> u < 1114112)"

definition utf8_encode :: "nat \<Rightarrow> string" where
  "utf8_encode u =
     (if u < 128 then [char_of u]
      else if u < 2048 then [char_of (192 + u div 64), char_of (128 + u mod 64)]
      else if u < 65536 then
        [char_of (224 + u div 4096), char_of (128 + u div 64 mod 64), char_of (128 + u mod 64)]
      else
        [char_of (240 + u div 262144), char_of (128 + u div 4096 mod 64),
         char_of (128 + u div 64 mod 64), char_of (128 + u mod 64)])"

definition valid_utf8 :: "string \<Rightarrow> bool" where
  "valid_utf8 s = is_ok (from_utf8 s)"

lemma utf8_next_width: "utf8_next b bs = Scalar u n \<Longrightarrow> 1 \<le> n \<and> n \<le> 4 \<and> n \<le> Suc (length bs)"
  by (auto simp: utf8_next_def split: if_splits list.splits)

lemma utf8_next_malformed: "utf8_next b bs = Malformed k \<Longrightarrow> 1 \<le> k \<and> k \<le> 3 \<and> k \<le> Suc (length bs)"
  by (auto simp: utf8_next_def split: if_splits list.splits)

lemma utf8_next_ascii [simp]: "b < 128 \<Longrightarrow> utf8_next b bs = Scalar b 1"
  by (simp add: utf8_next_def)

lemma recombine2: "(u::nat) div 64 * 64 + u mod 64 = u"
  by simp

lemma recombine3: "((u::nat) div 4096 * 64 + u div 64 mod 64) * 64 + u mod 64 = u"
proof -
  have "u div 4096 = u div 64 div 64"
    by (simp add: div_mult2_eq [symmetric])
  then show ?thesis by simp
qed

lemma recombine4:
  "((((u::nat) div 262144) * 64 + u div 4096 mod 64) * 64 + u div 64 mod 64) * 64 + u mod 64 = u"
proof -
  have "u div 4096 = u div 64 div 64" "u div 262144 = u div 64 div 64 div 64"
    by (simp_all add: div_mult2_eq [symmetric])
  then show ?thesis by simp
qed

text \<open>Decoding what \<open>encode_utf8\<close> wrote, with anything after it.\<close>

lemma utf8_next_encode:
  assumes "is_scalar u"
  shows "\<exists>c cs. utf8_encode u = c # cs
           \<and> utf8_next (byte c) (map byte cs @ bs) = Scalar u (Suc (length cs))"
proof -
  consider "u < 128" | "128 \<le> u" "u < 2048" | "2048 \<le> u" "u < 65536" | "65536 \<le> u"
    by linarith
  then show ?thesis
  proof cases
    case 1
    then show ?thesis by (simp add: utf8_encode_def)
  next
    case 2
    then have "u div 64 < 32" "2 \<le> u div 64" by (simp_all add: less_mult_imp_div_less)
    with 2 show ?thesis
      by (simp add: utf8_encode_def utf8_next_def second_ok_def is_cont_def)
  next
    case 3
    define q r t where d: "q = u div 4096" "r = u div 64 mod 64" "t = u mod 64"
    have u: "u = 4096 * q + 64 * r + t" using recombine3 [of u] unfolding d by simp
    have b: "r < 64" "t < 64" by (simp_all add: d)
    have q: "q < 16" using u 3 b by linarith
    have z: "32 \<le> r" if "q = 0" using u 3 b that by linarith
    have s: "r < 32" if "q = 13" using u b that assms unfolding is_scalar_def by linarith
    have "utf8_encode u = [char_of (224 + q), char_of (128 + r), char_of (128 + t)]"
      using 3 by (simp add: utf8_encode_def d)
    with q z s b u show ?thesis
      by (simp add: utf8_next_def second_ok_def is_cont_def)
  next
    case 4
    define p q r t where d: "p = u div 262144" "q = u div 4096 mod 64" "r = u div 64 mod 64" "t = u mod 64"
    have u: "u = 262144 * p + 4096 * q + 64 * r + t" using recombine4 [of u] unfolding d by simp
    have b: "q < 64" "r < 64" "t < 64" by (simp_all add: d)
    have lt: "u < 1114112" using assms 4 by (auto simp: is_scalar_def)
    have p: "p < 5" using u b lt by linarith
    have z: "16 \<le> q" if "p = 0" using u 4 b that by linarith
    have s: "q < 16" if "p = 4" using u lt b that by linarith
    have "utf8_encode u =
        [char_of (240 + p), char_of (128 + q), char_of (128 + r), char_of (128 + t)]"
      using 4 by (simp add: utf8_encode_def d)
    with p z s b u show ?thesis
      by (simp add: utf8_next_def second_ok_def is_cont_def)
  qed
qed

lemma from_utf8_encode:
  assumes "is_scalar u"
  shows "from_utf8 (utf8_encode u @ s) = bindR (from_utf8 s) (\<lambda>us. Inr (u # us))"
proof -
  from utf8_next_encode[OF assms, of "map byte s"] obtain c cs
    where "utf8_encode u = c # cs" "utf8_next (byte c) (map byte cs @ map byte s) = Scalar u (Suc (length cs))"
    by blast
  then show ?thesis by simp
qed

text \<open>An encoded text decodes to its scalar values.\<close>

lemma from_utf8_concat:
  "(\<forall>u\<in>set us. is_scalar u) \<Longrightarrow> from_utf8 (concat (map utf8_encode us)) = Inr us"
  by (induction us) (simp_all add: from_utf8_encode)

lemma from_utf8_lossy_valid: "from_utf8 s = Inr us \<Longrightarrow> from_utf8_lossy s = s"
proof (induction s arbitrary: us rule: from_utf8.induct)
  case (2 c cs)
  then show ?case
    by (auto split: utf8_head.splits simp: result_simps)
qed simp

end
