(* ===== verification/Sse.thy ===== *)
theory Sse
  imports Incremental Utf8
begin

text \<open>
  The bounded Server-Sent Events framing of \<open>src/provider/deepseek/sse.rs\<close>: bytes of a streaming
  response become data items and comments; a failure carries the complete items that preceded it.
  The function that pushes into \<open>&mut output\<close> returns the new output beside the decoder.
\<close>

section \<open>Data\<close>

definition MAX_DEEPSEEK_RESPONSE_BYTES :: nat where
  "MAX_DEEPSEEK_RESPONSE_BYTES = 8 * 1024 * 1024"

definition MAX_SSE_LINE_BYTES :: nat where
  "MAX_SSE_LINE_BYTES = 1024 * 1024"

definition MAX_SSE_EVENT_BYTES :: nat where
  "MAX_SSE_EVENT_BYTES = 1024 * 1024"

definition UTF8_BOM :: string where
  "UTF8_BOM = [CHR 0xEF, CHR 0xBB, CHR 0xBF]"

text \<open>\<open>response::DONE\<close>.\<close>

definition SSE_DONE :: string where
  "SSE_DONE = ''[DONE]''"

datatype sse_item = SseData string | SseComment

datatype sse_error = ResponseSize nat | LineLength nat | EventData nat

record sse_decoder =
  sse_bom_prefix :: string
  sse_bom_decided :: bool
  sse_line :: string
  sse_data :: string
  sse_has_data :: bool
  sse_skip_lf :: bool
  sse_total_bytes :: nat
  sse_done :: bool

definition sse_default :: sse_decoder where
  "sse_default = \<lparr>sse_bom_prefix = [], sse_bom_decided = False, sse_line = [], sse_data = [],
     sse_has_data = False, sse_skip_lf = False, sse_total_bytes = 0, sse_done = False\<rparr>"

text \<open>
  Every operation returns the decoder and the output as they are when it leaves, and the error
  if it failed.
\<close>

type_synonym sse_result = "sse_decoder \<times> sse_item list \<times> sse_error option"

section \<open>Lines\<close>

text \<open>A physical line is cut at its first colon; a line without one is all field name.\<close>

definition split_field :: "string \<Rightarrow> string \<times> string" where
  "split_field line =
     (case position (\<lambda>c. c = CHR '':'') line of
        Some i \<Rightarrow> (take i line, drop (i + 1) line)
      | None \<Rightarrow> (line, []))"

definition strip_space :: "string \<Rightarrow> string" where
  "strip_space v = (if starts_with v '' '' then drop 1 v else v)"

definition next_event_len :: "sse_decoder \<Rightarrow> string \<Rightarrow> nat option" where
  "next_event_len s v =
     (case checked_add_u64 (length (sse_data s)) (if sse_has_data s then 1 else 0) of
        None \<Rightarrow> None
      | Some n \<Rightarrow> checked_add_u64 n (length v))"

definition process_line :: "sse_decoder \<Rightarrow> sse_item list \<Rightarrow> sse_result" where
  "process_line s0 out =
     (let line = sse_line s0; s = s0\<lparr>sse_line := []\<rparr> in
      if line = [] then
        if sse_has_data s then
          (s\<lparr>sse_data := [], sse_has_data := False, sse_done := (sse_data s = SSE_DONE)\<rparr>,
           out @ [SseData (sse_data s)], None)
        else (s, out, None)
      else if line ! 0 = CHR '':'' then (s, out @ [SseComment], None)
      else
        (case split_field line of (field, raw_value) \<Rightarrow>
          if field \<noteq> ''data'' then (s, out, None)
          else
            (let v = from_utf8_lossy (strip_space raw_value) in
             case next_event_len s v of
               None \<Rightarrow> (s, out, Some (EventData MAX_SSE_EVENT_BYTES))
             | Some next_len \<Rightarrow>
                 if next_len > MAX_SSE_EVENT_BYTES
                 then (s, out, Some (EventData MAX_SSE_EVENT_BYTES))
                 else
                   (s\<lparr>sse_data := sse_data s @ (if sse_has_data s then [CHR 0x0A] else []) @ v,
                      sse_has_data := True\<rparr>, out, None))))"

definition push_body_byte :: "char \<Rightarrow> sse_decoder \<Rightarrow> sse_item list \<Rightarrow> sse_result" where
  "push_body_byte b s0 out =
     (let skip = sse_skip_lf s0; s = s0\<lparr>sse_skip_lf := False\<rparr> in
      if skip \<and> b = CHR 0x0A then (s, out, None)
      else if b = CHR 0x0D then
        (case process_line s out of
           (s, out, None) \<Rightarrow> (s\<lparr>sse_skip_lf := True\<rparr>, out, None)
         | (s, out, Some e) \<Rightarrow> (s, out, Some e))
      else if b = CHR 0x0A then process_line s out
      else
        (let s = s\<lparr>sse_line := sse_line s @ [b]\<rparr> in
         if length (sse_line s) > MAX_SSE_LINE_BYTES
         then (s, out, Some (LineLength MAX_SSE_LINE_BYTES))
         else (s, out, None)))"

text \<open>The loop over the bytes that were held back while a byte order mark was possible.\<close>

fun push_prefix :: "string \<Rightarrow> sse_decoder \<Rightarrow> sse_item list \<Rightarrow> sse_result" where
  "push_prefix [] s out = (s, out, None)"
| "push_prefix (b # bs) s out =
     (case push_body_byte b s out of
        (s, out, None) \<Rightarrow> push_prefix bs s out
      | (s, out, Some e) \<Rightarrow> (s, out, Some e))"

section \<open>Reads\<close>

text \<open>
  One iteration of the loop of \<open>push\<close>, after the test of \<open>done\<close>.  \<open>mem::take\<close> has emptied the
  output when the count overflows, after the failure has taken it; both failures carry it.
\<close>

definition push_byte :: "char \<Rightarrow> sse_decoder \<Rightarrow> sse_item list \<Rightarrow> sse_result" where
  "push_byte b s0 out =
     (case checked_add_u64 (sse_total_bytes s0) 1 of
        None \<Rightarrow> (s0, out, Some (ResponseSize MAX_DEEPSEEK_RESPONSE_BYTES))
      | Some n \<Rightarrow>
          (let s = s0\<lparr>sse_total_bytes := n\<rparr> in
           if n > MAX_DEEPSEEK_RESPONSE_BYTES
           then (s, out, Some (ResponseSize MAX_DEEPSEEK_RESPONSE_BYTES))
           else if sse_bom_decided s then push_body_byte b s out
           else
             (let s = s\<lparr>sse_bom_prefix := sse_bom_prefix s @ [b]\<rparr> in
              if starts_with UTF8_BOM (sse_bom_prefix s) \<and> length (sse_bom_prefix s) < length UTF8_BOM
              then (s, out, None)
              else
                (let s = s\<lparr>sse_bom_decided := True\<rparr> in
                 if sse_bom_prefix s = UTF8_BOM then (s\<lparr>sse_bom_prefix := []\<rparr>, out, None)
                 else push_prefix (sse_bom_prefix s) (s\<lparr>sse_bom_prefix := []\<rparr>) out))))"

fun push_bytes :: "string \<Rightarrow> sse_decoder \<Rightarrow> sse_item list \<Rightarrow> sse_result" where
  "push_bytes [] s out = (s, out, None)"
| "push_bytes (b # bs) s out =
     (if sse_done s then (s, out, None)
      else case push_byte b s out of
             (s, out, None) \<Rightarrow> push_bytes bs s out
           | (s, out, Some e) \<Rightarrow> (s, out, Some e))"

definition sse_push :: "string \<Rightarrow> sse_decoder \<Rightarrow> sse_result" where
  "sse_push bytes s = push_bytes bytes s []"

definition sse_finish :: "sse_decoder \<Rightarrow> sse_result" where
  "sse_finish s =
     (if \<not> sse_bom_decided s
      then push_prefix (sse_bom_prefix s) (s\<lparr>sse_bom_decided := True, sse_bom_prefix := []\<rparr>) []
      else (s, [], None))"

section \<open>The output is appended\<close>

text \<open>\<open>prefixed out r\<close> is the result \<open>r\<close> with \<open>out\<close> already in the output.\<close>

definition prefixed :: "sse_item list \<Rightarrow> sse_result \<Rightarrow> sse_result" where
  "prefixed out r = (case r of (s, o', e) \<Rightarrow> (s, out @ o', e))"

lemma prefixed_simps [simp]:
  "prefixed out (s, o', e) = (s, out @ o', e)"
  by (simp add: prefixed_def)

lemma process_line_out: "process_line s out = prefixed out (process_line s [])"
  by (simp add: process_line_def Let_def split: prod.splits option.splits)

lemma push_body_byte_out: "push_body_byte b s out = prefixed out (push_body_byte b s [])"
  unfolding push_body_byte_def Let_def
  by (subst (1 2) process_line_out)
     (auto simp: prefixed_def split: prod.splits option.splits)

lemma push_prefix_out: "push_prefix bs s out = prefixed out (push_prefix bs s [])"
proof (induction bs arbitrary: s out)
  case (Cons b bs)
  obtain s1 o1 e1 where r: "push_body_byte b s [] = (s1, o1, e1)" by (metis prod_cases3)
  have "push_prefix bs s1 (out @ o1) = prefixed out (push_prefix bs s1 o1)"
    by (subst (1 2) Cons.IH) (auto simp: prefixed_def split: prod.splits)
  then show ?case
    using push_body_byte_out[of b s out] r by (simp split: option.splits)
qed simp

lemma push_byte_out: "push_byte b s out = prefixed out (push_byte b s [])"
  unfolding push_byte_def Let_def
  using push_body_byte_out[of b _ out] push_prefix_out[of _ _ out]
  by (auto split: option.splits)

lemma push_bytes_out: "push_bytes bs s out = prefixed out (push_bytes bs s [])"
proof (induction bs arbitrary: s out)
  case (Cons b bs)
  obtain s1 o1 e1 where r: "push_byte b s [] = (s1, o1, e1)" by (metis prod_cases3)
  have "push_bytes bs s1 (out @ o1) = prefixed out (push_bytes bs s1 o1)"
    by (subst (1 2) Cons.IH) (auto simp: prefixed_def split: prod.splits)
  then show ?case
    using push_byte_out[of b s out] r by (simp split: option.splits)
qed simp

section \<open>Chunks of a response\<close>

text \<open>The adapter pushes one network chunk after the other until a failure.\<close>

definition read_chunk :: "string \<Rightarrow> sse_result \<Rightarrow> sse_result" where
  "read_chunk bytes r =
     (case r of (s, out, None) \<Rightarrow> prefixed out (sse_push bytes s) | (s, out, Some e) \<Rightarrow> r)"

definition sse_step :: "char \<Rightarrow> sse_result \<Rightarrow> sse_result" where
  "sse_step b r = (case r of (s, out, e) \<Rightarrow> if sse_done s then r else push_byte b s out)"

lemma read_chunk_push: "read_chunk bs (s, out, None) = push_bytes bs s out"
  by (simp add: read_chunk_def sse_push_def push_bytes_out[of bs s out])

lemma push_bytes_done: "sse_done s \<Longrightarrow> push_bytes bs s out = (s, out, None)"
  by (cases bs) simp_all

interpretation sse: incremental read_chunk sse_step "\<lambda>r. snd (snd r) \<noteq> None"
proof
  show "read_chunk [] r = r" for r
    by (auto simp: read_chunk_def sse_push_def split: prod.splits option.splits)
  show "read_chunk (b # bs) r =
      (if snd (snd r) \<noteq> None then r else read_chunk bs (sse_step b r))" for b bs r
  proof (cases r)
    case (fields s out e)
    show ?thesis
    proof (cases e)
      case None
      obtain s1 o1 e1 where "push_byte b s out = (s1, o1, e1)" by (metis prod_cases3)
      with fields None show ?thesis
        by (cases e1) (simp_all add: read_chunk_push sse_step_def push_bytes_done, simp add: read_chunk_def)
    qed (simp add: fields read_chunk_def)
  qed
qed

section \<open>A reference for the whole response\<close>

text \<open>
  The framing without increments or limits: the byte order mark is dropped, the text is cut into
  lines ended by CR, LF or CRLF (an unterminated last line is dropped), the lines are
  interpreted, and everything behind \<open>[DONE]\<close> is ignored.
\<close>

fun drop_lf :: "string \<Rightarrow> string" where
  "drop_lf (c # cs) = (if c = CHR 0x0A then cs else c # cs)"
| "drop_lf [] = []"

lemma length_drop_lf: "length (drop_lf cs) \<le> length cs"
  by (cases cs) auto

function (sequential) lines_of :: "string \<Rightarrow> string \<Rightarrow> string list" where
  "lines_of acc [] = []"
| "lines_of acc (c # cs) =
     (if c = CHR 0x0D then acc # lines_of [] (drop_lf cs)
      else if c = CHR 0x0A then acc # lines_of [] cs
      else lines_of (acc @ [c]) cs)"
  by pat_completeness auto
termination
  by (relation "measure (\<lambda>(_, cs). length cs)") (auto simp: le_imp_less_Suc length_drop_lf)

definition field_value :: "string \<Rightarrow> string option" where
  "field_value line =
     (case split_field line of (field, v) \<Rightarrow>
        if field = ''data'' then Some (from_utf8_lossy (strip_space v)) else None)"

fun line_items :: "string option \<Rightarrow> string list \<Rightarrow> sse_item list" where
  "line_items d [] = []"
| "line_items d (l # ls) =
     (if l = [] then
        (case d of
           None \<Rightarrow> line_items None ls
         | Some x \<Rightarrow> SseData x # (if x = SSE_DONE then [] else line_items None ls))
      else if hd l = CHR '':'' then SseComment # line_items d ls
      else
        (case field_value l of
           None \<Rightarrow> line_items d ls
         | Some v \<Rightarrow>
             line_items (Some (case d of None \<Rightarrow> v | Some x \<Rightarrow> x @ [CHR 0x0A] @ v)) ls))"

definition strip_bom :: "string \<Rightarrow> string" where
  "strip_bom bs = (if starts_with bs UTF8_BOM then drop 3 bs else bs)"

definition sse_reference :: "string \<Rightarrow> sse_item list" where
  "sse_reference bs = line_items None (lines_of [] (strip_bom bs))"

section \<open>The decoder implements the reference\<close>

definition event_data :: "sse_decoder \<Rightarrow> string option" where
  "event_data s = (if sse_has_data s then Some (sse_data s) else None)"

text \<open>What the rest of a response yields from a state behind the byte order mark.\<close>

definition rest_items :: "sse_decoder \<Rightarrow> string \<Rightarrow> sse_item list" where
  "rest_items s bs =
     (if sse_done s then []
      else line_items (event_data s)
             (lines_of (sse_line s) (if sse_skip_lf s then drop_lf bs else bs)))"

definition body_ok :: "sse_decoder \<Rightarrow> bool" where
  "body_ok s = ((\<not> sse_has_data s \<longrightarrow> sse_data s = []) \<and> (sse_skip_lf s \<longrightarrow> sse_line s = []))"

lemma process_line_items:
  assumes "body_ok s" "\<not> sse_done s" "process_line s [] = (s', o', None)" "\<not> sse_skip_lf s"
  shows "body_ok s' \<and> sse_line s' = [] \<and> \<not> sse_skip_lf s'
     \<and> line_items (event_data s) (sse_line s # ls)
       = o' @ (if sse_done s' then [] else line_items (event_data s') ls)"
proof -
  consider "sse_line s = []" | "sse_line s \<noteq> []" "sse_line s ! 0 = CHR '':''"
    | "sse_line s \<noteq> []" "sse_line s ! 0 \<noteq> CHR '':''" by blast
  then show ?thesis
  proof cases
    case 1
    with assms show ?thesis
      by (auto simp: process_line_def Let_def body_ok_def event_data_def split: if_splits)
  next
    case 2
    with assms show ?thesis
      by (simp add: process_line_def Let_def body_ok_def event_data_def hd_conv_nth)
        (auto simp: body_ok_def event_data_def)
  next
    case 3
    obtain fn v where f: "split_field (sse_line s) = (fn, v)" by (cases "split_field (sse_line s)")
    show ?thesis
    proof (cases "fn = ''data''")
      case True
      with 3 f assms(1-3) show ?thesis
        by (auto simp: process_line_def Let_def body_ok_def event_data_def field_value_def
            hd_conv_nth assms(4) split: option.splits if_splits)
    next
      case False
      with 3 f assms show ?thesis
        by (auto simp: process_line_def Let_def body_ok_def event_data_def field_value_def
            hd_conv_nth)
    qed
  qed
qed

lemma push_body_byte_items:
  assumes "body_ok s" "\<not> sse_done s" "push_body_byte b s [] = (s', o', None)"
  shows "body_ok s' \<and> rest_items s (b # bs) = o' @ rest_items s' bs"
proof -
  let ?s = "s\<lparr>sse_skip_lf := False\<rparr>"
  have ok: "body_ok ?s" "\<not> sse_done ?s" "\<not> sse_skip_lf ?s" "sse_line ?s = sse_line s"
    "event_data ?s = event_data s"
    using assms by (auto simp: body_ok_def event_data_def)
  show ?thesis
  proof (cases "b = CHR 0x0D \<or> b = CHR 0x0A")
    case False
    with assms show ?thesis
      by (auto simp: push_body_byte_def Let_def body_ok_def rest_items_def event_data_def
          split: if_splits)
  next
    case nl: True
    show ?thesis
    proof (cases "sse_skip_lf s \<and> b = CHR 0x0A")
      case True
      with assms show ?thesis
        by (auto simp: push_body_byte_def Let_def body_ok_def rest_items_def event_data_def)
    next
      case False
      obtain s1 where p: "process_line ?s [] = (s1, o', None)"
        and s': "s' = (if b = CHR 0x0D then s1\<lparr>sse_skip_lf := True\<rparr> else s1)"
        using assms(3) False nl
        by (auto simp: push_body_byte_def Let_def split: prod.splits option.splits if_splits)
      let ?tail = "if b = CHR 0x0D then drop_lf bs else bs"
      note pl = process_line_items[OF ok(1,2) p ok(3), unfolded ok(4,5)]
      have "rest_items s (b # bs) = line_items (event_data s) (sse_line s # lines_of [] ?tail)"
        using False nl assms(2) by (auto simp: rest_items_def simp del: line_items.simps)
      also have "\<dots> = o' @ (if sse_done s1 then [] else line_items (event_data s1) (lines_of [] ?tail))"
        using pl by blast
      also have "(if sse_done s1 then [] else line_items (event_data s1) (lines_of [] ?tail)) = rest_items s' bs"
        using pl s' by (auto simp: rest_items_def event_data_def simp del: line_items.simps)
      finally show ?thesis using pl s' by (auto simp: body_ok_def)
    qed
  qed
qed

text \<open>Handlers of a line and of a body byte leave the byte order mark and the count alone.\<close>

lemma process_line_frame:
  "process_line s out = (s', o', e) \<Longrightarrow>
     sse_bom_decided s' = sse_bom_decided s \<and> sse_bom_prefix s' = sse_bom_prefix s
     \<and> sse_total_bytes s' = sse_total_bytes s \<and> sse_skip_lf s' = sse_skip_lf s \<and> sse_line s' = []"
  by (auto simp: process_line_def Let_def split: prod.splits option.splits if_splits)

lemma push_body_byte_frame:
  "push_body_byte b s out = (s', o', e) \<Longrightarrow>
     sse_bom_decided s' = sse_bom_decided s \<and> sse_bom_prefix s' = sse_bom_prefix s
     \<and> sse_total_bytes s' = sse_total_bytes s"
  by (auto simp: push_body_byte_def Let_def dest!: process_line_frame
      split: prod.splits option.splits if_splits)

lemma rest_items_total [simp]: "rest_items (s\<lparr>sse_total_bytes := n\<rparr>) bs = rest_items s bs"
  by (simp add: rest_items_def event_data_def)

lemma body_ok_total [simp]: "body_ok (s\<lparr>sse_total_bytes := n\<rparr>) = body_ok s"
  by (simp add: body_ok_def)

lemma rest_items_Nil [simp]: "rest_items s [] = []"
  by (simp add: rest_items_def)

lemma push_bytes_body_items:
  assumes "body_ok s" "sse_bom_decided s" "push_bytes bs s [] = (s', o', None)"
  shows "rest_items s (bs @ cs) = o' @ rest_items s' cs"
  using assms
proof (induction bs arbitrary: s o')
  case (Cons b bs)
  show ?case
  proof (cases "sse_done s")
    case True
    with Cons.prems show ?thesis by (auto simp: rest_items_def)
  next
    case False
    define s0 where "s0 = s\<lparr>sse_total_bytes := Suc (sse_total_bytes s)\<rparr>"
    obtain s1 o1 where b: "push_byte b s [] = (s1, o1, None)" "push_bytes bs s1 o1 = (s', o', None)"
      using Cons.prems(3) False by (auto split: prod.splits option.splits)
    have s0: "push_body_byte b s0 [] = (s1, o1, None)"
      using b(1) Cons.prems(2)
      by (auto simp: push_byte_def Let_def s0_def checked_simps split: option.splits if_splits)
    have "body_ok s1" "rest_items s (b # bs @ cs) = o1 @ rest_items s1 (bs @ cs)" "sse_bom_decided s1"
      using push_body_byte_items[OF _ _ s0] push_body_byte_frame[OF s0] Cons.prems(1,2) False
      by (auto simp: s0_def)
    moreover obtain o2 where "push_bytes bs s1 [] = (s', o2, None)" "o' = o1 @ o2"
      using b(2) push_bytes_out[of bs s1 o1] by (auto simp: prefixed_def split: prod.splits)
    ultimately show ?thesis using Cons.IH[of s1 o2] by simp
  qed
qed simp

text \<open>The bytes held back for a byte order mark are too few for a data line.\<close>

lemma split_field_length: "split_field l = (fn, v) \<Longrightarrow> length fn \<le> length l"
  by (auto simp: split_field_def split: option.splits)

lemma process_line_short:
  assumes "process_line s out = (s', o', e)" "\<not> sse_has_data s" "length (sse_line s) \<le> 3"
  shows "\<not> sse_has_data s' \<and> sse_done s' = sse_done s"
  using assms split_field_length[of "sse_line s" "''data''"]
  by (auto simp: process_line_def Let_def split: prod.splits option.splits if_splits)

lemma push_body_byte_short:
  assumes "push_body_byte b s out = (s', o', e)" "\<not> sse_has_data s" "length (sse_line s) \<le> 2"
  shows "\<not> sse_has_data s' \<and> sse_done s' = sse_done s \<and> length (sse_line s') \<le> Suc (length (sse_line s))"
proof -
  let ?s = "s\<lparr>sse_skip_lf := False\<rparr>"
  have "\<not> sse_has_data s1 \<and> sse_done s1 = sse_done s \<and> sse_line s1 = []"
    if "process_line ?s out = (s1, o1, e1)" for s1 o1 e1
    using process_line_short[OF that] process_line_frame[OF that] assms(2,3) by simp
  with assms show ?thesis
    by (auto simp: push_body_byte_def Let_def split: prod.splits option.splits if_splits)
qed

lemma push_prefix_items:
  assumes "body_ok s" "\<not> sse_done s" "\<not> sse_has_data s" "length (sse_line s) + length bs \<le> 3"
    "push_prefix bs s [] = (s', o', None)"
  shows "body_ok s' \<and> sse_bom_decided s' = sse_bom_decided s \<and> rest_items s (bs @ cs) = o' @ rest_items s' cs"
  using assms
proof (induction bs arbitrary: s o')
  case (Cons b bs)
  obtain s1 o1 where b: "push_body_byte b s [] = (s1, o1, None)" "push_prefix bs s1 o1 = (s', o', None)"
    using Cons.prems(5) by (auto split: prod.splits option.splits)
  note it = push_body_byte_items[OF Cons.prems(1,2) b(1), of "bs @ cs"]
  have sh: "\<not> sse_has_data s1" "\<not> sse_done s1" "length (sse_line s1) \<le> Suc (length (sse_line s))"
    using push_body_byte_short[OF b(1)] Cons.prems by auto
  obtain o2 where o2: "push_prefix bs s1 [] = (s', o2, None)" "o' = o1 @ o2"
    using b(2) push_prefix_out[of bs s1 o1] by (auto simp: prefixed_def split: prod.splits)
  from Cons.IH[of s1 o2] it sh o2 Cons.prems(4) push_body_byte_frame[OF b(1)] show ?case by auto
qed simp

text \<open>Before the decision: a proper prefix of the byte order mark has been seen.\<close>

definition sse_undecided :: "string \<Rightarrow> nat \<Rightarrow> sse_decoder" where
  "sse_undecided p n = sse_default\<lparr>sse_bom_prefix := p, sse_total_bytes := n\<rparr>"

lemma starts_with_bom_take: "starts_with UTF8_BOM p \<Longrightarrow> length p < 3 \<Longrightarrow> p \<in> {[], [CHR 0xEF], [CHR 0xEF, CHR 0xBB]}"
  by (cases p; cases "tl p"; cases "tl (tl p)") (auto simp: starts_with_def UTF8_BOM_def)

lemma strip_bom_mismatch:
  assumes "length q \<le> 3" "starts_with UTF8_BOM (butlast q)" "q \<noteq> []" "q \<noteq> UTF8_BOM"
    "\<not> (starts_with UTF8_BOM q \<and> length q < length UTF8_BOM)"
  shows "strip_bom (q @ bs) = q @ bs"
proof -
  have p: "butlast q \<in> {[], [CHR 0xEF], [CHR 0xEF, CHR 0xBB]}"
    by (rule starts_with_bom_take[OF assms(2)]) (use assms(1,3) in \<open>cases q rule: rev_cases; simp\<close>)
  obtain c where q: "q = butlast q @ [c]" using assms(3) by (metis append_butlast_last_id)
  from p q assms(4,5) show ?thesis
    by (auto simp: strip_bom_def starts_with_def UTF8_BOM_def)
qed

lemma sse_undecided_body: "body_ok (sse_undecided p n)" "\<not> sse_done (sse_undecided p n)"
  "\<not> sse_has_data (sse_undecided p n)" "sse_line (sse_undecided p n) = []"
  by (simp_all add: sse_undecided_def sse_default_def body_ok_def)

lemma push_bytes_undecided:
  assumes "push_bytes bs (sse_undecided p n) [] = (s', o', None)"
    "starts_with UTF8_BOM p" "length p < 3"
  shows "\<exists>r. line_items None (lines_of [] (strip_bom (p @ bs @ cs))) = o' @ r \<and> (cs = [] \<longrightarrow> r = [])"
  using assms
proof (induction bs arbitrary: p n o')
  case Nil
  with starts_with_bom_take[OF Nil.prems(2,3)] show ?case
    by (auto simp: strip_bom_def starts_with_def UTF8_BOM_def)
next
  case (Cons b bs)
  let ?q = "p @ [b]" and ?u = "sse_undecided p n"
  obtain s1 o1 where b: "push_byte b ?u [] = (s1, o1, None)" "push_bytes bs s1 o1 = (s', o', None)"
    using Cons.prems(1) by (auto simp: sse_undecided_body split: prod.splits option.splits)
  obtain o2 where o2: "push_bytes bs s1 [] = (s', o2, None)" "o' = o1 @ o2"
    using b(2) push_bytes_out[of bs s1 o1] by (auto simp: prefixed_def split: prod.splits)
  have n: "sse_total_bytes ?u = n" by (simp add: sse_undecided_def)
  have u: "?u\<lparr>sse_total_bytes := n + 1, sse_bom_prefix := sse_bom_prefix ?u @ [b]\<rparr> = sse_undecided ?q (n + 1)"
    "\<not> sse_bom_decided ?u"
    by (simp_all add: sse_undecided_def sse_default_def)
  show ?case
  proof (cases "starts_with UTF8_BOM ?q \<and> length ?q < length UTF8_BOM")
    case True
    then have "s1 = sse_undecided ?q (n + 1)" "o1 = []"
      using b(1) u by (auto simp: push_byte_def Let_def n checked_simps sse_undecided_def
          sse_default_def split: option.splits if_splits)
    moreover have "length ?q < 3" using True by (simp add: UTF8_BOM_def)
    ultimately show ?thesis using Cons.IH[of ?q "n + 1" o2] o2 True by simp
  next
    case False
    define d where "d = (sse_undecided [] (n + 1))\<lparr>sse_bom_decided := True\<rparr>"
    have d: "body_ok d" "\<not> sse_done d" "\<not> sse_has_data d" "sse_line d = []" "sse_bom_decided d"
      by (simp_all add: d_def sse_undecided_def sse_default_def body_ok_def)
    have rest: "rest_items d cs = line_items None (lines_of [] cs)" for cs
      by (simp add: rest_items_def d_def sse_undecided_def sse_default_def event_data_def)
    have pb: "(if ?q = UTF8_BOM then (d, [], None) else push_prefix ?q d []) = (s1, o1, None)"
      using b(1) False
      by (auto simp: push_byte_def Let_def n checked_simps d_def sse_undecided_def
          sse_default_def split: option.splits if_splits)
    show ?thesis
    proof (cases "?q = UTF8_BOM")
      case True
      with pb have "s1 = d" "o1 = []" by simp_all
      moreover have "strip_bom (?q @ bs @ cs) = bs @ cs"
        unfolding True by (simp add: strip_bom_def) (simp add: UTF8_BOM_def)
      ultimately show ?thesis
        using push_bytes_body_items[OF d(1,5), of bs s' o2 cs] o2 rest
        by (intro exI[of _ "rest_items s' cs"]) auto
    next
      case False
      with pb have pp: "push_prefix ?q d [] = (s1, o1, None)" by simp
      note it = push_prefix_items[OF d(1,2,3) _ pp, of "bs @ cs"]
      have "length ?q \<le> 3" using Cons.prems(3) by simp
      moreover have "strip_bom (?q @ bs @ cs) = ?q @ bs @ cs"
        by (rule strip_bom_mismatch)
           (use False Cons.prems(2,3) \<open>\<not> (starts_with UTF8_BOM ?q \<and> length ?q < length UTF8_BOM)\<close> in auto)
      ultimately show ?thesis
        using it d(4,5) push_bytes_body_items[OF _ _ o2(1), of cs] o2(2) rest
        by (intro exI[of _ "rest_items s' cs"]) auto
    qed
  qed
qed

section \<open>Limits\<close>

lemma length_from_utf8_lossy: "length (from_utf8_lossy s) \<le> 3 * length s"
proof (induction s rule: from_utf8_lossy.induct)
  case (2 c cs)
  show ?case
  proof (cases "utf8_next (byte c) (map byte cs)")
    case (Scalar u n)
    with 2 utf8_next_width[OF Scalar] show ?thesis by (fastforce simp: min_def)
  next
    case (Malformed k)
    with 2 utf8_next_malformed[OF Malformed] show ?thesis by (fastforce simp: REPLACEMENT_def)
  qed (simp add: REPLACEMENT_def)
qed simp

text \<open>
  What the decoder holds, weighted by the expansion of the lossy decoder, never exceeds three
  times the bytes it has read.
\<close>

definition weight :: "sse_decoder \<Rightarrow> nat" where
  "weight s = length (sse_data s) + 3 * length (sse_line s)"

lemma strip_space_length: "length (strip_space v) \<le> length v"
  by (simp add: strip_space_def)

lemma split_field_length2:
  "split_field l = (fn, v) \<Longrightarrow> length fn + length v \<le> length l"
  by (auto simp: split_field_def dest!: position_SomeD split: option.splits)

lemma data_value_length:
  assumes "split_field l = (''data'', v)"
  shows "length (from_utf8_lossy (strip_space v)) + 12 \<le> 3 * length l"
proof -
  have "length (from_utf8_lossy (strip_space v)) \<le> 3 * length (strip_space v)"
    by (rule length_from_utf8_lossy)
  moreover have "length (strip_space v) + 4 \<le> length l"
    using strip_space_length[of v] split_field_length2[OF assms] by simp
  ultimately show ?thesis by simp
qed

lemma next_event_len_cases:
  assumes "length (sse_data s) \<le> MAX_SSE_EVENT_BYTES" "length v < U64_LIMIT - 2 * MAX_SSE_EVENT_BYTES"
  shows "next_event_len s v = Some (length (sse_data s) + (if sse_has_data s then 1 else 0) + length v)"
  using assms by (simp add: next_event_len_def checked_add_u64_def U64_LIMIT_def MAX_SSE_EVENT_BYTES_def)

lemma next_event_len_Some:
  "next_event_len s v = Some n \<Longrightarrow> n = length (sse_data s) + (if sse_has_data s then 1 else 0) + length v"
  by (auto simp: next_event_len_def checked_simps split: option.splits)

lemma process_line_weight:
  assumes "process_line s out = (s', o', e)" "weight s \<le> MAX_SSE_EVENT_BYTES"
  shows "e = None \<and> weight s' \<le> weight s"
proof (cases "sse_line s = [] \<or> sse_line s ! 0 = CHR '':'' \<or> fst (split_field (sse_line s)) \<noteq> ''data''")
  case True
  with assms(1) show ?thesis
    by (auto simp: process_line_def Let_def weight_def split: if_splits prod.splits)
next
  case False
  then obtain v where v: "split_field (sse_line s) = (''data'', v)"
    by (cases "split_field (sse_line s)") auto
  let ?v = "from_utf8_lossy (strip_space v)"
  have l: "length ?v + 12 \<le> 3 * length (sse_line s)" by (rule data_value_length[OF v])
  then have n: "next_event_len s ?v
      = Some (length (sse_data s) + (if sse_has_data s then 1 else 0) + length ?v)"
    using next_event_len_cases[of s ?v] assms(2)
    by (simp add: weight_def MAX_SSE_EVENT_BYTES_def U64_LIMIT_def)
  have "next_event_len (s\<lparr>sse_line := []\<rparr>) ?v = next_event_len s ?v"
    by (simp add: next_event_len_def)
  with False v n l assms show ?thesis
    by (auto simp: process_line_def Let_def weight_def split: if_splits)
qed

lemma push_body_byte_weight:
  assumes "push_body_byte b s out = (s', o', e)" "weight s + 3 \<le> MAX_SSE_EVENT_BYTES"
  shows "e = None \<and> weight s' \<le> weight s + 3"
proof -
  let ?s = "s\<lparr>sse_skip_lf := False\<rparr>"
  have w: "weight ?s = weight s" "weight (s1\<lparr>sse_skip_lf := x\<rparr>) = weight s1" for s1 x
    by (simp_all add: weight_def)
  have pl: "e1 = None \<and> weight s1 \<le> weight s" if "process_line ?s out = (s1, o1, e1)" for s1 o1 e1
    using process_line_weight[OF that] w assms(2) by simp
  have "length (sse_line s) + 1 \<le> MAX_SSE_LINE_BYTES"
    using assms(2) by (simp add: weight_def MAX_SSE_EVENT_BYTES_def MAX_SSE_LINE_BYTES_def)
  with assms(1) pl w show ?thesis
    by (fastforce simp: push_body_byte_def Let_def weight_def split: prod.splits option.splits if_splits)
qed

lemma push_prefix_weight:
  assumes "push_prefix bs s out = (s', o', e)" "weight s + 3 * length bs \<le> MAX_SSE_EVENT_BYTES"
  shows "e = None \<and> weight s' \<le> weight s + 3 * length bs"
  using assms
proof (induction bs arbitrary: s out)
  case (Cons b bs)
  obtain s1 o1 e1 where b: "push_body_byte b s out = (s1, o1, e1)" by (metis prod_cases3)
  with push_body_byte_weight[OF b] Cons.prems(2) have w: "e1 = None" "weight s1 \<le> weight s + 3" by auto
  with b Cons.prems Cons.IH[of s1 o1] show ?case by auto
qed simp

lemma push_prefix_frame:
  "push_prefix bs s out = (s', o', e) \<Longrightarrow>
     sse_bom_decided s' = sse_bom_decided s \<and> sse_bom_prefix s' = sse_bom_prefix s
     \<and> sse_total_bytes s' = sse_total_bytes s"
proof (induction bs arbitrary: s out)
  case (Cons b bs)
  obtain s1 o1 e1 where b: "push_body_byte b s out = (s1, o1, e1)" by (metis prod_cases3)
  with push_body_byte_frame[OF b] Cons show ?case by (auto split: option.splits)
qed simp

definition read_weight :: "sse_decoder \<Rightarrow> nat" where
  "read_weight s = weight s + 3 * length (sse_bom_prefix s)"

lemma push_byte_weight:
  assumes "push_byte b s out = (s', o', e)" "read_weight s + 3 \<le> MAX_SSE_EVENT_BYTES"
    "sse_total_bytes s < MAX_DEEPSEEK_RESPONSE_BYTES" "sse_bom_decided s \<longrightarrow> sse_bom_prefix s = []"
  shows "e = None \<and> read_weight s' \<le> read_weight s + 3 \<and> sse_total_bytes s' = sse_total_bytes s + 1
     \<and> (sse_bom_decided s' \<longrightarrow> sse_bom_prefix s' = [])"
proof -
  let ?s = "s\<lparr>sse_total_bytes := sse_total_bytes s + 1\<rparr>"
  let ?d = "s\<lparr>sse_total_bytes := sse_total_bytes s + 1, sse_bom_decided := True, sse_bom_prefix := []\<rparr>"
  have c: "checked_add_u64 (sse_total_bytes s) 1 = Some (sse_total_bytes s + 1)"
    using assms(3) by (simp add: checked_add_u64_def MAX_DEEPSEEK_RESPONSE_BYTES_def U64_LIMIT_def)
  have w: "weight ?s = weight s" "weight ?d = weight s" by (simp_all add: weight_def)
  show ?thesis
  proof (cases "sse_bom_decided s")
    case True
    then have "push_body_byte b ?s out = (s', o', e)"
      using assms(1,3) c by (simp add: push_byte_def Let_def)
    from push_body_byte_weight[OF this] push_body_byte_frame[OF this] True w assms(2,4) show ?thesis
      by (auto simp: read_weight_def)
  next
    case False
    let ?q = "sse_bom_prefix s @ [b]"
    consider (hold) "starts_with UTF8_BOM ?q \<and> length ?q < length UTF8_BOM"
      | (bom) "?q = UTF8_BOM" | (body) "\<not> (starts_with UTF8_BOM ?q \<and> length ?q < length UTF8_BOM)" "?q \<noteq> UTF8_BOM"
      by blast
    then show ?thesis
    proof cases
      case hold
      with False assms(1,3) c show ?thesis
        by (auto simp: push_byte_def Let_def read_weight_def weight_def)
    next
      case bom
      then have "\<not> (starts_with UTF8_BOM ?q \<and> length ?q < length UTF8_BOM)" by simp
      with bom False assms(1,3) c show ?thesis
        by (auto simp: push_byte_def Let_def read_weight_def weight_def)
    next
      case body
      then have p: "push_prefix ?q ?d out = (s', o', e)"
        using False assms(1,3) c by (auto simp: push_byte_def Let_def split: if_splits)
      have "sse_bom_prefix s' = [] \<and> sse_total_bytes s' = sse_total_bytes s + 1"
        using push_prefix_frame[OF p] by simp
      with push_prefix_weight[OF p] w assms(2) show ?thesis by (auto simp: read_weight_def)
    qed
  qed
qed

lemma push_bytes_weight:
  assumes "push_bytes bs s out = (s', o', e)" "read_weight s + 3 * length bs \<le> MAX_SSE_EVENT_BYTES"
    "sse_total_bytes s + length bs \<le> MAX_DEEPSEEK_RESPONSE_BYTES"
    "sse_bom_decided s \<longrightarrow> sse_bom_prefix s = []"
  shows "e = None"
  using assms
proof (induction bs arbitrary: s out)
  case (Cons b bs)
  obtain s1 o1 e1 where b: "push_byte b s out = (s1, o1, e1)" by (metis prod_cases3)
  show ?case
  proof (cases "sse_done s")
    case False
    with push_byte_weight[OF b] b Cons.prems Cons.IH[of s1 o1] show ?thesis by auto
  qed (use Cons.prems in simp)
qed simp

text \<open>A failing read stops at one byte, whose processing added no item.\<close>

lemma push_bytes_failure:
  "push_bytes bs s out = (s', o', Some e) \<Longrightarrow>
     \<exists>pre b post s1 o1. bs = pre @ b # post \<and> push_bytes pre s out = (s1, o1, None)
        \<and> push_byte b s1 o1 = (s', o', Some e)"
proof (induction bs arbitrary: s out)
  case (Cons b bs)
  then have nd: "\<not> sse_done s" by auto
  obtain s1 o1 e1 where b: "push_byte b s out = (s1, o1, e1)" by (metis prod_cases3)
  show ?case
  proof (cases e1)
    case None
    with Cons.prems nd b have "push_bytes bs s1 o1 = (s', o', Some e)" by simp
    from Cons.IH[OF this] obtain pre c post s2 o2 where
      "bs = pre @ c # post" "push_bytes pre s1 o1 = (s2, o2, None)" "push_byte c s2 o2 = (s', o', Some e)"
      by blast
    with nd b None show ?thesis by (intro exI[of _ "b # pre"]) auto
  next
    case (Some e2)
    with Cons.prems nd b show ?thesis by (intro exI[of _ "[]"] exI[of _ b] exI[of _ bs]) auto
  qed
qed simp

lemma process_line_failure: "process_line s out = (s', o', Some e) \<Longrightarrow> o' = out"
  by (auto simp: process_line_def Let_def split: prod.splits option.splits if_splits)

lemma push_body_byte_failure: "push_body_byte b s out = (s', o', Some e) \<Longrightarrow> o' = out"
  by (auto simp: push_body_byte_def Let_def dest: process_line_failure
      split: prod.splits option.splits if_splits)

text \<open>
  Before the decision the decoder holds nothing but the prefix, so the bytes of a refused byte
  order mark cannot fail.
\<close>

definition sse_ok :: "sse_decoder \<Rightarrow> bool" where
  "sse_ok s = ((sse_bom_decided s \<longrightarrow> sse_bom_prefix s = [])
     \<and> (\<not> sse_bom_decided s \<longrightarrow> sse_line s = [] \<and> sse_data s = [] \<and> length (sse_bom_prefix s) \<le> 2)
     \<and> length (sse_data s) \<le> MAX_SSE_EVENT_BYTES \<and> length (sse_line s) \<le> MAX_SSE_LINE_BYTES
     \<and> sse_total_bytes s \<le> MAX_DEEPSEEK_RESPONSE_BYTES)"

lemma process_line_data:
  "process_line s out = (s', o', e) \<Longrightarrow> length (sse_data s) \<le> MAX_SSE_EVENT_BYTES \<Longrightarrow>
     length (sse_data s') \<le> MAX_SSE_EVENT_BYTES"
  by (auto simp: process_line_def Let_def dest: next_event_len_Some
      split: prod.splits option.splits if_splits)

lemma push_body_byte_bounds:
  assumes "push_body_byte b s out = (s', o', None)" "length (sse_data s) \<le> MAX_SSE_EVENT_BYTES"
    "length (sse_line s) \<le> MAX_SSE_LINE_BYTES"
  shows "length (sse_data s') \<le> MAX_SSE_EVENT_BYTES \<and> length (sse_line s') \<le> MAX_SSE_LINE_BYTES"
proof -
  let ?s = "s\<lparr>sse_skip_lf := False\<rparr>"
  have "length (sse_data s1) \<le> MAX_SSE_EVENT_BYTES \<and> sse_line s1 = []"
    if "process_line ?s out = (s1, o1, e1)" for s1 o1 e1
    using process_line_data[OF that] process_line_frame[OF that] assms(2) by simp
  with assms show ?thesis
    by (auto simp: push_body_byte_def Let_def not_less split: prod.splits option.splits if_splits)
qed

lemma push_prefix_bounds:
  "push_prefix bs s out = (s', o', None) \<Longrightarrow> length (sse_data s) \<le> MAX_SSE_EVENT_BYTES \<Longrightarrow>
   length (sse_line s) \<le> MAX_SSE_LINE_BYTES \<Longrightarrow>
   length (sse_data s') \<le> MAX_SSE_EVENT_BYTES \<and> length (sse_line s') \<le> MAX_SSE_LINE_BYTES"
proof (induction bs arbitrary: s out)
  case (Cons b bs)
  then obtain s1 o1 where b: "push_body_byte b s out = (s1, o1, None)" "push_prefix bs s1 o1 = (s', o', None)"
    by (auto split: prod.splits option.splits)
  with push_body_byte_bounds[OF b(1)] Cons show ?case by blast
qed simp

text \<open>What one accepted byte does, by the phase the decoder is in.\<close>

lemma push_byte_cases:
  assumes "push_byte b s out = (s', o', e)" "sse_total_bytes s \<le> MAX_DEEPSEEK_RESPONSE_BYTES"
  obtains (full) "e = Some (ResponseSize MAX_DEEPSEEK_RESPONSE_BYTES)" "o' = out"
      "sse_total_bytes s = MAX_DEEPSEEK_RESPONSE_BYTES"
  | (body) "sse_bom_decided s" "sse_total_bytes s < MAX_DEEPSEEK_RESPONSE_BYTES"
      "push_body_byte b (s\<lparr>sse_total_bytes := sse_total_bytes s + 1\<rparr>) out = (s', o', e)"
  | (hold) "\<not> sse_bom_decided s" "sse_total_bytes s < MAX_DEEPSEEK_RESPONSE_BYTES" "e = None" "o' = out"
      "s' = s\<lparr>sse_total_bytes := sse_total_bytes s + 1, sse_bom_prefix := sse_bom_prefix s @ [b]\<rparr>"
      "length (sse_bom_prefix s) < 2"
  | (bom) "\<not> sse_bom_decided s" "sse_total_bytes s < MAX_DEEPSEEK_RESPONSE_BYTES" "e = None" "o' = out"
      "s' = s\<lparr>sse_total_bytes := sse_total_bytes s + 1, sse_bom_decided := True, sse_bom_prefix := []\<rparr>"
  | (nobom) "\<not> sse_bom_decided s" "sse_total_bytes s < MAX_DEEPSEEK_RESPONSE_BYTES"
      "push_prefix (sse_bom_prefix s @ [b])
         (s\<lparr>sse_total_bytes := sse_total_bytes s + 1, sse_bom_decided := True, sse_bom_prefix := []\<rparr>) out
       = (s', o', e)"
proof (cases "sse_total_bytes s < MAX_DEEPSEEK_RESPONSE_BYTES")
  case True
  have c: "checked_add_u64 (sse_total_bytes s) 1 = Some (sse_total_bytes s + 1)"
    using True by (simp add: checked_add_u64_def MAX_DEEPSEEK_RESPONSE_BYTES_def U64_LIMIT_def)
  note r = assms(1)[unfolded push_byte_def c Let_def]
  show ?thesis
  proof (cases "sse_bom_decided s")
    case d: True
    with r True show ?thesis by (intro body) simp_all
  next
    case d: False
    let ?q = "sse_bom_prefix s @ [b]"
    consider "starts_with UTF8_BOM ?q \<and> length ?q < length UTF8_BOM"
      | "\<not> (starts_with UTF8_BOM ?q \<and> length ?q < length UTF8_BOM)" "?q = UTF8_BOM"
      | "\<not> (starts_with UTF8_BOM ?q \<and> length ?q < length UTF8_BOM)" "?q \<noteq> UTF8_BOM"
      by blast
    then show ?thesis
    proof cases
      case 1
      with r d True show ?thesis by (intro hold) (simp_all add: UTF8_BOM_def)
    next
      case 2
      with r d True show ?thesis by (intro bom) simp_all
    next
      case 3
      with r d True show ?thesis by (intro nobom) (simp_all split: if_splits)
    qed
  qed
next
  case False
  with assms(2) have t: "sse_total_bytes s = MAX_DEEPSEEK_RESPONSE_BYTES" by simp
  with assms(1) show ?thesis
    by (intro full) (auto simp: push_byte_def checked_add_u64_def Let_def
        MAX_DEEPSEEK_RESPONSE_BYTES_def U64_LIMIT_def)
qed

lemma push_byte_ok:
  assumes "push_byte b s out = (s', o', None)" "sse_ok s"
  shows "sse_ok s'"
proof -
  have t: "sse_total_bytes s \<le> MAX_DEEPSEEK_RESPONSE_BYTES" using assms(2) by (simp add: sse_ok_def)
  from assms(1) t show ?thesis
  proof (cases rule: push_byte_cases)
    case body
    from push_body_byte_bounds[OF body(3)] push_body_byte_frame[OF body(3)] assms(2) body(1,2)
    show ?thesis by (auto simp: sse_ok_def)
  next
    case nobom
    from push_prefix_bounds[OF nobom(3)] push_prefix_frame[OF nobom(3)] assms(2) nobom(1,2)
    show ?thesis by (auto simp: sse_ok_def)
  qed (use assms(2) in \<open>auto simp: sse_ok_def\<close>)
qed

lemma push_byte_failure:
  assumes "push_byte b s out = (s', o', Some e)" "sse_ok s"
  shows "o' = out"
proof -
  have t: "sse_total_bytes s \<le> MAX_DEEPSEEK_RESPONSE_BYTES" using assms(2) by (simp add: sse_ok_def)
  from assms(1) t show ?thesis
  proof (cases rule: push_byte_cases)
    case body
    then show ?thesis by (simp add: push_body_byte_failure)
  next
    case nobom
    from push_prefix_weight[OF nobom(3)] assms(2) nobom(1) show ?thesis
      by (auto simp: sse_ok_def weight_def MAX_SSE_EVENT_BYTES_def)
  qed simp_all
qed

lemma sse_ok_default: "sse_ok sse_default"
  by (simp add: sse_ok_def sse_default_def)

lemma push_bytes_ok: "push_bytes bs s out = (s', o', None) \<Longrightarrow> sse_ok s \<Longrightarrow> sse_ok s'"
proof (induction bs arbitrary: s out)
  case (Cons b bs)
  show ?case
  proof (cases "sse_done s")
    case False
    with Cons.prems obtain s1 o1 where
      b: "push_byte b s out = (s1, o1, None)" "push_bytes bs s1 o1 = (s', o', None)"
      by (auto split: prod.splits option.splits)
    with push_byte_ok[OF b(1)] Cons show ?thesis by blast
  qed (use Cons.prems in simp)
qed simp

section \<open>Properties\<close>

lemma sse_default_undecided: "sse_default = sse_undecided [] 0"
  by (simp add: sse_undecided_def sse_default_def)

lemma sse_failure_prefix:
  assumes "push_bytes bs sse_default [] = (s', o', Some e)"
  shows "\<exists>more. sse_reference bs = o' @ more"
proof -
  from push_bytes_failure[OF assms] obtain pre b post s1 o1 where
    p: "bs = pre @ b # post" "push_bytes pre sse_default [] = (s1, o1, None)"
       "push_byte b s1 o1 = (s', o', Some e)" by blast
  have "o' = o1" using push_byte_failure[OF p(3)] push_bytes_ok[OF p(2) sse_ok_default] by simp
  moreover obtain r where "line_items None (lines_of [] (strip_bom ([] @ pre @ (b # post)))) = o1 @ r"
    using push_bytes_undecided[of pre "[]" 0 s1 o1 "b # post"] p(2)
    by (auto simp: sse_default_undecided starts_with_def)
  ultimately show ?thesis using p(1) by (auto simp: sse_reference_def)
qed

text \<open>
  C36: The items a response yields do not depend on how the network cuts it: pushing the chunks
  one after the other, stopping at a failure, ends in the same decoder with the same items and
  the same failure as pushing the whole response.
\<close>

theorem sse_chunking:
  "fold read_chunk chunks (s, [], None) = sse_push (concat chunks) s"
proof -
  have "fold read_chunk chunks (s, [], None) = read_chunk (concat chunks) (s, [], None)"
    by (rule sse.run_concat [symmetric])
  then show ?thesis by (simp add: read_chunk_push sse_push_def)
qed

text \<open>
  C35: The decoder is the Server-Sent Events framing.  A response that is accepted yields exactly
  the items of the reference (byte order mark dropped; lines ended by CR, LF or CRLF; only
  \<open>data\<close> fields joined by newlines; comments reported; nothing behind \<open>[DONE]\<close>; no unfinished
  event).  A response that is refused is more than a third of a mebibyte long, and the items
  delivered with the failure are the first items of the reference.
\<close>

theorem sse_framing:
  "case sse_push bs sse_default of
     (s, items, None) \<Rightarrow> items = sse_reference bs
   | (s, items, Some e) \<Rightarrow>
       MAX_SSE_EVENT_BYTES < 3 * length bs \<and> (\<exists>more. sse_reference bs = items @ more)"
proof (cases "push_bytes bs sse_default []")
  case (fields s items e)
  show ?thesis
  proof (cases e)
    case None
    from push_bytes_undecided[of bs "[]" 0 s items "[]"] fields None
    have "items = sse_reference bs"
      by (auto simp: sse_default_undecided sse_reference_def starts_with_def)
    with fields None show ?thesis by (simp add: sse_push_def)
  next
    case (Some x)
    have "MAX_SSE_EVENT_BYTES < 3 * length bs"
    proof (rule ccontr)
      assume a: "\<not> MAX_SSE_EVENT_BYTES < 3 * length bs"
      then have "length bs \<le> MAX_DEEPSEEK_RESPONSE_BYTES"
        by (simp add: MAX_SSE_EVENT_BYTES_def MAX_DEEPSEEK_RESPONSE_BYTES_def)
      with a have "e = None"
        by (intro push_bytes_weight[OF fields])
           (simp_all add: read_weight_def weight_def sse_default_def)
      with Some show False by simp
    qed
    with fields Some sse_failure_prefix show ?thesis by (auto simp: sse_push_def)
  qed
qed

text \<open>
  C37: The decoder's memory is bounded while it has not failed: after any bytes it has read at
  most 8 MiB, holds at most 1 MiB of a line and at most 1 MiB of an event.
\<close>

theorem sse_bounded:
  "case sse_push bs sse_default of
     (s, _, None) \<Rightarrow>
       sse_total_bytes s \<le> MAX_DEEPSEEK_RESPONSE_BYTES
       \<and> length (sse_line s) \<le> MAX_SSE_LINE_BYTES \<and> length (sse_data s) \<le> MAX_SSE_EVENT_BYTES
       \<and> length (sse_bom_prefix s) \<le> 2
   | (_, _, Some e) \<Rightarrow> e \<in> {ResponseSize MAX_DEEPSEEK_RESPONSE_BYTES,
       LineLength MAX_SSE_LINE_BYTES, EventData MAX_SSE_EVENT_BYTES}"
proof (cases "push_bytes bs sse_default []")
  case (fields s items e)
  show ?thesis
  proof (cases e)
    case None
    with push_bytes_ok[of bs sse_default "[]" s items] fields sse_ok_default show ?thesis
      by (auto simp: sse_push_def sse_ok_def)
  next
    case (Some x)
    from push_bytes_failure[of bs sse_default "[]" s items x] fields Some obtain pre b post s1 o1 where
      p: "push_bytes pre sse_default [] = (s1, o1, None)" "push_byte b s1 o1 = (s, items, Some x)" by blast
    have "sse_ok s1" using push_bytes_ok[OF p(1) sse_ok_default] .
    then have t: "sse_total_bytes s1 \<le> MAX_DEEPSEEK_RESPONSE_BYTES" by (simp add: sse_ok_def)
    from p(2) t have "x \<in> {ResponseSize MAX_DEEPSEEK_RESPONSE_BYTES, LineLength MAX_SSE_LINE_BYTES,
        EventData MAX_SSE_EVENT_BYTES}"
    proof (cases rule: push_byte_cases)
      case body
      then show ?thesis
        by (auto simp: push_body_byte_def process_line_def Let_def
            split: prod.splits option.splits if_splits)
    next
      case nobom
      from push_prefix_weight[OF nobom(3)] \<open>sse_ok s1\<close> nobom(1) show ?thesis
        by (auto simp: sse_ok_def weight_def MAX_SSE_EVENT_BYTES_def)
    qed simp_all
    with fields Some show ?thesis by (auto simp: sse_push_def)
  qed
qed

end
