(* ===== verification/Key_Decoder.thy ===== *)
theory Key_Decoder
  imports Incremental Utf8
begin

text \<open>
  The terminal key decoder of \<open>src/tui/key_decoder.rs\<close>: an incremental state machine that turns
  raw terminal bytes into keys, bracketed pastes and rejections.  The callback \<open>emit\<close> of the
  source is a function on a caller state \<open>'k\<close> whose flag is \<open>ControlFlow::Break\<close>.  Memory
  allocation is taken to succeed, so the \<open>Capacity\<close> rejection of a paste does not occur.
\<close>

section \<open>Data\<close>

definition MAX_PASTE_BYTES :: nat where
  "MAX_PASTE_BYTES = 64 * 1024"

definition MAX_CSI_BYTES :: nat where
  "MAX_CSI_BYTES = 32"

definition PASTE_END :: string where
  "PASTE_END = [CHR 0x1B, CHR ''['', CHR ''2'', CHR ''0'', CHR ''1'', CHR ''~'']"

datatype key =
    KChar nat | KEnter | KNewline | KEscape | KEof | KTab | KBackTab | KLeft | KRight | KUp | KDown
  | KHome | KEnd | KBackspace | KDelete | KWordErase | KClearBefore | KClearAfter | KYank | KUndo
  | KReverseSearch | KInspect | KPageUp | KPageDown

datatype input_error =
    InvalidUtf8 | UnknownSequence | IncompleteSequence | SequenceTooLong | ControlByte
  | PasteTooLarge | Capacity | EpochExhausted

datatype input_event =
    Key key | PasteStarted | Paste string | PasteRejected input_error | Rejected input_error

record decoded_input =
  di_epoch :: nat
  di_event :: input_event

record paste_state =
  ps_bytes :: string
  ps_seen_bytes :: nat
  ps_end_match :: nat
  ps_oversized :: bool

datatype decode_state = Ground | EscapeState | Csi string | CsiDrain | Ss3 | PasteState paste_state

text \<open>The first \<open>utf8_len\<close> bytes of the buffer \<open>utf8\<close> are one list.\<close>

record key_decoder =
  kd_epoch :: nat
  kd_state :: decode_state
  kd_utf8 :: string

definition key_decoder_default :: key_decoder where
  "key_decoder_default = \<lparr>kd_epoch = 0, kd_state = Ground, kd_utf8 = []\<rparr>"

type_synonym 'k emitter = "decoded_input \<Rightarrow> 'k \<Rightarrow> 'k \<times> bool"
type_synonym 'k flow = "key_decoder \<times> 'k \<times> bool"

section \<open>Bracketed paste\<close>

definition paste_new :: paste_state where
  "paste_new = \<lparr>ps_bytes = [], ps_seen_bytes = 0, ps_end_match = 0, ps_oversized = False\<rparr>"

definition push_content :: "char \<Rightarrow> paste_state \<Rightarrow> paste_state" where
  "push_content b p =
     (let p = p\<lparr>ps_seen_bytes := saturating_add_u64 (ps_seen_bytes p) 1\<rparr> in
      if ps_seen_bytes p > MAX_PASTE_BYTES then p\<lparr>ps_oversized := True\<rparr>
      else p\<lparr>ps_bytes := ps_bytes p @ [b]\<rparr>)"

text \<open>The flag is the return value: the end marker is complete.\<close>

definition paste_feed :: "char \<Rightarrow> paste_state \<Rightarrow> paste_state \<times> bool" where
  "paste_feed b p =
     (if b = PASTE_END ! ps_end_match p then
        (let p = p\<lparr>ps_end_match := ps_end_match p + 1\<rparr> in
         (p, ps_end_match p = length PASTE_END))
      else
        (let p = fold push_content (take (ps_end_match p) PASTE_END) p;
             p = p\<lparr>ps_end_match := 0\<rparr>;
             p = (if b = PASTE_END ! 0 then p\<lparr>ps_end_match := 1\<rparr> else push_content b p)
         in (p, False)))"

definition paste_finish :: "paste_state \<Rightarrow> input_event" where
  "paste_finish p =
     (if ps_oversized p then PasteRejected PasteTooLarge
      else case from_utf8 (ps_bytes p) of
             Inr _ \<Rightarrow> Paste (ps_bytes p)
           | Inl _ \<Rightarrow> PasteRejected InvalidUtf8)"

section \<open>The byte machine\<close>

definition is_csi_final :: "char \<Rightarrow> bool" where
  "is_csi_final b = (64 \<le> byte b \<and> byte b \<le> 126)"

definition emit_event :: "'k emitter \<Rightarrow> key_decoder \<Rightarrow> input_event \<Rightarrow> 'k \<Rightarrow> 'k flow" where
  "emit_event f d e k = (d, f \<lparr>di_epoch = kd_epoch d, di_event = e\<rparr> k)"

definition feed_utf8 :: "'k emitter \<Rightarrow> key_decoder \<Rightarrow> char \<Rightarrow> 'k \<Rightarrow> 'k flow" where
  "feed_utf8 f d b k =
     (if kd_utf8 d \<noteq> [] \<and> byte b < 128 then
        emit_event f (d\<lparr>kd_utf8 := []\<rparr>) (Rejected InvalidUtf8) k
      else if length (kd_utf8 d) = 4 then
        emit_event f (d\<lparr>kd_utf8 := []\<rparr>) (Rejected InvalidUtf8) k
      else
        (let d = d\<lparr>kd_utf8 := kd_utf8 d @ [b]\<rparr> in
         case from_utf8 (kd_utf8 d) of
           Inr text \<Rightarrow>
             (let d = d\<lparr>kd_utf8 := []\<rparr> in
              case text of
                character # _ \<Rightarrow> emit_event f d (Key (KChar character)) k
              | [] \<Rightarrow> (d, k, False))
         | Inl error_len \<Rightarrow>
             if error_len \<noteq> None \<or> length (kd_utf8 d) = 4
             then emit_event f (d\<lparr>kd_utf8 := []\<rparr>) (Rejected InvalidUtf8) k
             else (d, k, False)))"

definition ascii_event :: "nat \<Rightarrow> input_event" where
  "ascii_event n =
     (if n = 13 then Key KEnter
      else if n = 10 then Key KNewline
      else if n = 9 then Key KTab
      else if n = 1 then Key KHome
      else if n = 4 then Key KEof
      else if n = 5 then Key KEnd
      else if n = 8 \<or> n = 127 then Key KBackspace
      else if n = 11 then Key KClearAfter
      else if n = 15 then Key KInspect
      else if n = 18 then Key KReverseSearch
      else if n = 21 then Key KClearBefore
      else if n = 23 then Key KWordErase
      else if n = 25 then Key KYank
      else if n = 31 then Key KUndo
      else if 32 \<le> n \<and> n \<le> 126 then Key (KChar n)
      else Rejected ControlByte)"

definition feed_ascii :: "'k emitter \<Rightarrow> key_decoder \<Rightarrow> char \<Rightarrow> 'k \<Rightarrow> 'k flow" where
  "feed_ascii f d b k =
     (if byte b = 27 then (d\<lparr>kd_state := EscapeState\<rparr>, k, False)
      else emit_event f d (ascii_event (byte b)) k)"

definition feed_ground :: "'k emitter \<Rightarrow> key_decoder \<Rightarrow> char \<Rightarrow> 'k \<Rightarrow> 'k flow" where
  "feed_ground f d b k =
     (if kd_utf8 d \<noteq> [] \<or> 128 \<le> byte b then feed_utf8 f d b k else feed_ascii f d b k)"

definition feed_escape :: "'k emitter \<Rightarrow> key_decoder \<Rightarrow> char \<Rightarrow> 'k \<Rightarrow> 'k flow" where
  "feed_escape f d b k =
     (if b = CHR ''['' then (d\<lparr>kd_state := Csi []\<rparr>, k, False)
      else if b = CHR ''O'' then (d\<lparr>kd_state := Ss3\<rparr>, k, False)
      else
        (let d = d\<lparr>kd_state := Ground\<rparr> in
         case emit_event f d (Key KEscape) k of
           (d, k, brk) \<Rightarrow> if brk then (d, k, True) else feed_ground f d b k))"

definition csi_event :: "string \<Rightarrow> input_event" where
  "csi_event s =
     (if s = ''A'' then Key KUp
      else if s = ''B'' then Key KDown
      else if s = ''C'' then Key KRight
      else if s = ''D'' then Key KLeft
      else if s = ''H'' \<or> s = ''1~'' then Key KHome
      else if s = ''F'' \<or> s = ''4~'' then Key KEnd
      else if s = ''5~'' then Key KPageUp
      else if s = ''6~'' then Key KPageDown
      else if s = ''3~'' then Key KDelete
      else if s = ''Z'' then Key KBackTab
      else if s = ''13;2u'' then Key KNewline
      else if s = ''200~'' then PasteStarted
      else Rejected UnknownSequence)"

definition feed_csi :: "'k emitter \<Rightarrow> key_decoder \<Rightarrow> string \<Rightarrow> char \<Rightarrow> 'k \<Rightarrow> 'k flow" where
  "feed_csi f d sequence b k =
     (if byte b = 27 then
        emit_event f (d\<lparr>kd_state := EscapeState\<rparr>) (Rejected UnknownSequence) k
      else if length sequence = MAX_CSI_BYTES then
        emit_event f (d\<lparr>kd_state := (if is_csi_final b then Ground else CsiDrain)\<rparr>)
          (Rejected SequenceTooLong) k
      else
        (let sequence = sequence @ [b] in
         if \<not> is_csi_final b then
           if \<not> (32 \<le> byte b \<and> byte b \<le> 63)
           then emit_event f (d\<lparr>kd_state := Ground\<rparr>) (Rejected UnknownSequence) k
           else (d\<lparr>kd_state := Csi sequence\<rparr>, k, False)
         else if sequence = ''200~''
           then emit_event f (d\<lparr>kd_state := PasteState paste_new\<rparr>) PasteStarted k
         else emit_event f (d\<lparr>kd_state := Ground\<rparr>) (csi_event sequence) k))"

definition ss3_event :: "char \<Rightarrow> input_event" where
  "ss3_event b =
     (if b = CHR ''A'' then Key KUp
      else if b = CHR ''B'' then Key KDown
      else if b = CHR ''C'' then Key KRight
      else if b = CHR ''D'' then Key KLeft
      else if b = CHR ''H'' then Key KHome
      else if b = CHR ''F'' then Key KEnd
      else Rejected UnknownSequence)"

definition feed_ss3 :: "'k emitter \<Rightarrow> key_decoder \<Rightarrow> char \<Rightarrow> 'k \<Rightarrow> 'k flow" where
  "feed_ss3 f d b k = emit_event f (d\<lparr>kd_state := Ground\<rparr>) (ss3_event b) k"

text \<open>One iteration of the loop of \<open>feed\<close>: the state is taken and replaced by \<open>Ground\<close> first.\<close>

definition feed_byte :: "'k emitter \<Rightarrow> key_decoder \<Rightarrow> char \<Rightarrow> 'k \<Rightarrow> 'k flow" where
  "feed_byte f d0 b k =
     (let d = d0\<lparr>kd_state := Ground\<rparr> in
      case kd_state d0 of
        Ground \<Rightarrow> feed_ground f d b k
      | EscapeState \<Rightarrow> feed_escape f d b k
      | Csi sequence \<Rightarrow> feed_csi f d sequence b k
      | CsiDrain \<Rightarrow>
          if is_csi_final b
          then emit_event f (d\<lparr>kd_state := Ground\<rparr>) (Rejected SequenceTooLong) k
          else (d\<lparr>kd_state := CsiDrain\<rparr>, k, False)
      | Ss3 \<Rightarrow> feed_ss3 f d b k
      | PasteState paste \<Rightarrow>
          (case paste_feed b paste of
             (paste, True) \<Rightarrow> emit_event f (d\<lparr>kd_state := Ground\<rparr>) (paste_finish paste) k
           | (paste, False) \<Rightarrow> (d\<lparr>kd_state := PasteState paste\<rparr>, k, False)))"

fun feed :: "'k emitter \<Rightarrow> key_decoder \<Rightarrow> string \<Rightarrow> 'k \<Rightarrow> 'k flow" where
  "feed f d [] k = (d, k, False)"
| "feed f d (b # bs) k =
     (case feed_byte f d b k of
        (d, k, brk) \<Rightarrow> if brk then (d, k, True) else feed f d bs k)"

section \<open>Epochs and escape expiry\<close>

definition reset_transient :: "key_decoder \<Rightarrow> key_decoder" where
  "reset_transient d = d\<lparr>kd_state := Ground, kd_utf8 := []\<rparr>"

definition reset_epoch :: "key_decoder \<Rightarrow> input_error + key_decoder \<times> nat" where
  "reset_epoch d =
     bindR (ok_or EpochExhausted (checked_add_u64 (kd_epoch d) 1)) (\<lambda>next_epoch.
       Inr (reset_transient (d\<lparr>kd_epoch := next_epoch\<rparr>), next_epoch))"

definition escape_pending :: "key_decoder \<Rightarrow> bool" where
  "escape_pending d = (case kd_state d of
     EscapeState \<Rightarrow> True | Csi _ \<Rightarrow> True | CsiDrain \<Rightarrow> True | Ss3 \<Rightarrow> True
   | Ground \<Rightarrow> False | PasteState _ \<Rightarrow> False)"

definition expire_escape :: "key_decoder \<Rightarrow> key_decoder \<times> decoded_input option" where
  "expire_escape d =
     (let g = d\<lparr>kd_state := Ground\<rparr>;
          ev = (\<lambda>e. Some \<lparr>di_epoch = kd_epoch d, di_event = e\<rparr>) in
      case kd_state d of
        EscapeState \<Rightarrow> (g, ev (Key KEscape))
      | Csi _ \<Rightarrow> (g, ev (Rejected IncompleteSequence))
      | Ss3 \<Rightarrow> (g, ev (Rejected IncompleteSequence))
      | CsiDrain \<Rightarrow> (g, None)
      | Ground \<Rightarrow> (d, None)
      | PasteState _ \<Rightarrow> (d, None))"

section \<open>Chunks of input\<close>

text \<open>\<open>feed\<close> on the whole configuration, for the interface of incremental decoders.\<close>

definition feed_flow :: "'k emitter \<Rightarrow> string \<Rightarrow> 'k flow \<Rightarrow> 'k flow" where
  "feed_flow f bs c = (case c of (d, k, brk) \<Rightarrow> if brk then c else feed f d bs k)"

definition feed_step :: "'k emitter \<Rightarrow> char \<Rightarrow> 'k flow \<Rightarrow> 'k flow" where
  "feed_step f b c = (case c of (d, k, brk) \<Rightarrow> feed_byte f d b k)"

interpretation kd: incremental "feed_flow f" "feed_step f" "\<lambda>c. snd (snd c)" for f
proof
  show "feed_flow f [] c = c" for c
    by (auto simp: feed_flow_def split: prod.splits)
  show "feed_flow f (b # bs) c =
      (if snd (snd c) then c else feed_flow f bs (feed_step f b c))" for b bs c
    by (auto simp: feed_flow_def feed_step_def split: prod.splits)
qed

lemma feed_as_flow: "feed f d bs k = feed_flow f bs (d, k, False)"
  by (simp add: feed_flow_def)

section \<open>The state the decoder may be in\<close>

definition paste_ok :: "paste_state \<Rightarrow> bool" where
  "paste_ok p =
     (ps_end_match p < length PASTE_END
      \<and> length (ps_bytes p) = min (ps_seen_bytes p) MAX_PASTE_BYTES
      \<and> (ps_oversized p = (MAX_PASTE_BYTES < ps_seen_bytes p)))"

definition pending_ok :: "string \<Rightarrow> bool" where
  "pending_ok u = (u = [] \<or> (length u \<le> 3 \<and> from_utf8 u = Inl None \<and> 128 \<le> byte (hd u)))"

definition kd_ok :: "key_decoder \<Rightarrow> bool" where
  "kd_ok d =
     ((kd_state d \<noteq> Ground \<longrightarrow> kd_utf8 d = [])
      \<and> pending_ok (kd_utf8 d)
      \<and> (case kd_state d of
           Csi s \<Rightarrow> length s \<le> MAX_CSI_BYTES \<and> (\<forall>c\<in>set s. 32 \<le> byte c \<and> byte c \<le> 63)
         | PasteState p \<Rightarrow> paste_ok p
         | _ \<Rightarrow> True))"

lemma push_content_simps [simp]:
  "ps_end_match (push_content b p) = ps_end_match p"
  by (simp add: push_content_def Let_def)

lemma fold_push_content_end_match [simp]:
  "ps_end_match (fold push_content bs p) = ps_end_match p"
  by (induction bs arbitrary: p) auto

definition content_ok :: "paste_state \<Rightarrow> bool" where
  "content_ok p = (length (ps_bytes p) = min (ps_seen_bytes p) MAX_PASTE_BYTES
      \<and> ps_oversized p = (MAX_PASTE_BYTES < ps_seen_bytes p))"

lemma push_content_ok: "content_ok p \<Longrightarrow> content_ok (push_content b p)"
  by (auto simp: content_ok_def push_content_def Let_def saturating_add_u64_def MAX_PASTE_BYTES_def
      U64_LIMIT_def)

lemma fold_push_content_ok: "content_ok p \<Longrightarrow> content_ok (fold push_content bs p)"
  by (induction bs arbitrary: p) (auto intro: push_content_ok)

lemma paste_ok_iff: "paste_ok p \<longleftrightarrow> content_ok p \<and> ps_end_match p < length PASTE_END"
  by (auto simp: paste_ok_def content_ok_def)

lemma paste_new_ok: "paste_ok paste_new"
  by (simp add: paste_ok_def paste_new_def PASTE_END_def)

lemma paste_feed_ok: "paste_ok p \<Longrightarrow> paste_feed b p = (p', False) \<Longrightarrow> paste_ok p'"
  unfolding paste_ok_iff paste_feed_def Let_def
  using push_content_ok fold_push_content_ok
  by (auto split: if_splits simp: content_ok_def PASTE_END_def)

text \<open>The fields a sink call leaves alone, and the state after each handler.\<close>

lemma emit_event_state [simp]: "fst (emit_event f d e k) = d"
  by (simp add: emit_event_def)

lemma pending_ok_Nil [simp]: "pending_ok []"
  by (simp add: pending_ok_def)

lemma feed_ground_state:
  "kd_state d = Ground \<Longrightarrow> fst (feed_ground f d b k) =
     (if kd_utf8 d \<noteq> [] \<or> 128 \<le> byte b then
        d\<lparr>kd_utf8 := (if kd_utf8 d \<noteq> [] \<and> byte b < 128 \<or> length (kd_utf8 d) = 4
             \<or> from_utf8 (kd_utf8 d @ [b]) \<noteq> Inl None \<or> length (kd_utf8 d) = 3
             then [] else kd_utf8 d @ [b])\<rparr>
      else if byte b = 27 then d\<lparr>kd_state := EscapeState\<rparr> else d)"
  by (auto simp: feed_ground_def feed_utf8_def feed_ascii_def Let_def split: sum.splits list.splits)

lemma kd_state_id [simp]: "kd_state d = Ground \<Longrightarrow> d\<lparr>kd_state := Ground\<rparr> = d"
  by simp

lemma feed_ground_ok:
  assumes "kd_state d = Ground" "kd_ok d"
  shows "kd_ok (fst (feed_ground f d b k))"
  unfolding feed_ground_state[OF assms(1)] using assms
  by (auto simp: kd_ok_def pending_ok_def hd_append)

lemma feed_escape_ok:
  assumes "kd_state d = Ground" "kd_ok d" "kd_utf8 d = []"
  shows "kd_ok (fst (feed_escape f d b k))"
proof -
  have "kd_ok (d\<lparr>kd_state := Csi []\<rparr>)" "kd_ok (d\<lparr>kd_state := Ss3\<rparr>)"
    using assms by (simp_all add: kd_ok_def)
  with feed_ground_ok[OF assms(1,2)] assms show ?thesis
    by (auto simp: feed_escape_def emit_event_def Let_def split: prod.splits)
qed

lemma feed_csi_ok:
  assumes "kd_state d = Ground" "kd_utf8 d = []" "length s \<le> MAX_CSI_BYTES"
    "\<forall>c\<in>set s. 32 \<le> byte c \<and> byte c \<le> 63"
  shows "kd_ok (fst (feed_csi f d s b k))"
  using assms
  by (auto simp: feed_csi_def Let_def kd_ok_def paste_new_ok)

lemma feed_byte_ok: "kd_ok d \<Longrightarrow> kd_ok (fst (feed_byte f d b k))"
proof -
  assume ok: "kd_ok d"
  let ?d = "d\<lparr>kd_state := Ground\<rparr>"
  have g: "kd_ok ?d" using ok by (simp add: kd_ok_def)
  show ?thesis
  proof (cases "kd_state d")
    case Ground
    with ok feed_ground_ok[of d f b k] show ?thesis
      by (simp add: feed_byte_def)
  next
    case EscapeState
    with ok have "kd_utf8 d = []" by (simp add: kd_ok_def)
    with g EscapeState show ?thesis
      by (simp add: feed_byte_def Let_def feed_escape_ok)
  next
    case (Csi s)
    with ok have "kd_utf8 d = []" "length s \<le> MAX_CSI_BYTES"
      "\<forall>c\<in>set s. 32 \<le> byte c \<and> byte c \<le> 63"
      by (simp_all add: kd_ok_def)
    with Csi show ?thesis
      by (simp add: feed_byte_def Let_def feed_csi_ok)
  next
    case CsiDrain
    with ok g show ?thesis by (simp add: feed_byte_def Let_def kd_ok_def)
  next
    case Ss3
    with g show ?thesis by (simp add: feed_byte_def feed_ss3_def Let_def)
  next
    case (PasteState p)
    with ok show ?thesis
      by (auto simp: feed_byte_def Let_def kd_ok_def split: prod.splits bool.splits
          dest: paste_feed_ok)
  qed
qed

lemma kd_ok_default: "kd_ok key_decoder_default"
  by (simp add: kd_ok_def key_decoder_default_def)

section \<open>The end of a paste\<close>

text \<open>
  After the bytes \<open>p\<close> of a paste, all of \<open>p\<close> but its longest suffix that is a proper prefix
  of the end marker has been stored, up to the limit.
\<close>

definition holds_content :: "string \<Rightarrow> paste_state \<Rightarrow> bool" where
  "holds_content c s = (ps_bytes s = take MAX_PASTE_BYTES c
      \<and> ps_seen_bytes s = min (length c) (U64_LIMIT - 1)
      \<and> ps_oversized s = (MAX_PASTE_BYTES < length c))"

definition longest_border :: "string \<Rightarrow> nat \<Rightarrow> bool" where
  "longest_border p m =
     (\<forall>c j. j < length PASTE_END \<longrightarrow> p = c @ take j PASTE_END \<longrightarrow> j \<le> m)"

definition paste_after :: "string \<Rightarrow> paste_state \<Rightarrow> bool" where
  "paste_after p s =
     (ps_end_match s < length PASTE_END \<and> longest_border p (ps_end_match s)
      \<and> (\<exists>c. p = c @ take (ps_end_match s) PASTE_END \<and> holds_content c s))"

lemma push_content_holds: "holds_content c s \<Longrightarrow> holds_content (c @ [b]) (push_content b s)"
  by (auto simp: holds_content_def push_content_def Let_def saturating_add_u64_def
      MAX_PASTE_BYTES_def U64_LIMIT_def)

lemma fold_push_content_holds:
  "holds_content c s \<Longrightarrow> holds_content (c @ bs) (fold push_content bs s)"
proof (induction bs arbitrary: c s)
  case (Cons b bs)
  from Cons.IH[OF push_content_holds[OF Cons.prems]] show ?case by simp
qed simp

lemma holds_content_end_match [simp]:
  "holds_content c (s\<lparr>ps_end_match := m\<rparr>) = holds_content c s"
  by (simp add: holds_content_def)

text \<open>ESC opens the end marker and occurs nowhere else in it.\<close>

lemma length_PASTE_END [simp]: "length PASTE_END = 6"
  by (simp add: PASTE_END_def)

lemma PASTE_END_esc: "j < 6 \<Longrightarrow> PASTE_END ! j = PASTE_END ! 0 \<longleftrightarrow> j = 0"
  by (auto simp: PASTE_END_def nth_Cons' split: if_splits)

lemma border_step:
  assumes "longest_border p m" "m < 6" "p = c @ take m PASTE_END"
    and q: "p @ [b] = d @ take (Suc j) PASTE_END" "Suc j \<le> 6"
  shows "b = PASTE_END ! j \<and> (j = m \<or> j = 0)"
proof -
  have t: "take (Suc j) PASTE_END = take j PASTE_END @ [PASTE_END ! j]"
    using q(2) by (simp add: take_Suc_conv_app_nth)
  with q have b: "b = PASTE_END ! j" "p = d @ take j PASTE_END" by auto
  with assms(1) q(2) have "j \<le> m" by (auto simp: longest_border_def)
  moreover have "j = 0" if "j < m"
  proof (rule ccontr)
    assume "j \<noteq> 0"
    from b(2) q(2) have l: "length p = length d + j" by simp
    from assms(2,3) have "length p = length c + m" by simp
    with l \<open>j < m\<close> have d: "length d = length c + (m - j)" by simp
    have "p ! length d = PASTE_END ! 0"
      using \<open>j \<noteq> 0\<close> by (simp add: b(2) nth_append)
    moreover have "p ! length d = PASTE_END ! (m - j)"
      unfolding d assms(3) nth_append_length_plus using \<open>j < m\<close> \<open>j \<noteq> 0\<close> by simp
    ultimately show False
      using PASTE_END_esc[of "m - j"] \<open>j < m\<close> \<open>j \<noteq> 0\<close> assms(2) by simp
  qed
  ultimately show ?thesis using b(1) by (cases "j < m") auto
qed

lemma PASTE_END_not_Nil [simp]: "PASTE_END \<noteq> []"
  by (simp add: PASTE_END_def)

lemma paste_after_new: "paste_after [] paste_new"
  by (auto simp: paste_after_def longest_border_def holds_content_def paste_new_def)

definition ends_paste :: "string \<Rightarrow> bool" where
  "ends_paste p = (6 \<le> length p \<and> drop (length p - 6) p = PASTE_END)"

lemma ends_paste_iff: "ends_paste p \<longleftrightarrow> (\<exists>c. p = c @ PASTE_END)"
proof
  assume "ends_paste p"
  then have "p = take (length p - 6) p @ PASTE_END"
    by (metis append_take_drop_id ends_paste_def)
  then show "\<exists>c. p = c @ PASTE_END" ..
qed (auto simp: ends_paste_def)

lemma paste_feed_match:
  assumes a: "paste_after p s" and b: "b = PASTE_END ! ps_end_match s"
  shows "\<exists>s' c. paste_feed b s = (s', ends_paste (p @ [b]))
     \<and> (if ends_paste (p @ [b]) then p @ [b] = c @ PASTE_END \<and> holds_content c s'
        else paste_after (p @ [b]) s')"
proof -
  from a obtain c where m: "ps_end_match s < 6" "longest_border p (ps_end_match s)"
    and c: "p = c @ take (ps_end_match s) PASTE_END" "holds_content c s"
    by (auto simp: paste_after_def)
  let ?m = "ps_end_match s" and ?s = "s\<lparr>ps_end_match := ps_end_match s + 1\<rparr>"
  have t: "p @ [b] = c @ take (Suc ?m) PASTE_END"
    using c(1) b m(1) by (simp add: take_Suc_conv_app_nth)
  have lb: "longest_border (p @ [b]) (Suc ?m)"
  proof (unfold longest_border_def, intro allI impI)
    fix d j assume "j < length PASTE_END" "p @ [b] = d @ take j PASTE_END"
    then show "j \<le> Suc ?m"
      using border_step[OF m(2,1) c(1), of b d "j - 1"] by (cases j) auto
  qed
  have e: "ends_paste (p @ [b]) \<longleftrightarrow> ?m = 5"
  proof
    assume "ends_paste (p @ [b])"
    then obtain d where "p @ [b] = d @ take (Suc 5) PASTE_END" by (auto simp: ends_paste_iff)
    from border_step[OF m(2,1) c(1) this] show "?m = 5" by simp
  next
    assume "?m = 5" then show "ends_paste (p @ [b])" using t by (auto simp: ends_paste_iff)
  qed
  have f: "paste_feed b s = (?s, ?m = 5)" using b by (simp add: paste_feed_def Let_def)
  show ?thesis
  proof (cases "?m = 5")
    case True
    with t have "p @ [b] = c @ PASTE_END" by simp
    with True c(2) e f show ?thesis by auto
  next
    case False
    with m(1) t lb c(2) have "paste_after (p @ [b]) ?s" by (auto simp: paste_after_def)
    with False e f show ?thesis by auto
  qed
qed

lemma paste_feed_mismatch:
  assumes a: "paste_after p s" and b: "b \<noteq> PASTE_END ! ps_end_match s"
  shows "\<exists>s'. paste_feed b s = (s', False) \<and> paste_after (p @ [b]) s' \<and> \<not> ends_paste (p @ [b])"
proof -
  from a obtain c where m: "ps_end_match s < 6" "longest_border p (ps_end_match s)"
    and c: "p = c @ take (ps_end_match s) PASTE_END" "holds_content c s"
    by (auto simp: paste_after_def)
  let ?s = "(fold push_content (take (ps_end_match s) PASTE_END) s)\<lparr>ps_end_match := 0\<rparr>"
  have h: "holds_content p ?s" using fold_push_content_holds[OF c(2)] c(1) by simp
  have n: "j = 0" "b = PASTE_END ! 0" if "p @ [b] = d @ take (Suc j) PASTE_END" "Suc j \<le> 6" for d j
    using border_step[OF m(2,1) c(1) that] b by auto
  have ne: "\<not> ends_paste (p @ [b])"
    using n(1)[of _ 5] by (auto simp: ends_paste_iff)
  have lb: "longest_border (p @ [b]) (if b = PASTE_END ! 0 then 1 else 0)"
  proof (unfold longest_border_def, intro allI impI)
    fix d j assume "j < length PASTE_END" "p @ [b] = d @ take j PASTE_END"
    then show "j \<le> (if b = PASTE_END ! 0 then 1 else 0)"
      using n[of d "j - 1"] by (cases j) auto
  qed
  show ?thesis
  proof (cases "b = PASTE_END ! 0")
    case True
    then have "p @ [b] = p @ take 1 PASTE_END" by (simp add: PASTE_END_def)
    with True lb h have "paste_after (p @ [b]) (?s\<lparr>ps_end_match := 1\<rparr>)"
      by (auto simp: paste_after_def)
    with True b ne show ?thesis by (auto simp: paste_feed_def Let_def)
  next
    case False
    from push_content_holds[OF h, of b] False lb
    have "paste_after (p @ [b]) (push_content b ?s)" by (auto simp: paste_after_def)
    with False b ne show ?thesis by (auto simp: paste_feed_def Let_def)
  qed
qed

text \<open>A reference for the whole paste: the input is cut at the first end marker.\<close>

fun split_paste :: "string \<Rightarrow> (string \<times> string) option" where
  "split_paste [] = None"
| "split_paste (c # cs) =
     (if starts_with (c # cs) PASTE_END then Some ([], drop 5 cs)
      else map_option (apfst (Cons c)) (split_paste cs))"

definition paste_outcome :: "string \<Rightarrow> input_event" where
  "paste_outcome c =
     (if MAX_PASTE_BYTES < length c then PasteRejected PasteTooLarge
      else if valid_utf8 c then Paste c else PasteRejected InvalidUtf8)"

definition in_paste :: "nat \<Rightarrow> paste_state \<Rightarrow> key_decoder" where
  "in_paste e p = \<lparr>kd_epoch = e, kd_state = PasteState p, kd_utf8 = []\<rparr>"

definition grounded :: "nat \<Rightarrow> key_decoder" where
  "grounded e = \<lparr>kd_epoch = e, kd_state = Ground, kd_utf8 = []\<rparr>"

lemma paste_finish_outcome: "holds_content c s \<Longrightarrow> paste_finish s = paste_outcome c"
  by (auto simp: paste_finish_def paste_outcome_def holds_content_def valid_utf8_def
      split: sum.splits)

lemma feed_byte_in_paste:
  "feed_byte f (in_paste e p) b k =
     (case paste_feed b p of
        (p', True) \<Rightarrow> emit_event f (grounded e) (paste_finish p') k
      | (p', False) \<Rightarrow> (in_paste e p', k, False))"
  by (simp add: feed_byte_def in_paste_def grounded_def Let_def split: prod.splits bool.splits)

lemma feed_in_paste_open:
  assumes "paste_after p s" "\<And>q t. bs = q @ t \<Longrightarrow> q \<noteq> [] \<Longrightarrow> \<not> ends_paste (p @ q)"
  shows "\<exists>s'. feed f (in_paste e s) bs k = (in_paste e s', k, False) \<and> paste_after (p @ bs) s'"
  using assms
proof (induction bs arbitrary: p s)
  case (Cons b bs)
  have ne: "\<not> ends_paste (p @ [b])" using Cons.prems(2)[of "[b]" bs] by simp
  then obtain s1 where s1: "paste_feed b s = (s1, False)" "paste_after (p @ [b]) s1"
    using paste_feed_match[OF Cons.prems(1)] paste_feed_mismatch[OF Cons.prems(1)] by metis
  have "\<exists>s'. feed f (in_paste e s1) bs k = (in_paste e s', k, False) \<and> paste_after ((p @ [b]) @ bs) s'"
  proof (rule Cons.IH[OF s1(2)])
    show "\<not> ends_paste ((p @ [b]) @ q)" if "bs = q @ t" "q \<noteq> []" for q t
      using Cons.prems(2)[of "b # q" t] that by simp
  qed
  with s1(1) show ?case by (simp add: feed_byte_in_paste)
qed auto

lemma split_paste_None: "split_paste bs = None \<Longrightarrow> bs = q @ t \<Longrightarrow> \<not> ends_paste q"
proof -
  have n: "split_paste (d @ PASTE_END @ t) \<noteq> None" for d t
    by (induction d) (auto simp: PASTE_END_def starts_with_def)
  assume "split_paste bs = None" "bs = q @ t"
  with n[of _ t] show "\<not> ends_paste q" unfolding ends_paste_iff by (metis append_assoc)
qed

lemma split_paste_Some:
  "split_paste bs = Some (c, r) \<Longrightarrow>
     bs = c @ PASTE_END @ r \<and> (\<forall>d t. bs = d @ PASTE_END @ t \<longrightarrow> length c \<le> length d)"
proof (induction bs arbitrary: c)
  case (Cons b bs)
  show ?case
  proof (cases "starts_with (b # bs) PASTE_END")
    case True
    then have "take 6 (b # bs) = PASTE_END" by (simp add: starts_with_def)
    then have "b # bs = PASTE_END @ drop 6 (b # bs)" by (metis append_take_drop_id)
    with True Cons.prems show ?thesis by auto
  next
    case False
    with Cons.prems obtain c' where c: "split_paste bs = Some (c', r)" "c = b # c'" by auto
    have "length c \<le> length d" if "b # bs = d @ PASTE_END @ t" for d t
      using False Cons.IH[OF c(1)] c(2) that by (cases d) auto
    with Cons.IH[OF c(1)] c(2) show ?thesis by auto
  qed
qed simp

lemma feed_in_paste_end:
  assumes "split_paste bs = Some (c, r)"
  shows "feed f (in_paste e paste_new) bs k =
     (case f \<lparr>di_epoch = e, di_event = paste_outcome c\<rparr> k of
        (k', brk) \<Rightarrow> if brk then (grounded e, k', True) else feed f (grounded e) r k')"
proof -
  note sp = split_paste_Some[OF assms]
  let ?q = "c @ take 5 PASTE_END"
  have pe: "PASTE_END = take 5 PASTE_END @ [CHR ''~'']" by (simp add: PASTE_END_def)
  have bs: "bs = ?q @ CHR ''~'' # r" using sp pe by (metis append.assoc append_Cons append_Nil)
  have "\<exists>s'. feed f (in_paste e paste_new) ?q k = (in_paste e s', k, False) \<and> paste_after ([] @ ?q) s'"
  proof (rule feed_in_paste_open[OF paste_after_new])
    fix q t assume q: "?q = q @ t" "q \<noteq> []"
    show "\<not> ends_paste ([] @ q)"
    proof
      assume "ends_paste ([] @ q)"
      then obtain d where d: "q = d @ PASTE_END" by (auto simp: ends_paste_iff)
      with q bs have "bs = d @ PASTE_END @ (t @ CHR ''~'' # r)" by simp
      with sp have "length c \<le> length d" by blast
      moreover have "length ?q = length q + length t" using q(1) by simp
      ultimately show False by (simp add: d)
    qed
  qed
  then obtain s' where s': "feed f (in_paste e paste_new) ?q k = (in_paste e s', k, False)"
    "paste_after ?q s'" by auto
  have e: "ends_paste (?q @ [CHR ''~''])" using pe by (auto simp: ends_paste_iff)
  then obtain s2 c2 where s2: "paste_feed (CHR ''~'') s' = (s2, True)"
    "?q @ [CHR ''~''] = c2 @ PASTE_END" "holds_content c2 s2"
    using paste_feed_match[OF s'(2), of "CHR ''~''"] paste_feed_mismatch[OF s'(2), of "CHR ''~''"]
    by metis
  have "c2 = c" using s2(2) pe by (metis append.assoc append_same_eq)
  with s2 have f: "feed_byte f (in_paste e s') (CHR ''~'') k
      = (grounded e, f \<lparr>di_epoch = e, di_event = paste_outcome c\<rparr> k)"
    by (simp add: feed_byte_in_paste emit_event_def paste_finish_outcome grounded_def)
  have "feed f (in_paste e paste_new) bs k
      = feed_flow f (CHR ''~'' # r) (feed_flow f ?q (in_paste e paste_new, k, False))"
    unfolding feed_as_flow bs by (rule kd.run_append)
  also have "\<dots> = feed_flow f (CHR ''~'' # r) (in_paste e s', k, False)"
    using s'(1) by (simp add: feed_as_flow)
  also have "\<dots> = feed f (in_paste e s') (CHR ''~'' # r) k" by (simp add: feed_as_flow)
  finally show ?thesis using f by (simp split: prod.splits)
qed

section \<open>Characters\<close>






section \<open>Properties\<close>



text \<open>
  C38: A bracketed paste ends at the first end marker and nowhere else.  The bytes before it,
  whatever they are, become exactly one event (the text, or a rejection when they exceed 64 KiB
  or are not UTF-8), never a key, and decoding goes on in the ground state behind the marker;
  without a marker nothing is emitted and the decoder stays in the paste.
\<close>

theorem key_decoder_paste_boundary:
  "case split_paste bs of
     Some (c, r) \<Rightarrow>
       feed f (in_paste e paste_new) bs k =
         (case f \<lparr>di_epoch = e, di_event = paste_outcome c\<rparr> k of
            (k', brk) \<Rightarrow> if brk then (grounded e, k', True) else feed f (grounded e) r k')
   | None \<Rightarrow> \<exists>p. feed f (in_paste e paste_new) bs k = (in_paste e p, k, False)"
proof (cases "split_paste bs")
  case None
  then have "\<exists>p. feed f (in_paste e paste_new) bs k = (in_paste e p, k, False) \<and> paste_after ([] @ bs) p"
    by (intro feed_in_paste_open paste_after_new) (auto dest: split_paste_None)
  with None show ?thesis by auto
next
  case (Some cr)
  then show ?thesis using feed_in_paste_end by (cases cr) auto
qed



text \<open>
  C39: The decoder holds little, and nothing stale, on every input and whatever the callback
  decides: from the initial state, the pending bytes of a character are at most three, form the
  start of a character that more bytes can still complete, and are there only in the ground state; a control
  sequence is at most 32 bytes, all of them parameter or intermediate bytes; a paste keeps at most 64 KiB
  of its content, is marked oversized exactly when it saw more, and waits for a byte inside the end marker.
\<close>

theorem key_decoder_bounded:
  "case feed f key_decoder_default bs k of (d, _, _) \<Rightarrow>
     (kd_utf8 d = [] \<or> kd_state d = Ground \<and> length (kd_utf8 d) \<le> 3 \<and> from_utf8 (kd_utf8 d) = Inl None)
     \<and> (case kd_state d of
          Csi s \<Rightarrow> length s \<le> MAX_CSI_BYTES \<and> list_all (\<lambda>c. 32 \<le> byte c \<and> byte c \<le> 63) s
        | PasteState p \<Rightarrow> length (ps_bytes p) = min (ps_seen_bytes p) MAX_PASTE_BYTES
            \<and> ps_oversized p = (MAX_PASTE_BYTES < ps_seen_bytes p) \<and> ps_end_match p < length PASTE_END
        | _ \<Rightarrow> True)"
proof -
  have "kd_ok (fst (feed_flow f bs (key_decoder_default, k, False)))"
    by (rule kd.run_invariant[where I = "\<lambda>c. kd_ok (fst c)"])
       (auto simp: feed_step_def feed_byte_ok kd_ok_default)
  then show ?thesis
    unfolding feed_as_flow
    by (auto simp: kd_ok_def pending_ok_def paste_ok_def list_all_iff split: prod.splits decode_state.splits)
qed

end
