(* ===== verification/Json_Value.thy ===== *)
theory Json_Value
  imports Utf8
begin

text \<open>
  The bounded JSON values of \<open>src/json_value.rs\<close>.  A \<open>serde_json::Value\<close> is a \<open>json\<close>; its
  object is the association list of a \<open>BTreeMap\<close>, sorted by key.  A binary64 number is its 64
  bits.  The decimal texts of a number that is not an integer (of \<open>serde_json\<close> and of \<open>ryu_js\<close>)
  are fields of the record \<open>externals\<close>, as is the SHA-256 of \<open>aws-lc-rs\<close>.
  Residency charges of allocations are not modelled.
\<close>

record externals =
  ext_ryu_js_text :: "64 word \<Rightarrow> string"
  ext_float_text :: "64 word \<Rightarrow> string"
  ext_sha256 :: "string \<Rightarrow> string"

datatype json =
    JNull
  | JBool bool
  | JInt int
  | JFloat "64 word"
  | JString string
  | JArray "json list"
  | JObject "(string \<times> json) list"

section \<open>Binary64 numbers\<close>

definition f64_sign :: "64 word \<Rightarrow> bool" where
  "f64_sign w = (2 ^ 63 \<le> unat w)"

definition f64_exponent :: "64 word \<Rightarrow> nat" where
  "f64_exponent w = unat w div 2 ^ 52 mod 2048"

definition f64_fraction :: "64 word \<Rightarrow> nat" where
  "f64_fraction w = unat w mod 2 ^ 52"

definition f64_is_finite :: "64 word \<Rightarrow> bool" where
  "f64_is_finite w = (f64_exponent w < 2047)"

definition f64_is_zero :: "64 word \<Rightarrow> bool" where
  "f64_is_zero w = (f64_exponent w = 0 \<and> f64_fraction w = 0)"

text \<open>The magnitude as an integer, when \<open>fract() == 0.0\<close>.\<close>

definition f64_magnitude :: "64 word \<Rightarrow> nat option" where
  "f64_magnitude w =
     (let e = f64_exponent w; m = 2 ^ 52 + f64_fraction w in
      if e = 2047 then None
      else if f64_is_zero w then Some 0
      else if 1075 \<le> e then Some (m * 2 ^ (e - 1075))
      else if 1023 \<le> e then (if m mod 2 ^ (1075 - e) = 0 then Some (m div 2 ^ (1075 - e)) else None)
      else None)"

definition f64_integer :: "64 word \<Rightarrow> int option" where
  "f64_integer w = map_option (\<lambda>n. if f64_sign w then - int n else int n) (f64_magnitude w)"

section \<open>Objects\<close>

fun str_less :: "string \<Rightarrow> string \<Rightarrow> bool" where
  "str_less [] [] = False"
| "str_less [] (_ # _) = True"
| "str_less (_ # _) [] = False"
| "str_less (a # as) (b # bs) = (byte a < byte b \<or> (a = b \<and> str_less as bs))"

fun obj_insert :: "string \<Rightarrow> json \<Rightarrow> (string \<times> json) list \<Rightarrow> (string \<times> json) list" where
  "obj_insert k v [] = [(k, v)]"
| "obj_insert k v ((k', v') # m) =
     (if k = k' then (k, v) # m
      else if str_less k k' then (k, v) # (k', v') # m
      else (k', v') # obj_insert k v m)"

definition obj_of :: "(string \<times> json) list \<Rightarrow> json" where
  "obj_of kvs = JObject (fold (\<lambda>(k, v). obj_insert k v) kvs [])"

fun as_str :: "json \<Rightarrow> string option" where
  "as_str (JString s) = Some s"
| "as_str _ = None"

fun as_bool :: "json \<Rightarrow> bool option" where
  "as_bool (JBool b) = Some b"
| "as_bool _ = None"

fun as_array :: "json \<Rightarrow> json list option" where
  "as_array (JArray xs) = Some xs"
| "as_array _ = None"

fun as_object :: "json \<Rightarrow> (string \<times> json) list option" where
  "as_object (JObject m) = Some m"
| "as_object _ = None"

lemma map_of_obj_insert [simp]: "map_of (obj_insert k v m) k' = (if k' = k then Some v else map_of m k')"
  by (induction m) auto

definition obj_fields :: "json \<Rightarrow> string \<Rightarrow> json option" where
  "obj_fields v k = Option.bind (as_object v) (\<lambda>m. map_of m k)"

lemma map_of_fold_insert:
  "map_of (fold (\<lambda>(k, v). obj_insert k v) kvs m) k =
     (case map_of (rev kvs) k of Some v \<Rightarrow> Some v | None \<Rightarrow> map_of m k)"
  by (induction kvs arbitrary: m) (auto simp: map_add_def split: option.splits)

lemma as_object_obj_of:
  "as_object (obj_of kvs) = Some (fold (\<lambda>(k, v). obj_insert k v) kvs [])"
  by (simp add: obj_of_def)

section \<open>Compact text\<close>

fun digits :: "nat \<Rightarrow> string" where
  "digits n = (if n < 10 then [char_of (48 + n)] else digits (n div 10) @ [char_of (48 + n mod 10)])"

declare digits.simps [simp del]

definition int_text :: "int \<Rightarrow> string" where
  "int_text i = (if i < 0 then ''-'' @ digits (nat (- i)) else digits (nat i))"

definition hex_digit :: "nat \<Rightarrow> char" where
  "hex_digit n = (if n < 10 then char_of (48 + n) else char_of (87 + n))"

text \<open>The escapes of \<open>serde_json\<close>'s compact formatter.\<close>

definition escape_char :: "char \<Rightarrow> string" where
  "escape_char c =
     (let n = byte c in
      if n = 34 then [CHR 0x5C, CHR 0x22]
      else if n = 92 then [CHR 0x5C, CHR 0x5C]
      else if n = 8 then [CHR 0x5C, CHR ''b'']
      else if n = 9 then [CHR 0x5C, CHR ''t'']
      else if n = 10 then [CHR 0x5C, CHR ''n'']
      else if n = 12 then [CHR 0x5C, CHR ''f'']
      else if n = 13 then [CHR 0x5C, CHR ''r'']
      else if n < 32 then [CHR 0x5C, CHR ''u'', CHR ''0'', CHR ''0'', hex_digit (n div 16), hex_digit (n mod 16)]
      else [c])"

definition string_text :: "string \<Rightarrow> string" where
  "string_text s = [CHR 0x22] @ concat (map escape_char s) @ [CHR 0x22]"

fun commas :: "string list \<Rightarrow> string" where
  "commas [] = []"
| "commas [s] = s"
| "commas (s # ss) = s @ '','' @ commas ss"

fun json_text :: "externals \<Rightarrow> json \<Rightarrow> string" where
  "json_text E JNull = ''null''"
| "json_text E (JBool b) = (if b then ''true'' else ''false'')"
| "json_text E (JInt i) = int_text i"
| "json_text E (JFloat w) = ext_float_text E w"
| "json_text E (JString s) = string_text s"
| "json_text E (JArray xs) = ''['' @ commas (map (json_text E) xs) @ '']''"
| "json_text E (JObject m) =
     ''{'' @ commas (map (\<lambda>(k, v). string_text k @ '':'' @ json_text E v) m) @ ''}''"

section \<open>Admission\<close>

definition MAX_JSON_DEPTH :: nat where
  "MAX_JSON_DEPTH = 128"

definition MAX_JSON_NODES :: nat where
  "MAX_JSON_NODES = 1000000"

definition MAX_JSON_VALUE_BYTES :: nat where
  "MAX_JSON_VALUE_BYTES = 8 * 1024 * 1024"

datatype json_error =
    InvalidNumber
  | TooDeep nat
  | TooManyNodes nat
  | TooLarge nat nat
  | NotNonNegativeSafeInteger
  | NotPositiveFiniteNumber

record json_value =
  jv_value :: json
  jv_encoded_len :: nat

text \<open>
  The number test of \<open>inspect_json\<close>.  \<open>as_f64\<close> of an integer is integral, never negative zero,
  and above \<open>MAX_SAFE_INTEGER\<close> in magnitude exactly when the integer is.
\<close>

definition number_ok :: "json \<Rightarrow> bool" where
  "number_ok v = (case v of
     JInt i \<Rightarrow> nat \<bar>i\<bar> \<le> MAX_SAFE_INTEGER
   | JFloat w \<Rightarrow>
       f64_is_finite w \<and> \<not> (f64_is_zero w \<and> f64_sign w)
       \<and> (case f64_magnitude w of None \<Rightarrow> True | Some n \<Rightarrow> n \<le> MAX_SAFE_INTEGER)
   | _ \<Rightarrow> True)"

fun children :: "json \<Rightarrow> json list" where
  "children (JArray xs) = xs"
| "children (JObject m) = map snd m"
| "children _ = []"

lemma size_children: "sum_list (map (\<lambda>c. Suc (size c)) (children v)) \<le> size v"
proof (cases v)
  case (JArray xs)
  have "sum_list (map (\<lambda>c. Suc (size c)) xs) \<le> size_list size xs" by (induction xs) auto
  with JArray show ?thesis by simp
next
  case (JObject m)
  have "sum_list (map (\<lambda>c. Suc (size c)) (map snd m)) \<le> size_list (size_prod (\<lambda>_. 0) size) m"
    by (induction m) auto
  with JObject show ?thesis by simp
qed auto

text \<open>
  The traversal keeps the rest of every open container, innermost first; \<open>work\<close> is their
  concatenation, each node with its depth.
\<close>

function inspect_loop :: "(json \<times> nat) list \<Rightarrow> nat \<Rightarrow> json_error + unit" where
  "inspect_loop [] nodes = Inr ()"
| "inspect_loop ((node, depth) # work) nodes =
     (let nodes = saturating_add_u64 nodes 1 in
      if nodes > MAX_JSON_NODES then Inl (TooManyNodes MAX_JSON_NODES)
      else if depth > MAX_JSON_DEPTH then Inl (TooDeep MAX_JSON_DEPTH)
      else if \<not> number_ok node then Inl InvalidNumber
      else inspect_loop (map (\<lambda>c. (c, saturating_add_u64 depth 1)) (children node) @ work) nodes)"
  by pat_completeness auto
termination
  by (relation "measure (\<lambda>(work, _). sum_list (map (\<lambda>(v, _). Suc (size v)) work))")
     (auto simp: o_def le_imp_less_Suc [OF size_children])

definition inspect_json :: "json \<Rightarrow> json_error + unit" where
  "inspect_json v = inspect_loop [(v, 0)] 0"

fun normalize_numbers :: "json \<Rightarrow> json" where
  "normalize_numbers (JFloat w) =
     (case f64_integer w of
        Some i \<Rightarrow> if nat \<bar>i\<bar> \<le> MAX_SAFE_INTEGER then JInt i else JFloat w
      | None \<Rightarrow> JFloat w)"
| "normalize_numbers (JArray xs) = JArray (map normalize_numbers xs)"
| "normalize_numbers (JObject m) = JObject (map (\<lambda>(k, v). (k, normalize_numbers v)) m)"
| "normalize_numbers v = v"

definition encoded_len :: "externals \<Rightarrow> json \<Rightarrow> nat" where
  "encoded_len E v = length (json_text E v)"

definition json_value_new :: "externals \<Rightarrow> json \<Rightarrow> json_error + json_value" where
  "json_value_new E v =
     bindR (inspect_json v) (\<lambda>_.
       let v = normalize_numbers v; n = encoded_len E v in
       if n > MAX_JSON_VALUE_BYTES then Inl (TooLarge MAX_JSON_VALUE_BYTES n)
       else Inr \<lparr>jv_value = v, jv_encoded_len = n\<rparr>)"

section \<open>What admission means\<close>

text \<open>The number of nodes, and the condition that a tree hung at depth \<open>d\<close> is shallow and sound.\<close>

fun json_nodes :: "json \<Rightarrow> nat" where
  "json_nodes (JArray xs) = Suc (sum_list (map json_nodes xs))"
| "json_nodes (JObject m) = Suc (sum_list (map (\<lambda>(_, v). json_nodes v) m))"
| "json_nodes _ = 1"

fun json_fits :: "nat \<Rightarrow> json \<Rightarrow> bool" where
  "json_fits d (JArray xs) = (d \<le> MAX_JSON_DEPTH \<and> (\<forall>x\<in>set xs. json_fits (Suc d) x))"
| "json_fits d (JObject m) = (d \<le> MAX_JSON_DEPTH \<and> (\<forall>(_, v)\<in>set m. json_fits (Suc d) v))"
| "json_fits d v = (d \<le> MAX_JSON_DEPTH \<and> number_ok v)"

lemma json_nodes_children: "json_nodes v = Suc (sum_list (map json_nodes (children v)))"
  by (cases v) (auto simp: o_def case_prod_unfold)

lemma json_fits_children:
  "json_fits d v \<longleftrightarrow> d \<le> MAX_JSON_DEPTH \<and> number_ok v \<and> (\<forall>c\<in>set (children v). json_fits (Suc d) c)"
  by (cases v) (auto simp: number_ok_def)

lemma inspect_loop_iff:
  assumes "nodes \<le> MAX_JSON_NODES" "\<forall>(v, d)\<in>set work. d \<le> Suc MAX_JSON_DEPTH"
  shows "inspect_loop work nodes = Inr () \<longleftrightarrow>
     nodes + sum_list (map (\<lambda>(v, _). json_nodes v) work) \<le> MAX_JSON_NODES
     \<and> (\<forall>(v, d)\<in>set work. json_fits d v)"
  using assms
proof (induction work nodes rule: inspect_loop.induct)
  case (2 node depth work nodes)
  have sat: "saturating_add_u64 nodes (Suc 0) = Suc nodes"
    "depth \<le> MAX_JSON_DEPTH \<Longrightarrow> saturating_add_u64 depth (Suc 0) = Suc depth"
    using 2(2,3) by (auto simp: saturating_add_u64_def MAX_JSON_NODES_def MAX_JSON_DEPTH_def U64_LIMIT_def)
  let ?kids = "map (\<lambda>c. (c, Suc depth)) (children node)"
  show ?case
  proof (cases "Suc nodes \<le> MAX_JSON_NODES \<and> depth \<le> MAX_JSON_DEPTH \<and> number_ok node")
    case True
    then have "inspect_loop ((node, depth) # work) nodes = inspect_loop (?kids @ work) (Suc nodes)"
      by (simp add: sat Let_def)
    moreover have "inspect_loop (?kids @ work) (Suc nodes) = Inr () \<longleftrightarrow>
        Suc nodes + sum_list (map (\<lambda>(v, _). json_nodes v) (?kids @ work)) \<le> MAX_JSON_NODES
        \<and> (\<forall>(v, d)\<in>set (?kids @ work). json_fits d v)"
      using "2.IH"[OF refl] True 2(3) by (auto simp: sat)
    moreover have "sum_list (map (\<lambda>(v, _). json_nodes v) ?kids) = sum_list (map json_nodes (children node))"
      by (simp add: o_def)
    ultimately show ?thesis
      using True json_nodes_children[of node] json_fits_children[of depth node] by auto
  next
    case False
    then have "inspect_loop ((node, depth) # work) nodes \<noteq> Inr ()"
      by (auto simp: sat Let_def)
    moreover have "\<not> json_fits depth node" if "\<not> (depth \<le> MAX_JSON_DEPTH \<and> number_ok node)"
      using that json_fits_children[of depth node] by blast
    ultimately show ?thesis using False json_nodes_children[of node] by auto
  qed
qed simp

lemma inspect_json_iff:
  "inspect_json v = Inr () \<longleftrightarrow> json_nodes v \<le> MAX_JSON_NODES \<and> json_fits 0 v"
  using inspect_loop_iff[of 0 "[(v, 0)]"] by (simp add: inspect_json_def)

lemma number_ok_normalize: "number_ok (JFloat w) \<Longrightarrow> number_ok (normalize_numbers (JFloat w))"
  by (auto simp: number_ok_def split: option.splits)

lemma json_fits_normalize: "json_fits d v \<Longrightarrow> json_fits d (normalize_numbers v)"
proof (induction v arbitrary: d rule: normalize_numbers.induct)
  case (1 w)
  then show ?case
    using number_ok_normalize[of w] by (auto split: option.splits if_splits)
next
  case (3 m)
  then show ?case by fastforce
qed auto

lemma json_nodes_normalize [simp]: "json_nodes (normalize_numbers v) = json_nodes v"
proof (induction v rule: normalize_numbers.induct)
  case (1 w)
  show ?case by (auto split: option.splits)
next
  case (2 xs)
  then show ?case by (simp add: o_def cong: map_cong)
next
  case (3 m)
  then show ?case by (auto simp: o_def case_prod_unfold intro!: arg_cong[where f = sum_list])
qed auto

lemma normalize_idem [simp]: "normalize_numbers (normalize_numbers v) = normalize_numbers v"
proof (induction v rule: normalize_numbers.induct)
  case (1 w)
  show ?case by (auto split: option.splits)
qed auto

lemma map_of_normalize:
  "map_of (map (\<lambda>(k, v). (k, normalize_numbers v)) m) k = map_option normalize_numbers (map_of m k)"
  by (induction m) auto

lemma json_value_new_value: "json_value_new E v = Inr r \<Longrightarrow> jv_value r = normalize_numbers v"
  by (auto simp: json_value_new_def result_simps Let_def split: if_splits)

lemma json_value_new_iff:
  "json_value_new E v = Inr r \<longleftrightarrow>
      json_nodes v \<le> MAX_JSON_NODES \<and> json_fits 0 v \<and> jv_value r = normalize_numbers v
      \<and> jv_encoded_len r = length (json_text E (jv_value r)) \<and> jv_encoded_len r \<le> MAX_JSON_VALUE_BYTES"
  by (cases r) (auto simp: json_value_new_def result_simps Let_def encoded_len_def inspect_json_iff)

lemma json_value_new_again: "json_value_new E v = Inr r \<Longrightarrow> json_value_new E (jv_value r) = Inr r"
  by (auto simp: json_value_new_iff json_fits_normalize)

text \<open>The length of numbers and strings in compact text.\<close>

lemma digits_length: "n < 10 ^ k \<Longrightarrow> 0 < k \<Longrightarrow> length (digits n) \<le> k"
proof (induction k arbitrary: n)
  case (Suc k)
  show ?case
  proof (cases "n < 10")
    case False
    then have "n div 10 < 10 ^ k" "0 < k" using Suc.prems(1) by (auto intro: gr0I)
    then show ?thesis using Suc.IH[of "n div 10"] False by (subst digits.simps) simp
  qed (subst digits.simps, simp)
qed simp

lemma escape_length: "length (escape_char c) \<le> 6"
  by (simp add: escape_char_def Let_def)

lemma string_text_length: "length (string_text s) \<le> 6 * length s + 2"
proof -
  have "sum_list (map (length \<circ> escape_char) s) \<le> 6 * length s"
    by (induction s) (use escape_length in \<open>auto simp: add_mono\<close>)
  then show ?thesis by (simp add: string_text_def length_concat)
qed

text \<open>Evaluation on a concrete value.\<close>

lemma json_value_new_eval:
  assumes "json_nodes v \<le> MAX_JSON_NODES" "json_fits 0 v" "encoded_len E (normalize_numbers v) \<le> MAX_JSON_VALUE_BYTES"
  shows "json_value_new E v =
     Inr \<lparr>jv_value = normalize_numbers v, jv_encoded_len = encoded_len E (normalize_numbers v)\<rparr>"
  using assms by (simp add: json_value_new_iff encoded_len_def)

lemmas json_eval = obj_of_def byte_def json_value_new_eval encoded_len_def string_text_def
  escape_char_def number_ok_def MAX_JSON_NODES_def MAX_JSON_VALUE_BYTES_def MAX_JSON_DEPTH_def

text \<open>
  C27: Admission of an untrusted JSON value: it succeeds exactly when the tree has at most a
  million nodes, no node deeper than 128, only finite numbers that JavaScript holds without
  loss, and at most 8 MiB of compact text; the value kept is the normalized one with its true
  length, whose admission succeeds again and changes nothing.
\<close>

theorem json_admission:
  "(json_value_new E v = Inr r) =
     (json_nodes v \<le> MAX_JSON_NODES \<and> json_fits 0 v
      \<and> jv_value r = normalize_numbers v \<and> jv_encoded_len r = length (json_text E (jv_value r))
      \<and> jv_encoded_len r \<le> MAX_JSON_VALUE_BYTES \<and> json_value_new E (jv_value r) = Inr r)"
  unfolding json_value_new_iff using json_fits_normalize[of 0 v] by auto

end
