(* ===== verification/Model_Message.thy ===== *)
theory Model_Message
  imports Json_Value
begin

text \<open>
  Provider-neutral messages of \<open>src/model/mod.rs\<close> and \<open>src/model/message.rs\<close>: the parsers that
  read known facts out of extensible JSON, the constructors, and the shape checks that the
  session relies on.  Opaque identities are strings.  The detail text of a shape error is not
  kept; its subject is.
\<close>

section \<open>Errors and field access\<close>

datatype model_error =
    EmptyMessageId
  | EmptyProvider
  | EmptyModel
  | EmptyOptionalId string
  | InvalidAdapterDefault string
  | InvalidContextForm
  | InvalidToolResult
  | WrongMessageShape string
  | InvalidJsonNumber
  | InvalidShape string
  | InvalidFailure string
  | TooManyContentBlocks nat nat
  | JsonError json_error

type_synonym fields = "(string \<times> json) list"

definition MAX_MESSAGE_CONTENT_BLOCKS :: nat where
  "MAX_MESSAGE_CONTENT_BLOCKS = 4096"

definition new_value :: "externals \<Rightarrow> json \<Rightarrow> model_error + json_value" where
  "new_value E v = map_err JsonError (json_value_new E v)"

definition object :: "json \<Rightarrow> string \<Rightarrow> model_error + fields" where
  "object v subject = ok_or (InvalidShape subject) (as_object v)"

definition get_str :: "fields \<Rightarrow> string \<Rightarrow> string option" where
  "get_str m k = Option.bind (map_of m k) as_str"

definition required_string :: "fields \<Rightarrow> string \<Rightarrow> string \<Rightarrow> model_error + string" where
  "required_string m k subject = ok_or (InvalidShape subject) (get_str m k)"

definition optional_string :: "fields \<Rightarrow> string \<Rightarrow> string \<Rightarrow> model_error + string option" where
  "optional_string m k subject =
     (case map_of m k of
        None \<Rightarrow> Inr None
      | Some (JString s) \<Rightarrow> Inr (Some s)
      | Some _ \<Rightarrow> Inl (InvalidShape subject))"

text \<open>A \<open>Deserialize\<close> implementation is a partial function on JSON.\<close>

definition required_typed :: "(json \<Rightarrow> 'a option) \<Rightarrow> fields \<Rightarrow> string \<Rightarrow> string \<Rightarrow> model_error + 'a" where
  "required_typed de m k subject =
     bindR (ok_or (InvalidShape subject) (map_of m k)) (\<lambda>v. ok_or (InvalidShape subject) (de v))"

definition optional_typed :: "(json \<Rightarrow> 'a option) \<Rightarrow> fields \<Rightarrow> string \<Rightarrow> string \<Rightarrow> model_error + 'a option" where
  "optional_typed de m k subject =
     (case map_of m k of
        None \<Rightarrow> Inr None
      | Some v \<Rightarrow> bindR (ok_or (InvalidShape subject) (de v)) (\<lambda>x. Inr (Some x)))"

definition optional_json :: "externals \<Rightarrow> fields \<Rightarrow> string \<Rightarrow> model_error + json_value option" where
  "optional_json E m k =
     (case map_of m k of
        None \<Rightarrow> Inr None
      | Some v \<Rightarrow> bindR (new_value E v) (\<lambda>x. Inr (Some x)))"

text \<open>
  The derived readers of \<open>serde\<close>: a unit variant is its name, or an object with that one key
  and a null; a struct is an object, or an array of its fields in order.
\<close>

fun unit_variant :: "json \<Rightarrow> string option" where
  "unit_variant (JString s) = Some s"
| "unit_variant (JObject [(k, JNull)]) = Some k"
| "unit_variant _ = None"

fun struct_fields :: "string list \<Rightarrow> json \<Rightarrow> fields option" where
  "struct_fields keys (JObject m) = Some m"
| "struct_fields keys (JArray xs) = (if length xs \<le> length keys then Some (zip keys xs) else None)"
| "struct_fields keys _ = None"

text \<open>\<open>deserialize_safe_u64\<close>; \<open>value as u64\<close> of an integral binary64 is that integer.\<close>

definition safe_u64 :: "bool \<Rightarrow> json \<Rightarrow> nat option" where
  "safe_u64 positive v =
     (let check = (\<lambda>i. if i < 0 \<or> nat i > MAX_SAFE_INTEGER \<or> (positive \<and> i = 0) then None else Some (nat i)) in
      case v of
        JInt i \<Rightarrow> check i
      | JFloat w \<Rightarrow>
          (case f64_integer w of
             None \<Rightarrow> None
           | Some i \<Rightarrow> if f64_is_zero w \<and> f64_sign w then None else check i)
      | _ \<Rightarrow> None)"

definition nonneg_new :: "nat \<Rightarrow> json_error + nat" where
  "nonneg_new n = (if n > MAX_SAFE_INTEGER then Inl NotNonNegativeSafeInteger else Inr n)"

section \<open>Content blocks\<close>

datatype image_media_type = Png | Jpeg | Webp | Gif

record image_attachment =
  img_attachment_id :: string
  img_media_type :: image_media_type
  img_bytes :: nat
  img_width :: nat
  img_height :: nat
  img_name :: "string option"

datatype content_block_kind =
    TextBlock string
  | ReasoningBlock string
  | ImageBlock image_attachment
  | ToolCallBlock string string string
  | ToolResultBlock string "bool option"
  | OtherBlock "string option"

record content_block =
  cb_kind :: content_block_kind
  cb_raw :: json_value

definition de_media_type :: "json \<Rightarrow> image_media_type option" where
  "de_media_type v =
     (case unit_variant v of
        None \<Rightarrow> None
      | Some s \<Rightarrow>
          if s = ''image/png'' then Some Png
          else if s = ''image/jpeg'' then Some Jpeg
          else if s = ''image/webp'' then Some Webp
          else if s = ''image/gif'' then Some Gif
          else None)"

definition de_image :: "json \<Rightarrow> image_attachment option" where
  "de_image v =
     Option.bind (struct_fields [''attachmentId'', ''mediaType'', ''bytes'', ''width'', ''height'', ''name''] v) (\<lambda>m.
     Option.bind (get_str m ''attachmentId'') (\<lambda>i.
     Option.bind (Option.bind (map_of m ''mediaType'') de_media_type) (\<lambda>t.
     Option.bind (Option.bind (map_of m ''bytes'') (safe_u64 False)) (\<lambda>b.
     Option.bind (Option.bind (map_of m ''width'') (safe_u64 False)) (\<lambda>w.
     Option.bind (Option.bind (map_of m ''height'') (safe_u64 False)) (\<lambda>h.
     Option.bind (case map_of m ''name'' of None \<Rightarrow> Some None | Some n \<Rightarrow> map_option Some (as_str n)) (\<lambda>n.
       Some \<lparr>img_attachment_id = i, img_media_type = t, img_bytes = b, img_width = w,
             img_height = h, img_name = n\<rparr>)))))))"

definition parse_content_block :: "json \<Rightarrow> content_block_kind" where
  "parse_content_block v =
     (case as_object v of
        None \<Rightarrow> OtherBlock None
      | Some m \<Rightarrow>
          (let t = get_str m ''type'' in
           if t = Some ''text'' then
             (case get_str m ''text'' of Some s \<Rightarrow> TextBlock s | None \<Rightarrow> OtherBlock t)
           else if t = Some ''reasoning'' then
             (case get_str m ''text'' of Some s \<Rightarrow> ReasoningBlock s | None \<Rightarrow> OtherBlock t)
           else if t = Some ''image'' then
             (case Option.bind (map_of m ''attachment'') de_image of
                Some a \<Rightarrow> ImageBlock a | None \<Rightarrow> OtherBlock t)
           else if t = Some ''tool-call'' then
             (case (get_str m ''id'', get_str m ''name'', get_str m ''arguments'') of
                (Some i, Some n, Some a) \<Rightarrow> ToolCallBlock i n a
              | _ \<Rightarrow> OtherBlock t)
           else if t = Some ''tool-result'' then
             (case (get_str m ''toolCallId'', Option.bind (map_of m ''content'') as_array) of
                (Some c, Some _) \<Rightarrow> ToolResultBlock c (Option.bind (map_of m ''isError'') as_bool)
              | _ \<Rightarrow> OtherBlock t)
           else OtherBlock t))"

definition block_from_value :: "externals \<Rightarrow> json \<Rightarrow> model_error + content_block" where
  "block_from_value E v =
     bindR (new_value E v) (\<lambda>raw.
       Inr \<lparr>cb_kind = parse_content_block (jv_value raw), cb_raw = raw\<rparr>)"

definition block_text :: "externals \<Rightarrow> string \<Rightarrow> model_error + content_block" where
  "block_text E s = block_from_value E (obj_of [(''type'', JString ''text''), (''text'', JString s)])"

definition block_reasoning :: "externals \<Rightarrow> string \<Rightarrow> model_error + content_block" where
  "block_reasoning E s =
     block_from_value E (obj_of [(''type'', JString ''reasoning''), (''text'', JString s)])"

definition block_tool_call :: "externals \<Rightarrow> string \<Rightarrow> string \<Rightarrow> string \<Rightarrow> model_error + content_block" where
  "block_tool_call E i n a = block_from_value E (obj_of
     [(''type'', JString ''tool-call''), (''id'', JString i), (''name'', JString n), (''arguments'', JString a)])"

definition block_tool_result :: "externals \<Rightarrow> string \<Rightarrow> content_block list \<Rightarrow> bool option \<Rightarrow> model_error + content_block" where
  "block_tool_result E call_id content is_error =
     block_from_value E (obj_of
       ([(''type'', JString ''tool-result''), (''toolCallId'', JString call_id),
         (''content'', JArray (map (\<lambda>b. jv_value (cb_raw b)) content))]
        @ (case is_error of None \<Rightarrow> [] | Some b \<Rightarrow> [(''isError'', JBool b)])))"

definition tool_result_content :: "content_block \<Rightarrow> json list option" where
  "tool_result_content b =
     (case cb_kind b of
        ToolResultBlock _ _ \<Rightarrow>
          Option.bind (as_object (jv_value (cb_raw b))) (\<lambda>m. Option.bind (map_of m ''content'') as_array)
      | _ \<Rightarrow> None)"

section \<open>Sources\<close>

datatype message_role = System | User | Assistant

datatype context_form = Instructions | Catalog | Snapshot | Notice | Relay | Recall

record context_section =
  sec_name :: string
  sec_text :: string

datatype message_source_kind =
    UserSource
  | PluginSource string "context_form option" "context_section list option" "string option"
  | ModelSource string string "json_value option"
  | ToolSource string
  | OtherSource string

record message_source =
  src_kind :: message_source_kind
  src_raw :: json_value

definition role_text :: "message_role \<Rightarrow> string" where
  "role_text r = (case r of System \<Rightarrow> ''system'' | User \<Rightarrow> ''user'' | Assistant \<Rightarrow> ''assistant'')"

definition de_role :: "json \<Rightarrow> message_role option" where
  "de_role v =
     (case unit_variant v of
        None \<Rightarrow> None
      | Some s \<Rightarrow>
          if s = ''system'' then Some System
          else if s = ''user'' then Some User
          else if s = ''assistant'' then Some Assistant
          else None)"

definition de_context_form :: "json \<Rightarrow> context_form option" where
  "de_context_form v =
     (case unit_variant v of
        None \<Rightarrow> None
      | Some s \<Rightarrow>
          if s = ''instructions'' then Some Instructions
          else if s = ''catalog'' then Some Catalog
          else if s = ''snapshot'' then Some Snapshot
          else if s = ''notice'' then Some Notice
          else if s = ''relay'' then Some Relay
          else if s = ''recall'' then Some Recall
          else None)"

definition de_section :: "json \<Rightarrow> context_section option" where
  "de_section v =
     Option.bind (struct_fields [''name'', ''text''] v) (\<lambda>m.
     Option.bind (get_str m ''name'') (\<lambda>n.
     Option.bind (get_str m ''text'') (\<lambda>t. Some \<lparr>sec_name = n, sec_text = t\<rparr>)))"

fun de_list :: "(json \<Rightarrow> 'a option) \<Rightarrow> json list \<Rightarrow> 'a list option" where
  "de_list de [] = Some []"
| "de_list de (v # vs) = Option.bind (de v) (\<lambda>x. map_option (Cons x) (de_list de vs))"

definition de_sections :: "json \<Rightarrow> context_section list option" where
  "de_sections v = Option.bind (as_array v) (de_list de_section)"

text \<open>Which detail fields go with which form.\<close>

definition context_form_valid :: "context_form option \<Rightarrow> 'a option \<Rightarrow> 'b option \<Rightarrow> bool" where
  "context_form_valid form sections summary =
     (case form of
        None \<Rightarrow> sections = None \<and> summary = None
      | Some Snapshot \<Rightarrow> sections \<noteq> None \<and> summary = None
      | Some Notice \<Rightarrow> sections = None \<and> summary \<noteq> None
      | Some _ \<Rightarrow> sections = None \<and> summary = None)"

definition parse_plugin_source :: "fields \<Rightarrow> model_error + message_source_kind" where
  "parse_plugin_source m =
     bindR (required_string m ''plugin'' ''message source'') (\<lambda>plugin.
     bindR (optional_typed de_context_form m ''form'' ''message source'') (\<lambda>form.
     bindR (optional_typed de_sections m ''sections'' ''message source'') (\<lambda>sections.
     bindR (optional_string m ''summary'' ''message source'') (\<lambda>summary.
       if context_form_valid form sections summary
       then Inr (PluginSource plugin form sections summary)
       else Inl InvalidContextForm))))"

definition parse_model_source :: "externals \<Rightarrow> fields \<Rightarrow> model_error + message_source_kind" where
  "parse_model_source E m =
     bindR (required_string m ''provider'' ''message source'') (\<lambda>provider.
     bindR (required_string m ''model'' ''message source'') (\<lambda>model.
       if provider = [] then Inl EmptyProvider
       else if model = [] then Inl EmptyModel
       else bindR (optional_json E m ''replayState'') (\<lambda>r. Inr (ModelSource provider model r))))"

definition parse_tool_source :: "fields \<Rightarrow> model_error + message_source_kind" where
  "parse_tool_source m =
     bindR (required_string m ''callId'' ''message source'') (\<lambda>c.
       if c \<noteq> [] then Inr (ToolSource c) else Inl InvalidToolResult)"

definition or_other :: "string \<Rightarrow> model_error + message_source_kind \<Rightarrow> message_source_kind" where
  "or_other tag r = (case r of Inr k \<Rightarrow> k | Inl _ \<Rightarrow> OtherSource tag)"

definition parse_message_source :: "externals \<Rightarrow> json \<Rightarrow> model_error + message_source_kind" where
  "parse_message_source E v =
     bindR (object v ''message source'') (\<lambda>m.
     bindR (required_string m ''kind'' ''message source'') (\<lambda>tag.
       if tag = [] then Inl (InvalidShape ''message source'')
       else Inr
         (if tag = ''user'' then UserSource
          else if tag = ''plugin'' then or_other tag (parse_plugin_source m)
          else if tag = ''model'' then or_other tag (parse_model_source E m)
          else if tag = ''tool'' then or_other tag (parse_tool_source m)
          else OtherSource tag)))"

definition source_from_value :: "externals \<Rightarrow> json \<Rightarrow> model_error + message_source" where
  "source_from_value E v =
     bindR (new_value E v) (\<lambda>raw.
     bindR (parse_message_source E (jv_value raw)) (\<lambda>k.
       Inr \<lparr>src_kind = k, src_raw = raw\<rparr>))"

definition source_user :: "externals \<Rightarrow> model_error + message_source" where
  "source_user E = source_from_value E (obj_of [(''kind'', JString ''user'')])"

definition source_plugin :: "externals \<Rightarrow> string \<Rightarrow> model_error + message_source" where
  "source_plugin E p =
     source_from_value E (obj_of [(''kind'', JString ''plugin''), (''plugin'', JString p)])"

definition source_plugin_notice :: "externals \<Rightarrow> string \<Rightarrow> string \<Rightarrow> model_error + message_source" where
  "source_plugin_notice E p summary =
     source_from_value E (obj_of [(''kind'', JString ''plugin''), (''plugin'', JString p),
       (''form'', JString ''notice''), (''summary'', JString summary)])"

definition source_plugin_snapshot :: "externals \<Rightarrow> string \<Rightarrow> context_section list \<Rightarrow> model_error + message_source" where
  "source_plugin_snapshot E p sections =
     source_from_value E (obj_of [(''kind'', JString ''plugin''), (''plugin'', JString p),
       (''form'', JString ''snapshot''),
       (''sections'', JArray (map (\<lambda>s. obj_of
          [(''name'', JString (sec_name s)), (''text'', JString (sec_text s))]) sections))])"

definition source_model :: "externals \<Rightarrow> string \<Rightarrow> string \<Rightarrow> json_value option \<Rightarrow> model_error + message_source" where
  "source_model E provider model replay_state =
     (if provider = [] then Inl EmptyProvider
      else if model = [] then Inl EmptyModel
      else source_from_value E (obj_of
        ([(''kind'', JString ''model''), (''provider'', JString provider), (''model'', JString model)]
         @ (case replay_state of None \<Rightarrow> [] | Some r \<Rightarrow> [(''replayState'', jv_value r)]))))"

definition source_tool :: "externals \<Rightarrow> string \<Rightarrow> model_error + message_source" where
  "source_tool E call_id =
     (if call_id = [] then Inl InvalidToolResult
      else source_from_value E (obj_of [(''kind'', JString ''tool''), (''callId'', JString call_id)]))"

section \<open>Messages\<close>

text \<open>
  \<open>msg_surface_bytes\<close> is \<open>charged_surface_bytes\<close>, the size of the residency lease a session may
  have attached; equality of messages ignores it.
\<close>

record message =
  msg_id :: string
  msg_role :: message_role
  msg_content :: "content_block list"
  msg_source :: message_source
  msg_raw :: json_value
  msg_surface_bytes :: "nat option"

definition message_eq :: "message \<Rightarrow> message \<Rightarrow> bool" where
  "message_eq a b = (a\<lparr>msg_surface_bytes := None\<rparr> = b\<lparr>msg_surface_bytes := None\<rparr>)"

definition message_from_parts ::
  "string \<Rightarrow> message_role \<Rightarrow> content_block list \<Rightarrow> message_source \<Rightarrow> json_value \<Rightarrow> message" where
  "message_from_parts i r c src raw =
     \<lparr>msg_id = i, msg_role = r, msg_content = c, msg_source = src, msg_raw = raw,
      msg_surface_bytes = None\<rparr>"

definition message_new ::
  "externals \<Rightarrow> string \<Rightarrow> message_role \<Rightarrow> content_block list \<Rightarrow> message_source \<Rightarrow> model_error + message" where
  "message_new E i r c src =
     (if i = [] then Inl EmptyMessageId
      else if length c > MAX_MESSAGE_CONTENT_BLOCKS
      then Inl (TooManyContentBlocks MAX_MESSAGE_CONTENT_BLOCKS (length c))
      else bindR (new_value E (obj_of
             [(''id'', JString i), (''role'', JString (role_text r)),
              (''content'', JArray (map (\<lambda>b. jv_value (cb_raw b)) c)),
              (''source'', jv_value (src_raw src))])) (\<lambda>raw.
           Inr (message_from_parts i r c src raw)))"

definition message_user :: "externals \<Rightarrow> string \<Rightarrow> content_block list \<Rightarrow> message_source \<Rightarrow> model_error + message" where
  "message_user E i c src = message_new E i User c src"

definition message_assistant ::
  "externals \<Rightarrow> string \<Rightarrow> content_block list \<Rightarrow> string \<Rightarrow> string \<Rightarrow> model_error + message" where
  "message_assistant E i c provider model =
     bindR (source_model E provider model None) (\<lambda>src. message_new E i Assistant c src)"

definition message_tool_result ::
  "externals \<Rightarrow> string \<Rightarrow> string \<Rightarrow> content_block list \<Rightarrow> bool \<Rightarrow> model_error + message" where
  "message_tool_result E i call_id c is_error =
     bindR (block_tool_result E call_id c (Some is_error)) (\<lambda>b.
     bindR (source_tool E call_id) (\<lambda>src. message_new E i User [b] src))"

fun blocks_from_values :: "externals \<Rightarrow> json list \<Rightarrow> model_error + content_block list" where
  "blocks_from_values E [] = Inr []"
| "blocks_from_values E (v # vs) =
     bindR (block_from_value E v) (\<lambda>b. bindR (blocks_from_values E vs) (\<lambda>bs. Inr (b # bs)))"

definition message_from_value :: "externals \<Rightarrow> json \<Rightarrow> model_error + message" where
  "message_from_value E v =
     bindR (new_value E v) (\<lambda>raw.
     bindR (object (jv_value raw) ''message'') (\<lambda>m.
     bindR (required_string m ''id'' ''message'') (\<lambda>i.
       if i = [] then Inl EmptyMessageId
       else
         bindR (required_typed de_role m ''role'' ''message'') (\<lambda>r.
         bindR (ok_or (InvalidShape ''message'') (Option.bind (map_of m ''content'') as_array)) (\<lambda>vs.
           if length vs > MAX_MESSAGE_CONTENT_BLOCKS
           then Inl (TooManyContentBlocks MAX_MESSAGE_CONTENT_BLOCKS (length vs))
           else
             bindR (blocks_from_values E vs) (\<lambda>c.
             bindR (ok_or (InvalidShape ''message'') (map_of m ''source'')) (\<lambda>s.
             bindR (source_from_value E s) (\<lambda>src.
               Inr (message_from_parts i r c src raw)))))))))"

section \<open>Shape checks\<close>

definition validate_tool_result :: "message \<Rightarrow> model_error + string" where
  "validate_tool_result m =
     (if msg_role m \<noteq> User then Inl InvalidToolResult
      else case src_kind (msg_source m) of
        ToolSource call_id \<Rightarrow>
          (case msg_content m of
             [b] \<Rightarrow>
               (case cb_kind b of
                  ToolResultBlock tool_call_id _ \<Rightarrow>
                    if call_id = [] \<or> tool_call_id \<noteq> call_id then Inl InvalidToolResult
                    else Inr call_id
                | _ \<Rightarrow> Inl InvalidToolResult)
           | _ \<Rightarrow> Inl InvalidToolResult)
      | _ \<Rightarrow> Inl InvalidToolResult)"

definition tool_result_is_error :: "message \<Rightarrow> bool" where
  "tool_result_is_error m =
     (case msg_content m of
        [b] \<Rightarrow> (case cb_kind b of ToolResultBlock _ (Some True) \<Rightarrow> True | _ \<Rightarrow> False)
      | _ \<Rightarrow> False)"

definition validate_user_event :: "message \<Rightarrow> model_error + unit" where
  "validate_user_event m = (if msg_role m \<noteq> User then Inl (WrongMessageShape ''user'') else Inr ())"

definition validate_assistant_event :: "message \<Rightarrow> model_error + unit" where
  "validate_assistant_event m =
     (case src_kind (msg_source m) of
        ModelSource provider model _ \<Rightarrow>
          if msg_role m \<noteq> Assistant then Inl (WrongMessageShape ''assistant/model'')
          else if provider = [] then Inl EmptyProvider
          else if model = [] then Inl EmptyModel
          else Inr ()
      | _ \<Rightarrow> Inl (WrongMessageShape ''assistant/model''))"

section \<open>Constructors and parsers agree\<close>

lemma new_value_Inr: "new_value E v = Inr r \<longleftrightarrow> json_value_new E v = Inr r"
  by (simp add: new_value_def map_err_Inr_iff)

text \<open>Reading a field of a normalized object that a constructor has built.\<close>

lemma normalized_obj_fields:
  assumes "jv_value raw = normalize_numbers (obj_of kvs)"
  obtains m where "as_object (jv_value raw) = Some m"
    "\<And>k. map_of m k = map_option normalize_numbers (map_of (rev kvs) k)"
proof -
  let ?m = "map (\<lambda>(k, v). (k, normalize_numbers v)) (fold (\<lambda>(k, v). obj_insert k v) kvs [])"
  have "as_object (jv_value raw) = Some ?m" by (simp add: assms obj_of_def)
  moreover have "map_of ?m k = map_option normalize_numbers (map_of (rev kvs) k)" for k
    by (simp add: map_of_normalize map_of_fold_insert split: option.splits)
  ultimately show ?thesis using that by blast
qed

text \<open>Blocks and sources as the parsers produce them.\<close>

definition block_ok :: "externals \<Rightarrow> content_block \<Rightarrow> bool" where
  "block_ok E b = (block_from_value E (jv_value (cb_raw b)) = Inr b)"

definition source_ok :: "externals \<Rightarrow> message_source \<Rightarrow> bool" where
  "source_ok E s = (source_from_value E (jv_value (src_raw s)) = Inr s)"

lemma block_from_value_ok: "block_from_value E v = Inr b \<Longrightarrow> block_ok E b"
  by (auto simp: block_from_value_def block_ok_def result_simps new_value_Inr
      dest: json_value_new_again)

lemma source_from_value_ok: "source_from_value E v = Inr s \<Longrightarrow> source_ok E s"
  by (auto simp: source_from_value_def source_ok_def result_simps new_value_Inr
      dest: json_value_new_again)

lemma block_ok_normalized: "block_ok E b \<Longrightarrow> normalize_numbers (jv_value (cb_raw b)) = jv_value (cb_raw b)"
  by (cases b) (auto simp: block_ok_def block_from_value_def result_simps new_value_Inr
      dest!: json_value_new_value)

lemma source_ok_normalized: "source_ok E s \<Longrightarrow> normalize_numbers (jv_value (src_raw s)) = jv_value (src_raw s)"
  by (cases s) (auto simp: source_ok_def source_from_value_def result_simps new_value_Inr
      dest!: json_value_new_value)

lemma blocks_from_values_ok:
  "\<forall>b\<in>set c. block_ok E b \<Longrightarrow>
   blocks_from_values E (map (\<lambda>b. normalize_numbers (jv_value (cb_raw b))) c) = Inr c"
proof (induction c)
  case (Cons b c)
  then have "block_from_value E (jv_value (cb_raw b)) = Inr b" "normalize_numbers (jv_value (cb_raw b)) = jv_value (cb_raw b)"
    using block_ok_normalized[of E b] by (simp_all add: block_ok_def)
  with Cons show ?case by simp
qed simp

lemma de_role_text [simp]: "de_role (JString (role_text r)) = Some r"
  by (cases r) (simp_all add: de_role_def role_text_def)

lemma message_new_roundtrip:
  assumes "message_new E i r c src = Inr m" "\<forall>b\<in>set c. block_ok E b" "source_ok E src"
  shows "message_from_value E (jv_value (msg_raw m)) = Inr m"
proof -
  let ?kvs = "[(''id'', JString i), (''role'', JString (role_text r)),
      (''content'', JArray (map (\<lambda>b. jv_value (cb_raw b)) c)), (''source'', jv_value (src_raw src))]"
  from assms(1) obtain raw where raw: "json_value_new E (obj_of ?kvs) = Inr raw"
    and m: "m = message_from_parts i r c src raw" "i \<noteq> []" "length c \<le> MAX_MESSAGE_CONTENT_BLOCKS"
    by (auto simp: message_new_def result_simps new_value_Inr split: if_splits)
  obtain f where f: "as_object (jv_value raw) = Some f"
    "\<And>k. map_of f k = map_option normalize_numbers (map_of (rev ?kvs) k)"
    using normalized_obj_fields[OF json_value_new_value[OF raw]] by blast
  have n: "new_value E (jv_value raw) = Inr raw"
    using json_value_new_again[OF raw] by (simp add: new_value_Inr)
  have s: "source_from_value E (normalize_numbers (jv_value (src_raw src))) = Inr src"
    using assms(3) source_ok_normalized[OF assms(3)] by (simp add: source_ok_def)
  have raw_m: "msg_raw m = raw" by (simp add: m message_from_parts_def)
  show ?thesis
    unfolding message_from_value_def raw_m n bindR_simps object_def f(1) ok_or_simps
    using m(2,3)
    by (simp add: required_string_def get_str_def required_typed_def f(2) o_def s
        blocks_from_values_ok[OF assms(2)] m(1))
qed

lemma source_tool_kind:
  assumes "source_tool E c = Inr s"
  shows "src_kind s = ToolSource c \<and> c \<noteq> [] \<and> source_ok E s"
proof -
  let ?kvs = "[(''kind'', JString ''tool''), (''callId'', JString c)]"
  from assms obtain raw k where c: "c \<noteq> []" and raw: "json_value_new E (obj_of ?kvs) = Inr raw"
    and k: "parse_message_source E (jv_value raw) = Inr k" "s = \<lparr>src_kind = k, src_raw = raw\<rparr>"
    by (auto simp: source_tool_def source_from_value_def result_simps new_value_Inr split: if_splits)
  obtain f where f: "as_object (jv_value raw) = Some f"
    "\<And>k. map_of f k = map_option normalize_numbers (map_of (rev ?kvs) k)"
    using normalized_obj_fields[OF json_value_new_value[OF raw]] by blast
  have "k = ToolSource c"
    using k(1) c by (simp add: parse_message_source_def object_def f required_string_def get_str_def
        or_other_def parse_tool_source_def)
  with k(2) c assms show ?thesis
    by (auto simp: source_tool_def intro: source_from_value_ok)
qed

lemma block_tool_result_kind:
  assumes "block_tool_result E call c (Some e) = Inr b"
  shows "cb_kind b = ToolResultBlock call (Some e) \<and> block_ok E b"
proof -
  let ?kvs = "[(''type'', JString ''tool-result''), (''toolCallId'', JString call),
         (''content'', JArray (map (\<lambda>b. jv_value (cb_raw b)) c)), (''isError'', JBool e)]"
  from assms obtain raw where raw: "json_value_new E (obj_of ?kvs) = Inr raw"
    and b: "b = \<lparr>cb_kind = parse_content_block (jv_value raw), cb_raw = raw\<rparr>"
    by (auto simp: block_tool_result_def block_from_value_def result_simps new_value_Inr)
  obtain f where f: "as_object (jv_value raw) = Some f"
    "\<And>k. map_of f k = map_option normalize_numbers (map_of (rev ?kvs) k)"
    using normalized_obj_fields[OF json_value_new_value[OF raw]] by blast
  have "cb_kind b = ToolResultBlock call (Some e)"
    by (simp add: b parse_content_block_def f get_str_def)
  with assms show ?thesis
    by (auto simp: block_tool_result_def intro: block_from_value_ok)
qed

text \<open>
  C28: A tool-result message as the tools and the recovery build it passes the shape check that
  the session applies to it, with the identity and the error flag it was built from, and what is
  stored of it (its JSON) parses back to the same message.
\<close>

theorem tool_result_message_roundtrip:
  assumes "message_tool_result E i call_id content is_error = Inr m"
  shows "validate_tool_result m = Inr call_id \<and> tool_result_is_error m = is_error
     \<and> message_from_value E (jv_value (msg_raw m)) = Inr m"
proof -
  from assms obtain b src where b: "block_tool_result E call_id content (Some is_error) = Inr b"
    and s: "source_tool E call_id = Inr src" and n: "message_new E i User [b] src = Inr m"
    by (auto simp: message_tool_result_def result_simps)
  note bk = block_tool_result_kind[OF b] and sk = source_tool_kind[OF s]
  have "msg_role m = User" "msg_content m = [b]" "msg_source m = src"
    using n by (auto simp: message_new_def message_from_parts_def result_simps split: if_splits)
  moreover have "message_from_value E (jv_value (msg_raw m)) = Inr m"
    by (rule message_new_roundtrip[OF n]) (use bk sk in auto)
  ultimately show ?thesis
    using bk sk by (auto simp: validate_tool_result_def tool_result_is_error_def split: bool.splits)
qed

lemmas message_eval = json_eval new_value_def block_from_value_def source_from_value_def
  parse_content_block_def parse_message_source_def object_def required_string_def get_str_def
  or_other_def

definition example_externals :: externals where
  "example_externals =
     \<lparr>ext_ryu_js_text = \<lambda>_. ''0.5'', ext_float_text = \<lambda>_. ''0.5'', ext_sha256 = \<lambda>s. s\<rparr>"

theorem tool_result_message_roundtrip_witness:
  "\<exists>m. message_tool_result example_externals ''m'' ''c'' [] True = Inr m
     \<and> validate_tool_result m = Inr ''c'' \<and> tool_result_is_error m"
proof -
  let ?E = example_externals
  have "is_ok (message_tool_result ?E ''m'' ''c'' [] True)"
    by (simp add: message_tool_result_def block_tool_result_def source_tool_def message_new_def
        message_eval parse_tool_source_def role_text_def MAX_MESSAGE_CONTENT_BLOCKS_def)
  then obtain m where "message_tool_result ?E ''m'' ''c'' [] True = Inr m"
    by (auto simp: is_ok_iff)
  with tool_result_message_roundtrip[OF this] show ?thesis by auto
qed

end
