(* ===== verification/Model_Llm.thy ===== *)
theory Model_Llm
  imports Model_Message
begin

text \<open>
  Provider call configuration, failures, usage and stream chunks of \<open>src/model/llm.rs\<close>, each
  with the parser that reads it out of extensible JSON.  A finite binary64 number is held in
  the canonical form that admission leaves: an integer when it is one, its bits otherwise.
\<close>

section \<open>Numbers\<close>

datatype number = NumInt int | NumFloat "64 word"

definition de_f64 :: "json \<Rightarrow> number option" where
  "de_f64 v =
     (case v of
        JInt i \<Rightarrow> Some (NumInt i)
      | JFloat w \<Rightarrow> Some (case f64_integer w of Some i \<Rightarrow> NumInt i | None \<Rightarrow> NumFloat w)
      | _ \<Rightarrow> None)"

definition is_negative_zero :: "json \<Rightarrow> bool" where
  "is_negative_zero v = (case v of JFloat w \<Rightarrow> f64_is_zero w \<and> f64_sign w | _ \<Rightarrow> False)"

definition number_finite :: "number \<Rightarrow> bool" where
  "number_finite n = (case n of NumInt _ \<Rightarrow> True | NumFloat w \<Rightarrow> f64_is_finite w)"

definition number_positive :: "number \<Rightarrow> bool" where
  "number_positive n = (case n of NumInt i \<Rightarrow> 0 < i | NumFloat w \<Rightarrow> \<not> f64_sign w)"

definition de_finite_number :: "json \<Rightarrow> number option" where
  "de_finite_number v =
     Option.bind (de_f64 v) (\<lambda>n. if number_finite n \<and> \<not> is_negative_zero v then Some n else None)"

definition de_positive_finite :: "json \<Rightarrow> number option" where
  "de_positive_finite v =
     Option.bind (de_f64 v) (\<lambda>n. if number_finite n \<and> number_positive n then Some n else None)"

definition de_u16 :: "json \<Rightarrow> nat option" where
  "de_u16 v = (case v of JInt i \<Rightarrow> if 0 \<le> i \<and> i < 65536 then Some (nat i) else None | _ \<Rightarrow> None)"

section \<open>Failures and finish reasons\<close>

record llm_failure =
  lf_message :: string
  lf_code :: string
  lf_status :: "nat option"
  lf_retry_after_ms :: "number option"
  lf_request_id :: "string option"
  lf_raw :: json_value

definition validate_failure_parts :: "string \<Rightarrow> string \<Rightarrow> nat option \<Rightarrow> string option \<Rightarrow> model_error + unit" where
  "validate_failure_parts msg code status request_id =
     (if msg = [] then Inl (InvalidFailure ''message must not be empty'')
      else if code = [] then Inl (InvalidFailure ''code must not be empty'')
      else if (case status of None \<Rightarrow> False | Some n \<Rightarrow> \<not> (100 \<le> n \<and> n \<le> 599))
      then Inl (InvalidFailure ''status must be an integer from 100 through 599'')
      else if request_id = Some [] then Inl (InvalidFailure ''requestId must not be empty'')
      else Inr ())"

definition failure_from_value :: "externals \<Rightarrow> json \<Rightarrow> model_error + llm_failure" where
  "failure_from_value E v =
     bindR (new_value E v) (\<lambda>raw.
     bindR (object (jv_value raw) ''LLM failure'') (\<lambda>m.
     bindR (required_string m ''message'' ''LLM failure'') (\<lambda>msg.
     bindR (required_string m ''code'' ''LLM failure'') (\<lambda>code.
     bindR (optional_typed de_u16 m ''status'' ''LLM failure'') (\<lambda>status.
     bindR (optional_typed de_positive_finite m ''providerRetryAfterMs'' ''LLM failure'') (\<lambda>delay.
     bindR (optional_string m ''requestId'' ''LLM failure'') (\<lambda>rid.
     bindR (validate_failure_parts msg code status rid) (\<lambda>_.
       Inr \<lparr>lf_message = msg, lf_code = code, lf_status = status, lf_retry_after_ms = delay,
            lf_request_id = rid, lf_raw = raw\<rparr>))))))))"

datatype finish_reason_kind =
    Stop | ToolCalls | MaxTokens | Aborted llm_failure | ErrorReason llm_failure | OtherReason string

record finish_reason =
  fr_kind :: finish_reason_kind
  fr_raw :: json_value

definition ok_value :: "'e + 'a \<Rightarrow> 'a option" where
  "ok_value r = (case r of Inl _ \<Rightarrow> None | Inr x \<Rightarrow> Some x)"

definition finish_reason_from_value :: "externals \<Rightarrow> json \<Rightarrow> model_error + finish_reason" where
  "finish_reason_from_value E v =
     bindR (new_value E v) (\<lambda>raw.
     bindR (object (jv_value raw) ''finish reason'') (\<lambda>m.
     bindR (required_string m ''kind'' ''finish reason'') (\<lambda>tag.
     let failure = required_typed (\<lambda>j. ok_value (failure_from_value E j)) m ''failure'' ''finish reason'' in
     bindR
       (if tag = ''stop'' then Inr Stop
        else if tag = ''tool-calls'' then Inr ToolCalls
        else if tag = ''max-tokens'' then Inr MaxTokens
        else if tag = ''aborted'' then bindR failure (\<lambda>f. Inr (Aborted f))
        else if tag = ''error'' then bindR failure (\<lambda>f. Inr (ErrorReason f))
        else Inr (OtherReason tag))
       (\<lambda>k. Inr \<lparr>fr_kind = k, fr_raw = raw\<rparr>))))"

section \<open>Usage\<close>

record token_usage =
  tu_input :: nat
  tu_output :: nat
  tu_cache_read :: "nat option"
  tu_cache_write :: "nat option"
  tu_reasoning :: "nat option"
  tu_raw :: json_value

definition usage_value :: "nat \<Rightarrow> nat \<Rightarrow> nat option \<Rightarrow> nat option \<Rightarrow> nat option \<Rightarrow> json" where
  "usage_value i out cr cw re =
     (let opt = (\<lambda>k x. case x of None \<Rightarrow> [] | Some n \<Rightarrow> [(k, JInt (int n))]) in
      obj_of ([(''inputTokens'', JInt (int i)), (''outputTokens'', JInt (int out))]
        @ opt ''cacheReadTokens'' cr @ opt ''cacheWriteTokens'' cw @ opt ''reasoningTokens'' re))"

definition usage_from_parts ::
  "externals \<Rightarrow> nat \<Rightarrow> nat \<Rightarrow> nat option \<Rightarrow> nat option \<Rightarrow> nat option \<Rightarrow> model_error + token_usage" where
  "usage_from_parts E i out cr cw re =
     bindR (new_value E (usage_value i out cr cw re)) (\<lambda>raw.
       Inr \<lparr>tu_input = i, tu_output = out, tu_cache_read = cr, tu_cache_write = cw,
            tu_reasoning = re, tu_raw = raw\<rparr>)"

definition usage_from_value :: "externals \<Rightarrow> json \<Rightarrow> model_error + token_usage" where
  "usage_from_value E v =
     bindR (new_value E v) (\<lambda>raw.
     bindR (object (jv_value raw) ''token usage'') (\<lambda>m.
     bindR (required_typed (safe_u64 False) m ''inputTokens'' ''token usage'') (\<lambda>i.
     bindR (required_typed (safe_u64 False) m ''outputTokens'' ''token usage'') (\<lambda>out.
     bindR (optional_typed (safe_u64 False) m ''cacheReadTokens'' ''token usage'') (\<lambda>cr.
     bindR (optional_typed (safe_u64 False) m ''cacheWriteTokens'' ''token usage'') (\<lambda>cw.
     bindR (optional_typed (safe_u64 False) m ''reasoningTokens'' ''token usage'') (\<lambda>re.
     bindR (usage_from_parts E i out cr cw re) (\<lambda>u. Inr (u\<lparr>tu_raw := raw\<rparr>)))))))))"

section \<open>Stream chunks\<close>

datatype content_block_type =
    TextType | ReasoningType | ImageType | ToolCallType | ToolResultType | OtherType string

definition de_block_type :: "json \<Rightarrow> content_block_type option" where
  "de_block_type v =
     map_option (\<lambda>s.
       if s = ''text'' then TextType
       else if s = ''reasoning'' then ReasoningType
       else if s = ''image'' then ImageType
       else if s = ''tool-call'' then ToolCallType
       else if s = ''tool-result'' then ToolResultType
       else OtherType s) (as_str v)"

datatype stream_chunk_kind =
    BlockStart nat content_block_type
  | TextDelta nat string
  | ReasoningDelta nat string
  | ToolCallDelta nat string "string option" string
  | BlockEnd nat content_block
  | UsageChunk token_usage
  | FinishChunk finish_reason "json_value option"
  | OtherChunk string

record stream_chunk =
  sc_kind :: stream_chunk_kind
  sc_raw :: json_value

definition parse_chunk_kind :: "externals \<Rightarrow> fields \<Rightarrow> string \<Rightarrow> model_error + stream_chunk_kind" where
  "parse_chunk_kind E m t =
     (let s = ''stream chunk''; index = required_typed (safe_u64 False) m ''index'' s in
      if t = ''block-start'' then
        bindR index (\<lambda>i. bindR (required_typed de_block_type m ''blockType'' s) (\<lambda>b. Inr (BlockStart i b)))
      else if t = ''text-delta'' then
        bindR index (\<lambda>i. bindR (required_string m ''text'' s) (\<lambda>x. Inr (TextDelta i x)))
      else if t = ''reasoning-delta'' then
        bindR index (\<lambda>i. bindR (required_string m ''text'' s) (\<lambda>x. Inr (ReasoningDelta i x)))
      else if t = ''tool-call-delta'' then
        bindR index (\<lambda>i. bindR (required_string m ''id'' s) (\<lambda>c.
        bindR (optional_string m ''name'' s) (\<lambda>n.
        bindR (required_string m ''argumentsDelta'' s) (\<lambda>a. Inr (ToolCallDelta i c n a)))))
      else if t = ''block-end'' then
        bindR index (\<lambda>i.
        bindR (required_typed (\<lambda>j. ok_value (block_from_value E j)) m ''block'' s) (\<lambda>b. Inr (BlockEnd i b)))
      else if t = ''usage'' then
        bindR (required_typed (\<lambda>j. ok_value (usage_from_value E j)) m ''usage'' s) (\<lambda>u. Inr (UsageChunk u))
      else if t = ''finish'' then
        bindR (required_typed (\<lambda>j. ok_value (finish_reason_from_value E j)) m ''reason'' s) (\<lambda>r.
        bindR (optional_json E m ''replayState'') (\<lambda>p. Inr (FinishChunk r p)))
      else Inr (OtherChunk t))"

definition chunk_from_value :: "externals \<Rightarrow> json \<Rightarrow> model_error + stream_chunk" where
  "chunk_from_value E v =
     bindR (new_value E v) (\<lambda>raw.
     bindR (object (jv_value raw) ''stream chunk'') (\<lambda>m.
     bindR (required_string m ''type'' ''stream chunk'') (\<lambda>t.
     bindR (parse_chunk_kind E m t) (\<lambda>k. Inr \<lparr>sc_kind = k, sc_raw = raw\<rparr>))))"

definition is_token_delta :: "stream_chunk \<Rightarrow> bool" where
  "is_token_delta c =
     (case sc_kind c of
        TextDelta _ s \<Rightarrow> s \<noteq> []
      | ReasoningDelta _ s \<Rightarrow> s \<noteq> []
      | ToolCallDelta _ _ n a \<Rightarrow> n \<noteq> None \<or> a \<noteq> []
      | _ \<Rightarrow> False)"

section \<open>Call configuration\<close>

record call_config =
  cc_provider :: string
  cc_model :: string
  cc_reasoning_effort :: "string option"
  cc_temperature :: "number option"
  cc_max_tokens :: "nat option"
  cc_stop :: "string list option"
  cc_raw :: json_value

text \<open>The optional \<open>TrueMarker\<close> fields are present or absent.\<close>

record adapter_defaults =
  ad_reasoning_effort :: bool
  ad_max_tokens :: bool

definition de_strings :: "json \<Rightarrow> string list option" where
  "de_strings v = Option.bind (as_array v) (de_list as_str)"

definition config_from_value :: "externals \<Rightarrow> json \<Rightarrow> model_error + call_config" where
  "config_from_value E v =
     bindR (new_value E v) (\<lambda>raw.
     bindR (object (jv_value raw) ''call config'') (\<lambda>m.
     bindR (required_string m ''provider'' ''call config'') (\<lambda>p.
     bindR (required_string m ''model'' ''call config'') (\<lambda>md.
     bindR (optional_string m ''reasoningEffort'' ''call config'') (\<lambda>re.
     bindR (optional_typed de_finite_number m ''temperature'' ''call config'') (\<lambda>t.
     bindR (optional_typed (safe_u64 False) m ''maxTokens'' ''call config'') (\<lambda>mt.
     bindR (optional_typed de_strings m ''stop'' ''call config'') (\<lambda>st.
       Inr \<lparr>cc_provider = p, cc_model = md, cc_reasoning_effort = re, cc_temperature = t,
            cc_max_tokens = mt, cc_stop = st, cc_raw = raw\<rparr>))))))))"

definition config_validate :: "call_config \<Rightarrow> model_error + unit" where
  "config_validate c =
     (if cc_provider c = [] then Inl EmptyProvider
      else if cc_model c = [] then Inl EmptyModel
      else if cc_reasoning_effort c = Some [] then Inl (EmptyOptionalId ''reasoningEffort'')
      else Inr ())"

definition equivalent_to :: "call_config \<Rightarrow> call_config \<Rightarrow> bool" where
  "equivalent_to a b =
     (cc_provider a = cc_provider b \<and> cc_model a = cc_model b
      \<and> cc_reasoning_effort a = cc_reasoning_effort b \<and> cc_temperature a = cc_temperature b
      \<and> cc_max_tokens a = cc_max_tokens b \<and> cc_stop a = cc_stop b)"

fun obj_remove :: "string \<Rightarrow> fields \<Rightarrow> fields" where
  "obj_remove k [] = []"
| "obj_remove k ((k', v) # m) = (if k = k' then m else (k', v) # obj_remove k m)"

text \<open>Rewriting the raw object and parsing it again keeps the provider's extension keys.\<close>

definition config_rewrite :: "externals \<Rightarrow> (fields \<Rightarrow> fields) \<Rightarrow> call_config \<Rightarrow> model_error + call_config" where
  "config_rewrite E f c =
     bindR (object (jv_value (cc_raw c)) ''call config'') (\<lambda>m. config_from_value E (JObject (f m)))"

definition with_materialized_defaults :: "externals \<Rightarrow> string \<Rightarrow> nat \<Rightarrow> call_config \<Rightarrow> model_error + call_config" where
  "with_materialized_defaults E effort max_tokens =
     config_rewrite E (\<lambda>m. obj_insert ''maxTokens'' (JInt (int max_tokens))
        (obj_insert ''reasoningEffort'' (JString effort) m))"

definition with_max_tokens_preserving_extensions :: "externals \<Rightarrow> nat \<Rightarrow> call_config \<Rightarrow> model_error + call_config" where
  "with_max_tokens_preserving_extensions E max_tokens =
     config_rewrite E (obj_insert ''maxTokens'' (JInt (int max_tokens)))"

definition without_adapter_defaults :: "externals \<Rightarrow> adapter_defaults \<Rightarrow> call_config \<Rightarrow> model_error + call_config" where
  "without_adapter_defaults E d =
     config_rewrite E (\<lambda>m.
       let m = (if ad_reasoning_effort d then obj_remove ''reasoningEffort'' m else m)
       in if ad_max_tokens d then obj_remove ''maxTokens'' m else m)"

definition with_reasoning_effort_if_absent :: "externals \<Rightarrow> string option \<Rightarrow> call_config \<Rightarrow> model_error + call_config" where
  "with_reasoning_effort_if_absent E effort c =
     (case effort of
        None \<Rightarrow> Inr c
      | Some e \<Rightarrow>
          if cc_reasoning_effort c \<noteq> None then Inr c
          else config_rewrite E (obj_insert ''reasoningEffort'' (JString e)) c)"

record tool_schema =
  ts_name :: string
  ts_description :: string
  ts_parameters :: json_value
  ts_raw :: json_value

definition tool_schema_from_value :: "externals \<Rightarrow> json \<Rightarrow> model_error + tool_schema" where
  "tool_schema_from_value E v =
     bindR (new_value E v) (\<lambda>raw.
     bindR (object (jv_value raw) ''tool schema'') (\<lambda>m.
     bindR (required_string m ''name'' ''tool schema'') (\<lambda>n.
     bindR (required_string m ''description'' ''tool schema'') (\<lambda>d.
     bindR (ok_or (InvalidShape ''tool schema'') (map_of m ''parameters'')) (\<lambda>p.
     bindR (new_value E p) (\<lambda>p.
       if as_object (jv_value p) = None then Inl (InvalidShape ''tool schema'')
       else Inr \<lparr>ts_name = n, ts_description = d, ts_parameters = p, ts_raw = raw\<rparr>))))))"

end
