(* ===== verification/Stream_Validator.thy ===== *)
theory Stream_Validator
  imports Model_Llm
begin

text \<open>
  The whole-stream grammar of \<open>src/model/stream.rs\<close>: a validator that prepares the change a
  chunk makes without applying it, commits it, and judges the end of the stream.  The hash
  table of open blocks is an association list, the set of seen indices a list without
  duplicates.
\<close>

section \<open>Data\<close>

definition MAX_PROVIDER_STREAM_CHUNKS :: nat where
  "MAX_PROVIDER_STREAM_CHUNKS = 4000"

datatype stream_protocol_error =
    ReusedBlockIndex nat
  | DeltaWithoutMatchingBlock nat string string
  | BlockEndWithoutStart nat
  | BlockEndTypeMismatch nat string string
  | DuplicateUsage
  | SuccessfulFinishWithOpenBlocks nat
  | UnknownLiveChunk string
  | ChunkAfterFinish string
  | MissingFinish
  | TooManyChunks nat

record stream_validator =
  sv_open :: "(nat \<times> content_block_type) list"
  sv_seen :: "nat list"
  sv_usage_seen :: bool
  sv_finished :: bool
  sv_chunk_count :: nat

definition sv_default :: stream_validator where
  "sv_default = \<lparr>sv_open = [], sv_seen = [], sv_usage_seen = False, sv_finished = False,
     sv_chunk_count = 0\<rparr>"

datatype prepared_transition =
    PrepContinue
  | PrepBlockStart nat content_block_type
  | PrepBlockEnd nat
  | PrepUsage
  | PrepFinish

section \<open>Operations\<close>

definition block_type :: "content_block_kind \<Rightarrow> content_block_type" where
  "block_type k =
     (case k of
        TextBlock _ \<Rightarrow> TextType
      | ReasoningBlock _ \<Rightarrow> ReasoningType
      | ImageBlock _ \<Rightarrow> ImageType
      | ToolCallBlock _ _ _ \<Rightarrow> ToolCallType
      | ToolResultBlock _ _ \<Rightarrow> ToolResultType
      | OtherBlock t \<Rightarrow> OtherType (case t of None \<Rightarrow> [] | Some s \<Rightarrow> s))"

definition type_name :: "content_block_type \<Rightarrow> string" where
  "type_name t =
     (case t of
        TextType \<Rightarrow> ''text''
      | ReasoningType \<Rightarrow> ''reasoning''
      | ImageType \<Rightarrow> ''image''
      | ToolCallType \<Rightarrow> ''tool-call''
      | ToolResultType \<Rightarrow> ''tool-result''
      | OtherType s \<Rightarrow> s)"

definition chunk_type :: "stream_chunk \<Rightarrow> string" where
  "chunk_type c =
     (case sc_kind c of
        BlockStart _ _ \<Rightarrow> ''block-start''
      | TextDelta _ _ \<Rightarrow> ''text-delta''
      | ReasoningDelta _ _ \<Rightarrow> ''reasoning-delta''
      | ToolCallDelta _ _ _ _ \<Rightarrow> ''tool-call-delta''
      | BlockEnd _ _ \<Rightarrow> ''block-end''
      | UsageChunk _ \<Rightarrow> ''usage''
      | FinishChunk _ _ \<Rightarrow> ''finish''
      | OtherChunk t \<Rightarrow> t)"

definition is_finish :: "stream_chunk \<Rightarrow> bool" where
  "is_finish c = (case sc_kind c of FinishChunk _ _ \<Rightarrow> True | _ \<Rightarrow> False)"

definition require_open :: "stream_validator \<Rightarrow> nat \<Rightarrow> content_block_type \<Rightarrow> stream_protocol_error + unit" where
  "require_open v i expected =
     (let actual = map_of (sv_open v) i in
      if actual = Some expected then Inr ()
      else Inl (DeltaWithoutMatchingBlock i (type_name expected)
             (case actual of None \<Rightarrow> ''none'' | Some t \<Rightarrow> type_name t)))"

definition can_leave_open :: "finish_reason \<Rightarrow> bool" where
  "can_leave_open r = (case fr_kind r of ErrorReason _ \<Rightarrow> True | Aborted _ \<Rightarrow> True | _ \<Rightarrow> False)"

definition prepare_kind :: "stream_validator \<Rightarrow> stream_chunk_kind \<Rightarrow> stream_protocol_error + prepared_transition" where
  "prepare_kind v k =
     (case k of
        BlockStart i t \<Rightarrow>
          if i \<in> set (sv_seen v) then Inl (ReusedBlockIndex i) else Inr (PrepBlockStart i t)
      | TextDelta i _ \<Rightarrow> bindR (require_open v i TextType) (\<lambda>_. Inr PrepContinue)
      | ReasoningDelta i _ \<Rightarrow> bindR (require_open v i ReasoningType) (\<lambda>_. Inr PrepContinue)
      | ToolCallDelta i _ _ _ \<Rightarrow> bindR (require_open v i ToolCallType) (\<lambda>_. Inr PrepContinue)
      | BlockEnd i b \<Rightarrow>
          bindR (ok_or (BlockEndWithoutStart i) (map_of (sv_open v) i)) (\<lambda>expected.
            let actual = block_type (cb_kind b) in
            if expected \<noteq> actual
            then Inl (BlockEndTypeMismatch i (type_name expected) (type_name actual))
            else Inr (PrepBlockEnd i))
      | UsageChunk _ \<Rightarrow> if sv_usage_seen v then Inl DuplicateUsage else Inr PrepUsage
      | FinishChunk r _ \<Rightarrow>
          if \<not> can_leave_open r \<and> sv_open v \<noteq> []
          then Inl (SuccessfulFinishWithOpenBlocks (length (sv_open v)))
          else Inr PrepFinish
      | OtherChunk t \<Rightarrow> Inl (UnknownLiveChunk t))"

definition prepare :: "stream_validator \<Rightarrow> stream_chunk \<Rightarrow> stream_protocol_error + prepared_transition" where
  "prepare v c =
     (if sv_finished v then Inl (ChunkAfterFinish (chunk_type c))
      else if sv_chunk_count v = MAX_PROVIDER_STREAM_CHUNKS
              \<or> (sv_chunk_count v + 1 = MAX_PROVIDER_STREAM_CHUNKS \<and> \<not> is_finish c)
      then Inl (TooManyChunks MAX_PROVIDER_STREAM_CHUNKS)
      else prepare_kind v (sc_kind c))"

definition commit :: "stream_validator \<Rightarrow> prepared_transition \<Rightarrow> stream_validator" where
  "commit v p =
     (let v' = (case p of
          PrepContinue \<Rightarrow> v
        | PrepBlockStart i t \<Rightarrow> v\<lparr>sv_seen := i # sv_seen v, sv_open := (i, t) # sv_open v\<rparr>
        | PrepBlockEnd i \<Rightarrow> v\<lparr>sv_open := filter (\<lambda>(j, _). j \<noteq> i) (sv_open v)\<rparr>
        | PrepUsage \<Rightarrow> v\<lparr>sv_usage_seen := True\<rparr>
        | PrepFinish \<Rightarrow> v\<lparr>sv_finished := True\<rparr>)
      in v'\<lparr>sv_chunk_count := sv_chunk_count v' + 1\<rparr>)"

definition accept :: "stream_validator \<Rightarrow> stream_chunk \<Rightarrow> stream_protocol_error + stream_validator" where
  "accept v c = bindR (prepare v c) (\<lambda>p. Inr (commit v p))"

definition complete :: "stream_validator \<Rightarrow> stream_protocol_error + unit" where
  "complete v = (if \<not> sv_finished v then Inl MissingFinish else Inr ())"

section \<open>Accepted streams\<close>

text \<open>The whole stream of one call.\<close>

definition accept_all :: "stream_validator \<Rightarrow> stream_chunk list \<Rightarrow> stream_protocol_error + stream_validator" where
  "accept_all v cs = try_fold accept v cs"

text \<open>
  The grammar as a condition on the whole sequence: every index starts one block, deltas and ends
  address a block that has started with that type and not ended, usage comes at most once, finish
  comes last and, unless it reports a failure, with no block open.
\<close>

definition starts :: "stream_chunk list \<Rightarrow> nat list" where
  "starts cs = concat (map (\<lambda>c. case sc_kind c of BlockStart i _ \<Rightarrow> [i] | _ \<Rightarrow> []) cs)"

definition ends :: "stream_chunk list \<Rightarrow> nat list" where
  "ends cs = concat (map (\<lambda>c. case sc_kind c of BlockEnd i _ \<Rightarrow> [i] | _ \<Rightarrow> []) cs)"

definition usages :: "stream_chunk list \<Rightarrow> nat" where
  "usages cs = length (filter (\<lambda>c. case sc_kind c of UsageChunk _ \<Rightarrow> True | _ \<Rightarrow> False) cs)"

definition started :: "stream_chunk list \<Rightarrow> nat \<Rightarrow> content_block_type \<Rightarrow> bool" where
  "started cs i t = (\<exists>c\<in>set cs. sc_kind c = BlockStart i t)"

text \<open>What may follow a prefix.\<close>

definition chunk_allowed :: "stream_chunk list \<Rightarrow> stream_chunk \<Rightarrow> bool" where
  "chunk_allowed pre c =
     (let live = (\<lambda>i t. started pre i t \<and> i \<notin> set (ends pre)) in
      (\<forall>d\<in>set pre. \<not> is_finish d)
      \<and> (if is_finish c then length pre < MAX_PROVIDER_STREAM_CHUNKS
          else length pre + 1 < MAX_PROVIDER_STREAM_CHUNKS)
      \<and> (case sc_kind c of
           BlockStart i _ \<Rightarrow> i \<notin> set (starts pre)
         | TextDelta i _ \<Rightarrow> live i TextType
         | ReasoningDelta i _ \<Rightarrow> live i ReasoningType
         | ToolCallDelta i _ _ _ \<Rightarrow> live i ToolCallType
         | BlockEnd i b \<Rightarrow> live i (block_type (cb_kind b))
         | UsageChunk _ \<Rightarrow> usages pre = 0
         | FinishChunk r _ \<Rightarrow> can_leave_open r \<or> set (starts pre) \<subseteq> set (ends pre)
         | OtherChunk _ \<Rightarrow> False))"

definition well_formed_stream :: "stream_chunk list \<Rightarrow> bool" where
  "well_formed_stream cs = (\<forall>n<length cs. chunk_allowed (take n cs) (cs ! n))"

text \<open>The validator after a well-formed prefix.\<close>

definition sv_after :: "stream_chunk list \<Rightarrow> stream_validator \<Rightarrow> bool" where
  "sv_after cs v =
     (sv_chunk_count v = length cs
      \<and> set (sv_seen v) = set (starts cs)
      \<and> sv_usage_seen v = (usages cs \<noteq> 0)
      \<and> sv_finished v = (\<exists>c\<in>set cs. is_finish c)
      \<and> distinct (map fst (sv_open v))
      \<and> fst ` set (sv_open v) = set (starts cs) - set (ends cs)
      \<and> set (ends cs) \<subseteq> set (starts cs)
      \<and> (\<forall>i t. (i, t) \<in> set (sv_open v) \<longrightarrow> started cs i t)
      \<and> (\<forall>i t t'. started cs i t \<longrightarrow> started cs i t' \<longrightarrow> t = t'))"

lemma starts_append [simp]: "starts (cs @ ds) = starts cs @ starts ds"
  by (simp add: starts_def)

lemma ends_append [simp]: "ends (cs @ ds) = ends cs @ ends ds"
  by (simp add: ends_def)

lemma usages_append [simp]: "usages (cs @ ds) = usages cs + usages ds"
  by (simp add: usages_def)

lemma started_append [simp]: "started (cs @ ds) i t \<longleftrightarrow> started cs i t \<or> started ds i t"
  by (auto simp: started_def)

lemma started_in_starts: "started cs i t \<Longrightarrow> i \<in> set (starts cs)"
  by (force simp: started_def starts_def)

lemma in_starts_started: "i \<in> set (starts cs) \<Longrightarrow> \<exists>t. started cs i t"
  by (auto simp: started_def starts_def split: stream_chunk_kind.splits) (metis)+

lemma single_chunk [simp]:
  "starts [c] = (case sc_kind c of BlockStart i _ \<Rightarrow> [i] | _ \<Rightarrow> [])"
  "ends [c] = (case sc_kind c of BlockEnd i _ \<Rightarrow> [i] | _ \<Rightarrow> [])"
  "usages [c] = (case sc_kind c of UsageChunk _ \<Rightarrow> 1 | _ \<Rightarrow> 0)"
  "started [c] i t = (sc_kind c = BlockStart i t)"
  by (auto simp: starts_def ends_def usages_def started_def split: stream_chunk_kind.splits)

lemma sv_after_live:
  assumes "sv_after cs v"
  shows "map_of (sv_open v) i = Some t \<longleftrightarrow> started cs i t \<and> i \<notin> set (ends cs)"
proof -
  from assms have d: "distinct (map fst (sv_open v))"
    and f: "fst ` set (sv_open v) = set (starts cs) - set (ends cs)"
    and o: "\<And>i t. (i, t) \<in> set (sv_open v) \<Longrightarrow> started cs i t"
    and u: "\<And>t t'. started cs i t \<Longrightarrow> started cs i t' \<Longrightarrow> t = t'"
    by (auto simp: sv_after_def)
  show ?thesis
  proof
    assume "map_of (sv_open v) i = Some t"
    then have m: "(i, t) \<in> set (sv_open v)" by (rule map_of_SomeD)
    then have "i \<in> set (starts cs) - set (ends cs)" using f by force
    with o[OF m] show "started cs i t \<and> i \<notin> set (ends cs)" by simp
  next
    assume s: "started cs i t \<and> i \<notin> set (ends cs)"
    then have "i \<in> fst ` set (sv_open v)" using f started_in_starts[of cs i t] by simp
    then obtain t' where m: "(i, t') \<in> set (sv_open v)" by force
    with o u s have "t' = t" by blast
    with m d show "map_of (sv_open v) i = Some t" by simp
  qed
qed

lemma sv_after_default: "sv_after [] sv_default"
  by (simp add: sv_after_def sv_default_def starts_def ends_def usages_def started_def)

lemma sv_after_open_Nil: "sv_after cs v \<Longrightarrow> sv_open v = [] \<longleftrightarrow> set (starts cs) \<subseteq> set (ends cs)"
  by (auto simp: sv_after_def)

text \<open>A chunk is accepted exactly when the grammar allows it.\<close>

lemma prepare_kind_iff:
  assumes "sv_after cs v"
  shows "is_ok (prepare_kind v (sc_kind c)) \<longleftrightarrow>
     (case sc_kind c of
           BlockStart i _ \<Rightarrow> i \<notin> set (starts cs)
         | TextDelta i _ \<Rightarrow> started cs i TextType \<and> i \<notin> set (ends cs)
         | ReasoningDelta i _ \<Rightarrow> started cs i ReasoningType \<and> i \<notin> set (ends cs)
         | ToolCallDelta i _ _ _ \<Rightarrow> started cs i ToolCallType \<and> i \<notin> set (ends cs)
         | BlockEnd i b \<Rightarrow> started cs i (block_type (cb_kind b)) \<and> i \<notin> set (ends cs)
         | UsageChunk _ \<Rightarrow> usages cs = 0
         | FinishChunk r _ \<Rightarrow> can_leave_open r \<or> set (starts cs) \<subseteq> set (ends cs)
         | OtherChunk _ \<Rightarrow> False)"
proof (cases "sc_kind c")
  case (BlockEnd i b)
  then show ?thesis
    using sv_after_live[OF assms, of i] by (cases "map_of (sv_open v) i")
      (auto simp: prepare_kind_def Let_def)
qed (use sv_after_live[OF assms] sv_after_open_Nil[OF assms] assms in
   \<open>auto simp: prepare_kind_def require_open_def Let_def sv_after_def\<close>)

lemma accept_iff:
  assumes "sv_after cs v" "length cs \<le> MAX_PROVIDER_STREAM_CHUNKS"
  shows "is_ok (accept v c) \<longleftrightarrow> chunk_allowed cs c"
proof -
  have ok: "is_ok (accept v c) \<longleftrightarrow> is_ok (prepare v c)"
    by (cases "prepare v c") (auto simp: accept_def)
  have n: "sv_chunk_count v = length cs" "sv_finished v = (\<exists>d\<in>set cs. is_finish d)"
    using assms(1) by (simp_all add: sv_after_def)
  have "is_ok (prepare v c) \<longleftrightarrow>
      (\<forall>d\<in>set cs. \<not> is_finish d)
      \<and> (if is_finish c then length cs < MAX_PROVIDER_STREAM_CHUNKS
          else length cs + 1 < MAX_PROVIDER_STREAM_CHUNKS)
      \<and> is_ok (prepare_kind v (sc_kind c))"
    using assms(2) by (auto simp: prepare_def n)
  then show ?thesis
    unfolding ok prepare_kind_iff[OF assms(1)] chunk_allowed_def Let_def .
qed

lemma accept_after:
  assumes "sv_after cs v" "accept v c = Inr v'"
  shows "sv_after (cs @ [c]) v'"
proof -
  from assms(2) obtain p where p: "prepare_kind v (sc_kind c) = Inr p" and v': "v' = commit v p"
    by (auto simp: accept_def result_simps prepare_def split: if_splits)
  note defs = sv_after_def v' commit_def Let_def prepare_kind_def is_finish_def
  show ?thesis
  proof (cases "sc_kind c")
    case (BlockStart i t)
    with p have pi: "i \<notin> set (starts cs)" "p = PrepBlockStart i t"
      using assms(1) by (auto simp: prepare_kind_def sv_after_def split: if_splits)
    have ns: "\<not> started cs i t'" for t' using pi(1) started_in_starts by blast
    have "i \<notin> set (ends cs)" "i \<notin> fst ` set (sv_open v)"
      using pi(1) assms(1) by (auto simp: sv_after_def)
    with ns pi assms(1) BlockStart show ?thesis
      by (auto simp: sv_after_def v' commit_def Let_def is_finish_def)
  next
    case (BlockEnd i b)
    with p have pi: "map_of (sv_open v) i = Some (block_type (cb_kind b))" "p = PrepBlockEnd i"
      by (auto simp: prepare_kind_def Let_def result_simps split: if_splits)
    have "i \<in> set (starts cs)"
      using pi(1) sv_after_live[OF assms(1)] started_in_starts by blast
    moreover have "distinct (map fst (filter (\<lambda>(j, _). j \<noteq> i) (sv_open v)))"
      using assms(1) by (auto simp: sv_after_def distinct_map intro: inj_on_subset)
    moreover have "fst ` set (filter (\<lambda>(j, _). j \<noteq> i) (sv_open v)) = fst ` set (sv_open v) - {i}"
      by force
    ultimately show ?thesis
      using pi(2) assms(1) BlockEnd by (auto simp: sv_after_def v' commit_def Let_def is_finish_def)
  next
    case (OtherChunk t)
    with p show ?thesis by (simp add: prepare_kind_def)
  qed (use assms(1) p in \<open>auto simp: sv_after_def v' commit_def Let_def prepare_kind_def
      require_open_def result_simps is_finish_def split: if_splits\<close>)
qed

lemma well_formed_snoc:
  "well_formed_stream (cs @ [c]) \<longleftrightarrow> well_formed_stream cs \<and> chunk_allowed cs c"
  by (auto simp: well_formed_stream_def nth_append less_Suc_eq)

lemma well_formed_length: "well_formed_stream cs \<Longrightarrow> length cs \<le> MAX_PROVIDER_STREAM_CHUNKS"
proof (induction cs rule: rev_induct)
  case (snoc c cs)
  then show ?case by (auto simp: well_formed_snoc chunk_allowed_def Let_def split: if_splits)
qed simp

lemma accept_all_spec:
  "if well_formed_stream cs then \<exists>v. accept_all sv_default cs = Inr v \<and> sv_after cs v
   else \<not> is_ok (accept_all sv_default cs)"
proof (induction cs rule: rev_induct)
  case Nil
  then show ?case by (simp add: accept_all_def well_formed_stream_def sv_after_default)
next
  case (snoc c cs)
  have step: "accept_all sv_default (cs @ [c]) = bindR (accept_all sv_default cs) (\<lambda>v. accept v c)"
    by (auto simp: accept_all_def try_fold_append bindR_def split: sum.splits)
  show ?case
  proof (cases "well_formed_stream cs")
    case True
    with snoc obtain v where v: "accept_all sv_default cs = Inr v" "sv_after cs v" by auto
    note ok = accept_iff[OF v(2) well_formed_length[OF True], of c]
    show ?thesis
    proof (cases "chunk_allowed cs c")
      case t: True
      with ok obtain v' where "accept v c = Inr v'" by (auto simp: is_ok_iff)
      with accept_after[OF v(2) this] True t v step show ?thesis by (simp add: well_formed_snoc)
    next
      case False
      with ok True v step show ?thesis by (simp add: well_formed_snoc)
    qed
  next
    case False
    with snoc step show ?thesis
      by (cases "accept_all sv_default cs") (auto simp: well_formed_snoc)
  qed
qed

text \<open>
  C22: The incremental validator decides the stream grammar: it accepts a sequence of chunks, and
  then its end, exactly when every chunk is allowed behind the chunks before it (a block index
  starts once, deltas and ends match a block that is open with that type, usage comes once, at
  most 4000 chunks, nothing follows finish) and the last chunk is a finish, which leaves no block
  open unless it reports a failure.
\<close>

theorem stream_validator_decides_grammar:
  "is_ok (bindR (accept_all sv_default cs) complete) =
     (well_formed_stream cs \<and> (\<exists>c\<in>set cs. is_finish c))"
proof (cases "well_formed_stream cs")
  case True
  with accept_all_spec[of cs] obtain v where v: "accept_all sv_default cs = Inr v" "sv_after cs v"
    by auto
  then have "sv_finished v = (\<exists>c\<in>set cs. is_finish c)" by (simp add: sv_after_def)
  with v True show ?thesis by (simp add: complete_def)
next
  case False
  with accept_all_spec[of cs] show ?thesis by (cases "accept_all sv_default cs") auto
qed

text \<open>
  Once a finish has been accepted every further chunk is refused; the number of accepted
  chunks never exceeds 4000 and the last place is kept for a finish; a finish that does not
  report a failure leaves no block open.
\<close>

theorem stream_validator_terminal:
  assumes "accept_all sv_default cs = Inr v"
  shows "sv_chunk_count v = length cs \<and> length cs \<le> MAX_PROVIDER_STREAM_CHUNKS
     \<and> (length cs = MAX_PROVIDER_STREAM_CHUNKS \<longrightarrow> is_finish (last cs))
     \<and> (sv_finished v \<longrightarrow> accept v c = Inl (ChunkAfterFinish (chunk_type c)))
     \<and> (sv_finished v \<and> \<not> can_leave_open r \<and> sc_kind (last cs) = FinishChunk r p \<longrightarrow> sv_open v = [])"
proof -
  have wf: "well_formed_stream cs" and v: "sv_after cs v"
    using accept_all_spec[of cs] assms by (auto split: if_splits)
  have last: "well_formed_stream (butlast cs) \<and> chunk_allowed (butlast cs) (last cs)" if "cs \<noteq> []"
    using wf that well_formed_snoc[of "butlast cs" "last cs"] by simp
  have "is_finish (last cs)" if "length cs = MAX_PROVIDER_STREAM_CHUNKS"
  proof -
    from that have "cs \<noteq> []" by (auto simp: MAX_PROVIDER_STREAM_CHUNKS_def)
    with last that show ?thesis by (auto simp: chunk_allowed_def Let_def split: if_splits)
  qed
  moreover have "sv_open v = []"
    if f: "sv_finished v" "\<not> can_leave_open r" "sc_kind (last cs) = FinishChunk r p"
  proof -
    from v f(1) have ne: "cs \<noteq> []" by (auto simp: sv_after_def)
    with last f have "set (starts (butlast cs)) \<subseteq> set (ends (butlast cs))"
      by (simp add: chunk_allowed_def Let_def)
    moreover have "starts cs = starts (butlast cs) @ starts [last cs]"
      "ends cs = ends (butlast cs) @ ends [last cs]"
      using ne by (metis append_butlast_last_id starts_append ends_append)+
    ultimately show ?thesis using sv_after_open_Nil[OF v] f(3) by simp
  qed
  ultimately show ?thesis
    using v well_formed_length[OF wf] by (auto simp: sv_after_def accept_def prepare_def)
qed

definition stop_chunk :: stream_chunk where
  "stop_chunk =
     (let raw = \<lparr>jv_value = JNull, jv_encoded_len = 4\<rparr> in
      \<lparr>sc_kind = FinishChunk \<lparr>fr_kind = Stop, fr_raw = raw\<rparr> None, sc_raw = raw\<rparr>)"

theorem stream_validator_terminal_witness:
  "\<exists>v. accept_all sv_default [stop_chunk] = Inr v \<and> sv_chunk_count v = 1 \<and> sv_open v = []
     \<and> accept v stop_chunk = Inl (ChunkAfterFinish ''finish'')"
proof -
  obtain v where v: "accept_all sv_default [stop_chunk] = Inr v" "sv_finished v" "sv_open v = []"
    by (simp add: accept_all_def accept_def prepare_def prepare_kind_def sv_default_def stop_chunk_def
        MAX_PROVIDER_STREAM_CHUNKS_def is_finish_def commit_def Let_def)
  with stream_validator_terminal[OF v(1), of stop_chunk] show ?thesis
    by (auto simp: chunk_type_def stop_chunk_def Let_def)
qed

end
