(* ===== verification/Session_Errors.thy ===== *)
theory Session_Errors
  imports Stream_Validator
begin

text \<open>
  The errors of \<open>src/session/error.rs\<close> that reducing and validating events raises, and the
  identifiers of \<open>src/session/event.rs\<close>.  Turn, step, retry and sequence numbers are natural
  numbers; their ranges are the well-formedness of the events that carry them.
\<close>

section \<open>Identifiers\<close>

datatype number_error = NonNegativeSafeInteger string | PositiveSafeInteger string | SignedSafeInteger string

definition event_seq_new :: "nat \<Rightarrow> number_error + nat" where
  "event_seq_new n = (if n > MAX_SAFE_INTEGER then Inl (NonNegativeSafeInteger ''seq'') else Inr n)"

definition event_seq_from_index :: "nat \<Rightarrow> nat option" where
  "event_seq_from_index i = (if i \<le> MAX_SAFE_INTEGER then Some i else None)"

definition nonzero_id_new :: "string \<Rightarrow> nat \<Rightarrow> number_error + nat" where
  "nonzero_id_new field n =
     (if n = 0 \<or> n > MAX_SAFE_INTEGER then Inl (PositiveSafeInteger field) else Inr n)"

text \<open>\<open>first\<close> and \<open>successor\<close> of the turn, step and retry numbers.\<close>

definition first_id :: nat where
  "first_id = 1"

definition successor :: "nat \<Rightarrow> nat option" where
  "successor n = Option.bind (checked_add_u64 n 1) (\<lambda>v. if v \<le> MAX_SAFE_INTEGER then Some v else None)"

definition unix_millis_new :: "int \<Rightarrow> number_error + int" where
  "unix_millis_new t =
     (if t < - int MAX_SAFE_INTEGER \<or> t > int MAX_SAFE_INTEGER then Inl (SignedSafeInteger ''time'') else Inr t)"

lemma successor_Some [checked_simps]: "successor n = Some m \<longleftrightarrow> m = Suc n \<and> Suc n \<le> MAX_SAFE_INTEGER"
  by (auto simp: successor_def checked_add_u64_def MAX_SAFE_INTEGER_def U64_LIMIT_def
      split: bind_splits if_splits)

section \<open>Errors\<close>

datatype attempt_error =
    AttemptCapacity
  | AttemptBoundary string string
  | MissingRoute
  | AttemptStream stream_protocol_error
  | EmittedBytes nat nat
  | UsageOverflow
  | TokenEstimateOverflow
  | SourceMismatch
  | ContentMismatch
  | UsageMismatch
  | RouteMismatch
  | FailureMismatch
  | DigestError
  | OwnershipChanged

datatype (plugins only: code) transition_error =
    TurnAlreadyOpen nat nat
  | WrongNextTurn nat nat
  | WrongTurnEnd "nat option" nat
  | TurnEndWhileStepOpen nat nat
  | StepOutsideTurn "nat option" nat
  | StepAlreadyOpen nat nat
  | WrongNextStep nat nat nat
  | WrongOpenStep string "nat option" "nat option" nat nat
  | EventOutsideTurn string
  | MissingToolCall string
  | RetryProviderMismatch string string
  | WrongRetryNumber nat nat
  | RetryChainIdMismatch string string
  | RetryIdAlreadyOwned string
  | RetryStartedWithoutSchedule string nat
  | RetryStartedTwice string nat
  | ApprovalIdAlreadyPending string
  | ApprovalIdAlreadyOwned string
  | ApprovalDecisionWithoutRequest string
  | ApprovalStillPending string string
  | InvalidDurableToolCallIdentity string
  | TooManyDurableToolCalls nat
  | DuplicateDurableToolCall string
  | DurableToolCallWithoutDeclaration string
  | DurableToolCallMismatch string string
  | DurableApprovalWithoutCall
  | DurableApprovalCallMismatch string
  | DurableApprovalToolMismatch string string
  | DurableApprovalRepeated string
  | MultipleDurableApprovals string
  | DurableApprovalDecisionMismatch string
  | DurableToolResultMismatch string
  | DuplicateDurableToolResult string
  | DurableToolResultBeforeDecision string
  | DurableToolResultWrongSource string
  | DurableToolResultWithoutIntent string
  | DurableRecoveryEventNotAllowed string
  | DurablePruneEventNotAllowed string
  | DurableAttemptEventNotAllowed string
  | DurableApprovalResultMismatch string string
  | DurableCallStillPending string string
  | CompactionAlreadyOpen string
  | CompactionWithoutStart string
  | CompactionIdMismatch string string string
  | CompactionSourceCommandMismatch string
  | CompactionOwnerMismatch string
  | CompactionBoundaryCrossed string
  | CompactionBodyOutOfOrder string
  | CompactionSuccessWithoutReplacement
  | DurableCompactionDispatchRequired
  | DurableLegacyCompactionError
  | CompactionDispatchMismatch string
  | IdentifierExhausted

datatype (plugins only: code) surface_error =
    MissingOperation string
  | MetadataOnIneligibleEvent string
  | EmptySources
  | TooManySources nat nat
  | DuplicateSource nat
  | SourceNotEarlier nat nat
  | StartNotFound nat
  | EndNotFound nat
  | ReversedRange nat nat
  | MissingShadowedSource nat
  | ToolResultMultipleTargets
  | ToolResultWrongTarget
  | ToolResultChangedIdentity
  | TokenAccountingOverflow
  | ResidentAccountingOverflow
  | UnbalancedToolSurface
  | ShadowedTokenCountMismatch nat nat
  | CompactionDoesNotShrink nat nat
  | CompactionReplacementMismatch
  | PruneTargetNotToolResult
  | PruneReplacementWithoutMarker
  | PruneReplacementMismatch

datatype event_error =
    AttemptE attempt_error
  | ModelE model_error
  | TransitionE transition_error
  | SurfaceE surface_error
  | UnknownLiveEvent
  | NonContiguousSequence nat nat
  | UnknownRequiredEvent
  | LegacyRequestHeaderReason
  | NonCanonicalRequestHeaderReason string
  | InconsistentTurnEndReason
  | InvalidRetryEvent string
  | InvalidApprovalEvent string
  | InvalidCompactionEvent string
  | TooManyEvents nat nat

text \<open>The conversions of the question mark operator.\<close>

abbreviation lift_transition :: "transition_error + 'a \<Rightarrow> event_error + 'a" where
  "lift_transition \<equiv> map_err TransitionE"

abbreviation lift_surface :: "surface_error + 'a \<Rightarrow> event_error + 'a" where
  "lift_surface \<equiv> map_err SurfaceE"

abbreviation lift_model :: "model_error + 'a \<Rightarrow> event_error + 'a" where
  "lift_model \<equiv> map_err ModelE"

abbreviation lift_attempt :: "attempt_error + 'a \<Rightarrow> event_error + 'a" where
  "lift_attempt \<equiv> map_err AttemptE"

end
