(* ===== verification/Compaction_Events.thy ===== *)
theory Compaction_Events
  imports Session_Errors
begin

text \<open>
  The durable compaction events of \<open>src/session/compaction.rs\<close> and their validation.
\<close>

section \<open>Limits\<close>

definition MAX_SOURCE_EVENT_SEQS :: nat where
  "MAX_SOURCE_EVENT_SEQS = 4096"

definition MAX_COMPACTION_SHADOWED_SEQS :: nat where
  "MAX_COMPACTION_SHADOWED_SEQS = MAX_SOURCE_EVENT_SEQS - 2"

definition MAX_COMPACTION_ID_BYTES :: nat where
  "MAX_COMPACTION_ID_BYTES = 1024"

definition MAX_COMPACTION_SOURCE_COMMAND_ID_BYTES :: nat where
  "MAX_COMPACTION_SOURCE_COMMAND_ID_BYTES = 1024"

definition MAX_COMPACTION_ROUTE_BYTES :: nat where
  "MAX_COMPACTION_ROUTE_BYTES = 1024"

definition MAX_COMPACTION_INSTRUCTION_ID_BYTES :: nat where
  "MAX_COMPACTION_INSTRUCTION_ID_BYTES = 1024"

definition MAX_COMPACTION_SYSTEM_BYTES :: nat where
  "MAX_COMPACTION_SYSTEM_BYTES = 4 * 1024 * 1024"

definition MAX_COMPACTION_TOOLS :: nat where
  "MAX_COMPACTION_TOOLS = 256"

definition MAX_COMPACTION_RETRY_CODES :: nat where
  "MAX_COMPACTION_RETRY_CODES = 256"

definition MAX_COMPACTION_RETRY_CODE_BYTES :: nat where
  "MAX_COMPACTION_RETRY_CODE_BYTES = 256"

definition MAX_COMPACTION_RETRY_DELAY_MILLIS :: int where
  "MAX_COMPACTION_RETRY_DELAY_MILLIS = 2147483647"

definition MAX_COMPACTION_FAILURE_CODE_BYTES :: nat where
  "MAX_COMPACTION_FAILURE_CODE_BYTES = 256"

definition MAX_COMPACTION_FAILURE_MESSAGE_BYTES :: nat where
  "MAX_COMPACTION_FAILURE_MESSAGE_BYTES = 32 * 1024"

definition MAX_COMPACTION_FAILURE_REQUEST_ID_BYTES :: nat where
  "MAX_COMPACTION_FAILURE_REQUEST_ID_BYTES = 1024"

definition MAX_COMPACTION_FAILURE_JSON_BYTES :: nat where
  "MAX_COMPACTION_FAILURE_JSON_BYTES = 48 * 1024"

definition COMPACTION_INSTRUCTION_FORMAT_VERSION :: nat where
  "COMPACTION_INSTRUCTION_FORMAT_VERSION = 1"

definition COMPACTION_INSTRUCTION_SOURCE :: string where
  "COMPACTION_INSTRUCTION_SOURCE = ''dsh.compaction''"

definition COMPACTION_CHECKPOINT_SOURCE :: string where
  "COMPACTION_CHECKPOINT_SOURCE = ''compact''"

definition COMPACTION_CHECKPOINT_PREFIX :: string where
  "COMPACTION_CHECKPOINT_PREFIX = ''This is an automatically generated checkpoint condensing an earlier span of the conversation to free up context. Treat the captured context as established background and build on it without restating it. Continue the task directly from the messages that follow, without acknowledging this checkpoint.'' @ [CHR 0x0A, CHR 0x0A] @ ''<compacted-summary>''"

definition COMPACTION_CHECKPOINT_SUFFIX :: string where
  "COMPACTION_CHECKPOINT_SUFFIX = ''</compacted-summary>''"

section \<open>Comparison of finite binary64 values\<close>

text \<open>The value times \<open>2 ^ 1074\<close>, which is an integer for every finite number.\<close>

definition number_scaled :: "number \<Rightarrow> int" where
  "number_scaled n =
     (case n of
        NumInt i \<Rightarrow> i * 2 ^ 1074
      | NumFloat w \<Rightarrow>
          (let e = f64_exponent w;
               m = (if e = 0 then f64_fraction w else 2 ^ 52 + f64_fraction w) * 2 ^ (max 1 e - 1)
           in if f64_sign w then - int m else int m))"

definition number_le :: "number \<Rightarrow> number \<Rightarrow> bool" where
  "number_le a b = (number_scaled a \<le> number_scaled b)"

definition in_timer_range :: "number \<Rightarrow> bool" where
  "in_timer_range n = (number_le (NumInt 0) n \<and> number_le n (NumInt 2147483647))"

section \<open>Data\<close>

datatype compaction_trigger = Pressure | ContextOverflow | HardLimit

record compaction_range =
  cr_start :: nat
  cr_end :: nat

datatype retry_mode_snapshot = NormalRetry | AlwaysRetry

record retry_backoff_snapshot =
  rb_initial_delay_ms :: number
  rb_max_delay_ms :: number
  rb_jitter_ratio :: number

record retry_policy_snapshot =
  rp_mode :: retry_mode_snapshot
  rp_max_retries :: "nat option"
  rp_retryable_codes :: "string list"
  rp_backoff :: retry_backoff_snapshot

record prepared_compaction_call =
  pc_config :: call_config
  pc_adapter_defaults :: adapter_defaults
  pc_context_window :: "nat option"
  pc_retry_policy :: retry_policy_snapshot

datatype request_purpose = Conversation | SessionTitle | CompactionPurpose

record dispatch_snapshot =
  ds_trigger :: compaction_trigger
  ds_source_surface_generation :: nat
  ds_shadowed_range :: compaction_range
  ds_shadowed_seqs :: "nat list"
  ds_prepared_call :: prepared_compaction_call
  ds_request_header_seq :: "nat option"
  ds_request_context_seq :: "nat option"
  ds_system :: "string option"
  ds_tools :: "tool_schema list"
  ds_session_id :: string
  ds_purpose :: request_purpose
  ds_instruction :: message
  ds_instruction_format_version :: nat

record compaction_start_event =
  cs_compaction_id :: string
  cs_source_command_id :: "string option"
  cs_turn :: "nat option"
  cs_dispatch :: "dispatch_snapshot option"

record compaction_summary_event =
  cm_compaction_id :: string
  cm_source_command_id :: "string option"
  cm_summary :: "content_block list"
  cm_raw_output :: "content_block list option"
  cm_llm_stream_call :: bool
  cm_shadowed_range :: compaction_range
  cm_shadowed_seqs :: "nat list"
  cm_shadowed_token_count :: nat
  cm_provider :: string
  cm_model :: string
  cm_max_tokens :: "nat option"
  cm_usage :: "token_usage option"

datatype compaction_end_error = EndFailure llm_failure | LegacyString string

record compaction_end_event =
  ce_compaction_id :: string
  ce_source_command_id :: "string option"
  ce_turn :: "nat option"
  ce_error :: "compaction_end_error option"

record compaction_prune_event =
  cp_shadowed_range :: compaction_range
  cp_shadowed_seqs :: "nat list"
  cp_shadowed_token_count :: nat

section \<open>Validation\<close>

definition invalid_compaction :: "string \<Rightarrow> event_error + 'a" where
  "invalid_compaction detail = Inl (InvalidCompactionEvent detail)"

definition validate_bounded_identity :: "string \<Rightarrow> nat \<Rightarrow> string \<Rightarrow> event_error + unit" where
  "validate_bounded_identity v maximum detail =
     (if v = [] \<or> length v > maximum \<or> has_control v then invalid_compaction detail else Inr ())"

definition compaction_id_validate :: "string \<Rightarrow> event_error + unit" where
  "compaction_id_validate v = validate_bounded_identity v MAX_COMPACTION_ID_BYTES
     ''compactionId must be 1 to 1024 non-control UTF-8 bytes''"

definition validate_source_command_id :: "string option \<Rightarrow> event_error + unit" where
  "validate_source_command_id v =
     (case v of
        None \<Rightarrow> Inr ()
      | Some v \<Rightarrow> validate_bounded_identity v MAX_COMPACTION_SOURCE_COMMAND_ID_BYTES
          ''sourceCommandId must be 1 to 1024 non-control UTF-8 bytes'')"

definition validate_route :: "string \<Rightarrow> string \<Rightarrow> event_error + unit" where
  "validate_route v detail = validate_bounded_identity v MAX_COMPACTION_ROUTE_BYTES detail"

definition visible_ascii :: "string \<Rightarrow> bool" where
  "visible_ascii s = (\<forall>c\<in>set s. 33 \<le> byte c \<and> byte c \<le> 126)"

definition validate_session_id :: "string \<Rightarrow> event_error + unit" where
  "validate_session_id v =
     (if v = [] \<or> length v > 1024 \<or> \<not> visible_ascii v
      then invalid_compaction ''compaction sessionId is invalid'' else Inr ())"

definition validate_shadowed :: "compaction_range \<Rightarrow> nat list \<Rightarrow> nat \<Rightarrow> event_error + unit" where
  "validate_shadowed rng shadowed maximum =
     (if shadowed = [] \<or> length shadowed > maximum
      then invalid_compaction ''compaction shadowedSeqs length is invalid''
      else if hd shadowed \<noteq> cr_start rng \<or> last shadowed \<noteq> cr_end rng
      then invalid_compaction ''compaction range must match the first and last shadowed seq''
      else if \<not> distinct shadowed
      then invalid_compaction ''compaction shadowedSeqs contains a duplicate''
      else Inr ())"

definition retry_backoff_validate :: "retry_backoff_snapshot \<Rightarrow> event_error + unit" where
  "retry_backoff_validate b =
     (let maximum = NumInt MAX_COMPACTION_RETRY_DELAY_MILLIS in
      if \<not> number_le (rb_initial_delay_ms b) maximum \<or> \<not> number_le (rb_max_delay_ms b) maximum
         \<or> \<not> number_le (rb_initial_delay_ms b) (rb_max_delay_ms b)
         \<or> \<not> (number_le (NumInt 0) (rb_jitter_ratio b) \<and> number_le (rb_jitter_ratio b) (NumInt 1))
      then invalid_compaction ''retry backoff is invalid'' else Inr ())"

fun validate_codes :: "string list \<Rightarrow> string list \<Rightarrow> event_error + unit" where
  "validate_codes seen [] = Inr ()"
| "validate_codes seen (code # codes) =
     bindR (validate_bounded_identity code MAX_COMPACTION_RETRY_CODE_BYTES
              ''retry code must be 1 to 256 non-control UTF-8 bytes'') (\<lambda>_.
       if code \<in> set seen then invalid_compaction ''retry policy contains a duplicate code''
       else validate_codes (code # seen) codes)"

definition retry_policy_validate :: "retry_policy_snapshot \<Rightarrow> event_error + unit" where
  "retry_policy_validate p =
     bindR (retry_backoff_validate (rp_backoff p)) (\<lambda>_.
       if length (rp_retryable_codes p) > MAX_COMPACTION_RETRY_CODES
       then invalid_compaction ''retry policy has too many codes''
       else bindR (validate_codes [] (rp_retryable_codes p)) (\<lambda>_.
         case rp_mode p of
           NormalRetry \<Rightarrow>
             if rp_max_retries p = None \<or> rp_retryable_codes p = []
             then invalid_compaction ''normal retry policy requires maxRetries and retryableCodes''
             else Inr ()
         | AlwaysRetry \<Rightarrow>
             if rp_max_retries p \<noteq> None \<or> rp_retryable_codes p \<noteq> []
             then invalid_compaction ''always retry policy must omit maxRetries and retryableCodes''
             else Inr ()))"

definition prepared_call_validate :: "prepared_compaction_call \<Rightarrow> event_error + unit" where
  "prepared_call_validate p =
     (let c = pc_config p; d = pc_adapter_defaults p in
      bindR (lift_model (config_validate c)) (\<lambda>_.
      bindR (validate_route (cc_provider c) ''prepared call provider is invalid'') (\<lambda>_.
      bindR (validate_route (cc_model c) ''prepared call model is invalid'') (\<lambda>_.
        if ad_reasoning_effort d \<and> cc_reasoning_effort c = None
        then Inl (ModelE (InvalidAdapterDefault ''reasoningEffort''))
        else if ad_max_tokens d \<and> cc_max_tokens c = None
        then Inl (ModelE (InvalidAdapterDefault ''maxTokens''))
        else if cc_max_tokens c = Some 0
        then invalid_compaction ''prepared compaction maxTokens must be positive when present''
        else retry_policy_validate (pc_retry_policy p)))))"

definition is_exact_instruction_source :: "message_source \<Rightarrow> bool" where
  "is_exact_instruction_source s =
     (case as_object (jv_value (src_raw s)) of
        None \<Rightarrow> False
      | Some m \<Rightarrow> length m = 2 \<and> get_str m ''kind'' = Some ''plugin''
          \<and> get_str m ''plugin'' = Some COMPACTION_INSTRUCTION_SOURCE)"

definition is_instruction_message :: "message \<Rightarrow> bool" where
  "is_instruction_message m =
     (msg_role m = User
      \<and> (case src_kind (msg_source m) of
           PluginSource plugin _ _ _ \<Rightarrow> plugin = COMPACTION_INSTRUCTION_SOURCE
         | _ \<Rightarrow> False)
      \<and> is_exact_instruction_source (msg_source m))"

definition dispatch_validate :: "dispatch_snapshot \<Rightarrow> event_error + unit" where
  "dispatch_validate d =
     bindR (validate_shadowed (ds_shadowed_range d) (ds_shadowed_seqs d) MAX_COMPACTION_SHADOWED_SEQS) (\<lambda>_.
     bindR (prepared_call_validate (ds_prepared_call d)) (\<lambda>_.
       if (case ds_system d of None \<Rightarrow> False | Some s \<Rightarrow> length s > MAX_COMPACTION_SYSTEM_BYTES)
       then invalid_compaction ''compaction system text is too large''
       else if length (ds_tools d) > MAX_COMPACTION_TOOLS
       then invalid_compaction ''compaction has too many tool schemas''
       else bindR (validate_session_id (ds_session_id d)) (\<lambda>_.
         if ds_purpose d \<noteq> CompactionPurpose
         then invalid_compaction ''compaction dispatch purpose must be compaction''
         else if ds_instruction_format_version d \<noteq> COMPACTION_INSTRUCTION_FORMAT_VERSION
         then invalid_compaction ''unsupported compaction instruction format version''
         else if \<not> is_instruction_message (ds_instruction d)
         then invalid_compaction ''compaction instruction must be a dsh.compaction user message''
         else if msg_id (ds_instruction d) = []
              \<or> length (msg_id (ds_instruction d)) > MAX_COMPACTION_INSTRUCTION_ID_BYTES
              \<or> \<not> visible_ascii (msg_id (ds_instruction d))
         then invalid_compaction ''compaction instruction ID must be 1 to 1024 visible ASCII bytes''
         else Inr ())))"

definition compaction_start_validate :: "compaction_start_event \<Rightarrow> event_error + unit" where
  "compaction_start_validate s =
     bindR (compaction_id_validate (cs_compaction_id s)) (\<lambda>_.
     bindR (validate_source_command_id (cs_source_command_id s)) (\<lambda>_.
       case cs_dispatch s of None \<Rightarrow> Inr () | Some d \<Rightarrow> dispatch_validate d))"

text \<open>\<open>char::is_whitespace\<close>, the Unicode property \<open>White_Space\<close>.\<close>

definition is_whitespace :: "nat \<Rightarrow> bool" where
  "is_whitespace u =
     ((9 \<le> u \<and> u \<le> 13) \<or> u = 32 \<or> u = 133 \<or> u = 160 \<or> u = 5760 \<or> (8192 \<le> u \<and> u \<le> 8202)
      \<or> u = 8232 \<or> u = 8233 \<or> u = 8239 \<or> u = 8287 \<or> u = 12288)"

definition blank :: "string \<Rightarrow> bool" where
  "blank s = (case from_utf8 s of Inr us \<Rightarrow> \<forall>u\<in>set us. is_whitespace u | Inl _ \<Rightarrow> False)"

definition is_text_block :: "content_block \<Rightarrow> bool" where
  "is_text_block b = (case cb_kind b of TextBlock _ \<Rightarrow> True | _ \<Rightarrow> False)"

definition is_nonblank_text_block :: "content_block \<Rightarrow> bool" where
  "is_nonblank_text_block b = (case cb_kind b of TextBlock s \<Rightarrow> \<not> blank s | _ \<Rightarrow> False)"

definition is_text_or_reasoning :: "content_block \<Rightarrow> bool" where
  "is_text_or_reasoning b = (case cb_kind b of TextBlock _ \<Rightarrow> True | ReasoningBlock _ \<Rightarrow> True | _ \<Rightarrow> False)"

text \<open>The raw output of a streamed call: reasoning and text only, and the summary is its text.\<close>

definition validate_raw_output :: "compaction_summary_event \<Rightarrow> event_error + unit" where
  "validate_raw_output s =
     (if \<not> cm_llm_stream_call s then Inr ()
      else case cm_raw_output s of
        None \<Rightarrow> invalid_compaction ''llmStreamCall requires complete rawOutput''
      | Some raw_output \<Rightarrow>
          if \<not> list_all is_text_or_reasoning raw_output
          then invalid_compaction ''compaction rawOutput may contain only reasoning and text blocks''
          else if filter is_text_block raw_output \<noteq> cm_summary s
          then invalid_compaction ''compaction summary must exactly preserve rawOutput text blocks''
          else Inr ())"

definition compaction_summary_validate :: "compaction_summary_event \<Rightarrow> event_error + unit" where
  "compaction_summary_validate s =
     bindR (compaction_id_validate (cm_compaction_id s)) (\<lambda>_.
     bindR (validate_source_command_id (cm_source_command_id s)) (\<lambda>_.
       if cm_summary s = [] \<or> length (cm_summary s) > MAX_MESSAGE_CONTENT_BLOCKS
       then invalid_compaction ''compaction summary block count is invalid''
       else if \<not> list_all is_text_block (cm_summary s) \<or> \<not> list_ex is_nonblank_text_block (cm_summary s)
       then invalid_compaction ''compaction summary must contain nonempty text blocks only''
       else if (case cm_raw_output s of None \<Rightarrow> False | Some r \<Rightarrow> length r > MAX_MESSAGE_CONTENT_BLOCKS)
       then invalid_compaction ''compaction raw output has too many blocks''
       else
         bindR (validate_raw_output s) (\<lambda>_.
         bindR (validate_shadowed (cm_shadowed_range s) (cm_shadowed_seqs s) MAX_COMPACTION_SHADOWED_SEQS) (\<lambda>_.
         bindR (validate_route (cm_provider s) ''compaction summary provider is invalid'') (\<lambda>_.
         bindR (validate_route (cm_model s) ''compaction summary model is invalid'') (\<lambda>_.
           if cm_max_tokens s = Some 0
           then invalid_compaction ''compaction summary maxTokens must be positive when present''
           else Inr ()))))))"

definition compaction_end_error_validate :: "compaction_end_error \<Rightarrow> event_error + unit" where
  "compaction_end_error_validate e =
     (case e of
        LegacyString m \<Rightarrow>
          if length m \<le> MAX_COMPACTION_FAILURE_MESSAGE_BYTES then Inr ()
          else invalid_compaction ''legacy compaction error exceeds the compatibility byte limit''
      | EndFailure f \<Rightarrow>
          bindR (validate_bounded_identity (lf_code f) MAX_COMPACTION_FAILURE_CODE_BYTES
                   ''compaction failure code is invalid'') (\<lambda>_.
            if lf_message f = [] \<or> length (lf_message f) > MAX_COMPACTION_FAILURE_MESSAGE_BYTES
            then invalid_compaction ''compaction failure message is invalid''
            else if (case lf_request_id f of
                       None \<Rightarrow> False
                     | Some r \<Rightarrow> r = [] \<or> length r > MAX_COMPACTION_FAILURE_REQUEST_ID_BYTES \<or> has_control r)
            then invalid_compaction ''compaction failure requestId is invalid''
            else if jv_encoded_len (lf_raw f) > MAX_COMPACTION_FAILURE_JSON_BYTES
            then invalid_compaction ''compaction failure JSON is too large''
            else Inr ()))"

definition compaction_end_error_is_legacy :: "compaction_end_error \<Rightarrow> bool" where
  "compaction_end_error_is_legacy e = (case e of LegacyString _ \<Rightarrow> True | _ \<Rightarrow> False)"

definition compaction_end_validate :: "compaction_end_event \<Rightarrow> event_error + unit" where
  "compaction_end_validate e =
     bindR (compaction_id_validate (ce_compaction_id e)) (\<lambda>_.
     bindR (validate_source_command_id (ce_source_command_id e)) (\<lambda>_.
       case ce_error e of None \<Rightarrow> Inr () | Some x \<Rightarrow> compaction_end_error_validate x))"

definition compaction_prune_validate :: "compaction_prune_event \<Rightarrow> event_error + unit" where
  "compaction_prune_validate p =
     bindR (validate_shadowed (cp_shadowed_range p) (cp_shadowed_seqs p) 1) (\<lambda>_.
       if length (cp_shadowed_seqs p) \<noteq> 1 \<or> cr_start (cp_shadowed_range p) \<noteq> cr_end (cp_shadowed_range p)
       then invalid_compaction ''compaction/prune must name one singleton surface node''
       else Inr ())"

end
