(* ===== verification/Session_Events.thy ===== *)
theory Session_Events
  imports Compaction_Events
begin

text \<open>
  The event vocabulary of \<open>src/session/event.rs\<close>: turn outcomes, request headers and contexts,
  retries, approvals, the events themselves with their stateless validation, and the surface
  metadata an event may carry.  Constructor functions that only name a variant are the
  constructors here.
\<close>

section \<open>Turn outcomes\<close>

datatype cancel_cause = CauseUser | CauseParent | CauseHook string | CauseDisposed | CauseLegacy

datatype turn_end_reason =
    TurnCompleted
  | TurnAborted cancel_cause
  | TurnBlocked
  | TurnError llm_failure
  | TurnMaxTokens
  | TurnInterrupted
  | TurnOther "string option" json_value

text \<open>
  The internally tagged reader of \<open>TurnEndCancelCause\<close> with \<open>deny_unknown_fields\<close>: an object
  with the tag \<open>kind\<close>, or an array that starts with the tag.  A unit variant ignores the other
  fields of an object, the struct variant refuses them.
\<close>

definition unit_cause :: "string \<Rightarrow> cancel_cause option" where
  "unit_cause k =
     (if k = ''user'' then Some CauseUser
      else if k = ''parent'' then Some CauseParent
      else if k = ''disposed'' then Some CauseDisposed
      else if k = ''legacy'' then Some CauseLegacy
      else None)"

definition de_cancel_cause :: "json \<Rightarrow> cancel_cause option" where
  "de_cancel_cause v =
     (case v of
        JObject m \<Rightarrow>
          Option.bind (get_str m ''kind'') (\<lambda>k.
            if k = ''hook''
            then (if length m = 2 then map_option CauseHook (get_str m ''reason'') else None)
            else unit_cause k)
      | JArray [JString k] \<Rightarrow> unit_cause k
      | JArray [JString k, JString r] \<Rightarrow> if k = ''hook'' then Some (CauseHook r) else None
      | _ \<Rightarrow> None)"

definition turn_end_known :: "externals \<Rightarrow> fields \<Rightarrow> turn_end_reason option" where
  "turn_end_known E m =
     (let k = get_str m ''kind''; n = length m in
      if k = Some ''completed'' \<and> n = 1 then Some TurnCompleted
      else if k = Some ''blocked'' \<and> n = 1 then Some TurnBlocked
      else if k = Some ''max-tokens'' \<and> n = 1 then Some TurnMaxTokens
      else if k = Some ''interrupted'' \<and> n = 1 then Some TurnInterrupted
      else if k = Some ''aborted'' \<and> n = 2 then
        map_option TurnAborted (Option.bind (map_of m ''reason'') de_cancel_cause)
      else if k = Some ''error'' \<and> n = 2 then
        map_option TurnError (Option.bind (map_of m ''error'') (\<lambda>j. ok_value (failure_from_value E j)))
      else None)"

definition turn_end_from_value :: "externals \<Rightarrow> json \<Rightarrow> model_error + turn_end_reason" where
  "turn_end_from_value E v =
     bindR (new_value E v) (\<lambda>raw.
       case as_object (jv_value raw) of
         None \<Rightarrow> Inr (TurnOther None raw)
       | Some m \<Rightarrow>
           Inr (case turn_end_known E m of
                  Some r \<Rightarrow> r
                | None \<Rightarrow> TurnOther (get_str m ''kind'') raw))"

definition turn_end_validate_canonical :: "externals \<Rightarrow> turn_end_reason \<Rightarrow> event_error + unit" where
  "turn_end_validate_canonical E r =
     (case r of
        TurnOther _ raw \<Rightarrow>
          bindR (lift_model (turn_end_from_value E (jv_value raw))) (\<lambda>reparsed.
            if reparsed \<noteq> r then Inl InconsistentTurnEndReason else Inr ())
      | _ \<Rightarrow> Inr ())"

section \<open>Requests\<close>

datatype todo_status = TodoPending | TodoInProgress | TodoCompleted

record todo_item =
  todo_content :: string
  todo_status :: todo_status

record epoch_header =
  eh_config :: call_config
  eh_adapter_defaults :: "adapter_defaults option"
  eh_system :: "string option"
  eh_tools :: "tool_schema list option"

definition canonicalized :: "epoch_header \<Rightarrow> epoch_header" where
  "canonicalized h =
     h\<lparr>eh_adapter_defaults :=
         (case eh_adapter_defaults h of
            None \<Rightarrow> None
          | Some d \<Rightarrow> if ad_reasoning_effort d \<or> ad_max_tokens d then Some d else None),
       eh_system := (if eh_system h = Some [] then None else eh_system h),
       eh_tools := (if eh_tools h = Some [] then None else eh_tools h)\<rparr>"

definition header_equivalent_to :: "epoch_header \<Rightarrow> epoch_header \<Rightarrow> bool" where
  "header_equivalent_to a b =
     (let a = canonicalized a; b = canonicalized b in
      equivalent_to (eh_config a) (eh_config b)
      \<and> eh_adapter_defaults a = eh_adapter_defaults b
      \<and> eh_system a = eh_system b \<and> eh_tools a = eh_tools b)"

definition header_validate :: "epoch_header \<Rightarrow> event_error + unit" where
  "header_validate h =
     bindR (lift_model (config_validate (eh_config h))) (\<lambda>_.
       case eh_adapter_defaults h of
         None \<Rightarrow> Inr ()
       | Some d \<Rightarrow>
           if ad_reasoning_effort d \<and> cc_reasoning_effort (eh_config h) = None
           then Inl (ModelE (InvalidAdapterDefault ''reasoningEffort''))
           else if ad_max_tokens d \<and> cc_max_tokens (eh_config h) = None
           then Inl (ModelE (InvalidAdapterDefault ''maxTokens''))
           else Inr ())"

datatype request_header_reason = ReasonInitial | ReasonResume | ReasonChange | ReasonOther string

record request_context =
  rc_provider :: "string option"
  rc_model :: "string option"
  rc_context_window :: "nat option"
  rc_raw :: json_value

definition request_context_from_value :: "externals \<Rightarrow> json \<Rightarrow> model_error + request_context" where
  "request_context_from_value E v =
     bindR (new_value E v) (\<lambda>raw.
     bindR (ok_or (InvalidShape ''request context'') (as_object (jv_value raw))) (\<lambda>m.
       Inr \<lparr>rc_provider = get_str m ''provider'', rc_model = get_str m ''model'',
            rc_context_window = Option.bind (map_of m ''contextWindow'') (safe_u64 False),
            rc_raw = raw\<rparr>))"

definition request_context_new :: "externals \<Rightarrow> string \<Rightarrow> string \<Rightarrow> nat option \<Rightarrow> model_error + request_context" where
  "request_context_new E provider model window =
     (if provider = [] then Inl EmptyProvider
      else if model = [] then Inl EmptyModel
      else request_context_from_value E (obj_of
        ([(''provider'', JString provider), (''model'', JString model)]
         @ (case window of None \<Rightarrow> [] | Some n \<Rightarrow> [(''contextWindow'', JInt (int n))]))))"

definition context_equivalent_to :: "request_context \<Rightarrow> request_context \<Rightarrow> bool" where
  "context_equivalent_to a b =
     (rc_provider a = rc_provider b \<and> rc_model a = rc_model b \<and> rc_context_window a = rc_context_window b)"

record tool_failure =
  tf_name :: string
  tf_code :: string

section \<open>Retries and approvals\<close>

datatype llm_retry_mode = RetryNormal | RetryAlways

record llm_retry_event =
  lr_retry_id :: string
  lr_turn :: nat
  lr_step :: nat
  lr_provider :: string
  lr_mode :: llm_retry_mode
  lr_policy_key :: string
  lr_retry :: nat
  lr_max_retries :: "nat option"
  lr_delay_ms :: number
  lr_failure :: llm_failure

definition retry_validate :: "llm_retry_event \<Rightarrow> event_error + unit" where
  "retry_validate r =
     (if lr_retry_id r = [] then Inl (InvalidRetryEvent ''retryId must not be empty'')
      else if lr_provider r = [] then Inl (InvalidRetryEvent ''provider must not be empty'')
      else if lr_policy_key r = [] then Inl (InvalidRetryEvent ''policyKey must not be empty'')
      else if \<not> in_timer_range (lr_delay_ms r)
      then Inl (InvalidRetryEvent ''delayMs must be inside the runtime timer range'')
      else case (lr_mode r, lr_max_retries r) of
        (RetryNormal, Some maximum) \<Rightarrow>
          if lr_retry r \<le> maximum then Inr ()
          else Inl (InvalidRetryEvent ''normal retry must not exceed a positive maxRetries'')
      | (RetryNormal, None) \<Rightarrow>
          Inl (InvalidRetryEvent ''normal retry must not exceed a positive maxRetries'')
      | (RetryAlways, None) \<Rightarrow> Inr ()
      | (RetryAlways, Some _) \<Rightarrow> Inl (InvalidRetryEvent ''always retry must omit maxRetries''))"

record llm_retry_started_event =
  ls_retry_id :: string
  ls_turn :: nat
  ls_step :: nat
  ls_retry :: nat

datatype approval_outcome = AllowedOnce | ApprovalRejected | Cancelled | Unavailable

record approval_asked_event =
  aa_id :: string
  aa_tool_name :: string
  aa_call_id :: "string option"
  aa_reason :: "string option"

record approval_decided_event =
  ap_id :: string
  ap_outcome :: approval_outcome

definition validate_approval_id :: "string \<Rightarrow> event_error + unit" where
  "validate_approval_id i =
     (if i = [] \<or> length i > 1024 \<or> has_control i
      then Inl (InvalidApprovalEvent ''approval id must be 1 to 1024 non-control UTF-8 bytes'')
      else Inr ())"

definition asked_validate :: "approval_asked_event \<Rightarrow> event_error + unit" where
  "asked_validate a =
     bindR (validate_approval_id (aa_id a)) (\<lambda>_.
       if aa_tool_name a = [] \<or> length (aa_tool_name a) > 256 \<or> has_control (aa_tool_name a)
       then Inl (InvalidApprovalEvent ''toolName must be 1 to 256 non-control UTF-8 bytes'')
       else if (case aa_call_id a of
                  None \<Rightarrow> False | Some c \<Rightarrow> c = [] \<or> length c > 1024 \<or> has_control c)
       then Inl (InvalidApprovalEvent ''callId must be 1 to 1024 non-control UTF-8 bytes when present'')
       else if (case aa_reason a of
                  None \<Rightarrow> False
                | Some r \<Rightarrow> length r > 4 * 1024
                    \<or> has_control (filter (\<lambda>c. c \<noteq> CHR 0x0A \<and> c \<noteq> CHR 0x09) r))
       then Inl (InvalidApprovalEvent ''reason must be at most 4096 UTF-8 bytes without unsafe controls'')
       else Inr ())"

section \<open>Events\<close>

datatype (plugins only: code) event_kind =
    TurnStart nat
  | TurnEnd nat turn_end_reason
  | StepStart nat nat
  | StepEnd nat nat
  | UserMessage message
  | AssistantChunk nat nat stream_chunk
  | AssistantMessage nat nat message "token_usage option"
  | ToolCall nat nat string string string
  | ToolResult nat nat message "tool_failure option" "json_value option"
  | TodoWrite "todo_item list"
  | RequestHeader epoch_header request_header_reason
  | RequestContext request_context
  | LlmRetry llm_retry_event
  | LlmRetryStarted llm_retry_started_event
  | ApprovalAsked approval_asked_event
  | ApprovalDecided approval_decided_event
  | CompactionStart compaction_start_event
  | CompactionSummary compaction_summary_event
  | CompactionEnd compaction_end_event
  | CompactionPrune compaction_prune_event
  | EndSeed
  | UnknownEvent string json_value

definition event_type :: "event_kind \<Rightarrow> string" where
  "event_type k =
     (case k of
        TurnStart _ \<Rightarrow> ''turn/start''
      | TurnEnd _ _ \<Rightarrow> ''turn/end''
      | StepStart _ _ \<Rightarrow> ''step/start''
      | StepEnd _ _ \<Rightarrow> ''step/end''
      | UserMessage _ \<Rightarrow> ''user/message''
      | AssistantChunk _ _ _ \<Rightarrow> ''assistant/chunk''
      | AssistantMessage _ _ _ _ \<Rightarrow> ''assistant/message''
      | ToolCall _ _ _ _ _ \<Rightarrow> ''tool/call''
      | ToolResult _ _ _ _ _ \<Rightarrow> ''tool/result''
      | TodoWrite _ \<Rightarrow> ''todo/write''
      | RequestHeader _ _ \<Rightarrow> ''request/header''
      | RequestContext _ \<Rightarrow> ''request/context''
      | LlmRetry _ \<Rightarrow> ''llm/retry''
      | LlmRetryStarted _ \<Rightarrow> ''llm/retry-started''
      | ApprovalAsked _ \<Rightarrow> ''approval/asked''
      | ApprovalDecided _ \<Rightarrow> ''approval/decided''
      | CompactionStart _ \<Rightarrow> ''compaction/start''
      | CompactionSummary _ \<Rightarrow> ''compaction/summary''
      | CompactionEnd _ \<Rightarrow> ''compaction/end''
      | CompactionPrune _ \<Rightarrow> ''compaction/prune''
      | EndSeed \<Rightarrow> ''session/end-seed''
      | UnknownEvent t _ \<Rightarrow> t)"

definition live_event_type :: "event_kind \<Rightarrow> string option" where
  "live_event_type k = (case k of UnknownEvent _ _ \<Rightarrow> None | _ \<Rightarrow> Some (event_type k))"

definition is_surface_eligible :: "event_kind \<Rightarrow> bool" where
  "is_surface_eligible k =
     (case k of
        UserMessage _ \<Rightarrow> True
      | AssistantMessage _ _ _ _ \<Rightarrow> True
      | ToolResult _ _ _ _ _ \<Rightarrow> True
      | _ \<Rightarrow> False)"

definition header_reason_validate :: "request_header_reason \<Rightarrow> event_error + unit" where
  "header_reason_validate r =
     (case r of
        ReasonOther s \<Rightarrow>
          if s = ''fallback'' then Inl LegacyRequestHeaderReason
          else if s = ''initial'' \<or> s = ''resume'' \<or> s = ''change''
          then Inl (NonCanonicalRequestHeaderReason s)
          else Inr ()
      | _ \<Rightarrow> Inr ())"

definition event_validate :: "externals \<Rightarrow> event_kind \<Rightarrow> event_error + unit" where
  "event_validate E k =
     (case k of
        TurnEnd _ r \<Rightarrow> turn_end_validate_canonical E r
      | UserMessage m \<Rightarrow> lift_model (validate_user_event m)
      | AssistantMessage _ _ m _ \<Rightarrow> lift_model (validate_assistant_event m)
      | ToolResult _ _ m _ _ \<Rightarrow> bindR (lift_model (validate_tool_result m)) (\<lambda>_. Inr ())
      | RequestHeader h r \<Rightarrow> bindR (header_validate h) (\<lambda>_. header_reason_validate r)
      | LlmRetry r \<Rightarrow> retry_validate r
      | LlmRetryStarted s \<Rightarrow>
          if ls_retry_id s = [] then Inl (InvalidRetryEvent ''retryId must not be empty'') else Inr ()
      | ApprovalAsked a \<Rightarrow> asked_validate a
      | ApprovalDecided d \<Rightarrow> validate_approval_id (ap_id d)
      | CompactionStart s \<Rightarrow> compaction_start_validate s
      | CompactionSummary s \<Rightarrow> compaction_summary_validate s
      | CompactionEnd e \<Rightarrow> compaction_end_validate e
      | CompactionPrune p \<Rightarrow> compaction_prune_validate p
      | _ \<Rightarrow> Inr ())"

section \<open>Surface metadata\<close>

datatype surface_op = SurfaceAppend | SurfaceReplace nat nat

record surface_intent =
  si_operation :: surface_op
  si_source_event_seqs :: "nat list option"

record new_event =
  ne_kind :: event_kind
  ne_surface :: "surface_intent option"

record session_event =
  ev_seq :: nat
  ev_time :: int
  ev_kind :: event_kind
  ev_surface_op :: "surface_op option"
  ev_source_event_seqs :: "nat list option"
  ev_ignorable :: bool
  ev_original_data :: json_value

definition event_from_new :: "nat \<Rightarrow> int \<Rightarrow> new_event \<Rightarrow> json_value \<Rightarrow> session_event" where
  "event_from_new seq t e data =
     \<lparr>ev_seq = seq, ev_time = t, ev_kind = ne_kind e,
      ev_surface_op = map_option si_operation (ne_surface e),
      ev_source_event_seqs = Option.bind (ne_surface e) si_source_event_seqs,
      ev_ignorable = False, ev_original_data = data\<rparr>"

definition event_into_new :: "session_event \<Rightarrow> new_event \<times> json_value" where
  "event_into_new e =
     (\<lparr>ne_kind = ev_kind e,
       ne_surface = map_option (\<lambda>op. \<lparr>si_operation = op, si_source_event_seqs = ev_source_event_seqs e\<rparr>)
         (ev_surface_op e)\<rparr>, ev_original_data e)"

lemma event_into_new_from_new: "event_into_new (event_from_new seq t e data) = (e, data)"
  by (cases "ne_surface e") (simp_all add: event_into_new_def event_from_new_def)

end
