(* ===== verification/Context_Budget.thy ===== *)
theory Context_Budget
  imports Session_Events
begin

text \<open>
  Token estimation and the selection of a compactable prefix of
  \<open>src/session/context_budget.rs\<close>.
\<close>

section \<open>Estimates\<close>

definition CHARS_PER_TOKEN :: nat where
  "CHARS_PER_TOKEN = 4"

definition BLOCK_OVERHEAD :: nat where
  "BLOCK_OVERHEAD = 4"

definition ROLE_OVERHEAD :: nat where
  "ROLE_OVERHEAD = 4"

datatype context_budget_error = TokenOverflow | UnbalancedTools

definition checked_tokens :: "nat \<Rightarrow> nat \<Rightarrow> context_budget_error + nat" where
  "checked_tokens a b = ok_or TokenOverflow (checked_add_u64 a b)"

definition estimated_text_tokens :: "string \<Rightarrow> nat" where
  "estimated_text_tokens s = div_ceil (utf16_len s) CHARS_PER_TOKEN"

definition estimate_text_block :: "string \<Rightarrow> context_budget_error + nat" where
  "estimate_text_block s = checked_tokens (estimated_text_tokens s) BLOCK_OVERHEAD"

text \<open>The units a byte contributes to the JavaScript JSON text of a string.\<close>

definition js_units :: "char \<Rightarrow> nat" where
  "js_units c =
     (let n = byte c in
      if n \<in> {34, 92, 8, 9, 10, 12, 13} then 2 else if n < 32 then 6 else utf16_units c)"

definition javascript_string_utf16_len :: "string \<Rightarrow> context_budget_error + nat" where
  "javascript_string_utf16_len s = try_fold (\<lambda>total c. checked_tokens total (js_units c)) 2 s"

fun javascript_json_utf16_len :: "externals \<Rightarrow> json \<Rightarrow> context_budget_error + nat"
  and js_items_len :: "externals \<Rightarrow> bool \<Rightarrow> nat \<Rightarrow> json list \<Rightarrow> context_budget_error + nat"
  and js_fields_len :: "externals \<Rightarrow> bool \<Rightarrow> nat \<Rightarrow> (string \<times> json) list \<Rightarrow> context_budget_error + nat" where
  "javascript_json_utf16_len E JNull = Inr 4"
| "javascript_json_utf16_len E (JBool b) = Inr (if b then 4 else 5)"
| "javascript_json_utf16_len E (JInt i) = Inr (length (int_text i))"
| "javascript_json_utf16_len E (JFloat w) = Inr (length (ext_ryu_js_text E w))"
| "javascript_json_utf16_len E (JString s) = javascript_string_utf16_len s"
| "javascript_json_utf16_len E (JArray xs) = js_items_len E True 2 xs"
| "javascript_json_utf16_len E (JObject m) = js_fields_len E True 2 m"
| "js_items_len E first n [] = Inr n"
| "js_items_len E first n (x # xs) =
     bindR (if first then Inr n else checked_tokens n 1) (\<lambda>n.
     bindR (javascript_json_utf16_len E x) (\<lambda>l.
     bindR (checked_tokens n l) (\<lambda>n. js_items_len E False n xs)))"
| "js_fields_len E first n [] = Inr n"
| "js_fields_len E first n ((k, x) # m) =
     bindR (if first then Inr n else checked_tokens n 1) (\<lambda>n.
     bindR (javascript_string_utf16_len k) (\<lambda>l.
     bindR (checked_tokens n l) (\<lambda>n.
     bindR (checked_tokens n 1) (\<lambda>n.
     bindR (javascript_json_utf16_len E x) (\<lambda>l.
     bindR (checked_tokens n l) (\<lambda>n. js_fields_len E False n m))))))"

definition estimate_unknown_block :: "externals \<Rightarrow> json \<Rightarrow> context_budget_error + nat" where
  "estimate_unknown_block E v =
     bindR (javascript_json_utf16_len E v) (\<lambda>u.
       checked_tokens (div_ceil u CHARS_PER_TOKEN) BLOCK_OVERHEAD)"

definition estimate_call :: "string \<Rightarrow> string \<Rightarrow> context_budget_error + nat" where
  "estimate_call name arguments =
     bindR (checked_tokens (estimated_text_tokens name) (estimated_text_tokens arguments)) (\<lambda>n.
       checked_tokens n BLOCK_OVERHEAD)"

lemma size_map_of: "map_of m k = Some v \<Longrightarrow> size v < size (JObject m)"
proof -
  assume "map_of m k = Some v"
  then have "v \<in> set (children (JObject m))" by (force dest: map_of_SomeD)
  then have "Suc (size v) \<le> sum_list (map (\<lambda>c. Suc (size c)) (children (JObject m)))"
    by (intro member_le_sum_list) auto
  also have "\<dots> \<le> size (JObject m)" by (rule size_children)
  finally show ?thesis by simp
qed

lemma size_array_item: "x \<in> set xs \<Longrightarrow> size x < size (JArray xs)"
proof -
  assume "x \<in> set xs"
  then have "Suc (size x) \<le> sum_list (map (\<lambda>c. Suc (size c)) (children (JArray xs)))"
    by (intro member_le_sum_list) auto
  also have "\<dots> \<le> size (JArray xs)" by (rule size_children)
  finally show ?thesis by simp
qed

function estimate_content_value :: "externals \<Rightarrow> json \<Rightarrow> context_budget_error + nat" where
  "estimate_content_value E v =
     (case as_object v of
        None \<Rightarrow> estimate_unknown_block E v
      | Some m \<Rightarrow>
          (let t = get_str m ''type'' in
           if t = Some ''text'' \<or> t = Some ''reasoning'' then
             (case get_str m ''text'' of Some s \<Rightarrow> estimate_text_block s | None \<Rightarrow> estimate_unknown_block E v)
           else if t = Some ''tool-call'' then
             (case (get_str m ''name'', get_str m ''arguments'') of
                (Some n, Some a) \<Rightarrow> estimate_call n a
              | _ \<Rightarrow> estimate_unknown_block E v)
           else if t = Some ''tool-result'' then
             (case Option.bind (map_of m ''content'') as_array of
                Some content \<Rightarrow>
                  bindR (try_fold (\<lambda>total nested.
                           bindR (estimate_content_value E nested) (\<lambda>n. checked_tokens total n)) 0 content)
                    (\<lambda>n. checked_tokens n BLOCK_OVERHEAD)
              | None \<Rightarrow> estimate_unknown_block E v)
           else estimate_unknown_block E v))"
  by pat_completeness auto
termination
proof (relation "measure (\<lambda>(_, v). size v)", goal_cases)
  case (2 E v m t content x d)
  then obtain a where a: "map_of m ''content'' = Some a" "as_array a = Some content"
    by (auto split: bind_splits)
  from a(2) have "a = JArray content" by (cases a) auto
  with 2 a(1) have "size x < size a" "size a < size (JObject m)"
    using size_array_item[of x content] size_map_of[of m "''content''" a] by simp_all
  moreover have "v = JObject m" using 2(1) by (cases v) auto
  ultimately show ?case by simp
qed simp

declare estimate_content_value.simps [simp del]

definition estimate_content_block :: "externals \<Rightarrow> content_block \<Rightarrow> context_budget_error + nat" where
  "estimate_content_block E b =
     (case cb_kind b of
        TextBlock s \<Rightarrow> estimate_text_block s
      | ReasoningBlock s \<Rightarrow> estimate_text_block s
      | ToolCallBlock _ n a \<Rightarrow> estimate_call n a
      | ToolResultBlock _ _ \<Rightarrow>
          bindR (ok_or TokenOverflow (tool_result_content b)) (\<lambda>content.
          bindR (try_fold (\<lambda>total nested.
                   bindR (estimate_content_value E nested) (\<lambda>n. checked_tokens total n)) 0 content)
            (\<lambda>n. checked_tokens n BLOCK_OVERHEAD))
      | _ \<Rightarrow> estimate_unknown_block E (jv_value (cb_raw b)))"

definition estimate_message :: "externals \<Rightarrow> message \<Rightarrow> context_budget_error + nat" where
  "estimate_message E m =
     try_fold (\<lambda>total b. bindR (estimate_content_block E b) (\<lambda>n. checked_tokens total n))
       ROLE_OVERHEAD (msg_content m)"

definition estimate_provider_assistant :: "externals \<Rightarrow> content_block list \<Rightarrow> context_budget_error + nat" where
  "estimate_provider_assistant E blocks =
     bindR (try_fold (\<lambda>total b. bindR (estimate_content_block E b) (\<lambda>n. checked_tokens total n)) 0 blocks)
       (\<lambda>tokens. if blocks \<noteq> [] then checked_tokens tokens ROLE_OVERHEAD else Inr 0)"

fun tool_units :: "externals \<Rightarrow> bool \<Rightarrow> nat \<Rightarrow> tool_schema list \<Rightarrow> context_budget_error + nat" where
  "tool_units E first n [] = Inr n"
| "tool_units E first n (t # ts) =
     bindR (if first then Inr n else checked_tokens n 1) (\<lambda>n.
     bindR (javascript_json_utf16_len E (jv_value (ts_raw t))) (\<lambda>l.
     bindR (checked_tokens n l) (\<lambda>n. tool_units E False n ts)))"

definition estimate_request_header :: "externals \<Rightarrow> string option \<Rightarrow> tool_schema list \<Rightarrow> context_budget_error + nat" where
  "estimate_request_header E system tools =
     bindR (case system of
              None \<Rightarrow> Inr 0
            | Some s \<Rightarrow> checked_tokens (estimated_text_tokens s) ROLE_OVERHEAD) (\<lambda>system_tokens.
     bindR (if tools = [] then Inr 0
            else bindR (tool_units E True 2 tools) (\<lambda>u.
              checked_tokens (div_ceil u CHARS_PER_TOKEN) BLOCK_OVERHEAD)) (\<lambda>tool_tokens.
       checked_tokens system_tokens tool_tokens))"

section \<open>The compactable prefix\<close>

record price_facts =
  pf_tokens :: nat
  pf_tool_delta :: int

record compactable_prefix =
  px_end_exclusive :: nat
  px_shadowed_token_count :: nat

definition checked_balance :: "int \<Rightarrow> int \<Rightarrow> context_budget_error + int" where
  "checked_balance a b = ok_or TokenOverflow (checked_add_i64 a b)"

fun check_balance :: "('n \<Rightarrow> price_facts) \<Rightarrow> int \<Rightarrow> 'n list \<Rightarrow> context_budget_error + unit" where
  "check_balance facts balance [] = Inr ()"
| "check_balance facts balance (n # ns) =
     bindR (checked_balance balance (pf_tool_delta (facts n))) (\<lambda>balance.
       if balance < 0 then Inl UnbalancedTools else check_balance facts balance ns)"

text \<open>The loop over the indices below \<open>i\<close>, downwards; it returns \<open>keep_from\<close>.\<close>

fun keep_loop :: "('n \<Rightarrow> price_facts) \<Rightarrow> 'n list \<Rightarrow> nat \<Rightarrow> nat \<Rightarrow> nat \<Rightarrow> context_budget_error + nat" where
  "keep_loop facts nodes retain_tokens 0 retained = Inr 0"
| "keep_loop facts nodes retain_tokens (Suc index) retained =
     bindR (checked_tokens retained (pf_tokens (facts (nodes ! index)))) (\<lambda>retained.
       if retained \<ge> retain_tokens then Inr index
       else keep_loop facts nodes retain_tokens index retained)"

fun cut_loop :: "('n \<Rightarrow> price_facts) \<Rightarrow> nat \<Rightarrow> int \<Rightarrow> nat \<Rightarrow> 'n list \<Rightarrow> context_budget_error + nat" where
  "cut_loop facts index balance latest [] = Inr latest"
| "cut_loop facts index balance latest (n # ns) =
     bindR (checked_balance balance (pf_tool_delta (facts n))) (\<lambda>balance.
       cut_loop facts (index + 1) balance (if balance = 0 then index + 1 else latest) ns)"

definition select_compactable_prefix ::
  "'n list \<Rightarrow> nat \<Rightarrow> nat \<Rightarrow> ('n \<Rightarrow> price_facts) \<Rightarrow> context_budget_error + compactable_prefix option" where
  "select_compactable_prefix nodes retain_tokens maximum_shadowed_nodes facts =
     (if nodes = [] \<or> maximum_shadowed_nodes = 0 then Inr None
      else
        bindR (check_balance facts 0 nodes) (\<lambda>_.
        bindR (keep_loop facts nodes retain_tokens (length nodes) 0) (\<lambda>keep_from.
          if keep_from = 0 then Inr None
          else
            bindR (cut_loop facts 0 0 0 (take (min keep_from maximum_shadowed_nodes) nodes)) (\<lambda>cut.
              if cut = 0 then Inr None
              else
                bindR (try_fold (\<lambda>total n. checked_tokens total (pf_tokens (facts n))) 0 (take cut nodes)) (\<lambda>count.
                  Inr (Some \<lparr>px_end_exclusive = cut, px_shadowed_token_count = count\<rparr>))))))"

section \<open>What is selected\<close>

definition token_sum :: "('n \<Rightarrow> price_facts) \<Rightarrow> 'n list \<Rightarrow> nat" where
  "token_sum facts ns = sum_list (map (\<lambda>n. pf_tokens (facts n)) ns)"

definition balance :: "('n \<Rightarrow> price_facts) \<Rightarrow> 'n list \<Rightarrow> int" where
  "balance facts ns = sum_list (map (\<lambda>n. pf_tool_delta (facts n)) ns)"

text \<open>
  A cut that may be compacted: a proper prefix within the limit, with every tool call answered
  inside it, that leaves at least the retained tokens (and the newest node) behind.
\<close>

definition valid_cut :: "('n \<Rightarrow> price_facts) \<Rightarrow> 'n list \<Rightarrow> nat \<Rightarrow> nat \<Rightarrow> nat \<Rightarrow> bool" where
  "valid_cut facts nodes retain_tokens maximum e =
     (0 < e \<and> e < length nodes \<and> e \<le> maximum \<and> balance facts (take e nodes) = 0
      \<and> retain_tokens \<le> token_sum facts (drop e nodes))"

lemma token_sum_simps [simp]:
  "token_sum facts [] = 0"
  "token_sum facts (n # ns) = pf_tokens (facts n) + token_sum facts ns"
  "token_sum facts (ns @ ms) = token_sum facts ns + token_sum facts ms"
  by (simp_all add: token_sum_def)

lemma balance_simps [simp]:
  "balance facts [] = 0"
  "balance facts (n # ns) = pf_tool_delta (facts n) + balance facts ns"
  "balance facts (ns @ ms) = balance facts ns + balance facts ms"
  by (simp_all add: balance_def)

lemma checked_tokens_Inr [result_simps]:
  "checked_tokens a b = Inr c \<longleftrightarrow> c = a + b \<and> a + b < U64_LIMIT"
  by (auto simp: checked_tokens_def result_simps checked_simps)

lemma checked_balance_Inr [result_simps]:
  "checked_balance a b = Inr c \<longleftrightarrow> c = a + b \<and> - I64_MAX - 1 \<le> a + b \<and> a + b \<le> I64_MAX"
  by (auto simp: checked_balance_def result_simps checked_simps)

lemma drop_nth_token_sum:
  "i < length nodes \<Longrightarrow> token_sum facts (drop i nodes) = pf_tokens (facts (nodes ! i)) + token_sum facts (drop (Suc i) nodes)"
  by (simp add: Cons_nth_drop_Suc [symmetric])

lemma token_sum_drop_mono: "i \<le> j \<Longrightarrow> token_sum facts (drop j nodes) \<le> token_sum facts (drop i nodes)"
proof (induction j arbitrary: i)
  case (Suc j)
  show ?case
  proof (cases "i = Suc j")
    case False
    with Suc have "token_sum facts (drop j nodes) \<le> token_sum facts (drop i nodes)" by simp
    moreover have "token_sum facts (drop (Suc j) nodes) \<le> token_sum facts (drop j nodes)"
      by (cases "j < length nodes") (simp_all add: drop_nth_token_sum)
    ultimately show ?thesis by simp
  qed simp
qed simp

text \<open>\<open>keep_from\<close> bounds the cuts that leave enough behind.\<close>

lemma keep_loop_spec:
  assumes "keep_loop facts nodes r i (token_sum facts (drop i nodes)) = Inr k" "i \<le> length nodes"
    "\<And>j. i \<le> j \<Longrightarrow> j < length nodes \<Longrightarrow> token_sum facts (drop j nodes) < r"
  shows "k \<le> i \<and> (0 < e \<longrightarrow> e < length nodes \<longrightarrow> (r \<le> token_sum facts (drop e nodes) \<longleftrightarrow> e \<le> k))
     \<and> (0 < k \<longrightarrow> k < length nodes)"
  using assms
proof (induction i arbitrary: k)
  case 0
  then have "k = 0" by simp
  with 0(3)[of e] show ?case by auto
next
  case (Suc i)
  let ?t = "token_sum facts (drop i nodes)"
  have t: "?t = token_sum facts (drop (Suc i) nodes) + pf_tokens (facts (nodes ! i))"
    using Suc.prems(2) by (simp add: drop_nth_token_sum)
  have c: "checked_tokens (token_sum facts (drop (Suc i) nodes)) (pf_tokens (facts (nodes ! i))) = Inr ?t"
    using Suc.prems(1) by (auto simp: result_simps t)
  show ?case
  proof (cases "r \<le> ?t")
    case True
    with Suc.prems(1) c have k: "k = i" by simp
    have "r \<le> token_sum facts (drop e nodes) \<longleftrightarrow> e \<le> i" if "0 < e" "e < length nodes"
    proof (cases "e \<le> i")
      case True
      then show ?thesis using \<open>r \<le> ?t\<close> token_sum_drop_mono[of e i facts nodes] by simp
    next
      case False
      with Suc.prems(3)[of e] that show ?thesis by simp
    qed
    with k Suc.prems(2) show ?thesis by auto
  next
    case False
    with Suc.prems(1) c have l: "keep_loop facts nodes r i ?t = Inr k" by simp
    have "k \<le> i \<and> (0 < e \<longrightarrow> e < length nodes \<longrightarrow> (r \<le> token_sum facts (drop e nodes) \<longleftrightarrow> e \<le> k))
       \<and> (0 < k \<longrightarrow> k < length nodes)"
    proof (rule Suc.IH[OF l])
      show "token_sum facts (drop j nodes) < r" if "i \<le> j" "j < length nodes" for j
        using that False Suc.prems(3)[of j] by (cases "j = i") auto
    qed (use Suc.prems in auto)
    then show ?thesis by auto
  qed
qed

lemma cut_loop_spec:
  assumes "cut_loop facts (length pre) (balance facts pre) l ns = Inr c"
    "l \<le> length pre" "balance facts (take l pre) = 0"
    "\<And>j. l < j \<Longrightarrow> j \<le> length pre \<Longrightarrow> balance facts (take j pre) \<noteq> 0"
  shows "c \<le> length (pre @ ns) \<and> balance facts (take c (pre @ ns)) = 0
     \<and> (\<forall>j. c < j \<longrightarrow> j \<le> length (pre @ ns) \<longrightarrow> balance facts (take j (pre @ ns)) \<noteq> 0)"
  using assms
proof (induction ns arbitrary: pre l)
  case (Cons n ns)
  have b: "balance facts (pre @ [n]) = balance facts pre + pf_tool_delta (facts n)" by simp
  let ?l = "if balance facts (pre @ [n]) = 0 then length (pre @ [n]) else l"
  have "cut_loop facts (length (pre @ [n])) (balance facts (pre @ [n])) ?l ns = Inr c"
    using Cons.prems(1) by (auto simp: result_simps b)
  moreover have "?l \<le> length (pre @ [n])" using Cons.prems(2) by simp
  moreover have "balance facts (take ?l (pre @ [n])) = 0"
    using Cons.prems(2,3) by (cases "balance facts (pre @ [n]) = 0") simp_all
  moreover have "balance facts (take j (pre @ [n])) \<noteq> 0" if "?l < j" "j \<le> length (pre @ [n])" for j
  proof (cases "j \<le> length pre")
    case True
    with that Cons.prems(4)[of j] show ?thesis by (auto split: if_splits)
  next
    case False
    with that have "j = length (pre @ [n])" by simp
    with that show ?thesis by (auto split: if_splits)
  qed
  ultimately have "c \<le> length ((pre @ [n]) @ ns) \<and> balance facts (take c ((pre @ [n]) @ ns)) = 0
     \<and> (\<forall>j. c < j \<longrightarrow> j \<le> length ((pre @ [n]) @ ns) \<longrightarrow> balance facts (take j ((pre @ [n]) @ ns)) \<noteq> 0)"
    by (rule Cons.IH)
  then show ?case unfolding append_assoc append_Cons append_Nil .
qed auto

lemma count_tokens:
  "try_fold (\<lambda>total n. checked_tokens total (pf_tokens (facts n))) t ns = Inr c \<Longrightarrow> c = t + token_sum facts ns"
proof (induction ns arbitrary: t)
  case (Cons n ns)
  from Cons.prems Cons.IH[of "t + pf_tokens (facts n)"] show ?case by (auto simp: result_simps)
qed simp

lemma check_balance_ok:
  "check_balance facts b ns = Inr u \<Longrightarrow> i \<le> length ns \<Longrightarrow> 0 < i \<Longrightarrow> 0 \<le> b + balance facts (take i ns)"
proof (induction ns arbitrary: b i)
  case (Cons n ns)
  then have "0 \<le> b + pf_tool_delta (facts n)" "check_balance facts (b + pf_tool_delta (facts n)) ns = Inr u"
    by (auto simp: result_simps split: if_splits)
  with Cons.IH[of "b + pf_tool_delta (facts n)" "i - 1"] Cons.prems show ?case
    by (cases i; cases "i = 1") (auto simp: algebra_simps)
qed simp

text \<open>The loops fail only beyond the integer ranges or on an unbalanced surface.\<close>

definition surface_in_range :: "('n \<Rightarrow> price_facts) \<Rightarrow> 'n list \<Rightarrow> bool" where
  "surface_in_range facts nodes =
     (token_sum facts nodes < U64_LIMIT
      \<and> (\<forall>i\<le>length nodes. \<bar>balance facts (take i nodes)\<bar> \<le> I64_MAX))"

definition surface_balanced :: "('n \<Rightarrow> price_facts) \<Rightarrow> 'n list \<Rightarrow> bool" where
  "surface_balanced facts nodes = (\<forall>i\<le>length nodes. 0 \<le> balance facts (take i nodes))"

lemma check_balance_total:
  assumes "\<forall>i\<le>length ns. 0 \<le> b + balance facts (take i ns) \<and> b + balance facts (take i ns) \<le> I64_MAX"
  shows "check_balance facts b ns = Inr ()"
  using assms
proof (induction ns arbitrary: b)
  case (Cons n ns)
  have "0 \<le> b + pf_tool_delta (facts n)" "b + pf_tool_delta (facts n) \<le> I64_MAX"
    using Cons.prems[rule_format, of 1] by simp_all
  moreover from this have "checked_balance b (pf_tool_delta (facts n)) = Inr (b + pf_tool_delta (facts n))"
    by (simp add: result_simps I64_MAX_def)
  moreover have "check_balance facts (b + pf_tool_delta (facts n)) ns = Inr ()"
  proof (rule Cons.IH, intro allI impI)
    fix i assume "i \<le> length ns"
    with Cons.prems[rule_format, of "Suc i"]
    show "0 \<le> b + pf_tool_delta (facts n) + balance facts (take i ns)
      \<and> b + pf_tool_delta (facts n) + balance facts (take i ns) \<le> I64_MAX"
      by (simp add: algebra_simps)
  qed
  ultimately show ?case by simp
qed simp

lemma keep_loop_total:
  assumes "token_sum facts nodes < U64_LIMIT" "i \<le> length nodes"
  shows "\<exists>k. keep_loop facts nodes r i (token_sum facts (drop i nodes)) = Inr k"
  using assms(2)
proof (induction i)
  case (Suc i)
  have t: "token_sum facts (drop i nodes) = token_sum facts (drop (Suc i) nodes) + pf_tokens (facts (nodes ! i))"
    using Suc.prems by (simp add: drop_nth_token_sum)
  have "token_sum facts (drop i nodes) \<le> token_sum facts nodes"
    using token_sum_drop_mono[of 0 i facts nodes] by simp
  then have "checked_tokens (token_sum facts (drop (Suc i) nodes)) (pf_tokens (facts (nodes ! i)))
      = Inr (token_sum facts (drop i nodes))"
    using assms(1) by (simp add: result_simps t)
  with Suc show ?case by simp
qed simp

lemma cut_loop_total:
  assumes "\<forall>i\<le>length ns. \<bar>b + balance facts (take i ns)\<bar> \<le> I64_MAX"
  shows "\<exists>c. cut_loop facts i b l ns = Inr c"
  using assms
proof (induction ns arbitrary: b i l)
  case (Cons n ns)
  have "\<bar>b + pf_tool_delta (facts n)\<bar> \<le> I64_MAX"
    using Cons.prems[rule_format, of 1] by simp
  then have "checked_balance b (pf_tool_delta (facts n)) = Inr (b + pf_tool_delta (facts n))"
    unfolding checked_balance_Inr by linarith
  moreover have "\<forall>j\<le>length ns. \<bar>b + pf_tool_delta (facts n) + balance facts (take j ns)\<bar> \<le> I64_MAX"
  proof (intro allI impI)
    fix j assume "j \<le> length ns"
    with Cons.prems[rule_format, of "Suc j"]
    show "\<bar>b + pf_tool_delta (facts n) + balance facts (take j ns)\<bar> \<le> I64_MAX"
      by (simp add: algebra_simps)
  qed
  ultimately show ?case using Cons.IH by simp
qed simp

lemma count_tokens_total:
  "t + token_sum facts ns < U64_LIMIT \<Longrightarrow>
   try_fold (\<lambda>total n. checked_tokens total (pf_tokens (facts n))) t ns = Inr (t + token_sum facts ns)"
proof (induction ns arbitrary: t)
  case (Cons n ns)
  then have "checked_tokens t (pf_tokens (facts n)) = Inr (t + pf_tokens (facts n))"
    by (simp add: result_simps)
  with Cons show ?case by simp
qed simp

text \<open>
  C29: The compaction cut.  On a surface whose tool calls and results balance and whose token
  count fits 64 bits the selection does not fail, and it returns the longest cut that may be
  compacted: a proper prefix of at most the given number of nodes, balanced, that leaves the
  newest node and at least the retained tokens; with its exact token count; nothing exactly when
  there is no such cut.
\<close>

theorem select_compactable_prefix_longest:
  assumes "surface_in_range facts nodes" "surface_balanced facts nodes"
  shows "case select_compactable_prefix nodes retain maximum facts of
      Inl _ \<Rightarrow> False
    | Inr None \<Rightarrow> \<forall>e. \<not> valid_cut facts nodes retain maximum e
    | Inr (Some p) \<Rightarrow>
        valid_cut facts nodes retain maximum (px_end_exclusive p)
        \<and> (\<forall>e. valid_cut facts nodes retain maximum e \<longrightarrow> e \<le> px_end_exclusive p)
        \<and> px_shadowed_token_count p = token_sum facts (take (px_end_exclusive p) nodes)"
proof (cases "nodes = [] \<or> maximum = 0")
  case True
  then show ?thesis by (auto simp: select_compactable_prefix_def valid_cut_def)
next
  case False
  have cb: "check_balance facts 0 nodes = Inr ()"
    using assms by (intro check_balance_total) (auto simp: surface_in_range_def surface_balanced_def)
  obtain k where k: "keep_loop facts nodes retain (length nodes) 0 = Inr k"
    using keep_loop_total[of facts nodes "length nodes" retain] assms(1)
    by (auto simp: surface_in_range_def)
  have ks: "k \<le> length nodes" "0 < k \<longrightarrow> k < length nodes"
    "\<And>e. 0 < e \<Longrightarrow> e < length nodes \<Longrightarrow> (retain \<le> token_sum facts (drop e nodes) \<longleftrightarrow> e \<le> k)"
    using keep_loop_spec[of facts nodes retain "length nodes" k] k by auto
  let ?m = "min k maximum"
  have vc: "valid_cut facts nodes retain maximum e \<longleftrightarrow> 0 < e \<and> e \<le> ?m \<and> balance facts (take e nodes) = 0" for e
    using ks(2) ks(3)[of e] by (auto simp: valid_cut_def)
  show ?thesis
  proof (cases "k = 0")
    case True
    with False cb k show ?thesis by (auto simp: select_compactable_prefix_def vc)
  next
    case nz: False
    have "\<forall>i\<le>length (take ?m nodes). \<bar>0 + balance facts (take i (take ?m nodes))\<bar> \<le> I64_MAX"
      using assms(1) by (auto simp: surface_in_range_def min_def)
    then obtain c where c: "cut_loop facts 0 0 0 (take ?m nodes) = Inr c"
      using cut_loop_total[of "take ?m nodes" 0 facts 0 0] by blast
    have cs: "c \<le> ?m" "balance facts (take c nodes) = 0"
      "\<And>j. c < j \<Longrightarrow> j \<le> ?m \<Longrightarrow> balance facts (take j nodes) \<noteq> 0"
      using cut_loop_spec[of facts "[]" 0 "take ?m nodes" c] c ks(1,2) by (auto simp: min_def split: if_splits)
    have "token_sum facts (take c nodes) \<le> token_sum facts nodes"
      by (metis append_take_drop_id le_add1 token_sum_simps(3))
    then have "try_fold (\<lambda>total n. checked_tokens total (pf_tokens (facts n))) 0 (take c nodes)
        = Inr (token_sum facts (take c nodes))"
      using count_tokens_total[of 0 facts "take c nodes"] assms(1) by (simp add: surface_in_range_def)
    with False nz cb k c cs show ?thesis
      by (auto simp: select_compactable_prefix_def vc) (meson leI)+
  qed
qed

theorem select_compactable_prefix_longest_witness:
  "select_compactable_prefix [\<lparr>pf_tokens = 10, pf_tool_delta = 0\<rparr>, \<lparr>pf_tokens = 20, pf_tool_delta = 1\<rparr>,
      \<lparr>pf_tokens = 30, pf_tool_delta = -1\<rparr>, \<lparr>pf_tokens = 5, pf_tool_delta = 0\<rparr>] 5 100 (\<lambda>f. f)
     = Inr (Some \<lparr>px_end_exclusive = 3, px_shadowed_token_count = 60\<rparr>)"
  (is "select_compactable_prefix ?n 5 100 ?f = _")
proof -
  have d: "balance ?f (take i ?n) = (if i = 2 then 1 else 0)" for i
    by (auto simp: take_Cons' balance_def)
  have "surface_in_range ?f ?n" "surface_balanced ?f ?n"
    unfolding surface_in_range_def surface_balanced_def d
    by (simp_all add: U64_LIMIT_def I64_MAX_def)
  from select_compactable_prefix_longest[OF this, of 5 100]
  have s: "case select_compactable_prefix ?n 5 100 ?f of
      Inl _ \<Rightarrow> False
    | Inr None \<Rightarrow> \<forall>e. \<not> valid_cut ?f ?n 5 100 e
    | Inr (Some p) \<Rightarrow>
        valid_cut ?f ?n 5 100 (px_end_exclusive p)
        \<and> (\<forall>e. valid_cut ?f ?n 5 100 e \<longrightarrow> e \<le> px_end_exclusive p)
        \<and> px_shadowed_token_count p = token_sum ?f (take (px_end_exclusive p) ?n)" .
  have v: "valid_cut ?f ?n 5 100 3" by (simp add: valid_cut_def d)
  from s show ?thesis
  proof (cases "select_compactable_prefix ?n 5 100 ?f")
    case (Inr o1)
    with s v obtain p where p: "o1 = Some p" by (cases o1) auto
    with Inr s v have "3 \<le> px_end_exclusive p" "px_end_exclusive p < 4"
      "px_shadowed_token_count p = token_sum ?f (take (px_end_exclusive p) ?n)"
      by (auto simp: valid_cut_def)
    then have e: "px_end_exclusive p = 3" by linarith
    with \<open>px_shadowed_token_count p = _\<close> have "px_shadowed_token_count p = 60" by simp
    with e Inr p show ?thesis by (cases p) simp
  qed simp
qed

end
