(* ===== verification/Attempt.thy ===== *)
theory Attempt
  imports Context_Budget
begin

text \<open>
  The fold of one provider attempt, \<open>src/session/attempt_anchor.rs\<close>: chunks are prepared against
  the open attempt and committed to it; a finished attempt is sealed, committed by its assistant
  message, retried, or consumed by a context overflow; a step ends with or without one.  Hash
  tables are association lists; reserving memory succeeds and residency charges are left out.
\<close>

section \<open>Usage\<close>

definition MAX_ATTEMPT_EMITTED_BYTES :: nat where
  "MAX_ATTEMPT_EMITTED_BYTES = 10 * 1024 * 1024"

datatype attempt_disposition =
    DispCommitted | DispRetry | DispContextOverflow | DispFailed | DispCancelled | DispInterrupted

record usage_totals =
  ut_input :: nat
  ut_output :: nat
  ut_cache_read :: nat
  ut_cache_write :: nat
  ut_reasoning :: nat

record usage_sample =
  us_turn :: nat
  us_step :: nat
  us_buckets :: usage_totals

record usage_projection =
  up_totals :: usage_totals
  up_last :: "usage_sample option"

definition zero_totals :: usage_totals where
  "zero_totals = \<lparr>ut_input = 0, ut_output = 0, ut_cache_read = 0, ut_cache_write = 0, ut_reasoning = 0\<rparr>"

definition usage_buckets :: "token_usage \<Rightarrow> usage_totals" where
  "usage_buckets u =
     (let get = (\<lambda>x. case x of None \<Rightarrow> 0 | Some n \<Rightarrow> n) in
      \<lparr>ut_input = tu_input u, ut_output = tu_output u, ut_cache_read = get (tu_cache_read u),
       ut_cache_write = get (tu_cache_write u), ut_reasoning = get (tu_reasoning u)\<rparr>)"

definition replace_bucket :: "nat \<Rightarrow> nat \<Rightarrow> nat \<Rightarrow> attempt_error + nat" where
  "replace_bucket total_n previous next_n =
     ok_or UsageOverflow (Option.bind (checked_sub_u64 total_n previous) (\<lambda>v. checked_add_u64 v next_n))"

definition with_sample :: "usage_projection \<Rightarrow> nat \<Rightarrow> nat \<Rightarrow> token_usage \<Rightarrow> attempt_error + usage_projection" where
  "with_sample up turn step usage =
     (let b = usage_buckets usage;
          prev = (case up_last up of
                    Some s \<Rightarrow> if us_turn s = turn \<and> us_step s = step then us_buckets s else zero_totals
                  | None \<Rightarrow> zero_totals);
          t = up_totals up
      in
        bindR (replace_bucket (ut_input t) (ut_input prev) (ut_input b)) (\<lambda>i.
        bindR (replace_bucket (ut_output t) (ut_output prev) (ut_output b)) (\<lambda>out.
        bindR (replace_bucket (ut_cache_read t) (ut_cache_read prev) (ut_cache_read b)) (\<lambda>cr.
        bindR (replace_bucket (ut_cache_write t) (ut_cache_write prev) (ut_cache_write b)) (\<lambda>cw.
        bindR (replace_bucket (ut_reasoning t) (ut_reasoning prev) (ut_reasoning b)) (\<lambda>re.
          Inr \<lparr>up_totals = \<lparr>ut_input = i, ut_output = out, ut_cache_read = cr, ut_cache_write = cw,
                 ut_reasoning = re\<rparr>,
               up_last = Some \<lparr>us_turn = turn, us_step = step, us_buckets = b\<rparr>\<rparr>))))))"

section \<open>Digests\<close>

definition CONTENT_DIGEST_DOMAIN :: string where
  "CONTENT_DIGEST_DOMAIN = ''dsh.attempt-content.v1'' @ [CHR 0x00]"

definition SOURCE_DIGEST_DOMAIN :: string where
  "SOURCE_DIGEST_DOMAIN = ''dsh.attempt-sources.v1'' @ [CHR 0x00]"

definition REPLAY_DIGEST_DOMAIN :: string where
  "REPLAY_DIGEST_DOMAIN = ''dsh.attempt-replay.v1'' @ [CHR 0x00]"

definition to_be_bytes :: "nat \<Rightarrow> string" where
  "to_be_bytes n = map (\<lambda>k. char_of (n div 256 ^ k)) [7, 6, 5, 4, 3, 2, 1, 0]"

definition json_digest :: "externals \<Rightarrow> json_value \<Rightarrow> string" where
  "json_digest E v = ext_sha256 E (REPLAY_DIGEST_DOMAIN @ json_text E (jv_value v))"

definition content_digest :: "externals \<Rightarrow> content_block list \<Rightarrow> string" where
  "content_digest E content =
     ext_sha256 E (CONTENT_DIGEST_DOMAIN @ json_text E (JArray (map (\<lambda>b. jv_value (cb_raw b)) content)))"

definition source_digest :: "externals \<Rightarrow> nat list \<Rightarrow> string" where
  "source_digest E sources = ext_sha256 E (SOURCE_DIGEST_DOMAIN @ concat (map to_be_bytes sources))"

section \<open>State\<close>

record open_attempt =
  oa_generation :: nat
  oa_turn :: nat
  oa_step :: nat
  oa_route :: call_config
  oa_validator :: stream_validator
  oa_order :: "nat list"
  oa_blocks :: "(nat \<times> content_block option) list"
  oa_sources :: "nat list"
  oa_emitted_bytes :: nat
  oa_usage :: "token_usage option"

record finished_attempt =
  fa_generation :: nat
  fa_turn :: nat
  fa_step :: nat
  fa_route :: call_config
  fa_sources :: "nat list"
  fa_usage :: "token_usage option"
  fa_reason :: finish_reason
  fa_replay_state :: "json_value option"
  fa_content :: "content_block list option"
  fa_digest :: "string option"
  fa_assistant_tokens :: "nat option"

record sealed_attempt =
  sa_generation :: nat
  sa_turn :: nat
  sa_step :: nat
  sa_route :: call_config
  sa_source_count :: nat
  sa_source_digest :: string
  sa_usage :: "token_usage option"
  sa_reason :: finish_reason
  sa_replay_digest :: "string option"
  sa_digest :: "string option"
  sa_assistant_tokens :: "nat option"

record committed_facts =
  cf_usage :: "token_usage option"
  cf_assistant_tokens :: nat

datatype attempt_state =
    OutsideStep
  | Ready nat nat
  | Streaming open_attempt
  | Finished finished_attempt
  | Sealed sealed_attempt
  | RetryScheduled nat nat
  | Committed nat nat

record attempt_projection =
  at_state :: attempt_state
  at_usage :: usage_projection
  at_next_generation :: nat
  at_overflow_used :: bool
  at_overflow_start_used :: bool
  at_overflow_generation :: "nat option"

definition attempt_default :: attempt_projection where
  "attempt_default = \<lparr>at_state = OutsideStep, at_usage = \<lparr>up_totals = zero_totals, up_last = None\<rparr>,
     at_next_generation = 1, at_overflow_used = False, at_overflow_start_used = False,
     at_overflow_generation = None\<rparr>"

datatype recovery_phase = PhaseStreaming | PhaseFinished | PhaseSealed

record recovery_proof =
  rv_turn :: nat
  rv_step :: nat
  rv_generation :: nat
  rv_phase :: recovery_phase
  rv_source_count :: nat
  rv_source_digest :: string

datatype chunk_operation =
    OpContinue
  | OpBlockStart nat
  | OpBlockEnd nat content_block
  | OpUsage token_usage
  | OpFinish finish_reason "json_value option" "content_block list option" "string option" "nat option"

record prepared_existing_chunk =
  pe_seq :: nat
  pe_stream :: prepared_transition
  pe_expected_generation :: nat
  pe_expected_source_count :: nat
  pe_emitted_bytes :: nat
  pe_operation :: chunk_operation
  pe_next_usage :: "usage_projection option"

datatype prepared_attempt_chunk =
    PrepReplace nat nat nat attempt_projection
  | PrepExisting prepared_existing_chunk

record prepared_attempt =
  pa_content :: "content_block list"
  pa_usage :: "token_usage option"
  pa_finish :: finish_reason
  pa_replay_state :: "json_value option"
  pa_sources :: "nat list"

abbreviation boundary :: "string \<Rightarrow> string \<Rightarrow> attempt_error" where
  "boundary \<equiv> AttemptBoundary"

definition route_from_header :: "epoch_header option \<Rightarrow> attempt_error + call_config" where
  "route_from_header h = bindR (ok_or MissingRoute h) (\<lambda>h. Inr (eh_config h))"

section \<open>Chunks of an open attempt\<close>

definition open_attempt_new :: "nat \<Rightarrow> nat \<Rightarrow> nat \<Rightarrow> call_config \<Rightarrow> open_attempt" where
  "open_attempt_new generation turn step route =
     \<lparr>oa_generation = generation, oa_turn = turn, oa_step = step, oa_route = route,
      oa_validator = sv_default, oa_order = [], oa_blocks = [], oa_sources = [],
      oa_emitted_bytes = 0, oa_usage = None\<rparr>"

definition is_tool_call_block :: "content_block \<Rightarrow> bool" where
  "is_tool_call_block b = (case cb_kind b of ToolCallBlock _ _ _ \<Rightarrow> True | _ \<Rightarrow> False)"

definition is_max_tokens :: "finish_reason \<Rightarrow> bool" where
  "is_max_tokens r = (fr_kind r = MaxTokens)"

text \<open>The blocks that have ended, in the order of their starts.\<close>

definition ended_blocks :: "open_attempt \<Rightarrow> content_block list" where
  "ended_blocks a = List.map_filter (\<lambda>i. Option.bind (map_of (oa_blocks a) i) (\<lambda>b. b)) (oa_order a)"

text \<open>What counts as the assistant's content: a truncated answer loses its tool calls.\<close>

definition normalized_blocks :: "finish_reason \<Rightarrow> content_block list \<Rightarrow> content_block list" where
  "normalized_blocks r bs = (if is_max_tokens r then filter (\<lambda>b. \<not> is_tool_call_block b) bs else bs)"

definition normalized_content_digest :: "externals \<Rightarrow> open_attempt \<Rightarrow> finish_reason \<Rightarrow> string" where
  "normalized_content_digest E a r = content_digest E (normalized_blocks r (ended_blocks a))"

definition provider_assistant_tokens :: "externals \<Rightarrow> open_attempt \<Rightarrow> finish_reason \<Rightarrow> attempt_error + nat" where
  "provider_assistant_tokens E a r =
     map_err (\<lambda>_. TokenEstimateOverflow) (estimate_provider_assistant E (normalized_blocks r (ended_blocks a)))"

definition prepare_finish ::
  "externals \<Rightarrow> open_attempt \<Rightarrow> finish_reason \<Rightarrow> json_value option \<Rightarrow> attempt_error + chunk_operation" where
  "prepare_finish E a r replay =
     (if can_leave_open r then Inr (OpFinish r replay None None None)
      else if \<exists>i\<in>set (oa_order a). Option.bind (map_of (oa_blocks a) i) (\<lambda>b. b) = None
      then Inl (boundary ''assistant/chunk'' ''successful finish has an incomplete block'')
      else
        bindR (provider_assistant_tokens E a r) (\<lambda>tokens.
          Inr (OpFinish r replay (Some []) (Some (normalized_content_digest E a r)) (Some tokens))))"

definition prepare_operation ::
  "externals \<Rightarrow> open_attempt \<Rightarrow> stream_chunk \<Rightarrow> usage_projection
     \<Rightarrow> attempt_error + chunk_operation \<times> usage_projection option" where
  "prepare_operation E a c up =
     (case sc_kind c of
        BlockStart i _ \<Rightarrow> Inr (OpBlockStart i, None)
      | BlockEnd i b \<Rightarrow> Inr (OpBlockEnd i b, None)
      | UsageChunk u \<Rightarrow>
          bindR (with_sample up (oa_turn a) (oa_step a) u) (\<lambda>up'. Inr (OpUsage u, Some up'))
      | FinishChunk r p \<Rightarrow> bindR (prepare_finish E a r p) (\<lambda>op. Inr (op, None))
      | TextDelta _ _ \<Rightarrow> Inr (OpContinue, None)
      | ReasoningDelta _ _ \<Rightarrow> Inr (OpContinue, None)
      | ToolCallDelta _ _ _ _ \<Rightarrow> Inr (OpContinue, None)
      | OtherChunk _ \<Rightarrow>
          Inl (boundary ''assistant/chunk'' ''unknown live chunks are not durable attempt facts''))"

definition open_prepare_chunk ::
  "externals \<Rightarrow> open_attempt \<Rightarrow> nat \<Rightarrow> stream_chunk \<Rightarrow> usage_projection
     \<Rightarrow> attempt_error + prepared_existing_chunk" where
  "open_prepare_chunk E a seq c up =
     bindR (map_err AttemptStream (prepare (oa_validator a) c)) (\<lambda>stream.
     bindR (ok_or (EmittedBytes MAX_ATTEMPT_EMITTED_BYTES (U64_LIMIT - 1))
              (checked_add_u64 (oa_emitted_bytes a) (jv_encoded_len (sc_raw c)))) (\<lambda>emitted.
       if emitted > MAX_ATTEMPT_EMITTED_BYTES
       then Inl (EmittedBytes MAX_ATTEMPT_EMITTED_BYTES emitted)
       else
         bindR (prepare_operation E a c up) (\<lambda>(op, next_usage).
           Inr \<lparr>pe_seq = seq, pe_stream = stream, pe_expected_generation = oa_generation a,
                pe_expected_source_count = length (oa_sources a), pe_emitted_bytes = emitted,
                pe_operation = op, pe_next_usage = next_usage\<rparr>)))"

text \<open>Moving the ended blocks out of the table, in order; \<open>None\<close> when one is missing.\<close>

fun collect_blocks :: "nat list \<Rightarrow> (nat \<times> content_block option) list \<Rightarrow> content_block list option" where
  "collect_blocks [] bs = Some []"
| "collect_blocks (i # is) bs =
     (case map_of bs i of
        Some (Some b) \<Rightarrow> map_option (Cons b) (collect_blocks is (filter (\<lambda>(j, _). j \<noteq> i) bs))
      | _ \<Rightarrow> None)"

fun table_insert :: "nat \<Rightarrow> 'a \<Rightarrow> (nat \<times> 'a) list \<Rightarrow> (nat \<times> 'a) list" where
  "table_insert k v m = (k, v) # filter (\<lambda>(j, _). j \<noteq> k) m"

definition finish_attempt :: "open_attempt \<Rightarrow> finish_reason \<Rightarrow> json_value option \<Rightarrow> content_block list option
     \<Rightarrow> string option \<Rightarrow> nat option \<Rightarrow> finished_attempt" where
  "finish_attempt a r replay content digest tokens =
     \<lparr>fa_generation = oa_generation a, fa_turn = oa_turn a, fa_step = oa_step a,
      fa_route = oa_route a, fa_sources = oa_sources a, fa_usage = oa_usage a, fa_reason = r,
      fa_replay_state = replay, fa_content = content, fa_digest = digest,
      fa_assistant_tokens = tokens\<rparr>"

definition open_commit ::
  "open_attempt \<Rightarrow> prepared_existing_chunk \<Rightarrow> (attempt_state \<times> usage_projection option) option" where
  "open_commit a0 p =
     (let a = a0\<lparr>oa_validator := commit (oa_validator a0) (pe_stream p),
                 oa_sources := oa_sources a0 @ [pe_seq p],
                 oa_emitted_bytes := pe_emitted_bytes p\<rparr>;
          next_usage = pe_next_usage p
      in case pe_operation p of
           OpContinue \<Rightarrow> Some (Streaming a, next_usage)
         | OpBlockStart i \<Rightarrow>
             Some (Streaming (a\<lparr>oa_order := oa_order a @ [i],
                                oa_blocks := table_insert i None (oa_blocks a)\<rparr>), next_usage)
         | OpBlockEnd i b \<Rightarrow>
             (case map_of (oa_blocks a) i of
                None \<Rightarrow> None
              | Some _ \<Rightarrow>
                  Some (Streaming (a\<lparr>oa_blocks := table_insert i (Some b) (oa_blocks a)\<rparr>), next_usage))
         | OpUsage u \<Rightarrow> Some (Streaming (a\<lparr>oa_usage := Some u\<rparr>), next_usage)
         | OpFinish r replay content digest tokens \<Rightarrow>
             (case content of
                None \<Rightarrow> Some (Finished (finish_attempt a r replay None digest tokens), next_usage)
              | Some _ \<Rightarrow>
                  (case collect_blocks (oa_order a) (oa_blocks a) of
                     None \<Rightarrow> None
                   | Some bs \<Rightarrow>
                       Some (Finished (finish_attempt a r replay (Some bs) digest tokens), next_usage))))"

section \<open>The projection\<close>

definition is_outside_step :: "attempt_projection \<Rightarrow> bool" where
  "is_outside_step p = (at_state p = OutsideStep)"

definition has_open_attempt :: "attempt_projection \<Rightarrow> bool" where
  "has_open_attempt p =
     (case at_state p of Streaming _ \<Rightarrow> True | Finished _ \<Rightarrow> True | Sealed _ \<Rightarrow> True | _ \<Rightarrow> False)"

definition recovery_proof_of :: "externals \<Rightarrow> attempt_projection \<Rightarrow> recovery_proof option" where
  "recovery_proof_of E p =
     (case at_state p of
        Streaming a \<Rightarrow> Some \<lparr>rv_turn = oa_turn a, rv_step = oa_step a, rv_generation = oa_generation a,
          rv_phase = PhaseStreaming, rv_source_count = length (oa_sources a),
          rv_source_digest = source_digest E (oa_sources a)\<rparr>
      | Finished f \<Rightarrow> Some \<lparr>rv_turn = fa_turn f, rv_step = fa_step f, rv_generation = fa_generation f,
          rv_phase = PhaseFinished, rv_source_count = length (fa_sources f),
          rv_source_digest = source_digest E (fa_sources f)\<rparr>
      | Sealed a \<Rightarrow> Some \<lparr>rv_turn = sa_turn a, rv_step = sa_step a, rv_generation = sa_generation a,
          rv_phase = PhaseSealed, rv_source_count = sa_source_count a,
          rv_source_digest = sa_source_digest a\<rparr>
      | _ \<Rightarrow> None)"

definition step_start :: "attempt_projection \<Rightarrow> nat \<Rightarrow> nat \<Rightarrow> attempt_error + attempt_projection" where
  "step_start p turn step =
     (if at_state p \<noteq> OutsideStep
      then Inl (boundary ''step/start'' ''an earlier step still owns attempt state'')
      else Inr (p\<lparr>at_state := Ready turn step, at_overflow_used := False,
                  at_overflow_start_used := False, at_overflow_generation := None\<rparr>))"

definition require_ready :: "attempt_projection \<Rightarrow> string \<Rightarrow> nat \<Rightarrow> nat \<Rightarrow> attempt_error + unit" where
  "require_ready p event turn step =
     (if at_state p = Ready turn step then Inr ()
      else Inl (boundary event ''the step is not ready for a new attempt''))"

definition require_context_replay_progress :: "attempt_projection \<Rightarrow> string \<Rightarrow> nat \<Rightarrow> attempt_error + unit" where
  "require_context_replay_progress p event generation =
     (if at_overflow_used p
         \<and> (case at_overflow_generation p of None \<Rightarrow> True | Some closed \<Rightarrow> generation \<le> closed)
      then Inl (boundary event ''context-overflow replay requires a durable compaction replacement'')
      else Inr ())"

record prepared_live =
  pl_generation :: nat
  pl_turn :: nat
  pl_step :: nat
  pl_route :: call_config
  pl_usage :: usage_projection
  pl_next_generation :: nat
  pl_overflow_used :: bool
  pl_overflow_start_used :: bool
  pl_overflow_generation :: "nat option"

definition prepare_begin_live ::
  "attempt_projection \<Rightarrow> nat \<Rightarrow> nat \<Rightarrow> epoch_header option \<Rightarrow> nat \<Rightarrow> attempt_error + prepared_live" where
  "prepare_begin_live p turn step header generation =
     bindR (require_ready p ''provider dispatch'' turn step) (\<lambda>_.
     bindR (require_context_replay_progress p ''provider dispatch'' generation) (\<lambda>_.
     bindR (ok_or AttemptCapacity (checked_add_u64 (at_next_generation p) 1)) (\<lambda>next_generation.
     bindR (route_from_header header) (\<lambda>route.
       Inr \<lparr>pl_generation = at_next_generation p, pl_turn = turn, pl_step = step, pl_route = route,
            pl_usage = at_usage p, pl_next_generation = next_generation,
            pl_overflow_used = at_overflow_used p, pl_overflow_start_used = at_overflow_start_used p,
            pl_overflow_generation = at_overflow_generation p\<rparr>))))"

definition commit_live :: "prepared_live \<Rightarrow> attempt_projection" where
  "commit_live l =
     \<lparr>at_state = Streaming (open_attempt_new (pl_generation l) (pl_turn l) (pl_step l) (pl_route l)),
      at_usage = pl_usage l, at_next_generation = pl_next_generation l,
      at_overflow_used = pl_overflow_used l, at_overflow_start_used = pl_overflow_start_used l,
      at_overflow_generation = pl_overflow_generation l\<rparr>"

text \<open>The first chunk of a step opens the attempt; later ones continue it.\<close>

definition open_first_chunk ::
  "externals \<Rightarrow> attempt_projection \<Rightarrow> nat \<Rightarrow> nat \<Rightarrow> nat \<Rightarrow> stream_chunk \<Rightarrow> epoch_header option \<Rightarrow> nat
     \<Rightarrow> attempt_error + prepared_attempt_chunk" where
  "open_first_chunk E p seq turn step c header generation =
     bindR (require_context_replay_progress p ''assistant/chunk'' generation) (\<lambda>_.
     bindR (ok_or AttemptCapacity (checked_add_u64 (at_next_generation p) 1)) (\<lambda>next_generation.
     bindR (route_from_header header) (\<lambda>route.
     let a = open_attempt_new (at_next_generation p) turn step route in
     bindR (open_prepare_chunk E a seq c (at_usage p)) (\<lambda>prepared.
     bindR (ok_or OwnershipChanged (open_commit a prepared)) (\<lambda>(state, usage).
       Inr (PrepReplace turn step (at_next_generation p)
         (p\<lparr>at_state := state, at_usage := (case usage of None \<Rightarrow> at_usage p | Some u \<Rightarrow> u),
            at_next_generation := next_generation\<rparr>)))))))"

definition prepare_chunk ::
  "externals \<Rightarrow> attempt_projection \<Rightarrow> session_event \<Rightarrow> epoch_header option \<Rightarrow> nat
     \<Rightarrow> attempt_error + prepared_attempt_chunk" where
  "prepare_chunk E p event header generation =
     (case ev_kind event of
        AssistantChunk turn step c \<Rightarrow>
          (case at_state p of
             Ready t s \<Rightarrow>
               if t = turn \<and> s = step
               then open_first_chunk E p (ev_seq event) turn step c header generation
               else Inl (boundary ''assistant/chunk'' ''no matching ready or streaming attempt exists'')
           | Streaming a \<Rightarrow>
               if oa_turn a = turn \<and> oa_step a = step
               then bindR (open_prepare_chunk E a (ev_seq event) c (at_usage p)) (\<lambda>q. Inr (PrepExisting q))
               else Inl (boundary ''assistant/chunk'' ''no matching ready or streaming attempt exists'')
           | _ \<Rightarrow> Inl (boundary ''assistant/chunk'' ''no matching ready or streaming attempt exists''))
      | _ \<Rightarrow> Inl (boundary ''assistant/chunk'' ''the event is not a stream chunk''))"

text \<open>The boolean result and the projection left behind.\<close>

definition commit_chunk :: "attempt_projection \<Rightarrow> prepared_attempt_chunk \<Rightarrow> bool \<times> attempt_projection" where
  "commit_chunk p prepared =
     (case prepared of
        PrepReplace turn step expected_generation next_p \<Rightarrow>
          if at_state p \<noteq> Ready turn step then (False, p)
          else if at_next_generation p \<noteq> expected_generation then (False, p)
          else (True, next_p)
      | PrepExisting q \<Rightarrow>
          (case at_state p of
             Streaming a \<Rightarrow>
               if oa_generation a = pe_expected_generation q
                  \<and> length (oa_sources a) = pe_expected_source_count q
               then (case open_commit a q of
                       None \<Rightarrow> (False, p\<lparr>at_state := OutsideStep\<rparr>)
                     | Some (state, usage) \<Rightarrow>
                         (True, p\<lparr>at_state := state,
                                  at_usage := (case usage of None \<Rightarrow> at_usage p | Some u \<Rightarrow> u)\<rparr>))
               else (False, p)
           | _ \<Rightarrow> (False, p)))"

definition seal_attempt :: "externals \<Rightarrow> finished_attempt \<Rightarrow> sealed_attempt" where
  "seal_attempt E f =
     \<lparr>sa_generation = fa_generation f, sa_turn = fa_turn f, sa_step = fa_step f, sa_route = fa_route f,
      sa_source_count = length (fa_sources f), sa_source_digest = source_digest E (fa_sources f),
      sa_usage = fa_usage f, sa_reason = fa_reason f,
      sa_replay_digest = map_option (json_digest E) (fa_replay_state f),
      sa_digest = fa_digest f, sa_assistant_tokens = fa_assistant_tokens f\<rparr>"

definition take_prepared ::
  "externals \<Rightarrow> attempt_projection \<Rightarrow> attempt_error + prepared_attempt \<times> attempt_projection" where
  "take_prepared E p =
     (case at_state p of
        Finished f \<Rightarrow>
          Inr (\<lparr>pa_content = (case fa_content f of None \<Rightarrow> [] | Some bs \<Rightarrow> bs), pa_usage = fa_usage f,
                pa_finish = fa_reason f, pa_replay_state = fa_replay_state f, pa_sources = fa_sources f\<rparr>,
               p\<lparr>at_state := Sealed (seal_attempt E f)\<rparr>)
      | _ \<Rightarrow> Inl (boundary ''provider attempt seal'' ''the stream has no terminal finish''))"

section \<open>What ends an attempt\<close>

definition terminal_failure :: "finish_reason \<Rightarrow> llm_failure option" where
  "terminal_failure r =
     (case fr_kind r of ErrorReason f \<Rightarrow> Some f | Aborted f \<Rightarrow> Some f | _ \<Rightarrow> None)"

definition validate_message_route ::
  "externals \<Rightarrow> message \<Rightarrow> call_config \<Rightarrow> string option \<Rightarrow> attempt_error + unit" where
  "validate_message_route E m route replay_digest =
     (case src_kind (msg_source m) of
        ModelSource provider model replay \<Rightarrow>
          if provider = cc_provider route \<and> model = cc_model route
             \<and> map_option (json_digest E) replay = replay_digest
          then Inr () else Inl RouteMismatch
      | _ \<Rightarrow> Inl RouteMismatch)"

text \<open>What the attempt recorded, once the message's sources have been checked against it.\<close>

record attempt_facts =
  af_turn :: nat
  af_step :: nat
  af_route :: call_config
  af_usage :: "token_usage option"
  af_reason :: finish_reason
  af_replay_digest :: "string option"
  af_digest :: "string option"
  af_assistant_tokens :: "nat option"

definition matched_facts :: "externals \<Rightarrow> attempt_state \<Rightarrow> nat list option \<Rightarrow> attempt_error + attempt_facts" where
  "matched_facts E st event_sources =
     (let sources = (case event_sources of None \<Rightarrow> [] | Some xs \<Rightarrow> xs) in
      case st of
        Finished f \<Rightarrow>
          if fa_sources f \<noteq> sources then Inl SourceMismatch
          else Inr \<lparr>af_turn = fa_turn f, af_step = fa_step f, af_route = fa_route f,
                    af_usage = fa_usage f, af_reason = fa_reason f,
                    af_replay_digest = map_option (json_digest E) (fa_replay_state f),
                    af_digest = fa_digest f, af_assistant_tokens = fa_assistant_tokens f\<rparr>
      | Sealed a \<Rightarrow>
          if length sources \<noteq> sa_source_count a \<or> source_digest E sources \<noteq> sa_source_digest a
          then Inl SourceMismatch
          else Inr \<lparr>af_turn = sa_turn a, af_step = sa_step a, af_route = sa_route a,
                    af_usage = sa_usage a, af_reason = sa_reason a,
                    af_replay_digest = sa_replay_digest a,
                    af_digest = sa_digest a, af_assistant_tokens = sa_assistant_tokens a\<rparr>
      | _ \<Rightarrow> Inl (boundary ''assistant/message'' ''no matching finished attempt exists''))"

definition assistant ::
  "externals \<Rightarrow> attempt_projection \<Rightarrow> session_event \<Rightarrow> attempt_error + attempt_projection \<times> committed_facts" where
  "assistant E p event =
     (case ev_kind event of
        AssistantMessage turn step m usage \<Rightarrow>
          bindR (matched_facts E (at_state p) (ev_source_event_seqs event)) (\<lambda>a.
            if af_turn a \<noteq> turn \<or> af_step a \<noteq> step
            then Inl (boundary ''assistant/message'' ''turn or step does not match the attempt'')
            else if terminal_failure (af_reason a) \<noteq> None
            then Inl (boundary ''assistant/message'' ''a failed attempt cannot commit an assistant message'')
            else if af_usage a \<noteq> usage then Inl UsageMismatch
            else
              bindR (validate_message_route E m (af_route a) (af_replay_digest a)) (\<lambda>_.
                if is_max_tokens (af_reason a) \<and> list_ex is_tool_call_block (msg_content m)
                then Inl ContentMismatch
                else
                  bindR (ok_or ContentMismatch (af_digest a)) (\<lambda>digest.
                    if content_digest E (msg_content m) \<noteq> digest then Inl ContentMismatch
                    else
                      bindR (case usage of
                               None \<Rightarrow> Inr (at_usage p)
                             | Some u \<Rightarrow> with_sample (at_usage p) turn step u) (\<lambda>up.
                      bindR (ok_or TokenEstimateOverflow (af_assistant_tokens a)) (\<lambda>tokens.
                        Inr (p\<lparr>at_state := Committed turn step, at_usage := up\<rparr>,
                             \<lparr>cf_usage = usage, cf_assistant_tokens = tokens\<rparr>))))))
      | _ \<Rightarrow> Inl (boundary ''assistant/message'' ''the event is not an assistant message''))"

definition retry_attempt :: "attempt_projection \<Rightarrow> session_event \<Rightarrow> attempt_error + attempt_projection" where
  "retry_attempt p event =
     (case ev_kind event of
        LlmRetry r \<Rightarrow>
          bindR (case at_state p of
                   Finished f \<Rightarrow> Inr (fa_turn f, fa_step f, fa_route f, fa_reason f)
                 | Sealed a \<Rightarrow> Inr (sa_turn a, sa_step a, sa_route a, sa_reason a)
                 | _ \<Rightarrow> Inl (boundary ''llm/retry'' ''no matching failed terminal attempt exists''))
            (\<lambda>(turn, step, route, reason).
              if turn \<noteq> lr_turn r \<or> step \<noteq> lr_step r \<or> cc_provider route \<noteq> lr_provider r
              then Inl (boundary ''llm/retry'' ''route, turn, or step does not match the attempt'')
              else
                bindR (ok_or FailureMismatch (terminal_failure reason)) (\<lambda>failure.
                  if failure \<noteq> lr_failure r then Inl FailureMismatch
                  else Inr (p\<lparr>at_state := RetryScheduled turn step\<rparr>)))
      | _ \<Rightarrow> Inl (boundary ''llm/retry'' ''the event is not a retry schedule''))"

definition is_context_overflow :: "finish_reason \<Rightarrow> bool" where
  "is_context_overflow r =
     (case fr_kind r of ErrorReason f \<Rightarrow> lf_code f = ''CONTEXT_WINDOW_EXCEEDED'' | _ \<Rightarrow> False)"

definition context_overflow ::
  "attempt_projection \<Rightarrow> nat \<Rightarrow> nat \<Rightarrow> nat \<Rightarrow> bool \<Rightarrow> attempt_error + attempt_projection" where
  "context_overflow p turn step generation starts_compaction =
     (if at_overflow_used p
      then Inl (boundary ''context-overflow compaction''
             ''this step already consumed its context-overflow recovery'')
      else
        bindR (case at_state p of
                 Finished f \<Rightarrow> Inr (fa_turn f, fa_step f, fa_reason f)
               | Sealed a \<Rightarrow> Inr (sa_turn a, sa_step a, sa_reason a)
               | _ \<Rightarrow> Inl (boundary ''context-overflow compaction''
                        ''no matching terminal provider attempt exists''))
          (\<lambda>(attempt_turn, attempt_step, reason).
            if attempt_turn \<noteq> turn \<or> attempt_step \<noteq> step
            then Inl (boundary ''context-overflow compaction''
                   ''turn or step does not match the terminal attempt'')
            else if \<not> is_context_overflow reason then Inl FailureMismatch
            else Inr (p\<lparr>at_state := Ready turn step, at_overflow_used := True,
                        at_overflow_start_used := starts_compaction,
                        at_overflow_generation := Some generation\<rparr>)))"

definition context_overflow_start :: "attempt_projection \<Rightarrow> nat \<Rightarrow> nat \<Rightarrow> attempt_error + attempt_projection" where
  "context_overflow_start p turn step =
     bindR (require_ready p ''compaction/start'' turn step) (\<lambda>_.
       if \<not> at_overflow_used p \<or> at_overflow_start_used p
       then Inl (boundary ''compaction/start''
              ''the context-overflow compaction start is missing or duplicated'')
       else Inr (p\<lparr>at_state := Ready turn step, at_overflow_used := True, at_overflow_start_used := True\<rparr>))"

definition retry_started :: "attempt_projection \<Rightarrow> nat \<Rightarrow> nat \<Rightarrow> attempt_error + attempt_projection" where
  "retry_started p turn step =
     (if at_state p \<noteq> RetryScheduled turn step
      then Inl (boundary ''llm/retry-started'' ''no matching retry schedule owns the attempt slot'')
      else Inr (p\<lparr>at_state := Ready turn step\<rparr>))"

definition ordinary_end :: "attempt_state \<Rightarrow> nat \<Rightarrow> nat \<Rightarrow> bool" where
  "ordinary_end st turn step =
     (st = Ready turn step \<or> st = RetryScheduled turn step \<or> st = Committed turn step)"

definition open_matches :: "attempt_state \<Rightarrow> nat \<Rightarrow> nat \<Rightarrow> bool" where
  "open_matches st turn step =
     (case st of
        Streaming a \<Rightarrow> oa_turn a = turn \<and> oa_step a = step
      | Finished f \<Rightarrow> fa_turn f = turn \<and> fa_step f = step
      | Sealed a \<Rightarrow> sa_turn a = turn \<and> sa_step a = step
      | _ \<Rightarrow> False)"

definition step_end ::
  "attempt_projection \<Rightarrow> nat \<Rightarrow> nat \<Rightarrow> attempt_disposition option \<Rightarrow> attempt_error + attempt_projection" where
  "step_end p turn step disposition =
     bindR
       (if ordinary_end (at_state p) turn step
        then (if disposition \<noteq> None
              then Inl (boundary ''step/end'' ''a closed or never-started attempt cannot be closed twice'')
              else Inr ())
        else if \<not> open_matches (at_state p) turn step
             \<or> disposition \<notin> {Some DispFailed, Some DispCancelled, Some DispInterrupted}
        then Inl (boundary ''step/end'' ''an open attempt requires an explicit noncommitted disposition'')
        else Inr ())
       (\<lambda>_. Inr (p\<lparr>at_state := OutsideStep, at_overflow_used := False,
                   at_overflow_start_used := False, at_overflow_generation := None\<rparr>))"

definition interrupt_for_recovery ::
  "externals \<Rightarrow> attempt_projection \<Rightarrow> nat \<Rightarrow> nat \<Rightarrow> recovery_proof \<Rightarrow> attempt_error + attempt_projection" where
  "interrupt_for_recovery E p turn step witness_proof =
     (if recovery_proof_of E p \<noteq> Some witness_proof
      then Inl (boundary ''step/end'' ''the recovery attempt proof no longer matches the open stream'')
      else step_end p turn step (Some DispInterrupted))"

end
