(* ===== verification/Tool_Result_Pruner.thy ===== *)
theory Tool_Result_Pruner
  imports Session_Events
begin

text \<open>
  Pruning the middle of a long tool result, and the digest of everything pruning must not touch:
  \<open>src/session/tool_result_pruner.rs\<close>.  The edit plan is a list with one edit per block; a JSON
  object is an association list.
\<close>

section \<open>Configuration\<close>

definition PRUNED_MIDDLE_MARKER :: string where
  "PRUNED_MIDDLE_MARKER =
     [CHR 0x0A, CHR 0x0A] @ ''[... tool result middle pruned ...]'' @ [CHR 0x0A, CHR 0x0A]"

definition MASKED_DATA_DIGEST_DOMAIN :: string where
  "MASKED_DATA_DIGEST_DOMAIN = ''dsh.tool-result.masked-data.v1'' @ [CHR 0x00]"

record prune_config =
  pc_threshold :: nat
  pc_head :: nat
  pc_tail :: nat

record prune_outcome =
  po_original :: nat
  po_pruned :: nat

datatype prune_error = InvalidConfig | PruneInvalidShape | PruneCapacity

definition retained_points :: "nat \<Rightarrow> nat \<Rightarrow> nat option" where
  "retained_points head tail =
     Option.bind (checked_add_u64 head (char_count PRUNED_MIDDLE_MARKER)) (\<lambda>v. checked_add_u64 v tail)"

definition prune_config_new :: "nat \<Rightarrow> nat \<Rightarrow> nat \<Rightarrow> prune_error + prune_config" where
  "prune_config_new threshold head tail =
     bindR (ok_or InvalidConfig (retained_points head tail)) (\<lambda>retained.
       if threshold = 0 \<or> retained > threshold then Inl InvalidConfig
       else Inr \<lparr>pc_threshold = threshold, pc_head = head, pc_tail = tail\<rparr>)"

definition prune_config_default :: prune_config where
  "prune_config_default = \<lparr>pc_threshold = 8192, pc_head = 4096, pc_tail = 1024\<rparr>"

section \<open>Access to the raw data\<close>

definition raw_result_content :: "json \<Rightarrow> json list option" where
  "raw_result_content data =
     Option.bind (as_object data) (\<lambda>d.
     Option.bind (map_of d ''message'') (\<lambda>m.
     Option.bind (as_object m) (\<lambda>m.
     Option.bind (map_of m ''content'') (\<lambda>c.
     Option.bind (as_array c) (\<lambda>xs.
       case xs of
         [] \<Rightarrow> None
       | r # _ \<Rightarrow>
           Option.bind (as_object r) (\<lambda>r.
           Option.bind (map_of r ''content'') as_array))))))"

fun obj_set :: "string \<Rightarrow> json \<Rightarrow> fields \<Rightarrow> fields" where
  "obj_set k v [] = []"
| "obj_set k v ((k', w) # m) = (if k = k' then (k', v) # m else (k', w) # obj_set k v m)"

text \<open>Writing through \<open>tool_result_content_mut\<close>.\<close>

definition set_result_content :: "json \<Rightarrow> json list \<Rightarrow> json option" where
  "set_result_content data content =
     (case data of
        JObject d \<Rightarrow>
          (case map_of d ''message'' of
             Some (JObject m) \<Rightarrow>
               (case map_of m ''content'' of
                  Some (JArray (JObject r # rs)) \<Rightarrow>
                    Some (JObject (obj_set ''message''
                      (JObject (obj_set ''content''
                        (JArray (JObject (obj_set ''content'' (JArray content) r) # rs)) m)) d))
                | _ \<Rightarrow> None)
           | _ \<Rightarrow> None)
      | _ \<Rightarrow> None)"

definition text_block :: "json \<Rightarrow> prune_error + string option" where
  "text_block block =
     (case as_object block of
        None \<Rightarrow> Inr None
      | Some m \<Rightarrow>
          if get_str m ''type'' \<noteq> Some ''text'' then Inr None
          else bindR (ok_or PruneInvalidShape (get_str m ''text'')) (\<lambda>s. Inr (Some s)))"

text \<open>The byte index of the character with that index, or the length.\<close>

fun byte_index_at_char :: "string \<Rightarrow> nat \<Rightarrow> nat" where
  "byte_index_at_char [] n = 0"
| "byte_index_at_char (c # cs) n =
     (if is_continuation c then Suc (byte_index_at_char cs n)
      else case n of 0 \<Rightarrow> 0 | Suc k \<Rightarrow> Suc (byte_index_at_char cs k))"

section \<open>The edits\<close>

datatype block_edit = EditKeep | EditReplace string | EditDrop

definition count_points :: "json list \<Rightarrow> prune_error + nat" where
  "count_points content =
     try_fold (\<lambda>n block.
       bindR (text_block block) (\<lambda>t.
         case t of None \<Rightarrow> Inr n | Some s \<Rightarrow> ok_or PruneCapacity (checked_add_u64 n (char_count s))))
       0 content"

text \<open>One text block: what the removed span \<open>[removed_start, removed_end)\<close> leaves of it.\<close>

definition edit_text :: "nat \<Rightarrow> nat \<Rightarrow> nat \<Rightarrow> bool \<Rightarrow> string \<Rightarrow> prune_error + block_edit \<times> bool" where
  "edit_text removed_start removed_end cursor marker_written text =
     (let points = char_count text; block_end = cursor + points in
      if \<not> (cursor < removed_end \<and> block_end > removed_start)
      then Inr (if points = 0 then EditDrop else EditKeep, marker_written)
      else
        let prefix_points = min (removed_start - cursor) points;
            suffix_start_points = min (removed_end - cursor) points;
            prefix_end = byte_index_at_char text prefix_points;
            suffix_start = byte_index_at_char text suffix_start_points;
            marker = (if marker_written then [] else PRUNED_MIDDLE_MARKER)
        in bindR (ok_or PruneCapacity
             (Option.bind (checked_add_u64 prefix_end (length marker)) (\<lambda>v.
                checked_add_u64 v (length text - suffix_start)))) (\<lambda>capacity.
             Inr (if capacity = 0 then EditDrop
                  else EditReplace (take prefix_end text @ marker @ drop suffix_start text), True)))"

fun plan_edits :: "nat \<Rightarrow> nat \<Rightarrow> nat \<Rightarrow> bool \<Rightarrow> json list \<Rightarrow> prune_error + block_edit list \<times> bool" where
  "plan_edits removed_start removed_end cursor marker [] = Inr ([], marker)"
| "plan_edits removed_start removed_end cursor marker (block # blocks) =
     bindR (text_block block) (\<lambda>t.
       case t of
         None \<Rightarrow>
           bindR (plan_edits removed_start removed_end cursor marker blocks) (\<lambda>(edits, m).
             Inr (EditKeep # edits, m))
       | Some text \<Rightarrow>
           bindR (ok_or PruneCapacity (checked_add_u64 cursor (char_count text))) (\<lambda>block_end.
           bindR (edit_text removed_start removed_end cursor marker text) (\<lambda>(edit, marker).
           bindR (plan_edits removed_start removed_end block_end marker blocks) (\<lambda>(edits, m).
             Inr (edit # edits, m)))))"

text \<open>\<open>retain_mut\<close> over the blocks, with the edits beside them.\<close>

fun apply_edits :: "json list \<Rightarrow> block_edit list \<Rightarrow> json list" where
  "apply_edits [] es = []"
| "apply_edits (b # bs) [] = []"
| "apply_edits (b # bs) (EditKeep # es) = b # apply_edits bs es"
| "apply_edits (b # bs) (EditDrop # es) = apply_edits bs es"
| "apply_edits (b # bs) (EditReplace text # es) =
     (case as_object b of
        None \<Rightarrow> apply_edits bs es
      | Some m \<Rightarrow>
          if map_of m ''text'' = None then apply_edits bs es
          else JObject (obj_set ''text'' (JString text) m) # apply_edits bs es)"

definition prune_raw_tool_result_data ::
  "json \<Rightarrow> prune_config \<Rightarrow> prune_error + (json \<times> prune_outcome) option" where
  "prune_raw_tool_result_data data c =
     bindR (prune_config_new (pc_threshold c) (pc_head c) (pc_tail c)) (\<lambda>c.
     bindR (ok_or PruneInvalidShape (raw_result_content data)) (\<lambda>content.
     bindR (count_points content) (\<lambda>original.
       if original \<le> pc_threshold c then Inr None
       else
         bindR (ok_or InvalidConfig (checked_sub_u64 original (pc_tail c))) (\<lambda>removed_end.
         bindR (plan_edits (pc_head c) removed_end 0 False content) (\<lambda>(edits, marker_written).
           if \<not> marker_written then Inl PruneInvalidShape
           else
             bindR (ok_or PruneInvalidShape (set_result_content data (apply_edits content edits))) (\<lambda>data'.
             bindR (ok_or PruneCapacity (retained_points (pc_head c) (pc_tail c))) (\<lambda>pruned.
               Inr (Some (data', \<lparr>po_original = original, po_pruned = pruned\<rparr>)))))))))"

section \<open>The masked digest\<close>

definition mask_key :: "string \<Rightarrow> json \<Rightarrow> fields \<Rightarrow> json" where
  "mask_key k v m = JObject (map (\<lambda>(k', w). (k', if k' = k then v else w)) m)"

definition masked_data :: "json \<Rightarrow> json option" where
  "masked_data data =
     Option.bind (as_object data) (\<lambda>d.
     Option.bind (Option.bind (map_of d ''message'') as_object) (\<lambda>m.
     Option.bind (Option.bind (map_of m ''content'') as_array) (\<lambda>content.
       if length content \<noteq> 1 then None
       else
         Option.bind (as_object (hd content)) (\<lambda>r.
           if map_of r ''content'' = None then None
           else Some (mask_key ''message''
                  (mask_key ''content'' (JArray [mask_key ''content'' JNull r]) m) d)))))"

definition masked_data_sha256 :: "externals \<Rightarrow> json \<Rightarrow> string option" where
  "masked_data_sha256 E data =
     map_option (\<lambda>v. ext_sha256 E (MASKED_DATA_DIGEST_DOMAIN @ json_text E v)) (masked_data data)"

section \<open>What pruning does to the text\<close>

text \<open>The texts of the text blocks, one after the other.\<close>

definition block_texts :: "json list \<Rightarrow> string list" where
  "block_texts content =
     List.map_filter (\<lambda>b. case text_block b of Inr (Some s) \<Rightarrow> Some s | _ \<Rightarrow> None) content"

definition char_aligned :: "string \<Rightarrow> bool" where
  "char_aligned s = (case s of [] \<Rightarrow> True | c # _ \<Rightarrow> \<not> is_continuation c)"

lemma char_count_simps [simp]:
  "char_count [] = 0"
  "char_count (c # s) = (if is_continuation c then 0 else 1) + char_count s"
  "char_count (s @ t) = char_count s + char_count t"
  by (simp_all add: char_count_def)

lemma byte_index_le: "byte_index_at_char s n \<le> length s"
  by (induction s n rule: byte_index_at_char.induct) (auto split: nat.splits)

text \<open>Indices into a concatenation.\<close>

lemma byte_index_append:
  assumes "char_aligned t"
  shows "byte_index_at_char (s @ t) n =
    (if n < char_count s then byte_index_at_char s n else length s + byte_index_at_char t (n - char_count s))"
  using assms
proof (induction s arbitrary: n)
  case (Cons c s)
  then show ?case by (cases n) auto
qed simp

lemma byte_index_ge: "char_count s \<le> n \<Longrightarrow> byte_index_at_char s n = length s"
proof (induction s arbitrary: n)
  case (Cons c s)
  then show ?case by (cases n) (auto split: if_splits)
qed simp

lemma char_aligned_append: "char_aligned s \<Longrightarrow> char_aligned t \<Longrightarrow> char_aligned (s @ t)"
  by (cases s) (auto simp: char_aligned_def)

lemma char_aligned_concat: "\<forall>s\<in>set ss. char_aligned s \<Longrightarrow> char_aligned (concat ss)"
proof (induction ss)
  case (Cons s ss)
  then show ?case by (auto intro: char_aligned_append)
qed (simp add: char_aligned_def)

lemma char_count_zero: "char_count s = 0 \<Longrightarrow> char_aligned s \<Longrightarrow> s = []"
  by (cases s) (auto simp: char_aligned_def)

lemma byte_index_zero: "char_aligned s \<Longrightarrow> byte_index_at_char s 0 = 0"
  by (cases s) (auto simp: char_aligned_def)

text \<open>What a plan leaves of the texts, against cutting the whole text at once.\<close>

definition cut_text :: "nat \<Rightarrow> nat \<Rightarrow> nat \<Rightarrow> bool \<Rightarrow> string \<Rightarrow> string" where
  "cut_text rs re cursor m full =
     (if cursor < re \<and> rs < cursor + char_count full
      then take (byte_index_at_char full (rs - cursor)) full @ (if m then [] else PRUNED_MIDDLE_MARKER)
             @ drop (byte_index_at_char full (re - cursor)) full
      else full)"

definition edited_text :: "block_edit \<Rightarrow> string \<Rightarrow> string" where
  "edited_text e text = (case e of EditKeep \<Rightarrow> text | EditReplace t \<Rightarrow> t | EditDrop \<Rightarrow> [])"

definition edit_marker :: "nat \<Rightarrow> nat \<Rightarrow> nat \<Rightarrow> bool \<Rightarrow> string \<Rightarrow> bool" where
  "edit_marker rs re cursor m full = (m \<or> (cursor < re \<and> rs < cursor + char_count full))"

lemma edit_text_spec:
  assumes "edit_text rs re cursor m s = Inr (e, m')" "char_aligned s"
  shows "edited_text e s = cut_text rs re cursor m s" "m' = edit_marker rs re cursor m s"
proof -
  let ?cut = "cursor < re \<and> rs < cursor + char_count s"
  have min_index: "byte_index_at_char s (min n (char_count s)) = byte_index_at_char s n" for n
    by (cases "n \<le> char_count s") (simp_all add: min_def byte_index_ge)
  let ?t = "take (byte_index_at_char s (rs - cursor)) s @ (if m then [] else PRUNED_MIDDLE_MARKER)
              @ drop (byte_index_at_char s (re - cursor)) s"
  have "edited_text e s = cut_text rs re cursor m s \<and> m' = edit_marker rs re cursor m s"
  proof (cases ?cut)
    case False
    then have e: "e = (if char_count s = 0 then EditDrop else EditKeep)" "m' = m"
      using assms(1) by (simp_all add: edit_text_def Let_def)
    have "edited_text e s = s"
      by (cases "char_count s = 0") (use char_count_zero[OF _ assms(2)] in \<open>simp_all add: e(1) edited_text_def\<close>)
    moreover have "cut_text rs re cursor m s = s" using False by (simp only: cut_text_def if_False)
    ultimately show ?thesis using False e(2) by (auto simp: edit_marker_def)
  next
    case True
    let ?cap = "byte_index_at_char s (rs - cursor) + length (if m then [] else PRUNED_MIDDLE_MARKER)
        + (length s - byte_index_at_char s (re - cursor))"
    have "e = (if ?cap = 0 then EditDrop else EditReplace ?t)" "m'"
      using True assms(1)
      by (auto simp only: edit_text_def Let_def min_index result_simps checked_simps bind_eq_Some_conv
          prod.inject sum.inject if_True if_False simp_thms)
    moreover have "?cap = 0 \<Longrightarrow> ?t = []" by simp
    ultimately have "edited_text e s = ?t" by (simp only: edited_text_def split: if_splits) simp_all
    then show ?thesis using True \<open>m'\<close> by (simp only: cut_text_def edit_marker_def) simp
  qed
  then show "edited_text e s = cut_text rs re cursor m s" "m' = edit_marker rs re cursor m s" by auto
qed

text \<open>Cutting block by block is cutting the concatenation.\<close>

lemma cut_text_append:
  assumes al: "char_aligned s" "char_aligned t" and lt: "rs < re" and m: "m \<or> cursor \<le> rs"
  shows "cut_text rs re cursor m s @ cut_text rs re (cursor + char_count s) (edit_marker rs re cursor m s) t
       = cut_text rs re cursor m (s @ t)"
proof -
  let ?P = "char_count s" and ?Q = "char_count t"
  note app = byte_index_append[OF al(2)]
  consider "re \<le> cursor" | "cursor < re" "cursor + ?P \<le> rs" | "cursor < re" "rs < cursor + ?P" by linarith
  then show ?thesis
  proof cases
    case 1
    then show ?thesis by (simp add: cut_text_def)
  next
    case 2
    then have "\<not> rs - cursor < ?P" "\<not> re - cursor < ?P" using lt by linarith+
    then have i: "byte_index_at_char (s @ t) (rs - cursor) = length s + byte_index_at_char t (rs - (cursor + ?P))"
      "byte_index_at_char (s @ t) (re - cursor) = length s + byte_index_at_char t (re - (cursor + ?P))"
      by (simp_all add: app)
    have "edit_marker rs re cursor m s = m" using 2 by (simp add: edit_marker_def)
    then show ?thesis using 2 lt i by (auto simp: cut_text_def)
  next
    case 3
    have em: "edit_marker rs re cursor m s" using 3 by (simp add: edit_marker_def)
    have rs: "byte_index_at_char (s @ t) (rs - cursor) = byte_index_at_char s (rs - cursor)"
    proof (cases "rs - cursor < ?P")
      case False
      with 3 have "?P = 0" "rs - cursor = 0" by linarith+
      with al char_count_zero[of s] show ?thesis by (simp add: byte_index_zero)
    qed (simp add: app)
    have le: "byte_index_at_char s (rs - cursor) \<le> length s" by (rule byte_index_le)
    have z: "byte_index_at_char t 0 = 0" by (rule byte_index_zero[OF al(2)])
    show ?thesis
    proof (cases "cursor + ?P < re")
      case True
      then have "\<not> re - cursor < ?P" "?P \<le> re - cursor" by linarith+
      then have i: "byte_index_at_char (s @ t) (re - cursor) = length s + byte_index_at_char t (re - (cursor + ?P))"
        "byte_index_at_char s (re - cursor) = length s"
        by (simp_all add: app byte_index_ge)
      have "rs - (cursor + ?P) = 0" using 3 by simp
      then show ?thesis using 3 True em rs i z le by (simp add: cut_text_def)
    next
      case False
      then have i: "byte_index_at_char (s @ t) (re - cursor) = byte_index_at_char s (re - cursor)"
        using z by (auto simp: app byte_index_ge)
      have "byte_index_at_char s (re - cursor) \<le> length s" by (rule byte_index_le)
      then show ?thesis using 3 False em rs i le by (simp add: cut_text_def)
    qed
  qed
qed

lemma edit_marker_append:
  "edit_marker rs re cursor m s \<Longrightarrow> edit_marker rs re cursor m (s @ t)"
  by (auto simp: edit_marker_def)

lemma edit_marker_progress:
  "rs < re \<Longrightarrow> m \<or> cursor \<le> rs \<Longrightarrow>
     edit_marker rs re cursor m s \<or> cursor + char_count s \<le> rs"
  by (auto simp: edit_marker_def)

lemma obj_set_lookup: "map_of (obj_set k v m) k' = (if k' = k \<and> map_of m k \<noteq> None then Some v else map_of m k')"
  by (induction m) auto

lemma text_block_Some:
  "text_block b = Inr (Some s) \<longleftrightarrow>
     (\<exists>m. b = JObject m \<and> get_str m ''type'' = Some ''text'' \<and> get_str m ''text'' = Some s)"
  by (cases b) (auto simp: text_block_def result_simps split: if_splits)

lemma text_block_replaced:
  assumes "text_block (JObject m) = Inr (Some s)"
  shows "map_of m ''text'' \<noteq> None" "text_block (JObject (obj_set ''text'' (JString t) m)) = Inr (Some t)"
  using assms by (auto simp: text_block_Some get_str_def obj_set_lookup split: bind_splits)

lemma block_texts_simps [simp]:
  "block_texts [] = []"
  "block_texts (b # bs) = (case text_block b of Inr (Some s) \<Rightarrow> s # block_texts bs | _ \<Rightarrow> block_texts bs)"
  by (auto simp: block_texts_def List.map_filter_simps split: sum.splits option.splits)

lemma plan_edits_spec:
  assumes "plan_edits rs re cursor m content = Inr (es, m')" "rs < re" "m \<or> cursor \<le> rs"
    "\<forall>s\<in>set (block_texts content). char_aligned s"
  shows "concat (block_texts (apply_edits content es)) = cut_text rs re cursor m (concat (block_texts content))"
  using assms
proof (induction content arbitrary: cursor m es)
  case Nil
  then show ?case by (auto simp: cut_text_def)
next
  case (Cons b bs)
  from Cons.prems(1) obtain t where t: "text_block b = Inr t" by (auto simp: result_simps)
  show ?case
  proof (cases t)
    case None
    with Cons t show ?thesis by (auto simp: result_simps)
  next
    case (Some s)
    note tb = t[unfolded Some]
    from Cons.prems(1) tb obtain e es' mk where
      e: "edit_text rs re cursor m s = Inr (e, mk)"
      and p: "plan_edits rs re (cursor + char_count s) mk bs = Inr (es', m')" and es: "es = e # es'"
      by (auto simp: result_simps checked_simps)
    have al: "char_aligned s" "\<forall>s\<in>set (block_texts bs). char_aligned s"
      using Cons.prems(4) tb by auto
    note e' = edit_text_spec[OF e al(1)]
    have "mk \<or> cursor + char_count s \<le> rs"
      using edit_marker_progress[OF Cons.prems(2,3)] by (simp add: e'(2))
    from Cons.IH[OF p Cons.prems(2) this al(2)] have
      IH: "concat (block_texts (apply_edits bs es')) = cut_text rs re (cursor + char_count s) mk (concat (block_texts bs))" .
    obtain fields where b: "b = JObject fields" using tb by (auto simp: text_block_Some)
    have "concat (block_texts (apply_edits (b # bs) (e # es'))) =
        edited_text e s @ concat (block_texts (apply_edits bs es'))"
    proof (cases e)
      case (EditReplace t')
      with tb b IH show ?thesis
        using text_block_replaced(1)[of fields s] text_block_replaced(2)[of fields s t'] by (auto simp: edited_text_def)
    qed (use tb IH in \<open>simp_all add: edited_text_def\<close>)
    then show ?thesis
      using cut_text_append[OF al(1) char_aligned_concat[OF al(2)] Cons.prems(2,3)] tb
      by (simp add: es IH e')
  qed
qed

section \<open>Block by block\<close>

text \<open>
  What pruning leaves of one text whose characters are numbered from \<open>at\<close>: those before the removed
  span \<open>[rs, re)\<close>, the marker where the span begins, and those after it.
\<close>

definition pruned_text :: "nat \<Rightarrow> nat \<Rightarrow> nat \<Rightarrow> string \<Rightarrow> string" where
  "pruned_text rs re at s =
     take (byte_index_at_char s (rs - at)) s
     @ (if at \<le> rs \<and> rs < at + char_count s then PRUNED_MIDDLE_MARKER else [])
     @ drop (byte_index_at_char s (re - at)) s"

text \<open>The same object but for its text: every other member has its value and every member its place.\<close>

definition only_text_changed :: "json \<Rightarrow> string \<Rightarrow> json \<Rightarrow> bool" where
  "only_text_changed b t b' =
     (\<exists>m m'. b = JObject m \<and> b' = JObject m' \<and> map fst m' = map fst m \<and> map_of m' = (map_of m)(''text'' \<mapsto> JString t))"

text \<open>
  The content before and after: a block that is not a text stays, at its place; a text block is
  there with its pruned text, or, when nothing is left of that, is gone.
\<close>

fun pruned_to :: "nat \<Rightarrow> nat \<Rightarrow> nat \<Rightarrow> json list \<Rightarrow> json list \<Rightarrow> bool" where
  "pruned_to rs re at [] out = (out = [])"
| "pruned_to rs re at (b # bs) out =
     (case text_block b of
        Inr (Some s) \<Rightarrow>
          if pruned_text rs re at s = [] then pruned_to rs re (at + char_count s) bs out
          else (\<exists>b' rest. out = b' # rest \<and> only_text_changed b (pruned_text rs re at s) b'
                  \<and> pruned_to rs re (at + char_count s) bs rest)
      | _ \<Rightarrow> (\<exists>rest. out = b # rest \<and> pruned_to rs re at bs rest))"

lemma cut_is_pruned:
  assumes "char_aligned s" "rs < re" "m \<longleftrightarrow> rs < cursor"
  shows "cut_text rs re cursor m s = pruned_text rs re cursor s"
proof -
  consider "re \<le> cursor" | "cursor + char_count s \<le> rs" | "cursor < re" "rs < cursor + char_count s" by linarith
  then show ?thesis
  proof cases
    case 2
    then have "char_count s \<le> rs - cursor" "char_count s \<le> re - cursor" using assms(2) by linarith+
    then show ?thesis using 2 by (simp add: cut_text_def pruned_text_def byte_index_ge)
  qed (use assms byte_index_zero[OF assms(1)] in \<open>auto simp: cut_text_def pruned_text_def\<close>)
qed

lemma edit_drops:
  assumes "edit_text rs re cursor m s = Inr (e, m')" "char_aligned s"
  shows "e = EditDrop \<longleftrightarrow> edited_text e s = []" "e = EditReplace t \<Longrightarrow> t = edited_text e s" "e = EditKeep \<Longrightarrow> edited_text e s = s"
  using assms by (auto simp: edit_text_def Let_def edited_text_def result_simps checked_simps bind_eq_Some_conv split: if_splits)

lemma as_str_Some: "as_str y = Some s \<Longrightarrow> (y = JString s \<Longrightarrow> P) \<Longrightarrow> P"
  by (cases y) auto

lemma only_text_kept:
  "text_block b = Inr (Some s) \<Longrightarrow> only_text_changed b s b"
  by (auto simp: text_block_Some only_text_changed_def get_str_def bind_eq_Some_conv elim!: as_str_Some
      intro: map_upd_triv[symmetric])

lemma only_text_set:
  assumes "map_of m ''text'' \<noteq> None"
  shows "only_text_changed (JObject m) t (JObject (obj_set ''text'' (JString t) m))"
proof -
  have "map fst (obj_set k v m) = map fst m" for k v by (induction m) auto
  moreover have "map_of (obj_set ''text'' (JString t) m) = (map_of m)(''text'' \<mapsto> JString t)"
    using assms by (simp add: fun_eq_iff obj_set_lookup)
  ultimately show ?thesis by (simp add: only_text_changed_def)
qed

lemma plan_edits_blocks:
  assumes "plan_edits rs re cursor m content = Inr (es, m')" "rs < re" "m \<longleftrightarrow> rs < cursor"
    "\<forall>s\<in>set (block_texts content). char_aligned s"
  shows "pruned_to rs re cursor content (apply_edits content es)"
  using assms
proof (induction content arbitrary: cursor m es)
  case (Cons b bs)
  from Cons.prems(1) obtain t where t: "text_block b = Inr t" by (auto simp: result_simps)
  show ?case
  proof (cases t)
    case None
    with Cons t show ?thesis by (auto simp: result_simps)
  next
    case (Some s)
    note tb = t[unfolded Some]
    from Cons.prems(1) tb obtain e es' mk where
      e: "edit_text rs re cursor m s = Inr (e, mk)"
      and p: "plan_edits rs re (cursor + char_count s) mk bs = Inr (es', m')" and es: "es = e # es'"
      by (auto simp: result_simps checked_simps)
    have al: "char_aligned s" "\<forall>s\<in>set (block_texts bs). char_aligned s" using Cons.prems(4) tb by auto
    have left: "edited_text e s = pruned_text rs re cursor s"
      using edit_text_spec(1)[OF e al(1)] cut_is_pruned[OF al(1) Cons.prems(2,3)] by simp
    have "mk \<longleftrightarrow> rs < cursor + char_count s"
      using edit_text_spec(2)[OF e al(1)] Cons.prems(2,3) by (auto simp: edit_marker_def)
    from Cons.IH[OF p Cons.prems(2) this al(2)] have
      IH: "pruned_to rs re (cursor + char_count s) bs (apply_edits bs es')" .
    obtain fields where b: "b = JObject fields" using tb by (auto simp: text_block_Some)
    note drops = edit_drops[OF e al(1)]
    show ?thesis
    proof (cases e)
      case EditDrop
      then show ?thesis using tb IH es left drops(1) by simp
    next
      case EditKeep
      then show ?thesis using tb IH es left drops(1,3) only_text_kept[OF tb] by simp
    next
      case (EditReplace t')
      have f: "map_of fields ''text'' \<noteq> None" using text_block_replaced(1) tb b by blast
      have "pruned_text rs re cursor s = t'" using left drops(2)[OF EditReplace] by simp
      moreover have "t' \<noteq> []" using drops(1,2) EditReplace by auto
      ultimately show ?thesis using tb IH es EditReplace b f only_text_set[OF f, of t'] by auto
    qed
  qed
qed simp

section \<open>The digest is untouched\<close>

lemma mask_key_obj_set: "mask_key k v (obj_set k w m) = mask_key k v m"
proof -
  have "map (\<lambda>(k', u). (k', if k' = k then v else u)) (obj_set k w m) = map (\<lambda>(k', u). (k', if k' = k then v else u)) m"
    by (induction m) auto
  then show ?thesis by (simp add: mask_key_def)
qed

lemma set_result_content_masked:
  assumes "set_result_content data content = Some data'"
  shows "masked_data data' = masked_data data" "raw_result_content data \<noteq> None \<Longrightarrow> raw_result_content data' = Some content"
proof -
  from assms obtain d m r rs where
    d: "data = JObject d" "map_of d ''message'' = Some (JObject m)" "map_of m ''content'' = Some (JArray (JObject r # rs))"
    and d': "data' = JObject (obj_set ''message''
                      (JObject (obj_set ''content''
                        (JArray (JObject (obj_set ''content'' (JArray content) r) # rs)) m)) d)"
    by (auto simp: set_result_content_def split: json.splits option.splits list.splits)
  show "masked_data data' = masked_data data"
    using d by (cases "map_of r ''content''") (auto simp: masked_data_def d' obj_set_lookup mask_key_obj_set)
  show "raw_result_content data' = Some content" if "raw_result_content data \<noteq> None"
    using d that by (auto simp: raw_result_content_def d' obj_set_lookup split: bind_splits)
qed

text \<open>
  C30: Pruning a long tool result cuts the middle out of its text and changes nothing else.  With
  well-formed texts, the text of the result is the first characters, the marker once, and the last
  characters of the whole text, however it was split into blocks.  Block by block: a block that is not a text
  stays as it is and where it is; a text block keeps every member but its text, which loses the
  characters in the removed span and gains the marker where the span begins; and a text block
  of which nothing is left, also one that was empty before, is dropped.  Everything outside the content of the
  result is equal, so the digest compared after pruning is the same; and the character count reported is
  the one the text now has.
\<close>

theorem prune_cuts_the_middle:
  assumes "prune_raw_tool_result_data data c = Inr (Some (data', out))"
    "raw_result_content data = Some content" "\<forall>s\<in>set (block_texts content). char_aligned s"
  shows "\<exists>content'. raw_result_content data' = Some content'
    \<and> (let full = concat (block_texts content);
           head = take (byte_index_at_char full (pc_head c)) full;
           tail = drop (byte_index_at_char full (char_count full - pc_tail c)) full
       in concat (block_texts content') = head @ PRUNED_MIDDLE_MARKER @ tail
          \<and> po_original out = char_count full
          \<and> pc_head c + char_count PRUNED_MIDDLE_MARKER + pc_tail c = po_pruned out
          \<and> po_pruned out \<le> pc_threshold c \<and> pc_threshold c < po_original out)
    \<and> pruned_to (pc_head c) (po_original out - pc_tail c) 0 content content'
    \<and> masked_data data' = masked_data data \<and> masked_data_sha256 E data' = masked_data_sha256 E data"
proof -
  have count: "try_fold (\<lambda>n block.
       bindR (text_block block) (\<lambda>t.
         case t of None \<Rightarrow> Inr n | Some s \<Rightarrow> ok_or PruneCapacity (checked_add_u64 n (char_count s)))) k bs = Inr n
     \<Longrightarrow> n = k + char_count (concat (block_texts bs))" for k bs n
  proof (induction bs arbitrary: k)
    case (Cons b bs)
    then obtain t where "text_block b = Inr t" by (auto simp: result_simps)
    with Cons show ?case by (cases t) (fastforce simp: result_simps checked_simps)+
  qed simp
  let ?full = "concat (block_texts content)"
  from assms(1,2) obtain es where
    n: "count_points content = Inr (po_original out)" and t: "pc_threshold c < po_original out"
    and p: "plan_edits (pc_head c) (po_original out - pc_tail c) 0 False content = Inr (es, True)"
    and d': "set_result_content data (apply_edits content es) = Some data'"
    and pr: "retained_points (pc_head c) (pc_tail c) = Some (po_pruned out)" "po_pruned out \<le> pc_threshold c"
    by (auto simp: prune_raw_tool_result_data_def prune_config_new_def result_simps checked_simps split: if_splits)
  have orig: "po_original out = char_count ?full" using count n by (fastforce simp: count_points_def)
  have kept: "pc_head c + char_count PRUNED_MIDDLE_MARKER + pc_tail c = po_pruned out"
    using pr(1) by (auto simp: retained_points_def checked_simps split: bind_splits)
  have lt: "pc_head c < po_original out - pc_tail c"
    using kept pr(2) t by simp
  from plan_edits_spec[OF p lt _ assms(3)] have
    spec: "concat (block_texts (apply_edits content es)) = cut_text (pc_head c) (po_original out - pc_tail c) 0 False ?full" by auto
  have blocks: "pruned_to (pc_head c) (po_original out - pc_tail c) 0 content (apply_edits content es)"
    by (rule plan_edits_blocks[OF p lt _ assms(3)]) simp
  have "raw_result_content data' = Some (apply_edits content es)"
    using set_result_content_masked(2)[OF d'] assms(2) by simp
  moreover have "masked_data data' = masked_data data" by (rule set_result_content_masked(1)[OF d'])
  ultimately show ?thesis
    using spec blocks masked_data_sha256_def lt kept pr(2) t orig by (auto simp: Let_def cut_text_def)
qed

definition example_long_text :: string where
  "example_long_text = replicate 60 (CHR ''a'')"

definition example_result_data :: "string \<Rightarrow> json" where
  "example_result_data text =
     JObject [(''message'', JObject [(''content'', JArray [JObject [(''content'',
       JArray [JObject [(''text'', JString text), (''type'', JString ''text'')]])]])])]"

lemma char_count_replicate: "char_count (replicate n (CHR ''a'')) = n"
  by (induction n) (simp_all add: is_continuation_def)

lemma byte_index_replicate: "k \<le> n \<Longrightarrow> byte_index_at_char (replicate n (CHR ''a'')) k = k"
proof (induction n arbitrary: k)
  case (Suc n)
  then show ?case by (cases k) (simp_all add: is_continuation_def)
qed simp

lemma example_pruned:
  "prune_raw_tool_result_data (example_result_data example_long_text) \<lparr>pc_threshold = 50, pc_head = 2, pc_tail = 3\<rparr>
     = Inr (Some (example_result_data (''aa'' @ PRUNED_MIDDLE_MARKER @ ''aaa''),
         \<lparr>po_original = 60, po_pruned = char_count PRUNED_MIDDLE_MARKER + 5\<rparr>))"
proof -
  have m: "char_count PRUNED_MIDDLE_MARKER = 39" "length PRUNED_MIDDLE_MARKER = 39"
    by (simp_all add: PRUNED_MIDDLE_MARKER_def is_continuation_def)
  have r: "replicate 3 (CHR ''a'') = ''aaa''" "replicate 2 (CHR ''a'') = ''aa''" by (simp_all add: eval_nat_numeral)
  show ?thesis
    by (simp add: prune_raw_tool_result_data_def prune_config_new_def retained_points_def m checked_add_u64_def
        U64_LIMIT_def raw_result_content_def example_result_data_def count_points_def text_block_def get_str_def
        checked_sub_u64_def edit_text_def Let_def example_long_text_def char_count_replicate
        byte_index_replicate set_result_content_def r)
qed

theorem prune_cuts_the_middle_witness:
  "\<exists>content'. raw_result_content (example_result_data (''aa'' @ PRUNED_MIDDLE_MARKER @ ''aaa'')) = Some content'
     \<and> concat (block_texts content') = ''aa'' @ PRUNED_MIDDLE_MARKER @ ''aaa''"
proof -
  let ?b = "JObject [(''text'', JString example_long_text), (''type'', JString ''text'')]"
  have t: "block_texts [?b] = [example_long_text]" by (simp add: text_block_def get_str_def)
  have c: "raw_result_content (example_result_data example_long_text) = Some [?b]"
    by (simp add: raw_result_content_def example_result_data_def)
  have al: "\<forall>s\<in>set (block_texts [?b]). char_aligned s"
    unfolding t by (simp add: example_long_text_def char_aligned_def is_continuation_def eval_nat_numeral)
  have r: "replicate 3 (CHR ''a'') = ''aaa''" "replicate 2 (CHR ''a'') = ''aa''" by (simp_all add: eval_nat_numeral)
  from prune_cuts_the_middle[OF example_pruned c al] show ?thesis
    unfolding t by (auto simp: Let_def example_long_text_def char_count_replicate byte_index_replicate r)
qed

end
