(* ===== verification/Projection_State.thy ===== *)
theory Projection_State
  imports Attempt Tool_Result_Pruner
begin

text \<open>
  The state of the session projection, \<open>src/session/projection.rs\<close>, and the questions asked of
  it that change nothing.  Ordered maps and sets are association lists and lists; shared pointers
  are the values they point to.
\<close>

section \<open>Policies\<close>

definition MAX_DURABLE_TOOL_CALLS_PER_STEP :: nat where
  "MAX_DURABLE_TOOL_CALLS_PER_STEP = 64"

datatype validation_policy = MemoryCompatible | DurableStrict

datatype admission =
    Ordinary | CompatibilityReplay | ColdScan | OwnedAttempt | OwnedPrune | OwnedOverflowPrune
  | HistoricalScan

definition is_unprivileged_durable :: "admission \<Rightarrow> bool" where
  "is_unprivileged_durable a = (a = Ordinary \<or> a = ColdScan)"

section \<open>Calls and boundaries\<close>

datatype durable_approval = ApprovalPending string | ApprovalDone string approval_outcome

record durable_call =
  dc_id :: string
  dc_name :: string
  dc_declaration :: message
  dc_block_index :: nat
  dc_intent_seq :: "nat option"
  dc_approval :: "durable_approval option"
  dc_result_seen :: bool

definition dc_arguments :: "durable_call \<Rightarrow> string option" where
  "dc_arguments c =
     (if dc_block_index c < length (msg_content (dc_declaration c)) then
        case cb_kind (msg_content (dc_declaration c) ! dc_block_index c) of
          ToolCallBlock _ _ arguments \<Rightarrow> Some arguments
        | _ \<Rightarrow> None
      else None)"

record open_step_state =
  os_turn :: nat
  os_step :: nat
  os_start_tokens :: nat
  os_pending :: "string list"
  os_declared :: "durable_call list"

datatype boundary_state = Idle | InTurn nat nat | InStep open_step_state

section \<open>The surface\<close>

record row_locator =
  row_seq :: nat
  row_offset :: nat
  row_length :: nat
  row_digest :: string

datatype tool_result_origin =
    OriginMemory string
  | OriginPending string
  | OriginDurable string row_locator

datatype row_binding = BindMemory | BindPending | BindDurable row_locator

datatype surface_node_kind = UserNode | AssistantNode | ToolResultNode

record surface_node =
  sn_seq :: nat
  sn_kind :: surface_node_kind
  sn_message :: "message option"
  sn_tokens :: nat
  sn_tool_delta :: int
  sn_tool_result :: "tool_result_origin option"

definition surface_price_facts :: "surface_node \<Rightarrow> price_facts" where
  "surface_price_facts n = \<lparr>pf_tokens = sn_tokens n, pf_tool_delta = sn_tool_delta n\<rparr>"

definition context_budget_surface_error :: "context_budget_error \<Rightarrow> surface_error" where
  "context_budget_surface_error e =
     (case e of TokenOverflow \<Rightarrow> TokenAccountingOverflow | UnbalancedTools \<Rightarrow> UnbalancedToolSurface)"

abbreviation lift_budget :: "context_budget_error + 'a \<Rightarrow> surface_error + 'a" where
  "lift_budget \<equiv> map_err context_budget_surface_error"

section \<open>Compaction\<close>

record compaction_recipe =
  re_trigger :: compaction_trigger
  re_range :: compaction_range
  re_shadowed_seqs :: "nat list"
  re_shadowed_token_count :: nat
  re_provider :: string
  re_model :: string
  re_max_tokens :: "nat option"

datatype compaction_phase =
    Started
  | Summarized nat compaction_range "nat list" "json_value list" nat
  | Replaced nat nat

record open_compaction =
  oc_id :: string
  oc_source_command_id :: "string option"
  oc_owner :: "nat option"
  oc_start_seq :: nat
  oc_recipe :: "compaction_recipe option"
  oc_phase :: compaction_phase

record compaction_state =
  co_surface_generation :: nat
  co_replacement_generation :: nat
  co_open :: "open_compaction option"
  co_prune_claim :: "nat option"
  co_orphan_prune_count :: nat

definition compaction_default :: compaction_state where
  "compaction_default = \<lparr>co_surface_generation = 0, co_replacement_generation = 0, co_open = None,
     co_prune_claim = None, co_orphan_prune_count = 0\<rparr>"

section \<open>Retries and the token anchor\<close>

record retry_chain_key =
  rk_turn :: nat
  rk_step :: nat
  rk_provider :: string
  rk_policy_key :: string

record retry_chain_state =
  rs_retry_id :: string
  rs_latest :: nat

record retry_schedule_state =
  sh_turn :: nat
  sh_step :: nat
  sh_started :: bool

datatype token_baseline = BaselineEstimated nat | BaselineUsage nat token_usage

record token_anchor =
  ta_header :: "epoch_header option"
  ta_surface_tokens :: nat
  ta_baseline :: token_baseline

section \<open>The projection\<close>

record projection =
  pj_policy :: validation_policy
  pj_session_id :: "string option"
  pj_next_turn :: nat
  pj_boundary :: boundary_state
  pj_surface :: "surface_node list"
  pj_surface_tokens :: nat
  pj_resident_bytes :: nat
  pj_header :: "epoch_header option"
  pj_header_seq :: "nat option"
  pj_context :: "request_context option"
  pj_context_seq :: "nat option"
  pj_compaction :: compaction_state
  pj_pending_approvals :: "string list"
  pj_owned_approvals :: "string list"
  pj_retry_chains :: "(retry_chain_key \<times> retry_chain_state) list"
  pj_retry_schedules :: "((string \<times> nat) \<times> retry_schedule_state) list"
  pj_attempt :: attempt_projection
  pj_token_anchor :: "token_anchor option"

definition projection_empty :: "validation_policy \<Rightarrow> projection" where
  "projection_empty policy =
     \<lparr>pj_policy = policy, pj_session_id = None, pj_next_turn = first_id, pj_boundary = Idle,
      pj_surface = [], pj_surface_tokens = 0, pj_resident_bytes = 0, pj_header = None,
      pj_header_seq = None, pj_context = None, pj_context_seq = None,
      pj_compaction = compaction_default, pj_pending_approvals = [], pj_owned_approvals = [],
      pj_retry_chains = [], pj_retry_schedules = [], pj_attempt = attempt_default,
      pj_token_anchor = None\<rparr>"

definition for_session :: "validation_policy \<Rightarrow> string \<Rightarrow> projection" where
  "for_session policy session_id = (projection_empty policy)\<lparr>pj_session_id := Some session_id\<rparr>"

definition open_turn :: "projection \<Rightarrow> nat option" where
  "open_turn p =
     (case pj_boundary p of Idle \<Rightarrow> None | InTurn turn _ \<Rightarrow> Some turn | InStep s \<Rightarrow> Some (os_turn s))"

definition open_step :: "projection \<Rightarrow> nat option" where
  "open_step p = (case pj_boundary p of InStep s \<Rightarrow> Some (os_step s) | _ \<Rightarrow> None)"

definition wrong_open_step :: "projection \<Rightarrow> string \<Rightarrow> nat \<Rightarrow> nat \<Rightarrow> transition_error" where
  "wrong_open_step p event turn step = WrongOpenStep event (open_turn p) (open_step p) turn step"

definition require_open_step :: "projection \<Rightarrow> string \<Rightarrow> nat \<Rightarrow> nat \<Rightarrow> transition_error + unit" where
  "require_open_step p event turn step =
     (if open_turn p \<noteq> Some turn \<or> open_step p \<noteq> Some step
      then Inl (wrong_open_step p event turn step) else Inr ())"

definition messages :: "projection \<Rightarrow> message list" where
  "messages p = List.map_filter sn_message (pj_surface p)"

definition messages_with :: "projection \<Rightarrow> message list \<Rightarrow> message list" where
  "messages_with p pending = messages p @ pending"

definition messages_equal :: "projection \<Rightarrow> message list \<Rightarrow> bool" where
  "messages_equal p expected = list_all2 message_eq (messages p) expected"

record session_state =
  ss_open_turn :: "nat option"
  ss_open_step :: "nat option"
  ss_next_turn :: nat
  ss_pending_calls :: "string list"
  ss_pending_approvals :: "string list"
  ss_surface_nodes :: "nat list"
  ss_request_header :: "epoch_header option"
  ss_request_context :: "request_context option"

definition state_of :: "projection \<Rightarrow> session_state" where
  "state_of p =
     \<lparr>ss_open_turn = open_turn p, ss_open_step = open_step p, ss_next_turn = pj_next_turn p,
      ss_pending_calls = (case pj_boundary p of InStep s \<Rightarrow> os_pending s | _ \<Rightarrow> []),
      ss_pending_approvals = pj_pending_approvals p, ss_surface_nodes = map sn_seq (pj_surface p),
      ss_request_header = pj_header p, ss_request_context = pj_context p\<rparr>"

definition has_pending_durable_call :: "projection \<Rightarrow> bool" where
  "has_pending_durable_call p =
     (case pj_boundary p of
        InStep s \<Rightarrow> os_pending s \<noteq> [] \<or> (\<exists>c\<in>set (os_declared s). \<not> dc_result_seen c)
      | _ \<Rightarrow> False)"

definition surface_range_indices :: "projection \<Rightarrow> compaction_range \<Rightarrow> nat list \<Rightarrow> (nat \<times> nat) option" where
  "surface_range_indices p rng expected =
     Option.bind (position (\<lambda>n. sn_seq n = cr_start rng) (pj_surface p)) (\<lambda>start.
     Option.bind (position (\<lambda>n. sn_seq n = cr_end rng) (pj_surface p)) (\<lambda>end_i.
       if start \<le> end_i \<and> map sn_seq (drop start (take (Suc end_i) (pj_surface p))) = expected
       then Some (start, end_i) else None))"

definition surface_range_matches :: "projection \<Rightarrow> compaction_range \<Rightarrow> nat list \<Rightarrow> bool" where
  "surface_range_matches p rng expected = (surface_range_indices p rng expected \<noteq> None)"

definition header_tokens :: "externals \<Rightarrow> epoch_header option \<Rightarrow> surface_error + nat" where
  "header_tokens E h =
     lift_budget (case h of
       None \<Rightarrow> Inr 0
     | Some h \<Rightarrow> estimate_request_header E (eh_system h)
         (case eh_tools h of None \<Rightarrow> [] | Some ts \<Rightarrow> ts))"

definition context_total_tokens :: "externals \<Rightarrow> projection \<Rightarrow> surface_error + nat" where
  "context_total_tokens E p =
     (let whole = bindR (header_tokens E (pj_header p)) (\<lambda>h.
            ok_or TokenAccountingOverflow (checked_add_u64 h (pj_surface_tokens p)))
      in case pj_token_anchor p of
           None \<Rightarrow> whole
         | Some a \<Rightarrow>
             (let matching = (case (ta_header a, pj_header p) of
                    (None, None) \<Rightarrow> True
                  | (Some x, Some y) \<Rightarrow> header_equivalent_to x y
                  | _ \<Rightarrow> False)
              in if \<not> matching then whole
                 else
                   let baseline = (case ta_baseline a of
                         BaselineEstimated n \<Rightarrow> n | BaselineUsage n _ \<Rightarrow> n)
                   in if pj_surface_tokens p \<ge> ta_surface_tokens a
                      then ok_or TokenAccountingOverflow
                             (checked_add_u64 baseline (pj_surface_tokens p - ta_surface_tokens a))
                      else Inr (baseline - (ta_surface_tokens a - pj_surface_tokens p))))"

record compaction_candidate =
  cand_generation :: nat
  cand_range :: compaction_range
  cand_shadowed_seqs :: "nat list"
  cand_token_count :: nat
  cand_messages :: "message list"
  cand_header_seq :: "nat option"
  cand_context_seq :: "nat option"

definition compaction_candidate_of :: "projection \<Rightarrow> nat \<Rightarrow> surface_error + compaction_candidate option" where
  "compaction_candidate_of p retain_tokens =
     bindR (lift_budget (select_compactable_prefix (pj_surface p) retain_tokens
              (MAX_SOURCE_EVENT_SEQS - 2) surface_price_facts)) (\<lambda>selected.
       case selected of
         None \<Rightarrow> Inr None
       | Some s \<Rightarrow>
           (let shadowed = take (px_end_exclusive s) (pj_surface p) in
            if shadowed = [] then Inr None
            else Inr (Some
              \<lparr>cand_generation = co_surface_generation (pj_compaction p),
               cand_range = \<lparr>cr_start = sn_seq (hd shadowed), cr_end = sn_seq (last shadowed)\<rparr>,
               cand_shadowed_seqs = map sn_seq shadowed, cand_token_count = px_shadowed_token_count s,
               cand_messages = List.map_filter sn_message shadowed,
               cand_header_seq = pj_header_seq p, cand_context_seq = pj_context_seq p\<rparr>)))"

text \<open>The calls of the surface that no result on it answers; the counts are per identifier.\<close>

definition call_ids :: "message \<Rightarrow> string list" where
  "call_ids m = List.map_filter (\<lambda>b. case cb_kind b of ToolCallBlock i _ _ \<Rightarrow> Some i | _ \<Rightarrow> None) (msg_content m)"

fun unresolved_scan :: "surface_node list \<Rightarrow> (string \<Rightarrow> nat) \<Rightarrow> string list \<Rightarrow> bool" where
  "unresolved_scan [] counts keys = (\<exists>k\<in>set keys. counts k \<noteq> 0)"
| "unresolved_scan (n # ns) counts keys =
     (case sn_message n of
        None \<Rightarrow> unresolved_scan ns counts keys
      | Some m \<Rightarrow>
          (case sn_kind n of
             AssistantNode \<Rightarrow>
               unresolved_scan ns (\<lambda>k. counts k + count_list (call_ids m) k) (call_ids m @ keys)
           | ToolResultNode \<Rightarrow>
               (case validate_tool_result m of
                  Inl _ \<Rightarrow> True
                | Inr i \<Rightarrow> unresolved_scan ns (counts(i := counts i - 1)) keys)
           | UserNode \<Rightarrow> unresolved_scan ns counts keys))"

definition has_unresolved_surface_tool_calls :: "projection \<Rightarrow> bool" where
  "has_unresolved_surface_tool_calls p = unresolved_scan (pj_surface p) (\<lambda>_. 0) []"

record tool_result_snapshot =
  ts_seq :: nat
  ts_message :: message
  ts_estimated_tokens :: nat
  ts_row :: row_locator
  ts_masked :: string

definition durable_tool_result_snapshot :: "projection \<Rightarrow> nat \<Rightarrow> tool_result_snapshot option" where
  "durable_tool_result_snapshot p seq =
     Option.bind (find (\<lambda>n. sn_seq n = seq) (pj_surface p)) (\<lambda>n.
       case sn_tool_result n of
         Some (OriginDurable masked row) \<Rightarrow>
           map_option (\<lambda>m. \<lparr>ts_seq = seq, ts_message = m, ts_estimated_tokens = sn_tokens n,
             ts_row = row, ts_masked = masked\<rparr>) (sn_message n)
       | _ \<Rightarrow> None)"

definition is_durable_result :: "surface_node \<Rightarrow> bool" where
  "is_durable_result n = (case sn_tool_result n of Some (OriginDurable _ _) \<Rightarrow> True | _ \<Rightarrow> False)"

definition durable_tool_result_seqs :: "projection \<Rightarrow> nat list" where
  "durable_tool_result_seqs p = map sn_seq (filter is_durable_result (pj_surface p))"

section \<open>What recovery sees\<close>

datatype recovery_approval = RecNone | RecPending string | RecDecided string approval_outcome

record recovery_call =
  rc_id :: string
  rc_name :: string
  rc_intent_seq :: "nat option"
  rc_approval :: recovery_approval
  rc_result_seen :: bool

record recovery_snapshot =
  sp_turn :: "nat option"
  sp_step :: "nat option"
  sp_calls :: "recovery_call list"
  sp_attempt :: "recovery_proof option"

definition recovery_call_of :: "durable_call \<Rightarrow> recovery_call" where
  "recovery_call_of c =
     \<lparr>rc_id = dc_id c, rc_name = dc_name c, rc_intent_seq = dc_intent_seq c,
      rc_approval = (case dc_approval c of
          None \<Rightarrow> RecNone
        | Some (ApprovalPending i) \<Rightarrow> RecPending i
        | Some (ApprovalDone i out) \<Rightarrow> RecDecided i out),
      rc_result_seen = dc_result_seen c\<rparr>"

definition recovery_snapshot_of :: "externals \<Rightarrow> projection \<Rightarrow> recovery_snapshot" where
  "recovery_snapshot_of E p =
     \<lparr>sp_turn = open_turn p, sp_step = open_step p,
      sp_calls = (case pj_boundary p of InStep s \<Rightarrow> map recovery_call_of (os_declared s) | _ \<Rightarrow> []),
      sp_attempt = recovery_proof_of E (pj_attempt p)\<rparr>"

datatype recovery_compaction_stage = StageStarted | StageSummarized | StageReplaced

definition interrupted_compaction_stage :: "projection \<Rightarrow> recovery_compaction_stage option" where
  "interrupted_compaction_stage p =
     map_option (\<lambda>c. case oc_phase c of
         Started \<Rightarrow> StageStarted | Summarized _ _ _ _ _ \<Rightarrow> StageSummarized | Replaced _ _ \<Rightarrow> StageReplaced)
       (co_open (pj_compaction p))"

definition orphan_prune_markers :: "projection \<Rightarrow> nat" where
  "orphan_prune_markers p =
     saturating_add_u64 (co_orphan_prune_count (pj_compaction p))
       (if co_prune_claim (pj_compaction p) \<noteq> None then 1 else 0)"

definition compaction_recovery_is_consistent :: "projection \<Rightarrow> bool" where
  "compaction_recovery_is_consistent p =
     (co_open (pj_compaction p) = None
      \<or> (pj_pending_approvals p = [] \<and> \<not> has_pending_durable_call p))"

end
