(* ===== verification/Projection_Calls.thy ===== *)
theory Projection_Calls
  imports Projection_State
begin

text \<open>
  Durable tool calls, their approvals and results, and the retry chains of
  \<open>src/session/projection.rs\<close>.  Each method that mutates \<open>self\<close> returns the new projection.
\<close>

section \<open>Tool calls\<close>

definition RECOVERY_TOOL_RESULT_ID_PREFIX :: string where
  "RECOVERY_TOOL_RESULT_ID_PREFIX = ''dsh-recovery-tool-result-v1-''"

definition TOOL_NOT_STARTED :: string where
  "TOOL_NOT_STARTED = ''TOOL_NOT_STARTED''"

definition validate_durable_call_identity :: "string \<Rightarrow> string \<Rightarrow> transition_error + unit" where
  "validate_durable_call_identity i name =
     (if i = [] \<or> length i > 1024 \<or> has_control i \<or> name = [] \<or> length name > 256 \<or> has_control name
      then Inl (InvalidDurableToolCallIdentity i) else Inr ())"

fun register_blocks ::
  "message \<Rightarrow> nat \<Rightarrow> content_block list \<Rightarrow> durable_call list \<Rightarrow> transition_error + durable_call list" where
  "register_blocks m index [] declared = Inr declared"
| "register_blocks m index (b # bs) declared =
     (case cb_kind b of
        ToolCallBlock i name _ \<Rightarrow>
          bindR (validate_durable_call_identity i name) (\<lambda>_.
            if length declared \<ge> MAX_DURABLE_TOOL_CALLS_PER_STEP
            then Inl (TooManyDurableToolCalls MAX_DURABLE_TOOL_CALLS_PER_STEP)
            else if \<exists>c\<in>set declared. dc_id c = i then Inl (DuplicateDurableToolCall i)
            else register_blocks m (Suc index) bs (declared @
              [\<lparr>dc_id = i, dc_name = name, dc_declaration = m, dc_block_index = index,
                dc_intent_seq = None, dc_approval = None, dc_result_seen = False\<rparr>]))
      | _ \<Rightarrow> register_blocks m (Suc index) bs declared)"

definition set_declared :: "projection \<Rightarrow> open_step_state \<Rightarrow> durable_call list \<Rightarrow> projection" where
  "set_declared p s declared = p\<lparr>pj_boundary := InStep (s\<lparr>os_declared := declared\<rparr>)\<rparr>"

definition register_durable_declarations :: "projection \<Rightarrow> message \<Rightarrow> transition_error + projection" where
  "register_durable_declarations p m =
     (if pj_policy p \<noteq> DurableStrict then Inr p
      else case pj_boundary p of
        InStep s \<Rightarrow>
          bindR (register_blocks m 0 (msg_content m) (os_declared s)) (\<lambda>d. Inr (set_declared p s d))
      | _ \<Rightarrow> Inr p)"

text \<open>The first declared call with neither an intent nor a result is the next one to run.\<close>

definition is_next_call :: "durable_call \<Rightarrow> bool" where
  "is_next_call c = (dc_intent_seq c = None \<and> \<not> dc_result_seen c)"

definition promote_durable_call ::
  "projection \<Rightarrow> nat \<Rightarrow> string \<Rightarrow> string \<Rightarrow> string \<Rightarrow> transition_error + projection" where
  "promote_durable_call p seq call_id name arguments =
     (if pj_policy p \<noteq> DurableStrict then Inr p
      else bindR (validate_durable_call_identity call_id name) (\<lambda>_.
        case pj_boundary p of
          InStep s \<Rightarrow>
            (case find is_next_call (os_declared s) of
               None \<Rightarrow> Inl (DurableToolCallWithoutDeclaration call_id)
             | Some c \<Rightarrow>
                 if dc_id c \<noteq> call_id \<or> dc_name c \<noteq> name \<or> dc_arguments c \<noteq> Some arguments
                 then Inl (DurableToolCallMismatch (dc_id c) call_id)
                 else Inr (set_declared p s
                   (update_first is_next_call (\<lambda>c. c\<lparr>dc_intent_seq := Some seq\<rparr>) (os_declared s))))
        | _ \<Rightarrow> Inr p))"

section \<open>Approvals\<close>

definition is_running_call :: "string \<Rightarrow> durable_call \<Rightarrow> bool" where
  "is_running_call i c = (dc_id c = i \<and> dc_intent_seq c \<noteq> None \<and> \<not> dc_result_seen c)"

definition ask_durable_approval :: "projection \<Rightarrow> approval_asked_event \<Rightarrow> transition_error + projection" where
  "ask_durable_approval p asked =
     (if pj_policy p \<noteq> DurableStrict then Inr p
      else case pj_pending_approvals p of
        pending # _ \<Rightarrow> Inl (MultipleDurableApprovals pending)
      | [] \<Rightarrow>
          (case aa_call_id asked of
             None \<Rightarrow> Inl DurableApprovalWithoutCall
           | Some call_id \<Rightarrow>
               (case pj_boundary p of
                  InStep s \<Rightarrow>
                    (case find (is_running_call call_id) (os_declared s) of
                       None \<Rightarrow> Inl (DurableApprovalCallMismatch call_id)
                     | Some c \<Rightarrow>
                         if dc_name c \<noteq> aa_tool_name asked
                         then Inl (DurableApprovalToolMismatch (dc_name c) (aa_tool_name asked))
                         else if dc_approval c \<noteq> None then Inl (DurableApprovalRepeated call_id)
                         else Inr (set_declared p s
                           (update_first (is_running_call call_id)
                             (\<lambda>c. c\<lparr>dc_approval := Some (ApprovalPending (aa_id asked))\<rparr>) (os_declared s))))
                | _ \<Rightarrow> Inl (DurableApprovalCallMismatch call_id))))"

definition awaits_decision :: "string \<Rightarrow> durable_call \<Rightarrow> bool" where
  "awaits_decision i c = (dc_approval c = Some (ApprovalPending i))"

definition decide_durable_approval :: "projection \<Rightarrow> approval_decided_event \<Rightarrow> transition_error + projection" where
  "decide_durable_approval p decided =
     (if pj_policy p \<noteq> DurableStrict then Inr p
      else case pj_boundary p of
        InStep s \<Rightarrow>
          (case find (awaits_decision (ap_id decided)) (os_declared s) of
             None \<Rightarrow> Inl (DurableApprovalDecisionMismatch (ap_id decided))
           | Some _ \<Rightarrow> Inr (set_declared p s
               (update_first (awaits_decision (ap_id decided))
                 (\<lambda>c. c\<lparr>dc_approval := Some (ApprovalDone (ap_id decided) (ap_outcome decided))\<rparr>)
                 (os_declared s))))
      | _ \<Rightarrow> Inl (DurableApprovalDecisionMismatch (ap_id decided)))"

section \<open>Results\<close>

definition canonical_not_started :: "session_event \<Rightarrow> message \<Rightarrow> tool_failure option \<Rightarrow> bool" where
  "canonical_not_started event m failure =
     (ev_source_event_seqs event = None \<and> tool_result_is_error m
      \<and> (case failure of None \<Rightarrow> False | Some f \<Rightarrow> tf_code f = TOOL_NOT_STARTED))"

definition expected_failure :: "approval_outcome \<Rightarrow> string option" where
  "expected_failure out =
     (case out of
        AllowedOnce \<Rightarrow> None
      | ApprovalRejected \<Rightarrow> Some ''APPROVAL_REJECTED''
      | Cancelled \<Rightarrow> Some ''APPROVAL_CANCELLED''
      | Unavailable \<Rightarrow> Some ''APPROVAL_UNAVAILABLE'')"

definition require_approved_result ::
  "durable_call \<Rightarrow> string \<Rightarrow> message \<Rightarrow> tool_failure option \<Rightarrow> transition_error + unit" where
  "require_approved_result c call_id m failure =
     (case dc_approval c of
        Some (ApprovalDone i out) \<Rightarrow>
          (case expected_failure out of
             None \<Rightarrow> Inr ()
           | Some expected \<Rightarrow>
               if \<not> tool_result_is_error m
                  \<or> (case failure of None \<Rightarrow> True | Some f \<Rightarrow> tf_code f \<noteq> expected)
               then Inl (DurableApprovalResultMismatch i call_id) else Inr ())
      | _ \<Rightarrow> Inr ())"

definition require_result_intent ::
  "durable_call \<Rightarrow> string \<Rightarrow> session_event \<Rightarrow> message \<Rightarrow> tool_failure option \<Rightarrow> admission
     \<Rightarrow> transition_error + unit" where
  "require_result_intent c call_id event m failure adm =
     (case dc_intent_seq c of
        Some intent \<Rightarrow>
          if ev_source_event_seqs event \<noteq> Some [intent] then Inl (DurableToolResultWrongSource call_id)
          else Inr ()
      | None \<Rightarrow>
          if is_unprivileged_durable adm \<and> canonical_not_started event m failure
          then Inl (DurableRecoveryEventNotAllowed ''tool/result'')
          else if \<not> canonical_not_started event m failure
          then Inl (DurableToolResultWithoutIntent call_id)
          else Inr ())"

definition resolve_durable_call ::
  "projection \<Rightarrow> session_event \<Rightarrow> message \<Rightarrow> tool_failure option \<Rightarrow> admission
     \<Rightarrow> transition_error + projection" where
  "resolve_durable_call p event m failure adm =
     (if pj_policy p \<noteq> DurableStrict then Inr p
      else bindR (map_err (\<lambda>_. DurableToolResultMismatch ''invalid'') (validate_tool_result m)) (\<lambda>call_id.
        case pj_boundary p of
          InStep s \<Rightarrow>
            (case find (\<lambda>c. dc_id c = call_id) (os_declared s) of
               None \<Rightarrow> Inl (DurableToolResultMismatch call_id)
             | Some c \<Rightarrow>
                 if dc_result_seen c then Inl (DuplicateDurableToolResult call_id)
                 else if (case dc_approval c of Some (ApprovalPending _) \<Rightarrow> True | _ \<Rightarrow> False)
                 then Inl (DurableToolResultBeforeDecision call_id)
                 else
                   bindR (require_result_intent c call_id event m failure adm) (\<lambda>_.
                   bindR (require_approved_result c call_id m failure) (\<lambda>_.
                     Inr (set_declared p s
                       (update_first (\<lambda>c. dc_id c = call_id) (\<lambda>c. c\<lparr>dc_result_seen := True\<rparr>)
                         (os_declared s))))))
        | _ \<Rightarrow> Inl (DurableToolResultMismatch call_id)))"

section \<open>Retries\<close>

definition map_insert :: "'k \<Rightarrow> 'v \<Rightarrow> ('k \<times> 'v) list \<Rightarrow> ('k \<times> 'v) list" where
  "map_insert k v m = (k, v) # filter (\<lambda>(k', _). k' \<noteq> k) m"

lemma map_of_map_insert [simp]: "map_of (map_insert k v m) = (map_of m)(k \<mapsto> v)"
proof
  have "map_of (filter (\<lambda>(k', _). k' \<noteq> k) m) i = (if i = k then None else map_of m i)" for i
    by (induction m) auto
  then show "map_of (map_insert k v m) i = ((map_of m)(k \<mapsto> v)) i" for i
    by (simp add: map_insert_def)
qed

definition apply_retry :: "projection \<Rightarrow> llm_retry_event \<Rightarrow> transition_error + projection" where
  "apply_retry p r =
     bindR (require_open_step p ''llm/retry'' (lr_turn r) (lr_step r)) (\<lambda>_.
       let expected_provider = (case pj_header p of None \<Rightarrow> [] | Some h \<Rightarrow> cc_provider (eh_config h)) in
       if lr_provider r \<noteq> expected_provider
       then Inl (RetryProviderMismatch expected_provider (lr_provider r))
       else
         let key = \<lparr>rk_turn = lr_turn r, rk_step = lr_step r, rk_provider = lr_provider r,
                    rk_policy_key = lr_policy_key r\<rparr>;
             prior = map_of (pj_retry_chains p) key
         in bindR (case prior of
                     Some c \<Rightarrow> ok_or IdentifierExhausted (successor (rs_latest c))
                   | None \<Rightarrow> Inr first_id) (\<lambda>expected.
              if lr_retry r \<noteq> expected then Inl (WrongRetryNumber expected (lr_retry r))
              else
                bindR (case prior of
                         Some c \<Rightarrow>
                           if rs_retry_id c \<noteq> lr_retry_id r
                           then Inl (RetryChainIdMismatch (rs_retry_id c) (lr_retry_id r)) else Inr ()
                       | None \<Rightarrow>
                           if \<exists>((i, _), _)\<in>set (pj_retry_schedules p). i = lr_retry_id r
                           then Inl (RetryIdAlreadyOwned (lr_retry_id r)) else Inr ()) (\<lambda>_.
                  Inr (p\<lparr>pj_retry_chains := map_insert key
                           \<lparr>rs_retry_id = lr_retry_id r, rs_latest = lr_retry r\<rparr> (pj_retry_chains p),
                         pj_retry_schedules := map_insert (lr_retry_id r, lr_retry r)
                           \<lparr>sh_turn = lr_turn r, sh_step = lr_step r, sh_started = False\<rparr>
                           (pj_retry_schedules p)\<rparr>))))"

definition apply_retry_started :: "projection \<Rightarrow> llm_retry_started_event \<Rightarrow> transition_error + projection" where
  "apply_retry_started p st =
     (let key = (ls_retry_id st, ls_retry st) in
      case map_of (pj_retry_schedules p) key of
        None \<Rightarrow> Inl (RetryStartedWithoutSchedule (ls_retry_id st) (ls_retry st))
      | Some sch \<Rightarrow>
          if sh_turn sch \<noteq> ls_turn st \<or> sh_step sch \<noteq> ls_step st
          then Inl (RetryStartedWithoutSchedule (ls_retry_id st) (ls_retry st))
          else if sh_started sch then Inl (RetryStartedTwice (ls_retry_id st) (ls_retry st))
          else Inr (p\<lparr>pj_retry_schedules :=
                 map_insert key (sch\<lparr>sh_started := True\<rparr>) (pj_retry_schedules p)\<rparr>))"

end
