(* ===== verification/Projection_Compaction.thy ===== *)
theory Projection_Compaction
  imports Projection_Calls
begin

text \<open>
  The compaction transaction of \<open>src/session/projection.rs\<close>: start, summary, checkpoint, end; the
  prune marker and the rewrite it prices; and the surface generations.  Every function computes the
  next compaction state from the projection before the event.
\<close>

section \<open>Recognising the checkpoint\<close>

definition event_is_immediately_after :: "nat \<Rightarrow> nat \<Rightarrow> bool" where
  "event_is_immediately_after current previous = (checked_add_u64 previous 1 = Some current)"

definition checkpoint_source_matches :: "message \<Rightarrow> open_compaction \<Rightarrow> bool" where
  "checkpoint_source_matches m oc =
     (case as_object (jv_value (src_raw (msg_source m))) of
        None \<Rightarrow> False
      | Some fs \<Rightarrow>
          length fs = (if oc_source_command_id oc \<noteq> None then 4 else 3)
          \<and> get_str fs ''kind'' = Some ''plugin''
          \<and> get_str fs ''plugin'' = Some COMPACTION_CHECKPOINT_SOURCE
          \<and> get_str fs ''compactionId'' = Some (oc_id oc)
          \<and> (case oc_source_command_id oc of
               Some expected \<Rightarrow> get_str fs ''sourceCommandId'' = Some expected
             | None \<Rightarrow> map_of fs ''sourceCommandId'' = None))"

definition plugin_of :: "message \<Rightarrow> string option" where
  "plugin_of m = (case src_kind (msg_source m) of PluginSource plugin _ _ _ \<Rightarrow> Some plugin | _ \<Rightarrow> None)"

definition is_compaction_checkpoint_source :: "message \<Rightarrow> bool" where
  "is_compaction_checkpoint_source m =
     (plugin_of m = Some COMPACTION_CHECKPOINT_SOURCE
      \<and> (case as_object (jv_value (src_raw (msg_source m))) of
           None \<Rightarrow> False | Some fs \<Rightarrow> get_str fs ''compactionId'' \<noteq> None))"

definition canonical_text_block_matches :: "content_block \<Rightarrow> string \<Rightarrow> bool" where
  "canonical_text_block_matches b expected =
     (case as_object (jv_value (cb_raw b)) of
        None \<Rightarrow> False
      | Some fs \<Rightarrow> length fs = 2 \<and> get_str fs ''type'' = Some ''text'' \<and> get_str fs ''text'' = Some expected)"

definition is_replace :: "session_event \<Rightarrow> bool" where
  "is_replace e = (case ev_surface_op e of Some (SurfaceReplace _ _) \<Rightarrow> True | _ \<Rightarrow> False)"

definition validate_checkpoint_replacement ::
  "session_event \<Rightarrow> message \<Rightarrow> open_compaction \<Rightarrow> nat \<Rightarrow> compaction_range \<Rightarrow> nat list
     \<Rightarrow> json_value list \<Rightarrow> bool" where
  "validate_checkpoint_replacement e m oc summary_seq rng shadowed summary_blocks =
     (ev_surface_op e = Some (SurfaceReplace (cr_start rng) (cr_end rng))
      \<and> ev_source_event_seqs e = Some (oc_start_seq oc # summary_seq # shadowed)
      \<and> plugin_of m = Some COMPACTION_CHECKPOINT_SOURCE
      \<and> checkpoint_source_matches m oc
      \<and> length (msg_content m) = length summary_blocks + 2
      \<and> canonical_text_block_matches (hd (msg_content m)) COMPACTION_CHECKPOINT_PREFIX
      \<and> canonical_text_block_matches (last (msg_content m)) COMPACTION_CHECKPOINT_SUFFIX
      \<and> map cb_raw (butlast (tl (msg_content m))) = summary_blocks)"

section \<open>Starting\<close>

definition sum_tokens :: "surface_node list \<Rightarrow> surface_error + nat" where
  "sum_tokens ns =
     ok_or TokenAccountingOverflow (fold (\<lambda>n total. Option.bind total (\<lambda>t. checked_add_u64 t (sn_tokens n))) ns (Some 0))"

definition mismatch :: "string \<Rightarrow> event_error + 'a" where
  "mismatch detail = Inl (TransitionE (CompactionDispatchMismatch detail))"

definition validate_dispatch_owner :: "projection \<Rightarrow> dispatch_snapshot \<Rightarrow> event_error + unit" where
  "validate_dispatch_owner p d =
     (case (ds_trigger d, pj_boundary p) of
        (ContextOverflow, InStep _) \<Rightarrow> Inr ()
      | (ContextOverflow, _) \<Rightarrow> mismatch ''context-overflow compaction requires an open step''
      | (_, InTurn _ _) \<Rightarrow> Inr ()
      | (_, _) \<Rightarrow> mismatch ''pressure and hard-limit compaction require an open turn without a step'')"

definition validate_dispatch_header :: "projection \<Rightarrow> dispatch_snapshot \<Rightarrow> event_error + unit" where
  "validate_dispatch_header p d =
     (case pj_header p of
        None \<Rightarrow> Inr ()
      | Some h \<Rightarrow>
          (let c = canonicalized h in
           if ds_system d \<noteq> eh_system c \<or> ds_tools d \<noteq> (case eh_tools c of None \<Rightarrow> [] | Some ts \<Rightarrow> ts)
           then mismatch ''system or tools differ from the referenced request header'' else Inr ()))"

definition validate_compaction_dispatch ::
  "externals \<Rightarrow> projection \<Rightarrow> nat \<Rightarrow> dispatch_snapshot \<Rightarrow> event_error + compaction_recipe" where
  "validate_compaction_dispatch E p start_seq d =
     (if ds_source_surface_generation d \<noteq> co_surface_generation (pj_compaction p)
      then mismatch ''surface generation changed before compaction/start''
      else if pj_pending_approvals p \<noteq> [] \<or> has_pending_durable_call p
      then mismatch ''compaction cannot start with unresolved approval or tool work''
      else case surface_range_indices p (ds_shadowed_range d) (ds_shadowed_seqs d) of
        None \<Rightarrow> mismatch ''shadowed range is not the selected current surface''
      | Some (range_start, range_end) \<Rightarrow>
          if range_start \<noteq> 0 \<or> (\<exists>s\<in>set (ds_shadowed_seqs d). s \<ge> start_seq)
             \<or> length (ds_shadowed_seqs d) > MAX_SOURCE_EVENT_SEQS - 2
          then mismatch ''shadowed range is not a bounded oldest surface prefix''
          else
            bindR (lift_surface (sum_tokens (drop (range_end + 1) (pj_surface p)))) (\<lambda>retained.
            bindR (lift_surface (lift_budget (select_compactable_prefix (pj_surface p) retained
                     (MAX_SOURCE_EVENT_SEQS - 2) surface_price_facts))) (\<lambda>selected.
              if map_option px_end_exclusive selected \<noteq> Some (range_end + 1)
              then mismatch ''shadowed range is not the canonical balanced prefix''
              else
                bindR (lift_surface (sum_tokens (take (range_end + 1) (pj_surface p)))) (\<lambda>shadowed_tokens.
                  if (case pj_session_id p of None \<Rightarrow> False | Some i \<Rightarrow> i \<noteq> ds_session_id d)
                  then mismatch ''sessionId does not match the active Session''
                  else if ds_request_header_seq d \<noteq> pj_header_seq p
                  then mismatch ''requestHeaderSeq is not the latest header''
                  else if ds_request_context_seq d \<noteq> pj_context_seq p
                  then mismatch ''requestContextSeq is not the latest context''
                  else
                    bindR (validate_dispatch_header p d) (\<lambda>_.
                    bindR (lift_surface (lift_budget (estimate_request_header E (ds_system d) (ds_tools d)))) (\<lambda>_.
                    bindR (validate_dispatch_owner p d) (\<lambda>_.
                      let c = pc_config (ds_prepared_call d) in
                      Inr \<lparr>re_trigger = ds_trigger d, re_range = ds_shadowed_range d,
                           re_shadowed_seqs = ds_shadowed_seqs d,
                           re_shadowed_token_count = shadowed_tokens, re_provider = cc_provider c,
                           re_model = cc_model c, re_max_tokens = cc_max_tokens c\<rparr>)))))))"

definition validate_compaction_start ::
  "externals \<Rightarrow> projection \<Rightarrow> nat \<Rightarrow> compaction_start_event \<Rightarrow> admission \<Rightarrow> event_error + open_compaction" where
  "validate_compaction_start E p seq s adm =
     (if cs_turn s \<noteq> open_turn p
      then Inl (TransitionE (CompactionOwnerMismatch ''compaction/start''))
      else
        bindR (case cs_dispatch s of
                 Some d \<Rightarrow> bindR (validate_compaction_dispatch E p seq d) (\<lambda>r. Inr (Some r))
               | None \<Rightarrow>
                   if adm \<noteq> CompatibilityReplay
                   then Inl (TransitionE DurableCompactionDispatchRequired) else Inr None) (\<lambda>recipe.
          Inr \<lparr>oc_id = cs_compaction_id s, oc_source_command_id = cs_source_command_id s,
               oc_owner = cs_turn s, oc_start_seq = seq, oc_recipe = recipe, oc_phase = Started\<rparr>))"

section \<open>Advancing an open transaction\<close>

definition validate_compaction_identity ::
  "string \<Rightarrow> open_compaction \<Rightarrow> string \<Rightarrow> string option \<Rightarrow> transition_error + unit" where
  "validate_compaction_identity event oc actual_id actual_command =
     (if oc_id oc \<noteq> actual_id then Inl (CompactionIdMismatch event (oc_id oc) actual_id)
      else if oc_source_command_id oc \<noteq> actual_command then Inl (CompactionSourceCommandMismatch event)
      else Inr ())"

definition validate_summary_recipe ::
  "projection \<Rightarrow> compaction_summary_event \<Rightarrow> compaction_recipe \<Rightarrow> event_error + unit" where
  "validate_summary_recipe p s r =
     (if pj_policy p = DurableStrict \<and> cm_shadowed_token_count s \<noteq> re_shadowed_token_count r
      then Inl (SurfaceE (ShadowedTokenCountMismatch (re_shadowed_token_count r) (cm_shadowed_token_count s)))
      else if cm_shadowed_range s \<noteq> re_range r \<or> cm_shadowed_seqs s \<noteq> re_shadowed_seqs r
           \<or> cm_provider s \<noteq> re_provider r \<or> cm_model s \<noteq> re_model r \<or> cm_max_tokens s \<noteq> re_max_tokens r
           \<or> (pj_policy p = DurableStrict \<and> \<not> cm_llm_stream_call s)
      then mismatch ''summary differs from the prepared compaction call''
      else Inr ())"

definition advance_summary ::
  "projection \<Rightarrow> nat \<Rightarrow> compaction_summary_event \<Rightarrow> open_compaction \<Rightarrow> event_error + open_compaction option" where
  "advance_summary p seq s oc =
     bindR (lift_transition (validate_compaction_identity ''compaction/summary'' oc
              (cm_compaction_id s) (cm_source_command_id s))) (\<lambda>_.
       if oc_phase oc \<noteq> Started
       then Inl (TransitionE (CompactionBodyOutOfOrder ''compaction/summary''))
       else if \<not> event_is_immediately_after seq (oc_start_seq oc)
       then Inl (TransitionE (CompactionBodyOutOfOrder ''compaction/summary''))
       else if open_turn p \<noteq> oc_owner oc
            \<or> \<not> surface_range_matches p (cm_shadowed_range s) (cm_shadowed_seqs s)
       then mismatch ''summary does not match its owner or selected surface''
       else
         bindR (case oc_recipe oc of None \<Rightarrow> Inr () | Some r \<Rightarrow> validate_summary_recipe p s r) (\<lambda>_.
           Inr (Some (oc\<lparr>oc_phase := Summarized seq (cm_shadowed_range s) (cm_shadowed_seqs s)
                  (map cb_raw (cm_summary s)) (cm_shadowed_token_count s)\<rparr>))))"

definition advance_checkpoint ::
  "externals \<Rightarrow> projection \<Rightarrow> session_event \<Rightarrow> message \<Rightarrow> open_compaction \<Rightarrow> event_error + open_compaction option" where
  "advance_checkpoint E p e m oc =
     (case oc_phase oc of
        Summarized summary_seq rng shadowed summary_blocks shadowed_tokens \<Rightarrow>
          if \<not> event_is_immediately_after (ev_seq e) summary_seq
             \<or> \<not> validate_checkpoint_replacement e m oc summary_seq rng shadowed summary_blocks
          then Inl (SurfaceE CompactionReplacementMismatch)
          else
            bindR (if pj_policy p = DurableStrict then
                     bindR (lift_surface (lift_budget (estimate_message E m))) (\<lambda>replacement.
                       if replacement \<ge> shadowed_tokens
                       then Inl (SurfaceE (CompactionDoesNotShrink shadowed_tokens replacement))
                       else Inr ())
                   else Inr ()) (\<lambda>_.
              Inr (Some (oc\<lparr>oc_phase := Replaced summary_seq (ev_seq e), oc_recipe := None\<rparr>)))
      | _ \<Rightarrow> Inl (TransitionE (CompactionBodyOutOfOrder ''user/message replacement'')))"

definition phase_seq :: "open_compaction \<Rightarrow> nat" where
  "phase_seq oc =
     (case oc_phase oc of
        Started \<Rightarrow> oc_start_seq oc
      | Summarized summary_seq _ _ _ _ \<Rightarrow> summary_seq
      | Replaced _ checkpoint_seq \<Rightarrow> checkpoint_seq)"

definition is_replaced :: "compaction_phase \<Rightarrow> bool" where
  "is_replaced ph = (case ph of Replaced _ _ \<Rightarrow> True | _ \<Rightarrow> False)"

definition advance_end ::
  "projection \<Rightarrow> nat \<Rightarrow> compaction_end_event \<Rightarrow> open_compaction \<Rightarrow> admission
     \<Rightarrow> event_error + open_compaction option" where
  "advance_end p seq e oc adm =
     bindR (lift_transition (validate_compaction_identity ''compaction/end'' oc
              (ce_compaction_id e) (ce_source_command_id e))) (\<lambda>_.
       if ce_turn e \<noteq> oc_owner oc \<or> open_turn p \<noteq> oc_owner oc
       then Inl (TransitionE (CompactionOwnerMismatch ''compaction/end''))
       else if adm \<noteq> CompatibilityReplay
            \<and> (case ce_error e of None \<Rightarrow> False | Some x \<Rightarrow> compaction_end_error_is_legacy x)
       then Inl (TransitionE DurableLegacyCompactionError)
       else if \<not> event_is_immediately_after seq (phase_seq oc)
       then Inl (TransitionE (CompactionBodyOutOfOrder ''compaction/end''))
       else if ce_error e = None \<and> \<not> is_replaced (oc_phase oc)
       then Inl (TransitionE CompactionSuccessWithoutReplacement)
       else Inr None)"

text \<open>\<open>event_type_static\<close> names an unknown event by the word, not by its type.\<close>

definition event_type_static :: "event_kind \<Rightarrow> string" where
  "event_type_static k = (case k of UnknownEvent _ _ \<Rightarrow> ''unknown'' | _ \<Rightarrow> event_type k)"

definition advance_open_compaction ::
  "externals \<Rightarrow> projection \<Rightarrow> session_event \<Rightarrow> open_compaction \<Rightarrow> admission
     \<Rightarrow> event_error + open_compaction option" where
  "advance_open_compaction E p e oc adm =
     (let crossed = Inl (TransitionE (CompactionBoundaryCrossed (event_type_static (ev_kind e)))) in
      case ev_kind e of
        CompactionStart _ \<Rightarrow> Inl (TransitionE (CompactionAlreadyOpen (oc_id oc)))
      | CompactionSummary s \<Rightarrow> advance_summary p (ev_seq e) s oc
      | UserMessage m \<Rightarrow> if is_replace e then advance_checkpoint E p e m oc else crossed
      | CompactionEnd x \<Rightarrow> advance_end p (ev_seq e) x oc adm
      | _ \<Rightarrow> crossed)"

section \<open>Pruning and generations\<close>

definition advance_surface_generation ::
  "compaction_state \<Rightarrow> session_event \<Rightarrow> transition_error + compaction_state" where
  "advance_surface_generation c e =
     (if is_surface_eligible (ev_kind e)
      then bindR (ok_or IdentifierExhausted (successor (co_surface_generation c))) (\<lambda>g.
             Inr (c\<lparr>co_surface_generation := g\<rparr>))
      else Inr c)"

definition is_tool_result :: "event_kind \<Rightarrow> bool" where
  "is_tool_result k = (case k of ToolResult _ _ _ _ _ \<Rightarrow> True | _ \<Rightarrow> False)"

definition apply_prune_adjacency ::
  "compaction_state \<Rightarrow> session_event \<Rightarrow> event_error + bool \<times> compaction_state" where
  "apply_prune_adjacency c e =
     (case co_prune_claim c of
        None \<Rightarrow> Inr (False, c)
      | Some target \<Rightarrow>
          (let c = c\<lparr>co_prune_claim := None\<rparr> in
           case ev_surface_op e of
             Some (SurfaceReplace start end_seq) \<Rightarrow>
               if is_tool_result (ev_kind e) \<and> start = target \<and> end_seq = target
                  \<and> ev_source_event_seqs e = Some [target]
               then Inr (True, c)
               else Inl (SurfaceE PruneReplacementMismatch)
           | _ \<Rightarrow>
               bindR (ok_or (TransitionE IdentifierExhausted) (checked_add_u64 (co_orphan_prune_count c) 1)) (\<lambda>n.
                 Inr (False, c\<lparr>co_orphan_prune_count := n\<rparr>))))"

definition claim_prune :: "projection \<Rightarrow> compaction_prune_event \<Rightarrow> event_error + nat" where
  "claim_prune p prune =
     (let target = hd (cp_shadowed_seqs prune) in
      case find (\<lambda>n. sn_seq n = target) (pj_surface p) of
        None \<Rightarrow> Inl (SurfaceE PruneTargetNotToolResult)
      | Some n \<Rightarrow>
          if sn_kind n \<noteq> ToolResultNode then Inl (SurfaceE PruneTargetNotToolResult)
          else if pj_policy p = DurableStrict \<and> cp_shadowed_token_count prune \<noteq> sn_tokens n
          then Inl (SurfaceE (ShadowedTokenCountMismatch (sn_tokens n) (cp_shadowed_token_count prune)))
          else Inr target)"

text \<open>What an event does when no transaction is open.\<close>

definition advance_idle ::
  "externals \<Rightarrow> projection \<Rightarrow> session_event \<Rightarrow> admission \<Rightarrow> bool \<Rightarrow> compaction_state
     \<Rightarrow> event_error + compaction_state" where
  "advance_idle E p e adm consumed c =
     (case ev_kind e of
        CompactionStart s \<Rightarrow>
          bindR (validate_compaction_start E p (ev_seq e) s adm) (\<lambda>oc. Inr (c\<lparr>co_open := Some oc\<rparr>))
      | CompactionSummary _ \<Rightarrow> Inl (TransitionE (CompactionWithoutStart ''compaction/summary''))
      | CompactionEnd _ \<Rightarrow> Inl (TransitionE (CompactionWithoutStart ''compaction/end''))
      | CompactionPrune prune \<Rightarrow>
          bindR (claim_prune p prune) (\<lambda>target. Inr (c\<lparr>co_prune_claim := Some target\<rparr>))
      | UserMessage m \<Rightarrow>
          if is_replace e \<and> is_compaction_checkpoint_source m
          then Inl (TransitionE (CompactionWithoutStart ''user/message replacement'')) else Inr c
      | ToolResult _ _ _ _ _ \<Rightarrow>
          if pj_policy p = DurableStrict \<and> is_replace e \<and> \<not> consumed
          then Inl (SurfaceE PruneReplacementWithoutMarker) else Inr c
      | _ \<Rightarrow> Inr c)"

definition is_recovery_message :: "message \<Rightarrow> bool" where
  "is_recovery_message m = starts_with (msg_id m) RECOVERY_TOOL_RESULT_ID_PREFIX"

text \<open>The events that only recovery may add.\<close>

definition is_recovery_only :: "event_kind \<Rightarrow> bool" where
  "is_recovery_only k =
     (case k of
        EndSeed \<Rightarrow> True
      | TurnEnd _ r \<Rightarrow> r = TurnInterrupted
      | ToolResult _ _ m _ _ \<Rightarrow> is_recovery_message m
      | _ \<Rightarrow> False)"

definition is_prune_fact :: "session_event \<Rightarrow> bool" where
  "is_prune_fact e =
     (case ev_kind e of CompactionPrune _ \<Rightarrow> True | ToolResult _ _ _ _ _ \<Rightarrow> is_replace e | _ \<Rightarrow> False)"

definition is_step_end :: "event_kind \<Rightarrow> bool" where
  "is_step_end k = (case k of StepEnd _ _ \<Rightarrow> True | _ \<Rightarrow> False)"

definition is_checkpoint_replacement :: "session_event \<Rightarrow> bool" where
  "is_checkpoint_replacement e =
     (case ev_kind e of
        UserMessage m \<Rightarrow> is_replace e \<and> is_compaction_checkpoint_source m
      | _ \<Rightarrow> False)"

definition reset_compaction :: "compaction_state \<Rightarrow> compaction_state" where
  "reset_compaction c = c\<lparr>co_open := None, co_prune_claim := None, co_orphan_prune_count := 0\<rparr>"

definition next_compaction_state ::
  "externals \<Rightarrow> projection \<Rightarrow> session_event \<Rightarrow> admission \<Rightarrow> event_error + compaction_state" where
  "next_compaction_state E p e adm =
     (let c = pj_compaction p; strict = (pj_policy p = DurableStrict); k = ev_kind e in
      if strict \<and> adm = Ordinary \<and> is_prune_fact e
      then Inl (TransitionE (DurablePruneEventNotAllowed (event_type_static k)))
      else if strict \<and> is_unprivileged_durable adm \<and> co_open c \<noteq> None \<and> is_step_end k
      then Inl (TransitionE (DurableRecoveryEventNotAllowed ''step/end''))
      else if strict \<and> is_unprivileged_durable adm \<and> is_recovery_only k
      then Inr c
      else if adm = HistoricalScan
      then lift_transition (advance_surface_generation (if k = EndSeed then reset_compaction c else c) e)
      else if \<not> strict \<and> k = EndSeed
      then Inr (reset_compaction c)
      else
        bindR (apply_prune_adjacency c e) (\<lambda>(consumed, c).
        bindR (case co_open c of
                 Some oc \<Rightarrow>
                   bindR (advance_open_compaction E p e oc adm) (\<lambda>oc'. Inr (c\<lparr>co_open := oc'\<rparr>))
               | None \<Rightarrow> advance_idle E p e adm consumed c) (\<lambda>c.
        bindR (lift_transition (advance_surface_generation c e)) (\<lambda>c.
          if consumed \<or> is_checkpoint_replacement e
          then bindR (ok_or (TransitionE IdentifierExhausted) (successor (co_replacement_generation c))) (\<lambda>g.
                 Inr (c\<lparr>co_replacement_generation := g\<rparr>))
          else Inr c))))"

end
