(* ===== verification/Projection_Surface.thy ===== *)
theory Projection_Surface
  imports Projection_Compaction
begin

text \<open>
  The model-visible surface of \<open>src/session/projection.rs\<close>: the checks on source events, the node
  an event becomes, and appending or splicing it with its token and residency accounting.
\<close>

section \<open>Sources\<close>

fun first_duplicate :: "nat list \<Rightarrow> nat list \<Rightarrow> nat option" where
  "first_duplicate seen [] = None"
| "first_duplicate seen (x # xs) = (if x \<in> set seen then Some x else first_duplicate (x # seen) xs)"

definition is_assistant_message :: "event_kind \<Rightarrow> bool" where
  "is_assistant_message k = (case k of AssistantMessage _ _ _ _ \<Rightarrow> True | _ \<Rightarrow> False)"

definition validate_sources :: "session_event \<Rightarrow> surface_error + unit" where
  "validate_sources e =
     (case ev_source_event_seqs e of
        None \<Rightarrow> Inr ()
      | Some sources \<Rightarrow>
          if length sources > MAX_SOURCE_EVENT_SEQS
          then Inl (TooManySources MAX_SOURCE_EVENT_SEQS (length sources))
          else if sources = [] \<and> \<not> is_assistant_message (ev_kind e) then Inl EmptySources
          else case first_duplicate [] sources of
            Some s \<Rightarrow> Inl (DuplicateSource s)
          | None \<Rightarrow>
              (case find (\<lambda>s. s \<ge> ev_seq e) sources of
                 Some s \<Rightarrow> Inl (SourceNotEarlier s (ev_seq e))
               | None \<Rightarrow> Inr ()))"

section \<open>Nodes\<close>

definition tool_call_count :: "message \<Rightarrow> nat" where
  "tool_call_count m = length (filter is_tool_call_block (msg_content m))"

definition bind_origin :: "nat \<Rightarrow> row_binding \<Rightarrow> string \<Rightarrow> surface_error + tool_result_origin" where
  "bind_origin seq binding masked =
     (case binding of
        BindMemory \<Rightarrow> Inr (OriginMemory masked)
      | BindPending \<Rightarrow> Inr (OriginPending masked)
      | BindDurable row \<Rightarrow>
          if row_seq row \<noteq> seq then Inl ToolResultChangedIdentity else Inr (OriginDurable masked row))"

definition node_parts :: "event_kind \<Rightarrow> surface_error + surface_node_kind \<times> message option \<times> int" where
  "node_parts k =
     (case k of
        UserMessage m \<Rightarrow> Inr (UserNode, Some m, 0)
      | ToolResult _ _ m _ _ \<Rightarrow> Inr (ToolResultNode, Some m, - 1)
      | AssistantMessage _ _ m _ \<Rightarrow>
          if msg_content m \<noteq> [] then
            if int (tool_call_count m) \<le> I64_MAX
            then Inr (AssistantNode, Some m, int (tool_call_count m))
            else Inl TokenAccountingOverflow
          else Inr (AssistantNode, None, 0)
      | _ \<Rightarrow> Inl ToolResultWrongTarget)"

definition surface_node_of :: "externals \<Rightarrow> session_event \<Rightarrow> row_binding \<Rightarrow> surface_error + surface_node" where
  "surface_node_of E e binding =
     bindR (node_parts (ev_kind e)) (\<lambda>(kind, m, delta).
     bindR (case m of None \<Rightarrow> Inr 0 | Some m \<Rightarrow> lift_budget (estimate_message E m)) (\<lambda>tokens.
     bindR (if is_tool_result (ev_kind e) then
              bindR (ok_or ToolResultChangedIdentity (masked_data_sha256 E (jv_value (ev_original_data e)))) (\<lambda>masked.
              bindR (bind_origin (ev_seq e) binding masked) (\<lambda>origin. Inr (Some origin)))
            else Inr None) (\<lambda>origin.
       Inr \<lparr>sn_seq = ev_seq e, sn_kind = kind, sn_message = m, sn_tokens = tokens,
            sn_tool_delta = delta, sn_tool_result = origin\<rparr>)))"

definition origin_masked :: "tool_result_origin \<Rightarrow> string" where
  "origin_masked origin =
     (case origin of OriginMemory d \<Rightarrow> d | OriginPending d \<Rightarrow> d | OriginDurable d _ \<Rightarrow> d)"

definition validate_tool_result_rewrite ::
  "externals \<Rightarrow> session_event \<Rightarrow> surface_node list \<Rightarrow> surface_error + unit" where
  "validate_tool_result_rewrite E e shadowed =
     (case shadowed of
        [n] \<Rightarrow>
          bindR (ok_or ToolResultWrongTarget (sn_tool_result n)) (\<lambda>origin.
            if \<not> is_tool_result (ev_kind e) then Inl ToolResultWrongTarget
            else
              bindR (ok_or ToolResultChangedIdentity (masked_data_sha256 E (jv_value (ev_original_data e)))) (\<lambda>d.
                if origin_masked origin \<noteq> d then Inl ToolResultChangedIdentity else Inr ()))
      | _ \<Rightarrow> Inl ToolResultMultipleTargets)"

section \<open>Accounting\<close>

definition node_bytes :: "surface_node \<Rightarrow> nat" where
  "node_bytes n = (case Option.bind (sn_message n) msg_surface_bytes of None \<Rightarrow> 0 | Some b \<Rightarrow> b)"

definition sum_by :: "('a \<Rightarrow> nat) \<Rightarrow> 'a list \<Rightarrow> nat option" where
  "sum_by f xs = fold (\<lambda>x total. Option.bind total (\<lambda>t. checked_add_u64 t (f x))) xs (Some 0)"

text \<open>What replacing nodes by one does to a running total.\<close>

definition replace_total :: "surface_error \<Rightarrow> nat \<Rightarrow> nat option \<Rightarrow> nat \<Rightarrow> surface_error + nat" where
  "replace_total err total_n removed added =
     bindR (ok_or err removed) (\<lambda>removed.
       ok_or err (Option.bind (checked_sub_u64 total_n removed) (\<lambda>t. checked_add_u64 t added)))"

definition append_node :: "projection \<Rightarrow> surface_node \<Rightarrow> surface_error + projection" where
  "append_node p n =
     bindR (ok_or TokenAccountingOverflow (checked_add_u64 (pj_surface_tokens p) (sn_tokens n))) (\<lambda>tokens.
     bindR (ok_or ResidentAccountingOverflow (checked_add_u64 (pj_resident_bytes p) (node_bytes n))) (\<lambda>bytes.
       Inr (p\<lparr>pj_surface := pj_surface p @ [n], pj_surface_tokens := tokens, pj_resident_bytes := bytes\<rparr>)))"

definition splice_node :: "projection \<Rightarrow> nat \<Rightarrow> nat \<Rightarrow> surface_node \<Rightarrow> surface_error + projection" where
  "splice_node p start_i end_i n =
     (let shadowed = drop start_i (take (Suc end_i) (pj_surface p)) in
      bindR (replace_total TokenAccountingOverflow (pj_surface_tokens p)
               (sum_by sn_tokens shadowed) (sn_tokens n)) (\<lambda>tokens.
      bindR (replace_total ResidentAccountingOverflow (pj_resident_bytes p)
               (sum_by node_bytes shadowed) (node_bytes n)) (\<lambda>bytes.
        Inr (p\<lparr>pj_surface := take start_i (pj_surface p) @ n # drop (Suc end_i) (pj_surface p),
               pj_surface_tokens := tokens, pj_resident_bytes := bytes\<rparr>))))"

definition replace_range ::
  "externals \<Rightarrow> projection \<Rightarrow> session_event \<Rightarrow> row_binding \<Rightarrow> nat \<Rightarrow> nat \<Rightarrow> surface_error + projection" where
  "replace_range E p e binding start_seq end_seq =
     bindR (ok_or (StartNotFound start_seq) (position (\<lambda>n. sn_seq n = start_seq) (pj_surface p))) (\<lambda>start_i.
     bindR (ok_or (EndNotFound end_seq) (position (\<lambda>n. sn_seq n = end_seq) (pj_surface p))) (\<lambda>end_i.
       if start_i > end_i then Inl (ReversedRange start_seq end_seq)
       else
         let shadowed = drop start_i (take (Suc end_i) (pj_surface p));
             sources = (case ev_source_event_seqs e of None \<Rightarrow> [] | Some xs \<Rightarrow> xs)
         in case find (\<lambda>n. sn_seq n \<notin> set sources) shadowed of
              Some n \<Rightarrow> Inl (MissingShadowedSource (sn_seq n))
            | None \<Rightarrow>
                bindR (if is_tool_result (ev_kind e) then validate_tool_result_rewrite E e shadowed
                       else Inr ()) (\<lambda>_.
                bindR (surface_node_of E e binding) (\<lambda>n. splice_node p start_i end_i n))))"

definition apply_surface ::
  "externals \<Rightarrow> projection \<Rightarrow> session_event \<Rightarrow> row_binding \<Rightarrow> surface_error + projection" where
  "apply_surface E p e binding =
     (if \<not> is_surface_eligible (ev_kind e) then
        if ev_surface_op e \<noteq> None \<or> ev_source_event_seqs e \<noteq> None
        then Inl (MetadataOnIneligibleEvent (event_type (ev_kind e))) else Inr p
      else
        bindR (ok_or (MissingOperation (event_type (ev_kind e))) (ev_surface_op e)) (\<lambda>op.
        bindR (validate_sources e) (\<lambda>_.
          case op of
            SurfaceAppend \<Rightarrow> bindR (surface_node_of E e binding) (\<lambda>n. append_node p n)
          | SurfaceReplace start_seq end_seq \<Rightarrow> replace_range E p e binding start_seq end_seq)))"

section \<open>Binding rows\<close>

text \<open>A pending tool result gets the row it was written to; \<open>None\<close> is the refusal.\<close>

definition bind_tool_result_row :: "projection \<Rightarrow> nat \<Rightarrow> row_locator \<Rightarrow> projection option" where
  "bind_tool_result_row p seq row =
     (case find (\<lambda>n. sn_seq n = seq) (pj_surface p) of
        None \<Rightarrow> None
      | Some n \<Rightarrow>
          (case sn_tool_result n of
             Some (OriginPending masked) \<Rightarrow>
               Some (p\<lparr>pj_surface := update_first (\<lambda>n. sn_seq n = seq)
                        (\<lambda>n. n\<lparr>sn_tool_result := Some (OriginDurable masked row)\<rparr>) (pj_surface p)\<rparr>)
           | _ \<Rightarrow> None))"

fun bind_recovery_tool_result_rows :: "projection \<Rightarrow> row_locator list \<Rightarrow> projection option" where
  "bind_recovery_tool_result_rows p [] = Some p"
| "bind_recovery_tool_result_rows p (row # rows) =
     (case find (\<lambda>n. sn_seq n = row_seq row) (pj_surface p) of
        None \<Rightarrow> bind_recovery_tool_result_rows p rows
      | Some n \<Rightarrow>
          if sn_kind n = ToolResultNode then
            (case bind_tool_result_row p (row_seq row) row of
               None \<Rightarrow> None
             | Some p \<Rightarrow> bind_recovery_tool_result_rows p rows)
          else bind_recovery_tool_result_rows p rows)"

end
