(* ===== verification/Projection.thy ===== *)
theory Projection
  imports Projection_Surface
begin

text \<open>
  The reducer of \<open>src/session/projection.rs\<close>: the turn and step state machine, the attempt
  transition an event implies, the token anchor, and the entry points through which events reach
  the projection (in memory, live durable, owned attempt facts, owned prunes, cold scan, recovery).
\<close>

section \<open>Turns and steps\<close>

definition apply_turn_start :: "projection \<Rightarrow> nat \<Rightarrow> transition_error + projection" where
  "apply_turn_start p turn =
     (case open_turn p of
        Some t \<Rightarrow> Inl (TurnAlreadyOpen t turn)
      | None \<Rightarrow>
          if turn \<noteq> pj_next_turn p then Inl (WrongNextTurn (pj_next_turn p) turn)
          else Inr (p\<lparr>pj_boundary := InTurn turn first_id\<rparr>))"

definition apply_turn_end :: "projection \<Rightarrow> nat \<Rightarrow> transition_error + projection" where
  "apply_turn_end p turn =
     (if open_turn p \<noteq> Some turn then Inl (WrongTurnEnd (open_turn p) turn)
      else case pj_boundary p of
        InStep s \<Rightarrow> Inl (TurnEndWhileStepOpen turn (os_step s))
      | _ \<Rightarrow>
          (case pj_pending_approvals p of
             i # _ \<Rightarrow> Inl (ApprovalStillPending ''turn/end'' i)
           | [] \<Rightarrow>
               bindR (ok_or IdentifierExhausted (successor turn)) (\<lambda>n.
                 Inr (p\<lparr>pj_next_turn := n, pj_boundary := Idle\<rparr>))))"

definition apply_step_start :: "projection \<Rightarrow> nat \<Rightarrow> nat \<Rightarrow> transition_error + projection" where
  "apply_step_start p turn step =
     (case pj_boundary p of
        Idle \<Rightarrow> Inl (StepOutsideTurn None turn)
      | InStep s \<Rightarrow>
          if os_turn s \<noteq> turn then Inl (StepOutsideTurn (Some (os_turn s)) turn)
          else Inl (StepAlreadyOpen (os_step s) step)
      | InTurn t next_step \<Rightarrow>
          if t \<noteq> turn then Inl (StepOutsideTurn (Some t) turn)
          else if next_step \<noteq> step then Inl (WrongNextStep turn next_step step)
          else Inr (p\<lparr>pj_boundary := InStep \<lparr>os_turn = turn, os_step = step,
                 os_start_tokens = pj_surface_tokens p, os_pending = [], os_declared = []\<rparr>\<rparr>))"

definition apply_step_end :: "projection \<Rightarrow> nat \<Rightarrow> nat \<Rightarrow> transition_error + projection" where
  "apply_step_end p turn step =
     bindR (require_open_step p ''step/end'' turn step) (\<lambda>_.
     bindR (if pj_policy p = DurableStrict then
              (case pj_boundary p of
                 InStep s \<Rightarrow>
                   (case find (\<lambda>c. \<not> dc_result_seen c) (os_declared s) of
                      Some c \<Rightarrow> Inl (DurableCallStillPending ''step/end'' (dc_id c))
                    | None \<Rightarrow> Inr ())
               | _ \<Rightarrow> Inl (wrong_open_step p ''step/end'' turn step))
            else Inr ()) (\<lambda>_.
       case pj_pending_approvals p of
         i # _ \<Rightarrow> Inl (ApprovalStillPending ''step/end'' i)
       | [] \<Rightarrow>
           bindR (ok_or IdentifierExhausted (successor step)) (\<lambda>n.
             Inr (p\<lparr>pj_boundary := InTurn turn n\<rparr>))))"

section \<open>Calls, results and approvals\<close>

definition set_pending :: "projection \<Rightarrow> (string list \<Rightarrow> string list) \<Rightarrow> projection" where
  "set_pending p f =
     (case pj_boundary p of
        InStep s \<Rightarrow> p\<lparr>pj_boundary := InStep (s\<lparr>os_pending := f (os_pending s)\<rparr>)\<rparr>
      | _ \<Rightarrow> p)"

definition apply_tool_call ::
  "projection \<Rightarrow> nat \<Rightarrow> string \<Rightarrow> string \<Rightarrow> string \<Rightarrow> transition_error + projection" where
  "apply_tool_call p seq call_id name arguments =
     bindR (promote_durable_call p seq call_id name arguments) (\<lambda>p.
       Inr (set_pending p (\<lambda>ps. if call_id \<in> set ps then ps else ps @ [call_id])))"

definition synthetic_not_started :: "message \<Rightarrow> tool_failure option \<Rightarrow> bool" where
  "synthetic_not_started m failure =
     (tool_result_is_error m \<and> (case failure of None \<Rightarrow> False | Some f \<Rightarrow> tf_code f = TOOL_NOT_STARTED))"

definition apply_tool_result ::
  "projection \<Rightarrow> session_event \<Rightarrow> nat \<Rightarrow> nat \<Rightarrow> message \<Rightarrow> tool_failure option \<Rightarrow> admission
     \<Rightarrow> transition_error + projection" where
  "apply_tool_result p e turn step m failure adm =
     (if is_replace e then
        if open_turn p = None then Inl (EventOutsideTurn ''tool/result replacement'') else Inr p
      else
        bindR (require_open_step p ''tool/result'' turn step) (\<lambda>_.
        bindR (resolve_durable_call p e m failure adm) (\<lambda>p.
        bindR (map_err (\<lambda>_. MissingToolCall ''invalid'') (validate_tool_result m)) (\<lambda>call_id.
          case pj_boundary p of
            InStep s \<Rightarrow>
              (case position (\<lambda>c. c = call_id) (os_pending s) of
                 None \<Rightarrow> if synthetic_not_started m failure then Inr p else Inl (MissingToolCall call_id)
               | Some i \<Rightarrow> Inr (set_pending p (remove_at i)))
          | _ \<Rightarrow> Inl (wrong_open_step p ''tool/result'' turn step)))))"

definition require_turn :: "projection \<Rightarrow> event_kind \<Rightarrow> transition_error + unit" where
  "require_turn p k = (if open_turn p = None then Inl (EventOutsideTurn (event_type_static k)) else Inr ())"

definition apply_approval_asked :: "projection \<Rightarrow> approval_asked_event \<Rightarrow> transition_error + projection" where
  "apply_approval_asked p asked =
     bindR (require_turn p (ApprovalAsked asked)) (\<lambda>_.
       if aa_id asked \<in> set (pj_pending_approvals p) then Inl (ApprovalIdAlreadyPending (aa_id asked))
       else if aa_id asked \<in> set (pj_owned_approvals p) then Inl (ApprovalIdAlreadyOwned (aa_id asked))
       else
         bindR (ask_durable_approval p asked) (\<lambda>p.
           Inr (p\<lparr>pj_owned_approvals := aa_id asked # pj_owned_approvals p,
                  pj_pending_approvals := pj_pending_approvals p @ [aa_id asked]\<rparr>)))"

definition apply_approval_decided :: "projection \<Rightarrow> approval_decided_event \<Rightarrow> transition_error + projection" where
  "apply_approval_decided p decided =
     bindR (require_turn p (ApprovalDecided decided)) (\<lambda>_.
       case position (\<lambda>i. i = ap_id decided) (pj_pending_approvals p) of
         None \<Rightarrow> Inl (ApprovalDecisionWithoutRequest (ap_id decided))
       | Some i \<Rightarrow>
           bindR (decide_durable_approval p decided) (\<lambda>p.
             Inr (p\<lparr>pj_pending_approvals := remove_at i (pj_pending_approvals p)\<rparr>)))"

section \<open>The transition\<close>

definition reject_recovery_event :: "projection \<Rightarrow> event_kind \<Rightarrow> admission \<Rightarrow> transition_error + unit" where
  "reject_recovery_event p k adm =
     (if pj_policy p = DurableStrict \<and> is_unprivileged_durable adm \<and> is_recovery_only k
      then Inl (DurableRecoveryEventNotAllowed (event_type_static k)) else Inr ())"

definition apply_kind :: "projection \<Rightarrow> session_event \<Rightarrow> admission \<Rightarrow> transition_error + projection" where
  "apply_kind p e adm =
     (let k = ev_kind e in
      case k of
        TurnStart turn \<Rightarrow> apply_turn_start p turn
      | TurnEnd turn _ \<Rightarrow> apply_turn_end p turn
      | StepStart turn step \<Rightarrow> apply_step_start p turn step
      | StepEnd turn step \<Rightarrow> apply_step_end p turn step
      | AssistantChunk turn step _ \<Rightarrow> bindR (require_open_step p (event_type_static k) turn step) (\<lambda>_. Inr p)
      | AssistantMessage turn step m _ \<Rightarrow>
          bindR (require_open_step p (event_type_static k) turn step) (\<lambda>_. register_durable_declarations p m)
      | ToolCall turn step call_id name arguments \<Rightarrow>
          bindR (require_open_step p (event_type_static k) turn step) (\<lambda>_.
            apply_tool_call p (ev_seq e) call_id name arguments)
      | ToolResult turn step m failure _ \<Rightarrow> apply_tool_result p e turn step m failure adm
      | RequestHeader h _ \<Rightarrow>
          bindR (require_turn p k) (\<lambda>_.
            Inr (p\<lparr>pj_header := Some (canonicalized h), pj_header_seq := Some (ev_seq e)\<rparr>))
      | RequestContext c \<Rightarrow>
          bindR (require_turn p k) (\<lambda>_.
            Inr (p\<lparr>pj_context := Some c, pj_context_seq := Some (ev_seq e)\<rparr>))
      | LlmRetry r \<Rightarrow> apply_retry p r
      | LlmRetryStarted st \<Rightarrow> apply_retry_started p st
      | ApprovalAsked asked \<Rightarrow> apply_approval_asked p asked
      | ApprovalDecided decided \<Rightarrow> apply_approval_decided p decided
      | TodoWrite _ \<Rightarrow> bindR (require_turn p k) (\<lambda>_. Inr p)
      | _ \<Rightarrow> Inr p)"

definition apply_transition :: "projection \<Rightarrow> session_event \<Rightarrow> admission \<Rightarrow> transition_error + projection" where
  "apply_transition p e adm =
     bindR (reject_recovery_event p (ev_kind e) adm) (\<lambda>_. apply_kind p e adm)"

section \<open>The token anchor\<close>

definition usage_sum :: "token_usage \<Rightarrow> nat option" where
  "usage_sum u =
     (let get = (\<lambda>x. case x of None \<Rightarrow> 0 | Some n \<Rightarrow> n) in
      Option.bind (checked_add_u64 (tu_input u) (get (tu_cache_read u))) (\<lambda>t.
      Option.bind (checked_add_u64 t (get (tu_cache_write u))) (\<lambda>t.
        checked_add_u64 t (tu_output u))))"

abbreviation surface_overflow :: event_error where
  "surface_overflow \<equiv> SurfaceE TokenAccountingOverflow"

definition usage_baseline ::
  "token_usage \<Rightarrow> nat \<Rightarrow> nat \<Rightarrow> nat \<Rightarrow> event_error + nat \<times> token_baseline" where
  "usage_baseline u header start_tokens assistant_tokens =
     bindR (ok_or surface_overflow (checked_add_u64 start_tokens assistant_tokens)) (\<lambda>surface.
     bindR (ok_or surface_overflow (checked_add_u64 header surface)) (\<lambda>estimated.
     bindR (ok_or surface_overflow (usage_sum u)) (\<lambda>used.
       Inr (surface, if used \<ge> estimated then BaselineUsage used u else BaselineEstimated estimated))))"

definition estimated_baseline ::
  "externals \<Rightarrow> message \<Rightarrow> nat \<Rightarrow> nat \<Rightarrow> event_error + nat \<times> token_baseline" where
  "estimated_baseline E m header start_tokens =
     bindR (if msg_content m = [] then Inr 0
            else lift_surface (lift_budget (estimate_message E m))) (\<lambda>tokens.
     bindR (ok_or surface_overflow (checked_add_u64 start_tokens tokens)) (\<lambda>surface.
     bindR (ok_or surface_overflow (checked_add_u64 header surface)) (\<lambda>estimated.
       Inr (surface, BaselineEstimated estimated))))"

definition prepare_token_anchor ::
  "externals \<Rightarrow> projection \<Rightarrow> session_event \<Rightarrow> committed_facts \<Rightarrow> event_error + token_anchor" where
  "prepare_token_anchor E p e facts =
     (case ev_kind e of
        AssistantMessage _ _ m _ \<Rightarrow>
          (case pj_boundary p of
             InStep s \<Rightarrow>
               bindR (lift_surface (header_tokens E (pj_header p))) (\<lambda>header.
               bindR (case (cf_usage facts, pj_header p) of
                        (Some u, Some _) \<Rightarrow>
                          usage_baseline u header (os_start_tokens s) (cf_assistant_tokens facts)
                      | _ \<Rightarrow> estimated_baseline E m header (os_start_tokens s)) (\<lambda>(surface, baseline).
                 Inr \<lparr>ta_header = pj_header p, ta_surface_tokens = surface, ta_baseline = baseline\<rparr>))
           | _ \<Rightarrow> Inl (AttemptE (boundary ''assistant/message'' ''the token anchor has no matching step/start'')))
      | _ \<Rightarrow> Inl (AttemptE (boundary (event_type_static (ev_kind e))
               ''only assistant/message can install a token anchor'')))"

section \<open>The attempt an event concerns\<close>

definition is_context_start :: "event_kind \<Rightarrow> bool" where
  "is_context_start k =
     (case k of
        CompactionStart s \<Rightarrow> (case cs_dispatch s of None \<Rightarrow> False | Some d \<Rightarrow> ds_trigger d = ContextOverflow)
      | _ \<Rightarrow> False)"

definition legal_closure :: "attempt_disposition option \<Rightarrow> event_kind \<Rightarrow> bool" where
  "legal_closure disposition k =
     (case disposition of
        None \<Rightarrow> False
      | Some d \<Rightarrow>
          (case d of
             DispCommitted \<Rightarrow> is_assistant_message k
           | DispRetry \<Rightarrow> (case k of LlmRetry _ \<Rightarrow> True | _ \<Rightarrow> False)
           | DispContextOverflow \<Rightarrow> is_context_start k
           | _ \<Rightarrow> is_step_end k))"

definition is_compaction_start :: "event_kind \<Rightarrow> bool" where
  "is_compaction_start k = (case k of CompactionStart _ \<Rightarrow> True | _ \<Rightarrow> False)"

definition is_compaction_prune :: "event_kind \<Rightarrow> bool" where
  "is_compaction_prune k = (case k of CompactionPrune _ \<Rightarrow> True | _ \<Rightarrow> False)"

definition apply_context_overflow_transition :: "projection \<Rightarrow> session_event \<Rightarrow> event_error + projection" where
  "apply_context_overflow_transition p e =
     (case pj_boundary p of
        InStep s \<Rightarrow>
          bindR (lift_attempt (context_overflow (pj_attempt p) (os_turn s) (os_step s)
                   (co_replacement_generation (pj_compaction p)) (is_compaction_start (ev_kind e)))) (\<lambda>a.
            Inr (p\<lparr>pj_attempt := a\<rparr>))
      | _ \<Rightarrow> Inl (AttemptE (boundary (event_type_static (ev_kind e))
               ''context-overflow recovery requires the matching open step'')))"

text \<open>The last part: the attempt operation that the event names.\<close>

definition attempt_by_kind ::
  "externals \<Rightarrow> projection \<Rightarrow> session_event \<Rightarrow> admission \<Rightarrow> attempt_disposition option
     \<Rightarrow> event_error + projection" where
  "attempt_by_kind E p e adm disposition =
     (case ev_kind e of
        StepStart turn step \<Rightarrow>
          if disposition \<noteq> None
          then Inl (AttemptE (boundary ''step/start'' ''step/start cannot close a provider attempt''))
          else bindR (lift_attempt (step_start (pj_attempt p) turn step)) (\<lambda>a. Inr (p\<lparr>pj_attempt := a\<rparr>))
      | AssistantMessage _ _ _ _ \<Rightarrow>
          if disposition \<noteq> Some DispCommitted \<and> adm = OwnedAttempt
          then Inl (AttemptE (boundary ''assistant/message''
                 ''assistant/message requires the committed disposition''))
          else
            bindR (lift_attempt (assistant E (pj_attempt p) e)) (\<lambda>(a, facts).
            bindR (prepare_token_anchor E p e facts) (\<lambda>anchor.
              Inr (p\<lparr>pj_token_anchor := Some anchor, pj_attempt := a\<rparr>)))
      | LlmRetry _ \<Rightarrow>
          if disposition \<noteq> Some DispRetry \<and> adm = OwnedAttempt
          then Inl (AttemptE (boundary ''llm/retry'' ''llm/retry requires the retry disposition''))
          else bindR (lift_attempt (retry_attempt (pj_attempt p) e)) (\<lambda>a. Inr (p\<lparr>pj_attempt := a\<rparr>))
      | LlmRetryStarted st \<Rightarrow>
          if disposition \<noteq> None
          then Inl (AttemptE (boundary ''llm/retry-started'' ''retry-started cannot close a provider attempt''))
          else if open_turn p \<noteq> Some (ls_turn st) \<or> open_step p \<noteq> Some (ls_step st) then Inr p
          else bindR (lift_attempt (retry_started (pj_attempt p) (ls_turn st) (ls_step st))) (\<lambda>a.
                 Inr (p\<lparr>pj_attempt := a\<rparr>))
      | StepEnd turn step \<Rightarrow>
          (let normalized = (if adm = ColdScan \<and> has_open_attempt (pj_attempt p)
                             then Some DispFailed else disposition) in
           bindR (lift_attempt (step_end (pj_attempt p) turn step normalized)) (\<lambda>a.
             Inr (p\<lparr>pj_attempt := a\<rparr>)))
      | _ \<Rightarrow> Inr p)"

definition apply_attempt_transition ::
  "externals \<Rightarrow> projection \<Rightarrow> session_event \<Rightarrow> admission \<Rightarrow> attempt_disposition option
     \<Rightarrow> event_error + projection" where
  "apply_attempt_transition E p e adm disposition =
     (let k = ev_kind e; a = pj_attempt p in
      if pj_policy p = MemoryCompatible \<and> adm \<noteq> OwnedAttempt \<and> is_outside_step a then Inr p
      else if adm = OwnedAttempt \<and> \<not> legal_closure disposition k
      then Inl (AttemptE (boundary (event_type_static k)
             ''the closure event does not match its attempt disposition''))
      else if disposition = Some DispContextOverflow then apply_context_overflow_transition p e
      else if adm = ColdScan \<and> is_context_start k then
        (if at_overflow_used a \<and> \<not> has_open_attempt a then
           (case pj_boundary p of
              InStep s \<Rightarrow>
                bindR (lift_attempt (context_overflow_start a (os_turn s) (os_step s))) (\<lambda>a.
                  Inr (p\<lparr>pj_attempt := a\<rparr>))
            | _ \<Rightarrow> Inl (AttemptE (boundary ''compaction/start''
                     ''context-overflow compaction requires the matching open step'')))
         else apply_context_overflow_transition p e)
      else if adm = ColdScan \<and> is_compaction_prune k \<and> open_step p \<noteq> None \<and> has_open_attempt a
      then apply_context_overflow_transition p e
      else attempt_by_kind E p e adm disposition)"

definition owns_attempts :: "projection \<Rightarrow> bool" where
  "owns_attempts p = (pj_policy p = DurableStrict \<or> \<not> is_outside_step (pj_attempt p))"

definition reject_unowned_context_overflow_start :: "projection \<Rightarrow> session_event \<Rightarrow> event_error + unit" where
  "reject_unowned_context_overflow_start p e =
     (if owns_attempts p \<and> is_context_start (ev_kind e)
      then Inl (TransitionE (DurableAttemptEventNotAllowed ''compaction/start'')) else Inr ())"

definition is_attempt_fact :: "event_kind \<Rightarrow> bool" where
  "is_attempt_fact k =
     (case k of
        AssistantChunk _ _ _ \<Rightarrow> True
      | AssistantMessage _ _ _ _ \<Rightarrow> True
      | LlmRetry _ \<Rightarrow> True
      | _ \<Rightarrow> False)"

definition reject_unowned_attempt_event :: "projection \<Rightarrow> session_event \<Rightarrow> event_error + unit" where
  "reject_unowned_attempt_event p e =
     (if owns_attempts p \<and> is_attempt_fact (ev_kind e)
      then Inl (TransitionE (DurableAttemptEventNotAllowed (event_type_static (ev_kind e)))) else Inr ())"

section \<open>Entry points\<close>

definition is_retry_started :: "event_kind \<Rightarrow> bool" where
  "is_retry_started k = (case k of LlmRetryStarted _ \<Rightarrow> True | _ \<Rightarrow> False)"

definition is_step_boundary :: "event_kind \<Rightarrow> bool" where
  "is_step_boundary k = (case k of StepStart _ _ \<Rightarrow> True | StepEnd _ _ \<Rightarrow> True | _ \<Rightarrow> False)"

text \<open>What \<open>with_event\<close> and \<open>prepare_durable_event\<close> share: all of it but the row binding.\<close>

definition ordinary_event ::
  "externals \<Rightarrow> projection \<Rightarrow> session_event \<Rightarrow> row_binding \<Rightarrow> event_error + projection" where
  "ordinary_event E p e binding =
     bindR (event_validate E (ev_kind e)) (\<lambda>_.
     bindR (reject_unowned_attempt_event p e) (\<lambda>_.
     bindR (next_compaction_state E p e Ordinary) (\<lambda>c.
     bindR (reject_unowned_context_overflow_start p e) (\<lambda>_.
     bindR (if is_retry_started (ev_kind e) then
              bindR (lift_transition (apply_transition p e Ordinary)) (\<lambda>p.
                apply_attempt_transition E p e Ordinary None)
            else
              bindR (if is_step_boundary (ev_kind e) then apply_attempt_transition E p e Ordinary None
                     else Inr p) (\<lambda>p.
                lift_transition (apply_transition p e Ordinary))) (\<lambda>p.
     bindR (lift_surface (apply_surface E p e binding)) (\<lambda>p.
       Inr (p\<lparr>pj_compaction := c\<rparr>)))))))"

definition with_event :: "externals \<Rightarrow> projection \<Rightarrow> session_event \<Rightarrow> event_error + projection" where
  "with_event E p e = ordinary_event E p e BindMemory"

definition with_compatible_event :: "externals \<Rightarrow> projection \<Rightarrow> session_event \<Rightarrow> event_error + projection" where
  "with_compatible_event E p e =
     bindR (event_validate E (ev_kind e)) (\<lambda>_.
     bindR (next_compaction_state E p e CompatibilityReplay) (\<lambda>c.
     bindR (lift_transition (apply_transition p e CompatibilityReplay)) (\<lambda>p.
     bindR (lift_surface (apply_surface E p e BindMemory)) (\<lambda>p.
       Inr (p\<lparr>pj_compaction := c\<rparr>)))))"

datatype prepared_projection =
    PrepProjection projection "nat option"
  | PrepAttemptChunk prepared_attempt_chunk compaction_state

definition tool_result_seq :: "session_event \<Rightarrow> nat option" where
  "tool_result_seq e = (if is_tool_result (ev_kind e) then Some (ev_seq e) else None)"

definition prepare_durable_event ::
  "externals \<Rightarrow> projection \<Rightarrow> session_event \<Rightarrow> event_error + prepared_projection" where
  "prepare_durable_event E p e =
     bindR (ordinary_event E p e BindPending) (\<lambda>p. Inr (PrepProjection p (tool_result_seq e)))"

definition prepare_durable_attempt_chunk ::
  "externals \<Rightarrow> projection \<Rightarrow> session_event \<Rightarrow> event_error + prepared_projection" where
  "prepare_durable_attempt_chunk E p e =
     bindR (event_validate E (ev_kind e)) (\<lambda>_.
       case ev_kind e of
         AssistantChunk turn step _ \<Rightarrow>
           bindR (lift_transition (require_open_step p (event_type_static (ev_kind e)) turn step)) (\<lambda>_.
             if ev_surface_op e \<noteq> None \<or> ev_source_event_seqs e \<noteq> None
             then Inl (SurfaceE (MetadataOnIneligibleEvent (event_type (ev_kind e))))
             else
               bindR (next_compaction_state E p e OwnedAttempt) (\<lambda>c.
               bindR (lift_attempt (prepare_chunk E (pj_attempt p) e (pj_header p)
                        (co_replacement_generation (pj_compaction p)))) (\<lambda>q.
                 Inr (PrepAttemptChunk q c))))
       | _ \<Rightarrow> Inl (TransitionE (DurableAttemptEventNotAllowed (event_type_static (ev_kind e)))))"

definition prepare_durable_attempt_closure ::
  "externals \<Rightarrow> projection \<Rightarrow> session_event \<Rightarrow> attempt_disposition \<Rightarrow> event_error + prepared_projection" where
  "prepare_durable_attempt_closure E p e disposition =
     bindR (event_validate E (ev_kind e)) (\<lambda>_.
     bindR (next_compaction_state E p e OwnedAttempt) (\<lambda>c.
     bindR (apply_attempt_transition E p e OwnedAttempt (Some disposition)) (\<lambda>p.
     bindR (lift_transition (apply_transition p e OwnedAttempt)) (\<lambda>p.
     bindR (lift_surface (apply_surface E p e BindPending)) (\<lambda>p.
       Inr (PrepProjection (p\<lparr>pj_compaction := c\<rparr>) None))))))"

definition prepare_owned_prune_event ::
  "externals \<Rightarrow> projection \<Rightarrow> session_event \<Rightarrow> event_error + prepared_projection" where
  "prepare_owned_prune_event E p e =
     bindR (event_validate E (ev_kind e)) (\<lambda>_.
     bindR (next_compaction_state E p e OwnedPrune) (\<lambda>c.
     bindR (lift_transition (apply_transition p e OwnedPrune)) (\<lambda>p.
     bindR (lift_surface (apply_surface E p e BindPending)) (\<lambda>p.
       Inr (PrepProjection (p\<lparr>pj_compaction := c\<rparr>) (tool_result_seq e))))))"

definition prepare_owned_overflow_prune_event ::
  "externals \<Rightarrow> projection \<Rightarrow> session_event \<Rightarrow> event_error + prepared_projection" where
  "prepare_owned_overflow_prune_event E p e =
     bindR (event_validate E (ev_kind e)) (\<lambda>_.
     bindR (next_compaction_state E p e OwnedOverflowPrune) (\<lambda>c.
     bindR (apply_context_overflow_transition p e) (\<lambda>p.
     bindR (lift_transition (apply_transition p e OwnedOverflowPrune)) (\<lambda>p.
     bindR (lift_surface (apply_surface E p e BindPending)) (\<lambda>p.
       Inr (PrepProjection (p\<lparr>pj_compaction := c\<rparr>) None))))))"

text \<open>The result of a commit and the projection it leaves.\<close>

definition commit_attempt_chunk ::
  "projection \<Rightarrow> prepared_attempt_chunk \<Rightarrow> compaction_state \<Rightarrow> bool \<times> projection" where
  "commit_attempt_chunk p q c =
     (case commit_chunk (pj_attempt p) q of
        (True, a) \<Rightarrow> (True, p\<lparr>pj_attempt := a, pj_compaction := c\<rparr>)
      | (False, a) \<Rightarrow> (False, p\<lparr>pj_attempt := a\<rparr>))"

definition commit_memory :: "prepared_projection \<Rightarrow> projection \<Rightarrow> bool \<times> projection" where
  "commit_memory prepared p =
     (case prepared of
        PrepProjection q None \<Rightarrow> (True, q)
      | PrepProjection _ (Some _) \<Rightarrow> (False, p)
      | PrepAttemptChunk q c \<Rightarrow> commit_attempt_chunk p q c)"

definition commit_row :: "prepared_projection \<Rightarrow> projection \<Rightarrow> row_locator \<Rightarrow> bool \<times> projection" where
  "commit_row prepared p row =
     (case prepared of
        PrepProjection q None \<Rightarrow> (True, q)
      | PrepProjection q (Some seq) \<Rightarrow>
          if seq \<noteq> row_seq row then (False, p)
          else (case bind_tool_result_row q seq row of None \<Rightarrow> (False, p) | Some q \<Rightarrow> (True, q))
      | PrepAttemptChunk q c \<Rightarrow> commit_attempt_chunk p q c)"

text \<open>Dispatching a provider call and taking its sealed result.\<close>

definition prepare_live_attempt :: "projection \<Rightarrow> nat \<Rightarrow> nat \<Rightarrow> attempt_error + prepared_live" where
  "prepare_live_attempt p turn step =
     (if co_open (pj_compaction p) \<noteq> None
      then Inl (boundary ''provider dispatch'' ''a compaction transaction is still open'')
      else
        bindR (if pj_policy p = MemoryCompatible \<and> is_outside_step (pj_attempt p) then
                 (if open_turn p \<noteq> Some turn \<or> open_step p \<noteq> Some step
                  then Inl (boundary ''assistant/chunk'' ''the attempt does not belong to the open step'')
                  else step_start (pj_attempt p) turn step)
               else Inr (pj_attempt p)) (\<lambda>a.
          prepare_begin_live a turn step (pj_header p) (co_replacement_generation (pj_compaction p))))"

text \<open>The flag is the pointer comparison: the projection still holds the attempt it was prepared from.\<close>

definition commit_live_attempt :: "bool \<Rightarrow> projection \<Rightarrow> prepared_live \<Rightarrow> attempt_error + projection" where
  "commit_live_attempt same_attempt p l =
     (if \<not> same_attempt then Inl OwnershipChanged else Inr (p\<lparr>pj_attempt := commit_live l\<rparr>))"

definition seal_live_attempt ::
  "externals \<Rightarrow> projection \<Rightarrow> attempt_error + prepared_attempt \<times> projection" where
  "seal_live_attempt E p =
     bindR (take_prepared E (pj_attempt p)) (\<lambda>(r, a). Inr (r, p\<lparr>pj_attempt := a\<rparr>))"

section \<open>Cold scan\<close>

definition apply_scanned_chunk ::
  "externals \<Rightarrow> projection \<Rightarrow> session_event \<Rightarrow> nat \<Rightarrow> nat \<Rightarrow> row_locator \<Rightarrow> event_error + projection" where
  "apply_scanned_chunk E p e turn step row =
     bindR (lift_transition (require_open_step p (event_type_static (ev_kind e)) turn step)) (\<lambda>_.
     bindR (next_compaction_state E p e ColdScan) (\<lambda>c.
     bindR (lift_surface (apply_surface E p e (BindDurable row))) (\<lambda>p.
     bindR (lift_attempt (prepare_chunk E (pj_attempt p) e (pj_header p)
              (co_replacement_generation (pj_compaction p)))) (\<lambda>q.
       case commit_chunk (pj_attempt p) q of
         (True, a) \<Rightarrow> Inr (p\<lparr>pj_attempt := a, pj_compaction := c\<rparr>)
       | (False, _) \<Rightarrow> Inl (AttemptE (boundary ''assistant/chunk''
                          ''cold attempt fold changed after validation''))))))"

definition apply_scanned_row ::
  "externals \<Rightarrow> projection \<Rightarrow> session_event \<Rightarrow> row_locator \<Rightarrow> event_error + projection" where
  "apply_scanned_row E p e row =
     bindR (event_validate E (ev_kind e)) (\<lambda>_.
       case ev_kind e of
         AssistantChunk turn step _ \<Rightarrow> apply_scanned_chunk E p e turn step row
       | _ \<Rightarrow>
           bindR (next_compaction_state E p e ColdScan) (\<lambda>c.
           bindR (if is_retry_started (ev_kind e) then
                    bindR (lift_transition (apply_transition p e ColdScan)) (\<lambda>p.
                      apply_attempt_transition E p e ColdScan None)
                  else
                    bindR (apply_attempt_transition E p e ColdScan None) (\<lambda>p.
                      lift_transition (apply_transition p e ColdScan))) (\<lambda>p.
           bindR (lift_surface (apply_surface E p e (BindDurable row))) (\<lambda>p.
             Inr (p\<lparr>pj_compaction := c\<rparr>)))))"

section \<open>Recovery\<close>

datatype recovery_action =
    CancelApproval string
  | RepairCall string
  | CloseStep nat nat "recovery_proof option"
  | CloseTurn nat
  | ActEndSeed

text \<open>The event a recovery action admits, and what it does to the attempt first.\<close>

definition admit_recovery ::
  "externals \<Rightarrow> projection \<Rightarrow> recovery_action \<Rightarrow> event_kind \<Rightarrow> event_error + projection" where
  "admit_recovery E p action k =
     (let refused = Inl (AttemptE (boundary (event_type_static k)
            ''the recovery action does not match its deterministic event'')) in
      case action of
        CancelApproval i \<Rightarrow>
          (case k of
             ApprovalDecided d \<Rightarrow> if ap_id d = i \<and> ap_outcome d = Cancelled then Inr p else refused
           | _ \<Rightarrow> refused)
      | RepairCall call_id \<Rightarrow>
          (case k of
             ToolResult _ _ m _ _ \<Rightarrow> if validate_tool_result m = Inr call_id then Inr p else refused
           | _ \<Rightarrow> refused)
      | CloseStep at' as' interrupted \<Rightarrow>
          (case k of
             StepEnd turn step \<Rightarrow>
               if at' = turn \<and> as' = step then
                 bindR (lift_attempt (case interrupted of
                          Some pf \<Rightarrow> interrupt_for_recovery E (pj_attempt p) turn step pf
                        | None \<Rightarrow> step_end (pj_attempt p) turn step None)) (\<lambda>a.
                   Inr (p\<lparr>pj_attempt := a\<rparr>))
               else refused
           | _ \<Rightarrow> refused)
      | CloseTurn at' \<Rightarrow>
          (case k of
             TurnEnd turn r \<Rightarrow> if at' = turn \<and> r = TurnInterrupted then Inr p else refused
           | _ \<Rightarrow> refused)
      | ActEndSeed \<Rightarrow>
          (case k of
             EndSeed \<Rightarrow> if is_outside_step (pj_attempt p) then Inr p else refused
           | _ \<Rightarrow> refused))"

definition apply_recovery_admission ::
  "externals \<Rightarrow> projection \<Rightarrow> recovery_action \<Rightarrow> session_event \<Rightarrow> row_locator option
     \<Rightarrow> event_error + projection" where
  "apply_recovery_admission E p action e row =
     bindR (event_validate E (ev_kind e)) (\<lambda>_.
     bindR (admit_recovery E p action (ev_kind e)) (\<lambda>p.
     bindR (next_compaction_state E p e HistoricalScan) (\<lambda>c.
     bindR (lift_transition (apply_transition p e HistoricalScan)) (\<lambda>p.
     bindR (lift_surface (apply_surface E p e
              (case row of None \<Rightarrow> BindPending | Some r \<Rightarrow> BindDurable r))) (\<lambda>p.
       Inr (p\<lparr>pj_compaction := c\<rparr>))))))"

end
