(* ===== verification/Projection_Frames.thy ===== *)
theory Projection_Frames
  imports Projection
begin

text \<open>
  What each part of the reducer leaves alone, and what it needs: the shared facts of the proofs
  about the projection.
\<close>

section \<open>Taking results apart\<close>

lemma if_InrE:
  assumes "(if c then x else y) = Inr z"
  obtains "c" "x = Inr z" | "\<not> c" "y = Inr z"
  using assms by (auto split: if_splits)

lemmas result_elims = bindR_InrE if_InrE

lemma ok_or_map_err_iff:
  "ok_or e m = Inr y \<longleftrightarrow> m = Some y"
  "map_err g r = Inr y \<longleftrightarrow> r = Inr y"
  by (simp_all add: result_simps)

section \<open>Frames\<close>

text \<open>A projection without the fields an operation may change.\<close>

definition erase_attempt :: "projection \<Rightarrow> projection" where
  "erase_attempt p = p\<lparr>pj_attempt := attempt_default, pj_token_anchor := None\<rparr>"

definition erase_surface :: "projection \<Rightarrow> projection" where
  "erase_surface p = p\<lparr>pj_surface := [], pj_surface_tokens := 0, pj_resident_bytes := 0\<rparr>"

lemma erase_attempt_fields:
  assumes "erase_attempt p' = erase_attempt p"
  shows "pj_policy p' = pj_policy p" "pj_session_id p' = pj_session_id p" "pj_next_turn p' = pj_next_turn p"
    "pj_boundary p' = pj_boundary p" "pj_surface p' = pj_surface p"
    "pj_surface_tokens p' = pj_surface_tokens p" "pj_resident_bytes p' = pj_resident_bytes p"
    "pj_header p' = pj_header p" "pj_compaction p' = pj_compaction p"
    "pj_pending_approvals p' = pj_pending_approvals p" "pj_owned_approvals p' = pj_owned_approvals p"
    "pj_retry_chains p' = pj_retry_chains p" "pj_retry_schedules p' = pj_retry_schedules p"
    "open_turn p' = open_turn p" "open_step p' = open_step p"
  using assms by (cases p; cases p'; simp add: erase_attempt_def open_turn_def open_step_def)+

lemma erase_surface_fields:
  assumes "erase_surface p' = erase_surface p"
  shows "pj_policy p' = pj_policy p" "pj_session_id p' = pj_session_id p" "pj_next_turn p' = pj_next_turn p"
    "pj_boundary p' = pj_boundary p" "pj_attempt p' = pj_attempt p" "pj_token_anchor p' = pj_token_anchor p"
    "pj_header p' = pj_header p" "pj_compaction p' = pj_compaction p"
    "pj_pending_approvals p' = pj_pending_approvals p" "pj_owned_approvals p' = pj_owned_approvals p"
    "pj_retry_chains p' = pj_retry_chains p" "pj_retry_schedules p' = pj_retry_schedules p"
    "open_turn p' = open_turn p" "open_step p' = open_step p"
  using assms by (cases p; cases p'; simp add: erase_surface_def open_turn_def open_step_def)+

lemma erase_attempt_update [simp]:
  "erase_attempt (p\<lparr>pj_attempt := a\<rparr>) = erase_attempt p"
  "erase_attempt (p\<lparr>pj_token_anchor := t\<rparr>) = erase_attempt p"
  by (simp_all add: erase_attempt_def)

lemma context_overflow_frame:
  "apply_context_overflow_transition p e = Inr p' \<Longrightarrow> erase_attempt p' = erase_attempt p"
  by (auto simp: apply_context_overflow_transition_def result_simps split: boundary_state.splits)

lemma attempt_by_kind_frame:
  "attempt_by_kind E p e adm d = Inr p' \<Longrightarrow> erase_attempt p' = erase_attempt p"
  unfolding attempt_by_kind_def Let_def
  by (cases "ev_kind e") (auto simp: result_simps split: if_splits)

lemma attempt_transition_frame:
  "apply_attempt_transition E p e adm d = Inr p' \<Longrightarrow> erase_attempt p' = erase_attempt p"
  unfolding apply_attempt_transition_def Let_def
  by (auto simp: result_simps dest: context_overflow_frame attempt_by_kind_frame
      split: if_splits boundary_state.splits)

lemma node_frame:
  "append_node p n = Inr p' \<Longrightarrow> erase_surface p' = erase_surface p"
  "splice_node p i j n = Inr p' \<Longrightarrow> erase_surface p' = erase_surface p"
  by (auto simp: append_node_def splice_node_def Let_def erase_surface_def elim!: result_elims)

lemma replace_range_frame:
  "replace_range E p e b x y = Inr p' \<Longrightarrow> erase_surface p' = erase_surface p"
  unfolding replace_range_def Let_def
  by (elim result_elims) (auto elim!: result_elims dest: node_frame split: option.split_asm)

lemma surface_frame:
  "apply_surface E p e b = Inr p' \<Longrightarrow> erase_surface p' = erase_surface p"
  unfolding apply_surface_def
  by (elim result_elims)
    (auto elim!: result_elims dest: node_frame replace_range_frame split: surface_op.split_asm)

text \<open>A transition never touches the surface, the attempt, the anchor or the compaction state.\<close>

definition keeps_outside :: "projection \<Rightarrow> projection \<Rightarrow> bool" where
  "keeps_outside p p' =
     (pj_policy p' = pj_policy p \<and> pj_session_id p' = pj_session_id p
      \<and> pj_surface p' = pj_surface p \<and> pj_surface_tokens p' = pj_surface_tokens p
      \<and> pj_resident_bytes p' = pj_resident_bytes p \<and> pj_attempt p' = pj_attempt p
      \<and> pj_token_anchor p' = pj_token_anchor p \<and> pj_compaction p' = pj_compaction p)"

lemma keeps_outside_refl [simp]: "keeps_outside p p"
  by (simp add: keeps_outside_def)

lemma keeps_outside_declared [simp]: "keeps_outside p (set_declared p s d)"
  by (simp add: keeps_outside_def set_declared_def)

lemma calls_frame:
  "register_durable_declarations p m = Inr p' \<Longrightarrow> keeps_outside p p'"
  "promote_durable_call p seq i n a = Inr p' \<Longrightarrow> keeps_outside p p'"
  "ask_durable_approval p asked = Inr p' \<Longrightarrow> keeps_outside p p'"
  "decide_durable_approval p decided = Inr p' \<Longrightarrow> keeps_outside p p'"
  "resolve_durable_call p e m f adm = Inr p' \<Longrightarrow> keeps_outside p p'"
  "apply_retry p r = Inr p' \<Longrightarrow> keeps_outside p p'"
  "apply_retry_started p st = Inr p' \<Longrightarrow> keeps_outside p p'"
  unfolding register_durable_declarations_def promote_durable_call_def ask_durable_approval_def
      decide_durable_approval_def resolve_durable_call_def apply_retry_def apply_retry_started_def Let_def
  by (auto elim!: result_elims split: boundary_state.split_asm option.split_asm list.split_asm
      simp: keeps_outside_def set_declared_def)

lemma set_pending_frame: "keeps_outside p (set_pending q f) = keeps_outside p q"
  by (auto simp: set_pending_def keeps_outside_def split: boundary_state.splits)

lemma kind_frame:
  assumes "apply_kind p e adm = Inr p'"
  shows "keeps_outside p p'"
proof (cases "ev_kind e")
  case (ToolCall turn step i n a)
  with assms show ?thesis
    by (auto simp: apply_kind_def apply_tool_call_def result_simps set_pending_frame dest: calls_frame)
next
  case (ToolResult turn step m f meta)
  with assms show ?thesis
    by (auto simp: apply_kind_def apply_tool_result_def result_simps set_pending_frame dest: calls_frame
        split: if_splits boundary_state.splits option.splits)
next
  case (ApprovalAsked asked)
  with assms show ?thesis
    by (auto simp: apply_kind_def apply_approval_asked_def result_simps split: if_splits dest!: calls_frame)
      (simp add: keeps_outside_def)
next
  case (ApprovalDecided decided)
  with assms show ?thesis
    by (auto simp: apply_kind_def apply_approval_decided_def result_simps split: option.splits dest!: calls_frame)
      (simp add: keeps_outside_def)
next
  case (StepEnd turn step)
  with assms show ?thesis
    by (auto simp: apply_kind_def apply_step_end_def keeps_outside_def result_simps split: list.splits)
next
  case (AssistantMessage turn step m u)
  with assms show ?thesis by (auto simp: apply_kind_def result_simps dest: calls_frame)
next
  case (LlmRetry r)
  with assms show ?thesis by (auto simp: apply_kind_def result_simps dest: calls_frame)
next
  case (LlmRetryStarted st)
  with assms show ?thesis by (auto simp: apply_kind_def result_simps dest: calls_frame)
qed (use assms in \<open>auto simp: apply_kind_def result_simps apply_turn_start_def apply_turn_end_def
    apply_step_start_def keeps_outside_def split: if_splits boundary_state.splits option.splits list.splits\<close>)

lemma transition_frame: "apply_transition p e adm = Inr p' \<Longrightarrow> keeps_outside p p'"
  by (auto simp: apply_transition_def result_simps dest: kind_frame)

end
