(* ===== verification/Surface_Proofs.thy ===== *)
theory Surface_Proofs
  imports Projection_Frames
begin

text \<open>
  The running totals of the surface.  A total is an interface: what appending a node and splicing
  a range do to it; the locale derives that the total is the sum over the nodes after every event,
  and is interpreted for the token estimate and for the resident bytes.
\<close>

section \<open>Sums of a range\<close>

lemma sum_by_acc:
  "fold (\<lambda>x total_n. Option.bind total_n (\<lambda>t. checked_add_u64 t (f x))) xs acc =
     (case acc of
        None \<Rightarrow> None
      | Some t \<Rightarrow>
          if xs = [] then Some t
          else if t + sum_list (map f xs) < U64_LIMIT then Some (t + sum_list (map f xs)) else None)"
proof (induction xs arbitrary: acc)
  case (Cons x xs)
  show ?case
  proof (cases acc)
    case (Some t)
    show ?thesis
      unfolding fold_Cons comp_apply Cons.IH Some by (auto simp: checked_add_u64_def split: option.splits)
  qed (simp add: Cons.IH)
qed (simp split: option.split)

lemma sum_by_Some: "sum_by f xs = Some n \<Longrightarrow> n = sum_list (map f xs)"
  by (auto simp: sum_by_def sum_by_acc split: if_splits)

lemma range_split:
  assumes "i \<le> j"
  shows "take i xs @ drop i (take (Suc j) xs) @ drop (Suc j) xs = xs"
proof -
  have "take i xs @ drop i (take (Suc j) xs) = take (Suc j) xs"
    using append_take_drop_id[of i "take (Suc j) xs"] assms by (simp add: min_def)
  then show ?thesis by (simp flip: append_assoc)
qed

lemma splice_sum:
  assumes "i \<le> j"
  shows "sum_list (map (f :: 'a \<Rightarrow> nat) (take i xs @ n # drop (Suc j) xs)) + sum_list (map f (drop i (take (Suc j) xs)))
       = sum_list (map f xs) + f n"
proof -
  have "sum_list (map f (take i xs @ drop i (take (Suc j) xs) @ drop (Suc j) xs)) = sum_list (map f xs)"
    by (rule arg_cong[where f = "\<lambda>ys. sum_list (map f ys)", OF range_split[OF assms]])
  then show ?thesis by simp
qed

section \<open>Shapes of surface changes\<close>

lemma append_node_shape:
  "append_node p n = Inr p' \<Longrightarrow> pj_surface p' = pj_surface p @ [n]
     \<and> pj_surface_tokens p' = pj_surface_tokens p + sn_tokens n \<and> pj_surface_tokens p' < U64_LIMIT
     \<and> pj_resident_bytes p' = pj_resident_bytes p + node_bytes n \<and> pj_resident_bytes p' < U64_LIMIT"
  by (auto simp: append_node_def result_simps checked_simps)

lemma replace_total_shape:
  "replace_total err t removed added = Inr t' \<Longrightarrow> \<exists>r. removed = Some r \<and> r \<le> t \<and> t' = t - r + added \<and> t' < U64_LIMIT"
  by (auto simp: replace_total_def result_simps checked_simps split: bind_splits)

lemma splice_node_shape:
  assumes "splice_node p i j n = Inr p'"
  shows "pj_surface p' = take i (pj_surface p) @ n # drop (Suc j) (pj_surface p)"
    "pj_surface_tokens p' = pj_surface_tokens p - sum_list (map sn_tokens (drop i (take (Suc j) (pj_surface p)))) + sn_tokens n"
    "sum_list (map sn_tokens (drop i (take (Suc j) (pj_surface p)))) \<le> pj_surface_tokens p"
    "pj_resident_bytes p' = pj_resident_bytes p - sum_list (map node_bytes (drop i (take (Suc j) (pj_surface p)))) + node_bytes n"
    "sum_list (map node_bytes (drop i (take (Suc j) (pj_surface p)))) \<le> pj_resident_bytes p"
    "pj_surface_tokens p' < U64_LIMIT" "pj_resident_bytes p' < U64_LIMIT"
  using assms by (auto simp: splice_node_def Let_def result_simps dest!: replace_total_shape sum_by_Some)

text \<open>An accepted event leaves the surface, appends its node, or puts it in place of a range.\<close>

lemma apply_surface_cases:
  assumes "apply_surface E p e b = Inr p'"
  obtains (none) "\<not> is_surface_eligible (ev_kind e)" "p' = p" "ev_surface_op e = None" "ev_source_event_seqs e = None"
  | (append) n where "is_surface_eligible (ev_kind e)" "ev_surface_op e = Some SurfaceAppend"
      "validate_sources e = Inr ()" "surface_node_of E e b = Inr n" "append_node p n = Inr p'"
  | (splice) x y i j n where "is_surface_eligible (ev_kind e)" "ev_surface_op e = Some (SurfaceReplace x y)"
      "validate_sources e = Inr ()"
      "position (\<lambda>n. sn_seq n = x) (pj_surface p) = Some i" "position (\<lambda>n. sn_seq n = y) (pj_surface p) = Some j"
      "i \<le> j" "j < length (pj_surface p)" "surface_node_of E e b = Inr n" "splice_node p i j n = Inr p'"
      "\<And>s. s \<in> set (drop i (take (Suc j) (pj_surface p))) \<Longrightarrow>
          \<exists>sources. ev_source_event_seqs e = Some sources \<and> sn_seq s \<in> set sources"
      "is_tool_result (ev_kind e) \<longrightarrow>
          validate_tool_result_rewrite E e (drop i (take (Suc j) (pj_surface p))) = Inr ()"
proof (cases "is_surface_eligible (ev_kind e)")
  case False
  with assms have "p' = p" "ev_surface_op e = None" "ev_source_event_seqs e = None"
    by (auto simp: apply_surface_def split: if_splits)
  with False show thesis by (rule none)
next
  case True
  with assms obtain op where op: "ev_surface_op e = Some op" "validate_sources e = Inr ()"
    and rest: "(case op of
            SurfaceAppend \<Rightarrow> bindR (surface_node_of E e b) (\<lambda>n. append_node p n)
          | SurfaceReplace start_seq end_seq \<Rightarrow> replace_range E p e b start_seq end_seq) = Inr p'"
    unfolding apply_surface_def by (auto elim!: result_elims simp: ok_or_map_err_iff)
  show thesis
  proof (cases op)
    case SurfaceAppend
    with rest op True show thesis by (auto elim!: result_elims intro: append)
  next
    case (SurfaceReplace x y)
    with rest have "replace_range E p e b x y = Inr p'" by simp
    then obtain i j n where r:
      "position (\<lambda>n. sn_seq n = x) (pj_surface p) = Some i" "position (\<lambda>n. sn_seq n = y) (pj_surface p) = Some j"
      "i \<le> j" "surface_node_of E e b = Inr n" "splice_node p i j n = Inr p'"
      "find (\<lambda>n. sn_seq n \<notin> set (case ev_source_event_seqs e of None \<Rightarrow> [] | Some xs \<Rightarrow> xs))
         (drop i (take (Suc j) (pj_surface p))) = None"
      "is_tool_result (ev_kind e) \<longrightarrow>
          validate_tool_result_rewrite E e (drop i (take (Suc j) (pj_surface p))) = Inr ()"
      unfolding replace_range_def Let_def
      by (auto elim!: result_elims simp: ok_or_map_err_iff split: option.split_asm)
    have src: "\<exists>sources. ev_source_event_seqs e = Some sources \<and> sn_seq s \<in> set sources"
      if "s \<in> set (drop i (take (Suc j) (pj_surface p)))" for s
      using r(6) that by (cases "ev_source_event_seqs e") (auto simp: find_None_iff)
    have "j < length (pj_surface p)" using position_SomeD[OF r(2)] by simp
    with r src SurfaceReplace op True show thesis by (intro splice) auto
  qed
qed

section \<open>The locale\<close>

locale running_total =
  fixes weight :: "surface_node \<Rightarrow> nat"
    and total_of :: "projection \<Rightarrow> nat"
  assumes append_total: "append_node p n = Inr p' \<Longrightarrow> total_of p' = total_of p + weight n"
    and splice_total: "splice_node p i j n = Inr p' \<Longrightarrow>
      total_of p' + sum_list (map weight (drop i (take (Suc j) (pj_surface p)))) = total_of p + weight n"
    and empty_total: "total_of (projection_empty policy) = 0"
    and erased_total: "keeps_outside p p' \<Longrightarrow> total_of p' = total_of p"
    and attempt_total: "erase_attempt p = erase_attempt p' \<Longrightarrow> total_of p' = total_of p"
    and compaction_total: "total_of (p\<lparr>pj_compaction := c\<rparr>) = total_of p"
    and session_total: "total_of (p\<lparr>pj_session_id := sid\<rparr>) = total_of p"
    and bind_weight: "weight (n\<lparr>sn_tool_result := r\<rparr>) = weight n"
    and bind_total: "total_of (p\<lparr>pj_surface := ns\<rparr>) = total_of p"
begin

definition accounted :: "projection \<Rightarrow> bool" where
  "accounted p = (total_of p = sum_list (map weight (pj_surface p)))"

lemma empty_accounted: "accounted (projection_empty policy)"
  by (simp add: accounted_def empty_total) (simp add: projection_empty_def)

lemma session_accounted: "accounted p \<Longrightarrow> accounted (p\<lparr>pj_session_id := sid\<rparr>)"
  by (simp add: accounted_def session_total)

lemma surface_accounted:
  assumes "accounted p" "apply_surface E p e b = Inr p'"
  shows "accounted p'"
  using assms(2)
proof (cases rule: apply_surface_cases)
  case none
  with assms(1) show ?thesis by simp
next
  case (append n)
  then show ?thesis
    using assms(1) append_node_shape[of p n p'] append_total[of p n p'] by (simp add: accounted_def)
next
  case (splice x y i j n)
  then show ?thesis
    using assms(1) splice_node_shape(1)[of p i j n p'] splice_total[of p i j n p']
      splice_sum[of i j weight "pj_surface p" n]
    by (simp add: accounted_def)
qed

lemma outside_accounted: "accounted p \<Longrightarrow> keeps_outside p p' \<Longrightarrow> accounted p'"
  by (simp add: accounted_def erased_total) (simp add: keeps_outside_def)

lemma attempt_accounted: "accounted p \<Longrightarrow> erase_attempt p' = erase_attempt p \<Longrightarrow> accounted p'"
  using attempt_total[of p p'] erase_attempt_fields(5)[of p' p] by (simp add: accounted_def)

lemma compaction_accounted [simp]: "accounted (p\<lparr>pj_compaction := c\<rparr>) = accounted p"
  by (simp add: accounted_def compaction_total)

lemma bind_accounted: "accounted p \<Longrightarrow> bind_tool_result_row p seq row = Some p' \<Longrightarrow> accounted p'"
  by (auto simp: bind_tool_result_row_def accounted_def bind_total map_update_first bind_weight
      split: option.splits tool_result_origin.splits)

end

interpretation tokens: running_total sn_tokens pj_surface_tokens
proof
  show "pj_surface_tokens p' = pj_surface_tokens p + sn_tokens n" if "append_node p n = Inr p'" for p n p'
    using append_node_shape[OF that] by blast
  show "pj_surface_tokens p' + sum_list (map sn_tokens (drop i (take (Suc j) (pj_surface p)))) = pj_surface_tokens p + sn_tokens n"
    if "splice_node p i j n = Inr p'" for p i j n p'
    using splice_node_shape(2,3)[OF that] by linarith
  show "pj_surface_tokens p' = pj_surface_tokens p" if "erase_attempt p = erase_attempt p'" for p p'
    using erase_attempt_fields(6)[OF that] by (rule sym)
qed (simp_all add: projection_empty_def keeps_outside_def)

interpretation bytes: running_total node_bytes pj_resident_bytes
proof
  show "pj_resident_bytes p' = pj_resident_bytes p + node_bytes n" if "append_node p n = Inr p'" for p n p'
    using append_node_shape[OF that] by blast
  show "pj_resident_bytes p' + sum_list (map node_bytes (drop i (take (Suc j) (pj_surface p)))) = pj_resident_bytes p + node_bytes n"
    if "splice_node p i j n = Inr p'" for p i j n p'
    using splice_node_shape(4,5)[OF that] by linarith
  show "pj_resident_bytes p' = pj_resident_bytes p" if "erase_attempt p = erase_attempt p'" for p p'
    using erase_attempt_fields(7)[OF that] by (rule sym)
qed (simp_all add: projection_empty_def keeps_outside_def node_bytes_def)

end
