(* ===== verification/Projection_Runs.thy ===== *)
theory Projection_Runs
  imports Surface_Proofs
begin

text \<open>
  The projection as a state machine: one rule per way an event (or a live provider call) reaches
  it, the projections reachable from an empty session, and what an accepted event does in every
  case.
\<close>

section \<open>Steps and reachable projections\<close>

text \<open>A step is labelled with the event it applies; dispatching and sealing a call apply none.\<close>

inductive projection_step :: "externals \<Rightarrow> projection \<Rightarrow> session_event option \<Rightarrow> projection \<Rightarrow> bool" for E where
  memory: "with_event E p e = Inr p' \<Longrightarrow> projection_step E p (Some e) p'"
| compatible: "pj_policy p = MemoryCompatible \<Longrightarrow> with_compatible_event E p e = Inr p' \<Longrightarrow> projection_step E p (Some e) p'"
| durable: "prepare_durable_event E p e = Inr q \<Longrightarrow> commit_row q p row = (True, p') \<Longrightarrow> projection_step E p (Some e) p'"
| chunk: "prepare_durable_attempt_chunk E p e = Inr q \<Longrightarrow> commit_row q p row = (True, p') \<Longrightarrow> projection_step E p (Some e) p'"
| chunk_memory: "prepare_durable_attempt_chunk E p e = Inr q \<Longrightarrow> commit_memory q p = (True, p') \<Longrightarrow> projection_step E p (Some e) p'"
| closure: "prepare_durable_attempt_closure E p e d = Inr q \<Longrightarrow> commit_row q p row = (True, p') \<Longrightarrow> projection_step E p (Some e) p'"
| closure_memory: "prepare_durable_attempt_closure E p e d = Inr q \<Longrightarrow> commit_memory q p = (True, p')
    \<Longrightarrow> projection_step E p (Some e) p'"
| prune: "is_prune_fact e \<Longrightarrow> prepare_owned_prune_event E p e = Inr q \<Longrightarrow> commit_row q p row = (True, p')
    \<Longrightarrow> projection_step E p (Some e) p'"
| overflow_prune: "is_compaction_prune (ev_kind e) \<Longrightarrow> prepare_owned_overflow_prune_event E p e = Inr q
    \<Longrightarrow> commit_row q p row = (True, p') \<Longrightarrow> projection_step E p (Some e) p'"
| live: "prepare_live_attempt p turn step = Inr l \<Longrightarrow> commit_live_attempt same p l = Inr p' \<Longrightarrow> projection_step E p None p'"
| seal: "seal_live_attempt E p = Inr (r, p') \<Longrightarrow> projection_step E p None p'"
| scanned: "apply_scanned_row E p e row = Inr p' \<Longrightarrow> projection_step E p (Some e) p'"
| recovery: "apply_recovery_admission E p action e row = Inr p' \<Longrightarrow> projection_step E p (Some e) p'"
| bind_rows: "bind_recovery_tool_result_rows p rows = Some p' \<Longrightarrow> projection_step E p None p'"

text \<open>A run and the events it applied, from the projection of a new session.\<close>

inductive projection_run :: "externals \<Rightarrow> projection \<Rightarrow> session_event list \<Rightarrow> projection \<Rightarrow> bool" for E where
  empty: "projection_run E (projection_empty policy) [] (projection_empty policy)"
| session: "projection_run E (for_session policy sid) [] (for_session policy sid)"
| silent: "projection_run E p0 es p \<Longrightarrow> projection_step E p None p' \<Longrightarrow> projection_run E p0 es p'"
| event: "projection_run E p0 es p \<Longrightarrow> projection_step E p (Some e) p' \<Longrightarrow> projection_run E p0 (es @ [e]) p'"

inductive projection_reachable :: "externals \<Rightarrow> projection \<Rightarrow> bool" for E where
  empty: "projection_reachable E (projection_empty policy)"
| session: "projection_reachable E (for_session policy sid)"
| step: "projection_reachable E p \<Longrightarrow> projection_step E p a p' \<Longrightarrow> projection_reachable E p'"

lemma run_reachable: "projection_run E p0 es p \<Longrightarrow> projection_reachable E p"
  by (induction rule: projection_run.induct) (auto intro: projection_reachable.intros)

section \<open>What an accepted event does\<close>

text \<open>
  Every way of applying an event is a transition, an attempt operation before or after it, a
  surface change, and the new compaction state.
\<close>

definition event_effect :: "externals \<Rightarrow> projection \<Rightarrow> session_event \<Rightarrow> admission \<Rightarrow> projection \<Rightarrow> bool" where
  "event_effect E p e adm p' =
     (\<exists>p1 p2 p3 p4 b c. erase_attempt p1 = erase_attempt p \<and> apply_transition p1 e adm = Inr p2
        \<and> erase_attempt p3 = erase_attempt p2 \<and> apply_surface E p3 e b = Inr p4
        \<and> p' = p4\<lparr>pj_compaction := c\<rparr>)"

lemma event_effectI:
  "erase_attempt p1 = erase_attempt p \<Longrightarrow> apply_transition p1 e adm = Inr p2
     \<Longrightarrow> erase_attempt p3 = erase_attempt p2 \<Longrightarrow> apply_surface E p3 e b = Inr p4
     \<Longrightarrow> p' = p4\<lparr>pj_compaction := c\<rparr> \<Longrightarrow> event_effect E p e adm p'"
  unfolding event_effect_def by blast

lemma effect_before:
  "erase_attempt p1 = erase_attempt p \<Longrightarrow> apply_transition p1 e adm = Inr p2
     \<Longrightarrow> apply_surface E p2 e b = Inr p4 \<Longrightarrow> event_effect E p e adm (p4\<lparr>pj_compaction := c\<rparr>)"
  by (rule event_effectI) auto

lemma effect_after:
  "apply_transition p e adm = Inr p2 \<Longrightarrow> erase_attempt p3 = erase_attempt p2
     \<Longrightarrow> apply_surface E p3 e b = Inr p4 \<Longrightarrow> event_effect E p e adm (p4\<lparr>pj_compaction := c\<rparr>)"
  by (rule event_effectI) auto

lemma ordinary_effect:
  assumes "ordinary_event E p e b = Inr p'"
  shows "event_effect E p e Ordinary p'"
proof -
  obtain c p2 p3 where
    two: "(if is_retry_started (ev_kind e) then
             bindR (lift_transition (apply_transition p e Ordinary)) (\<lambda>p.
                apply_attempt_transition E p e Ordinary None)
           else
             bindR (if is_step_boundary (ev_kind e) then apply_attempt_transition E p e Ordinary None
                    else Inr p) (\<lambda>p. lift_transition (apply_transition p e Ordinary))) = Inr p2"
    and sur: "apply_surface E p2 e b = Inr p3" and p': "p' = p3\<lparr>pj_compaction := c\<rparr>"
    using assms unfolding ordinary_event_def
    by (elim bindR_InrE) (simp only: ok_or_map_err_iff sum.inject, blast)
  show ?thesis
  proof (cases "is_retry_started (ev_kind e)")
    case True
    with two obtain q where "apply_transition p e Ordinary = Inr q"
      "apply_attempt_transition E q e Ordinary None = Inr p2"
      by (auto elim!: result_elims simp: ok_or_map_err_iff)
    then show ?thesis using sur unfolding p' by (blast intro: effect_after dest: attempt_transition_frame)
  next
    case False
    with two obtain q where
      q: "(if is_step_boundary (ev_kind e) then apply_attempt_transition E p e Ordinary None else Inr p) = Inr q"
      "apply_transition q e Ordinary = Inr p2"
      by (auto elim!: result_elims simp: ok_or_map_err_iff)
    have "erase_attempt q = erase_attempt p"
      using q(1) by (auto split: if_splits dest: attempt_transition_frame)
    then show ?thesis unfolding p' using q(2) sur by (rule effect_before)
  qed
qed

lemma compatible_effect:
  "with_compatible_event E p e = Inr p' \<Longrightarrow> event_effect E p e CompatibilityReplay p'"
  unfolding with_compatible_event_def
  by (auto elim!: bindR_InrE simp: ok_or_map_err_iff intro: effect_before)

lemma owned_effect:
  "prepare_durable_attempt_closure E p e d = Inr q \<Longrightarrow>
     \<exists>p'. q = PrepProjection p' None \<and> event_effect E p e OwnedAttempt p'"
  "prepare_owned_prune_event E p e = Inr q \<Longrightarrow>
     \<exists>p'. q = PrepProjection p' (tool_result_seq e) \<and> event_effect E p e OwnedPrune p'"
  "prepare_owned_overflow_prune_event E p e = Inr q \<Longrightarrow>
     \<exists>p'. q = PrepProjection p' None \<and> event_effect E p e OwnedOverflowPrune p'"
  "prepare_durable_event E p e = Inr q \<Longrightarrow>
     \<exists>p'. q = PrepProjection p' (tool_result_seq e) \<and> event_effect E p e Ordinary p'"
  unfolding prepare_durable_attempt_closure_def prepare_owned_prune_event_def
    prepare_owned_overflow_prune_event_def prepare_durable_event_def
  by (auto elim!: bindR_InrE simp: ok_or_map_err_iff
      intro: effect_before effect_before[OF attempt_transition_frame] effect_before[OF context_overflow_frame]
        ordinary_effect)

lemma scanned_effect:
  assumes "apply_scanned_row E p e row = Inr p'"
  shows "event_effect E p e ColdScan p'"
proof (cases "\<exists>turn step c. ev_kind e = AssistantChunk turn step c")
  case True
  then obtain turn step c where k: "ev_kind e = AssistantChunk turn step c" by blast
  with assms have "apply_scanned_chunk E p e turn step row = Inr p'"
    by (auto simp: apply_scanned_row_def elim!: bindR_InrE)
  then obtain cs p1 a where r: "require_open_step p (event_type_static (ev_kind e)) turn step = Inr ()"
    and sur: "apply_surface E p e (BindDurable row) = Inr p1" and p': "p' = p1\<lparr>pj_attempt := a, pj_compaction := cs\<rparr>"
    unfolding apply_scanned_chunk_def
    by (auto elim!: bindR_InrE simp: ok_or_map_err_iff split: prod.split_asm bool.split_asm)
  have tr: "apply_transition p e ColdScan = Inr p"
    using r k by (simp add: apply_transition_def reject_recovery_event_def is_recovery_only_def apply_kind_def)
  have el: "\<not> is_surface_eligible (ev_kind e)" using k by (simp add: is_surface_eligible_def)
  have none: "ev_surface_op e = None" "ev_source_event_seqs e = None" "p1 = p"
    using sur el by (auto simp: apply_surface_def split: if_splits)
  have "apply_surface E (p\<lparr>pj_attempt := a\<rparr>) e (BindDurable row) = Inr (p\<lparr>pj_attempt := a\<rparr>)"
    using el none by (simp add: apply_surface_def)
  then show ?thesis using tr p' none(3) by (intro event_effectI[of p p e ColdScan p "p\<lparr>pj_attempt := a\<rparr>"]) auto
next
  case False
  then have rest: "apply_scanned_row E p e row = bindR (event_validate E (ev_kind e)) (\<lambda>_.
           bindR (next_compaction_state E p e ColdScan) (\<lambda>c.
           bindR (if is_retry_started (ev_kind e) then
                    bindR (lift_transition (apply_transition p e ColdScan)) (\<lambda>p.
                      apply_attempt_transition E p e ColdScan None)
                  else
                    bindR (apply_attempt_transition E p e ColdScan None) (\<lambda>p.
                      lift_transition (apply_transition p e ColdScan))) (\<lambda>p.
           bindR (lift_surface (apply_surface E p e (BindDurable row))) (\<lambda>p.
             Inr (p\<lparr>pj_compaction := c\<rparr>)))))"
    unfolding apply_scanned_row_def by (cases "ev_kind e") auto
  then show ?thesis
    using assms unfolding rest
    by (auto elim!: result_elims simp: ok_or_map_err_iff intro: effect_before effect_after
        dest: attempt_transition_frame)
qed

lemma admit_recovery_frame: "admit_recovery E p action k = Inr p' \<Longrightarrow> erase_attempt p' = erase_attempt p"
  unfolding admit_recovery_def Let_def
  by (cases action; cases k) (auto elim!: result_elims)

lemma recovery_effect:
  "apply_recovery_admission E p action e row = Inr p' \<Longrightarrow> event_effect E p e HistoricalScan p'"
  unfolding apply_recovery_admission_def
  by (auto elim!: bindR_InrE simp: ok_or_map_err_iff intro: effect_before dest: admit_recovery_frame)

lemma chunk_effect:
  assumes "prepare_durable_attempt_chunk E p e = Inr q"
  obtains r c where "q = PrepAttemptChunk r c"
    "\<And>a. event_effect E p e OwnedAttempt (p\<lparr>pj_attempt := a, pj_compaction := c\<rparr>)"
proof -
  obtain turn step c where k: "ev_kind e = AssistantChunk turn step c"
    using assms unfolding prepare_durable_attempt_chunk_def by (cases "ev_kind e") (auto elim!: result_elims)
  then have "require_open_step p (event_type_static (ev_kind e)) turn step = Inr ()"
    and meta: "ev_surface_op e = None" "ev_source_event_seqs e = None"
    and "\<exists>r c. q = PrepAttemptChunk r c"
    using assms unfolding prepare_durable_attempt_chunk_def by (auto elim!: result_elims simp: ok_or_map_err_iff)
  then obtain r c where r: "require_open_step p (event_type_static (ev_kind e)) turn step = Inr ()"
    and q: "q = PrepAttemptChunk r c" by blast
  have tr: "apply_transition p e OwnedAttempt = Inr p"
    using r k by (simp add: apply_transition_def reject_recovery_event_def is_recovery_only_def apply_kind_def)
  have "apply_surface E (p\<lparr>pj_attempt := a\<rparr>) e BindMemory = Inr (p\<lparr>pj_attempt := a\<rparr>)" for a
    using k meta by (simp add: apply_surface_def is_surface_eligible_def)
  then have "event_effect E p e OwnedAttempt (p\<lparr>pj_attempt := a, pj_compaction := c\<rparr>)" for a
    by (intro event_effectI[of p p e OwnedAttempt p "p\<lparr>pj_attempt := a\<rparr>" E BindMemory]) (auto intro: tr)
  then show ?thesis using q by (rule that[rotated])
qed

lemma commit_chunk_effect:
  "commit_row (PrepAttemptChunk r c) p row = (True, p') \<Longrightarrow> \<exists>a. p' = p\<lparr>pj_attempt := a, pj_compaction := c\<rparr>"
  "commit_memory (PrepAttemptChunk r c) p = (True, p') \<Longrightarrow> \<exists>a. p' = p\<lparr>pj_attempt := a, pj_compaction := c\<rparr>"
  by (auto simp: commit_row_def commit_memory_def commit_attempt_chunk_def split: prod.splits bool.splits)

lemma commit_projection_effect:
  "commit_row (PrepProjection q s) p row = (True, p') \<Longrightarrow>
     p' = q \<or> (\<exists>seq. bind_tool_result_row q seq row = Some p')"
  by (auto simp: commit_row_def split: option.splits if_splits)

text \<open>Which admissions an event can have been given.\<close>

definition admission_ok :: "projection \<Rightarrow> session_event \<Rightarrow> admission \<Rightarrow> bool" where
  "admission_ok p e adm =
     (case adm of
        CompatibilityReplay \<Rightarrow> pj_policy p = MemoryCompatible
      | OwnedPrune \<Rightarrow> is_prune_fact e
      | OwnedOverflowPrune \<Rightarrow> is_compaction_prune (ev_kind e)
      | _ \<Rightarrow> True)"

text \<open>A labelled step is an effect, and then perhaps a row bound to the new tool result.\<close>

definition bound :: "projection \<Rightarrow> projection \<Rightarrow> bool" where
  "bound q p' = (p' = q \<or> (\<exists>seq row. bind_tool_result_row q seq row = Some p'))"

lemma step_effect:
  assumes "projection_step E p (Some e) p'"
  obtains adm q where "admission_ok p e adm" "event_effect E p e adm q" "bound q p'"
  using assms
proof cases
  case memory
  then show ?thesis using that[of Ordinary p'] ordinary_effect unfolding with_event_def
    by (auto simp: bound_def admission_ok_def)
next
  case compatible
  then show ?thesis using that[of CompatibilityReplay p'] compatible_effect by (auto simp: bound_def admission_ok_def)
next
  case (durable q row)
  obtain x where x: "q = PrepProjection x (tool_result_seq e)" "event_effect E p e Ordinary x"
    using owned_effect(4)[OF durable(1)] by blast
  show ?thesis using that[OF _ x(2)] commit_projection_effect[OF durable(2)[unfolded x(1)]]
    by (auto simp: bound_def admission_ok_def)
next
  case (chunk q row)
  obtain r c where rc: "q = PrepAttemptChunk r c"
    "\<And>a. event_effect E p e OwnedAttempt (p\<lparr>pj_attempt := a, pj_compaction := c\<rparr>)" using chunk_effect[OF chunk(1)] by metis
  show ?thesis using that[OF _ rc(2)] commit_chunk_effect(1)[OF chunk(2)[unfolded rc(1)]]
    by (auto simp: bound_def admission_ok_def)
next
  case (chunk_memory q)
  obtain r c where rc: "q = PrepAttemptChunk r c"
    "\<And>a. event_effect E p e OwnedAttempt (p\<lparr>pj_attempt := a, pj_compaction := c\<rparr>)"
    using chunk_effect[OF chunk_memory(1)] by metis
  show ?thesis using that[OF _ rc(2)] commit_chunk_effect(2)[OF chunk_memory(2)[unfolded rc(1)]]
    by (auto simp: bound_def admission_ok_def)
next
  case (closure d q row)
  obtain x where x: "q = PrepProjection x None" "event_effect E p e OwnedAttempt x"
    using owned_effect(1)[OF closure(1)] by blast
  show ?thesis using that[OF _ x(2)] commit_projection_effect[OF closure(2)[unfolded x(1)]]
    by (auto simp: bound_def admission_ok_def)
next
  case (closure_memory d q)
  obtain x where x: "q = PrepProjection x None" "event_effect E p e OwnedAttempt x"
    using owned_effect(1)[OF closure_memory(1)] by blast
  show ?thesis using that[OF _ x(2)] closure_memory(2) unfolding x(1)
    by (auto simp: commit_memory_def bound_def admission_ok_def)
next
  case (prune q row)
  obtain x where x: "q = PrepProjection x (tool_result_seq e)" "event_effect E p e OwnedPrune x"
    using owned_effect(2)[OF prune(2)] by blast
  show ?thesis using that[OF _ x(2)] commit_projection_effect[OF prune(3)[unfolded x(1)]] prune(1)
    by (auto simp: bound_def admission_ok_def)
next
  case (overflow_prune q row)
  obtain x where x: "q = PrepProjection x None" "event_effect E p e OwnedOverflowPrune x"
    using owned_effect(3)[OF overflow_prune(2)] by blast
  show ?thesis using that[OF _ x(2)] commit_projection_effect[OF overflow_prune(3)[unfolded x(1)]] overflow_prune(1)
    by (auto simp: bound_def admission_ok_def)
next
  case (scanned row)
  show ?thesis by (rule that[OF _ scanned_effect[OF scanned]]) (auto simp: bound_def admission_ok_def)
next
  case (recovery action row)
  show ?thesis by (rule that[OF _ recovery_effect[OF recovery]]) (auto simp: bound_def admission_ok_def)
qed

lemma silent_effect:
  assumes "projection_step E p None p'"
  shows "erase_attempt p' = erase_attempt p \<or> (\<exists>rows. bind_recovery_tool_result_rows p rows = Some p')"
  using assms
proof cases
  case (live turn step l same)
  then show ?thesis by (auto simp: commit_live_attempt_def split: if_splits)
next
  case (seal r)
  then show ?thesis by (auto simp: seal_live_attempt_def elim!: bindR_InrE)
qed blast

text \<open>
  So an invariant that is kept by transitions, by attempt and compaction updates, by surface
  changes and by binding a row holds of every reachable projection.
\<close>

lemma bind_rows_induct:
  assumes "bind_recovery_tool_result_rows p rows = Some p'" "I p"
    and bind: "\<And>p seq row p'. I p \<Longrightarrow> bind_tool_result_row p seq row = Some p' \<Longrightarrow> I p'"
  shows "I p'"
  using assms(1,2)
proof (induction rows arbitrary: p)
  case (Cons row rows)
  show ?case
  proof (cases "find (\<lambda>n. sn_seq n = row_seq row) (pj_surface p)")
    case (Some n)
    show ?thesis
    proof (cases "sn_kind n = ToolResultNode")
      case True
      with Cons.prems(1) Some obtain y where y: "bind_tool_result_row p (row_seq row) row = Some y"
        "bind_recovery_tool_result_rows y rows = Some p'" by (auto split: option.split_asm)
      show ?thesis by (rule Cons.IH[OF y(2) bind[OF Cons.prems(2) y(1)]])
    qed (use Cons Some in simp)
  qed (use Cons in simp)
qed simp

lemma reachable_induct:
  assumes reach: "projection_reachable E p"
    and empty: "\<And>policy. I (projection_empty policy)"
    and session: "\<And>p sid. I p \<Longrightarrow> I (p\<lparr>pj_session_id := sid\<rparr>)"
    and transition: "\<And>p e adm p'. I p \<Longrightarrow> admission_ok p e adm \<Longrightarrow> apply_transition p e adm = Inr p' \<Longrightarrow> I p'"
    and attempt: "\<And>p p'. I p \<Longrightarrow> erase_attempt p' = erase_attempt p \<Longrightarrow> I p'"
    and surface: "\<And>p e b p'. I p \<Longrightarrow> apply_surface E p e b = Inr p' \<Longrightarrow> I p'"
    and compaction: "\<And>p c. I p \<Longrightarrow> I (p\<lparr>pj_compaction := c\<rparr>)"
    and bind: "\<And>p seq row p'. I p \<Longrightarrow> bind_tool_result_row p seq row = Some p' \<Longrightarrow> I p'"
  shows "I p"
  using reach
proof (induction rule: projection_reachable.induct)
  case (empty policy)
  show ?case by (rule assms(2))
next
  case (session policy sid)
  show ?case unfolding for_session_def by (rule assms(3)[OF assms(2)])
next
  case (step p a p')
  show ?case
  proof (cases a)
    case None
    show ?thesis
      using silent_effect[OF step.hyps(2)[unfolded None]] attempt[OF step.IH] bind_rows_induct[of p _ p' I] step.IH bind
      by blast
  next
    case (Some e)
    obtain adm q where adm: "admission_ok p e adm" and eff: "event_effect E p e adm q" and b: "bound q p'"
      using step_effect[OF step.hyps(2)[unfolded Some]] .
    from eff obtain p1 p2 p3 p4 b c where
      p1: "erase_attempt p1 = erase_attempt p" and p2: "apply_transition p1 e adm = Inr p2"
      and p3: "erase_attempt p3 = erase_attempt p2" and p4: "apply_surface E p3 e b = Inr p4"
      and q: "q = p4\<lparr>pj_compaction := c\<rparr>"
      unfolding event_effect_def by blast
    have "admission_ok p1 e adm" using adm erase_attempt_fields(1)[OF p1]
      by (cases adm) (simp_all add: admission_ok_def)
    then have "I p4" using surface[OF attempt[OF transition[OF attempt[OF step.IH p1] _ p2] p3] p4] by blast
    then have "I q" unfolding q by (rule compaction)
    then show ?thesis using b bind unfolding bound_def by blast
  qed
qed

section \<open>The accounting of the surface\<close>

text \<open>
  C2: The running totals are exact.  In every reachable projection, whatever mixture of appends,
  replacements, compactions, prunes, scans and recovery led there, the token total is the sum of
  the nodes' estimates and the resident total the sum of the bytes charged for their messages.
\<close>

theorem surface_totals_exact:
  assumes "projection_reachable E p"
  shows "pj_surface_tokens p = sum_list (map sn_tokens (pj_surface p))
    \<and> pj_resident_bytes p = sum_list (map node_bytes (pj_surface p))"
proof -
  have "tokens.accounted p"
    using assms
  proof (rule reachable_induct)
    show "tokens.accounted (projection_empty policy)" for policy by (rule tokens.empty_accounted)
    show "tokens.accounted (p\<lparr>pj_session_id := sid\<rparr>)" if "tokens.accounted p" for p sid
      using that by (rule tokens.session_accounted)
    show "tokens.accounted p'" if "tokens.accounted p" "admission_ok p e adm" "apply_transition p e adm = Inr p'" for p e adm p'
      using that(1) transition_frame[OF that(3)] by (rule tokens.outside_accounted)
    show "tokens.accounted p'" if "tokens.accounted p" "erase_attempt p' = erase_attempt p" for p p'
      using that by (rule tokens.attempt_accounted)
    show "tokens.accounted p'" if "tokens.accounted p" "apply_surface E p e b = Inr p'" for p e b p'
      using that by (rule tokens.surface_accounted)
    show "tokens.accounted (p\<lparr>pj_compaction := c\<rparr>)" if "tokens.accounted p" for p c
      using that by simp
    show "tokens.accounted p'" if "tokens.accounted p" "bind_tool_result_row p seq row = Some p'" for p seq row p'
      using that by (rule tokens.bind_accounted)
  qed
  moreover have "bytes.accounted p"
    using assms
  proof (rule reachable_induct)
    show "bytes.accounted (projection_empty policy)" for policy by (rule bytes.empty_accounted)
    show "bytes.accounted (p\<lparr>pj_session_id := sid\<rparr>)" if "bytes.accounted p" for p sid
      using that by (rule bytes.session_accounted)
    show "bytes.accounted p'" if "bytes.accounted p" "admission_ok p e adm" "apply_transition p e adm = Inr p'" for p e adm p'
      using that(1) transition_frame[OF that(3)] by (rule bytes.outside_accounted)
    show "bytes.accounted p'" if "bytes.accounted p" "erase_attempt p' = erase_attempt p" for p p'
      using that by (rule bytes.attempt_accounted)
    show "bytes.accounted p'" if "bytes.accounted p" "apply_surface E p e b = Inr p'" for p e b p'
      using that by (rule bytes.surface_accounted)
    show "bytes.accounted (p\<lparr>pj_compaction := c\<rparr>)" if "bytes.accounted p" for p c
      using that by simp
    show "bytes.accounted p'" if "bytes.accounted p" "bind_tool_result_row p seq row = Some p'" for p seq row p'
      using that by (rule bytes.bind_accounted)
  qed
  ultimately show ?thesis by (simp add: tokens.accounted_def bytes.accounted_def)
qed

end
