(* ===== verification/Projection_Commute.thy ===== *)
theory Projection_Commute
  imports Projection_Runs
begin

text \<open>
  Which parts of the reducer are independent of each other: transitions, compaction states and
  surface changes do not look at the attempt; the admissions a live session uses are accepted by a
  scan; a row bound to a tool result late or at once gives the same surface.
\<close>

section \<open>Transitions do not look at the attempt\<close>

text \<open>Overwriting what a transition neither reads nor changes.\<close>

definition put :: "attempt_projection \<Rightarrow> surface_node list \<Rightarrow> token_anchor option \<Rightarrow> compaction_state \<Rightarrow> projection \<Rightarrow> projection" where
  "put a s t c p = p\<lparr>pj_attempt := a, pj_surface := s, pj_token_anchor := t, pj_compaction := c\<rparr>"

lemma put_fields [simp]:
  "pj_policy (put a s t c p) = pj_policy p" "pj_session_id (put a s t c p) = pj_session_id p"
  "pj_next_turn (put a s t c p) = pj_next_turn p" "pj_boundary (put a s t c p) = pj_boundary p"
  "pj_surface_tokens (put a s t c p) = pj_surface_tokens p" "pj_header (put a s t c p) = pj_header p"
  "pj_pending_approvals (put a s t c p) = pj_pending_approvals p"
  "pj_owned_approvals (put a s t c p) = pj_owned_approvals p"
  "pj_retry_chains (put a s t c p) = pj_retry_chains p"
  "pj_retry_schedules (put a s t c p) = pj_retry_schedules p"
  "open_turn (put a s t c p) = open_turn p" "open_step (put a s t c p) = open_step p"
  "require_open_step (put a s t c p) w turn step = require_open_step p w turn step"
  "require_turn (put a s t c p) k = require_turn p k"
  "reject_recovery_event (put a s t c p) k adm = reject_recovery_event p k adm"
  by (simp_all add: put_def open_turn_def open_step_def require_open_step_def wrong_open_step_def
      require_turn_def reject_recovery_event_def)

lemma put_boundary: "(put a s t c p)\<lparr>pj_boundary := b\<rparr> = put a s t c (p\<lparr>pj_boundary := b\<rparr>)"
  by (simp add: put_def)

lemma put_approvals:
  "(put a s t c p)\<lparr>pj_pending_approvals := x\<rparr> = put a s t c (p\<lparr>pj_pending_approvals := x\<rparr>)"
  "(put a s t c p)\<lparr>pj_owned_approvals := x\<rparr> = put a s t c (p\<lparr>pj_owned_approvals := x\<rparr>)"
  by (simp_all add: put_def)

lemma put_retries:
  "(put a s t c p)\<lparr>pj_retry_chains := x\<rparr> = put a s t c (p\<lparr>pj_retry_chains := x\<rparr>)"
  "(put a s t c p)\<lparr>pj_retry_schedules := y\<rparr> = put a s t c (p\<lparr>pj_retry_schedules := y\<rparr>)"
  by (simp_all add: put_def)

lemma put_facts:
  "(put a s t c p)\<lparr>pj_header := x\<rparr> = put a s t c (p\<lparr>pj_header := x\<rparr>)"
  "(put a s t c p)\<lparr>pj_header_seq := y\<rparr> = put a s t c (p\<lparr>pj_header_seq := y\<rparr>)"
  "(put a s t c p)\<lparr>pj_context := v\<rparr> = put a s t c (p\<lparr>pj_context := v\<rparr>)"
  "(put a s t c p)\<lparr>pj_context_seq := w\<rparr> = put a s t c (p\<lparr>pj_context_seq := w\<rparr>)"
  "(put a s t c p)\<lparr>pj_next_turn := n\<rparr> = put a s t c (p\<lparr>pj_next_turn := n\<rparr>)"
  by (simp_all add: put_def)

lemmas put_updates = put_boundary put_approvals put_retries put_facts

lemma put_set_declared [simp]: "set_declared (put a s t c p) x d = put a s t c (set_declared p x d)"
  by (simp add: set_declared_def put_updates)

lemma put_set_pending [simp]: "set_pending (put a s t c p) f = put a s t c (set_pending p f)"
  by (simp add: set_pending_def put_updates split: boundary_state.splits)

text \<open>A result mapped over its value.\<close>

definition map_ok :: "('a \<Rightarrow> 'b) \<Rightarrow> 'e + 'a \<Rightarrow> 'e + 'b" where
  "map_ok f r = bindR r (\<lambda>x. Inr (f x))"

lemma map_ok_simps [simp]: "map_ok f (Inl e) = Inl e" "map_ok f (Inr x) = Inr (f x)"
  by (simp_all add: map_ok_def)

lemma map_ok_if: "map_ok f (if b then x else y) = (if b then map_ok f x else map_ok f y)"
  by simp

lemma map_ok_bindR: "map_ok f (bindR m g) = bindR m (\<lambda>x. map_ok f (g x))"
  by (cases m) simp_all

lemma bindR_map_ok: "bindR (map_ok f m) g = bindR m (\<lambda>x. g (f x))"
  by (cases m) simp_all

lemma map_ok_case:
  "map_ok f (case o1 of None \<Rightarrow> n | Some y \<Rightarrow> g y) = (case o1 of None \<Rightarrow> map_ok f n | Some y \<Rightarrow> map_ok f (g y))"
  "map_ok f (case b of Idle \<Rightarrow> x | InTurn t k \<Rightarrow> y2 t k | InStep s \<Rightarrow> z s)
     = (case b of Idle \<Rightarrow> map_ok f x | InTurn t k \<Rightarrow> map_ok f (y2 t k) | InStep s \<Rightarrow> map_ok f (z s))"
  "map_ok f (case xs of [] \<Rightarrow> n | y # ys \<Rightarrow> h y ys) = (case xs of [] \<Rightarrow> map_ok f n | y # ys \<Rightarrow> map_ok f (h y ys))"
  "map_ok f (case so of SurfaceAppend \<Rightarrow> u | SurfaceReplace i j \<Rightarrow> v i j)
     = (case so of SurfaceAppend \<Rightarrow> map_ok f u | SurfaceReplace i j \<Rightarrow> map_ok f (v i j))"
  by (simp_all split: option.split boundary_state.split list.split surface_op.split)

lemmas map_ok_rules = map_ok_if map_ok_bindR bindR_map_ok map_ok_case

lemmas all_branches = if_cong option.case_cong boundary_state.case_cong list.case_cong

lemma put_declarations:
  "register_durable_declarations (put a s t c p) m = map_ok (put a s t c) (register_durable_declarations p m)"
  by (simp add: register_durable_declarations_def map_ok_rules cong: all_branches)

lemma put_promote:
  "promote_durable_call (put a s t c p) seq i n ar = map_ok (put a s t c) (promote_durable_call p seq i n ar)"
  by (simp add: promote_durable_call_def map_ok_rules cong: all_branches)

lemma put_ask: "ask_durable_approval (put a s t c p) asked = map_ok (put a s t c) (ask_durable_approval p asked)"
  by (simp add: ask_durable_approval_def map_ok_rules cong: all_branches)

lemma put_decide:
  "decide_durable_approval (put a s t c p) decided = map_ok (put a s t c) (decide_durable_approval p decided)"
  by (simp add: decide_durable_approval_def map_ok_rules cong: all_branches)

lemma put_resolve: "resolve_durable_call (put a s t c p) e m f adm = map_ok (put a s t c) (resolve_durable_call p e m f adm)"
  by (simp add: resolve_durable_call_def map_ok_rules cong: all_branches)

lemmas put_calls = put_declarations put_promote put_ask put_decide put_resolve

lemma put_retry: "apply_retry (put a s t c p) r = map_ok (put a s t c) (apply_retry p r)"
  by (simp add: apply_retry_def map_ok_rules Let_def put_updates cong: all_branches)

lemma put_retry_started: "apply_retry_started (put a s t c p) st = map_ok (put a s t c) (apply_retry_started p st)"
  by (simp add: apply_retry_started_def map_ok_rules Let_def put_updates cong: all_branches)

lemma put_turn_start: "apply_turn_start (put a s t c p) turn = map_ok (put a s t c) (apply_turn_start p turn)"
  by (simp add: apply_turn_start_def map_ok_rules put_updates cong: all_branches)

lemma put_turn_end: "apply_turn_end (put a s t c p) turn = map_ok (put a s t c) (apply_turn_end p turn)"
  by (simp add: apply_turn_end_def map_ok_rules put_updates cong: all_branches)

lemma put_step_start: "apply_step_start (put a s t c p) turn step = map_ok (put a s t c) (apply_step_start p turn step)"
  by (simp add: apply_step_start_def map_ok_rules put_updates cong: all_branches)

lemma put_step_end: "apply_step_end (put a s t c p) turn step = map_ok (put a s t c) (apply_step_end p turn step)"
  by (simp add: apply_step_end_def wrong_open_step_def map_ok_rules put_updates cong: all_branches)

lemma put_tool_call:
  "apply_tool_call (put a s t c p) seq i n ar = map_ok (put a s t c) (apply_tool_call p seq i n ar)"
  by (simp add: apply_tool_call_def put_calls map_ok_rules cong: all_branches)

lemma put_tool_result:
  "apply_tool_result (put a s t c p) e turn step m f adm = map_ok (put a s t c) (apply_tool_result p e turn step m f adm)"
  by (simp add: apply_tool_result_def put_calls wrong_open_step_def map_ok_rules cong: all_branches)

lemma put_asked: "apply_approval_asked (put a s t c p) asked = map_ok (put a s t c) (apply_approval_asked p asked)"
  by (simp add: apply_approval_asked_def put_calls map_ok_rules put_updates cong: all_branches)

lemma put_decided: "apply_approval_decided (put a s t c p) decided = map_ok (put a s t c) (apply_approval_decided p decided)"
  by (simp add: apply_approval_decided_def put_calls map_ok_rules put_updates cong: all_branches)

lemma put_transition:
  "apply_transition (put a s t c p) e adm = map_ok (put a s t c) (apply_transition p e adm)"
  unfolding apply_transition_def apply_kind_def Let_def
  by (cases "ev_kind e")
    (simp_all add: map_ok_rules put_calls put_retry put_retry_started put_turn_start put_turn_end put_step_start
      put_step_end put_tool_call put_tool_result put_asked put_decided put_updates)

text \<open>The other parts of the reducer do not look at the attempt either.\<close>

lemma attempt_reads:
  "open_turn (p\<lparr>pj_attempt := a\<rparr>) = open_turn p" "open_step (p\<lparr>pj_attempt := a\<rparr>) = open_step p"
  "has_pending_durable_call (p\<lparr>pj_attempt := a\<rparr>) = has_pending_durable_call p"
  "surface_range_indices (p\<lparr>pj_attempt := a\<rparr>) r xs = surface_range_indices p r xs"
  "surface_range_matches (p\<lparr>pj_attempt := a\<rparr>) r xs = surface_range_matches p r xs"
  "require_open_step (p\<lparr>pj_attempt := a\<rparr>) w turn step = require_open_step p w turn step"
  by (simp_all add: open_turn_def open_step_def has_pending_durable_call_def surface_range_indices_def
      surface_range_matches_def require_open_step_def wrong_open_step_def)

lemma compaction_reads:
  "validate_compaction_dispatch E (p\<lparr>pj_attempt := a\<rparr>) n d = validate_compaction_dispatch E p n d"
  "validate_summary_recipe (p\<lparr>pj_attempt := a\<rparr>) sm r = validate_summary_recipe p sm r"
  "advance_summary (p\<lparr>pj_attempt := a\<rparr>) n sm oc = advance_summary p n sm oc"
  "advance_checkpoint E (p\<lparr>pj_attempt := a\<rparr>) e m oc = advance_checkpoint E p e m oc"
  "advance_end (p\<lparr>pj_attempt := a\<rparr>) n ce oc adm = advance_end p n ce oc adm"
  "claim_prune (p\<lparr>pj_attempt := a\<rparr>) pr = claim_prune p pr"
  by (simp_all add: validate_compaction_dispatch_def validate_dispatch_header_def validate_dispatch_owner_def
      validate_summary_recipe_def advance_summary_def advance_checkpoint_def advance_end_def claim_prune_def
      attempt_reads cong: all_branches compaction_phase.case_cong)

lemma next_compaction_reads:
  "next_compaction_state E (p\<lparr>pj_attempt := a\<rparr>) e adm = next_compaction_state E p e adm"
  by (simp add: next_compaction_state_def Let_def advance_open_compaction_def advance_idle_def
      validate_compaction_start_def compaction_reads attempt_reads cong: all_branches event_kind.case_cong)

lemma transition_attempt:
  "apply_transition (p\<lparr>pj_attempt := a\<rparr>) e adm = map_ok (\<lambda>q. q\<lparr>pj_attempt := a\<rparr>) (apply_transition p e adm)"
proof -
  have "put a (pj_surface p) (pj_token_anchor p) (pj_compaction p) p = p\<lparr>pj_attempt := a\<rparr>"
    by (simp add: put_def)
  then have "apply_transition (p\<lparr>pj_attempt := a\<rparr>) e adm
      = map_ok (put a (pj_surface p) (pj_token_anchor p) (pj_compaction p)) (apply_transition p e adm)"
    using put_transition[of a "pj_surface p" "pj_token_anchor p" "pj_compaction p" p e adm] by simp
  moreover have "put a (pj_surface p) (pj_token_anchor p) (pj_compaction p) q = q\<lparr>pj_attempt := a\<rparr>"
    if "apply_transition p e adm = Inr q" for q
    using transition_frame[OF that] by (cases q) (simp add: put_def keeps_outside_def)
  ultimately show ?thesis by (cases "apply_transition p e adm") simp_all
qed

lemma node_attempt:
  "append_node (p\<lparr>pj_attempt := a\<rparr>) n = map_ok (\<lambda>q. q\<lparr>pj_attempt := a\<rparr>) (append_node p n)"
  "splice_node (p\<lparr>pj_attempt := a\<rparr>) i j n = map_ok (\<lambda>q. q\<lparr>pj_attempt := a\<rparr>) (splice_node p i j n)"
  by (cases p, simp add: append_node_def splice_node_def Let_def map_ok_rules)+

lemma replace_attempt:
  "replace_range E (p\<lparr>pj_attempt := a\<rparr>) e b i j = map_ok (\<lambda>q. q\<lparr>pj_attempt := a\<rparr>) (replace_range E p e b i j)"
  by (simp add: replace_range_def node_attempt Let_def map_ok_rules cong: all_branches)

lemma surface_attempt:
  "apply_surface E (p\<lparr>pj_attempt := a\<rparr>) e b = map_ok (\<lambda>q. q\<lparr>pj_attempt := a\<rparr>) (apply_surface E p e b)"
  by (simp add: apply_surface_def node_attempt replace_attempt map_ok_rules cong: all_branches surface_op.case_cong)

section \<open>Admissions that a scan repeats\<close>

text \<open>What the live session accepts under its own authority, the scan accepts as a row of the file.\<close>

lemma resolve_scan:
  assumes "is_unprivileged_durable adm"
  shows "resolve_durable_call p e m f ColdScan = resolve_durable_call p e m f adm"
proof -
  have "require_result_intent c i e m f ColdScan = require_result_intent c i e m f adm" for c i
    using assms by (simp add: require_result_intent_def is_unprivileged_durable_def)
  then show ?thesis unfolding resolve_durable_call_def by presburger
qed

lemma transition_scan:
  assumes "apply_transition p e adm = Inr q" "pj_policy p = DurableStrict"
    and "is_recovery_only (ev_kind e) \<longrightarrow> is_unprivileged_durable adm"
    and "is_tool_result (ev_kind e) \<longrightarrow> is_replace e \<or> is_unprivileged_durable adm"
  shows "apply_transition p e ColdScan = Inr q"
proof -
  have rej: "reject_recovery_event p (ev_kind e) ColdScan = Inr ()"
    using assms(1,3) by (auto simp: apply_transition_def reject_recovery_event_def is_unprivileged_durable_def
        elim!: bindR_InrE split: if_splits)
  have "apply_kind p e ColdScan = apply_kind p e adm"
    using assms(4) by (cases "ev_kind e") (auto simp: apply_kind_def apply_tool_result_def is_tool_result_def resolve_scan)
  then show ?thesis using assms(1) rej by (auto simp: apply_transition_def elim!: bindR_InrE)
qed

lemma compaction_scan:
  assumes "next_compaction_state E p e adm = Inr c" "pj_policy p = DurableStrict"
    and "adm \<in> {Ordinary, OwnedAttempt, OwnedPrune, OwnedOverflowPrune}"
    and "is_recovery_only (ev_kind e) \<longrightarrow> is_unprivileged_durable adm"
  shows "next_compaction_state E p e ColdScan = Inr c"
proof -
  have adm: "adm \<noteq> CompatibilityReplay" using assms(3) by auto
  have same: "advance_end p n x oc ColdScan = advance_end p n x oc adm"
    "validate_compaction_start E p n st ColdScan = validate_compaction_start E p n st adm" for n x oc st
    using adm by (simp_all add: advance_end_def validate_compaction_start_def)
  have adv: "advance_open_compaction E p e oc ColdScan = advance_open_compaction E p e oc adm"
    "advance_idle E p e ColdScan b c' = advance_idle E p e adm b c'" for oc b c'
    unfolding advance_open_compaction_def advance_idle_def same by simp_all
  have ends: "\<not> (co_open (pj_compaction p) \<noteq> None \<and> is_step_end (ev_kind e))"
  proof
    assume a: "co_open (pj_compaction p) \<noteq> None \<and> is_step_end (ev_kind e)"
    then obtain turn step oc where k: "ev_kind e = StepEnd turn step" "co_open (pj_compaction p) = Some oc"
      by (cases "ev_kind e") (auto simp: is_step_end_def)
    show False
      using assms(1,2,3) k by (auto simp: next_compaction_state_def Let_def is_unprivileged_durable_def
          is_prune_fact_def is_recovery_only_def advance_open_compaction_def is_step_end_def
          apply_prune_adjacency_def elim!: result_elims split: option.split_asm surface_op.split_asm)
  qed
  show ?thesis
    using assms ends unfolding next_compaction_state_def Let_def adv
    by (auto simp: is_unprivileged_durable_def split: if_splits)
qed

section \<open>Rows bound late and rows bound at once\<close>

definition rebind :: "string \<Rightarrow> row_locator \<Rightarrow> surface_node \<Rightarrow> surface_node" where
  "rebind d row n = n\<lparr>sn_tool_result := Some (OriginDurable d row)\<rparr>"

lemma rebind_simps [simp]:
  "sn_tokens (rebind d row n) = sn_tokens n" "node_bytes (rebind d row n) = node_bytes n"
  "sn_seq (rebind d row n) = sn_seq n"
  by (simp_all add: rebind_def node_bytes_def)

lemma node_seq: "surface_node_of E e b = Inr n \<Longrightarrow> sn_seq n = ev_seq e"
  unfolding surface_node_of_def by (auto elim!: bindR_InrE)

lemma node_pending:
  assumes "surface_node_of E e BindPending = Inr n" "is_tool_result (ev_kind e)" "row_seq row = ev_seq e"
  obtains d where "sn_tool_result n = Some (OriginPending d)" "surface_node_of E e (BindDurable row) = Inr (rebind d row n)"
  using assms unfolding surface_node_of_def
  by (auto elim!: bindR_InrE simp: bind_origin_def rebind_def ok_or_map_err_iff)

lemma node_binding:
  "\<not> is_tool_result (ev_kind e) \<Longrightarrow> surface_node_of E e b = surface_node_of E e b'"
  by (simp add: surface_node_of_def)

lemma surface_unbound:
  assumes "\<not> is_tool_result (ev_kind e)"
  shows "apply_surface E p e b = apply_surface E p e b'"
proof -
  note n = node_binding[OF assms, of E b b']
  have r: "replace_range E p e b x y = replace_range E p e b' x y" for x y
    unfolding replace_range_def n ..
  show ?thesis unfolding apply_surface_def n r ..
qed

lemma bind_fresh:
  assumes "pj_surface q = us @ n # vs" "\<forall>m\<in>set us. sn_seq m \<noteq> sn_seq n" "sn_tool_result n = Some (OriginPending d)"
  shows "bind_tool_result_row q (sn_seq n) row = Some (q\<lparr>pj_surface := us @ rebind d row n # vs\<rparr>)"
proof -
  have "find (\<lambda>m. sn_seq m = sn_seq n) (us @ n # vs) = Some n" using assms(2) by (induction us) auto
  moreover have "update_first (\<lambda>m. sn_seq m = sn_seq n) f (us @ n # vs) = us @ f n # vs" for f
    using assms(2) by (induction us) auto
  ultimately show ?thesis using assms(1,3) by (simp add: bind_tool_result_row_def rebind_def)
qed

lemma append_rebound:
  "append_node p n = Inr q \<Longrightarrow> append_node p (rebind d row n) = Inr (q\<lparr>pj_surface := pj_surface p @ [rebind d row n]\<rparr>)"
  by (cases p) (auto simp: append_node_def elim!: bindR_InrE)

lemma splice_rebound:
  "splice_node p i j n = Inr q \<Longrightarrow> splice_node p i j (rebind d row n)
     = Inr (q\<lparr>pj_surface := take i (pj_surface p) @ rebind d row n # drop (Suc j) (pj_surface p)\<rparr>)"
  by (cases p) (auto simp: splice_node_def Let_def elim!: bindR_InrE)

lemma surface_bound:
  assumes sur: "apply_surface E p e BindPending = Inr q" and tool: "is_tool_result (ev_kind e)"
    and row: "row_seq row = ev_seq e" and fresh: "\<forall>n\<in>set (pj_surface p). sn_seq n \<noteq> ev_seq e"
  shows "apply_surface E p e (BindDurable row) = Inr (the (bind_tool_result_row q (ev_seq e) row))"
  using sur
proof (cases rule: apply_surface_cases)
  case none
  with tool show ?thesis by (cases "ev_kind e") (auto simp: is_surface_eligible_def is_tool_result_def)
next
  case (append n)
  obtain d where d: "sn_tool_result n = Some (OriginPending d)" "surface_node_of E e (BindDurable row) = Inr (rebind d row n)"
    using node_pending[OF append(4) tool row] .
  have "pj_surface q = pj_surface p @ n # []" using append_node_shape[OF append(5)] by simp
  from bind_fresh[OF this _ d(1)] fresh node_seq[OF append(4)]
  have "bind_tool_result_row q (ev_seq e) row = Some (q\<lparr>pj_surface := pj_surface p @ [rebind d row n]\<rparr>)" by simp
  then show ?thesis using append d(2) append_rebound[OF append(5), of d row] by (simp add: apply_surface_def)
next
  case (splice x y i j n)
  obtain d where d: "sn_tool_result n = Some (OriginPending d)" "surface_node_of E e (BindDurable row) = Inr (rebind d row n)"
    using node_pending[OF splice(8) tool row] .
  have "pj_surface q = take i (pj_surface p) @ n # drop (Suc j) (pj_surface p)" using splice_node_shape[OF splice(9)] by simp
  from bind_fresh[OF this _ d(1), of row] fresh node_seq[OF splice(8)]
  have b: "bind_tool_result_row q (ev_seq e) row
      = Some (q\<lparr>pj_surface := take i (pj_surface p) @ rebind d row n # drop (Suc j) (pj_surface p)\<rparr>)"
    by (auto dest: in_set_takeD)
  have "\<forall>s\<in>set (drop i (take (Suc j) (pj_surface p))).
      sn_seq s \<in> set (case ev_source_event_seqs e of None \<Rightarrow> [] | Some xs \<Rightarrow> xs)"
    using splice(10) by fastforce
  then have "find (\<lambda>n. sn_seq n \<notin> set (case ev_source_event_seqs e of None \<Rightarrow> [] | Some xs \<Rightarrow> xs))
       (drop i (take (Suc j) (pj_surface p))) = None"
    by (auto simp: find_None_iff)
  then have "replace_range E p e (BindDurable row) x y = splice_node p i j (rebind d row n)"
    using splice tool d(2) by (simp add: replace_range_def Let_def)
  then show ?thesis
    using splice d(2) b splice_rebound[OF splice(9), of d row] by (simp add: apply_surface_def)
qed

section \<open>What keeps the request header and the replacement generation\<close>

lemma calls_header:
  "register_durable_declarations p m = Inr p' \<Longrightarrow> pj_header p' = pj_header p"
  "promote_durable_call p seq i n a = Inr p' \<Longrightarrow> pj_header p' = pj_header p"
  "ask_durable_approval p asked = Inr p' \<Longrightarrow> pj_header p' = pj_header p"
  "decide_durable_approval p decided = Inr p' \<Longrightarrow> pj_header p' = pj_header p"
  "resolve_durable_call p e m f adm = Inr p' \<Longrightarrow> pj_header p' = pj_header p"
  "apply_retry p r = Inr p' \<Longrightarrow> pj_header p' = pj_header p"
  "apply_retry_started p st = Inr p' \<Longrightarrow> pj_header p' = pj_header p"
  unfolding register_durable_declarations_def promote_durable_call_def ask_durable_approval_def
      decide_durable_approval_def resolve_durable_call_def apply_retry_def apply_retry_started_def Let_def
  by (auto elim!: result_elims split: boundary_state.split_asm option.split_asm list.split_asm
      simp: set_declared_def)

lemma set_pending_header [simp]: "pj_header (set_pending q f) = pj_header q"
  by (simp add: set_pending_def split: boundary_state.splits)

lemma boundary_header:
  "apply_turn_start p turn = Inr q \<Longrightarrow> pj_header q = pj_header p"
  "apply_turn_end p turn = Inr q \<Longrightarrow> pj_header q = pj_header p"
  "apply_step_start p turn step = Inr q \<Longrightarrow> pj_header q = pj_header p"
  "apply_step_end p turn step = Inr q \<Longrightarrow> pj_header q = pj_header p"
  by (auto simp: apply_turn_start_def apply_turn_end_def apply_step_start_def apply_step_end_def elim!: result_elims
      split: if_splits option.split_asm boundary_state.split_asm list.split_asm)

lemma call_header:
  "apply_tool_call p seq i n a = Inr q \<Longrightarrow> pj_header q = pj_header p"
  "apply_tool_result p e turn step m f adm = Inr q \<Longrightarrow> pj_header q = pj_header p"
  "apply_approval_asked p asked = Inr q \<Longrightarrow> pj_header q = pj_header p"
  "apply_approval_decided p decided = Inr q \<Longrightarrow> pj_header q = pj_header p"
  by (auto simp: apply_tool_call_def apply_tool_result_def apply_approval_asked_def apply_approval_decided_def
      elim!: result_elims dest!: calls_header split: if_splits option.split_asm boundary_state.split_asm)

lemma transition_header:
  assumes "apply_transition p e adm = Inr q" "\<forall>h r. ev_kind e \<noteq> RequestHeader h r"
  shows "pj_header q = pj_header p"
  using assms by (cases "ev_kind e")
    (auto simp: apply_transition_def apply_kind_def elim!: bindR_InrE dest: calls_header boundary_header call_header)

lemma compaction_parts:
  "apply_prune_adjacency c e = Inr (b, c') \<Longrightarrow> co_replacement_generation c' = co_replacement_generation c"
  "advance_idle E p e adm b c = Inr c' \<Longrightarrow> co_replacement_generation c' = co_replacement_generation c"
  "advance_surface_generation c e = Inr c' \<Longrightarrow> co_replacement_generation c' = co_replacement_generation c"
  by (auto simp: apply_prune_adjacency_def Let_def advance_idle_def advance_surface_generation_def elim!: result_elims
      split: option.split_asm surface_op.split_asm event_kind.split_asm)

lemma compaction_monotone:
  assumes "next_compaction_state E p e adm = Inr c"
  shows "co_replacement_generation (pj_compaction p) \<le> co_replacement_generation c"
  using assms unfolding next_compaction_state_def Let_def
  by (auto simp: reset_compaction_def ok_or_map_err_iff successor_Some elim!: result_elims
      dest!: compaction_parts split: if_splits option.split_asm)


end
