(* ===== verification/Attempt_Proofs.thy ===== *)
theory Attempt_Proofs
  imports Attempt
begin

text \<open>
  What the attempt fold guarantees: usage totals count the last sample of every step once; a
  prepared chunk always commits; a finished attempt is a function of the chunks it was fed; and
  over every run of the state machine generations are fresh and a step recovers from a context
  overflow at most once.
\<close>

section \<open>Usage totals\<close>

text \<open>
  The reference: of every run of samples with the same turn and step only the last counts.
\<close>

type_synonym sample = "nat \<times> nat \<times> token_usage"

definition same_step :: "sample \<Rightarrow> sample \<Rightarrow> bool" where
  "same_step x y = (fst x = fst y \<and> fst (snd x) = fst (snd y))"

fun counted :: "sample list \<Rightarrow> sample list" where
  "counted [] = []"
| "counted [x] = [x]"
| "counted (x # y # xs) = (if same_step x y then counted (y # xs) else x # counted (y # xs))"

definition bucket_sum :: "(usage_totals \<Rightarrow> nat) \<Rightarrow> sample list \<Rightarrow> nat" where
  "bucket_sum f xs = sum_list (map (\<lambda>(_, _, u). f (usage_buckets u)) (counted xs))"

definition totals_of :: "sample list \<Rightarrow> usage_totals" where
  "totals_of xs = \<lparr>ut_input = bucket_sum ut_input xs, ut_output = bucket_sum ut_output xs,
     ut_cache_read = bucket_sum ut_cache_read xs, ut_cache_write = bucket_sum ut_cache_write xs,
     ut_reasoning = bucket_sum ut_reasoning xs\<rparr>"

definition last_sample :: "sample list \<Rightarrow> usage_sample option" where
  "last_sample xs =
     (if xs = [] then None
      else case last xs of (t, s, u) \<Rightarrow> Some \<lparr>us_turn = t, us_step = s, us_buckets = usage_buckets u\<rparr>)"

definition usage_of :: "sample list \<Rightarrow> usage_projection" where
  "usage_of xs = \<lparr>up_totals = totals_of xs, up_last = last_sample xs\<rparr>"

definition totals_fit :: "usage_totals \<Rightarrow> bool" where
  "totals_fit t = (ut_input t < U64_LIMIT \<and> ut_output t < U64_LIMIT \<and> ut_cache_read t < U64_LIMIT
     \<and> ut_cache_write t < U64_LIMIT \<and> ut_reasoning t < U64_LIMIT)"

text \<open>No bucket overflows after any of the samples.\<close>

definition usage_fits :: "sample list \<Rightarrow> bool" where
  "usage_fits xs = list_all (\<lambda>n. totals_fit (totals_of (take (Suc n) xs))) [0..<length xs]"

definition sample_usage :: "usage_projection \<Rightarrow> sample \<Rightarrow> attempt_error + usage_projection" where
  "sample_usage up x = (case x of (t, s, u) \<Rightarrow> with_sample up t s u)"

lemma counted_eq_Nil [simp]: "counted xs = [] \<longleftrightarrow> xs = []"
  by (induction xs rule: counted.induct) auto

lemma last_counted: "xs \<noteq> [] \<Longrightarrow> last (counted xs) = last xs"
  by (induction xs rule: counted.induct) auto

lemma counted_snoc:
  "counted (xs @ [x]) =
     (if xs \<noteq> [] \<and> same_step (last xs) x then butlast (counted xs) @ [x] else counted xs @ [x])"
  by (induction xs rule: counted.induct) auto

lemma bucket_sum_Nil [simp]: "bucket_sum f [] = 0"
  by (simp add: bucket_sum_def)

lemma bucket_sum_butlast:
  assumes "xs \<noteq> []" "last xs = (t, s, u)"
  shows "bucket_sum f xs = sum_list (map (\<lambda>(_, _, u). f (usage_buckets u)) (butlast (counted xs)))
           + f (usage_buckets u)"
proof -
  have "counted xs = butlast (counted xs) @ [(t, s, u)]"
    using assms last_counted[of xs] append_butlast_last_id[of "counted xs"] by simp
  then have "bucket_sum f xs = sum_list (map (\<lambda>(_, _, u). f (usage_buckets u)) (butlast (counted xs) @ [(t, s, u)]))"
    unfolding bucket_sum_def by simp
  then show ?thesis by simp
qed

text \<open>One bucket: replacing the sample of the same step is what the reference does.\<close>

definition previous_bucket :: "(usage_totals \<Rightarrow> nat) \<Rightarrow> sample list \<Rightarrow> nat \<Rightarrow> nat \<Rightarrow> nat" where
  "previous_bucket f xs t s =
     (case last_sample xs of
        Some l \<Rightarrow> if us_turn l = t \<and> us_step l = s then f (us_buckets l) else 0
      | None \<Rightarrow> 0)"

lemma replace_bucket_reference:
  "replace_bucket (bucket_sum f xs) (previous_bucket f xs t s) (f (usage_buckets u)) =
     (if bucket_sum f (xs @ [(t, s, u)]) < U64_LIMIT
      then Inr (bucket_sum f (xs @ [(t, s, u)])) else Inl UsageOverflow)"
proof (cases "xs = []")
  case True
  then show ?thesis
    by (simp add: replace_bucket_def previous_bucket_def last_sample_def bucket_sum_def
        checked_sub_u64_def checked_add_u64_def)
next
  case False
  obtain t' s' u' where l: "last xs = (t', s', u')" by (cases "last xs") auto
  note b = bucket_sum_butlast[OF False l, of f]
  have "bucket_sum f (xs @ [(t, s, u)]) =
      bucket_sum f xs - previous_bucket f xs t s + f (usage_buckets u)"
    using False l b by (auto simp: bucket_sum_def counted_snoc same_step_def previous_bucket_def last_sample_def)
  moreover have "previous_bucket f xs t s \<le> bucket_sum f xs"
    using False l b by (simp add: previous_bucket_def last_sample_def)
  ultimately show ?thesis
    by (simp add: replace_bucket_def checked_sub_u64_def checked_add_u64_def)
qed

lemma with_sample_reference:
  "with_sample (usage_of xs) t s u =
     (if totals_fit (totals_of (xs @ [(t, s, u)])) then Inr (usage_of (xs @ [(t, s, u)]))
      else Inl UsageOverflow)"
proof -
  define prev where "prev = (case last_sample xs of
      Some l \<Rightarrow> if us_turn l = t \<and> us_step l = s then us_buckets l else zero_totals
    | None \<Rightarrow> zero_totals)"
  have f: "f prev = previous_bucket f xs t s" if "f zero_totals = 0" for f :: "usage_totals \<Rightarrow> nat"
    using that by (auto simp: prev_def previous_bucket_def split: option.splits)
  have z: "ut_input prev = previous_bucket ut_input xs t s" "ut_output prev = previous_bucket ut_output xs t s"
    "ut_cache_read prev = previous_bucket ut_cache_read xs t s"
    "ut_cache_write prev = previous_bucket ut_cache_write xs t s"
    "ut_reasoning prev = previous_bucket ut_reasoning xs t s"
    by (rule f, simp add: zero_totals_def)+
  have "last_sample (xs @ [(t, s, u)]) = Some \<lparr>us_turn = t, us_step = s, us_buckets = usage_buckets u\<rparr>"
    by (simp add: last_sample_def)
  then show ?thesis
    by (simp add: with_sample_def usage_of_def Let_def prev_def[symmetric] z replace_bucket_reference
        totals_of_def totals_fit_def)
qed

lemma sample_usage_reference:
  "sample_usage (usage_of xs) x =
     (if totals_fit (totals_of (xs @ [x])) then Inr (usage_of (xs @ [x])) else Inl UsageOverflow)"
  by (cases x) (simp add: sample_usage_def with_sample_reference)

lemma usage_fits_snoc: "usage_fits (xs @ [x]) \<longleftrightarrow> usage_fits xs \<and> totals_fit (totals_of (xs @ [x]))"
  by (auto simp: usage_fits_def list_all_iff less_Suc_eq)

text \<open>
  C25: Usage is counted once per step.  Folding \<open>with_sample\<close> over any sequence of usage samples
  gives, bucket by bucket, the sum over the runs of consecutive samples with one turn and step of the last
  sample of each (a later sample of the run replaces the earlier one, it is never added to it), and the
  fold fails, with the overflow error, exactly when some total does not fit 64 bits.  In a session steps follow
  one another and do not interleave, so that the runs are the steps.
\<close>

theorem usage_counts_last_sample:
  "try_fold sample_usage (usage_of []) xs = (if usage_fits xs then Inr (usage_of xs) else Inl UsageOverflow)"
proof (induction xs rule: rev_induct)
  case Nil
  show ?case by (simp add: usage_fits_def)
next
  case (snoc x xs)
  show ?case
    by (simp add: try_fold_append snoc usage_fits_snoc sample_usage_reference)
qed

section \<open>The chunks of one attempt\<close>

text \<open>What a stream of chunks amounts to: its blocks in the order of their starts, its usage, its size.\<close>

definition block_ends :: "stream_chunk list \<Rightarrow> (nat \<times> content_block) list" where
  "block_ends cs = concat (map (\<lambda>c. case sc_kind c of BlockEnd i b \<Rightarrow> [(i, b)] | _ \<Rightarrow> []) cs)"

definition stream_blocks :: "stream_chunk list \<Rightarrow> content_block list" where
  "stream_blocks cs = List.map_filter (map_of (block_ends cs)) (starts cs)"

definition stream_usages :: "stream_chunk list \<Rightarrow> token_usage list" where
  "stream_usages cs = concat (map (\<lambda>c. case sc_kind c of UsageChunk u \<Rightarrow> [u] | _ \<Rightarrow> []) cs)"

definition stream_usage :: "stream_chunk list \<Rightarrow> token_usage option" where
  "stream_usage cs = (case stream_usages cs of [] \<Rightarrow> None | u # _ \<Rightarrow> Some u)"

definition stream_bytes :: "stream_chunk list \<Rightarrow> nat" where
  "stream_bytes cs = sum_list (map (\<lambda>c. jv_encoded_len (sc_raw c)) cs)"

type_synonym fed = "(nat \<times> stream_chunk) list"

abbreviation chunks :: "fed \<Rightarrow> stream_chunk list" where
  "chunks \<equiv> map snd"

definition open_after :: "fed \<Rightarrow> open_attempt \<Rightarrow> bool" where
  "open_after xs a =
     (sv_after (chunks xs) (oa_validator a) \<and> well_formed_stream (chunks xs)
      \<and> (\<forall>c\<in>set (chunks xs). \<not> is_finish c)
      \<and> oa_order a = starts (chunks xs)
      \<and> (\<forall>i. map_of (oa_blocks a) i =
            (if i \<in> set (starts (chunks xs)) then Some (map_of (block_ends (chunks xs)) i) else None))
      \<and> distinct (starts (chunks xs))
      \<and> oa_sources a = map fst xs
      \<and> oa_emitted_bytes a = stream_bytes (chunks xs)
      \<and> stream_bytes (chunks xs) \<le> MAX_ATTEMPT_EMITTED_BYTES
      \<and> oa_usage a = stream_usage (chunks xs))"

definition finished_after :: "externals \<Rightarrow> fed \<Rightarrow> finished_attempt \<Rightarrow> bool" where
  "finished_after E xs f =
     (well_formed_stream (chunks xs) \<and> xs \<noteq> []
      \<and> sc_kind (snd (last xs)) = FinishChunk (fa_reason f) (fa_replay_state f)
      \<and> stream_bytes (chunks xs) \<le> MAX_ATTEMPT_EMITTED_BYTES
      \<and> fa_sources f = map fst xs \<and> fa_usage f = stream_usage (chunks xs)
      \<and> (if can_leave_open (fa_reason f)
          then fa_content f = None \<and> fa_digest f = None \<and> fa_assistant_tokens f = None
          else fa_content f = Some (stream_blocks (chunks xs))
            \<and> fa_digest f = Some (content_digest E (normalized_blocks (fa_reason f) (stream_blocks (chunks xs))))
            \<and> estimate_provider_assistant E (normalized_blocks (fa_reason f) (stream_blocks (chunks xs)))
                = Inr (the (fa_assistant_tokens f))
            \<and> fa_assistant_tokens f \<noteq> None))"

lemma chunk_parts_append [simp]:
  "block_ends (cs @ ds) = block_ends cs @ block_ends ds"
  "stream_usages (cs @ ds) = stream_usages cs @ stream_usages ds"
  "stream_bytes (cs @ ds) = stream_bytes cs + stream_bytes ds"
  by (simp_all add: block_ends_def stream_usages_def stream_bytes_def)

lemma chunk_parts_single [simp]:
  "block_ends [c] = (case sc_kind c of BlockEnd i b \<Rightarrow> [(i, b)] | _ \<Rightarrow> [])"
  "stream_usages [c] = (case sc_kind c of UsageChunk u \<Rightarrow> [u] | _ \<Rightarrow> [])"
  "stream_bytes [c] = jv_encoded_len (sc_raw c)"
  by (simp_all add: block_ends_def stream_usages_def stream_bytes_def)

lemma map_fst_block_ends: "map fst (block_ends cs) = ends cs"
  by (induction cs) (auto simp: block_ends_def ends_def split: stream_chunk_kind.splits)

lemma block_ends_None_iff: "map_of (block_ends cs) i = None \<longleftrightarrow> i \<notin> set (ends cs)"
  unfolding map_of_eq_None_iff map_fst_block_ends[symmetric] set_map ..

lemma usages_length: "usages cs = length (stream_usages cs)"
  by (induction cs) (auto simp: usages_def stream_usages_def split: stream_chunk_kind.splits)

lemma stream_usage_snoc:
  "usages cs = 0 \<or> (\<forall>u. sc_kind c \<noteq> UsageChunk u) \<Longrightarrow>
     stream_usage (cs @ [c]) = (case sc_kind c of UsageChunk u \<Rightarrow> Some u | _ \<Rightarrow> stream_usage cs)"
  by (auto simp: stream_usage_def usages_length split: stream_chunk_kind.splits list.splits)

lemma map_of_table_insert: "map_of (table_insert k v m) i = (if i = k then Some v else map_of m i)"
proof -
  have "map_of (filter (\<lambda>(j, _). j \<noteq> k) m) i = (if i = k then None else map_of m i)"
    by (induction m) auto
  then show ?thesis by simp
qed

declare table_insert.simps [simp del]

lemma map_filter_cong: "(\<And>x. x \<in> set xs \<Longrightarrow> f x = g x) \<Longrightarrow> List.map_filter f xs = List.map_filter g xs"
  by (induction xs) (auto simp: List.map_filter_simps split: option.splits)

lemma map_of_filter_key: "map_of (filter (\<lambda>(j, _). j \<noteq> i) m) j = (if j = i then None else map_of m j)"
  by (induction m) auto

text \<open>Moving the blocks out finds every ended block, once the indices are distinct.\<close>

lemma collect_blocks_total:
  assumes "distinct is" "\<And>i. i \<in> set is \<Longrightarrow> \<exists>b. map_of bs i = Some (Some b)"
  shows "collect_blocks is bs = Some (map (\<lambda>i. the (the (map_of bs i))) is)"
  using assms
proof (induction "is" arbitrary: bs)
  case (Cons i js)
  from Cons.prems obtain b where b: "map_of bs i = Some (Some b)" by force
  let ?bs = "filter (\<lambda>(j, _). j \<noteq> i) bs"
  have same: "map_of ?bs j = map_of bs j" if "j \<in> set js" for j
    using that Cons.prems(1) by (auto simp: map_of_filter_key)
  have "collect_blocks js ?bs = Some (map (\<lambda>j. the (the (map_of ?bs j))) js)"
    by (rule Cons.IH) (use Cons.prems same in auto)
  also have "map (\<lambda>j. the (the (map_of ?bs j))) js = map (\<lambda>j. the (the (map_of bs j))) js"
    by (rule map_cong) (simp_all add: same)
  finally show ?case using b by simp
qed simp

lemma map_filter_total:
  "(\<And>i. i \<in> set is \<Longrightarrow> f i \<noteq> None) \<Longrightarrow> List.map_filter f is = map (\<lambda>i. the (f i)) is"
proof (induction "is")
  case (Cons i js)
  from Cons.prems[of i] obtain y where "f i = Some y" by auto
  with Cons show ?case by (simp add: List.map_filter_simps)
qed (simp add: List.map_filter_simps)

lemma ended_blocks_after:
  assumes "open_after xs a"
  shows "ended_blocks a = stream_blocks (chunks xs)"
  unfolding ended_blocks_def stream_blocks_def
  using assms by (auto simp: open_after_def intro!: map_filter_cong)

lemma collect_blocks_after:
  assumes "open_after xs a" "set (starts (chunks xs)) \<subseteq> set (ends (chunks xs))"
  shows "collect_blocks (oa_order a) (oa_blocks a) = Some (stream_blocks (chunks xs))"
proof -
  let ?cs = "chunks xs"
  have ended: "map_of (block_ends ?cs) i \<noteq> None" if "i \<in> set (starts ?cs)" for i
    using that assms(2) unfolding block_ends_None_iff by auto
  have order: "oa_order a = starts ?cs"
    and blocks: "\<And>i. i \<in> set (starts ?cs) \<Longrightarrow> map_of (oa_blocks a) i = Some (map_of (block_ends ?cs) i)"
    and d: "distinct (starts ?cs)"
    using assms(1) by (auto simp: open_after_def)
  have "collect_blocks (starts ?cs) (oa_blocks a) = Some (map (\<lambda>i. the (the (map_of (oa_blocks a) i))) (starts ?cs))"
    by (rule collect_blocks_total) (use d ended blocks in auto)
  also have "map (\<lambda>i. the (the (map_of (oa_blocks a) i))) (starts ?cs) = stream_blocks ?cs"
    unfolding stream_blocks_def by (subst map_filter_total) (use ended blocks in auto)
  finally show ?thesis by (simp add: order)
qed

section \<open>Feeding a chunk\<close>

text \<open>When an open attempt takes a chunk: the grammar, the size, the usage and the estimate.\<close>

definition chunk_taken :: "externals \<Rightarrow> open_attempt \<Rightarrow> usage_projection \<Rightarrow> fed \<Rightarrow> stream_chunk \<Rightarrow> bool" where
  "chunk_taken E a up xs c =
     (chunk_allowed (chunks xs) c
      \<and> stream_bytes (chunks xs @ [c]) \<le> MAX_ATTEMPT_EMITTED_BYTES
      \<and> (case sc_kind c of
           UsageChunk u \<Rightarrow> is_ok (with_sample up (oa_turn a) (oa_step a) u)
         | FinishChunk r _ \<Rightarrow>
             can_leave_open r
             \<or> is_ok (estimate_provider_assistant E (normalized_blocks r (stream_blocks (chunks xs))))
         | _ \<Rightarrow> True))"

lemma prepare_accept: "is_ok (prepare v c) \<longleftrightarrow> is_ok (accept v c)"
  by (cases "prepare v c") (simp_all add: accept_def)

lemma prepare_commit_accept: "prepare v c = Inr t \<Longrightarrow> accept v c = Inr (commit v t)"
  by (simp add: accept_def)

lemma bytes_check:
  assumes "oa_emitted_bytes a \<le> MAX_ATTEMPT_EMITTED_BYTES"
  shows "is_ok (bindR (ok_or e (checked_add_u64 (oa_emitted_bytes a) n)) (\<lambda>m.
           if m > MAX_ATTEMPT_EMITTED_BYTES then Inl (f m) else g m)) \<longleftrightarrow>
         oa_emitted_bytes a + n \<le> MAX_ATTEMPT_EMITTED_BYTES \<and> is_ok (g (oa_emitted_bytes a + n))"
  by (auto simp: checked_add_u64_def MAX_ATTEMPT_EMITTED_BYTES_def U64_LIMIT_def)

lemma is_ok_bindR: "is_ok (bindR m f) \<longleftrightarrow> (\<exists>x. m = Inr x \<and> is_ok (f x))"
  by (cases m) auto

lemma is_ok_map_err [simp]: "is_ok (map_err f m) = is_ok m"
  by (cases m) simp_all

lemma allowed_finish_complete:
  assumes "open_after xs a" "chunk_allowed (chunks xs) c" "sc_kind c = FinishChunk r q" "\<not> can_leave_open r"
  shows "\<forall>i\<in>set (oa_order a). Option.bind (map_of (oa_blocks a) i) (\<lambda>b. b) \<noteq> None"
proof
  fix i assume i: "i \<in> set (oa_order a)"
  have sub: "set (starts (chunks xs)) \<subseteq> set (ends (chunks xs))"
    using assms(2-4) by (simp add: chunk_allowed_def Let_def is_finish_def)
  have o: "oa_order a = starts (chunks xs)" using assms(1) by (simp add: open_after_def)
  have "i \<in> set (ends (chunks xs))" using i sub o by auto
  then have "map_of (block_ends (chunks xs)) i \<noteq> None" unfolding block_ends_None_iff by simp
  then show "Option.bind (map_of (oa_blocks a) i) (\<lambda>b. b) \<noteq> None"
    using assms(1) i o by (simp add: open_after_def)
qed

lemma prepare_operation_ok:
  assumes "open_after xs a" "chunk_allowed (chunks xs) c"
  shows "is_ok (prepare_operation E a c up) \<longleftrightarrow>
     (case sc_kind c of
        UsageChunk u \<Rightarrow> is_ok (with_sample up (oa_turn a) (oa_step a) u)
      | FinishChunk r _ \<Rightarrow>
          can_leave_open r
          \<or> is_ok (estimate_provider_assistant E (normalized_blocks r (stream_blocks (chunks xs))))
      | _ \<Rightarrow> True)"
proof (cases "sc_kind c")
  case (FinishChunk r q)
  show ?thesis
  proof (cases "can_leave_open r")
    case False
    have "\<not> (\<exists>i\<in>set (oa_order a). Option.bind (map_of (oa_blocks a) i) (\<lambda>b. b) = None)"
      using allowed_finish_complete[OF assms FinishChunk False] by blast
    then show ?thesis
      by (simp add: prepare_operation_def prepare_finish_def provider_assistant_tokens_def
          FinishChunk False ended_blocks_after[OF assms(1)] is_ok_bindR)
        (auto simp: is_ok_iff result_simps)
  qed (simp add: prepare_operation_def prepare_finish_def FinishChunk)
next
  case (OtherChunk t)
  then show ?thesis using assms(2) by (simp add: chunk_allowed_def Let_def)
qed (auto simp: prepare_operation_def is_ok_bindR is_ok_iff result_simps)

lemma open_prepare_ok:
  assumes "open_after xs a"
  shows "is_ok (open_prepare_chunk E a seq c up) \<longleftrightarrow> chunk_taken E a up xs c"
proof -
  have sv: "sv_after (chunks xs) (oa_validator a)" and wf: "well_formed_stream (chunks xs)"
    and em: "oa_emitted_bytes a = stream_bytes (chunks xs)"
    and le: "oa_emitted_bytes a \<le> MAX_ATTEMPT_EMITTED_BYTES"
    using assms by (auto simp: open_after_def)
  have len: "length (chunks xs) \<le> MAX_PROVIDER_STREAM_CHUNKS" using well_formed_length[OF wf] .
  have allowed: "is_ok (prepare (oa_validator a) c) \<longleftrightarrow> chunk_allowed (chunks xs) c"
    unfolding prepare_accept by (rule accept_iff[OF sv len])
  let ?k = "\<lambda>t emitted. bindR (prepare_operation E a c up) (\<lambda>(op, next_usage).
           Inr \<lparr>pe_seq = seq, pe_stream = t, pe_expected_generation = oa_generation a,
                pe_expected_source_count = length (oa_sources a), pe_emitted_bytes = emitted,
                pe_operation = op, pe_next_usage = next_usage\<rparr>)"
  have k: "is_ok (?k t n) \<longleftrightarrow> is_ok (prepare_operation E a c up)" for t n
    by (cases "prepare_operation E a c up") auto
  have eq: "is_ok (open_prepare_chunk E a seq c up) \<longleftrightarrow>
      (\<exists>t. map_err AttemptStream (prepare (oa_validator a) c) = Inr t
        \<and> stream_bytes (chunks xs) + jv_encoded_len (sc_raw c) \<le> MAX_ATTEMPT_EMITTED_BYTES
        \<and> is_ok (prepare_operation E a c up))"
    unfolding open_prepare_chunk_def is_ok_bindR[of "map_err AttemptStream _"] bytes_check[OF le] k
    by (simp add: em)
  also have "\<dots> \<longleftrightarrow> chunk_allowed (chunks xs) c
        \<and> stream_bytes (chunks xs) + jv_encoded_len (sc_raw c) \<le> MAX_ATTEMPT_EMITTED_BYTES
        \<and> is_ok (prepare_operation E a c up)"
    unfolding allowed[symmetric] by (auto simp: is_ok_iff result_simps)
  also have "\<dots> \<longleftrightarrow> chunk_taken E a up xs c"
    unfolding chunk_taken_def using prepare_operation_ok[OF assms, of c E up] by auto
  finally show ?thesis .
qed

text \<open>What committing a prepared chunk leaves.\<close>

definition state_after :: "externals \<Rightarrow> open_attempt \<Rightarrow> fed \<Rightarrow> attempt_state \<Rightarrow> bool" where
  "state_after E a xs st =
     (case st of
        Streaming b \<Rightarrow> open_after xs b \<and> oa_generation b = oa_generation a \<and> oa_turn b = oa_turn a
          \<and> oa_step b = oa_step a \<and> oa_route b = oa_route a
      | Finished f \<Rightarrow> finished_after E xs f \<and> fa_generation f = oa_generation a \<and> fa_turn f = oa_turn a
          \<and> fa_step f = oa_step a \<and> fa_route f = oa_route a
      | _ \<Rightarrow> False)"

definition next_usage :: "open_attempt \<Rightarrow> usage_projection \<Rightarrow> stream_chunk \<Rightarrow> usage_projection option" where
  "next_usage a up c =
     (case sc_kind c of
        UsageChunk u \<Rightarrow> (case with_sample up (oa_turn a) (oa_step a) u of Inl _ \<Rightarrow> None | Inr v \<Rightarrow> Some v)
      | _ \<Rightarrow> None)"

lemma open_prepare_shape:
  assumes "open_prepare_chunk E a seq c up = Inr q"
  shows "pe_seq q = seq" "pe_expected_generation q = oa_generation a"
    "pe_expected_source_count q = length (oa_sources a)"
    "pe_emitted_bytes q = oa_emitted_bytes a + jv_encoded_len (sc_raw c)"
    "accept (oa_validator a) c = Inr (commit (oa_validator a) (pe_stream q))"
    "prepare_operation E a c up = Inr (pe_operation q, pe_next_usage q)"
  using assms
  by (auto simp: open_prepare_chunk_def result_simps checked_simps accept_def split: if_splits)

lemma sv_after_snoc_open:
  assumes "open_after xs a" "accept (oa_validator a) c = Inr v" "chunk_allowed (chunks xs) c"
    "stream_bytes (chunks xs @ [c]) \<le> MAX_ATTEMPT_EMITTED_BYTES"
  shows "sv_after (chunks (xs @ [(seq, c)])) v" "well_formed_stream (chunks (xs @ [(seq, c)]))"
    "stream_bytes (chunks (xs @ [(seq, c)])) \<le> MAX_ATTEMPT_EMITTED_BYTES"
  using assms accept_after[of "chunks xs" "oa_validator a" c v]
  by (auto simp: open_after_def well_formed_snoc)

lemma open_commit_after:
  assumes a: "open_after xs a" and q: "open_prepare_chunk E a seq c up = Inr q"
  obtains st where "open_commit a q = Some (st, next_usage a up c)" "state_after E a (xs @ [(seq, c)]) st"
proof -
  note sh = open_prepare_shape[OF q]
  have taken: "chunk_taken E a up xs c"
    using open_prepare_ok[OF a, of E seq c up] q by (simp add: is_ok_iff)
  then have al: "chunk_allowed (chunks xs) c"
    and size: "stream_bytes (chunks xs @ [c]) \<le> MAX_ATTEMPT_EMITTED_BYTES"
    by (simp_all add: chunk_taken_def)
  note sv = sv_after_snoc_open[OF a sh(5) al size, where seq = seq]
  let ?v = "commit (oa_validator a) (pe_stream q)"
  let ?a = "a\<lparr>oa_validator := ?v, oa_sources := oa_sources a @ [pe_seq q], oa_emitted_bytes := pe_emitted_bytes q\<rparr>"
  have live: "\<And>d. d \<in> set (chunks xs) \<Longrightarrow> \<not> is_finish d" using a by (auto simp: open_after_def)
  have base: "oa_sources ?a = map fst (xs @ [(seq, c)])"
    "oa_emitted_bytes ?a = stream_bytes (chunks (xs @ [(seq, c)]))"
    using a by (simp_all add: open_after_def sh)
  have usage: "oa_usage a = stream_usage (chunks xs)"
    and order: "oa_order a = starts (chunks xs)" and dis: "distinct (starts (chunks xs))"
    and blocks: "\<And>i. map_of (oa_blocks a) i =
            (if i \<in> set (starts (chunks xs)) then Some (map_of (block_ends (chunks xs)) i) else None)"
    using a by (auto simp: open_after_def)
  have opened: "state_after E a (xs @ [(seq, c)]) (Streaming (f ?a))"
    if "oa_generation (f ?a) = oa_generation a" "oa_turn (f ?a) = oa_turn a" "oa_step (f ?a) = oa_step a"
      "oa_route (f ?a) = oa_route a" "oa_validator (f ?a) = ?v" "oa_sources (f ?a) = oa_sources ?a"
      "oa_emitted_bytes (f ?a) = oa_emitted_bytes ?a"
      "oa_order (f ?a) = starts (chunks xs @ [c])" "distinct (starts (chunks xs @ [c]))"
      "\<not> is_finish c" "oa_usage (f ?a) = stream_usage (chunks xs @ [c])"
      "\<And>i. map_of (oa_blocks (f ?a)) i =
        (if i \<in> set (starts (chunks xs @ [c])) then Some (map_of (block_ends (chunks xs @ [c])) i) else None)"
    for f
    unfolding state_after_def open_after_def
    using that sv base live by (auto simp: image_iff)
  note finish = that
  have delta: thesis
    if "pe_operation q = OpContinue \<and> pe_next_usage q = None" "next_usage a up c = None"
      "starts [c] = []" "block_ends [c] = []" "\<not> is_finish c"
      "stream_usage (chunks xs @ [c]) = stream_usage (chunks xs)"
  proof (rule finish)
    show "open_commit a q = Some (Streaming ?a, next_usage a up c)"
      using that by (simp add: open_commit_def Let_def)
    show "state_after E a (xs @ [(seq, c)]) (Streaming ?a)"
      using that opened[of "\<lambda>x. x"] usage dis order blocks
      by (simp del: single_chunk chunk_parts_single)
  qed
  show thesis
  proof (cases "sc_kind c")
    case (BlockStart i t)
    have ns: "i \<notin> set (starts (chunks xs))"
      using al BlockStart by (simp add: chunk_allowed_def Let_def)
    moreover have "i \<notin> set (ends (chunks xs))"
      using ns a by (auto simp: open_after_def sv_after_def)
    ultimately have no: "map_of (block_ends (chunks xs)) i = None" unfolding block_ends_None_iff by simp
    have op: "pe_operation q = OpBlockStart i" "pe_next_usage q = None"
      using sh(6) BlockStart by (auto simp: prepare_operation_def)
    have "state_after E a (xs @ [(seq, c)]) (Streaming (?a\<lparr>oa_order := oa_order a @ [i],
        oa_blocks := table_insert i None (oa_blocks a)\<rparr>))"
      using opened[of "\<lambda>b. b\<lparr>oa_order := oa_order a @ [i], oa_blocks := table_insert i None (oa_blocks a)\<rparr>"]
        ns no BlockStart dis
      by (simp add: order usage blocks map_of_table_insert is_finish_def stream_usage_snoc)
    then show thesis
      using op BlockStart by (intro finish) (simp_all add: open_commit_def next_usage_def Let_def)
  next
    case (BlockEnd i b)
    have "started (chunks xs) i (block_type (cb_kind b))" "i \<notin> set (ends (chunks xs))"
      using al BlockEnd by (auto simp: chunk_allowed_def Let_def)
    then have si: "i \<in> set (starts (chunks xs))" and no: "map_of (block_ends (chunks xs)) i = None"
      using started_in_starts block_ends_None_iff by auto
    have op: "pe_operation q = OpBlockEnd i b" "pe_next_usage q = None"
      using sh(6) BlockEnd by (auto simp: prepare_operation_def)
    have "state_after E a (xs @ [(seq, c)]) (Streaming (?a\<lparr>oa_blocks := table_insert i (Some b) (oa_blocks a)\<rparr>))"
      using opened[of "\<lambda>x. x\<lparr>oa_blocks := table_insert i (Some b) (oa_blocks a)\<rparr>"] si no BlockEnd dis
      by (auto simp: order usage blocks map_of_table_insert is_finish_def stream_usage_snoc map_add_def
          split: option.splits)
    then show thesis
      using op BlockEnd blocks[of i] si
      by (intro finish) (simp_all add: open_commit_def next_usage_def Let_def)
  next
    case (UsageChunk u)
    have "usages (chunks xs) = 0" using al UsageChunk by (simp add: chunk_allowed_def Let_def)
    then have su: "stream_usage (chunks xs @ [c]) = Some u"
      using stream_usage_snoc[of "chunks xs" c] UsageChunk by simp
    obtain up' where up': "with_sample up (oa_turn a) (oa_step a) u = Inr up'"
      "pe_operation q = OpUsage u" "pe_next_usage q = Some up'"
      using sh(6) UsageChunk by (auto simp: prepare_operation_def result_simps)
    have "state_after E a (xs @ [(seq, c)]) (Streaming (?a\<lparr>oa_usage := Some u\<rparr>))"
      using opened[of "\<lambda>x. x\<lparr>oa_usage := Some u\<rparr>"] UsageChunk su dis
      by (simp add: order blocks is_finish_def)
    then show thesis
      using up' UsageChunk by (intro finish) (simp_all add: open_commit_def next_usage_def Let_def)
  next
    case (FinishChunk r p)
    have su: "stream_usage (chunks xs @ [c]) = stream_usage (chunks xs)"
      using stream_usage_snoc[of "chunks xs" c] FinishChunk by simp
    have sb: "stream_blocks (chunks xs @ [c]) = stream_blocks (chunks xs)"
      using FinishChunk by (simp add: stream_blocks_def)
    have nu: "pe_next_usage q = None" and pf: "prepare_finish E a r p = Inr (pe_operation q)"
      using sh(6) FinishChunk by (auto simp: prepare_operation_def result_simps)
    show thesis
    proof (cases "can_leave_open r")
      case True
      with pf have op: "pe_operation q = OpFinish r p None None None" by (simp add: prepare_finish_def)
      let ?f = "finish_attempt ?a r p None None None"
      have "state_after E a (xs @ [(seq, c)]) (Finished ?f)"
        using FinishChunk True sv base su usage
        by (simp add: state_after_def finished_after_def finish_attempt_def)
      moreover have "open_commit a q = Some (Finished ?f, next_usage a up c)"
        using op nu FinishChunk by (simp add: open_commit_def next_usage_def Let_def)
      ultimately show thesis by (rule finish[rotated])
    next
      case False
      have sub: "set (starts (chunks xs)) \<subseteq> set (ends (chunks xs))"
        using al FinishChunk False by (simp add: chunk_allowed_def Let_def)
      from pf False obtain tokens where
        tok: "estimate_provider_assistant E (normalized_blocks r (stream_blocks (chunks xs))) = Inr tokens"
        and op: "pe_operation q = OpFinish r p (Some [])
            (Some (content_digest E (normalized_blocks r (stream_blocks (chunks xs))))) (Some tokens)"
        by (auto simp: prepare_finish_def provider_assistant_tokens_def result_simps
            normalized_content_digest_def ended_blocks_after[OF a] split: if_splits)
      let ?f = "finish_attempt ?a r p (Some (stream_blocks (chunks xs)))
            (Some (content_digest E (normalized_blocks r (stream_blocks (chunks xs))))) (Some tokens)"
      have "state_after E a (xs @ [(seq, c)]) (Finished ?f)"
        using FinishChunk False sv base su usage sb tok
        by (simp add: state_after_def finished_after_def finish_attempt_def)
      moreover have "open_commit a q = Some (Finished ?f, next_usage a up c)"
        using op nu FinishChunk collect_blocks_after[OF a sub]
        by (simp add: open_commit_def next_usage_def Let_def)
      ultimately show thesis by (rule finish[rotated])
    qed
  next
    case (OtherChunk t)
    with sh(6) show thesis by (simp add: prepare_operation_def)
  qed (use sh(6) in \<open>simp_all add: delta prepare_operation_def next_usage_def is_finish_def stream_usage_snoc\<close>)
qed

end
