(* ===== verification/Attempt_Runs.thy ===== *)
theory Attempt_Runs
  imports Attempt_Proofs
begin

text \<open>
  The attempt fold as a state machine: one move per operation of \<open>AttemptProjection\<close>, the runs
  from the empty projection, and what every run keeps.
\<close>

section \<open>Moves and runs\<close>

datatype (plugins only: code) attempt_move =
    MStepStart nat nat
  | MLive
  | MChunk nat stream_chunk
  | MSeal
  | MCommit
  | MRetry
  | MRetryStarted
  | MOverflow
  | MOverflowStart
  | MStepEnd "attempt_disposition option"

inductive attempt_step ::
  "externals \<Rightarrow> attempt_projection \<Rightarrow> attempt_move \<Rightarrow> attempt_projection \<Rightarrow> bool" for E where
  start: "step_start p turn step = Inr p' \<Longrightarrow> attempt_step E p (MStepStart turn step) p'"
| live: "prepare_begin_live p turn step header generation = Inr l \<Longrightarrow> attempt_step E p MLive (commit_live l)"
| chunk: "prepare_chunk E p event header generation = Inr q \<Longrightarrow> commit_chunk p q = (True, p')
    \<Longrightarrow> ev_kind event = AssistantChunk turn step c \<Longrightarrow> attempt_step E p (MChunk (ev_seq event) c) p'"
| seal: "take_prepared E p = Inr (prepared, p') \<Longrightarrow> attempt_step E p MSeal p'"
| commit: "assistant E p event = Inr (p', facts) \<Longrightarrow> attempt_step E p MCommit p'"
| retry: "retry_attempt p event = Inr p' \<Longrightarrow> attempt_step E p MRetry p'"
| retry_started: "retry_started p turn step = Inr p' \<Longrightarrow> attempt_step E p MRetryStarted p'"
| overflow: "context_overflow p turn step generation begins = Inr p' \<Longrightarrow> attempt_step E p MOverflow p'"
| overflow_start: "context_overflow_start p turn step = Inr p' \<Longrightarrow> attempt_step E p MOverflowStart p'"
| step_end: "step_end p turn step disposition = Inr p' \<Longrightarrow> attempt_step E p (MStepEnd disposition) p'"
| interrupt: "interrupt_for_recovery E p turn step rp = Inr p'
    \<Longrightarrow> attempt_step E p (MStepEnd (Some DispInterrupted)) p'"

text \<open>A run carries its moves and the projections they led to.\<close>

type_synonym attempt_trace = "(attempt_move \<times> attempt_projection) list"

inductive attempt_run :: "externals \<Rightarrow> attempt_trace \<Rightarrow> attempt_projection \<Rightarrow> bool" for E where
  init: "attempt_run E [] attempt_default"
| move: "attempt_run E tr p \<Longrightarrow> attempt_step E p m p' \<Longrightarrow> attempt_run E (tr @ [(m, p')]) p'"

text \<open>The chunks since the last other move; the overflow recoveries since the last step start.\<close>

fun fed_chunks :: "attempt_trace \<Rightarrow> fed" where
  "fed_chunks [] = []"
| "fed_chunks ((MChunk seq c, _) # tr) = (seq, c) # fed_chunks tr"
| "fed_chunks (_ # tr) = []"

definition current_chunks :: "attempt_trace \<Rightarrow> fed" where
  "current_chunks tr = rev (fed_chunks (rev tr))"

fun overflows_back :: "attempt_trace \<Rightarrow> nat" where
  "overflows_back [] = 0"
| "overflows_back ((MStepStart _ _, _) # tr) = 0"
| "overflows_back ((MOverflow, _) # tr) = Suc (overflows_back tr)"
| "overflows_back (_ # tr) = overflows_back tr"

definition overflows_in_step :: "attempt_trace \<Rightarrow> nat" where
  "overflows_in_step tr = overflows_back (rev tr)"

definition generation_of :: "attempt_projection \<Rightarrow> nat option" where
  "generation_of p =
     (case at_state p of
        Streaming a \<Rightarrow> Some (oa_generation a)
      | Finished f \<Rightarrow> Some (fa_generation f)
      | Sealed a \<Rightarrow> Some (sa_generation a)
      | _ \<Rightarrow> None)"

text \<open>An attempt is opened by a move when there is one after it and there was none before.\<close>

fun openings :: "attempt_projection \<Rightarrow> attempt_trace \<Rightarrow> nat list" where
  "openings p [] = []"
| "openings p ((m, p') # tr) =
     (case generation_of p' of
        None \<Rightarrow> openings p' tr
      | Some g \<Rightarrow> if generation_of p = None then g # openings p' tr else openings p' tr)"

text \<open>The chunks of an attempt that may have been sealed meanwhile.\<close>

definition attempt_chunks :: "attempt_trace \<Rightarrow> fed" where
  "attempt_chunks tr = current_chunks (if tr \<noteq> [] \<and> fst (last tr) = MSeal then butlast tr else tr)"

lemma current_chunks_simps [simp]:
  "current_chunks [] = []"
  "current_chunks (tr @ [(MChunk seq c, p)]) = current_chunks tr @ [(seq, c)]"
  by (simp_all add: current_chunks_def)

lemma current_chunks_other: "\<forall>seq c. m \<noteq> MChunk seq c \<Longrightarrow> current_chunks (tr @ [(m, p)]) = []"
  by (cases m) (simp_all add: current_chunks_def)

section \<open>The invariant\<close>

definition attempt_inv :: "externals \<Rightarrow> attempt_trace \<Rightarrow> attempt_projection \<Rightarrow> bool" where
  "attempt_inv E tr p =
     ((case at_state p of
         Streaming a \<Rightarrow> open_after (current_chunks tr) a
       | Finished f \<Rightarrow> finished_after E (current_chunks tr) f
       | _ \<Rightarrow> current_chunks tr = [])
      \<and> (\<forall>g. generation_of p = Some g \<longrightarrow> 0 < g \<and> Suc g = at_next_generation p)
      \<and> 0 < at_next_generation p
      \<and> (at_overflow_start_used p \<longrightarrow> at_overflow_used p)
      \<and> (at_overflow_used p \<longleftrightarrow> at_overflow_generation p \<noteq> None)
      \<and> (at_state p = OutsideStep \<longrightarrow> \<not> at_overflow_used p))"

lemma open_after_new: "open_after [] (open_attempt_new g turn step route)"
  by (simp add: open_after_def open_attempt_new_def sv_after_default well_formed_stream_def starts_def
      block_ends_def stream_bytes_def stream_usage_def stream_usages_def)

text \<open>A prepared chunk commits, and leaves what the chunks so far amount to.\<close>

lemma chunk_commits:
  assumes inv: "attempt_inv E tr p" and q: "prepare_chunk E p event header generation = Inr q"
    and k: "ev_kind event = AssistantChunk turn step c"
  obtains p' a xs where "commit_chunk p q = (True, p')"
    "state_after E a (xs @ [(ev_seq event, c)]) (at_state p')"
    "xs = current_chunks tr" "oa_turn a = turn" "oa_step a = step"
    "at_overflow_used p' = at_overflow_used p" "at_overflow_start_used p' = at_overflow_start_used p"
    "at_overflow_generation p' = at_overflow_generation p"
    "(at_state p = Ready turn step \<and> oa_generation a = at_next_generation p
        \<and> at_next_generation p' = Suc (at_next_generation p))
     \<or> (at_state p = Streaming a \<and> at_next_generation p' = at_next_generation p)"
proof -
  from q k consider (ready) "at_state p = Ready turn step"
      "open_first_chunk E p (ev_seq event) turn step c header generation = Inr q"
    | (streaming) a r where "at_state p = Streaming a" "oa_turn a = turn" "oa_step a = step"
      "open_prepare_chunk E a (ev_seq event) c (at_usage p) = Inr r" "q = PrepExisting r"
    by (auto simp: prepare_chunk_def result_simps split: attempt_state.splits if_splits)
  then show thesis
  proof cases
    case ready
    from ready(2) obtain route r st u where
      n: "at_next_generation p + 1 < U64_LIMIT" and
      r: "open_prepare_chunk E (open_attempt_new (at_next_generation p) turn step route) (ev_seq event) c
            (at_usage p) = Inr r" and
      st: "open_commit (open_attempt_new (at_next_generation p) turn step route) r = Some (st, u)" and
      qe: "q = PrepReplace turn step (at_next_generation p)
         (p\<lparr>at_state := st, at_usage := (case u of None \<Rightarrow> at_usage p | Some v \<Rightarrow> v),
            at_next_generation := at_next_generation p + 1\<rparr>)"
      by (auto simp: open_first_chunk_def Let_def result_simps checked_simps)
    let ?a = "open_attempt_new (at_next_generation p) turn step route"
    obtain st' where "open_commit ?a r = Some (st', next_usage ?a (at_usage p) c)"
      and sa: "state_after E ?a ([] @ [(ev_seq event, c)]) st'"
      using open_commit_after[OF open_after_new r] by blast
    with st have st': "st' = st" by simp
    have cur: "current_chunks tr = []" using inv ready(1) by (simp add: attempt_inv_def)
    have "commit_chunk p q = (True, p\<lparr>at_state := st, at_usage := (case u of None \<Rightarrow> at_usage p | Some v \<Rightarrow> v),
            at_next_generation := at_next_generation p + 1\<rparr>)"
      using ready(1) by (simp add: commit_chunk_def qe)
    then show thesis
      by (rule that[where a = ?a and xs = "[]"])
        (use sa st' cur ready(1) in \<open>simp_all add: open_attempt_new_def\<close>)
  next
    case streaming
    then have oa: "open_after (current_chunks tr) a" using inv by (simp add: attempt_inv_def)
    obtain st where st: "open_commit a r = Some (st, next_usage a (at_usage p) c)"
      and sa: "state_after E a (current_chunks tr @ [(ev_seq event, c)]) st"
      using open_commit_after[OF oa streaming(4)] by blast
    have "commit_chunk p q = (True, p\<lparr>at_state := st,
        at_usage := (case next_usage a (at_usage p) c of None \<Rightarrow> at_usage p | Some u \<Rightarrow> u)\<rparr>)"
      using streaming(1) open_prepare_shape(2,3)[OF streaming(4)] st
      by (simp add: commit_chunk_def streaming(5))
    then show thesis
      by (rule that[where a = a and xs = "current_chunks tr"])
        (use sa streaming(1-3) in simp_all)
  qed
qed

lemma chunk_step:
  assumes "attempt_inv E tr p" "prepare_chunk E p event header generation = Inr q"
    "ev_kind event = AssistantChunk turn step c"
  shows "\<exists>p' a. commit_chunk p q = (True, p')
    \<and> state_after E a (current_chunks tr @ [(ev_seq event, c)]) (at_state p')
    \<and> at_overflow_used p' = at_overflow_used p \<and> at_overflow_start_used p' = at_overflow_start_used p
    \<and> at_overflow_generation p' = at_overflow_generation p
    \<and> ((at_state p = Ready turn step \<and> oa_generation a = at_next_generation p
          \<and> at_next_generation p' = Suc (at_next_generation p))
        \<or> (at_state p = Streaming a \<and> at_next_generation p' = at_next_generation p))"
  by (rule chunk_commits[OF assms]) blast

lemma state_after_generation:
  "state_after E a xs (at_state p) \<Longrightarrow> generation_of p = Some (oa_generation a)"
  by (auto simp: state_after_def generation_of_def split: attempt_state.splits)

text \<open>The projections the other operations leave.\<close>

lemma assistant_shape:
  "assistant E p event = Inr (p', facts) \<Longrightarrow> \<exists>turn step up. p' = p\<lparr>at_state := Committed turn step, at_usage := up\<rparr>"
  unfolding assistant_def
  by (cases "ev_kind event") (auto simp: result_simps split: if_splits)

lemma retry_shape:
  "retry_attempt p event = Inr p' \<Longrightarrow> \<exists>turn step. p' = p\<lparr>at_state := RetryScheduled turn step\<rparr>"
  unfolding retry_attempt_def
  by (cases "ev_kind event") (auto simp: result_simps split: if_splits)

lemma step_end_shape:
  "step_end p turn step d = Inr p' \<Longrightarrow> p' = p\<lparr>at_state := OutsideStep, at_overflow_used := False,
     at_overflow_start_used := False, at_overflow_generation := None\<rparr>"
  by (auto simp: step_end_def result_simps split: if_splits)

lemma interrupt_shape:
  "interrupt_for_recovery E p turn step rp = Inr p' \<Longrightarrow> step_end p turn step (Some DispInterrupted) = Inr p'"
  by (auto simp: interrupt_for_recovery_def split: if_splits)

lemma seal_shape:
  "take_prepared E p = Inr (r, p') \<Longrightarrow> \<exists>f. at_state p = Finished f \<and> p' = p\<lparr>at_state := Sealed (seal_attempt E f)\<rparr>"
  by (auto simp: take_prepared_def split: attempt_state.splits)

lemma overflow_shape:
  "context_overflow p turn step g b = Inr p' \<Longrightarrow> \<not> at_overflow_used p \<and>
     p' = p\<lparr>at_state := Ready turn step, at_overflow_used := True, at_overflow_start_used := b,
       at_overflow_generation := Some g\<rparr>"
  by (auto simp: context_overflow_def result_simps split: if_splits)

lemma live_shape:
  "prepare_begin_live p turn step h g = Inr l \<Longrightarrow> at_state p = Ready turn step \<and>
     (\<exists>route. commit_live l = p\<lparr>at_state := Streaming (open_attempt_new (at_next_generation p) turn step route),
       at_next_generation := Suc (at_next_generation p)\<rparr>)"
  by (cases p) (auto simp: prepare_begin_live_def commit_live_def result_simps checked_simps
      require_ready_def split: if_splits)

lemmas shapes = assistant_shape retry_shape step_end_shape interrupt_shape seal_shape overflow_shape live_shape

text \<open>A move that leaves no open attempt keeps the invariant when its flags are in order.\<close>

lemma attempt_inv_closed:
  assumes "attempt_inv E tr p" "\<forall>seq c. m \<noteq> MChunk seq c" "generation_of p' = None"
    "at_next_generation p' = at_next_generation p"
    "at_overflow_start_used p' \<longrightarrow> at_overflow_used p'"
    "at_overflow_used p' \<longleftrightarrow> at_overflow_generation p' \<noteq> None"
    "at_state p' = OutsideStep \<longrightarrow> \<not> at_overflow_used p'"
  shows "attempt_inv E (tr @ [(m, p')]) p'"
  using assms by (cases "at_state p'") (auto simp: attempt_inv_def generation_of_def current_chunks_other)

lemma attempt_inv_flags:
  assumes "attempt_inv E tr p"
  shows "at_overflow_start_used p \<longrightarrow> at_overflow_used p"
    "at_overflow_used p \<longleftrightarrow> at_overflow_generation p \<noteq> None"
  using assms by (auto simp: attempt_inv_def)

lemma attempt_inv_step:
  assumes "attempt_inv E tr p" "attempt_step E p m p'"
  shows "attempt_inv E (tr @ [(m, p')]) p'"
  using assms(2)
proof cases
  case (chunk event header generation q turn step c)
  from chunk_step[OF assms(1) chunk(2) chunk(4)] obtain p'' a where
    c: "commit_chunk p q = (True, p'')"
    "state_after E a (current_chunks tr @ [(ev_seq event, c)]) (at_state p'')"
    "at_overflow_used p'' = at_overflow_used p" "at_overflow_start_used p'' = at_overflow_start_used p"
    "at_overflow_generation p'' = at_overflow_generation p"
    "(at_state p = Ready turn step \<and> oa_generation a = at_next_generation p
        \<and> at_next_generation p'' = Suc (at_next_generation p))
     \<or> (at_state p = Streaming a \<and> at_next_generation p'' = at_next_generation p)" by blast
  have "p'' = p'" using c(1) chunk(3) by simp
  moreover have "generation_of p'' = Some (oa_generation a)" by (rule state_after_generation[OF c(2)])
  ultimately show ?thesis
    using c assms(1) chunk(1)
    by (cases "at_state p''") (auto simp: attempt_inv_def state_after_def generation_of_def)
next
  case (seal prepared)
  then obtain f where "at_state p = Finished f" "p' = p\<lparr>at_state := Sealed (seal_attempt E f)\<rparr>"
    by (auto dest: shapes)
  then show ?thesis using assms(1) seal(1)
    by (auto simp: attempt_inv_def current_chunks_other generation_of_def seal_attempt_def)
next
  case (live turn step header generation l)
  from live_shape[OF live(3)] obtain route where
    "p' = p\<lparr>at_state := Streaming (open_attempt_new (at_next_generation p) turn step route),
       at_next_generation := Suc (at_next_generation p)\<rparr>" using live(2) by auto
  then show ?thesis
    using assms(1) live(1) open_after_new[of "at_next_generation p" turn step route]
    by (auto simp: attempt_inv_def current_chunks_other generation_of_def open_attempt_new_def)
qed (rule attempt_inv_closed[OF assms(1)], use attempt_inv_flags[OF assms(1)] in \<open>auto dest!: shapes
      simp: generation_of_def step_start_def retry_started_def context_overflow_start_def
      require_ready_def result_simps split: if_splits\<close>)+

lemma attempt_run_inv: "attempt_run E tr p \<Longrightarrow> attempt_inv E tr p"
proof (induction rule: attempt_run.induct)
  case init
  show ?case by (simp add: attempt_inv_def attempt_default_def generation_of_def)
next
  case (move tr p m p')
  then show ?case by (blast intro: attempt_inv_step)
qed

section \<open>Properties of runs\<close>

lemma attempt_step_overflow:
  assumes "attempt_inv E tr p" "attempt_step E p m p'"
    "overflows_in_step tr = of_bool (at_overflow_used p)"
  shows "overflows_in_step (tr @ [(m, p')]) = of_bool (at_overflow_used p') \<or> (\<exists>d. m = MStepEnd d)"
  using assms(2)
proof cases
  case (chunk event header generation q turn step c)
  have "at_overflow_used p' = at_overflow_used p"
    using chunk_step[OF assms(1) chunk(2) chunk(4)] chunk(3) by auto
  then show ?thesis using assms(3) chunk(1) by (simp add: overflows_in_step_def)
qed (use assms(1,3) in \<open>auto dest!: shapes simp: overflows_in_step_def attempt_inv_def result_simps
      step_start_def retry_started_def context_overflow_start_def require_ready_def split: if_splits\<close>)

lemma step_end_clears: "attempt_step E p (MStepEnd d) p' \<Longrightarrow> at_state p' = OutsideStep"
  by (cases rule: attempt_step.cases)
    (auto simp: step_end_def interrupt_for_recovery_def result_simps split: if_splits)

lemma outside_refuses:
  assumes "at_state p = OutsideStep"
  shows "assistant E p event \<noteq> Inr r" "retry_attempt p event \<noteq> Inr p'" "prepare_chunk E p event h g \<noteq> Inr q"
  using assms
  by (cases "ev_kind event"; simp add: assistant_def retry_attempt_def prepare_chunk_def matched_facts_def Let_def)+

lemma outside_only_starts: "attempt_step E p m p' \<Longrightarrow> at_state p = OutsideStep \<Longrightarrow> \<exists>t s. m = MStepStart t s"
  by (cases rule: attempt_step.cases)
    (auto dest: outside_refuses live_shape seal_shape simp: retry_started_def context_overflow_def
      context_overflow_start_def require_ready_def step_end_def interrupt_for_recovery_def
      ordinary_end_def open_matches_def result_simps split: if_splits)

lemma attempt_run_overflows:
  "attempt_run E tr p \<Longrightarrow>
     overflows_in_step tr \<le> 1 \<and> (at_state p \<noteq> OutsideStep \<longrightarrow> overflows_in_step tr = of_bool (at_overflow_used p))"
proof (induction rule: attempt_run.induct)
  case init
  show ?case by (simp add: overflows_in_step_def attempt_default_def)
next
  case (move tr p m p')
  note inv = attempt_run_inv[OF move.hyps(1)]
  show ?case
  proof (cases "at_state p = OutsideStep")
    case True
    then obtain t s where m: "m = MStepStart t s" using outside_only_starts[OF move.hyps(2)] by blast
    then have "\<not> at_overflow_used p'"
      using move.hyps(2) by (auto elim!: attempt_step.cases simp: step_start_def split: if_splits)
    then show ?thesis using m by (simp add: overflows_in_step_def)
  next
    case False
    then have eq: "overflows_in_step tr = of_bool (at_overflow_used p)" using move.IH by blast
    show ?thesis
    proof (cases "\<exists>d. m = MStepEnd d")
      case True
      then obtain d where "m = MStepEnd d" by blast
      then show ?thesis using step_end_clears move.hyps(2) move.IH by (auto simp: overflows_in_step_def)
    next
      case False
      then show ?thesis using attempt_step_overflow[OF inv move.hyps(2) eq] by simp
    qed
  qed
qed

lemma attempt_step_generation:
  assumes "attempt_inv E tr p" "attempt_step E p m p'"
  shows "(generation_of p' = None \<and> at_next_generation p' = at_next_generation p)
    \<or> (generation_of p = None \<and> generation_of p' = Some (at_next_generation p) \<and> at_next_generation p' = Suc (at_next_generation p))
    \<or> (generation_of p' = generation_of p \<and> at_next_generation p' = at_next_generation p)"
  using assms(2)
proof cases
  case (chunk event header generation q turn step c)
  from chunk_step[OF assms(1) chunk(2) chunk(4)] obtain p'' a where "commit_chunk p q = (True, p'')"
    "state_after E a (current_chunks tr @ [(ev_seq event, c)]) (at_state p'')"
    "(at_state p = Ready turn step \<and> oa_generation a = at_next_generation p
        \<and> at_next_generation p'' = Suc (at_next_generation p))
     \<or> (at_state p = Streaming a \<and> at_next_generation p'' = at_next_generation p)" by blast
  moreover from this have "p'' = p'" using chunk(3) by simp
  ultimately show ?thesis
    using state_after_generation[of E a "current_chunks tr @ [(ev_seq event, c)]" p'']
    by (auto simp: generation_of_def)
qed (auto dest!: shapes simp: result_simps generation_of_def step_start_def retry_started_def
      context_overflow_start_def require_ready_def seal_attempt_def open_attempt_new_def split: if_splits)

text \<open>The projection a trace has led to.\<close>

definition reached :: "attempt_projection \<Rightarrow> attempt_trace \<Rightarrow> attempt_projection" where
  "reached p tr = (if tr = [] then p else snd (last tr))"

lemma run_reached: "attempt_run E tr p \<Longrightarrow> reached attempt_default tr = p"
  by (cases rule: attempt_run.cases) (auto simp: reached_def)

lemma openings_snoc:
  "openings p (tr @ [(m, q)]) = openings p tr
     @ (case generation_of q of None \<Rightarrow> [] | Some g \<Rightarrow> if generation_of (reached p tr) = None then [g] else [])"
  by (induction p tr rule: openings.induct) (auto simp: reached_def split: option.split)

lemma attempt_run_openings: "attempt_run E tr p \<Longrightarrow> openings attempt_default tr = [1..<at_next_generation p]"
proof (induction rule: attempt_run.induct)
  case init
  show ?case by (simp add: attempt_default_def)
next
  case (move tr p m p')
  have inv: "attempt_inv E tr p" by (rule attempt_run_inv[OF move.hyps(1)])
  show ?case
    using attempt_step_generation[OF inv move.hyps(2)] inv
    by (auto simp: openings_snoc move.IH run_reached[OF move.hyps(1)] attempt_inv_def split: option.split)
qed

text \<open>An attempt keeps its generation for as long as there is one.\<close>

definition kept_generation :: "attempt_projection \<Rightarrow> attempt_projection \<Rightarrow> bool" where
  "kept_generation p p' = (\<forall>g g'. generation_of p = Some g \<and> generation_of p' = Some g' \<longrightarrow> g' = g)"

lemma attempt_run_kept:
  "attempt_run E tr p \<Longrightarrow> Suc i < length tr \<Longrightarrow> kept_generation (snd (tr ! i)) (snd (tr ! Suc i))"
proof (induction arbitrary: i rule: attempt_run.induct)
  case (move tr p m p')
  show ?case
  proof (cases "Suc i < length tr")
    case True
    then show ?thesis using move.IH by (simp add: nth_append)
  next
    case False
    then have i: "tr \<noteq> []" "i = length tr - 1" using move.prems by auto
    then have "snd (tr ! i) = p" using run_reached[OF move.hyps(1)] by (simp add: reached_def last_conv_nth)
    moreover have "kept_generation p p'"
      using attempt_step_generation[OF attempt_run_inv[OF move.hyps(1)] move.hyps(2)] by (auto simp: kept_generation_def)
    ultimately show ?thesis using i move.prems by (simp add: nth_append)
  qed
qed simp

text \<open>A sealed attempt was sealed by the last move, from a finished one.\<close>

lemma sealed_last:
  assumes "attempt_run E tr p" "at_state p = Sealed a"
  obtains tr' q f where "tr = tr' @ [(MSeal, p)]" "attempt_run E tr' q" "at_state q = Finished f" "a = seal_attempt E f"
  using assms(1)
proof cases
  case init
  then show ?thesis using assms(2) by (simp add: attempt_default_def)
next
  case (move tr' q m)
  have "m = MSeal \<and> (\<exists>f. at_state q = Finished f \<and> a = seal_attempt E f)"
    using move(3) assms(2)
  proof cases
    case (chunk event header generation r turn step c)
    from chunk_step[OF attempt_run_inv[OF move(2)] chunk(2) chunk(4)] show ?thesis
      using chunk(3) assms(2) by (auto simp: state_after_def)
  qed (auto dest!: shapes simp: step_start_def retry_started_def context_overflow_start_def require_ready_def result_simps
      open_attempt_new_def split: if_splits)
  then show ?thesis using that move by blast
qed

text \<open>
  C1: A finished attempt is what its chunks say.  In every run of the attempt fold, a finished
  attempt holds exactly the chunks fed since it opened: they form a well-formed stream within the
  byte limit that ends with that finish, the sources are their sequence numbers in order, the
  usage is the one the stream reported, and, unless the finish is a failure, the content is the
  ended blocks in the order they started, with the digest of their normalized form.
\<close>

theorem finished_attempt_is_its_stream:
  assumes "attempt_run E tr p" "at_state p = Finished f"
  shows "finished_after E (current_chunks tr) f"
  using attempt_run_inv[OF assms(1)] assms(2) by (simp add: attempt_inv_def)

text \<open>
  C24: Preparing is enough.  In every run, a chunk that has been prepared against the projection
  commits: the ownership check of \<open>commit_chunk\<close> cannot fail, so the two-phase protocol never
  loses a chunk that was already written to the log.
\<close>

theorem prepared_chunk_commits:
  assumes "attempt_run E tr p" "prepare_chunk E p event header generation = Inr q"
  shows "fst (commit_chunk p q)"
proof -
  obtain turn step c where k: "ev_kind event = AssistantChunk turn step c"
    using assms(2) by (auto simp: prepare_chunk_def split: event_kind.splits)
  show ?thesis using chunk_step[OF attempt_run_inv[OF assms(1)] assms(2) k] by auto
qed

text \<open>
  C34: Every attempt has its own generation.  Counting an attempt each time a move leads from a
  state without one to a state with one, by dispatch or by a first chunk, after a retry or an overflow as well,
  the generations of the attempts a run opens are 1, 2, 3 and so on, each exactly once; and an attempt
  keeps its generation from move to move until it is closed.
\<close>

theorem attempt_generations_fresh:
  assumes "attempt_run E tr p"
  shows "openings attempt_default tr = [1..<at_next_generation p]
    \<and> (\<forall>i. Suc i < length tr \<longrightarrow> kept_generation (snd (tr ! i)) (snd (tr ! Suc i)))"
  using attempt_run_openings[OF assms] attempt_run_kept[OF assms] by blast

text \<open>
  C33: A step recovers from a context overflow at most once, however its attempts, retries and
  compactions interleave.
\<close>

theorem context_overflow_once_per_step:
  assumes "attempt_run E tr p"
  shows "overflows_in_step tr \<le> 1"
  using attempt_run_overflows[OF assms] by blast

text \<open>The attempt an accepted message meets, finished or sealed, and the chunks it is made of.\<close>

lemma assistant_attempt:
  assumes "attempt_run E tr p" "assistant E p event = Inr (p', facts)"
  obtains f where "finished_after E (attempt_chunks tr) f" "at_state p = Finished f \<or> at_state p = Sealed (seal_attempt E f)"
proof -
  have "(\<exists>f. at_state p = Finished f) \<or> (\<exists>a. at_state p = Sealed a)"
    using assms(2) by (cases "ev_kind event"; cases "at_state p") (auto simp: assistant_def matched_facts_def Let_def)
  then show thesis
  proof (elim disjE exE)
    fix f assume f: "at_state p = Finished f"
    have "tr \<noteq> [] \<Longrightarrow> fst (last tr) \<noteq> MSeal"
      using assms(1) f by (cases rule: attempt_run.cases) (auto elim!: attempt_step.cases dest!: seal_shape)
    then have "attempt_chunks tr = current_chunks tr" by (auto simp: attempt_chunks_def)
    then have "finished_after E (attempt_chunks tr) f" using attempt_run_inv[OF assms(1)] f by (simp add: attempt_inv_def)
    then show thesis using f by (intro that) simp_all
  next
    fix a assume a: "at_state p = Sealed a"
    obtain tr' q f where s: "tr = tr' @ [(MSeal, p)]" "attempt_run E tr' q" "at_state q = Finished f" "a = seal_attempt E f"
      by (rule sealed_last[OF assms(1) a])
    then have "finished_after E (attempt_chunks tr) f" using attempt_run_inv[OF s(2)] by (simp add: attempt_inv_def attempt_chunks_def)
    then show thesis using a s(4) by (intro that) simp_all
  qed
qed

text \<open>
  What the message must name of the attempt: the sources, in full for a finished attempt and by count
  and digest for a sealed one, and the provider, the model and the replay state.
\<close>

definition names_sources :: "externals \<Rightarrow> attempt_state \<Rightarrow> nat list \<Rightarrow> nat list \<Rightarrow> bool" where
  "names_sources E st named sources =
     (case st of
        Sealed _ \<Rightarrow> length named = length sources \<and> source_digest E named = source_digest E sources
      | _ \<Rightarrow> named = sources)"

definition names_origin :: "externals \<Rightarrow> message \<Rightarrow> call_config \<Rightarrow> json_value option \<Rightarrow> bool" where
  "names_origin E m route replay =
     (\<exists>named. src_kind (msg_source m) = ModelSource (cc_provider route) (cc_model route) named
        \<and> map_option (json_digest E) named = map_option (json_digest E) replay)"

lemma assistant_accepted:
  assumes f: "finished_after E xs f" and st: "at_state p = Finished f \<or> at_state p = Sealed (seal_attempt E f)"
    and k: "ev_kind event = AssistantMessage turn step m usage" and ok: "assistant E p event = Inr (p', facts)"
  shows "terminal_failure (fa_reason f) = None"
    and "names_sources E (at_state p) (case ev_source_event_seqs event of None \<Rightarrow> [] | Some s \<Rightarrow> s) (map fst xs)"
    and "names_origin E m (fa_route f) (fa_replay_state f)"
    and "usage = stream_usage (chunks xs) \<and> cf_usage facts = usage"
    and "content_digest E (msg_content m) = content_digest E (normalized_blocks (fa_reason f) (stream_blocks (chunks xs)))"
    and "is_max_tokens (fa_reason f) \<Longrightarrow> \<not> list_ex is_tool_call_block (msg_content m)"
    and "estimate_provider_assistant E (normalized_blocks (fa_reason f) (stream_blocks (chunks xs)))
          = Inr (cf_assistant_tokens facts)"
    and "at_state p' = Committed turn step \<and> fa_turn f = turn \<and> fa_step f = step"
proof -
  obtain a where a: "matched_facts E (at_state p) (ev_source_event_seqs event) = Inr a"
    using ok k unfolding assistant_def by (auto elim!: bindR_InrE)
  have af: "af_turn a = fa_turn f" "af_step a = fa_step f" "af_route a = fa_route f" "af_usage a = fa_usage f"
    "af_reason a = fa_reason f" "af_replay_digest a = map_option (json_digest E) (fa_replay_state f)" "af_digest a = fa_digest f"
    "af_assistant_tokens a = fa_assistant_tokens f"
    "names_sources E (at_state p) (case ev_source_event_seqs event of None \<Rightarrow> [] | Some s \<Rightarrow> s) (fa_sources f)"
    using a st by (auto simp: matched_facts_def Let_def seal_attempt_def names_sources_def split: if_splits)
  note ok' = ok[unfolded assistant_def k a, simplified, unfolded af]
  show no_fail: "terminal_failure (fa_reason f) = None" using ok' by (auto split: if_splits)
  then have "\<not> can_leave_open (fa_reason f)"
    by (auto simp: terminal_failure_def can_leave_open_def split: finish_reason_kind.splits)
  note facts = f[unfolded finished_after_def] this no_fail ok'
  show "names_sources E (at_state p) (case ev_source_event_seqs event of None \<Rightarrow> [] | Some s \<Rightarrow> s) (map fst xs)"
    using af(9) facts by simp
  show "names_origin E m (fa_route f) (fa_replay_state f)"
    using facts by (auto simp: validate_message_route_def names_origin_def result_simps split: if_splits message_source_kind.splits)
  show "usage = stream_usage (chunks xs) \<and> cf_usage facts = usage"
    using facts by (auto simp: result_simps split: if_splits)
  show "content_digest E (msg_content m) = content_digest E (normalized_blocks (fa_reason f) (stream_blocks (chunks xs)))"
    using facts by (auto simp: result_simps split: if_splits)
  show "\<not> list_ex is_tool_call_block (msg_content m)" if "is_max_tokens (fa_reason f)"
    using facts that by (auto simp: result_simps split: if_splits)
  show "estimate_provider_assistant E (normalized_blocks (fa_reason f) (stream_blocks (chunks xs))) = Inr (cf_assistant_tokens facts)"
    using facts by (auto simp: result_simps split: if_splits)
  show "at_state p' = Committed turn step \<and> fa_turn f = turn \<and> fa_step f = step"
    using facts by (auto simp: result_simps split: if_splits)
qed

text \<open>
  C23: What an assistant message commits is what was streamed.  When the fold of a run accepts a
  message, the attempt it meets, finished or already sealed, is the one its chunks make, and did not fail; the
  message names the sequence numbers of all those chunks in order (by count and digest when the
  attempt is sealed), the provider and model of the attempt's route and the digest of the replay state of the finish
  chunk; its usage is the streamed usage, its content has the digest of the normalized streamed blocks, a
  truncated answer carries no tool call, and the token count recorded for it is the estimate of those blocks.
\<close>

theorem assistant_commits_the_stream:
  assumes "attempt_run E tr p" "ev_kind event = AssistantMessage turn step m usage" "assistant E p event = Inr (p', facts)"
  shows "\<exists>f. finished_after E (attempt_chunks tr) f \<and> (at_state p = Finished f \<or> at_state p = Sealed (seal_attempt E f))
    \<and> terminal_failure (fa_reason f) = None
    \<and> names_sources E (at_state p) (case ev_source_event_seqs event of None \<Rightarrow> [] | Some s \<Rightarrow> s) (map fst (attempt_chunks tr))
    \<and> sc_kind (snd (last (attempt_chunks tr))) = FinishChunk (fa_reason f) (fa_replay_state f)
    \<and> names_origin E m (fa_route f) (fa_replay_state f)
    \<and> usage = stream_usage (chunks (attempt_chunks tr)) \<and> cf_usage facts = usage
    \<and> content_digest E (msg_content m)
        = content_digest E (normalized_blocks (fa_reason f) (stream_blocks (chunks (attempt_chunks tr))))
    \<and> (is_max_tokens (fa_reason f) \<longrightarrow> \<not> list_ex is_tool_call_block (msg_content m))
    \<and> estimate_provider_assistant E (normalized_blocks (fa_reason f) (stream_blocks (chunks (attempt_chunks tr))))
        = Inr (cf_assistant_tokens facts)
    \<and> at_state p' = Committed turn step \<and> fa_turn f = turn \<and> fa_step f = step"
proof -
  obtain f where f: "finished_after E (attempt_chunks tr) f" "at_state p = Finished f \<or> at_state p = Sealed (seal_attempt E f)"
    by (rule assistant_attempt[OF assms(1,3)])
  show ?thesis using f assistant_accepted[OF f assms(2,3)] f(1)[unfolded finished_after_def] by blast
qed

section \<open>A concrete run\<close>

definition example_raw :: json_value where
  "example_raw = \<lparr>jv_value = JNull, jv_encoded_len = 4\<rparr>"

definition example_config :: call_config where
  "example_config = \<lparr>cc_provider = ''p'', cc_model = ''m'', cc_reasoning_effort = None,
     cc_temperature = None, cc_max_tokens = None, cc_stop = None, cc_raw = example_raw\<rparr>"

definition example_header :: epoch_header where
  "example_header = \<lparr>eh_config = example_config, eh_adapter_defaults = None, eh_system = None, eh_tools = None\<rparr>"

definition example_event :: "nat \<Rightarrow> event_kind \<Rightarrow> nat list option \<Rightarrow> session_event" where
  "example_event seq k sources = \<lparr>ev_seq = seq, ev_time = 0, ev_kind = k, ev_surface_op = None,
     ev_source_event_seqs = sources, ev_ignorable = False, ev_original_data = example_raw\<rparr>"

definition example_attempt :: finished_attempt where
  "example_attempt = \<lparr>fa_generation = 1, fa_turn = 1, fa_step = 1, fa_route = example_config,
     fa_sources = [4], fa_usage = None,
     fa_reason = \<lparr>fr_kind = Stop, fr_raw = example_raw\<rparr>, fa_replay_state = None, fa_content = Some [],
     fa_digest = Some (content_digest example_externals []), fa_assistant_tokens = Some 0\<rparr>"

definition example_ready :: attempt_projection where
  "example_ready = attempt_default\<lparr>at_state := Ready 1 1\<rparr>"

definition example_finished :: attempt_projection where
  "example_finished = attempt_default\<lparr>at_state := Finished example_attempt, at_next_generation := 2\<rparr>"

definition example_chunk :: session_event where
  "example_chunk = example_event 4 (AssistantChunk 1 1 stop_chunk) None"

definition example_trace :: attempt_trace where
  "example_trace = [(MStepStart 1 1, example_ready), (MChunk 4 stop_chunk, example_finished)]"

definition example_message :: message where
  "example_message = \<lparr>msg_id = ''a'', msg_role = Assistant, msg_content = [],
     msg_source = \<lparr>src_kind = ModelSource ''p'' ''m'' None, src_raw = example_raw\<rparr>,
     msg_raw = example_raw, msg_surface_bytes = None\<rparr>"

definition example_assistant :: session_event where
  "example_assistant = example_event 5 (AssistantMessage 1 1 example_message None) (Some [4])"

lemmas attempt_eval = attempt_default_def step_start_def prepare_chunk_def commit_chunk_def
  open_first_chunk_def require_context_replay_progress_def checked_add_u64_def U64_LIMIT_def
  route_from_header_def open_attempt_new_def open_prepare_chunk_def prepare_def prepare_kind_def
  sv_default_def MAX_PROVIDER_STREAM_CHUNKS_def is_finish_def can_leave_open_def
  MAX_ATTEMPT_EMITTED_BYTES_def prepare_operation_def prepare_finish_def provider_assistant_tokens_def
  ended_blocks_def normalized_blocks_def estimate_provider_assistant_def normalized_content_digest_def
  open_commit_def commit_def finish_attempt_def is_max_tokens_def List.map_filter_simps Let_def

lemmas example_defs = example_ready_def example_finished_def example_attempt_def example_chunk_def
  example_event_def example_header_def example_config_def example_raw_def stop_chunk_def

lemma example_prepared:
  "prepare_chunk example_externals example_ready example_chunk (Some example_header) 0
     = Inr (PrepReplace 1 1 1 example_finished)"
  by (simp add: attempt_eval example_defs)

lemma example_run: "attempt_run example_externals example_trace example_finished"
proof -
  have "attempt_step example_externals attempt_default (MStepStart 1 1) example_ready"
    by (rule attempt_step.start) (simp add: step_start_def attempt_default_def example_ready_def)
  then have a: "attempt_run example_externals ([] @ [(MStepStart 1 1, example_ready)]) example_ready"
    by (rule attempt_run.move[OF attempt_run.init])
  have "attempt_step example_externals example_ready (MChunk (ev_seq example_chunk) stop_chunk) example_finished"
  proof (rule attempt_step.chunk[OF example_prepared])
    show "commit_chunk example_ready (PrepReplace 1 1 1 example_finished) = (True, example_finished)"
      by (simp add: commit_chunk_def example_ready_def attempt_default_def)
    show "ev_kind example_chunk = AssistantChunk 1 1 stop_chunk"
      by (simp add: example_chunk_def example_event_def)
  qed
  from attempt_run.move[OF a this] show ?thesis
    by (simp add: example_trace_def example_chunk_def example_event_def)
qed

lemma example_accepts:
  "assistant example_externals example_finished example_assistant
     = Inr (example_finished\<lparr>at_state := Committed 1 1\<rparr>, \<lparr>cf_usage = None, cf_assistant_tokens = 0\<rparr>)"
  by (simp add: assistant_def matched_facts_def Let_def example_assistant_def example_event_def
      example_finished_def example_attempt_def attempt_default_def example_message_def
      validate_message_route_def example_config_def terminal_failure_def is_max_tokens_def)

theorem finished_attempt_is_its_stream_witness:
  "finished_after example_externals (current_chunks example_trace) example_attempt"
  by (rule finished_attempt_is_its_stream[OF example_run]) (simp add: example_finished_def)

theorem prepared_chunk_commits_witness:
  "fst (commit_chunk example_ready (PrepReplace 1 1 1 example_finished))"
proof -
  have "attempt_run example_externals ([] @ [(MStepStart 1 1, example_ready)]) example_ready"
    by (intro attempt_run.move[OF attempt_run.init] attempt_step.start)
      (simp add: step_start_def attempt_default_def example_ready_def)
  from prepared_chunk_commits[OF this example_prepared] show ?thesis .
qed

text \<open>A run in which the first attempt overflows the context and a second one is dispatched.\<close>

definition overflow_chunk :: stream_chunk where
  "overflow_chunk =
     \<lparr>sc_kind = FinishChunk \<lparr>fr_kind = ErrorReason \<lparr>lf_message = ''too long'', lf_code = ''CONTEXT_WINDOW_EXCEEDED'', lf_status = None,
        lf_retry_after_ms = None, lf_request_id = None, lf_raw = example_raw\<rparr>, fr_raw = example_raw\<rparr> None, sc_raw = example_raw\<rparr>"

definition overflow_event :: session_event where
  "overflow_event = example_event 4 (AssistantChunk 1 1 overflow_chunk) None"

definition overflow_finished :: attempt_projection where
  "overflow_finished = attempt_default\<lparr>at_next_generation := 2, at_state := Finished (example_attempt\<lparr>fa_content := None, fa_digest := None,
     fa_assistant_tokens := None, fa_reason := (case sc_kind overflow_chunk of FinishChunk r _ \<Rightarrow> r)\<rparr>)\<rparr>"

definition overflow_ready :: attempt_projection where
  "overflow_ready = overflow_finished\<lparr>at_state := Ready 1 1, at_overflow_used := True, at_overflow_generation := Some 0\<rparr>"

definition overflow_live :: attempt_projection where
  "overflow_live = overflow_ready\<lparr>at_state := Streaming (open_attempt_new 2 1 1 example_config), at_next_generation := 3\<rparr>"

definition overflow_trace :: attempt_trace where
  "overflow_trace =
     [(MStepStart 1 1, example_ready), (MChunk 4 overflow_chunk, overflow_finished), (MOverflow, overflow_ready), (MLive, overflow_live)]"

lemma overflow_prepared:
  "prepare_chunk example_externals example_ready overflow_event (Some example_header) 0 = Inr (PrepReplace 1 1 1 overflow_finished)"
  by (simp add: attempt_eval example_defs overflow_finished_def overflow_event_def overflow_chunk_def)

lemma overflow_dispatched:
  "prepare_begin_live overflow_ready 1 1 (Some example_header) 1 = Inr l \<Longrightarrow> commit_live l = overflow_live"
  "is_ok (prepare_begin_live overflow_ready 1 1 (Some example_header) 1)"
  by (auto simp: attempt_eval overflow_live_def overflow_ready_def overflow_finished_def prepare_begin_live_def commit_live_def
      require_ready_def example_header_def is_ok_iff)

lemma overflow_run: "attempt_run example_externals overflow_trace overflow_live"
proof -
  have 1: "attempt_step example_externals attempt_default (MStepStart 1 1) example_ready"
    by (rule attempt_step.start) (simp add: step_start_def attempt_default_def example_ready_def)
  have "attempt_step example_externals example_ready (MChunk (ev_seq overflow_event) overflow_chunk) overflow_finished"
    by (rule attempt_step.chunk[OF overflow_prepared, of _ 1 1])
      (simp_all add: commit_chunk_def example_ready_def attempt_default_def overflow_event_def example_event_def)
  then have 2: "attempt_step example_externals example_ready (MChunk 4 overflow_chunk) overflow_finished"
    by (simp add: overflow_event_def example_event_def)
  have "context_overflow overflow_finished 1 1 0 False = Inr overflow_ready"
    by (simp add: context_overflow_def overflow_ready_def overflow_finished_def attempt_default_def example_attempt_def
        is_context_overflow_def overflow_chunk_def)
  then have 3: "attempt_step example_externals overflow_finished MOverflow overflow_ready" by (rule attempt_step.overflow)
  have 4: "attempt_step example_externals overflow_ready MLive overflow_live"
    using overflow_dispatched by (metis is_ok_iff attempt_step.live)
  note run = attempt_run.move[OF attempt_run.move[OF attempt_run.move[OF attempt_run.move[OF attempt_run.init 1] 2] 3] 4]
  then show ?thesis by (simp add: overflow_trace_def)
qed

theorem attempt_generations_fresh_witness:
  "openings attempt_default overflow_trace = [1, 2] \<and> kept_generation (snd (overflow_trace ! 0)) (snd (overflow_trace ! 1))"
proof -
  have "Suc 0 < length overflow_trace" by (simp add: overflow_trace_def)
  moreover have "at_next_generation overflow_live = 3" by (simp add: overflow_live_def)
  ultimately show ?thesis using attempt_generations_fresh[OF overflow_run] by (auto simp: upt_rec)
qed

theorem context_overflow_once_per_step_witness: "overflows_in_step overflow_trace \<le> 1 \<and> overflows_in_step overflow_trace = 1"
proof
  show "overflows_in_step overflow_trace \<le> 1" by (rule context_overflow_once_per_step[OF overflow_run])
  show "overflows_in_step overflow_trace = 1" by (simp add: overflow_trace_def overflows_in_step_def)
qed

theorem assistant_commits_the_stream_witness:
  "\<exists>f. finished_after example_externals (attempt_chunks example_trace) f \<and> terminal_failure (fa_reason f) = None
     \<and> names_origin example_externals example_message (fa_route f) None \<and> map fst (attempt_chunks example_trace) = [4]"
proof -
  have k: "ev_kind example_assistant = AssistantMessage 1 1 example_message None"
    by (simp add: example_assistant_def example_event_def)
  have last: "attempt_chunks example_trace = [(4, stop_chunk)]"
    by (simp add: attempt_chunks_def example_trace_def current_chunks_def)
  from assistant_commits_the_stream[OF example_run k example_accepts] obtain f where
    f: "finished_after example_externals (attempt_chunks example_trace) f" "terminal_failure (fa_reason f) = None"
      "sc_kind (snd (last (attempt_chunks example_trace))) = FinishChunk (fa_reason f) (fa_replay_state f)"
      "names_origin example_externals example_message (fa_route f) (fa_replay_state f)" by blast
  have "fa_replay_state f = None" using f(3) by (simp add: last stop_chunk_def Let_def)
  then show ?thesis using f last by auto
qed

end
