(* ===== verification/Attempt_Replay.thy ===== *)
theory Attempt_Replay
  imports Projection_Commute Attempt_Runs
begin

text \<open>
  The attempt that a scan of the journal rebuilds, beside the attempt of the live session: a
  simulation, one lemma for each operation of \<open>src/session/attempt_anchor.rs\<close>.
\<close>

section \<open>The attempt as a scan rebuilds it\<close>

text \<open>
  The cold attempt \<open>c\<close> of the live attempt \<open>l\<close>: a dispatched call without a chunk is still a ready
  step, an open stream is the same stream, and a sealed one is still finished.  Generations differ.
\<close>

definition dispatched :: "externals \<Rightarrow> projection \<Rightarrow> attempt_projection \<Rightarrow> open_attempt \<Rightarrow> bool" where
  "dispatched E p l a =
     ((\<exists>route. route_from_header (pj_header p) = Inr route
         \<and> a = open_attempt_new (oa_generation a) (oa_turn a) (oa_step a) route)
      \<and> require_context_replay_progress l ''assistant/chunk'' (co_replacement_generation (pj_compaction p)) = Inr ())"

definition state_replays :: "externals \<Rightarrow> projection \<Rightarrow> attempt_projection \<Rightarrow> nat \<Rightarrow> attempt_state \<Rightarrow> bool" where
  "state_replays E p l generation st =
     (case at_state l of
        Streaming a \<Rightarrow>
          (dispatched E p l a \<and> st = Ready (oa_turn a) (oa_step a) \<and> generation < at_next_generation l
            \<and> at_next_generation l < U64_LIMIT)
          \<or> (oa_sources a \<noteq> [] \<and> (\<exists>g. st = Streaming (a\<lparr>oa_generation := g\<rparr>)))
      | Finished f \<Rightarrow> (\<exists>g. st = Finished (f\<lparr>fa_generation := g\<rparr>))
      | Sealed s \<Rightarrow> (\<exists>f g. st = Finished f \<and> seal_attempt E f = s\<lparr>sa_generation := g\<rparr>)
      | other \<Rightarrow> st = other)"

definition attempt_replays :: "externals \<Rightarrow> projection \<Rightarrow> attempt_projection \<Rightarrow> attempt_projection \<Rightarrow> bool" where
  "attempt_replays E p l c =
     (at_usage c = at_usage l \<and> at_next_generation c \<le> at_next_generation l
      \<and> at_overflow_used c = at_overflow_used l \<and> at_overflow_start_used c = at_overflow_start_used l
      \<and> at_overflow_generation c = at_overflow_generation l \<and> state_replays E p l (at_next_generation c) (at_state c))"

lemma replays_open:
  "attempt_replays E p l c \<Longrightarrow> has_open_attempt c \<Longrightarrow> has_open_attempt l"
  by (auto simp: attempt_replays_def state_replays_def has_open_attempt_def split: attempt_state.split_asm)

lemma replays_closed:
  assumes "attempt_replays E p l c" "at_state l = st" "st = OutsideStep \<or> st = Ready t s \<or> st = RetryScheduled t s \<or> st = Committed t s"
  shows "at_state c = st"
  using assms by (auto simp: attempt_replays_def state_replays_def)

lemma replays_terminal:
  assumes "attempt_replays E p l c"
  shows "at_state l = Finished f \<Longrightarrow> \<exists>g. at_state c = Finished (f\<lparr>fa_generation := g\<rparr>)"
    and "at_state l = Sealed s \<Longrightarrow> \<exists>f g. at_state c = Finished f \<and> seal_attempt E f = s\<lparr>sa_generation := g\<rparr>"
  using assms by (auto simp: attempt_replays_def state_replays_def)

lemma sealed_fields:
  assumes "seal_attempt E f = s\<lparr>sa_generation := g\<rparr>"
  shows "fa_turn f = sa_turn s" "fa_step f = sa_step s" "fa_route f = sa_route s" "fa_reason f = sa_reason s"
    "fa_usage f = sa_usage s" "map_option (json_digest E) (fa_replay_state f) = sa_replay_digest s"
    "fa_digest f = sa_digest s" "fa_assistant_tokens f = sa_assistant_tokens s"
    "length (fa_sources f) = sa_source_count s" "source_digest E (fa_sources f) = sa_source_digest s"
  using assms by (cases s; simp add: seal_attempt_def)+

text \<open>Each operation of the attempt, from the live to the cold side.\<close>

lemma replay_step_start:
  assumes "attempt_replays E p l c" "step_start l turn step = Inr l'"
  obtains c' where "step_start c turn step = Inr c'" "\<And>q. attempt_replays E q l' c'"
proof -
  have "at_state l = OutsideStep" using assms(2) by (auto simp: step_start_def split: if_splits)
  then have "at_state c = OutsideStep" using replays_closed[OF assms(1)] by simp
  then show thesis using assms by (intro that[of "c\<lparr>at_state := Ready turn step, at_overflow_used := False,
      at_overflow_start_used := False, at_overflow_generation := None\<rparr>"]) (auto simp: step_start_def attempt_replays_def state_replays_def split: if_splits)
qed

lemma replay_retry_started:
  assumes "attempt_replays E p l c" "retry_started l turn step = Inr l'"
  obtains c' where "retry_started c turn step = Inr c'" "\<And>q. attempt_replays E q l' c'"
proof -
  have "at_state l = RetryScheduled turn step" using assms(2) by (auto simp: retry_started_def split: if_splits)
  then have "at_state c = RetryScheduled turn step" using replays_closed[OF assms(1)] by simp
  then show thesis using assms by (intro that[of "c\<lparr>at_state := Ready turn step\<rparr>"]) (auto simp: retry_started_def attempt_replays_def state_replays_def split: if_splits)
qed

lemma replay_step_end:
  assumes "attempt_replays E p l c" "step_end l turn step d = Inr l'"
  obtains c' where "step_end c turn step (if has_open_attempt c then Some DispFailed else None) = Inr c'"
    "\<And>q. attempt_replays E q l' c'"
proof -
  let ?c = "c\<lparr>at_state := OutsideStep, at_overflow_used := False, at_overflow_start_used := False, at_overflow_generation := None\<rparr>"
  have "step_end c turn step (if has_open_attempt c then Some DispFailed else None) = Inr ?c"
  proof (cases "ordinary_end (at_state l) turn step")
    case True
    then have "ordinary_end (at_state c) turn step \<and> \<not> has_open_attempt c"
      using replays_closed[OF assms(1)] by (auto simp: ordinary_end_def has_open_attempt_def)
    then show ?thesis by (simp add: step_end_def)
  next
    case False
    then have "open_matches (at_state l) turn step" using assms(2) by (auto simp: step_end_def elim!: result_elims)
    then have "(has_open_attempt c \<and> open_matches (at_state c) turn step \<and> \<not> ordinary_end (at_state c) turn step)
        \<or> at_state c = Ready turn step"
      using assms(1) replays_terminal[OF assms(1)]
      by (cases "at_state l") (auto simp: open_matches_def has_open_attempt_def attempt_replays_def state_replays_def
          ordinary_end_def sealed_fields)
    then show ?thesis by (auto simp: step_end_def has_open_attempt_def ordinary_end_def)
  qed
  moreover have "attempt_replays E q l' ?c" for q
    using assms by (auto simp: step_end_def attempt_replays_def state_replays_def elim!: bindR_InrE)
  ultimately show thesis by (rule that)
qed

lemma replay_retry:
  assumes "attempt_replays E p l c" "retry_attempt l e = Inr l'"
  obtains c' where "retry_attempt c e = Inr c'" "\<And>q. attempt_replays E q l' c'"
proof -
  let ?c = "\<lambda>r. c\<lparr>at_state := RetryScheduled (lr_turn r) (lr_step r)\<rparr>"
  obtain r where k: "ev_kind e = LlmRetry r" using assms(2) by (cases "ev_kind e") (auto simp: retry_attempt_def)
  have "retry_attempt c e = Inr (?c r)"
    using assms k replays_terminal[OF assms(1)]
    by (cases "at_state l") (auto simp: retry_attempt_def sealed_fields elim!: result_elims)
  moreover have "attempt_replays E q l' (?c r)" for q
    using assms k by (cases "at_state l") (auto simp: retry_attempt_def attempt_replays_def state_replays_def elim!: result_elims)
  ultimately show thesis by (rule that)
qed

lemma replay_overflow:
  assumes "attempt_replays E p l c" "context_overflow l turn step g b = Inr l'"
  obtains c' where "context_overflow c turn step g b = Inr c'" "\<And>q. attempt_replays E q l' c'" "has_open_attempt c"
    "\<not> at_overflow_used c"
proof -
  let ?c = "c\<lparr>at_state := Ready turn step, at_overflow_used := True, at_overflow_start_used := b, at_overflow_generation := Some g\<rparr>"
  have "context_overflow c turn step g b = Inr ?c"
    using assms replays_terminal[OF assms(1)]
    by (cases "at_state l") (auto simp: context_overflow_def sealed_fields attempt_replays_def elim!: result_elims)
  moreover have "attempt_replays E q l' ?c" for q
    using assms by (cases "at_state l") (auto simp: context_overflow_def attempt_replays_def state_replays_def elim!: result_elims)
  moreover have "has_open_attempt c" "\<not> at_overflow_used c"
    using assms replays_terminal[OF assms(1)]
    by (cases "at_state l"; auto simp: context_overflow_def has_open_attempt_def attempt_replays_def elim!: result_elims)+
  ultimately show thesis by (rule that)
qed

text \<open>
  The scan compares the sources of an assistant message themselves, the live session only the digest
  of a sealed attempt.  So the digest must not collide on the lists that are compared.
\<close>

definition event_sources :: "session_event \<Rightarrow> nat list" where
  "event_sources e = (case ev_source_event_seqs e of None \<Rightarrow> [] | Some xs \<Rightarrow> xs)"

text \<open>The source list of a finished attempt, and whether the digest tells it from that of an event.\<close>

definition attempt_sources :: "attempt_projection \<Rightarrow> nat list list" where
  "attempt_sources c = (case at_state c of Finished f \<Rightarrow> [fa_sources f] | _ \<Rightarrow> [])"

definition digest_tells :: "externals \<Rightarrow> attempt_projection \<Rightarrow> session_event \<Rightarrow> bool" where
  "digest_tells E c e =
     (\<forall>xs\<in>set (attempt_sources c). source_digest E xs = source_digest E (event_sources e) \<longrightarrow> xs = event_sources e)"

lemma replay_facts:
  assumes "attempt_replays E p l c" "matched_facts E (at_state l) (ev_source_event_seqs e) = Inr a"
    and dig: "digest_tells E c e"
  shows "matched_facts E (at_state c) (ev_source_event_seqs e) = Inr a"
proof (cases "at_state l")
  case (Finished f)
  then obtain g where "at_state c = Finished (f\<lparr>fa_generation := g\<rparr>)" using replays_terminal(1)[OF assms(1)] by blast
  then show ?thesis using assms(2) Finished by (auto simp: matched_facts_def Let_def split: if_splits)
next
  case (Sealed s)
  then obtain f g where f: "at_state c = Finished f" "seal_attempt E f = s\<lparr>sa_generation := g\<rparr>"
    using replays_terminal(2)[OF assms(1)] by blast
  have "source_digest E (fa_sources f) = source_digest E (event_sources e)"
    using assms(2) Sealed sealed_fields(10)[OF f(2)] by (auto simp: matched_facts_def Let_def event_sources_def split: if_splits)
  then have "fa_sources f = event_sources e"
    using dig f(1) by (simp add: digest_tells_def attempt_sources_def)
  then show ?thesis
    using assms(2) Sealed f(1) sealed_fields[OF f(2)]
    by (auto simp: matched_facts_def Let_def event_sources_def split: if_splits)
qed (use assms(2) in \<open>auto simp: matched_facts_def\<close>)

lemma replay_assistant:
  assumes "attempt_replays E p l c" "assistant E l e = Inr (l', facts)"
    and dig: "digest_tells E c e"
  obtains c' where "assistant E c e = Inr (c', facts)" "\<And>q. attempt_replays E q l' c'"
proof -
  obtain turn step m usage where k: "ev_kind e = AssistantMessage turn step m usage"
    using assms(2) by (cases "ev_kind e") (auto simp: assistant_def)
  have use: "at_usage c = at_usage l" using assms(1) by (simp add: attempt_replays_def)
  obtain a where a: "matched_facts E (at_state l) (ev_source_event_seqs e) = Inr a"
    using assms(2) k unfolding assistant_def by (auto elim!: bindR_InrE)
  let ?on = "\<lambda>(x, f). (c\<lparr>at_state := at_state x, at_usage := at_usage x\<rparr>, f)"
  have "assistant E c e = map_ok ?on (assistant E l e)"
    by (simp add: assistant_def k a replay_facts[OF assms(1) a dig] use map_ok_rules cong: if_cong option.case_cong)
  then have "assistant E c e = Inr (c\<lparr>at_state := at_state l', at_usage := at_usage l'\<rparr>, facts)"
    using assms(2) by simp
  moreover have "\<exists>up. l' = l\<lparr>at_state := Committed turn step, at_usage := up\<rparr>"
    using assms(2) k by (auto simp: assistant_def elim!: result_elims)
  then have "attempt_replays E q l' (c\<lparr>at_state := at_state l', at_usage := at_usage l'\<rparr>)" for q
    using assms(1) by (auto simp: attempt_replays_def state_replays_def)
  ultimately show thesis by (rule that)
qed

lemma replay_dispatch:
  assumes "attempt_replays E p l c" "prepare_begin_live l turn step (pj_header p) (co_replacement_generation (pj_compaction p)) = Inr x"
  shows "attempt_replays E p (commit_live x) c"
proof -
  have "at_state c = Ready turn step"
    using assms(2) replays_closed[OF assms(1)] by (auto simp: prepare_begin_live_def require_ready_def elim!: result_elims)
  then show ?thesis
    using assms by (auto simp: prepare_begin_live_def attempt_replays_def state_replays_def dispatched_def commit_live_def
        open_attempt_new_def require_context_replay_progress_def ok_or_map_err_iff checked_add_u64_def elim!: result_elims
        split: if_splits)
qed

lemma replay_seal:
  assumes "attempt_replays E p l c" "take_prepared E l = Inr (r, l')"
  shows "attempt_replays E p l' c"
proof -
  obtain f where f: "at_state l = Finished f" "l' = l\<lparr>at_state := Sealed (seal_attempt E f)\<rparr>"
    using assms(2) by (auto simp: take_prepared_def split: attempt_state.split_asm)
  have "seal_attempt E (f\<lparr>fa_generation := g\<rparr>) = (seal_attempt E f)\<lparr>sa_generation := g\<rparr>" for g
    by (simp add: seal_attempt_def)
  then show ?thesis using assms(1) f by (auto simp: attempt_replays_def state_replays_def)
qed

text \<open>Chunks: generations are only carried along.\<close>

definition regenerated :: "nat \<Rightarrow> attempt_state \<Rightarrow> attempt_state" where
  "regenerated g st =
     (case st of
        Streaming a \<Rightarrow> Streaming (a\<lparr>oa_generation := g\<rparr>)
      | Finished f \<Rightarrow> Finished (f\<lparr>fa_generation := g\<rparr>)
      | other \<Rightarrow> other)"

lemma prepare_regenerated:
  "open_prepare_chunk E a seq ch up = Inr q \<Longrightarrow>
     open_prepare_chunk E (a\<lparr>oa_generation := g\<rparr>) seq ch up = Inr (q\<lparr>pe_expected_generation := g\<rparr>)"
proof -
  have "prepare_operation E (a\<lparr>oa_generation := g\<rparr>) ch up = prepare_operation E a ch up"
    by (cases "sc_kind ch") (simp_all split del: if_split add: prepare_operation_def prepare_finish_def provider_assistant_tokens_def normalized_content_digest_def
        ended_blocks_def cong: if_cong)
  then show "open_prepare_chunk E a seq ch up = Inr q \<Longrightarrow> ?thesis"
    by (auto simp: open_prepare_chunk_def elim!: result_elims)
qed

lemma commit_regenerated:
  "open_commit a q = Some (st, up) \<Longrightarrow>
     open_commit (a\<lparr>oa_generation := g\<rparr>) (q\<lparr>pe_expected_generation := g'\<rparr>) = Some (regenerated g st, up)"
  by (cases a) (auto simp: open_commit_def Let_def finish_attempt_def regenerated_def
      split: chunk_operation.splits option.splits)

lemma commit_sources:
  "open_commit a q = Some (st, up) \<Longrightarrow>
     (\<exists>a'. st = Streaming a' \<and> oa_sources a' \<noteq> []) \<or> (\<exists>f. st = Finished f)"
  by (auto simp: open_commit_def Let_def split: chunk_operation.splits option.splits)

lemma prepare_sources:
  "open_prepare_chunk E a seq ch up = Inr q \<Longrightarrow>
     pe_expected_generation q = oa_generation a \<and> pe_expected_source_count q = length (oa_sources a)"
  by (auto simp: open_prepare_chunk_def elim!: result_elims)

lemma regenerated_replays:
  assumes "(\<exists>a. st = Streaming a \<and> oa_sources a \<noteq> []) \<or> (\<exists>f. st = Finished f)"
    and "at_overflow_used c = at_overflow_used l" "at_overflow_start_used c = at_overflow_start_used l"
    "at_overflow_generation c = at_overflow_generation l" "m \<le> n"
  shows "attempt_replays E p (l\<lparr>at_state := st, at_usage := up, at_next_generation := n\<rparr>)
     (c\<lparr>at_state := regenerated g st, at_usage := up, at_next_generation := m\<rparr>)"
  using assms by (auto simp: attempt_replays_def state_replays_def regenerated_def)

text \<open>The first chunk of an attempt, on either side.\<close>

lemma first_chunk:
  assumes "open_prepare_chunk E a seq ch up = Inr q" "open_commit a q = Some (st, up')"
    and "a = open_attempt_new (oa_generation a) turn step route" "route_from_header header = Inr route"
    and "require_context_replay_progress c ''assistant/chunk'' generation = Inr ()"
    and "at_next_generation c + 1 < U64_LIMIT" "at_usage c = up"
  shows "open_first_chunk E c seq turn step ch header generation
     = Inr (PrepReplace turn step (at_next_generation c) (c\<lparr>at_state := regenerated (at_next_generation c) st,
         at_usage := (case up' of None \<Rightarrow> at_usage c | Some u \<Rightarrow> u), at_next_generation := at_next_generation c + 1\<rparr>))"
proof -
  have new: "open_attempt_new g turn step route = a\<lparr>oa_generation := g\<rparr>" for g
    by (subst assms(3)) (simp add: open_attempt_new_def)
  show ?thesis
    using assms(4-) prepare_regenerated[OF assms(1), of "at_next_generation c"] commit_regenerated[OF assms(2)]
    by (simp add: open_first_chunk_def new checked_add_u64_def)
qed

text \<open>What both sides have in common while a chunk is applied.\<close>

definition same_flags :: "attempt_projection \<Rightarrow> attempt_projection \<Rightarrow> bool" where
  "same_flags l c =
     (at_usage c = at_usage l \<and> at_overflow_used c = at_overflow_used l
      \<and> at_overflow_start_used c = at_overflow_start_used l \<and> at_overflow_generation c = at_overflow_generation l)"

lemma replays_flags: "attempt_replays E p l c \<Longrightarrow> same_flags l c \<and> at_next_generation c \<le> at_next_generation l"
  by (simp add: attempt_replays_def same_flags_def)

lemma flags_progress:
  "same_flags l c \<Longrightarrow> require_context_replay_progress c w n = require_context_replay_progress l w n"
  by (simp add: same_flags_def require_context_replay_progress_def)

lemma replay_first:
  assumes flags: "same_flags l c" and ready: "at_state c = Ready turn step"
    and less: "at_next_generation c < n" "n < U64_LIMIT" and k: "ev_kind e = AssistantChunk turn step ch"
    and prep: "open_prepare_chunk E a (ev_seq e) ch (at_usage l) = Inr pe" and comm: "open_commit a pe = Some (st, up)"
    and new: "a = open_attempt_new (oa_generation a) turn step route" "route_from_header header = Inr route"
    and prog: "require_context_replay_progress l ''assistant/chunk'' generation = Inr ()"
  obtains q c' where "prepare_chunk E c e header generation = Inr q" "commit_chunk c q = (True, c')"
    "attempt_replays E p' (l\<lparr>at_state := st, at_usage := (case up of None \<Rightarrow> at_usage l | Some u \<Rightarrow> u),
        at_next_generation := n\<rparr>) c'"
proof -
  have use: "at_usage c = at_usage l" using flags by (simp add: same_flags_def)
  let ?c = "c\<lparr>at_state := regenerated (at_next_generation c) st,
     at_usage := (case up of None \<Rightarrow> at_usage c | Some u \<Rightarrow> u), at_next_generation := at_next_generation c + 1\<rparr>"
  have "prepare_chunk E c e header generation = Inr (PrepReplace turn step (at_next_generation c) ?c)"
    using k ready less first_chunk[OF prep comm new] prog use flags_progress[OF flags] by (simp add: prepare_chunk_def)
  moreover have "commit_chunk c (PrepReplace turn step (at_next_generation c) ?c) = (True, ?c)"
    using ready by (simp add: commit_chunk_def)
  moreover have "attempt_replays E p' (l\<lparr>at_state := st, at_usage := (case up of None \<Rightarrow> at_usage l | Some u \<Rightarrow> u),
        at_next_generation := n\<rparr>) ?c"
    unfolding use by (rule regenerated_replays[OF commit_sources[OF comm]])
      (use flags less in \<open>simp_all add: same_flags_def\<close>)
  ultimately show thesis by (rule that)
qed

lemma replay_next:
  assumes flags: "same_flags l c" "at_next_generation c \<le> at_next_generation l"
    and same: "at_state c = Streaming (a\<lparr>oa_generation := g\<rparr>)" "oa_turn a = turn" "oa_step a = step"
    and k: "ev_kind e = AssistantChunk turn step ch"
    and prep: "open_prepare_chunk E a (ev_seq e) ch (at_usage l) = Inr pe" and comm: "open_commit a pe = Some (st, up)"
  obtains q c' where "prepare_chunk E c e header generation = Inr q" "commit_chunk c q = (True, c')"
    "attempt_replays E p' (l\<lparr>at_state := st, at_usage := (case up of None \<Rightarrow> at_usage l | Some u \<Rightarrow> u),
        at_next_generation := at_next_generation l\<rparr>) c'"
proof -
  have use: "at_usage c = at_usage l" using flags by (simp add: same_flags_def)
  let ?pe = "pe\<lparr>pe_expected_generation := g\<rparr>"
  let ?c = "c\<lparr>at_state := regenerated g st, at_usage := (case up of None \<Rightarrow> at_usage c | Some u \<Rightarrow> u),
      at_next_generation := at_next_generation c\<rparr>"
  have "prepare_chunk E c e header generation = Inr (PrepExisting ?pe)"
    using k same use prepare_regenerated[OF prep, of g] by (simp add: prepare_chunk_def)
  moreover have "commit_chunk c (PrepExisting ?pe) = (True, ?c)"
    using same prepare_sources[OF prep] commit_regenerated[OF comm, of g g] by (simp add: commit_chunk_def)
  moreover have "attempt_replays E p' (l\<lparr>at_state := st, at_usage := (case up of None \<Rightarrow> at_usage l | Some u \<Rightarrow> u),
        at_next_generation := at_next_generation l\<rparr>) ?c"
    unfolding use by (rule regenerated_replays[OF commit_sources[OF comm]]) (use flags in \<open>simp_all add: same_flags_def\<close>)
  ultimately show thesis by (rule that)
qed

lemma replay_chunk:
  assumes rep: "attempt_replays E p l c"
    and prep: "prepare_chunk E l e (pj_header p) (co_replacement_generation (pj_compaction p)) = Inr q"
    and comm: "commit_chunk l q = (True, l')"
  obtains q' c' where "prepare_chunk E c e (pj_header p) (co_replacement_generation (pj_compaction p)) = Inr q'"
    "commit_chunk c q' = (True, c')" "attempt_replays E p' l' c'"
proof -
  obtain turn step ch where k: "ev_kind e = AssistantChunk turn step ch"
    using prep by (cases "ev_kind e") (auto simp: prepare_chunk_def)
  have flags: "same_flags l c" "at_next_generation c \<le> at_next_generation l" using replays_flags[OF rep] by auto
  consider (ready) "at_state l = Ready turn step" | (streaming) a where "at_state l = Streaming a" "oa_turn a = turn" "oa_step a = step"
    using prep k by (auto simp: prepare_chunk_def split: attempt_state.split_asm if_splits)
  then show thesis
  proof cases
    case ready
    then have c: "at_state c = Ready turn step" using replays_closed[OF rep] by simp
    let ?a = "\<lambda>route. open_attempt_new (at_next_generation l) turn step route"
    obtain route pe st up where o:
      "require_context_replay_progress l ''assistant/chunk'' (co_replacement_generation (pj_compaction p)) = Inr ()"
      "at_next_generation l + 1 < U64_LIMIT" "route_from_header (pj_header p) = Inr route"
      "open_prepare_chunk E (?a route) (ev_seq e) ch (at_usage l) = Inr pe" "open_commit (?a route) pe = Some (st, up)"
      and q: "q = PrepReplace turn step (at_next_generation l) (l\<lparr>at_state := st,
           at_usage := (case up of None \<Rightarrow> at_usage l | Some u \<Rightarrow> u), at_next_generation := at_next_generation l + 1\<rparr>)"
      using prep k ready by (auto simp: prepare_chunk_def open_first_chunk_def Let_def checked_add_u64_def
          ok_or_map_err_iff elim!: result_elims split: if_splits)
    have l': "l\<lparr>at_state := st, at_usage := (case up of None \<Rightarrow> at_usage l | Some u \<Rightarrow> u),
        at_next_generation := at_next_generation l + 1\<rparr> = l'"
      using comm q ready by (simp add: commit_chunk_def)
    have "?a route = open_attempt_new (oa_generation (?a route)) turn step route" by (simp add: open_attempt_new_def)
    from replay_first[OF flags(1) c _ o(2) k o(4,5) this o(3,1), where p' = p', unfolded l'] that flags(2)
    show thesis by fastforce
  next
    case (streaming a)
    obtain pe where pe: "open_prepare_chunk E a (ev_seq e) ch (at_usage l) = Inr pe" "q = PrepExisting pe"
      using prep k streaming by (auto simp: prepare_chunk_def elim!: bindR_InrE)
    obtain st up where st: "open_commit a pe = Some (st, up)"
      and l': "l\<lparr>at_state := st, at_usage := (case up of None \<Rightarrow> at_usage l | Some u \<Rightarrow> u),
        at_next_generation := at_next_generation l\<rparr> = l'"
      using comm pe streaming prepare_sources[OF pe(1)] by (auto simp: commit_chunk_def split: option.split_asm)
    consider (fresh) "dispatched E p l a" "at_state c = Ready turn step" "at_next_generation c < at_next_generation l"
        "at_next_generation l < U64_LIMIT"
      | (same) g where "at_state c = Streaming (a\<lparr>oa_generation := g\<rparr>)"
      using rep streaming by (auto simp: attempt_replays_def state_replays_def)
    then show thesis
    proof cases
      case fresh
      then obtain route where r: "route_from_header (pj_header p) = Inr route"
        "a = open_attempt_new (oa_generation a) turn step route"
        "require_context_replay_progress l ''assistant/chunk'' (co_replacement_generation (pj_compaction p)) = Inr ()"
        using streaming by (auto simp: dispatched_def)
      from replay_first[OF flags(1) fresh(2-4) k pe(1) st r(2,1,3), where p' = p', unfolded l'] that
      show thesis by blast
    next
      case (same g)
      from replay_next[OF flags same streaming(2,3) k pe(1) st, where p' = p', unfolded l'] that
      show thesis by blast
    qed
  qed
qed

end
