(* ===== verification/Durable_Replay.thy ===== *)
theory Durable_Replay
  imports Attempt_Replay
begin

text \<open>
  A durable journal can be read back: the projection a live session has built while it wrote its
  rows is rebuilt by scanning those rows, with the same surface, calls, turns, compaction state,
  usage and token anchor.  Only the attempt differs, in what a journal cannot show: the generation
  counter, a call dispatched before its first chunk, and a finished attempt already sealed.
\<close>

section \<open>Rows\<close>

text \<open>A call was dispatched and its first chunk has not come.\<close>

definition awaits_chunk :: "attempt_projection \<Rightarrow> bool" where
  "awaits_chunk l = (case at_state l of Streaming a \<Rightarrow> oa_sources a = [] | _ \<Rightarrow> False)"

text \<open>How far the relation carries over to a later projection.\<close>

definition carried :: "projection \<Rightarrow> projection \<Rightarrow> bool" where
  "carried p q =
     ((awaits_chunk (pj_attempt p) \<longrightarrow> pj_header q = pj_header p)
      \<and> co_replacement_generation (pj_compaction p) \<le> co_replacement_generation (pj_compaction q))"

lemma replays_carried:
  assumes "attempt_replays E p (pj_attempt p) c" "carried p q"
  shows "attempt_replays E q (pj_attempt p) c"
proof -
  have "oa_sources a = []" if "dispatched E p (pj_attempt p) a" for a
  proof -
    obtain route where "a = open_attempt_new (oa_generation a) (oa_turn a) (oa_step a) route"
      using \<open>dispatched E p (pj_attempt p) a\<close> by (auto simp: dispatched_def)
    then show ?thesis by (metis open_attempt_new_def open_attempt.select_convs(8))
  qed
  then
  have "dispatched E q (pj_attempt p) a" if "dispatched E p (pj_attempt p) a" "at_state (pj_attempt p) = Streaming a" for a
    using that assms(2) by (auto simp: dispatched_def carried_def awaits_chunk_def require_context_replay_progress_def
        split: if_splits option.splits)
  then show ?thesis
    using assms(1) by (auto simp: attempt_replays_def state_replays_def split: attempt_state.splits)
qed

text \<open>The attempt operation of a row, live and cold.\<close>

definition cold_attempt :: "externals \<Rightarrow> projection \<Rightarrow> session_event \<Rightarrow> attempt_projection \<Rightarrow> projection \<Rightarrow> bool" where
  "cold_attempt E p e c p1 =
     (\<exists>c'. apply_attempt_transition E (p\<lparr>pj_attempt := c\<rparr>) e ColdScan None = Inr (p1\<lparr>pj_attempt := c'\<rparr>)
        \<and> (\<forall>q. carried p q \<longrightarrow> attempt_replays E q (pj_attempt p1) c'))"

lemma cold_attemptI:
  "apply_attempt_transition E (p\<lparr>pj_attempt := c\<rparr>) e ColdScan None = Inr (p1\<lparr>pj_attempt := c'\<rparr>)
     \<Longrightarrow> (\<And>q. carried p q \<Longrightarrow> attempt_replays E q (pj_attempt p1) c') \<Longrightarrow> cold_attempt E p e c p1"
  unfolding cold_attempt_def by blast

text \<open>When the row does not name an operation of the attempt.\<close>

definition names_attempt :: "event_kind \<Rightarrow> bool" where
  "names_attempt k = (is_attempt_fact k \<or> is_context_start k \<or> is_compaction_prune k \<or> is_step_boundary k \<or> is_retry_started k)"

lemma cold_idle:
  assumes "attempt_replays E p (pj_attempt p) c" "pj_policy p = DurableStrict" "\<not> names_attempt (ev_kind e)"
  shows "cold_attempt E p e c p"
proof (rule cold_attemptI)
  show "apply_attempt_transition E (p\<lparr>pj_attempt := c\<rparr>) e ColdScan None = Inr (p\<lparr>pj_attempt := c\<rparr>)"
    using assms(2,3) by (cases "ev_kind e") (auto simp: apply_attempt_transition_def Let_def attempt_by_kind_def
        names_attempt_def is_attempt_fact_def is_step_boundary_def is_retry_started_def is_compaction_prune_def)
  show "attempt_replays E q (pj_attempt p) c" if "carried p q" for q by (rule replays_carried[OF assms(1) that])
qed

text \<open>Steps and retries started, in an ordinary row.\<close>

lemma cold_ordinary:
  assumes rep: "attempt_replays E p (pj_attempt p) c" and strict: "pj_policy p = DurableStrict"
    and live: "apply_attempt_transition E p e Ordinary None = Inr p1"
    and k: "is_step_boundary (ev_kind e) \<or> is_retry_started (ev_kind e)"
  shows "cold_attempt E p e c p1"
proof -
  consider (start) turn step where "ev_kind e = StepStart turn step" | (ended) turn step where "ev_kind e = StepEnd turn step"
    | (retried) st where "ev_kind e = LlmRetryStarted st"
    using k by (cases "ev_kind e") (auto simp: is_step_boundary_def is_retry_started_def)
  then show ?thesis
  proof cases
    case start
    then obtain l' where l': "step_start (pj_attempt p) turn step = Inr l'" "p1 = p\<lparr>pj_attempt := l'\<rparr>"
      using live strict by (auto simp: apply_attempt_transition_def Let_def is_context_start_def is_compaction_prune_def
          attempt_by_kind_def ok_or_map_err_iff elim!: bindR_InrE)
    obtain c' where c': "step_start c turn step = Inr c'" "\<And>q. attempt_replays E q l' c'"
      using replay_step_start[OF rep l'(1)] by (metis)
    show ?thesis
      by (rule cold_attemptI[where c' = c']) (use start strict c' l'(2) in
        \<open>auto simp: apply_attempt_transition_def Let_def is_context_start_def is_compaction_prune_def attempt_by_kind_def\<close>)
  next
    case ended
    then obtain l' where l': "step_end (pj_attempt p) turn step None = Inr l'" "p1 = p\<lparr>pj_attempt := l'\<rparr>"
      using live strict by (auto simp: apply_attempt_transition_def Let_def is_context_start_def is_compaction_prune_def
          attempt_by_kind_def ok_or_map_err_iff elim!: bindR_InrE)
    obtain c' where c': "step_end c turn step (if has_open_attempt c then Some DispFailed else None) = Inr c'"
      "\<And>q. attempt_replays E q l' c'"
      using replay_step_end[OF rep l'(1)] by (metis)
    show ?thesis
      by (rule cold_attemptI[where c' = c']) (use ended strict c' l'(2) in
        \<open>auto simp: apply_attempt_transition_def Let_def is_context_start_def is_compaction_prune_def attempt_by_kind_def
          split: if_splits\<close>)
  next
    case retried
    show ?thesis
    proof (cases "open_turn p \<noteq> Some (ls_turn st) \<or> open_step p \<noteq> Some (ls_step st)")
      case True
      then have "p1 = p" using live strict retried by (auto simp: apply_attempt_transition_def Let_def
            is_context_start_def is_compaction_prune_def attempt_by_kind_def)
      then show ?thesis
        by (intro cold_attemptI[where c' = c]) (use True retried strict replays_carried[OF rep] in
          \<open>auto simp: apply_attempt_transition_def Let_def is_context_start_def is_compaction_prune_def
            attempt_by_kind_def attempt_reads\<close>)
    next
      case False
      then obtain l' where l': "retry_started (pj_attempt p) (ls_turn st) (ls_step st) = Inr l'" "p1 = p\<lparr>pj_attempt := l'\<rparr>"
        using live strict retried by (auto simp: apply_attempt_transition_def Let_def is_context_start_def
            is_compaction_prune_def attempt_by_kind_def ok_or_map_err_iff elim!: bindR_InrE)
      obtain c' where c': "retry_started c (ls_turn st) (ls_step st) = Inr c'" "\<And>q. attempt_replays E q l' c'"
        using replay_retry_started[OF rep l'(1)] by (metis)
      show ?thesis
        by (rule cold_attemptI[where c' = c']) (use retried strict c' l'(2) False in
          \<open>auto simp: apply_attempt_transition_def Let_def is_context_start_def is_compaction_prune_def
            attempt_by_kind_def attempt_reads\<close>)
    qed
  qed
qed

text \<open>The rows that close an attempt.\<close>

lemma anchor_attempt:
  "prepare_token_anchor E (p\<lparr>pj_attempt := a\<rparr>) e facts = prepare_token_anchor E p e facts"
  by (simp add: prepare_token_anchor_def cong: all_branches event_kind.case_cong)

lemma cold_overflow:
  assumes rep: "attempt_replays E p (pj_attempt p) c" and strict: "pj_policy p = DurableStrict"
    and live: "apply_context_overflow_transition p e = Inr p1"
    and k: "is_context_start (ev_kind e) \<or> is_compaction_prune (ev_kind e)"
  shows "cold_attempt E p e c p1"
proof -
  obtain x l' where x: "pj_boundary p = InStep x"
    "context_overflow (pj_attempt p) (os_turn x) (os_step x) (co_replacement_generation (pj_compaction p))
        (is_compaction_start (ev_kind e)) = Inr l'" "p1 = p\<lparr>pj_attempt := l'\<rparr>"
    using live by (auto simp: apply_context_overflow_transition_def ok_or_map_err_iff elim!: bindR_InrE
        split: boundary_state.split_asm)
  obtain c' where c': "context_overflow c (os_turn x) (os_step x) (co_replacement_generation (pj_compaction p))
        (is_compaction_start (ev_kind e)) = Inr c'" "\<And>q. attempt_replays E q l' c'" "has_open_attempt c" "\<not> at_overflow_used c"
    using replay_overflow[OF rep x(2)] by metis
  have "open_step p \<noteq> None" using x(1) by (simp add: open_step_def)
  then show ?thesis
    by (intro cold_attemptI[where c' = c']) (use x(1,3) c' k strict in
      \<open>auto simp: apply_attempt_transition_def Let_def apply_context_overflow_transition_def attempt_reads
        is_compaction_prune_def is_context_start_def split: event_kind.splits\<close>)
qed

lemma cold_closure:
  assumes rep: "attempt_replays E p (pj_attempt p) c" and strict: "pj_policy p = DurableStrict"
    and live: "apply_attempt_transition E p e OwnedAttempt (Some d) = Inr p1"
    and dig: "is_assistant_message (ev_kind e) \<Longrightarrow> digest_tells E c e"
  shows "cold_attempt E p e c p1"
proof -
  have legal: "legal_closure (Some d) (ev_kind e)"
    using live strict by (auto simp: apply_attempt_transition_def Let_def split: if_splits)
  show ?thesis
  proof (cases "d = DispContextOverflow")
    case True
    then have "apply_context_overflow_transition p e = Inr p1" "is_context_start (ev_kind e)"
      using live strict legal by (auto simp: apply_attempt_transition_def Let_def legal_closure_def split: if_splits)
    then show ?thesis using cold_overflow[OF rep strict] by blast
  next
    case False
    then have by_kind: "attempt_by_kind E p e OwnedAttempt (Some d) = Inr p1"
      using live strict legal by (auto simp: apply_attempt_transition_def Let_def split: if_splits)
    consider (message) turn step m u where "ev_kind e = AssistantMessage turn step m u"
      | (retry) r where "ev_kind e = LlmRetry r" | (ended) turn step where "ev_kind e = StepEnd turn step"
      using legal False by (cases "ev_kind e"; cases d) (auto simp: legal_closure_def is_assistant_message_def is_step_end_def)
    then show ?thesis
    proof cases
      case message
      then obtain l' facts anchor where l': "assistant E (pj_attempt p) e = Inr (l', facts)"
        "prepare_token_anchor E p e facts = Inr anchor" "p1 = p\<lparr>pj_token_anchor := Some anchor, pj_attempt := l'\<rparr>"
        using by_kind by (auto simp: attempt_by_kind_def ok_or_map_err_iff elim!: result_elims) blast
      obtain c' where c': "assistant E c e = Inr (c', facts)" "\<And>q. attempt_replays E q l' c'"
        using replay_assistant[OF rep l'(1)] dig message by (auto simp: is_assistant_message_def)
      show ?thesis
        by (rule cold_attemptI[where c' = c']) (use message strict c' l'(2,3) in
          \<open>auto simp: apply_attempt_transition_def Let_def is_context_start_def is_compaction_prune_def
            attempt_by_kind_def anchor_attempt\<close>)
    next
      case retry
      then obtain l' where l': "retry_attempt (pj_attempt p) e = Inr l'" "p1 = p\<lparr>pj_attempt := l'\<rparr>"
        using by_kind by (auto simp: attempt_by_kind_def ok_or_map_err_iff elim!: result_elims)
      obtain c' where c': "retry_attempt c e = Inr c'" "\<And>q. attempt_replays E q l' c'"
        using replay_retry[OF rep l'(1)] by metis
      show ?thesis
        by (rule cold_attemptI[where c' = c']) (use retry strict c' l'(2) in
          \<open>auto simp: apply_attempt_transition_def Let_def is_context_start_def is_compaction_prune_def
            attempt_by_kind_def\<close>)
    next
      case ended
      then obtain l' where l': "step_end (pj_attempt p) turn step (Some d) = Inr l'" "p1 = p\<lparr>pj_attempt := l'\<rparr>"
        using by_kind by (auto simp: attempt_by_kind_def ok_or_map_err_iff elim!: result_elims)
      obtain c' where c': "step_end c turn step (if has_open_attempt c then Some DispFailed else None) = Inr c'"
        "\<And>q. attempt_replays E q l' c'"
        using replay_step_end[OF rep l'(1)] by metis
      show ?thesis
        by (rule cold_attemptI[where c' = c']) (use ended strict c' l'(2) in
          \<open>auto simp: apply_attempt_transition_def Let_def is_context_start_def is_compaction_prune_def
            attempt_by_kind_def split: if_splits\<close>)
    qed
  qed
qed

text \<open>The row itself: the middle part of a scan, then its surface, then its compaction state.\<close>

definition scan_middle :: "externals \<Rightarrow> projection \<Rightarrow> session_event \<Rightarrow> event_error + projection" where
  "scan_middle E p e =
     (if is_retry_started (ev_kind e) then
        bindR (lift_transition (apply_transition p e ColdScan)) (\<lambda>p. apply_attempt_transition E p e ColdScan None)
      else
        bindR (apply_attempt_transition E p e ColdScan None) (\<lambda>p. lift_transition (apply_transition p e ColdScan)))"

definition is_chunk :: "event_kind \<Rightarrow> bool" where
  "is_chunk k = (case k of AssistantChunk _ _ _ \<Rightarrow> True | _ \<Rightarrow> False)"

lemma scan_row_parts:
  "\<not> is_chunk (ev_kind e) \<Longrightarrow> apply_scanned_row E p e row =
     bindR (event_validate E (ev_kind e)) (\<lambda>_. bindR (next_compaction_state E p e ColdScan) (\<lambda>k.
     bindR (scan_middle E p e) (\<lambda>q. bindR (lift_surface (apply_surface E q e (BindDurable row))) (\<lambda>q.
       Inr (q\<lparr>pj_compaction := k\<rparr>)))))"
  unfolding apply_scanned_row_def scan_middle_def by (cases "ev_kind e") (simp_all add: is_chunk_def)

text \<open>The surface a committed row leaves.\<close>

definition committed :: "session_event \<Rightarrow> row_locator \<Rightarrow> projection \<Rightarrow> projection" where
  "committed e row q = (if is_tool_result (ev_kind e) then the (bind_tool_result_row q (ev_seq e) row) else q)"

lemma bind_updates:
  "bind_tool_result_row (q\<lparr>pj_compaction := k\<rparr>) n row = map_option (\<lambda>q. q\<lparr>pj_compaction := k\<rparr>) (bind_tool_result_row q n row)"
  "bind_tool_result_row (q\<lparr>pj_attempt := a\<rparr>) n row = map_option (\<lambda>q. q\<lparr>pj_attempt := a\<rparr>) (bind_tool_result_row q n row)"
  by (auto simp: bind_tool_result_row_def split: option.split tool_result_origin.split)

lemma commit_row_committed:
  assumes "commit_row (PrepProjection (q\<lparr>pj_compaction := k\<rparr>) (tool_result_seq e)) p row = (True, p')"
  shows "p' = (committed e row q)\<lparr>pj_compaction := k\<rparr> \<and> (is_tool_result (ev_kind e) \<longrightarrow> row_seq row = ev_seq e
     \<and> bind_tool_result_row q (ev_seq e) row \<noteq> None)"
  using assms by (auto simp: commit_row_def tool_result_seq_def committed_def bind_updates split: if_splits option.split_asm)

lemma surface_committed:
  assumes "apply_surface E p e BindPending = Inr q" "\<forall>n\<in>set (pj_surface p). sn_seq n \<noteq> ev_seq e"
    and "is_tool_result (ev_kind e) \<longrightarrow> row_seq row = ev_seq e"
  shows "apply_surface E p e (BindDurable row) = Inr (committed e row q)"
proof (cases "is_tool_result (ev_kind e)")
  case True
  then show ?thesis using surface_bound[OF assms(1)] assms(2,3) by (simp add: committed_def)
next
  case False
  then show ?thesis using assms(1) surface_unbound[of e E p BindPending "BindDurable row"] by (simp add: committed_def)
qed

lemma scan_finish:
  assumes "\<not> is_chunk (ev_kind e)" "event_validate E (ev_kind e) = Inr ()"
    and comp: "next_compaction_state E p e ColdScan = Inr k"
    and mid: "scan_middle E (p\<lparr>pj_attempt := c\<rparr>) e = Inr (q1\<lparr>pj_attempt := c'\<rparr>)"
    and sur: "apply_surface E q1 e BindPending = Inr q2"
    and fresh: "\<forall>n\<in>set (pj_surface q1). sn_seq n \<noteq> ev_seq e"
    and row: "is_tool_result (ev_kind e) \<longrightarrow> row_seq row = ev_seq e"
  shows "apply_scanned_row E (p\<lparr>pj_attempt := c\<rparr>) e row
     = Inr ((committed e row q2)\<lparr>pj_compaction := k\<rparr>\<lparr>pj_attempt := c'\<rparr>)"
proof -
  have "apply_surface E (q1\<lparr>pj_attempt := c'\<rparr>) e (BindDurable row) = Inr ((committed e row q2)\<lparr>pj_attempt := c'\<rparr>)"
    using surface_committed[OF sur fresh row] by (simp add: surface_attempt)
  then show ?thesis using assms(1,2) comp mid by (simp add: scan_row_parts next_compaction_reads)
qed

definition middle_replays :: "externals \<Rightarrow> projection \<Rightarrow> session_event \<Rightarrow> attempt_projection \<Rightarrow> projection \<Rightarrow> bool" where
  "middle_replays E p e c q =
     (\<exists>c'. scan_middle E (p\<lparr>pj_attempt := c\<rparr>) e = Inr (q\<lparr>pj_attempt := c'\<rparr>)
        \<and> (\<forall>P. carried p P \<longrightarrow> attempt_replays E P (pj_attempt q) c'))"

lemma middle_before:
  assumes "cold_attempt E p e c p1" "apply_transition p1 e ColdScan = Inr q" "\<not> is_retry_started (ev_kind e)"
  shows "middle_replays E p e c q"
proof -
  have "pj_attempt q = pj_attempt p1" using transition_frame[OF assms(2)] by (simp add: keeps_outside_def)
  then show ?thesis
    using assms by (auto simp: middle_replays_def cold_attempt_def scan_middle_def transition_attempt)
qed

lemma middle_after:
  assumes "apply_transition p e ColdScan = Inr p1" "cold_attempt E p1 e c q" "is_retry_started (ev_kind e)"
  shows "middle_replays E p e c q"
proof -
  have k: "\<forall>h r. ev_kind e \<noteq> RequestHeader h r" using assms(3) by (auto simp: is_retry_started_def)
  have "carried p1 P" if "carried p P" for P
    using that transition_frame[OF assms(1)] transition_header[OF assms(1) k] by (simp add: carried_def keeps_outside_def)
  then show ?thesis
    using assms by (auto simp: middle_replays_def cold_attempt_def scan_middle_def transition_attempt)
qed

lemma committed_keeps:
  "pj_attempt (committed e row q) = pj_attempt q" "pj_header (committed e row q) = pj_header q"
  if "is_tool_result (ev_kind e) \<longrightarrow> bind_tool_result_row q (ev_seq e) row \<noteq> None"
  using that by (auto simp: committed_def bind_tool_result_row_def split: if_splits option.split tool_result_origin.split)

lemma replay_row:
  assumes mid: "middle_replays E p e c q1"
    and valid: "\<not> is_chunk (ev_kind e)" "event_validate E (ev_kind e) = Inr ()"
    and comp: "next_compaction_state E p e ColdScan = Inr k"
    and header: "awaits_chunk (pj_attempt p) \<longrightarrow> pj_header q1 = pj_header p"
    and sur: "apply_surface E q1 e BindPending = Inr q2"
    and fresh: "\<forall>n\<in>set (pj_surface q1). sn_seq n \<noteq> ev_seq e"
    and com: "commit_row (PrepProjection (q2\<lparr>pj_compaction := k\<rparr>) (tool_result_seq e)) p row = (True, p')"
  shows "\<exists>c'. apply_scanned_row E (p\<lparr>pj_attempt := c\<rparr>) e row = Inr (p'\<lparr>pj_attempt := c'\<rparr>)
     \<and> attempt_replays E p' (pj_attempt p') c'"
proof -
  obtain c' where c': "scan_middle E (p\<lparr>pj_attempt := c\<rparr>) e = Inr (q1\<lparr>pj_attempt := c'\<rparr>)"
    "\<And>P. carried p P \<Longrightarrow> attempt_replays E P (pj_attempt q1) c'"
    using mid by (auto simp: middle_replays_def)
  have p': "p' = (committed e row q2)\<lparr>pj_compaction := k\<rparr>"
    and row: "is_tool_result (ev_kind e) \<longrightarrow> row_seq row = ev_seq e"
    and bound: "is_tool_result (ev_kind e) \<longrightarrow> bind_tool_result_row q2 (ev_seq e) row \<noteq> None"
    using commit_row_committed[OF com] by auto
  note sf = erase_surface_fields[OF surface_frame[OF sur]]
  have "carried p p'"
    using header compaction_monotone[OF comp] by (simp add: carried_def p' committed_keeps[OF bound] sf)
  moreover have "pj_attempt p' = pj_attempt q1" by (simp add: p' committed_keeps[OF bound] sf)
  ultimately have "attempt_replays E p' (pj_attempt p') c'" using c'(2) by simp
  moreover have "apply_scanned_row E (p\<lparr>pj_attempt := c\<rparr>) e row = Inr (p'\<lparr>pj_attempt := c'\<rparr>)"
    unfolding p' by (rule scan_finish[OF valid comp c'(1) sur fresh row])
  ultimately show ?thesis by blast
qed

section \<open>Live steps and their rows\<close>

text \<open>
  What \<open>append_prune_pair_with_attempt\<close> (\<open>src/session/mod.rs\<close>) hands to \<open>try_commit_durable\<close> under the
  owner of a prune: no provider attempt is open (the call is refused while one is active, and a marker
  of an overflow has closed its attempt); the marker is a prune; the replacement takes the place of
  the one tool result it was made from, whose message it carries on with the same identifier.
\<close>

definition owned_prune_event :: "projection \<Rightarrow> session_event \<Rightarrow> bool" where
  "owned_prune_event p e =
     (\<not> has_open_attempt (pj_attempt p)
      \<and> (case ev_kind e of
           CompactionPrune _ \<Rightarrow> True
         | ToolResult _ _ m _ _ \<Rightarrow>
             (\<exists>n\<in>set (pj_surface p). ev_surface_op e = Some (SurfaceReplace (sn_seq n) (sn_seq n))
                \<and> sn_kind n = ToolResultNode \<and> map_option msg_id (sn_message n) = Some (msg_id m))
         | _ \<Rightarrow> False))"

text \<open>How \<open>try_commit_durable\<close> drives the projection, by the owner of the pending operation.\<close>

inductive durable_step ::
  "externals \<Rightarrow> projection \<Rightarrow> (session_event \<times> row_locator) option \<Rightarrow> projection \<Rightarrow> bool" for E where
  ordinary: "prepare_durable_event E p e = Inr q \<Longrightarrow> commit_row q p row = (True, p')
    \<Longrightarrow> durable_step E p (Some (e, row)) p'"
| chunk: "prepare_durable_attempt_chunk E p e = Inr q \<Longrightarrow> commit_row q p row = (True, p')
    \<Longrightarrow> durable_step E p (Some (e, row)) p'"
| closure: "prepare_durable_attempt_closure E p e d = Inr q \<Longrightarrow> commit_row q p row = (True, p')
    \<Longrightarrow> durable_step E p (Some (e, row)) p'"
| prune: "owned_prune_event p e \<Longrightarrow> prepare_owned_prune_event E p e = Inr q \<Longrightarrow> commit_row q p row = (True, p')
    \<Longrightarrow> durable_step E p (Some (e, row)) p'"
| overflow_prune: "is_compaction_prune (ev_kind e) \<Longrightarrow> prepare_owned_overflow_prune_event E p e = Inr q
    \<Longrightarrow> commit_row q p row = (True, p') \<Longrightarrow> durable_step E p (Some (e, row)) p'"
| live: "prepare_live_attempt p turn step = Inr l \<Longrightarrow> commit_live_attempt True p l = Inr p'
    \<Longrightarrow> durable_step E p None p'"
| seal: "seal_live_attempt E p = Inr (r, p') \<Longrightarrow> durable_step E p None p'"

text \<open>
  A live session from its start, with the rows it wrote; sequence numbers count the rows.  The session
  would also accept a new request header between the dispatch of a call and its first chunk; such
  a journal reads back differently, and \<open>header_kept\<close> is the discipline of the caller, who
  settles the header before the call.
\<close>

definition header_kept :: "projection \<Rightarrow> session_event \<Rightarrow> bool" where
  "header_kept p e = (awaits_chunk (pj_attempt p) \<longrightarrow> (\<forall>h r. ev_kind e \<noteq> RequestHeader h r))"

inductive durable_run ::
  "externals \<Rightarrow> string \<Rightarrow> (session_event \<times> row_locator) list \<Rightarrow> projection \<Rightarrow> bool" for E sid where
  start: "durable_run E sid [] (for_session DurableStrict sid)"
| silent: "durable_run E sid rows p \<Longrightarrow> durable_step E p None p' \<Longrightarrow> durable_run E sid rows p'"
| row: "durable_run E sid rows p \<Longrightarrow> durable_step E p (Some (e, row)) p' \<Longrightarrow> ev_seq e = length rows
    \<Longrightarrow> header_kept p e \<Longrightarrow> durable_run E sid (rows @ [(e, row)]) p'"

definition scan_rows ::
  "externals \<Rightarrow> projection \<Rightarrow> (session_event \<times> row_locator) list \<Rightarrow> event_error + projection" where
  "scan_rows E p rows = try_fold (\<lambda>p (e, row). apply_scanned_row E p e row) p rows"

section \<open>The simulation\<close>

lemma cold_prune:
  assumes "attempt_replays E p (pj_attempt p) c" "pj_policy p = DurableStrict" "is_prune_fact e"
    and "\<not> has_open_attempt (pj_attempt p)"
  shows "cold_attempt E p e c p"
proof -
  have "\<not> has_open_attempt c" using assms(1,4) replays_open by blast
  then show ?thesis
    by (intro cold_attemptI[where c' = c]) (use assms replays_carried[OF assms(1)] in
      \<open>auto simp: is_prune_fact_def apply_attempt_transition_def Let_def is_context_start_def is_compaction_prune_def
        attempt_by_kind_def split: event_kind.split_asm\<close>)
qed

text \<open>Each kind of row, from the live step to the middle of the scan.\<close>

definition row_replays ::
  "externals \<Rightarrow> projection \<Rightarrow> session_event \<Rightarrow> row_locator \<Rightarrow> attempt_projection \<Rightarrow> projection \<Rightarrow> bool" where
  "row_replays E p e row c p' =
     (\<exists>c'. apply_scanned_row E (p\<lparr>pj_attempt := c\<rparr>) e row = Inr (p'\<lparr>pj_attempt := c'\<rparr>)
        \<and> attempt_replays E p' (pj_attempt p') c')"

lemma live_row:
  assumes mid: "middle_replays E p e c q1" and strict: "pj_policy p = DurableStrict"
    and valid: "\<not> is_chunk (ev_kind e)" "event_validate E (ev_kind e) = Inr ()"
    and comp: "next_compaction_state E p e adm = Inr k" "adm \<in> {Ordinary, OwnedAttempt, OwnedPrune, OwnedOverflowPrune}"
    and priv: "is_recovery_only (ev_kind e) \<longrightarrow> is_unprivileged_durable adm"
    and frame: "pj_surface q1 = pj_surface p" "awaits_chunk (pj_attempt p) \<longrightarrow> pj_header q1 = pj_header p"
    and sur: "apply_surface E q1 e BindPending = Inr q2"
    and fresh: "\<forall>n\<in>set (pj_surface p). sn_seq n < ev_seq e"
    and com: "commit_row (PrepProjection (q2\<lparr>pj_compaction := k\<rparr>) (tool_result_seq e)) p row = (True, p')"
  shows "row_replays E p e row c p'"
  unfolding row_replays_def
  by (rule replay_row[OF mid valid compaction_scan[OF comp(1) strict comp(2) priv] frame(2) sur _ com])
    (use fresh frame(1) in auto)

lemma transition_keeps:
  assumes "apply_transition p1 e adm = Inr q1" "erase_attempt p1 = erase_attempt p"
    and "awaits_chunk (pj_attempt p) \<longrightarrow> (\<forall>h r. ev_kind e \<noteq> RequestHeader h r)"
  shows "pj_surface q1 = pj_surface p" "awaits_chunk (pj_attempt p) \<longrightarrow> pj_header q1 = pj_header p"
    and "pj_policy p = DurableStrict \<Longrightarrow> pj_policy p1 = DurableStrict"
  using transition_frame[OF assms(1)] transition_header[OF assms(1)] erase_attempt_fields[OF assms(2)] assms(3)
  by (auto simp: keeps_outside_def)

lemma chunk_row:
  assumes rep: "attempt_replays E p (pj_attempt p) c" and strict: "pj_policy p = DurableStrict"
    and prep: "prepare_durable_attempt_chunk E p e = Inr q" and com: "commit_row q p row = (True, p')"
  shows "row_replays E p e row c p'"
proof -
  obtain turn step ch where k: "ev_kind e = AssistantChunk turn step ch"
    using prep unfolding prepare_durable_attempt_chunk_def by (cases "ev_kind e") (auto elim!: result_elims)
  have meta: "ev_surface_op e = None" "ev_source_event_seqs e = None"
    using prep k unfolding prepare_durable_attempt_chunk_def by (auto elim!: result_elims)
  obtain co r where r: "event_validate E (ev_kind e) = Inr ()" "require_open_step p (event_type_static (ev_kind e)) turn step = Inr ()"
    "next_compaction_state E p e OwnedAttempt = Inr co"
    "prepare_chunk E (pj_attempt p) e (pj_header p) (co_replacement_generation (pj_compaction p)) = Inr r"
    "q = PrepAttemptChunk r co"
    using prep k meta unfolding prepare_durable_attempt_chunk_def by (auto elim!: result_elims simp: ok_or_map_err_iff)
  obtain a where a: "commit_chunk (pj_attempt p) r = (True, a)" "p' = p\<lparr>pj_attempt := a, pj_compaction := co\<rparr>"
    using com r(5) by (auto simp: commit_row_def commit_attempt_chunk_def split: prod.split_asm bool.split_asm)
  have comp: "next_compaction_state E (p\<lparr>pj_attempt := c\<rparr>) e ColdScan = Inr co"
    using compaction_scan[OF r(3) strict] k by (simp add: next_compaction_reads is_recovery_only_def)
  obtain q' c' where c': "prepare_chunk E c e (pj_header p) (co_replacement_generation (pj_compaction p)) = Inr q'"
    "commit_chunk c q' = (True, c')" "attempt_replays E p' a c'"
    using replay_chunk[OF rep r(4) a(1)] by metis
  have "apply_surface E (p\<lparr>pj_attempt := c\<rparr>) e (BindDurable row) = Inr (p\<lparr>pj_attempt := c\<rparr>)"
    using k meta by (simp add: apply_surface_def is_surface_eligible_def)
  then have "apply_scanned_row E (p\<lparr>pj_attempt := c\<rparr>) e row = Inr (p\<lparr>pj_attempt := c', pj_compaction := co\<rparr>)"
    using k r(1,2) comp c'(1,2) by (simp add: apply_scanned_row_def apply_scanned_chunk_def attempt_reads)
  then show ?thesis using c'(3) a(2) by (cases p) (auto simp: row_replays_def)
qed

lemma ordinary_row:
  assumes rep: "attempt_replays E p (pj_attempt p) c" and strict: "pj_policy p = DurableStrict"
    and prep: "prepare_durable_event E p e = Inr q" and com: "commit_row q p row = (True, p')"
    and fresh: "\<forall>n\<in>set (pj_surface p). sn_seq n < ev_seq e"
    and header: "awaits_chunk (pj_attempt p) \<longrightarrow> (\<forall>h r. ev_kind e \<noteq> RequestHeader h r)"
  shows "row_replays E p e row c p'"
proof -
  have valid: "event_validate E (ev_kind e) = Inr ()"
    and rej: "reject_unowned_attempt_event p e = Inr ()" "reject_unowned_context_overflow_start p e = Inr ()"
    using prep unfolding prepare_durable_event_def ordinary_event_def by (auto elim!: bindR_InrE)
  obtain x where x: "ordinary_event E p e BindPending = Inr x" "q = PrepProjection x (tool_result_seq e)"
    using prep unfolding prepare_durable_event_def by (auto elim!: bindR_InrE)
  obtain k q1 q2 where comp: "next_compaction_state E p e Ordinary = Inr k"
    and mid: "(if is_retry_started (ev_kind e) then
            bindR (lift_transition (apply_transition p e Ordinary)) (\<lambda>p. apply_attempt_transition E p e Ordinary None)
          else bindR (if is_step_boundary (ev_kind e) then apply_attempt_transition E p e Ordinary None else Inr p)
                 (\<lambda>p. lift_transition (apply_transition p e Ordinary))) = Inr q1"
    and sur: "apply_surface E q1 e BindPending = Inr q2" and x2: "x = q2\<lparr>pj_compaction := k\<rparr>"
    using x(1) unfolding ordinary_event_def
    by (elim bindR_InrE) (unfold ok_or_map_err_iff sum.inject, metis)
  have facts: "\<not> is_attempt_fact (ev_kind e)" "\<not> is_context_start (ev_kind e)"
    using rej strict by (auto simp: reject_unowned_attempt_event_def reject_unowned_context_overflow_start_def owns_attempts_def
        split: if_splits)
  then have chunk: "\<not> is_chunk (ev_kind e)" by (auto simp: is_attempt_fact_def is_chunk_def split: event_kind.splits)
  have priv: "is_unprivileged_durable Ordinary" by (simp add: is_unprivileged_durable_def)
  note row = live_row[OF _ strict chunk valid comp _ _ _ _ sur fresh com[unfolded x(2) x2]]
  show ?thesis
  proof (cases "is_retry_started (ev_kind e)")
    case True
    then obtain p1 where p1: "apply_transition p e Ordinary = Inr p1" "apply_attempt_transition E p1 e Ordinary None = Inr q1"
      using mid by (auto elim!: bindR_InrE simp: ok_or_map_err_iff)
    note keep = transition_keeps[OF p1(1) refl header] and frame = erase_attempt_fields[OF attempt_transition_frame[OF p1(2)]]
    have att: "pj_attempt p1 = pj_attempt p" "pj_policy p1 = DurableStrict" "pj_compaction p1 = pj_compaction p"
      using transition_frame[OF p1(1)] strict by (simp_all add: keeps_outside_def)
    have "carried p p1" using keep(2) att by (simp add: carried_def)
    then have rep1: "attempt_replays E p1 (pj_attempt p1) c" using replays_carried[OF rep] att(1) by simp
    have "cold_attempt E p1 e c q1" by (rule cold_ordinary[OF rep1 att(2) p1(2)]) (use True in simp)
    then have "middle_replays E p e c q1"
      using middle_after[OF transition_scan[OF p1(1) strict]] True priv by blast
    then show ?thesis by (rule row) (use keep frame priv in auto)
  next
    case False
    then obtain p1 where p1: "(if is_step_boundary (ev_kind e) then apply_attempt_transition E p e Ordinary None else Inr p) = Inr p1"
      "apply_transition p1 e Ordinary = Inr q1"
      using mid by (auto elim!: bindR_InrE simp: ok_or_map_err_iff)
    have frame: "erase_attempt p1 = erase_attempt p" using p1(1) by (auto split: if_splits dest: attempt_transition_frame)
    note keep = transition_keeps[OF p1(2) frame header]
    have "cold_attempt E p e c p1"
    proof (cases "is_step_boundary (ev_kind e)")
      case True
      then show ?thesis using cold_ordinary[OF rep strict] p1(1) by simp
    next
      case no_step: False
      have "\<not> is_compaction_prune (ev_kind e)"
        using comp strict by (auto simp: next_compaction_state_def Let_def is_prune_fact_def is_compaction_prune_def
            split: event_kind.splits)
      then show ?thesis using cold_idle[OF rep strict] p1(1) no_step facts False by (simp add: names_attempt_def)
    qed
    then have "middle_replays E p e c q1"
      using middle_before[OF _ transition_scan[OF p1(2) keep(3)[OF strict]]] False priv by blast
    then show ?thesis by (rule row) (use keep priv in auto)
  qed
qed

lemma owned_row:
  assumes cold: "cold_attempt E p e c p1" and strict: "pj_policy p = DurableStrict"
    and frame: "erase_attempt p1 = erase_attempt p"
    and kind: "\<not> is_chunk (ev_kind e)" "\<not> is_retry_started (ev_kind e)" "\<not> is_recovery_only (ev_kind e)"
      "is_tool_result (ev_kind e) \<longrightarrow> is_replace e" "\<forall>h r. ev_kind e \<noteq> RequestHeader h r"
    and adm: "adm \<in> {Ordinary, OwnedAttempt, OwnedPrune, OwnedOverflowPrune}"
    and parts: "event_validate E (ev_kind e) = Inr ()" "next_compaction_state E p e adm = Inr k"
      "apply_transition p1 e adm = Inr q1" "apply_surface E q1 e BindPending = Inr q2"
    and com: "commit_row (PrepProjection (q2\<lparr>pj_compaction := k\<rparr>) (tool_result_seq e)) p row = (True, p')"
    and fresh: "\<forall>n\<in>set (pj_surface p). sn_seq n < ev_seq e"
  shows "row_replays E p e row c p'"
proof -
  have header: "awaits_chunk (pj_attempt p) \<longrightarrow> (\<forall>h r. ev_kind e \<noteq> RequestHeader h r)" using kind(5) by blast
  note keep = transition_keeps[OF parts(3) frame header]
  have "middle_replays E p e c q1"
    using middle_before[OF cold transition_scan[OF parts(3) keep(3)[OF strict]] kind(2)] kind(3,4) by blast
  then show ?thesis
    by (rule live_row[OF _ strict kind(1) parts(1,2) adm _ keep(1,2) parts(4) fresh com]) (use kind(3) in simp)
qed

lemma closure_row:
  assumes rep: "attempt_replays E p (pj_attempt p) c" and strict: "pj_policy p = DurableStrict"
    and dig: "is_assistant_message (ev_kind e) \<Longrightarrow> digest_tells E c e"
    and prep: "prepare_durable_attempt_closure E p e d = Inr q" and com: "commit_row q p row = (True, p')"
    and fresh: "\<forall>n\<in>set (pj_surface p). sn_seq n < ev_seq e"
  shows "row_replays E p e row c p'"
proof -
  obtain k p1 q1 q2 where parts: "next_compaction_state E p e OwnedAttempt = Inr k"
    "apply_attempt_transition E p e OwnedAttempt (Some d) = Inr p1" "apply_transition p1 e OwnedAttempt = Inr q1"
    "apply_surface E q1 e BindPending = Inr q2" "q = PrepProjection (q2\<lparr>pj_compaction := k\<rparr>) None"
    using prep unfolding prepare_durable_attempt_closure_def
    by (elim bindR_InrE) (unfold ok_or_map_err_iff sum.inject, metis)
  have valid: "event_validate E (ev_kind e) = Inr ()"
    using prep unfolding prepare_durable_attempt_closure_def by (auto elim!: bindR_InrE)
  have "legal_closure (Some d) (ev_kind e)"
    using parts(2) strict by (auto simp: apply_attempt_transition_def Let_def split: if_splits)
  then have kind: "\<not> is_chunk (ev_kind e)" "\<not> is_retry_started (ev_kind e)" "\<not> is_recovery_only (ev_kind e)"
      "is_tool_result (ev_kind e) \<longrightarrow> is_replace e" "\<forall>h r. ev_kind e \<noteq> RequestHeader h r" "tool_result_seq e = None"
    by (cases "ev_kind e"; cases d; simp add: legal_closure_def is_assistant_message_def is_step_end_def is_context_start_def
        is_chunk_def is_retry_started_def is_recovery_only_def is_tool_result_def tool_result_seq_def)+
  show ?thesis
    by (rule owned_row[OF cold_closure[OF rep strict parts(2) dig] strict attempt_transition_frame[OF parts(2)] kind(1-5) _
          valid parts(1,3,4) _ fresh]) (use com parts(5) kind(6) in auto)
qed

text \<open>The messages on the surface of a live session are not those of a recovery.\<close>

definition live_results :: "projection \<Rightarrow> bool" where
  "live_results p =
     (\<forall>n\<in>set (pj_surface p). \<forall>m. sn_kind n = ToolResultNode \<and> sn_message n = Some m \<longrightarrow> \<not> is_recovery_message m)"

lemma owned_prune_facts:
  assumes "owned_prune_event p e" "live_results p"
  shows "is_prune_fact e \<and> \<not> is_recovery_only (ev_kind e) \<and> \<not> has_open_attempt (pj_attempt p)"
  using assms by (cases "ev_kind e")
    (auto simp: owned_prune_event_def live_results_def is_prune_fact_def is_recovery_only_def is_recovery_message_def is_replace_def)

lemma prune_row:
  assumes rep: "attempt_replays E p (pj_attempt p) c" and strict: "pj_policy p = DurableStrict"
    and prep: "prepare_owned_prune_event E p e = Inr q" and com: "commit_row q p row = (True, p')"
    and own: "owned_prune_event p e" and results: "live_results p"
    and fresh: "\<forall>n\<in>set (pj_surface p). sn_seq n < ev_seq e"
  shows "row_replays E p e row c p'"
proof -
  have guard: "is_prune_fact e" "\<not> is_recovery_only (ev_kind e)" "\<not> has_open_attempt (pj_attempt p)"
    using owned_prune_facts[OF own results] by simp_all
  obtain k q1 q2 where parts: "next_compaction_state E p e OwnedPrune = Inr k" "apply_transition p e OwnedPrune = Inr q1"
    "apply_surface E q1 e BindPending = Inr q2" "q = PrepProjection (q2\<lparr>pj_compaction := k\<rparr>) (tool_result_seq e)"
    using prep unfolding prepare_owned_prune_event_def
    by (elim bindR_InrE) (unfold ok_or_map_err_iff sum.inject, metis)
  have valid: "event_validate E (ev_kind e) = Inr ()"
    using prep unfolding prepare_owned_prune_event_def by (auto elim!: bindR_InrE)
  have kind: "\<not> is_chunk (ev_kind e)" "\<not> is_retry_started (ev_kind e)" "is_tool_result (ev_kind e) \<longrightarrow> is_replace e"
      "\<forall>h r. ev_kind e \<noteq> RequestHeader h r"
    using guard(1) by (cases "ev_kind e"; simp add: is_prune_fact_def is_chunk_def is_retry_started_def is_tool_result_def)+
  show ?thesis
    by (rule owned_row[OF cold_prune[OF rep strict guard(1,3)] strict refl kind(1,2) guard(2) kind(3,4) _ valid parts(1-3) _ fresh])
      (use com parts(4) in auto)
qed

lemma overflow_prune_row:
  assumes rep: "attempt_replays E p (pj_attempt p) c" and strict: "pj_policy p = DurableStrict"
    and prep: "prepare_owned_overflow_prune_event E p e = Inr q" and com: "commit_row q p row = (True, p')"
    and guard: "is_compaction_prune (ev_kind e)" and fresh: "\<forall>n\<in>set (pj_surface p). sn_seq n < ev_seq e"
  shows "row_replays E p e row c p'"
proof -
  obtain k p1 q1 q2 where parts: "next_compaction_state E p e OwnedOverflowPrune = Inr k"
    "apply_context_overflow_transition p e = Inr p1" "apply_transition p1 e OwnedOverflowPrune = Inr q1"
    "apply_surface E q1 e BindPending = Inr q2" "q = PrepProjection (q2\<lparr>pj_compaction := k\<rparr>) None"
    using prep unfolding prepare_owned_overflow_prune_event_def
    by (elim bindR_InrE) (unfold ok_or_map_err_iff sum.inject, metis)
  have valid: "event_validate E (ev_kind e) = Inr ()"
    using prep unfolding prepare_owned_overflow_prune_event_def by (auto elim!: bindR_InrE)
  have kind: "\<not> is_chunk (ev_kind e)" "\<not> is_retry_started (ev_kind e)" "\<not> is_recovery_only (ev_kind e)"
      "is_tool_result (ev_kind e) \<longrightarrow> is_replace e" "\<forall>h r. ev_kind e \<noteq> RequestHeader h r" "tool_result_seq e = None"
    using guard by (cases "ev_kind e"; simp add: is_compaction_prune_def is_chunk_def is_retry_started_def is_recovery_only_def
        is_tool_result_def tool_result_seq_def)+
  show ?thesis
    by (rule owned_row[OF cold_overflow[OF rep strict parts(2)] strict context_overflow_frame[OF parts(2)] kind(1-5) _
          valid parts(1,3,4) _ fresh]) (use guard com parts(5) kind(6) in auto)
qed

text \<open>A live step without a row changes only the attempt.\<close>

lemma dispatched_attempt [simp]: "dispatched E (p\<lparr>pj_attempt := x\<rparr>) l a = dispatched E p l a"
  by (simp add: dispatched_def)

lemma attempt_replays_attempt [simp]: "attempt_replays E (p\<lparr>pj_attempt := x\<rparr>) = attempt_replays E p"
proof -
  have "state_replays E (p\<lparr>pj_attempt := x\<rparr>) l g c = state_replays E p l g c" for l g c
    by (simp add: state_replays_def cong: attempt_state.case_cong)
  then show ?thesis by (simp add: fun_eq_iff attempt_replays_def)
qed

lemma silent_replays:
  assumes rep: "attempt_replays E p (pj_attempt p) c" and strict: "pj_policy p = DurableStrict" and step: "durable_step E p None p'"
  shows "p' = p\<lparr>pj_attempt := pj_attempt p'\<rparr> \<and> attempt_replays E p' (pj_attempt p') c"
  using step
proof cases
  case (live turn step l)
  then have "prepare_begin_live (pj_attempt p) turn step (pj_header p) (co_replacement_generation (pj_compaction p)) = Inr l"
    using strict by (auto simp: prepare_live_attempt_def elim!: result_elims)
  from replay_dispatch[OF rep this] have "attempt_replays E p (commit_live l) c" .
  moreover have "p' = p\<lparr>pj_attempt := commit_live l\<rparr>" using live(2) by (simp add: commit_live_attempt_def)
  ultimately show ?thesis by simp
next
  case (seal r)
  then obtain l' where l': "take_prepared E (pj_attempt p) = Inr (r, l')" "p' = p\<lparr>pj_attempt := l'\<rparr>"
    by (auto simp: seal_live_attempt_def elim!: bindR_InrE)
  from replay_seal[OF rep l'(1)] l'(2) show ?thesis by simp
qed

section \<open>What a scanned row leaves\<close>

lemma append_nodes:
  "append_node p n = Inr p' \<Longrightarrow> set (pj_surface p') \<subseteq> insert n (set (pj_surface p))"
  "splice_node p i j n = Inr p' \<Longrightarrow> set (pj_surface p') \<subseteq> insert n (set (pj_surface p))"
proof -
  assume "splice_node p i j n = Inr p'"
  then have "pj_surface p' = take i (pj_surface p) @ n # drop (Suc j) (pj_surface p)"
    by (auto simp: splice_node_def Let_def elim!: result_elims)
  then show "set (pj_surface p') \<subseteq> insert n (set (pj_surface p))"
    using set_take_subset[of i "pj_surface p"] set_drop_subset[of "Suc j" "pj_surface p"] by auto
qed (auto simp: append_node_def elim!: result_elims)

lemma surface_nodes:
  assumes "apply_surface E p e b = Inr p'"
  shows "set (pj_surface p') \<subseteq> set (pj_surface p) \<union> {n. surface_node_of E e b = Inr n}"
  using assms by (cases rule: apply_surface_cases) (auto dest!: append_nodes)

lemma node_message: "surface_node_of E e b = Inr n \<Longrightarrow> sn_kind n = ToolResultNode \<Longrightarrow> sn_message n = Some m
    \<Longrightarrow> \<not> is_recovery_only (ev_kind e) \<Longrightarrow> \<not> is_recovery_message m"
  by (cases "ev_kind e") (auto simp: surface_node_of_def node_parts_def is_recovery_only_def elim!: result_elims split: if_splits)

lemma scanned_keeps:
  assumes "apply_scanned_row E p e row = Inr p'" "pj_policy p = DurableStrict"
  shows "pj_policy p' = DurableStrict" "\<forall>n\<in>set (pj_surface p'). n \<in> set (pj_surface p) \<or> sn_seq n = ev_seq e"
    and "live_results p \<Longrightarrow> live_results p'"
proof -
  obtain p1 p2 p3 p4 b where parts: "erase_attempt p1 = erase_attempt p" "apply_transition p1 e ColdScan = Inr p2"
    "erase_attempt p3 = erase_attempt p2" "apply_surface E p3 e b = Inr p4" "p' = p4\<lparr>pj_compaction := pj_compaction p'\<rparr>"
    using scanned_effect[OF assms(1)] unfolding event_effect_def by (auto intro: that)
  have before: "pj_surface p3 = pj_surface p" "pj_policy p3 = DurableStrict" "pj_policy p1 = DurableStrict"
    using erase_attempt_fields[OF parts(1)] transition_frame[OF parts(2)] erase_attempt_fields[OF parts(3)] assms(2)
    by (simp_all add: keeps_outside_def)
  have after: "pj_surface p' = pj_surface p4" "pj_policy p' = pj_policy p4" by (subst parts(5), simp)+
  have "\<not> is_recovery_only (ev_kind e)"
    using parts(2) before(3) by (auto simp: apply_transition_def reject_recovery_event_def is_unprivileged_durable_def elim!: bindR_InrE)
  then show "live_results p \<Longrightarrow> live_results p'"
    using surface_nodes[OF parts(4)] node_message[of E e b] after(1) before(1) unfolding live_results_def by fastforce
  show "pj_policy p' = DurableStrict"
    using after(2) before(2) erase_surface_fields(1)[OF surface_frame[OF parts(4)]] by simp
  show "\<forall>n\<in>set (pj_surface p'). n \<in> set (pj_surface p) \<or> sn_seq n = ev_seq e"
    using surface_nodes[OF parts(4)] node_seq[of E e b] after(1) before(1) by auto
qed

lemma step_row_replays:
  assumes step: "durable_step E p (Some (e, row)) p'"
    and rep: "attempt_replays E p (pj_attempt p) c" and strict: "pj_policy p = DurableStrict"
    and dig: "is_assistant_message (ev_kind e) \<Longrightarrow> digest_tells E c e" and results: "live_results p"
    and fresh: "\<forall>n\<in>set (pj_surface p). sn_seq n < ev_seq e" and header: "header_kept p e"
  shows "row_replays E p e row c p'"
  using step
proof cases
  case (ordinary q)
  then show ?thesis using ordinary_row[OF rep strict _ _ fresh header[unfolded header_kept_def]] by blast
next
  case (chunk q)
  then show ?thesis using chunk_row[OF rep strict] by blast
next
  case (closure q d)
  then show ?thesis using closure_row[OF rep strict dig _ _ fresh] by blast
next
  case (prune q)
  then show ?thesis using prune_row[OF rep strict _ _ _ results fresh] by blast
next
  case (overflow_prune q)
  then show ?thesis using overflow_prune_row[OF rep strict _ _ _ fresh] by blast
qed

text \<open>
  The source lists whose digests meet: those the assistant messages name, and those of the attempts
  that are finished as the rows are scanned.  There are at most two to a row.
\<close>

definition row_sources :: "session_event \<Rightarrow> nat list list" where
  "row_sources e = (if is_assistant_message (ev_kind e) then [event_sources e] else [])"

primrec scanned_sources :: "externals \<Rightarrow> projection \<Rightarrow> (session_event \<times> row_locator) list \<Rightarrow> nat list list" where
  "scanned_sources E p [] = attempt_sources (pj_attempt p)"
| "scanned_sources E p (r # rows) =
     (case r of (e, row) \<Rightarrow> attempt_sources (pj_attempt p) @ row_sources e
        @ (case apply_scanned_row E p e row of Inl _ \<Rightarrow> [] | Inr q \<Rightarrow> scanned_sources E q rows))"

text \<open>No two of them have the same digest.\<close>

definition digests_distinguish :: "externals \<Rightarrow> string \<Rightarrow> (session_event \<times> row_locator) list \<Rightarrow> bool" where
  "digests_distinguish E sid rows =
     distinct (map (source_digest E) (remdups (scanned_sources E (for_session DurableStrict sid) rows)))"

lemma scanned_sources_append:
  "scan_rows E p rows = Inr q \<Longrightarrow> set (scanned_sources E p (rows @ later)) = set (scanned_sources E p rows) \<union> set (scanned_sources E q later)"
proof (induction rows arbitrary: p)
  case Nil
  then show ?case by (cases later) (auto simp: scan_rows_def)
next
  case (Cons r rows)
  obtain e row where r: "r = (e, row)" by fastforce
  then obtain p1 where p1: "apply_scanned_row E p e row = Inr p1" "scan_rows E p1 rows = Inr q"
    using Cons.prems by (auto simp: scan_rows_def elim!: bindR_InrE)
  show ?case using Cons.IH[OF p1(2)] p1(1) by (auto simp: r)
qed

lemma distinguished:
  assumes "digests_distinguish E sid rows" "xs \<in> set (scanned_sources E (for_session DurableStrict sid) rows)"
    "ys \<in> set (scanned_sources E (for_session DurableStrict sid) rows)" "source_digest E xs = source_digest E ys"
  shows "xs = ys"
  using assms by (auto simp: digests_distinguish_def distinct_map inj_on_def)

lemma scanned_sources_prefix: "set (scanned_sources E p rows) \<subseteq> set (scanned_sources E p (rows @ later))"
proof (induction rows arbitrary: p)
  case Nil
  then show ?case by (cases later) auto
next
  case (Cons r rows)
  obtain e row where r: "r = (e, row)" by fastforce
  show ?case
  proof (cases "apply_scanned_row E p e row")
    case (Inr q)
    then show ?thesis using Cons.IH[of q] r by auto
  qed (simp add: r)
qed

lemma digests_prefix: "digests_distinguish E sid (rows @ later) \<Longrightarrow> digests_distinguish E sid rows"
  using scanned_sources_prefix[of E "for_session DurableStrict sid" rows later]
  by (auto simp: digests_distinguish_def distinct_map intro: inj_on_subset)

lemma digest_told:
  assumes "digests_distinguish E sid (rows @ [(e, row)])" "scan_rows E (for_session DurableStrict sid) rows = Inr q"
    "is_assistant_message (ev_kind e)"
  shows "digest_tells E (pj_attempt q) e"
  unfolding digest_tells_def
  using distinguished[OF assms(1)] scanned_sources_append[OF assms(2), of "[(e, row)]"] assms(3)
  by (auto simp: row_sources_def)

text \<open>What holds all along a run, of the live projection and of the scan of its rows.\<close>

definition replayed :: "externals \<Rightarrow> string \<Rightarrow> (session_event \<times> row_locator) list \<Rightarrow> projection \<Rightarrow> attempt_projection \<Rightarrow> bool" where
  "replayed E sid rows p c =
     (scan_rows E (for_session DurableStrict sid) rows = Inr (p\<lparr>pj_attempt := c\<rparr>)
      \<and> attempt_replays E p (pj_attempt p) c \<and> pj_policy p = DurableStrict
      \<and> (\<forall>n\<in>set (pj_surface p). sn_seq n < length rows) \<and> live_results p)"

lemma replayed_start: "replayed E sid [] (for_session DurableStrict sid) attempt_default"
  by (simp add: replayed_def scan_rows_def for_session_def projection_empty_def attempt_replays_def state_replays_def
      live_results_def attempt_default_def)

lemma replayed_row:
  assumes inv: "replayed E sid rows p c" and step: "durable_step E p (Some (e, row)) p'"
    and seq: "ev_seq e = length rows" and header: "header_kept p e" and dig: "digests_distinguish E sid (rows @ [(e, row)])"
  shows "\<exists>c'. replayed E sid (rows @ [(e, row)]) p' c'"
proof -
  have scan: "scan_rows E (for_session DurableStrict sid) rows = Inr (p\<lparr>pj_attempt := c\<rparr>)"
    and rep: "attempt_replays E p (pj_attempt p) c" and strict: "pj_policy p = DurableStrict" and res: "live_results p"
    and old: "\<forall>n\<in>set (pj_surface p). sn_seq n < length rows"
    using inv by (simp_all add: replayed_def)
  have tells: "is_assistant_message (ev_kind e) \<Longrightarrow> digest_tells E c e" using digest_told[OF dig scan] by simp
  have "row_replays E p e row c p'"
    by (rule step_row_replays[OF step rep strict tells res _ header]) (use old seq in simp_all)
  then obtain c' where c': "apply_scanned_row E (p\<lparr>pj_attempt := c\<rparr>) e row = Inr (p'\<lparr>pj_attempt := c'\<rparr>)"
    "attempt_replays E p' (pj_attempt p') c'" by (auto simp: row_replays_def)
  have keep: "pj_policy p' = DurableStrict" "\<forall>n\<in>set (pj_surface p'). n \<in> set (pj_surface p) \<or> sn_seq n = ev_seq e" "live_results p'"
    using scanned_keeps[OF c'(1)] strict res by (simp_all add: live_results_def)
  have "\<forall>n\<in>set (pj_surface p'). sn_seq n < Suc (length rows)"
    using keep(2) old seq by (auto simp: less_Suc_eq)
  moreover have "scan_rows E (for_session DurableStrict sid) (rows @ [(e, row)]) = Inr (p'\<lparr>pj_attempt := c'\<rparr>)"
    using scan c'(1) by (simp add: scan_rows_def try_fold_append)
  ultimately show ?thesis using c'(2) keep(1,3) by (auto simp: replayed_def)
qed

lemma run_replayed:
  assumes "durable_run E sid rows p" "digests_distinguish E sid rows"
  shows "\<exists>c. replayed E sid rows p c"
  using assms
proof (induction rule: durable_run.induct)
  case start
  then show ?case using replayed_start by blast
next
  case (silent rows p p')
  then obtain c where c: "replayed E sid rows p c" by blast
  then have rep: "attempt_replays E p (pj_attempt p) c" "pj_policy p = DurableStrict" by (simp_all add: replayed_def)
  note same = silent_replays[OF rep silent.hyps(2)]
  have p': "p' = p\<lparr>pj_attempt := pj_attempt p'\<rparr>" using same by (rule conjunct1)
  have att: "attempt_replays E p' (pj_attempt p') c" using same by (rule conjunct2)
  have "p'\<lparr>pj_attempt := c\<rparr> = p\<lparr>pj_attempt := c\<rparr>" "pj_policy p' = pj_policy p" "pj_surface p' = pj_surface p"
    by (subst p', simp)+
  then have "replayed E sid rows p' c"
    using c att by (simp add: replayed_def live_results_def)
  then show ?case by blast
next
  case (row rows p e rw p')
  show ?case
    using row.IH[OF digests_prefix[OF row.prems]] replayed_row[OF _ row.hyps(2,3,4) row.prems] by blast
qed

text \<open>
  C10: a durable journal reads back.  When a live session has written the rows, each admitted by its
  owner's check and committed to the file before the projection moved on, and no request header was
  replaced between the dispatch of a call and its first chunk, then scanning the rows
  from an empty projection accepts every one, and gives the projection of the live session in every
  field but the attempt, whose state is the one a journal can show.  The hypothesis is that SHA-256
  does not collide on the source lists of this journal: those its assistant messages name and those
  of the attempts they commit.
\<close>

theorem durable_journal_replays:
  assumes "durable_run E sid rows p" "digests_distinguish E sid rows"
  shows "\<exists>c. scan_rows E (for_session DurableStrict sid) rows = Inr (p\<lparr>pj_attempt := c\<rparr>)
     \<and> attempt_replays E p (pj_attempt p) c"
  using run_replayed[OF assms] by (auto simp: replayed_def)

end
