(* ===== verification/Projection_Turns.thy ===== *)
theory Projection_Turns
  imports Projection_Runs
begin

text \<open>
  Turns and steps.  The boundary of the projection refines a small automaton that only counts:
  which turn comes next, whether one is open, and which step of it comes next or is open.
\<close>

section \<open>The automaton\<close>

datatype turn_phase = NoTurn | TurnOpen nat nat | StepOpen nat nat

type_synonym turn_state = "nat \<times> turn_phase"

definition turn_initial :: turn_state where
  "turn_initial = (1, NoTurn)"

definition stay :: "bool \<Rightarrow> turn_state \<Rightarrow> turn_state option" where
  "stay ok st = (if ok then Some st else None)"

fun turn_step :: "turn_state \<Rightarrow> session_event \<Rightarrow> turn_state option" where
  "turn_step (n, ph) e =
     (case ev_kind e of
        TurnStart t \<Rightarrow> if ph = NoTurn \<and> t = n then Some (n, TurnOpen t 1) else None
      | TurnEnd t _ \<Rightarrow>
          (case ph of TurnOpen t' _ \<Rightarrow> if t' = t then Some (Suc t, NoTurn) else None | _ \<Rightarrow> None)
      | StepStart t s \<Rightarrow> if ph = TurnOpen t s then Some (n, StepOpen t s) else None
      | StepEnd t s \<Rightarrow> if ph = StepOpen t s then Some (n, TurnOpen t (Suc s)) else None
      | AssistantChunk t s _ \<Rightarrow> stay (ph = StepOpen t s) (n, ph)
      | AssistantMessage t s _ _ \<Rightarrow> stay (ph = StepOpen t s) (n, ph)
      | ToolCall t s _ _ _ \<Rightarrow> stay (ph = StepOpen t s) (n, ph)
      | ToolResult t s _ _ _ \<Rightarrow> stay (if is_replace e then ph \<noteq> NoTurn else ph = StepOpen t s) (n, ph)
      | LlmRetry r \<Rightarrow> stay (ph = StepOpen (lr_turn r) (lr_step r)) (n, ph)
      | TodoWrite _ \<Rightarrow> stay (ph \<noteq> NoTurn) (n, ph)
      | RequestHeader _ _ \<Rightarrow> stay (ph \<noteq> NoTurn) (n, ph)
      | RequestContext _ \<Rightarrow> stay (ph \<noteq> NoTurn) (n, ph)
      | ApprovalAsked _ \<Rightarrow> stay (ph \<noteq> NoTurn) (n, ph)
      | ApprovalDecided _ \<Rightarrow> stay (ph \<noteq> NoTurn) (n, ph)
      | _ \<Rightarrow> Some (n, ph))"

fun turn_run :: "turn_state \<Rightarrow> session_event list \<Rightarrow> turn_state option" where
  "turn_run st [] = Some st"
| "turn_run st (e # es) = Option.bind (turn_step st e) (\<lambda>st'. turn_run st' es)"

lemma turn_run_snoc: "turn_run st (es @ [e]) = Option.bind (turn_run st es) (\<lambda>st'. turn_step st' e)"
  by (induction es arbitrary: st) (auto split: bind_splits)

section \<open>The abstraction\<close>

definition turn_phase_of :: "boundary_state \<Rightarrow> turn_phase" where
  "turn_phase_of b =
     (case b of Idle \<Rightarrow> NoTurn | InTurn t n \<Rightarrow> TurnOpen t n | InStep s \<Rightarrow> StepOpen (os_turn s) (os_step s))"

definition turn_state_of :: "projection \<Rightarrow> turn_state" where
  "turn_state_of p = (pj_next_turn p, turn_phase_of (pj_boundary p))"

lemma turn_phase_of_simps [simp]:
  "turn_phase_of Idle = NoTurn" "turn_phase_of (InTurn t n) = TurnOpen t n"
  "turn_phase_of (InStep s) = StepOpen (os_turn s) (os_step s)"
  by (simp_all add: turn_phase_of_def)

lemma require_open_step_phase:
  "require_open_step p k t s = Inr () \<longleftrightarrow> turn_phase_of (pj_boundary p) = StepOpen t s"
  by (auto simp: require_open_step_def open_turn_def open_step_def split: boundary_state.splits)

lemma open_turn_phase: "open_turn p = None \<longleftrightarrow> turn_phase_of (pj_boundary p) = NoTurn"
  by (simp add: open_turn_def split: boundary_state.splits)

lemma require_turn_phase: "require_turn p k = Inr () \<longleftrightarrow> turn_phase_of (pj_boundary p) \<noteq> NoTurn"
  by (auto simp: require_turn_def open_turn_phase)

lemma turn_state_declared [simp]:
  "pj_boundary p = InStep s \<Longrightarrow> turn_state_of (set_declared p s d) = turn_state_of p"
  by (simp add: turn_state_of_def set_declared_def)

lemma turn_state_update [simp]:
  "turn_state_of (p\<lparr>pj_header := h\<rparr>) = turn_state_of p" "turn_state_of (p\<lparr>pj_header_seq := q\<rparr>) = turn_state_of p"
  "turn_state_of (p\<lparr>pj_context := c\<rparr>) = turn_state_of p" "turn_state_of (p\<lparr>pj_context_seq := q\<rparr>) = turn_state_of p"
  by (simp_all add: turn_state_of_def)

lemma turn_state_pending [simp]: "turn_state_of (set_pending p f) = turn_state_of p"
  by (simp add: turn_state_of_def set_pending_def split: boundary_state.split)

lemma calls_turns:
  "register_durable_declarations p m = Inr p' \<Longrightarrow> turn_state_of p' = turn_state_of p"
  "promote_durable_call p seq i n a = Inr p' \<Longrightarrow> turn_state_of p' = turn_state_of p"
  "ask_durable_approval p asked = Inr p' \<Longrightarrow> turn_state_of p' = turn_state_of p"
  "decide_durable_approval p decided = Inr p' \<Longrightarrow> turn_state_of p' = turn_state_of p"
  "resolve_durable_call p e m f adm = Inr p' \<Longrightarrow> turn_state_of p' = turn_state_of p"
  unfolding register_durable_declarations_def promote_durable_call_def ask_durable_approval_def
    decide_durable_approval_def resolve_durable_call_def
  by (auto elim!: result_elims split: boundary_state.split_asm option.split_asm list.split_asm)

lemma tool_call_turns:
  "apply_tool_call p seq i n a = Inr p' \<Longrightarrow> turn_state_of p' = turn_state_of p"
  by (auto simp: apply_tool_call_def dest: calls_turns elim!: bindR_InrE)

lemma retry_turns:
  "apply_retry p r = Inr p' \<Longrightarrow> turn_state_of p' = turn_state_of p
     \<and> turn_phase_of (pj_boundary p) = StepOpen (lr_turn r) (lr_step r)"
  "apply_retry_started p st = Inr p' \<Longrightarrow> turn_state_of p' = turn_state_of p"
  unfolding apply_retry_def apply_retry_started_def Let_def
  by (auto elim!: result_elims split: option.split_asm simp: turn_state_of_def require_open_step_phase)

lemma tool_result_turns:
  "apply_tool_result p e t s m f adm = Inr p' \<Longrightarrow> turn_state_of p' = turn_state_of p
     \<and> (if is_replace e then turn_phase_of (pj_boundary p) \<noteq> NoTurn
        else turn_phase_of (pj_boundary p) = StepOpen t s)"
  unfolding apply_tool_result_def
  by (auto elim!: result_elims split: boundary_state.split_asm option.split_asm
      simp: open_turn_phase[symmetric] require_open_step_phase dest!: calls_turns(5))

lemma approval_turns:
  "apply_approval_asked p a = Inr p' \<Longrightarrow> turn_state_of p' = turn_state_of p
     \<and> turn_phase_of (pj_boundary p) \<noteq> NoTurn"
  "apply_approval_decided p d = Inr p' \<Longrightarrow> turn_state_of p' = turn_state_of p
     \<and> turn_phase_of (pj_boundary p) \<noteq> NoTurn"
  unfolding apply_approval_asked_def apply_approval_decided_def
  by (auto elim!: result_elims split: option.split_asm simp: require_turn_phase dest!: calls_turns)
    (simp_all add: turn_state_of_def)

lemma boundary_turns:
  "apply_turn_start p t = Inr p' \<Longrightarrow>
     turn_state_of p = (t, NoTurn) \<and> turn_state_of p' = (t, TurnOpen t 1)"
  "apply_turn_end p t = Inr p' \<Longrightarrow>
     (\<exists>k. turn_phase_of (pj_boundary p) = TurnOpen t k) \<and> turn_state_of p' = (Suc t, NoTurn)"
  "apply_step_start p t s = Inr p' \<Longrightarrow>
     turn_phase_of (pj_boundary p) = TurnOpen t s \<and> turn_state_of p' = (pj_next_turn p, StepOpen t s)"
  "apply_step_end p t s = Inr p' \<Longrightarrow>
     turn_phase_of (pj_boundary p) = StepOpen t s \<and> turn_state_of p' = (pj_next_turn p, TurnOpen t (Suc s))"
  unfolding apply_turn_start_def apply_turn_end_def apply_step_start_def apply_step_end_def
  by (auto elim!: result_elims split: boundary_state.split_asm option.split_asm list.split_asm
      simp: turn_state_of_def open_turn_def first_id_def require_open_step_phase ok_or_map_err_iff successor_Some)

lemma kind_turns:
  assumes "apply_kind p e adm = Inr p'"
  shows "turn_step (turn_state_of p) e = Some (turn_state_of p')"
proof -
  have st: "turn_state_of p = (pj_next_turn p, turn_phase_of (pj_boundary p))"
    "turn_state_of p' = (pj_next_turn p', turn_phase_of (pj_boundary p'))" by (simp_all add: turn_state_of_def)
  show ?thesis
    using assms unfolding apply_kind_def Let_def
    by (cases "ev_kind e")
      (auto elim!: bindR_InrE dest!: boundary_turns tool_result_turns approval_turns retry_turns
        dest: calls_turns tool_call_turns simp: st stay_def require_open_step_phase require_turn_phase)
qed

text \<open>Nothing but a transition moves the automaton.\<close>

lemma turn_state_frames:
  "erase_attempt p' = erase_attempt p \<Longrightarrow> turn_state_of p' = turn_state_of p"
  "apply_surface E p e b = Inr p' \<Longrightarrow> turn_state_of p' = turn_state_of p"
  "bind_tool_result_row p seq row = Some p' \<Longrightarrow> turn_state_of p' = turn_state_of p"
  "turn_state_of (p\<lparr>pj_compaction := c\<rparr>) = turn_state_of p"
  by (auto simp: turn_state_of_def bind_tool_result_row_def dest: erase_attempt_fields erase_surface_fields[OF surface_frame]
      split: option.split_asm tool_result_origin.split_asm)

lemma bound_turns: "bound q p' \<Longrightarrow> turn_state_of p' = turn_state_of q"
  unfolding bound_def by (auto dest: turn_state_frames(3))

lemma effect_turns:
  assumes "event_effect E p e adm q"
  shows "turn_step (turn_state_of p) e = Some (turn_state_of q)"
proof -
  from assms obtain p1 p2 p3 p4 b c where
    p1: "erase_attempt p1 = erase_attempt p" and p2: "apply_transition p1 e adm = Inr p2"
    and p3: "erase_attempt p3 = erase_attempt p2" and p4: "apply_surface E p3 e b = Inr p4"
    and q: "q = p4\<lparr>pj_compaction := c\<rparr>"
    unfolding event_effect_def by blast
  have k: "apply_kind p1 e adm = Inr p2" using p2 by (auto simp: apply_transition_def elim!: bindR_InrE)
  show ?thesis
    using kind_turns[OF k] turn_state_frames(1)[OF p1] turn_state_frames(1)[OF p3] turn_state_frames(2)[OF p4]
    by (simp add: q turn_state_frames(4))
qed

lemma silent_turns:
  assumes "projection_step E p None p'"
  shows "turn_state_of p' = turn_state_of p"
  using silent_effect[OF assms]
proof (elim disjE exE)
  fix rows assume "bind_recovery_tool_result_rows p rows = Some p'"
  then show ?thesis by (rule bind_rows_induct) (auto dest: turn_state_frames(3))
qed (rule turn_state_frames(1))

lemma run_turns:
  assumes "projection_run E p0 es p"
  shows "turn_run turn_initial es = Some (turn_state_of p)"
  using assms
proof induction
  case (empty policy)
  show ?case by (simp add: turn_initial_def turn_state_of_def projection_empty_def first_id_def)
next
  case (session policy sid)
  show ?case by (simp add: turn_initial_def turn_state_of_def for_session_def projection_empty_def first_id_def)
next
  case (silent p0 es p p')
  then show ?case by (simp add: silent_turns)
next
  case (event p0 es p e p')
  obtain adm q where "event_effect E p e adm q" "bound q p'" using step_effect[OF event.hyps(2)] .
  then have "turn_step (turn_state_of p) e = Some (turn_state_of p')" by (simp add: bound_turns effect_turns)
  with event.IH show ?case by (simp add: turn_run_snoc)
qed

text \<open>
  C15: The turn and step boundaries refine the counting automaton.  Whatever events a session has
  accepted, live, scanned or recovered, the automaton accepts them too and ends in the state that
  abstracts the projection.
\<close>

theorem turns_refine_automaton:
  assumes "projection_run E p0 es p"
  shows "turn_run turn_initial es = Some (turn_state_of p)"
  using assms by (rule run_turns)

section \<open>What the automaton counts\<close>

definition turn_numbers :: "session_event list \<Rightarrow> nat list" where
  "turn_numbers es = List.map_filter (\<lambda>e. case ev_kind e of TurnStart t \<Rightarrow> Some t | _ \<Rightarrow> None) es"

definition step_numbers :: "nat \<Rightarrow> session_event list \<Rightarrow> nat list" where
  "step_numbers t es = List.map_filter
     (\<lambda>e. case ev_kind e of StepStart t' s \<Rightarrow> if t' = t then Some s else None | _ \<Rightarrow> None) es"

text \<open>How many turns, and how many steps of a turn, the automaton has started.\<close>

fun turns_started :: "turn_state \<Rightarrow> nat" where
  "turns_started (n, ph) = (if ph = NoTurn then n - 1 else n)"

definition counts :: "session_event list \<Rightarrow> turn_state \<Rightarrow> bool" where
  "counts es st =
     (turn_numbers es = [1..<Suc (turns_started st)] \<and> 1 \<le> fst st
      \<and> (\<forall>t. \<exists>k. step_numbers t es = [1..<Suc k])
      \<and> (\<forall>t > turns_started st. step_numbers t es = [])
      \<and> (case snd st of
           NoTurn \<Rightarrow> True
         | TurnOpen t s \<Rightarrow> t = fst st \<and> 1 \<le> s \<and> step_numbers t es = [1..<s]
         | StepOpen t s \<Rightarrow> t = fst st \<and> 1 \<le> s \<and> step_numbers t es = [1..<Suc s]))"


lemma numbers_snoc:
  "turn_numbers (es @ [e]) = turn_numbers es @ (case ev_kind e of TurnStart t \<Rightarrow> [t] | _ \<Rightarrow> [])"
  "step_numbers t (es @ [e]) = step_numbers t es
     @ (case ev_kind e of StepStart t' s \<Rightarrow> if t' = t then [s] else [] | _ \<Rightarrow> [])"
  by (simp_all add: turn_numbers_def step_numbers_def List.map_filter_def split: event_kind.split)

lemma counts_step:
  assumes c: "counts es st" and s: "turn_step st e = Some st'"
  shows "counts (es @ [e]) st'"
proof -
  obtain n ph where st: "st = (n, ph)" by (cases st)
  have other: "counts (es @ [e]) st'"
    if "\<forall>t. ev_kind e \<noteq> TurnStart t" "\<forall>t s. ev_kind e \<noteq> StepStart t s" "st' = st"
  proof -
    have "turn_numbers (es @ [e]) = turn_numbers es" "\<And>t. step_numbers t (es @ [e]) = step_numbers t es"
      using that by (cases "ev_kind e"; simp add: numbers_snoc)+
    then show ?thesis using c that(3) by (cases "snd st") (simp_all add: counts_def del: upt_Suc)
  qed
  show ?thesis
  proof (cases "ev_kind e")
    case (TurnStart t)
    with s st have t: "ph = NoTurn" "t = n" "st' = (n, TurnOpen n 1)" by (auto split: if_splits)
    then show ?thesis using c TurnStart unfolding st counts_def
      by (auto simp: numbers_snoc upt_Suc_append[symmetric] simp del: upt_Suc split: if_splits)
  next
    case (TurnEnd t r)
    with s st obtain k where t: "ph = TurnOpen t k" "st' = (Suc t, NoTurn)"
      by (auto split: if_splits turn_phase.splits)
    then show ?thesis using c TurnEnd unfolding st counts_def by (auto simp: numbers_snoc)
  next
    case (StepStart t k)
    with s st have t: "ph = TurnOpen t k" "st' = (n, StepOpen t k)" by (auto split: if_splits)
    then have k: "t = n" "1 \<le> k" "step_numbers n es = [1..<k]" using c unfolding st counts_def by auto
    have "\<exists>j. step_numbers x (es @ [e]) = [1..<Suc j]" for x
    proof (cases "x = n")
      case True
      then show ?thesis using StepStart k t by (auto simp: numbers_snoc intro!: exI[of _ k])
    next
      case False
      then show ?thesis using c StepStart k by (auto simp: numbers_snoc counts_def)
    qed
    then show ?thesis using c StepStart t k unfolding st counts_def by (auto simp: numbers_snoc)
  next
    case (StepEnd t k)
    with s st have t: "ph = StepOpen t k" "st' = (n, TurnOpen t (Suc k))" by (auto split: if_splits)
    then show ?thesis using c StepEnd unfolding st counts_def by (auto simp: numbers_snoc)
  qed (use other s st in \<open>auto simp: stay_def split: if_splits\<close>)
qed

lemma counts_run:
  assumes "turn_run turn_initial es = Some st"
  shows "counts es st"
  using assms
proof (induction es arbitrary: st rule: rev_induct)
  case Nil
  have "\<exists>k. [] = [1..<Suc k]" by (rule exI[of _ 0]) simp
  with Nil show ?case by (auto simp: counts_def turn_initial_def turn_numbers_def step_numbers_def List.map_filter_def)
next
  case (snoc e es)
  then obtain st0 where "turn_run turn_initial es = Some st0" "turn_step st0 e = Some st"
    by (auto simp: turn_run_snoc bind_eq_Some_conv)
  then show ?case using counts_step snoc.IH by blast
qed

text \<open>
  C26: The numbering of a session has no gap and no repeat.  The turns an accepted history starts
  are 1, 2, 3 and so on, and the steps it starts inside each turn are 1, 2, 3 and so on.
\<close>

theorem turns_and_steps_consecutive:
  assumes "projection_run E p0 es p"
  shows "(\<exists>n. turn_numbers es = [1..<Suc n]) \<and> (\<forall>t. \<exists>k. step_numbers t es = [1..<Suc k])"
  using counts_run[OF run_turns[OF assms]] unfolding counts_def by blast

end
