(* ===== verification/Session_Example.thy ===== *)
theory Session_Example
  imports Projection_Turns "HOL-Library.Code_Target_Numeral"
begin

text \<open>
  A short session: a turn with a user message and one step.  The witnesses of the properties of
  runs are evaluated on it.
\<close>

fun apply_events :: "externals \<Rightarrow> projection \<Rightarrow> session_event list \<Rightarrow> event_error + projection" where
  "apply_events E p [] = Inr p"
| "apply_events E p (e # es) = bindR (with_event E p e) (\<lambda>p. apply_events E p es)"

lemma apply_events_run:
  assumes "apply_events E p es = Inr p'" "projection_run E p0 es0 p"
  shows "projection_run E p0 (es0 @ es) p'"
  using assms
proof (induction es arbitrary: p es0)
  case (Cons e es)
  then obtain q where q: "with_event E p e = Inr q" "apply_events E q es = Inr p'" by (auto elim: bindR_InrE)
  then have "projection_run E p0 (es0 @ [e]) q"
    using Cons.prems(2) by (blast intro: projection_run.event projection_step.memory)
  from Cons.IH[OF q(2) this] show ?case by simp
qed simp

definition example_event :: "nat \<Rightarrow> event_kind \<Rightarrow> surface_op option \<Rightarrow> session_event" where
  "example_event seq k op =
     \<lparr>ev_seq = seq, ev_time = 0, ev_kind = k, ev_surface_op = op, ev_source_event_seqs = None,
      ev_ignorable = False, ev_original_data = \<lparr>jv_value = JNull, jv_encoded_len = 4\<rparr>\<rparr>"

definition example_text :: content_block where
  "example_text = \<lparr>cb_kind = TextBlock ''hello'',
     cb_raw = \<lparr>jv_value = JObject [(''text'', JString ''hello''), (''type'', JString ''text'')],
               jv_encoded_len = 30\<rparr>\<rparr>"

definition example_message :: message where
  "example_message =
     \<lparr>msg_id = ''m1'', msg_role = User, msg_content = [example_text],
      msg_source = \<lparr>src_kind = UserSource,
                    src_raw = \<lparr>jv_value = JObject [(''kind'', JString ''user'')], jv_encoded_len = 15\<rparr>\<rparr>,
      msg_raw = \<lparr>jv_value = JNull, jv_encoded_len = 4\<rparr>, msg_surface_bytes = Some 64\<rparr>"

definition example_events :: "session_event list" where
  "example_events =
     [example_event 0 (TurnStart 1) None,
      example_event 1 (UserMessage example_message) (Some SurfaceAppend),
      example_event 2 (StepStart 1 1) None,
      example_event 3 (StepEnd 1 1) None,
      example_event 4 (TurnEnd 1 TurnCompleted) None,
      example_event 5 (TurnStart 2) None]"

definition example_session :: projection where
  "example_session = for_session DurableStrict ''s''"

lemma example_accepted: "is_ok (apply_events example_externals example_session example_events)"
  by code_simp

lemma session_example_run:
  obtains p where "apply_events example_externals example_session example_events = Inr p"
    "projection_run example_externals example_session example_events p"
proof -
  obtain p where p: "apply_events example_externals example_session example_events = Inr p"
    using example_accepted by (auto simp: is_ok_iff)
  show ?thesis
    using that[OF p] apply_events_run[OF p projection_run.session[of _ DurableStrict "''s''", folded example_session_def]]
    by (simp add: example_session_def)
qed

theorem surface_totals_exact_witness:
  "\<exists>p. apply_events example_externals example_session example_events = Inr p
     \<and> pj_surface_tokens p = sum_list (map sn_tokens (pj_surface p))
     \<and> pj_resident_bytes p = sum_list (map node_bytes (pj_surface p))"
proof -
  obtain p where p: "apply_events example_externals example_session example_events = Inr p"
    "projection_run example_externals example_session example_events p" using session_example_run .
  show ?thesis using p(1) surface_totals_exact[OF run_reachable[OF p(2)]] by blast
qed

theorem turns_refine_automaton_witness:
  "\<exists>p. apply_events example_externals example_session example_events = Inr p
     \<and> turn_run turn_initial example_events = Some (turn_state_of p)"
proof -
  obtain p where p: "apply_events example_externals example_session example_events = Inr p"
    "projection_run example_externals example_session example_events p" using session_example_run .
  show ?thesis using p(1) turns_refine_automaton[OF p(2)] by blast
qed

theorem turns_and_steps_consecutive_witness:
  "(\<exists>n. turn_numbers example_events = [1..<Suc n])
     \<and> (\<forall>t. \<exists>k. step_numbers t example_events = [1..<Suc k])"
proof -
  obtain p where "projection_run example_externals example_session example_events p" using session_example_run .
  then show ?thesis by (rule turns_and_steps_consecutive)
qed

end
