(* ===== verification/Call_Bookkeeping.thy ===== *)
theory Call_Bookkeeping
  imports Session_Example
begin

text \<open>
  The books a durable session keeps of its tool calls: what the step has declared, what is
  running, and which approval is awaited always agree.
\<close>

section \<open>The invariant of a step\<close>

definition running :: "durable_call \<Rightarrow> bool" where
  "running c = (dc_intent_seq c \<noteq> None \<and> \<not> dc_result_seen c)"

definition waiting_id :: "durable_call \<Rightarrow> string option" where
  "waiting_id c = (case dc_approval c of Some (ApprovalPending i) \<Rightarrow> Some i | _ \<Rightarrow> None)"

text \<open>Calls start in the order of their declaration: a prefix is started or answered, the rest not started.\<close>

definition in_order :: "durable_call list \<Rightarrow> bool" where
  "in_order ds = (\<exists>us vs. ds = us @ vs \<and> (\<forall>c\<in>set us. \<not> is_next_call c) \<and> (\<forall>c\<in>set vs. dc_intent_seq c = None))"

definition calls_ok :: "durable_call list \<Rightarrow> string list \<Rightarrow> string list \<Rightarrow> bool" where
  "calls_ok ds pending approvals =
     (distinct (map dc_id ds) \<and> length ds \<le> MAX_DURABLE_TOOL_CALLS_PER_STEP \<and> in_order ds
      \<and> pending = map dc_id (filter running ds)
      \<and> approvals = List.map_filter waiting_id ds
      \<and> (\<forall>c\<in>set ds. waiting_id c \<noteq> None \<longrightarrow> running c)
      \<and> length approvals \<le> 1)"

lemma calls_ok_empty: "calls_ok [] [] []"
  by (simp add: calls_ok_def in_order_def List.map_filter_def)

lemma register_ok:
  "register_blocks m k bs ds = Inr ds' \<Longrightarrow> calls_ok ds ps as \<Longrightarrow> calls_ok ds' ps as"
proof (induction bs arbitrary: k ds)
  case (Cons b bs)
  show ?case
  proof (cases "\<exists>i n a. cb_kind b = ToolCallBlock i n a")
    case True
    then obtain i n a where b: "cb_kind b = ToolCallBlock i n a" by blast
    let ?c = "\<lparr>dc_id = i, dc_name = n, dc_declaration = m, dc_block_index = k, dc_intent_seq = None,
                dc_approval = None, dc_result_seen = False\<rparr>"
    from Cons.prems(1) b have r: "length ds < MAX_DURABLE_TOOL_CALLS_PER_STEP" "\<forall>c\<in>set ds. dc_id c \<noteq> i"
      "register_blocks m (Suc k) bs (ds @ [?c]) = Inr ds'"
      by (auto elim!: result_elims)
    obtain us vs where uv: "ds = us @ vs" "\<forall>c\<in>set us. \<not> is_next_call c" "\<forall>c\<in>set vs. dc_intent_seq c = None"
      using Cons.prems(2) by (auto simp: calls_ok_def in_order_def)
    have "in_order (ds @ [?c])"
      unfolding in_order_def by (rule exI[of _ us], rule exI[of _ "vs @ [?c]"]) (use uv in auto)
    then have "calls_ok (ds @ [?c]) ps as"
      using Cons.prems(2) r(1,2)
      by (auto simp: calls_ok_def map_filter_Cons waiting_id_def running_def List.map_filter_simps)
    then show ?thesis by (rule Cons.IH[OF r(3)])
  next
    case False
    then have "register_blocks m (Suc k) bs ds = Inr ds'"
      using Cons.prems(1) by (auto split: content_block_kind.split_asm)
    then show ?thesis using Cons.prems(2) by (rule Cons.IH)
  qed
qed simp

lemma in_order_split:
  assumes "in_order (us @ c # vs)" "\<forall>x\<in>set us. \<not> is_next_call x" "is_next_call c"
  shows "\<forall>x\<in>set vs. dc_intent_seq x = None"
proof -
  obtain as bs where ab: "us @ c # vs = as @ bs" "\<forall>x\<in>set as. \<not> is_next_call x" "\<forall>x\<in>set bs. dc_intent_seq x = None"
    using assms(1) by (auto simp: in_order_def)
  have "c \<notin> set as" using ab(2) assms(3) by blast
  then obtain ds where "as @ ds = us" "bs = ds @ c # vs"
    using ab(1) by (auto simp: append_eq_append_conv2 append_eq_Cons_conv Cons_eq_append_conv)
  then show ?thesis using ab(3) by simp
qed

lemma promote_ok:
  assumes ok: "calls_ok ds ps as" and f: "find is_next_call ds = Some c"
  shows "calls_ok (update_first is_next_call (\<lambda>c. c\<lparr>dc_intent_seq := Some q\<rparr>) ds) (ps @ [dc_id c]) as
    \<and> dc_id c \<notin> set ps"
proof -
  let ?c = "c\<lparr>dc_intent_seq := Some q\<rparr>"
  obtain us vs where uv: "ds = us @ c # vs" "\<forall>x\<in>set us. \<not> is_next_call x" "is_next_call c"
    using find_split_list[OF f] by blast
  have vs: "\<forall>x\<in>set vs. dc_intent_seq x = None"
    using in_order_split[OF _ uv(2,3)] ok uv(1) by (auto simp: calls_ok_def)
  have upd: "update_first is_next_call (\<lambda>c. c\<lparr>dc_intent_seq := Some q\<rparr>) ds = us @ ?c # vs"
    unfolding uv(1) by (rule update_first_split) (use uv in auto)
  have "in_order (us @ ?c # vs)"
    unfolding in_order_def by (rule exI[of _ "us @ [?c]"], rule exI[of _ vs]) (use uv(2) vs in \<open>auto simp: is_next_call_def\<close>)
  moreover have "filter running vs = []" using vs by (auto simp: filter_empty_conv running_def)
  moreover have "waiting_id ?c = waiting_id c" by (simp add: waiting_id_def)
  moreover have "\<not> running c" "running ?c" using uv(3) by (auto simp: is_next_call_def running_def)
  ultimately show ?thesis
    using ok[unfolded uv(1)] unfolding upd by (auto simp: calls_ok_def map_filter_Cons)
qed

text \<open>Rewriting one call in place, when what the books read of the others is unchanged.\<close>

lemma in_order_update:
  assumes "in_order (us @ c # vs)" "dc_intent_seq c' = dc_intent_seq c"
    "is_next_call c' \<longrightarrow> is_next_call c"
  shows "in_order (us @ c' # vs)"
proof -
  obtain as bs where ab: "us @ c # vs = as @ bs" "\<forall>x\<in>set as. \<not> is_next_call x" "\<forall>x\<in>set bs. dc_intent_seq x = None"
    using assms(1) by (auto simp: in_order_def)
  show ?thesis
  proof (cases "length as \<le> length us")
    case True
    then obtain ds where "us = as @ ds" "bs = ds @ c # vs"
      using ab(1) by (auto simp: append_eq_append_conv2)
    then show ?thesis using ab assms(2)
      unfolding in_order_def by (intro exI[of _ as] exI[of _ "ds @ c' # vs"]) auto
  next
    case False
    then obtain ds where "as = us @ c # ds" "vs = ds @ bs"
      using ab(1) by (auto simp: append_eq_append_conv2 Cons_eq_append_conv)
    then show ?thesis using ab assms(3)
      unfolding in_order_def by (intro exI[of _ "us @ c' # ds"] exI[of _ bs]) auto
  qed
qed

lemma ask_ok:
  assumes ok: "calls_ok ds ps []" and f: "find (is_running_call i) ds = Some c" and "dc_approval c = None"
  shows "calls_ok (update_first (is_running_call i) (\<lambda>c. c\<lparr>dc_approval := Some (ApprovalPending a)\<rparr>) ds) ps [a]"
proof -
  let ?c = "c\<lparr>dc_approval := Some (ApprovalPending a)\<rparr>"
  obtain us vs where uv: "ds = us @ c # vs" "\<forall>x\<in>set us. \<not> is_running_call i x" "is_running_call i c"
    using find_split_list[OF f] by blast
  have upd: "update_first (is_running_call i) (\<lambda>c. c\<lparr>dc_approval := Some (ApprovalPending a)\<rparr>) ds = us @ ?c # vs"
    unfolding uv(1) by (rule update_first_split) (use uv in auto)
  have none: "List.map_filter waiting_id us = []" "List.map_filter waiting_id vs = []"
    using ok unfolding uv(1) calls_ok_def by (auto simp: map_filter_Cons split: option.splits)
  have "in_order (us @ ?c # vs)"
    by (rule in_order_update[of us c vs]) (use ok uv(1) in \<open>auto simp: calls_ok_def is_next_call_def\<close>)
  moreover have "running ?c" "running c" using uv(3) by (simp_all add: is_running_call_def running_def)
  moreover have "waiting_id ?c = Some a" by (simp add: waiting_id_def)
  ultimately show ?thesis
    using ok[unfolded uv(1)] none unfolding upd by (auto simp: calls_ok_def map_filter_Cons)
qed

lemma decide_ok:
  assumes ok: "calls_ok ds ps as" and f: "find (awaits_decision i) ds = Some c"
  shows "as = [i] \<and> calls_ok (update_first (awaits_decision i) (\<lambda>c. c\<lparr>dc_approval := Some (ApprovalDone i r)\<rparr>) ds) ps []"
proof -
  let ?c = "c\<lparr>dc_approval := Some (ApprovalDone i r)\<rparr>"
  obtain us vs where uv: "ds = us @ c # vs" "\<forall>x\<in>set us. \<not> awaits_decision i x" "awaits_decision i c"
    using find_split_list[OF f] by blast
  have upd: "update_first (awaits_decision i) (\<lambda>c. c\<lparr>dc_approval := Some (ApprovalDone i r)\<rparr>) ds = us @ ?c # vs"
    unfolding uv(1) by (rule update_first_split) (use uv in auto)
  have w: "waiting_id c = Some i" using uv(3) by (simp add: awaits_decision_def waiting_id_def)
  have as: "as = List.map_filter waiting_id us @ i # List.map_filter waiting_id vs" "length as \<le> 1"
    using ok w unfolding uv(1) calls_ok_def by (auto simp: map_filter_Cons)
  then have none: "List.map_filter waiting_id us = []" "List.map_filter waiting_id vs = []" by auto
  have "in_order (us @ ?c # vs)"
    by (rule in_order_update[of us c vs]) (use ok uv(1) in \<open>auto simp: calls_ok_def is_next_call_def\<close>)
  moreover have "running c" using ok w unfolding uv(1) calls_ok_def by auto
  moreover have "running ?c = running c" by (simp add: running_def)
  moreover have "waiting_id ?c = None" by (simp add: waiting_id_def)
  ultimately have "calls_ok (us @ ?c # vs) ps []"
    using ok[unfolded uv(1)] none by (auto simp: calls_ok_def map_filter_Cons)
  then show ?thesis using as(1) none unfolding upd by simp
qed

lemma resolve_ok:
  assumes ok: "calls_ok ds ps as" and f: "find (\<lambda>c. dc_id c = i) ds = Some c"
    and c: "\<not> dc_result_seen c" "waiting_id c = None"
  shows "if dc_intent_seq c = None
    then i \<notin> set ps \<and> calls_ok (update_first (\<lambda>c. dc_id c = i) (\<lambda>c. c\<lparr>dc_result_seen := True\<rparr>) ds) ps as
    else (\<exists>k. position (\<lambda>x. x = i) ps = Some k
      \<and> calls_ok (update_first (\<lambda>c. dc_id c = i) (\<lambda>c. c\<lparr>dc_result_seen := True\<rparr>) ds) (remove_at k ps) as)"
proof -
  let ?c = "c\<lparr>dc_result_seen := True\<rparr>"
  obtain us vs where uv: "ds = us @ c # vs" "\<forall>x\<in>set us. dc_id x \<noteq> i" "dc_id c = i"
    using find_split_list[OF f] by blast
  have upd: "update_first (\<lambda>c. dc_id c = i) (\<lambda>c. c\<lparr>dc_result_seen := True\<rparr>) ds = us @ ?c # vs"
    unfolding uv(1) by (rule update_first_split) (use uv in auto)
  have ord: "in_order (us @ ?c # vs)"
    by (rule in_order_update[of us c vs]) (use ok uv(1) in \<open>auto simp: calls_ok_def is_next_call_def\<close>)
  have nr: "\<not> running ?c" "waiting_id ?c = None" using c(2) by (simp_all add: running_def waiting_id_def)
  have books: "calls_ok (us @ ?c # vs) (map dc_id (filter running (us @ vs))) as"
    using ok ord nr c(2) unfolding uv(1) by (auto simp: calls_ok_def map_filter_Cons)
  show ?thesis
  proof (cases "dc_intent_seq c = None")
    case True
    then have "\<not> running c" by (simp add: running_def)
    then have ps: "ps = map dc_id (filter running (us @ vs))" using ok unfolding uv(1) calls_ok_def by simp
    have "distinct (map dc_id (us @ c # vs))" using ok unfolding uv(1) calls_ok_def by simp
    then have "i \<notin> set ps" unfolding ps using uv(3) by auto
    then show ?thesis using True books unfolding upd ps by simp
  next
    case False
    then have "running c" using c(1) by (simp add: running_def)
    then have ps: "ps = map dc_id (filter running us) @ i # map dc_id (filter running vs)"
      using ok uv(3) unfolding uv(1) calls_ok_def by simp
    have "position (\<lambda>x. x = i) ps = Some (length (map dc_id (filter running us)))"
      unfolding ps by (rule position_nth) (use uv(2) in \<open>auto simp: nth_append dest!: nth_mem\<close>)
    moreover have "remove_at (length (map dc_id (filter running us))) ps = map dc_id (filter running (us @ vs))"
      unfolding ps by (simp only: remove_at_append filter_append map_append)
    ultimately have "position (\<lambda>x. x = i) ps = Some (length (map dc_id (filter running us)))
      \<and> calls_ok (us @ ?c # vs) (remove_at (length (map dc_id (filter running us))) ps) as" using books by simp
    then show ?thesis using False unfolding upd by auto
  qed
qed

section \<open>The invariant of a projection\<close>

fun books :: "boundary_state \<Rightarrow> string list \<Rightarrow> bool" where
  "books (InStep s) approvals = calls_ok (os_declared s) (os_pending s) approvals"
| "books (InTurn _ _) approvals = (approvals = [])"
| "books Idle approvals = (approvals = [])"

definition books_ok :: "projection \<Rightarrow> bool" where
  "books_ok p = books (pj_boundary p) (pj_pending_approvals p)"

lemma books_ok_update [simp]:
  "books_ok (p\<lparr>pj_header := h\<rparr>) = books_ok p" "books_ok (p\<lparr>pj_header_seq := q\<rparr>) = books_ok p"
  "books_ok (p\<lparr>pj_context := c\<rparr>) = books_ok p" "books_ok (p\<lparr>pj_context_seq := q\<rparr>) = books_ok p"
  "books_ok (p\<lparr>pj_retry_chains := rc\<rparr>) = books_ok p" "books_ok (p\<lparr>pj_retry_schedules := rs\<rparr>) = books_ok p"
  "books_ok (p\<lparr>pj_session_id := i\<rparr>) = books_ok p" "books_ok (p\<lparr>pj_compaction := k\<rparr>) = books_ok p"
  by (simp_all add: books_ok_def)

lemma books_ok_cong:
  "pj_boundary p' = pj_boundary p \<Longrightarrow> pj_pending_approvals p' = pj_pending_approvals p \<Longrightarrow> books_ok p' = books_ok p"
  by (simp add: books_ok_def)

lemma books_ok_declared:
  assumes "pj_boundary p = InStep s" "books_ok p"
    "calls_ok (os_declared s) (os_pending s) (pj_pending_approvals p)
       \<Longrightarrow> calls_ok d (os_pending s) (pj_pending_approvals p)"
  shows "books_ok (set_declared p s d)"
  using assms by (simp add: books_ok_def set_declared_def)

lemma register_books:
  assumes "register_durable_declarations p m = Inr p'" "books_ok p"
  shows "books_ok p'"
  using assms unfolding register_durable_declarations_def
  by (auto elim!: result_elims split: boundary_state.split_asm intro: books_ok_declared register_ok)

lemma tool_call_books:
  assumes a: "apply_tool_call p seq i n a = Inr p'" and strict: "pj_policy p = DurableStrict" and ok: "books_ok p"
  shows "books_ok p'"
proof (cases "pj_boundary p")
  case (InStep s)
  from a obtain q where q: "promote_durable_call p seq i n a = Inr q"
    and p': "p' = set_pending q (\<lambda>ps. if i \<in> set ps then ps else ps @ [i])"
    by (auto simp: apply_tool_call_def elim!: bindR_InrE)
  from q strict InStep obtain c where c: "find is_next_call (os_declared s) = Some c" "dc_id c = i"
    "q = set_declared p s (update_first is_next_call (\<lambda>c. c\<lparr>dc_intent_seq := Some seq\<rparr>) (os_declared s))"
    by (auto simp: promote_durable_call_def elim!: result_elims split: option.split_asm)
  have ok': "calls_ok (os_declared s) (os_pending s) (pj_pending_approvals p)" using ok InStep by (simp add: books_ok_def)
  from promote_ok[OF ok' c(1), of seq] show ?thesis
    by (simp add: p' c(2,3) books_ok_def set_pending_def set_declared_def)
next
  case Idle
  with a ok show ?thesis
    by (auto simp: apply_tool_call_def promote_durable_call_def set_pending_def elim!: result_elims)
next
  case InTurn
  with a ok show ?thesis
    by (auto simp: apply_tool_call_def promote_durable_call_def set_pending_def elim!: result_elims)
qed

lemma resolve_shape:
  assumes r: "resolve_durable_call p e m f adm = Inr q" and strict: "pj_policy p = DurableStrict"
  obtains i s c where "validate_tool_result m = Inr i" "pj_boundary p = InStep s"
    "find (\<lambda>c. dc_id c = i) (os_declared s) = Some c" "\<not> dc_result_seen c" "waiting_id c = None"
    "require_result_intent c i e m f adm = Inr ()"
    "q = set_declared p s (update_first (\<lambda>c. dc_id c = i) (\<lambda>c. c\<lparr>dc_result_seen := True\<rparr>) (os_declared s))"
  using assms unfolding resolve_durable_call_def
  by (auto elim!: result_elims simp: ok_or_map_err_iff waiting_id_def
      split: boundary_state.split_asm option.split_asm durable_approval.split_asm)

lemma tool_result_books:
  assumes a: "apply_tool_result p e t st m f adm = Inr p'" and strict: "pj_policy p = DurableStrict"
    and ok: "books_ok p" and new: "\<not> is_replace e"
  shows "books_ok p'"
proof -
  from a new obtain q where q: "resolve_durable_call p e m f adm = Inr q"
    by (auto simp: apply_tool_result_def elim!: result_elims)
  obtain i s c where r: "validate_tool_result m = Inr i" "pj_boundary p = InStep s"
    "find (\<lambda>c. dc_id c = i) (os_declared s) = Some c" "\<not> dc_result_seen c" "waiting_id c = None"
    "q = set_declared p s (update_first (\<lambda>c. dc_id c = i) (\<lambda>c. c\<lparr>dc_result_seen := True\<rparr>) (os_declared s))"
    by (rule resolve_shape[OF q strict])
  let ?ds = "update_first (\<lambda>c. dc_id c = i) (\<lambda>c. c\<lparr>dc_result_seen := True\<rparr>) (os_declared s)"
  have q': "pj_boundary q = InStep (s\<lparr>os_declared := ?ds\<rparr>)" "pj_pending_approvals q = pj_pending_approvals p"
    by (simp_all add: r(6) set_declared_def)
  have ok': "calls_ok (os_declared s) (os_pending s) (pj_pending_approvals p)" using ok r(2) by (simp add: books_ok_def)
  note step = resolve_ok[OF ok' r(3,4,5)]
  have "(position (\<lambda>x. x = i) (os_pending s) = None \<and> p' = q)
     \<or> (\<exists>k. position (\<lambda>x. x = i) (os_pending s) = Some k \<and> p' = set_pending q (remove_at k))"
    using a new q r(1) q' by (auto simp: apply_tool_result_def elim!: result_elims split: option.split_asm)
  moreover have "position (\<lambda>x. x = i) (os_pending s) = None" if "dc_intent_seq c = None"
    using step that by (auto simp: position_None_iff)
  ultimately show ?thesis
    using step q' by (cases "dc_intent_seq c") (auto simp: books_ok_def set_pending_def)
qed

lemma asked_books:
  assumes a: "apply_approval_asked p asked = Inr p'" and strict: "pj_policy p = DurableStrict" and ok: "books_ok p"
  shows "books_ok p'"
proof -
  from a obtain q where q: "ask_durable_approval p asked = Inr q"
    and p': "p' = q\<lparr>pj_owned_approvals := aa_id asked # pj_owned_approvals q,
                    pj_pending_approvals := pj_pending_approvals q @ [aa_id asked]\<rparr>"
    by (auto simp: apply_approval_asked_def elim!: result_elims)
  from q strict obtain s i c where c: "pj_boundary p = InStep s" "pj_pending_approvals p = []"
    "find (is_running_call i) (os_declared s) = Some c" "dc_approval c = None"
    "q = set_declared p s (update_first (is_running_call i)
           (\<lambda>c. c\<lparr>dc_approval := Some (ApprovalPending (aa_id asked))\<rparr>) (os_declared s))"
    by (auto simp: ask_durable_approval_def elim!: result_elims
        split: list.split_asm option.split_asm boundary_state.split_asm)
  have ok': "calls_ok (os_declared s) (os_pending s) []" using ok c(1,2) by (simp add: books_ok_def)
  from ask_ok[OF ok' c(3,4), of "aa_id asked"] show ?thesis
    by (simp add: p' c books_ok_def set_declared_def)
qed

lemma decided_books:
  assumes a: "apply_approval_decided p d = Inr p'" and strict: "pj_policy p = DurableStrict" and ok: "books_ok p"
  shows "books_ok p'"
proof -
  from a obtain k q where k: "position (\<lambda>i. i = ap_id d) (pj_pending_approvals p) = Some k"
    and q: "decide_durable_approval p d = Inr q"
    and p': "p' = q\<lparr>pj_pending_approvals := remove_at k (pj_pending_approvals q)\<rparr>"
    by (auto simp: apply_approval_decided_def elim!: result_elims split: option.split_asm)
  from q strict obtain s c where c: "pj_boundary p = InStep s" "find (awaits_decision (ap_id d)) (os_declared s) = Some c"
    "q = set_declared p s (update_first (awaits_decision (ap_id d))
           (\<lambda>c. c\<lparr>dc_approval := Some (ApprovalDone (ap_id d) (ap_outcome d))\<rparr>) (os_declared s))"
    by (auto simp: decide_durable_approval_def elim!: result_elims split: option.split_asm boundary_state.split_asm)
  have ok': "calls_ok (os_declared s) (os_pending s) (pj_pending_approvals p)" using ok c(1) by (simp add: books_ok_def)
  note step = decide_ok[OF ok' c(2), of "ap_outcome d"]
  then have "k = 0" "remove_at k (pj_pending_approvals p) = []" using k by (auto simp: remove_at_def)
  then show ?thesis using step by (simp add: p' c books_ok_def set_declared_def)
qed

lemma boundary_books:
  "apply_turn_start p t = Inr p' \<Longrightarrow> books_ok p \<Longrightarrow> books_ok p'"
  "apply_turn_end p t = Inr p' \<Longrightarrow> books_ok p \<Longrightarrow> books_ok p'"
  "apply_step_start p t s = Inr p' \<Longrightarrow> books_ok p \<Longrightarrow> books_ok p'"
  "apply_step_end p t s = Inr p' \<Longrightarrow> books_ok p \<Longrightarrow> books_ok p'"
  unfolding apply_turn_start_def apply_turn_end_def apply_step_start_def apply_step_end_def
  by (auto elim!: result_elims split: boundary_state.split_asm option.split_asm list.split_asm
      simp: books_ok_def open_turn_def calls_ok_empty)

lemma retry_books:
  "apply_retry p r = Inr p' \<Longrightarrow> books_ok p' = books_ok p"
  "apply_retry_started p st = Inr p' \<Longrightarrow> books_ok p' = books_ok p"
  unfolding apply_retry_def apply_retry_started_def Let_def
  by (auto elim!: result_elims split: option.split_asm)

lemma kind_books:
  assumes k: "apply_kind p e adm = Inr p'" and strict: "pj_policy p = DurableStrict" and ok: "books_ok p"
  shows "books_ok p'"
proof (cases "ev_kind e")
  case (ToolResult t s m f meta)
  with k have "apply_tool_result p e t s m f adm = Inr p'" by (simp add: apply_kind_def)
  then show ?thesis
  proof (cases "is_replace e")
    case True
    with \<open>apply_tool_result p e t s m f adm = Inr p'\<close> ok show ?thesis
      by (auto simp: apply_tool_result_def elim!: result_elims)
  qed (rule tool_result_books[OF _ strict ok])
next
  case (ToolCall t s i n a)
  then show ?thesis using k strict ok tool_call_books by (auto simp: apply_kind_def elim!: bindR_InrE)
next
  case (AssistantMessage t s m u)
  then show ?thesis using k ok register_books by (auto simp: apply_kind_def elim!: bindR_InrE)
next
  case (ApprovalAsked a)
  then show ?thesis using k strict ok asked_books by (auto simp: apply_kind_def)
next
  case (ApprovalDecided d)
  then show ?thesis using k strict ok decided_books by (auto simp: apply_kind_def)
next
  case (LlmRetry r)
  then show ?thesis using k ok retry_books by (auto simp: apply_kind_def)
next
  case (LlmRetryStarted st)
  then show ?thesis using k ok retry_books by (auto simp: apply_kind_def)
qed (use k ok boundary_books in \<open>auto simp: apply_kind_def elim!: bindR_InrE\<close>)

lemma frames_books:
  "erase_attempt p' = erase_attempt p \<Longrightarrow> books_ok p' = books_ok p"
  "apply_surface E p e b = Inr p' \<Longrightarrow> books_ok p' = books_ok p"
  "bind_tool_result_row p seq row = Some p' \<Longrightarrow> books_ok p' = books_ok p"
  by (auto intro!: books_ok_cong simp: bind_tool_result_row_def
      dest: erase_attempt_fields erase_surface_fields[OF surface_frame] split: option.split_asm tool_result_origin.split_asm)

lemma frames_policy:
  "apply_transition p e adm = Inr p' \<Longrightarrow> pj_policy p' = pj_policy p"
  "erase_attempt p' = erase_attempt p \<Longrightarrow> pj_policy p' = pj_policy p"
  "apply_surface E p e b = Inr p' \<Longrightarrow> pj_policy p' = pj_policy p"
  "bind_tool_result_row p seq row = Some p' \<Longrightarrow> pj_policy p' = pj_policy p"
  by (auto simp: bind_tool_result_row_def keeps_outside_def
      dest: transition_frame erase_attempt_fields erase_surface_fields[OF surface_frame]
      split: option.split_asm tool_result_origin.split_asm)

lemma reachable_books:
  assumes "projection_reachable E p"
  shows "pj_policy p = DurableStrict \<longrightarrow> books_ok p" (is "?I p")
  using assms
proof (rule reachable_induct)
  show "?I (projection_empty policy)" for policy by (simp add: books_ok_def projection_empty_def)
  show "?I (p\<lparr>pj_session_id := sid\<rparr>)" if "?I p" for p sid using that by simp
  show "?I p'" if "?I p" "admission_ok p e adm" "apply_transition p e adm = Inr p'" for p e adm p'
  proof -
    have "apply_kind p e adm = Inr p'" using that(3) by (auto simp: apply_transition_def elim!: bindR_InrE)
    then show ?thesis using that(1) kind_books frames_policy(1)[OF that(3)] by simp
  qed
  show "?I p'" if "?I p" "erase_attempt p' = erase_attempt p" for p p'
    using that(1) frames_books(1)[OF that(2)] frames_policy(2)[OF that(2)] by simp
  show "?I p'" if "?I p" "apply_surface E p e b = Inr p'" for p e b p'
    using that(1) frames_books(2)[OF that(2)] frames_policy(3)[OF that(2)] by simp
  show "?I (p\<lparr>pj_compaction := c\<rparr>)" if "?I p" for p c using that by simp
  show "?I p'" if "?I p" "bind_tool_result_row p seq row = Some p'" for p seq row p'
    using that(1) frames_books(3)[OF that(2)] frames_policy(4)[OF that(2)] by simp
qed

text \<open>
  C17: The books of a durable step agree.  In every reachable strict projection with an open step,
  the declared calls have distinct identifiers and are at most 64; they are started in the order
  of their declaration; the pending calls are exactly the started and unanswered ones, in that
  order; at most one approval is awaited, and it is that of a running call.
\<close>

theorem call_books_agree:
  assumes "projection_reachable E p" "pj_policy p = DurableStrict" "pj_boundary p = InStep s"
  shows "distinct (map dc_id (os_declared s)) \<and> length (os_declared s) \<le> 64
    \<and> (\<exists>us vs. os_declared s = us @ vs
        \<and> (\<forall>c\<in>set us. dc_intent_seq c \<noteq> None \<or> dc_result_seen c) \<and> (\<forall>c\<in>set vs. dc_intent_seq c = None))
    \<and> os_pending s = map dc_id (filter (\<lambda>c. dc_intent_seq c \<noteq> None \<and> \<not> dc_result_seen c) (os_declared s))
    \<and> (pj_pending_approvals p = [] \<or> (\<exists>i. pj_pending_approvals p = [i] \<and>
        (\<exists>c\<in>set (os_declared s). dc_approval c = Some (ApprovalPending i) \<and> running c)))"
proof -
  have ok: "calls_ok (os_declared s) (os_pending s) (pj_pending_approvals p)"
    using reachable_books[OF assms(1)] assms(2,3) by (simp add: books_ok_def)
  have waiting: "\<exists>c\<in>set (os_declared s). dc_approval c = Some (ApprovalPending i) \<and> running c"
    if "pj_pending_approvals p = [i]" for i
  proof -
    have "List.map_filter waiting_id (os_declared s) = [i]" using ok that by (simp add: calls_ok_def)
    then have "i \<in> set (List.map_filter waiting_id (os_declared s))" by simp
    then obtain c where "c \<in> set (os_declared s)" "waiting_id c = Some i"
      by (auto simp: List.map_filter_def split: option.split_asm if_split_asm)
    with ok show ?thesis
      by (auto simp: calls_ok_def waiting_id_def intro!: bexI[of _ c] split: option.split_asm durable_approval.split_asm)
  qed
  have approvals: "pj_pending_approvals p = [] \<or> (\<exists>i. pj_pending_approvals p = [i])"
    using ok by (cases "pj_pending_approvals p") (auto simp: calls_ok_def)
  have order: "\<exists>us vs. os_declared s = us @ vs
      \<and> (\<forall>c\<in>set us. dc_intent_seq c \<noteq> None \<or> dc_result_seen c) \<and> (\<forall>c\<in>set vs. dc_intent_seq c = None)"
    using ok unfolding calls_ok_def in_order_def is_next_call_def de_Morgan_conj not_not by (elim conjE)
  have pending: "os_pending s = map dc_id (filter (\<lambda>c. dc_intent_seq c \<noteq> None \<and> \<not> dc_result_seen c) (os_declared s))"
    using ok unfolding calls_ok_def running_def[abs_def] by (elim conjE)
  have ids: "distinct (map dc_id (os_declared s))" "length (os_declared s) \<le> 64"
    using ok by (simp_all add: calls_ok_def MAX_DURABLE_TOOL_CALLS_PER_STEP_def)
  show ?thesis using ids order pending approvals waiting by fast
qed

end
