(* ===== verification/Call_History.thy ===== *)
theory Call_History
  imports Call_Bookkeeping
begin

text \<open>
  The books compared with the history: what the projection knows of a step's calls is what the
  events since the step's start say, so a step that ends has answered every call exactly once.
\<close>

section \<open>Reading the history of a step\<close>

definition log_event :: "session_event list \<Rightarrow> session_event \<Rightarrow> session_event list" where
  "log_event log e = (case ev_kind e of StepStart _ _ \<Rightarrow> [] | _ \<Rightarrow> log @ [e])"

definition step_log :: "session_event list \<Rightarrow> session_event list" where
  "step_log es = foldl log_event [] es"

definition tool_call_of :: "session_event \<Rightarrow> (string \<times> nat) option" where
  "tool_call_of e = (case ev_kind e of ToolCall _ _ i _ _ \<Rightarrow> Some (i, ev_seq e) | _ \<Rightarrow> None)"

definition tool_answer_of :: "session_event \<Rightarrow> (string \<times> nat list option) option" where
  "tool_answer_of e =
     (case ev_kind e of
        ToolResult _ _ m _ _ \<Rightarrow>
          if is_replace e then None
          else (case validate_tool_result m of Inr i \<Rightarrow> Some (i, ev_source_event_seqs e) | Inl _ \<Rightarrow> None)
      | _ \<Rightarrow> None)"

definition tool_calls :: "session_event list \<Rightarrow> (string \<times> nat) list" where
  "tool_calls log = List.map_filter tool_call_of log"

definition tool_answers :: "session_event list \<Rightarrow> (string \<times> nat list option) list" where
  "tool_answers log = List.map_filter tool_answer_of log"

lemma log_event_lists:
  assumes "\<And>t s. ev_kind e \<noteq> StepStart t s"
  shows "tool_calls (log_event log e) = tool_calls log @ (case tool_call_of e of None \<Rightarrow> [] | Some c \<Rightarrow> [c])"
    "tool_answers (log_event log e) = tool_answers log @ (case tool_answer_of e of None \<Rightarrow> [] | Some a \<Rightarrow> [a])"
proof -
  have "log_event log e = log @ [e]" using assms by (auto simp: log_event_def split: event_kind.split)
  then show "tool_calls (log_event log e) = tool_calls log @ (case tool_call_of e of None \<Rightarrow> [] | Some c \<Rightarrow> [c])"
    "tool_answers (log_event log e) = tool_answers log @ (case tool_answer_of e of None \<Rightarrow> [] | Some a \<Rightarrow> [a])"
    by (simp_all add: tool_calls_def tool_answers_def map_filter_Cons List.map_filter_simps split: option.split)
qed

lemma filter_key_once:
  "(k, v) \<in> set xs \<Longrightarrow> distinct (map fst xs) \<Longrightarrow> filter (\<lambda>a. fst a = k) xs = [(k, v)]"
proof (induction xs)
  case (Cons x xs)
  show ?case
  proof (cases "fst x = k")
    case True
    then have "filter (\<lambda>a. fst a = k) xs = []"
      unfolding filter_empty_conv using Cons.prems(2) by (metis distinct.simps(2) image_eqI list.map(2) set_map)
    moreover have "(k, v) \<notin> set xs"
    proof
      assume "(k, v) \<in> set xs"
      then have "fst (k, v) \<in> fst ` set xs" by (rule imageI)
      then show False using Cons.prems(2) True by simp
    qed
    then have "x = (k, v)" using Cons.prems(1) by simp
    ultimately show ?thesis by simp
  next
    case False
    then show ?thesis using Cons by auto
  qed
qed simp

section \<open>The history and the books\<close>

type_synonym call_view = "string \<times> nat option \<times> bool"

definition call_view :: "durable_call \<Rightarrow> call_view" where
  "call_view c = (dc_id c, dc_intent_seq c, dc_result_seen c)"

definition intents :: "call_view list \<Rightarrow> (string \<times> nat) list" where
  "intents vs = List.map_filter (\<lambda>(i, q, _). map_option (Pair i) q) vs"

definition answered :: "call_view list \<Rightarrow> (string \<times> nat list option) set" where
  "answered vs = {(i, map_option (\<lambda>q. [q]) q) | i q. (i, q, True) \<in> set vs}"

definition logged :: "call_view list \<Rightarrow> session_event list \<Rightarrow> bool" where
  "logged vs log = (tool_calls log = intents vs \<and> distinct (map fst (tool_answers log))
     \<and> set (tool_answers log) = answered vs)"

lemma answeredI: "(i, Some q, True) \<in> set vs \<Longrightarrow> (i, Some [q]) \<in> answered vs"
  by (force simp: answered_def)

lemma intents_append [simp]: "intents (us @ vs) = intents us @ intents vs"
  by (simp add: intents_def)

lemma intents_Cons: "intents ((i, q, b) # vs) = (case q of None \<Rightarrow> [] | Some n \<Rightarrow> [(i, n)]) @ intents vs"
  by (simp add: intents_def map_filter_Cons split: option.split)

lemma intents_mem: "(i, q) \<in> set (intents vs) \<longleftrightarrow> (\<exists>b. (i, Some q, b) \<in> set vs)"
  by (induction vs) (auto simp: intents_Cons intents_def[of "[]"] List.map_filter_def split: option.splits)

lemma intents_none: "\<forall>(i, q, b)\<in>set vs. q = None \<Longrightarrow> intents vs = []"
  by (auto simp: intents_def map_filter_Nil_iff)

lemma logged_new:
  assumes "logged vs log" "\<forall>(i, q, b)\<in>set new. q = None \<and> \<not> b"
  shows "logged (vs @ new) log"
proof -
  have "answered (vs @ new) = answered vs" using assms(2) by (auto simp: answered_def)
  moreover have "intents new = []" by (rule intents_none) (use assms(2) in auto)
  ultimately show ?thesis using assms(1) by (simp add: logged_def)
qed

lemma logged_call:
  assumes "logged (us @ (i, None, False) # vs) log" "intents vs = []" "ev_kind e = ToolCall t s i n a"
  shows "logged (us @ (i, Some (ev_seq e), False) # vs) (log_event log e)"
proof -
  have "answered (us @ (i, Some (ev_seq e), False) # vs) = answered (us @ (i, None, False) # vs)"
    by (auto simp: answered_def)
  then show ?thesis
    using assms by (simp add: logged_def log_event_lists tool_call_of_def tool_answer_of_def intents_Cons)
qed

lemma logged_answer:
  assumes l: "logged (us @ (i, q, False) # vs) log"
    and i: "i \<notin> fst ` set us" "i \<notin> fst ` set vs"
    and a: "tool_answer_of e = Some (i, map_option (\<lambda>q. [q]) q)"
  shows "logged (us @ (i, q, True) # vs) (log_event log e)"
proof -
  have ns: "ev_kind e \<noteq> StepStart t s" for t s using a by (auto simp: tool_answer_of_def)
  have nc: "tool_call_of e = None" using a by (auto simp: tool_answer_of_def tool_call_of_def split: event_kind.split)
  have "answered (us @ (i, q, True) # vs) = insert (i, map_option (\<lambda>q. [q]) q) (answered (us @ (i, q, False) # vs))"
    by (auto simp: answered_def)
  moreover have "i \<notin> fst ` answered (us @ (i, q, False) # vs)"
    using i by (force simp: answered_def)
  moreover have "intents (us @ (i, q, True) # vs) = intents (us @ (i, q, False) # vs)" by (simp add: intents_Cons)
  ultimately show ?thesis
    using l a nc by (auto simp: logged_def log_event_lists[OF ns])
qed

lemma logged_other:
  assumes "logged vs log" "tool_call_of e = None" "tool_answer_of e = None" "\<And>t s. ev_kind e \<noteq> StepStart t s"
  shows "logged vs (log_event log e)"
  using assms by (simp add: logged_def log_event_lists)

text \<open>What an accepted event does to the calls of the open step.\<close>

definition step_views :: "projection \<Rightarrow> call_view list" where
  "step_views p = (case pj_boundary p of InStep s \<Rightarrow> map call_view (os_declared s) | _ \<Rightarrow> [])"

lemma register_views:
  "register_blocks m k bs ds = Inr ds' \<Longrightarrow>
     \<exists>new. ds' = ds @ new \<and> (\<forall>c\<in>set new. dc_intent_seq c = None \<and> \<not> dc_result_seen c)"
proof (induction bs arbitrary: k ds)
  case (Cons b bs)
  show ?case
  proof (cases "\<exists>i n a. cb_kind b = ToolCallBlock i n a")
    case True
    then obtain i n a where b: "cb_kind b = ToolCallBlock i n a" by blast
    let ?c = "\<lparr>dc_id = i, dc_name = n, dc_declaration = m, dc_block_index = k, dc_intent_seq = None,
                dc_approval = None, dc_result_seen = False\<rparr>"
    from Cons.prems b have "register_blocks m (Suc k) bs (ds @ [?c]) = Inr ds'" by (auto elim!: result_elims)
    from Cons.IH[OF this] obtain new where "ds' = (ds @ [?c]) @ new" "\<forall>c\<in>set new. dc_intent_seq c = None \<and> \<not> dc_result_seen c"
      by blast
    then show ?thesis by (intro exI[of _ "?c # new"]) simp
  next
    case False
    then have "register_blocks m (Suc k) bs ds = Inr ds'"
      using Cons.prems by (auto split: content_block_kind.split_asm)
    then show ?thesis by (rule Cons.IH)
  qed
qed simp

lemma views_update_first:
  "(\<And>c. call_view (f c) = call_view c) \<Longrightarrow> map call_view (update_first P f ds) = map call_view ds"
  by (rule map_update_first)

lemma approval_views:
  "apply_approval_asked p a = Inr p' \<Longrightarrow> step_views p' = step_views p"
  "apply_approval_decided p d = Inr p' \<Longrightarrow> step_views p' = step_views p"
  unfolding apply_approval_asked_def apply_approval_decided_def ask_durable_approval_def decide_durable_approval_def
  by (auto elim!: result_elims simp: step_views_def set_declared_def views_update_first call_view_def
      split: list.split_asm option.split_asm boundary_state.split_asm)

lemma retry_views:
  "apply_retry p r = Inr p' \<Longrightarrow> step_views p' = step_views p"
  "apply_retry_started p st = Inr p' \<Longrightarrow> step_views p' = step_views p"
  unfolding apply_retry_def apply_retry_started_def Let_def
  by (auto elim!: result_elims split: option.split_asm simp: step_views_def)

lemma other_views:
  "apply_turn_start p t = Inr p' \<Longrightarrow> step_views p' = []"
  "apply_turn_end p t = Inr p' \<Longrightarrow> step_views p' = []"
  "apply_step_start p t s = Inr p' \<Longrightarrow> step_views p' = []"
  "apply_step_end p t s = Inr p' \<Longrightarrow> step_views p' = []"
  unfolding apply_turn_start_def apply_turn_end_def apply_step_start_def apply_step_end_def
  by (auto elim!: result_elims simp: step_views_def split: boundary_state.split_asm option.split_asm list.split_asm)

section \<open>Keeping the history and the books together\<close>

definition in_step :: "projection \<Rightarrow> bool" where
  "in_step p = (\<exists>s. pj_boundary p = InStep s)"

definition history_ok :: "projection \<Rightarrow> session_event list \<Rightarrow> bool" where
  "history_ok p log = (in_step p \<longrightarrow> logged (step_views p) log)"

lemma in_step_phase: "in_step p \<longleftrightarrow> (\<exists>t s. snd (turn_state_of p) = StepOpen t s)"
  by (auto simp: in_step_def turn_state_of_def turn_phase_of_def split: boundary_state.splits)

lemma kind_in_step:
  assumes "apply_kind p e adm = Inr p'" "in_step p'" "\<And>t s. ev_kind e \<noteq> StepStart t s"
  shows "in_step p"
proof -
  obtain n ph where st: "turn_state_of p = (n, ph)" by (cases "turn_state_of p")
  obtain n' ph' where st': "turn_state_of p' = (n', ph')" by (cases "turn_state_of p'")
  have "turn_step (n, ph) e = Some (n', ph')" using kind_turns[OF assms(1)] st st' by simp
  then show ?thesis
    using assms(2,3) unfolding in_step_phase st st'
    by (cases "ev_kind e") (auto simp: stay_def split: if_splits turn_phase.splits)
qed

lemma declaration_history:
  assumes "register_durable_declarations p m = Inr p'" "in_step p" "logged (step_views p) log"
  shows "logged (step_views p') log"
proof -
  obtain s where s: "pj_boundary p = InStep s" using assms(2) by (auto simp: in_step_def)
  show ?thesis
  proof (cases "pj_policy p = DurableStrict")
    case True
    with assms(1) s obtain ds where ds: "register_blocks m 0 (msg_content m) (os_declared s) = Inr ds"
      "p' = set_declared p s ds"
      by (auto simp: register_durable_declarations_def elim!: result_elims)
    obtain new where new: "ds = os_declared s @ new" "\<forall>c\<in>set new. dc_intent_seq c = None \<and> \<not> dc_result_seen c"
      using register_views[OF ds(1)] by blast
    have "logged (map call_view (os_declared s) @ map call_view new) log"
      by (rule logged_new) (use assms(3) s new(2) in \<open>auto simp: step_views_def call_view_def\<close>)
    then show ?thesis using s by (simp add: ds(2) new(1) step_views_def set_declared_def)
  next
    case False
    then have "p' = p" using assms(1) by (auto simp: register_durable_declarations_def elim!: result_elims)
    then show ?thesis using assms(3) by simp
  qed
qed

lemma call_history:
  assumes a: "apply_tool_call p (ev_seq e) i n a = Inr p'" and e: "ev_kind e = ToolCall t st i n a"
    and strict: "pj_policy p = DurableStrict" and ok: "books_ok p" and s: "pj_boundary p = InStep s"
    and log: "logged (step_views p) log"
  shows "logged (step_views p') (log_event log e)"
proof -
  let ?f = "\<lambda>c. c\<lparr>dc_intent_seq := Some (ev_seq e)\<rparr>"
  from a strict s obtain c where c: "find is_next_call (os_declared s) = Some c" "dc_id c = i"
    and v: "step_views p' = map call_view (update_first is_next_call ?f (os_declared s))"
    by (auto simp: apply_tool_call_def promote_durable_call_def set_pending_def set_declared_def step_views_def
        elim!: result_elims split: option.split_asm)
  obtain us vs where uv: "os_declared s = us @ c # vs" "\<forall>x\<in>set us. \<not> is_next_call x" "is_next_call c"
    using find_split_list[OF c(1)] by blast
  have "in_order (us @ c # vs)" using ok s uv(1) by (simp add: books_ok_def calls_ok_def)
  then have "\<forall>x\<in>set vs. dc_intent_seq x = None" using in_order_split uv(2,3) by blast
  then have "intents (map call_view vs) = []" by (intro intents_none) (auto simp: call_view_def)
  moreover have "logged (map call_view us @ (i, None, False) # map call_view vs) log"
    using log s uv(3) c(2) by (simp add: step_views_def uv(1) is_next_call_def call_view_def[of c])
  ultimately have "logged (map call_view us @ (i, Some (ev_seq e), False) # map call_view vs) (log_event log e)"
    using e by (intro logged_call)
  moreover have "update_first is_next_call ?f (os_declared s) = us @ ?f c # vs"
    unfolding uv(1) by (rule update_first_split) (use uv in auto)
  ultimately show ?thesis using c(2) uv(3) by (simp add: v is_next_call_def call_view_def[of "?f c"])
qed

lemma answer_history:
  assumes a: "apply_tool_result p e t st m f adm = Inr p'" and e: "ev_kind e = ToolResult t st m f meta"
    and strict: "pj_policy p = DurableStrict" and ok: "books_ok p" and new: "\<not> is_replace e"
    and log: "logged (step_views p) log"
  shows "logged (step_views p') (log_event log e)"
proof -
  let ?f = "\<lambda>c. c\<lparr>dc_result_seen := True\<rparr>"
  from a new obtain q where q: "resolve_durable_call p e m f adm = Inr q"
    by (auto simp: apply_tool_result_def elim!: result_elims)
  obtain i s c where r: "validate_tool_result m = Inr i" "pj_boundary p = InStep s"
    "find (\<lambda>c. dc_id c = i) (os_declared s) = Some c" "\<not> dc_result_seen c"
    "require_result_intent c i e m f adm = Inr ()"
    "q = set_declared p s (update_first (\<lambda>c. dc_id c = i) ?f (os_declared s))"
    by (rule resolve_shape[OF q strict])
  have v: "step_views p' = map call_view (update_first (\<lambda>c. dc_id c = i) ?f (os_declared s))"
    using a new q r(1) by (auto simp: apply_tool_result_def r(6) set_declared_def set_pending_def step_views_def
        elim!: result_elims split: option.split_asm)
  obtain us vs where uv: "os_declared s = us @ c # vs" "\<forall>x\<in>set us. dc_id x \<noteq> i" "dc_id c = i"
    using find_split_list[OF r(3)] by blast
  have "distinct (map dc_id (us @ c # vs))" using ok r(2) uv(1) by (simp add: books_ok_def calls_ok_def)
  then have i: "i \<notin> fst ` set (map call_view us)" "i \<notin> fst ` set (map call_view vs)"
    using uv(3) by (auto simp: call_view_def image_iff)
  have src: "tool_answer_of e = Some (i, map_option (\<lambda>q. [q]) (dc_intent_seq c))"
    using e new r(1,5) by (auto simp: tool_answer_of_def require_result_intent_def canonical_not_started_def
        elim!: result_elims split: option.split_asm)
  have "logged (map call_view us @ (i, dc_intent_seq c, False) # map call_view vs) log"
    using log r(2,4) uv(3) by (simp add: step_views_def uv(1) call_view_def[of c])
  from logged_answer[OF this i src]
  have "logged (map call_view us @ (i, dc_intent_seq c, True) # map call_view vs) (log_event log e)" .
  moreover have "update_first (\<lambda>c. dc_id c = i) ?f (os_declared s) = us @ ?f c # vs"
    unfolding uv(1) by (rule update_first_split) (use uv in auto)
  ultimately show ?thesis using uv(3) by (simp add: v call_view_def[of "?f c"])
qed

lemma kind_history:
  assumes k: "apply_kind p e adm = Inr p'" and strict: "pj_policy p = DurableStrict" and ok: "books_ok p"
    and log: "history_ok p log"
  shows "history_ok p' (log_event log e)"
proof (cases "in_step p'")
  case True
  have keep: "logged (step_views p') (log_event log e)"
    if "step_views p' = step_views p" "tool_call_of e = None" "tool_answer_of e = None" "\<And>t s. ev_kind e \<noteq> StepStart t s"
    using that log kind_in_step[OF k True that(4)] by (auto simp: history_ok_def intro: logged_other)
  have "logged (step_views p') (log_event log e)"
  proof (cases "ev_kind e")
    case (StepStart t s)
    with k have "step_views p' = []" by (auto simp: apply_kind_def dest: other_views)
    then show ?thesis using StepStart
      by (simp add: log_event_def logged_def tool_calls_def tool_answers_def intents_def answered_def List.map_filter_def)
  next
    case (ToolCall t st i n a)
    then have "in_step p" by (intro kind_in_step[OF k True]) simp
    then obtain s where s: "pj_boundary p = InStep s" by (auto simp: in_step_def)
    from k ToolCall have "apply_tool_call p (ev_seq e) i n a = Inr p'" by (auto simp: apply_kind_def elim!: bindR_InrE)
    then show ?thesis using ToolCall strict ok s log \<open>in_step p\<close>
      by (auto simp: history_ok_def intro: call_history)
  next
    case (ToolResult t st m f meta)
    then have "in_step p" by (intro kind_in_step[OF k True]) simp
    from k ToolResult have a: "apply_tool_result p e t st m f adm = Inr p'" by (auto simp: apply_kind_def)
    show ?thesis
    proof (cases "is_replace e")
      case True
      then have "p' = p" using a by (auto simp: apply_tool_result_def elim!: result_elims)
      then show ?thesis using keep True ToolResult by (simp add: tool_answer_of_def tool_call_of_def)
    next
      case False
      show ?thesis using answer_history[OF a ToolResult strict ok False] log \<open>in_step p\<close>
        by (simp add: history_ok_def)
    qed
  next
    case (AssistantMessage t st m u)
    then have i: "in_step p" by (intro kind_in_step[OF k True]) simp
    from k AssistantMessage have "register_durable_declarations p m = Inr p'" by (auto simp: apply_kind_def elim!: bindR_InrE)
    then have "logged (step_views p') log" using declaration_history i log by (auto simp: history_ok_def)
    then show ?thesis using AssistantMessage
      by (intro logged_other) (auto simp: tool_answer_of_def tool_call_of_def)
  next
    case (ApprovalAsked a)
    then show ?thesis using k approval_views(1)
      by (intro keep) (auto simp: apply_kind_def tool_answer_of_def tool_call_of_def)
  next
    case (ApprovalDecided d)
    then show ?thesis using k approval_views(2)
      by (intro keep) (auto simp: apply_kind_def tool_answer_of_def tool_call_of_def)
  next
    case (LlmRetry r)
    then show ?thesis using k retry_views(1)
      by (intro keep) (auto simp: apply_kind_def tool_answer_of_def tool_call_of_def)
  next
    case (LlmRetryStarted st)
    then show ?thesis using k retry_views(2)
      by (intro keep) (auto simp: apply_kind_def tool_answer_of_def tool_call_of_def)
  next
    case (TurnStart t)
    then have False using k True boundary_turns(1)[of p t p'] by (auto simp: apply_kind_def in_step_phase)
    then show ?thesis ..
  next
    case (TurnEnd t r)
    then have False using k True boundary_turns(2)[of p t p'] by (auto simp: apply_kind_def in_step_phase)
    then show ?thesis ..
  next
    case (StepEnd t s)
    then have False using k True boundary_turns(4)[of p t s p'] by (auto simp: apply_kind_def in_step_phase)
    then show ?thesis ..
  qed (rule keep; use k in \<open>auto simp: apply_kind_def step_views_def tool_answer_of_def tool_call_of_def
        elim!: bindR_InrE\<close>)+
  then show ?thesis by (simp add: history_ok_def)
qed (simp add: history_ok_def)


lemma effect_kind:
  assumes "event_effect E p e adm q"
  obtains p1 p2 where "erase_attempt p1 = erase_attempt p" "apply_kind p1 e adm = Inr p2"
    "pj_boundary q = pj_boundary p2" "pj_policy q = pj_policy p"
proof -
  from assms obtain p1 p2 p3 p4 b c where
    p1: "erase_attempt p1 = erase_attempt p" and p2: "apply_transition p1 e adm = Inr p2"
    and p3: "erase_attempt p3 = erase_attempt p2" and p4: "apply_surface E p3 e b = Inr p4"
    and q: "q = p4\<lparr>pj_compaction := c\<rparr>"
    unfolding event_effect_def by blast
  have k: "apply_kind p1 e adm = Inr p2" using p2 by (auto simp: apply_transition_def elim!: bindR_InrE)
  note f3 = erase_attempt_fields[OF p3] and f4 = erase_surface_fields[OF surface_frame[OF p4]]
  show ?thesis
    by (rule that[OF p1 k]) (simp_all add: q f3 f4 frames_policy(1)[OF p2] erase_attempt_fields(1)[OF p1])
qed

lemma bind_boundary:
  "bind_tool_result_row q seq row = Some p \<Longrightarrow> pj_boundary p = pj_boundary q \<and> pj_policy p = pj_policy q"
  by (auto simp: bind_tool_result_row_def split: option.split_asm tool_result_origin.split_asm)

lemma bound_boundary: "bound q p \<Longrightarrow> pj_boundary p = pj_boundary q \<and> pj_policy p = pj_policy q"
  unfolding bound_def using bind_boundary by blast

lemma history_ok_cong: "pj_boundary p' = pj_boundary p \<Longrightarrow> history_ok p' log = history_ok p log"
  by (simp add: history_ok_def in_step_def step_views_def)

lemma silent_boundary:
  assumes "projection_step E p None p'"
  shows "pj_boundary p' = pj_boundary p \<and> pj_policy p' = pj_policy p"
  using silent_effect[OF assms]
proof (elim disjE exE)
  fix rows assume "bind_recovery_tool_result_rows p rows = Some p'"
  then show ?thesis
  proof (rule bind_rows_induct)
    show "pj_boundary y = pj_boundary p \<and> pj_policy y = pj_policy p"
      if "pj_boundary x = pj_boundary p \<and> pj_policy x = pj_policy p" "bind_tool_result_row x seq row = Some y"
      for x seq row y
      using that(1) bind_boundary[OF that(2)] by simp
  qed simp
next
  assume "erase_attempt p' = erase_attempt p"
  from erase_attempt_fields(1,4)[OF this] show ?thesis by simp
qed

lemma run_policy: "projection_run E p0 es p \<Longrightarrow> pj_policy p = pj_policy p0"
proof (induction rule: projection_run.induct)
  case (event p0 es p e p')
  obtain adm q where eff: "event_effect E p e adm q" and b: "bound q p'" using step_effect[OF event.hyps(2)] .
  have "pj_policy q = pj_policy p" by (rule effect_kind[OF eff])
  with event.IH bound_boundary[OF b] show ?case by simp
next
  case (silent p0 es p p')
  then show ?case using silent_boundary[OF silent.hyps(2)] by simp
qed simp_all

lemma run_history:
  assumes "projection_run E p0 es p" "pj_policy p = DurableStrict"
  shows "history_ok p (step_log es)"
  using assms
proof induction
  case (silent p0 es p p')
  then show ?case using silent_boundary[OF silent.hyps(2)] history_ok_cong[of p' p "step_log es"] by simp
next
  case (event p0 es p e p')
  obtain adm q where eff: "event_effect E p e adm q" and b: "bound q p'" using step_effect[OF event.hyps(2)] .
  obtain p1 p2 where k: "erase_attempt p1 = erase_attempt p" "apply_kind p1 e adm = Inr p2"
    "pj_boundary q = pj_boundary p2"
    by (rule effect_kind[OF eff])
  have b': "pj_boundary p' = pj_boundary p2" using bound_boundary[OF b] k(3) by simp
  have "pj_policy p = DurableStrict"
    using event.prems run_policy[OF projection_run.event[OF event.hyps]] run_policy[OF event.hyps(1)] by simp
  then have strict: "pj_policy p1 = DurableStrict" and h: "history_ok p (step_log es)"
    using event.IH erase_attempt_fields(1)[OF k(1)] by simp_all
  have "books_ok p1"
    using reachable_books[OF run_reachable[OF event.hyps(1)]] \<open>pj_policy p = DurableStrict\<close> frames_books(1)[OF k(1)] by simp
  from kind_history[OF k(2) strict this, of "step_log es"]
  have "history_ok p2 (log_event (step_log es) e)"
    using h history_ok_cong[OF erase_attempt_fields(4)[OF k(1)]] by simp
  then show ?case using history_ok_cong[OF b'] by (simp add: step_log_def)
qed (simp_all add: history_ok_def in_step_def projection_empty_def for_session_def)

lemma step_end_answered:
  assumes "apply_step_end p t s = Inr p'" "pj_policy p = DurableStrict"
  obtains st where "pj_boundary p = InStep st" "\<forall>c\<in>set (os_declared st). dc_result_seen c"
proof -
  have "require_open_step p ''step/end'' t s = Inr ()" using assms(1) by (auto simp: apply_step_end_def elim!: bindR_InrE)
  then obtain st where st: "pj_boundary p = InStep st"
    by (auto simp: require_open_step_phase turn_phase_of_def split: boundary_state.split_asm)
  have "find (\<lambda>c. \<not> dc_result_seen c) (os_declared st) = None"
    using assms st by (cases "find (\<lambda>c. \<not> dc_result_seen c) (os_declared st)")
      (auto simp: apply_step_end_def elim!: bindR_InrE)
  then show ?thesis using that[OF st] by (simp add: find_None_iff)
qed

text \<open>
  C18: A step that ends has answered every call exactly once.  When a durable session accepts the
  end of a step, each tool call recorded since the start of the step has exactly one recorded
  result, and that result names the event of its call as its source.
\<close>

theorem step_answers_every_call_once:
  assumes "projection_run E p0 es p" "pj_policy p = DurableStrict" "projection_step E p (Some e) p'"
    "ev_kind e = StepEnd turn step" "(i, q) \<in> set (tool_calls (step_log es))"
  shows "filter (\<lambda>a. fst a = i) (tool_answers (step_log es)) = [(i, Some [q])]"
proof -
  obtain adm q' where eff: "event_effect E p e adm q'" using step_effect[OF assms(3)] .
  obtain p1 p2 where k: "erase_attempt p1 = erase_attempt p" "apply_kind p1 e adm = Inr p2"
    by (rule effect_kind[OF eff])
  have "apply_step_end p1 turn step = Inr p2" using k(2) assms(4) by (simp add: apply_kind_def)
  moreover have "pj_policy p1 = DurableStrict" using erase_attempt_fields(1)[OF k(1)] assms(2) by simp
  ultimately obtain s where s1: "pj_boundary p1 = InStep s"
    and seen: "\<forall>c\<in>set (os_declared s). dc_result_seen c"
    by (rule step_end_answered)
  have s: "pj_boundary p = InStep s" using s1 erase_attempt_fields(4)[OF k(1)] by simp
  let ?log = "step_log es"
  have log: "logged (map call_view (os_declared s)) ?log"
    using run_history[OF assms(1,2)] s by (simp add: history_ok_def in_step_def step_views_def)
  then have "(i, q) \<in> set (intents (map call_view (os_declared s)))" using assms(5) by (simp add: logged_def)
  then obtain c where c: "c \<in> set (os_declared s)" "dc_id c = i" "dc_intent_seq c = Some q"
    by (auto simp: intents_mem call_view_def)
  have "(i, Some q, True) \<in> set (map call_view (os_declared s))"
    using c seen by (auto simp: call_view_def image_iff)
  then have "(i, Some [q]) \<in> answered (map call_view (os_declared s))" by (rule answeredI)
  then have "(i, Some [q]) \<in> set (tool_answers ?log)" using log by (simp add: logged_def)
  moreover have "distinct (map fst (tool_answers ?log))" using log by (simp add: logged_def)
  ultimately show ?thesis by (rule filter_key_once)
qed

end
