(* ===== verification/Call_Example.thy ===== *)
theory Call_Example
  imports Call_History Session_Example
begin

text \<open>
  A durable session in which the model calls a tool: the chunks of the answer, the message, the
  call, its result and the end of the step, read back as a cold scan does.  The witnesses of the
  properties of calls are evaluated on it.
\<close>

definition example_row :: "session_event \<Rightarrow> row_locator" where
  "example_row e = \<lparr>row_seq = ev_seq e, row_offset = 100 * ev_seq e, row_length = 100, row_digest = ''d''\<rparr>"

fun scan_events :: "externals \<Rightarrow> projection \<Rightarrow> session_event list \<Rightarrow> event_error + projection" where
  "scan_events E p [] = Inr p"
| "scan_events E p (e # es) = bindR (apply_scanned_row E p e (example_row e)) (\<lambda>p. scan_events E p es)"

lemma scan_events_run:
  assumes "scan_events E p es = Inr p'" "projection_run E p0 es0 p"
  shows "projection_run E p0 (es0 @ es) p'"
  using assms
proof (induction es arbitrary: p es0)
  case (Cons e es)
  then obtain q where q: "apply_scanned_row E p e (example_row e) = Inr q" "scan_events E q es = Inr p'"
    by (auto elim: bindR_InrE)
  then have "projection_run E p0 (es0 @ [e]) q"
    using Cons.prems(2) by (blast intro: projection_run.event projection_step.scanned)
  from Cons.IH[OF q(2) this] show ?case by simp
qed simp

definition call_raw :: json_value where
  "call_raw = \<lparr>jv_value = JNull, jv_encoded_len = 4\<rparr>"

definition call_json :: json where
  "call_json = obj_of [(''type'', JString ''tool-call''), (''id'', JString ''c1''), (''name'', JString ''read''),
     (''arguments'', JString ''{}'')]"

definition call_block :: content_block where
  "call_block = \<lparr>cb_kind = ToolCallBlock ''c1'' ''read'' ''{}'', cb_raw = \<lparr>jv_value = call_json, jv_encoded_len = 60\<rparr>\<rparr>"

definition call_header :: epoch_header where
  "call_header =
     \<lparr>eh_config = \<lparr>cc_provider = ''p'', cc_model = ''m'', cc_reasoning_effort = None, cc_temperature = None,
                   cc_max_tokens = None, cc_stop = None, cc_raw = call_raw\<rparr>,
      eh_adapter_defaults = None, eh_system = None, eh_tools = None\<rparr>"

definition call_chunk :: "nat \<Rightarrow> stream_chunk_kind \<Rightarrow> session_event" where
  "call_chunk seq k = example_event seq (AssistantChunk 1 1 \<lparr>sc_kind = k, sc_raw = call_raw\<rparr>) None"

definition call_message :: message where
  "call_message = \<lparr>msg_id = ''m2'', msg_role = Assistant, msg_content = [call_block],
     msg_source = \<lparr>src_kind = ModelSource ''p'' ''m'' None, src_raw = call_raw\<rparr>,
     msg_raw = call_raw, msg_surface_bytes = None\<rparr>"

definition result_block :: json where
  "result_block = obj_of [(''type'', JString ''tool-result''), (''toolCallId'', JString ''c1''),
     (''content'', JArray [jv_value (cb_raw example_text)])]"

definition result_message :: message where
  "result_message = \<lparr>msg_id = ''m3'', msg_role = User,
     msg_content = [\<lparr>cb_kind = ToolResultBlock ''c1'' None, cb_raw = \<lparr>jv_value = result_block, jv_encoded_len = 90\<rparr>\<rparr>],
     msg_source = \<lparr>src_kind = ToolSource ''c1'', src_raw = call_raw\<rparr>,
     msg_raw = call_raw, msg_surface_bytes = None\<rparr>"

definition result_data :: json_value where
  "result_data =
     \<lparr>jv_value = obj_of [(''message'', obj_of [(''content'', JArray [result_block])])], jv_encoded_len = 130\<rparr>"

definition sourced :: "nat list \<Rightarrow> session_event \<Rightarrow> session_event" where
  "sourced xs e = e\<lparr>ev_source_event_seqs := Some xs\<rparr>"

definition call_events :: "session_event list" where
  "call_events =
     [example_event 0 (TurnStart 1) None,
      example_event 1 (RequestHeader call_header ReasonInitial) None,
      example_event 2 (StepStart 1 1) None,
      call_chunk 3 (BlockStart 0 ToolCallType),
      call_chunk 4 (ToolCallDelta 0 ''c1'' (Some ''read'') ''{}''),
      call_chunk 5 (BlockEnd 0 call_block),
      call_chunk 6 (FinishChunk \<lparr>fr_kind = ToolCalls, fr_raw = call_raw\<rparr> None),
      sourced [3, 4, 5, 6] (example_event 7 (AssistantMessage 1 1 call_message None) (Some SurfaceAppend)),
      example_event 8 (ToolCall 1 1 ''c1'' ''read'' ''{}'') None,
      (sourced [8] (example_event 9 (ToolResult 1 1 result_message None None) (Some SurfaceAppend)))
        \<lparr>ev_original_data := result_data\<rparr>]"

definition call_session :: projection where
  "call_session = for_session DurableStrict ''s''"

definition call_end :: session_event where
  "call_end = example_event 10 (StepEnd 1 1) None"

text \<open>The call is running after nine events; the tenth answers it and the step can end.\<close>

definition pending_calls :: "projection \<Rightarrow> string list option" where
  "pending_calls p = (case pj_boundary p of InStep s \<Rightarrow> Some (os_pending s) | _ \<Rightarrow> None)"

lemma call_running:
  "case scan_events example_externals call_session (take 9 call_events) of
     Inr p \<Rightarrow> pj_policy p = DurableStrict \<and> pending_calls p = Some [''c1''] | Inl _ \<Rightarrow> False"
  by code_simp

lemma call_answered:
  "case scan_events example_externals call_session call_events of
     Inr p \<Rightarrow> pj_policy p = DurableStrict \<and> is_ok (apply_scanned_row example_externals p call_end (example_row call_end))
   | Inl _ \<Rightarrow> False"
  by code_simp

lemma call_run:
  assumes "scan_events example_externals call_session es = Inr p"
  shows "projection_run example_externals call_session es p"
  using scan_events_run[OF assms] projection_run.session[of _ DurableStrict "''s''", folded call_session_def]
  by (force simp: call_session_def)

theorem call_books_agree_witness:
  "\<exists>p s. scan_events example_externals call_session (take 9 call_events) = Inr p \<and> pj_boundary p = InStep s
     \<and> os_pending s = [''c1'']
     \<and> os_pending s = map dc_id (filter (\<lambda>c. dc_intent_seq c \<noteq> None \<and> \<not> dc_result_seen c) (os_declared s))"
proof -
  obtain p where p: "scan_events example_externals call_session (take 9 call_events) = Inr p"
    "pj_policy p = DurableStrict" "pending_calls p = Some [''c1'']"
    using call_running by (auto split: sum.split_asm)
  then obtain s where s: "pj_boundary p = InStep s" "os_pending s = [''c1'']"
    by (auto simp: pending_calls_def split: boundary_state.split_asm)
  show ?thesis
    using p(1) s call_books_agree[OF run_reachable[OF call_run[OF p(1)]] p(2) s(1)] by blast
qed

theorem step_answers_every_call_once_witness:
  "filter (\<lambda>a. fst a = ''c1'') (tool_answers (step_log call_events)) = [(''c1'', Some [8])]"
proof -
  obtain p p' where p: "scan_events example_externals call_session call_events = Inr p"
    "pj_policy p = DurableStrict" "apply_scanned_row example_externals p call_end (example_row call_end) = Inr p'"
    using call_answered by (auto simp: is_ok_iff split: sum.split_asm)
  show ?thesis
  proof (rule step_answers_every_call_once[OF call_run[OF p(1)] p(2) projection_step.scanned[OF p(3)]])
    show "ev_kind call_end = StepEnd 1 1" by (simp add: call_end_def example_event_def)
    show "(''c1'', 8) \<in> set (tool_calls (step_log call_events))" by code_simp
  qed
qed

end
