(* ===== verification/Durable_Example.thy ===== *)
theory Durable_Example
  imports Durable_Replay Call_Example
begin

text \<open>
  The session of \<open>Call_Example\<close> once more, live: each row is prepared by its owner's check, with the
  dispatch before the first chunk and the attempt sealed before the message that commits it.
\<close>

datatype (plugins only: code) durable_op =
    DoOrdinary session_event
  | DoChunk session_event
  | DoClosure session_event attempt_disposition
  | DoDispatch nat nat
  | DoSeal

definition commit_prepared :: "projection \<Rightarrow> session_event \<Rightarrow> event_error + prepared_projection \<Rightarrow> projection option" where
  "commit_prepared p e r =
     (case r of
        Inr q \<Rightarrow> (case commit_row q p (example_row e) of (True, p') \<Rightarrow> Some p' | _ \<Rightarrow> None)
      | Inl _ \<Rightarrow> None)"

fun durable_do :: "externals \<Rightarrow> projection \<Rightarrow> durable_op \<Rightarrow> projection option" where
  "durable_do E p (DoOrdinary e) = commit_prepared p e (prepare_durable_event E p e)"
| "durable_do E p (DoChunk e) = commit_prepared p e (prepare_durable_attempt_chunk E p e)"
| "durable_do E p (DoClosure e d) = commit_prepared p e (prepare_durable_attempt_closure E p e d)"
| "durable_do E p (DoDispatch turn step) =
     (case prepare_live_attempt p turn step of
        Inl _ \<Rightarrow> None | Inr l \<Rightarrow> (case commit_live_attempt True p l of Inl _ \<Rightarrow> None | Inr p' \<Rightarrow> Some p'))"
| "durable_do E p DoSeal = (case seal_live_attempt E p of Inl _ \<Rightarrow> None | Inr (_, p') \<Rightarrow> Some p')"

fun op_event :: "durable_op \<Rightarrow> session_event option" where
  "op_event (DoOrdinary e) = Some e"
| "op_event (DoChunk e) = Some e"
| "op_event (DoClosure e d) = Some e"
| "op_event _ = None"

lemma commit_preparedD:
  "commit_prepared p e r = Some p' \<Longrightarrow> \<exists>q. r = Inr q \<and> commit_row q p (example_row e) = (True, p')"
  by (auto simp: commit_prepared_def split: sum.split_asm prod.split_asm bool.split_asm)

lemma durable_do_step:
  "durable_do E p x = Some p' \<Longrightarrow> durable_step E p (map_option (\<lambda>e. (e, example_row e)) (op_event x)) p'"
  by (cases x) (auto dest!: commit_preparedD intro: durable_step.intros split: if_splits sum.split_asm prod.split_asm)

text \<open>The caller's discipline, and a run of operations with or without it.\<close>

fun keeps_header :: "projection \<Rightarrow> durable_op \<Rightarrow> bool" where
  "keeps_header p (DoOrdinary e) =
     (awaits_chunk (pj_attempt p) \<longrightarrow> (case ev_kind e of RequestHeader _ _ \<Rightarrow> False | _ \<Rightarrow> True))"
| "keeps_header p _ = True"

lemma durable_do_header:
  assumes "durable_do E p x = Some p'" "op_event x = Some e" "keeps_header p x"
  shows "header_kept p e"
proof (cases x)
  case (DoChunk e')
  then obtain q where "prepare_durable_attempt_chunk E p e = Inr q" using assms by (auto dest!: commit_preparedD)
  then show ?thesis
    unfolding prepare_durable_attempt_chunk_def header_kept_def by (cases "ev_kind e") (auto elim!: result_elims)
next
  case (DoClosure e' d)
  then obtain q where "prepare_durable_attempt_closure E p e d = Inr q" using assms by (auto dest!: commit_preparedD)
  then show ?thesis
    unfolding prepare_durable_attempt_closure_def header_kept_def apply_attempt_transition_def Let_def
    by (cases "ev_kind e") (auto simp: legal_closure_def is_assistant_message_def is_step_end_def is_context_start_def
        attempt_by_kind_def elim!: result_elims split: if_splits attempt_disposition.splits)
qed (use assms in \<open>auto simp: header_kept_def\<close>)

fun durable_all :: "bool \<Rightarrow> externals \<Rightarrow> projection \<Rightarrow> durable_op list \<Rightarrow> projection option" where
  "durable_all keep E p [] = Some p"
| "durable_all keep E p (x # xs) =
     (if keep \<and> \<not> keeps_header p x then None
      else case durable_do E p x of None \<Rightarrow> None | Some p \<Rightarrow> durable_all keep E p xs)"

fun op_events :: "durable_op list \<Rightarrow> session_event list" where
  "op_events [] = []"
| "op_events (x # xs) = (case op_event x of None \<Rightarrow> op_events xs | Some e \<Rightarrow> e # op_events xs)"

definition rows_of :: "session_event list \<Rightarrow> (session_event \<times> row_locator) list" where
  "rows_of es = map (\<lambda>e. (e, example_row e)) es"

lemma durable_all_run:
  assumes "durable_all True E p xs = Some p'" "durable_run E sid (rows_of es) p"
    and "map ev_seq (op_events xs) = [length es..<length es + length (op_events xs)]"
  shows "durable_run E sid (rows_of (es @ op_events xs)) p'"
  using assms
proof (induction xs arbitrary: p es)
  case (Cons x xs)
  then obtain q where q: "durable_do E p x = Some q" "durable_all True E q xs = Some p'" "keeps_header p x"
    by (auto split: option.split_asm if_splits)
  note step = durable_do_step[OF q(1)]
  show ?case
  proof (cases "op_event x")
    case None
    then show ?thesis using Cons.IH[OF q(2)] Cons.prems(2,3) step durable_run.silent by auto
  next
    case (Some e)
    then have seqs: "ev_seq e = length es" "map ev_seq (op_events xs) = [Suc (length es)..<Suc (length es + length (op_events xs))]"
      using Cons.prems(3) by (auto simp: upt_rec)
    have "durable_run E sid (rows_of es @ [(e, example_row e)]) q"
      using durable_run.row[OF Cons.prems(2) _ _ durable_do_header[OF q(1) Some q(3)]] step Some seqs(1) by (simp add: rows_of_def)
    then have "durable_run E sid (rows_of (es @ [e])) q" by (simp add: rows_of_def)
    from Cons.IH[OF q(2) this] show ?thesis using seqs(2) Some by simp
  qed
qed simp

definition durable_ops :: "durable_op list" where
  "durable_ops =
     map DoOrdinary (take 3 call_events) @ [DoDispatch 1 1] @ map DoChunk (take 4 (drop 3 call_events))
     @ [DoSeal, DoClosure (call_events ! 7) DispCommitted] @ map DoOrdinary (drop 8 call_events) @ [DoOrdinary call_end]"

text \<open>A digest of 32 bytes, as SHA-256 has them, that collides on longer texts.\<close>

definition durable_externals :: externals where
  "durable_externals = example_externals\<lparr>ext_sha256 := (\<lambda>s. take 32 (s @ replicate 32 (char_of (0 :: nat))))\<rparr>"

lemma durable_ops_run: "durable_all True durable_externals (for_session DurableStrict ''s'') durable_ops \<noteq> None"
  by code_simp

lemma durable_ops_events:
  "op_events durable_ops = call_events @ [call_end]" "map ev_seq (op_events durable_ops) = [0..<11]"
  by (simp_all add: durable_ops_def call_events_def call_chunk_def sourced_def call_end_def example_event_def upt_rec)

lemma durable_digests: "digests_distinguish durable_externals ''s'' (rows_of (call_events @ [call_end]))"
  by code_simp

theorem durable_journal_replays_witness:
  "\<exists>p c. scan_rows durable_externals (for_session DurableStrict ''s'') (rows_of (call_events @ [call_end])) = Inr (p\<lparr>pj_attempt := c\<rparr>)
     \<and> attempt_replays durable_externals p (pj_attempt p) c"
proof -
  have "map ev_seq (op_events durable_ops) = [length ([] :: session_event list)..<length ([] :: session_event list) + length (op_events durable_ops)]"
  proof -
    have "length (op_events durable_ops) = 11" by (simp add: durable_ops_events(1) call_events_def)
    then show ?thesis using durable_ops_events(2) by simp
  qed
  moreover obtain p where "durable_all True durable_externals (for_session DurableStrict ''s'') durable_ops = Some p"
    using durable_ops_run by auto
  ultimately have "durable_run durable_externals ''s'' (rows_of ([] @ op_events durable_ops)) p"
    by (rule durable_all_run[rotated 2]) (simp add: rows_of_def durable_run.start)
  then have "durable_run durable_externals ''s'' (rows_of (call_events @ [call_end])) p"
    by (simp add: durable_ops_events(1))
  then show ?thesis using durable_journal_replays durable_digests by blast
qed

text \<open>
  The discipline is needed.  Here the header is replaced after the call was dispatched: the session
  accepts every operation, with the route of the first header, and the scan of the same rows,
  which opens the attempt at its first chunk, refuses the assistant message.
\<close>

definition late_header :: epoch_header where
  "late_header = call_header\<lparr>eh_config := (eh_config call_header)\<lparr>cc_model := ''n''\<rparr>\<rparr>"

definition late_ops :: "durable_op list" where
  "late_ops =
     map DoOrdinary (take 3 call_events)
     @ [DoDispatch 1 1, DoOrdinary (example_event 3 (RequestHeader late_header ReasonInitial) None)]
     @ map DoChunk (map (\<lambda>e. e\<lparr>ev_seq := ev_seq e + 1\<rparr>) (take 4 (drop 3 call_events)))
     @ [DoSeal, DoClosure (sourced [4, 5, 6, 7] ((call_events ! 7)\<lparr>ev_seq := 8\<rparr>)) DispCommitted]"

lemma late_header_is_not_read_back:
  "durable_all False durable_externals (for_session DurableStrict ''s'') late_ops \<noteq> None
     \<and> map ev_seq (op_events late_ops) = [0..<9]
     \<and> \<not> is_ok (scan_rows durable_externals (for_session DurableStrict ''s'') (rows_of (op_events late_ops)))"
proof (intro conjI)
  show "durable_all False durable_externals (for_session DurableStrict ''s'') late_ops \<noteq> None" by code_simp
  show "map ev_seq (op_events late_ops) = [0..<9]"
    by (simp add: late_ops_def call_events_def call_chunk_def sourced_def example_event_def upt_rec)
  show "\<not> is_ok (scan_rows durable_externals (for_session DurableStrict ''s'') (rows_of (op_events late_ops)))" by code_simp
qed

end
