(* ===== verification/Session_Header.thy ===== *)
theory Session_Header
  imports Session_Events
begin

text \<open>
  The header of a session (\<open>src/session/event.rs\<close>), its line in a durable journal
  (\<open>src/session/jsonl.rs\<close>) and the reader of that line (\<open>src/session/recovery.rs\<close>).  The text of
  a header is read back by the parser of \<open>serde_json\<close>, the parameter \<open>parse\<close>.
\<close>

section \<open>Headers\<close>

datatype header_error =
    UnsupportedVersion nat nat
  | MismatchedId string string
  | NegativeCreatedAt
  | RelativeWorkingDirectory string
  | UnsafeInteger string
  | InvalidHeaderField string
  | HeaderTooLarge nat nat
  | HeaderJson json_error

definition SESSION_FORMAT_VERSION :: nat where
  "SESSION_FORMAT_VERSION = 0"

definition MAX_SESSION_HEADER_BYTES :: nat where
  "MAX_SESSION_HEADER_BYTES = 64 * 1024"

datatype session_origin = Subagent

record session_header =
  sh_version :: nat
  sh_id :: string
  sh_created_at :: int
  sh_cwd :: "string option"
  sh_parent_session :: "string option"
  sh_seed_length :: "nat option"
  sh_origin :: "session_origin option"
  sh_delegation_depth :: "nat option"
  sh_agent_preset :: "string option"
  sh_raw :: json_value

record workspace_identity =
  wi_device :: nat
  wi_inode :: nat

text \<open>\<open>Path::is_absolute\<close> on the supported (Unix) hosts.\<close>

definition is_absolute :: "string \<Rightarrow> bool" where
  "is_absolute p = (case p of [] \<Rightarrow> False | c # _ \<Rightarrow> c = CHR ''/'')"

definition validate_header_size :: "json_value \<Rightarrow> header_error + unit" where
  "validate_header_size raw =
     (if jv_encoded_len raw > MAX_SESSION_HEADER_BYTES
      then Inl (HeaderTooLarge MAX_SESSION_HEADER_BYTES (jv_encoded_len raw)) else Inr ())"

definition header_required :: "fields \<Rightarrow> string \<Rightarrow> (json \<Rightarrow> 'a option) \<Rightarrow> header_error + 'a" where
  "header_required m k de = ok_or (InvalidHeaderField k) (Option.bind (map_of m k) de)"

definition header_optional :: "fields \<Rightarrow> string \<Rightarrow> (json \<Rightarrow> 'a option) \<Rightarrow> header_error + 'a option" where
  "header_optional m k de =
     (case map_of m k of
        None \<Rightarrow> Inr None
      | Some v \<Rightarrow> ok_or (InvalidHeaderField k) (map_option Some (de v)))"

definition header_optional_string :: "fields \<Rightarrow> string \<Rightarrow> header_error + string option" where
  "header_optional_string m k =
     (case map_of m k of
        None \<Rightarrow> Inr None
      | Some (JString s) \<Rightarrow> Inr (Some s)
      | Some _ \<Rightarrow> Inl (InvalidHeaderField k))"

definition header_required_string :: "fields \<Rightarrow> string \<Rightarrow> header_error + string" where
  "header_required_string m k = bindR (header_optional_string m k) (\<lambda>s. ok_or (InvalidHeaderField k) s)"

definition de_origin :: "json \<Rightarrow> session_origin option" where
  "de_origin v = (if unit_variant v = Some ''subagent'' then Some Subagent else None)"

definition safe_i64 :: "json \<Rightarrow> int option" where
  "safe_i64 v =
     (let check = (\<lambda>i. if nat \<bar>i\<bar> \<le> MAX_SAFE_INTEGER then Some i else None) in
      case v of
        JInt i \<Rightarrow> check i
      | JFloat w \<Rightarrow>
          (case f64_integer w of
             None \<Rightarrow> None
           | Some i \<Rightarrow> if f64_is_zero w \<and> f64_sign w then None else check i)
      | _ \<Rightarrow> None)"

definition header_validate_for :: "session_header \<Rightarrow> string \<Rightarrow> header_error + unit" where
  "header_validate_for h requested =
     (if sh_version h \<noteq> SESSION_FORMAT_VERSION
      then Inl (UnsupportedVersion SESSION_FORMAT_VERSION (sh_version h))
      else if sh_id h \<noteq> requested then Inl (MismatchedId requested (sh_id h))
      else if sh_created_at h < 0 then Inl NegativeCreatedAt
      else case sh_cwd h of
        None \<Rightarrow> Inr ()
      | Some cwd \<Rightarrow> if is_absolute cwd then Inr () else Inl (RelativeWorkingDirectory cwd))"

definition header_from_value :: "externals \<Rightarrow> json \<Rightarrow> header_error + session_header" where
  "header_from_value E v =
     bindR (map_err HeaderJson (json_value_new E v)) (\<lambda>raw.
     bindR (validate_header_size raw) (\<lambda>_.
     bindR (ok_or (InvalidHeaderField ''header'') (as_object (jv_value raw))) (\<lambda>m.
     bindR (header_required m ''version'' (safe_u64 False)) (\<lambda>version.
     bindR (header_required_string m ''id'') (\<lambda>i.
     bindR (header_required m ''createdAt'' safe_i64) (\<lambda>created.
     bindR (header_optional_string m ''cwd'') (\<lambda>cwd.
     bindR (header_optional_string m ''parentSession'') (\<lambda>parent.
     bindR (header_optional m ''seedLength'' (safe_u64 False)) (\<lambda>seed.
     bindR (header_optional m ''origin'' de_origin) (\<lambda>origin.
     bindR (header_optional m ''delegationDepth'' (safe_u64 False)) (\<lambda>depth.
     bindR (header_optional_string m ''agentPreset'') (\<lambda>preset.
       let h = \<lparr>sh_version = version, sh_id = i, sh_created_at = created, sh_cwd = cwd,
                sh_parent_session = parent, sh_seed_length = seed, sh_origin = origin,
                sh_delegation_depth = depth, sh_agent_preset = preset, sh_raw = raw\<rparr>
       in bindR (header_validate_for h (sh_id h)) (\<lambda>_. Inr h)))))))))))))"

definition header_new :: "externals \<Rightarrow> string \<Rightarrow> int \<Rightarrow> header_error + session_header" where
  "header_new E i created =
     (if created < 0 then Inl NegativeCreatedAt
      else
        bindR (map_err HeaderJson (json_value_new E (obj_of
          [(''version'', JInt (int SESSION_FORMAT_VERSION)), (''id'', JString i), (''createdAt'', JInt created)]))) (\<lambda>raw.
        bindR (validate_header_size raw) (\<lambda>_.
          Inr \<lparr>sh_version = SESSION_FORMAT_VERSION, sh_id = i, sh_created_at = created, sh_cwd = None,
               sh_parent_session = None, sh_seed_length = None, sh_origin = None,
               sh_delegation_depth = None, sh_agent_preset = None, sh_raw = raw\<rparr>)))"

text \<open>\<open>format!("{:x}")\<close>.\<close>

fun hex_text :: "nat \<Rightarrow> string" where
  "hex_text n = (if n < 16 then [hex_digit n] else hex_text (n div 16) @ [hex_digit (n mod 16)])"

declare hex_text.simps [simp del]

definition identity_json :: "workspace_identity \<Rightarrow> json" where
  "identity_json w =
     obj_of [(''device'', JString (hex_text (wi_device w))), (''inode'', JString (hex_text (wi_inode w)))]"

definition header_new_durable ::
  "externals \<Rightarrow> string \<Rightarrow> int \<Rightarrow> string \<Rightarrow> workspace_identity \<Rightarrow> header_error + session_header" where
  "header_new_durable E i created cwd w =
     (if \<not> is_absolute cwd then Inl (RelativeWorkingDirectory cwd)
      else header_from_value E (obj_of
        [(''version'', JInt (int SESSION_FORMAT_VERSION)), (''id'', JString i), (''createdAt'', JInt created),
         (''cwd'', JString cwd), (''delegationDepth'', JInt 0), (''rustWorkspaceIdentity'', identity_json w)]))"

definition set_cwd :: "externals \<Rightarrow> session_header \<Rightarrow> string \<Rightarrow> header_error + session_header" where
  "set_cwd E h cwd =
     (if \<not> is_absolute cwd then Inl (RelativeWorkingDirectory cwd)
      else
        bindR (ok_or (InvalidHeaderField ''header'') (as_object (jv_value (sh_raw h)))) (\<lambda>m.
        bindR (map_err HeaderJson (json_value_new E (JObject (obj_insert ''cwd'' (JString cwd) m)))) (\<lambda>raw.
        bindR (validate_header_size raw) (\<lambda>_. Inr (h\<lparr>sh_raw := raw, sh_cwd := Some cwd\<rparr>)))))"

section \<open>The header line\<close>

definition MAX_JOURNAL_HEADER_LINE_BYTES :: nat where
  "MAX_JOURNAL_HEADER_LINE_BYTES = 64 * 1024"

datatype jsonl_error = JsonlHeaderShape | JsonlHeaderTooLarge | JsonlEventTooLarge

definition encode_header_line :: "externals \<Rightarrow> session_header \<Rightarrow> jsonl_error + string" where
  "encode_header_line E h =
     bindR (ok_or JsonlHeaderShape (as_object (jv_value (sh_raw h)))) (\<lambda>m.
       if map_of m ''type'' \<noteq> None then Inl JsonlHeaderShape
       else
         let bytes = json_text E (JObject (obj_insert ''type'' (JString ''session'') m)) in
         if length bytes \<ge> MAX_JOURNAL_HEADER_LINE_BYTES then Inl JsonlHeaderTooLarge
         else Inr (bytes @ [CHR 0x0A]))"

text \<open>\<open>u64::from_str_radix(_, 16)\<close>: an optional plus sign, then digits of either case.\<close>

definition hex_value :: "char \<Rightarrow> nat option" where
  "hex_value c =
     (let n = byte c in
      if 48 \<le> n \<and> n \<le> 57 then Some (n - 48)
      else if 97 \<le> n \<and> n \<le> 102 then Some (n - 87)
      else if 65 \<le> n \<and> n \<le> 70 then Some (n - 55)
      else None)"

fun parse_hex_digits :: "nat \<Rightarrow> string \<Rightarrow> nat option" where
  "parse_hex_digits acc [] = Some acc"
| "parse_hex_digits acc (c # cs) =
     Option.bind (hex_value c) (\<lambda>d.
       if acc * 16 + d < U64_LIMIT then parse_hex_digits (acc * 16 + d) cs else None)"

definition parse_hex :: "string \<Rightarrow> nat option" where
  "parse_hex s =
     (let d = (case s of c # cs \<Rightarrow> if c = CHR ''+'' then cs else s | [] \<Rightarrow> s) in
      if d = [] then None else parse_hex_digits 0 d)"

datatype store_error =
    RootUnavailable | UnsafeRoot | InvalidSessionId | InvalidHeader | Busy | StoreBusy | NotFound | Changed
  | WorkspaceMismatch | Unsupported | Corrupt | StoreCancelled | Limit | Io | WriterStopped | Poisoned

definition canonical_hex_u64 :: "string \<Rightarrow> store_error + nat" where
  "canonical_hex_u64 v =
     (if v = [] then Inl Corrupt
      else bindR (ok_or Corrupt (parse_hex v)) (\<lambda>n. if hex_text n \<noteq> v then Inl Corrupt else Inr n))"

definition strip_newline :: "string \<Rightarrow> string option" where
  "strip_newline line = (if line \<noteq> [] \<and> last line = CHR 0x0A then Some (butlast line) else None)"

definition decode_header_line ::
  "externals \<Rightarrow> (string \<Rightarrow> json option) \<Rightarrow> string \<Rightarrow> string \<Rightarrow> store_error + session_header \<times> workspace_identity" where
  "decode_header_line E parse line expected =
     bindR (ok_or Corrupt (strip_newline line)) (\<lambda>payload.
     bindR (ok_or Corrupt (parse payload)) (\<lambda>v.
     bindR (ok_or Corrupt (as_object v)) (\<lambda>m.
       if get_str m ''type'' \<noteq> Some ''session'' then Inl Corrupt
       else
         let m = obj_remove ''type'' m in
         bindR (ok_or Corrupt (case map_of m ''version'' of
                  Some (JInt i) \<Rightarrow> if 0 \<le> i then Some (nat i) else None | _ \<Rightarrow> None)) (\<lambda>version.
           if version \<noteq> SESSION_FORMAT_VERSION then Inl Unsupported
           else
             bindR (map_err (\<lambda>_. Corrupt) (header_from_value E (JObject m))) (\<lambda>h.
             bindR (map_err (\<lambda>_. Corrupt) (header_validate_for h expected)) (\<lambda>_.
               if sh_cwd h = None then Inl Corrupt
               else
                 bindR (ok_or Corrupt (as_object (jv_value (sh_raw h)))) (\<lambda>raw.
                 bindR (ok_or Corrupt (case map_of raw ''delegationDepth'' of
                          Some (JInt i) \<Rightarrow> if 0 \<le> i \<and> nat i \<le> MAX_SAFE_INTEGER then Some (nat i) else None
                        | _ \<Rightarrow> None)) (\<lambda>_.
                 bindR (ok_or Corrupt (Option.bind (map_of raw ''rustWorkspaceIdentity'') as_object)) (\<lambda>ident.
                 bindR (ok_or Corrupt (get_str ident ''device'')) (\<lambda>d.
                 bindR (canonical_hex_u64 d) (\<lambda>device.
                 bindR (ok_or Corrupt (get_str ident ''inode'')) (\<lambda>n.
                 bindR (canonical_hex_u64 n) (\<lambda>inode.
                   Inr (h, \<lparr>wi_device = device, wi_inode = inode\<rparr>))))))))))))))"

end
