(* ===== verification/Event_Codec.thy ===== *)
theory Event_Codec
  imports Session_Header "HOL-Library.Monad_Syntax"
begin

text \<open>
  The JSON form of session events (\<open>src/session/codec.rs\<close>): the payload of every kind, the
  envelope around it, and the decoder that reads both back.  A derived \<open>Deserialize\<close> is a
  partial function on JSON; a missing field of a type that reads an \<open>Option\<close> is \<open>None\<close>, as
  \<open>serde\<close> documents.  The detail texts of errors are left out.
\<close>

section \<open>Writing and reading fields\<close>

abbreviation JNat :: "nat \<Rightarrow> json" where
  "JNat n \<equiv> JInt (int n)"

text \<open>\<open>skip_serializing_if = "Option::is_none"\<close>.\<close>

definition opt_field :: "string \<Rightarrow> ('a \<Rightarrow> json) \<Rightarrow> 'a option \<Rightarrow> fields" where
  "opt_field k f x = (case x of None \<Rightarrow> [] | Some y \<Rightarrow> [(k, f y)])"

definition field :: "fields \<Rightarrow> string \<Rightarrow> (json \<Rightarrow> 'a option) \<Rightarrow> 'a option" where
  "field m k de = Option.bind (map_of m k) de"

text \<open>\<open>deserialize_present_option\<close>: absent, or present and not null.\<close>

definition present_option :: "fields \<Rightarrow> string \<Rightarrow> (json \<Rightarrow> 'a option) \<Rightarrow> 'a option option" where
  "present_option m k de = (case map_of m k of None \<Rightarrow> Some None | Some v \<Rightarrow> map_option Some (de v))"

text \<open>An \<open>Option\<close> field: absent and null are the same.\<close>

definition de_option :: "(json \<Rightarrow> 'a option) \<Rightarrow> json \<Rightarrow> 'a option option" where
  "de_option de v = (case v of JNull \<Rightarrow> Some None | _ \<Rightarrow> map_option Some (de v))"

definition default_option :: "fields \<Rightarrow> string \<Rightarrow> (json \<Rightarrow> 'a option) \<Rightarrow> 'a option option" where
  "default_option m k de = (case map_of m k of None \<Rightarrow> Some None | Some v \<Rightarrow> de_option de v)"

text \<open>\<open>deny_unknown_fields\<close>.\<close>

definition strict_fields :: "string list \<Rightarrow> json \<Rightarrow> fields option" where
  "strict_fields keys v =
     do { m \<leftarrow> struct_fields keys v;
          if set (map fst m) \<subseteq> set keys then Some m else None }"

definition de_vec :: "(json \<Rightarrow> 'a option) \<Rightarrow> json \<Rightarrow> 'a list option" where
  "de_vec de v = Option.bind (as_array v) (de_list de)"

definition de_true_marker :: "json \<Rightarrow> unit option" where
  "de_true_marker v = (if as_bool v = Some True then Some () else None)"

definition de_json_value :: "externals \<Rightarrow> json \<Rightarrow> json_value option" where
  "de_json_value E v = ok_value (json_value_new E v)"

text \<open>\<open>EventSeq\<close> and the one-based identifiers.\<close>

abbreviation de_seq :: "json \<Rightarrow> nat option" where
  "de_seq \<equiv> safe_u64 False"

abbreviation de_nonzero :: "json \<Rightarrow> nat option" where
  "de_nonzero \<equiv> safe_u64 True"

text \<open>\<open>serialize_js_number\<close>, for the numbers an admitted value holds.\<close>

definition number_json :: "number \<Rightarrow> json" where
  "number_json n = (case n of NumInt i \<Rightarrow> JInt i | NumFloat w \<Rightarrow> JFloat w)"

text \<open>A unit variant among named ones.\<close>

definition de_variant :: "(string \<times> 'a) list \<Rightarrow> json \<Rightarrow> 'a option" where
  "de_variant vs v = Option.bind (unit_variant v) (map_of vs)"

section \<open>Payload parts\<close>

definition cause_json :: "cancel_cause \<Rightarrow> json" where
  "cause_json c =
     (case c of
        CauseUser \<Rightarrow> obj_of [(''kind'', JString ''user'')]
      | CauseParent \<Rightarrow> obj_of [(''kind'', JString ''parent'')]
      | CauseHook r \<Rightarrow> obj_of [(''kind'', JString ''hook''), (''reason'', JString r)]
      | CauseDisposed \<Rightarrow> obj_of [(''kind'', JString ''disposed'')]
      | CauseLegacy \<Rightarrow> obj_of [(''kind'', JString ''legacy'')])"

definition turn_end_json :: "turn_end_reason \<Rightarrow> json" where
  "turn_end_json r =
     (case r of
        TurnCompleted \<Rightarrow> obj_of [(''kind'', JString ''completed'')]
      | TurnAborted c \<Rightarrow> obj_of [(''kind'', JString ''aborted''), (''reason'', cause_json c)]
      | TurnBlocked \<Rightarrow> obj_of [(''kind'', JString ''blocked'')]
      | TurnError f \<Rightarrow> obj_of [(''kind'', JString ''error''), (''error'', jv_value (lf_raw f))]
      | TurnMaxTokens \<Rightarrow> obj_of [(''kind'', JString ''max-tokens'')]
      | TurnInterrupted \<Rightarrow> obj_of [(''kind'', JString ''interrupted'')]
      | TurnOther _ raw \<Rightarrow> jv_value raw)"

definition todo_status_names :: "(string \<times> todo_status) list" where
  "todo_status_names =
     [(''pending'', TodoPending), (''in_progress'', TodoInProgress), (''completed'', TodoCompleted)]"

definition todo_status_text :: "todo_status \<Rightarrow> string" where
  "todo_status_text s =
     (case s of TodoPending \<Rightarrow> ''pending'' | TodoInProgress \<Rightarrow> ''in_progress'' | TodoCompleted \<Rightarrow> ''completed'')"

definition todo_item_json :: "todo_item \<Rightarrow> json" where
  "todo_item_json t =
     obj_of [(''content'', JString (todo_content t)), (''status'', JString (todo_status_text (todo_status t)))]"

definition de_todo_item :: "json \<Rightarrow> todo_item option" where
  "de_todo_item v =
     do { m \<leftarrow> struct_fields [''content'', ''status''] v;
          c \<leftarrow> field m ''content'' as_str;
          s \<leftarrow> field m ''status'' (de_variant todo_status_names);
          Some \<lparr>todo_content = c, todo_status = s\<rparr> }"

definition marker :: "bool \<Rightarrow> unit option" where
  "marker b = (if b then Some () else None)"

definition adapter_defaults_json :: "adapter_defaults \<Rightarrow> json" where
  "adapter_defaults_json d =
     obj_of (opt_field ''reasoningEffort'' (\<lambda>_. JBool True) (marker (ad_reasoning_effort d))
       @ opt_field ''maxTokens'' (\<lambda>_. JBool True) (marker (ad_max_tokens d)))"

definition de_adapter_defaults :: "json \<Rightarrow> adapter_defaults option" where
  "de_adapter_defaults v =
     do { m \<leftarrow> strict_fields [''reasoningEffort'', ''maxTokens''] v;
          r \<leftarrow> present_option m ''reasoningEffort'' de_true_marker;
          t \<leftarrow> present_option m ''maxTokens'' de_true_marker;
          Some \<lparr>ad_reasoning_effort = (r \<noteq> None), ad_max_tokens = (t \<noteq> None)\<rparr> }"

definition epoch_header_json :: "epoch_header \<Rightarrow> json" where
  "epoch_header_json h =
     obj_of ([(''config'', jv_value (cc_raw (eh_config h)))]
       @ opt_field ''adapterDefaults'' adapter_defaults_json (eh_adapter_defaults h)
       @ opt_field ''system'' JString (eh_system h)
       @ opt_field ''tools'' (\<lambda>ts. JArray (map (\<lambda>t. jv_value (ts_raw t)) ts)) (eh_tools h))"

definition de_epoch_header :: "externals \<Rightarrow> json \<Rightarrow> epoch_header option" where
  "de_epoch_header E v =
     do { m \<leftarrow> struct_fields [''config'', ''adapterDefaults'', ''system'', ''tools''] v;
          c \<leftarrow> field m ''config'' (\<lambda>j. ok_value (config_from_value E j));
          d \<leftarrow> present_option m ''adapterDefaults'' de_adapter_defaults;
          s \<leftarrow> present_option m ''system'' as_str;
          ts \<leftarrow> present_option m ''tools'' (de_vec (\<lambda>j. ok_value (tool_schema_from_value E j)));
          Some \<lparr>eh_config = c, eh_adapter_defaults = d, eh_system = s, eh_tools = ts\<rparr> }"

definition header_reason_text :: "request_header_reason \<Rightarrow> string" where
  "header_reason_text r =
     (case r of ReasonInitial \<Rightarrow> ''initial'' | ReasonResume \<Rightarrow> ''resume'' | ReasonChange \<Rightarrow> ''change''
      | ReasonOther s \<Rightarrow> s)"

definition de_header_reason :: "json \<Rightarrow> request_header_reason option" where
  "de_header_reason v =
     Option.bind (as_str v) (\<lambda>s.
       if s = ''initial'' then Some ReasonInitial
       else if s = ''resume'' then Some ReasonResume
       else if s = ''change'' then Some ReasonChange
       else if s = ''fallback'' then None
       else Some (ReasonOther s))"

definition tool_failure_json :: "tool_failure \<Rightarrow> json" where
  "tool_failure_json f = obj_of [(''name'', JString (tf_name f)), (''code'', JString (tf_code f))]"

definition de_tool_failure :: "json \<Rightarrow> tool_failure option" where
  "de_tool_failure v =
     do { m \<leftarrow> struct_fields [''name'', ''code''] v;
          n \<leftarrow> field m ''name'' as_str;
          c \<leftarrow> field m ''code'' as_str;
          Some \<lparr>tf_name = n, tf_code = c\<rparr> }"

section \<open>Retries and approvals\<close>

definition retry_mode_names :: "(string \<times> llm_retry_mode) list" where
  "retry_mode_names = [(''normal'', RetryNormal), (''always'', RetryAlways)]"

definition retry_mode_text :: "llm_retry_mode \<Rightarrow> string" where
  "retry_mode_text m = (case m of RetryNormal \<Rightarrow> ''normal'' | RetryAlways \<Rightarrow> ''always'')"

definition llm_retry_json :: "llm_retry_event \<Rightarrow> json" where
  "llm_retry_json r =
     obj_of ([(''retryId'', JString (lr_retry_id r)), (''turn'', JNat (lr_turn r)), (''step'', JNat (lr_step r)),
       (''provider'', JString (lr_provider r)), (''mode'', JString (retry_mode_text (lr_mode r))),
       (''policyKey'', JString (lr_policy_key r)), (''retry'', JNat (lr_retry r))]
       @ opt_field ''maxRetries'' JNat (lr_max_retries r)
       @ [(''delayMs'', number_json (lr_delay_ms r)), (''failure'', jv_value (lf_raw (lr_failure r)))])"

definition de_llm_retry_event :: "externals \<Rightarrow> json \<Rightarrow> llm_retry_event option" where
  "de_llm_retry_event E v =
     do { m \<leftarrow> struct_fields [''retryId'', ''turn'', ''step'', ''provider'', ''mode'', ''policyKey'', ''retry'',
                  ''maxRetries'', ''delayMs'', ''failure''] v;
          i \<leftarrow> field m ''retryId'' as_str;
          turn \<leftarrow> field m ''turn'' de_nonzero;
          step \<leftarrow> field m ''step'' de_nonzero;
          p \<leftarrow> field m ''provider'' as_str;
          mode \<leftarrow> field m ''mode'' (de_variant retry_mode_names);
          key \<leftarrow> field m ''policyKey'' as_str;
          retry \<leftarrow> field m ''retry'' de_nonzero;
          mx \<leftarrow> present_option m ''maxRetries'' de_nonzero;
          delay \<leftarrow> field m ''delayMs'' de_finite_number;
          f \<leftarrow> field m ''failure'' (\<lambda>j. ok_value (failure_from_value E j));
          Some \<lparr>lr_retry_id = i, lr_turn = turn, lr_step = step, lr_provider = p, lr_mode = mode,
                lr_policy_key = key, lr_retry = retry, lr_max_retries = mx, lr_delay_ms = delay, lr_failure = f\<rparr> }"

definition retry_started_json :: "llm_retry_started_event \<Rightarrow> json" where
  "retry_started_json s =
     obj_of [(''retryId'', JString (ls_retry_id s)), (''turn'', JNat (ls_turn s)), (''step'', JNat (ls_step s)),
       (''retry'', JNat (ls_retry s))]"

definition de_retry_started :: "json \<Rightarrow> llm_retry_started_event option" where
  "de_retry_started v =
     do { m \<leftarrow> struct_fields [''retryId'', ''turn'', ''step'', ''retry''] v;
          i \<leftarrow> field m ''retryId'' as_str;
          turn \<leftarrow> field m ''turn'' de_nonzero;
          step \<leftarrow> field m ''step'' de_nonzero;
          retry \<leftarrow> field m ''retry'' de_nonzero;
          Some \<lparr>ls_retry_id = i, ls_turn = turn, ls_step = step, ls_retry = retry\<rparr> }"

definition outcome_names :: "(string \<times> approval_outcome) list" where
  "outcome_names = [(''allowed-once'', AllowedOnce), (''rejected'', ApprovalRejected),
     (''cancelled'', Cancelled), (''unavailable'', Unavailable)]"

definition outcome_text :: "approval_outcome \<Rightarrow> string" where
  "outcome_text o1 =
     (case o1 of AllowedOnce \<Rightarrow> ''allowed-once'' | ApprovalRejected \<Rightarrow> ''rejected''
      | Cancelled \<Rightarrow> ''cancelled'' | Unavailable \<Rightarrow> ''unavailable'')"

definition asked_json :: "approval_asked_event \<Rightarrow> json" where
  "asked_json a =
     obj_of ([(''id'', JString (aa_id a)), (''toolName'', JString (aa_tool_name a))]
       @ opt_field ''callId'' JString (aa_call_id a) @ opt_field ''reason'' JString (aa_reason a))"

definition de_asked :: "json \<Rightarrow> approval_asked_event option" where
  "de_asked v =
     do { m \<leftarrow> struct_fields [''id'', ''toolName'', ''callId'', ''reason''] v;
          i \<leftarrow> field m ''id'' as_str;
          t \<leftarrow> field m ''toolName'' as_str;
          c \<leftarrow> present_option m ''callId'' as_str;
          r \<leftarrow> present_option m ''reason'' as_str;
          Some \<lparr>aa_id = i, aa_tool_name = t, aa_call_id = c, aa_reason = r\<rparr> }"

definition decided_json :: "approval_decided_event \<Rightarrow> json" where
  "decided_json d = obj_of [(''id'', JString (ap_id d)), (''outcome'', JString (outcome_text (ap_outcome d)))]"

definition de_decided :: "json \<Rightarrow> approval_decided_event option" where
  "de_decided v =
     do { m \<leftarrow> struct_fields [''id'', ''outcome''] v;
          i \<leftarrow> field m ''id'' as_str;
          r \<leftarrow> field m ''outcome'' (de_variant outcome_names);
          Some \<lparr>ap_id = i, ap_outcome = r\<rparr> }"

section \<open>Compaction payloads\<close>

definition seqs_json :: "nat list \<Rightarrow> json" where
  "seqs_json xs = JArray (map JNat xs)"

definition range_json :: "compaction_range \<Rightarrow> json" where
  "range_json r = obj_of [(''start'', JNat (cr_start r)), (''end'', JNat (cr_end r))]"

definition de_range :: "json \<Rightarrow> compaction_range option" where
  "de_range v =
     do { m \<leftarrow> strict_fields [''start'', ''end''] v;
          s \<leftarrow> field m ''start'' de_seq;
          e \<leftarrow> field m ''end'' de_seq;
          Some \<lparr>cr_start = s, cr_end = e\<rparr> }"

definition trigger_names :: "(string \<times> compaction_trigger) list" where
  "trigger_names = [(''pressure'', Pressure), (''context-overflow'', ContextOverflow), (''hard-limit'', HardLimit)]"

definition trigger_text :: "compaction_trigger \<Rightarrow> string" where
  "trigger_text t =
     (case t of Pressure \<Rightarrow> ''pressure'' | ContextOverflow \<Rightarrow> ''context-overflow'' | HardLimit \<Rightarrow> ''hard-limit'')"

definition snapshot_mode_names :: "(string \<times> retry_mode_snapshot) list" where
  "snapshot_mode_names = [(''normal'', NormalRetry), (''always'', AlwaysRetry)]"

definition snapshot_mode_text :: "retry_mode_snapshot \<Rightarrow> string" where
  "snapshot_mode_text m = (case m of NormalRetry \<Rightarrow> ''normal'' | AlwaysRetry \<Rightarrow> ''always'')"

definition purpose_names :: "(string \<times> request_purpose) list" where
  "purpose_names =
     [(''conversation'', Conversation), (''session-title'', SessionTitle), (''compaction'', CompactionPurpose)]"

definition purpose_text :: "request_purpose \<Rightarrow> string" where
  "purpose_text p =
     (case p of Conversation \<Rightarrow> ''conversation'' | SessionTitle \<Rightarrow> ''session-title''
      | CompactionPurpose \<Rightarrow> ''compaction'')"

definition backoff_json :: "retry_backoff_snapshot \<Rightarrow> json" where
  "backoff_json b =
     obj_of [(''initialDelayMs'', number_json (rb_initial_delay_ms b)),
       (''maxDelayMs'', number_json (rb_max_delay_ms b)), (''jitterRatio'', number_json (rb_jitter_ratio b))]"

definition de_backoff :: "json \<Rightarrow> retry_backoff_snapshot option" where
  "de_backoff v =
     do { m \<leftarrow> strict_fields [''initialDelayMs'', ''maxDelayMs'', ''jitterRatio''] v;
          i \<leftarrow> field m ''initialDelayMs'' de_positive_finite;
          x \<leftarrow> field m ''maxDelayMs'' de_positive_finite;
          j \<leftarrow> field m ''jitterRatio'' de_finite_number;
          Some \<lparr>rb_initial_delay_ms = i, rb_max_delay_ms = x, rb_jitter_ratio = j\<rparr> }"

definition retry_policy_json :: "retry_policy_snapshot \<Rightarrow> json" where
  "retry_policy_json p =
     obj_of ([(''mode'', JString (snapshot_mode_text (rp_mode p)))]
       @ opt_field ''maxRetries'' JNat (rp_max_retries p)
       @ [(''retryableCodes'', JArray (map JString (rp_retryable_codes p))),
          (''backoff'', backoff_json (rp_backoff p))])"

definition de_retry_policy :: "json \<Rightarrow> retry_policy_snapshot option" where
  "de_retry_policy v =
     do { m \<leftarrow> strict_fields [''mode'', ''maxRetries'', ''retryableCodes'', ''backoff''] v;
          mode \<leftarrow> field m ''mode'' (de_variant snapshot_mode_names);
          mx \<leftarrow> present_option m ''maxRetries'' (safe_u64 False);
          codes \<leftarrow> field m ''retryableCodes'' (de_vec as_str);
          b \<leftarrow> field m ''backoff'' de_backoff;
          Some \<lparr>rp_mode = mode, rp_max_retries = mx, rp_retryable_codes = codes, rp_backoff = b\<rparr> }"

definition prepared_call_json :: "prepared_compaction_call \<Rightarrow> json" where
  "prepared_call_json p =
     obj_of ([(''config'', jv_value (cc_raw (pc_config p))),
          (''adapterDefaults'', adapter_defaults_json (pc_adapter_defaults p))]
       @ opt_field ''contextWindow'' JNat (pc_context_window p)
       @ [(''retryPolicy'', retry_policy_json (pc_retry_policy p))])"

definition de_prepared_call :: "externals \<Rightarrow> json \<Rightarrow> prepared_compaction_call option" where
  "de_prepared_call E v =
     do { m \<leftarrow> strict_fields [''config'', ''adapterDefaults'', ''contextWindow'', ''retryPolicy''] v;
          c \<leftarrow> field m ''config'' (\<lambda>j. ok_value (config_from_value E j));
          d \<leftarrow> field m ''adapterDefaults'' de_adapter_defaults;
          w \<leftarrow> present_option m ''contextWindow'' (safe_u64 False);
          r \<leftarrow> field m ''retryPolicy'' de_retry_policy;
          Some \<lparr>pc_config = c, pc_adapter_defaults = d, pc_context_window = w, pc_retry_policy = r\<rparr> }"

definition dispatch_json :: "dispatch_snapshot \<Rightarrow> json" where
  "dispatch_json d =
     obj_of ([(''trigger'', JString (trigger_text (ds_trigger d))),
          (''sourceSurfaceGeneration'', JNat (ds_source_surface_generation d)),
          (''shadowedRange'', range_json (ds_shadowed_range d)),
          (''shadowedSeqs'', seqs_json (ds_shadowed_seqs d)),
          (''preparedCall'', prepared_call_json (ds_prepared_call d))]
       @ opt_field ''requestHeaderSeq'' JNat (ds_request_header_seq d)
       @ opt_field ''requestContextSeq'' JNat (ds_request_context_seq d)
       @ opt_field ''system'' JString (ds_system d)
       @ [(''tools'', JArray (map (\<lambda>t. jv_value (ts_raw t)) (ds_tools d))),
          (''sessionId'', JString (ds_session_id d)),
          (''purpose'', JString (purpose_text (ds_purpose d))),
          (''instruction'', jv_value (msg_raw (ds_instruction d))),
          (''instructionFormatVersion'', JNat (ds_instruction_format_version d))])"

definition de_dispatch :: "externals \<Rightarrow> json \<Rightarrow> dispatch_snapshot option" where
  "de_dispatch E v =
     do { m \<leftarrow> strict_fields [''trigger'', ''sourceSurfaceGeneration'', ''shadowedRange'', ''shadowedSeqs'',
                  ''preparedCall'', ''requestHeaderSeq'', ''requestContextSeq'', ''system'', ''tools'',
                  ''sessionId'', ''purpose'', ''instruction'', ''instructionFormatVersion''] v;
          t \<leftarrow> field m ''trigger'' (de_variant trigger_names);
          g \<leftarrow> field m ''sourceSurfaceGeneration'' (safe_u64 False);
          r \<leftarrow> field m ''shadowedRange'' de_range;
          xs \<leftarrow> field m ''shadowedSeqs'' (de_vec de_seq);
          c \<leftarrow> field m ''preparedCall'' (de_prepared_call E);
          hs \<leftarrow> present_option m ''requestHeaderSeq'' de_seq;
          cs \<leftarrow> present_option m ''requestContextSeq'' de_seq;
          sys \<leftarrow> present_option m ''system'' as_str;
          ts \<leftarrow> field m ''tools'' (de_vec (\<lambda>j. ok_value (tool_schema_from_value E j)));
          sid \<leftarrow> field m ''sessionId'' as_str;
          p \<leftarrow> field m ''purpose'' (de_variant purpose_names);
          i \<leftarrow> field m ''instruction'' (\<lambda>j. ok_value (message_from_value E j));
          fv \<leftarrow> field m ''instructionFormatVersion'' (safe_u64 False);
          Some \<lparr>ds_trigger = t, ds_source_surface_generation = g, ds_shadowed_range = r, ds_shadowed_seqs = xs,
                ds_prepared_call = c, ds_request_header_seq = hs, ds_request_context_seq = cs, ds_system = sys,
                ds_tools = ts, ds_session_id = sid, ds_purpose = p, ds_instruction = i,
                ds_instruction_format_version = fv\<rparr> }"

text \<open>
  \<open>CompactionOwner\<close> reads an optional turn.  In an object a missing \<open>turn\<close> is read as null; in an
  array it is an error.
\<close>

definition owner_json :: "nat option \<Rightarrow> json" where
  "owner_json t = (case t of None \<Rightarrow> JNull | Some n \<Rightarrow> JNat n)"

definition de_owner :: "json \<Rightarrow> fields \<Rightarrow> nat option option" where
  "de_owner v m =
     (case map_of m ''turn'' of
        Some t \<Rightarrow> de_option de_nonzero t
      | None \<Rightarrow> if as_object v = None then None else Some None)"

definition compaction_start_json :: "compaction_start_event \<Rightarrow> json" where
  "compaction_start_json s =
     obj_of ([(''compactionId'', JString (cs_compaction_id s))]
       @ opt_field ''sourceCommandId'' JString (cs_source_command_id s)
       @ [(''turn'', owner_json (cs_turn s))]
       @ opt_field ''dispatch'' dispatch_json (cs_dispatch s))"

definition de_compaction_start :: "externals \<Rightarrow> json \<Rightarrow> compaction_start_event option" where
  "de_compaction_start E v =
     do { m \<leftarrow> struct_fields [''compactionId'', ''sourceCommandId'', ''turn'', ''dispatch''] v;
          i \<leftarrow> field m ''compactionId'' as_str;
          c \<leftarrow> present_option m ''sourceCommandId'' as_str;
          t \<leftarrow> de_owner v m;
          d \<leftarrow> present_option m ''dispatch'' (de_dispatch E);
          Some \<lparr>cs_compaction_id = i, cs_source_command_id = c, cs_turn = t, cs_dispatch = d\<rparr> }"

definition blocks_json :: "content_block list \<Rightarrow> json" where
  "blocks_json bs = JArray (map (\<lambda>b. jv_value (cb_raw b)) bs)"

definition de_blocks :: "externals \<Rightarrow> json \<Rightarrow> content_block list option" where
  "de_blocks E = de_vec (\<lambda>j. ok_value (block_from_value E j))"

definition compaction_summary_json :: "compaction_summary_event \<Rightarrow> json" where
  "compaction_summary_json s =
     obj_of ([(''compactionId'', JString (cm_compaction_id s))]
       @ opt_field ''sourceCommandId'' JString (cm_source_command_id s)
       @ [(''summary'', blocks_json (cm_summary s))]
       @ opt_field ''rawOutput'' blocks_json (cm_raw_output s)
       @ opt_field ''llmStreamCall'' (\<lambda>_. JBool True) (marker (cm_llm_stream_call s))
       @ [(''shadowedRange'', range_json (cm_shadowed_range s)),
          (''shadowedSeqs'', seqs_json (cm_shadowed_seqs s)),
          (''shadowedTokenCount'', JNat (cm_shadowed_token_count s)),
          (''provider'', JString (cm_provider s)), (''model'', JString (cm_model s))]
       @ opt_field ''maxTokens'' JNat (cm_max_tokens s)
       @ opt_field ''usage'' (\<lambda>u. jv_value (tu_raw u)) (cm_usage s))"

definition de_compaction_summary :: "externals \<Rightarrow> json \<Rightarrow> compaction_summary_event option" where
  "de_compaction_summary E v =
     do { m \<leftarrow> struct_fields [''compactionId'', ''sourceCommandId'', ''summary'', ''rawOutput'', ''llmStreamCall'',
                  ''shadowedRange'', ''shadowedSeqs'', ''shadowedTokenCount'', ''provider'', ''model'',
                  ''maxTokens'', ''usage''] v;
          i \<leftarrow> field m ''compactionId'' as_str;
          c \<leftarrow> present_option m ''sourceCommandId'' as_str;
          bs \<leftarrow> field m ''summary'' (de_blocks E);
          raw \<leftarrow> present_option m ''rawOutput'' (de_blocks E);
          l \<leftarrow> present_option m ''llmStreamCall'' de_true_marker;
          r \<leftarrow> field m ''shadowedRange'' de_range;
          xs \<leftarrow> field m ''shadowedSeqs'' (de_vec de_seq);
          n \<leftarrow> field m ''shadowedTokenCount'' (safe_u64 False);
          p \<leftarrow> field m ''provider'' as_str;
          md \<leftarrow> field m ''model'' as_str;
          mt \<leftarrow> present_option m ''maxTokens'' (safe_u64 False);
          u \<leftarrow> present_option m ''usage'' (\<lambda>j. ok_value (usage_from_value E j));
          Some \<lparr>cm_compaction_id = i, cm_source_command_id = c, cm_summary = bs, cm_raw_output = raw,
                cm_llm_stream_call = (l \<noteq> None), cm_shadowed_range = r, cm_shadowed_seqs = xs,
                cm_shadowed_token_count = n, cm_provider = p, cm_model = md, cm_max_tokens = mt, cm_usage = u\<rparr> }"

definition end_error_json :: "compaction_end_error \<Rightarrow> json" where
  "end_error_json e = (case e of EndFailure f \<Rightarrow> jv_value (lf_raw f) | LegacyString s \<Rightarrow> JString s)"

definition de_end_error :: "externals \<Rightarrow> json \<Rightarrow> compaction_end_error option" where
  "de_end_error E v =
     (case failure_from_value E v of
        Inr f \<Rightarrow> Some (EndFailure f)
      | Inl _ \<Rightarrow> map_option LegacyString (as_str v))"

definition compaction_end_json :: "compaction_end_event \<Rightarrow> json" where
  "compaction_end_json e =
     obj_of ([(''compactionId'', JString (ce_compaction_id e))]
       @ opt_field ''sourceCommandId'' JString (ce_source_command_id e)
       @ [(''turn'', owner_json (ce_turn e))]
       @ opt_field ''error'' end_error_json (ce_error e))"

definition de_compaction_end :: "externals \<Rightarrow> json \<Rightarrow> compaction_end_event option" where
  "de_compaction_end E v =
     do { m \<leftarrow> struct_fields [''compactionId'', ''sourceCommandId'', ''turn'', ''error''] v;
          i \<leftarrow> field m ''compactionId'' as_str;
          c \<leftarrow> present_option m ''sourceCommandId'' as_str;
          t \<leftarrow> de_owner v m;
          x \<leftarrow> present_option m ''error'' (de_end_error E);
          Some \<lparr>ce_compaction_id = i, ce_source_command_id = c, ce_turn = t, ce_error = x\<rparr> }"

definition compaction_prune_json :: "compaction_prune_event \<Rightarrow> json" where
  "compaction_prune_json p =
     obj_of [(''shadowedRange'', range_json (cp_shadowed_range p)),
       (''shadowedSeqs'', seqs_json (cp_shadowed_seqs p)),
       (''shadowedTokenCount'', JNat (cp_shadowed_token_count p))]"

definition de_compaction_prune :: "json \<Rightarrow> compaction_prune_event option" where
  "de_compaction_prune v =
     do { m \<leftarrow> struct_fields [''shadowedRange'', ''shadowedSeqs'', ''shadowedTokenCount''] v;
          r \<leftarrow> field m ''shadowedRange'' de_range;
          xs \<leftarrow> field m ''shadowedSeqs'' (de_vec de_seq);
          n \<leftarrow> field m ''shadowedTokenCount'' (safe_u64 False);
          Some \<lparr>cp_shadowed_range = r, cp_shadowed_seqs = xs, cp_shadowed_token_count = n\<rparr> }"

section \<open>Payloads\<close>

definition kind_data_value :: "event_kind \<Rightarrow> json" where
  "kind_data_value k =
     (let turn_step = (\<lambda>turn step. [(''turn'', JNat turn), (''step'', JNat step)]) in
      case k of
        TurnStart turn \<Rightarrow> obj_of [(''turn'', JNat turn)]
      | TurnEnd turn r \<Rightarrow> obj_of [(''turn'', JNat turn), (''reason'', turn_end_json r)]
      | StepStart turn step \<Rightarrow> obj_of (turn_step turn step)
      | StepEnd turn step \<Rightarrow> obj_of (turn_step turn step)
      | UserMessage m \<Rightarrow> jv_value (msg_raw m)
      | AssistantChunk turn step c \<Rightarrow> obj_of (turn_step turn step @ [(''chunk'', jv_value (sc_raw c))])
      | AssistantMessage turn step m u \<Rightarrow>
          obj_of (turn_step turn step @ [(''message'', jv_value (msg_raw m))]
            @ opt_field ''usage'' (\<lambda>u. jv_value (tu_raw u)) u)
      | ToolCall turn step i n a \<Rightarrow>
          obj_of (turn_step turn step @ [(''callId'', JString i), (''name'', JString n), (''arguments'', JString a)])
      | ToolResult turn step m e meta \<Rightarrow>
          obj_of (turn_step turn step @ [(''message'', jv_value (msg_raw m))]
            @ opt_field ''error'' tool_failure_json e @ opt_field ''meta'' jv_value meta)
      | TodoWrite ts \<Rightarrow> obj_of [(''todos'', JArray (map todo_item_json ts))]
      | RequestHeader h r \<Rightarrow>
          obj_of [(''header'', epoch_header_json h), (''reason'', JString (header_reason_text r))]
      | RequestContext c \<Rightarrow> jv_value (rc_raw c)
      | LlmRetry r \<Rightarrow> llm_retry_json r
      | LlmRetryStarted s \<Rightarrow> retry_started_json s
      | ApprovalAsked a \<Rightarrow> asked_json a
      | ApprovalDecided d \<Rightarrow> decided_json d
      | CompactionStart s \<Rightarrow> compaction_start_json s
      | CompactionSummary s \<Rightarrow> compaction_summary_json s
      | CompactionEnd e \<Rightarrow> compaction_end_json e
      | CompactionPrune p \<Rightarrow> compaction_prune_json p
      | EndSeed \<Rightarrow> obj_of []
      | UnknownEvent _ data \<Rightarrow> jv_value data)"

section \<open>Decoding\<close>

datatype codec_error =
    DurableSnapshotUnavailable
  | CodecSyntax
  | SnapshotTooLarge nat nat
  | TooManyEvents nat nat
  | SnapshotEnvelope
  | EventEnvelope nat
  | EventData nat
  | EventPayload nat string
  | UnknownRequiredEvent nat string
  | CodecHeader header_error

text \<open>The payload of a kind, as the derived readers of the wire structs take it apart.\<close>

definition turn_step_fields :: "string list \<Rightarrow> json \<Rightarrow> (fields \<times> nat \<times> nat) option" where
  "turn_step_fields keys v =
     do { m \<leftarrow> struct_fields ([''turn'', ''step''] @ keys) v;
          turn \<leftarrow> field m ''turn'' de_nonzero;
          step \<leftarrow> field m ''step'' de_nonzero;
          Some (m, turn, step) }"

definition de_turn_start :: "json \<Rightarrow> event_kind option" where
  "de_turn_start v =
     do { m \<leftarrow> struct_fields [''turn''] v; turn \<leftarrow> field m ''turn'' de_nonzero; Some (TurnStart turn) }"

definition de_turn_end :: "externals \<Rightarrow> json \<Rightarrow> event_kind option" where
  "de_turn_end E v =
     do { m \<leftarrow> struct_fields [''turn'', ''reason''] v;
          turn \<leftarrow> field m ''turn'' de_nonzero;
          r \<leftarrow> field m ''reason'' (\<lambda>j. ok_value (turn_end_from_value E j));
          Some (TurnEnd turn r) }"

definition de_assistant_chunk :: "externals \<Rightarrow> json \<Rightarrow> event_kind option" where
  "de_assistant_chunk E v =
     do { (m, turn, step) \<leftarrow> turn_step_fields [''chunk''] v;
          c \<leftarrow> field m ''chunk'' (\<lambda>j. ok_value (chunk_from_value E j));
          Some (AssistantChunk turn step c) }"

definition de_assistant_message :: "externals \<Rightarrow> json \<Rightarrow> event_kind option" where
  "de_assistant_message E v =
     do { (m, turn, step) \<leftarrow> turn_step_fields [''message'', ''usage''] v;
          msg \<leftarrow> field m ''message'' (\<lambda>j. ok_value (message_from_value E j));
          u \<leftarrow> present_option m ''usage'' (\<lambda>j. ok_value (usage_from_value E j));
          Some (AssistantMessage turn step msg u) }"

definition de_tool_call :: "json \<Rightarrow> event_kind option" where
  "de_tool_call v =
     do { (m, turn, step) \<leftarrow> turn_step_fields [''callId'', ''name'', ''arguments''] v;
          i \<leftarrow> field m ''callId'' as_str;
          n \<leftarrow> field m ''name'' as_str;
          a \<leftarrow> field m ''arguments'' as_str;
          Some (ToolCall turn step i n a) }"

definition de_tool_result :: "externals \<Rightarrow> json \<Rightarrow> event_kind option" where
  "de_tool_result E v =
     do { (m, turn, step) \<leftarrow> turn_step_fields [''message'', ''error'', ''meta''] v;
          msg \<leftarrow> field m ''message'' (\<lambda>j. ok_value (message_from_value E j));
          e \<leftarrow> default_option m ''error'' de_tool_failure;
          meta \<leftarrow> default_option m ''meta'' (de_json_value E);
          Some (ToolResult turn step msg e meta) }"

definition de_request_header :: "externals \<Rightarrow> json \<Rightarrow> event_kind option" where
  "de_request_header E v =
     do { m \<leftarrow> struct_fields [''header'', ''reason''] v;
          h \<leftarrow> field m ''header'' (de_epoch_header E);
          r \<leftarrow> field m ''reason'' de_header_reason;
          Some (RequestHeader h r) }"

definition de_todo_write :: "json \<Rightarrow> event_kind option" where
  "de_todo_write v =
     do { m \<leftarrow> struct_fields [''todos''] v; ts \<leftarrow> field m ''todos'' (de_vec de_todo_item); Some (TodoWrite ts) }"

definition de_step :: "(nat \<Rightarrow> nat \<Rightarrow> event_kind) \<Rightarrow> json \<Rightarrow> event_kind option" where
  "de_step C v = map_option (\<lambda>(m, turn, step). C turn step) (turn_step_fields [] v)"

text \<open>The known kinds and their readers.\<close>

definition kind_readers :: "externals \<Rightarrow> (string \<times> (json \<Rightarrow> event_kind option)) list" where
  "kind_readers E =
     [(''turn/start'', de_turn_start),
      (''turn/end'', de_turn_end E),
      (''step/start'', de_step StepStart),
      (''step/end'', de_step StepEnd),
      (''user/message'', \<lambda>v. map_option UserMessage (ok_value (message_from_value E v))),
      (''assistant/chunk'', de_assistant_chunk E),
      (''assistant/message'', de_assistant_message E),
      (''tool/call'', de_tool_call),
      (''tool/result'', de_tool_result E),
      (''todo/write'', de_todo_write),
      (''request/header'', de_request_header E),
      (''request/context'', \<lambda>v. map_option RequestContext (ok_value (request_context_from_value E v))),
      (''llm/retry'', \<lambda>v. map_option LlmRetry (de_llm_retry_event E v)),
      (''llm/retry-started'', \<lambda>v. map_option LlmRetryStarted (de_retry_started v)),
      (''approval/asked'', \<lambda>v. map_option ApprovalAsked (de_asked v)),
      (''approval/decided'', \<lambda>v. map_option ApprovalDecided (de_decided v)),
      (''compaction/start'', \<lambda>v. map_option CompactionStart (de_compaction_start E v)),
      (''compaction/summary'', \<lambda>v. map_option CompactionSummary (de_compaction_summary E v)),
      (''compaction/end'', \<lambda>v. map_option CompactionEnd (de_compaction_end E v)),
      (''compaction/prune'', \<lambda>v. map_option CompactionPrune (de_compaction_prune v)),
      (''session/end-seed'', \<lambda>v. map_option (\<lambda>_. EndSeed) (struct_fields [] v))]"

definition decode_kind ::
  "externals \<Rightarrow> string \<Rightarrow> json \<Rightarrow> bool \<Rightarrow> nat \<Rightarrow> json_value \<Rightarrow> codec_error + event_kind" where
  "decode_kind E t data ignorable index original =
     (case map_of (kind_readers E) t of
        Some reader \<Rightarrow> ok_or (EventPayload index t) (reader data)
      | None \<Rightarrow> if ignorable then Inr (UnknownEvent t original) else Inl (UnknownRequiredEvent index t))"

text \<open>\<open>SurfaceOp\<close> is untagged: the string, else the strict struct with its marker.\<close>

definition surface_op_json :: "surface_op \<Rightarrow> json" where
  "surface_op_json op =
     (case op of
        SurfaceAppend \<Rightarrow> JString ''append''
      | SurfaceReplace a b \<Rightarrow> obj_of [(''op'', JString ''replace''), (''start'', JNat a), (''end'', JNat b)])"

definition de_surface_op :: "json \<Rightarrow> surface_op option" where
  "de_surface_op v =
     (if as_str v = Some ''append'' then Some SurfaceAppend
      else
        do { m \<leftarrow> strict_fields [''op'', ''start'', ''end''] v;
             _ \<leftarrow> field m ''op'' (de_variant [(''replace'', ())]);
             a \<leftarrow> field m ''start'' de_seq;
             b \<leftarrow> field m ''end'' de_seq;
             Some (SurfaceReplace a b) })"

definition EVENT_FIELDS :: "string list" where
  "EVENT_FIELDS = [''type'', ''seq'', ''time'', ''data'', ''sourceEventSeqs'', ''surfaceOp'', ''ignorable'']"

text \<open>The envelope, its fields in the order they are written.\<close>

definition event_fields :: "session_event \<Rightarrow> fields" where
  "event_fields e =
     [(''type'', JString (event_type (ev_kind e))), (''seq'', JNat (ev_seq e)), (''time'', JInt (ev_time e)),
      (''data'', jv_value (ev_original_data e))]
     @ opt_field ''sourceEventSeqs'' seqs_json (ev_source_event_seqs e)
     @ opt_field ''surfaceOp'' surface_op_json (ev_surface_op e)
     @ opt_field ''ignorable'' (\<lambda>_. JBool True) (marker (ev_ignorable e))"

definition take_field :: "nat \<Rightarrow> 'a option \<Rightarrow> codec_error + 'a" where
  "take_field index x = ok_or (EventEnvelope index) x"

definition decode_event :: "externals \<Rightarrow> json \<Rightarrow> nat \<Rightarrow> codec_error + session_event" where
  "decode_event E v index =
     bindR (take_field index (as_object v)) (\<lambda>m.
       if \<not> set (map fst m) \<subseteq> set EVENT_FIELDS then Inl (EventEnvelope index)
       else
         bindR (take_field index (field m ''type'' as_str)) (\<lambda>t.
           if t = ''request/header-delta'' then Inl (EventEnvelope index)
           else
             bindR (take_field index (field m ''seq'' de_seq)) (\<lambda>seq.
             bindR (take_field index (field m ''time'' safe_i64)) (\<lambda>time.
             bindR (take_field index (map_of m ''data'')) (\<lambda>data.
             bindR (take_field index (present_option m ''sourceEventSeqs'' (de_vec de_seq))) (\<lambda>sources.
             bindR (take_field index (present_option m ''surfaceOp'' de_surface_op)) (\<lambda>op.
             bindR (take_field index (present_option m ''ignorable'' de_true_marker)) (\<lambda>ign.
             bindR (ok_or (EventData index) (de_json_value E data)) (\<lambda>original.
             bindR (decode_kind E t data (ign \<noteq> None) index original) (\<lambda>kind.
               Inr \<lparr>ev_seq = seq, ev_time = time, ev_kind = kind, ev_surface_op = op,
                    ev_source_event_seqs = sources, ev_ignorable = (ign \<noteq> None),
                    ev_original_data = original\<rparr>))))))))))"

text \<open>\<open>decode_raw_tool_result_kind\<close>: the typed facts of a raw result, without its extensions.\<close>

definition decode_raw_tool_result_kind :: "externals \<Rightarrow> json_value \<Rightarrow> codec_error + event_kind" where
  "decode_raw_tool_result_kind E data =
     bindR (take_field 0 (as_object (jv_value data))) (\<lambda>m.
     bindR (take_field 0 (field m ''turn'' de_nonzero)) (\<lambda>turn.
     bindR (take_field 0 (field m ''step'' de_nonzero)) (\<lambda>step.
     bindR (take_field 0 (map_of m ''message'')) (\<lambda>msg.
     bindR (ok_or (EventData 0) (ok_value (message_from_value E msg))) (\<lambda>msg.
     bindR (ok_or (EventPayload 0 ''tool/result'') (default_option m ''error'' de_tool_failure)) (\<lambda>err.
     bindR (ok_or (EventData 0) (default_option m ''meta'' (de_json_value E))) (\<lambda>meta.
       Inr (ToolResult turn step msg err meta))))))))"

end
