(* ===== verification/Codec_Proofs.thy ===== *)
theory Codec_Proofs
  imports Event_Codec "HOL-Library.Code_Target_Numeral"
begin

text \<open>
  Reading back what was written: a live event that was admitted decodes, from its JSON envelope,
  to the same event.
\<close>

section \<open>Objects and fields\<close>

definition obj_map :: "fields \<Rightarrow> fields" where
  "obj_map kvs = fold (\<lambda>(k, v). obj_insert k v) kvs []"

lemma obj_of_obj_map: "obj_of kvs = JObject (obj_map kvs)"
  by (simp add: obj_of_def obj_map_def)

lemma map_of_obj_map: "map_of (obj_map kvs) k = map_of (rev kvs) k"
  by (simp add: obj_map_def map_of_fold_insert split: option.split)

lemma set_obj_insert: "set (obj_insert k v m) \<subseteq> insert (k, v) (set m)"
  by (induction m) (auto split: if_splits)

lemma set_fold_insert: "set (fold (\<lambda>(k, v). obj_insert k v) kvs m) \<subseteq> set kvs \<union> set m"
  using set_obj_insert by (induction kvs arbitrary: m) fastforce+

lemma set_obj_map: "set (obj_map kvs) \<subseteq> set kvs"
  using set_fold_insert[of kvs "[]"] by (simp add: obj_map_def)

lemma keys_obj_map: "fst ` set kvs \<subseteq> S \<Longrightarrow> fst ` set (obj_map kvs) \<subseteq> S"
  using set_obj_map[of kvs] by blast

text \<open>Lookups in a written object are computed from the list of its fields.\<close>

definition or_else :: "'a option \<Rightarrow> 'a option \<Rightarrow> 'a option" where
  "or_else a b = (case a of None \<Rightarrow> b | Some _ \<Rightarrow> a)"

lemma or_else_None: "or_else a None = a"
  by (simp add: or_else_def split: option.split)

lemma map_of_opt_field:
  "map_of (opt_field k f x @ m) k' = (if k' = k then or_else (map_option f x) (map_of m k') else map_of m k')"
  by (auto simp: opt_field_def or_else_def split: option.split)

lemma map_of_opt_field_end: "map_of (opt_field k f x) k' = (if k' = k then map_option f x else None)"
  by (auto simp: opt_field_def split: option.split)

lemma rev_opt_field: "rev (opt_field k f x) = opt_field k f x"
  by (simp add: opt_field_def split: option.split)

lemma keys_opt_field: "fst ` set (opt_field k f x) \<subseteq> {k}"
  by (auto simp: opt_field_def split: option.split)

lemma struct_fields_obj: "struct_fields keys (obj_of kvs) = Some (obj_map kvs)"
  by (simp add: obj_of_obj_map)

lemma strict_fields_obj:
  "fst ` set kvs \<subseteq> set keys \<Longrightarrow> strict_fields keys (obj_of kvs) = Some (obj_map kvs)"
  by (simp add: strict_fields_def struct_fields_obj keys_obj_map)

lemma de_list_map: "(\<And>x. x \<in> set xs \<Longrightarrow> de (ser x) = Some x) \<Longrightarrow> de_list de (map ser xs) = Some xs"
  by (induction xs) auto

lemma de_vec_map: "\<forall>x\<in>set xs. de (ser x) = Some x \<Longrightarrow> de_vec de (JArray (map ser xs)) = Some xs"
  by (simp add: de_vec_def de_list_map)

text \<open>An optional field that was written is read.\<close>

definition read_option :: "(json \<Rightarrow> 'a option) \<Rightarrow> json option \<Rightarrow> 'a option option" where
  "read_option de v = (case v of None \<Rightarrow> Some None | Some v \<Rightarrow> map_option Some (de v))"

lemma present_option_read: "present_option m k de = read_option de (map_of m k)"
  by (simp add: present_option_def read_option_def)

lemma read_option_None: "read_option de None = Some None"
  by (simp add: read_option_def)

lemma read_option_written:
  "\<forall>y. x = Some y \<longrightarrow> de (f y) = Some y \<Longrightarrow> read_option de (map_option f x) = Some x"
  by (cases x) (auto simp: read_option_def)

section \<open>Well-formed parts\<close>

definition nonzero_ok :: "nat \<Rightarrow> bool" where
  "nonzero_ok n = (0 < n \<and> n \<le> MAX_SAFE_INTEGER)"

definition seq_ok :: "nat \<Rightarrow> bool" where
  "seq_ok n = (n \<le> MAX_SAFE_INTEGER)"

definition time_ok :: "int \<Rightarrow> bool" where
  "time_ok t = (nat \<bar>t\<bar> \<le> MAX_SAFE_INTEGER)"

definition number_wf :: "number \<Rightarrow> bool" where
  "number_wf n = (case n of NumInt _ \<Rightarrow> True | NumFloat w \<Rightarrow> f64_is_finite w \<and> f64_integer w = None)"

text \<open>A value that keeps its JSON is the one its reader makes of that JSON.\<close>

abbreviation message_wf :: "externals \<Rightarrow> message \<Rightarrow> bool" where
  "message_wf E m \<equiv> message_from_value E (jv_value (msg_raw m)) = Inr m"

abbreviation chunk_wf :: "externals \<Rightarrow> stream_chunk \<Rightarrow> bool" where
  "chunk_wf E c \<equiv> chunk_from_value E (jv_value (sc_raw c)) = Inr c"

abbreviation usage_wf :: "externals \<Rightarrow> token_usage \<Rightarrow> bool" where
  "usage_wf E u \<equiv> usage_from_value E (jv_value (tu_raw u)) = Inr u"

abbreviation failure_wf :: "externals \<Rightarrow> llm_failure \<Rightarrow> bool" where
  "failure_wf E f \<equiv> failure_from_value E (jv_value (lf_raw f)) = Inr f"

abbreviation config_wf :: "externals \<Rightarrow> call_config \<Rightarrow> bool" where
  "config_wf E c \<equiv> config_from_value E (jv_value (cc_raw c)) = Inr c"

abbreviation schema_wf :: "externals \<Rightarrow> tool_schema \<Rightarrow> bool" where
  "schema_wf E t \<equiv> tool_schema_from_value E (jv_value (ts_raw t)) = Inr t"

abbreviation block_wf :: "externals \<Rightarrow> content_block \<Rightarrow> bool" where
  "block_wf E b \<equiv> block_from_value E (jv_value (cb_raw b)) = Inr b"

abbreviation context_wf :: "externals \<Rightarrow> request_context \<Rightarrow> bool" where
  "context_wf E c \<equiv> request_context_from_value E (jv_value (rc_raw c)) = Inr c"

abbreviation value_wf :: "externals \<Rightarrow> json_value \<Rightarrow> bool" where
  "value_wf E v \<equiv> json_value_new E (jv_value v) = Inr v"

abbreviation opt_all :: "('a \<Rightarrow> bool) \<Rightarrow> 'a option \<Rightarrow> bool" where
  "opt_all P x \<equiv> (\<forall>y. x = Some y \<longrightarrow> P y)"

definition reason_wf :: "externals \<Rightarrow> turn_end_reason \<Rightarrow> bool" where
  "reason_wf E r =
     (case r of
        TurnError f \<Rightarrow> failure_wf E f
      | TurnOther _ raw \<Rightarrow> turn_end_from_value E (jv_value raw) = Inr r
      | _ \<Rightarrow> True)"

definition header_wf :: "externals \<Rightarrow> epoch_header \<Rightarrow> bool" where
  "header_wf E h = (config_wf E (eh_config h) \<and> opt_all (list_all (schema_wf E)) (eh_tools h))"

definition header_reason_wf :: "request_header_reason \<Rightarrow> bool" where
  "header_reason_wf r = (\<forall>s. r = ReasonOther s \<longrightarrow> s \<notin> {''initial'', ''resume'', ''change'', ''fallback''})"

definition retry_wf :: "externals \<Rightarrow> llm_retry_event \<Rightarrow> bool" where
  "retry_wf E r =
     (nonzero_ok (lr_turn r) \<and> nonzero_ok (lr_step r) \<and> nonzero_ok (lr_retry r)
      \<and> opt_all nonzero_ok (lr_max_retries r) \<and> number_wf (lr_delay_ms r) \<and> failure_wf E (lr_failure r))"

definition range_wf :: "compaction_range \<Rightarrow> bool" where
  "range_wf r = (seq_ok (cr_start r) \<and> seq_ok (cr_end r))"

definition backoff_wf :: "retry_backoff_snapshot \<Rightarrow> bool" where
  "backoff_wf b =
     (number_wf (rb_initial_delay_ms b) \<and> number_wf (rb_max_delay_ms b) \<and> number_wf (rb_jitter_ratio b)
      \<and> number_positive (rb_initial_delay_ms b) \<and> number_positive (rb_max_delay_ms b))"

definition prepared_call_wf :: "externals \<Rightarrow> prepared_compaction_call \<Rightarrow> bool" where
  "prepared_call_wf E p =
     (config_wf E (pc_config p) \<and> opt_all seq_ok (pc_context_window p)
      \<and> opt_all seq_ok (rp_max_retries (pc_retry_policy p)) \<and> backoff_wf (rp_backoff (pc_retry_policy p)))"

definition dispatch_wf :: "externals \<Rightarrow> dispatch_snapshot \<Rightarrow> bool" where
  "dispatch_wf E d =
     (seq_ok (ds_source_surface_generation d) \<and> range_wf (ds_shadowed_range d) \<and> list_all seq_ok (ds_shadowed_seqs d)
      \<and> prepared_call_wf E (ds_prepared_call d) \<and> opt_all seq_ok (ds_request_header_seq d)
      \<and> opt_all seq_ok (ds_request_context_seq d) \<and> list_all (schema_wf E) (ds_tools d)
      \<and> message_wf E (ds_instruction d) \<and> seq_ok (ds_instruction_format_version d))"

definition summary_wf :: "externals \<Rightarrow> compaction_summary_event \<Rightarrow> bool" where
  "summary_wf E s =
     (list_all (block_wf E) (cm_summary s) \<and> opt_all (list_all (block_wf E)) (cm_raw_output s)
      \<and> range_wf (cm_shadowed_range s) \<and> list_all seq_ok (cm_shadowed_seqs s) \<and> seq_ok (cm_shadowed_token_count s)
      \<and> opt_all seq_ok (cm_max_tokens s) \<and> opt_all (usage_wf E) (cm_usage s))"

definition end_error_wf :: "externals \<Rightarrow> compaction_end_error \<Rightarrow> bool" where
  "end_error_wf E e = (case e of EndFailure f \<Rightarrow> failure_wf E f | LegacyString _ \<Rightarrow> True)"

text \<open>The events a program can make.\<close>

definition kind_wf :: "externals \<Rightarrow> event_kind \<Rightarrow> bool" where
  "kind_wf E k =
     (case k of
        TurnStart turn \<Rightarrow> nonzero_ok turn
      | TurnEnd turn r \<Rightarrow> nonzero_ok turn \<and> reason_wf E r
      | StepStart turn step \<Rightarrow> nonzero_ok turn \<and> nonzero_ok step
      | StepEnd turn step \<Rightarrow> nonzero_ok turn \<and> nonzero_ok step
      | UserMessage m \<Rightarrow> message_wf E m
      | AssistantChunk turn step c \<Rightarrow> nonzero_ok turn \<and> nonzero_ok step \<and> chunk_wf E c
      | AssistantMessage turn step m u \<Rightarrow>
          nonzero_ok turn \<and> nonzero_ok step \<and> message_wf E m \<and> opt_all (usage_wf E) u
      | ToolCall turn step _ _ _ \<Rightarrow> nonzero_ok turn \<and> nonzero_ok step
      | ToolResult turn step m _ meta \<Rightarrow>
          nonzero_ok turn \<and> nonzero_ok step \<and> message_wf E m
          \<and> opt_all (value_wf E) meta
      | TodoWrite _ \<Rightarrow> True
      | RequestHeader h r \<Rightarrow> header_wf E h \<and> header_reason_wf r
      | RequestContext c \<Rightarrow> context_wf E c
      | LlmRetry r \<Rightarrow> retry_wf E r
      | LlmRetryStarted s \<Rightarrow> nonzero_ok (ls_turn s) \<and> nonzero_ok (ls_step s) \<and> nonzero_ok (ls_retry s)
      | ApprovalAsked _ \<Rightarrow> True
      | ApprovalDecided _ \<Rightarrow> True
      | CompactionStart s \<Rightarrow> opt_all nonzero_ok (cs_turn s) \<and> opt_all (dispatch_wf E) (cs_dispatch s)
      | CompactionSummary s \<Rightarrow> summary_wf E s
      | CompactionEnd e \<Rightarrow> opt_all nonzero_ok (ce_turn e) \<and> opt_all (end_error_wf E) (ce_error e)
      | CompactionPrune p \<Rightarrow>
          range_wf (cp_shadowed_range p) \<and> list_all seq_ok (cp_shadowed_seqs p) \<and> seq_ok (cp_shadowed_token_count p)
      | EndSeed \<Rightarrow> True
      | UnknownEvent _ _ \<Rightarrow> False)"

lemma safe_u64_written:
  "nonzero_ok n \<Longrightarrow> de_nonzero (JNat n) = Some n"
  "seq_ok n \<Longrightarrow> de_seq (JNat n) = Some n"
  by (auto simp: safe_u64_def nonzero_ok_def seq_ok_def)

lemma safe_i64_written: "time_ok t \<Longrightarrow> safe_i64 (JInt t) = Some t"
  by (simp add: safe_i64_def time_ok_def)

lemma number_written:
  "number_wf n \<Longrightarrow> de_finite_number (number_json n) = Some n"
  "number_wf n \<Longrightarrow> number_positive n \<Longrightarrow> de_positive_finite (number_json n) = Some n"
proof -
  have "de_f64 (number_json n) = Some n" if "number_wf n"
    using that by (auto simp: number_json_def number_wf_def de_f64_def split: number.splits)
  moreover have "\<not> is_negative_zero (number_json n)" if "number_wf n"
    using that by (auto simp: number_json_def number_wf_def is_negative_zero_def f64_integer_def f64_magnitude_def
        f64_is_finite_def f64_is_zero_def Let_def split: number.splits)
  moreover have "number_finite n" if "number_wf n"
    using that by (auto simp: number_finite_def number_wf_def split: number.splits)
  ultimately show "number_wf n \<Longrightarrow> de_finite_number (number_json n) = Some n"
    "number_wf n \<Longrightarrow> number_positive n \<Longrightarrow> de_positive_finite (number_json n) = Some n"
    by (simp_all add: de_finite_number_def de_positive_finite_def)
qed

section \<open>Parts are read back\<close>

declare map_of_append [simp del]

lemma de_true_marker_written: "de_true_marker (JBool True) = Some ()"
  by (simp add: de_true_marker_def)

lemma marker_present: "(marker b = Some ()) = b" "(marker b = None) = (\<not> b)"
  by (simp_all add: marker_def)

lemmas written = struct_fields_obj strict_fields_obj field_def present_option_read map_of_obj_map
  map_of_opt_field map_of_opt_field_end rev_opt_field or_else_None read_option_None read_option_written
  de_true_marker_written ok_value_def marker_present de_vec_map list_all_iff

lemma cause_written: "de_cancel_cause (cause_json c) = Some c"
  by (cases c) (simp_all add: cause_json_def de_cancel_cause_def get_str_def obj_of_def unit_cause_def)

lemma todo_item_written: "de_todo_item (todo_item_json t) = Some t"
  by (cases t; cases "todo_status t")
     (auto simp: todo_item_json_def de_todo_item_def written de_variant_def todo_status_names_def todo_status_text_def)

lemma adapter_defaults_written: "de_adapter_defaults (adapter_defaults_json d) = Some d"
proof -
  have "strict_fields [''reasoningEffort'', ''maxTokens''] (adapter_defaults_json d)
      = Some (obj_map (opt_field ''reasoningEffort'' (\<lambda>_. JBool True) (marker (ad_reasoning_effort d))
          @ opt_field ''maxTokens'' (\<lambda>_. JBool True) (marker (ad_max_tokens d))))"
    unfolding adapter_defaults_json_def by (rule strict_fields_obj) (auto simp: opt_field_def split: option.splits)
  then show ?thesis by (simp add: de_adapter_defaults_def written)
qed

lemma epoch_header_written: "header_wf E h \<Longrightarrow> de_epoch_header E (epoch_header_json h) = Some h"
  by (simp add: header_wf_def epoch_header_json_def de_epoch_header_def written adapter_defaults_written)

lemma header_reason_written: "header_reason_wf r \<Longrightarrow> de_header_reason (JString (header_reason_text r)) = Some r"
  by (cases r) (auto simp: header_reason_wf_def de_header_reason_def header_reason_text_def)

lemma tool_failure_written: "de_tool_failure (tool_failure_json f) = Some f"
  by (simp add: de_tool_failure_def tool_failure_json_def written)

lemma llm_retry_written: "retry_wf E r \<Longrightarrow> de_llm_retry_event E (llm_retry_json r) = Some r"
  by (cases "lr_mode r")
     (simp_all add: retry_wf_def llm_retry_json_def de_llm_retry_event_def written safe_u64_written number_written
       de_variant_def retry_mode_names_def retry_mode_text_def)

lemma retry_started_written:
  "nonzero_ok (ls_turn s) \<Longrightarrow> nonzero_ok (ls_step s) \<Longrightarrow> nonzero_ok (ls_retry s)
     \<Longrightarrow> de_retry_started (retry_started_json s) = Some s"
  by (simp add: de_retry_started_def retry_started_json_def written safe_u64_written)

lemma asked_written: "de_asked (asked_json a) = Some a"
  by (simp add: de_asked_def asked_json_def written)

lemma decided_written: "de_decided (decided_json d) = Some d"
  by (cases "ap_outcome d")
     (simp_all add: de_decided_def decided_json_def written de_variant_def outcome_names_def outcome_text_def)

section \<open>Compaction payloads are read back\<close>

lemma seqs_written: "list_all seq_ok xs \<Longrightarrow> de_vec de_seq (seqs_json xs) = Some xs"
  unfolding seqs_json_def by (rule de_vec_map) (auto simp: list_all_iff safe_u64_written)

lemma strings_written: "de_vec as_str (JArray (map JString xs)) = Some xs"
  by (rule de_vec_map) simp

lemma range_written: "range_wf r \<Longrightarrow> de_range (range_json r) = Some r"
  by (simp add: range_wf_def range_json_def de_range_def written safe_u64_written)

lemma backoff_written: "backoff_wf b \<Longrightarrow> de_backoff (backoff_json b) = Some b"
  by (simp add: backoff_wf_def backoff_json_def de_backoff_def written number_written)

lemma retry_policy_written:
  assumes "opt_all seq_ok (rp_max_retries p)" "backoff_wf (rp_backoff p)"
  shows "de_retry_policy (retry_policy_json p) = Some p"
proof -
  let ?kvs = "[(''mode'', JString (snapshot_mode_text (rp_mode p)))]
       @ opt_field ''maxRetries'' JNat (rp_max_retries p)
       @ [(''retryableCodes'', JArray (map JString (rp_retryable_codes p))),
          (''backoff'', backoff_json (rp_backoff p))]"
  have f: "strict_fields [''mode'', ''maxRetries'', ''retryableCodes'', ''backoff''] (retry_policy_json p) = Some (obj_map ?kvs)"
    unfolding retry_policy_json_def by (rule strict_fields_obj) (auto simp: opt_field_def split: option.splits)
  have m: "de_variant snapshot_mode_names (JString (snapshot_mode_text (rp_mode p))) = Some (rp_mode p)"
    by (cases "rp_mode p") (simp_all add: de_variant_def snapshot_mode_names_def snapshot_mode_text_def)
  show ?thesis unfolding de_retry_policy_def f using assms
    by (simp add: written m safe_u64_written backoff_written strings_written)
qed

lemma prepared_call_written:
  assumes "prepared_call_wf E p"
  shows "de_prepared_call E (prepared_call_json p) = Some p"
proof -
  let ?kvs = "[(''config'', jv_value (cc_raw (pc_config p))),
          (''adapterDefaults'', adapter_defaults_json (pc_adapter_defaults p))]
       @ opt_field ''contextWindow'' JNat (pc_context_window p)
       @ [(''retryPolicy'', retry_policy_json (pc_retry_policy p))]"
  have f: "strict_fields [''config'', ''adapterDefaults'', ''contextWindow'', ''retryPolicy''] (prepared_call_json p)
      = Some (obj_map ?kvs)"
    unfolding prepared_call_json_def by (rule strict_fields_obj) (auto simp: opt_field_def split: option.splits)
  show ?thesis unfolding de_prepared_call_def f using assms
    by (simp add: prepared_call_wf_def written safe_u64_written adapter_defaults_written retry_policy_written)
qed

lemma trigger_written: "de_variant trigger_names (JString (trigger_text t)) = Some t"
  by (cases t) (simp_all add: de_variant_def trigger_names_def trigger_text_def)

lemma purpose_written: "de_variant purpose_names (JString (purpose_text p)) = Some p"
  by (cases p) (simp_all add: de_variant_def purpose_names_def purpose_text_def)

lemma dispatch_written:
  assumes "dispatch_wf E d"
  shows "de_dispatch E (dispatch_json d) = Some d"
proof -
  let ?kvs = "[(''trigger'', JString (trigger_text (ds_trigger d))),
          (''sourceSurfaceGeneration'', JNat (ds_source_surface_generation d)),
          (''shadowedRange'', range_json (ds_shadowed_range d)),
          (''shadowedSeqs'', seqs_json (ds_shadowed_seqs d)),
          (''preparedCall'', prepared_call_json (ds_prepared_call d))]
       @ opt_field ''requestHeaderSeq'' JNat (ds_request_header_seq d)
       @ opt_field ''requestContextSeq'' JNat (ds_request_context_seq d)
       @ opt_field ''system'' JString (ds_system d)
       @ [(''tools'', JArray (map (\<lambda>t. jv_value (ts_raw t)) (ds_tools d))),
          (''sessionId'', JString (ds_session_id d)),
          (''purpose'', JString (purpose_text (ds_purpose d))),
          (''instruction'', jv_value (msg_raw (ds_instruction d))),
          (''instructionFormatVersion'', JNat (ds_instruction_format_version d))]"
  have f: "strict_fields [''trigger'', ''sourceSurfaceGeneration'', ''shadowedRange'', ''shadowedSeqs'',
                  ''preparedCall'', ''requestHeaderSeq'', ''requestContextSeq'', ''system'', ''tools'',
                  ''sessionId'', ''purpose'', ''instruction'', ''instructionFormatVersion''] (dispatch_json d)
      = Some (obj_map ?kvs)"
    unfolding dispatch_json_def by (rule strict_fields_obj) (auto simp: opt_field_def split: option.splits)
  show ?thesis unfolding de_dispatch_def f using assms
    by (simp add: dispatch_wf_def written safe_u64_written trigger_written purpose_written range_written
        seqs_written[unfolded list_all_iff] prepared_call_written)
qed

lemma owner_written:
  assumes "map_of m ''turn'' = Some (owner_json t)" "opt_all nonzero_ok t"
  shows "de_owner v m = Some t"
  using assms by (cases t) (simp_all add: de_owner_def owner_json_def de_option_def safe_u64_written)

lemma compaction_start_written:
  assumes "opt_all nonzero_ok (cs_turn s)" "opt_all (dispatch_wf E) (cs_dispatch s)"
  shows "de_compaction_start E (compaction_start_json s) = Some s"
  using assms
  by (simp add: de_compaction_start_def compaction_start_json_def written dispatch_written
      owner_written[where t = "cs_turn s"])

lemma blocks_written: "list_all (block_wf E) bs \<Longrightarrow> de_blocks E (blocks_json bs) = Some bs"
  unfolding de_blocks_def blocks_json_def by (rule de_vec_map) (auto simp: list_all_iff ok_value_def)

lemma compaction_summary_written:
  assumes "summary_wf E s"
  shows "de_compaction_summary E (compaction_summary_json s) = Some s"
  using assms
  by (simp add: summary_wf_def de_compaction_summary_def compaction_summary_json_def written safe_u64_written
      blocks_written[unfolded list_all_iff] range_written seqs_written[unfolded list_all_iff])

lemma end_error_written: "end_error_wf E e \<Longrightarrow> de_end_error E (end_error_json e) = Some e"
proof (cases e)
  case (LegacyString m)
  have "\<exists>x. failure_from_value E (JString m) = Inl x"
    by (auto simp: failure_from_value_def new_value_def json_value_new_def object_def bindR_def Let_def map_err_def
        split: sum.split)
  then show ?thesis using LegacyString by (auto simp: de_end_error_def end_error_json_def)
qed (simp add: end_error_wf_def de_end_error_def end_error_json_def)

lemma compaction_end_written:
  assumes "opt_all nonzero_ok (ce_turn e)" "opt_all (end_error_wf E) (ce_error e)"
  shows "de_compaction_end E (compaction_end_json e) = Some e"
  using assms
  by (simp add: de_compaction_end_def compaction_end_json_def written end_error_written
      owner_written[where t = "ce_turn e"])

lemma compaction_prune_written:
  assumes "range_wf (cp_shadowed_range p)" "list_all seq_ok (cp_shadowed_seqs p)" "seq_ok (cp_shadowed_token_count p)"
  shows "de_compaction_prune (compaction_prune_json p) = Some p"
  using assms
  by (simp add: de_compaction_prune_def compaction_prune_json_def written safe_u64_written range_written
      seqs_written[unfolded list_all_iff])

section \<open>Normal values\<close>

abbreviation normal :: "json \<Rightarrow> bool" where
  "normal v \<equiv> normalize_numbers v = v"

lemma normal_obj: "list_all (\<lambda>p. normal (snd p)) kvs \<Longrightarrow> normal (obj_of kvs)"
  unfolding obj_of_obj_map normalize_numbers.simps list_all_iff using set_obj_map[of kvs]
  by (fastforce intro!: map_idI)

lemma list_all_opt_field: "list_all P (opt_field k f x) = opt_all (\<lambda>y. P (k, f y)) x"
  by (auto simp: opt_field_def split: option.split)

lemma normal_raw: "json_value_new E v = Inr raw \<Longrightarrow> normal (jv_value raw)"
  using json_value_new_value by (metis normalize_idem)

lemma parsed_raw:
  "message_from_value E v = Inr m \<Longrightarrow> json_value_new E v = Inr (msg_raw m)"
  "chunk_from_value E v = Inr c \<Longrightarrow> json_value_new E v = Inr (sc_raw c)"
  "usage_from_value E v = Inr u \<Longrightarrow> json_value_new E v = Inr (tu_raw u)"
  "failure_from_value E v = Inr f \<Longrightarrow> json_value_new E v = Inr (lf_raw f)"
  "config_from_value E v = Inr cc \<Longrightarrow> json_value_new E v = Inr (cc_raw cc)"
  "tool_schema_from_value E v = Inr t \<Longrightarrow> json_value_new E v = Inr (ts_raw t)"
  "block_from_value E v = Inr b \<Longrightarrow> json_value_new E v = Inr (cb_raw b)"
  "request_context_from_value E v = Inr rc \<Longrightarrow> json_value_new E v = Inr (rc_raw rc)"
  by (auto simp: message_from_value_def message_from_parts_def chunk_from_value_def usage_from_value_def
      usage_from_parts_def failure_from_value_def config_from_value_def tool_schema_from_value_def
      block_from_value_def request_context_from_value_def new_value_Inr result_simps Let_def split: if_splits)

lemmas parsed_normal = parsed_raw[THEN normal_raw]


section \<open>Parts of an admitted value are admitted\<close>

lemma json_fits_up: "json_fits (Suc d) v \<Longrightarrow> json_fits d v"
proof (induction v arbitrary: d rule: normalize_numbers.induct)
  case (3 m)
  then show ?case by fastforce
qed auto

lemma commas_length: "s \<in> set ss \<Longrightarrow> length s \<le> length (commas ss)"
proof (induction ss rule: commas.induct)
  case (3 a b ss)
  then show ?case by (cases "s = a") auto
qed auto

lemma json_text_field:
  assumes "(k, v) \<in> set m"
  shows "length (json_text E v) \<le> length (json_text E (JObject m))"
proof -
  let ?f = "\<lambda>(k, v). string_text k @ '':'' @ json_text E v"
  have "?f (k, v) \<in> set (map ?f m)" unfolding set_map by (rule imageI[OF assms])
  then have "length (?f (k, v)) \<le> length (commas (map ?f m))" by (rule commas_length)
  moreover have "length (json_text E v) \<le> length (?f (k, v))" by simp
  moreover have "length (commas (map ?f m)) \<le> length (json_text E (JObject m))" by simp
  ultimately show ?thesis by linarith
qed

lemma json_nodes_field: "(k, v) \<in> set m \<Longrightarrow> json_nodes v \<le> json_nodes (JObject m)"
  by (induction m) auto

lemma admitted_field:
  assumes "json_value_new E (JObject m) = Inr raw" "(k, v) \<in> set m" "normal (JObject m)"
  shows "\<exists>r. json_value_new E v = Inr r"
proof -
  have "map (\<lambda>(k, v). (k, normalize_numbers v)) m = map (\<lambda>p. p) m" using assms(3) by simp
  then have "\<forall>p\<in>set m. (case p of (k, v) \<Rightarrow> (k, normalize_numbers v)) = p" unfolding map_eq_conv .
  from bspec[OF this assms(2)] have n: "normal v" by simp
  have raw: "jv_value raw = JObject m" using assms(3) json_value_new_value[OF assms(1)] by simp
  have ok: "json_nodes (JObject m) \<le> MAX_JSON_NODES" "json_fits 0 (JObject m)"
    "length (json_text E (JObject m)) \<le> MAX_JSON_VALUE_BYTES"
    using assms(1)[unfolded json_value_new_iff] raw by metis+
  have f: "json_fits 0 v" using ok(2) assms(2) json_fits_up[of 0 v] by auto
  have l: "length (json_text E v) \<le> MAX_JSON_VALUE_BYTES" using ok(3) json_text_field[OF assms(2), of E] by linarith
  have d: "json_nodes v \<le> MAX_JSON_NODES" using ok(1) json_nodes_field[OF assms(2)] by linarith
  have "json_value_new E v = Inr \<lparr>jv_value = v, jv_encoded_len = length (json_text E v)\<rparr>"
    unfolding json_value_new_iff using d f l n by simp
  then show ?thesis by blast
qed

section \<open>Kinds are read back\<close>

lemma reason_written:
  assumes "reason_wf E r" "json_value_new E (turn_end_json r) = Inr raw"
  shows "turn_end_from_value E (turn_end_json r) = Inr r"
proof -
  have raw: "jv_value raw = normalize_numbers (turn_end_json r)" using assms(2) by (rule json_value_new_value)
  have nv: "new_value E (turn_end_json r) = Inr raw" using assms(2) by (simp add: new_value_Inr)
  have c: "de_cancel_cause (normalize_numbers (cause_json c)) = Some c" for c
    by (cases c) (simp_all add: cause_json_def obj_of_def de_cancel_cause_def get_str_def unit_cause_def byte_def)
  show ?thesis
  proof (cases r)
    case (TurnAborted c)
    then show ?thesis using nv raw c
      by (simp add: turn_end_from_value_def turn_end_json_def obj_of_def turn_end_known_def get_str_def Let_def byte_def)
  next
    case (TurnError f)
    then have "failure_wf E f" using assms(1) by (simp add: reason_wf_def)
    moreover from this have "normal (jv_value (lf_raw f))" by (rule parsed_normal(4))
    ultimately show ?thesis using nv raw TurnError
      by (simp add: turn_end_from_value_def turn_end_json_def obj_of_def turn_end_known_def get_str_def
          Let_def ok_value_def byte_def)
  next
    case (TurnOther k raw)
    then show ?thesis using assms(1) by (simp add: reason_wf_def turn_end_json_def)
  qed (use nv raw in \<open>simp_all add: turn_end_from_value_def turn_end_json_def obj_of_def
        turn_end_known_def get_str_def Let_def\<close>)
qed


text \<open>What is written is normal.\<close>

lemma normal_number: "number_wf n \<Longrightarrow> normal (number_json n)"
  by (auto simp: number_json_def number_wf_def split: number.split)

lemmas normal_simps = normal_obj list_all_opt_field list_all_append list.pred_inject

lemma normal_parts:
  "normal (tool_failure_json tf)" "normal (todo_item_json t)" "normal (adapter_defaults_json d)"
  "normal (retry_started_json s)" "normal (asked_json a)" "normal (decided_json dc)" "normal (range_json r)"
  by (simp_all add: normal_simps tool_failure_json_def todo_item_json_def adapter_defaults_json_def
      retry_started_json_def asked_json_def decided_json_def range_json_def)

lemma normal_choices:
  "normal (cause_json c)" "normal (seqs_json xs)" "normal (owner_json ow)"
  by (simp_all add: normal_simps cause_json_def seqs_json_def owner_json_def split: cancel_cause.split option.split)

lemma turn_end_other:
  assumes "turn_end_from_value E v = Inr (TurnOther k raw)"
  shows "json_value_new E v = Inr raw"
proof -
  obtain raw' where raw': "json_value_new E v = Inr raw'"
    and r: "(case as_object (jv_value raw') of None \<Rightarrow> Inr (TurnOther None raw')
       | Some m \<Rightarrow> Inr (case turn_end_known E m of Some r \<Rightarrow> r | None \<Rightarrow> TurnOther (get_str m ''kind'') raw'))
       = (Inr (TurnOther k raw) :: model_error + turn_end_reason)"
    using assms unfolding turn_end_from_value_def by (auto simp: result_simps new_value_Inr)
  have "turn_end_known E m \<noteq> Some (TurnOther k raw)" for m
    unfolding turn_end_known_def Let_def by (simp split: if_split)
  with r have "raw' = raw" by (cases "as_object (jv_value raw')") (auto split: option.split_asm)
  with raw' show ?thesis by simp
qed

lemma normal_turn_end:
  assumes "reason_wf E r"
  shows "normal (turn_end_json r)"
proof (cases r)
  case (TurnOther k raw)
  then have "turn_end_from_value E (jv_value raw) = Inr (TurnOther k raw)" using assms by (simp add: reason_wf_def)
  from normal_raw[OF turn_end_other[OF this]] show ?thesis using TurnOther by (simp add: turn_end_json_def)
next
  case (TurnError f)
  then have "normal (jv_value (lf_raw f))" using assms by (auto simp: reason_wf_def dest: parsed_normal(4))
  then show ?thesis using TurnError by (simp add: turn_end_json_def normal_simps)
qed (simp_all add: turn_end_json_def normal_simps normal_choices)

lemma normal_schemas: "list_all (schema_wf E) ts \<Longrightarrow> map (normalize_numbers \<circ> (\<lambda>t. jv_value (ts_raw t))) ts = map (\<lambda>t. jv_value (ts_raw t)) ts"
  using parsed_normal(6) by (auto simp: list_all_iff)

lemma normal_blocks: "list_all (block_wf E) bs \<Longrightarrow> normal (blocks_json bs)"
  using parsed_normal(7) by (auto simp: list_all_iff blocks_json_def)

lemma normal_array: "(\<And>x. x \<in> set xs \<Longrightarrow> normal (f x)) \<Longrightarrow> normal (JArray (map f xs))"
  by simp

lemma normal_header:
  assumes "header_wf E h"
  shows "normal (epoch_header_json h)"
proof -
  have "normal (jv_value (cc_raw (eh_config h)))" using assms by (auto simp: header_wf_def dest: parsed_normal(5))
  moreover have "opt_all (\<lambda>ts. normal (JArray (map (\<lambda>t. jv_value (ts_raw t)) ts))) (eh_tools h)"
    using assms normal_schemas by (auto simp: header_wf_def)
  ultimately show ?thesis unfolding epoch_header_json_def
    by (intro normal_obj) (simp add: list_all_opt_field normal_parts)
qed

lemma normal_retry:
  assumes "retry_wf E r"
  shows "normal (llm_retry_json r)"
proof -
  have "normal (jv_value (lf_raw (lr_failure r)))" "normal (number_json (lr_delay_ms r))"
    using assms by (auto simp: retry_wf_def dest: parsed_normal(4) intro: normal_number)
  then show ?thesis unfolding llm_retry_json_def by (intro normal_obj) (simp add: list_all_opt_field)
qed

lemma normal_policy: "backoff_wf (rp_backoff p) \<Longrightarrow> normal (retry_policy_json p)"
  unfolding retry_policy_json_def backoff_json_def backoff_wf_def
  by (intro normal_obj) (simp add: list_all_opt_field normal_obj normal_number)

lemma normal_prepared_call:
  assumes "prepared_call_wf E p"
  shows "normal (prepared_call_json p)"
proof -
  have "normal (jv_value (cc_raw (pc_config p)))" "normal (retry_policy_json (pc_retry_policy p))"
    using assms by (auto simp: prepared_call_wf_def dest: parsed_normal(5) intro: normal_policy)
  then show ?thesis unfolding prepared_call_json_def
    by (intro normal_obj) (simp add: list_all_opt_field normal_parts)
qed

lemma normal_dispatch:
  assumes "dispatch_wf E d"
  shows "normal (dispatch_json d)"
proof -
  have "normal (jv_value (msg_raw (ds_instruction d)))" "normal (prepared_call_json (ds_prepared_call d))"
    "map (normalize_numbers \<circ> (\<lambda>t. jv_value (ts_raw t))) (ds_tools d) = map (\<lambda>t. jv_value (ts_raw t)) (ds_tools d)"
    using assms unfolding dispatch_wf_def
    by (blast dest: parsed_normal(1), blast intro: normal_prepared_call, blast intro: normal_schemas)
  then show ?thesis unfolding dispatch_json_def
    by (intro normal_obj) (simp add: list_all_opt_field normal_parts normal_choices)
qed

lemma normal_compaction:
  "opt_all (dispatch_wf E) (cs_dispatch s) \<Longrightarrow> normal (compaction_start_json s)"
  "opt_all (end_error_wf E) (ce_error e) \<Longrightarrow> normal (compaction_end_json e)"
  "normal (compaction_prune_json p)"
proof -
  have "normal (end_error_json x)" if "end_error_wf E x" for x
    using that by (cases x) (auto simp: end_error_wf_def end_error_json_def dest: parsed_normal(4))
  then show "opt_all (end_error_wf E) (ce_error e) \<Longrightarrow> normal (compaction_end_json e)"
    unfolding compaction_end_json_def by (intro normal_obj) (simp add: list_all_opt_field normal_choices)
  show "opt_all (dispatch_wf E) (cs_dispatch s) \<Longrightarrow> normal (compaction_start_json s)"
    unfolding compaction_start_json_def
    by (intro normal_obj) (auto simp: list_all_opt_field normal_choices intro: normal_dispatch)
  show "normal (compaction_prune_json p)"
    unfolding compaction_prune_json_def by (intro normal_obj) (simp add: normal_choices normal_parts)
qed

lemma normal_summary:
  assumes "summary_wf E s"
  shows "normal (compaction_summary_json s)"
proof -
  have "normal (blocks_json (cm_summary s))" "opt_all (\<lambda>bs. normal (blocks_json bs)) (cm_raw_output s)"
    "opt_all (\<lambda>u. normal (jv_value (tu_raw u))) (cm_usage s)"
    using assms by (auto simp: summary_wf_def intro: normal_blocks dest: parsed_normal(3))
  then show ?thesis unfolding compaction_summary_json_def
    by (intro normal_obj) (simp add: list_all_opt_field normal_choices normal_parts)
qed

lemma normal_kind:
  assumes "kind_wf E k"
  shows "normal (kind_data_value k)"
proof (cases k)
  case (UserMessage m)
  then show ?thesis using assms by (auto simp: kind_wf_def kind_data_value_def Let_def dest: parsed_normal(1))
next
  case (AssistantChunk t st c)
  then have "normal (jv_value (sc_raw c))" using assms by (auto simp: kind_wf_def dest: parsed_normal(2))
  then show ?thesis using AssistantChunk by (simp add: kind_data_value_def Let_def normal_obj)
next
  case (AssistantMessage t st m u)
  then have "normal (jv_value (msg_raw m))" "opt_all (\<lambda>u. normal (jv_value (tu_raw u))) u"
    using assms by (auto simp: kind_wf_def dest: parsed_normal(1,3))
  then show ?thesis using AssistantMessage by (simp add: kind_data_value_def Let_def normal_obj list_all_opt_field)
next
  case (ToolResult t st m e meta)
  then have "normal (jv_value (msg_raw m))" "opt_all (\<lambda>v. normal (jv_value v)) meta"
    using assms by (auto simp: kind_wf_def dest: parsed_normal(1) normal_raw)
  then show ?thesis using ToolResult
    by (simp add: kind_data_value_def Let_def normal_obj list_all_opt_field normal_parts)
next
  case (RequestContext c)
  then show ?thesis using assms by (auto simp: kind_wf_def kind_data_value_def Let_def dest: parsed_normal(8))
qed (use assms in \<open>simp_all add: kind_wf_def kind_data_value_def Let_def normal_obj normal_parts normal_turn_end[of E]
    normal_header[of E] normal_retry[of E] normal_compaction(1)[where E = E] normal_compaction(2)[where E = E] normal_compaction(3) normal_summary[of E] o_def\<close>)

section \<open>Events are read back\<close>

lemma as_str_obj: "as_str (obj_of kvs) = None"
  by (simp add: obj_of_obj_map)

lemma turn_end_written:
  assumes "kind_wf E (TurnEnd turn r)" "json_value_new E (kind_data_value (TurnEnd turn r)) = Inr data"
  shows "de_turn_end E (kind_data_value (TurnEnd turn r)) = Some (TurnEnd turn r)"
proof -
  let ?kvs = "[(''turn'', JNat turn), (''reason'', turn_end_json r)]"
  have wf: "nonzero_ok turn" "reason_wf E r" using assms(1) by (simp_all add: kind_wf_def)
  have d: "kind_data_value (TurnEnd turn r) = JObject (obj_map ?kvs)"
    by (simp add: kind_data_value_def Let_def obj_of_obj_map)
  have "normal (JObject (obj_map ?kvs))" using normal_kind[OF assms(1)] d by simp
  moreover have "(''reason'', turn_end_json r) \<in> set (obj_map ?kvs)" by (simp add: obj_map_def byte_def)
  ultimately obtain raw where "json_value_new E (turn_end_json r) = Inr raw"
    using admitted_field assms(2) d by metis
  then have "turn_end_from_value E (turn_end_json r) = Inr r" by (rule reason_written[OF wf(2)])
  then show ?thesis using wf(1)
    by (simp add: kind_data_value_def Let_def de_turn_end_def written safe_u64_written)
qed

text \<open>The null that a program may give as the data of a result is written, and read as no data.\<close>

definition as_read :: "event_kind \<Rightarrow> event_kind" where
  "as_read k =
     (case k of
        ToolResult turn step m e (Some v) \<Rightarrow> ToolResult turn step m e (if jv_value v = JNull then None else Some v)
      | _ \<Rightarrow> k)"

lemma as_read_simps [simp]:
  "as_read (ToolResult turn step m e meta)
     = ToolResult turn step m e (Option.bind meta (\<lambda>v. if jv_value v = JNull then None else Some v))"
  "(\<And>turn step m e meta. k \<noteq> ToolResult turn step m e meta) \<Longrightarrow> as_read k = k"
  by (auto simp: as_read_def split: event_kind.split option.split)

lemma meta_written:
  "opt_all (value_wf E) meta \<Longrightarrow> map_of m ''meta'' = map_option jv_value meta
     \<Longrightarrow> default_option m ''meta'' (de_json_value E) = Some (Option.bind meta (\<lambda>v. if jv_value v = JNull then None else Some v))"
  by (cases meta) (auto simp: default_option_def de_option_def de_json_value_def ok_value_def split: json.split)

lemma error_written:
  "map_of m ''error'' = map_option tool_failure_json e \<Longrightarrow> default_option m ''error'' de_tool_failure = Some e"
  by (cases e)
     (auto simp: default_option_def de_option_def tool_failure_json_def obj_of_obj_map tool_failure_written[unfolded tool_failure_json_def obj_of_obj_map])

lemma tool_result_written:
  assumes "kind_wf E (ToolResult turn step m e meta)"
  shows "de_tool_result E (kind_data_value (ToolResult turn step m e meta)) = Some (as_read (ToolResult turn step m e meta))"
proof -
  let ?kvs = "[(''turn'', JNat turn), (''step'', JNat step)] @ [(''message'', jv_value (msg_raw m))]
            @ opt_field ''error'' tool_failure_json e @ opt_field ''meta'' jv_value meta"
  have "default_option (obj_map ?kvs) ''error'' de_tool_failure = Some e"
    by (rule error_written) (simp add: written)
  moreover have "default_option (obj_map ?kvs) ''meta'' (de_json_value E)
      = Some (Option.bind meta (\<lambda>v. if jv_value v = JNull then None else Some v))"
    using assms by (intro meta_written) (simp_all add: written kind_wf_def)
  ultimately show ?thesis using assms
    by (simp add: kind_data_value_def Let_def de_tool_result_def turn_step_fields_def written safe_u64_written kind_wf_def)
qed

lemma kind_written:
  assumes "kind_wf E k" "json_value_new E (kind_data_value k) = Inr data"
  shows "decode_kind E (event_type k) (kind_data_value k) ign i orig = Inr (as_read k)"
proof -
  have r: "decode_kind E (event_type k) (kind_data_value k) ign i orig = Inr (as_read k)"
    if "map_of (kind_readers E) (event_type k) = Some reader" "reader (kind_data_value k) = Some (as_read k)" for reader
    using that by (simp add: decode_kind_def)
  note steps = de_step_def turn_step_fields_def written safe_u64_written kind_wf_def kind_data_value_def Let_def
    event_type_def kind_readers_def
  show ?thesis
  proof (cases k)
    case (TurnEnd turn rs)
    have "de_turn_end E (kind_data_value (TurnEnd turn rs)) = Some (TurnEnd turn rs)"
      by (rule turn_end_written) (use assms TurnEnd in auto)
    then show ?thesis using TurnEnd by (intro r[where reader = "de_turn_end E"]) (simp_all add: event_type_def kind_readers_def)
  next
    case (ToolResult turn step m e meta)
    have "de_tool_result E (kind_data_value k) = Some (as_read k)"
      using assms(1) unfolding ToolResult by (rule tool_result_written)
    then show ?thesis using ToolResult by (intro r[where reader = "de_tool_result E"]) (simp_all add: event_type_def kind_readers_def)
  next
    case (UnknownEvent t v)
    then show ?thesis using assms(1) by (simp add: kind_wf_def)
  next
    case (RequestHeader h rs)
    then show ?thesis using assms(1)
      by (intro r[where reader = "de_request_header E"]; simp add: steps de_request_header_def epoch_header_written header_reason_written)
  next
    case (AssistantMessage turn step m u)
    then show ?thesis using assms(1) by (intro r[where reader = "de_assistant_message E"]; simp add: steps de_assistant_message_def)
  qed ((rule r, simp add: event_type_def kind_readers_def, insert assms(1),
      simp add: steps de_turn_start_def de_assistant_chunk_def de_tool_call_def
      de_todo_write_def de_vec_map todo_item_written llm_retry_written retry_started_written asked_written
      decided_written compaction_start_written compaction_summary_written compaction_end_written
      compaction_prune_written)+)
qed

lemma envelope_written:
  assumes "seq_ok (ev_seq e)" "time_ok (ev_time e)" "opt_all (list_all seq_ok) (ev_source_event_seqs e)"
    "\<forall>a b. ev_surface_op e = Some (SurfaceReplace a b) \<longrightarrow> seq_ok a \<and> seq_ok b"
    "value_wf E (ev_original_data e)" "event_type (ev_kind e) \<noteq> ''request/header-delta''"
    "decode_kind E (event_type (ev_kind e)) (jv_value (ev_original_data e)) (ev_ignorable e) i (ev_original_data e)
       = Inr k"
  shows "decode_event E (obj_of (event_fields e)) i = Inr (e\<lparr>ev_kind := k\<rparr>)"
proof -
  have op: "de_surface_op (surface_op_json op) = Some op" if "ev_surface_op e = Some op" for op
  proof (cases op)
    case SurfaceAppend
    then show ?thesis by (simp add: de_surface_op_def surface_op_json_def)
  next
    case (SurfaceReplace a b)
    then show ?thesis using assms(4) that
      by (simp add: de_surface_op_def surface_op_json_def as_str_obj written safe_u64_written de_variant_def)
  qed
  have keys: "fst ` set (event_fields e) \<subseteq> set EVENT_FIELDS"
    by (auto simp: event_fields_def EVENT_FIELDS_def opt_field_def split: option.splits)
  have k: "set (map fst (obj_map (event_fields e))) \<subseteq> set EVENT_FIELDS"
    using keys_obj_map[OF keys] by simp
  note lookups = map_of_obj_map[of "event_fields e"] event_fields_def
  show ?thesis
    unfolding decode_event_def take_field_def
    using k assms op
    by (simp add: obj_of_obj_map lookups written safe_u64_written safe_i64_written seqs_written
        de_json_value_def)
qed

lemma event_type_wf: "kind_wf E k \<Longrightarrow> event_type k \<noteq> ''request/header-delta''"
  by (cases k) (simp_all add: event_type_def kind_wf_def)

definition surface_wf :: "surface_intent option \<Rightarrow> bool" where
  "surface_wf s =
     (\<forall>si. s = Some si \<longrightarrow>
        (\<forall>a b. si_operation si = SurfaceReplace a b \<longrightarrow> seq_ok a \<and> seq_ok b)
        \<and> opt_all (list_all seq_ok) (si_source_event_seqs si))"

text \<open>
  C19: Reading back what was written.  When a live event of well-formed parts is admitted (its
  payload is an admissible JSON value), the JSON envelope written for it decodes to the same
  event: same sequence number, time, kind, surface operation, sources and payload.  Only a null given
  as the data of a tool result is read as no data.
\<close>

theorem live_event_roundtrip:
  assumes "kind_wf E (ne_kind new)" "surface_wf (ne_surface new)" "seq_ok seq" "time_ok t"
    "json_value_new E (kind_data_value (ne_kind new)) = Inr data"
  shows "decode_event E (obj_of (event_fields (event_from_new seq t new data))) i
           = Inr ((event_from_new seq t new data)\<lparr>ev_kind := as_read (ne_kind new)\<rparr>)"
proof (rule envelope_written)
  let ?e = "event_from_new seq t new data"
  have data: "jv_value data = kind_data_value (ne_kind new)"
    using json_value_new_value[OF assms(5)] normal_kind[OF assms(1)] by simp
  show "value_wf E (ev_original_data ?e)"
    using json_value_new_again[OF assms(5)] by (simp add: event_from_new_def)
  show "decode_kind E (event_type (ev_kind ?e)) (jv_value (ev_original_data ?e)) (ev_ignorable ?e) i
      (ev_original_data ?e) = Inr (as_read (ne_kind new))"
    using kind_written[OF assms(1,5)] data by (simp add: event_from_new_def)
  show "\<forall>a b. ev_surface_op ?e = Some (SurfaceReplace a b) \<longrightarrow> seq_ok a \<and> seq_ok b"
    "opt_all (list_all seq_ok) (ev_source_event_seqs ?e)"
    using assms(2) by (auto simp: event_from_new_def surface_wf_def bind_eq_Some_conv)
qed (use assms event_type_wf in \<open>simp_all add: event_from_new_def\<close>)

declare map_of_append [simp]

definition example_asked :: new_event where
  "example_asked = \<lparr>ne_kind = ApprovalAsked \<lparr>aa_id = ''a1'', aa_tool_name = ''bash'', aa_call_id = Some ''c1'',
     aa_reason = None\<rparr>, ne_surface = None\<rparr>"

theorem live_event_roundtrip_witness:
  "\<exists>data. json_value_new example_externals (kind_data_value (ne_kind example_asked)) = Inr data
     \<and> decode_event example_externals (obj_of (event_fields (event_from_new 4 1000 example_asked data))) 4
         = Inr (event_from_new 4 1000 example_asked data)"
proof -
  have "is_ok (json_value_new example_externals (kind_data_value (ne_kind example_asked)))" by code_simp
  then obtain data where d: "json_value_new example_externals (kind_data_value (ne_kind example_asked)) = Inr data"
    by (auto simp: is_ok_iff)
  have "decode_event example_externals (obj_of (event_fields (event_from_new 4 1000 example_asked data))) 4
         = Inr (event_from_new 4 1000 example_asked data)"
    using live_event_roundtrip[OF _ _ _ _ d, of 4 1000 4]
    by (simp add: example_asked_def event_from_new_def kind_wf_def surface_wf_def seq_ok_def time_ok_def MAX_SAFE_INTEGER_def)
  with d show ?thesis by blast
qed

end
