(* ===== verification/Recovery.thy ===== *)
theory Recovery
  imports Projection Event_Codec
begin

text \<open>
  The recovery of an interrupted durable session (\<open>src/session/recovery.rs\<close>): the plan that closes
  what a journal left open, the report about it, and the cold scan that reads a journal and admits
  the rows of an earlier recovery.  Input and output are lists of blocks; reading them, the
  running SHA-256 of the file and the capacity reservations are not modelled.
\<close>

section \<open>Limits and texts\<close>

definition MAX_DURABLE_JOURNAL_BYTES :: nat where
  "MAX_DURABLE_JOURNAL_BYTES = 512 * 1024 * 1024"

definition MAX_DURABLE_LOGICAL_EVENTS :: nat where
  "MAX_DURABLE_LOGICAL_EVENTS = 1000000"

definition MAX_RECOVERY_ROWS :: nat where
  "MAX_RECOVERY_ROWS = 68"

definition MAX_JOURNAL_EVENT_LINE_BYTES :: nat where
  "MAX_JOURNAL_EVENT_LINE_BYTES = 9 * 1024 * 1024"

definition TOOL_OUTCOME_UNKNOWN :: string where
  "TOOL_OUTCOME_UNKNOWN = ''TOOL_OUTCOME_UNKNOWN''"

definition TOOL_NOT_STARTED_TEXT :: string where
  "TOOL_NOT_STARTED_TEXT = ''The tool call was interrupted before the Harness recorded it as started. Retry it if it is still needed.''"

definition TOOL_OUTCOME_UNKNOWN_TEXT :: string where
  "TOOL_OUTCOME_UNKNOWN_TEXT = ''The tool call was interrupted after it was recorded, but no result was durably recorded. Its outcome is unknown. Decide whether to retry from the tool semantics: retry only if the operation is read-only or idempotent; if it may have side effects, first verify external state or ask the user. Do not retry blindly.''"

definition APPROVAL_REJECTED_TEXT :: string where
  "APPROVAL_REJECTED_TEXT = ''The tool call was not started because its approval request was rejected.''"

definition APPROVAL_CANCELLED_TEXT :: string where
  "APPROVAL_CANCELLED_TEXT = ''The tool call was not started because its approval request was cancelled. No tool body was dispatched.''"

definition APPROVAL_UNAVAILABLE_TEXT :: string where
  "APPROVAL_UNAVAILABLE_TEXT = ''The tool call was not started because approval was unavailable.''"

section \<open>The plan\<close>

record recovery_plan =
  pl_events :: "session_event list"
  pl_actions :: "recovery_action list"
  pl_resume_seed_len :: nat
  pl_repaired_calls :: nat
  pl_unknown_outcomes :: nat
  pl_not_started :: nat

text \<open>What \<open>build_recovery_plan\<close> carries along: the rows, and the next sequence number.\<close>

record plan_builder =
  pb_events :: "session_event list"
  pb_actions :: "recovery_action list"
  pb_next :: "nat option"
  pb_repaired :: nat
  pb_unknown :: nat
  pb_not_started :: nat

definition next_event_seq :: "nat \<Rightarrow> nat option" where
  "next_event_seq seq = (if seq + 1 \<le> MAX_SAFE_INTEGER then Some (seq + 1) else None)"

definition push_recovery_event ::
  "externals \<Rightarrow> plan_builder \<Rightarrow> int \<Rightarrow> new_event \<Rightarrow> recovery_action \<Rightarrow> store_error + plan_builder" where
  "push_recovery_event E b t new action =
     (if length (pb_events b) \<ge> MAX_RECOVERY_ROWS \<or> length (pb_events b) \<noteq> length (pb_actions b) then Inl Limit
      else
        bindR (ok_or Limit (pb_next b)) (\<lambda>seq.
        bindR (map_err (\<lambda>_. Limit) (json_value_new E (kind_data_value (ne_kind new)))) (\<lambda>data.
          Inr (b\<lparr>pb_events := pb_events b @ [event_from_new seq t new data],
                 pb_actions := pb_actions b @ [action], pb_next := next_event_seq seq\<rparr>))))"

definition recovery_result_kind :: "recovery_call \<Rightarrow> string \<times> string \<times> string \<times> nat option" where
  "recovery_result_kind c =
     (case rc_intent_seq c of
        None \<Rightarrow> (''ToolNotStartedError'', TOOL_NOT_STARTED, TOOL_NOT_STARTED_TEXT, None)
      | Some q \<Rightarrow>
          (case rc_approval c of
             RecDecided _ ApprovalRejected \<Rightarrow> (''ApprovalError'', ''APPROVAL_REJECTED'', APPROVAL_REJECTED_TEXT, Some q)
           | RecPending _ \<Rightarrow> (''AbortError'', ''APPROVAL_CANCELLED'', APPROVAL_CANCELLED_TEXT, Some q)
           | RecDecided _ Cancelled \<Rightarrow> (''AbortError'', ''APPROVAL_CANCELLED'', APPROVAL_CANCELLED_TEXT, Some q)
           | RecDecided _ Unavailable \<Rightarrow>
               (''ApprovalError'', ''APPROVAL_UNAVAILABLE'', APPROVAL_UNAVAILABLE_TEXT, Some q)
           | RecNone \<Rightarrow> (''ToolOutcomeUnknownError'', TOOL_OUTCOME_UNKNOWN, TOOL_OUTCOME_UNKNOWN_TEXT, Some q)
           | RecDecided _ AllowedOnce \<Rightarrow>
               (''ToolOutcomeUnknownError'', TOOL_OUTCOME_UNKNOWN, TOOL_OUTCOME_UNKNOWN_TEXT, Some q)))"

text \<open>\<open>{byte:02x}\<close> of every byte.\<close>

definition hex_bytes :: "string \<Rightarrow> string" where
  "hex_bytes s = concat (map (\<lambda>c. [hex_digit (byte c div 16), hex_digit (byte c mod 16)]) s)"

definition digest_field :: "string \<Rightarrow> string" where
  "digest_field s = to_be_bytes (length s) @ s"

definition seq_or_max :: "nat option \<Rightarrow> nat" where
  "seq_or_max s = (case s of None \<Rightarrow> U64_LIMIT - 1 | Some n \<Rightarrow> n)"

definition recovery_message_id ::
  "externals \<Rightarrow> string \<Rightarrow> nat option \<Rightarrow> string \<Rightarrow> nat option \<Rightarrow> nat \<Rightarrow> string" where
  "recovery_message_id E sid last_prefix call_id call_seq result_seq =
     RECOVERY_TOOL_RESULT_ID_PREFIX @
       hex_bytes (ext_sha256 E (''dsh.recovery.tool-result.v1'' @ [CHR 0x00] @ digest_field sid
         @ to_be_bytes (seq_or_max last_prefix) @ digest_field call_id
         @ to_be_bytes (seq_or_max call_seq) @ to_be_bytes result_seq))"

definition call_fingerprint :: "externals \<Rightarrow> string \<Rightarrow> string" where
  "call_fingerprint E call_id =
     ''call-'' @ hex_bytes (take 12 (ext_sha256 E (''dsh.recovery.report.call.v1'' @ [CHR 0x00] @ digest_field call_id)))"

text \<open>First loop: an awaited approval is cancelled.\<close>

definition cancel_call :: "externals \<Rightarrow> int \<Rightarrow> plan_builder \<Rightarrow> recovery_call \<Rightarrow> store_error + plan_builder" where
  "cancel_call E t b c =
     (case rc_approval c of
        RecPending i \<Rightarrow>
          if rc_result_seen c then Inr b
          else
            bindR (map_err (\<lambda>_. Corrupt) (validate_approval_id i)) (\<lambda>_.
              push_recovery_event E b t
                \<lparr>ne_kind = ApprovalDecided \<lparr>ap_id = i, ap_outcome = Cancelled\<rparr>, ne_surface = None\<rparr> (CancelApproval i))
      | _ \<Rightarrow> Inr b)"

text \<open>Second loop: an unanswered call gets its synthetic result.\<close>

definition repair_event ::
  "externals \<Rightarrow> string \<Rightarrow> nat option \<Rightarrow> nat \<Rightarrow> nat \<Rightarrow> nat \<Rightarrow> recovery_call \<Rightarrow> store_error + new_event" where
  "repair_event E sid last_prefix turn step seq c =
     (let (name, code, text, source) = recovery_result_kind c;
          i = recovery_message_id E sid last_prefix (rc_id c) (rc_intent_seq c) seq
      in
        bindR (map_err (\<lambda>_. Limit) (block_text E text)) (\<lambda>b.
        bindR (map_err (\<lambda>_. Limit) (message_tool_result E i (rc_id c) [b] True)) (\<lambda>m.
          Inr \<lparr>ne_kind = ToolResult turn step m (Some \<lparr>tf_name = name, tf_code = code\<rparr>) None,
               ne_surface = Some \<lparr>si_operation = SurfaceAppend,
                 si_source_event_seqs = map_option (\<lambda>q. [q]) source\<rparr>\<rparr>)))"

definition repair_call ::
  "externals \<Rightarrow> string \<Rightarrow> nat option \<Rightarrow> nat \<Rightarrow> nat \<Rightarrow> int \<Rightarrow> plan_builder \<Rightarrow> recovery_call
     \<Rightarrow> store_error + plan_builder" where
  "repair_call E sid last_prefix turn step t b c =
     (if rc_result_seen c then Inr b
      else
        bindR (ok_or Limit (pb_next b)) (\<lambda>seq.
        let (_, code, _, _) = recovery_result_kind c;
            b = b\<lparr>pb_unknown := pb_unknown b + (if code = TOOL_OUTCOME_UNKNOWN then 1 else 0),
                  pb_not_started := pb_not_started b + (if code = TOOL_NOT_STARTED then 1 else 0),
                  pb_repaired := pb_repaired b + 1\<rparr>
        in bindR (repair_event E sid last_prefix turn step seq c) (\<lambda>new.
             push_recovery_event E b t new (RepairCall (rc_id c)))))"

definition close_step ::
  "externals \<Rightarrow> string \<Rightarrow> nat option \<Rightarrow> int option \<Rightarrow> recovery_snapshot \<Rightarrow> plan_builder
     \<Rightarrow> store_error + plan_builder" where
  "close_step E sid last_prefix closer_time snap b =
     (case sp_step snap of
        None \<Rightarrow> Inr b
      | Some step \<Rightarrow>
          bindR (ok_or Corrupt (sp_turn snap)) (\<lambda>turn.
          bindR (ok_or Corrupt closer_time) (\<lambda>t.
          bindR (try_fold (cancel_call E t) b (sp_calls snap)) (\<lambda>b.
          bindR (try_fold (repair_call E sid last_prefix turn step t) b (sp_calls snap)) (\<lambda>b.
            push_recovery_event E b t \<lparr>ne_kind = StepEnd turn step, ne_surface = None\<rparr>
              (CloseStep turn step (sp_attempt snap)))))))"

definition close_turn ::
  "externals \<Rightarrow> int option \<Rightarrow> recovery_snapshot \<Rightarrow> plan_builder \<Rightarrow> store_error + plan_builder" where
  "close_turn E closer_time snap b =
     (case sp_turn snap of
        None \<Rightarrow> Inr b
      | Some turn \<Rightarrow>
          bindR (ok_or Corrupt closer_time) (\<lambda>t.
            push_recovery_event E b t \<lparr>ne_kind = TurnEnd turn TurnInterrupted, ne_surface = None\<rparr>
              (CloseTurn turn)))"

definition add_marker :: "externals \<Rightarrow> int \<Rightarrow> bool \<Rightarrow> plan_builder \<Rightarrow> store_error + plan_builder" where
  "add_marker E marker_time ends_with_seed b =
     (if ends_with_seed then Inr b
      else push_recovery_event E b marker_time \<lparr>ne_kind = EndSeed, ne_surface = None\<rparr> ActEndSeed)"

fun apply_recovery_rows ::
  "externals \<Rightarrow> projection \<Rightarrow> (session_event \<times> recovery_action) list \<Rightarrow> store_error + projection" where
  "apply_recovery_rows E p [] = Inr p"
| "apply_recovery_rows E p ((e, a) # rows) =
     bindR (map_err (\<lambda>_. Corrupt) (apply_recovery_admission E p a e None)) (\<lambda>p. apply_recovery_rows E p rows)"

definition build_recovery_plan ::
  "externals \<Rightarrow> projection \<Rightarrow> string \<Rightarrow> nat option \<Rightarrow> nat option \<Rightarrow> int option \<Rightarrow> int \<Rightarrow> bool \<Rightarrow> nat
     \<Rightarrow> store_error + recovery_plan \<times> projection" where
  "build_recovery_plan E p sid next_seq last_prefix closer_time marker_time ends_with_seed logical =
     (let snap = recovery_snapshot_of E p;
          b = \<lparr>pb_events = [], pb_actions = [], pb_next = next_seq, pb_repaired = 0, pb_unknown = 0, pb_not_started = 0\<rparr>
      in
        bindR (close_step E sid last_prefix closer_time snap b) (\<lambda>b.
        bindR (close_turn E closer_time snap b) (\<lambda>b.
        bindR (ok_or Limit (checked_add_u64 logical (length (pb_events b)))) (\<lambda>seed_len.
        bindR (add_marker E marker_time ends_with_seed b) (\<lambda>b.
          if length (pb_events b) > MAX_RECOVERY_ROWS \<or> length (pb_events b) \<noteq> length (pb_actions b) then Inl Limit
          else
            bindR (apply_recovery_rows E p (zip (pb_events b) (pb_actions b))) (\<lambda>p'.
              Inr (\<lparr>pl_events = pb_events b, pl_actions = pb_actions b,
                    pl_resume_seed_len = (if ends_with_seed then logical else seed_len),
                    pl_repaired_calls = pb_repaired b, pl_unknown_outcomes = pb_unknown b,
                    pl_not_started = pb_not_started b\<rparr>, p')))))))"

section \<open>The report\<close>

record recovery_call_report =
  cr_tool_label :: string
  cr_call_fingerprint :: string
  cr_code :: string

record recovery_report =
  rr_truncated_bytes :: nat
  rr_repaired_calls :: "recovery_call_report list"
  rr_closes_step :: bool
  rr_closes_turn :: bool
  rr_adds_seed_marker :: bool
  rr_interrupted_compaction :: "recovery_compaction_stage option"
  rr_orphan_prune_markers :: nat

definition needs_warning :: "recovery_report \<Rightarrow> bool" where
  "needs_warning r =
     (rr_truncated_bytes r \<noteq> 0 \<or> rr_repaired_calls r \<noteq> [] \<or> rr_closes_step r \<or> rr_closes_turn r
      \<or> rr_interrupted_compaction r \<noteq> None \<or> rr_orphan_prune_markers r \<noteq> 0)"

record recovery_cursor =
  rv_root_last_real_seq :: "nat option"
  rv_confirmed :: bool

record cold_scan =
  sc_header :: session_header
  sc_projection :: projection
  sc_physical_bytes :: nat
  sc_valid_bytes :: nat
  sc_logical_events :: nat
  sc_next_seq :: "nat option"
  sc_last_event_time :: "int option"
  sc_ends_with_seed :: bool
  sc_recovery_cursor :: "recovery_cursor option"

definition known_tool :: "projection \<Rightarrow> string \<Rightarrow> bool" where
  "known_tool p name =
     (case Option.bind (pj_header p) eh_tools of
        None \<Rightarrow> False
      | Some ts \<Rightarrow> list_ex (\<lambda>t. ts_name t = name) ts)"

definition call_report :: "externals \<Rightarrow> projection \<Rightarrow> recovery_call \<Rightarrow> recovery_call_report" where
  "call_report E p c =
     \<lparr>cr_tool_label = (if known_tool p (rc_name c) then rc_name c else ''<unknown-tool>''),
      cr_call_fingerprint = call_fingerprint E (rc_id c),
      cr_code = fst (snd (recovery_result_kind c))\<rparr>"

definition recovery_report_of :: "externals \<Rightarrow> cold_scan \<Rightarrow> recovery_report" where
  "recovery_report_of E s =
     (let p = sc_projection s; snap = recovery_snapshot_of E p in
      \<lparr>rr_truncated_bytes = sc_physical_bytes s - sc_valid_bytes s,
       rr_repaired_calls = map (call_report E p) (filter (\<lambda>c. \<not> rc_result_seen c) (sp_calls snap)),
       rr_closes_step = (sp_step snap \<noteq> None),
       rr_closes_turn = (sp_turn snap \<noteq> None),
       rr_adds_seed_marker = (\<not> sc_ends_with_seed s),
       rr_interrupted_compaction = interrupted_compaction_stage p,
       rr_orphan_prune_markers = orphan_prune_markers p\<rparr>)"

definition previous_seq :: "nat \<Rightarrow> nat option" where
  "previous_seq seq = (if seq = 0 then None else Some (seq - 1))"

definition prepare_recovery :: "externals \<Rightarrow> cold_scan \<Rightarrow> int \<Rightarrow> store_error + recovery_plan \<times> projection" where
  "prepare_recovery E s recovery_time =
     (if \<not> compaction_recovery_is_consistent (sc_projection s) then Inl Corrupt
      else
        let last_prefix = (case sc_recovery_cursor s of
              None \<Rightarrow> Option.bind (sc_next_seq s) previous_seq
            | Some c \<Rightarrow> rv_root_last_real_seq c)
        in build_recovery_plan E (sc_projection s) (sh_id (sc_header s)) (sc_next_seq s) last_prefix
             (sc_last_event_time s) recovery_time (sc_ends_with_seed s) (sc_logical_events s))"

record recovered_seed =
  sd_header :: session_header
  sd_projection :: projection
  sd_next_seq :: nat
  sd_first_live_seq :: nat
  sd_logical_event_count :: nat
  sd_accepted_journal_bytes :: nat

definition recovered_seed_new ::
  "session_header \<Rightarrow> projection \<Rightarrow> nat option \<Rightarrow> nat \<Rightarrow> nat \<Rightarrow> nat \<Rightarrow> store_error + recovered_seed" where
  "recovered_seed_new h p next_seq first_live logical bytes =
     bindR (ok_or Limit next_seq) (\<lambda>n.
       if logical > MAX_DURABLE_LOGICAL_EVENTS \<or> bytes > MAX_DURABLE_JOURNAL_BYTES then Inl Limit
       else if logical > MAX_SAFE_INTEGER \<or> logical \<noteq> n \<or> first_live > logical then Inl Corrupt
       else Inr \<lparr>sd_header = h, sd_projection = p, sd_next_seq = n, sd_first_live_seq = first_live,
                 sd_logical_event_count = logical, sd_accepted_journal_bytes = bytes\<rparr>)"

section \<open>Admitting one row of a journal\<close>

record cold_context =
  cx_session_id :: string
  cx_expected_seq :: "nat option"
  cx_previous_time :: "int option"
  cx_logical_events :: nat
  cx_previous_ends_with_seed :: bool
  cx_row :: row_locator

definition recovery_event_matches ::
  "externals \<Rightarrow> projection \<Rightarrow> session_event \<Rightarrow> cold_context \<Rightarrow> nat option
     \<Rightarrow> store_error + recovery_action option" where
  "recovery_event_matches E p e cx root =
     bindR (build_recovery_plan E p (cx_session_id cx) (cx_expected_seq cx) root (cx_previous_time cx)
              (ev_time e) False (cx_logical_events cx)) (\<lambda>(plan, _).
       Inr (case (pl_events plan, pl_actions plan) of
              (e' # _, a # _) \<Rightarrow> if e' = e then Some a else None
            | _ \<Rightarrow> None))"

definition is_tentative_recovery_start :: "session_event \<Rightarrow> bool" where
  "is_tentative_recovery_start e =
     (case ev_kind e of
        ApprovalDecided d \<Rightarrow> ap_outcome d = Cancelled
      | StepEnd _ _ \<Rightarrow> True
      | _ \<Rightarrow> False)"

definition is_recovery_only_event :: "session_event \<Rightarrow> bool" where
  "is_recovery_only_event e =
     (case ev_kind e of
        EndSeed \<Rightarrow> True
      | TurnEnd _ r \<Rightarrow> r = TurnInterrupted
      | ToolResult _ _ m _ _ \<Rightarrow> starts_with (msg_id m) RECOVERY_TOOL_RESULT_ID_PREFIX
      | _ \<Rightarrow> False)"

definition admit_row ::
  "externals \<Rightarrow> projection \<Rightarrow> recovery_action \<Rightarrow> session_event \<Rightarrow> row_locator \<Rightarrow> store_error + projection" where
  "admit_row E p a e row = map_err (\<lambda>_. Corrupt) (apply_recovery_admission E p a e (Some row))"

definition apply_cold_event ::
  "externals \<Rightarrow> projection \<Rightarrow> session_event \<Rightarrow> cold_context \<Rightarrow> recovery_cursor option
     \<Rightarrow> store_error + projection \<times> recovery_cursor option" where
  "apply_cold_event E p e cx cursor =
     (if cx_expected_seq cx \<noteq> Some (ev_seq e) then Inl Corrupt
      else if cx_previous_ends_with_seed cx \<and> ev_kind e = EndSeed then Inl Corrupt
      else case cursor of
        Some c \<Rightarrow>
          bindR (recovery_event_matches E p e cx (rv_root_last_real_seq c)) (\<lambda>m.
            case m of
              Some a \<Rightarrow>
                bindR (admit_row E p a e (cx_row cx)) (\<lambda>p.
                  Inr (p, if ev_kind e = EndSeed then None
                          else Some (c\<lparr>rv_confirmed := rv_confirmed c \<or> is_recovery_only_event e\<rparr>)))
            | None \<Rightarrow>
                if rv_confirmed c then Inl Corrupt
                else bindR (map_err (\<lambda>_. Corrupt) (apply_scanned_row E p e (cx_row cx))) (\<lambda>p. Inr (p, None)))
      | None \<Rightarrow>
          let root = previous_seq (ev_seq e);
              ordinary =
                (case apply_scanned_row E p e (cx_row cx) of
                   Inr p' \<Rightarrow> Inr (p', None)
                 | Inl (TransitionE (DurableRecoveryEventNotAllowed _)) \<Rightarrow>
                     bindR (recovery_event_matches E p e cx root) (\<lambda>m.
                     bindR (ok_or Corrupt m) (\<lambda>a.
                     bindR (admit_row E p a e (cx_row cx)) (\<lambda>p.
                       Inr (p, if ev_kind e = EndSeed then None
                               else Some \<lparr>rv_root_last_real_seq = root, rv_confirmed = True\<rparr>))))
                 | Inl _ \<Rightarrow> Inl Corrupt)
          in if is_tentative_recovery_start e then
               bindR (recovery_event_matches E p e cx root) (\<lambda>m.
                 case m of
                   Some a \<Rightarrow>
                     bindR (admit_row E p a e (cx_row cx)) (\<lambda>p.
                       Inr (p, Some \<lparr>rv_root_last_real_seq = root, rv_confirmed = False\<rparr>))
                 | None \<Rightarrow> ordinary)
             else ordinary)"

section \<open>Reading a journal\<close>

definition row_locator_new :: "externals \<Rightarrow> nat \<Rightarrow> nat \<Rightarrow> string \<Rightarrow> row_locator option" where
  "row_locator_new E seq offset row =
     (if row = [] \<or> length row > MAX_JOURNAL_EVENT_LINE_BYTES \<or> last row \<noteq> CHR 0x0A
         \<or> CHR 0x0A \<in> set (butlast row) \<or> checked_add_u64 offset (length row) = None
      then None
      else Some \<lparr>row_seq = seq, row_offset = offset, row_length = length row, row_digest = ext_sha256 E row\<rparr>)"

definition shallow_event_envelope :: "(string \<Rightarrow> json option) \<Rightarrow> string \<Rightarrow> bool" where
  "shallow_event_envelope parse line =
     (case Option.bind (Option.bind (strip_newline line) parse) as_object of
        None \<Rightarrow> False
      | Some m \<Rightarrow>
          get_str m ''type'' \<noteq> None
          \<and> (case map_of m ''seq'' of Some (JInt i) \<Rightarrow> 0 \<le> i \<and> nat i \<le> MAX_SAFE_INTEGER | _ \<Rightarrow> False)
          \<and> (case map_of m ''time'' of Some (JInt i) \<Rightarrow> nat \<bar>i\<bar> \<le> MAX_SAFE_INTEGER | _ \<Rightarrow> False)
          \<and> map_of m ''data'' \<noteq> None)"

text \<open>The local variables of the scan.\<close>

record cold_state =
  cd_projection :: projection
  cd_header :: "session_header option"
  cd_line :: string
  cd_physical :: nat
  cd_valid :: nat
  cd_logical :: nat
  cd_body_lines :: nat
  cd_next_seq :: "nat option"
  cd_last_time :: "int option"
  cd_ends_with_seed :: bool
  cd_cursor :: "recovery_cursor option"
  cd_bad_suffix :: bool

definition cold_start :: "string \<Rightarrow> cold_state" where
  "cold_start sid =
     \<lparr>cd_projection = for_session DurableStrict sid, cd_header = None, cd_line = [], cd_physical = 0, cd_valid = 0,
      cd_logical = 0, cd_body_lines = 0, cd_next_seq = Some 0, cd_last_time = None, cd_ends_with_seed = False,
      cd_cursor = None, cd_bad_suffix = False\<rparr>"

record cold_input =
  ci_parse :: "string \<Rightarrow> json option"
  ci_session_id :: string
  ci_validate_header :: "session_header \<Rightarrow> workspace_identity \<Rightarrow> store_error + unit"

text \<open>A complete row whose text and envelope are sound is an event of the session.\<close>

definition scan_event :: "externals \<Rightarrow> session_event \<Rightarrow> nat \<Rightarrow> cold_state \<Rightarrow> store_error + cold_state" where
  "scan_event E e line_end st =
     bindR (ok_or Corrupt (checked_sub_u64 line_end (length (cd_line st)))) (\<lambda>offset.
     bindR (ok_or Corrupt (row_locator_new E (ev_seq e) offset (cd_line st))) (\<lambda>row.
     bindR (ok_or Corrupt (cd_header st)) (\<lambda>h.
     bindR (apply_cold_event E (cd_projection st) e
              \<lparr>cx_session_id = sh_id h, cx_expected_seq = cd_next_seq st, cx_previous_time = cd_last_time st,
               cx_logical_events = cd_logical st, cx_previous_ends_with_seed = cd_ends_with_seed st, cx_row = row\<rparr>
              (cd_cursor st)) (\<lambda>(p, cursor).
     bindR (ok_or Limit (checked_add_u64 (cd_logical st) 1)) (\<lambda>logical.
       Inr (st\<lparr>cd_projection := p, cd_cursor := cursor, cd_logical := logical,
               cd_next_seq := next_event_seq (ev_seq e), cd_last_time := Some (ev_time e),
               cd_ends_with_seed := (ev_kind e = EndSeed), cd_valid := line_end\<rparr>))))))"

text \<open>
  A row that cannot be read starts the bad suffix; inside it, any row that still looks like an
  event means the file is corrupt.
\<close>

definition scan_row :: "externals \<Rightarrow> cold_input \<Rightarrow> nat \<Rightarrow> cold_state \<Rightarrow> store_error + cold_state" where
  "scan_row E ci line_end st =
     bindR (ok_or Limit (checked_add_u64 (cd_body_lines st) 1)) (\<lambda>n.
       if n > MAX_DURABLE_LOGICAL_EVENTS then Inl Limit
       else
         let st = st\<lparr>cd_body_lines := n\<rparr>; bad = Inr (st\<lparr>cd_bad_suffix := True\<rparr>) in
         if cd_bad_suffix st then
           (if shallow_event_envelope (ci_parse ci) (cd_line st) then Inl Corrupt else Inr st)
         else
           bindR (ok_or Corrupt (strip_newline (cd_line st))) (\<lambda>payload.
             case ci_parse ci payload of
               None \<Rightarrow> bad
             | Some v \<Rightarrow>
                 (case decode_event E v (cd_logical st) of
                    Inl (UnknownRequiredEvent _ _) \<Rightarrow> Inl Unsupported
                  | Inl _ \<Rightarrow> bad
                  | Inr e \<Rightarrow>
                      if cd_next_seq st \<noteq> Some (ev_seq e) then bad else scan_event E e line_end st)))"

definition scan_line :: "externals \<Rightarrow> cold_input \<Rightarrow> nat \<Rightarrow> cold_state \<Rightarrow> store_error + cold_state" where
  "scan_line E ci line_end st =
     bindR (case cd_header st of
              None \<Rightarrow>
                bindR (decode_header_line E (ci_parse ci) (cd_line st) (ci_session_id ci)) (\<lambda>(h, identity).
                bindR (ci_validate_header ci h identity) (\<lambda>_.
                  Inr (st\<lparr>cd_header := Some h, cd_valid := line_end\<rparr>)))
            | Some _ \<Rightarrow> scan_row E ci line_end st) (\<lambda>st.
       Inr (st\<lparr>cd_line := []\<rparr>))"

text \<open>The segments of one block, up to and including each newline.\<close>

function scan_segments ::
  "externals \<Rightarrow> cold_input \<Rightarrow> nat \<Rightarrow> string \<Rightarrow> cold_state \<Rightarrow> store_error + cold_state" where
  "scan_segments E ci offset tail st =
     (if tail = [] then Inr st
      else
        let newline = position (\<lambda>c. c = CHR 0x0A) tail;
            n = (case newline of Some i \<Rightarrow> i + 1 | None \<Rightarrow> length tail);
            maximum = (if cd_header st = None then MAX_JOURNAL_HEADER_LINE_BYTES else MAX_JOURNAL_EVENT_LINE_BYTES)
        in
          if length (cd_line st) + n > maximum then Inl Limit
          else
            let st = st\<lparr>cd_line := cd_line st @ take n tail\<rparr> in
            bindR (if newline = None then Inr st
                   else bindR (ok_or Limit (checked_add_u64 offset n)) (\<lambda>line_end. scan_line E ci line_end st)) (\<lambda>st.
              scan_segments E ci (offset + n) (drop n tail) st))"
  by pat_completeness auto
termination
  by (relation "measure (\<lambda>(E, ci, offset, tail, st). length tail)") (auto split: option.splits)

declare scan_segments.simps [simp del]

definition scan_block :: "externals \<Rightarrow> cold_input \<Rightarrow> string \<Rightarrow> cold_state \<Rightarrow> store_error + cold_state" where
  "scan_block E ci block st =
     bindR (ok_or Limit (checked_add_u64 (cd_physical st) (length block))) (\<lambda>physical.
       if physical > MAX_DURABLE_JOURNAL_BYTES then Inl Limit
       else scan_segments E ci (cd_physical st) block (st\<lparr>cd_physical := physical\<rparr>))"

text \<open>The whole scan, over the blocks the reader returned before the end of the file.\<close>

definition scan_jsonl :: "externals \<Rightarrow> cold_input \<Rightarrow> string list \<Rightarrow> store_error + cold_scan" where
  "scan_jsonl E ci blocks =
     bindR (try_fold (\<lambda>st block. scan_block E ci block st) (cold_start (ci_session_id ci)) blocks) (\<lambda>st.
     bindR (ok_or Corrupt (cd_header st)) (\<lambda>h.
       Inr \<lparr>sc_header = h, sc_projection = cd_projection st, sc_physical_bytes = cd_physical st,
            sc_valid_bytes = cd_valid st, sc_logical_events = cd_logical st, sc_next_seq = cd_next_seq st,
            sc_last_event_time = cd_last_time st, sc_ends_with_seed = cd_ends_with_seed st,
            sc_recovery_cursor = cd_cursor st\<rparr>))"

end
