(* ===== verification/Session_Log.thy ===== *)
theory Session_Log
  imports Projection Event_Codec
begin

text \<open>
  The in-memory session of \<open>src/session/mod.rs\<close>: an event log with its projection, the two limits
  it keeps, the provider attempt it owns, replay, seeds and the reading of the clock.  The durable
  branches of the same functions hand the event to a writer thread and are not part of this theory;
  neither are the observer of committed events and the failure of an allocation.
\<close>

section \<open>State\<close>

definition MAX_SESSION_RETAINED_JSON_BYTES :: nat where
  "MAX_SESSION_RETAINED_JSON_BYTES = 16 * 1024 * 1024"

definition MAX_SESSION_EVENTS :: nat where
  "MAX_SESSION_EVENTS = 4096"

datatype append_error =
    NeedsMaterialization
  | DurableAsyncRequired
  | DurablePoisoned
  | DurableWriter
  | DurableRecord
  | NeedsAppendSettle
  | DurableEventLimit nat
  | DurableByteLimit nat
  | DurableResidentLimit nat
  | AppendClock
  | AppendValidation event_error
  | SequenceExhausted
  | EventLimit nat
  | RetainedJsonLimit nat
  | ReservedEventLimit nat nat
  | ReservedRetainedJsonLimit nat nat
  | InvalidClaim
  | ClaimPayloadTooLarge nat nat
  | ClaimRowTooLarge nat nat
  | AppendCapacity

datatype replay_error = ReplayError nat event_error

datatype session_error =
    SessionClock
  | SessionHeaderError header_error
  | SessionCodec codec_error
  | SessionReplay replay_error
  | SessionAppend append_error
  | SessionRetainedJsonLimit nat

abbreviation lift_append :: "event_error + 'a \<Rightarrow> append_error + 'a" where
  "lift_append \<equiv> map_err AppendValidation"

record prepared_event =
  pv_event :: new_event
  pv_data :: json_value
  pv_retained_json_bytes :: nat

datatype attempt_phase =
    AttemptOpen
  | AttemptClosed nat nat attempt_disposition

record active_attempt =
  aw_reservation :: nat
  aw_nonce :: nat
  aw_turn :: nat
  aw_step :: nat
  aw_phase :: attempt_phase

text \<open>Shared pointers that serve as identities are numbers.\<close>

record attempt_token =
  tk_authority :: nat
  tk_reservation :: nat
  tk_nonce :: nat
  tk_turn :: nat
  tk_step :: nat

record memory_session =
  ms_header :: session_header
  ms_next_seq :: "nat option"
  ms_projection :: projection
  ms_first_live_seq :: nat
  ms_authority :: nat
  ms_next_nonce :: nat
  ms_active :: "active_attempt option"
  ms_barrier_epoch :: nat
  ms_events :: "session_event list"
  ms_retained_json_bytes :: nat

record append_receipt =
  ar_seq :: nat
  ar_time :: int
  ar_event_type :: string
  ar_message :: "message option"

record session_budget =
  sb_events :: nat
  sb_retained_json_bytes :: nat

text \<open>A reading of the clock; \<open>None\<close> is its failure.\<close>

type_synonym clock = "int option"

section \<open>Preparing an event\<close>

definition prepare_original_data :: "externals \<Rightarrow> event_kind \<Rightarrow> append_error + json_value" where
  "prepare_original_data E k =
     map_err (\<lambda>e. AppendValidation (ModelE (JsonError e))) (json_value_new E (kind_data_value k))"

definition is_unknown :: "event_kind \<Rightarrow> bool" where
  "is_unknown k = (case k of UnknownEvent _ _ \<Rightarrow> True | _ \<Rightarrow> False)"

definition prepare_event :: "externals \<Rightarrow> new_event \<Rightarrow> append_error + prepared_event" where
  "prepare_event E e =
     (if is_unknown (ne_kind e) then Inl (AppendValidation UnknownLiveEvent)
      else
        bindR (lift_append (event_validate E (ne_kind e))) (\<lambda>_.
        bindR (prepare_original_data E (ne_kind e)) (\<lambda>data.
          Inr \<lparr>pv_event = e, pv_data = data, pv_retained_json_bytes = jv_encoded_len data\<rparr>)))"

definition event_retained_json_bytes :: "externals \<Rightarrow> new_event \<Rightarrow> append_error + nat" where
  "event_retained_json_bytes E e =
     (if is_unknown (ne_kind e) then Inl (AppendValidation UnknownLiveEvent)
      else
        bindR (lift_append (event_validate E (ne_kind e))) (\<lambda>_.
        bindR (prepare_original_data E (ne_kind e)) (\<lambda>data. Inr (jv_encoded_len data))))"

definition candidate :: "nat \<Rightarrow> int \<Rightarrow> prepared_event \<Rightarrow> session_event" where
  "candidate seq t p = event_from_new seq t (pv_event p) (pv_data p)"

definition validate_prepared :: "externals \<Rightarrow> memory_session \<Rightarrow> prepared_event \<Rightarrow> append_error + prepared_event" where
  "validate_prepared E s p =
     bindR (ok_or SequenceExhausted (ms_next_seq s)) (\<lambda>seq.
     bindR (lift_append (with_event E (ms_projection s) (candidate seq 0 p))) (\<lambda>_. Inr p))"

section \<open>Appending\<close>

datatype memory_admission = AdmitOrdinary | AdmitChunk | AdmitClosure attempt_disposition

datatype either_projection = EitherOrdinary projection | EitherAttempt prepared_projection

text \<open>The two limits, with what a reservation protects added to what the log would then hold.\<close>

definition admit_size :: "memory_session \<Rightarrow> nat \<Rightarrow> nat \<Rightarrow> nat \<Rightarrow> append_error + nat" where
  "admit_size s bytes reserved_events reserved_bytes =
     bindR (ok_or (EventLimit MAX_SESSION_EVENTS)
              (Option.bind (checked_add_u64 (length (ms_events s)) 1) (\<lambda>n. checked_add_u64 n reserved_events))) (\<lambda>count.
     bindR (requireR (count \<le> MAX_SESSION_EVENTS)
              (if reserved_events = 0 then EventLimit MAX_SESSION_EVENTS
               else ReservedEventLimit MAX_SESSION_EVENTS reserved_events)) (\<lambda>_.
     bindR (ok_or (RetainedJsonLimit MAX_SESSION_RETAINED_JSON_BYTES)
              (checked_add_u64 (ms_retained_json_bytes s) bytes)) (\<lambda>next_bytes.
     bindR (ok_or (RetainedJsonLimit MAX_SESSION_RETAINED_JSON_BYTES)
              (checked_add_u64 next_bytes reserved_bytes)) (\<lambda>total.
     bindR (requireR (total \<le> MAX_SESSION_RETAINED_JSON_BYTES)
              (if reserved_bytes = 0 then RetainedJsonLimit MAX_SESSION_RETAINED_JSON_BYTES
               else ReservedRetainedJsonLimit MAX_SESSION_RETAINED_JSON_BYTES reserved_bytes)) (\<lambda>_.
       Inr next_bytes)))))"

definition admit_projection ::
  "externals \<Rightarrow> projection \<Rightarrow> session_event \<Rightarrow> memory_admission \<Rightarrow> append_error + either_projection" where
  "admit_projection E p e admission =
     lift_append
       (case admission of
          AdmitOrdinary \<Rightarrow> bindR (with_event E p e) (\<lambda>q. Inr (EitherOrdinary q))
        | AdmitChunk \<Rightarrow> bindR (prepare_durable_attempt_chunk E p e) (\<lambda>q. Inr (EitherAttempt q))
        | AdmitClosure d \<Rightarrow> bindR (prepare_durable_attempt_closure E p e d) (\<lambda>q. Inr (EitherAttempt q)))"

definition surface_message :: "event_kind \<Rightarrow> message option" where
  "surface_message k =
     (case k of
        UserMessage m \<Rightarrow> Some m
      | AssistantMessage _ _ m _ \<Rightarrow> Some m
      | ToolResult _ _ m _ _ \<Rightarrow> Some m
      | _ \<Rightarrow> None)"

text \<open>
  Everything that can refuse the event comes first; then the log, the sequence number and the
  projection move.  The last refusal, of a chunk whose attempt changed owner, would come too late.
\<close>

definition append_prepared_with_admission ::
  "externals \<Rightarrow> memory_session \<Rightarrow> prepared_event \<Rightarrow> nat \<Rightarrow> nat \<Rightarrow> memory_admission \<Rightarrow> clock
     \<Rightarrow> memory_session \<times> (append_error + append_receipt)" where
  "append_prepared_with_admission E s p reserved_events reserved_bytes admission now =
     (case
        bindR (admit_size s (pv_retained_json_bytes p) reserved_events reserved_bytes) (\<lambda>next_bytes.
        bindR (ok_or SequenceExhausted (ms_next_seq s)) (\<lambda>seq.
        bindR (ok_or (AppendValidation UnknownLiveEvent) (live_event_type (ne_kind (pv_event p)))) (\<lambda>t.
        bindR (admit_projection E (ms_projection s) (candidate seq 0 p) admission) (\<lambda>next.
        bindR (ok_or AppendClock now) (\<lambda>now.
        bindR (requireR (0 \<le> now) AppendClock) (\<lambda>_.
          Inr (next_bytes, seq, t, next, now)))))))
      of
        Inl e \<Rightarrow> (s, Inl e)
      | Inr (next_bytes, seq, t, next, now) \<Rightarrow>
          let s = s\<lparr>ms_events := ms_events s @ [candidate seq now p], ms_retained_json_bytes := next_bytes,
                    ms_next_seq := Option.bind (checked_add_u64 seq 1) (\<lambda>n. ok_value (event_seq_new n))\<rparr>;
              receipt = Inr \<lparr>ar_seq = seq, ar_time = now, ar_event_type = t,
                             ar_message = surface_message (ne_kind (pv_event p))\<rparr>
          in case next of
               EitherOrdinary q \<Rightarrow> (s\<lparr>ms_projection := q\<rparr>, receipt)
             | EitherAttempt q \<Rightarrow>
                 (case commit_memory q (ms_projection s) of
                    (True, q) \<Rightarrow> (s\<lparr>ms_projection := q\<rparr>, receipt)
                  | (False, q) \<Rightarrow> (s\<lparr>ms_projection := q\<rparr>, Inl (AppendValidation (AttemptE OwnershipChanged)))))"

definition append_prepared ::
  "externals \<Rightarrow> memory_session \<Rightarrow> prepared_event \<Rightarrow> nat \<Rightarrow> nat \<Rightarrow> clock
     \<Rightarrow> memory_session \<times> (append_error + append_receipt)" where
  "append_prepared E s p reserved_events reserved_bytes now =
     append_prepared_with_admission E s p reserved_events reserved_bytes AdmitOrdinary now"

definition append_event ::
  "externals \<Rightarrow> memory_session \<Rightarrow> new_event \<Rightarrow> clock \<Rightarrow> memory_session \<times> (append_error + append_receipt)" where
  "append_event E s e now =
     (case prepare_event E e of
        Inl err \<Rightarrow> (s, Inl err)
      | Inr p \<Rightarrow> append_prepared E s p 0 0 now)"

definition remaining_budget :: "memory_session \<Rightarrow> session_budget" where
  "remaining_budget s =
     \<lparr>sb_events = MAX_SESSION_EVENTS - length (ms_events s),
      sb_retained_json_bytes = MAX_SESSION_RETAINED_JSON_BYTES - ms_retained_json_bytes s\<rparr>"

section \<open>Replay\<close>

fun replay_events ::
  "externals \<Rightarrow> projection \<Rightarrow> nat \<Rightarrow> session_event list \<Rightarrow> replay_error + projection" where
  "replay_events E p index [] = Inr p"
| "replay_events E p index (e # es) =
     (case event_seq_from_index index of
        None \<Rightarrow> Inl (ReplayError index (NonContiguousSequence (ev_seq e) (ev_seq e)))
      | Some expected \<Rightarrow>
          if ev_seq e \<noteq> expected then Inl (ReplayError index (NonContiguousSequence expected (ev_seq e)))
          else if is_unknown (ev_kind e) \<and> \<not> ev_ignorable e
          then Inl (ReplayError index event_error.UnknownRequiredEvent)
          else
            bindR (map_err (ReplayError index) (with_compatible_event E p e)) (\<lambda>p.
              replay_events E p (Suc index) es))"

definition replay_projection ::
  "externals \<Rightarrow> session_event list \<Rightarrow> string option \<Rightarrow> replay_error + projection" where
  "replay_projection E events session_id =
     (if length events > MAX_SESSION_EVENTS
      then Inl (ReplayError MAX_SESSION_EVENTS (event_error.TooManyEvents MAX_SESSION_EVENTS (length events)))
      else
        replay_events E
          (case session_id of
             None \<Rightarrow> projection_empty MemoryCompatible
           | Some sid \<Rightarrow> for_session MemoryCompatible sid) 0 events)"

definition retained_json_bytes :: "session_header \<Rightarrow> session_event list \<Rightarrow> session_error + nat" where
  "retained_json_bytes h events =
     try_fold (\<lambda>total e.
         ok_or (SessionRetainedJsonLimit MAX_SESSION_RETAINED_JSON_BYTES)
           (Option.bind (checked_add_u64 total (jv_encoded_len (ev_original_data e))) (\<lambda>n.
              if n \<le> MAX_SESSION_RETAINED_JSON_BYTES then Some n else None)))
       (jv_encoded_len (sh_raw h)) events"

section \<open>Sessions\<close>

definition session_new :: "nat \<Rightarrow> session_header \<Rightarrow> projection \<Rightarrow> session_event list \<Rightarrow> nat \<Rightarrow> memory_session" where
  "session_new authority h p events bytes =
     \<lparr>ms_header = h, ms_next_seq = event_seq_from_index (length events), ms_projection = p,
      ms_first_live_seq = length events, ms_authority = authority, ms_next_nonce = 1, ms_active = None,
      ms_barrier_epoch = 0, ms_events = events, ms_retained_json_bytes = bytes\<rparr>"

definition session_with_clock ::
  "externals \<Rightarrow> nat \<Rightarrow> string \<Rightarrow> clock \<Rightarrow> session_error + memory_session" where
  "session_with_clock E authority sid now =
     bindR (ok_or SessionClock now) (\<lambda>created.
     bindR (map_err SessionHeaderError (header_new E sid created)) (\<lambda>h.
       Inr (session_new authority h (for_session MemoryCompatible (sh_id h)) [] (jv_encoded_len (sh_raw h)))))"

text \<open>A seed keeps its events verbatim and is marked at its end, once.\<close>

definition session_from_seed ::
  "externals \<Rightarrow> nat \<Rightarrow> session_header \<Rightarrow> session_event list \<Rightarrow> clock \<Rightarrow> session_error + memory_session" where
  "session_from_seed E authority h seed now =
     bindR (map_err SessionHeaderError (header_validate_for h (sh_id h))) (\<lambda>_.
     bindR (map_err SessionReplay (replay_projection E seed (Some (sh_id h)))) (\<lambda>p.
     bindR (retained_json_bytes h seed) (\<lambda>bytes.
       let s = session_new authority h p seed bytes in
       if seed \<noteq> [] \<and> ev_kind (last seed) = EndSeed then Inr s
       else case append_event E s \<lparr>ne_kind = EndSeed, ne_surface = None\<rparr> now of
              (s, Inl e) \<Rightarrow> Inl (SessionAppend e)
            | (s, Inr _) \<Rightarrow> Inr s)))"

section \<open>The owned attempt\<close>

definition invalid_attempt :: "string \<Rightarrow> append_error" where
  "invalid_attempt detail = AppendValidation (AttemptE (boundary ''provider attempt'' detail))"

definition validate_open_attempt_token :: "memory_session \<Rightarrow> attempt_token \<Rightarrow> nat \<Rightarrow> append_error + unit" where
  "validate_open_attempt_token s t owner =
     (if ms_authority s \<noteq> tk_authority t then Inl (invalid_attempt ''attempt token belongs to another Session'')
      else if owner \<noteq> tk_reservation t then Inl (invalid_attempt ''attempt token belongs to another reservation'')
      else case ms_active s of
        Some a \<Rightarrow>
          if aw_nonce a = tk_nonce t \<and> aw_reservation a = owner \<and> aw_turn a = tk_turn t
             \<and> aw_step a = tk_step t \<and> aw_phase a = AttemptOpen
          then Inr ()
          else Inl (invalid_attempt ''attempt token is stale, closed, or belongs to another step'')
      | None \<Rightarrow> Inl (invalid_attempt ''attempt token is stale, closed, or belongs to another step''))"

definition mark_attempt_closed ::
  "memory_session \<Rightarrow> attempt_token \<Rightarrow> nat \<Rightarrow> append_receipt \<Rightarrow> attempt_disposition
     \<Rightarrow> append_error + memory_session" where
  "mark_attempt_closed s t owner r d =
     bindR (validate_open_attempt_token s t owner) (\<lambda>_.
       case ms_active s of
         None \<Rightarrow> Inl (invalid_attempt ''attempt owner disappeared before closure'')
       | Some a \<Rightarrow>
           Inr (s\<lparr>ms_active := Some (a\<lparr>aw_phase := AttemptClosed (ar_seq r) (ms_barrier_epoch s) d\<rparr>)\<rparr>))"

end
