(* ===== verification/Session_Claims.thy ===== *)
theory Session_Claims
  imports Session_Log
begin

text \<open>
  Reservations of \<open>src/session/mod.rs\<close>, in the in-memory mode: an exclusive scope that protects the
  exact cost of fallback events, so that an event which must be written later always fits, and that
  owns at most one provider attempt of the session.
\<close>

section \<open>State\<close>

record reservation =
  rn_owner :: nat
  rn_events :: nat
  rn_json_bytes :: nat
  rn_row_bytes :: nat
  rn_next_token :: nat

datatype claim_state =
    ClaimReady prepared_event
  | ClaimPendingFallback
  | ClaimPendingPreferred prepared_event
  | ClaimSettled

datatype claim_identity = OtherFallback | StepEndFallback nat nat

record event_claim =
  cl_owner :: nat
  cl_token :: nat
  cl_state :: claim_state
  cl_identity :: claim_identity
  cl_json_bytes :: nat
  cl_row_bytes :: nat

record claim_bookkeeping =
  cb_events :: nat
  cb_json_bytes :: nat
  cb_row_bytes :: nat

datatype claimed_append = ClaimedPreferred append_receipt | ClaimedFallback append_receipt

definition fallback_identity :: "prepared_event \<Rightarrow> claim_identity" where
  "fallback_identity p = (case ne_kind (pv_event p) of StepEnd turn step \<Rightarrow> StepEndFallback turn step | _ \<Rightarrow> OtherFallback)"

definition ready_fallback :: "event_claim \<Rightarrow> append_error + prepared_event" where
  "ready_fallback c = (case cl_state c of ClaimReady p \<Rightarrow> Inr p | _ \<Rightarrow> Inl InvalidClaim)"

definition session_reservation :: "nat \<Rightarrow> reservation" where
  "session_reservation owner = \<lparr>rn_owner = owner, rn_events = 0, rn_json_bytes = 0, rn_row_bytes = 0, rn_next_token = 0\<rparr>"

section \<open>Claims\<close>

text \<open>A checked sum that stays within a limit.\<close>

definition within_limit :: "nat option \<Rightarrow> nat \<Rightarrow> bool" where
  "within_limit x limit = (case x of None \<Rightarrow> False | Some n \<Rightarrow> n \<le> limit)"

fun prepare_all :: "externals \<Rightarrow> new_event list \<Rightarrow> append_error + prepared_event list" where
  "prepare_all E [] = Inr []"
| "prepare_all E (e # es) = bindR (prepare_event E e) (\<lambda>p. bindR (prepare_all E es) (\<lambda>ps. Inr (p # ps)))"

fun make_claims :: "nat \<Rightarrow> nat \<Rightarrow> prepared_event list \<Rightarrow> append_error + event_claim list" where
  "make_claims owner token [] = Inr []"
| "make_claims owner token (p # ps) =
     bindR (ok_or SequenceExhausted (checked_add_u64 token 0)) (\<lambda>_.
     bindR (make_claims owner (Suc token) ps) (\<lambda>cs.
       Inr (\<lparr>cl_owner = owner, cl_token = token, cl_state = ClaimReady p, cl_identity = fallback_identity p,
              cl_json_bytes = pv_retained_json_bytes p, cl_row_bytes = 0\<rparr> # cs)))"

definition claim_batch ::
  "externals \<Rightarrow> memory_session \<Rightarrow> reservation \<Rightarrow> new_event list \<Rightarrow> append_error + reservation \<times> event_claim list" where
  "claim_batch E s r fallbacks =
     bindR (prepare_all E fallbacks) (\<lambda>prepared.
     bindR (ok_or SequenceExhausted (checked_add_u64 (rn_next_token r) (length prepared))) (\<lambda>next_token.
     bindR (ok_or (RetainedJsonLimit MAX_SESSION_RETAINED_JSON_BYTES) (sum_by pv_retained_json_bytes prepared)) (\<lambda>added_bytes.
     bindR (ok_or (EventLimit MAX_SESSION_EVENTS) (checked_add_u64 (rn_events r) (length prepared))) (\<lambda>next_events.
     bindR (ok_or (RetainedJsonLimit MAX_SESSION_RETAINED_JSON_BYTES) (checked_add_u64 (rn_json_bytes r) added_bytes)) (\<lambda>next_bytes.
     bindR (requireR (within_limit (checked_add_u64 (length (ms_events s)) next_events) MAX_SESSION_EVENTS)
              (ReservedEventLimit MAX_SESSION_EVENTS next_events)) (\<lambda>_.
     bindR (requireR (within_limit (checked_add_u64 (ms_retained_json_bytes s) next_bytes) MAX_SESSION_RETAINED_JSON_BYTES)
              (ReservedRetainedJsonLimit MAX_SESSION_RETAINED_JSON_BYTES next_bytes)) (\<lambda>_.
     bindR (make_claims (rn_owner r) (rn_next_token r) prepared) (\<lambda>claims.
       Inr (r\<lparr>rn_events := next_events, rn_json_bytes := next_bytes, rn_next_token := next_token\<rparr>, claims)))))))))"

definition validate_claim :: "reservation \<Rightarrow> event_claim \<Rightarrow> append_error + unit" where
  "validate_claim r c = (if cl_state c = ClaimSettled \<or> rn_owner r \<noteq> cl_owner c then Inl InvalidClaim else Inr ())"

definition prepare_claim_bookkeeping :: "reservation \<Rightarrow> event_claim \<Rightarrow> append_error + claim_bookkeeping" where
  "prepare_claim_bookkeeping r c =
     bindR (ok_or InvalidClaim (checked_sub_u64 (rn_events r) 1)) (\<lambda>events.
     bindR (ok_or InvalidClaim (checked_sub_u64 (rn_json_bytes r) (cl_json_bytes c))) (\<lambda>bytes.
     bindR (ok_or InvalidClaim (checked_sub_u64 (rn_row_bytes r) (cl_row_bytes c))) (\<lambda>rows.
       Inr \<lparr>cb_events = events, cb_json_bytes = bytes, cb_row_bytes = rows\<rparr>)))"

definition finish_claim_bookkeeping ::
  "reservation \<Rightarrow> event_claim \<Rightarrow> claim_bookkeeping \<Rightarrow> reservation \<times> event_claim" where
  "finish_claim_bookkeeping r c b =
     (r\<lparr>rn_events := cb_events b, rn_json_bytes := cb_json_bytes b, rn_row_bytes := cb_row_bytes b\<rparr>,
      c\<lparr>cl_state := ClaimSettled\<rparr>)"

section \<open>Appending within a reservation\<close>

text \<open>What an operation on a claim leaves, and its result.\<close>

type_synonym 'a settled = "(memory_session \<times> reservation \<times> event_claim) \<times> (append_error + 'a)"

definition reservation_append ::
  "externals \<Rightarrow> memory_session \<Rightarrow> reservation \<Rightarrow> new_event \<Rightarrow> clock \<Rightarrow> memory_session \<times> (append_error + append_receipt)" where
  "reservation_append E s r e now =
     (case prepare_event E e of
        Inl err \<Rightarrow> (s, Inl err)
      | Inr p \<Rightarrow> append_prepared E s p (rn_events r) (rn_json_bytes r) now)"

text \<open>Appending under a claim and giving the claim back, unless the append refused.\<close>

definition settle_with ::
  "externals \<Rightarrow> memory_session \<Rightarrow> reservation \<Rightarrow> event_claim \<Rightarrow> prepared_event \<Rightarrow> claim_bookkeeping \<Rightarrow> clock
     \<Rightarrow> append_receipt settled" where
  "settle_with E s r c p b now =
     (case append_prepared E s p (rn_events r - 1) (rn_json_bytes r - cl_json_bytes c) now of
        (s, Inl e) \<Rightarrow> ((s, r, c), Inl e)
      | (s, Inr receipt) \<Rightarrow> (case finish_claim_bookkeeping r c b of (r, c) \<Rightarrow> ((s, r, c), Inr receipt)))"

definition preferred_fits :: "memory_session \<Rightarrow> reservation \<Rightarrow> event_claim \<Rightarrow> prepared_event \<Rightarrow> bool" where
  "preferred_fits s r c preferred =
     (within_limit (Option.bind (checked_add_u64 (length (ms_events s)) 1) (\<lambda>n. checked_add_u64 n (rn_events r - 1)))
        MAX_SESSION_EVENTS
      \<and> within_limit (Option.bind (checked_add_u64 (ms_retained_json_bytes s) (pv_retained_json_bytes preferred))
            (\<lambda>n. checked_add_u64 n (rn_json_bytes r - cl_json_bytes c)))
          MAX_SESSION_RETAINED_JSON_BYTES)"

definition settle ::
  "externals \<Rightarrow> memory_session \<Rightarrow> reservation \<Rightarrow> event_claim \<Rightarrow> new_event \<Rightarrow> clock \<Rightarrow> claimed_append settled" where
  "settle E s r c preferred now =
     (case
        bindR (validate_claim r c) (\<lambda>_.
        bindR (ready_fallback c) (\<lambda>fallback.
        bindR (prepare_event E preferred) (\<lambda>preferred.
        bindR (validate_prepared E s preferred) (\<lambda>preferred.
        bindR (prepare_claim_bookkeeping r c) (\<lambda>b.
          Inr (fallback, preferred, b))))))
      of
        Inl e \<Rightarrow> ((s, r, c), Inl e)
      | Inr (fallback, preferred, b) \<Rightarrow>
          let fits = preferred_fits s r c preferred
          in case settle_with E s r c (if fits then preferred else fallback) b now of
               (st, Inl e) \<Rightarrow> (st, Inl e)
             | (st, Inr receipt) \<Rightarrow> (st, Inr (if fits then ClaimedPreferred receipt else ClaimedFallback receipt)))"

definition settle_exact ::
  "externals \<Rightarrow> memory_session \<Rightarrow> reservation \<Rightarrow> event_claim \<Rightarrow> clock \<Rightarrow> append_receipt settled" where
  "settle_exact E s r c now =
     (case
        bindR (validate_claim r c) (\<lambda>_.
        bindR (prepare_claim_bookkeeping r c) (\<lambda>b.
        bindR (ready_fallback c) (\<lambda>fallback. Inr (b, fallback))))
      of
        Inl e \<Rightarrow> ((s, r, c), Inl e)
      | Inr (b, fallback) \<Rightarrow> settle_with E s r c fallback b now)"

definition settle_preferred_only ::
  "externals \<Rightarrow> memory_session \<Rightarrow> reservation \<Rightarrow> event_claim \<Rightarrow> new_event \<Rightarrow> clock \<Rightarrow> append_receipt settled" where
  "settle_preferred_only E s r c preferred now =
     (case
        bindR (validate_claim r c) (\<lambda>_.
        bindR (ready_fallback c) (\<lambda>_.
        bindR (prepare_claim_bookkeeping r c) (\<lambda>b.
        bindR (prepare_event E preferred) (\<lambda>preferred.
        bindR (requireR (pv_retained_json_bytes preferred \<le> cl_json_bytes c)
                 (ClaimPayloadTooLarge (cl_json_bytes c) (pv_retained_json_bytes preferred))) (\<lambda>_.
        bindR (validate_prepared E s preferred) (\<lambda>preferred. Inr (b, preferred)))))))
      of
        Inl e \<Rightarrow> ((s, r, c), Inl e)
      | Inr (b, preferred) \<Rightarrow> settle_with E s r c preferred b now)"

definition release :: "reservation \<Rightarrow> event_claim \<Rightarrow> append_error + reservation \<times> event_claim" where
  "release r c =
     bindR (validate_claim r c) (\<lambda>_.
     bindR (ready_fallback c) (\<lambda>_.
     bindR (prepare_claim_bookkeeping r c) (\<lambda>b.
       Inr (finish_claim_bookkeeping r c b))))"

definition reserve_claim_retained_json_bytes ::
  "memory_session \<Rightarrow> reservation \<Rightarrow> event_claim \<Rightarrow> nat \<Rightarrow> append_error + reservation \<times> event_claim" where
  "reserve_claim_retained_json_bytes s r c requested =
     bindR (validate_claim r c) (\<lambda>_.
     bindR (ready_fallback c) (\<lambda>_.
       if requested \<le> cl_json_bytes c then Inr (r, c)
       else
         bindR (ok_or InvalidClaim (checked_sub_u64 (rn_json_bytes r) (cl_json_bytes c))) (\<lambda>other.
         bindR (ok_or (ReservedRetainedJsonLimit MAX_SESSION_RETAINED_JSON_BYTES (U64_LIMIT - 1))
                  (checked_add_u64 other requested)) (\<lambda>next_bytes.
         bindR (requireR (within_limit (checked_add_u64 (ms_retained_json_bytes s) next_bytes) MAX_SESSION_RETAINED_JSON_BYTES)
                  (ReservedRetainedJsonLimit MAX_SESSION_RETAINED_JSON_BYTES next_bytes)) (\<lambda>_.
           Inr (r\<lparr>rn_json_bytes := next_bytes\<rparr>, c\<lparr>cl_json_bytes := requested\<rparr>))))))"

definition rebind_claim_fallback ::
  "externals \<Rightarrow> reservation \<Rightarrow> event_claim \<Rightarrow> new_event \<Rightarrow> append_error + event_claim" where
  "rebind_claim_fallback E r c fallback =
     bindR (validate_claim r c) (\<lambda>_.
     bindR (ready_fallback c) (\<lambda>_.
     bindR (prepare_event E fallback) (\<lambda>fallback.
     bindR (requireR (pv_retained_json_bytes fallback \<le> cl_json_bytes c)
              (ClaimPayloadTooLarge (cl_json_bytes c) (pv_retained_json_bytes fallback))) (\<lambda>_.
       Inr (c\<lparr>cl_state := ClaimReady fallback, cl_identity := fallback_identity fallback\<rparr>)))))"

section \<open>The provider attempt\<close>

definition begin_attempt ::
  "memory_session \<Rightarrow> reservation \<Rightarrow> nat \<Rightarrow> nat \<Rightarrow> append_error + memory_session \<times> attempt_token" where
  "begin_attempt s r turn step =
     (if ms_active s \<noteq> None then Inl (invalid_attempt ''another provider attempt is still owned'')
      else
        bindR (ok_or SequenceExhausted (checked_add_u64 (ms_next_nonce s) 1)) (\<lambda>next_nonce.
        bindR (lift_append (lift_attempt (prepare_live_attempt (ms_projection s) turn step))) (\<lambda>l.
        bindR (lift_append (lift_attempt (commit_live_attempt True (ms_projection s) l))) (\<lambda>p.
          Inr (s\<lparr>ms_projection := p, ms_next_nonce := next_nonce,
                 ms_active := Some \<lparr>aw_reservation = rn_owner r, aw_nonce = ms_next_nonce s, aw_turn = turn,
                                    aw_step = step, aw_phase = AttemptOpen\<rparr>\<rparr>,
               \<lparr>tk_authority = ms_authority s, tk_reservation = rn_owner r, tk_nonce = ms_next_nonce s,
                 tk_turn = turn, tk_step = step\<rparr>)))))"

definition append_attempt_chunk ::
  "externals \<Rightarrow> memory_session \<Rightarrow> reservation \<Rightarrow> attempt_token \<Rightarrow> stream_chunk \<Rightarrow> clock
     \<Rightarrow> memory_session \<times> (append_error + append_receipt)" where
  "append_attempt_chunk E s r t ch now =
     (case bindR (validate_open_attempt_token s t (rn_owner r)) (\<lambda>_.
             prepare_event E \<lparr>ne_kind = AssistantChunk (tk_turn t) (tk_step t) ch, ne_surface = None\<rparr>)
      of
        Inl e \<Rightarrow> (s, Inl e)
      | Inr p \<Rightarrow> append_prepared_with_admission E s p (rn_events r) (rn_json_bytes r) AdmitChunk now)"

definition session_seal_attempt ::
  "externals \<Rightarrow> memory_session \<Rightarrow> reservation \<Rightarrow> attempt_token \<Rightarrow> append_error + prepared_attempt \<times> memory_session" where
  "session_seal_attempt E s r t =
     bindR (validate_open_attempt_token s t (rn_owner r)) (\<lambda>_.
     bindR (lift_append (lift_attempt (seal_live_attempt E (ms_projection s)))) (\<lambda>(prepared, p).
       Inr (prepared, s\<lparr>ms_projection := p\<rparr>)))"

text \<open>The closure is committed before the owner is marked closed.\<close>

definition close_after ::
  "memory_session \<times> (append_error + append_receipt) \<Rightarrow> attempt_token \<Rightarrow> nat \<Rightarrow> attempt_disposition
     \<Rightarrow> memory_session \<times> (append_error + append_receipt)" where
  "close_after x t owner d =
     (case x of
        (s, Inl e) \<Rightarrow> (s, Inl e)
      | (s, Inr receipt) \<Rightarrow>
          (case mark_attempt_closed s t owner receipt d of Inl e \<Rightarrow> (s, Inl e) | Inr s \<Rightarrow> (s, Inr receipt)))"

definition append_attempt_closure ::
  "externals \<Rightarrow> memory_session \<Rightarrow> reservation \<Rightarrow> attempt_token \<Rightarrow> attempt_disposition \<Rightarrow> new_event \<Rightarrow> clock
     \<Rightarrow> memory_session \<times> (append_error + append_receipt)" where
  "append_attempt_closure E s r t d e now =
     (case bindR (validate_open_attempt_token s t (rn_owner r)) (\<lambda>_. prepare_event E e) of
        Inl err \<Rightarrow> (s, Inl err)
      | Inr p \<Rightarrow>
          close_after (append_prepared_with_admission E s p (rn_events r) (rn_json_bytes r) (AdmitClosure d) now)
            t (rn_owner r) d)"

definition settle_attempt_closure_exact ::
  "externals \<Rightarrow> memory_session \<Rightarrow> reservation \<Rightarrow> event_claim \<Rightarrow> attempt_token \<Rightarrow> attempt_disposition \<Rightarrow> clock
     \<Rightarrow> append_receipt settled" where
  "settle_attempt_closure_exact E s r c t d now =
     (case
        bindR (validate_open_attempt_token s t (rn_owner r)) (\<lambda>_.
        bindR (validate_claim r c) (\<lambda>_.
        bindR (prepare_claim_bookkeeping r c) (\<lambda>b.
        bindR (ready_fallback c) (\<lambda>fallback. Inr (b, fallback)))))
      of
        Inl e \<Rightarrow> ((s, r, c), Inl e)
      | Inr (b, fallback) \<Rightarrow>
          (case close_after (append_prepared_with_admission E s fallback (cb_events b) (cb_json_bytes b) (AdmitClosure d) now)
                  t (rn_owner r) d of
             (s, Inl e) \<Rightarrow> ((s, r, c), Inl e)
           | (s, Inr receipt) \<Rightarrow> (case finish_claim_bookkeeping r c b of (r, c) \<Rightarrow> ((s, r, c), Inr receipt))))"

definition settle_step_end_with_attempt ::
  "externals \<Rightarrow> memory_session \<Rightarrow> reservation \<Rightarrow> event_claim \<Rightarrow> attempt_token option \<Rightarrow> attempt_disposition option
     \<Rightarrow> clock \<Rightarrow> append_receipt settled" where
  "settle_step_end_with_attempt E s r c token d now =
     (case validate_claim r c of
        Inl e \<Rightarrow> ((s, r, c), Inl e)
      | Inr _ \<Rightarrow>
          (case cl_identity c of
             OtherFallback \<Rightarrow> ((s, r, c), Inl InvalidClaim)
           | StepEndFallback turn step \<Rightarrow>
               (case token of
                  Some t \<Rightarrow>
                    (case d of
                       Some d \<Rightarrow>
                         if tk_turn t \<noteq> turn \<or> tk_step t \<noteq> step \<or> d \<notin> {DispFailed, DispCancelled}
                         then ((s, r, c), Inl (invalid_attempt ''step/end does not match the open attempt disposition''))
                         else settle_attempt_closure_exact E s r c t d now
                     | None \<Rightarrow> ((s, r, c), Inl (invalid_attempt ''step/end does not match the open attempt disposition'')))
                | None \<Rightarrow>
                    if ms_active s \<noteq> None \<or> d \<noteq> None
                    then ((s, r, c), Inl (invalid_attempt ''step/end omitted or double-closed an active attempt''))
                    else settle_exact E s r c now)))"

text \<open>An attempt is retired once its closure has crossed a storage barrier.\<close>

datatype barrier_error = BarrierAppend append_error | BarrierStorage store_error | BarrierObserverUnavailable

definition flush_barrier :: "memory_session \<Rightarrow> barrier_error + memory_session" where
  "flush_barrier s =
     bindR (ok_or (BarrierStorage Poisoned) (checked_add_u64 (ms_barrier_epoch s) 1)) (\<lambda>n.
       Inr (s\<lparr>ms_barrier_epoch := n\<rparr>))"

definition retire_attempt :: "memory_session \<Rightarrow> reservation \<Rightarrow> attempt_token \<Rightarrow> append_error + memory_session" where
  "retire_attempt s r t =
     (if ms_authority s \<noteq> tk_authority t then Inl (invalid_attempt ''attempt token belongs to another Session'')
      else if rn_owner r \<noteq> tk_reservation t then Inl (invalid_attempt ''attempt token belongs to another reservation'')
      else case ms_active s of
        None \<Rightarrow> Inl (invalid_attempt ''attempt token is no longer active'')
      | Some a \<Rightarrow>
          if aw_reservation a \<noteq> rn_owner r \<or> aw_nonce a \<noteq> tk_nonce t \<or> aw_turn a \<noteq> tk_turn t \<or> aw_step a \<noteq> tk_step t
          then Inl (invalid_attempt ''attempt token does not match the active owner'')
          else case aw_phase a of
            AttemptOpen \<Rightarrow> Inl (invalid_attempt ''attempt has not committed its closure'')
          | AttemptClosed _ closed_at _ \<Rightarrow>
              if ms_barrier_epoch s \<le> closed_at
              then Inl (invalid_attempt ''attempt closure has not crossed a storage barrier'')
              else Inr (s\<lparr>ms_active := None\<rparr>))"

end
