(* ===== verification/Session_Replay.thy ===== *)
theory Session_Replay
  imports Session_Log Projection_Commute
begin

text \<open>
  The log of an in-memory session is its source of truth: replaying its events gives the projection
  the session reached while it appended them, but for the attempt and the token anchor, which no
  replay without an owner can rebuild.
\<close>

section \<open>Replay does not look at the attempt\<close>

lemma erase_put: "erase_attempt p = put attempt_default (pj_surface p) None (pj_compaction p) p"
  by (simp add: erase_attempt_def put_def)

lemma put_erased: "keeps_outside p q \<Longrightarrow> put a (pj_surface p) t (pj_compaction p) q = q\<lparr>pj_attempt := a, pj_token_anchor := t\<rparr>"
  by (cases q) (simp add: put_def keeps_outside_def)

lemma transition_erased:
  "apply_transition (erase_attempt p) e adm = map_ok erase_attempt (apply_transition p e adm)"
proof -
  have "apply_transition (erase_attempt p) e adm
      = map_ok (put attempt_default (pj_surface p) None (pj_compaction p)) (apply_transition p e adm)"
    using put_transition[of attempt_default "pj_surface p" None "pj_compaction p" p e adm] by (simp add: erase_put)
  moreover have "put attempt_default (pj_surface p) None (pj_compaction p) q = erase_attempt q"
    if "apply_transition p e adm = Inr q" for q
    using put_erased[OF transition_frame[OF that]] by (simp add: erase_attempt_def)
  ultimately show ?thesis by (cases "apply_transition p e adm") simp_all
qed

lemma node_erased:
  "append_node (erase_attempt p) n = map_ok erase_attempt (append_node p n)"
  "splice_node (erase_attempt p) i j n = map_ok erase_attempt (splice_node p i j n)"
  by (cases p, simp add: append_node_def splice_node_def erase_attempt_def Let_def map_ok_rules)+

lemma erased_reads [simp]:
  "pj_surface (erase_attempt p) = pj_surface p" "pj_compaction (erase_attempt p) = pj_compaction p"
  "pj_policy (erase_attempt p) = pj_policy p"
  by (simp_all add: erase_attempt_def)

lemma replace_erased:
  "replace_range E (erase_attempt p) e b i j = map_ok erase_attempt (replace_range E p e b i j)"
  by (simp add: replace_range_def node_erased Let_def map_ok_rules cong: all_branches)

lemma surface_erased:
  "apply_surface E (erase_attempt p) e b = map_ok erase_attempt (apply_surface E p e b)"
  by (simp add: apply_surface_def node_erased replace_erased map_ok_rules cong: all_branches surface_op.case_cong)

lemma anchor_reads:
  "pj_policy (p\<lparr>pj_token_anchor := a\<rparr>) = pj_policy p" "open_turn (p\<lparr>pj_token_anchor := a\<rparr>) = open_turn p"
  "open_step (p\<lparr>pj_token_anchor := a\<rparr>) = open_step p"
  "has_pending_durable_call (p\<lparr>pj_token_anchor := a\<rparr>) = has_pending_durable_call p"
  "surface_range_indices (p\<lparr>pj_token_anchor := a\<rparr>) r n = surface_range_indices p r n"
  "surface_range_matches (p\<lparr>pj_token_anchor := a\<rparr>) r n = surface_range_matches p r n"
  by (simp_all add: open_turn_def open_step_def has_pending_durable_call_def surface_range_indices_def surface_range_matches_def)

lemma anchor_compaction:
  "validate_compaction_dispatch E (p\<lparr>pj_token_anchor := a\<rparr>) n d = validate_compaction_dispatch E p n d"
  "advance_summary (p\<lparr>pj_token_anchor := a\<rparr>) n sm oc = advance_summary p n sm oc"
  "advance_checkpoint E (p\<lparr>pj_token_anchor := a\<rparr>) e m oc = advance_checkpoint E p e m oc"
  "advance_end (p\<lparr>pj_token_anchor := a\<rparr>) n ce oc adm = advance_end p n ce oc adm"
  "claim_prune (p\<lparr>pj_token_anchor := a\<rparr>) pr = claim_prune p pr"
  by (simp_all add: validate_compaction_dispatch_def validate_dispatch_header_def validate_dispatch_owner_def
      validate_summary_recipe_def advance_summary_def advance_checkpoint_def advance_end_def claim_prune_def
      anchor_reads cong: all_branches compaction_phase.case_cong)

lemma compaction_erased:
  "next_compaction_state E (erase_attempt p) e adm = next_compaction_state E p e adm"
proof -
  have "next_compaction_state E (p\<lparr>pj_token_anchor := a\<rparr>) e adm = next_compaction_state E p e adm" for a p
    by (simp add: next_compaction_state_def Let_def advance_open_compaction_def advance_idle_def
        validate_compaction_start_def anchor_compaction anchor_reads cong: all_branches event_kind.case_cong)
  then show ?thesis by (simp add: erase_attempt_def next_compaction_reads)
qed

section \<open>What the live session accepts, a replay accepts\<close>

lemma compatible_transition:
  assumes "pj_policy p \<noteq> DurableStrict"
  shows "apply_transition p e adm = apply_transition p e adm'"
proof -
  have "reject_recovery_event p k a = Inr ()" for k a using assms by (simp add: reject_recovery_event_def)
  moreover have "apply_kind p e adm = apply_kind p e adm'"
    using assms by (cases "ev_kind e") (simp_all add: apply_kind_def apply_tool_result_def resolve_durable_call_def)
  ultimately show ?thesis by (simp add: apply_transition_def)
qed

lemma compatible_compaction:
  assumes "next_compaction_state E p e adm = Inr c" "pj_policy p \<noteq> DurableStrict" "adm \<noteq> HistoricalScan"
  shows "next_compaction_state E p e CompatibilityReplay = Inr c"
proof -
  have ends: "advance_end p n x oc CompatibilityReplay = Inr y" if "advance_end p n x oc adm = Inr y" for n x oc y
    using that by (auto simp: advance_end_def elim!: bindR_InrE split: if_splits)
  have starts: "validate_compaction_start E p n st CompatibilityReplay = Inr y"
    if "validate_compaction_start E p n st adm = Inr y" for n st y
    using that by (auto simp: validate_compaction_start_def elim!: bindR_InrE split: if_splits option.splits)
  have adv: "advance_open_compaction E p e oc CompatibilityReplay = Inr y"
    if "advance_open_compaction E p e oc adm = Inr y" for oc y
    using that ends by (cases "ev_kind e") (auto simp: advance_open_compaction_def Let_def elim!: bindR_InrE split: if_splits)
  have idle: "advance_idle E p e CompatibilityReplay b c' = Inr y" if "advance_idle E p e adm b c' = Inr y" for b c' y
    using that starts by (cases "ev_kind e") (auto simp: advance_idle_def elim!: bindR_InrE split: if_splits)
  show ?thesis
    using assms unfolding next_compaction_state_def Let_def
    by (auto elim!: bindR_InrE dest!: adv idle split: if_splits option.splits)
qed

text \<open>An event accepted with its attempt operations before or after the transition.\<close>

lemma live_compatible:
  assumes valid: "event_validate E (ev_kind e) = Inr ()" and policy: "pj_policy p \<noteq> DurableStrict" "adm \<noteq> HistoricalScan"
    and comp: "next_compaction_state E p e adm = Inr c"
    and parts: "erase_attempt p1 = erase_attempt p" "apply_transition p1 e adm = Inr p2"
      "erase_attempt p3 = erase_attempt p2" "apply_surface E p3 e BindMemory = Inr p4"
  shows "\<exists>r. with_compatible_event E p e = Inr r \<and> erase_attempt r = erase_attempt (p4\<lparr>pj_compaction := c\<rparr>)"
proof -
  have "apply_transition (erase_attempt p) e adm = Inr (erase_attempt p2)"
    using transition_erased[of p1 e adm] parts(1,2) by simp
  then obtain q where q: "apply_transition p e adm = Inr q" "erase_attempt q = erase_attempt p2"
    using transition_erased[of p e adm] by (cases "apply_transition p e adm") auto
  have "apply_surface E (erase_attempt q) e BindMemory = Inr (erase_attempt p4)"
    using surface_erased[of E p3 e BindMemory] parts(3,4) q(2) by simp
  then obtain r where r: "apply_surface E q e BindMemory = Inr r" "erase_attempt r = erase_attempt p4"
    using surface_erased[of E q e BindMemory] by (cases "apply_surface E q e BindMemory") auto
  have "with_compatible_event E p e = Inr (r\<lparr>pj_compaction := c\<rparr>)"
    using valid compatible_compaction[OF comp policy] q(1) compatible_transition[OF policy(1), of e CompatibilityReplay adm] r(1)
    by (simp add: with_compatible_event_def)
  moreover have "erase_attempt (r\<lparr>pj_compaction := c\<rparr>) = erase_attempt (p4\<lparr>pj_compaction := c\<rparr>)"
    using r(2) by (cases r; cases p4) (simp add: erase_attempt_def)
  ultimately show ?thesis by blast
qed

lemma map_err_ok: "map_err g (map_ok f m) = map_ok f (map_err g m)"
  by (cases m) simp_all

lemma compatible_erased:
  "with_compatible_event E (erase_attempt p) e = map_ok erase_attempt (with_compatible_event E p e)"
proof -
  have "(erase_attempt q)\<lparr>pj_compaction := c\<rparr> = erase_attempt (q\<lparr>pj_compaction := c\<rparr>)" for q c
    by (cases q) (simp add: erase_attempt_def)
  then show ?thesis
    by (simp add: map_err_ok with_compatible_event_def compaction_erased transition_erased surface_erased map_ok_rules)
qed

lemma compatible_same:
  assumes "with_compatible_event E p e = Inr r" "erase_attempt q = erase_attempt p"
  shows "\<exists>r'. with_compatible_event E q e = Inr r' \<and> erase_attempt r' = erase_attempt r"
proof -
  have "map_ok erase_attempt (with_compatible_event E q e) = Inr (erase_attempt r)"
    using assms compatible_erased[of E p e] compatible_erased[of E q e] by simp
  then show ?thesis by (cases "with_compatible_event E q e") auto
qed

text \<open>No part of the reducer reads the time of an event.\<close>

lemma timeless_reads [simp]:
  "is_replace (e\<lparr>ev_time := t\<rparr>) = is_replace e" "validate_sources (e\<lparr>ev_time := t\<rparr>) = validate_sources e"
  "surface_node_of E (e\<lparr>ev_time := t\<rparr>) b = surface_node_of E e b"
  "validate_tool_result_rewrite E (e\<lparr>ev_time := t\<rparr>) ns = validate_tool_result_rewrite E e ns"
  "require_result_intent c i (e\<lparr>ev_time := t\<rparr>) m f adm = require_result_intent c i e m f adm"
  "is_prune_fact (e\<lparr>ev_time := t\<rparr>) = is_prune_fact e"
  "validate_checkpoint_replacement (e\<lparr>ev_time := t\<rparr>) m oc n r xs bs = validate_checkpoint_replacement e m oc n r xs bs"
  "is_checkpoint_replacement (e\<lparr>ev_time := t\<rparr>) = is_checkpoint_replacement e"
  "advance_surface_generation c' (e\<lparr>ev_time := t\<rparr>) = advance_surface_generation c' e"
  "apply_prune_adjacency c' (e\<lparr>ev_time := t\<rparr>) = apply_prune_adjacency c' e"
  by (simp_all add: is_replace_def validate_sources_def surface_node_of_def validate_tool_result_rewrite_def
      require_result_intent_def is_prune_fact_def is_checkpoint_replacement_def advance_surface_generation_def
      apply_prune_adjacency_def validate_checkpoint_replacement_def canonical_not_started_def Let_def
      cong: all_branches surface_op.case_cong event_kind.case_cong)

lemma timeless_surface: "apply_surface E p (e\<lparr>ev_time := t\<rparr>) b = apply_surface E p e b"
proof -
  have "replace_range E p (e\<lparr>ev_time := t\<rparr>) b i j = replace_range E p e b i j" for i j
    by (simp add: replace_range_def Let_def cong: all_branches)
  then show ?thesis by (simp add: apply_surface_def cong: all_branches surface_op.case_cong)
qed

lemma timeless_transition: "apply_transition p (e\<lparr>ev_time := t\<rparr>) adm = apply_transition p e adm"
proof -
  have "resolve_durable_call q (e\<lparr>ev_time := t\<rparr>) m f adm = resolve_durable_call q e m f adm" for q m f
    by (simp add: resolve_durable_call_def cong: all_branches)
  then have "apply_tool_result p (e\<lparr>ev_time := t\<rparr>) turn step m f adm = apply_tool_result p e turn step m f adm" for turn step m f
    by (simp add: apply_tool_result_def cong: all_branches)
  then show ?thesis by (simp add: apply_transition_def apply_kind_def Let_def cong: event_kind.case_cong)
qed

lemma timeless_compaction: "next_compaction_state E p (e\<lparr>ev_time := t\<rparr>) adm = next_compaction_state E p e adm"
proof -
  have "advance_checkpoint E p (e\<lparr>ev_time := t\<rparr>) m oc = advance_checkpoint E p e m oc" for m oc
    by (simp add: advance_checkpoint_def cong: all_branches compaction_phase.case_cong)
  then have "advance_open_compaction E p (e\<lparr>ev_time := t\<rparr>) oc adm = advance_open_compaction E p e oc adm"
    "advance_idle E p (e\<lparr>ev_time := t\<rparr>) adm b c = advance_idle E p e adm b c" for oc b c
    by (simp_all add: advance_open_compaction_def advance_idle_def Let_def cong: all_branches event_kind.case_cong)
  then show ?thesis by (simp add: next_compaction_state_def Let_def cong: all_branches)
qed

lemma compatible_timeless: "with_compatible_event E p (e\<lparr>ev_time := t\<rparr>) = with_compatible_event E p e"
  by (simp add: with_compatible_event_def timeless_surface timeless_transition timeless_compaction)

lemma compatible_policy:
  assumes "with_compatible_event E p e = Inr r"
  shows "pj_policy r = pj_policy p"
proof -
  obtain c p2 p4 where "apply_transition p e CompatibilityReplay = Inr p2" "apply_surface E p2 e BindMemory = Inr p4"
    "r = p4\<lparr>pj_compaction := c\<rparr>"
    using assms unfolding with_compatible_event_def by (auto elim!: bindR_InrE simp: ok_or_map_err_iff)
  then show ?thesis
    using transition_frame[of p e CompatibilityReplay p2] erase_surface_fields(1)[OF surface_frame[of E p2 e BindMemory p4]]
    by (simp add: keeps_outside_def)
qed

section \<open>Appends\<close>

lemma ordinary_compatible:
  assumes "with_event E p e = Inr q" "pj_policy p \<noteq> DurableStrict"
  shows "\<exists>r. with_compatible_event E p e = Inr r \<and> erase_attempt r = erase_attempt q"
proof -
  have valid: "event_validate E (ev_kind e) = Inr ()"
    using assms(1) unfolding with_event_def ordinary_event_def by (auto elim!: bindR_InrE)
  obtain k q1 q2 where comp: "next_compaction_state E p e Ordinary = Inr k"
    and mid: "(if is_retry_started (ev_kind e) then
            bindR (lift_transition (apply_transition p e Ordinary)) (\<lambda>p. apply_attempt_transition E p e Ordinary None)
          else bindR (if is_step_boundary (ev_kind e) then apply_attempt_transition E p e Ordinary None else Inr p)
                 (\<lambda>p. lift_transition (apply_transition p e Ordinary))) = Inr q1"
    and sur: "apply_surface E q1 e BindMemory = Inr q2" and q: "q = q2\<lparr>pj_compaction := k\<rparr>"
    using assms(1) unfolding with_event_def ordinary_event_def
    by (elim bindR_InrE) (unfold ok_or_map_err_iff sum.inject, metis)
  obtain p1 p2 where "erase_attempt p1 = erase_attempt p" "apply_transition p1 e Ordinary = Inr p2"
    "erase_attempt q1 = erase_attempt p2"
    using mid by (auto elim!: bindR_InrE simp: ok_or_map_err_iff split: if_splits dest: attempt_transition_frame intro: that)
  then show ?thesis
    unfolding q by (intro live_compatible[OF valid assms(2) _ comp _ _ _ sur]) auto
qed

lemma chunk_compatible:
  assumes "prepare_durable_attempt_chunk E p e = Inr x" "commit_memory x p = (b, q)" "pj_policy p \<noteq> DurableStrict" "b"
  shows "\<exists>r. with_compatible_event E p e = Inr r \<and> erase_attempt r = erase_attempt q"
proof -
  obtain turn step ch where k: "ev_kind e = AssistantChunk turn step ch"
    using assms(1) unfolding prepare_durable_attempt_chunk_def by (cases "ev_kind e") (auto elim!: result_elims)
  have meta: "ev_surface_op e = None" "ev_source_event_seqs e = None"
    using assms(1) k unfolding prepare_durable_attempt_chunk_def by (auto elim!: result_elims)
  obtain c co where x: "event_validate E (ev_kind e) = Inr ()" "require_open_step p (event_type_static (ev_kind e)) turn step = Inr ()"
    "next_compaction_state E p e OwnedAttempt = Inr co" "x = PrepAttemptChunk c co"
    using assms(1) k meta unfolding prepare_durable_attempt_chunk_def by (auto elim!: result_elims simp: ok_or_map_err_iff)
  have q: "erase_attempt q = erase_attempt (p\<lparr>pj_compaction := co\<rparr>)"
    using assms(2,4) x(4) by (auto simp: commit_memory_def commit_attempt_chunk_def erase_attempt_def split: prod.splits bool.splits)
  have "apply_transition p e OwnedAttempt = Inr p" "apply_surface E p e BindMemory = Inr p"
    using assms(3) k x(2) meta by (simp_all add: apply_transition_def reject_recovery_event_def apply_kind_def apply_surface_def is_surface_eligible_def)
  then show ?thesis
    unfolding q by (intro live_compatible[OF x(1) assms(3) _ x(3)]) auto
qed

lemma closure_compatible:
  assumes "prepare_durable_attempt_closure E p e d = Inr x" "commit_memory x p = (b, q)" "pj_policy p \<noteq> DurableStrict"
  shows "b \<and> (\<exists>r. with_compatible_event E p e = Inr r \<and> erase_attempt r = erase_attempt q)"
proof -
  have valid: "event_validate E (ev_kind e) = Inr ()"
    using assms(1) unfolding prepare_durable_attempt_closure_def by (auto elim!: bindR_InrE)
  obtain k p1 q1 q2 where parts: "next_compaction_state E p e OwnedAttempt = Inr k"
    "apply_attempt_transition E p e OwnedAttempt (Some d) = Inr p1" "apply_transition p1 e OwnedAttempt = Inr q1"
    "apply_surface E q1 e BindPending = Inr q2" "x = PrepProjection (q2\<lparr>pj_compaction := k\<rparr>) None"
    using assms(1) unfolding prepare_durable_attempt_closure_def
    by (elim bindR_InrE) (unfold ok_or_map_err_iff sum.inject, metis)
  have "legal_closure (Some d) (ev_kind e)"
    using parts(2) by (auto simp: apply_attempt_transition_def Let_def split: if_splits)
  then have "\<not> is_tool_result (ev_kind e)"
    by (cases "ev_kind e"; cases d; simp add: legal_closure_def is_assistant_message_def is_step_end_def is_context_start_def
        is_tool_result_def)
  then have "apply_surface E q1 e BindMemory = Inr q2"
    using parts(4) surface_unbound[of e E q1 BindPending BindMemory] by simp
  then have "\<exists>r. with_compatible_event E p e = Inr r \<and> erase_attempt r = erase_attempt (q2\<lparr>pj_compaction := k\<rparr>)"
    by (intro live_compatible[OF valid assms(3) _ parts(1) attempt_transition_frame[OF parts(2)] parts(3)]) auto
  then show ?thesis using assms(2) parts(5) by (auto simp: commit_memory_def)
qed

end
