(* ===== verification/Session_Runs.thy ===== *)
theory Session_Runs
  imports Session_Claims Session_Replay Attempt_Runs
begin

text \<open>
  The runs of an in-memory session, its reservations, claims and attempts, and what every run keeps:
  the log counts itself, replays to its projection, stays within the two limits, and what the
  reservation protects is exactly what its open claims may still write.
\<close>

section \<open>Runs\<close>

text \<open>
  A reservation borrows the session: while it lives, everything goes through it.  A claim is passed
  by its place in the list of the claims made; tokens are arbitrary, the session rejects forged ones.
\<close>

inductive session_run ::
  "externals \<Rightarrow> memory_session \<Rightarrow> reservation option \<Rightarrow> event_claim list \<Rightarrow> bool" for E where
  new: "session_with_clock E authority sid now = Inr s \<Longrightarrow> session_run E s None []"
| seed: "session_from_seed E authority h events now = Inr s \<Longrightarrow> session_run E s None []"
| append: "session_run E s None [] \<Longrightarrow> append_event E s e now = (s', x) \<Longrightarrow> session_run E s' None []"
| reserve: "session_run E s None [] \<Longrightarrow> session_run E s (Some (session_reservation owner)) []"
| drop: "session_run E s (Some r) cs \<Longrightarrow> session_run E s None []"
| claim: "session_run E s (Some r) cs \<Longrightarrow> claim_batch E s r fallbacks = Inr (r', new) \<Longrightarrow> session_run E s (Some r') (cs @ new)"
| reserved: "session_run E s (Some r) cs \<Longrightarrow> reservation_append E s r e now = (s', x) \<Longrightarrow> session_run E s' (Some r) cs"
| settle: "session_run E s (Some r) cs \<Longrightarrow> i < length cs \<Longrightarrow> settle E s r (cs ! i) e now = ((s', r', c), x)
    \<Longrightarrow> session_run E s' (Some r') (cs[i := c])"
| exact: "session_run E s (Some r) cs \<Longrightarrow> i < length cs \<Longrightarrow> settle_exact E s r (cs ! i) now = ((s', r', c), x)
    \<Longrightarrow> session_run E s' (Some r') (cs[i := c])"
| preferred: "session_run E s (Some r) cs \<Longrightarrow> i < length cs \<Longrightarrow> settle_preferred_only E s r (cs ! i) e now = ((s', r', c), x)
    \<Longrightarrow> session_run E s' (Some r') (cs[i := c])"
| release: "session_run E s (Some r) cs \<Longrightarrow> i < length cs \<Longrightarrow> release r (cs ! i) = Inr (r', c)
    \<Longrightarrow> session_run E s (Some r') (cs[i := c])"
| grow: "session_run E s (Some r) cs \<Longrightarrow> i < length cs \<Longrightarrow> reserve_claim_retained_json_bytes s r (cs ! i) n = Inr (r', c)
    \<Longrightarrow> session_run E s (Some r') (cs[i := c])"
| rebind: "session_run E s (Some r) cs \<Longrightarrow> i < length cs \<Longrightarrow> rebind_claim_fallback E r (cs ! i) e = Inr c
    \<Longrightarrow> session_run E s (Some r) (cs[i := c])"
| begin_attempt: "session_run E s (Some r) cs \<Longrightarrow> begin_attempt s r turn step = Inr (s', t) \<Longrightarrow> session_run E s' (Some r) cs"
| chunk: "session_run E s (Some r) cs \<Longrightarrow> append_attempt_chunk E s r t ch now = (s', x) \<Longrightarrow> session_run E s' (Some r) cs"
| seal: "session_run E s (Some r) cs \<Longrightarrow> session_seal_attempt E s r t = Inr (a, s') \<Longrightarrow> session_run E s' (Some r) cs"
| closure: "session_run E s (Some r) cs \<Longrightarrow> append_attempt_closure E s r t d e now = (s', x) \<Longrightarrow> session_run E s' (Some r) cs"
| step_end: "session_run E s (Some r) cs \<Longrightarrow> i < length cs
    \<Longrightarrow> settle_step_end_with_attempt E s r (cs ! i) tok d now = ((s', r', c), x) \<Longrightarrow> session_run E s' (Some r') (cs[i := c])"
| flush: "session_run E s r cs \<Longrightarrow> flush_barrier s = Inr s' \<Longrightarrow> session_run E s' r cs"
| retire: "session_run E s (Some r) cs \<Longrightarrow> retire_attempt s r t = Inr s' \<Longrightarrow> session_run E s' (Some r) cs"

section \<open>The log\<close>

definition event_bytes :: "session_event list \<Rightarrow> nat" where
  "event_bytes es = sum_list (map (\<lambda>e. jv_encoded_len (ev_original_data e)) es)"

definition replays :: "externals \<Rightarrow> memory_session \<Rightarrow> bool" where
  "replays E s =
     (\<exists>q. replay_events E (for_session MemoryCompatible (sh_id (ms_header s))) 0 (ms_events s) = Inr q
        \<and> erase_attempt q = erase_attempt (ms_projection s))"

definition log_ok :: "externals \<Rightarrow> memory_session \<Rightarrow> bool" where
  "log_ok E s =
     (map ev_seq (ms_events s) = [0..<length (ms_events s)]
      \<and> ms_next_seq s = Some (length (ms_events s)) \<and> length (ms_events s) \<le> MAX_SESSION_EVENTS
      \<and> ms_retained_json_bytes s = jv_encoded_len (sh_raw (ms_header s)) + event_bytes (ms_events s)
      \<and> (ms_events s = [] \<or> ms_retained_json_bytes s \<le> MAX_SESSION_RETAINED_JSON_BYTES)
      \<and> pj_policy (ms_projection s) = MemoryCompatible
      \<and> replays E s \<and> (\<exists>tr. attempt_run E tr (pj_attempt (ms_projection s))))"

lemma replay_events_snoc:
  assumes "replay_events E p n es = Inr q" "with_compatible_event E q e = Inr r" "ev_seq e = n + length es"
    "n + length es \<le> MAX_SAFE_INTEGER" "\<not> is_unknown (ev_kind e)"
  shows "replay_events E p n (es @ [e]) = Inr r"
  using assms
proof (induction es arbitrary: p n)
  case Nil
  then show ?case by (simp add: event_seq_from_index_def)
next
  case (Cons x es)
  then obtain q' where q': "with_compatible_event E p x = Inr q'" "replay_events E q' (Suc n) es = Inr q"
    "event_seq_from_index n = Some (ev_seq x)" "is_unknown (ev_kind x) \<longrightarrow> ev_ignorable x"
    by (auto simp: result_simps split: option.split_asm if_splits)
  have "replay_events E q' (Suc n) (es @ [e]) = Inr r"
    by (rule Cons.IH[OF q'(2) Cons.prems(2)]) (use Cons.prems in auto)
  then show ?case using q' by simp
qed

text \<open>The attempt of a session follows the operations of an attempt.\<close>

definition attempt_moves :: "externals \<Rightarrow> attempt_projection \<Rightarrow> attempt_projection \<Rightarrow> bool" where
  "attempt_moves E a a' = (a' = a \<or> (\<exists>m. attempt_step E a m a'))"

lemma attempt_moves_refl [simp]: "attempt_moves E a a"
  by (simp add: attempt_moves_def)

lemma attempt_movesI:
  "step_start a turn step = Inr a' \<Longrightarrow> attempt_moves E a a'"
  "step_end a turn step d = Inr a' \<Longrightarrow> attempt_moves E a a'"
  "assistant E a e = Inr (a', facts) \<Longrightarrow> attempt_moves E a a'"
  "retry_attempt a e = Inr a' \<Longrightarrow> attempt_moves E a a'"
  "retry_started a turn step = Inr a' \<Longrightarrow> attempt_moves E a a'"
  "context_overflow a turn step g b = Inr a' \<Longrightarrow> attempt_moves E a a'"
  "context_overflow_start a turn step = Inr a' \<Longrightarrow> attempt_moves E a a'"
  "take_prepared E a = Inr (prepared, a') \<Longrightarrow> attempt_moves E a a'"
  unfolding attempt_moves_def by (blast intro: attempt_step.intros)+

lemma attempt_moves_run: "attempt_moves E a a' \<Longrightarrow> attempt_run E tr a \<Longrightarrow> \<exists>tr'. attempt_run E tr' a'"
  unfolding attempt_moves_def by (blast intro: attempt_run.move)

lemma by_kind_moves:
  "attempt_by_kind E p e adm d = Inr p' \<Longrightarrow> attempt_moves E (pj_attempt p) (pj_attempt p')"
  unfolding attempt_by_kind_def Let_def
  by (cases "ev_kind e") (auto simp: result_simps split: if_splits intro: attempt_movesI)

lemma overflow_moves:
  "apply_context_overflow_transition p e = Inr p' \<Longrightarrow> attempt_moves E (pj_attempt p) (pj_attempt p')"
  by (auto simp: apply_context_overflow_transition_def result_simps split: boundary_state.splits intro: attempt_movesI)

lemma transition_moves:
  "apply_attempt_transition E p e adm d = Inr p' \<Longrightarrow> attempt_moves E (pj_attempt p) (pj_attempt p')"
  unfolding apply_attempt_transition_def Let_def
  by (auto simp: result_simps split: if_splits boundary_state.splits intro: attempt_movesI overflow_moves by_kind_moves)

section \<open>What appending leaves\<close>

definition pv_ok :: "prepared_event \<Rightarrow> bool" where
  "pv_ok p = (pv_retained_json_bytes p = jv_encoded_len (pv_data p) \<and> \<not> is_unknown (ne_kind (pv_event p)))"

lemma prepare_event_ok: "prepare_event E e = Inr p \<Longrightarrow> pv_ok p"
  by (auto simp: prepare_event_def pv_ok_def elim!: bindR_InrE split: if_splits)

lemma admit_size_Inr:
  "admit_size s n re rb = Inr b \<longleftrightarrow>
     b = ms_retained_json_bytes s + n \<and> length (ms_events s) + 1 + re \<le> MAX_SESSION_EVENTS
     \<and> ms_retained_json_bytes s + n + rb \<le> MAX_SESSION_RETAINED_JSON_BYTES"
  by (auto simp: admit_size_def result_simps checked_add_u64_def MAX_SESSION_EVENTS_def MAX_SESSION_RETAINED_JSON_BYTES_def
      U64_LIMIT_def split: bind_splits if_splits)

text \<open>The projection an admitted event commits.\<close>

definition commits :: "either_projection \<Rightarrow> projection \<Rightarrow> bool \<times> projection" where
  "commits x p = (case x of EitherOrdinary q \<Rightarrow> (True, q) | EitherAttempt q \<Rightarrow> commit_memory q p)"

lemma append_result:
  assumes "append_prepared_with_admission E s p re rb adm now = (s', x)"
  obtains (refused) e where "s' = s" "x = Inl e"
  | (committed) seq y now' b q receipt where "admit_size s (pv_retained_json_bytes p) re rb
        = Inr (ms_retained_json_bytes s + pv_retained_json_bytes p)"
      "ms_next_seq s = Some seq" "now = Some now'" "0 \<le> now'"
      "admit_projection E (ms_projection s) (candidate seq 0 p) adm = Inr y"
      "commits y (ms_projection s) = (b, q)" "x = (if b then Inr receipt else Inl (AppendValidation (AttemptE OwnershipChanged)))"
      "s' = s\<lparr>ms_events := ms_events s @ [candidate seq now' p],
         ms_retained_json_bytes := ms_retained_json_bytes s + pv_retained_json_bytes p,
         ms_next_seq := Option.bind (checked_add_u64 seq 1) (\<lambda>n. ok_value (event_seq_new n)), ms_projection := q\<rparr>"
proof -
  let ?check = "bindR (admit_size s (pv_retained_json_bytes p) re rb) (\<lambda>next_bytes.
        bindR (ok_or SequenceExhausted (ms_next_seq s)) (\<lambda>seq.
        bindR (ok_or (AppendValidation UnknownLiveEvent) (live_event_type (ne_kind (pv_event p)))) (\<lambda>t.
        bindR (admit_projection E (ms_projection s) (candidate seq 0 p) adm) (\<lambda>next.
        bindR (ok_or AppendClock now) (\<lambda>now.
        bindR (requireR (0 \<le> now) AppendClock) (\<lambda>_.
          Inr (next_bytes, seq, t, next, now)))))))"
  show thesis
  proof (cases ?check)
    case (Inl e)
    then have "s' = s \<and> x = Inl e" using assms by (auto simp: append_prepared_with_admission_def)
    then show thesis using refused by blast
  next
    case (Inr r)
    then obtain b seq t y now' where r: "r = (b, seq, t, y, now')" "admit_size s (pv_retained_json_bytes p) re rb = Inr b"
      "ms_next_seq s = Some seq" "admit_projection E (ms_projection s) (candidate seq 0 p) adm = Inr y" "now = Some now'"
      "0 \<le> now'"
      by (auto elim!: bindR_InrE simp: result_simps)
    have b: "b = ms_retained_json_bytes s + pv_retained_json_bytes p" using r(2) admit_size_Inr by blast
    show thesis
      using assms Inr r b committed[OF r(2)[unfolded b] r(3,5,6,4)]
      by (cases y) (auto simp: append_prepared_with_admission_def commits_def Let_def split: prod.split_asm bool.split_asm)
  qed
qed

lemma kept_attempt:
  "apply_surface E p e b = Inr p' \<Longrightarrow> pj_attempt p' = pj_attempt p"
  "apply_transition p e adm = Inr p' \<Longrightarrow> pj_attempt p' = pj_attempt p"
  using erase_surface_fields(5)[OF surface_frame] transition_frame by (auto simp: keeps_outside_def)

lemma admitted:
  assumes "admit_projection E p e adm = Inr y" "commits y p = (b, q)" "pj_policy p = MemoryCompatible"
    and run: "attempt_run E tr (pj_attempt p)"
  shows "b \<and> (\<exists>r. with_compatible_event E p e = Inr r \<and> erase_attempt r = erase_attempt q)
     \<and> (\<exists>tr'. attempt_run E tr' (pj_attempt q))"
proof (cases adm)
  case AdmitOrdinary
  then have q: "with_event E p e = Inr q" "b"
    using assms(1,2) by (auto simp: admit_projection_def commits_def result_simps)
  have "attempt_moves E (pj_attempt p) (pj_attempt q)"
    using q(1) unfolding with_event_def ordinary_event_def
    by (auto elim!: bindR_InrE simp: ok_or_map_err_iff split: if_splits dest!: kept_attempt transition_moves)
  then show ?thesis
    using q ordinary_compatible[OF q(1)] assms(3) attempt_moves_run[OF _ run] by simp
next
  case AdmitChunk
  then obtain x where x: "prepare_durable_attempt_chunk E p e = Inr x" "commit_memory x p = (b, q)"
    using assms(1,2) by (auto simp: admit_projection_def commits_def result_simps)
  obtain turn step ch where k: "ev_kind e = AssistantChunk turn step ch"
    using x(1) unfolding prepare_durable_attempt_chunk_def by (cases "ev_kind e") (auto elim!: result_elims)
  obtain c co where c: "x = PrepAttemptChunk c co"
    "prepare_chunk E (pj_attempt p) e (pj_header p) (co_replacement_generation (pj_compaction p)) = Inr c"
    using x(1) k unfolding prepare_durable_attempt_chunk_def by (auto elim!: bindR_InrE simp: ok_or_map_err_iff split: if_splits)
  obtain a where a: "commit_chunk (pj_attempt p) c = (True, a)"
    using chunk_step[OF attempt_run_inv[OF run] c(2) k] by blast
  then have q: "b" "pj_attempt q = a" using x(2) c(1) by (auto simp: commit_memory_def commit_attempt_chunk_def)
  have "attempt_step E (pj_attempt p) (MChunk (ev_seq e) ch) a" by (rule attempt_step.chunk[OF c(2) a k])
  then show ?thesis
    using q chunk_compatible[OF x] assms(3) attempt_run.move[OF run] by auto
next
  case (AdmitClosure d)
  then obtain x where x: "prepare_durable_attempt_closure E p e d = Inr x" "commit_memory x p = (b, q)"
    using assms(1,2) by (auto simp: admit_projection_def commits_def result_simps)
  have "attempt_moves E (pj_attempt p) (pj_attempt q)"
    using x unfolding prepare_durable_attempt_closure_def
    by (auto elim!: bindR_InrE simp: ok_or_map_err_iff commit_memory_def dest!: kept_attempt transition_moves)
  then show ?thesis
    using closure_compatible[OF x] assms(3) attempt_moves_run[OF _ run] by simp
qed

lemma log_ok_append:
  assumes inv: "log_ok E s" and app: "append_prepared_with_admission E s p re rb adm now = (s', x)" and pv: "pv_ok p"
  shows "log_ok E s' \<and> ms_header s' = ms_header s \<and> (\<forall>e. x = Inl e \<longrightarrow> s' = s)"
  using app
proof (cases rule: append_result)
  case refused
  then show ?thesis using inv by simp
next
  case (committed seq y now' b q receipt)
  let ?n = "length (ms_events s)"
  have n: "seq = ?n" "Suc ?n \<le> MAX_SESSION_EVENTS" using committed(1,2) inv by (auto simp: log_ok_def admit_size_Inr)
  obtain tr where tr: "attempt_run E tr (pj_attempt (ms_projection s))" using inv by (auto simp: log_ok_def)
  have pol: "pj_policy (ms_projection s) = MemoryCompatible" using inv by (simp add: log_ok_def)
  have adm: "b" "\<exists>tr'. attempt_run E tr' (pj_attempt q)"
    and ex: "\<exists>r. with_compatible_event E (ms_projection s) (candidate seq 0 p) = Inr r \<and> erase_attempt r = erase_attempt q"
    using admitted[OF committed(5,6) pol tr] by auto
  obtain q0 where q0: "replay_events E (for_session MemoryCompatible (sh_id (ms_header s))) 0 (ms_events s) = Inr q0"
    "erase_attempt q0 = erase_attempt (ms_projection s)" using inv by (auto simp: log_ok_def replays_def)
  have "\<exists>r. with_compatible_event E q0 (candidate seq now' p) = Inr r \<and> erase_attempt r = erase_attempt q"
  proof -
    have "candidate seq now' p = (candidate seq 0 p)\<lparr>ev_time := now'\<rparr>" by (simp add: candidate_def event_from_new_def)
    then show ?thesis using ex compatible_same[OF _ q0(2)] compatible_timeless by metis
  qed
  then obtain r where r: "with_compatible_event E q0 (candidate seq now' p) = Inr r" "erase_attempt r = erase_attempt q" by blast
  have cand: "ev_seq (candidate seq now' p) = ?n" "\<not> is_unknown (ev_kind (candidate seq now' p))"
    "jv_encoded_len (ev_original_data (candidate seq now' p)) = pv_retained_json_bytes p"
    using pv n(1) by (simp_all add: candidate_def event_from_new_def pv_ok_def)
  have room: "?n \<le> MAX_SAFE_INTEGER" "?n + 1 < U64_LIMIT" "Suc ?n \<le> MAX_SAFE_INTEGER"
    using n(2) by (simp_all add: MAX_SESSION_EVENTS_def MAX_SAFE_INTEGER_def U64_LIMIT_def)
  have "replay_events E (for_session MemoryCompatible (sh_id (ms_header s))) 0 (ms_events s @ [candidate seq now' p]) = Inr r"
    by (rule replay_events_snoc[OF q0(1) r(1)]) (use cand room in simp_all)
  then have "replays E s'" using committed(8) r(2) by (auto simp: replays_def)
  moreover have "pj_policy q = MemoryCompatible" 
  proof -
    obtain x where "with_compatible_event E (ms_projection s) (candidate seq 0 p) = Inr x" "erase_attempt x = erase_attempt q"
      using ex by blast
    then show ?thesis using compatible_policy pol erased_reads(3)[of x] erased_reads(3)[of q] by simp
  qed
  ultimately show ?thesis
    using committed(1,7,8) inv n adm cand room
    by (auto simp: log_ok_def admit_size_Inr event_bytes_def checked_add_u64_def event_seq_new_def ok_value_def)
qed

section \<open>What a reservation protects\<close>

text \<open>The total of a cost over the claims not settled yet.\<close>

definition open_sum :: "(event_claim \<Rightarrow> nat) \<Rightarrow> event_claim list \<Rightarrow> nat" where
  "open_sum f cs = sum_list (map (\<lambda>c. if cl_state c = ClaimSettled then 0 else f c) cs)"

definition claim_ok :: "reservation \<Rightarrow> event_claim \<Rightarrow> bool" where
  "claim_ok r c =
     (cl_owner c = rn_owner r \<and>
      (cl_state c = ClaimSettled \<or> (\<exists>p. cl_state c = ClaimReady p \<and> pv_ok p \<and> pv_retained_json_bytes p \<le> cl_json_bytes c)))"

definition reserved_ok :: "memory_session \<Rightarrow> reservation \<Rightarrow> event_claim list \<Rightarrow> bool" where
  "reserved_ok s r cs =
     (rn_events r = open_sum (\<lambda>_. 1) cs \<and> rn_json_bytes r = open_sum cl_json_bytes cs
      \<and> rn_row_bytes r = open_sum cl_row_bytes cs \<and> (\<forall>c\<in>set cs. claim_ok r c)
      \<and> (0 < rn_events r \<longrightarrow> length (ms_events s) + rn_events r \<le> MAX_SESSION_EVENTS
          \<and> ms_retained_json_bytes s + rn_json_bytes r \<le> MAX_SESSION_RETAINED_JSON_BYTES))"

definition run_ok :: "externals \<Rightarrow> memory_session \<Rightarrow> reservation option \<Rightarrow> event_claim list \<Rightarrow> bool" where
  "run_ok E s ro cs = (log_ok E s \<and> (case ro of None \<Rightarrow> cs = [] | Some r \<Rightarrow> reserved_ok s r cs))"

lemma open_sum_update:
  assumes "i < length cs" "cl_state (cs ! i) \<noteq> ClaimSettled"
  shows "open_sum f (cs[i := c]) + f (cs ! i) = open_sum f cs + (if cl_state c = ClaimSettled then 0 else f c)"
  using assms by (induction cs arbitrary: i) (auto simp: open_sum_def split: nat.splits)

lemma open_sum_le: "i < length cs \<Longrightarrow> cl_state (cs ! i) \<noteq> ClaimSettled \<Longrightarrow> f (cs ! i) \<le> open_sum f cs"
  using open_sum_update[of i cs f "(cs ! i)\<lparr>cl_state := ClaimSettled\<rparr>"] by simp

lemma open_sum_simps [simp]:
  "open_sum f [] = 0" "open_sum f (c # cs) = (if cl_state c = ClaimSettled then 0 else f c) + open_sum f cs"
  by (simp_all add: open_sum_def)

lemma open_sum_append: "open_sum f (cs @ ds) = open_sum f cs + open_sum f ds"
  by (simp add: open_sum_def)

lemma all_update: "\<forall>c\<in>set cs. P c \<Longrightarrow> P c' \<Longrightarrow> \<forall>c\<in>set (cs[i := c']). P c"
  using set_update_subset_insert[of cs i c'] by blast

text \<open>The books of a valid claim always balance, so giving it back never underflows.\<close>

lemma bookkeeping_total:
  assumes "reserved_ok s r cs" "i < length cs" "cl_state (cs ! i) \<noteq> ClaimSettled"
  shows "prepare_claim_bookkeeping r (cs ! i) = Inr \<lparr>cb_events = rn_events r - 1,
      cb_json_bytes = rn_json_bytes r - cl_json_bytes (cs ! i), cb_row_bytes = rn_row_bytes r - cl_row_bytes (cs ! i)\<rparr>"
    and "0 < rn_events r" "cl_json_bytes (cs ! i) \<le> rn_json_bytes r"
proof -
  have "1 \<le> rn_events r" "cl_json_bytes (cs ! i) \<le> rn_json_bytes r" "cl_row_bytes (cs ! i) \<le> rn_row_bytes r"
    using assms(1) open_sum_le[OF assms(2,3)] open_sum_le[OF assms(2,3), of "\<lambda>_. 1"] by (auto simp: reserved_ok_def)
  then show "prepare_claim_bookkeeping r (cs ! i) = Inr \<lparr>cb_events = rn_events r - 1,
      cb_json_bytes = rn_json_bytes r - cl_json_bytes (cs ! i), cb_row_bytes = rn_row_bytes r - cl_row_bytes (cs ! i)\<rparr>"
    "0 < rn_events r" "cl_json_bytes (cs ! i) \<le> rn_json_bytes r"
    by (simp_all add: prepare_claim_bookkeeping_def checked_sub_u64_def)
qed

lemma reserved_settled:
  assumes inv: "reserved_ok s r cs" "i < length cs" "cl_state (cs ! i) \<noteq> ClaimSettled"
    and b: "prepare_claim_bookkeeping r (cs ! i) = Inr b" and fin: "finish_claim_bookkeeping r (cs ! i) b = (r', c)"
    and room: "length (ms_events s') + (rn_events r - 1) \<le> MAX_SESSION_EVENTS"
      "ms_retained_json_bytes s' + (rn_json_bytes r - cl_json_bytes (cs ! i)) \<le> MAX_SESSION_RETAINED_JSON_BYTES"
  shows "reserved_ok s' r' (cs[i := c])"
proof -
  note book = bookkeeping_total[OF inv]
  have r': "r' = r\<lparr>rn_events := rn_events r - 1, rn_json_bytes := rn_json_bytes r - cl_json_bytes (cs ! i),
      rn_row_bytes := rn_row_bytes r - cl_row_bytes (cs ! i)\<rparr>" "c = (cs ! i)\<lparr>cl_state := ClaimSettled\<rparr>"
    using fin b book(1) by (auto simp: finish_claim_bookkeeping_def)
  have sums: "open_sum f (cs[i := c]) = open_sum f cs - f (cs ! i)" for f
    using open_sum_update[OF inv(2,3), of f c] r'(2) by simp
  have ok: "\<forall>d\<in>set cs. claim_ok r' d" "claim_ok r' c"
    using inv(1,2) r' by (auto simp: reserved_ok_def claim_ok_def)
  show ?thesis
    using inv(1) room r'(1) sums all_update[OF ok] book(2) by (simp add: reserved_ok_def)
qed

lemma reserved_kept:
  assumes "reserved_ok s r cs" "length (ms_events s') + rn_events r \<le> MAX_SESSION_EVENTS"
    "ms_retained_json_bytes s' + rn_json_bytes r \<le> MAX_SESSION_RETAINED_JSON_BYTES"
  shows "reserved_ok s' r cs"
  using assms by (simp add: reserved_ok_def)

text \<open>An append that reserves for the others leaves room for them.\<close>

lemma append_room:
  assumes "append_prepared_with_admission E s p re rb adm now = (s', x)"
  shows "s' = s \<or> (length (ms_events s') + re \<le> MAX_SESSION_EVENTS \<and> ms_retained_json_bytes s' + rb \<le> MAX_SESSION_RETAINED_JSON_BYTES)"
  using assms by (cases rule: append_result) (auto simp: admit_size_Inr)

section \<open>Every operation keeps the invariant\<close>

lemma settle_with_ok:
  assumes inv: "log_ok E s" "reserved_ok s r cs" "i < length cs" "cl_state (cs ! i) \<noteq> ClaimSettled" and pv: "pv_ok p"
    and b: "prepare_claim_bookkeeping r (cs ! i) = Inr b" and res: "settle_with E s r (cs ! i) p b now = ((s', r', c), x)"
  shows "log_ok E s' \<and> reserved_ok s' r' (cs[i := c]) \<and> (\<forall>e. x = Inl e \<longrightarrow> s' = s \<and> r' = r \<and> c = cs ! i)"
proof -
  obtain s1 y where app: "append_prepared_with_admission E s p (rn_events r - 1) (rn_json_bytes r - cl_json_bytes (cs ! i)) AdmitOrdinary now = (s1, y)"
    by (cases "append_prepared_with_admission E s p (rn_events r - 1) (rn_json_bytes r - cl_json_bytes (cs ! i)) AdmitOrdinary now")
  note log = log_ok_append[OF inv(1) app pv]
  show ?thesis
  proof (cases y)
    case (Inl e)
    then show ?thesis using res app log inv by (auto simp: settle_with_def append_prepared_def)
  next
    case (Inr receipt)
    obtain r1 c1 where fin: "finish_claim_bookkeeping r (cs ! i) b = (r1, c1)" by (cases "finish_claim_bookkeeping r (cs ! i) b")
    have eq: "s' = s1" "r' = r1" "c = c1" "x = Inr receipt"
      using res app Inr fin by (auto simp: settle_with_def append_prepared_def)
    have "s1 \<noteq> s" using app Inr by (cases rule: append_result) (auto dest: arg_cong[where f = ms_events])
    then have "reserved_ok s1 r1 (cs[i := c1])"
      using reserved_settled[OF inv(2-4) b fin] append_room[OF app] by blast
    then show ?thesis using log eq by simp
  qed
qed

lemma reserved_append_ok:
  assumes inv: "log_ok E s" "reserved_ok s r cs" and pv: "pv_ok p"
    and app: "append_prepared_with_admission E s p (rn_events r) (rn_json_bytes r) adm now = (s', x)"
  shows "log_ok E s' \<and> reserved_ok s' r cs \<and> (\<forall>e. x = Inl e \<longrightarrow> s' = s)"
  using log_ok_append[OF inv(1) app pv] append_room[OF app] inv(2) reserved_kept by blast

text \<open>Moves of the session that leave its log alone.\<close>

definition same_log :: "externals \<Rightarrow> memory_session \<Rightarrow> memory_session \<Rightarrow> bool" where
  "same_log E s s' =
     (ms_header s' = ms_header s \<and> ms_events s' = ms_events s \<and> ms_next_seq s' = ms_next_seq s
      \<and> ms_retained_json_bytes s' = ms_retained_json_bytes s
      \<and> erase_attempt (ms_projection s') = erase_attempt (ms_projection s)
      \<and> (\<forall>tr. attempt_run E tr (pj_attempt (ms_projection s)) \<longrightarrow> (\<exists>tr'. attempt_run E tr' (pj_attempt (ms_projection s')))))"

lemma same_log_ok:
  assumes "same_log E s s'"
  shows "log_ok E s \<Longrightarrow> log_ok E s'" "reserved_ok s r cs \<Longrightarrow> reserved_ok s' r cs"
  using assms erased_reads(3)[of "ms_projection s"] erased_reads(3)[of "ms_projection s'"]
  by (auto simp: same_log_def log_ok_def replays_def reserved_ok_def simp del: erased_reads)

lemma mark_closed_same: "mark_attempt_closed s t owner rc d = Inr s' \<Longrightarrow> same_log E s s'"
  by (auto simp: mark_attempt_closed_def same_log_def elim!: bindR_InrE split: option.split_asm)

lemma begin_same:
  assumes "begin_attempt s r turn step = Inr (s', t)"
  shows "same_log E s s'"
proof -
  have "\<exists>l n aw. prepare_live_attempt (ms_projection s) turn step = Inr l
      \<and> s' = s\<lparr>ms_projection := (ms_projection s)\<lparr>pj_attempt := commit_live l\<rparr>, ms_next_nonce := n, ms_active := aw\<rparr>"
    using assms unfolding begin_attempt_def commit_live_attempt_def
    by (simp split: if_splits) (elim bindR_InrE, auto simp: ok_or_map_err_iff)
  then obtain l where l: "prepare_live_attempt (ms_projection s) turn step = Inr l"
    and s': "ms_projection s' = (ms_projection s)\<lparr>pj_attempt := commit_live l\<rparr>" "ms_header s' = ms_header s"
    "ms_events s' = ms_events s" "ms_next_seq s' = ms_next_seq s" "ms_retained_json_bytes s' = ms_retained_json_bytes s"
    by auto
  obtain a where a: "prepare_begin_live a turn step (pj_header (ms_projection s)) (co_replacement_generation (pj_compaction (ms_projection s))) = Inr l"
    and start: "a = pj_attempt (ms_projection s) \<or> step_start (pj_attempt (ms_projection s)) turn step = Inr a"
    using l by (cases "pj_policy (ms_projection s) = MemoryCompatible \<and> is_outside_step (pj_attempt (ms_projection s))")
      (auto simp: prepare_live_attempt_def elim!: bindR_InrE split: if_splits)
  have "\<exists>tr'. attempt_run E tr' (commit_live l)" if run: "attempt_run E tr (pj_attempt (ms_projection s))" for tr
  proof -
    have "attempt_moves E (pj_attempt (ms_projection s)) a" using start attempt_movesI(1) by auto
    then obtain tr1 where "attempt_run E tr1 a" using attempt_moves_run run by blast
    then show ?thesis using attempt_run.move attempt_step.live[OF a] by blast
  qed
  then show ?thesis using s' by (auto simp: same_log_def)
qed

lemma seal_same:
  assumes "session_seal_attempt E s r t = Inr (a, s')"
  shows "same_log E s s'"
proof -
  obtain l' where l: "take_prepared E (pj_attempt (ms_projection s)) = Inr (a, l')"
    "s' = s\<lparr>ms_projection := (ms_projection s)\<lparr>pj_attempt := l'\<rparr>\<rparr>"
    using assms by (auto simp: session_seal_attempt_def seal_live_attempt_def ok_or_map_err_iff elim!: bindR_InrE)
  then show ?thesis using attempt_moves_run[OF attempt_movesI(8)] by (auto simp: same_log_def)
qed

lemma flush_same: "flush_barrier s = Inr s' \<Longrightarrow> same_log E s s'"
  by (auto simp: flush_barrier_def same_log_def elim!: bindR_InrE)

lemma retire_same: "retire_attempt s r t = Inr s' \<Longrightarrow> same_log E s s'"
  by (auto simp: retire_attempt_def same_log_def split: if_splits option.split_asm attempt_phase.split_asm)

section \<open>Sessions begin in order\<close>

lemma compatible_attempt:
  assumes "with_compatible_event E p e = Inr r"
  shows "pj_attempt r = pj_attempt p"
  using assms unfolding with_compatible_event_def
  by (auto elim!: bindR_InrE simp: ok_or_map_err_iff dest!: kept_attempt)

lemma replay_events_shape:
  assumes "replay_events E p n es = Inr q"
  shows "map ev_seq es = [n..<n + length es] \<and> pj_policy q = pj_policy p \<and> pj_attempt q = pj_attempt p"
  using assms
proof (induction es arbitrary: p n)
  case (Cons e es)
  then obtain r where r: "with_compatible_event E p e = Inr r" "replay_events E r (Suc n) es = Inr q" "ev_seq e = n"
    by (auto simp: result_simps event_seq_from_index_def split: option.split_asm if_splits)
  from Cons.IH[OF r(2)] show ?case
    using r(3) compatible_policy[OF r(1)] compatible_attempt[OF r(1)] by (simp add: upt_rec)
qed simp

lemma retained_sum:
  assumes "retained_json_bytes h es = Inr n"
  shows "n = jv_encoded_len (sh_raw h) + event_bytes es" "es = [] \<or> n \<le> MAX_SESSION_RETAINED_JSON_BYTES"
proof -
  have "try_fold (\<lambda>total e. ok_or err (Option.bind (checked_add_u64 total (jv_encoded_len (ev_original_data e))) (\<lambda>n.
          if n \<le> limit then Some n else None))) m es = Inr n \<Longrightarrow> n = m + event_bytes es \<and> (es = [] \<or> n \<le> limit)"
    for m limit and err :: session_error
  proof (induction es arbitrary: m)
    case (Cons e es)
    obtain k where k: "k = m + jv_encoded_len (ev_original_data e)" "k \<le> limit"
      and rest: "try_fold (\<lambda>total e. ok_or err (Option.bind (checked_add_u64 total (jv_encoded_len (ev_original_data e))) (\<lambda>n.
          if n \<le> limit then Some n else None))) k es = Inr n"
      using Cons.prems by (auto simp: result_simps checked_simps split: bind_splits if_splits)
    from Cons.IH[OF rest] rest k show ?case by (auto simp: event_bytes_def)
  qed (simp add: event_bytes_def)
  then show "n = jv_encoded_len (sh_raw h) + event_bytes es" "es = [] \<or> n \<le> MAX_SESSION_RETAINED_JSON_BYTES"
    using assms by (auto simp: retained_json_bytes_def)
qed

lemma session_new_ok:
  assumes "replay_events E (for_session MemoryCompatible (sh_id h)) 0 es = Inr p" "length es \<le> MAX_SESSION_EVENTS"
    "n = jv_encoded_len (sh_raw h) + event_bytes es" "es = [] \<or> n \<le> MAX_SESSION_RETAINED_JSON_BYTES"
  shows "log_ok E (session_new authority h p es n)"
proof -
  note shape = replay_events_shape[OF assms(1)]
  have "attempt_run E [] (pj_attempt p)" using shape attempt_run.init by (simp add: for_session_def projection_empty_def)
  moreover have "event_seq_from_index (length es) = Some (length es)"
    using assms(2) by (simp add: event_seq_from_index_def MAX_SESSION_EVENTS_def MAX_SAFE_INTEGER_def)
  ultimately show ?thesis
    using assms shape by (auto simp: log_ok_def session_new_def replays_def for_session_def projection_empty_def)
qed

lemma with_clock_ok: "session_with_clock E authority sid now = Inr s \<Longrightarrow> log_ok E s"
  by (auto simp: session_with_clock_def event_bytes_def elim!: bindR_InrE intro!: session_new_ok)

lemma append_event_ok:
  assumes "log_ok E s" "append_event E s e now = (s', x)"
  shows "log_ok E s' \<and> (\<forall>e. x = Inl e \<longrightarrow> s' = s)"
proof (cases "prepare_event E e")
  case (Inl err)
  then show ?thesis using assms by (auto simp: append_event_def)
next
  case (Inr p)
  then show ?thesis
    using assms log_ok_append[OF assms(1) _ prepare_event_ok[OF Inr]] by (auto simp: append_event_def append_prepared_def)
qed

lemma from_seed_ok:
  assumes "session_from_seed E authority h seed now = Inr s"
  shows "log_ok E s"
proof -
  obtain p n where p: "replay_projection E seed (Some (sh_id h)) = Inr p" "retained_json_bytes h seed = Inr n"
    and s: "(let s = session_new authority h p seed n in
       if seed \<noteq> [] \<and> ev_kind (last seed) = EndSeed then Inr s
       else case append_event E s \<lparr>ne_kind = EndSeed, ne_surface = None\<rparr> now of
              (s, Inl e) \<Rightarrow> Inl (SessionAppend e) | (s, Inr _) \<Rightarrow> Inr s) = Inr s"
    using assms unfolding session_from_seed_def by (elim bindR_InrE) (auto simp: ok_or_map_err_iff)
  have "log_ok E (session_new authority h p seed n)"
    using p(1) retained_sum[OF p(2)] by (intro session_new_ok) (auto simp: replay_projection_def split: if_splits)
  then show ?thesis
    using s append_event_ok by (auto simp: Let_def split: if_splits prod.split_asm sum.split_asm)
qed

section \<open>The invariant of a run\<close>

lemma make_claims_ok:
  assumes "make_claims owner token ps = Inr cs" "owner = rn_owner r" "\<forall>p\<in>set ps. pv_ok p"
  shows "(\<forall>c\<in>set cs. claim_ok r c \<and> cl_state c \<noteq> ClaimSettled) \<and> open_sum (\<lambda>_. 1) cs = length ps
     \<and> open_sum cl_json_bytes cs = sum_list (map pv_retained_json_bytes ps) \<and> open_sum cl_row_bytes cs = 0"
  using assms
proof (induction ps arbitrary: token cs)
  case (Cons p ps)
  then obtain ds where ds: "make_claims owner (Suc token) ps = Inr ds"
    "cs = \<lparr>cl_owner = owner, cl_token = token, cl_state = ClaimReady p, cl_identity = fallback_identity p,
              cl_json_bytes = pv_retained_json_bytes p, cl_row_bytes = 0\<rparr> # ds"
    by (auto elim!: bindR_InrE)
  have "pv_ok p" using Cons.prems by simp
  then show ?case using Cons.IH[OF ds(1)] Cons.prems ds(2) by (auto simp: claim_ok_def)
qed simp

lemma prepare_all_ok: "prepare_all E es = Inr ps \<Longrightarrow> \<forall>p\<in>set ps. pv_ok p"
  by (induction es arbitrary: ps) (auto elim!: bindR_InrE dest: prepare_event_ok)

lemma claim_batch_ok:
  assumes "reserved_ok s r cs" "claim_batch E s r fallbacks = Inr (r', new)"
  shows "reserved_ok s r' (cs @ new)"
proof -
  obtain ps added where ps: "prepare_all E fallbacks = Inr ps" "sum_by pv_retained_json_bytes ps = Some added"
    "make_claims (rn_owner r) (rn_next_token r) ps = Inr new"
    "within_limit (checked_add_u64 (length (ms_events s)) (rn_events r')) MAX_SESSION_EVENTS"
    "within_limit (checked_add_u64 (ms_retained_json_bytes s) (rn_json_bytes r')) MAX_SESSION_RETAINED_JSON_BYTES"
    "rn_events r' = rn_events r + length ps" "rn_json_bytes r' = rn_json_bytes r + added"
    "rn_row_bytes r' = rn_row_bytes r" "rn_owner r' = rn_owner r"
    using assms(2) unfolding claim_batch_def
    by (elim bindR_InrE) (auto simp: result_simps checked_simps)
  have added: "added = sum_list (map pv_retained_json_bytes ps)" using ps(2) sum_by_Some by blast
  have new: "(\<forall>c\<in>set new. claim_ok r' c) \<and> open_sum (\<lambda>_. 1) new = length ps
     \<and> open_sum cl_json_bytes new = added \<and> open_sum cl_row_bytes new = 0"
    using make_claims_ok[OF ps(3) ps(9)[symmetric] prepare_all_ok[OF ps(1)]] added by auto
  have old: "\<forall>c\<in>set cs. claim_ok r' c" using assms(1) ps(9) by (auto simp: reserved_ok_def claim_ok_def)
  have "length (ms_events s) + rn_events r' \<le> MAX_SESSION_EVENTS"
    "ms_retained_json_bytes s + rn_json_bytes r' \<le> MAX_SESSION_RETAINED_JSON_BYTES"
    using ps(4,5) by (auto simp: within_limit_def checked_simps split: option.split_asm)
  then show ?thesis
    using assms(1) ps(6-8) new old by (auto simp: reserved_ok_def open_sum_append)
qed

lemma ready_open: "ready_fallback c = Inr p \<Longrightarrow> cl_state c = ClaimReady p \<and> cl_state c \<noteq> ClaimSettled"
  by (auto simp: ready_fallback_def split: claim_state.split_asm)

lemma ready_pv:
  assumes "reserved_ok s r cs" "i < length cs" "ready_fallback (cs ! i) = Inr p"
  shows "pv_ok p"
proof -
  have "claim_ok r (cs ! i)" using assms(1,2) by (simp add: reserved_ok_def)
  then show ?thesis using ready_open[OF assms(3)] by (auto simp: claim_ok_def)
qed

lemma settle_ok:
  assumes inv: "log_ok E s" "reserved_ok s r cs" "i < length cs" and res: "settle E s r (cs ! i) e now = ((s', r', c), x)"
  shows "log_ok E s' \<and> reserved_ok s' r' (cs[i := c]) \<and> (\<forall>e. x = Inl e \<longrightarrow> s' = s \<and> r' = r \<and> c = cs ! i)"
proof (cases "bindR (validate_claim r (cs ! i)) (\<lambda>_. bindR (ready_fallback (cs ! i)) (\<lambda>fallback.
        bindR (prepare_event E e) (\<lambda>preferred. bindR (validate_prepared E s preferred) (\<lambda>preferred.
        bindR (prepare_claim_bookkeeping r (cs ! i)) (\<lambda>b. Inr (fallback, preferred, b))))))")
  case (Inl err)
  then show ?thesis using res inv by (auto simp: settle_def)
next
  case (Inr t)
  then obtain fallback preferred b where t: "t = (fallback, preferred, b)" "ready_fallback (cs ! i) = Inr fallback"
    "prepare_event E e = Inr preferred" "prepare_claim_bookkeeping r (cs ! i) = Inr b"
    by (auto elim!: bindR_InrE simp: validate_prepared_def)
  let ?p = "if preferred_fits s r (cs ! i) preferred then preferred else fallback"
  have pv: "pv_ok ?p" using prepare_event_ok[OF t(3)] ready_pv[OF inv(2,3) t(2)] by simp
  obtain st y where st: "settle_with E s r (cs ! i) ?p b now = (st, y)" by (cases "settle_with E s r (cs ! i) ?p b now")
  obtain s1 r1 c1 where st1: "st = (s1, r1, c1)" by (cases st)
  have ok: "log_ok E s1 \<and> reserved_ok s1 r1 (cs[i := c1]) \<and> (\<forall>e. y = Inl e \<longrightarrow> s1 = s \<and> r1 = r \<and> c1 = cs ! i)"
    by (rule settle_with_ok[OF inv _ pv t(4) st[unfolded st1]]) (use ready_open[OF t(2)] in simp)
  show ?thesis using res Inr t(1) st st1 ok by (cases y) (auto simp: settle_def Let_def)
qed

lemma exact_ok:
  assumes inv: "log_ok E s" "reserved_ok s r cs" "i < length cs" and res: "settle_exact E s r (cs ! i) now = ((s', r', c), x)"
  shows "log_ok E s' \<and> reserved_ok s' r' (cs[i := c]) \<and> (\<forall>e. x = Inl e \<longrightarrow> s' = s \<and> r' = r \<and> c = cs ! i)"
proof (cases "bindR (validate_claim r (cs ! i)) (\<lambda>_. bindR (prepare_claim_bookkeeping r (cs ! i)) (\<lambda>b.
        bindR (ready_fallback (cs ! i)) (\<lambda>fallback. Inr (b, fallback))))")
  case (Inl err)
  then show ?thesis using res inv by (auto simp: settle_exact_def)
next
  case (Inr t)
  then obtain fallback b where t: "t = (b, fallback)" "ready_fallback (cs ! i) = Inr fallback"
    "prepare_claim_bookkeeping r (cs ! i) = Inr b"
    by (auto elim!: bindR_InrE)
  have "settle_with E s r (cs ! i) fallback b now = ((s', r', c), x)" using res Inr t(1) by (simp add: settle_exact_def)
  then show ?thesis
    using settle_with_ok[OF inv _ ready_pv[OF inv(2,3) t(2)] t(3)] ready_open[OF t(2)] by blast
qed

lemma preferred_ok:
  assumes inv: "log_ok E s" "reserved_ok s r cs" "i < length cs" and res: "settle_preferred_only E s r (cs ! i) e now = ((s', r', c), x)"
  shows "log_ok E s' \<and> reserved_ok s' r' (cs[i := c]) \<and> (\<forall>e. x = Inl e \<longrightarrow> s' = s \<and> r' = r \<and> c = cs ! i)"
proof (cases "bindR (validate_claim r (cs ! i)) (\<lambda>_. bindR (ready_fallback (cs ! i)) (\<lambda>_.
        bindR (prepare_claim_bookkeeping r (cs ! i)) (\<lambda>b. bindR (prepare_event E e) (\<lambda>preferred.
        bindR (requireR (pv_retained_json_bytes preferred \<le> cl_json_bytes (cs ! i))
                 (ClaimPayloadTooLarge (cl_json_bytes (cs ! i)) (pv_retained_json_bytes preferred))) (\<lambda>_.
        bindR (validate_prepared E s preferred) (\<lambda>preferred. Inr (b, preferred)))))))")
  case (Inl err)
  then show ?thesis using res inv by (auto simp: settle_preferred_only_def)
next
  case (Inr t)
  then obtain preferred b f where t: "t = (b, preferred)" "prepare_event E e = Inr preferred"
    "prepare_claim_bookkeeping r (cs ! i) = Inr b" "ready_fallback (cs ! i) = Inr f"
    by (auto elim!: bindR_InrE simp: validate_prepared_def)
  have "settle_with E s r (cs ! i) preferred b now = ((s', r', c), x)" using res Inr t(1) by (simp add: settle_preferred_only_def)
  then show ?thesis
    using settle_with_ok[OF inv _ prepare_event_ok[OF t(2)] t(3)] ready_open[OF t(4)] by blast
qed

lemma release_ok:
  assumes inv: "reserved_ok s r cs" "i < length cs" and res: "release r (cs ! i) = Inr (r', c)"
  shows "reserved_ok s r' (cs[i := c])"
proof -
  obtain b f where b: "prepare_claim_bookkeeping r (cs ! i) = Inr b" "finish_claim_bookkeeping r (cs ! i) b = (r', c)"
    "ready_fallback (cs ! i) = Inr f"
    using res by (auto simp: release_def elim!: bindR_InrE)
  have opened: "cl_state (cs ! i) \<noteq> ClaimSettled" using ready_open[OF b(3)] by simp
  show ?thesis
    by (rule reserved_settled[OF inv opened b(1,2)])
      (use inv bookkeeping_total(2)[OF inv opened] in \<open>auto simp: reserved_ok_def\<close>)
qed

lemma reserved_replaced:
  assumes inv: "reserved_ok s r cs" "i < length cs" "cl_state (cs ! i) \<noteq> ClaimSettled"
    and c: "claim_ok r c" "cl_state c \<noteq> ClaimSettled" "cl_row_bytes c = cl_row_bytes (cs ! i)"
    and room: "n = rn_json_bytes r - cl_json_bytes (cs ! i) + cl_json_bytes c" "ms_retained_json_bytes s + n \<le> MAX_SESSION_RETAINED_JSON_BYTES"
  shows "reserved_ok s (r\<lparr>rn_json_bytes := n\<rparr>) (cs[i := c])"
proof -
  have sums: "open_sum f (cs[i := c]) + f (cs ! i) = open_sum f cs + f c" for f
    using open_sum_update[OF inv(2,3), of f c] c(2) by simp
  have "\<forall>d\<in>set (cs[i := c]). claim_ok (r\<lparr>rn_json_bytes := n\<rparr>) d"
    by (rule all_update) (use inv(1) c(1) in \<open>auto simp: reserved_ok_def claim_ok_def\<close>)
  moreover have "open_sum (\<lambda>_. 1) (cs[i := c]) = rn_events r" "open_sum cl_row_bytes (cs[i := c]) = rn_row_bytes r"
    using sums[of "\<lambda>_. 1"] sums[of cl_row_bytes] c(3) inv(1) by (auto simp: reserved_ok_def)
  moreover have "open_sum cl_json_bytes (cs[i := c]) = n"
    using sums[of cl_json_bytes] room(1) inv(1) open_sum_le[OF inv(2,3), of cl_json_bytes] by (simp add: reserved_ok_def)
  ultimately show ?thesis using inv(1) room(2) by (auto simp: reserved_ok_def)
qed

lemma grow_ok:
  assumes inv: "reserved_ok s r cs" "i < length cs" and res: "reserve_claim_retained_json_bytes s r (cs ! i) n = Inr (r', c)"
  shows "reserved_ok s r' (cs[i := c])"
proof (cases "n \<le> cl_json_bytes (cs ! i)")
  case True
  then have "r' = r \<and> c = cs ! i" using res by (auto simp: reserve_claim_retained_json_bytes_def elim!: bindR_InrE)
  then show ?thesis using inv by simp
next
  case False
  obtain f where f: "ready_fallback (cs ! i) = Inr f" using res by (auto simp: reserve_claim_retained_json_bytes_def elim!: bindR_InrE)
  obtain m where m: "m = rn_json_bytes r - cl_json_bytes (cs ! i) + n" "r' = r\<lparr>rn_json_bytes := m\<rparr>"
    "c = (cs ! i)\<lparr>cl_json_bytes := n\<rparr>" "ms_retained_json_bytes s + m \<le> MAX_SESSION_RETAINED_JSON_BYTES"
    using res False unfolding reserve_claim_retained_json_bytes_def
    by (elim bindR_InrE) (auto simp: result_simps checked_simps within_limit_def elim!: bindR_InrE split: option.split_asm)
  have cs: "claim_ok r (cs ! i)" "cl_state (cs ! i) = ClaimReady f" using inv ready_open[OF f] by (auto simp: reserved_ok_def)
  show ?thesis
    unfolding m(2,3) by (rule reserved_replaced[OF inv]) (use cs False m in \<open>auto simp: claim_ok_def\<close>)
qed

lemma rebind_ok:
  assumes inv: "reserved_ok s r cs" "i < length cs" and res: "rebind_claim_fallback E r (cs ! i) e = Inr c"
  shows "reserved_ok s r (cs[i := c])"
proof -
  obtain f p where f: "ready_fallback (cs ! i) = Inr f" "prepare_event E e = Inr p" "pv_retained_json_bytes p \<le> cl_json_bytes (cs ! i)"
    "c = (cs ! i)\<lparr>cl_state := ClaimReady p, cl_identity := fallback_identity p\<rparr>"
    using res by (auto simp: rebind_claim_fallback_def result_simps elim!: bindR_InrE)
  have opened: "cl_state (cs ! i) \<noteq> ClaimSettled" using ready_open[OF f(1)] by simp
  have le: "cl_json_bytes (cs ! i) \<le> rn_json_bytes r" "0 < rn_events r" using bookkeeping_total[OF inv opened] by simp_all
  have "reserved_ok s (r\<lparr>rn_json_bytes := rn_json_bytes r\<rparr>) (cs[i := c])"
    by (rule reserved_replaced[OF inv opened])
      (use inv f prepare_event_ok[OF f(2)] le in \<open>auto simp: reserved_ok_def claim_ok_def\<close>)
  then show ?thesis by simp
qed

text \<open>Marking an attempt closed cannot fail once its token was valid and the closure committed.\<close>

lemma append_active:
  "append_prepared_with_admission E s p re rb adm now = (s', x) \<Longrightarrow>
     ms_active s' = ms_active s \<and> ms_authority s' = ms_authority s \<and> ms_barrier_epoch s' = ms_barrier_epoch s"
  by (cases rule: append_result) auto

lemma close_after_ok:
  assumes app: "append_prepared_with_admission E s p re rb adm now = (s1, y)" and tok: "validate_open_attempt_token s t owner = Inr ()"
    and res: "close_after (s1, y) t owner d = (s', x)"
  shows "(\<exists>e. y = Inl e \<and> x = Inl e \<and> s' = s1) \<or> (\<exists>rc. y = Inr rc \<and> x = Inr rc \<and> same_log E s1 s')"
proof (cases y)
  case (Inl e)
  then show ?thesis using res by (auto simp: close_after_def)
next
  case (Inr rc)
  have "validate_open_attempt_token s1 t owner = validate_open_attempt_token s t owner"
    using append_active[OF app] by (simp add: validate_open_attempt_token_def)
  then have "validate_open_attempt_token s1 t owner = Inr ()" using tok by simp
  moreover have "ms_active s1 \<noteq> None" using tok append_active[OF app] by (auto simp: validate_open_attempt_token_def split: if_splits option.split_asm)
  ultimately obtain s2 where "mark_attempt_closed s1 t owner rc d = Inr s2" by (auto simp: mark_attempt_closed_def)
  then show ?thesis using res Inr mark_closed_same by (auto simp: close_after_def)
qed

lemma closure_ok:
  assumes inv: "log_ok E s" "reserved_ok s r cs" and res: "append_attempt_closure E s r t d e now = (s', x)"
  shows "log_ok E s' \<and> reserved_ok s' r cs \<and> (\<forall>e. x = Inl e \<longrightarrow> s' = s)"
proof (cases "bindR (validate_open_attempt_token s t (rn_owner r)) (\<lambda>_. prepare_event E e)")
  case (Inl err)
  then show ?thesis using res inv by (auto simp: append_attempt_closure_def)
next
  case (Inr p)
  then have p: "validate_open_attempt_token s t (rn_owner r) = Inr ()" "prepare_event E e = Inr p" by (auto elim!: bindR_InrE)
  obtain s1 y where app: "append_prepared_with_admission E s p (rn_events r) (rn_json_bytes r) (AdmitClosure d) now = (s1, y)"
    by (cases "append_prepared_with_admission E s p (rn_events r) (rn_json_bytes r) (AdmitClosure d) now")
  have "close_after (s1, y) t (rn_owner r) d = (s', x)" using res Inr app by (simp add: append_attempt_closure_def)
  from close_after_ok[OF app p(1) this] reserved_append_ok[OF inv prepare_event_ok[OF p(2)] app] show ?thesis
    using same_log_ok by (elim disjE exE conjE) auto
qed

lemma closure_exact_ok:
  assumes inv: "log_ok E s" "reserved_ok s r cs" "i < length cs"
    and res: "settle_attempt_closure_exact E s r (cs ! i) t d now = ((s', r', c), x)"
  shows "log_ok E s' \<and> reserved_ok s' r' (cs[i := c]) \<and> (\<forall>e. x = Inl e \<longrightarrow> s' = s \<and> r' = r \<and> c = cs ! i)"
proof (cases "bindR (validate_open_attempt_token s t (rn_owner r)) (\<lambda>_. bindR (validate_claim r (cs ! i)) (\<lambda>_.
        bindR (prepare_claim_bookkeeping r (cs ! i)) (\<lambda>b. bindR (ready_fallback (cs ! i)) (\<lambda>fallback. Inr (b, fallback)))))")
  case (Inl err)
  then show ?thesis using res inv by (auto simp: settle_attempt_closure_exact_def)
next
  case (Inr q)
  then obtain b p where p: "q = (b, p)" "validate_open_attempt_token s t (rn_owner r) = Inr ()"
    "prepare_claim_bookkeeping r (cs ! i) = Inr b" "ready_fallback (cs ! i) = Inr p"
    by (auto elim!: bindR_InrE)
  have opened: "cl_state (cs ! i) \<noteq> ClaimSettled" using ready_open[OF p(4)] by simp
  have b: "cb_events b = rn_events r - 1" "cb_json_bytes b = rn_json_bytes r - cl_json_bytes (cs ! i)"
    using bookkeeping_total(1)[OF inv(2,3) opened] p(3) by auto
  obtain s1 y where app: "append_prepared_with_admission E s p (cb_events b) (cb_json_bytes b) (AdmitClosure d) now = (s1, y)"
    by (cases "append_prepared_with_admission E s p (cb_events b) (cb_json_bytes b) (AdmitClosure d) now")
  obtain s2 z where cl: "close_after (s1, y) t (rn_owner r) d = (s2, z)" by (cases "close_after (s1, y) t (rn_owner r) d")
  note log = log_ok_append[OF inv(1) app ready_pv[OF inv(2,3) p(4)]]
  from close_after_ok[OF app p(2) cl] show ?thesis
  proof (elim disjE exE conjE)
    fix e assume "y = Inl e" "z = Inl e" "s2 = s1"
    then show ?thesis using res Inr p(1) app cl log inv by (auto simp: settle_attempt_closure_exact_def)
  next
    fix rc assume y: "y = Inr rc" "z = Inr rc" and same: "same_log E s1 s2"
    obtain r1 c1 where fin: "finish_claim_bookkeeping r (cs ! i) b = (r1, c1)" by (cases "finish_claim_bookkeeping r (cs ! i) b")
    have eq: "s' = s2" "r' = r1" "c = c1" "x = Inr rc"
      using res Inr p(1) app cl y fin by (auto simp: settle_attempt_closure_exact_def)
    have "s1 \<noteq> s" using app y by (cases rule: append_result) (auto dest: arg_cong[where f = ms_events])
    then have "reserved_ok s1 r1 (cs[i := c1])"
      using reserved_settled[OF inv(2,3) opened p(3) fin] append_room[OF app] b by auto
    then show ?thesis using same_log_ok[OF same] log eq by auto
  qed
qed

lemma step_end_ok:
  assumes inv: "log_ok E s" "reserved_ok s r cs" "i < length cs"
    and res: "settle_step_end_with_attempt E s r (cs ! i) tok d now = ((s', r', c), x)"
  shows "log_ok E s' \<and> reserved_ok s' r' (cs[i := c]) \<and> (\<forall>e. x = Inl e \<longrightarrow> s' = s \<and> r' = r \<and> c = cs ! i)"
proof -
  consider (refused) "s' = s" "r' = r" "c = cs ! i" | (attempt) t d' where
      "settle_attempt_closure_exact E s r (cs ! i) t d' now = ((s', r', c), x)"
    | (plain) "settle_exact E s r (cs ! i) now = ((s', r', c), x)"
    using res unfolding settle_step_end_with_attempt_def
    by (auto split: sum.split_asm claim_identity.split_asm option.split_asm if_splits)
  then show ?thesis
  proof cases
    case refused
    then show ?thesis using inv by simp
  next
    case attempt
    then show ?thesis by (rule closure_exact_ok[OF inv])
  next
    case plain
    then show ?thesis by (rule exact_ok[OF inv])
  qed
qed

lemma chunk_ok:
  assumes inv: "log_ok E s" "reserved_ok s r cs" and res: "append_attempt_chunk E s r t ch now = (s', x)"
  shows "log_ok E s' \<and> reserved_ok s' r cs \<and> (\<forall>e. x = Inl e \<longrightarrow> s' = s)"
proof (cases "bindR (validate_open_attempt_token s t (rn_owner r)) (\<lambda>_.
     prepare_event E \<lparr>ne_kind = AssistantChunk (tk_turn t) (tk_step t) ch, ne_surface = None\<rparr>)")
  case (Inl err)
  then show ?thesis using res inv by (auto simp: append_attempt_chunk_def)
next
  case (Inr p)
  then have "pv_ok p" by (auto elim!: bindR_InrE dest: prepare_event_ok)
  then show ?thesis using reserved_append_ok[OF inv] res Inr by (simp add: append_attempt_chunk_def)
qed

lemma reservation_append_ok:
  assumes inv: "log_ok E s" "reserved_ok s r cs" and res: "reservation_append E s r e now = (s', x)"
  shows "log_ok E s' \<and> reserved_ok s' r cs \<and> (\<forall>e. x = Inl e \<longrightarrow> s' = s)"
proof (cases "prepare_event E e")
  case (Inl err)
  then show ?thesis using res inv by (auto simp: reservation_append_def)
next
  case (Inr p)
  then show ?thesis
    using reserved_append_ok[OF inv prepare_event_ok[OF Inr]] res by (simp add: reservation_append_def append_prepared_def)
qed

lemma session_run_ok: "session_run E s ro cs \<Longrightarrow> run_ok E s ro cs"
proof (induction rule: session_run.induct)
  case (new authority sid now s)
  then show ?case using with_clock_ok by (simp add: run_ok_def)
next
  case (seed authority h events now s)
  then show ?case using from_seed_ok by (simp add: run_ok_def)
next
  case (append s e now s' x)
  then show ?case using append_event_ok by (auto simp: run_ok_def)
next
  case (reserve s owner)
  then show ?case by (simp add: run_ok_def reserved_ok_def session_reservation_def)
next
  case (flush s r cs s')
  then show ?case using same_log_ok[OF flush_same] by (auto simp: run_ok_def split: option.splits)
qed (auto simp: run_ok_def dest: claim_batch_ok reservation_append_ok settle_ok exact_ok preferred_ok release_ok grow_ok rebind_ok
      begin_same chunk_ok seal_same closure_ok step_end_ok retire_same intro: same_log_ok)

end
