(* ===== verification/Session_Proofs.thy ===== *)
theory Session_Proofs
  imports Session_Runs
begin

text \<open>
  The properties of in-memory sessions, and a session on which their witnesses are evaluated.
\<close>

section \<open>The log\<close>

text \<open>
  C4: the log is the source of truth.  In every session that was built from an empty log or from
  a seed, through appends, reservations, claims and provider attempts, replaying the events rebuilds
  the projection in every field but the attempt and the token anchor, which only their owner knows.
\<close>

theorem memory_session_replays:
  assumes "session_run E s ro cs"
  shows "\<exists>q. replay_projection E (ms_events s) (Some (sh_id (ms_header s))) = Inr q
     \<and> erase_attempt q = erase_attempt (ms_projection s)"
  using session_run_ok[OF assms] by (auto simp: run_ok_def log_ok_def replays_def replay_projection_def)

text \<open>
  C8: the books of a session.  Events are numbered 0, 1, 2, ... and the next number is their
  count; the retained bytes are the header and the payloads; the log stays within both limits (an empty
  one holds only the header, which has no limit here); a reservation protects exactly the
  events and bytes of the claims that are not settled, and while there is one, the log and what is
  protected together stay within both limits.
\<close>

theorem session_books_exact:
  assumes "session_run E s (Some r) cs"
  shows "map ev_seq (ms_events s) = [0..<length (ms_events s)] \<and> ms_next_seq s = Some (length (ms_events s))
     \<and> ms_retained_json_bytes s
         = jv_encoded_len (sh_raw (ms_header s)) + sum_list (map (\<lambda>e. jv_encoded_len (ev_original_data e)) (ms_events s))
     \<and> length (ms_events s) \<le> MAX_SESSION_EVENTS
     \<and> (ms_events s = [] \<or> ms_retained_json_bytes s \<le> MAX_SESSION_RETAINED_JSON_BYTES)
     \<and> rn_events r = length (filter (\<lambda>c. cl_state c \<noteq> ClaimSettled) cs)
     \<and> rn_json_bytes r = sum_list (map cl_json_bytes (filter (\<lambda>c. cl_state c \<noteq> ClaimSettled) cs))
     \<and> (rn_events r = 0 \<or> (length (ms_events s) + rn_events r \<le> MAX_SESSION_EVENTS
          \<and> ms_retained_json_bytes s + rn_json_bytes r \<le> MAX_SESSION_RETAINED_JSON_BYTES))"
proof -
  have count: "open_sum (\<lambda>_. Suc 0) cs = length (filter (\<lambda>c. cl_state c \<noteq> ClaimSettled) cs)" by (induction cs) auto
  have total: "open_sum f cs = sum_list (map f (filter (\<lambda>c. cl_state c \<noteq> ClaimSettled) cs))" for f by (induction cs) auto
  show ?thesis
    using session_run_ok[OF assms] count total[of cl_json_bytes]
    by (auto simp: run_ok_def log_ok_def reserved_ok_def event_bytes_def)
qed

section \<open>Claims\<close>

lemma append_accepts:
  assumes inv: "log_ok E s" and pv: "pv_ok p" and ok: "with_event E (ms_projection s) (candidate (length (ms_events s)) 0 p) = Inr q"
    and t: "0 \<le> t"
    and room: "length (ms_events s) + 1 + re \<le> MAX_SESSION_EVENTS"
      "ms_retained_json_bytes s + pv_retained_json_bytes p + rb \<le> MAX_SESSION_RETAINED_JSON_BYTES"
  obtains s' rc where "append_prepared E s p re rb (Some t) = (s', Inr rc)" "ms_projection s' = q"
    "ms_events s' = ms_events s @ [candidate (length (ms_events s)) t p]" "ar_seq rc = length (ms_events s)"
proof -
  have "admit_size s (pv_retained_json_bytes p) re rb = Inr (ms_retained_json_bytes s + pv_retained_json_bytes p)"
    using room by (simp add: admit_size_Inr)
  moreover obtain ty where "live_event_type (ne_kind (pv_event p)) = Some ty"
    using pv by (cases "ne_kind (pv_event p)") (auto simp: pv_ok_def is_unknown_def live_event_type_def)
  moreover have "ms_next_seq s = Some (length (ms_events s))" using inv by (simp add: log_ok_def)
  ultimately show thesis
    using ok t that by (simp add: append_prepared_def append_prepared_with_admission_def admit_projection_def Let_def)
qed

lemma settle_with_accepts:
  assumes inv: "log_ok E s" "reserved_ok s r cs" "i < length cs" "cl_state (cs ! i) \<noteq> ClaimSettled" and pv: "pv_ok p"
    and ok: "with_event E (ms_projection s) (candidate (length (ms_events s)) 0 p) = Inr q" and t: "0 \<le> t"
    and fits: "ms_retained_json_bytes s + pv_retained_json_bytes p + (rn_json_bytes r - cl_json_bytes (cs ! i)) \<le> MAX_SESSION_RETAINED_JSON_BYTES"
    and b: "prepare_claim_bookkeeping r (cs ! i) = Inr b"
  obtains s' r' rc where "settle_with E s r (cs ! i) p b (Some t) = ((s', r', (cs ! i)\<lparr>cl_state := ClaimSettled\<rparr>), Inr rc)"
    "ms_projection s' = q" "ms_events s' = ms_events s @ [candidate (length (ms_events s)) t p]"
proof -
  have "length (ms_events s) + 1 + (rn_events r - 1) \<le> MAX_SESSION_EVENTS"
    using bookkeeping_total(2)[OF inv(2-4)] inv(2) by (auto simp: reserved_ok_def)
  from append_accepts[OF inv(1) pv ok t this fits] obtain s' rc where
    "append_prepared E s p (rn_events r - 1) (rn_json_bytes r - cl_json_bytes (cs ! i)) (Some t) = (s', Inr rc)"
    "ms_projection s' = q" "ms_events s' = ms_events s @ [candidate (length (ms_events s)) t p]" by metis
  then show thesis using that by (simp add: settle_with_def finish_claim_bookkeeping_def)
qed

text \<open>
  C6: a claim is protected.  Whatever was appended since it was made, by the reservation or under
  other claims, settling a claim exactly commits its fallback event: the two limits of the session
  cannot refuse it.  Only the projection (the event is no longer a legal next event) or the clock can.
\<close>

theorem claim_is_protected:
  assumes run: "session_run E s (Some r) cs" and c: "c \<in> set cs" "cl_state c = ClaimReady p"
    and legal: "with_event E (ms_projection s) (candidate (length (ms_events s)) 0 p) = Inr q" and clock: "0 \<le> t"
  shows "\<exists>s' r' rc. settle_exact E s r c (Some t) = ((s', r', c\<lparr>cl_state := ClaimSettled\<rparr>), Inr rc)
     \<and> ms_events s' = ms_events s @ [candidate (length (ms_events s)) t p] \<and> ms_projection s' = q"
proof -
  obtain i where i: "i < length cs" "cs ! i = c" using c(1) by (auto simp: in_set_conv_nth)
  have inv: "log_ok E s" "reserved_ok s r cs" using session_run_ok[OF run] by (simp_all add: run_ok_def)
  have opened: "cl_state (cs ! i) \<noteq> ClaimSettled" using c(2) i by simp
  have claim: "claim_ok r c" using inv(2) c(1) by (simp add: reserved_ok_def)
  then have p: "pv_ok p" "pv_retained_json_bytes p \<le> cl_json_bytes c" "rn_owner r = cl_owner c" using c(2) by (auto simp: claim_ok_def)
  note book = bookkeeping_total[OF inv(2) i(1) opened]
  obtain b where b: "prepare_claim_bookkeeping r (cs ! i) = Inr b" using book(1) by blast
  have "ms_retained_json_bytes s + pv_retained_json_bytes p + (rn_json_bytes r - cl_json_bytes (cs ! i)) \<le> MAX_SESSION_RETAINED_JSON_BYTES"
    using book(2,3) inv(2) p(2) i(2) by (auto simp: reserved_ok_def)
  from settle_with_accepts[OF inv i(1) opened p(1) legal clock this b] obtain s' r' rc where
    "settle_with E s r c p b (Some t) = ((s', r', c\<lparr>cl_state := ClaimSettled\<rparr>), Inr rc)"
    "ms_projection s' = q" "ms_events s' = ms_events s @ [candidate (length (ms_events s)) t p]" using i(2) by metis
  then show ?thesis
    using b i(2) c(2) p(3) by (simp add: settle_exact_def validate_claim_def ready_fallback_def)
qed

text \<open>
  C13: settling a claim writes the preferred event when it fits beside what the other claims
  protect, and the fallback otherwise, never neither: if both events are legal next events and the
  clock works, one of them is committed.
\<close>

theorem settle_commits_one:
  assumes run: "session_run E s (Some r) cs" and c: "c \<in> set cs" "cl_state c = ClaimReady p"
    and legal: "with_event E (ms_projection s) (candidate (length (ms_events s)) 0 p) = Inr q" and clock: "0 \<le> t"
    and preferred: "prepare_event E e = Inr p'" "with_event E (ms_projection s) (candidate (length (ms_events s)) 0 p') = Inr q'"
  shows "\<exists>s' r' rc. settle E s r c e (Some t) = ((s', r', c\<lparr>cl_state := ClaimSettled\<rparr>),
         Inr (if preferred_fits s r c p' then ClaimedPreferred rc else ClaimedFallback rc))
     \<and> ms_events s' = ms_events s @ [candidate (length (ms_events s)) t (if preferred_fits s r c p' then p' else p)]"
proof -
  obtain i where i: "i < length cs" "cs ! i = c" using c(1) by (auto simp: in_set_conv_nth)
  have inv: "log_ok E s" "reserved_ok s r cs" using session_run_ok[OF run] by (simp_all add: run_ok_def)
  have opened: "cl_state (cs ! i) \<noteq> ClaimSettled" using c(2) i by simp
  have claim: "claim_ok r c" using inv(2) c(1) by (simp add: reserved_ok_def)
  then have p: "pv_ok p" "pv_retained_json_bytes p \<le> cl_json_bytes c" "rn_owner r = cl_owner c" using c(2) by (auto simp: claim_ok_def)
  note book = bookkeeping_total[OF inv(2) i(1) opened]
  obtain b where b: "prepare_claim_bookkeeping r (cs ! i) = Inr b" using book(1) by blast
  let ?p = "if preferred_fits s r c p' then p' else p" and ?q = "if preferred_fits s r c p' then q' else q"
  have fits: "ms_retained_json_bytes s + pv_retained_json_bytes ?p + (rn_json_bytes r - cl_json_bytes (cs ! i)) \<le> MAX_SESSION_RETAINED_JSON_BYTES"
    using book(2,3) inv(2) p(2) i(2)
    by (auto simp: reserved_ok_def preferred_fits_def within_limit_def checked_simps split: option.split_asm bind_splits)
  have "pv_ok ?p" "with_event E (ms_projection s) (candidate (length (ms_events s)) 0 ?p) = Inr ?q"
    using p(1) prepare_event_ok[OF preferred(1)] legal preferred(2) by simp_all
  from settle_with_accepts[OF inv i(1) opened this clock fits b] obtain s' r' rc where
    st: "settle_with E s r c ?p b (Some t) = ((s', r', c\<lparr>cl_state := ClaimSettled\<rparr>), Inr rc)"
    "ms_events s' = ms_events s @ [candidate (length (ms_events s)) t ?p]" using i(2) by metis
  have "validate_prepared E s p' = Inr p'" using inv(1) preferred(2) by (simp add: validate_prepared_def log_ok_def)
  then show ?thesis
    using st b i(2) c(2) p(3) preferred(1) by (simp add: settle_def validate_claim_def ready_fallback_def Let_def)
qed

section \<open>Refusals\<close>

text \<open>An operation either succeeds or leaves its state as it was.\<close>

definition refuses_in_place :: "'s \<Rightarrow> 's \<times> (append_error + 'a) \<Rightarrow> bool" where
  "refuses_in_place st x = (is_ok (snd x) \<or> fst x = st)"

lemma refuses_in_placeI: "(\<And>st' y. x = (st', y) \<Longrightarrow> \<forall>e. y = Inl e \<longrightarrow> st' = st) \<Longrightarrow> refuses_in_place st x"
  by (cases x, cases "snd x") (auto simp: refuses_in_place_def)

lemma refuses_settled:
  assumes "\<And>s' r' c' y. x = ((s', r', c'), y) \<Longrightarrow> \<forall>e. y = Inl e \<longrightarrow> s' = s \<and> r' = r \<and> c' = c"
  shows "refuses_in_place (s, r, c) x"
  by (rule refuses_in_placeI) (use assms in \<open>metis prod_cases3\<close>)

text \<open>
  C12: a refused operation changes nothing.  Whatever the error (a limit, an event the projection
  rejects, a claim that is not the reservation's, a stale token, a failed clock), the session, the
  reservation and the claim are the ones before the call; no event is half written and no claim is
  lost, and a provider attempt is not closed without its closure event.
\<close>

theorem refused_operation_changes_nothing:
  assumes run: "session_run E s (Some r) cs" and i: "i < length cs"
  shows "refuses_in_place s (reservation_append E s r e now)
     \<and> refuses_in_place s (append_attempt_chunk E s r t ch now)
     \<and> refuses_in_place s (append_attempt_closure E s r t d e now)
     \<and> refuses_in_place (s, r, cs ! i) (settle E s r (cs ! i) e now)
     \<and> refuses_in_place (s, r, cs ! i) (settle_exact E s r (cs ! i) now)
     \<and> refuses_in_place (s, r, cs ! i) (settle_preferred_only E s r (cs ! i) e now)
     \<and> refuses_in_place (s, r, cs ! i) (settle_attempt_closure_exact E s r (cs ! i) t d now)
     \<and> refuses_in_place (s, r, cs ! i) (settle_step_end_with_attempt E s r (cs ! i) tok d' now)"
proof -
  have inv: "log_ok E s" "reserved_ok s r cs" using session_run_ok[OF run] by (simp_all add: run_ok_def)
  note ok = reservation_append_ok[OF inv] chunk_ok[OF inv] closure_ok[OF inv] settle_ok[OF inv i] exact_ok[OF inv i]
    preferred_ok[OF inv i] closure_exact_ok[OF inv i] step_end_ok[OF inv i]
  show ?thesis by (intro conjI refuses_settled refuses_in_placeI; drule ok; blast)
qed

section \<open>The owner of an attempt\<close>

lemma closure_closes:
  assumes "append_attempt_closure E s r t d e now = (s', Inr rc)"
  shows "ms_active s' = Some \<lparr>aw_reservation = rn_owner r, aw_nonce = tk_nonce t, aw_turn = tk_turn t, aw_step = tk_step t,
      aw_phase = AttemptClosed (ar_seq rc) (ms_barrier_epoch s') d\<rparr>"
    and "ms_authority s' = tk_authority t" "rn_owner r = tk_reservation t"
proof -
  obtain p where p: "validate_open_attempt_token s t (rn_owner r) = Inr ()" "prepare_event E e = Inr p"
    using assms by (auto simp: append_attempt_closure_def elim!: bindR_InrE split: sum.split_asm)
  obtain s1 y where app: "append_prepared_with_admission E s p (rn_events r) (rn_json_bytes r) (AdmitClosure d) now = (s1, y)"
    by (cases "append_prepared_with_admission E s p (rn_events r) (rn_json_bytes r) (AdmitClosure d) now")
  have cl: "close_after (s1, y) t (rn_owner r) d = (s', Inr rc)" using assms p app by (simp add: append_attempt_closure_def)
  obtain a where a: "ms_active s = Some a" "aw_nonce a = tk_nonce t" "aw_reservation a = rn_owner r" "aw_turn a = tk_turn t"
    "aw_step a = tk_step t" "ms_authority s = tk_authority t" "rn_owner r = tk_reservation t"
    using p(1) by (auto simp: validate_open_attempt_token_def split: if_splits option.split_asm)
  have y: "y = Inr rc" and m: "mark_attempt_closed s1 t (rn_owner r) rc d = Inr s'"
    using cl by (auto simp: close_after_def split: sum.split_asm)
  then have "s' = s1\<lparr>ms_active := Some (a\<lparr>aw_phase := AttemptClosed (ar_seq rc) (ms_barrier_epoch s1) d\<rparr>)\<rparr>"
    using a(1) append_active[OF app] by (auto simp: mark_attempt_closed_def elim!: bindR_InrE)
  then show "ms_active s' = Some \<lparr>aw_reservation = rn_owner r, aw_nonce = tk_nonce t, aw_turn = tk_turn t, aw_step = tk_step t,
      aw_phase = AttemptClosed (ar_seq rc) (ms_barrier_epoch s') d\<rparr>"
    "ms_authority s' = tk_authority t" "rn_owner r = tk_reservation t"
    using a append_active[OF app] by simp_all
qed

text \<open>
  C14: an attempt is closed once and retired after a barrier.  Once its closure is committed no
  token of any reservation is valid, so no second closure, chunk or seal can follow, a new attempt is
  refused and so is retiring; after the next storage barrier exactly its own token retires it.
\<close>

theorem attempt_closed_once:
  assumes "append_attempt_closure E s r t d e now = (s', Inr rc)" "ms_barrier_epoch s' + 1 < U64_LIMIT"
  shows "\<not> is_ok (validate_open_attempt_token s' t' owner)
     \<and> \<not> is_ok (begin_attempt s' r' turn step) \<and> \<not> is_ok (retire_attempt s' r t)
     \<and> (\<exists>s''. flush_barrier s' = Inr s'' \<and> retire_attempt s'' r t = Inr (s''\<lparr>ms_active := None\<rparr>)
          \<and> (is_ok (retire_attempt s'' r' t') \<longrightarrow>
               tk_nonce t' = tk_nonce t \<and> tk_reservation t' = tk_reservation t \<and> tk_authority t' = tk_authority t))"
  using closure_closes[OF assms(1)] assms(2)
  by (auto simp: validate_open_attempt_token_def begin_attempt_def retire_attempt_def flush_barrier_def checked_add_u64_def)

end
