(* ===== verification/Memory_Example.thy ===== *)
theory Memory_Example
  imports Session_Proofs Call_Example
begin

text \<open>
  An in-memory session: a turn in which a provider attempt is opened under a reservation, streams a
  tool call, is sealed, closed by its message and retired, while the claims made before it still
  protect the ends of the step and of the turn.  The witnesses are evaluated on it.
\<close>

datatype (plugins only: code) memory_op =
    OpAppend new_event
  | OpClaim "new_event list"
  | OpExact nat
  | OpSettle nat new_event
  | OpBegin nat nat
  | OpChunk stream_chunk
  | OpSeal
  | OpClosure attempt_disposition new_event
  | OpFlush
  | OpRetire

type_synonym memory_state = "memory_session \<times> reservation \<times> event_claim list \<times> attempt_token option"

definition of_settled :: "event_claim list \<Rightarrow> nat \<Rightarrow> attempt_token option \<Rightarrow> 'a settled \<Rightarrow> memory_state option" where
  "of_settled cs i tok x = (case x of ((s, r, c), Inr _) \<Rightarrow> Some (s, r, cs[i := c], tok) | _ \<Rightarrow> None)"

fun memory_do :: "externals \<Rightarrow> memory_state \<Rightarrow> memory_op \<Rightarrow> memory_state option" where
  "memory_do E (s, r, cs, tok) (OpAppend e) =
     (case reservation_append E s r e (Some 0) of (s, Inr _) \<Rightarrow> Some (s, r, cs, tok) | _ \<Rightarrow> None)"
| "memory_do E (s, r, cs, tok) (OpClaim es) =
     (case claim_batch E s r es of Inr (r, new) \<Rightarrow> Some (s, r, cs @ new, tok) | _ \<Rightarrow> None)"
| "memory_do E (s, r, cs, tok) (OpExact i) =
     (if i < length cs then of_settled cs i tok (settle_exact E s r (cs ! i) (Some 0)) else None)"
| "memory_do E (s, r, cs, tok) (OpSettle i e) =
     (if i < length cs then of_settled cs i tok (settle E s r (cs ! i) e (Some 0)) else None)"
| "memory_do E (s, r, cs, tok) (OpBegin turn step) =
     (case begin_attempt s r turn step of Inr (s, t) \<Rightarrow> Some (s, r, cs, Some t) | _ \<Rightarrow> None)"
| "memory_do E (s, r, cs, Some t) (OpChunk ch) =
     (case append_attempt_chunk E s r t ch (Some 0) of (s, Inr _) \<Rightarrow> Some (s, r, cs, Some t) | _ \<Rightarrow> None)"
| "memory_do E (s, r, cs, Some t) OpSeal =
     (case session_seal_attempt E s r t of Inr (_, s) \<Rightarrow> Some (s, r, cs, Some t) | _ \<Rightarrow> None)"
| "memory_do E (s, r, cs, Some t) (OpClosure d e) =
     (case append_attempt_closure E s r t d e (Some 0) of (s, Inr _) \<Rightarrow> Some (s, r, cs, Some t) | _ \<Rightarrow> None)"
| "memory_do E (s, r, cs, tok) OpFlush =
     (case flush_barrier s of Inr s \<Rightarrow> Some (s, r, cs, tok) | _ \<Rightarrow> None)"
| "memory_do E (s, r, cs, Some t) OpRetire =
     (case retire_attempt s r t of Inr s \<Rightarrow> Some (s, r, cs, Some t) | _ \<Rightarrow> None)"
| "memory_do E (s, r, cs, None) _ = None"

fun memory_all :: "externals \<Rightarrow> memory_state \<Rightarrow> memory_op list \<Rightarrow> memory_state option" where
  "memory_all E st [] = Some st"
| "memory_all E st (x # xs) = (case memory_do E st x of None \<Rightarrow> None | Some st \<Rightarrow> memory_all E st xs)"

definition state_run :: "externals \<Rightarrow> memory_state \<Rightarrow> bool" where
  "state_run E st = (case st of (s, r, cs, _) \<Rightarrow> session_run E s (Some r) cs)"

lemma memory_do_run:
  assumes "memory_do E (s, r, cs, tok) x = Some st" "session_run E s (Some r) cs"
  shows "state_run E st"
  using assms
  by (cases x; cases tok)
    (auto simp: state_run_def of_settled_def split: prod.split_asm sum.split_asm if_splits intro: session_run.intros)

lemma memory_all_run: "memory_all E st xs = Some st' \<Longrightarrow> state_run E st \<Longrightarrow> state_run E st'"
proof (induction xs arbitrary: st)
  case (Cons x xs)
  obtain s r cs tok where st: "st = (s, r, cs, tok)" by (cases st)
  obtain q where q: "memory_do E st x = Some q" "memory_all E q xs = Some st'" using Cons.prems(1) by (auto split: option.split_asm)
  have "state_run E q" using memory_do_run[OF q(1)[unfolded st]] Cons.prems(2) by (simp add: st state_run_def)
  from Cons.IH[OF q(2) this] show ?case .
qed simp

definition memory_start :: "memory_state option" where
  "memory_start =
     (case session_with_clock example_externals 7 ''s'' (Some 0) of
        Inr s \<Rightarrow> Some (s, session_reservation 3, [], None) | Inl _ \<Rightarrow> None)"

lemma memory_start_run: "memory_start = Some st \<Longrightarrow> state_run example_externals st"
  by (auto simp: memory_start_def state_run_def split: sum.split_asm intro: session_run.intros)

definition plain :: "event_kind \<Rightarrow> new_event" where
  "plain k = \<lparr>ne_kind = k, ne_surface = None\<rparr>"

definition example_chunk_of :: "stream_chunk_kind \<Rightarrow> stream_chunk" where
  "example_chunk_of k = \<lparr>sc_kind = k, sc_raw = call_raw\<rparr>"

definition example_answer :: new_event where
  "example_answer = \<lparr>ne_kind = AssistantMessage 1 1 call_message None,
     ne_surface = Some \<lparr>si_operation = SurfaceAppend, si_source_event_seqs = Some [3, 4, 5, 6]\<rparr>\<rparr>"

definition memory_ops :: "memory_op list" where
  "memory_ops =
     [OpAppend (plain (TurnStart 1)), OpAppend (plain (RequestHeader call_header ReasonInitial)),
      OpClaim [plain (StepEnd 1 1), plain (TurnEnd 1 TurnCompleted)], OpAppend (plain (StepStart 1 1)), OpBegin 1 1]
     @ map (OpChunk \<circ> example_chunk_of)
         [BlockStart 0 ToolCallType, ToolCallDelta 0 ''c1'' (Some ''read'') ''{}'', BlockEnd 0 call_block,
          FinishChunk \<lparr>fr_kind = ToolCalls, fr_raw = call_raw\<rparr> None]
     @ [OpSeal]"

definition memory_sealed :: "memory_state option" where
  "memory_sealed = Option.bind memory_start (\<lambda>st. memory_all example_externals st memory_ops)"

definition memory_result :: message where
  "memory_result = result_message\<lparr>msg_raw := \<lparr>jv_value = obj_of [(''content'', JArray [result_block])], jv_encoded_len = 120\<rparr>\<rparr>"

definition call_and_result :: "memory_op list" where
  "call_and_result =
     [OpClosure DispCommitted example_answer, OpFlush, OpRetire,
      OpAppend (plain (ToolCall 1 1 ''c1'' ''read'' ''{}'')),
      OpAppend \<lparr>ne_kind = ToolResult 1 1 memory_result None None,
               ne_surface = Some \<lparr>si_operation = SurfaceAppend, si_source_event_seqs = Some [8]\<rparr>\<rparr>]"

definition memory_answered :: "memory_state option" where
  "memory_answered = Option.bind memory_sealed (\<lambda>st. memory_all example_externals st call_and_result)"


lemma memory_sealed_run: "memory_sealed = Some st \<Longrightarrow> state_run example_externals st"
  using memory_all_run memory_start_run by (auto simp: memory_sealed_def split: bind_splits)

lemma memory_answered_run: "memory_answered = Some st \<Longrightarrow> state_run example_externals st"
  using memory_all_run memory_sealed_run by (auto simp: memory_answered_def split: bind_splits)

text \<open>The two claims are open, the end of the step is a legal next event, and the answer closes the attempt.\<close>

lemma memory_sealed_facts:
  "case memory_sealed of None \<Rightarrow> False
   | Some (s, r, cs, tok) \<Rightarrow> (case tok of None \<Rightarrow> False
       | Some t \<Rightarrow> (case append_attempt_closure example_externals s r t DispCommitted example_answer (Some 0) of
           (s', Inr rc) \<Rightarrow> ms_barrier_epoch s' = 0 | _ \<Rightarrow> False))"
  by code_simp

lemma memory_answered_facts:
  "case memory_answered of None \<Rightarrow> False
   | Some (s, r, cs, tok) \<Rightarrow> length cs = 2 \<and> (case cl_state (cs ! 0) of
       ClaimReady p \<Rightarrow> is_ok (with_event example_externals (ms_projection s) (candidate (length (ms_events s)) 0 p))
     | _ \<Rightarrow> False)"
  by code_simp

lemma preferred_end_facts:
  "case memory_answered of None \<Rightarrow> False
   | Some (s, r, cs, tok) \<Rightarrow> (case prepare_event example_externals (plain (StepEnd 1 1)) of
       Inr p \<Rightarrow> is_ok (with_event example_externals (ms_projection s) (candidate (length (ms_events s)) 0 p))
     | Inl _ \<Rightarrow> False)"
  by code_simp

lemma memory_answered_state:
  obtains s r cs tok p where "memory_answered = Some (s, r, cs, tok)" "session_run example_externals s (Some r) cs"
    "length cs = 2" "cl_state (cs ! 0) = ClaimReady p" "cs ! 0 \<in> set cs"
    "is_ok (with_event example_externals (ms_projection s) (candidate (length (ms_events s)) 0 p))"
  using memory_answered_facts memory_answered_run
  by (auto simp: state_run_def split: option.split_asm claim_state.split_asm)

theorem memory_session_replays_witness:
  "case memory_answered of None \<Rightarrow> False
   | Some (s, r, cs, tok) \<Rightarrow>
       (\<exists>q. replay_projection example_externals (ms_events s) (Some (sh_id (ms_header s))) = Inr q
          \<and> erase_attempt q = erase_attempt (ms_projection s))"
proof -
  obtain s r cs tok where st: "memory_answered = Some (s, r, cs, tok)" "session_run example_externals s (Some r) cs"
    using memory_answered_state by metis
  from memory_session_replays[OF st(2)] show ?thesis by (simp add: st(1))
qed

theorem session_books_exact_witness:
  "case memory_answered of None \<Rightarrow> False
   | Some (s, r, cs, tok) \<Rightarrow>
       map ev_seq (ms_events s) = [0..<length (ms_events s)]
       \<and> rn_json_bytes r = sum_list (map cl_json_bytes (filter (\<lambda>c. cl_state c \<noteq> ClaimSettled) cs))"
proof -
  obtain s r cs tok where st: "memory_answered = Some (s, r, cs, tok)" "session_run example_externals s (Some r) cs"
    using memory_answered_state by metis
  from session_books_exact[OF st(2)] show ?thesis by (simp add: st(1))
qed

theorem claim_is_protected_witness:
  "case memory_answered of None \<Rightarrow> False
   | Some (s, r, cs, tok) \<Rightarrow> (\<exists>s' r' rc. settle_exact example_externals s r (cs ! 0) (Some 5)
        = ((s', r', (cs ! 0)\<lparr>cl_state := ClaimSettled\<rparr>), Inr rc))"
proof -
  obtain s r cs tok p where st: "memory_answered = Some (s, r, cs, tok)" "session_run example_externals s (Some r) cs"
    "cl_state (cs ! 0) = ClaimReady p" "cs ! 0 \<in> set cs"
    "is_ok (with_event example_externals (ms_projection s) (candidate (length (ms_events s)) 0 p))"
    by (rule memory_answered_state)
  obtain q where "with_event example_externals (ms_projection s) (candidate (length (ms_events s)) 0 p) = Inr q"
    using st(5) by (auto simp: is_ok_iff)
  from claim_is_protected[OF st(2,4,3) this, of 5] show ?thesis by (auto simp: st(1))
qed

theorem settle_commits_one_witness:
  "case memory_answered of None \<Rightarrow> False
   | Some (s, r, cs, tok) \<Rightarrow> (\<exists>s' r' x. settle example_externals s r (cs ! 0) (plain (StepEnd 1 1)) (Some 5)
        = ((s', r', (cs ! 0)\<lparr>cl_state := ClaimSettled\<rparr>), Inr x) \<and> length (ms_events s') = Suc (length (ms_events s)))"
proof -
  obtain s r cs tok p where st: "memory_answered = Some (s, r, cs, tok)" "session_run example_externals s (Some r) cs"
    "cl_state (cs ! 0) = ClaimReady p" "cs ! 0 \<in> set cs"
    "is_ok (with_event example_externals (ms_projection s) (candidate (length (ms_events s)) 0 p))"
    by (rule memory_answered_state)
  obtain p' where p': "prepare_event example_externals (plain (StepEnd 1 1)) = Inr p'"
    "is_ok (with_event example_externals (ms_projection s) (candidate (length (ms_events s)) 0 p'))"
    using preferred_end_facts[unfolded st(1)] by (cases "prepare_event example_externals (plain (StepEnd 1 1))") (auto simp del: One_nat_def)
  obtain q q' where "with_event example_externals (ms_projection s) (candidate (length (ms_events s)) 0 p) = Inr q"
    "with_event example_externals (ms_projection s) (candidate (length (ms_events s)) 0 p') = Inr q'"
    using st(5) p'(2) by (auto simp: is_ok_iff)
  from settle_commits_one[OF st(2,4,3) this(1) _ p'(1) this(2), of 5] show ?thesis by (auto simp: st(1))
qed

theorem refused_operation_changes_nothing_witness:
  "case memory_answered of None \<Rightarrow> False
   | Some (s, r, cs, tok) \<Rightarrow> refuses_in_place s (reservation_append example_externals s r (plain (TurnStart 1)) (Some 0))
        \<and> refuses_in_place (s, r, cs ! 1) (settle_exact example_externals s r (cs ! 1) (Some 0))"
proof -
  obtain s r cs tok where st: "memory_answered = Some (s, r, cs, tok)" "session_run example_externals s (Some r) cs" "length cs = 2"
    using memory_answered_state by metis
  then have "1 < length cs" by simp
  from refused_operation_changes_nothing[OF st(2) this] show ?thesis by (simp add: st(1))
qed

theorem attempt_closed_once_witness:
  "case memory_sealed of None \<Rightarrow> False
   | Some (s, r, cs, tok) \<Rightarrow> (case tok of None \<Rightarrow> False
       | Some t \<Rightarrow> (\<exists>s' rc. append_attempt_closure example_externals s r t DispCommitted example_answer (Some 0) = (s', Inr rc)
            \<and> \<not> is_ok (retire_attempt s' r t)
            \<and> (\<exists>s''. flush_barrier s' = Inr s'' \<and> retire_attempt s'' r t = Inr (s''\<lparr>ms_active := None\<rparr>))))"
proof -
  obtain s r cs t where sealed: "memory_sealed = Some (s, r, cs, Some t)"
    using memory_sealed_facts by (auto split: option.split_asm)
  obtain s' x where x: "append_attempt_closure example_externals s r t DispCommitted example_answer (Some 0) = (s', x)"
    by (cases "append_attempt_closure example_externals s r t DispCommitted example_answer (Some 0)")
  obtain rc where "x = Inr rc" "ms_barrier_epoch s' = 0"
    using memory_sealed_facts[unfolded sealed] x by (cases x) auto
  note st = sealed x[unfolded this(1)] this(2)
  have "ms_barrier_epoch s' + 1 < U64_LIMIT" using st(3) by (simp add: U64_LIMIT_def)
  note closed = attempt_closed_once[OF st(2) this]
  show ?thesis unfolding sealed using closed st(2) by simp blast
qed

end
