(* ===== verification/Text_Lines.thy ===== *)
theory Text_Lines
  imports Prelude
begin

text \<open>
  Lines of a text: \<open>str::split_inclusive('\n')\<close>, \<open>strip_prefix\<close>, \<open>strip_suffix\<close>, \<open>split\<close> at a byte
  and the two replacements of line endings that the tools use.
\<close>

abbreviation LF :: char where "LF \<equiv> CHR 0x0A"
abbreviation CR :: char where "CR \<equiv> CHR 0x0D"
abbreviation TAB :: char where "TAB \<equiv> CHR 0x09"

fun split_inclusive :: "string \<Rightarrow> string list" where
  "split_inclusive [] = []"
| "split_inclusive (c # s) =
     (if c = LF then [c] # split_inclusive s
      else case split_inclusive s of [] \<Rightarrow> [[c]] | l # ls \<Rightarrow> (c # l) # ls)"

definition ends_with :: "string \<Rightarrow> string \<Rightarrow> bool" where
  "ends_with s p = (length p \<le> length s \<and> drop (length s - length p) s = p)"

definition strip_prefix :: "string \<Rightarrow> string \<Rightarrow> string option" where
  "strip_prefix p s = (if starts_with s p then Some (drop (length p) s) else None)"

definition strip_suffix :: "string \<Rightarrow> string \<Rightarrow> string option" where
  "strip_suffix p s = (if ends_with s p then Some (take (length s - length p) s) else None)"

text \<open>\<open>str::split(c)\<close>: the parts between the separators, at least one.\<close>

fun split_at :: "char \<Rightarrow> string \<Rightarrow> string list" where
  "split_at c [] = [[]]"
| "split_at c (d # s) =
     (if d = c then [] # split_at c s
      else case split_at c s of [] \<Rightarrow> [[d]] | p # ps \<Rightarrow> (d # p) # ps)"

text \<open>\<open>str::replace("\r\n", to)\<close> and \<open>str::replace('\n', "\r\n")\<close>.\<close>

fun replace_crlf :: "string \<Rightarrow> string \<Rightarrow> string" where
  "replace_crlf r (c # d # s) =
     (if c = CR \<and> d = LF then r @ replace_crlf r s else c # replace_crlf r (d # s))"
| "replace_crlf r s = s"

fun contains_crlf :: "string \<Rightarrow> bool" where
  "contains_crlf (c # d # s) = (c = CR \<and> d = LF \<or> contains_crlf (d # s))"
| "contains_crlf s = False"

definition lf_to_crlf :: "string \<Rightarrow> string" where
  "lf_to_crlf s = concat (map (\<lambda>c. if c = LF then [CR, LF] else [c]) s)"

text \<open>A control character other than a newline or a tab.\<close>

fun has_unsafe_control :: "string \<Rightarrow> bool" where
  "has_unsafe_control [] = False"
| "has_unsafe_control (c # cs) =
     ((of_char c < (32::nat) \<and> c \<noteq> LF \<and> c \<noteq> TAB) \<or> of_char c = (127::nat)
      \<or> (of_char c = (194::nat) \<and> (case cs of [] \<Rightarrow> False | d # _ \<Rightarrow> 128 \<le> (of_char d :: nat) \<and> of_char d < (160::nat)))
      \<or> has_unsafe_control cs)"

section \<open>Facts\<close>

lemma concat_split_inclusive [simp]: "concat (split_inclusive s) = s"
  by (induction s) (auto split: list.splits)

lemma split_inclusive_eq_Nil [simp]: "split_inclusive s = [] \<longleftrightarrow> s = []"
  by (cases s) (auto split: list.splits)

text \<open>A line has its newline at its end, and only the last line may lack one.\<close>

definition is_line :: "string \<Rightarrow> bool" where
  "is_line l = (l \<noteq> [] \<and> LF \<notin> set (butlast l))"

definition ends_line :: "string \<Rightarrow> bool" where
  "ends_line l = (l \<noteq> [] \<and> last l = LF)"

lemma split_inclusive_lines:
  "\<forall>l\<in>set (split_inclusive s). is_line l"
  "\<forall>l\<in>set (butlast (split_inclusive s)). ends_line l"
  by (induction s) (auto simp: is_line_def ends_line_def split: list.splits if_splits)

lemma split_inclusive_line_append:
  "ends_line l \<Longrightarrow> is_line l \<Longrightarrow> split_inclusive (l @ s) = l # split_inclusive s"
proof (induction l)
  case (Cons c l)
  show ?case
  proof (cases "l = []")
    case True
    then show ?thesis using Cons.prems by (simp add: ends_line_def)
  next
    case False
    then show ?thesis using Cons by (auto simp: ends_line_def is_line_def split: if_splits)
  qed
qed (simp add: is_line_def)

lemma split_inclusive_single: "is_line l \<Longrightarrow> split_inclusive l = [l]"
proof (induction l)
  case (Cons c l)
  then show ?case by (cases "l = []") (auto simp: is_line_def)
qed (simp add: is_line_def)

text \<open>Joining lines and splitting them again.\<close>

lemma split_inclusive_concat:
  assumes "\<forall>l\<in>set ls. is_line l" "\<forall>l\<in>set (butlast ls). ends_line l"
  shows "split_inclusive (concat ls) = ls"
  using assms
proof (induction ls)
  case (Cons l ls)
  then show ?case
    by (cases "ls = []") (auto simp: split_inclusive_single split_inclusive_line_append)
qed simp

text \<open>Line endings are all of one kind, so a normalized text is restored exactly.\<close>

lemma lf_to_crlf_simps [simp]:
  "lf_to_crlf [] = []" "lf_to_crlf (c # s) = (if c = LF then [CR, LF] else [c]) @ lf_to_crlf s"
  "lf_to_crlf (s @ t) = lf_to_crlf s @ lf_to_crlf t"
  by (simp_all add: lf_to_crlf_def)

lemma crlf_restored:
  "LF \<notin> set (replace_crlf [] s) \<Longrightarrow> CR \<notin> set (replace_crlf [] s) \<Longrightarrow> lf_to_crlf (replace_crlf [LF] s) = s"
proof (induction "[] :: string" s rule: replace_crlf.induct)
  case (1 c d s)
  then show ?case by (cases "c = CR \<and> d = LF") auto
qed auto

lemma no_crlf: "\<not> contains_crlf s \<Longrightarrow> replace_crlf r s = s"
  by (induction s rule: contains_crlf.induct) auto

end
