(* ===== verification/Approval_Prompt.thy ===== *)
theory Approval_Prompt
  imports Text_Lines
begin

text \<open>
  The question an approval shows (\<open>src/agent/approval.rs\<close>): its size limits and the checks on the
  presentation of a canonical patch, whose rows carry their own kinds.
\<close>

definition MAX_APPROVAL_PREVIEW_BYTES :: nat where
  "MAX_APPROVAL_PREVIEW_BYTES = 64 * 1024"

definition MAX_APPROVAL_REASON_BYTES :: nat where
  "MAX_APPROVAL_REASON_BYTES = 4 * 1024"

definition MAX_APPROVAL_PATCH_PATH_BYTES :: nat where
  "MAX_APPROVAL_PATCH_PATH_BYTES = 4 * 1024"

datatype patch_operation = PatchCreate | PatchUpdate

datatype diff_row_kind = FileHeaderRow | HunkRow | ContextRow | AdditionRow | RemovalRow | NoNewlineRow

record canonical_patch_approval =
  cp_operation :: patch_operation
  cp_path :: string
  cp_rows :: "diff_row_kind list"
  cp_additions :: nat
  cp_removals :: nat
  cp_hunks :: nat

datatype preview_kind = OpaquePreview | CanonicalPatchPreview canonical_patch_approval

record approval_prompt =
  ap_reason :: "string option"
  ap_preview :: string
  ap_kind :: preview_kind

datatype prompt_error =
    InvalidPreview nat nat
  | InvalidReason nat nat
  | InvalidReasonCharacters
  | InvalidCanonicalPatch

definition validate_prompt :: "string option \<Rightarrow> string \<Rightarrow> prompt_error + unit" where
  "validate_prompt reason preview =
     (if preview = '''' \<or> length preview > MAX_APPROVAL_PREVIEW_BYTES
      then Inl (InvalidPreview MAX_APPROVAL_PREVIEW_BYTES (length preview))
      else case reason of
        None \<Rightarrow> Inr ()
      | Some v \<Rightarrow>
          if length v > MAX_APPROVAL_REASON_BYTES then Inl (InvalidReason MAX_APPROVAL_REASON_BYTES (length v))
          else if has_unsafe_control v then Inl InvalidReasonCharacters
          else Inr ())"

definition prompt_new :: "string option \<Rightarrow> string \<Rightarrow> prompt_error + approval_prompt" where
  "prompt_new reason preview =
     bindR (validate_prompt reason preview) (\<lambda>_.
       Inr \<lparr>ap_reason = reason, ap_preview = preview, ap_kind = OpaquePreview\<rparr>)"

definition count_rows :: "diff_row_kind \<Rightarrow> diff_row_kind list \<Rightarrow> nat" where
  "count_rows k rows = length (filter (\<lambda>r. r = k) rows)"

definition headers_match :: "patch_operation \<Rightarrow> string \<Rightarrow> string \<Rightarrow> bool" where
  "headers_match op path preview =
     (case split_inclusive preview of
        original # modified # _ \<Rightarrow>
          (case op of
             PatchCreate \<Rightarrow> original = ''--- /dev/null'' @ [LF]
           | PatchUpdate \<Rightarrow> Option.bind (strip_prefix ''--- a/'' original) (strip_suffix [LF]) = Some path)
          \<and> Option.bind (strip_prefix ''+++ b/'' modified) (strip_suffix [LF]) = Some path
      | _ \<Rightarrow> False)"

definition canonical_patch ::
  "string option \<Rightarrow> string \<Rightarrow> patch_operation \<Rightarrow> string \<Rightarrow> diff_row_kind list \<Rightarrow> nat \<Rightarrow> nat \<Rightarrow> nat
     \<Rightarrow> prompt_error + approval_prompt" where
  "canonical_patch reason preview op path rows additions removals hunks =
     bindR (validate_prompt reason preview) (\<lambda>_.
       if path = '''' \<or> length path > MAX_APPROVAL_PATCH_PATH_BYTES \<or> has_control path
          \<or> \<not> ends_with preview [LF] \<or> length (filter (\<lambda>c. c = LF) preview) \<noteq> length rows
          \<or> length rows < 3 \<or> rows ! 0 \<noteq> FileHeaderRow \<or> rows ! 1 \<noteq> FileHeaderRow
          \<or> FileHeaderRow \<in> set (drop 2 rows) \<or> \<not> headers_match op path preview
          \<or> additions \<noteq> count_rows AdditionRow rows \<or> removals \<noteq> count_rows RemovalRow rows
          \<or> hunks = 0 \<or> hunks \<noteq> count_rows HunkRow rows
       then Inl InvalidCanonicalPatch
       else Inr \<lparr>ap_reason = reason, ap_preview = preview,
                 ap_kind = CanonicalPatchPreview \<lparr>cp_operation = op, cp_path = path, cp_rows = rows,
                   cp_additions = additions, cp_removals = removals, cp_hunks = hunks\<rparr>\<rparr>)"

record approval_request =
  aq_id :: string
  aq_tool_name :: string
  aq_call_id :: string
  aq_reason :: "string option"
  aq_preview :: string
  aq_kind :: preview_kind

definition approval_request_new :: "string \<Rightarrow> string \<Rightarrow> string \<Rightarrow> approval_prompt \<Rightarrow> approval_request" where
  "approval_request_new i tool_name call_id p =
     \<lparr>aq_id = i, aq_tool_name = tool_name, aq_call_id = call_id, aq_reason = ap_reason p,
      aq_preview = ap_preview p, aq_kind = ap_kind p\<rparr>"

end
