(* ===== verification/Tool_Results.thy ===== *)
theory Tool_Results
  imports Event_Codec
begin

text \<open>
  The seam between the agent and its tools: \<open>src/tools/error.rs\<close> and the checks of
  \<open>src/agent/tool.rs\<close> on the result of a call, of a sealed action and of a file mutation.
  Error texts of the executor are dropped by the code itself; failures told to the model keep theirs.
\<close>

section \<open>Failures\<close>

datatype tool_call_error =
    ToolModelError string string string
  | ToolInfrastructure

datatype executor_error = ToolExecutorError

definition has_code :: "tool_call_error \<Rightarrow> string \<Rightarrow> bool" where
  "has_code e expected = (case e of ToolModelError _ code _ \<Rightarrow> code = expected | ToolInfrastructure \<Rightarrow> False)"

definition invalid_args :: "string \<Rightarrow> tool_call_error" where
  "invalid_args message = ToolModelError ''ToolArgsError'' ''INVALID_ARGS'' message"

definition workspace_denied :: tool_call_error where
  "workspace_denied = ToolModelError ''FsError'' ''WORKSPACE_PATH_DENIED''
     ''the requested path is outside the workspace or crosses an unsafe symbolic link''"

definition search_limit :: "string \<Rightarrow> tool_call_error" where
  "search_limit message = ToolModelError ''SearchError'' ''SEARCH_LIMIT_EXCEEDED'' message"

definition output_limit :: tool_call_error where
  "output_limit = ToolModelError ''ToolOutputError'' ''TOOL_OUTPUT_LIMIT''
     ''the normalized tool output exceeds the configured limit''"

definition aborted :: tool_call_error where
  "aborted = ToolModelError ''AbortError'' ''ABORTED'' ''tool execution was cancelled''"

definition into_model_parts :: "tool_call_error \<Rightarrow> executor_error + string \<times> string \<times> string" where
  "into_model_parts e =
     (case e of ToolModelError name code message \<Rightarrow> Inr (name, code, message) | ToolInfrastructure \<Rightarrow> Inl ToolExecutorError)"

section \<open>Results\<close>

definition MAX_DIRECTORY_DEPTH :: nat where
  "MAX_DIRECTORY_DEPTH = 64"

definition MAX_AGENT_TOOL_RESULT_BYTES :: nat where
  "MAX_AGENT_TOOL_RESULT_BYTES = 256 * 1024"

definition MAX_AGENT_ACTION_RESULT_EVENT_BYTES :: nat where
  "MAX_AGENT_ACTION_RESULT_EVENT_BYTES = 128 * 1024"

definition MAX_AGENT_COMMITTED_TOOL_RESULT_EVENT_BYTES :: nat where
  "MAX_AGENT_COMMITTED_TOOL_RESULT_EVENT_BYTES = 512 * 1024"

record tool_execution_result =
  tr_content :: "content_block list"
  tr_is_error :: bool
  tr_error :: "tool_failure option"
  tr_meta :: "json_value option"
  tr_concludes_turn :: bool

text \<open>The bytes a result keeps; on overflow the largest \<open>usize\<close>.\<close>

definition result_retained_bytes ::
  "content_block list \<Rightarrow> json_value option \<Rightarrow> tool_failure option \<Rightarrow> nat" where
  "result_retained_bytes content meta error =
     (case Option.bind (sum_u64 (map (\<lambda>b. jv_encoded_len (cb_raw b)) content)) (\<lambda>total.
           Option.bind (case meta of None \<Rightarrow> Some total | Some m \<Rightarrow> checked_add_u64 total (jv_encoded_len m)) (\<lambda>total.
             case error of
               None \<Rightarrow> Some total
             | Some f \<Rightarrow> Option.bind (checked_add_u64 total (length (tf_name f))) (\<lambda>t. checked_add_u64 t (length (tf_code f)))))
      of None \<Rightarrow> U64_LIMIT - 1 | Some n \<Rightarrow> n)"

definition result_new ::
  "content_block list \<Rightarrow> bool \<Rightarrow> tool_failure option \<Rightarrow> json_value option \<Rightarrow> bool
     \<Rightarrow> model_error + tool_execution_result" where
  "result_new content is_error error meta concludes =
     (if is_error \<noteq> (error \<noteq> None) \<or> (is_error \<and> concludes) then Inl (InvalidShape ''tool execution result'')
      else if length content > MAX_MESSAGE_CONTENT_BLOCKS
      then Inl (TooManyContentBlocks MAX_MESSAGE_CONTENT_BLOCKS (length content))
      else if (case error of None \<Rightarrow> False
               | Some f \<Rightarrow> tf_name f = '''' \<or> tf_code f = '''' \<or> length (tf_name f) > 256 \<or> length (tf_code f) > 256)
      then Inl (InvalidShape ''tool execution result'')
      else if result_retained_bytes content meta error > MAX_AGENT_TOOL_RESULT_BYTES
      then Inl (InvalidShape ''tool execution result'')
      else Inr \<lparr>tr_content = content, tr_is_error = is_error, tr_error = error, tr_meta = meta,
                tr_concludes_turn = concludes\<rparr>)"

abbreviation executor :: "'e + 'a \<Rightarrow> executor_error + 'a" where
  "executor \<equiv> map_err (\<lambda>_. ToolExecutorError)"

definition into_execution_result :: "externals \<Rightarrow> tool_call_error \<Rightarrow> executor_error + tool_execution_result" where
  "into_execution_result E e =
     bindR (into_model_parts e) (\<lambda>(name, code, message).
     bindR (executor (block_text E (''Error: '' @ message))) (\<lambda>content.
       executor (result_new [content] True (Some \<lparr>tf_name = name, tf_code = code\<rparr>) None False)))"

section \<open>Foreground actions\<close>

datatype action_contract = ShellContract | PluginContract string

datatype claim_kind = StandardClaim | ShellActionClaim | PluginActionClaim string

definition plugin_contract :: "string \<Rightarrow> executor_error + action_contract" where
  "plugin_contract i =
     (if (case i of [] \<Rightarrow> True | c # _ \<Rightarrow> \<not> (97 \<le> (of_char c :: nat) \<and> of_char c \<le> (122 :: nat)))
         \<or> length i > 32
         \<or> \<not> list_all (\<lambda>c. (97 \<le> (of_char c :: nat) \<and> of_char c \<le> (122 :: nat))
              \<or> (48 \<le> (of_char c :: nat) \<and> of_char c \<le> (57 :: nat)) \<or> c = CHR ''-'') (tl i)
      then Inl ToolExecutorError else Inr (PluginContract i))"

definition plugin_action :: "string \<Rightarrow> executor_error + claim_kind" where
  "plugin_action i =
     bindR (plugin_contract i) (\<lambda>c. case c of PluginContract i \<Rightarrow> Inr (PluginActionClaim i) | ShellContract \<Rightarrow> Inl ToolExecutorError)"

definition action_contract_of :: "claim_kind \<Rightarrow> action_contract option" where
  "action_contract_of k =
     (case k of StandardClaim \<Rightarrow> None | ShellActionClaim \<Rightarrow> Some ShellContract | PluginActionClaim i \<Rightarrow> Some (PluginContract i))"

definition matches_profile :: "action_contract \<Rightarrow> claim_kind \<Rightarrow> bool" where
  "matches_profile c k =
     (case (c, k) of
        (ShellContract, ShellActionClaim) \<Rightarrow> True
      | (PluginContract expected, PluginActionClaim actual) \<Rightarrow> expected = actual
      | _ \<Rightarrow> False)"

definition LIFECYCLE_FLAGS :: "string list" where
  "LIFECYCLE_FLAGS =
     [''timedOut'', ''aborted'', ''outputLimitExceeded'', ''pipeSetupFailed'', ''pipeReadFailed'',
      ''signalDeliveryFailed'', ''pipeDrainTimedOut'', ''stdoutTruncated'', ''stderrTruncated'']"

definition PLUGIN_KEYS :: "string list" where
  "PLUGIN_KEYS = [''kind'', ''pluginId'', ''dispatched'', ''peerSettled'', ''quiescent'']"

definition TOOL_OUTCOME_UNKNOWN_CODE :: string where
  "TOOL_OUTCOME_UNKNOWN_CODE = ''TOOL_OUTCOME_UNKNOWN''"

definition get_bool :: "fields \<Rightarrow> string \<Rightarrow> bool option" where
  "get_bool m k = Option.bind (map_of m k) as_bool"

text \<open>\<open>as_i64\<close> and \<open>as_u64\<close> of an admitted number.\<close>

fun as_i64 :: "json \<Rightarrow> int option" where
  "as_i64 (JInt i) = (if - I64_MAX - 1 \<le> i \<and> i \<le> I64_MAX then Some i else None)"
| "as_i64 _ = None"

fun as_u64 :: "json \<Rightarrow> nat option" where
  "as_u64 (JInt i) = (if 0 \<le> i \<and> nat i < U64_LIMIT then Some (nat i) else None)"
| "as_u64 _ = None"

definition validate_plugin_action_result ::
  "tool_execution_result \<Rightarrow> fields \<Rightarrow> string \<Rightarrow> bool \<Rightarrow> executor_error + unit" where
  "validate_plugin_action_result r m plugin_id expected_dispatched =
     (if length m \<noteq> length PLUGIN_KEYS \<or> list_ex (\<lambda>k. map_of m k = None) PLUGIN_KEYS
         \<or> get_str m ''kind'' \<noteq> Some ''plugin'' \<or> get_str m ''pluginId'' \<noteq> Some plugin_id
         \<or> get_bool m ''dispatched'' \<noteq> Some expected_dispatched \<or> get_bool m ''peerSettled'' = None
         \<or> get_bool m ''quiescent'' \<noteq> Some True
      then Inl ToolExecutorError
      else
        let peer_settled = (map_of m ''peerSettled'' = Some (JBool True)) in
        if \<not> expected_dispatched \<and> peer_settled then Inl ToolExecutorError
        else if expected_dispatched \<and> \<not> peer_settled
             \<and> \<not> (tr_is_error r \<and> (case tr_error r of None \<Rightarrow> False | Some f \<Rightarrow> tf_code f = TOOL_OUTCOME_UNKNOWN_CODE))
        then Inl ToolExecutorError
        else Inr ())"

definition validate_action_result ::
  "tool_execution_result \<Rightarrow> action_contract \<Rightarrow> bool \<Rightarrow> bool \<Rightarrow> executor_error + unit" where
  "validate_action_result r contract expected_started require_error =
     bindR (ok_or ToolExecutorError (Option.bind (tr_meta r) (\<lambda>m. as_object (jv_value m)))) (\<lambda>m.
       if require_error \<and> \<not> tr_is_error r then Inl ToolExecutorError
       else if map_of m ''committed'' \<noteq> None then Inl ToolExecutorError
       else case contract of
         PluginContract plugin_id \<Rightarrow> validate_plugin_action_result r m plugin_id expected_started
       | ShellContract \<Rightarrow>
           if get_bool m ''started'' \<noteq> Some expected_started \<or> get_str m ''kind'' \<noteq> Some ''foreground''
           then Inl ToolExecutorError
           else if \<not> expected_started then
             (if map_of m ''exitCode'' \<noteq> Some JNull \<or> map_of m ''signal'' \<noteq> Some JNull
              then Inl ToolExecutorError else Inr ())
           else
             let exited = (Option.bind (map_of m ''exitCode'') as_i64 \<noteq> None \<and> map_of m ''signal'' = Some JNull);
                 signalled = (map_of m ''exitCode'' = Some JNull
                   \<and> (case get_str m ''signal'' of None \<Rightarrow> False | Some s \<Rightarrow> s \<noteq> ''''))
             in if exited = signalled then Inl ToolExecutorError
                else if list_ex (\<lambda>k. get_bool m k = None) LIFECYCLE_FLAGS
                     \<or> Option.bind (map_of m ''timeoutMs'') as_u64 = None \<or> get_str m ''workdir'' = None
                then Inl ToolExecutorError
                else Inr ())"

definition validate_action_not_started_result ::
  "tool_execution_result \<Rightarrow> action_contract \<Rightarrow> executor_error + unit" where
  "validate_action_not_started_result r contract = validate_action_result r contract False True"

definition validate_action_started_result ::
  "tool_execution_result \<Rightarrow> action_contract \<Rightarrow> executor_error + unit" where
  "validate_action_started_result r contract = validate_action_result r contract True False"

section \<open>Mutations\<close>

datatype mutation_decline_reason =
    PolicyDenied | ApprovalRejected | ApprovalCancelled | ApprovalUnavailable
  | AbortedBeforeDispatch | MutationAborted | OutputBudgetExceeded

datatype commit_disposition = NotCommitted | Committed

record commit_outcome =
  co_disposition :: commit_disposition
  co_result :: tool_execution_result

definition committed_marker :: "tool_execution_result \<Rightarrow> bool option" where
  "committed_marker r =
     Option.bind (tr_meta r) (\<lambda>m. Option.bind (as_object (jv_value m)) (\<lambda>fs. get_bool fs ''committed''))"

definition outcome_committed :: "tool_execution_result \<Rightarrow> executor_error + commit_outcome" where
  "outcome_committed r =
     (if committed_marker r \<noteq> Some True then Inl ToolExecutorError
      else Inr \<lparr>co_disposition = Committed, co_result = r\<rparr>)"

definition outcome_not_committed :: "tool_execution_result \<Rightarrow> executor_error + commit_outcome" where
  "outcome_not_committed r =
     (if \<not> tr_is_error r \<or> committed_marker r \<noteq> Some False then Inl ToolExecutorError
      else Inr \<lparr>co_disposition = NotCommitted, co_result = r\<rparr>)"

definition checked_decline :: "executor_error + tool_execution_result \<Rightarrow> executor_error + tool_execution_result" where
  "checked_decline x =
     bindR x (\<lambda>r. if \<not> tr_is_error r \<or> committed_marker r \<noteq> Some False then Inl ToolExecutorError else Inr r)"

end
