(* ===== verification/Patch_Tool.thy ===== *)
theory Patch_Tool
  imports Approval_Prompt Tool_Results
begin

text \<open>
  The patch tool (\<open>src/tools/patch.rs\<close>): the checks on the text of a patch, its strict application to
  a file and the canonical diff shown for approval.  The parser and printer of the \<open>diffy\<close> crate are
  parameters; what they return is a list of hunks.  A cancellation token is the function that tells
  whether its n-th poll finds it cancelled.
\<close>

section \<open>Limits\<close>

definition MAX_PATCH_BYTES :: nat where "MAX_PATCH_BYTES = 256 * 1024"
definition MAX_PATCH_HUNKS :: nat where "MAX_PATCH_HUNKS = 1024"
definition MAX_PATCH_LINES :: nat where "MAX_PATCH_LINES = 100000"
definition MAX_PATCH_LINE_BYTES :: nat where "MAX_PATCH_LINE_BYTES = 64 * 1024"
definition MAX_MUTATION_FILE_BYTES :: nat where "MAX_MUTATION_FILE_BYTES = 16 * 1024 * 1024"
definition MAX_MUTATION_FILE_LINES :: nat where "MAX_MUTATION_FILE_LINES = 100000"
definition MAX_MUTATION_FILE_LINE_BYTES :: nat where "MAX_MUTATION_FILE_LINE_BYTES = 1024 * 1024"
definition MAX_CANONICAL_DIFF_JSON_BYTES :: nat where "MAX_CANONICAL_DIFF_JSON_BYTES = 64 * 1024"
definition MAX_MUTATION_RESULT_EVENT_BYTES :: nat where "MAX_MUTATION_RESULT_EVENT_BYTES = 128 * 1024"

definition patch_error :: "string \<Rightarrow> string \<Rightarrow> tool_call_error" where
  "patch_error code message = ToolModelError ''PatchError'' code message"

definition invalid_patch :: "string \<Rightarrow> tool_call_error" where
  "invalid_patch message = patch_error ''INVALID_PATCH'' message"

section \<open>Hunks\<close>

datatype diff_line = ContextLine string | DeleteLine string | InsertLine string

record hunk_range =
  hr_start :: nat
  hr_len :: nat

record hunk =
  hk_old :: hunk_range
  hk_new :: hunk_range
  hk_lines :: "diff_line list"

record diffy =
  df_parse :: "string \<Rightarrow> hunk list option"
  df_print :: "hunk list \<Rightarrow> string"
  df_range :: "hunk_range \<Rightarrow> string"

record parsed_patch =
  pp_operation :: patch_operation
  pp_path :: string
  pp_hunks :: "hunk list"

section \<open>Reading a patch\<close>

definition parse_arguments :: "json \<Rightarrow> tool_call_error + string" where
  "parse_arguments v =
     (case as_object v of
        None \<Rightarrow> Inl (invalid_args ''apply_patch arguments must be one closed object'')
      | Some m \<Rightarrow>
          if length m \<noteq> 1 then Inl (invalid_args ''apply_patch accepts only the required patch field'')
          else case get_str m ''patch'' of
            None \<Rightarrow> Inl (invalid_args ''apply_patch.patch must be a non-null string'')
          | Some p \<Rightarrow>
              if p = '''' \<or> length p > MAX_PATCH_BYTES
              then Inl (patch_error ''PATCH_TOO_LARGE''
                     (''patch input must contain 1 to '' @ digits MAX_PATCH_BYTES @ '' UTF-8 bytes''))
              else Inr p)"

definition NO_NEWLINE_MARKER :: string where
  "NO_NEWLINE_MARKER = CHR 0x5C # '' No newline at end of file'' @ [LF]"

record marker_scan =
  mk_in_hunk :: bool
  mk_old_at_eof :: bool
  mk_new_at_eof :: bool
  mk_previous :: "(bool \<times> bool) option"

definition consumed_sides :: "string \<Rightarrow> (bool \<times> bool) option" where
  "consumed_sides line =
     (if line = [LF] \<or> starts_with line '' '' then Some (True, True)
      else if starts_with line ''-'' then Some (True, False)
      else if starts_with line ''+'' then Some (False, True)
      else None)"

definition marker_step :: "marker_scan \<Rightarrow> string \<Rightarrow> tool_call_error + marker_scan" where
  "marker_step s line =
     (if starts_with line ''@@ '' then
        if mk_old_at_eof s \<or> mk_new_at_eof s
        then Inl (invalid_patch ''a no-newline marker must describe the final hunk'')
        else Inr (s\<lparr>mk_in_hunk := True, mk_previous := None\<rparr>)
      else if line = NO_NEWLINE_MARKER then
        (case mk_previous s of
           None \<Rightarrow> Inl (invalid_patch ''a no-newline marker must follow one hunk content line'')
         | Some (marks_old, marks_new) \<Rightarrow>
             Inr (s\<lparr>mk_old_at_eof := mk_old_at_eof s \<or> marks_old, mk_new_at_eof := mk_new_at_eof s \<or> marks_new,
                    mk_previous := None\<rparr>))
      else if \<not> mk_in_hunk s then Inl (invalid_patch ''patch content must be inside one hunk'')
      else case consumed_sides line of
        None \<Rightarrow> Inl (invalid_patch ''patch contains an invalid hunk line'')
      | Some (old, new) \<Rightarrow>
          if (old \<and> mk_old_at_eof s) \<or> (new \<and> mk_new_at_eof s)
          then Inl (invalid_patch ''patch content cannot follow a no-newline end-of-file marker'')
          else Inr (s\<lparr>mk_previous := Some (old, new)\<rparr>))"

definition validate_no_newline_markers :: "string list \<Rightarrow> tool_call_error + unit" where
  "validate_no_newline_markers ls =
     bindR (try_fold marker_step
              \<lparr>mk_in_hunk = False, mk_old_at_eof = False, mk_new_at_eof = False, mk_previous = None\<rparr> (drop 2 ls))
       (\<lambda>_. Inr ())"

text \<open>The last three conditions of the code ask again for a relative path of normal components.\<close>

definition strict_header_path :: "string \<Rightarrow> string \<Rightarrow> tool_call_error + string" where
  "strict_header_path line prefix =
     bindR (ok_or (patch_error ''UNSUPPORTED_PATCH'' ''file headers must use the exact a/ and b/ path form'')
              (Option.bind (strip_prefix prefix line) (strip_suffix [LF]))) (\<lambda>path.
       if path = '''' \<or> length path > 4096 \<or> has_control path \<or> CHR 0x5C \<in> set path
          \<or> length (split_at CHR ''/'' path) > MAX_DIRECTORY_DEPTH
          \<or> list_ex (\<lambda>c. c = '''' \<or> c = ''.'' \<or> c = ''..'') (split_at CHR ''/'' path)
          \<or> starts_with path ''/''
       then Inl workspace_denied else Inr path)"

definition header_line :: "diffy \<Rightarrow> hunk \<Rightarrow> string" where
  "header_line D h = ''@@ -'' @ df_range D (hk_old h) @ '' +'' @ df_range D (hk_new h) @ '' @@'' @ [LF]"

definition parse_headers :: "string \<Rightarrow> string \<Rightarrow> tool_call_error + patch_operation \<times> string" where
  "parse_headers original modified =
     (if original = ''--- /dev/null'' @ [LF]
      then bindR (strict_header_path modified ''+++ b/'') (\<lambda>path. Inr (PatchCreate, path))
      else
        bindR (strict_header_path original ''--- a/'') (\<lambda>original_path.
        bindR (strict_header_path modified ''+++ b/'') (\<lambda>modified_path.
          if original_path \<noteq> modified_path
          then Inl (patch_error ''UNSUPPORTED_PATCH'' ''rename, copy, and multi-path patches are unsupported'')
          else Inr (PatchUpdate, original_path))))"

definition parse_patch :: "diffy \<Rightarrow> string \<Rightarrow> tool_call_error + parsed_patch" where
  "parse_patch D input =
     (if \<not> ends_with input [LF] \<or> has_unsafe_control input
      then Inl (invalid_patch ''patch must use safe LF text, end with one newline, and contain no unsafe controls'')
      else
        let ls = split_inclusive input; hunk_headers = filter (\<lambda>l. starts_with l ''@@ '') ls in
        if length ls > MAX_PATCH_LINES \<or> list_ex (\<lambda>l. length l > MAX_PATCH_LINE_BYTES) ls
        then Inl (patch_error ''PATCH_TOO_LARGE'' ''patch line count or line length exceeds the configured limit'')
        else if length hunk_headers > MAX_PATCH_HUNKS
        then Inl (patch_error ''PATCH_TOO_LARGE'' ''patch contains too many hunks'')
        else
          bindR (validate_no_newline_markers ls) (\<lambda>_.
          case ls of
            [] \<Rightarrow> Inl (invalid_patch ''patch has no file header'')
          | [_] \<Rightarrow> Inl (invalid_patch ''patch has an incomplete file header'')
          | original # modified # _ \<Rightarrow>
              bindR (parse_headers original modified) (\<lambda>(operation, path).
              bindR (ok_or (invalid_patch ''patch syntax is invalid'') (df_parse D input)) (\<lambda>hunks.
                if hunks = [] then Inl (invalid_patch ''patch must contain at least one hunk'')
                else if length hunks > MAX_PATCH_HUNKS
                then Inl (patch_error ''PATCH_TOO_LARGE'' ''patch contains too many hunks'')
                else if hunk_headers \<noteq> map (header_line D) hunks \<or> df_print D hunks \<noteq> input
                then Inl (invalid_patch ''patch contains unsupported headers, function context, or trailing data'')
                else Inr \<lparr>pp_operation = operation, pp_path = path, pp_hunks = hunks\<rparr>))))"

section \<open>Strict application\<close>

text \<open>A poll of the cancellation token.\<close>

definition poll :: "(nat \<Rightarrow> bool) \<Rightarrow> nat \<Rightarrow> tool_call_error + nat" where
  "poll cancelled n = (if cancelled n then Inl aborted else Inr (Suc n))"

definition range_index :: "hunk_range \<Rightarrow> nat option" where
  "range_index r = (if hr_len r = 0 then Some (hr_start r) else checked_sub_u64 (hr_start r) 1)"

record candidate =
  cd_output :: string
  cd_at_eof :: bool

definition push_candidate :: "candidate \<Rightarrow> string \<Rightarrow> tool_call_error + candidate" where
  "push_candidate c v =
     (if cd_at_eof c then Inl (invalid_patch ''patch content cannot follow a no-newline end-of-file line'')
      else if length v > MAX_MUTATION_FILE_LINE_BYTES
           \<or> (case checked_add_u64 (length (cd_output c)) (length v) of
                None \<Rightarrow> True | Some n \<Rightarrow> n > MAX_MUTATION_FILE_BYTES)
      then Inl (patch_error ''PATCH_TOO_LARGE'' ''the patched file exceeds the configured size or line limit'')
      else Inr \<lparr>cd_output = cd_output c @ v, cd_at_eof = \<not> ends_with v [LF]\<rparr>)"

record strict_state =
  st_candidate :: candidate
  st_new :: nat
  st_polls :: nat

text \<open>A line of the file that no hunk touches.\<close>

definition copy_line :: "(nat \<Rightarrow> bool) \<Rightarrow> strict_state \<Rightarrow> string \<Rightarrow> tool_call_error + strict_state" where
  "copy_line cancelled s l =
     bindR (poll cancelled (st_polls s)) (\<lambda>n.
     bindR (push_candidate (st_candidate s) l) (\<lambda>c.
     bindR (ok_or (invalid_patch ''line count overflow'') (checked_add_u64 (st_new s) 1)) (\<lambda>m.
       Inr \<lparr>st_candidate = c, st_new = m, st_polls = n\<rparr>)))"

definition line_at :: "string list \<Rightarrow> nat \<Rightarrow> string option" where
  "line_at ls i = (if i < length ls then Some (ls ! i) else None)"

definition apply_line ::
  "(nat \<Rightarrow> bool) \<Rightarrow> string list \<Rightarrow> nat \<times> strict_state \<Rightarrow> diff_line \<Rightarrow> tool_call_error + nat \<times> strict_state" where
  "apply_line cancelled original = (\<lambda>(source, s) line.
     bindR (poll cancelled (st_polls s)) (\<lambda>n.
       case line of
         ContextLine v \<Rightarrow>
           if line_at original source \<noteq> Some v then Inl (invalid_patch ''patch context does not match the target'')
           else bindR (push_candidate (st_candidate s) v) (\<lambda>c.
             Inr (source + 1, \<lparr>st_candidate = c, st_new = st_new s + 1, st_polls = n\<rparr>))
       | DeleteLine v \<Rightarrow>
           if line_at original source \<noteq> Some v then Inl (invalid_patch ''patch deletion does not match the target'')
           else Inr (source + 1, s\<lparr>st_polls := n\<rparr>)
       | InsertLine v \<Rightarrow>
           bindR (push_candidate (st_candidate s) v) (\<lambda>c.
             Inr (source, \<lparr>st_candidate = c, st_new = st_new s + 1, st_polls = n\<rparr>))))"

definition apply_hunk ::
  "(nat \<Rightarrow> bool) \<Rightarrow> string list \<Rightarrow> nat \<times> strict_state \<Rightarrow> hunk \<Rightarrow> tool_call_error + nat \<times> strict_state" where
  "apply_hunk cancelled original = (\<lambda>(old_cursor, s) h.
     bindR (poll cancelled (st_polls s)) (\<lambda>n.
     bindR (ok_or (invalid_patch ''invalid old hunk range'') (range_index (hk_old h))) (\<lambda>old_index.
     bindR (ok_or (invalid_patch ''invalid new hunk range'') (range_index (hk_new h))) (\<lambda>new_index.
       if old_index < old_cursor \<or> old_index > length original
       then Inl (invalid_patch ''hunk old range is outside the target'')
       else
         bindR (try_fold (copy_line cancelled) (s\<lparr>st_polls := n\<rparr>)
                  (take (old_index - old_cursor) (drop old_cursor original))) (\<lambda>s.
           if new_index \<noteq> st_new s
           then Inl (invalid_patch ''hunk new range does not match its declared position'')
           else
             bindR (try_fold (apply_line cancelled original) (old_index, s) (hk_lines h)) (\<lambda>(source, s).
             bindR (ok_or (invalid_patch ''hunk range overflow'') (checked_add_u64 old_index (hr_len (hk_old h)))) (\<lambda>end_index.
               if source \<noteq> end_index then Inl (invalid_patch ''hunk body does not match its old range'')
               else Inr (source, s))))))))"

text \<open>The lines after the last hunk; their new positions are not counted any more.\<close>

definition finish_line :: "(nat \<Rightarrow> bool) \<Rightarrow> strict_state \<Rightarrow> string \<Rightarrow> tool_call_error + strict_state" where
  "finish_line cancelled s l =
     bindR (poll cancelled (st_polls s)) (\<lambda>n.
     bindR (push_candidate (st_candidate s) l) (\<lambda>c. Inr (s\<lparr>st_candidate := c, st_polls := n\<rparr>)))"

definition strict_start :: strict_state where
  "strict_start = \<lparr>st_candidate = \<lparr>cd_output = [], cd_at_eof = False\<rparr>, st_new = 0, st_polls = 0\<rparr>"

definition apply_strict :: "string \<Rightarrow> hunk list \<Rightarrow> (nat \<Rightarrow> bool) \<Rightarrow> tool_call_error + string" where
  "apply_strict before hunks cancelled =
     (let original = split_inclusive before in
      bindR (try_fold (apply_hunk cancelled original) (0, strict_start) hunks) (\<lambda>(old_cursor, s).
      bindR (try_fold (finish_line cancelled) s (drop old_cursor original)) (\<lambda>s.
        Inr (cd_output (st_candidate s)))))"

section \<open>File texts\<close>

datatype line_endings = LfEndings | CrLfEndings

definition not_text :: "string \<Rightarrow> tool_call_error" where
  "not_text message = ToolModelError ''FsError'' ''FILE_NOT_TEXT'' message"

definition validate_file_text :: "string \<Rightarrow> tool_call_error + unit" where
  "validate_file_text v =
     (if has_unsafe_control v then Inl (not_text ''the file contains an unsafe control character'')
      else if length (split_inclusive v) > MAX_MUTATION_FILE_LINES
           \<or> list_ex (\<lambda>l. length l > MAX_MUTATION_FILE_LINE_BYTES) (split_inclusive v)
      then Inl (patch_error ''PATCH_TOO_LARGE'' ''the file exceeds the configured line count or line length'')
      else Inr ())"

definition normalize_existing_text :: "string \<Rightarrow> tool_call_error + string \<times> line_endings" where
  "normalize_existing_text raw =
     (if \<not> valid_utf8 raw then Inl (not_text ''the update target is not valid UTF-8 text'')
      else if CHR 0x00 \<in> set raw then Inl (not_text ''the update target contains NUL bytes'')
      else
        let has_crlf = contains_crlf raw; without_crlf = replace_crlf [] raw in
        if CR \<in> set without_crlf \<or> (has_crlf \<and> LF \<in> set without_crlf)
        then Inl (not_text ''the update target has mixed or unsupported line endings'')
        else
          let normalized = (if has_crlf then replace_crlf [LF] raw else raw) in
          bindR (validate_file_text normalized) (\<lambda>_.
            Inr (normalized, if has_crlf then CrLfEndings else LfEndings)))"

definition with_endings :: "line_endings \<Rightarrow> string \<Rightarrow> string" where
  "with_endings e s = (case e of LfEndings \<Rightarrow> s | CrLfEndings \<Rightarrow> lf_to_crlf s)"

end
