(* ===== verification/Patch_Diff.thy ===== *)
theory Patch_Diff
  imports Patch_Tool
begin

text \<open>
  The canonical diff of \<open>src/tools/patch.rs\<close>: the edit script of the validated hunks, cut into hunks
  with three lines of context, and the results the tool returns.
\<close>

section \<open>The edit script\<close>

datatype canonical_op = OpEqual string | OpDelete string | OpInsert string

definition is_equal :: "canonical_op \<Rightarrow> bool" where
  "is_equal x = (case x of OpEqual _ \<Rightarrow> True | _ \<Rightarrow> False)"

definition consumes_old :: "canonical_op \<Rightarrow> bool" where
  "consumes_old x = (case x of OpInsert _ \<Rightarrow> False | _ \<Rightarrow> True)"

definition consumes_new :: "canonical_op \<Rightarrow> bool" where
  "consumes_new x = (case x of OpDelete _ \<Rightarrow> False | _ \<Rightarrow> True)"

definition rendered :: "canonical_op \<Rightarrow> char \<times> string" where
  "rendered x = (case x of OpEqual v \<Rightarrow> (CHR '' '', v) | OpDelete v \<Rightarrow> (CHR ''-'', v) | OpInsert v \<Rightarrow> (CHR ''+'', v))"

definition script_line ::
  "(nat \<Rightarrow> bool) \<Rightarrow> string list \<Rightarrow> nat \<times> canonical_op list \<times> nat \<Rightarrow> diff_line \<Rightarrow> tool_call_error + nat \<times> canonical_op list \<times> nat" where
  "script_line cancelled original = (\<lambda>(source, ops, polls) line.
     bindR (poll cancelled polls) (\<lambda>n.
       case line of
         ContextLine v \<Rightarrow>
           if line_at original source \<noteq> Some v then Inl (invalid_patch ''patch context does not match the target'')
           else bindR (ok_or (invalid_patch ''line count overflow'') (checked_add_u64 source 1)) (\<lambda>source.
             Inr (source, ops @ [OpEqual v], n))
       | DeleteLine v \<Rightarrow>
           if line_at original source \<noteq> Some v then Inl (invalid_patch ''patch deletion does not match the target'')
           else bindR (ok_or (invalid_patch ''line count overflow'') (checked_add_u64 source 1)) (\<lambda>source.
             Inr (source, ops @ [OpDelete v], n))
       | InsertLine v \<Rightarrow> Inr (source, ops @ [OpInsert v], n)))"

definition script_hunk ::
  "(nat \<Rightarrow> bool) \<Rightarrow> string list \<Rightarrow> nat \<times> canonical_op list \<times> nat \<Rightarrow> hunk \<Rightarrow> tool_call_error + nat \<times> canonical_op list \<times> nat" where
  "script_hunk cancelled original = (\<lambda>(old_cursor, ops, polls) h.
     bindR (poll cancelled polls) (\<lambda>n.
     bindR (ok_or (invalid_patch ''invalid old hunk range'') (range_index (hk_old h))) (\<lambda>old_index.
       if old_index < old_cursor \<or> old_index > length original
       then Inl (invalid_patch ''hunk old range is outside the target'')
       else
         try_fold (script_line cancelled original)
           (old_index, ops @ map OpEqual (take (old_index - old_cursor) (drop old_cursor original)), n) (hk_lines h))))"

definition script_rest :: "(nat \<Rightarrow> bool) \<Rightarrow> canonical_op list \<times> nat \<Rightarrow> string \<Rightarrow> tool_call_error + canonical_op list \<times> nat" where
  "script_rest cancelled = (\<lambda>(ops, polls) l. bindR (poll cancelled polls) (\<lambda>n. Inr (ops @ [OpEqual l], n)))"

definition edit_script :: "string \<Rightarrow> hunk list \<Rightarrow> (nat \<Rightarrow> bool) \<Rightarrow> tool_call_error + canonical_op list \<times> nat" where
  "edit_script before hunks cancelled =
     (let original = split_inclusive before in
      bindR (try_fold (script_hunk cancelled original) (0, [], 0) hunks) (\<lambda>(old_cursor, ops, n).
        try_fold (script_rest cancelled) (ops, n) (drop old_cursor original)))"

text \<open>A run of edits may not delete and insert the same line.\<close>

definition redundant_step ::
  "string list \<times> string list \<Rightarrow> canonical_op \<Rightarrow> tool_call_error + string list \<times> string list" where
  "redundant_step = (\<lambda>(deleted, inserted) x.
     case x of
       OpEqual _ \<Rightarrow> Inr ([], [])
     | OpDelete v \<Rightarrow>
         if v = '''' \<or> v \<in> set inserted
         then Inl (invalid_patch ''one edit run redundantly deletes and inserts the same line'')
         else Inr (v # deleted, inserted)
     | OpInsert v \<Rightarrow>
         if v = '''' \<or> v \<in> set deleted
         then Inl (invalid_patch ''one edit run redundantly deletes and inserts the same line'')
         else Inr (deleted, v # inserted))"

definition reject_redundant_edits :: "canonical_op list \<Rightarrow> tool_call_error + unit" where
  "reject_redundant_edits ops = bindR (try_fold redundant_step ([], []) ops) (\<lambda>_. Inr ())"

section \<open>Clusters of changes\<close>

record cluster_state =
  cs_clusters :: "(nat \<times> nat) list"
  cs_equal :: nat
  cs_index :: nat

definition cluster_step :: "cluster_state \<Rightarrow> canonical_op \<Rightarrow> cluster_state" where
  "cluster_step s x =
     (let i = cs_index s in
      if is_equal x then s\<lparr>cs_equal := saturating_add_u64 (cs_equal s) 1, cs_index := Suc i\<rparr>
      else
        let cl = cs_clusters s in
        s\<lparr>cs_clusters :=
            (if cl = [] \<or> cs_equal s > 6 then cl @ [(i, i)] else butlast cl @ [(fst (last cl), i)]),
          cs_equal := 0, cs_index := Suc i\<rparr>)"

definition clusters_of :: "canonical_op list \<Rightarrow> (nat \<times> nat) list" where
  "clusters_of ops =
     cs_clusters (foldl cluster_step \<lparr>cs_clusters = [], cs_equal = U64_LIMIT - 1, cs_index = 0\<rparr> ops)"

text \<open>Going back over at most three equal lines, and forth.\<close>

fun span_start :: "canonical_op list \<Rightarrow> nat \<Rightarrow> nat \<Rightarrow> nat" where
  "span_start ops 0 leading = 0"
| "span_start ops (Suc s) leading =
     (if leading < 3 then span_start ops s (if is_equal (ops ! s) then leading + 1 else leading) else Suc s)"

fun span_extent :: "canonical_op list \<Rightarrow> nat \<Rightarrow> nat" where
  "span_extent [] trailing = 0"
| "span_extent (x # xs) trailing =
     (if trailing < 3 then Suc (span_extent xs (if is_equal x then trailing + 1 else trailing)) else 0)"

definition span_of :: "canonical_op list \<Rightarrow> nat \<times> nat \<Rightarrow> nat \<times> nat" where
  "span_of ops = (\<lambda>(first_change, last_change).
     (span_start ops first_change 0, last_change + 1 + span_extent (drop (last_change + 1) ops) 0))"

text \<open>How many of the first lines a side consumes: the entries of the two prefix tables.\<close>

definition prefix_count :: "(canonical_op \<Rightarrow> bool) \<Rightarrow> canonical_op list \<Rightarrow> nat \<Rightarrow> nat" where
  "prefix_count f ops n = length (filter f (take n ops))"

section \<open>The text\<close>

record diff_text =
  dt_text :: string
  dt_rows :: "diff_row_kind list"
  dt_additions :: nat
  dt_removals :: nat
  dt_polls :: nat

definition push_diff_row :: "diff_text \<Rightarrow> diff_row_kind \<Rightarrow> string \<Rightarrow> tool_call_error + diff_text" where
  "push_diff_row d k v =
     (if \<not> ends_with v [LF] \<or> LF \<in> set (butlast v)
      then Inl (invalid_patch ''canonical diff row is not one physical line'')
      else if (case checked_add_u64 (length (dt_text d)) (length v) of None \<Rightarrow> True | Some n \<Rightarrow> n > MAX_APPROVAL_PREVIEW_BYTES)
      then Inl (patch_error ''DIFF_TOO_LARGE'' ''the complete canonical approval diff exceeds the configured limit'')
      else Inr (d\<lparr>dt_text := dt_text d @ v, dt_rows := dt_rows d @ [k]\<rparr>))"

definition format_hunk_range :: "nat \<Rightarrow> nat \<Rightarrow> string" where
  "format_hunk_range prefix_lines len =
     (let start = (if len = 0 then prefix_lines else prefix_lines + 1) in
      if len = 1 then digits start else digits start @ '','' @ digits len)"

definition row_text :: "canonical_op \<Rightarrow> string" where
  "row_text x =
     (case rendered x of (prefix, v) \<Rightarrow>
        (if prefix \<noteq> CHR '' '' \<or> v \<noteq> [LF] then [prefix] else []) @ v @ (if ends_with v [LF] then [] else [LF]))"

definition op_kind :: "canonical_op \<Rightarrow> diff_row_kind" where
  "op_kind x = (case x of OpEqual _ \<Rightarrow> ContextRow | OpDelete _ \<Rightarrow> RemovalRow | OpInsert _ \<Rightarrow> AdditionRow)"

text \<open>The counts of changed lines: both are checked sums.\<close>

definition count_op :: "diff_text \<Rightarrow> canonical_op \<Rightarrow> tool_call_error + diff_text" where
  "count_op d x =
     (case x of
        OpEqual _ \<Rightarrow> Inr d
      | OpDelete _ \<Rightarrow>
          bindR (ok_or (invalid_patch ''diff removal count overflow'') (checked_add_u64 (dt_removals d) 1)) (\<lambda>n.
            Inr (d\<lparr>dt_removals := n\<rparr>))
      | OpInsert _ \<Rightarrow>
          bindR (ok_or (invalid_patch ''diff addition count overflow'') (checked_add_u64 (dt_additions d) 1)) (\<lambda>n.
            Inr (d\<lparr>dt_additions := n\<rparr>)))"

definition push_op :: "(nat \<Rightarrow> bool) \<Rightarrow> diff_text \<Rightarrow> canonical_op \<Rightarrow> tool_call_error + diff_text" where
  "push_op cancelled d x =
     bindR (poll cancelled (dt_polls d)) (\<lambda>n.
     bindR (count_op (d\<lparr>dt_polls := n\<rparr>) x) (\<lambda>d.
     bindR (push_diff_row d (op_kind x) (row_text x)) (\<lambda>d.
       if ends_with (snd (rendered x)) [LF] then Inr d
       else push_diff_row d NoNewlineRow NO_NEWLINE_MARKER)))"

definition hunk_header :: "canonical_op list \<Rightarrow> nat \<times> nat \<Rightarrow> string" where
  "hunk_header ops = (\<lambda>(start, end_index).
     let old = prefix_count consumes_old ops; new = prefix_count consumes_new ops in
     ''@@ -'' @ format_hunk_range (old start) (old end_index - old start)
       @ '' +'' @ format_hunk_range (new start) (new end_index - new start) @ '' @@'' @ [LF])"

definition push_hunk ::
  "(nat \<Rightarrow> bool) \<Rightarrow> canonical_op list \<Rightarrow> diff_text \<Rightarrow> nat \<times> nat \<Rightarrow> tool_call_error + diff_text" where
  "push_hunk cancelled ops d cluster =
     (case span_of ops cluster of (start, end_index) \<Rightarrow>
        bindR (push_diff_row d HunkRow (hunk_header ops (start, end_index))) (\<lambda>d.
          try_fold (push_op cancelled) d (take (end_index - start) (drop start ops))))"

record canonical_diff =
  cn_text :: string
  cn_rows :: "diff_row_kind list"
  cn_additions :: nat
  cn_removals :: nat
  cn_hunks :: nat

definition original_header :: "patch_operation \<Rightarrow> string \<Rightarrow> string" where
  "original_header op path =
     (case op of PatchCreate \<Rightarrow> ''--- /dev/null'' @ [LF] | PatchUpdate \<Rightarrow> ''--- a/'' @ path @ [LF])"

definition canonical_diff_of ::
  "string \<Rightarrow> patch_operation \<Rightarrow> string \<Rightarrow> hunk list \<Rightarrow> (nat \<Rightarrow> bool) \<Rightarrow> tool_call_error + canonical_diff" where
  "canonical_diff_of path op before hunks cancelled =
     bindR (edit_script before hunks cancelled) (\<lambda>(ops, n).
     bindR (reject_redundant_edits ops) (\<lambda>_.
       let clusters = clusters_of ops in
       if clusters = [] then Inl (patch_error ''NO_CHANGES'' ''the patch does not contain a material line operation'')
       else
         bindR (push_diff_row \<lparr>dt_text = [], dt_rows = [], dt_additions = 0, dt_removals = 0, dt_polls = n\<rparr>
                  FileHeaderRow (original_header op path)) (\<lambda>d.
         bindR (push_diff_row d FileHeaderRow (''+++ b/'' @ path @ [LF])) (\<lambda>d.
         bindR (try_fold (push_hunk cancelled ops) d clusters) (\<lambda>d.
           Inr \<lparr>cn_text = dt_text d, cn_rows = dt_rows d, cn_additions = dt_additions d,
                cn_removals = dt_removals d, cn_hunks = length clusters\<rparr>)))))"

section \<open>Results\<close>

definition operation_name :: "patch_operation \<Rightarrow> string" where
  "operation_name op = (case op of PatchCreate \<Rightarrow> ''create'' | PatchUpdate \<Rightarrow> ''update'')"

definition operation_verb :: "patch_operation \<Rightarrow> string" where
  "operation_verb op = (case op of PatchCreate \<Rightarrow> ''Create'' | PatchUpdate \<Rightarrow> ''Update'')"

definition approval_reason :: "patch_operation \<Rightarrow> string \<Rightarrow> string option" where
  "approval_reason op path =
     (let reason = operation_verb op @ '' workspace file `'' @ path @ ''`'' in
      if length reason \<le> MAX_APPROVAL_REASON_BYTES then Some reason else None)"

definition mutation_meta ::
  "externals \<Rightarrow> string \<Rightarrow> patch_operation \<Rightarrow> string \<Rightarrow> bool \<Rightarrow> bool \<Rightarrow> executor_error + json_value" where
  "mutation_meta E path op diff committed cleanup_warning =
     executor (json_value_new E (obj_of
       ([(''path'', JString path), (''operation'', JString (operation_name op)), (''diff'', JString diff),
         (''committed'', JBool committed)]
        @ (if cleanup_warning then [(''cleanupWarning'', JBool True)] else []))))"

definition success_result ::
  "externals \<Rightarrow> string \<Rightarrow> patch_operation \<Rightarrow> string \<Rightarrow> executor_error + tool_execution_result" where
  "success_result E path op diff =
     bindR (executor (block_text E (operation_verb op @ ''d workspace file `'' @ path @ ''`.''))) (\<lambda>content.
     bindR (mutation_meta E path op diff True False) (\<lambda>meta.
       executor (result_new [content] False None (Some meta) False)))"

definition failure_result ::
  "externals \<Rightarrow> string \<Rightarrow> patch_operation \<Rightarrow> string \<Rightarrow> bool \<Rightarrow> string \<Rightarrow> string \<Rightarrow> string \<Rightarrow> bool
     \<Rightarrow> executor_error + tool_execution_result" where
  "failure_result E path op diff committed name code message cleanup_warning =
     bindR (executor (block_text E (''Error: '' @ message))) (\<lambda>content.
     bindR (mutation_meta E path op diff committed cleanup_warning) (\<lambda>meta.
       executor (result_new [content] True (Some \<lparr>tf_name = name, tf_code = code\<rparr>) (Some meta) False)))"

definition decline_parts :: "mutation_decline_reason \<Rightarrow> string \<times> string \<times> string" where
  "decline_parts r =
     (case r of
        PolicyDenied \<Rightarrow> (''PolicyError'', ''POLICY_DENIED'', ''file changes are disabled by policy'')
      | ApprovalRejected \<Rightarrow> (''ApprovalError'', ''APPROVAL_REJECTED'', ''the file change was rejected'')
      | ApprovalCancelled \<Rightarrow> (''AbortError'', ''APPROVAL_CANCELLED'', ''the approval request was cancelled'')
      | ApprovalUnavailable \<Rightarrow>
          (''ApprovalError'', ''APPROVAL_UNAVAILABLE'', ''approval was unavailable, so the file was not changed'')
      | AbortedBeforeDispatch \<Rightarrow>
          (''AbortError'', ''ABORTED_BEFORE_DISPATCH'', ''the file change was cancelled before commit'')
      | MutationAborted \<Rightarrow> (''AbortError'', ''ABORTED'', ''the file change was cancelled before publication'')
      | OutputBudgetExceeded \<Rightarrow>
          (''ToolOutputError'', ''TOOL_OUTPUT_BUDGET_EXCEEDED'',
           ''the file change result could not fit safely in the session''))"

definition decline_result ::
  "externals \<Rightarrow> string \<Rightarrow> patch_operation \<Rightarrow> string \<Rightarrow> mutation_decline_reason \<Rightarrow> executor_error + tool_execution_result" where
  "decline_result E path op diff reason =
     (case decline_parts reason of (name, code, message) \<Rightarrow> failure_result E path op diff False name code message False)"

section \<open>Preparing a mutation\<close>

text \<open>How writing the target ends; the two flags are an uncertain durability and a failed cleanup.\<close>

datatype commit_status =
    StatusCommitted bool bool
  | StatusNotCommitted tool_call_error bool

text \<open>A commit that fails before it has looked at the target has no status.\<close>

datatype commit_error = ToolExecutorCommitError

text \<open>The results after a publication are all built before the commit can start.\<close>

record committed_outcomes =
  oc_success :: commit_outcome
  oc_durability :: commit_outcome
  oc_durability_and_cleanup :: commit_outcome
  oc_cleanup :: commit_outcome

record prepared_mutation =
  pm_prompt :: approval_prompt
  pm_maximum_result_event_bytes :: nat
  pm_path :: string
  pm_operation :: patch_operation
  pm_bytes :: string
  pm_diff :: string
  pm_committed :: committed_outcomes

definition build_outcomes ::
  "externals \<Rightarrow> string \<Rightarrow> patch_operation \<Rightarrow> string \<Rightarrow> executor_error + committed_outcomes" where
  "build_outcomes E path op diff =
     (let failed = failure_result E path op diff True ''FsError'' in
      bindR (bindR (success_result E path op diff) outcome_committed) (\<lambda>success.
      bindR (bindR (failed ''FILE_COMMITTED_DURABILITY_UNCERTAIN''
               ''the file changed, but directory synchronization was uncertain'' False) outcome_committed) (\<lambda>durability.
      bindR (bindR (failed ''FILE_COMMITTED_DURABILITY_UNCERTAIN''
               ''the file changed, but directory synchronization and staging cleanup were uncertain'' True)
              outcome_committed) (\<lambda>both.
      bindR (bindR (failed ''FILE_COMMITTED_CLEANUP_WARNING''
               ''the file changed and was synchronized, but private staging cleanup failed'' True) outcome_committed) (\<lambda>cleanup.
        Inr \<lparr>oc_success = success, oc_durability = durability, oc_durability_and_cleanup = both, oc_cleanup = cleanup\<rparr>)))))"

definition candidate_bytes :: "line_endings \<Rightarrow> string \<Rightarrow> tool_call_error + string" where
  "candidate_bytes e candidate =
     (let raw = with_endings e candidate in
      if length raw > MAX_MUTATION_FILE_BYTES
      then Inl (patch_error ''PATCH_TOO_LARGE'' ''the patched file exceeds the mutation file limit'')
      else Inr raw)"

definition patched_text :: "string \<Rightarrow> hunk list \<Rightarrow> (nat \<Rightarrow> bool) \<Rightarrow> tool_call_error + string \<times> string \<times> string" where
  "patched_text before_raw hunks cancelled =
     bindR (normalize_existing_text before_raw) (\<lambda>(before, endings).
     bindR (apply_strict before hunks cancelled) (\<lambda>candidate.
       if candidate = before
       then Inl (patch_error ''NO_CHANGES'' ''the patch does not change the target file'')
       else
         bindR (validate_file_text candidate) (\<lambda>_.
         bindR (candidate_bytes endings candidate) (\<lambda>raw. Inr (before, candidate, raw)))))"

datatype preparation_stop = StopModel tool_call_error | StopExecutor

abbreviation stops :: "tool_call_error + 'a \<Rightarrow> preparation_stop + 'a" where
  "stops \<equiv> map_err StopModel"

definition prepare_mutation ::
  "externals \<Rightarrow> string \<Rightarrow> parsed_patch \<Rightarrow> (nat \<Rightarrow> bool) \<Rightarrow> (nat \<Rightarrow> bool) \<Rightarrow> preparation_stop + prepared_mutation" where
  "prepare_mutation E before_raw p cancelled cancelled' =
     bindR (stops (patched_text before_raw (pp_hunks p) cancelled)) (\<lambda>(before, candidate, raw).
     bindR (stops (canonical_diff_of (pp_path p) (pp_operation p) before (pp_hunks p) cancelled')) (\<lambda>d.
     bindR (map_err (\<lambda>_. StopExecutor) (mutation_meta E (pp_path p) (pp_operation p) (cn_text d) False True)) (\<lambda>probe.
       if cn_text d = '''' \<or> jv_encoded_len probe > MAX_CANONICAL_DIFF_JSON_BYTES
       then Inl (StopModel (patch_error ''DIFF_TOO_LARGE'' ''the complete canonical approval diff exceeds the configured limit''))
       else
         bindR (map_err (\<lambda>_. StopExecutor)
                  (canonical_patch (approval_reason (pp_operation p) (pp_path p)) (cn_text d) (pp_operation p) (pp_path p)
                     (cn_rows d) (cn_additions d) (cn_removals d) (cn_hunks d))) (\<lambda>prompt.
         bindR (map_err (\<lambda>_. StopExecutor)
                  (build_outcomes E (pp_path p) (pp_operation p) (ap_preview prompt))) (\<lambda>outcomes.
           if MAX_MUTATION_RESULT_EVENT_BYTES = 0 \<or> MAX_MUTATION_RESULT_EVENT_BYTES > MAX_AGENT_COMMITTED_TOOL_RESULT_EVENT_BYTES
           then Inl StopExecutor
           else Inr \<lparr>pm_prompt = prompt, pm_maximum_result_event_bytes = MAX_MUTATION_RESULT_EVENT_BYTES,
                     pm_path = pp_path p, pm_operation = pp_operation p, pm_bytes = raw,
                     pm_diff = ap_preview prompt, pm_committed = outcomes\<rparr>)))))"

definition commit_result ::
  "externals \<Rightarrow> prepared_mutation \<Rightarrow> commit_error + commit_status \<Rightarrow> executor_error + commit_outcome" where
  "commit_result E m status =
     bindR (map_err (\<lambda>_. ToolExecutorError) status) (\<lambda>status.
       case status of
         StatusCommitted durability_uncertain cleanup_warning \<Rightarrow>
           Inr (if durability_uncertain
                then (if cleanup_warning then oc_durability_and_cleanup else oc_durability) (pm_committed m)
                else (if cleanup_warning then oc_cleanup else oc_success) (pm_committed m))
       | StatusNotCommitted e cleanup_warning \<Rightarrow>
           bindR (into_model_parts e) (\<lambda>(name, code, message).
           bindR (failure_result E (pm_path m) (pm_operation m) (pm_diff m) False name code
                    (if cleanup_warning then message @ ''; private staging cleanup may be incomplete'' else message)
                    cleanup_warning) outcome_not_committed))"

definition decline_mutation ::
  "externals \<Rightarrow> prepared_mutation \<Rightarrow> mutation_decline_reason \<Rightarrow> executor_error + tool_execution_result" where
  "decline_mutation E m reason = checked_decline (decline_result E (pm_path m) (pm_operation m) (pm_diff m) reason)"

end
