(* ===== verification/Patch_Proofs.thy ===== *)
theory Patch_Proofs
  imports Patch_Diff "HOL-Library.Code_Target_Numeral"
begin

text \<open>
  What an approval of a patch means: the edit script of the hunks, the hunks cut from it for the
  approval, and the proof that both make the same file.
\<close>

section \<open>Sides of an edit script\<close>

definition op_text :: "canonical_op \<Rightarrow> string" where
  "op_text x = snd (rendered x)"

definition old_lines :: "canonical_op list \<Rightarrow> string list" where
  "old_lines ops = map op_text (filter consumes_old ops)"

definition new_lines :: "canonical_op list \<Rightarrow> string list" where
  "new_lines ops = map op_text (filter consumes_new ops)"

definition line_op :: "diff_line \<Rightarrow> canonical_op" where
  "line_op l = (case l of ContextLine v \<Rightarrow> OpEqual v | DeleteLine v \<Rightarrow> OpDelete v | InsertLine v \<Rightarrow> OpInsert v)"

definition op_line :: "canonical_op \<Rightarrow> diff_line" where
  "op_line x = (case x of OpEqual v \<Rightarrow> ContextLine v | OpDelete v \<Rightarrow> DeleteLine v | OpInsert v \<Rightarrow> InsertLine v)"

lemma line_op_simps [simp]:
  "line_op (ContextLine v) = OpEqual v" "line_op (DeleteLine v) = OpDelete v" "line_op (InsertLine v) = OpInsert v"
  "op_line (OpEqual v) = ContextLine v" "op_line (OpDelete v) = DeleteLine v" "op_line (OpInsert v) = InsertLine v"
  by (simp_all add: line_op_def op_line_def)

lemma line_op_line [simp]: "line_op (op_line x) = x" "line_op \<circ> op_line = id"
  by (cases x; simp) (auto simp: fun_eq_iff op_line_def split: canonical_op.split)

lemma op_line_op [simp]: "op_line (line_op l) = l" "op_line \<circ> line_op = id"
  by (cases l; simp) (auto simp: fun_eq_iff line_op_def split: diff_line.split)

lemma op_simps [simp]:
  "is_equal (OpEqual v)" "\<not> is_equal (OpDelete v)" "\<not> is_equal (OpInsert v)"
  "consumes_old (OpEqual v)" "consumes_old (OpDelete v)" "\<not> consumes_old (OpInsert v)"
  "consumes_new (OpEqual v)" "\<not> consumes_new (OpDelete v)" "consumes_new (OpInsert v)"
  "op_text (OpEqual v) = v" "op_text (OpDelete v) = v" "op_text (OpInsert v) = v"
  by (simp_all add: is_equal_def consumes_old_def consumes_new_def op_text_def rendered_def)

lemma side_simps [simp]:
  "old_lines [] = []" "old_lines (x # xs) = (if consumes_old x then op_text x # old_lines xs else old_lines xs)"
  "old_lines (xs @ ys) = old_lines xs @ old_lines ys"
  "new_lines [] = []" "new_lines (x # xs) = (if consumes_new x then op_text x # new_lines xs else new_lines xs)"
  "new_lines (xs @ ys) = new_lines xs @ new_lines ys"
  by (simp_all add: old_lines_def new_lines_def)

lemma equal_sides:
  "list_all is_equal ops \<Longrightarrow> new_lines ops = old_lines ops \<and> length (old_lines ops) = length ops"
  by (induction ops) (auto simp: is_equal_def split: canonical_op.split_asm)

lemma map_OpEqual [simp]:
  "old_lines (map OpEqual ls) = ls" "new_lines (map OpEqual ls) = ls" "list_all is_equal (map OpEqual ls)"
  by (induction ls) simp_all

section \<open>Strict application is an edit script\<close>

abbreviation push_all :: "candidate \<Rightarrow> string list \<Rightarrow> tool_call_error + candidate" where
  "push_all \<equiv> try_fold push_candidate"

text \<open>The hunks fit the script: positions, lines and lengths.\<close>

fun script_of :: "nat \<Rightarrow> nat \<Rightarrow> canonical_op list \<Rightarrow> hunk list \<Rightarrow> bool" where
  "script_of a b ops [] = list_all is_equal ops"
| "script_of a b ops (h # hs) =
     (\<exists>gap body rest. ops = gap @ body @ rest \<and> list_all is_equal gap
        \<and> range_index (hk_old h) = Some (a + length gap) \<and> range_index (hk_new h) = Some (b + length gap)
        \<and> hk_lines h = map op_line body \<and> hr_len (hk_old h) = length (old_lines body)
        \<and> script_of (a + length gap + length (old_lines body)) (b + length gap + length (new_lines body)) rest hs)"

fun script :: "string list \<Rightarrow> nat \<Rightarrow> hunk list \<Rightarrow> canonical_op list" where
  "script original a [] = map OpEqual (drop a original)"
| "script original a (h # hs) =
     (case range_index (hk_old h) of
        None \<Rightarrow> []
      | Some i \<Rightarrow> map OpEqual (take (i - a) (drop a original)) @ map line_op (hk_lines h)
          @ script original (i + length (old_lines (map line_op (hk_lines h)))) hs)"

lemma poll_Inr [result_simps]: "poll c n = Inr m \<longleftrightarrow> \<not> c n \<and> m = Suc n"
  by (auto simp: poll_def)

lemma line_at_Some: "line_at ls i = Some v \<longleftrightarrow> i < length ls \<and> ls ! i = v"
  by (auto simp: line_at_def)

lemma drop_line_at: "line_at ls i = Some v \<Longrightarrow> drop i ls = v # drop (Suc i) ls"
  by (auto simp: line_at_Some Cons_nth_drop_Suc)

lemma script_line_fold:
  assumes "try_fold (script_line c original) (i, ops, n) ls = Inr (j, ops', n')"
  shows "ops' = ops @ map line_op ls \<and> j = i + length (old_lines (map line_op ls))"
  using assms
proof (induction ls arbitrary: i ops n)
  case (Cons l ls)
  then obtain i1 ops1 n1 where step: "script_line c original (i, ops, n) l = Inr (i1, ops1, n1)"
    "try_fold (script_line c original) (i1, ops1, n1) ls = Inr (j, ops', n')"
    by (auto elim: bindR_InrE)
  from Cons.IH[OF step(2)] step(1) show ?case
    by (auto simp: script_line_def result_simps checked_simps split: diff_line.split_asm if_splits)
qed simp

lemma edit_script_hunks:
  assumes "try_fold (script_hunk c original) (a, ops, n) hs = Inr (a', ops', n')"
  shows "\<exists>xs. ops' = ops @ xs \<and> script original a hs = xs @ map OpEqual (drop a' original)"
  using assms
proof (induction hs arbitrary: a ops n)
  case (Cons h hs)
  then obtain a1 ops1 n1 where step: "script_hunk c original (a, ops, n) h = Inr (a1, ops1, n1)"
    "try_fold (script_hunk c original) (a1, ops1, n1) hs = Inr (a', ops', n')"
    by (auto elim: bindR_InrE)
  from step(1) obtain i m where i: "range_index (hk_old h) = Some i"
    "try_fold (script_line c original) (i, ops @ map OpEqual (take (i - a) (drop a original)), m) (hk_lines h) = Inr (a1, ops1, n1)"
    by (auto simp: script_hunk_def result_simps split: if_splits)
  from Cons.IH[OF step(2)] script_line_fold[OF i(2)] i(1) show ?case by auto
qed simp

lemma script_rest_eq: "script_rest c (ops, n) l = Inr x \<longleftrightarrow> \<not> c n \<and> x = (ops @ [OpEqual l], Suc n)"
  by (auto simp: script_rest_def result_simps)

lemma edit_script_is:
  assumes "edit_script before hs c = Inr (ops, n)"
  shows "ops = script (split_inclusive before) 0 hs"
proof -
  have rest: "try_fold (script_rest c) (ops, n) ls = Inr (ops', n') \<Longrightarrow> ops' = ops @ map OpEqual ls" for ls ops n ops' n'
  proof (induction ls arbitrary: ops n)
    case (Cons l ls)
    then show ?case using Cons.IH[of "ops @ [OpEqual l]" "Suc n"] by (auto simp: result_simps script_rest_eq)
  qed simp
  obtain a xs m where x: "try_fold (script_hunk c (split_inclusive before)) (0, [], 0) hs = Inr (a, xs, m)"
    "try_fold (script_rest c) (xs, m) (drop a (split_inclusive before)) = Inr (ops, n)"
    using assms by (auto simp: edit_script_def Let_def elim!: bindR_InrE)
  show ?thesis using edit_script_hunks[OF x(1)] rest[OF x(2)] by auto
qed

lemma apply_line_fold:
  assumes "try_fold (apply_line c original) (i, s) ls = Inr (j, s')"
  shows "j = i + length (old_lines (map line_op ls)) \<and> st_new s' = st_new s + length (new_lines (map line_op ls))
     \<and> push_all (st_candidate s) (new_lines (map line_op ls)) = Inr (st_candidate s')
     \<and> drop i original = old_lines (map line_op ls) @ drop j original"
  using assms
proof (induction ls arbitrary: i s)
  case (Cons l ls)
  then obtain i1 s1 where step: "apply_line c original (i, s) l = Inr (i1, s1)"
    "try_fold (apply_line c original) (i1, s1) ls = Inr (j, s')"
    by (auto elim: bindR_InrE)
  note IH = Cons.IH[OF step(2)]
  show ?case
  proof (cases l)
    case (ContextLine v)
    then have "line_at original i = Some v" "i1 = i + 1" "push_candidate (st_candidate s) v = Inr (st_candidate s1)"
      "st_new s1 = st_new s + 1"
      using step(1) by (auto simp: apply_line_def result_simps split: if_splits)
    then show ?thesis using IH ContextLine drop_line_at[of original i v] by simp
  next
    case (DeleteLine v)
    then have "line_at original i = Some v" "i1 = i + 1" "st_candidate s1 = st_candidate s" "st_new s1 = st_new s"
      using step(1) by (auto simp: apply_line_def result_simps split: if_splits)
    then show ?thesis using IH DeleteLine drop_line_at[of original i v] by simp
  next
    case (InsertLine v)
    then have "i1 = i" "push_candidate (st_candidate s) v = Inr (st_candidate s1)" "st_new s1 = st_new s + 1"
      using step(1) by (auto simp: apply_line_def result_simps)
    then show ?thesis using IH InsertLine by simp
  qed
qed simp

lemma copy_line_fold:
  assumes "try_fold (copy_line c) s ls = Inr s'"
  shows "st_new s' = st_new s + length ls \<and> push_all (st_candidate s) ls = Inr (st_candidate s')"
  using assms
proof (induction ls arbitrary: s)
  case (Cons l ls)
  then obtain s1 where step: "copy_line c s l = Inr s1" "try_fold (copy_line c) s1 ls = Inr s'" by (auto elim: bindR_InrE)
  have "push_candidate (st_candidate s) l = Inr (st_candidate s1) \<and> st_new s1 = st_new s + 1"
    using step(1) by (auto simp: copy_line_def result_simps checked_simps)
  then show ?case using Cons.IH[OF step(2)] by simp
qed simp

lemma finish_line_fold:
  "try_fold (finish_line c) s ls = Inr s' \<Longrightarrow> push_all (st_candidate s) ls = Inr (st_candidate s')"
proof (induction ls arbitrary: s)
  case (Cons l ls)
  then obtain s1 where step: "finish_line c s l = Inr s1" "try_fold (finish_line c) s1 ls = Inr s'" by (auto elim: bindR_InrE)
  have "push_candidate (st_candidate s) l = Inr (st_candidate s1)" using step(1) by (auto simp: finish_line_def result_simps)
  then show ?case using Cons.IH[OF step(2)] by simp
qed simp

lemma push_all_append:
  "push_all c (xs @ ys) = Inr d \<longleftrightarrow> (\<exists>e. push_all c xs = Inr e \<and> push_all e ys = Inr d)"
  by (simp add: try_fold_append result_simps)

lemma drop_split: "a \<le> i \<Longrightarrow> drop a xs = take (i - a) (drop a xs) @ drop i xs"
  by (metis append_take_drop_id drop_drop le_add_diff_inverse2)

lemma apply_hunks_script:
  assumes "try_fold (apply_hunk c original) (a, s) hs = Inr (a', s')" "push_all (st_candidate s') (drop a' original) = Inr d"
  shows "script_of a (st_new s) (script original a hs) hs \<and> old_lines (script original a hs) = drop a original
     \<and> push_all (st_candidate s) (new_lines (script original a hs)) = Inr d"
  using assms
proof (induction hs arbitrary: a s)
  case Nil
  then show ?case by auto
next
  case (Cons h hs)
  then obtain a1 s1 where step: "apply_hunk c original (a, s) h = Inr (a1, s1)"
    "try_fold (apply_hunk c original) (a1, s1) hs = Inr (a', s')"
    by (auto elim: bindR_InrE)
  let ?body = "map line_op (hk_lines h)"
  obtain i j n t where h: "range_index (hk_old h) = Some i" "range_index (hk_new h) = Some j" "a \<le> i" "i \<le> length original"
    "try_fold (copy_line c) (s\<lparr>st_polls := n\<rparr>) (take (i - a) (drop a original)) = Inr t" "j = st_new t"
    "try_fold (apply_line c original) (i, t) (hk_lines h) = Inr (a1, s1)" "a1 = i + hr_len (hk_old h)"
    using step(1) by (auto simp: apply_hunk_def result_simps checked_simps split: if_splits)
  let ?gap = "take (i - a) (drop a original)"
  have len: "length ?gap = i - a" using h(3,4) by simp
  have copied: "st_new t = st_new s + (i - a)" "push_all (st_candidate s) ?gap = Inr (st_candidate t)"
    using copy_line_fold[OF h(5)] len by simp_all
  note body = apply_line_fold[OF h(7)]
  note IH = Cons.IH[OF step(2) Cons.prems(2)]
  have drop: "drop a original = ?gap @ old_lines ?body @ drop a1 original"
    using body drop_split[OF h(3), of original] by simp
  have scr: "script original a (h # hs) = map OpEqual ?gap @ ?body @ script original a1 hs" using h(1) body by simp
  have "map op_line ?body = hk_lines h" by simp
  moreover have "range_index (hk_old h) = Some (a + length (map OpEqual ?gap))"
    "range_index (hk_new h) = Some (st_new s + length (map OpEqual ?gap))"
    "hr_len (hk_old h) = length (old_lines ?body)"
    using h(1-3,6,8) len copied body by simp_all
  moreover have "script_of (a + length (map OpEqual ?gap) + length (old_lines ?body))
      (st_new s + length (map OpEqual ?gap) + length (new_lines ?body)) (script original a1 hs) hs"
    using IH body copied len h(3) by simp
  ultimately have "script_of a (st_new s) (script original a (h # hs)) (h # hs)"
    unfolding scr script_of.simps by (intro exI[of _ "map OpEqual ?gap"] exI[of _ ?body] exI[of _ "script original a1 hs"]) simp
  moreover have "push_all (st_candidate s) (new_lines (script original a (h # hs))) = Inr d"
    using copied(2) body IH unfolding scr by (auto simp: push_all_append)
  ultimately show ?case using IH drop unfolding scr by simp
qed

lemma apply_strict_script:
  assumes "apply_strict before hs c = Inr out"
  shows "\<exists>d. script_of 0 0 (script (split_inclusive before) 0 hs) hs
     \<and> old_lines (script (split_inclusive before) 0 hs) = split_inclusive before
     \<and> push_all (st_candidate strict_start) (new_lines (script (split_inclusive before) 0 hs)) = Inr d \<and> cd_output d = out"
proof -
  let ?o = "split_inclusive before"
  obtain a s t where x: "try_fold (apply_hunk c ?o) (0, strict_start) hs = Inr (a, s)"
    "try_fold (finish_line c) s (drop a ?o) = Inr t" "out = cd_output (st_candidate t)"
    using assms by (auto simp: apply_strict_def Let_def elim!: bindR_InrE)
  from apply_hunks_script[OF x(1) finish_line_fold[OF x(2)]] x(3) show ?thesis by (auto simp: strict_start_def)
qed


section \<open>A fitting script is applied\<close>

abbreviation never :: "nat \<Rightarrow> bool" where
  "never \<equiv> \<lambda>_. False"

lemma poll_never [simp]: "poll never n = Inr (Suc n)"
  by (simp add: poll_def)

lemma line_at_drop: "drop i ls = v # r \<Longrightarrow> line_at ls i = Some v \<and> drop (Suc i) ls = r"
  by (cases "i < length ls") (auto simp: line_at_def Cons_nth_drop_Suc[symmetric])

lemma apply_line_never:
  assumes "push_all (st_candidate s) (new_lines body) = Inr d" "drop i original = old_lines body @ r"
  shows "\<exists>s'. try_fold (apply_line never original) (i, s) (map op_line body) = Inr (i + length (old_lines body), s')
     \<and> st_candidate s' = d \<and> st_new s' = st_new s + length (new_lines body)"
  using assms
proof (induction body arbitrary: i s)
  case (Cons x body)
  show ?case
  proof (cases x)
    case (OpEqual v)
    then have v: "line_at original i = Some v" "drop (Suc i) original = old_lines body @ r"
      using Cons.prems(2) line_at_drop[of i original v] by simp_all
    obtain c where c: "push_candidate (st_candidate s) v = Inr c" "push_all c (new_lines body) = Inr d"
      using Cons.prems(1) OpEqual by (auto elim: bindR_InrE)
    let ?s = "\<lparr>st_candidate = c, st_new = st_new s + 1, st_polls = Suc (st_polls s)\<rparr>"
    have "apply_line never original (i, s) (op_line x) = Inr (i + 1, ?s)" using OpEqual v(1) c(1) by (simp add: apply_line_def)
    then show ?thesis using Cons.IH[of ?s "i + 1"] v(2) c(2) OpEqual by simp
  next
    case (OpDelete v)
    then have v: "line_at original i = Some v" "drop (Suc i) original = old_lines body @ r"
      using Cons.prems(2) line_at_drop[of i original v] by simp_all
    let ?s = "s\<lparr>st_polls := Suc (st_polls s)\<rparr>"
    have "apply_line never original (i, s) (op_line x) = Inr (i + 1, ?s)" using OpDelete v(1) by (simp add: apply_line_def)
    then show ?thesis using Cons.IH[of ?s "i + 1"] v(2) Cons.prems(1) OpDelete by simp
  next
    case (OpInsert v)
    obtain c where c: "push_candidate (st_candidate s) v = Inr c" "push_all c (new_lines body) = Inr d"
      using Cons.prems(1) OpInsert by (auto elim: bindR_InrE)
    let ?s = "\<lparr>st_candidate = c, st_new = st_new s + 1, st_polls = Suc (st_polls s)\<rparr>"
    have "apply_line never original (i, s) (op_line x) = Inr (i, ?s)" using OpInsert c(1) by (simp add: apply_line_def)
    then show ?thesis using Cons.IH[of ?s i] c(2) Cons.prems(2) OpInsert by simp
  qed
qed simp

lemma copy_line_never:
  assumes "push_all (st_candidate s) ls = Inr d" "st_new s + length ls < U64_LIMIT"
  shows "\<exists>s'. try_fold (copy_line never) s ls = Inr s' \<and> st_candidate s' = d \<and> st_new s' = st_new s + length ls"
  using assms
proof (induction ls arbitrary: s)
  case (Cons l ls)
  then obtain c where c: "push_candidate (st_candidate s) l = Inr c" "push_all c ls = Inr d" by (auto elim: bindR_InrE)
  let ?s = "\<lparr>st_candidate = c, st_new = st_new s + 1, st_polls = Suc (st_polls s)\<rparr>"
  have "copy_line never s l = Inr ?s" using c(1) Cons.prems(2) by (simp add: copy_line_def checked_add_u64_def)
  then show ?case using Cons.IH[of ?s] c(2) Cons.prems(2) by simp
qed simp

lemma finish_line_never:
  assumes "push_all (st_candidate s) ls = Inr d"
  shows "\<exists>s'. try_fold (finish_line never) s ls = Inr s' \<and> st_candidate s' = d"
  using assms
proof (induction ls arbitrary: s)
  case (Cons l ls)
  then obtain c where c: "push_candidate (st_candidate s) l = Inr c" "push_all c ls = Inr d" by (auto elim: bindR_InrE)
  let ?s = "s\<lparr>st_candidate := c, st_polls := Suc (st_polls s)\<rparr>"
  have "finish_line never s l = Inr ?s" using c(1) by (simp add: finish_line_def)
  then show ?case using Cons.IH[of ?s] c(2) by simp
qed simp

lemma apply_hunks_never:
  assumes "script_of a (st_new s) ops hs" "old_lines ops = drop a original" "a \<le> length original"
    "push_all (st_candidate s) (new_lines ops) = Inr d"
    "st_new s + length (new_lines ops) < U64_LIMIT" "length original < U64_LIMIT"
  shows "\<exists>a' s'. try_fold (apply_hunk never original) (a, s) hs = Inr (a', s') \<and> push_all (st_candidate s') (drop a' original) = Inr d"
  using assms
proof (induction hs arbitrary: a s ops)
  case Nil
  then show ?case using equal_sides[of ops] by simp
next
  case (Cons h hs)
  then obtain gap body rest where g: "ops = gap @ body @ rest" "list_all is_equal gap"
    "range_index (hk_old h) = Some (a + length gap)" "range_index (hk_new h) = Some (st_new s + length gap)"
    "hk_lines h = map op_line body" "hr_len (hk_old h) = length (old_lines body)"
    "script_of (a + length gap + length (old_lines body)) (st_new s + length gap + length (new_lines body)) rest hs"
    by auto
  note gap = equal_sides[OF g(2)]
  let ?i = "a + length gap"
  have old: "drop a original = old_lines gap @ old_lines body @ old_lines rest" using Cons.prems(2) g(1) by simp
  have "length original - a = length gap + length (old_lines body @ old_lines rest)" using arg_cong[OF old, of length] gap by simp
  then have i: "?i \<le> length original" using Cons.prems(3) by linarith
  have "drop ?i original = drop (length gap) (drop a original)" by (simp add: add.commute)
  then have i': "take (?i - a) (drop a original) = old_lines gap" "drop ?i original = old_lines body @ old_lines rest"
    using old gap by simp_all
  obtain c1 c2 where push: "push_all (st_candidate s) (old_lines gap) = Inr c1" "push_all c1 (new_lines body) = Inr c2"
    "push_all c2 (new_lines rest) = Inr d"
    using Cons.prems(4) g(1) gap by (auto simp: push_all_append)
  let ?s = "s\<lparr>st_polls := Suc (st_polls s)\<rparr>"
  obtain s1 where s1: "try_fold (copy_line never) ?s (old_lines gap) = Inr s1" "st_candidate s1 = c1" "st_new s1 = st_new s + length gap"
    using copy_line_never[of ?s "old_lines gap" c1] push(1) Cons.prems(5) g(1) gap by auto
  obtain s2 where s2: "try_fold (apply_line never original) (?i, s1) (hk_lines h) = Inr (?i + length (old_lines body), s2)"
    "st_candidate s2 = c2" "st_new s2 = st_new s1 + length (new_lines body)"
    using apply_line_never[OF _ i'(2), of s1 c2] push(2) s1(2) g(5) by auto
  have le: "?i + length (old_lines body) \<le> length original" using arg_cong[OF i'(2), of length] i by simp
  have "apply_hunk never original (a, s) h = Inr (?i + length (old_lines body), s2)"
    using g(3,4,6) i i'(1) s1 s2(1) le Cons.prems(6) by (simp add: apply_hunk_def checked_add_u64_def)
  moreover have "drop (?i + length (old_lines body)) original = old_lines rest"
    using i'(2) by (metis append_eq_conv_conj drop_drop add.commute)
  ultimately show ?case
    using Cons.IH[of "?i + length (old_lines body)" s2 rest] g(7) s1(3) s2(2,3) push(3) le Cons.prems(5,6) g(1) gap by simp
qed

lemma apply_strict_never:
  assumes "script_of 0 0 ops hs" "old_lines ops = split_inclusive before" "push_all (st_candidate strict_start) (new_lines ops) = Inr d"
    "length (new_lines ops) < U64_LIMIT" "length (split_inclusive before) < U64_LIMIT"
  shows "apply_strict before hs never = Inr (cd_output d)"
proof -
  obtain a s where x: "try_fold (apply_hunk never (split_inclusive before)) (0, strict_start) hs = Inr (a, s)"
    "push_all (st_candidate s) (drop a (split_inclusive before)) = Inr d"
    using apply_hunks_never[of 0 strict_start ops hs "split_inclusive before" d] assms by (auto simp: strict_start_def)
  from finish_line_never[OF x(2)] x(1) show ?thesis by (auto simp: apply_strict_def Let_def)
qed

section \<open>The spans of a diff\<close>

text \<open>From position \<open>p\<close> on: which clusters and which spans leave nothing but equal lines outside.\<close>

definition equal_between :: "canonical_op list \<Rightarrow> nat \<Rightarrow> nat \<Rightarrow> bool" where
  "equal_between ops i j = (\<forall>k. i \<le> k \<and> k < j \<longrightarrow> is_equal (ops ! k))"

fun clusters_ok :: "canonical_op list \<Rightarrow> nat \<Rightarrow> (nat \<times> nat) list \<Rightarrow> bool" where
  "clusters_ok ops p [] = equal_between ops p (length ops)"
| "clusters_ok ops p ((f, l) # cl) =
     (p \<le> f \<and> f \<le> l \<and> l < length ops \<and> equal_between ops p f
      \<and> (cl = [] \<or> l + 7 < fst (hd cl)) \<and> clusters_ok ops (l + 1) cl)"

fun spans_ok :: "canonical_op list \<Rightarrow> nat \<Rightarrow> (nat \<times> nat) list \<Rightarrow> bool" where
  "spans_ok ops p [] = equal_between ops p (length ops)"
| "spans_ok ops p ((i, j) # ss) =
     (p \<le> i \<and> i \<le> j \<and> j \<le> length ops \<and> equal_between ops p i \<and> spans_ok ops j ss)"

lemma cluster_step_fields:
  "cs_index (cluster_step s x) = Suc (cs_index s)"
  "is_equal x \<Longrightarrow> cs_clusters (cluster_step s x) = cs_clusters s"
  "is_equal x \<Longrightarrow> cs_equal (cluster_step s x) = saturating_add_u64 (cs_equal s) 1"
  "\<not> is_equal x \<Longrightarrow> cs_equal (cluster_step s x) = 0"
  "\<not> is_equal x \<Longrightarrow> cs_clusters (cluster_step s x) = (if cs_clusters s = [] \<or> cs_equal s > 6
     then cs_clusters s @ [(cs_index s, cs_index s)] else butlast (cs_clusters s) @ [(fst (last (cs_clusters s)), cs_index s)])"
  by (simp_all add: cluster_step_def Let_def)

lemma cluster_fold:
  assumes "ops = ys @ xs" "l < length ys" "equal_between ops (l + 1) (length ys)"
    "cs_clusters s = pre @ [(f, l)]" "cs_index s = length ys" "cs_equal s = min (length ys - l - 1) (U64_LIMIT - 1)"
  shows "\<exists>l' cl. cs_clusters (foldl cluster_step s xs) = pre @ (f, l') # cl \<and> l \<le> l' \<and> l' < length ops
     \<and> (cl = [] \<or> l' + 7 < fst (hd cl)) \<and> clusters_ok ops (l' + 1) cl"
  using assms
proof (induction xs arbitrary: ys s pre f l)
  case Nil
  then show ?case by auto
next
  case (Cons x xs)
  let ?n = "length ys" and ?s = "cluster_step s x" and ?ys = "ys @ [x]"
  have ops: "ops = ?ys @ xs" "ops ! ?n = x" using Cons.prems(1) by simp_all
  show ?case
  proof (cases "is_equal x")
    case True
    have "equal_between ops (l + 1) (length ?ys)" using Cons.prems(3) ops(2) True by (auto simp: equal_between_def less_Suc_eq)
    moreover have "cs_equal ?s = min (length ?ys - l - 1) (U64_LIMIT - 1)"
      using Cons.prems(2,6) True by (auto simp: cluster_step_fields saturating_add_u64_def U64_LIMIT_def)
    ultimately show ?thesis
      using Cons.IH[OF ops(1), of l ?s pre f] Cons.prems(2,4,5) True by (simp add: cluster_step_fields)
  next
    case False
    show ?thesis
    proof (cases "6 < ?n - l - 1")
      case True
      then have far: "6 < cs_equal s" using Cons.prems(6) by (simp add: U64_LIMIT_def)
      have "equal_between ops (?n + 1) (length ?ys)" by (auto simp: equal_between_def)
      then obtain l' cl where IH: "cs_clusters (foldl cluster_step ?s xs) = (pre @ [(f, l)]) @ (?n, l') # cl" "?n \<le> l'"
        "l' < length ops" "cl = [] \<or> l' + 7 < fst (hd cl)" "clusters_ok ops (l' + 1) cl"
        using Cons.IH[OF ops(1), of ?n ?s "pre @ [(f, l)]" ?n] False far Cons.prems(4,5) by (auto simp: cluster_step_fields)
      show ?thesis
        by (intro exI[of _ l] exI[of _ "(?n, l') # cl"]) (use IH Cons.prems(1-3) True in auto)
    next
      case near: False
      then have near: "\<not> 6 < cs_equal s" using Cons.prems(6) by (simp add: U64_LIMIT_def)
      have "equal_between ops (?n + 1) (length ?ys)" by (auto simp: equal_between_def)
      then show ?thesis
        using Cons.IH[OF ops(1), of ?n ?s pre f] False near Cons.prems(2,4,5) by (fastforce simp: cluster_step_fields)
    qed
  qed
qed

lemma cluster_fold_start:
  assumes "ops = ys @ xs" "equal_between ops 0 (length ys)" "cs_clusters s = []" "cs_index s = length ys"
  shows "clusters_ok ops 0 (cs_clusters (foldl cluster_step s xs))"
  using assms
proof (induction xs arbitrary: ys s)
  case (Cons x xs)
  let ?n = "length ys" and ?s = "cluster_step s x" and ?ys = "ys @ [x]"
  have ops: "ops = ?ys @ xs" "ops ! ?n = x" using Cons.prems(1) by simp_all
  show ?case
  proof (cases "is_equal x")
    case True
    have "equal_between ops 0 (length ?ys)" using Cons.prems(2) ops(2) True by (auto simp: equal_between_def less_Suc_eq)
    then show ?thesis using Cons.IH[OF ops(1), of ?s] Cons.prems(3,4) True by (simp add: cluster_step_fields)
  next
    case False
    have "equal_between ops (?n + 1) (length ?ys)" by (auto simp: equal_between_def)
    then obtain l' cl where "cs_clusters (foldl cluster_step ?s xs) = [] @ (?n, l') # cl" "?n \<le> l'"
      "l' < length ops" "cl = [] \<or> l' + 7 < fst (hd cl)" "clusters_ok ops (l' + 1) cl"
      using cluster_fold[OF ops(1), of ?n ?s "[]" ?n] False Cons.prems(3,4) by (auto simp: cluster_step_fields)
    then show ?thesis using Cons.prems(2) by simp
  qed
qed simp

lemma clusters_of_ok: "clusters_ok ops 0 (clusters_of ops)"
  unfolding clusters_of_def by (rule cluster_fold_start[of _ "[]"]) (simp_all add: equal_between_def)

lemma span_start_equal:
  assumes "equal_between ops (f - k) f" "k + m = 3"
  shows "span_start ops f m = f - k"
  using assms
proof (induction k arbitrary: f m)
  case 0
  then show ?case by (cases f) simp_all
next
  case (Suc k)
  show ?case
  proof (cases f)
    case (Suc g)
    then have "is_equal (ops ! g)" "equal_between ops (g - k) g" using Suc.prems(1) by (auto simp: equal_between_def)
    then show ?thesis using Suc.IH[of g "m + 1"] Suc.prems(2) Suc by simp
  qed simp
qed

lemma span_extent_equal:
  assumes "\<forall>i < min k (length xs). is_equal (xs ! i)" "k + m = 3"
  shows "span_extent xs m = min k (length xs)"
  using assms
proof (induction xs arbitrary: k m)
  case (Cons x xs)
  show ?case
  proof (cases k)
    case 0
    then show ?thesis using Cons.prems(2) by simp
  next
    case (Suc j)
    have "is_equal x" using Cons.prems(1)[rule_format, of 0] Suc by simp
    moreover have "\<forall>i < min j (length xs). is_equal (xs ! i)"
    proof (intro allI impI)
      fix i assume "i < min j (length xs)"
      then show "is_equal (xs ! i)" using Cons.prems(1)[rule_format, of "Suc i"] Suc by simp
    qed
    ultimately show ?thesis using Cons.IH[of j "m + 1"] Cons.prems(2) Suc by simp
  qed
qed simp

lemma cluster_spans:
  assumes "clusters_ok ops q cl" "q \<le> p" "p \<le> length ops" "cl = [] \<or> p \<le> fst (hd cl) - 3"
  shows "spans_ok ops p (map (span_of ops) cl)"
  using assms
proof (induction cl arbitrary: p q)
  case Nil
  then show ?case by (auto simp: equal_between_def)
next
  case (Cons c cl)
  obtain f l where c: "c = (f, l)" by (cases c)
  then have cl: "q \<le> f" "f \<le> l" "l < length ops" "equal_between ops q f" "cl = [] \<or> l + 7 < fst (hd cl)"
    "clusters_ok ops (l + 1) cl" "p \<le> f - 3"
    using Cons.prems(1,4) by auto
  have start: "span_start ops f 0 = f - 3"
    by (rule span_start_equal) (use cl(4,7) Cons.prems(2) in \<open>auto simp: equal_between_def\<close>)
  have next_equal: "is_equal (ops ! i)" if "l + 1 \<le> i" "i < l + 8" "i < length ops" for i
    using cl(5,6) that by (cases cl) (auto simp: equal_between_def split: prod.splits)
  have stop: "span_extent (drop (l + 1) ops) 0 = min 3 (length ops - (l + 1))"
  proof -
    have "is_equal (drop (l + 1) ops ! i)" if "i < min 3 (length (drop (l + 1) ops))" for i
      using next_equal[of "l + 1 + i"] that nth_drop[of "l + 1" ops i] cl(3) by auto
    then show ?thesis using span_extent_equal[of 3 "drop (l + 1) ops" 0] by simp
  qed
  let ?j = "l + 1 + min 3 (length ops - (l + 1))"
  have "spans_ok ops ?j (map (span_of ops) cl)"
    by (rule Cons.IH[OF cl(6)]) (use cl(3,5) in auto)
  then show ?case
    using c start stop cl Cons.prems(2) by (auto simp: span_of_def equal_between_def)
qed

section \<open>Hunks of the diff\<close>

definition range_of :: "nat \<Rightarrow> nat \<Rightarrow> hunk_range" where
  "range_of p n = \<lparr>hr_start = (if n = 0 then p else p + 1), hr_len = n\<rparr>"

definition hunk_of :: "canonical_op list \<Rightarrow> nat \<times> nat \<Rightarrow> hunk" where
  "hunk_of ops = (\<lambda>(i, j).
     let old = prefix_count consumes_old ops; new = prefix_count consumes_new ops in
     \<lparr>hk_old = range_of (old i) (old j - old i), hk_new = range_of (new i) (new j - new i),
      hk_lines = map op_line (take (j - i) (drop i ops))\<rparr>)"

lemma range_index_of [simp]: "range_index (range_of p n) = Some p"
  by (simp add: range_index_def range_of_def checked_sub_u64_def)

lemma prefix_count_lines:
  "prefix_count consumes_old ops n = length (old_lines (take n ops))"
  "prefix_count consumes_new ops n = length (new_lines (take n ops))"
  by (simp_all add: prefix_count_def old_lines_def new_lines_def)

lemma take_between: "i \<le> j \<Longrightarrow> take j xs = take i xs @ take (j - i) (drop i xs)"
  by (metis le_add_diff_inverse take_add)

lemma equal_between_list: "equal_between ops i j \<Longrightarrow> j \<le> length ops \<Longrightarrow> list_all is_equal (take (j - i) (drop i ops))"
  by (auto simp: equal_between_def list_all_length)

lemma spans_script:
  assumes "spans_ok ops p ss" "p \<le> length ops"
  shows "script_of (prefix_count consumes_old ops p) (prefix_count consumes_new ops p) (drop p ops) (map (hunk_of ops) ss)"
  using assms
proof (induction ss arbitrary: p)
  case Nil
  then show ?case using equal_between_list[of ops p "length ops"] by simp
next
  case (Cons s ss)
  obtain i j where s: "s = (i, j)" by (cases s)
  then have h: "p \<le> i" "i \<le> j" "j \<le> length ops" "equal_between ops p i" "spans_ok ops j ss" using Cons.prems(1) by auto
  let ?gap = "take (i - p) (drop p ops)" and ?body = "take (j - i) (drop i ops)"
  have gap: "list_all is_equal ?gap" using equal_between_list[OF h(4)] h(2,3) by simp
  note eq = equal_sides[OF gap]
  have parts: "take i ops = take p ops @ ?gap" "take j ops = take i ops @ ?body" using take_between h(1,2) by blast+
  have drops: "drop p ops = ?gap @ ?body @ drop j ops"
    using drop_split[OF h(1), of ops] drop_split[OF h(2), of ops] by simp
  have olds: "prefix_count consumes_old ops i = prefix_count consumes_old ops p + length ?gap"
    "prefix_count consumes_old ops j = prefix_count consumes_old ops i + length (old_lines ?body)"
    unfolding prefix_count_lines parts side_simps length_append using eq by simp_all
  have news: "prefix_count consumes_new ops i = prefix_count consumes_new ops p + length ?gap"
    "prefix_count consumes_new ops j = prefix_count consumes_new ops i + length (new_lines ?body)"
    unfolding prefix_count_lines parts side_simps length_append using eq by simp_all
  have hunk: "range_index (hk_old (hunk_of ops s)) = Some (prefix_count consumes_old ops p + length ?gap)"
    "range_index (hk_new (hunk_of ops s)) = Some (prefix_count consumes_new ops p + length ?gap)"
    "hk_lines (hunk_of ops s) = map op_line ?body" "hr_len (hk_old (hunk_of ops s)) = length (old_lines ?body)"
    using range_index_of by (simp_all only: s hunk_of_def Let_def split_conv hunk.simps olds news diff_add_inverse)
      (simp add: range_of_def)
  have rest: "script_of (prefix_count consumes_old ops p + length ?gap + length (old_lines ?body))
      (prefix_count consumes_new ops p + length ?gap + length (new_lines ?body)) (drop j ops) (map (hunk_of ops) ss)"
    using Cons.IH[OF h(5,3)] by (simp only: olds news)
  show ?case
    unfolding list.map script_of.simps
    by (rule exI[of _ ?gap], rule exI[of _ ?body], rule exI[of _ "drop j ops"]) (intro conjI drops gap hunk rest)
qed

lemma diff_hunks_script:
  "script_of 0 0 ops (map (hunk_of ops \<circ> span_of ops) (clusters_of ops))"
proof -
  have "spans_ok ops 0 (map (span_of ops) (clusters_of ops))"
    by (rule cluster_spans[OF clusters_of_ok]) simp_all
  from spans_script[OF this] show ?thesis by (simp add: prefix_count_def)
qed

section \<open>The text of the diff\<close>

definition render_range :: "hunk_range \<Rightarrow> string" where
  "render_range r = (if hr_len r = 1 then digits (hr_start r) else digits (hr_start r) @ '','' @ digits (hr_len r))"

definition render_op :: "canonical_op \<Rightarrow> string" where
  "render_op x = row_text x @ (if ends_with (op_text x) [LF] then [] else NO_NEWLINE_MARKER)"

definition render_hunk :: "hunk \<Rightarrow> string" where
  "render_hunk h = ''@@ -'' @ render_range (hk_old h) @ '' +'' @ render_range (hk_new h) @ '' @@'' @ [LF]
     @ concat (map (render_op \<circ> line_op) (hk_lines h))"

definition is_insert_line :: "diff_line \<Rightarrow> bool" where
  "is_insert_line l = (case l of InsertLine _ \<Rightarrow> True | _ \<Rightarrow> False)"

definition is_delete_line :: "diff_line \<Rightarrow> bool" where
  "is_delete_line l = (case l of DeleteLine _ \<Rightarrow> True | _ \<Rightarrow> False)"

definition changed_lines :: "(diff_line \<Rightarrow> bool) \<Rightarrow> hunk list \<Rightarrow> nat" where
  "changed_lines f hs = length (filter f (concat (map hk_lines hs)))"

lemma changed_lines_simps [simp]:
  "changed_lines f [] = 0" "changed_lines f (h # hs) = length (filter f (hk_lines h)) + changed_lines f hs"
  by (simp_all add: changed_lines_def)

lemma push_diff_row_Inr:
  "push_diff_row d k v = Inr d' \<Longrightarrow> dt_text d' = dt_text d @ v \<and> dt_additions d' = dt_additions d \<and> dt_removals d' = dt_removals d"
  by (auto simp: push_diff_row_def split: if_splits)

lemma push_op_Inr:
  assumes "push_op c d x = Inr d'"
  shows "dt_text d' = dt_text d @ render_op x
     \<and> dt_additions d' = dt_additions d + (if is_insert_line (op_line x) then 1 else 0)
     \<and> dt_removals d' = dt_removals d + (if is_delete_line (op_line x) then 1 else 0)"
proof -
  obtain n d1 d2 where x: "count_op (d\<lparr>dt_polls := n\<rparr>) x = Inr d1" "push_diff_row d1 (op_kind x) (row_text x) = Inr d2"
    "(if ends_with (op_text x) [LF] then Inr d2 else push_diff_row d2 NoNewlineRow NO_NEWLINE_MARKER) = Inr d'"
    using assms by (auto simp: push_op_def op_text_def elim!: bindR_InrE)
  have "dt_text d1 = dt_text d \<and> dt_additions d1 = dt_additions d + (if is_insert_line (op_line x) then 1 else 0)
     \<and> dt_removals d1 = dt_removals d + (if is_delete_line (op_line x) then 1 else 0)"
    using x(1) by (cases x) (auto simp: count_op_def is_insert_line_def is_delete_line_def result_simps checked_simps)
  then show ?thesis using push_diff_row_Inr[OF x(2)] x(3) push_diff_row_Inr[of d2 NoNewlineRow NO_NEWLINE_MARKER d']
    by (auto simp: render_op_def split: if_splits)
qed

lemma push_ops_Inr:
  assumes "try_fold (push_op c) d xs = Inr d'"
  shows "dt_text d' = dt_text d @ concat (map render_op xs)
     \<and> dt_additions d' = dt_additions d + length (filter is_insert_line (map op_line xs))
     \<and> dt_removals d' = dt_removals d + length (filter is_delete_line (map op_line xs))"
  using assms
proof (induction xs arbitrary: d)
  case (Cons x xs)
  then obtain d1 where "push_op c d x = Inr d1" "try_fold (push_op c) d1 xs = Inr d'" by (auto elim: bindR_InrE)
  from push_op_Inr[OF this(1)] Cons.IH[OF this(2)] show ?case by auto
qed simp

lemma push_hunk_Inr:
  assumes "push_hunk c ops d cl = Inr d'"
  shows "let h = hunk_of ops (span_of ops cl) in dt_text d' = dt_text d @ render_hunk h
     \<and> dt_additions d' = dt_additions d + length (filter is_insert_line (hk_lines h))
     \<and> dt_removals d' = dt_removals d + length (filter is_delete_line (hk_lines h))"
proof -
  obtain i j where s: "span_of ops cl = (i, j)" by (cases "span_of ops cl")
  then obtain d1 where d1: "push_diff_row d HunkRow (hunk_header ops (i, j)) = Inr d1"
    "try_fold (push_op c) d1 (take (j - i) (drop i ops)) = Inr d'"
    using assms by (auto simp: push_hunk_def elim!: bindR_InrE)
  have "format_hunk_range p n = render_range (range_of p n)" for p n
    by (simp add: format_hunk_range_def render_range_def range_of_def Let_def)
  then show ?thesis
    using push_diff_row_Inr[OF d1(1)] push_ops_Inr[OF d1(2)] s
    by (simp add: hunk_of_def hunk_header_def Let_def render_hunk_def comp_assoc)
qed

lemma push_hunks_Inr:
  assumes "try_fold (push_hunk c ops) d cls = Inr d'"
  shows "let hs = map (hunk_of ops \<circ> span_of ops) cls in dt_text d' = dt_text d @ concat (map render_hunk hs)
     \<and> dt_additions d' = dt_additions d + changed_lines is_insert_line hs
     \<and> dt_removals d' = dt_removals d + changed_lines is_delete_line hs"
  using assms
proof (induction cls arbitrary: d)
  case (Cons cl cls)
  then obtain d1 where "push_hunk c ops d cl = Inr d1" "try_fold (push_hunk c ops) d1 cls = Inr d'" by (auto elim: bindR_InrE)
  from push_hunk_Inr[OF this(1)] Cons.IH[OF this(2)] show ?case by (auto simp: Let_def)
qed simp

lemma canonical_diff_Inr:
  assumes "canonical_diff_of path op before hs c = Inr d"
  shows "\<exists>ops n. edit_script before hs c = Inr (ops, n) \<and> is_ok (reject_redundant_edits ops) \<and>
     (let ds = map (hunk_of ops \<circ> span_of ops) (clusters_of ops) in
        cn_text d = original_header op path @ ''+++ b/'' @ path @ [LF] @ concat (map render_hunk ds)
        \<and> cn_additions d = changed_lines is_insert_line ds \<and> cn_removals d = changed_lines is_delete_line ds
        \<and> cn_hunks d = length ds \<and> ds \<noteq> [])"
proof -
  obtain ops n d1 d2 d3 where x: "edit_script before hs c = Inr (ops, n)" "is_ok (reject_redundant_edits ops)" "clusters_of ops \<noteq> []"
    "push_diff_row \<lparr>dt_text = [], dt_rows = [], dt_additions = 0, dt_removals = 0, dt_polls = n\<rparr> FileHeaderRow (original_header op path) = Inr d1"
    "push_diff_row d1 FileHeaderRow (''+++ b/'' @ path @ [LF]) = Inr d2"
    "try_fold (push_hunk c ops) d2 (clusters_of ops) = Inr d3"
    "d = \<lparr>cn_text = dt_text d3, cn_rows = dt_rows d3, cn_additions = dt_additions d3, cn_removals = dt_removals d3,
          cn_hunks = length (clusters_of ops)\<rparr>"
    using assms by (auto simp: canonical_diff_of_def Let_def is_ok_iff elim!: bindR_InrE split: if_splits)
  from push_diff_row_Inr[OF x(4)] push_diff_row_Inr[OF x(5)] push_hunks_Inr[OF x(6)] x(1-3,7) show ?thesis
    by (auto simp: Let_def)
qed

section \<open>What is approved is what is written\<close>

lemma redundant_nonempty:
  assumes "try_fold redundant_step st ops = Inr st'"
  shows "\<forall>x\<in>set ops. \<not> consumes_old x \<longrightarrow> op_text x \<noteq> []"
  using assms
proof (induction ops arbitrary: st)
  case (Cons x ops)
  then obtain st1 where "redundant_step st x = Inr st1" "try_fold redundant_step st1 ops = Inr st'" by (auto elim: bindR_InrE)
  then show ?case using Cons.IH by (cases x) (auto simp: redundant_step_def split: prod.split_asm if_splits)
qed simp

lemma push_all_length:
  assumes "push_all c ls = Inr d" "\<forall>l\<in>set ls. l \<noteq> []"
  shows "length (cd_output c) + length ls \<le> length (cd_output d) \<and> (ls \<noteq> [] \<longrightarrow> length (cd_output d) \<le> MAX_MUTATION_FILE_BYTES)"
  using assms
proof (induction ls arbitrary: c)
  case (Cons l ls)
  then obtain c1 where c1: "push_candidate c l = Inr c1" "push_all c1 ls = Inr d" by (auto elim: bindR_InrE)
  then have "cd_output c1 = cd_output c @ l" "length (cd_output c1) \<le> MAX_MUTATION_FILE_BYTES"
    by (auto simp: push_candidate_def checked_simps split: if_splits option.split_asm)
  moreover have "length l \<ge> 1" using Cons.prems(2) by (cases l) auto
  ultimately show ?case using Cons.IH[OF c1(2)] Cons.prems(2) c1(2) by (cases ls) auto
qed simp

lemma diff_applies:
  assumes app: "apply_strict before hs c = Inr out" and script: "edit_script before hs c' = Inr (ops, n)"
    and red: "is_ok (reject_redundant_edits ops)" and small: "length (split_inclusive before) < U64_LIMIT"
  shows "apply_strict before (map (hunk_of ops \<circ> span_of ops) (clusters_of ops)) never = Inr out"
proof -
  have ops: "ops = script (split_inclusive before) 0 hs" by (rule edit_script_is[OF script])
  obtain d where d: "old_lines ops = split_inclusive before" "push_all (st_candidate strict_start) (new_lines ops) = Inr d"
    "cd_output d = out"
    using apply_strict_script[OF app] ops by blast
  obtain st where st: "try_fold redundant_step ([], []) ops = Inr st"
    using red by (auto simp: reject_redundant_edits_def is_ok_iff result_simps)
  have "l \<noteq> []" if l: "l \<in> set (new_lines ops)" for l
  proof -
    obtain x where x: "x \<in> set ops" "l = op_text x" using l by (auto simp: new_lines_def)
    show ?thesis
    proof (cases "consumes_old x")
      case True
      then have "l \<in> set (split_inclusive before)" using x unfolding d(1)[symmetric] by (simp add: old_lines_def)
      then show ?thesis using split_inclusive_lines(1)[of before] by (auto simp: is_line_def)
    next
      case False
      then show ?thesis using bspec[OF redundant_nonempty[OF st] x(1)] x(2) by simp
    qed
  qed
  then have "\<forall>l\<in>set (new_lines ops). l \<noteq> []" by blast
  note len = push_all_length[OF d(2) this]
  have "length (new_lines ops) < U64_LIMIT"
  proof (cases "new_lines ops = []")
    case True
    then show ?thesis by (simp add: U64_LIMIT_def)
  next
    case False
    then have "length (new_lines ops) \<le> MAX_MUTATION_FILE_BYTES" using len by linarith
    then show ?thesis by (simp add: MAX_MUTATION_FILE_BYTES_def U64_LIMIT_def)
  qed
  from apply_strict_never[OF diff_hunks_script d(1,2) this small] d(3) show ?thesis by simp
qed

lemma normalized_restored:
  assumes "normalize_existing_text raw = Inr (before, endings)"
  shows "with_endings endings before = raw \<and> length (split_inclusive before) < U64_LIMIT"
proof -
  let ?crlf = "contains_crlf raw"
  have n: "before = (if ?crlf then replace_crlf [LF] raw else raw)" "endings = (if ?crlf then CrLfEndings else LfEndings)"
    "CR \<notin> set (replace_crlf [] raw)" "?crlf \<longrightarrow> LF \<notin> set (replace_crlf [] raw)" "is_ok (validate_file_text before)"
    using assms by (auto simp: normalize_existing_text_def Let_def is_ok_iff result_simps split: if_splits)
  have "length (split_inclusive before) < U64_LIMIT"
    using n(5) by (auto simp: validate_file_text_def is_ok_def MAX_MUTATION_FILE_LINES_def U64_LIMIT_def split: if_splits)
  then show ?thesis using n(1-4) crlf_restored by (auto simp: with_endings_def)
qed

text \<open>
  C3: what is approved is what is written.  When a patch is prepared, the approval shows a diff whose
  hunks, applied strictly to the file as it was read, give exactly the text that will be written, byte for
  byte with the file's own line endings, and the patch itself gives the same text; the numbers of added and
  removed lines shown are those of the diff.
\<close>

theorem approved_diff_is_the_change:
  assumes "prepare_mutation E raw p c c' = Inr m"
  shows "\<exists>before endings hs out.
       with_endings endings before = raw \<and> pm_bytes m = with_endings endings out \<and> out \<noteq> before
     \<and> apply_strict before (pp_hunks p) c = Inr out \<and> apply_strict before hs never = Inr out
     \<and> ap_preview (pm_prompt m)
         = original_header (pp_operation p) (pp_path p) @ ''+++ b/'' @ pp_path p @ [LF] @ concat (map render_hunk hs)
     \<and> (\<exists>rows. ap_kind (pm_prompt m) = CanonicalPatchPreview \<lparr>cp_operation = pp_operation p, cp_path = pp_path p, cp_rows = rows,
          cp_additions = changed_lines is_insert_line hs, cp_removals = changed_lines is_delete_line hs, cp_hunks = length hs\<rparr>)"
proof -
  obtain before out raw' d prompt where x: "patched_text raw (pp_hunks p) c = Inr (before, out, raw')"
    "canonical_diff_of (pp_path p) (pp_operation p) before (pp_hunks p) c' = Inr d"
    "canonical_patch (approval_reason (pp_operation p) (pp_path p)) (cn_text d) (pp_operation p) (pp_path p)
        (cn_rows d) (cn_additions d) (cn_removals d) (cn_hunks d) = Inr prompt"
    "pm_prompt m = prompt" "pm_bytes m = raw'"
    using assms unfolding prepare_mutation_def by (auto simp: result_simps split: if_splits)
  obtain endings where t: "normalize_existing_text raw = Inr (before, endings)" "apply_strict before (pp_hunks p) c = Inr out"
    "out \<noteq> before" "raw' = with_endings endings out"
    using x(1) by (auto simp: patched_text_def candidate_bytes_def Let_def result_simps split: if_splits)
  obtain ops n where o: "edit_script before (pp_hunks p) c' = Inr (ops, n)" "is_ok (reject_redundant_edits ops)"
    and ds: "let ds = map (hunk_of ops \<circ> span_of ops) (clusters_of ops) in
        cn_text d = original_header (pp_operation p) (pp_path p) @ ''+++ b/'' @ pp_path p @ [LF] @ concat (map render_hunk ds)
        \<and> cn_additions d = changed_lines is_insert_line ds \<and> cn_removals d = changed_lines is_delete_line ds
        \<and> cn_hunks d = length ds \<and> ds \<noteq> []"
    using canonical_diff_Inr[OF x(2)] by auto
  let ?ds = "map (hunk_of ops \<circ> span_of ops) (clusters_of ops)"
  have "apply_strict before ?ds never = Inr out"
    by (rule diff_applies[OF t(2) o]) (use normalized_restored[OF t(1)] in simp)
  moreover have "ap_preview prompt = cn_text d" "ap_kind prompt = CanonicalPatchPreview \<lparr>cp_operation = pp_operation p,
      cp_path = pp_path p, cp_rows = cn_rows d, cp_additions = cn_additions d, cp_removals = cn_removals d, cp_hunks = cn_hunks d\<rparr>"
    using x(3) by (auto simp: canonical_patch_def result_simps split: if_splits)
  ultimately show ?thesis
    using ds t x(4,5) normalized_restored[OF t(1)]
    by (intro exI[of _ before] exI[of _ endings] exI[of _ ?ds] exI[of _ out]) (auto simp: Let_def)
qed

end
