(* ===== verification/Tool_Arguments.thy ===== *)
theory Tool_Arguments
  imports Tool_Results Text_Lines
begin

text \<open>
  The argument readers of the workspace tools, \<open>src/tools/arguments.rs\<close>, and the failures of
  \<open>src/tools/error.rs\<close> that name a path.  The arguments of a call are an admitted JSON value; a
  reader rejects unknown fields, a null in place of an omitted fld and every value out of bounds.
\<close>

section \<open>Failures\<close>

definition fs_error :: "string \<Rightarrow> string \<Rightarrow> tool_call_error" where
  "fs_error code message = ToolModelError ''FsError'' code message"

definition shell_workdir_outside_workspace :: tool_call_error where
  "shell_workdir_outside_workspace = ToolModelError ''ShellWorkdirError'' ''SHELL_WORKDIR_OUTSIDE_WORKSPACE''
     ''the requested shell working directory is outside the retained workspace or crosses a symbolic link''"

definition shell_workdir_not_found :: tool_call_error where
  "shell_workdir_not_found = ToolModelError ''ShellWorkdirError'' ''SHELL_WORKDIR_NOT_FOUND''
     ''the requested shell working directory was not found''"

definition shell_workdir_not_directory :: tool_call_error where
  "shell_workdir_not_directory = ToolModelError ''ShellWorkdirError'' ''SHELL_WORKDIR_NOT_DIRECTORY''
     ''the requested shell working directory is not a directory''"

definition shell_workdir_changed :: tool_call_error where
  "shell_workdir_changed = ToolModelError ''ShellWorkdirError'' ''SHELL_WORKDIR_CHANGED''
     ''the shell working directory changed while the command was being prepared''"

definition not_found :: "string \<Rightarrow> tool_call_error" where
  "not_found path = fs_error ''FS_NOT_FOUND'' (''workspace path `'' @ path @ ''` was not found'')"

definition not_directory :: "string \<Rightarrow> tool_call_error" where
  "not_directory path = fs_error ''FS_NOT_DIRECTORY'' (''workspace path `'' @ path @ ''` is not a directory'')"

definition not_regular_file :: "string \<Rightarrow> tool_call_error" where
  "not_regular_file path = fs_error ''FS_NOT_REGULAR_FILE'' (''workspace path `'' @ path @ ''` is not a regular file'')"

definition file_not_text :: "string \<Rightarrow> tool_call_error" where
  "file_not_text path = fs_error ''FS_NOT_TEXT'' (''workspace file `'' @ path @ ''` is binary or is not valid UTF-8'')"

definition too_large :: "string \<Rightarrow> tool_call_error" where
  "too_large path = fs_error ''FS_TOO_LARGE'' (''workspace file `'' @ path @ ''` exceeds the read limit'')"

definition file_changed_error :: "string \<Rightarrow> tool_call_error" where
  "file_changed_error path = fs_error ''FS_CHANGED'' (''workspace file `'' @ path @ ''` changed while it was being read'')"

definition invalid_pattern :: "string \<Rightarrow> tool_call_error" where
  "invalid_pattern message = ToolModelError ''SearchError'' ''SEARCH_INVALID_PATTERN'' message"

definition unknown_tool :: tool_call_error where
  "unknown_tool = ToolModelError ''ToolError'' ''UNKNOWN_TOOL'' ''the requested tool is not present in this read-only registry''"

text \<open>The kinds of \<open>io::Error\<close> that the tools distinguish.\<close>

datatype io_error =
    IoNotFound | IoPermissionDenied | IoNotADirectory | IoInvalidInput | IoAlreadyExists | IoInterrupted
  | IoEscape \<comment> \<open>a permission error with the text of an attempted capability escape\<close>
  | IoOther

definition is_permission_denied :: "io_error \<Rightarrow> bool" where
  "is_permission_denied e = (e = IoPermissionDenied \<or> e = IoEscape)"

definition io_failure :: "io_error \<Rightarrow> string \<Rightarrow> bool \<Rightarrow> tool_call_error" where
  "io_failure e path expects_directory =
     (if e = IoNotFound then not_found path
      else if is_permission_denied e
      then fs_error ''FS_PERMISSION_DENIED'' (''permission denied for workspace path `'' @ path @ ''`'')
      else if e = IoNotADirectory then not_directory path
      else if e = IoInvalidInput then workspace_denied
      else if expects_directory
      then fs_error ''FS_IO_ERROR'' (''could not list workspace directory `'' @ path @ ''`'')
      else fs_error ''FS_IO_ERROR'' (''could not read workspace path `'' @ path @ ''`''))"

section \<open>Checks on strings\<close>

definition MAX_TOOL_ARGUMENT_STRING_BYTES :: nat where
  "MAX_TOOL_ARGUMENT_STRING_BYTES = 4 * 1024"

definition READ_MAX_LINES :: nat where
  "READ_MAX_LINES = 2000"

definition validate_nonblank :: "string \<Rightarrow> string \<Rightarrow> tool_call_error + unit" where
  "validate_nonblank v fld = requireR (\<not> blank v) (invalid_args (fld @ '' must not be blank''))"

definition validate_string :: "string \<Rightarrow> string \<Rightarrow> tool_call_error + unit" where
  "validate_string v fld =
     requireR (\<not> (length v > MAX_TOOL_ARGUMENT_STRING_BYTES \<or> has_control v))
       (invalid_args (fld @ '' must be at most '' @ digits MAX_TOOL_ARGUMENT_STRING_BYTES
          @ '' bytes and contain no control characters''))"

definition validate_path :: "string \<Rightarrow> string \<Rightarrow> tool_call_error + unit" where
  "validate_path v fld = bindR (validate_nonblank v fld) (\<lambda>_. validate_string v fld)"

text \<open>
  The state of \<open>has_top_level_comma\<close> is the brace depth and whether the character before was a
  backslash.  The characters it looks for are single bytes, and the bytes after the first of a
  longer character change nothing.
\<close>

fun top_level_comma :: "nat \<Rightarrow> bool \<Rightarrow> string \<Rightarrow> bool" where
  "top_level_comma depth escaped [] = False"
| "top_level_comma depth escaped (c # s) =
     (if escaped then top_level_comma depth False s
      else if c = CHR 0x5C then top_level_comma depth True s
      else if c = CHR ''{'' then top_level_comma (saturating_add_u64 depth 1) False s
      else if c = CHR ''}'' then top_level_comma (depth - 1) False s
      else if c = CHR '','' \<and> depth = 0 then True
      else top_level_comma depth False s)"

definition has_top_level_comma :: "string \<Rightarrow> bool" where
  "has_top_level_comma pattern = top_level_comma 0 False pattern"

section \<open>Readers\<close>

definition parse_args :: "string \<Rightarrow> (json \<Rightarrow> 'a option) \<Rightarrow> json \<Rightarrow> tool_call_error + 'a" where
  "parse_args tool de v = ok_or (invalid_args (tool @ '' arguments must match the advertised object schema'')) (de v)"

definition list_wire :: "json \<Rightarrow> string option option" where
  "list_wire v = do { m \<leftarrow> strict_fields [''path''] v; present_option m ''path'' as_str }"

definition glob_wire :: "json \<Rightarrow> (string \<times> string option) option" where
  "glob_wire v =
     do { m \<leftarrow> strict_fields [''pattern'', ''path''] v;
          pattern \<leftarrow> get_str m ''pattern'';
          path \<leftarrow> present_option m ''path'' as_str;
          Some (pattern, path) }"

definition grep_wire :: "json \<Rightarrow> (string \<times> string option \<times> string option) option" where
  "grep_wire v =
     do { m \<leftarrow> strict_fields [''pattern'', ''path'', ''include''] v;
          pattern \<leftarrow> get_str m ''pattern'';
          path \<leftarrow> present_option m ''path'' as_str;
          inc \<leftarrow> present_option m ''include'' as_str;
          Some (pattern, path, inc) }"

definition read_wire :: "json \<Rightarrow> (string \<times> nat option \<times> nat option) option" where
  "read_wire v =
     do { m \<leftarrow> strict_fields [''file_path'', ''offset'', ''limit''] v;
          path \<leftarrow> get_str m ''file_path'';
          offset \<leftarrow> present_option m ''offset'' as_u64;
          limit \<leftarrow> present_option m ''limit'' as_u64;
          Some (path, offset, limit) }"

record glob_args =
  ga_pattern :: string
  ga_path :: string

record grep_args =
  gp_pattern :: string
  gp_path :: string
  gp_include :: "string option"

record read_args =
  ra_file_path :: string
  ra_offset :: nat
  ra_limit :: nat

definition or_root :: "string option \<Rightarrow> string" where
  "or_root p = (case p of None \<Rightarrow> ''.'' | Some p \<Rightarrow> p)"

definition parse_list :: "json \<Rightarrow> tool_call_error + string" where
  "parse_list v =
     bindR (parse_args ''list'' list_wire v) (\<lambda>path.
     bindR (validate_path (or_root path) ''list.path'') (\<lambda>_. Inr (or_root path)))"

definition parse_glob :: "json \<Rightarrow> tool_call_error + glob_args" where
  "parse_glob v =
     bindR (parse_args ''glob'' glob_wire v) (\<lambda>(pattern, path).
     bindR (validate_nonblank pattern ''glob.pattern'') (\<lambda>_.
     bindR (validate_string pattern ''glob.pattern'') (\<lambda>_.
     bindR (validate_path (or_root path) ''glob.path'') (\<lambda>_.
       Inr \<lparr>ga_pattern = pattern, ga_path = or_root path\<rparr>))))"

definition validate_include :: "string \<Rightarrow> tool_call_error + unit" where
  "validate_include inc =
     bindR (validate_nonblank inc ''grep.include'') (\<lambda>_.
     bindR (validate_string inc ''grep.include'') (\<lambda>_.
       requireR (\<not> (starts_with inc ''!'' \<or> has_top_level_comma inc))
         (invalid_args ''grep.include must be one positive glob pattern'')))"

definition parse_grep :: "json \<Rightarrow> tool_call_error + grep_args" where
  "parse_grep v =
     bindR (parse_args ''grep'' grep_wire v) (\<lambda>(pattern, path, inc).
       if pattern = [] then Inl (invalid_args ''grep.pattern must not be empty'')
       else
         bindR (validate_string pattern ''grep.pattern'') (\<lambda>_.
         bindR (validate_path (or_root path) ''grep.path'') (\<lambda>_.
         bindR (case inc of None \<Rightarrow> Inr () | Some i \<Rightarrow> validate_include i) (\<lambda>_.
           Inr \<lparr>gp_pattern = pattern, gp_path = or_root path, gp_include = inc\<rparr>))))"

definition parse_read :: "json \<Rightarrow> tool_call_error + read_args" where
  "parse_read v =
     bindR (parse_args ''read'' read_wire v) (\<lambda>(path, offset, limit).
     bindR (validate_path path ''read.file_path'') (\<lambda>_.
       let offset = (case offset of None \<Rightarrow> 1 | Some n \<Rightarrow> n);
           limit = (case limit of None \<Rightarrow> READ_MAX_LINES | Some n \<Rightarrow> n) in
       if offset = 0 then Inl (invalid_args ''read.offset must be a positive integer'')
       else if limit = 0 \<or> limit > READ_MAX_LINES
       then Inl (invalid_args (''read.limit must be between 1 and '' @ digits READ_MAX_LINES))
       else Inr \<lparr>ra_file_path = path, ra_offset = offset, ra_limit = limit\<rparr>))"

lemma validate_path_Inr [result_simps]:
  "validate_path v fld = Inr u \<longleftrightarrow> \<not> blank v \<and> length v \<le> MAX_TOOL_ARGUMENT_STRING_BYTES \<and> \<not> has_control v"
  by (auto simp: validate_path_def validate_nonblank_def validate_string_def result_simps)

lemma parse_read_bounds:
  "parse_read v = Inr a \<Longrightarrow>
     0 < ra_offset a \<and> 0 < ra_limit a \<and> ra_limit a \<le> READ_MAX_LINES
     \<and> length (ra_file_path a) \<le> MAX_TOOL_ARGUMENT_STRING_BYTES \<and> \<not> has_control (ra_file_path a)"
  by (auto simp: parse_read_def result_simps Let_def split: if_splits)

end
