(* ===== verification/Workspace_Commit.thy ===== *)
theory Workspace_Commit
  imports Patch_Diff Tool_Arguments
begin

text \<open>
  The commit of a prepared mutation, \<open>PreparedWorkspaceMutation::commit\<close> of \<open>src/tools/workspace.rs\<close>: the
  lock of the workspace, the two revalidations of the target, the private staging directory and its
  file, the one system call that publishes it, and the cleanup.  What the file system answers is
  input; the cancellation token is asked by the number of the inquiry.  The result says, beside
  the status the program returns, whether the publishing call succeeded.
\<close>

section \<open>The target and the answers of the file system\<close>

record mutation_snapshot =
  ms_dev :: nat
  ms_ino :: nat
  ms_len :: nat
  ms_mode :: nat
  ms_nlink :: nat
  ms_mtime :: int
  ms_mtime_nsec :: int
  ms_ctime :: int
  ms_ctime_nsec :: int

record mutation_target =
  mt_parent :: "nat \<times> nat"
  mt_display :: string
  mt_operation :: patch_operation
  mt_baseline :: "string option"
  mt_snapshot :: "mutation_snapshot option"

datatype lock_answer = LockFree | LockHeld | LockPoisoned

text \<open>The device and inode of the parent, when it can be opened again and asked for them.\<close>

datatype parent_answer = ParentRefused | ParentOpened "(nat \<times> nat) option"

datatype entry_answer = EntryExists | EntryError io_error

datatype target_answer = TargetRead string mutation_snapshot | TargetAborted | TargetRefused

text \<open>The answers that are asked for twice carry the number of the revalidation.\<close>

record commit_answers =
  cm_cancelled :: "nat \<Rightarrow> bool"
  cm_lock :: "lock_answer list"
  cm_parent :: "nat \<Rightarrow> parent_answer"
  cm_entry :: "nat \<Rightarrow> entry_answer"
  cm_target :: "nat \<Rightarrow> target_answer"
  cm_stage_id :: bool
  cm_stage_created :: bool
  cm_stage_opened :: bool
  cm_file_created :: bool
  cm_write :: "nat \<Rightarrow> io_error option"
  cm_permissions :: "io_error option"
  cm_sync :: "io_error option"
  cm_publish :: "io_error option"
  cm_candidate_removed :: "io_error option"
  cm_stage_removed :: bool
  cm_parent_synced :: bool

section \<open>Revalidation\<close>

definition conflict :: "string \<Rightarrow> tool_call_error" where
  "conflict message = ToolModelError ''FileConflictError'' ''FILE_CONFLICT'' message"

definition parent_changed :: "mutation_target \<Rightarrow> tool_call_error" where
  "parent_changed t = conflict (''workspace parent for `'' @ mt_display t @ ''` changed after preparation'')"

definition target_changed :: "mutation_target \<Rightarrow> tool_call_error" where
  "target_changed t = conflict (''workspace file `'' @ mt_display t @ ''` changed after preparation'')"

definition already_exists :: "string \<Rightarrow> tool_call_error" where
  "already_exists display =
     ToolModelError ''FileConflictError'' ''FILE_ALREADY_EXISTS'' (''workspace file `'' @ display @ ''` already exists'')"

definition same_snapshot :: "mutation_snapshot \<Rightarrow> mutation_snapshot \<Rightarrow> bool" where
  "same_snapshot a b =
     (ms_dev a = ms_dev b \<and> ms_ino a = ms_ino b \<and> ms_len a = ms_len b \<and> ms_mode a mod 512 = ms_mode b mod 512
      \<and> ms_nlink a = ms_nlink b \<and> ms_mtime a = ms_mtime b \<and> ms_mtime_nsec a = ms_mtime_nsec b
      \<and> ms_ctime a = ms_ctime b \<and> ms_ctime_nsec a = ms_ctime_nsec b)"

definition target_refusal :: "mutation_target \<Rightarrow> commit_answers \<Rightarrow> nat \<Rightarrow> tool_call_error option" where
  "target_refusal t I round =
     (case mt_operation t of
        PatchCreate \<Rightarrow>
          (case cm_entry I round of
             EntryError IoNotFound \<Rightarrow> None
           | EntryExists \<Rightarrow> Some (already_exists (mt_display t))
           | EntryError e \<Rightarrow> Some (io_failure e (mt_display t) False))
      | PatchUpdate \<Rightarrow>
          let baseline = (case mt_baseline t of None \<Rightarrow> [] | Some b \<Rightarrow> b) in
          (case mt_snapshot t of
             None \<Rightarrow> Some (ToolModelError ''ToolError'' ''FILE_CONFLICT'' ''prepared update lost its baseline identity'')
           | Some snapshot \<Rightarrow>
               (case cm_target I round of
                  TargetRead current s \<Rightarrow>
                    if current = baseline \<and> same_snapshot s snapshot then None else Some (target_changed t)
                | TargetAborted \<Rightarrow> Some aborted
                | TargetRefused \<Rightarrow> Some (target_changed t))))"

text \<open>The refusal, if any, and the number of the next inquiry of the token.\<close>

definition revalidate :: "mutation_target \<Rightarrow> commit_answers \<Rightarrow> nat \<Rightarrow> nat \<Rightarrow> tool_call_error option \<times> nat" where
  "revalidate t I round n =
     (if cm_cancelled I n then (Some aborted, n + 1)
      else case cm_parent I round of
        ParentRefused \<Rightarrow> (Some (if cm_cancelled I (n + 1) then aborted else parent_changed t), n + 2)
      | ParentOpened identity \<Rightarrow>
          if identity \<noteq> Some (mt_parent t) then (Some (parent_changed t), n + 1)
          else if cm_cancelled I (n + 1) then (Some aborted, n + 2)
          else (target_refusal t I round, n + 2))"

section \<open>Staging\<close>

definition MAX_READ_CHUNK_BYTES :: nat where
  "MAX_READ_CHUNK_BYTES = 64 * 1024"

definition staging_error :: "io_error \<Rightarrow> tool_call_error" where
  "staging_error e = io_failure e ''the private staging file'' False"

text \<open>\<open>write_chunks I remaining done n\<close>: the chunks are numbered by how many are done.\<close>

fun write_chunks :: "commit_answers \<Rightarrow> nat \<Rightarrow> nat \<Rightarrow> nat \<Rightarrow> tool_call_error + nat" where
  "write_chunks I 0 k n = Inr n"
| "write_chunks I (Suc r) k n =
     (if cm_cancelled I n then Inl aborted
      else case cm_write I k of
        Some e \<Rightarrow> Inl (staging_error e)
      | None \<Rightarrow> write_chunks I r (k + 1) (n + 1))"

definition write_staging_file :: "commit_answers \<Rightarrow> string \<Rightarrow> nat \<Rightarrow> tool_call_error + nat" where
  "write_staging_file I bytes n =
     bindR (write_chunks I ((length bytes + (MAX_READ_CHUNK_BYTES - 1)) div MAX_READ_CHUNK_BYTES) 0 n) (\<lambda>n.
       if cm_cancelled I n then Inl aborted
       else case cm_permissions I of
         Some e \<Rightarrow> Inl (staging_error e)
       | None \<Rightarrow>
           (case cm_sync I of
              Some e \<Rightarrow> Inl (staging_error e)
            | None \<Rightarrow> Inr (n + 1)))"

text \<open>Whether the staging directory and its file are gone.\<close>

definition cleanup_staging :: "commit_answers \<Rightarrow> bool" where
  "cleanup_staging I =
     (case cm_candidate_removed I of
        None \<Rightarrow> cm_stage_removed I
      | Some IoNotFound \<Rightarrow> cm_stage_removed I
      | Some _ \<Rightarrow> False)"

definition publication_error :: "patch_operation \<Rightarrow> io_error \<Rightarrow> string \<Rightarrow> tool_call_error" where
  "publication_error op e display =
     (if op = PatchCreate \<and> e = IoAlreadyExists then already_exists display
      else if is_permission_denied e
      then fs_error ''FS_PERMISSION_DENIED'' (''permission denied while publishing workspace file `'' @ display @ ''`'')
      else fs_error ''FS_IO_ERROR'' (''could not publish workspace file `'' @ display @ ''`''))"

section \<open>The commit\<close>

datatype lock_result = LockTaken nat | LockCancelled | LockBroken | LockWaits

fun take_lock :: "commit_answers \<Rightarrow> lock_answer list \<Rightarrow> nat \<Rightarrow> lock_result" where
  "take_lock I answers n =
     (if cm_cancelled I n then LockCancelled
      else case answers of
        [] \<Rightarrow> LockWaits
      | LockFree # _ \<Rightarrow> LockTaken (n + 1)
      | LockPoisoned # _ \<Rightarrow> LockBroken
      | LockHeld # answers \<Rightarrow> take_lock I answers (n + 1))"

declare take_lock.simps [simp del]

text \<open>Whether the file was published, and what the program returns.\<close>

datatype commit_end = CommitWaits | CommitEnds bool "commit_error + commit_status"

definition refused :: "tool_call_error \<Rightarrow> commit_end" where
  "refused e = CommitEnds False (Inr (StatusNotCommitted e False))"

definition refused_after_cleanup :: "tool_call_error \<Rightarrow> bool \<Rightarrow> commit_end" where
  "refused_after_cleanup e cleanup_ok = CommitEnds False (Inr (StatusNotCommitted e (\<not> cleanup_ok)))"

definition publish_staged :: "mutation_target \<Rightarrow> commit_answers \<Rightarrow> nat \<Rightarrow> commit_end" where
  "publish_staged t I n =
     (if cm_cancelled I n then refused_after_cleanup aborted (cleanup_staging I)
      else case revalidate t I 1 (n + 1) of
        (Some e, _) \<Rightarrow> refused_after_cleanup e (cleanup_staging I)
      | (None, n) \<Rightarrow>
          if cm_cancelled I n then refused_after_cleanup aborted (cleanup_staging I)
          else case cm_publish I of
            Some e \<Rightarrow> refused_after_cleanup (publication_error (mt_operation t) e (mt_display t)) (cleanup_staging I)
          | None \<Rightarrow> CommitEnds True (Inr (StatusCommitted (\<not> cm_parent_synced I) (\<not> cleanup_staging I))))"

definition stage_candidate :: "mutation_target \<Rightarrow> commit_answers \<Rightarrow> string \<Rightarrow> nat \<Rightarrow> commit_end" where
  "stage_candidate t I bytes n =
     (if \<not> cm_stage_id I \<or> \<not> cm_stage_created I
      then refused (fs_error ''FS_IO_ERROR'' ''could not create a private staging directory'')
      else if \<not> cm_stage_opened I
      then refused_after_cleanup (fs_error ''FS_IO_ERROR'' ''could not open the private staging directory'') (cm_stage_removed I)
      else if cm_cancelled I n then refused_after_cleanup aborted (cleanup_staging I)
      else if \<not> cm_file_created I
      then refused_after_cleanup (fs_error ''FS_IO_ERROR'' ''could not create a private staging file'') (cm_stage_removed I)
      else case write_staging_file I bytes (n + 1) of
        Inl e \<Rightarrow> refused_after_cleanup e (cleanup_staging I)
      | Inr n \<Rightarrow> publish_staged t I n)"

definition commit_file :: "mutation_target \<Rightarrow> commit_answers \<Rightarrow> string \<Rightarrow> commit_end" where
  "commit_file t I bytes =
     (case take_lock I (cm_lock I) 0 of
        LockWaits \<Rightarrow> CommitWaits
      | LockCancelled \<Rightarrow> refused aborted
      | LockBroken \<Rightarrow> CommitEnds False (Inl ToolExecutorCommitError)
      | LockTaken n \<Rightarrow>
          if cm_cancelled I n then refused aborted
          else case revalidate t I 0 (n + 1) of
            (Some e, _) \<Rightarrow> refused e
          | (None, n) \<Rightarrow> stage_candidate t I bytes n)"

section \<open>What a commit tells\<close>

text \<open>The failures of a commit have short names, codes and texts.\<close>

definition short_error :: "string \<Rightarrow> tool_call_error \<Rightarrow> bool" where
  "short_error display e =
     (case e of
        ToolModelError name code message \<Rightarrow> name \<noteq> [] \<and> code \<noteq> [] \<and> length name \<le> 256 \<and> length code \<le> 256
          \<and> length message \<le> length display + 200
      | ToolInfrastructure \<Rightarrow> False)"

lemma short_errors:
  "short_error d aborted" "short_error d (already_exists d)" "short_error d (io_failure x d False)"
  "short_error d (staging_error x)" "short_error d (publication_error op x d)"
  "length m \<le> 200 \<Longrightarrow> short_error d (fs_error ''FS_IO_ERROR'' m)"
  by (simp_all add: short_error_def aborted_def already_exists_def io_failure_def staging_error_def publication_error_def
      fs_error_def not_found_def not_directory_def workspace_denied_def)

lemma short_revalidation:
  "revalidate t I round n = (Some e, n') \<Longrightarrow> short_error (mt_display t) e"
  by (auto simp: revalidate_def target_refusal_def Let_def short_errors split: if_splits parent_answer.splits patch_operation.splits
      entry_answer.splits io_error.splits option.splits target_answer.splits)
    (simp_all add: short_error_def parent_changed_def target_changed_def conflict_def)

lemma short_writing: "write_chunks I r k n = Inl e \<Longrightarrow> short_error d e"
  by (induction I r k n rule: write_chunks.induct) (auto simp: short_errors split: if_splits option.splits)

text \<open>
  An end without publication names a short failure; after the publication the flags are those of the
  cleanup and of the synchronization.
\<close>

definition truthful_end :: "mutation_target \<Rightarrow> commit_answers \<Rightarrow> commit_end \<Rightarrow> bool" where
  "truthful_end t I x =
     (case x of
        CommitEnds True s \<Rightarrow> cm_publish I = None \<and> s = Inr (StatusCommitted (\<not> cm_parent_synced I) (\<not> cleanup_staging I))
      | CommitEnds False (Inr (StatusNotCommitted e w)) \<Rightarrow> short_error (mt_display t) e
      | _ \<Rightarrow> False)"

lemma refused_truthful [simp]:
  "truthful_end t I (refused e) = short_error (mt_display t) e"
  "truthful_end t I (refused_after_cleanup e w) = short_error (mt_display t) e"
  by (simp_all add: truthful_end_def refused_def refused_after_cleanup_def)

lemma publish_truthful: "truthful_end t I (publish_staged t I n)"
  by (auto simp: publish_staged_def short_errors short_revalidation split: option.split prod.split)
    (simp add: truthful_end_def)

lemma stage_truthful: "truthful_end t I (stage_candidate t I bytes n)"
  by (auto simp: stage_candidate_def write_staging_file_def short_errors publish_truthful short_writing bindR_Inl_iff
      split: option.splits sum.split if_splits)

lemma take_lock_broken: "take_lock I answers n = LockBroken \<Longrightarrow> LockPoisoned \<in> set answers"
  by (induction I answers n rule: take_lock.induct)
    (subst (asm) (2) take_lock.simps, auto split: if_splits list.splits lock_answer.splits)

lemma take_lock_waits: "take_lock I answers n = LockWaits \<Longrightarrow> set answers \<subseteq> {LockHeld}"
  by (induction I answers n rule: take_lock.induct)
    (subst (asm) (2) take_lock.simps, auto split: if_splits list.splits lock_answer.splits)

lemma commit_ends:
  "commit_file t I bytes = CommitWaits \<and> set (cm_lock I) \<subseteq> {LockHeld}
   \<or> commit_file t I bytes = CommitEnds False (Inl ToolExecutorCommitError) \<and> LockPoisoned \<in> set (cm_lock I)
   \<or> truthful_end t I (commit_file t I bytes)"
  by (auto simp: commit_file_def short_errors short_revalidation stage_truthful take_lock_broken dest: take_lock_waits
      split: lock_result.split option.split prod.split)

end
