(* ===== verification/Patch_Settlement.thy ===== *)
theory Patch_Settlement
  imports Patch_Proofs Workspace_Commit "HOL-Library.Code_Target_Numeral"
begin

text \<open>
  Every outcome of a prepared mutation can be written: its results fit, and say truthfully whether
  the file was changed.  The last section runs a whole patch on an example file.
\<close>

section \<open>Every prepared mutation settles\<close>

lemma block_text_ok:
  assumes "length s \<le> 100000"
  shows "\<exists>b. block_text E s = Inr b \<and> jv_encoded_len (cb_raw b) \<le> 6 * length s + 50"
proof -
  let ?v = "obj_of [(''type'', JString ''text''), (''text'', JString s)]"
  have v: "?v = JObject [(''text'', JString s), (''type'', JString ''text'')]" by (simp add: obj_of_def byte_def)
  have len: "length (json_text E ?v) \<le> 6 * length s + 50"
    using string_text_length[of s] by (simp add: v) (simp add: string_text_def escape_char_def byte_def)
  have "json_value_new E ?v = Inr \<lparr>jv_value = ?v, jv_encoded_len = length (json_text E ?v)\<rparr>"
    using len assms by (simp add: json_value_new_iff v MAX_JSON_NODES_def MAX_JSON_DEPTH_def number_ok_def MAX_JSON_VALUE_BYTES_def)
  then show ?thesis using len by (simp add: block_text_def block_from_value_def new_value_def)
qed

definition meta_fields :: "string \<Rightarrow> patch_operation \<Rightarrow> string \<Rightarrow> bool \<Rightarrow> bool \<Rightarrow> fields" where
  "meta_fields path op diff committed cleanup_warning =
     (if cleanup_warning then [(''cleanupWarning'', JBool True)] else [])
      @ [(''committed'', JBool committed), (''diff'', JString diff), (''operation'', JString (operation_name op)), (''path'', JString path)]"

lemma mutation_meta_fields:
  "mutation_meta E path op diff committed w = executor (json_value_new E (JObject (meta_fields path op diff committed w)))"
  by (simp add: mutation_meta_def meta_fields_def obj_of_def byte_def)

lemma mutation_meta_marker:
  "mutation_meta E path op diff committed w = Inr meta \<Longrightarrow>
     \<exists>fs. jv_value meta = JObject fs \<and> get_bool fs ''committed'' = Some committed"
  by (auto simp: mutation_meta_fields meta_fields_def map_err_Inr_iff get_bool_def dest!: json_value_new_value)

text \<open>The probe is the longest of the results that may still have to be written.\<close>

lemma mutation_meta_probe:
  assumes "mutation_meta E path op diff False True = Inr probe"
  shows "\<exists>meta. mutation_meta E path op diff False w = Inr meta \<and> jv_encoded_len meta \<le> jv_encoded_len probe"
proof (cases w)
  case False
  let ?v = "JObject (meta_fields path op diff False False)"
  have probe: "json_value_new E (JObject (meta_fields path op diff False True)) = Inr probe"
    using assms by (simp add: mutation_meta_fields map_err_Inr_iff)
  then have n: "json_nodes (JObject (meta_fields path op diff False True)) \<le> MAX_JSON_NODES"
    "json_fits 0 (JObject (meta_fields path op diff False True))"
    "jv_encoded_len probe = length (json_text E (JObject (meta_fields path op diff False True)))"
    by (simp_all add: json_value_new_iff meta_fields_def)
  have n4: "jv_encoded_len probe \<le> MAX_JSON_VALUE_BYTES" using probe json_value_new_iff by blast
  have "length (json_text E ?v) \<le> jv_encoded_len probe" unfolding n(3) by (simp add: meta_fields_def)
  moreover have "json_nodes ?v \<le> MAX_JSON_NODES" "json_fits 0 ?v" "normalize_numbers ?v = ?v"
    using n(1,2) by (simp_all add: meta_fields_def)
  ultimately have "json_value_new E ?v = Inr \<lparr>jv_value = ?v, jv_encoded_len = length (json_text E ?v)\<rparr>"
    using n4 by (simp add: json_value_new_iff)
  then show ?thesis using False \<open>length (json_text E ?v) \<le> jv_encoded_len probe\<close> by (simp add: mutation_meta_fields)
qed (use assms in auto)

lemma failure_result_ok:
  assumes probe: "mutation_meta E path op diff False True = Inr probe" "jv_encoded_len probe \<le> MAX_CANONICAL_DIFF_JSON_BYTES"
    and parts: "name \<noteq> []" "code \<noteq> []" "length name \<le> 256" "length code \<le> 256" "length message \<le> 30000"
  shows "\<exists>r. failure_result E path op diff False name code message w = Inr r \<and> tr_is_error r \<and> committed_marker r = Some False"
proof -
  obtain b where b: "block_text E (''Error: '' @ message) = Inr b" "jv_encoded_len (cb_raw b) \<le> 6 * (length message + 7) + 50"
    using block_text_ok[of "''Error: '' @ message" E] parts(5) by auto
  obtain meta where meta: "mutation_meta E path op diff False w = Inr meta" "jv_encoded_len meta \<le> MAX_CANONICAL_DIFF_JSON_BYTES"
    using mutation_meta_probe[OF probe(1), of w] probe(2) by (auto intro: order_trans)
  obtain fs where fs: "jv_value meta = JObject fs" "get_bool fs ''committed'' = Some False" using mutation_meta_marker[OF meta(1)] by blast
  have "result_retained_bytes [b] (Some meta) (Some \<lparr>tf_name = name, tf_code = code\<rparr>)
      = jv_encoded_len (cb_raw b) + jv_encoded_len meta + length name + length code"
    using b(2) meta(2) parts(3-5)
    by (simp add: result_retained_bytes_def sum_u64_def checked_add_u64_def U64_LIMIT_def MAX_CANONICAL_DIFF_JSON_BYTES_def)
  then have "result_new [b] True (Some \<lparr>tf_name = name, tf_code = code\<rparr>) (Some meta) False
      = Inr \<lparr>tr_content = [b], tr_is_error = True, tr_error = Some \<lparr>tf_name = name, tf_code = code\<rparr>, tr_meta = Some meta,
             tr_concludes_turn = False\<rparr>"
    using b(2) meta(2) parts
    by (simp add: result_new_def MAX_MESSAGE_CONTENT_BLOCKS_def MAX_AGENT_TOOL_RESULT_BYTES_def MAX_CANONICAL_DIFF_JSON_BYTES_def)
  then show ?thesis using b(1) meta(1) fs by (simp add: failure_result_def committed_marker_def)
qed

lemma decline_parts_short:
  "decline_parts reason = (name, code, message) \<Longrightarrow>
     name \<noteq> [] \<and> code \<noteq> [] \<and> length name \<le> 256 \<and> length code \<le> 256 \<and> length message \<le> 30000"
  by (cases reason) (auto simp: decline_parts_def)

lemma failure_is_error: "failure_result E path op diff b name code message w = Inr r \<Longrightarrow> tr_is_error r"
  by (auto simp: failure_result_def result_new_def result_simps split: if_splits)

lemma success_no_error: "success_result E path op diff = Inr r \<Longrightarrow> \<not> tr_is_error r"
  by (auto simp: success_result_def result_new_def result_simps split: if_splits)

lemma outcome_committed_Inr: "outcome_committed r = Inr x \<Longrightarrow> x = \<lparr>co_disposition = Committed, co_result = r\<rparr> \<and> committed_marker r = Some True"
  by (auto simp: outcome_committed_def split: if_splits)

lemma build_outcomes_truthful:
  assumes "build_outcomes E path op diff = Inr built"
  shows "\<forall>x \<in> {oc_success built, oc_durability built, oc_durability_and_cleanup built, oc_cleanup built}.
      co_disposition x = Committed \<and> committed_marker (co_result x) = Some True"
    and "\<not> tr_is_error (co_result (oc_success built))" "tr_is_error (co_result (oc_durability built))"
      "tr_is_error (co_result (oc_durability_and_cleanup built))" "tr_is_error (co_result (oc_cleanup built))"
  using assms unfolding build_outcomes_def Let_def
  by (auto elim!: bindR_InrE dest!: outcome_committed_Inr dest: failure_is_error success_no_error)

text \<open>
  What an outcome says: it is committed exactly when the file was published, and its data say so; a
  committed outcome is an error exactly when the durability or the cleanup is in doubt, and an outcome
  that is not committed is always one.
\<close>

definition tells :: "commit_outcome \<Rightarrow> bool \<Rightarrow> bool \<Rightarrow> bool" where
  "tells x published doubt =
     ((co_disposition x = Committed \<longleftrightarrow> published) \<and> committed_marker (co_result x) = Some published
      \<and> tr_is_error (co_result x) = (\<not> published \<or> doubt))"

lemma commit_committed:
  assumes "build_outcomes E path op diff = Inr (pm_committed m)"
  shows "\<exists>x. commit_result E m (Inr (StatusCommitted u w)) = Inr x \<and> tells x True (u \<or> w)"
proof -
  note t = build_outcomes_truthful[OF assms]
  consider "u \<and> w" | "u \<and> \<not> w" | "\<not> u \<and> w" | "\<not> u \<and> \<not> w" by blast
  then show ?thesis by cases (use t in \<open>simp_all add: commit_result_def tells_def\<close>)
qed

lemma commit_not_committed:
  assumes "\<exists>r. failure_result E (pm_path m) (pm_operation m) (pm_diff m) False name code
       (if w then message @ ''; private staging cleanup may be incomplete'' else message) w = Inr r
     \<and> tr_is_error r \<and> committed_marker r = Some False"
  shows "\<exists>x. commit_result E m (Inr (StatusNotCommitted (ToolModelError name code message) w)) = Inr x \<and> tells x False d"
  using assms by (auto simp: commit_result_def into_model_parts_def outcome_not_committed_def tells_def)

lemma mutation_results:
  assumes "prepare_mutation E raw p c c' = Inr m"
  shows "\<exists>r. decline_mutation E m reason = Inr r \<and> tr_is_error r \<and> committed_marker r = Some False"
    and "\<exists>x. commit_result E m (Inr (StatusCommitted u w)) = Inr x \<and> tells x True (u \<or> w)"
    and "name \<noteq> [] \<Longrightarrow> code \<noteq> [] \<Longrightarrow> length name \<le> 256 \<Longrightarrow> length code \<le> 256 \<Longrightarrow> length message \<le> 29000 \<Longrightarrow>
      \<exists>x. commit_result E m (Inr (StatusNotCommitted (ToolModelError name code message) w)) = Inr x \<and> tells x False doubt"
proof -
  obtain before out raw' d probe prompt built where z: "patched_text raw (pp_hunks p) c = Inr (before, out, raw')"
    "canonical_diff_of (pp_path p) (pp_operation p) before (pp_hunks p) c' = Inr d"
    and y: "mutation_meta E (pp_path p) (pp_operation p) (cn_text d) False True = Inr probe"
    "\<not> MAX_CANONICAL_DIFF_JSON_BYTES < jv_encoded_len probe"
    "canonical_patch (approval_reason (pp_operation p) (pp_path p)) (cn_text d) (pp_operation p) (pp_path p)
        (cn_rows d) (cn_additions d) (cn_removals d) (cn_hunks d) = Inr prompt"
    "build_outcomes E (pp_path p) (pp_operation p) (ap_preview prompt) = Inr built"
    "pm_path m = pp_path p" "pm_operation m = pp_operation p" "pm_diff m = ap_preview prompt" "pm_committed m = built"
    using assms unfolding prepare_mutation_def by (auto simp: result_simps split: if_splits)
  have "ap_preview prompt = cn_text d" using y(3) by (auto simp: canonical_patch_def result_simps split: if_splits)
  then have x: "mutation_meta E (pp_path p) (pp_operation p) (cn_text d) False True = Inr probe"
    "jv_encoded_len probe \<le> MAX_CANONICAL_DIFF_JSON_BYTES"
    "build_outcomes E (pp_path p) (pp_operation p) (pm_diff m) = Inr (pm_committed m)"
    "pm_diff m = cn_text d" "pm_path m = pp_path p" "pm_operation m = pp_operation p"
    using y by simp_all
  note failure = failure_result_ok[OF x(1,2)]
  show "\<exists>r. decline_mutation E m reason = Inr r \<and> tr_is_error r \<and> committed_marker r = Some False"
  proof -
    obtain name code message where parts: "decline_parts reason = (name, code, message)" by (cases "decline_parts reason")
    then show ?thesis
      using failure[of name code message False] decline_parts_short[OF parts] x(4-6)
      by (auto simp: decline_mutation_def decline_result_def checked_decline_def)
  qed
  show "\<exists>x. commit_result E m (Inr (StatusCommitted u w)) = Inr x \<and> tells x True (u \<or> w)" by (rule commit_committed[OF x(3)])
  show "name \<noteq> [] \<Longrightarrow> code \<noteq> [] \<Longrightarrow> length name \<le> 256 \<Longrightarrow> length code \<le> 256 \<Longrightarrow> length message \<le> 29000 \<Longrightarrow>
      \<exists>x. commit_result E m (Inr (StatusNotCommitted (ToolModelError name code message) w)) = Inr x \<and> tells x False doubt"
    by (rule commit_not_committed, unfold x(4-6), rule failure) auto
qed

text \<open>
  C11: a prepared mutation settles, and truthfully.  Declining it for any reason gives an error
  result that says the file was not changed.  Committing it, whatever the file system answers and
  whenever the call is cancelled, ends in one of three ways: it still waits for a lock that others hold; the
  lock is poisoned, nothing was published, and there is an executor error instead of a result; or there is
  an outcome, which is marked committed exactly when the call that publishes the file succeeded, carries the same
  fact in its data, and is an error exactly when nothing was published or the durability or the cleanup is in
  doubt.  So no limit on a result can lose the fact.  The display of the target is bounded, as the
  argument it was resolved from.
\<close>

theorem prepared_mutation_settles:
  assumes "prepare_mutation E raw p c c' = Inr m" and "length (mt_display t) \<le> MAX_TOOL_ARGUMENT_STRING_BYTES"
  shows "(\<exists>r. decline_mutation E m reason = Inr r \<and> tr_is_error r \<and> committed_marker r = Some False)
     \<and> (case commit_file t I (pm_bytes m) of
          CommitWaits \<Rightarrow> set (cm_lock I) \<subseteq> {LockHeld}
        | CommitEnds published status \<Rightarrow>
            (LockPoisoned \<in> set (cm_lock I) \<and> \<not> published \<and> commit_result E m status = Inl ToolExecutorError)
            \<or> (\<exists>x. commit_result E m status = Inr x \<and> tells x published (\<not> cm_parent_synced I \<or> \<not> cleanup_staging I)
                 \<and> (published \<longrightarrow> cm_publish I = None)))"
proof (intro conjI)
  note results = mutation_results[OF assms(1)]
  show "\<exists>r. decline_mutation E m reason = Inr r \<and> tr_is_error r \<and> committed_marker r = Some False" by (rule results(1))
  from commit_ends[of t I "pm_bytes m"] show "case commit_file t I (pm_bytes m) of
          CommitWaits \<Rightarrow> set (cm_lock I) \<subseteq> {LockHeld}
        | CommitEnds published status \<Rightarrow>
            (LockPoisoned \<in> set (cm_lock I) \<and> \<not> published \<and> commit_result E m status = Inl ToolExecutorError)
            \<or> (\<exists>x. commit_result E m status = Inr x \<and> tells x published (\<not> cm_parent_synced I \<or> \<not> cleanup_staging I)
                 \<and> (published \<longrightarrow> cm_publish I = None))"
  proof (elim disjE conjE)
    assume t: "truthful_end t I (commit_file t I (pm_bytes m))"
    show ?thesis
    proof (cases "commit_file t I (pm_bytes m)")
      case (CommitEnds published status)
      then consider "published" "cm_publish I = None" "status = Inr (StatusCommitted (\<not> cm_parent_synced I) (\<not> cleanup_staging I))"
        | e w where "\<not> published" "status = Inr (StatusNotCommitted e w)" "short_error (mt_display t) e"
        using t by (auto simp: truthful_end_def split: bool.splits sum.splits commit_status.splits)
      then show ?thesis
      proof cases
        case 1
        then show ?thesis using CommitEnds results(2)[of "\<not> cm_parent_synced I" "\<not> cleanup_staging I"] by auto
      next
        case (2 e w)
        then obtain name code message where "e = ToolModelError name code message" "name \<noteq> []" "code \<noteq> []" "length name \<le> 256"
          "length code \<le> 256" "length message \<le> length (mt_display t) + 200"
          by (auto simp: short_error_def split: tool_call_error.splits)
        then show ?thesis
          using CommitEnds 2 results(3)[of name code message w] assms(2) by (simp add: MAX_TOOL_ARGUMENT_STRING_BYTES_def)
      qed
    qed (use t in \<open>simp add: truthful_end_def\<close>)
  qed (simp_all add: commit_result_def)
qed

section \<open>An example\<close>

text \<open>A file with carriage returns whose second line is replaced.\<close>

definition example_file :: string where
  "example_file = ''a'' @ [CR, LF] @ ''b'' @ [CR, LF]"

definition example_patch :: parsed_patch where
  "example_patch = \<lparr>pp_operation = PatchUpdate, pp_path = ''f.txt'',
     pp_hunks = [\<lparr>hk_old = \<lparr>hr_start = 2, hr_len = 1\<rparr>, hk_new = \<lparr>hr_start = 2, hr_len = 1\<rparr>,
                  hk_lines = [DeleteLine (''b'' @ [LF]), InsertLine (''c'' @ [LF])]\<rparr>]\<rparr>"

definition example_diff :: canonical_diff where
  "example_diff = (case patched_text example_file (pp_hunks example_patch) never of
     Inr (before, candidate, raw) \<Rightarrow>
       (case canonical_diff_of (pp_path example_patch) (pp_operation example_patch) before (pp_hunks example_patch) never of
          Inr d \<Rightarrow> d))"

definition example_before :: string where
  "example_before = ''a'' @ [LF] @ ''b'' @ [LF]"

definition example_after :: string where
  "example_after = ''a'' @ [LF] @ ''c'' @ [LF]"

lemma example_patched:
  "patched_text example_file (pp_hunks example_patch) never = Inr (example_before, example_after, ''a'' @ [CR, LF] @ ''c'' @ [CR, LF])"
  by code_simp

lemma example_diff_ok:
  "is_ok (canonical_diff_of (pp_path example_patch) (pp_operation example_patch) example_before (pp_hunks example_patch) never)"
  by code_simp

lemma example_canonical:
  "canonical_diff_of (pp_path example_patch) (pp_operation example_patch) example_before (pp_hunks example_patch) never = Inr example_diff"
  using example_diff_ok by (auto simp: example_diff_def example_patched is_ok_iff)

lemma example_text: "cn_text example_diff \<noteq> []"
  by code_simp

lemma example_prompt:
  "is_ok (canonical_patch (approval_reason (pp_operation example_patch) (pp_path example_patch)) (cn_text example_diff)
            (pp_operation example_patch) (pp_path example_patch) (cn_rows example_diff) (cn_additions example_diff)
            (cn_removals example_diff) (cn_hunks example_diff))"
  by code_simp

lemma example_outcomes:
  "is_ok (build_outcomes example_externals (pp_path example_patch) (pp_operation example_patch) (cn_text example_diff))"
  by code_simp

lemma example_probe:
  "case mutation_meta example_externals (pp_path example_patch) (pp_operation example_patch) (cn_text example_diff) False True of
     Inl _ \<Rightarrow> False | Inr probe \<Rightarrow> jv_encoded_len probe \<le> MAX_CANONICAL_DIFF_JSON_BYTES"
  by code_simp

lemma example_limits:
  "MAX_MUTATION_RESULT_EVENT_BYTES \<noteq> 0" "MAX_MUTATION_RESULT_EVENT_BYTES \<le> MAX_AGENT_COMMITTED_TOOL_RESULT_EVENT_BYTES"
  by code_simp+

lemma patch_prepared: "is_ok (prepare_mutation example_externals example_file example_patch never never)"
proof -
  obtain probe where probe: "mutation_meta example_externals (pp_path example_patch) (pp_operation example_patch)
      (cn_text example_diff) False True = Inr probe" "jv_encoded_len probe \<le> MAX_CANONICAL_DIFF_JSON_BYTES"
    using example_probe by (auto split: sum.splits)
  obtain prompt where prompt: "canonical_patch (approval_reason (pp_operation example_patch) (pp_path example_patch)) (cn_text example_diff)
            (pp_operation example_patch) (pp_path example_patch) (cn_rows example_diff) (cn_additions example_diff)
            (cn_removals example_diff) (cn_hunks example_diff) = Inr prompt"
    using example_prompt by (auto simp: is_ok_iff)
  then have preview: "ap_preview prompt = cn_text example_diff" by (auto simp: canonical_patch_def result_simps split: if_splits)
  obtain built where built: "build_outcomes example_externals (pp_path example_patch) (pp_operation example_patch) (cn_text example_diff) = Inr built"
    using example_outcomes by (auto simp: is_ok_iff)
  show ?thesis
    using probe example_text example_limits
    by (simp add: prepare_mutation_def example_patched example_canonical prompt preview built bindR_def map_err_def)
qed

theorem approved_diff_is_the_change_witness:
  "\<exists>m before endings hs out. prepare_mutation example_externals example_file example_patch never never = Inr m
     \<and> with_endings endings before = example_file \<and> pm_bytes m = with_endings endings out
     \<and> apply_strict before hs never = Inr out"
proof -
  obtain m where m: "prepare_mutation example_externals example_file example_patch never never = Inr m"
    using patch_prepared by (auto simp: is_ok_iff)
  from approved_diff_is_the_change[OF m] m show ?thesis by blast
qed

text \<open>A commit that waits once for the lock, with every answer of the file system in its favour.\<close>

definition example_target :: mutation_target where
  "example_target = \<lparr>mt_parent = (1, 2), mt_display = ''f.txt'', mt_operation = PatchUpdate, mt_baseline = Some example_file,
     mt_snapshot = Some \<lparr>ms_dev = 1, ms_ino = 3, ms_len = 6, ms_mode = 420, ms_nlink = 1, ms_mtime = 0, ms_mtime_nsec = 0,
       ms_ctime = 0, ms_ctime_nsec = 0\<rparr>\<rparr>"

definition example_answers :: commit_answers where
  "example_answers = \<lparr>cm_cancelled = (\<lambda>_. False), cm_lock = [LockHeld, LockFree], cm_parent = (\<lambda>_. ParentOpened (Some (1, 2))),
     cm_entry = (\<lambda>_. EntryExists), cm_target = (\<lambda>_. TargetRead example_file (the (mt_snapshot example_target))),
     cm_stage_id = True, cm_stage_created = True, cm_stage_opened = True, cm_file_created = True, cm_write = (\<lambda>_. None),
     cm_permissions = None, cm_sync = None, cm_publish = None, cm_candidate_removed = Some IoNotFound, cm_stage_removed = True,
     cm_parent_synced = False\<rparr>"

theorem prepared_mutation_settles_witness:
  "\<exists>m x. prepare_mutation example_externals example_file example_patch never never = Inr m
     \<and> (\<exists>r. decline_mutation example_externals m ApprovalRejected = Inr r \<and> committed_marker r = Some False)
     \<and> commit_file example_target example_answers (pm_bytes m) = CommitEnds True (Inr (StatusCommitted True False))
     \<and> commit_result example_externals m (Inr (StatusCommitted True False)) = Inr x \<and> tells x True True"
proof -
  obtain m where m: "prepare_mutation example_externals example_file example_patch never never = Inr m"
    using patch_prepared by (auto simp: is_ok_iff)
  have short: "length (mt_display example_target) \<le> MAX_TOOL_ARGUMENT_STRING_BYTES"
    by (simp add: example_target_def MAX_TOOL_ARGUMENT_STRING_BYTES_def)
  have "pm_bytes m = ''a'' @ [CR, LF] @ ''c'' @ [CR, LF]"
    using m by (auto simp: prepare_mutation_def example_patched result_simps split: if_splits)
  then have commit: "commit_file example_target example_answers (pm_bytes m) = CommitEnds True (Inr (StatusCommitted True False))"
    by (simp only:) code_simp
  note settles = prepared_mutation_settles[OF m short, where reason = ApprovalRejected and I = example_answers]
  have flags: "\<not> cm_parent_synced example_answers" by (simp add: example_answers_def)
  have "\<exists>r. decline_mutation example_externals m ApprovalRejected = Inr r \<and> committed_marker r = Some False"
    using settles by blast
  moreover have "\<exists>x. commit_result example_externals m (Inr (StatusCommitted True False)) = Inr x \<and> tells x True True"
    using settles flags by (auto simp: commit)
  ultimately show ?thesis using m commit by blast
qed

end
