(* ===== verification/Workspace_Paths.thy ===== *)
theory Workspace_Paths
  imports Tool_Arguments
begin

text \<open>
  Paths of the workspace, \<open>resolve\<close> and its helpers of \<open>src/tools/workspace.rs\<close>.  A path is the
  list of its components, as \<open>Path::components\<close> of the standard library gives them on Unix: empty
  parts vanish, and so does every \<open>.\<close> except one that starts a relative path.
\<close>

section \<open>Components\<close>

datatype component = RootDir | CurDir | ParentDir | Normal string

type_synonym path = "component list"

definition component_of :: "string \<Rightarrow> component" where
  "component_of p = (if p = ''..'' then ParentDir else Normal p)"

definition is_named :: "string \<Rightarrow> bool" where
  "is_named p = (p \<noteq> [] \<and> p \<noteq> ''.'')"

definition path_components :: "string \<Rightarrow> path" where
  "path_components s =
     (let parts = split_at (CHR ''/'') s in
      (if starts_with s ''/'' then [RootDir] else if hd parts = ''.'' then [CurDir] else [])
      @ map component_of (filter is_named parts))"

fun join_with :: "string \<Rightarrow> string list \<Rightarrow> string" where
  "join_with sep [] = []"
| "join_with sep [p] = p"
| "join_with sep (p # q # ps) = p @ sep @ join_with sep (q # ps)"

definition component_text :: "component \<Rightarrow> string" where
  "component_text c = (case c of RootDir \<Rightarrow> [] | CurDir \<Rightarrow> ''.'' | ParentDir \<Rightarrow> ''..'' | Normal p \<Rightarrow> p)"

definition path_text :: "path \<Rightarrow> string" where
  "path_text p = (if p = [RootDir] then ''/'' else join_with ''/'' (map component_text p))"

text \<open>\<open>Path::parent\<close>, \<open>Path::file_name\<close>, \<open>Path::strip_prefix\<close> and \<open>PathBuf::pop\<close>.\<close>

definition path_parent :: "path \<Rightarrow> path option" where
  "path_parent p = (if p = [] \<or> last p = RootDir then None else Some (butlast p))"

definition path_file_name :: "path \<Rightarrow> string option" where
  "path_file_name p = (if p = [] then None else case last p of Normal n \<Rightarrow> Some n | _ \<Rightarrow> None)"

definition path_strip_prefix :: "path \<Rightarrow> path \<Rightarrow> path option" where
  "path_strip_prefix base p = (if take (length base) p = base then Some (drop (length base) p) else None)"

definition path_pop :: "path \<Rightarrow> tool_call_error + path" where
  "path_pop p = ok_or workspace_denied (path_parent p)"

section \<open>The code\<close>

definition relative_step :: "path \<Rightarrow> component \<Rightarrow> tool_call_error + path" where
  "relative_step p c =
     (case c of
        CurDir \<Rightarrow> Inr p
      | Normal part \<Rightarrow> Inr (p @ [Normal part])
      | ParentDir \<Rightarrow> path_pop p
      | RootDir \<Rightarrow> Inl workspace_denied)"

definition normalize_relative :: "path \<Rightarrow> tool_call_error + path" where
  "normalize_relative p = try_fold relative_step [] p"

definition absolute_step :: "path \<Rightarrow> component \<Rightarrow> tool_call_error + path" where
  "absolute_step p c =
     (case c of
        RootDir \<Rightarrow> Inr [RootDir]
      | CurDir \<Rightarrow> Inr p
      | Normal part \<Rightarrow> Inr (p @ [Normal part])
      | ParentDir \<Rightarrow> path_pop p)"

definition normalize_absolute :: "path \<Rightarrow> tool_call_error + path" where
  "normalize_absolute p = try_fold absolute_step [] p"

text \<open>The failures of the blocking file operations.\<close>

datatype blocking_error =
    BlockingIo io_error | BlockingResolve io_error | BlockingAborted | InvalidName | UnsafeSymlink
  | TooManyEntries | TooManyPathBytes | BlockingTooLarge | NotDirectory | NotRegularFile

definition MAX_TRAVERSAL_PATH_BYTES :: nat where
  "MAX_TRAVERSAL_PATH_BYTES = 8 * 1024 * 1024"

definition map_blocking_error :: "blocking_error \<Rightarrow> string \<Rightarrow> bool \<Rightarrow> tool_call_error" where
  "map_blocking_error e path directory =
     (case e of
        BlockingResolve e \<Rightarrow>
          if is_permission_denied e \<or> e = IoInvalidInput then workspace_denied else io_failure e path directory
      | BlockingIo e \<Rightarrow> io_failure e path directory
      | BlockingAborted \<Rightarrow> aborted
      | InvalidName \<Rightarrow> fs_error ''FS_INVALID_NAME'' ''the workspace contains a non-UTF-8 or control-character file name''
      | UnsafeSymlink \<Rightarrow> workspace_denied
      | TooManyEntries \<Rightarrow> search_limit ''directory traversal exceeds the configured entry limit''
      | TooManyPathBytes \<Rightarrow>
          search_limit (''directory traversal retains more than '' @ digits MAX_TRAVERSAL_PATH_BYTES @ '' path bytes'')
      | BlockingTooLarge \<Rightarrow> too_large path
      | NotDirectory \<Rightarrow> not_directory path
      | NotRegularFile \<Rightarrow> not_regular_file path)"

definition map_file_error :: "blocking_error \<Rightarrow> string \<Rightarrow> tool_call_error" where
  "map_file_error e path =
     (case e of
        BlockingTooLarge \<Rightarrow> too_large path
      | NotRegularFile \<Rightarrow> not_regular_file path
      | _ \<Rightarrow> map_blocking_error e path False)"

definition map_resolve_error :: "io_error \<Rightarrow> blocking_error" where
  "map_resolve_error e = (if e = IoEscape then BlockingResolve e else BlockingIo e)"

definition push_display :: "string \<Rightarrow> component \<Rightarrow> blocking_error + string" where
  "push_display out c =
     (case c of
        Normal part \<Rightarrow>
          if \<not> valid_utf8 part then Inl InvalidName
          else if has_control part then Inl InvalidName
          else Inr (out @ (if out = [] then [] else ''/'') @ part)
      | _ \<Rightarrow> Inr out)"

definition display_path :: "path \<Rightarrow> blocking_error + string" where
  "display_path p = (if p = [CurDir] \<or> p = [] then Inr ''.'' else try_fold push_display [] p)"

record workspace =
  ws_canonical_path :: path
  ws_startup_path :: path

record resolved_path =
  rp_relative :: path
  rp_display :: string

definition within :: "workspace \<Rightarrow> path \<Rightarrow> tool_call_error + path" where
  "within ws p =
     (case path_strip_prefix (ws_canonical_path ws) p of
        Some q \<Rightarrow> Inr q
      | None \<Rightarrow> ok_or workspace_denied (path_strip_prefix (ws_startup_path ws) p))"

definition resolve :: "workspace \<Rightarrow> string \<Rightarrow> tool_call_error + resolved_path" where
  "resolve ws input =
     (if length input > MAX_TOOL_ARGUMENT_STRING_BYTES \<or> input = [] \<or> has_control input
      then Inl (invalid_args ''workspace path is empty, overlong, or contains a control character'')
      else
        let supplied = path_components input in
        bindR (if starts_with input ''/'' then bindR (normalize_absolute supplied) (within ws)
               else normalize_relative supplied) (\<lambda>rel.
        let rel = (if rel = [] then [CurDir] else rel) in
        bindR (map_err (\<lambda>e. map_blocking_error e ''the requested workspace path'' False) (display_path rel)) (\<lambda>display.
          Inr \<lparr>rp_relative = rel, rp_display = display\<rparr>)))"

definition shell_component_count :: "path \<Rightarrow> nat" where
  "shell_component_count p = length (filter (\<lambda>c. case c of Normal _ \<Rightarrow> True | _ \<Rightarrow> False) p)"

definition resolve_shell_workdir :: "workspace \<Rightarrow> string \<Rightarrow> tool_call_error + resolved_path" where
  "resolve_shell_workdir ws input =
     bindR (map_err (\<lambda>e. if has_code e ''WORKSPACE_PATH_DENIED'' then shell_workdir_outside_workspace else e)
              (resolve ws input)) (\<lambda>r.
       if shell_component_count (rp_relative r) > MAX_DIRECTORY_DEPTH
       then Inl (invalid_args (''bash.workdir must contain at most '' @ digits MAX_DIRECTORY_DEPTH @ '' path components''))
       else Inr r)"

definition is_vcs_directory :: "string \<Rightarrow> bool" where
  "is_vcs_directory name = (name \<in> set [''.git'', ''.svn'', ''.hg'', ''.bzr'', ''.jj'', ''.sl''])"

section \<open>What a resolved path denotes\<close>

text \<open>
  The directory a path names, by its text alone: the names from the root of the file system down.
  \<open>..\<close> at the root stays at the root.
\<close>

fun walk :: "string list \<Rightarrow> path \<Rightarrow> string list" where
  "walk at [] = at"
| "walk at (RootDir # p) = walk [] p"
| "walk at (CurDir # p) = walk at p"
| "walk at (ParentDir # p) = walk (butlast at) p"
| "walk at (Normal n # p) = walk (at @ [n]) p"

definition names_path :: "string list \<Rightarrow> path" where
  "names_path ns = (if ns = [] then [CurDir] else map Normal ns)"

definition plain_name :: "string \<Rightarrow> bool" where
  "plain_name n = (is_named n \<and> n \<noteq> ''..'' \<and> CHR ''/'' \<notin> set n)"

lemma walk_append: "walk at (p @ q) = walk (walk at p) q"
  by (induction at p rule: walk.induct) simp_all

lemma split_at_parts: "p \<in> set (split_at c s) \<Longrightarrow> c \<notin> set p"
  by (induction s arbitrary: p) (auto split: list.splits if_splits)

lemma split_at_not_Nil [simp]: "split_at c s \<noteq> []"
  by (induction s) (auto split: list.splits)

definition plain :: "component \<Rightarrow> bool" where
  "plain c = (case c of Normal n \<Rightarrow> plain_name n | _ \<Rightarrow> True)"

lemma components_plain: "list_all plain (path_components s)"
  by (auto simp: path_components_def Let_def list_all_iff plain_def plain_name_def component_of_def
        dest: split_at_parts split: component.splits if_splits)

lemma relative_fold:
  assumes "try_fold relative_step (map Normal ns) p = Inr q" "list_all plain p" "\<forall>n\<in>set ns. plain_name n"
  shows "\<exists>ms. q = map Normal ms \<and> (\<forall>n\<in>set ms. plain_name n) \<and> (\<forall>at. walk (at @ ns) p = at @ ms)"
  using assms
proof (induction p arbitrary: ns)
  case (Cons c p)
  obtain r where r: "relative_step (map Normal ns) c = Inr r" "try_fold relative_step r p = Inr q"
    using Cons.prems(1) by (auto elim: bindR_InrE)
  obtain ks where ks: "r = map Normal ks" "\<forall>n\<in>set ks. plain_name n" "\<forall>at. walk (at @ ns) [c] = at @ ks"
  proof (cases c)
    case (Normal n)
    then show ?thesis using r(1) Cons.prems by (intro that[of "ns @ [n]"]) (auto simp: relative_step_def plain_def)
  next
    case ParentDir
    then have "ns \<noteq> []" "r = map Normal (butlast ns)"
      using r(1) by (auto simp: relative_step_def path_pop_def path_parent_def result_simps map_butlast split: if_splits)
    then show ?thesis using ParentDir Cons.prems by (intro that[of "butlast ns"]) (auto simp: butlast_append dest: in_set_butlastD)
  qed (use r(1) Cons.prems in \<open>auto simp: relative_step_def intro!: that\<close>)
  obtain ms where "q = map Normal ms" "\<forall>n\<in>set ms. plain_name n" "\<forall>at. walk (at @ ks) p = at @ ms"
    using Cons.IH[of ks] r(2) ks(1,2) Cons.prems(2) by auto
  moreover have "walk at' (c # p) = walk (walk at' [c]) p" for at' using walk_append[of at' "[c]" p] by simp
  ultimately show ?case using ks(3) by auto
qed auto

lemma absolute_fold:
  assumes "try_fold absolute_step (RootDir # map Normal ns) p = Inr q" "list_all plain p" "\<forall>n\<in>set ns. plain_name n"
  shows "\<exists>ms. q = RootDir # map Normal ms \<and> (\<forall>n\<in>set ms. plain_name n) \<and> walk ns p = ms"
  using assms
proof (induction p arbitrary: ns)
  case (Cons c p)
  obtain r where r: "absolute_step (RootDir # map Normal ns) c = Inr r" "try_fold absolute_step r p = Inr q"
    using Cons.prems(1) by (auto elim: bindR_InrE)
  obtain ks where ks: "r = RootDir # map Normal ks" "\<forall>n\<in>set ks. plain_name n" "walk ns [c] = ks"
  proof (cases c)
    case (Normal n)
    then show ?thesis using r(1) Cons.prems by (intro that[of "ns @ [n]"]) (auto simp: absolute_step_def plain_def)
  next
    case ParentDir
    then have "ns \<noteq> []" "r = RootDir # map Normal (butlast ns)"
      using r(1) by (auto simp: absolute_step_def path_pop_def path_parent_def result_simps map_butlast split: if_splits)
    then show ?thesis using ParentDir Cons.prems by (intro that[of "butlast ns"]) (auto dest: in_set_butlastD)
  next
    case RootDir
    then show ?thesis using r(1) by (intro that[of "[]"]) (auto simp: absolute_step_def)
  qed (use r(1) Cons.prems in \<open>auto simp: absolute_step_def intro!: that\<close>)
  obtain ms where "q = RootDir # map Normal ms" "\<forall>n\<in>set ms. plain_name n" "walk ks p = ms"
    using Cons.IH[of ks] r(2) ks(1,2) Cons.prems(2) by auto
  then show ?case using ks(3) walk_append[of ns "[c]" p] by auto
qed auto

lemma walk_Normal: "walk at (map Normal ns) = at @ ns"
  by (induction ns arbitrary: at) simp_all

lemma strip_prefix_names:
  assumes "path_strip_prefix base (RootDir # map Normal ms) = Some q" "base \<noteq> []"
  shows "\<exists>ks. q = map Normal ks \<and> ms = walk [] base @ ks"
proof -
  obtain b where b: "base = RootDir # b" "take (length b) (map Normal ms) = b" "q = drop (length b) (map Normal ms)"
    using assms by (cases base) (auto simp: path_strip_prefix_def split: if_splits)
  then have "b = map Normal (take (length b) ms)" by (simp add: take_map)
  then have "walk [] base = take (length b) ms" using b(1) walk_Normal[of "[]" "take (length b) ms"] by simp
  then show ?thesis using b(3) by (intro exI[of _ "drop (length b) ms"]) (simp add: drop_map)
qed

lemma display_fold:
  "try_fold push_display out (map Normal ns) = Inr out' \<Longrightarrow> \<forall>n\<in>set ns. n \<noteq> [] \<Longrightarrow>
     (\<forall>n\<in>set ns. valid_utf8 n \<and> \<not> has_control n)
     \<and> out' = (if out = [] then join_with ''/'' ns else if ns = [] then out else out @ ''/'' @ join_with ''/'' ns)"
proof (induction ns arbitrary: out)
  case (Cons n ns)
  obtain o1 where o1: "push_display out (Normal n) = Inr o1" "try_fold push_display o1 (map Normal ns) = Inr out'"
    using Cons.prems by (auto elim: bindR_InrE)
  have n: "valid_utf8 n" "\<not> has_control n" "o1 = out @ (if out = [] then [] else ''/'') @ n"
    using o1(1) by (auto simp: push_display_def split: if_splits)
  show ?case using Cons.IH[OF o1(2)] Cons.prems(2) n by (cases ns) (auto split: if_splits)
qed simp

section \<open>The displayed path\<close>

definition display_of :: "string list \<Rightarrow> string" where
  "display_of ns = (if ns = [] then ''.'' else join_with ''/'' ns)"

lemma display_names:
  assumes "display_path (names_path ns) = Inr d" "\<forall>n\<in>set ns. plain_name n"
  shows "d = display_of ns" "\<forall>n\<in>set ns. valid_utf8 n \<and> \<not> has_control n"
proof -
  have "\<forall>n\<in>set ns. n \<noteq> []" using assms(2) by (auto simp: plain_name_def is_named_def)
  moreover have "map Normal ns \<noteq> [CurDir]" by (cases ns) auto
  ultimately show "d = display_of ns" "\<forall>n\<in>set ns. valid_utf8 n \<and> \<not> has_control n"
    using assms(1) display_fold[of "[]" ns d]
    by (auto simp: display_path_def names_path_def display_of_def split: if_splits)
qed

lemma split_at_plain: "c \<notin> set p \<Longrightarrow> split_at c p = [p]"
  by (induction p) auto

lemma split_at_cons: "c \<notin> set p \<Longrightarrow> split_at c (p @ c # s) = p # split_at c s"
  by (induction p) auto

lemma split_at_join: "ns \<noteq> [] \<Longrightarrow> \<forall>n\<in>set ns. c \<notin> set n \<Longrightarrow> split_at c (join_with [c] ns) = ns"
  by (induction ns rule: induct_list012) (simp_all add: split_at_plain split_at_cons)

lemma components_display:
  assumes "\<forall>n\<in>set ns. plain_name n"
  shows "path_components (display_of ns) = names_path ns" "\<not> starts_with (display_of ns) ''/''"
proof -
  have "path_components (display_of ns) = names_path ns \<and> \<not> starts_with (display_of ns) ''/''"
  proof (cases ns)
    case Nil
    then show ?thesis by (simp add: path_components_def names_path_def display_of_def starts_with_def is_named_def Let_def)
  next
    case (Cons n ms)
    have n: "n \<noteq> []" "n \<noteq> ''.''" "CHR ''/'' \<notin> set n" "\<forall>m\<in>set ns. CHR ''/'' \<notin> set m"
      using assms Cons by (auto simp: plain_name_def is_named_def)
    have "hd (join_with ''/'' (n # ms)) = hd n" using n(1) by (cases ms) simp_all
    then have "\<not> starts_with (join_with ''/'' (n # ms)) ''/''"
      using n(1,3) by (cases "join_with ''/'' (n # ms)"; cases n) (auto simp: starts_with_def)
    moreover have "filter is_named ns = ns" "map component_of ns = map Normal ns"
      using assms by (auto simp: filter_id_conv plain_name_def component_of_def)
    ultimately show ?thesis using n(2) Cons split_at_join[of ns "CHR ''/''"] n(4)
      by (auto simp: path_components_def names_path_def display_of_def Let_def)
  qed
  then show "path_components (display_of ns) = names_path ns" "\<not> starts_with (display_of ns) ''/''" by blast+
qed

lemma normalize_names: "normalize_relative (names_path ns) = Inr (map Normal ns)"
proof -
  have "try_fold relative_step (map Normal ms) (map Normal ns) = Inr (map Normal (ms @ ns))" for ms
  proof (induction ns arbitrary: ms)
    case (Cons n ns)
    show ?case using Cons.IH[of "ms @ [n]"] by (simp add: relative_step_def)
  qed simp
  from this[of "[]"] show ?thesis by (simp add: normalize_relative_def names_path_def relative_step_def)
qed

text \<open>The displayed path is as short as the input, and free of control characters.\<close>

definition weight :: "path \<Rightarrow> nat" where
  "weight p = sum_list (map (\<lambda>c. case c of Normal n \<Rightarrow> Suc (length n) | _ \<Rightarrow> 0) p)"

lemma weight_simps [simp]:
  "weight [] = 0" "weight (c # p) = (case c of Normal n \<Rightarrow> Suc (length n) | _ \<Rightarrow> 0) + weight p"
  "weight (p @ q) = weight p + weight q"
  by (simp_all add: weight_def)

lemma weight_butlast: "weight (butlast p) \<le> weight p"
  by (cases p rule: rev_cases) simp_all

lemma weight_drop: "weight (drop n p) \<le> weight p"
  by (metis append_take_drop_id le_add2 weight_simps(3))

lemma weight_relative: "try_fold relative_step r p = Inr q \<Longrightarrow> weight q \<le> weight r + weight p"
proof (induction p arbitrary: r)
  case (Cons c p)
  then obtain r1 where r1: "relative_step r c = Inr r1" "try_fold relative_step r1 p = Inr q" by (auto elim: bindR_InrE)
  have "weight r1 \<le> weight r + weight [c]"
    using r1(1) weight_butlast[of r]
    by (auto simp: relative_step_def path_pop_def path_parent_def result_simps split: component.splits if_splits)
  then show ?case using Cons.IH[OF r1(2)] by simp
qed simp

lemma weight_absolute: "try_fold absolute_step r p = Inr q \<Longrightarrow> weight q \<le> weight r + weight p"
proof (induction p arbitrary: r)
  case (Cons c p)
  then obtain r1 where r1: "absolute_step r c = Inr r1" "try_fold absolute_step r1 p = Inr q" by (auto elim: bindR_InrE)
  have "weight r1 \<le> weight r + weight [c]"
    using r1(1) weight_butlast[of r]
    by (auto simp: absolute_step_def path_pop_def path_parent_def result_simps split: component.splits if_splits)
  then show ?case using Cons.IH[OF r1(2)] by simp
qed simp

lemma split_at_length: "sum_list (map (\<lambda>n. Suc (length n)) (split_at c s)) = Suc (length s)"
  by (induction s) (auto split: list.splits)

lemma weight_components: "weight (path_components s) \<le> Suc (length s)"
proof -
  have "weight (map component_of (filter is_named ps)) \<le> sum_list (map (\<lambda>n. Suc (length n)) ps)" for ps
    by (induction ps) (auto simp: component_of_def)
  from this[of "split_at (CHR ''/'') s"] show ?thesis
    by (simp add: path_components_def Let_def split_at_length)
qed

lemma join_length: "ns \<noteq> [] \<Longrightarrow> Suc (length (join_with ''/'' ns)) = weight (map Normal ns)"
  by (induction ns rule: induct_list012) simp_all

lemma scalar_tail: "utf8_next b bs = Scalar u n \<Longrightarrow> \<forall>x \<in> set (take (n - 1) bs). 128 \<le> x \<and> x < 192"
  by (auto simp: utf8_next_def is_cont_def second_ok_def split: if_splits list.splits)

lemma valid_last: "from_utf8 p = Inr us \<Longrightarrow> p \<noteq> [] \<Longrightarrow> byte (last p) \<noteq> 194"
proof (induction p arbitrary: us rule: from_utf8.induct)
  case (2 c cs)
  obtain u n where n: "utf8_next (byte c) (map byte cs) = Scalar u n" "is_ok (from_utf8 (drop (n - 1) cs))"
    using 2(2) by (auto split: utf8_head.splits simp: result_simps)
  note w = utf8_next_width[OF n(1)]
  show ?case
  proof (cases "drop (n - 1) cs = []")
    case False
    have "last (c # cs) = last (drop (n - 1) cs)" using False by (auto simp: last_drop)
    then show ?thesis using 2(1)[OF n(1)] n(2) False by (auto simp: is_ok_iff)
  next
    case True
    then have cs: "\<forall>x \<in> set cs. byte x < 192" using scalar_tail[OF n(1)] w by (auto simp: take_map)
    show ?thesis
    proof (cases cs)
      case Nil
      then show ?thesis using n(1) by (auto simp: utf8_next_def split: if_splits)
    next
      case (Cons d ds)
      then have "last (c # cs) \<in> set cs" by auto
      then show ?thesis using cs by fastforce
    qed
  qed
qed simp

lemma has_control_join:
  "p \<noteq> [] \<Longrightarrow> byte (last p) \<noteq> 194 \<Longrightarrow> \<not> has_control p \<Longrightarrow> \<not> has_control s \<Longrightarrow> \<not> has_control (p @ CHR ''/'' # s)"
proof (induction p)
  case (Cons c p)
  then show ?case by (cases p) (auto simp: byte_def split: if_splits)
qed simp

lemma display_no_control:
  "\<forall>n\<in>set ns. n \<noteq> [] \<and> valid_utf8 n \<and> \<not> has_control n \<Longrightarrow> \<not> has_control (join_with ''/'' ns)"
proof (induction ns rule: induct_list012)
  case (3 n m ns)
  obtain us where "from_utf8 n = Inr us" using 3(3) by (auto simp: valid_utf8_def is_ok_iff)
  then show ?case using has_control_join[of n "join_with ''/'' (m # ns)"] valid_last[of n us] 3 by simp
qed simp_all

lemma display_not_Nil: "\<forall>n\<in>set ns. n \<noteq> [] \<Longrightarrow> display_of ns \<noteq> []"
  by (induction ns rule: induct_list012) (simp_all add: display_of_def)

section \<open>A resolved path is inside the workspace\<close>

text \<open>The names of a resolved path, and the directory they are counted from.\<close>

lemma resolve_parts:
  assumes "resolve ws input = Inr r" "hd (ws_canonical_path ws) = RootDir" "hd (ws_startup_path ws) = RootDir"
    "ws_canonical_path ws \<noteq> []" "ws_startup_path ws \<noteq> []"
  shows "\<exists>base ns. base \<in> {ws_canonical_path ws, ws_startup_path ws} \<and> (\<forall>n\<in>set ns. plain_name n)
     \<and> rp_relative r = names_path ns \<and> display_path (rp_relative r) = Inr (rp_display r)
     \<and> walk (walk [] (ws_canonical_path ws)) (path_components input) = walk [] base @ ns
     \<and> weight (map Normal ns) \<le> Suc (length input) \<and> input \<noteq> [] \<and> length input \<le> MAX_TOOL_ARGUMENT_STRING_BYTES"
proof -
  let ?p = "path_components input"
  obtain q where q: "(if starts_with input ''/'' then bindR (normalize_absolute ?p) (within ws) else normalize_relative ?p) = Inr q"
    and r: "rp_relative r = (if q = [] then [CurDir] else q)" "display_path (rp_relative r) = Inr (rp_display r)"
    and len: "input \<noteq> []" "length input \<le> MAX_TOOL_ARGUMENT_STRING_BYTES"
    using assms(1) by (auto simp: resolve_def Let_def result_simps split: if_splits)
  obtain base ns where "base \<in> {ws_canonical_path ws, ws_startup_path ws}" "\<forall>n\<in>set ns. plain_name n" "q = map Normal ns"
    "walk (walk [] (ws_canonical_path ws)) ?p = walk [] base @ ns" "weight (map Normal ns) \<le> weight ?p"
  proof (cases "starts_with input ''/''")
    case True
    then obtain n where n: "normalize_absolute ?p = Inr n" "within ws n = Inr q" using q by (auto elim: bindR_InrE)
    obtain rest where rest: "?p = RootDir # rest" using True by (simp add: path_components_def Let_def)
    have fold: "try_fold absolute_step (RootDir # map Normal []) rest = Inr n"
      using n(1) by (simp add: normalize_absolute_def rest absolute_step_def)
    obtain ms where ms: "n = RootDir # map Normal ms" "\<forall>m\<in>set ms. plain_name m" "walk [] rest = ms"
      using absolute_fold[OF fold] components_plain[of input] rest by auto
    obtain base where base: "base \<in> {ws_canonical_path ws, ws_startup_path ws}" "path_strip_prefix base n = Some q"
      using n(2) by (auto simp: within_def result_simps split: option.splits)
    obtain ks where ks: "q = map Normal ks" "ms = walk [] base @ ks"
      using strip_prefix_names[of base ms q] base assms(4,5) ms(1) by auto
    have "weight n \<le> weight rest" using weight_absolute[OF fold] by simp
    then have "weight q \<le> weight ?p"
      using base(2) weight_drop[of "length base" n] rest by (auto simp: path_strip_prefix_def split: if_splits)
    then show ?thesis using that[of base ks] base(1) ks ms(2,3) rest by auto
  next
    case False
    then have n: "try_fold relative_step (map Normal []) ?p = Inr q" using q by (simp add: normalize_relative_def)
    obtain ms where ms: "q = map Normal ms" "\<forall>m\<in>set ms. plain_name m" "\<forall>at. walk (at @ []) ?p = at @ ms"
      using relative_fold[OF n components_plain] by auto
    have "weight q \<le> weight ?p" using weight_relative[OF n] by simp
    then show ?thesis using that[of "ws_canonical_path ws" ms] ms by auto
  qed
  then show ?thesis using r len weight_components[of input] by (intro exI[of _ base] exI[of _ ns]) (auto simp: names_path_def)
qed

text \<open>
  C7: whatever a tool is given as a path, the path it goes on with stays in the workspace.  It is made of
  names only, without \<open>.\<close>, \<open>..\<close> or a root, and it denotes, below one of the two names of the workspace, the very place
  the argument denotes.  What is displayed for it names the same file when it is given back.
\<close>

theorem resolved_path_is_inside:
  assumes "resolve ws input = Inr r"
    and "ws_canonical_path ws = RootDir # canonical" "ws_startup_path ws = RootDir # startup"
  shows "\<exists>base ns. base \<in> {ws_canonical_path ws, ws_startup_path ws} \<and> (\<forall>n\<in>set ns. plain_name n)
     \<and> rp_relative r = names_path ns \<and> rp_display r = display_of ns
     \<and> walk (walk [] (ws_canonical_path ws)) (path_components input) = walk [] base @ ns
     \<and> resolve ws (rp_display r) = Inr r"
proof -
  have roots: "hd (ws_canonical_path ws) = RootDir" "hd (ws_startup_path ws) = RootDir"
    "ws_canonical_path ws \<noteq> []" "ws_startup_path ws \<noteq> []"
    using assms(2,3) by simp_all
  from resolve_parts[OF assms(1) roots] obtain base ns where x: "base \<in> {ws_canonical_path ws, ws_startup_path ws}" "\<forall>n\<in>set ns. plain_name n"
     "rp_relative r = names_path ns" "display_path (rp_relative r) = Inr (rp_display r)"
     "walk (walk [] (ws_canonical_path ws)) (path_components input) = walk [] base @ ns"
     "weight (map Normal ns) \<le> Suc (length input)" "input \<noteq> []" "length input \<le> MAX_TOOL_ARGUMENT_STRING_BYTES"
    by blast
  have d: "rp_display r = display_of ns" "\<forall>n\<in>set ns. valid_utf8 n \<and> \<not> has_control n"
    using display_names[of ns "rp_display r"] x(2-4) by auto
  have named: "\<forall>n\<in>set ns. n \<noteq> []" using x(2) by (auto simp: plain_name_def is_named_def)
  have control: "\<not> has_control (display_of ns)" using display_no_control[of ns] d(2) named by (auto simp: display_of_def)
  have "length (display_of ns) \<le> length input"
    using join_length[of ns] x(6,7) by (cases input) (auto simp: display_of_def)
  then have len: "length (display_of ns) \<le> MAX_TOOL_ARGUMENT_STRING_BYTES" using x(8) by simp
  have "resolve ws (display_of ns) = Inr \<lparr>rp_relative = names_path ns, rp_display = display_of ns\<rparr>"
    unfolding resolve_def Let_def components_display(1)[OF x(2)] normalize_names bindR_simps
    using len control display_not_Nil[OF named] components_display(2)[OF x(2)] x(3,4) d(1)
    by (cases "ns = []") (simp_all add: names_path_def)
  then have "resolve ws (rp_display r) = Inr r" using x(3) d(1) by simp
  then show ?thesis using x d(1) by blast
qed

definition example_workspace :: workspace where
  "example_workspace = \<lparr>ws_canonical_path = path_components ''/home/w'', ws_startup_path = path_components ''/w''\<rparr>"

lemma example_resolved:
  "resolve example_workspace ''/w/./src//x/../a.rs'' = Inr \<lparr>rp_relative = [Normal ''src'', Normal ''a.rs''], rp_display = ''src/a.rs''\<rparr>"
  "resolve example_workspace ''src/../../etc'' = Inl workspace_denied"
  by code_simp+

theorem resolved_path_is_inside_witness:
  "resolve example_workspace ''src/a.rs'' = Inr \<lparr>rp_relative = [Normal ''src'', Normal ''a.rs''], rp_display = ''src/a.rs''\<rparr>"
proof -
  have "ws_canonical_path example_workspace = RootDir # [Normal ''home'', Normal ''w'']"
    "ws_startup_path example_workspace = RootDir # [Normal ''w'']"
    by code_simp+
  from resolved_path_is_inside[OF example_resolved(1) this] show ?thesis by auto
qed

end
