(* ===== verification/File_Tools.thy ===== *)
theory File_Tools
  imports Workspace_Paths "HOL-Library.List_Lexorder" "HOL-Library.Char_ord" "HOL-Library.Product_Lexorder"
begin

text \<open>
  What the tools \<open>list\<close>, \<open>glob\<close>, \<open>grep\<close> and \<open>read\<close> answer (\<open>src/tools/list.rs\<close>, \<open>glob.rs\<close>,
  \<open>grep.rs\<close>, \<open>read.rs\<close> and the sizes of \<open>mod.rs\<close>), given the entries, files and bytes the workspace
  found.  The matchers of the \<open>globset\<close> and \<open>regex\<close> crates are parameters: a compiler that may
  refuse a pattern, and the predicate it compiles to.
\<close>

section \<open>Sizes\<close>

definition MAX_TOOL_CONTENT_BYTES :: nat where "MAX_TOOL_CONTENT_BYTES = 64 * 1024"
definition MAX_READ_FILE_BYTES :: nat where "MAX_READ_FILE_BYTES = 16 * 1024 * 1024"
definition MAX_READ_LINE_CHARS :: nat where "MAX_READ_LINE_CHARS = 2000"
definition MAX_READ_SELECTED_BYTES :: nat where "MAX_READ_SELECTED_BYTES = 50 * 1024"
definition MAX_LIST_SCANNED_ENTRIES :: nat where "MAX_LIST_SCANNED_ENTRIES = 10000"
definition MAX_LIST_ENTRIES :: nat where "MAX_LIST_ENTRIES = 500"
definition MAX_VISITED_ENTRIES :: nat where "MAX_VISITED_ENTRIES = 50000"
definition MAX_GLOB_MATCHES :: nat where "MAX_GLOB_MATCHES = 10000"
definition MAX_GLOB_RESULTS :: nat where "MAX_GLOB_RESULTS = 100"
definition MAX_GREP_FILE_BYTES :: nat where "MAX_GREP_FILE_BYTES = 8 * 1024 * 1024"
definition MAX_GREP_INPUT_BYTES :: nat where "MAX_GREP_INPUT_BYTES = 32 * 1024 * 1024"
definition MAX_GREP_LINE_BYTES :: nat where "MAX_GREP_LINE_BYTES = 1024 * 1024"
definition MAX_GREP_MATCHES :: nat where "MAX_GREP_MATCHES = 10000"
definition MAX_GREP_RESULTS :: nat where "MAX_GREP_RESULTS = 250"
definition MAX_GREP_PREVIEW_BYTES :: nat where "MAX_GREP_PREVIEW_BYTES = 2000"
definition EMPTY_TEXT_BLOCK_JSON_BYTES :: nat where "EMPTY_TEXT_BLOCK_JSON_BYTES = 25"

text \<open>The bytes of a character add up to its \<open>len_utf8\<close>.\<close>

definition json_char_bytes :: "char \<Rightarrow> nat" where
  "json_char_bytes c =
     (let n = byte c in if n \<in> {34, 92, 8, 9, 10, 12, 13} then 2 else if n < 32 then 6 else 1)"

definition json_string_content_bytes :: "string \<Rightarrow> nat" where
  "json_string_content_bytes v = foldl (\<lambda>count c. saturating_add_u64 count (json_char_bytes c)) 0 v"

definition text_block_encoded_bytes :: "nat \<Rightarrow> nat" where
  "text_block_encoded_bytes n = saturating_add_u64 EMPTY_TEXT_BLOCK_JSON_BYTES n"

section \<open>Entries and rows\<close>

datatype entry_kind = FileEntry | DirectoryEntry | SymlinkEntry | OtherEntry

record workspace_entry =
  we_relative :: path
  we_display :: string
  we_name :: string
  we_kind :: entry_kind
  we_size :: "nat option"
  we_modified :: "int option"

record workspace_file =
  wf_relative :: path
  wf_display :: string
  wf_modified :: int

text \<open>
  The rows that are shown: the loops of \<open>list\<close>, \<open>glob\<close> and \<open>grep\<close> stop before the first row that would
  not leave room for the footer.  A row may depend on the text so far and on the row before.
\<close>

record rows_state =
  rw_output :: string
  rw_encoded :: nat
  rw_shown :: nat

fun show_rows ::
  "(string \<Rightarrow> 'a option \<Rightarrow> 'a \<Rightarrow> string) \<Rightarrow> (nat \<Rightarrow> string) \<Rightarrow> 'a option \<Rightarrow> 'a list \<Rightarrow> rows_state \<Rightarrow> rows_state" where
  "show_rows row footer previous [] s = s"
| "show_rows row footer previous (x # xs) s =
     (let rendered = row (rw_output s) previous x;
          next_shown = rw_shown s + 1;
          next_encoded = saturating_add_u64 (rw_encoded s) (json_string_content_bytes rendered);
          final_encoded = saturating_add_u64 next_encoded (json_string_content_bytes (footer next_shown)) in
      if text_block_encoded_bytes final_encoded > MAX_TOOL_CONTENT_BYTES then s
      else show_rows row footer (Some x) xs
             \<lparr>rw_output = rw_output s @ rendered, rw_encoded = next_encoded, rw_shown = next_shown\<rparr>)"

definition within_limit :: "string \<Rightarrow> tool_call_error + string" where
  "within_limit out =
     (if text_block_encoded_bytes (json_string_content_bytes out) > MAX_TOOL_CONTENT_BYTES then Inl output_limit else Inr out)"

section \<open>list\<close>

definition list_row :: "string \<Rightarrow> workspace_entry option \<Rightarrow> workspace_entry \<Rightarrow> string" where
  "list_row out previous e =
     (case we_kind e of
        FileEntry \<Rightarrow>
          (case we_size e of
             Some n \<Rightarrow> ''file'' @ [TAB] @ we_name e @ [TAB] @ digits n @ '' bytes'' @ [LF]
           | None \<Rightarrow> ''file'' @ [TAB] @ we_name e @ [LF])
      | DirectoryEntry \<Rightarrow> ''directory'' @ [TAB] @ we_name e @ ''/'' @ [LF]
      | SymlinkEntry \<Rightarrow> ''symlink'' @ [TAB] @ we_name e @ ''@'' @ [LF]
      | OtherEntry \<Rightarrow> ''other'' @ [TAB] @ we_name e @ [LF])"

definition list_footer :: "nat \<Rightarrow> nat \<Rightarrow> string" where
  "list_footer count shown =
     (if shown < count
      then ''Showing '' @ digits shown @ '' of '' @ digits count @ '' entries; remaining entries were not saved.''
      else digits count @ '' entries'')"

definition render_list :: "string \<Rightarrow> workspace_entry list \<Rightarrow> tool_call_error + string" where
  "render_list display entries =
     (let entries = sort_key we_name entries; count = length entries in
      if entries = [] then Inr (''Directory '' @ display @ '' is empty'')
      else
        let output = ''Directory '' @ display @ [LF];
            s = show_rows list_row (list_footer count) None (take MAX_LIST_ENTRIES entries)
                  \<lparr>rw_output = output, rw_encoded = json_string_content_bytes output, rw_shown = 0\<rparr> in
        within_limit (rw_output s @ list_footer count (rw_shown s)))"

section \<open>glob\<close>

type_synonym matcher = "path \<Rightarrow> bool"

type_synonym glob_compiler = "string \<Rightarrow> matcher option"

definition relative_to :: "path \<Rightarrow> path \<Rightarrow> path" where
  "relative_to root p = (case path_strip_prefix root p of Some q \<Rightarrow> q | None \<Rightarrow> p)"

definition glob_matches :: "matcher \<Rightarrow> bool \<Rightarrow> path \<Rightarrow> workspace_file \<Rightarrow> bool" where
  "glob_matches matcher has_separator root f =
     (let rel = relative_to root (wf_relative f) in
      if has_separator then matcher rel
      else case path_file_name rel of Some n \<Rightarrow> matcher [Normal n] | None \<Rightarrow> False)"

definition push_match :: "workspace_file list \<Rightarrow> workspace_file \<Rightarrow> tool_call_error + workspace_file list" where
  "push_match fs f =
     (if length fs \<ge> MAX_GLOB_MATCHES
      then Inl (search_limit (''glob has more than '' @ digits MAX_GLOB_MATCHES @ '' matches''))
      else Inr (fs @ [f]))"

definition compare_key :: "workspace_file \<Rightarrow> int \<times> string" where
  "compare_key f = (wf_modified f, wf_display f)"

definition glob_row :: "string \<Rightarrow> workspace_file option \<Rightarrow> workspace_file \<Rightarrow> string" where
  "glob_row out previous f = (if out = [] then [] else [LF]) @ wf_display f"

definition glob_footer :: "nat \<Rightarrow> nat \<Rightarrow> string" where
  "glob_footer count shown =
     (if shown < count
      then [LF, LF] @ ''Showing '' @ digits shown @ '' of '' @ digits count @ '' files; the complete result was not saved.''
      else [])"

definition render_glob :: "workspace_file list \<Rightarrow> tool_call_error + string" where
  "render_glob ms =
     (let count = length ms;
          s = show_rows glob_row (glob_footer count) None (take MAX_GLOB_RESULTS ms)
                \<lparr>rw_output = [], rw_encoded = 0, rw_shown = 0\<rparr> in
      within_limit (rw_output s @ glob_footer count (rw_shown s)))"

definition glob_result ::
  "glob_compiler \<Rightarrow> string \<Rightarrow> path \<Rightarrow> workspace_file list \<Rightarrow> tool_call_error + string" where
  "glob_result compile pattern root fs =
     bindR (ok_or (invalid_pattern ''glob.pattern is not a valid glob'') (compile pattern)) (\<lambda>matcher.
     bindR (try_fold (\<lambda>ms f. if glob_matches matcher (CHR ''/'' \<in> set pattern) root f then push_match ms f else Inr ms) [] fs) (\<lambda>ms.
       if ms = [] then Inr ''No files found'' else render_glob (sort_key compare_key ms)))"

section \<open>grep\<close>

record grep_match =
  gm_path :: string
  gm_line_number :: nat
  gm_preview :: string

definition aggregate_limit_error :: tool_call_error where
  "aggregate_limit_error = search_limit (''grep scans more than '' @ digits MAX_GREP_INPUT_BYTES @ '' bytes'')"

definition next_read_limit :: "nat \<Rightarrow> tool_call_error + nat" where
  "next_read_limit total_input =
     bindR (ok_or aggregate_limit_error (checked_sub_u64 MAX_GREP_INPUT_BYTES total_input))
       (\<lambda>remaining. Inr (min remaining MAX_GREP_FILE_BYTES))"

definition include_matches :: "matcher option \<Rightarrow> bool \<Rightarrow> path \<Rightarrow> workspace_file \<Rightarrow> bool" where
  "include_matches inc has_separator root f =
     (case inc of
        None \<Rightarrow> True
      | Some matcher \<Rightarrow>
          let rel = relative_to root (wf_relative f) in
          if has_separator then matcher rel
          else case path_file_name (if path_text rel = [] then wf_relative f else rel) of
            Some n \<Rightarrow> matcher [Normal n] | None \<Rightarrow> False)"

text \<open>The last character boundary at or before a position.\<close>

fun char_boundary :: "string \<Rightarrow> nat \<Rightarrow> nat" where
  "char_boundary s 0 = 0"
| "char_boundary s (Suc n) =
     (if Suc n < length s \<and> is_continuation (s ! Suc n) then char_boundary s n else Suc n)"

definition grep_preview :: "string \<Rightarrow> string" where
  "grep_preview line =
     (if \<not> valid_utf8 line then ''(line is not valid UTF-8)''
      else if length line \<le> MAX_GREP_PREVIEW_BYTES then line
      else take (char_boundary line MAX_GREP_PREVIEW_BYTES) line @ '' (line truncated)'')"

definition strip_cr :: "string \<Rightarrow> string" where
  "strip_cr l = (if l \<noteq> [] \<and> last l = CR then butlast l else l)"

definition match_line ::
  "(string \<Rightarrow> bool) \<Rightarrow> string \<Rightarrow> grep_match list \<times> nat \<Rightarrow> string \<Rightarrow> tool_call_error + grep_match list \<times> nat" where
  "match_line is_match path = (\<lambda>(out, line_index) raw.
     let line_number = line_index + 1; line = strip_cr raw in
     if length line > MAX_GREP_LINE_BYTES
     then Inl (search_limit (''grep encountered a line longer than '' @ digits MAX_GREP_LINE_BYTES @ '' bytes''))
     else if \<not> is_match line then Inr (out, line_number)
     else if length out \<ge> MAX_GREP_MATCHES
     then Inl (search_limit (''grep has more than '' @ digits MAX_GREP_MATCHES @ '' matching lines''))
     else Inr (out @ [\<lparr>gm_path = path, gm_line_number = line_number, gm_preview = grep_preview line\<rparr>], line_number))"

definition collect_matches ::
  "(string \<Rightarrow> bool) \<Rightarrow> string \<Rightarrow> string \<Rightarrow> grep_match list \<Rightarrow> tool_call_error + grep_match list" where
  "collect_matches is_match path bytes out =
     (if bytes = [] then Inr out
      else
        let content = (case strip_suffix [LF] bytes of Some c \<Rightarrow> c | None \<Rightarrow> bytes) in
        bindR (try_fold (match_line is_match path) (out, 0) (split_at LF content)) (\<lambda>(out, _). Inr out))"

definition grep_row :: "string \<Rightarrow> grep_match option \<Rightarrow> grep_match \<Rightarrow> string" where
  "grep_row out previous found =
     (if map_option gm_path previous = Some (gm_path found) then [] else [LF] @ gm_path found @ [LF])
     @ ''Line '' @ digits (gm_line_number found) @ '': '' @ gm_preview found @ [LF]"

definition grep_footer :: "nat \<Rightarrow> nat \<Rightarrow> string" where
  "grep_footer count shown =
     (if shown < count
      then [LF] @ ''Showing '' @ digits shown @ '' of '' @ digits count @ '' matches; the complete result was not saved.''
      else [])"

definition pop_newline :: "string \<Rightarrow> string" where
  "pop_newline out = (if ends_with out [LF] then butlast out else out)"

definition render_grep :: "grep_match list \<Rightarrow> tool_call_error + string" where
  "render_grep ms =
     (let count = length ms;
          output = ''Found '' @ digits count @ '' matches'' @ [LF];
          s = show_rows grep_row (grep_footer count) None (take MAX_GREP_RESULTS ms)
                \<lparr>rw_output = output, rw_encoded = json_string_content_bytes output, rw_shown = 0\<rparr> in
      within_limit (pop_newline (rw_output s @ grep_footer count (rw_shown s))))"

section \<open>read\<close>

text \<open>\<open>str::lines\<close>: without the newline, and without a carriage return before it.\<close>

definition text_lines :: "string \<Rightarrow> string list" where
  "text_lines s =
     map (\<lambda>l. case strip_suffix [LF] l of None \<Rightarrow> l | Some l \<Rightarrow> (case strip_suffix [CR] l of None \<Rightarrow> l | Some l \<Rightarrow> l))
       (split_inclusive s)"

fun take_chars :: "nat \<Rightarrow> string \<Rightarrow> string" where
  "take_chars n [] = []"
| "take_chars n (c # s) =
     (if is_continuation c then c # take_chars n s
      else case n of 0 \<Rightarrow> [] | Suc m \<Rightarrow> c # take_chars m s)"

definition truncate_line :: "string \<Rightarrow> string" where
  "truncate_line line =
     (if char_count line \<le> MAX_READ_LINE_CHARS then line
      else take_chars MAX_READ_LINE_CHARS line @ ''... (line truncated to '' @ digits MAX_READ_LINE_CHARS @ '' chars)'')"

definition capped_footer :: "nat \<Rightarrow> nat \<Rightarrow> string" where
  "capped_footer first_line cursor =
     ''(Output capped. Showing lines '' @ digits first_line @ ''-'' @ digits cursor @ ''. Use offset='' @ digits (cursor + 1) @ '' to continue.)''"

definition page_footer :: "nat \<Rightarrow> nat \<Rightarrow> nat \<Rightarrow> string" where
  "page_footer first_line cursor count =
     ''(Showing lines '' @ digits first_line @ ''-'' @ digits cursor @ '' of '' @ digits count @ ''. Use offset='' @ digits (cursor + 1) @ '' to continue.)''"

definition end_footer :: "nat \<Rightarrow> string" where
  "end_footer count = ''(End of file - total '' @ digits count @ '' lines)''"

definition maximum_footer_bytes :: "nat \<Rightarrow> nat \<Rightarrow> nat \<Rightarrow> nat" where
  "maximum_footer_bytes first_line cursor count =
     max (max (json_string_content_bytes (capped_footer first_line cursor))
              (json_string_content_bytes (page_footer first_line cursor count)))
       (json_string_content_bytes (end_footer count))"

record read_page =
  rd_lines :: "string list"
  rd_selected :: nat
  rd_body :: nat
  rd_cursor :: nat
  rd_capped :: bool

definition read_header :: "string \<Rightarrow> string" where
  "read_header display = ''<path>'' @ display @ ''</path>'' @ [LF] @ ''<type>file</type>'' @ [LF] @ ''<content>'' @ [LF]"

definition read_suffix :: string where
  "read_suffix = [LF] @ ''</content>''"

definition rendered_line :: "nat \<Rightarrow> string \<Rightarrow> string" where
  "rendered_line cursor line = digits (cursor + 1) @ '': '' @ truncate_line line"

definition projected_bytes :: "string \<Rightarrow> nat \<Rightarrow> nat \<Rightarrow> nat \<Rightarrow> nat \<Rightarrow> nat" where
  "projected_bytes display first_line count next_body next_cursor =
     saturating_add_u64
       (saturating_add_u64
          (saturating_add_u64 (saturating_add_u64 (json_string_content_bytes (read_header display)) next_body) 4)
          (maximum_footer_bytes first_line next_cursor count))
       (json_string_content_bytes read_suffix)"

fun read_loop :: "string \<Rightarrow> nat \<Rightarrow> nat \<Rightarrow> string list \<Rightarrow> read_page \<Rightarrow> read_page" where
  "read_loop display first_line count [] p = p"
| "read_loop display first_line count (line # ls) p =
     (let displayed = truncate_line line;
          added = length displayed + (if rd_lines p = [] then 0 else 1) in
      if saturating_add_u64 (rd_selected p) added > MAX_READ_SELECTED_BYTES then p\<lparr>rd_capped := True\<rparr>
      else
        let rendered = rendered_line (rd_cursor p) line;
            next_body = saturating_add_u64 (saturating_add_u64 (rd_body p) (json_string_content_bytes rendered))
                          (if rd_lines p = [] then 0 else 2);
            next_cursor = rd_cursor p + 1 in
        if text_block_encoded_bytes (projected_bytes display first_line count next_body next_cursor) > MAX_TOOL_CONTENT_BYTES
        then p\<lparr>rd_capped := True\<rparr>
        else read_loop display first_line count ls
               (p\<lparr>rd_lines := rd_lines p @ [rendered], rd_selected := rd_selected p + added,
                  rd_body := next_body, rd_cursor := next_cursor\<rparr>))"

definition page_of :: "string \<Rightarrow> string list \<Rightarrow> read_args \<Rightarrow> read_page" where
  "page_of display ls a =
     (let count = length ls; start = ra_offset a - 1;
          requested_end = min (saturating_add_u64 start (ra_limit a)) count in
      read_loop display (start + 1) count (take (requested_end - start) (drop start ls))
        \<lparr>rd_lines = [], rd_selected = 0, rd_body = 0, rd_cursor = start, rd_capped = False\<rparr>)"

definition read_footer :: "nat \<Rightarrow> nat \<Rightarrow> read_page \<Rightarrow> string" where
  "read_footer first_line count p =
     (if rd_capped p then capped_footer first_line (rd_cursor p)
      else if rd_cursor p < count then page_footer first_line (rd_cursor p) count
      else end_footer count)"

definition page_text :: "string \<Rightarrow> nat \<Rightarrow> nat \<Rightarrow> read_page \<Rightarrow> string" where
  "page_text display first_line count p =
     (let body = join_with [LF] (rd_lines p) in
      read_header display @ body @ (if body = [] then [] else [LF, LF]) @ read_footer first_line count p @ read_suffix)"

definition read_result :: "string \<Rightarrow> string \<Rightarrow> read_args \<Rightarrow> tool_call_error + string" where
  "read_result display bytes a =
     (if CHR 0x00 \<in> set bytes then Inl (file_not_text display)
      else if \<not> valid_utf8 bytes then Inl (file_not_text display)
      else
        let ls = text_lines bytes; count = length ls; start = ra_offset a - 1 in
        if count = 0 \<and> start \<noteq> 0 \<or> count > 0 \<and> start \<ge> count then Inl (not_found display)
        else Inr (page_text display (start + 1) count (page_of display ls a)))"

end
