(* ===== verification/File_Proofs.thy ===== *)
theory File_Proofs
  imports File_Tools "HOL-Library.Code_Target_Numeral"
begin

text \<open>
  The answers of the file tools fit the durable text block they are stored in, and the pages of a
  file, read one after the other, are the whole file.
\<close>

section \<open>Sizes are sizes of JSON\<close>

definition jlen :: "string \<Rightarrow> nat" where
  "jlen s = length (concat (map escape_char s))"

lemma jlen_simps [simp]: "jlen [] = 0" "jlen (s @ t) = jlen s + jlen t"
  by (simp_all add: jlen_def)

lemma jlen_Cons: "jlen (c # s) = length (escape_char c) + jlen s"
  by (simp add: jlen_def)

lemma json_char_length: "json_char_bytes c = length (escape_char c)"
  by (simp add: json_char_bytes_def escape_char_def Let_def)

definition capped_add :: "nat \<Rightarrow> nat \<Rightarrow> nat" where
  "capped_add a b = min (a + b) (U64_LIMIT - 1)"

lemma saturating_is_capped: "saturating_add_u64 a b = capped_add a b"
  by (simp add: saturating_add_u64_def capped_add_def)

lemma content_bytes: "json_string_content_bytes v = min (jlen v) (U64_LIMIT - 1)"
proof -
  have "foldl (\<lambda>count c. saturating_add_u64 count (json_char_bytes c)) (min n (U64_LIMIT - 1)) v = min (n + jlen v) (U64_LIMIT - 1)" for n
  proof (induction v arbitrary: n)
    case (Cons c v)
    have "saturating_add_u64 (min n (U64_LIMIT - 1)) (json_char_bytes c) = min (n + length (escape_char c)) (U64_LIMIT - 1)"
      by (auto simp: saturating_is_capped capped_add_def json_char_length min_def)
    then show ?case using Cons[of "n + length (escape_char c)"] by (simp add: jlen_Cons ac_simps)
  qed simp
  from this[of 0] show ?thesis by (simp add: json_string_content_bytes_def)
qed

text \<open>A size below the limit was never cut off.\<close>

definition fits :: "nat \<Rightarrow> bool" where
  "fits n \<longleftrightarrow> 25 + n \<le> MAX_TOOL_CONTENT_BYTES"

lemma text_block_fits: "text_block_encoded_bytes n \<le> MAX_TOOL_CONTENT_BYTES \<longleftrightarrow> fits n"
  by (auto simp: text_block_encoded_bytes_def EMPTY_TEXT_BLOCK_JSON_BYTES_def saturating_is_capped capped_add_def
        fits_def MAX_TOOL_CONTENT_BYTES_def U64_LIMIT_def)

lemma fits_capped [simp]:
  "fits (min n (U64_LIMIT - 1)) \<longleftrightarrow> fits n"
  "fits (min n (U64_LIMIT - Suc 0)) \<longleftrightarrow> fits n"
  by (auto simp: fits_def MAX_TOOL_CONTENT_BYTES_def U64_LIMIT_def)

lemma capped_add_min [simp]:
  "capped_add (min a (U64_LIMIT - 1)) b = min (a + b) (U64_LIMIT - 1)"
  "capped_add a (min b (U64_LIMIT - 1)) = min (a + b) (U64_LIMIT - 1)"
  "capped_add (min a (U64_LIMIT - Suc 0)) b = min (a + b) (U64_LIMIT - Suc 0)"
  "capped_add a (min b (U64_LIMIT - Suc 0)) = min (a + b) (U64_LIMIT - Suc 0)"
  by (auto simp: capped_add_def min_def)

definition text_block_json :: "externals \<Rightarrow> string \<Rightarrow> string" where
  "text_block_json E out = json_text E (obj_of [(''text'', JString out), (''type'', JString ''text'')])"

lemma text_block_length: "length (text_block_json E out) = 25 + jlen out"
proof -
  have "obj_of [(''text'', JString out), (''type'', JString ''text'')] = JObject [(''text'', JString out), (''type'', JString ''text'')]"
    by (simp add: obj_of_def byte_def)
  then show ?thesis by (simp add: text_block_json_def jlen_def) (simp add: string_text_def escape_char_def byte_def)
qed

section \<open>Rows\<close>

lemma show_rows_fits:
  assumes "rw_encoded s = json_string_content_bytes (rw_output s)" "fits (jlen (rw_output s @ footer (rw_shown s)))"
  shows "fits (jlen (rw_output (show_rows row footer previous xs s) @ footer (rw_shown (show_rows row footer previous xs s))))"
  using assms
proof (induction row footer previous xs s rule: show_rows.induct)
  case (2 row footer previous x xs s)
  let ?r = "row (rw_output s) previous x"
  have enc: "saturating_add_u64 (rw_encoded s) (json_string_content_bytes ?r) = json_string_content_bytes (rw_output s @ ?r)"
    using 2(2) by (simp add: content_bytes saturating_is_capped)
  have final: "saturating_add_u64 (saturating_add_u64 (rw_encoded s) (json_string_content_bytes ?r))
      (json_string_content_bytes (footer (rw_shown s + 1))) = json_string_content_bytes (rw_output s @ ?r @ footer (rw_shown s + 1))"
    unfolding enc by (simp add: content_bytes saturating_is_capped add.assoc)
  show ?case
  proof (cases "text_block_encoded_bytes (json_string_content_bytes (rw_output s @ ?r @ footer (rw_shown s + 1))) > MAX_TOOL_CONTENT_BYTES")
    case True
    then show ?thesis using 2(3) final by (simp add: Let_def)
  next
    case False
    then have "fits (jlen ((rw_output s @ ?r) @ footer (rw_shown s + 1)))"
      by (simp add: not_less text_block_fits content_bytes)
    then show ?thesis using 2(1)[OF refl refl refl refl] False final enc by (simp add: Let_def)
  qed
qed simp

lemma within_limit_fits: "fits (jlen out) \<Longrightarrow> within_limit out = Inr out"
  by (simp add: within_limit_def not_less text_block_fits content_bytes)

lemma digits_escape: "jlen (digits n) = length (digits n)"
proof (induction n rule: digits.induct)
  case (1 n)
  have d: "length (escape_char (char_of (48 + m))) = 1" if "m < 10" for m :: nat
    using that by (simp add: escape_char_def Let_def)
  show ?case
  proof (cases "n < 10")
    case True
    then show ?thesis using d[of n] by (subst digits.simps, subst (2) digits.simps) (simp add: jlen_Cons)
  next
    case False
    then show ?thesis using 1 d[of "n mod 10"] by (subst digits.simps, subst (2) digits.simps) (simp add: jlen_Cons)
  qed
qed

lemma digits_bound: "n \<le> U64_LIMIT \<Longrightarrow> jlen (digits n) \<le> 20"
  using digits_length[of n 20] by (simp add: digits_escape U64_LIMIT_def)

lemma jlen_six: "jlen s \<le> 6 * length s"
proof (induction s)
  case (Cons c s)
  have "length (escape_char c) \<le> 6" by (simp add: escape_char_def Let_def)
  then show ?case using Cons by (simp add: jlen_Cons)
qed simp

lemma jlen_no_control: "\<not> has_control s \<Longrightarrow> jlen s \<le> 2 * length s"
proof (induction s)
  case (Cons c s)
  then have "length (escape_char c) \<le> 2" by (auto simp: escape_char_def Let_def byte_def)
  then show ?case using Cons by (auto simp: jlen_Cons)
qed simp

lemma show_rows_shown: "rw_shown (show_rows row footer previous xs s) \<le> rw_shown s + length xs"
  by (induction row footer previous xs s rule: show_rows.induct) (auto simp: Let_def)


section \<open>The answers of list, glob and grep\<close>


lemma digits_short: "n < U64_LIMIT \<Longrightarrow> length (digits n) \<le> 20"
  using digits_length[of n 20] by (simp add: U64_LIMIT_def)

lemma fits_short: "length s \<le> 10000 \<Longrightarrow> fits (jlen s)"
  using jlen_six[of s] by (simp add: fits_def MAX_TOOL_CONTENT_BYTES_def)

lemma footers_short:
  assumes "count < U64_LIMIT" "shown \<le> count"
  shows "length (list_footer count shown) \<le> 200" "length (glob_footer count shown) \<le> 200"
    "length (grep_footer count shown) \<le> 200"
  using digits_short[of count] digits_short[of shown] assms
  by (simp_all add: list_footer_def glob_footer_def grep_footer_def)

lemma render_list_fits:
  assumes "length display \<le> MAX_TOOL_ARGUMENT_STRING_BYTES" "length es < U64_LIMIT"
  shows "\<exists>out. render_list display es = Inr out \<and> fits (jlen out)"
proof -
  note display = assms(1)[unfolded MAX_TOOL_ARGUMENT_STRING_BYTES_def]
  have sorted_nil: "sort_key we_name es = [] \<longleftrightarrow> es = []" by (metis length_0_conv length_sort)
  define h where "h = ''Directory '' @ display @ [LF]"
  define s where "s = show_rows list_row (list_footer (length es)) None (take MAX_LIST_ENTRIES (sort_key we_name es))
      \<lparr>rw_output = h, rw_encoded = json_string_content_bytes h, rw_shown = 0\<rparr>"
  have render: "render_list display es =
      (if es = [] then Inr (''Directory '' @ display @ '' is empty'')
       else within_limit (rw_output s @ list_footer (length es) (rw_shown s)))"
    unfolding render_list_def Let_def s_def h_def length_sort sorted_nil ..
  have "fits (jlen (h @ list_footer (length es) 0))"
    by (rule fits_short) (use display footers_short(1)[of "length es" 0] assms(2) in \<open>simp add: h_def\<close>)
  then have "fits (jlen (rw_output s @ list_footer (length es) (rw_shown s)))"
    unfolding s_def by (intro show_rows_fits) simp_all
  moreover have "fits (jlen (''Directory '' @ display @ '' is empty''))"
    by (rule fits_short) (use display in simp)
  ultimately show ?thesis unfolding render by (cases "es = []") (use within_limit_fits in auto)
qed

lemma render_glob_fits:
  assumes "length ms < U64_LIMIT"
  shows "\<exists>out. render_glob ms = Inr out \<and> fits (jlen out)"
proof -
  define s where "s = show_rows glob_row (glob_footer (length ms)) None (take MAX_GLOB_RESULTS ms)
      \<lparr>rw_output = [], rw_encoded = 0, rw_shown = 0\<rparr>"
  have "fits (jlen ([] @ glob_footer (length ms) 0))"
    by (rule fits_short) (use footers_short(2)[of "length ms" 0] assms in simp)
  then have "fits (jlen (rw_output s @ glob_footer (length ms) (rw_shown s)))"
    unfolding s_def by (intro show_rows_fits) (simp_all add: content_bytes)
  then show ?thesis by (simp add: render_glob_def Let_def within_limit_fits flip: s_def)
qed

lemma pop_newline_jlen: "jlen (pop_newline out) \<le> jlen out"
  by (cases out rule: rev_cases) (simp_all add: pop_newline_def ends_with_def)

lemma render_grep_fits:
  assumes "length ms < U64_LIMIT"
  shows "\<exists>out. render_grep ms = Inr out \<and> fits (jlen out)"
proof -
  define header where "header = ''Found '' @ digits (length ms) @ '' matches'' @ [LF]"
  define s where "s = show_rows grep_row (grep_footer (length ms)) None (take MAX_GREP_RESULTS ms)
      \<lparr>rw_output = header, rw_encoded = json_string_content_bytes header, rw_shown = 0\<rparr>"
  have "fits (jlen (header @ grep_footer (length ms) 0))"
    by (rule fits_short) (use footers_short(3)[of "length ms" 0] digits_short[OF assms] assms in \<open>simp add: header_def\<close>)
  then have "fits (jlen (rw_output s @ grep_footer (length ms) (rw_shown s)))"
    unfolding s_def by (intro show_rows_fits) simp_all
  then have "fits (jlen (pop_newline (rw_output s @ grep_footer (length ms) (rw_shown s))))"
    using pop_newline_jlen[of "rw_output s @ grep_footer (length ms) (rw_shown s)"] unfolding fits_def by linarith
  then have "within_limit (pop_newline (rw_output s @ grep_footer (length ms) (rw_shown s)))
      = Inr (pop_newline (rw_output s @ grep_footer (length ms) (rw_shown s)))" by (rule within_limit_fits)
  moreover have "render_grep ms = within_limit (pop_newline (rw_output s @ grep_footer (length ms) (rw_shown s)))"
    unfolding render_grep_def Let_def s_def header_def ..
  ultimately show ?thesis using \<open>fits (jlen (pop_newline _))\<close> by auto
qed

section \<open>Lines of valid text are short once truncated\<close>

text \<open>In UTF-8 no four continuation bytes follow each other; this holds of every part of a text.\<close>

fun short_runs :: "nat \<Rightarrow> string \<Rightarrow> bool" where
  "short_runs k [] = True"
| "short_runs k (c # s) = (if is_continuation c then k < 3 \<and> short_runs (Suc k) s else short_runs 0 s)"

lemma short_runs_mono: "short_runs k s \<Longrightarrow> j \<le> k \<Longrightarrow> short_runs j s"
  by (induction k s arbitrary: j rule: short_runs.induct) (auto split: if_splits)

lemma short_runs_suffix: "short_runs k (a @ b) \<Longrightarrow> short_runs 0 b"
  by (induction a arbitrary: k) (auto dest: short_runs_mono split: if_splits)

lemma short_runs_prefix: "short_runs k (a @ b) \<Longrightarrow> short_runs k a"
  by (induction a arbitrary: k) (auto split: if_splits)

lemma short_runs_after: "list_all is_continuation xs \<Longrightarrow> length xs + k \<le> 3 \<Longrightarrow> \<forall>j\<le>3. short_runs j s \<Longrightarrow> short_runs k (xs @ s)"
  by (induction xs arbitrary: k) auto

lemma valid_short_runs: "from_utf8 s = Inr us \<Longrightarrow> \<forall>k\<le>3. short_runs k s"
proof (induction s arbitrary: us rule: from_utf8.induct)
  case (2 c cs)
  obtain u n where n: "utf8_next (byte c) (map byte cs) = Scalar u n" "is_ok (from_utf8 (drop (n - 1) cs))"
    using 2(2) by (auto split: utf8_head.splits simp: result_simps)
  have rest: "\<forall>k\<le>3. short_runs k (drop (n - 1) cs)" using 2(1)[OF n(1)] n(2) by (auto simp: is_ok_iff)
  have "list_all is_continuation (take (n - 1) cs)"
    using scalar_tail[OF n(1)] by (auto simp: list_all_iff is_continuation_def byte_def take_map Let_def)
  then have "short_runs 0 (take (n - 1) cs @ drop (n - 1) cs)"
    using rest utf8_next_width[OF n(1)] by (intro short_runs_after) auto
  moreover have "\<not> is_continuation c"
    using n(1) by (auto simp: utf8_next_def is_continuation_def byte_def Let_def split: if_splits)
  ultimately show ?case by simp
qed simp

lemma take_chars_bounds:
  "short_runs k s \<Longrightarrow> k \<le> 3 \<Longrightarrow>
     length (take_chars n s) \<le> 4 * n + (3 - k) \<and> jlen (take_chars n s) \<le> 9 * n + (3 - k)"
proof (induction n s arbitrary: k rule: take_chars.induct)
  case (2 n c s)
  have six: "length (escape_char c) \<le> 6" by (simp add: escape_char_def Let_def)
  show ?case
  proof (cases "is_continuation c")
    case True
    have one: "length (escape_char c) = 1" using True by (auto simp: escape_char_def is_continuation_def byte_def Let_def)
    from True 2(1)[of "Suc k"] 2(3) one show ?thesis by (auto simp: jlen_Cons)
  next
    case False
    show ?thesis
    proof (cases n)
      case (Suc m)
      from False Suc 2(2)[OF False Suc, of 0] 2(3) six show ?thesis by (auto simp: jlen_Cons)
    qed (use False in simp)
  qed
qed simp

lemma take_all_chars: "take_chars (char_count s) s = s"
  by (induction s) (simp_all add: char_count_def)

lemma truncate_line_bounds:
  assumes "short_runs 0 l"
  shows "length (truncate_line l) \<le> 8100" "jlen (truncate_line l) \<le> 18400"
proof -
  define m where "m = ''... (line truncated to '' @ digits MAX_READ_LINE_CHARS @ '' chars)''"
  have m: "length m \<le> 50" using digits_length[of MAX_READ_LINE_CHARS 4] by (simp add: m_def MAX_READ_LINE_CHARS_def)
  have t: "length (take_chars n l) \<le> 4 * n + 3" "jlen (take_chars n l) \<le> 9 * n + 3" for n
    using take_chars_bounds[OF assms, of n] by auto
  have "length (truncate_line l) \<le> 8100 \<and> jlen (truncate_line l) \<le> 18400"
  proof (cases "char_count l \<le> MAX_READ_LINE_CHARS")
    case True
    then show ?thesis using t[of "char_count l"] by (simp add: truncate_line_def take_all_chars MAX_READ_LINE_CHARS_def)
  next
    case False
    then have e: "truncate_line l = take_chars MAX_READ_LINE_CHARS l @ m" by (simp only: truncate_line_def m_def if_False)
    have "jlen m \<le> 6 * 50" using jlen_six[of m] m by linarith
    then show ?thesis using t[of MAX_READ_LINE_CHARS] m by (simp add: e MAX_READ_LINE_CHARS_def)
  qed
  then show "length (truncate_line l) \<le> 8100" "jlen (truncate_line l) \<le> 18400" by blast+
qed

lemma text_lines_runs:
  assumes "valid_utf8 s" "l \<in> set (text_lines s)"
  shows "short_runs 0 l"
proof -
  obtain us where "from_utf8 s = Inr us" using assms(1) by (auto simp: valid_utf8_def is_ok_iff)
  then have s: "short_runs 0 (concat (split_inclusive s))" using valid_short_runs by simp
  obtain m where m: "m \<in> set (split_inclusive s)" "\<exists>n. l = take n m"
    using assms(2) by (auto simp: text_lines_def strip_suffix_def split: option.splits if_splits)
       (metis take_all order_refl, metis, metis take_take)
  obtain a b where "split_inclusive s = a @ m # b" using m(1) by (meson split_list)
  then have "short_runs 0 m" using s short_runs_suffix[of 0 "concat a" "m @ concat b"] short_runs_prefix[of 0 m "concat b"] by auto
  then show ?thesis using m(2) short_runs_prefix[of 0 l] by (metis append_take_drop_id)
qed

section \<open>Pages\<close>

definition rendered_lines :: "nat \<Rightarrow> string list \<Rightarrow> string list" where
  "rendered_lines i ls = map (\<lambda>(i, l). rendered_line i l) (enumerate i ls)"

lemma rendered_lines_simps [simp]:
  "rendered_lines i [] = []" "rendered_lines i (l # ls) = rendered_line i l # rendered_lines (Suc i) ls"
  by (simp_all add: rendered_lines_def)

lemma rendered_lines_append: "rendered_lines i (ls @ ms) = rendered_lines i ls @ rendered_lines (i + length ls) ms"
  by (induction ls arbitrary: i) simp_all

text \<open>What is on a page: a prefix of the lines asked for, all of them unless the page was capped.\<close>

lemma read_loop_prefix:
  assumes "\<not> rd_capped p"
  shows "\<exists>k\<le>length ls. let q = read_loop display first count ls p in
      rd_cursor q = rd_cursor p + k \<and> rd_lines q = rd_lines p @ rendered_lines (rd_cursor p) (take k ls)
      \<and> (rd_capped q \<longleftrightarrow> k < length ls)"
  using assms
proof (induction display first count ls p rule: read_loop.induct)
  case (2 display first count line ls p)
  let ?q = "read_loop display first count (line # ls) p"
  show ?case
  proof (cases "?q = p\<lparr>rd_capped := True\<rparr>")
    case True
    then show ?thesis by (intro exI[of _ 0]) (simp add: Let_def del: read_loop.simps)
  next
    case False
    define p1 where "p1 = p\<lparr>rd_lines := rd_lines p @ [rendered_line (rd_cursor p) line],
        rd_selected := rd_selected p + (length (truncate_line line) + (if rd_lines p = [] then 0 else 1)),
        rd_body := saturating_add_u64 (saturating_add_u64 (rd_body p) (json_string_content_bytes (rendered_line (rd_cursor p) line)))
                     (if rd_lines p = [] then 0 else 2), rd_cursor := rd_cursor p + 1\<rparr>"
    have q: "?q = read_loop display first count ls p1"
      using False by (auto simp: Let_def p1_def split: if_splits)
    have "\<exists>k\<le>length ls. let q = read_loop display first count ls p1 in
        rd_cursor q = rd_cursor p1 + k \<and> rd_lines q = rd_lines p1 @ rendered_lines (rd_cursor p1) (take k ls)
        \<and> (rd_capped q \<longleftrightarrow> k < length ls)"
      using 2(1)[OF refl refl _ refl refl refl] False 2(2) by (auto simp: Let_def p1_def split: if_splits)
    then obtain k where "k \<le> length ls" "rd_cursor ?q = rd_cursor p1 + k"
      "rd_lines ?q = rd_lines p1 @ rendered_lines (rd_cursor p1) (take k ls)" "rd_capped ?q \<longleftrightarrow> k < length ls"
      unfolding q by (auto simp: Let_def)
    then show ?thesis by (intro exI[of _ "Suc k"]) (simp add: Let_def p1_def del: read_loop.simps)
  qed
qed (auto simp: Let_def)

text \<open>The text of a page, and how much room its lines leave.\<close>

definition page_ok :: "string \<Rightarrow> nat \<Rightarrow> nat \<Rightarrow> read_page \<Rightarrow> bool" where
  "page_ok display first count p \<longleftrightarrow>
     rd_body p = json_string_content_bytes (join_with [LF] (rd_lines p))
     \<and> (rd_lines p \<noteq> [] \<longrightarrow>
          fits (jlen (read_header display) + jlen (join_with [LF] (rd_lines p)) + 4
                + maximum_footer_bytes first (rd_cursor p) count + jlen read_suffix))"

lemma join_snoc: "ls \<noteq> [] \<Longrightarrow> join_with sep (ls @ [l]) = join_with sep ls @ sep @ l"
  by (induction ls rule: induct_list012) simp_all

lemma escape_LF: "length (escape_char LF) = 2"
  by code_simp

lemma fits_min_add: "fits (min x (U64_LIMIT - Suc 0) + y) \<longleftrightarrow> fits (x + y)"
  by (auto simp: fits_def MAX_TOOL_CONTENT_BYTES_def U64_LIMIT_def)

lemma projected:
  "fits (projected_bytes display first count (min b (U64_LIMIT - 1)) cursor) \<longleftrightarrow>
     fits (jlen (read_header display) + b + 4 + maximum_footer_bytes first cursor count + jlen read_suffix)"
  by (simp add: projected_bytes_def saturating_is_capped content_bytes add.assoc fits_min_add)

lemma read_loop_ok:
  assumes "page_ok display first count p"
  shows "page_ok display first count (read_loop display first count ls p)"
  using assms
proof (induction display first count ls p rule: read_loop.induct)
  case (2 display first count line ls p)
  let ?r = "rendered_line (rd_cursor p) line"
  let ?lines = "rd_lines p @ [?r]"
  define body where "body = saturating_add_u64 (saturating_add_u64 (rd_body p) (json_string_content_bytes ?r))
      (if rd_lines p = [] then 0 else 2)"
  have body: "body = min (jlen (join_with [LF] ?lines)) (U64_LIMIT - 1)"
    using 2(2) by (simp add: page_ok_def body_def content_bytes saturating_is_capped join_snoc capped_add_def jlen_Cons escape_LF)
       (simp add: min_def)
  show ?case
  proof (cases "saturating_add_u64 (rd_selected p) (length (truncate_line line) + (if rd_lines p = [] then 0 else 1)) > MAX_READ_SELECTED_BYTES
       \<or> text_block_encoded_bytes (projected_bytes display first count body (rd_cursor p + 1)) > MAX_TOOL_CONTENT_BYTES")
    case True
    then show ?thesis using 2(2) by (auto simp: Let_def page_ok_def body_def)
  next
    case False
    then have "fits (projected_bytes display first count body (rd_cursor p + 1))" by (simp add: not_less text_block_fits)
    then have room: "fits (jlen (read_header display) + jlen (join_with [LF] ?lines) + 4
        + maximum_footer_bytes first (rd_cursor p + 1) count + jlen read_suffix)"
      unfolding body projected .
    show ?thesis using 2(1)[OF refl refl _ refl refl refl] False room body
      by (auto simp: Let_def page_ok_def body_def content_bytes)
  qed
qed simp


lemma read_footers_short:
  assumes "first < U64_LIMIT" "cursor + 1 < U64_LIMIT" "count < U64_LIMIT"
  shows "length (capped_footer first cursor) \<le> 150" "length (page_footer first cursor count) \<le> 150"
    "length (end_footer count) \<le> 150"
  using digits_short[OF assms(1)] digits_short[of cursor] digits_short[OF assms(2)] digits_short[OF assms(3)] assms(2)
  by (simp_all add: capped_footer_def page_footer_def end_footer_def)

lemma maximum_footer:
  assumes "first < U64_LIMIT" "cursor + 1 < U64_LIMIT" "count < U64_LIMIT"
  shows "maximum_footer_bytes first cursor count \<le> 900"
    "jlen (capped_footer first cursor) \<le> maximum_footer_bytes first cursor count"
    "jlen (page_footer first cursor count) \<le> maximum_footer_bytes first cursor count"
    "jlen (end_footer count) \<le> maximum_footer_bytes first cursor count"
proof -
  have "jlen (capped_footer first cursor) \<le> 900" "jlen (page_footer first cursor count) \<le> 900" "jlen (end_footer count) \<le> 900"
    using read_footers_short[OF assms] jlen_six[of "capped_footer first cursor"] jlen_six[of "page_footer first cursor count"]
      jlen_six[of "end_footer count"] by linarith+
  then show "maximum_footer_bytes first cursor count \<le> 900"
    "jlen (capped_footer first cursor) \<le> maximum_footer_bytes first cursor count"
    "jlen (page_footer first cursor count) \<le> maximum_footer_bytes first cursor count"
    "jlen (end_footer count) \<le> maximum_footer_bytes first cursor count"
    by (simp_all add: maximum_footer_bytes_def content_bytes U64_LIMIT_def)
qed

definition shown_path :: "string \<Rightarrow> bool" where
  "shown_path display \<longleftrightarrow> length display \<le> MAX_TOOL_ARGUMENT_STRING_BYTES \<and> \<not> has_control display"

lemma read_frame_short: "shown_path display \<Longrightarrow> jlen (read_header display) \<le> 9000" "jlen read_suffix \<le> 100"
proof -
  have a: "jlen ''<path>'' \<le> 100" "jlen (''</path>'' @ [LF] @ ''<type>file</type>'' @ [LF] @ ''<content>'' @ [LF]) \<le> 300"
    by code_simp+
  show "shown_path display \<Longrightarrow> jlen (read_header display) \<le> 9000"
    using a jlen_no_control[of display]
    unfolding read_header_def shown_path_def jlen_simps(2)[of "''<path>''"] jlen_simps(2)[of display] MAX_TOOL_ARGUMENT_STRING_BYTES_def
    by simp
  show "jlen read_suffix \<le> 100" by code_simp
qed

lemma read_loop_first:
  assumes "shown_path display" "short_runs 0 line" "first < U64_LIMIT" "rd_cursor p + 2 < U64_LIMIT" "count < U64_LIMIT"
    and "rd_lines p = []" "rd_selected p = 0" "rd_body p = 0" "\<not> rd_capped p"
  shows "rd_cursor p < rd_cursor (read_loop display first count (line # ls) p)"
proof -
  note t = truncate_line_bounds[OF assms(2)]
  let ?b = "json_string_content_bytes (rendered_line (rd_cursor p) line)"
  have j: "jlen (rendered_line (rd_cursor p) line) \<le> 18600"
    using t(2) digits_bound[of "rd_cursor p + 1"] assms(4) jlen_six[of "'': ''"] unfolding rendered_line_def jlen_simps by simp
  have room: "fits (jlen (read_header display) + jlen (rendered_line (rd_cursor p) line) + 4
      + maximum_footer_bytes first (rd_cursor p + 1) count + jlen read_suffix)"
    using j read_frame_short(1)[OF assms(1)] read_frame_short(2) maximum_footer(1)[of first "rd_cursor p + 1" count] assms(3-5)
    by (simp add: fits_def MAX_TOOL_CONTENT_BYTES_def)
  have b: "saturating_add_u64 (saturating_add_u64 0 ?b) 0 = min (jlen (rendered_line (rd_cursor p) line)) (U64_LIMIT - 1)"
    by (simp add: content_bytes saturating_is_capped capped_add_def)
  have small: "\<not> MAX_TOOL_CONTENT_BYTES < text_block_encoded_bytes
      (projected_bytes display first count (saturating_add_u64 (saturating_add_u64 0 ?b) 0) (rd_cursor p + 1))"
    unfolding b not_less text_block_fits projected by (rule room)
  have short: "\<not> MAX_READ_SELECTED_BYTES < saturating_add_u64 0 (length (truncate_line line) + 0)"
    using t(1) by (simp add: saturating_is_capped capped_add_def MAX_READ_SELECTED_BYTES_def)
  define p1 where "p1 = p\<lparr>rd_lines := [rendered_line (rd_cursor p) line], rd_selected := length (truncate_line line),
      rd_body := saturating_add_u64 (saturating_add_u64 0 ?b) 0, rd_cursor := rd_cursor p + 1\<rparr>"
  have "read_loop display first count (line # ls) p = read_loop display first count ls p1"
    using small short assms(6-8) by (simp add: Let_def p1_def)
  moreover have "\<not> rd_capped p1" "rd_cursor p1 = rd_cursor p + 1" using assms(9) by (simp_all add: p1_def)
  ultimately show ?thesis using read_loop_prefix[of p1 ls display first count] by (auto simp: Let_def)
qed


lemma page_of_prefix:
  assumes "ra_offset a - 1 \<le> length ls"
  shows "\<exists>k\<le>length ls - (ra_offset a - 1). let q = page_of display ls a in
      rd_cursor q = ra_offset a - 1 + k \<and> rd_lines q = rendered_lines (ra_offset a - 1) (take k (drop (ra_offset a - 1) ls))
      \<and> page_ok display (ra_offset a - 1 + 1) (length ls) q"
proof -
  let ?start = "ra_offset a - 1"
  define asked where "asked = take (min (saturating_add_u64 ?start (ra_limit a)) (length ls) - ?start) (drop ?start ls)"
  define p0 where "p0 = \<lparr>rd_lines = [], rd_selected = 0, rd_body = 0, rd_cursor = ?start, rd_capped = False\<rparr>"
  have page: "page_of display ls a = read_loop display (?start + 1) (length ls) asked p0"
    unfolding page_of_def Let_def asked_def p0_def ..
  have p0: "rd_cursor p0 = ?start" "rd_lines p0 = []" "\<not> rd_capped p0" "page_ok display (?start + 1) (length ls) p0"
    by (simp_all add: p0_def page_ok_def content_bytes)
  obtain k where k: "k \<le> length asked" "rd_cursor (page_of display ls a) = ?start + k"
    "rd_lines (page_of display ls a) = rendered_lines ?start (take k asked)"
    using read_loop_prefix[OF p0(3), of asked display "?start + 1" "length ls"] p0(1,2) unfolding page by (auto simp: Let_def)
  moreover have "page_ok display (?start + 1) (length ls) (page_of display ls a)"
    unfolding page by (rule read_loop_ok[OF p0(4)])
  moreover have "k \<le> length ls - ?start" "take k asked = take k (drop ?start ls)"
    using k(1) by (simp_all add: asked_def min_def split: if_splits)
  ultimately show ?thesis by (intro exI[of _ k]) (simp add: Let_def)
qed

lemma page_of_progress:
  assumes "shown_path display" "\<forall>l\<in>set ls. short_runs 0 l" "ra_offset a - 1 < length ls" "0 < ra_limit a"
    "length ls + 2 < U64_LIMIT"
  shows "ra_offset a - 1 < rd_cursor (page_of display ls a)"
proof -
  let ?start = "ra_offset a - 1"
  let ?n = "min (saturating_add_u64 ?start (ra_limit a)) (length ls) - ?start"
  have "0 < ?n" using assms(3-5) by (auto simp: saturating_is_capped capped_add_def)
  then obtain rest where asked: "take ?n (drop ?start ls) = ls ! ?start # rest"
    using assms(3) by (cases ?n) (auto simp flip: Cons_nth_drop_Suc)
  have "short_runs 0 (ls ! ?start)" using assms(2,3) by simp
  then show ?thesis unfolding page_of_def Let_def asked
    using read_loop_first[OF assms(1), of "ls ! ?start" "?start + 1"
        "\<lparr>rd_lines = [], rd_selected = 0, rd_body = 0, rd_cursor = ?start, rd_capped = False\<rparr>" "length ls" rest] assms(3,5)
    by simp
qed

lemma page_text_fits:
  assumes "shown_path display" "page_ok display first count q" "first < U64_LIMIT" "rd_cursor q + 1 < U64_LIMIT" "count < U64_LIMIT"
  shows "fits (jlen (page_text display first count q))"
proof -
  note frame = read_frame_short(1)[OF assms(1)] read_frame_short(2)
  note footer = maximum_footer[OF assms(3-5)]
  have foot: "jlen (read_footer first count q) \<le> maximum_footer_bytes first (rd_cursor q) count"
    using footer by (simp add: read_footer_def)
  define sep where "sep = (if join_with [LF] (rd_lines q) = [] then [] else [LF, LF])"
  have sep: "jlen sep \<le> 4" by (simp add: sep_def jlen_Cons escape_LF)
  have len: "jlen (page_text display first count q) = jlen (read_header display) + jlen (join_with [LF] (rd_lines q)) + jlen sep
      + jlen (read_footer first count q) + jlen read_suffix"
    unfolding page_text_def Let_def sep_def[symmetric] by (simp only: jlen_simps)
  show ?thesis
  proof (cases "rd_lines q = []")
    case True
    then show ?thesis using len sep foot footer(1) frame by (simp add: fits_def MAX_TOOL_CONTENT_BYTES_def)
  next
    case False
    then show ?thesis using assms(2) len sep foot unfolding page_ok_def fits_def by linarith
  qed
qed

lemma text_lines_length: "length (text_lines s) \<le> length s"
proof -
  have "length (split_inclusive s) \<le> length s" by (induction s) (auto split: list.splits)
  then show ?thesis by (simp add: text_lines_def)
qed

lemma read_result_fits:
  assumes "shown_path display" "length bytes + 2 < U64_LIMIT" "read_result display bytes a = Inr out"
  shows "fits (jlen out)"
proof -
  let ?ls = "text_lines bytes"
  have n: "length ?ls + 2 < U64_LIMIT" using text_lines_length[of bytes] assms(2) by linarith
  have start: "ra_offset a - 1 \<le> length ?ls" and out: "out = page_text display (ra_offset a - 1 + 1) (length ?ls) (page_of display ?ls a)"
    using assms(3) by (auto simp: read_result_def Let_def split: if_splits)
  from page_of_prefix[OF start, of display] obtain k where "k \<le> length ?ls - (ra_offset a - 1)"
    "rd_cursor (page_of display ?ls a) = ra_offset a - 1 + k" "page_ok display (ra_offset a - 1 + 1) (length ?ls) (page_of display ?ls a)"
    by (auto simp: Let_def)
  then show ?thesis unfolding out using start n by (intro page_text_fits[OF assms(1)]) auto
qed

section \<open>Properties\<close>

text \<open>
  C31: an answer of a file tool always fits its durable text block.  Whatever \<open>list\<close>, \<open>glob\<close> and \<open>grep\<close>
  found, the rows they show and the footer are within the limit, so that their last check never fails;
  a page of \<open>read\<close>, which is not checked again, is within it too.
\<close>

theorem tool_answers_fit:
  assumes "length display \<le> MAX_TOOL_ARGUMENT_STRING_BYTES" "\<not> has_control display"
    and "length entries < U64_LIMIT" "length files < U64_LIMIT" "length found < U64_LIMIT" "length bytes + 2 < U64_LIMIT"
  shows "(\<exists>out. render_list display entries = Inr out \<and> length (text_block_json E out) \<le> MAX_TOOL_CONTENT_BYTES)
     \<and> (\<exists>out. render_glob files = Inr out \<and> length (text_block_json E out) \<le> MAX_TOOL_CONTENT_BYTES)
     \<and> (\<exists>out. render_grep found = Inr out \<and> length (text_block_json E out) \<le> MAX_TOOL_CONTENT_BYTES)
     \<and> (\<forall>a out. read_result display bytes a = Inr out \<longrightarrow> length (text_block_json E out) \<le> MAX_TOOL_CONTENT_BYTES)"
  using render_list_fits[OF assms(1,3)] render_glob_fits[OF assms(4)] render_grep_fits[OF assms(5)]
    read_result_fits[of display bytes] assms(1,2,6)
  unfolding text_block_length fits_def[symmetric] shown_path_def by blast

text \<open>
  A reader that asks for the next page at the offset the page before named, with fuel for the number
  of its requests.
\<close>

fun follow_pages :: "nat \<Rightarrow> string \<Rightarrow> string list \<Rightarrow> nat \<Rightarrow> nat \<Rightarrow> string list option" where
  "follow_pages 0 display ls limit offset = None"
| "follow_pages (Suc fuel) display ls limit offset =
     (let q = page_of display ls \<lparr>ra_file_path = display, ra_offset = offset, ra_limit = limit\<rparr> in
      if rd_cursor q < length ls
      then map_option (append (rd_lines q)) (follow_pages fuel display ls limit (rd_cursor q + 1))
      else Some (rd_lines q))"

lemma follow_pages_rest:
  assumes "shown_path display" "\<forall>l\<in>set ls. short_runs 0 l" "0 < limit" "length ls + 2 < U64_LIMIT"
  shows "start < length ls \<Longrightarrow> length ls - start \<le> fuel \<Longrightarrow>
    follow_pages fuel display ls limit (start + 1) = Some (rendered_lines start (drop start ls))"
proof (induction fuel arbitrary: start)
  case (Suc fuel)
  let ?a = "\<lparr>ra_file_path = display, ra_offset = start + 1, ra_limit = limit\<rparr>"
  let ?q = "page_of display ls ?a"
  obtain k where k: "k \<le> length ls - start" "rd_cursor ?q = start + k"
    "rd_lines ?q = rendered_lines start (take k (drop start ls))"
    using page_of_prefix[of ?a ls display] Suc.prems(1) by (auto simp: Let_def)
  have "0 < k" using page_of_progress[OF assms(1,2), of ?a] assms(3,4) Suc.prems(1) k(2) by simp
  have split: "rendered_lines start (drop start ls)
      = rendered_lines start (take k (drop start ls)) @ rendered_lines (start + k) (drop (start + k) ls)"
  proof -
    have "drop (start + k) ls = drop k (drop start ls)" by (simp add: add.commute)
    then have "drop start ls = take k (drop start ls) @ drop (start + k) ls" by (simp only: append_take_drop_id)
    moreover have "length (take k (drop start ls)) = k" using k(1) by simp
    ultimately show ?thesis using rendered_lines_append[of start "take k (drop start ls)" "drop (start + k) ls"] by simp
  qed
  show ?case
  proof (cases "start + k < length ls")
    case True
    have "length ls - (start + k) \<le> fuel" using Suc.prems(2) \<open>0 < k\<close> by simp
    from Suc.IH[OF True this] show ?thesis using True unfolding follow_pages.simps Let_def k(2,3) split by simp
  next
    case False
    then show ?thesis using k(1) unfolding follow_pages.simps Let_def k(2,3) split by simp
  qed
qed simp

text \<open>
  C32: reading a file page by page comes to an end.  Every page has at least one line, however long the lines
  are, so that a reader who asks for the offset after the last line shown (the cursor of the page; the footer prints the same
  number) needs at most as many requests as there are lines, and has then
  seen every line exactly once, in order.
\<close>

theorem pages_are_the_file:
  assumes "valid_utf8 bytes" "length bytes + 2 < U64_LIMIT" "text_lines bytes \<noteq> []" "0 < limit"
    and "length display \<le> MAX_TOOL_ARGUMENT_STRING_BYTES" "\<not> has_control display"
  shows "follow_pages (length (text_lines bytes)) display (text_lines bytes) limit 1
     = Some (map (\<lambda>(i, l). digits (i + 1) @ '': '' @ truncate_line l) (enumerate 0 (text_lines bytes)))"
proof -
  have "length (text_lines bytes) + 2 < U64_LIMIT" using text_lines_length[of bytes] assms(2) by linarith
  moreover have "\<forall>l\<in>set (text_lines bytes). short_runs 0 l" using text_lines_runs[OF assms(1)] by blast
  moreover have "shown_path display" using assms(5,6) by (simp add: shown_path_def)
  ultimately show ?thesis
    using follow_pages_rest[of display "text_lines bytes" limit 0 "length (text_lines bytes)"] assms(3,4)
    by (simp add: rendered_lines_def rendered_line_def)
qed

section \<open>An example\<close>

definition example_text :: string where
  "example_text = ''a'' @ [CR, LF] @ ''b'' @ [LF]"

lemma example_text_facts:
  "valid_utf8 example_text" "text_lines example_text = [''a'', ''b'']" "length example_text = 5"
  "\<not> has_control ''src'' \<and> length ''src'' \<le> MAX_TOOL_ARGUMENT_STRING_BYTES"
  by code_simp+

theorem tool_answers_fit_witness:
  "\<exists>out. render_glob [\<lparr>wf_relative = [Normal ''src''], wf_display = ''src'', wf_modified = 7\<rparr>] = Inr out
     \<and> length (text_block_json example_externals out) \<le> MAX_TOOL_CONTENT_BYTES"
  using tool_answers_fit[of "''src''" "[]" "[\<lparr>wf_relative = [Normal ''src''], wf_display = ''src'', wf_modified = 7\<rparr>]"
      "[]" example_text example_externals] example_text_facts
  by (simp add: U64_LIMIT_def)

theorem pages_are_the_file_witness:
  "follow_pages 2 ''src'' (text_lines example_text) 1 1 = Some [''1: a'', ''2: b'']"
proof -
  have "length example_text + 2 < U64_LIMIT" "text_lines example_text \<noteq> []" "(0::nat) < 1"
    using example_text_facts by (simp_all add: U64_LIMIT_def)
  from pages_are_the_file[OF example_text_facts(1) this, of "''src''"] example_text_facts(4)
  have "follow_pages 2 ''src'' (text_lines example_text) 1 1
      = Some (map (\<lambda>(i, l). digits (i + 1) @ '': '' @ truncate_line l) (enumerate 0 (text_lines example_text)))"
    by (simp add: example_text_facts(2) numeral_2_eq_2)
  also have "\<dots> = Some [''1: a'', ''2: b'']" by code_simp
  finally show ?thesis .
qed

end
