(* ===== verification/DeepSeek_Response.thy ===== *)
theory DeepSeek_Response
  imports Stream_Validator
begin

text \<open>
  From streamed provider JSON to chunks (\<open>src/provider/deepseek/response.rs\<close>), with the
  constructors of \<open>src/model/llm.rs\<close> it uses.  Reading a payload as the wire types is derived
  code of \<open>serde\<close> and a parameter of the model.  A translator that has failed is dropped by the
  adapter, so its state after a failure is not kept.
\<close>

section \<open>Constructors of failures, finish reasons and chunks\<close>

definition number_value :: "number \<Rightarrow> json" where
  "number_value n = (case n of NumInt i \<Rightarrow> JInt i | NumFloat w \<Rightarrow> JFloat w)"

definition failure_from_parts ::
  "externals \<Rightarrow> string \<Rightarrow> string \<Rightarrow> nat option \<Rightarrow> number option \<Rightarrow> string option \<Rightarrow> model_error + llm_failure" where
  "failure_from_parts E msg code status delay rid =
     bindR (validate_failure_parts msg code status rid) (\<lambda>_.
     bindR (new_value E (obj_of ([(''message'', JString msg), (''code'', JString code)]
         @ (case status of None \<Rightarrow> [] | Some s \<Rightarrow> [(''status'', JInt (int s))])
         @ (case delay of None \<Rightarrow> [] | Some d \<Rightarrow> [(''providerRetryAfterMs'', number_value d)])
         @ (case rid of None \<Rightarrow> [] | Some r \<Rightarrow> [(''requestId'', JString r)])))) (\<lambda>raw.
       Inr \<lparr>lf_message = msg, lf_code = code, lf_status = status, lf_retry_after_ms = delay,
            lf_request_id = rid, lf_raw = raw\<rparr>))"

definition failure_new :: "externals \<Rightarrow> string \<Rightarrow> string \<Rightarrow> model_error + llm_failure" where
  "failure_new E msg code = failure_from_parts E msg code None None None"

definition reason_stop :: "externals \<Rightarrow> model_error + finish_reason" where
  "reason_stop E = finish_reason_from_value E (obj_of [(''kind'', JString ''stop'')])"

definition reason_tool_calls :: "externals \<Rightarrow> model_error + finish_reason" where
  "reason_tool_calls E = finish_reason_from_value E (obj_of [(''kind'', JString ''tool-calls'')])"

definition reason_max_tokens :: "externals \<Rightarrow> model_error + finish_reason" where
  "reason_max_tokens E = finish_reason_from_value E (obj_of [(''kind'', JString ''max-tokens'')])"

definition reason_aborted :: "externals \<Rightarrow> llm_failure \<Rightarrow> model_error + finish_reason" where
  "reason_aborted E f = finish_reason_from_value E (obj_of [(''kind'', JString ''aborted''), (''failure'', jv_value (lf_raw f))])"

definition reason_error :: "externals \<Rightarrow> llm_failure \<Rightarrow> model_error + finish_reason" where
  "reason_error E f = finish_reason_from_value E (obj_of [(''kind'', JString ''error''), (''failure'', jv_value (lf_raw f))])"

definition nonneg_value :: "nat \<Rightarrow> model_error + json" where
  "nonneg_value i = bindR (map_err JsonError (nonneg_new i)) (\<lambda>n. Inr (JInt (int n)))"

definition chunk_block_start :: "externals \<Rightarrow> nat \<Rightarrow> content_block_type \<Rightarrow> model_error + stream_chunk" where
  "chunk_block_start E i t =
     bindR (nonneg_value i) (\<lambda>n. chunk_from_value E (obj_of
       [(''type'', JString ''block-start''), (''index'', n), (''blockType'', JString (type_name t))]))"

definition chunk_text_delta :: "externals \<Rightarrow> nat \<Rightarrow> string \<Rightarrow> model_error + stream_chunk" where
  "chunk_text_delta E i s =
     bindR (nonneg_value i) (\<lambda>n. chunk_from_value E (obj_of
       [(''type'', JString ''text-delta''), (''index'', n), (''text'', JString s)]))"

definition chunk_reasoning_delta :: "externals \<Rightarrow> nat \<Rightarrow> string \<Rightarrow> model_error + stream_chunk" where
  "chunk_reasoning_delta E i s =
     bindR (nonneg_value i) (\<lambda>n. chunk_from_value E (obj_of
       [(''type'', JString ''reasoning-delta''), (''index'', n), (''text'', JString s)]))"

definition chunk_tool_call_delta ::
  "externals \<Rightarrow> nat \<Rightarrow> string \<Rightarrow> string option \<Rightarrow> string \<Rightarrow> model_error + stream_chunk" where
  "chunk_tool_call_delta E i call_id name a =
     bindR (nonneg_value i) (\<lambda>n. chunk_from_value E (obj_of
       ([(''type'', JString ''tool-call-delta''), (''index'', n), (''id'', JString call_id), (''argumentsDelta'', JString a)]
        @ (case name of None \<Rightarrow> [] | Some s \<Rightarrow> [(''name'', JString s)]))))"

definition chunk_block_end :: "externals \<Rightarrow> nat \<Rightarrow> content_block \<Rightarrow> model_error + stream_chunk" where
  "chunk_block_end E i b =
     bindR (nonneg_value i) (\<lambda>n. chunk_from_value E (obj_of
       [(''type'', JString ''block-end''), (''index'', n), (''block'', jv_value (cb_raw b))]))"

definition chunk_usage :: "externals \<Rightarrow> token_usage \<Rightarrow> model_error + stream_chunk" where
  "chunk_usage E u = chunk_from_value E (obj_of [(''type'', JString ''usage''), (''usage'', jv_value (tu_raw u))])"

definition chunk_finish :: "externals \<Rightarrow> finish_reason \<Rightarrow> json_value option \<Rightarrow> model_error + stream_chunk" where
  "chunk_finish E r replay =
     chunk_from_value E (obj_of ([(''type'', JString ''finish''), (''reason'', jv_value (fr_raw r))]
       @ (case replay of None \<Rightarrow> [] | Some v \<Rightarrow> [(''replayState'', jv_value v)])))"

section \<open>The wire\<close>

record wire_function_delta =
  wn_name :: "string option"
  wn_arguments :: "string option"

record wire_tool_call_delta =
  wt_index :: nat
  wt_id :: "string option"
  wt_function :: "wire_function_delta option"

record wire_delta =
  wd_content :: "string option"
  wd_reasoning_content :: "string option"
  wd_tool_calls :: "wire_tool_call_delta list option"

record wire_choice =
  wh_delta :: "wire_delta option"
  wh_finish_reason :: "string option"

record wire_usage =
  wu_prompt_tokens :: nat
  wu_completion_tokens :: nat
  wu_cache_hit_tokens :: "nat option"
  wu_cached_tokens :: "nat option option"
  wu_reasoning_tokens :: "nat option option"

record wire_chunk =
  wk_choices :: "wire_choice list option"
  wk_usage :: "wire_usage option"

section \<open>The translator\<close>

definition MAX_DEEPSEEK_BLOCKS :: nat where "MAX_DEEPSEEK_BLOCKS = 128"
definition MAX_DEEPSEEK_OUTPUT_BYTES :: nat where "MAX_DEEPSEEK_OUTPUT_BYTES = 4 * 1024 * 1024"
definition MAX_DEEPSEEK_EMITTED_BYTES :: nat where "MAX_DEEPSEEK_EMITTED_BYTES = 10 * 1024 * 1024"
definition MAX_WIRE_CHOICES :: nat where "MAX_WIRE_CHOICES = 128"
definition MAX_TOOL_DELTAS_PER_CHOICE :: nat where "MAX_TOOL_DELTAS_PER_CHOICE = 128"
definition MAX_UNKNOWN_FINISH_BYTES :: nat where "MAX_UNKNOWN_FINISH_BYTES = 128"

definition DONE :: string where
  "DONE = ''[DONE]''"

datatype translate_error =
    MalformedResponse | TooManyChoices nat | TooManyToolDeltas nat | TooManyBlocks nat
  | OutputTooLarge nat | EmittedTooLarge nat | InvalidUsage | AfterDone | TranslateModel model_error

definition translate_code :: "translate_error \<Rightarrow> string" where
  "translate_code e =
     (case e of
        TooManyChoices _ \<Rightarrow> ''RESPONSE_TOO_LARGE'' | TooManyToolDeltas _ \<Rightarrow> ''RESPONSE_TOO_LARGE''
      | TooManyBlocks _ \<Rightarrow> ''RESPONSE_TOO_LARGE'' | OutputTooLarge _ \<Rightarrow> ''RESPONSE_TOO_LARGE''
      | EmittedTooLarge _ \<Rightarrow> ''RESPONSE_TOO_LARGE'' | _ \<Rightarrow> ''MALFORMED_RESPONSE'')"

datatype open_kind = OpenText | OpenReasoning | OpenToolCall

definition kind_block_type :: "open_kind \<Rightarrow> content_block_type" where
  "kind_block_type k = (case k of OpenText \<Rightarrow> TextType | OpenReasoning \<Rightarrow> ReasoningType | OpenToolCall \<Rightarrow> ToolCallType)"

record open_block =
  ob_internal_index :: nat
  ob_kind :: open_kind
  ob_text :: string
  ob_call_id :: "string option"
  ob_name :: "string option"

record deepseek_translator =
  dt_blocks :: "open_block list"
  dt_reasoning :: "nat option"
  dt_text :: "nat option"
  dt_tools :: "(nat \<times> nat) list"
  dt_pending_finish :: "string option"
  dt_pending_usage :: "token_usage option"
  dt_retained_block_bytes :: nat
  dt_emitted_bytes :: nat
  dt_done :: bool

definition dt_default :: deepseek_translator where
  "dt_default = \<lparr>dt_blocks = [], dt_reasoning = None, dt_text = None, dt_tools = [], dt_pending_finish = None,
     dt_pending_usage = None, dt_retained_block_bytes = 0, dt_emitted_bytes = 0, dt_done = False\<rparr>"

type_synonym translation = "deepseek_translator \<times> stream_chunk list"

abbreviation model :: "model_error + 'a \<Rightarrow> translate_error + 'a" where
  "model \<equiv> map_err TranslateModel"

definition emit :: "translation \<Rightarrow> stream_chunk \<Rightarrow> translate_error + translation" where
  "emit = (\<lambda>(d, out) chunk.
     bindR (ok_or (EmittedTooLarge MAX_DEEPSEEK_EMITTED_BYTES)
              (checked_add_u64 (dt_emitted_bytes d) (jv_encoded_len (sc_raw chunk)))) (\<lambda>n.
       if n > MAX_DEEPSEEK_EMITTED_BYTES then Inl (EmittedTooLarge MAX_DEEPSEEK_EMITTED_BYTES)
       else Inr (d\<lparr>dt_emitted_bytes := n\<rparr>, out @ [chunk])))"

definition open_block_in :: "externals \<Rightarrow> translation \<Rightarrow> open_kind \<Rightarrow> translate_error + translation \<times> nat" where
  "open_block_in E = (\<lambda>(d, out) kind.
     if length (dt_blocks d) = MAX_DEEPSEEK_BLOCKS then Inl (TooManyBlocks MAX_DEEPSEEK_BLOCKS)
     else
       let internal_index = length (dt_blocks d) in
       bindR (model (chunk_block_start E internal_index (kind_block_type kind))) (\<lambda>chunk.
       bindR (emit (d, out) chunk) (\<lambda>(d, out).
         Inr ((d\<lparr>dt_blocks := dt_blocks d @ [\<lparr>ob_internal_index = internal_index, ob_kind = kind, ob_text = [],
                   ob_call_id = None, ob_name = None\<rparr>]\<rparr>, out), length (dt_blocks d)))))"

definition update_block :: "nat \<Rightarrow> (open_block \<Rightarrow> open_block) \<Rightarrow> deepseek_translator \<Rightarrow> deepseek_translator" where
  "update_block i f d = d\<lparr>dt_blocks := (dt_blocks d)[i := f (dt_blocks d ! i)]\<rparr>"

definition append_fragment :: "deepseek_translator \<Rightarrow> nat \<Rightarrow> string \<Rightarrow> translate_error + deepseek_translator" where
  "append_fragment d block fragment =
     bindR (ok_or (OutputTooLarge MAX_DEEPSEEK_OUTPUT_BYTES)
              (checked_add_u64 (dt_retained_block_bytes d) (length fragment))) (\<lambda>n.
       if n > MAX_DEEPSEEK_OUTPUT_BYTES then Inl (OutputTooLarge MAX_DEEPSEEK_OUTPUT_BYTES)
       else Inr (update_block block (\<lambda>b. b\<lparr>ob_text := ob_text b @ fragment\<rparr>) (d\<lparr>dt_retained_block_bytes := n\<rparr>)))"

definition replace_retained :: "deepseek_translator \<Rightarrow> nat \<Rightarrow> nat \<Rightarrow> translate_error + deepseek_translator" where
  "replace_retained d previous next =
     bindR (ok_or (OutputTooLarge MAX_DEEPSEEK_OUTPUT_BYTES)
              (Option.bind (checked_sub_u64 (dt_retained_block_bytes d) previous) (\<lambda>v. checked_add_u64 v next))) (\<lambda>n.
       if n > MAX_DEEPSEEK_OUTPUT_BYTES then Inl (OutputTooLarge MAX_DEEPSEEK_OUTPUT_BYTES)
       else Inr (d\<lparr>dt_retained_block_bytes := n\<rparr>))"

definition opt_len :: "string option \<Rightarrow> nat" where
  "opt_len x = (case x of None \<Rightarrow> 0 | Some s \<Rightarrow> length s)"

definition or_empty :: "string option \<Rightarrow> string" where
  "or_empty x = (case x of None \<Rightarrow> [] | Some s \<Rightarrow> s)"

definition nonempty :: "string option \<Rightarrow> string option" where
  "nonempty x = (case x of Some s \<Rightarrow> if s = [] then None else Some s | None \<Rightarrow> None)"

definition accept_reasoning :: "externals \<Rightarrow> translation \<Rightarrow> string \<Rightarrow> translate_error + translation" where
  "accept_reasoning E x reasoning =
     bindR (case dt_reasoning (fst x) of
              Some i \<Rightarrow> Inr (x, i)
            | None \<Rightarrow> bindR (open_block_in E x OpenReasoning) (\<lambda>((d, out), i). Inr ((d\<lparr>dt_reasoning := Some i\<rparr>, out), i)))
       (\<lambda>((d, out), i).
     bindR (append_fragment d i reasoning) (\<lambda>d.
     bindR (model (chunk_reasoning_delta E (ob_internal_index (dt_blocks d ! i)) reasoning)) (\<lambda>chunk.
       emit (d, out) chunk)))"

definition accept_text :: "externals \<Rightarrow> translation \<Rightarrow> string \<Rightarrow> translate_error + translation" where
  "accept_text E x text =
     bindR (case dt_text (fst x) of
              Some i \<Rightarrow> Inr (x, i)
            | None \<Rightarrow> bindR (open_block_in E x OpenText) (\<lambda>((d, out), i). Inr ((d\<lparr>dt_text := Some i\<rparr>, out), i)))
       (\<lambda>((d, out), i).
     bindR (append_fragment d i text) (\<lambda>d.
     bindR (model (chunk_text_delta E (ob_internal_index (dt_blocks d ! i)) text)) (\<lambda>chunk.
       emit (d, out) chunk)))"

definition set_call_id :: "deepseek_translator \<Rightarrow> nat \<Rightarrow> string option \<Rightarrow> translate_error + deepseek_translator" where
  "set_call_id d i call_id =
     (case call_id of
        None \<Rightarrow> Inr d
      | Some s \<Rightarrow>
          bindR (replace_retained d (opt_len (ob_call_id (dt_blocks d ! i))) (length s)) (\<lambda>d.
            Inr (update_block i (\<lambda>b. b\<lparr>ob_call_id := Some s\<rparr>) d)))"

definition set_name :: "deepseek_translator \<Rightarrow> nat \<Rightarrow> string option \<Rightarrow> translate_error + deepseek_translator" where
  "set_name d i name =
     (case name of
        None \<Rightarrow> Inr d
      | Some s \<Rightarrow>
          bindR (replace_retained d (opt_len (ob_name (dt_blocks d ! i))) (length s)) (\<lambda>d.
            Inr (update_block i (\<lambda>b. b\<lparr>ob_name := Some s\<rparr>) d)))"

definition accept_tool_call :: "externals \<Rightarrow> translation \<Rightarrow> wire_tool_call_delta \<Rightarrow> translate_error + translation" where
  "accept_tool_call E x call =
     bindR (case map_of (dt_tools (fst x)) (wt_index call) of
              Some i \<Rightarrow> Inr (x, i)
            | None \<Rightarrow> bindR (open_block_in E x OpenToolCall) (\<lambda>((d, out), i).
                         Inr ((d\<lparr>dt_tools := (wt_index call, i) # dt_tools d\<rparr>, out), i)))
       (\<lambda>((d, out), i).
     bindR (set_call_id d i (wt_id call)) (\<lambda>d.
     bindR (case wt_function call of
              None \<Rightarrow> Inr (d, [])
            | Some f \<Rightarrow> bindR (set_name d i (wn_name f)) (\<lambda>d. Inr (d, or_empty (wn_arguments f)))) (\<lambda>(d, fragment).
     bindR (append_fragment d i fragment) (\<lambda>d.
     let b = dt_blocks d ! i in
     bindR (model (chunk_tool_call_delta E (ob_internal_index b) (or_empty (ob_call_id b)) (ob_name b) fragment)) (\<lambda>chunk.
       emit (d, out) chunk)))))"

definition accept_delta :: "externals \<Rightarrow> translation \<Rightarrow> wire_delta \<Rightarrow> translate_error + translation" where
  "accept_delta E x delta =
     bindR (case nonempty (wd_reasoning_content delta) of None \<Rightarrow> Inr x | Some s \<Rightarrow> accept_reasoning E x s) (\<lambda>x.
     bindR (case nonempty (wd_content delta) of None \<Rightarrow> Inr x | Some s \<Rightarrow> accept_text E x s) (\<lambda>x.
     let calls = (case wd_tool_calls delta of None \<Rightarrow> [] | Some cs \<Rightarrow> cs) in
     if length calls > MAX_TOOL_DELTAS_PER_CHOICE then Inl (TooManyToolDeltas MAX_TOOL_DELTAS_PER_CHOICE)
     else try_fold (accept_tool_call E) x calls))"

definition accept_choice :: "externals \<Rightarrow> translation \<Rightarrow> wire_choice \<Rightarrow> translate_error + translation" where
  "accept_choice E x choice =
     bindR (case wh_delta choice of None \<Rightarrow> Inr x | Some delta \<Rightarrow> accept_delta E x delta) (\<lambda>(d, out).
       Inr (case wh_finish_reason choice of None \<Rightarrow> d | Some r \<Rightarrow> d\<lparr>dt_pending_finish := Some r\<rparr>, out))"

definition map_usage :: "externals \<Rightarrow> wire_usage \<Rightarrow> translate_error + token_usage" where
  "map_usage E u =
     (let cache_read = (case Option.bind (wu_cached_tokens u) id of Some n \<Rightarrow> Some n | None \<Rightarrow> wu_cache_hit_tokens u) in
      bindR (ok_or InvalidUsage (checked_sub_u64 (wu_prompt_tokens u) (case cache_read of None \<Rightarrow> 0 | Some n \<Rightarrow> n))) (\<lambda>i.
      bindR (model (map_err JsonError (nonneg_new i))) (\<lambda>i.
        model (usage_from_parts E i (wu_completion_tokens u) cache_read None (Option.bind (wu_reasoning_tokens u) id)))))"

definition ascii_upper :: "string \<Rightarrow> string" where
  "ascii_upper s = map (\<lambda>c. let n = byte c in if 97 \<le> n \<and> n \<le> 122 then char_of (n - 32) else c) s"

definition map_finish_reason :: "externals \<Rightarrow> string \<Rightarrow> bool \<Rightarrow> translate_error + finish_reason" where
  "map_finish_reason E reason no_blocks =
     (if reason = ''stop'' \<and> no_blocks then
        model (bindR (failure_new E ''model returned a completed response with no content'' ''EMPTY_RESPONSE'') (reason_error E))
      else if reason = ''stop'' then model (reason_stop E)
      else if reason = ''tool_calls'' then model (reason_tool_calls E)
      else if reason = ''length'' then model (reason_max_tokens E)
      else if reason \<noteq> [] \<and> length reason \<le> MAX_UNKNOWN_FINISH_BYTES
              \<and> list_all (\<lambda>c. 33 \<le> byte c \<and> byte c \<le> 126) reason
      then model (bindR (failure_new E (''model stopped: '' @ reason) (ascii_upper reason)) (reason_error E))
      else Inl MalformedResponse)"

definition end_chunk :: "externals \<Rightarrow> open_block \<Rightarrow> model_error + stream_chunk" where
  "end_chunk E b =
     bindR (case ob_kind b of
              OpenText \<Rightarrow> block_text E (ob_text b)
            | OpenReasoning \<Rightarrow> block_reasoning E (ob_text b)
            | OpenToolCall \<Rightarrow> block_tool_call E (or_empty (ob_call_id b)) (or_empty (ob_name b)) (ob_text b))
       (chunk_block_end E (ob_internal_index b))"

fun end_chunks :: "externals \<Rightarrow> open_block list \<Rightarrow> model_error + stream_chunk list" where
  "end_chunks E [] = Inr []"
| "end_chunks E (b # bs) = bindR (end_chunk E b) (\<lambda>c. bindR (end_chunks E bs) (\<lambda>cs. Inr (c # cs)))"

definition finish_response :: "externals \<Rightarrow> deepseek_translator \<Rightarrow> translate_error + translation" where
  "finish_response E d =
     (let d = d\<lparr>dt_done := True\<rparr> in
      bindR (model (end_chunks E (dt_blocks d))) (\<lambda>cs.
      bindR (case dt_pending_usage d of None \<Rightarrow> Inr [] | Some u \<Rightarrow> model (bindR (chunk_usage E u) (\<lambda>c. Inr [c]))) (\<lambda>us.
      bindR (map_finish_reason E (case dt_pending_finish d of None \<Rightarrow> ''stop'' | Some r \<Rightarrow> r) (dt_blocks d = [])) (\<lambda>r.
      bindR (model (chunk_finish E r None)) (\<lambda>f.
        try_fold emit (d\<lparr>dt_pending_usage := None\<rparr>, []) (cs @ us @ [f]))))))"

definition translate :: "externals \<Rightarrow> (string \<Rightarrow> wire_chunk option) \<Rightarrow> deepseek_translator \<Rightarrow> string \<Rightarrow> translate_error + translation" where
  "translate E wire d payload =
     (if dt_done d then Inl AfterDone
      else if payload = DONE then finish_response E d
      else
        bindR (ok_or MalformedResponse (wire payload)) (\<lambda>w.
        let choices = (case wk_choices w of None \<Rightarrow> [] | Some cs \<Rightarrow> cs) in
        if length choices > MAX_WIRE_CHOICES then Inl (TooManyChoices MAX_WIRE_CHOICES)
        else
          bindR (try_fold (accept_choice E) (d, []) choices) (\<lambda>(d, out).
          bindR (case wk_usage w of
                   None \<Rightarrow> Inr d
                 | Some u \<Rightarrow> bindR (map_usage E u) (\<lambda>u. Inr (d\<lparr>dt_pending_usage := Some u\<rparr>))) (\<lambda>d.
            Inr (d, out)))))"

end
