(* ===== verification/DeepSeek_Failure.thy ===== *)
theory DeepSeek_Failure
  imports DeepSeek_Response Compaction_Events
begin

text \<open>
  Provider failures and the classification of HTTP errors (\<open>src/provider/deepseek/error.rs\<close>),
  and the normalized API key of \<open>credentials.rs\<close>.  The derived reader of the error body and the
  HTTP-date parser with its clock are parameters.
\<close>

section \<open>Text\<close>

definition str_contains :: "string \<Rightarrow> string \<Rightarrow> bool" where
  "str_contains s p = list_ex (\<lambda>i. starts_with (drop i s) p) [0..<Suc (length s)]"

definition str_find :: "string \<Rightarrow> string \<Rightarrow> nat option" where
  "str_find s p = position (\<lambda>i. starts_with (drop i s) p) [0..<Suc (length s)]"

function str_replace :: "string \<Rightarrow> string \<Rightarrow> string \<Rightarrow> string" where
  "str_replace p r s =
     (if p = [] \<or> s = [] then s
      else if starts_with s p then r @ str_replace p r (drop (length p) s)
      else hd s # str_replace p r (tl s))"
  by pat_completeness auto
termination
  by (relation "measure (\<lambda>(_, _, s). length s)") auto

declare str_replace.simps [simp del]

definition ascii_lower :: "string \<Rightarrow> string" where
  "ascii_lower s = map (\<lambda>c. let n = byte c in if 65 \<le> n \<and> n \<le> 90 then char_of (n + 32) else c) s"

definition is_control :: "nat \<Rightarrow> bool" where
  "is_control u = (u < 32 \<or> 127 \<le> u \<and> u < 160)"

text \<open>Every control character becomes a space.\<close>

fun clean_controls :: "string \<Rightarrow> string" where
  "clean_controls [] = []"
| "clean_controls (c # cs) =
     (case utf8_next (byte c) (map byte cs) of
        Scalar u n \<Rightarrow> (if is_control u then '' '' else c # take (n - 1) cs) @ clean_controls (drop (n - 1) cs)
      | _ \<Rightarrow> c # clean_controls cs)"

fun down_to_boundary :: "string \<Rightarrow> nat \<Rightarrow> nat" where
  "down_to_boundary s 0 = 0"
| "down_to_boundary s (Suc n) =
     (if Suc n < length s \<and> is_continuation (s ! Suc n) then down_to_boundary s n else Suc n)"

definition MAX_FAILURE_MESSAGE_BYTES :: nat where
  "MAX_FAILURE_MESSAGE_BYTES = 1024"

definition MAX_REQUEST_ID_BYTES :: nat where
  "MAX_REQUEST_ID_BYTES = 1024"

definition bounded_clean_message :: "string \<Rightarrow> string" where
  "bounded_clean_message value =
     (let cleaned = clean_controls value in
      if length cleaned \<le> MAX_FAILURE_MESSAGE_BYTES then cleaned
      else take (down_to_boundary cleaned MAX_FAILURE_MESSAGE_BYTES) cleaned)"

section \<open>The API key\<close>

definition MAX_CREDENTIAL_REF_BYTES :: nat where
  "MAX_CREDENTIAL_REF_BYTES = 128"

definition ascii_alphabetic :: "char \<Rightarrow> bool" where
  "ascii_alphabetic c = (let n = byte c in (65 \<le> n \<and> n \<le> 90) \<or> (97 \<le> n \<and> n \<le> 122))"

definition ascii_digit :: "char \<Rightarrow> bool" where
  "ascii_digit c = (48 \<le> byte c \<and> byte c \<le> 57)"

definition credential_ref_new :: "string \<Rightarrow> string option" where
  "credential_ref_new value =
     (let valid_first = (case value of [] \<Rightarrow> False | c # _ \<Rightarrow> c = CHR ''_'' \<or> ascii_alphabetic c) in
      if \<not> valid_first \<or> length value > MAX_CREDENTIAL_REF_BYTES
         \<or> \<not> list_all (\<lambda>c. c = CHR ''_'' \<or> ascii_alphabetic c \<or> ascii_digit c) (tl value)
      then None else Some value)"

datatype api_key_error = EmptyKey | IllegalCharacters

definition trim_scalars :: "nat list \<Rightarrow> nat list" where
  "trim_scalars us = rev (dropWhile is_whitespace (rev (dropWhile is_whitespace us)))"

definition api_key_normalize :: "string \<Rightarrow> api_key_error + string" where
  "api_key_normalize value =
     (let us = trim_scalars (case from_utf8 value of Inr us \<Rightarrow> us | Inl _ \<Rightarrow> []) in
      if us = [] then Inl EmptyKey
      else if \<not> list_all (\<lambda>u. 33 \<le> u \<and> u \<le> 126) us then Inl IllegalCharacters
      else Inr (map char_of us))"

section \<open>Failures\<close>

record deepseek_failure =
  df_message :: string
  df_code :: string
  df_status :: "nat option"
  df_retry_after_ms :: "number option"
  df_request_id :: "string option"

definition deepseek_failure_new :: "string \<Rightarrow> string \<Rightarrow> deepseek_failure" where
  "deepseek_failure_new message code =
     (let m = bounded_clean_message message in
      \<lparr>df_message = (if m = [] then ''DeepSeek request failed'' else m), df_code = code, df_status = None,
       df_retry_after_ms = None, df_request_id = None\<rparr>)"

datatype request_build_error =
    WrongProvider | UnsupportedContent | UnsupportedReasoningEffort string | ThinkingDisabledWithEffort
  | InvalidMaxTokens | UnpreparedConfig | InvalidResolvedThinking | RequestTooLarge nat nat | Capacity
  | PreflightMismatch | Encode string

definition request_error_code :: "request_build_error \<Rightarrow> string" where
  "request_error_code e =
     (case e of
        UnsupportedContent \<Rightarrow> ''UNSUPPORTED_CONTENT''
      | UnsupportedReasoningEffort _ \<Rightarrow> ''UNSUPPORTED_REASONING_EFFORT''
      | ThinkingDisabledWithEffort \<Rightarrow> ''UNSUPPORTED_REASONING_EFFORT''
      | RequestTooLarge _ _ \<Rightarrow> ''REQUEST_TOO_LARGE''
      | _ \<Rightarrow> ''INVALID_REQUEST'')"

definition failure_from_request :: "(request_build_error \<Rightarrow> string) \<Rightarrow> request_build_error \<Rightarrow> deepseek_failure" where
  "failure_from_request show_error e = deepseek_failure_new (show_error e) (request_error_code e)"

definition failure_cancelled :: deepseek_failure where
  "failure_cancelled = deepseek_failure_new ''DeepSeek request was cancelled'' ''ABORTED''"

definition failure_timeout :: deepseek_failure where
  "failure_timeout = deepseek_failure_new ''DeepSeek stream was idle for too long'' ''TIMEOUT''"

definition failure_transport :: deepseek_failure where
  "failure_transport = deepseek_failure_new ''DeepSeek transport failed'' ''TRANSPORT''"

section \<open>HTTP errors\<close>

definition normalized_words :: "string \<Rightarrow> string" where
  "normalized_words s = map (\<lambda>c. if c = CHR ''_'' \<or> c = CHR ''-'' then CHR '' '' else c) (ascii_lower s)"

definition QUOTA_PHRASES :: "string list" where
  "QUOTA_PHRASES =
    [''insufficient quota'', ''insufficient balance'', ''insufficient credit'', ''quota exceeded'',
     ''quota exhausted'', ''quota reached'', ''usage limit exceeded'', ''usage limit exhausted'',
     ''usage limit reached'', ''balance exhausted'', ''balance depleted'', ''credits exhausted'',
     ''credits depleted'', ''out of credits'', ''out of budget'', ''exceeded quota'', ''exceeds quota'',
     ''exceed quota'', ''exceeded your current quota'', ''exceeded the current quota'',
     ''exceeds your current quota'', ''exceeds the current quota'']"

definition OVERFLOW_PHRASES :: "string list" where
  "OVERFLOW_PHRASES =
    [''context length exceeded'', ''context window exceeded'', ''context length overflow'',
     ''context window overflow'', ''maximum context length'', ''maximum context window'', ''max context length'',
     ''max context window'', ''too long for this model'', ''too large for this model'', ''too long for the model'',
     ''too large for the model'', ''too large for context'', ''too long for context'',
     ''input is larger than the model context'', ''prompt is larger than the model context'',
     ''request is larger than the model context'', ''messages are larger than the model context'',
     ''exceeds model context'', ''exceeded model context'', ''exceeds the model context'',
     ''exceeded the model context'', ''overflows model context'', ''overflows the model context'']"

definition is_quota :: "string \<Rightarrow> bool" where
  "is_quota detail = list_ex (str_contains (normalized_words detail)) QUOTA_PHRASES"

definition is_context_overflow_detail :: "string \<Rightarrow> bool" where
  "is_context_overflow_detail detail = list_ex (str_contains (normalized_words detail)) OVERFLOW_PHRASES"

definition http_error_code :: "nat \<Rightarrow> string \<Rightarrow> string" where
  "http_error_code status detail =
     (if status = 401 \<or> status = 403 then ''AUTH''
      else if is_quota detail then ''QUOTA''
      else if status = 429 then ''RATE_LIMIT''
      else if status = 400 then (if is_context_overflow_detail detail then ''CONTEXT_WINDOW_EXCEEDED'' else ''INVALID_REQUEST'')
      else if status \<ge> 500 then ''SERVER''
      else ''HTTP_'' @ digits status)"

text \<open>
  \<open>u64 as f64\<close>: the nearest representable integer, ties to even.  The exponent is the number of
  bits beyond the 53 of a significand.
\<close>

fun bit_len :: "nat \<Rightarrow> nat" where
  "bit_len n = (if n = 0 then 0 else Suc (bit_len (n div 2)))"

declare bit_len.simps [simp del]

definition nat_as_f64 :: "nat \<Rightarrow> nat" where
  "nat_as_f64 n =
     (let unit = 2 ^ (bit_len n - 53); q = n div unit; r = n mod unit in
      (if 2 * r > unit \<or> (2 * r = unit \<and> odd q) then q + 1 else q) * unit)"

definition parse_retry_after :: "(string \<Rightarrow> nat option) \<Rightarrow> string \<Rightarrow> number option" where
  "parse_retry_after date_delay value =
     map_option (\<lambda>n. NumInt (int (nat_as_f64 n)))
       (if value \<noteq> [] \<and> list_all (\<lambda>c. 48 \<le> byte c \<and> byte c \<le> 57) value then
          (let seconds = fold (\<lambda>c n. n * 10 + (byte c - 48)) value (0::nat) in
           if seconds \<ge> U64_LIMIT \<or> seconds = 0 \<or> seconds * 1000 \<ge> U64_LIMIT then None else Some (seconds * 1000))
        else
          Option.bind (date_delay value) (\<lambda>millis. if millis = 0 then None else Some millis))"

fun token_end :: "string \<Rightarrow> nat" where
  "token_end [] = 0"
| "token_end (c # cs) =
     (case utf8_next (byte c) (map byte cs) of
        Scalar u n \<Rightarrow>
          if is_whitespace u \<or> u \<in> {34, 39, 44, 59, 125, 93} then 0 else n + token_end (drop (n - 1) cs)
      | _ \<Rightarrow> Suc (token_end cs))"

definition BEARER :: string where
  "BEARER = ''bearer ''"

definition REDACTED :: string where
  "REDACTED = ''[REDACTED]''"

lemma str_find_bound: "str_find s p = Some i \<Longrightarrow> i + length p \<le> length s"
proof -
  assume a: "str_find s p = Some i"
  then have i: "i \<le> length s" "starts_with (drop i s) p"
    using position_SomeD[of "\<lambda>i. starts_with (drop i s) p" "[0..<Suc (length s)]" i]
    by (auto simp: str_find_def nth_append simp del: upt_Suc)
  have "length p = length (take (length p) (drop i s))" using i(2) by (simp add: starts_with_def)
  then show ?thesis using i(1) by simp
qed

function scrub_bearer :: "string \<Rightarrow> nat \<Rightarrow> string" where
  "scrub_bearer s search_from =
     (case str_find (drop search_from (ascii_lower s)) BEARER of
        None \<Rightarrow> s
      | Some relative \<Rightarrow>
          let start = search_from + relative + length BEARER; stop = start + token_end (drop start s) in
          scrub_bearer (take start s @ REDACTED @ drop stop s) (start + length REDACTED))"
  by pat_completeness auto
termination
proof (relation "measure (\<lambda>(s, search_from). length s - search_from)")
  fix s search_from relative start stop
  assume f: "str_find (drop search_from (ascii_lower s)) BEARER = Some relative"
    and d: "start = search_from + relative + length BEARER" "stop = start + token_end (drop start s)"
  have "relative + length BEARER \<le> length (drop search_from (ascii_lower s))" by (rule str_find_bound[OF f])
  then show "((take start s @ REDACTED @ drop stop s, start + length REDACTED), s, search_from)
      \<in> measure (\<lambda>(s, search_from). length s - search_from)"
    using d by (auto simp: ascii_lower_def BEARER_def)
qed simp

declare scrub_bearer.simps [simp del]

definition scrub_secret :: "string \<Rightarrow> string \<Rightarrow> string" where
  "scrub_secret message key =
     (let cleaned = bounded_clean_message (scrub_bearer (str_replace key REDACTED message) 0) in
      if cleaned = [] then ''DeepSeek API request failed'' else cleaned)"

record wire_error =
  we_message :: "string option"
  we_type :: "string option"
  we_code :: "string option"

fun joined :: "string list \<Rightarrow> string" where
  "joined [] = []"
| "joined [s] = s"
| "joined (s # ss) = s @ '' '' @ joined ss"

definition some_list :: "'a option \<Rightarrow> 'a list" where
  "some_list x = (case x of None \<Rightarrow> [] | Some y \<Rightarrow> [y])"

definition failure_http ::
  "(string \<Rightarrow> wire_error option option) \<Rightarrow> (string \<Rightarrow> nat option) \<Rightarrow> nat \<Rightarrow> string \<Rightarrow> string option
     \<Rightarrow> string option \<Rightarrow> string \<Rightarrow> deepseek_failure" where
  "failure_http read_body date_delay status body retry_after request_id key =
     (let provider = Option.bind (read_body body) id;
          detail = (case provider of
              None \<Rightarrow> [] | Some e \<Rightarrow> joined (some_list (we_code e) @ some_list (we_type e) @ some_list (we_message e)));
          fallback = ''DeepSeek API error (HTTP '' @ digits status @ '')'';
          message = (case nonempty (Option.bind provider we_message) of None \<Rightarrow> fallback | Some m \<Rightarrow> m) in
      \<lparr>df_message = scrub_secret message key,
       df_code = http_error_code status detail,
       df_status = (if 100 \<le> status \<and> status \<le> 599 then Some status else None),
       df_retry_after_ms = Option.bind retry_after (parse_retry_after date_delay),
       df_request_id = Option.bind request_id (\<lambda>v.
         if v \<noteq> [] \<and> length v \<le> MAX_REQUEST_ID_BYTES \<and> list_all (\<lambda>c. 32 \<le> byte c \<and> byte c \<le> 126) v
            \<and> \<not> str_contains v key \<and> \<not> str_contains (ascii_lower v) BEARER
         then Some v else None)\<rparr>)"

definition into_chunk :: "externals \<Rightarrow> deepseek_failure \<Rightarrow> model_error + stream_chunk" where
  "into_chunk E f =
     bindR (failure_from_parts E (df_message f) (df_code f) (df_status f) (df_retry_after_ms f) (df_request_id f)) (\<lambda>failure.
     bindR (if df_code f = ''ABORTED'' then reason_aborted E failure else reason_error E failure) (\<lambda>reason.
       chunk_finish E reason None))"

section \<open>A failure can always be told\<close>

definition failure_ok :: "deepseek_failure \<Rightarrow> bool" where
  "failure_ok f =
     (df_message f \<noteq> [] \<and> length (df_message f) \<le> MAX_FAILURE_MESSAGE_BYTES \<and> df_code f \<noteq> [] \<and> length (df_code f) \<le> 1000
      \<and> (case df_status f of None \<Rightarrow> True | Some n \<Rightarrow> 100 \<le> n \<and> n \<le> 599)
      \<and> (case df_retry_after_ms f of None \<Rightarrow> True | Some n \<Rightarrow> \<exists>i. n = NumInt i \<and> 0 < i \<and> nat i \<le> MAX_SAFE_INTEGER)
      \<and> (case df_request_id f of None \<Rightarrow> True | Some r \<Rightarrow> r \<noteq> [] \<and> length r \<le> MAX_REQUEST_ID_BYTES))"

lemma down_to_boundary_le: "down_to_boundary s n \<le> n"
  by (induction n) auto

lemma bounded_clean_length: "length (bounded_clean_message s) \<le> MAX_FAILURE_MESSAGE_BYTES"
  using down_to_boundary_le[of "clean_controls s" MAX_FAILURE_MESSAGE_BYTES] by (auto simp: bounded_clean_message_def Let_def)

lemma deepseek_failure_new_ok: "code \<noteq> [] \<Longrightarrow> length code \<le> 1000 \<Longrightarrow> failure_ok (deepseek_failure_new message code)"
  using bounded_clean_length[of message]
  by (auto simp: failure_ok_def deepseek_failure_new_def Let_def MAX_FAILURE_MESSAGE_BYTES_def)

lemma failure_http_ok:
  assumes "status < 65536"
    and "\<And>v n. retry_after = Some v \<Longrightarrow> parse_retry_after date_delay v = Some n \<Longrightarrow> \<exists>i. n = NumInt i \<and> 0 < i \<and> nat i \<le> MAX_SAFE_INTEGER"
  shows "failure_ok (failure_http read_body date_delay status body retry_after request_id key)"
proof -
  have d: "length (digits status) \<le> 5" by (rule digits_length) (use assms(1) in simp_all)
  have c: "http_error_code status w \<noteq> [] \<and> length (http_error_code status w) \<le> 1000" for w
    using d by (simp add: http_error_code_def)
  have m: "scrub_secret w key \<noteq> [] \<and> length (scrub_secret w key) \<le> MAX_FAILURE_MESSAGE_BYTES" for w
    using bounded_clean_length[of "scrub_bearer (str_replace key REDACTED w) 0"]
    by (auto simp: scrub_secret_def Let_def MAX_FAILURE_MESSAGE_BYTES_def)
  show ?thesis
    unfolding failure_ok_def failure_http_def Let_def
    using c m assms(2) by (auto split: option.splits bind_split simp: bind_eq_Some_conv)
qed

end
