(* ===== verification/Provider_Stream.thy ===== *)
theory Provider_Stream
  imports DeepSeek_Failure Sse
begin

text \<open>
  The stream of one DeepSeek call (\<open>src/provider/deepseek/adapter.rs\<close>): the request is sent, the
  bytes of the response are framed, translated and handed on one chunk at a time, and every way
  to fail is told as a last chunk.  What the outside answers is input: the credential, the HTTP
  response, the outcome of every wait for bytes (\<open>wait_until\<close> with its deadline) and the
  cancellation token, asked by the number of the inquiry.
\<close>

section \<open>What the outside answers\<close>

datatype wait = GotBytes string | GotError | GotEnd | WaitCancelled | WaitTimedOut

datatype credential_lookup = MissingCredential | Present string | InvalidEncoding

record http_response =
  hr_status :: nat
  hr_retry_after :: "string option"
  hr_request_id :: "string option"
  hr_deepseek_request_id :: "string option"
  hr_body :: "wait list option"

datatype send_outcome = Sent http_response | SendFailed | SendCancelled | SendTimedOut

record call_inputs =
  ci_bound :: bool
  ci_request :: "request_build_error + string"
  ci_credential_ref :: string
  ci_lookup :: credential_lookup
  ci_send :: send_outcome

record provider_deps =
  pd_externals :: externals
  pd_wire :: "string \<Rightarrow> wire_chunk option"
  pd_read_error :: "string \<Rightarrow> wire_error option option"
  pd_date_delay :: "string \<Rightarrow> nat option"
  pd_show_request_error :: "request_build_error \<Rightarrow> string"
  pd_show_model_error :: "model_error \<Rightarrow> string"
  pd_cancelled :: "nat \<Rightarrow> bool"

section \<open>The state of a call\<close>

datatype provider_stream_error = StreamProtocol stream_protocol_error | StreamModel model_error

type_synonym stream_item = "provider_stream_error + stream_chunk"

record response_reader =
  rr_body :: "wait list"
  rr_decoder :: sse_decoder
  rr_items :: "sse_item list"
  rr_decoder_failure :: "sse_error option"
  rr_translator :: deepseek_translator

datatype phase = Start call_inputs | Reading response_reader | PhaseBusy | PhaseDone

record provider_state =
  ps_phase :: phase
  ps_pending :: "stream_item list"
  ps_validator :: stream_validator
  ps_polls :: nat

definition provider_start :: "call_inputs \<Rightarrow> provider_state" where
  "provider_start i = \<lparr>ps_phase = Start i, ps_pending = [], ps_validator = sv_default, ps_polls = 0\<rparr>"

text \<open>One turn of the loop of \<open>next_item\<close> goes on, returns, or waits for an answer that has not come.\<close>

datatype turn_result = Continue | Return "stream_item option" | Waiting

definition is_cancelled :: "provider_deps \<Rightarrow> provider_state \<Rightarrow> bool \<times> provider_state" where
  "is_cancelled D s = (pd_cancelled D (ps_polls s), s\<lparr>ps_polls := ps_polls s + 1\<rparr>)"

definition finish_with :: "provider_deps \<Rightarrow> provider_state \<Rightarrow> deepseek_failure \<Rightarrow> provider_state \<times> turn_result" where
  "finish_with D s failure =
     (let s = s\<lparr>ps_phase := PhaseDone\<rparr> in
      case into_chunk (pd_externals D) failure of
        Inl e \<Rightarrow> (s, Return (Some (Inl (StreamModel e))))
      | Inr chunk \<Rightarrow>
          (case accept (ps_validator s) chunk of
             Inl e \<Rightarrow> (s, Return (Some (Inl (StreamProtocol e))))
           | Inr v \<Rightarrow> (s\<lparr>ps_validator := v\<rparr>, Return (Some (Inr chunk)))))"

definition TOO_MANY_EVENTS :: deepseek_failure where
  "TOO_MANY_EVENTS = deepseek_failure_new ''DeepSeek stream produced too many events'' ''RESPONSE_TOO_LARGE''"

definition enqueue_chunks :: "provider_deps \<Rightarrow> provider_state \<Rightarrow> stream_chunk list \<Rightarrow> provider_state \<times> (provider_stream_error + unit)" where
  "enqueue_chunks D s chunks =
     (let contains_finish = list_ex is_finish chunks;
          exceeds_budget =
            (case checked_add_u64 (sv_chunk_count (ps_validator s)) (length chunks) of
               None \<Rightarrow> True
             | Some n \<Rightarrow> n > MAX_PROVIDER_STREAM_CHUNKS
                 \<or> (n = MAX_PROVIDER_STREAM_CHUNKS \<and> \<not> contains_finish)) in
      if exceeds_budget then
        (case into_chunk (pd_externals D) TOO_MANY_EVENTS of
           Inl e \<Rightarrow> (s, Inl (StreamModel e))
         | Inr terminal \<Rightarrow>
             (case accept (ps_validator s) terminal of
                Inl e \<Rightarrow> (s, Inl (StreamProtocol e))
              | Inr _ \<Rightarrow> (s\<lparr>ps_pending := ps_pending s @ [Inr terminal], ps_phase := PhaseDone\<rparr>, Inr ())))
      else
        (case accept_all (ps_validator s) chunks of
           Inl e \<Rightarrow> (s\<lparr>ps_pending := ps_pending s @ [Inl (StreamProtocol e)], ps_phase := PhaseDone\<rparr>, Inr ())
         | Inr _ \<Rightarrow> (s\<lparr>ps_pending := ps_pending s @ map Inr chunks\<rparr>, Inr ())))"

definition translate_text :: "provider_deps \<Rightarrow> translate_error \<Rightarrow> string" where
  "translate_text D e =
     (case e of
        MalformedResponse \<Rightarrow> ''DeepSeek returned malformed streamed JSON''
      | TooManyChoices n \<Rightarrow> ''DeepSeek response contains too many choices; maximum is '' @ digits n
      | TooManyToolDeltas n \<Rightarrow> ''DeepSeek response contains too many tool deltas; maximum is '' @ digits n
      | TooManyBlocks n \<Rightarrow> ''DeepSeek response opens too many blocks; maximum is '' @ digits n
      | OutputTooLarge n \<Rightarrow> ''DeepSeek accumulated output exceeds '' @ digits n @ '' bytes''
      | EmittedTooLarge n \<Rightarrow> ''DeepSeek emitted chunks exceed '' @ digits n @ '' bytes''
      | InvalidUsage \<Rightarrow> ''DeepSeek usage counters are inconsistent''
      | AfterDone \<Rightarrow> ''DeepSeek emitted data after [DONE]''
      | TranslateModel m \<Rightarrow> pd_show_model_error D m)"

definition failure_from_translate :: "provider_deps \<Rightarrow> translate_error \<Rightarrow> deepseek_failure" where
  "failure_from_translate D e = deepseek_failure_new (translate_text D e) (translate_code e)"

definition sse_text :: "sse_error \<Rightarrow> string" where
  "sse_text e =
     (case e of
        ResponseSize n \<Rightarrow> ''SSE response exceeds the maximum of '' @ digits n @ '' bytes''
      | LineLength n \<Rightarrow> ''SSE line exceeds the maximum of '' @ digits n @ '' bytes''
      | EventData n \<Rightarrow> ''SSE event exceeds the maximum of '' @ digits n @ '' bytes'')"

definition failure_from_sse :: "sse_error \<Rightarrow> deepseek_failure" where
  "failure_from_sse e = deepseek_failure_new (sse_text e) ''RESPONSE_TOO_LARGE''"

section \<open>Sending the request\<close>

definition MAX_ERROR_BODY_BYTES :: nat where
  "MAX_ERROR_BODY_BYTES = 64 * 1024"

datatype error_body = BodyComplete string | BodyTooLarge | BodyUnreadable | BodyCancelled | BodyTimedOut

text \<open>\<open>None\<close>: the transport has not answered.\<close>

fun read_error_body :: "wait list \<Rightarrow> string \<Rightarrow> error_body option" where
  "read_error_body [] output = None"
| "read_error_body (GotBytes bytes # ws) output =
     (case checked_add_u64 (length output) (length bytes) of
        None \<Rightarrow> Some BodyTooLarge
      | Some n \<Rightarrow> if n > MAX_ERROR_BODY_BYTES then Some BodyTooLarge else read_error_body ws (output @ bytes))"
| "read_error_body (GotError # ws) output = Some BodyUnreadable"
| "read_error_body (GotEnd # ws) output = Some (BodyComplete output)"
| "read_error_body (WaitCancelled # ws) output = Some BodyCancelled"
| "read_error_body (WaitTimedOut # ws) output = Some BodyTimedOut"

definition handle_http_error :: "provider_deps \<Rightarrow> provider_state \<Rightarrow> http_response \<Rightarrow> string \<Rightarrow> provider_state \<times> turn_result" where
  "handle_http_error D s response key =
     (let request_id = (case hr_request_id response of Some r \<Rightarrow> Some r | None \<Rightarrow> hr_deepseek_request_id response);
          tell = (\<lambda>body. finish_with D (s\<lparr>ps_phase := PhaseDone\<rparr>)
             (failure_http (pd_read_error D) (pd_date_delay D) (hr_status response) body (hr_retry_after response) request_id key)) in
      case hr_body response of
        None \<Rightarrow> tell []
      | Some body \<Rightarrow>
          (case read_error_body body [] of
             None \<Rightarrow> (s, Waiting)
           | Some BodyCancelled \<Rightarrow> finish_with D s failure_cancelled
           | Some BodyTimedOut \<Rightarrow> finish_with D s failure_timeout
           | Some (BodyComplete text) \<Rightarrow> tell text
           | Some _ \<Rightarrow> tell []))"

definition lookup_key :: "string \<Rightarrow> credential_lookup \<Rightarrow> deepseek_failure + string" where
  "lookup_key ref lookup =
     (case lookup of
        MissingCredential \<Rightarrow> Inl (deepseek_failure_new (''no DeepSeek API key is available; set '' @ ref) ''MISSING_CREDENTIAL'')
      | InvalidEncoding \<Rightarrow> Inl (deepseek_failure_new ''the configured DeepSeek API key is not valid Unicode'' ''INVALID_CREDENTIAL'')
      | Present value \<Rightarrow>
          map_err (\<lambda>_. deepseek_failure_new (ref @ '' contains an unusable DeepSeek API key'') ''INVALID_CREDENTIAL'')
            (api_key_normalize value))"

definition send_request :: "provider_deps \<Rightarrow> provider_state \<Rightarrow> call_inputs \<Rightarrow> string \<Rightarrow> provider_state \<times> turn_result" where
  "send_request D s i key =
     (case ci_send i of
        SendFailed \<Rightarrow> finish_with D s failure_transport
      | SendCancelled \<Rightarrow> finish_with D s failure_cancelled
      | SendTimedOut \<Rightarrow> finish_with D s failure_timeout
      | Sent response \<Rightarrow>
          if \<not> (200 \<le> hr_status response \<and> hr_status response < 300) then handle_http_error D s response key
          else
            (case hr_body response of
               None \<Rightarrow> finish_with D s (deepseek_failure_new ''DeepSeek API returned no response body'' ''EMPTY_RESPONSE'')
             | Some body \<Rightarrow>
                 (s\<lparr>ps_phase := Reading \<lparr>rr_body = body, rr_decoder = sse_default, rr_items = [], rr_decoder_failure = None,
                     rr_translator = dt_default\<rparr>\<rparr>, Continue)))"

definition start_call :: "provider_deps \<Rightarrow> provider_state \<Rightarrow> call_inputs \<Rightarrow> provider_state \<times> turn_result" where
  "start_call D s i =
     (if \<not> ci_bound i then
        finish_with D s (deepseek_failure_new ''prepared DeepSeek call belongs to another provider instance'' ''INVALID_PREPARED_CALL'')
      else
        case is_cancelled D s of (c, s) \<Rightarrow>
        if c then finish_with D s failure_cancelled
        else
          case ci_request i of
            Inl e \<Rightarrow>
              (case is_cancelled D s of (c, s) \<Rightarrow>
               finish_with D s (if c then failure_cancelled else failure_from_request (pd_show_request_error D) e))
          | Inr _ \<Rightarrow>
              (case is_cancelled D s of (c, s) \<Rightarrow>
               if c then finish_with D s failure_cancelled
               else
                 case is_cancelled D s of (c, s) \<Rightarrow>
                 if c then finish_with D s failure_cancelled
                 else
                   case lookup_key (ci_credential_ref i) (ci_lookup i) of
                     Inl f \<Rightarrow> finish_with D s f
                   | Inr key \<Rightarrow>
                       (case is_cancelled D s of (c, s) \<Rightarrow>
                        if c then finish_with D s failure_cancelled else send_request D s i key)))"

section \<open>Reading the response\<close>

definition set_reading :: "response_reader \<Rightarrow> provider_state \<Rightarrow> provider_state" where
  "set_reading r s = s\<lparr>ps_phase := Reading r\<rparr>"

definition read_item :: "provider_deps \<Rightarrow> provider_state \<Rightarrow> response_reader \<Rightarrow> sse_item \<Rightarrow> provider_state \<times> turn_result" where
  "read_item D s reader item =
     (case item of
        SseComment \<Rightarrow> (set_reading reader s, Continue)
      | SseData payload \<Rightarrow>
          (case translate (pd_externals D) (pd_wire D) (rr_translator reader) payload of
             Inr (t, chunks) \<Rightarrow>
               let s = (if payload = DONE then s\<lparr>ps_phase := PhaseDone\<rparr> else set_reading (reader\<lparr>rr_translator := t\<rparr>) s) in
               (case enqueue_chunks D s chunks of
                  (s, Inl e) \<Rightarrow> (s\<lparr>ps_phase := PhaseDone, ps_pending := ps_pending s @ [Inl e]\<rparr>, Continue)
                | (s, Inr _) \<Rightarrow> (s, Continue))
           | Inl e \<Rightarrow> finish_with D (s\<lparr>ps_phase := PhaseDone\<rparr>) (failure_from_translate D e)))"

definition read_bytes :: "provider_deps \<Rightarrow> provider_state \<Rightarrow> response_reader \<Rightarrow> provider_state \<times> turn_result" where
  "read_bytes D s reader =
     (case rr_body reader of
        [] \<Rightarrow> (set_reading reader s, Waiting)
      | GotBytes bytes # ws \<Rightarrow>
          (case sse_push bytes (rr_decoder reader) of (d, items, failure) \<Rightarrow>
            (set_reading (reader\<lparr>rr_body := ws, rr_decoder := d, rr_items := rr_items reader @ items,
               rr_decoder_failure := failure\<rparr>) s, Continue))
      | GotError # ws \<Rightarrow> finish_with D s failure_transport
      | GotEnd # ws \<Rightarrow> finish_with D s (deepseek_failure_new ''SSE stream ended without [DONE]'' ''STREAM_CLOSED'')
      | WaitCancelled # ws \<Rightarrow> finish_with D s failure_cancelled
      | WaitTimedOut # ws \<Rightarrow> finish_with D s failure_timeout)"

definition read_response :: "provider_deps \<Rightarrow> provider_state \<Rightarrow> response_reader \<Rightarrow> provider_state \<times> turn_result" where
  "read_response D s reader =
     (case rr_items reader of
        item # items \<Rightarrow> read_item D s (reader\<lparr>rr_items := items\<rparr>) item
      | [] \<Rightarrow>
          (case rr_decoder_failure reader of
             Some e \<Rightarrow> finish_with D (s\<lparr>ps_phase := PhaseDone\<rparr>) (failure_from_sse e)
           | None \<Rightarrow> read_bytes D s reader))"

section \<open>The loop\<close>

definition pop_pending :: "provider_state \<Rightarrow> stream_item \<Rightarrow> stream_item list \<Rightarrow> provider_state \<times> turn_result" where
  "pop_pending s item rest =
     (let s = s\<lparr>ps_pending := rest\<rparr> in
      case item of
        Inl e \<Rightarrow> (s\<lparr>ps_phase := PhaseDone\<rparr>, Return (Some (Inl e)))
      | Inr chunk \<Rightarrow>
          (case accept (ps_validator s) chunk of
             Inl e \<Rightarrow> (s\<lparr>ps_phase := PhaseDone\<rparr>, Return (Some (Inl (StreamProtocol e))))
           | Inr v \<Rightarrow> (s\<lparr>ps_validator := v\<rparr>, Return (Some (Inr chunk)))))"

definition run_phase :: "provider_deps \<Rightarrow> provider_state \<Rightarrow> phase \<Rightarrow> provider_state \<times> turn_result" where
  "run_phase D s phase =
     (case phase of
        Start i \<Rightarrow> start_call D s i
      | Reading reader \<Rightarrow> read_response D s reader
      | PhaseDone \<Rightarrow> (s, Return None)
      | PhaseBusy \<Rightarrow> (s\<lparr>ps_phase := PhaseDone, ps_pending := ps_pending s @ [Inl (StreamProtocol MissingFinish)]\<rparr>, Continue))"

definition next_turn :: "provider_deps \<Rightarrow> provider_state \<Rightarrow> provider_state \<times> turn_result" where
  "next_turn D s =
     (case is_cancelled D s of (c, s) \<Rightarrow>
      if c \<and> \<not> sv_finished (ps_validator s) then finish_with D (s\<lparr>ps_pending := []\<rparr>) failure_cancelled
      else
        case ps_pending s of
          item # rest \<Rightarrow> pop_pending s item rest
        | [] \<Rightarrow> run_phase D (s\<lparr>ps_phase := PhaseBusy\<rparr>) (ps_phase s))"

text \<open>Every turn that goes on comes closer to the end: a phase passes, an answer or an item is consumed.\<close>

definition phase_rank :: "phase \<Rightarrow> nat" where
  "phase_rank p = (case p of Start _ \<Rightarrow> 3 | PhaseBusy \<Rightarrow> 2 | Reading _ \<Rightarrow> 1 | PhaseDone \<Rightarrow> 0)"

definition waits_left :: "phase \<Rightarrow> nat" where
  "waits_left p = (case p of Reading r \<Rightarrow> length (rr_body r) | _ \<Rightarrow> 0)"

definition items_left :: "phase \<Rightarrow> nat" where
  "items_left p = (case p of Reading r \<Rightarrow> length (rr_items r) | _ \<Rightarrow> 0)"

lemmas left_defs = phase_rank_def waits_left_def items_left_def

lemma finish_with_returns [simp]: "finish_with D s f \<noteq> (s', Continue)" "finish_with D s f \<noteq> (s', Waiting)"
  by (auto simp: finish_with_def Let_def split: sum.splits)

lemma handle_http_error_returns [simp]: "handle_http_error D s r key \<noteq> (s', Continue)"
  by (auto simp: handle_http_error_def Let_def split: option.splits error_body.splits)

lemma send_request_Continue: "send_request D s i key = (s', Continue) \<Longrightarrow> \<exists>r. ps_phase s' = Reading r"
  by (auto simp: send_request_def split: send_outcome.splits if_splits option.splits)

lemma start_call_Continue: "start_call D s i = (s', Continue) \<Longrightarrow> \<exists>r. ps_phase s' = Reading r"
  by (auto simp: start_call_def is_cancelled_def split: if_splits sum.splits dest!: send_request_Continue)

lemma enqueue_phase: "enqueue_chunks D s chunks = (s', r) \<Longrightarrow> ps_phase s' = ps_phase s \<or> ps_phase s' = PhaseDone"
  by (auto simp: enqueue_chunks_def Let_def split: if_splits sum.splits option.splits)

lemma read_item_Continue:
  assumes "read_item D s reader item = (s', Continue)"
  shows "ps_phase s' = PhaseDone
     \<or> (\<exists>r. ps_phase s' = Reading r \<and> rr_body r = rr_body reader \<and> rr_items r = rr_items reader)"
proof (cases item)
  case SseComment
  then show ?thesis using assms by (auto simp: read_item_def set_reading_def)
next
  case (SseData payload)
  show ?thesis
  proof (cases "translate (pd_externals D) (pd_wire D) (rr_translator reader) payload")
    case (Inl e)
    then show ?thesis using assms SseData by (simp add: read_item_def)
  next
    case (Inr p)
    obtain t chunks where p: "p = (t, chunks)" by fastforce
    define x where "x = (if payload = DONE then s\<lparr>ps_phase := PhaseDone\<rparr> else set_reading (reader\<lparr>rr_translator := t\<rparr>) s)"
    obtain y r where y: "enqueue_chunks D x chunks = (y, r)" by fastforce
    have "ps_phase s' = ps_phase y \<or> ps_phase s' = PhaseDone"
      using assms SseData Inr p y by (auto simp: read_item_def x_def Let_def split: sum.splits)
    moreover have "ps_phase x = PhaseDone \<or> ps_phase x = Reading (reader\<lparr>rr_translator := t\<rparr>)"
      by (auto simp: x_def set_reading_def)
    ultimately show ?thesis using enqueue_phase[OF y] by auto
  qed
qed

lemma next_turn_decreases:
  assumes "next_turn D s = (s', Continue)"
  shows "(ps_phase s', ps_phase s) \<in> measures [phase_rank, waits_left, items_left]"
proof -
  define x where "x = s\<lparr>ps_polls := ps_polls s + 1, ps_phase := PhaseBusy\<rparr>"
  have pop: "pop_pending t item rest \<noteq> (s', Continue)" for t item rest
    by (auto simp: pop_pending_def Let_def split: sum.splits)
  have t: "run_phase D x (ps_phase s) = (s', Continue)"
    using assms pop by (auto simp: next_turn_def is_cancelled_def Let_def x_def split: if_splits list.splits)
  show ?thesis
  proof (cases "ps_phase s")
    case (Start i)
    then show ?thesis using t[unfolded run_phase_def] start_call_Continue[of D x i s'] by (auto simp: left_defs)
  next
    case (Reading reader)
    show ?thesis
    proof (cases "rr_items reader")
      case Nil
      then show ?thesis
        using t[unfolded run_phase_def] Reading
        by (auto simp: read_response_def read_bytes_def set_reading_def left_defs split: option.splits list.splits wait.splits prod.splits)
    next
      case (Cons item items)
      then have "read_item D x (reader\<lparr>rr_items := items\<rparr>) item = (s', Continue)" using t[unfolded run_phase_def] Reading by (simp add: read_response_def)
      from read_item_Continue[OF this] show ?thesis using Reading Cons by (auto simp: left_defs)
    qed
  next
    case PhaseBusy
    then show ?thesis using t[unfolded run_phase_def] by (auto simp: left_defs)
  qed (use t[unfolded run_phase_def] in simp)
qed

text \<open>\<open>None\<close>: the call waits for an answer of the transport.\<close>

function next_item :: "provider_deps \<Rightarrow> provider_state \<Rightarrow> (provider_state \<times> stream_item option) option" where
  "next_item D s =
     (if snd (next_turn D s) = Continue then next_item D (fst (next_turn D s))
      else case next_turn D s of (s', Return r) \<Rightarrow> Some (s', r) | _ \<Rightarrow> None)"
  by pat_completeness auto
termination
  by (relation "inv_image (measures [phase_rank, waits_left, items_left]) (\<lambda>(D, s). ps_phase s)")
     (simp, metis (mono_tags, lifting) next_turn_decreases in_inv_image case_prod_conv prod.collapse)

declare next_item.simps [simp del]

text \<open>
  The consumer asks \<open>n\<close> times: the items, whether the stream has ended, and whether it waits.
\<close>

primrec stream_items :: "provider_deps \<Rightarrow> nat \<Rightarrow> provider_state \<Rightarrow> stream_item list \<times> bool \<times> bool" where
  "stream_items D 0 s = ([], False, False)"
| "stream_items D (Suc n) s =
     (case next_item D s of
        None \<Rightarrow> ([], False, True)
      | Some (s', None) \<Rightarrow> ([], True, False)
      | Some (s', Some item) \<Rightarrow> (case stream_items D n s' of (items, r) \<Rightarrow> (item # items, r)))"

end
