(* ===== verification/DeepSeek_Proofs.thy ===== *)
theory DeepSeek_Proofs
  imports DeepSeek_Response "HOL-Library.Code_Target_Numeral"
begin

text \<open>
  What the translator emits is a valid provider stream: the validator of the session accepts it,
  and the blocks it ends carry what their deltas said.
\<close>

section \<open>A constructed chunk has the kind it was built with\<close>

lemma chunk_built:
  assumes "chunk_from_value E (obj_of kvs) = Inr c"
  shows "\<exists>m t. (\<forall>k. map_of m k = map_option normalize_numbers (map_of (rev kvs) k)) \<and> get_str m ''type'' = Some t
     \<and> parse_chunk_kind E m t = Inr (sc_kind c)"
proof -
  obtain raw m t k where raw: "new_value E (obj_of kvs) = Inr raw" and m: "as_object (jv_value raw) = Some m"
    and t: "get_str m ''type'' = Some t" and k: "parse_chunk_kind E m t = Inr k" "c = \<lparr>sc_kind = k, sc_raw = raw\<rparr>"
    using assms by (auto simp: chunk_from_value_def object_def required_string_def result_simps)
  have "json_value_new E (obj_of kvs) = Inr raw" using raw by (simp add: new_value_Inr)
  then obtain f where "as_object (jv_value raw) = Some f" "\<And>k. map_of f k = map_option normalize_numbers (map_of (rev kvs) k)"
    using normalized_obj_fields[OF json_value_new_value] by blast
  then show ?thesis using m t k by auto
qed

lemma nonneg_value_Inr: "nonneg_value i = Inr n \<longleftrightarrow> n = JInt (int i) \<and> i \<le> MAX_SAFE_INTEGER"
  by (auto simp: nonneg_value_def nonneg_new_def)

lemma safe_index: "i \<le> MAX_SAFE_INTEGER \<Longrightarrow> safe_u64 False (JInt (int i)) = Some i"
  by (auto simp: safe_u64_def)

lemmas chunk_simps = nonneg_value_Inr parse_chunk_kind_def Let_def required_typed_def required_string_def get_str_def
  optional_string_def safe_index result_simps

lemma block_start_kind:
  "chunk_block_start E i (kind_block_type k) = Inr c \<Longrightarrow> sc_kind c = BlockStart i (kind_block_type k)"
  by (cases k) (auto simp: chunk_block_start_def chunk_simps kind_block_type_def type_name_def de_block_type_def dest!: chunk_built)

lemma text_delta_kind: "chunk_text_delta E i s = Inr c \<Longrightarrow> sc_kind c = TextDelta i s"
  by (auto simp: chunk_text_delta_def chunk_simps dest!: chunk_built)

lemma reasoning_delta_kind: "chunk_reasoning_delta E i s = Inr c \<Longrightarrow> sc_kind c = ReasoningDelta i s"
  by (auto simp: chunk_reasoning_delta_def chunk_simps dest!: chunk_built)

lemma tool_call_delta_kind: "chunk_tool_call_delta E i call_id name a = Inr c \<Longrightarrow> sc_kind c = ToolCallDelta i call_id name a"
  by (cases name) (auto simp: chunk_tool_call_delta_def chunk_simps dest!: chunk_built)

lemma block_end_kind: "chunk_block_end E i b = Inr c \<Longrightarrow> block_ok E b \<Longrightarrow> sc_kind c = BlockEnd i b"
  using block_ok_normalized[of E b]
  by (auto simp: chunk_block_end_def chunk_simps block_ok_def ok_value_def dest!: chunk_built)

lemma usage_kind: "chunk_usage E u = Inr c \<Longrightarrow> \<exists>u. sc_kind c = UsageChunk u"
  by (cases "sc_kind c") (auto simp: chunk_usage_def chunk_simps dest!: chunk_built)

lemma finish_kind: "chunk_finish E r p = Inr c \<Longrightarrow> \<exists>r p. sc_kind c = FinishChunk r p"
  by (cases p; cases "sc_kind c") (auto simp: chunk_finish_def chunk_simps dest!: chunk_built)

text \<open>The content of a block that has ended.\<close>

definition block_content :: "content_block_kind \<Rightarrow> string" where
  "block_content k = (case k of TextBlock s \<Rightarrow> s | ReasoningBlock s \<Rightarrow> s | ToolCallBlock _ _ a \<Rightarrow> a | _ \<Rightarrow> [])"

lemma block_built:
  assumes "block_from_value E (obj_of kvs) = Inr b"
  shows "\<exists>m. (\<forall>k. map_of m k = map_option normalize_numbers (map_of (rev kvs) k)) \<and> cb_kind b = parse_content_block (JObject m)"
proof -
  obtain raw where raw: "json_value_new E (obj_of kvs) = Inr raw" "cb_kind b = parse_content_block (jv_value raw)"
    using assms by (auto simp: block_from_value_def result_simps new_value_Inr)
  obtain f where "as_object (jv_value raw) = Some f" "\<And>k. map_of f k = map_option normalize_numbers (map_of (rev kvs) k)"
    using normalized_obj_fields[OF json_value_new_value[OF raw(1)]] by blast
  then show ?thesis using raw(2) by (cases "jv_value raw") auto
qed

lemma end_chunk_kind:
  assumes "end_chunk E ob = Inr c"
  shows "\<exists>b. sc_kind c = BlockEnd (ob_internal_index ob) b \<and> block_type (cb_kind b) = kind_block_type (ob_kind ob)
     \<and> block_content (cb_kind b) = ob_text ob"
proof -
  obtain b where b: "(case ob_kind ob of
              OpenText \<Rightarrow> block_text E (ob_text ob)
            | OpenReasoning \<Rightarrow> block_reasoning E (ob_text ob)
            | OpenToolCall \<Rightarrow> block_tool_call E (or_empty (ob_call_id ob)) (or_empty (ob_name ob)) (ob_text ob)) = Inr b"
    and c: "chunk_block_end E (ob_internal_index ob) b = Inr c"
    using assms by (auto simp: end_chunk_def result_simps)
  have "block_ok E b \<and> block_type (cb_kind b) = kind_block_type (ob_kind ob) \<and> block_content (cb_kind b) = ob_text ob"
    using b block_from_value_ok[of E _ b]
    by (cases "ob_kind ob")
       (auto simp: block_text_def block_reasoning_def block_tool_call_def parse_content_block_def get_str_def block_type_def
          kind_block_type_def block_content_def dest!: block_built)
  then show ?thesis using block_end_kind[OF c] by blast
qed


section \<open>The translator and the validator\<close>

definition delta_text :: "nat \<Rightarrow> stream_chunk \<Rightarrow> string" where
  "delta_text i c =
     (case sc_kind c of
        TextDelta j s \<Rightarrow> if j = i then s else []
      | ReasoningDelta j s \<Rightarrow> if j = i then s else []
      | ToolCallDelta j _ _ a \<Rightarrow> if j = i then a else []
      | _ \<Rightarrow> [])"

definition deltas :: "nat \<Rightarrow> stream_chunk list \<Rightarrow> string" where
  "deltas i cs = concat (map (delta_text i) cs)"

lemma deltas_simps [simp]: "deltas i [] = []" "deltas i (cs @ ds) = deltas i cs @ deltas i ds" "deltas i (c # cs) = delta_text i c @ deltas i cs"
  by (simp_all add: deltas_def)

text \<open>The fields of a translator that matter for the shape of the stream.\<close>

definition slots_ok :: "deepseek_translator \<Rightarrow> bool" where
  "slots_ok d =
     ((\<forall>i<length (dt_blocks d). ob_internal_index (dt_blocks d ! i) = i)
      \<and> (\<forall>i. dt_reasoning d = Some i \<longrightarrow> i < length (dt_blocks d) \<and> ob_kind (dt_blocks d ! i) = OpenReasoning)
      \<and> (\<forall>i. dt_text d = Some i \<longrightarrow> i < length (dt_blocks d) \<and> ob_kind (dt_blocks d ! i) = OpenText)
      \<and> (\<forall>k i. map_of (dt_tools d) k = Some i \<longrightarrow> i < length (dt_blocks d) \<and> ob_kind (dt_blocks d ! i) = OpenToolCall))"

text \<open>The validator that follows a translator whose blocks are all open.\<close>

definition follows :: "open_block list \<Rightarrow> stream_validator \<Rightarrow> bool" where
  "follows bs v =
     (\<not> sv_finished v \<and> \<not> sv_usage_seen v \<and> (\<forall>i. i \<in> set (sv_seen v) \<longleftrightarrow> i < length bs)
      \<and> (\<forall>i. map_of (sv_open v) i = (if i < length bs then Some (kind_block_type (ob_kind (bs ! i))) else None)))"

definition in_step :: "deepseek_translator \<Rightarrow> stream_chunk list \<Rightarrow> bool" where
  "in_step d cs =
     (slots_ok d \<and> ends cs = [] \<and> \<not> list_ex is_finish cs
      \<and> (\<forall>i. deltas i cs = (if i < length (dt_blocks d) then ob_text (dt_blocks d ! i) else []))
      \<and> (length cs < MAX_PROVIDER_STREAM_CHUNKS \<longrightarrow>
           (\<exists>v. accept_all sv_default cs = Inr v \<and> follows (dt_blocks d) v \<and> sv_chunk_count v = length cs)))"

lemma in_step_default: "in_step dt_default []"
  by (simp add: in_step_def slots_ok_def dt_default_def accept_all_def follows_def sv_default_def ends_def)

lemma accept_all_snoc: "accept_all v (cs @ [c]) = bindR (accept_all v cs) (\<lambda>v. accept v c)"
  by (simp add: accept_all_def try_fold_append) (metis bindR_Inr_iff sum.exhaust bindR_simps)

lemma follows_cong: "map ob_kind bs = map ob_kind bs' \<Longrightarrow> follows bs v = follows bs' v"
  by (simp add: follows_def list_eq_iff_nth_eq cong: if_cong)

text \<open>What an operation keeps that only fills in fields of the blocks.\<close>

definition shape :: "deepseek_translator \<Rightarrow> (nat \<times> open_kind \<times> string) list \<times> nat option \<times> nat option \<times> (nat \<times> nat) list \<times> bool" where
  "shape d = (map (\<lambda>b. (ob_internal_index b, ob_kind b, ob_text b)) (dt_blocks d), dt_reasoning d, dt_text d, dt_tools d, dt_done d)"

lemma in_step_shape:
  assumes "shape d = shape d'"
  shows "in_step d cs \<longleftrightarrow> in_step d' cs"
proof -
  have l: "length (dt_blocks d) = length (dt_blocks d')"
    and n: "\<And>i. i < length (dt_blocks d') \<Longrightarrow> ob_internal_index (dt_blocks d ! i) = ob_internal_index (dt_blocks d' ! i)
        \<and> ob_kind (dt_blocks d ! i) = ob_kind (dt_blocks d' ! i) \<and> ob_text (dt_blocks d ! i) = ob_text (dt_blocks d' ! i)"
    and f: "dt_reasoning d = dt_reasoning d'" "dt_text d = dt_text d'" "dt_tools d = dt_tools d'"
    using assms by (auto simp: shape_def list_eq_iff_nth_eq)
  have "map ob_kind (dt_blocks d) = map ob_kind (dt_blocks d')"
    using l n by (simp add: list_eq_iff_nth_eq)
  then have v: "\<And>v. follows (dt_blocks d) v = follows (dt_blocks d') v" by (rule follows_cong)
  have "slots_ok d = slots_ok d'"
    unfolding slots_ok_def f l using n by (auto; metis)
  then show ?thesis
    unfolding in_step_def v l using n by (auto; metis)
qed

lemma emit_Inr: "emit (d, out) c = Inr (d', out') \<Longrightarrow> out' = out @ [c] \<and> shape d' = shape d \<and> dt_blocks d' = dt_blocks d"
  by (auto simp: emit_def result_simps shape_def split: if_splits)

lemma kind_of_delta:
  assumes "follows bs v" "i < length bs" "sv_chunk_count v + 1 < MAX_PROVIDER_STREAM_CHUNKS"
    and "sc_kind c = (case ob_kind (bs ! i) of OpenText \<Rightarrow> TextDelta i s | OpenReasoning \<Rightarrow> ReasoningDelta i s
       | OpenToolCall \<Rightarrow> ToolCallDelta i call_id name s)"
  shows "accept v c = Inr (v\<lparr>sv_chunk_count := sv_chunk_count v + 1\<rparr>)"
  using assms by (cases "ob_kind (bs ! i)")
    (auto simp: accept_def prepare_def prepare_kind_def require_open_def follows_def kind_block_type_def commit_def Let_def)

lemma in_step_delta:
  assumes st: "in_step d cs" and i: "i < length (dt_blocks d)"
    and k: "sc_kind c = (case ob_kind (dt_blocks d ! i) of OpenText \<Rightarrow> TextDelta i s | OpenReasoning \<Rightarrow> ReasoningDelta i s
       | OpenToolCall \<Rightarrow> ToolCallDelta i call_id name s)"
    and d': "shape d' = shape (update_block i (\<lambda>b. b\<lparr>ob_text := ob_text b @ s\<rparr>) d)"
  shows "in_step d' (cs @ [c])"
proof -
  define e where "e = update_block i (\<lambda>b. b\<lparr>ob_text := ob_text b @ s\<rparr>) d"
  have b: "dt_blocks e = (dt_blocks d)[i := (dt_blocks d ! i)\<lparr>ob_text := ob_text (dt_blocks d ! i) @ s\<rparr>]"
    and f: "dt_reasoning e = dt_reasoning d" "dt_text e = dt_text d" "dt_tools e = dt_tools d"
    by (auto simp: e_def update_block_def)
  have kinds: "map ob_kind (dt_blocks e) = map ob_kind (dt_blocks d)"
    using i by (simp add: b map_update)
      (metis list_update_id map_update nth_map length_map)
  have "slots_ok e"
    using st i by (auto simp: in_step_def slots_ok_def b f nth_list_update)
  moreover have "delta_text j c = (if j = i then s else [])" for j
    using k by (cases "ob_kind (dt_blocks d ! i)") (auto simp: delta_text_def)
  then have "deltas j (cs @ [c]) = (if j < length (dt_blocks e) then ob_text (dt_blocks e ! j) else [])" for j
    using st i by (auto simp: in_step_def b nth_list_update)
  moreover have "\<exists>v. accept_all sv_default (cs @ [c]) = Inr v \<and> follows (dt_blocks e) v \<and> sv_chunk_count v = length (cs @ [c])"
    if n: "length (cs @ [c]) < MAX_PROVIDER_STREAM_CHUNKS"
  proof -
    obtain v where v: "accept_all sv_default cs = Inr v" "follows (dt_blocks d) v" "sv_chunk_count v = length cs"
      using st n by (auto simp: in_step_def)
    have "accept v c = Inr (v\<lparr>sv_chunk_count := sv_chunk_count v + 1\<rparr>)"
      by (rule kind_of_delta[OF v(2) i _ k]) (use n v(3) in simp)
    moreover have "follows (dt_blocks e) (v\<lparr>sv_chunk_count := sv_chunk_count v + 1\<rparr>)"
      unfolding follows_cong[OF kinds] using v(2) by (simp add: follows_def)
    ultimately show ?thesis using v by (simp add: accept_all_snoc)
  qed
  moreover have "ends [c] = [] \<and> \<not> is_finish c"
    using k by (cases "ob_kind (dt_blocks d ! i)") (auto simp: ends_def is_finish_def)
  then have "ends (cs @ [c]) = []" "\<not> list_ex is_finish (cs @ [c])" using st by (simp_all add: in_step_def)
  ultimately have "in_step e (cs @ [c])" unfolding in_step_def by blast
  then show ?thesis using in_step_shape[of d' e] d' e_def by simp
qed

lemma in_step_start:
  assumes st: "in_step d cs" and k: "sc_kind c = BlockStart (length (dt_blocks d)) (kind_block_type k)"
    and b: "dt_blocks e = dt_blocks d @ [\<lparr>ob_internal_index = length (dt_blocks d), ob_kind = k, ob_text = [], ob_call_id = None, ob_name = None\<rparr>]"
    and f: "slots_ok e"
  shows "in_step e (cs @ [c])"
proof -
  have "delta_text j c = []" for j using k by (simp add: delta_text_def)
  then have "deltas j (cs @ [c]) = (if j < length (dt_blocks e) then ob_text (dt_blocks e ! j) else [])" for j
    using st by (auto simp: in_step_def b nth_append less_Suc_eq)
  moreover have "\<exists>v. accept_all sv_default (cs @ [c]) = Inr v \<and> follows (dt_blocks e) v \<and> sv_chunk_count v = length (cs @ [c])"
    if n: "length (cs @ [c]) < MAX_PROVIDER_STREAM_CHUNKS"
  proof -
    obtain v where v: "accept_all sv_default cs = Inr v" "follows (dt_blocks d) v" "sv_chunk_count v = length cs"
      using st n by (auto simp: in_step_def)
    define n where "n = length (dt_blocks d)"
    define v' where "v' = v\<lparr>sv_seen := n # sv_seen v, sv_open := (n, kind_block_type k) # sv_open v, sv_chunk_count := sv_chunk_count v + 1\<rparr>"
    have "accept v c = Inr v'"
      using v(2,3) that k by (auto simp: accept_def prepare_def prepare_kind_def follows_def commit_def Let_def n_def v'_def)
    moreover have "follows (dt_blocks e) v'"
      using v(2) by (auto simp: follows_def v'_def b n_def nth_append less_Suc_eq)
    ultimately show ?thesis using v by (simp add: accept_all_snoc v'_def)
  qed
  moreover have "ends (cs @ [c]) = []" "\<not> list_ex is_finish (cs @ [c])"
    using st k by (simp_all add: in_step_def ends_def is_finish_def)
  ultimately show ?thesis using f unfolding in_step_def by blast
qed

definition good :: "stream_chunk list \<Rightarrow> translation \<Rightarrow> bool" where
  "good pre x = (in_step (fst x) (pre @ snd x) \<and> \<not> dt_done (fst x))"

lemma open_block_InrD:
  assumes "open_block_in E (d, out) k = Inr ((d', out'), i)"
  shows "\<exists>c. out' = out @ [c] \<and> sc_kind c = BlockStart (length (dt_blocks d)) (kind_block_type k) \<and> i = length (dt_blocks d)
     \<and> dt_blocks d' = dt_blocks d @ [\<lparr>ob_internal_index = i, ob_kind = k, ob_text = [], ob_call_id = None, ob_name = None\<rparr>]
     \<and> dt_reasoning d' = dt_reasoning d \<and> dt_text d' = dt_text d \<and> dt_tools d' = dt_tools d \<and> dt_done d' = dt_done d"
proof -
  obtain c e where c: "chunk_block_start E (length (dt_blocks d)) (kind_block_type k) = Inr c" and e: "emit (d, out) c = Inr (e, out')"
    and d': "d' = e\<lparr>dt_blocks := dt_blocks e @ [\<lparr>ob_internal_index = length (dt_blocks d), ob_kind = k, ob_text = [],
                   ob_call_id = None, ob_name = None\<rparr>]\<rparr>" "i = length (dt_blocks e)"
    using assms by (auto simp: open_block_in_def Let_def result_simps split: if_splits)
  show ?thesis using block_start_kind[OF c] emit_Inr[OF e] d' by (auto simp: shape_def)
qed

lemma open_keeps:
  assumes "open_block_in E (d, out) k = Inr ((d', out'), i)" "good pre (d, out)"
    and "dt_blocks e = dt_blocks d'" "dt_done e = dt_done d'" and "slots_ok e"
  shows "good pre (e, out')" "i < length (dt_blocks e)" "ob_kind (dt_blocks e ! i) = k" "ob_internal_index (dt_blocks e ! i) = i"
proof -
  obtain c where c: "out' = out @ [c]" "sc_kind c = BlockStart (length (dt_blocks d)) (kind_block_type k)" "i = length (dt_blocks d)"
     "dt_blocks d' = dt_blocks d @ [\<lparr>ob_internal_index = i, ob_kind = k, ob_text = [], ob_call_id = None, ob_name = None\<rparr>]"
     "dt_done d' = dt_done d"
    using open_block_InrD[OF assms(1)] by blast
  have "in_step e ((pre @ out) @ [c])"
    by (rule in_step_start[where d = d]) (use assms c in \<open>auto simp: good_def\<close>)
  then show "good pre (e, out')" using assms c by (simp add: good_def)
  show "i < length (dt_blocks e)" "ob_kind (dt_blocks e ! i) = k" "ob_internal_index (dt_blocks e ! i) = i"
    using assms(3) c by simp_all
qed

lemma append_fragment_shape:
  "append_fragment d i s = Inr d' \<Longrightarrow> shape d' = shape (update_block i (\<lambda>b. b\<lparr>ob_text := ob_text b @ s\<rparr>) d)"
  by (auto simp: append_fragment_def result_simps shape_def update_block_def split: if_splits)

lemma delta_keeps:
  assumes g: "good pre (d, out)" and i: "i < length (dt_blocks d)" and a: "append_fragment d i s = Inr d'"
    and k: "sc_kind c = (case ob_kind (dt_blocks d ! i) of OpenText \<Rightarrow> TextDelta i s | OpenReasoning \<Rightarrow> ReasoningDelta i s
       | OpenToolCall \<Rightarrow> ToolCallDelta i call_id name s)"
    and e: "emit (d', out) c = Inr y"
  shows "good pre y"
proof -
  obtain d'' out' where y: "y = (d'', out')" by fastforce
  have "out' = out @ [c]" and sh: "shape d'' = shape (update_block i (\<lambda>b. b\<lparr>ob_text := ob_text b @ s\<rparr>) d)"
    using emit_Inr e y append_fragment_shape[OF a] by auto
  moreover have "in_step d'' ((pre @ out) @ [c])"
    by (rule in_step_delta[OF _ i k sh]) (use g in \<open>simp add: good_def\<close>)
  moreover have "dt_done d'' = dt_done d" using sh by (simp add: shape_def update_block_def)
  ultimately show ?thesis using g y by (simp add: good_def)
qed

lemma append_fragment_index: "append_fragment d i s = Inr d' \<Longrightarrow> ob_internal_index (dt_blocks d' ! i) = ob_internal_index (dt_blocks d ! i)"
  by (cases "i < length (dt_blocks d)") (auto simp: append_fragment_def result_simps update_block_def not_less list_update_beyond split: if_splits)

lemma good_slots: "good pre (d, out) \<Longrightarrow> slots_ok d"
  by (simp add: good_def in_step_def)

lemma accept_reasoning_good:
  assumes g: "good pre x" and a: "accept_reasoning E x s = Inr y"
  shows "good pre y"
proof -
  obtain d out where x: "x = (d, out)" by fastforce
  obtain d1 out1 i d2 c where o1: "(case dt_reasoning d of
              Some i \<Rightarrow> Inr ((d, out), i)
            | None \<Rightarrow> bindR (open_block_in E (d, out) OpenReasoning) (\<lambda>((d, out), i). Inr ((d\<lparr>dt_reasoning := Some i\<rparr>, out), i)))
         = Inr ((d1, out1), i)"
    and d2: "append_fragment d1 i s = Inr d2" and c: "chunk_reasoning_delta E (ob_internal_index (dt_blocks d2 ! i)) s = Inr c"
    and y: "emit (d2, out1) c = Inr y"
    using a unfolding accept_reasoning_def x by (auto simp: result_simps)
  have "good pre (d1, out1) \<and> i < length (dt_blocks d1) \<and> ob_kind (dt_blocks d1 ! i) = OpenReasoning \<and> ob_internal_index (dt_blocks d1 ! i) = i"
  proof (cases "dt_reasoning d")
    case None
    obtain d0 where o: "open_block_in E (d, out) OpenReasoning = Inr ((d0, out1), i)" and d1: "d1 = d0\<lparr>dt_reasoning := Some i\<rparr>"
      using o1 None by (auto simp: result_simps)
    have "slots_ok d1"
      using good_slots[OF g[unfolded x]] open_block_InrD[OF o] d1 by (auto simp: slots_ok_def nth_append less_Suc_eq)
    then show ?thesis using open_keeps[OF o g[unfolded x], of d1] d1 by simp
  next
    case (Some j)
    then show ?thesis using o1 g good_slots[OF g[unfolded x]] x by (auto simp: slots_ok_def)
  qed
  then show ?thesis
    using delta_keeps[OF _ _ d2 _ y, of pre] reasoning_delta_kind[OF c] append_fragment_index[OF d2] by auto
qed

lemma accept_text_good:
  assumes g: "good pre x" and a: "accept_text E x s = Inr y"
  shows "good pre y"
proof -
  obtain d out where x: "x = (d, out)" by fastforce
  obtain d1 out1 i d2 c where o1: "(case dt_text d of
              Some i \<Rightarrow> Inr ((d, out), i)
            | None \<Rightarrow> bindR (open_block_in E (d, out) OpenText) (\<lambda>((d, out), i). Inr ((d\<lparr>dt_text := Some i\<rparr>, out), i)))
         = Inr ((d1, out1), i)"
    and d2: "append_fragment d1 i s = Inr d2" and c: "chunk_text_delta E (ob_internal_index (dt_blocks d2 ! i)) s = Inr c"
    and y: "emit (d2, out1) c = Inr y"
    using a unfolding accept_text_def x by (auto simp: result_simps)
  have "good pre (d1, out1) \<and> i < length (dt_blocks d1) \<and> ob_kind (dt_blocks d1 ! i) = OpenText \<and> ob_internal_index (dt_blocks d1 ! i) = i"
  proof (cases "dt_text d")
    case None
    obtain d0 where o: "open_block_in E (d, out) OpenText = Inr ((d0, out1), i)" and d1: "d1 = d0\<lparr>dt_text := Some i\<rparr>"
      using o1 None by (auto simp: result_simps)
    have "slots_ok d1"
      using good_slots[OF g[unfolded x]] open_block_InrD[OF o] d1 by (auto simp: slots_ok_def nth_append less_Suc_eq)
    then show ?thesis using open_keeps[OF o g[unfolded x], of d1] d1 by simp
  next
    case (Some j)
    then show ?thesis using o1 g good_slots[OF g[unfolded x]] x by (auto simp: slots_ok_def)
  qed
  then show ?thesis
    using delta_keeps[OF _ _ d2 _ y, of pre] text_delta_kind[OF c] append_fragment_index[OF d2] by auto
qed

text \<open>Fields of a block that its deltas do not show.\<close>

lemma shape_dt:
  assumes "shape d' = shape d" shows "good pre (d', out) \<longleftrightarrow> good pre (d, out)" "length (dt_blocks d') = length (dt_blocks d)"
    "\<And>i. i < length (dt_blocks d) \<Longrightarrow> ob_kind (dt_blocks d' ! i) = ob_kind (dt_blocks d ! i)"
    "\<And>i. i < length (dt_blocks d) \<Longrightarrow> ob_internal_index (dt_blocks d' ! i) = ob_internal_index (dt_blocks d ! i)"
  using assms in_step_shape[OF assms] by (auto simp: good_def shape_def list_eq_iff_nth_eq)

lemma shape_update:
  assumes "\<And>b. (ob_internal_index (f b), ob_kind (f b), ob_text (f b)) = (ob_internal_index b, ob_kind b, ob_text b)"
  shows "shape (update_block i f d) = shape d"
  using assms by (cases "i < length (dt_blocks d)")
    (auto simp: shape_def update_block_def map_update list_eq_iff_nth_eq nth_list_update not_less list_update_beyond)

lemma replace_retained_shape: "replace_retained d p n = Inr d' \<Longrightarrow> shape d' = shape d"
  by (auto simp: replace_retained_def result_simps shape_def split: if_splits)

lemma set_call_id_shape: "set_call_id d i v = Inr d' \<Longrightarrow> shape d' = shape d"
  by (auto simp: set_call_id_def result_simps shape_update dest!: replace_retained_shape split: option.splits)

lemma set_name_shape: "set_name d i v = Inr d' \<Longrightarrow> shape d' = shape d"
  by (auto simp: set_name_def result_simps shape_update dest!: replace_retained_shape split: option.splits)

lemma accept_tool_call_good:
  assumes g: "good pre x" and a: "accept_tool_call E x call = Inr y"
  shows "good pre y"
proof -
  obtain d out where x: "x = (d, out)" by fastforce
  obtain d1 out1 i d2 d3 s d4 c where o1: "(case map_of (dt_tools d) (wt_index call) of
              Some i \<Rightarrow> Inr ((d, out), i)
            | None \<Rightarrow> bindR (open_block_in E (d, out) OpenToolCall) (\<lambda>((d, out), i).
                         Inr ((d\<lparr>dt_tools := (wt_index call, i) # dt_tools d\<rparr>, out), i)))
         = Inr ((d1, out1), i)"
    and d2: "set_call_id d1 i (wt_id call) = Inr d2"
    and d3: "(case wt_function call of
              None \<Rightarrow> Inr (d2, [])
            | Some f \<Rightarrow> bindR (set_name d2 i (wn_name f)) (\<lambda>d. Inr (d, or_empty (wn_arguments f)))) = Inr (d3, s)"
    and d4: "append_fragment d3 i s = Inr d4"
    and c: "chunk_tool_call_delta E (ob_internal_index (dt_blocks d4 ! i)) (or_empty (ob_call_id (dt_blocks d4 ! i)))
        (ob_name (dt_blocks d4 ! i)) s = Inr c"
    and y: "emit (d4, out1) c = Inr y"
    using a unfolding accept_tool_call_def x by (auto simp: result_simps Let_def)
  have "good pre (d1, out1) \<and> i < length (dt_blocks d1) \<and> ob_kind (dt_blocks d1 ! i) = OpenToolCall \<and> ob_internal_index (dt_blocks d1 ! i) = i"
  proof (cases "map_of (dt_tools d) (wt_index call)")
    case None
    obtain d0 where o: "open_block_in E (d, out) OpenToolCall = Inr ((d0, out1), i)"
      and d1: "d1 = d0\<lparr>dt_tools := (wt_index call, i) # dt_tools d0\<rparr>"
      using o1 None by (auto simp: result_simps)
    have "slots_ok d1"
      using good_slots[OF g[unfolded x]] open_block_InrD[OF o] d1 by (auto simp: slots_ok_def nth_append less_Suc_eq)
    then show ?thesis using open_keeps[OF o g[unfolded x], of d1] d1 by simp
  next
    case (Some j)
    then show ?thesis using o1 g good_slots[OF g[unfolded x]] x by (auto simp: slots_ok_def)
  qed
  moreover have sh: "shape d3 = shape d1"
    using d3 set_call_id_shape[OF d2] set_name_shape[of d2 i] by (auto simp: result_simps split: option.splits)
  ultimately have "good pre (d3, out1) \<and> i < length (dt_blocks d3) \<and> ob_kind (dt_blocks d3 ! i) = OpenToolCall
      \<and> ob_internal_index (dt_blocks d3 ! i) = i"
    using shape_dt[OF sh] by simp
  then show ?thesis
    using delta_keeps[OF _ _ d4 _ y, of pre] tool_call_delta_kind[OF c] append_fragment_index[OF d4] by auto
qed

lemma try_fold_keeps: "(\<And>x a y. P x \<Longrightarrow> f x a = Inr y \<Longrightarrow> P y) \<Longrightarrow> P x \<Longrightarrow> try_fold f x as = Inr y \<Longrightarrow> P y"
  by (induction "as" arbitrary: x) (auto simp: result_simps)

lemma accept_delta_good:
  assumes "good pre x" and "accept_delta E x delta = Inr y"
  shows "good pre y"
proof -
  obtain x1 x2 cs where "(case nonempty (wd_reasoning_content delta) of None \<Rightarrow> Inr x | Some s \<Rightarrow> accept_reasoning E x s) = Inr x1"
    and x2: "(case nonempty (wd_content delta) of None \<Rightarrow> Inr x1 | Some s \<Rightarrow> accept_text E x1 s) = Inr x2"
    and y: "try_fold (accept_tool_call E) x2 cs = Inr y"
    using assms(2) unfolding accept_delta_def Let_def by (auto simp: result_simps split: if_splits)
  then have "good pre x1" using accept_reasoning_good assms(1) by (auto split: option.splits)
  then have "good pre x2" using x2 accept_text_good by (auto split: option.splits)
  then show ?thesis using y by (rule try_fold_keeps[rotated]) (rule accept_tool_call_good)
qed

lemma accept_choice_good:
  assumes "good pre x" and "accept_choice E x choice = Inr y"
  shows "good pre y"
proof -
  obtain d out where d: "(case wh_delta choice of None \<Rightarrow> Inr x | Some delta \<Rightarrow> accept_delta E x delta) = Inr (d, out)"
    and y: "y = (case wh_finish_reason choice of None \<Rightarrow> d | Some r \<Rightarrow> d\<lparr>dt_pending_finish := Some r\<rparr>, out)"
    using assms(2) by (auto simp: accept_choice_def result_simps)
  have "good pre (d, out)" using d accept_delta_good assms(1) by (auto split: option.splits)
  then show ?thesis
    unfolding y by (subst shape_dt(1)[of _ d]) (auto simp: shape_def split: option.splits)
qed

lemma translate_good:
  assumes g: "in_step d pre" "\<not> dt_done d" and t: "translate E wire d payload = Inr (d', out)" and p: "payload \<noteq> DONE"
  shows "in_step d' (pre @ out) \<and> \<not> dt_done d'"
proof -
  obtain w :: wire_chunk and d1 where d1: "try_fold (accept_choice E) (d, []) (case wk_choices w of None \<Rightarrow> [] | Some cs \<Rightarrow> cs) = Inr (d1, out)"
    and d': "(case wk_usage w of
                   None \<Rightarrow> Inr d1
                 | Some u \<Rightarrow> bindR (map_usage E u) (\<lambda>u. Inr (d1\<lparr>dt_pending_usage := Some u\<rparr>))) = Inr d'"
    using t g(2) p unfolding translate_def Let_def by (auto simp: result_simps split: if_splits)
  have "good pre (d, [])" using g by (simp add: good_def)
  then have "good pre (d1, out)" using d1 by (rule try_fold_keeps[rotated]) (rule accept_choice_good)
  moreover have "shape d' = shape d1" using d' by (auto simp: result_simps shape_def split: option.splits)
  ultimately have "good pre (d', out)" using shape_dt(1) by blast
  then show ?thesis by (simp add: good_def)
qed

section \<open>The end of a response\<close>

lemma end_chunks_nth: "end_chunks E bs = Inr cs \<Longrightarrow> length cs = length bs \<and> (\<forall>i<length bs. end_chunk E (bs ! i) = Inr (cs ! i))"
proof (induction bs arbitrary: cs)
  case (Cons b bs)
  then obtain c ds where "end_chunk E b = Inr c" "end_chunks E bs = Inr ds" "cs = c # ds" by (auto simp: result_simps)
  then show ?case using Cons.IH by (auto simp: nth_Cons split: nat.split)
qed simp

lemma map_of_remove: "map_of (filter (\<lambda>(j, _). j \<noteq> i) xs) k = (if k = i then None else map_of xs k)"
  by (induction xs) auto

lemma ends_accepted:
  assumes "end_chunks E bs = Inr cs" and "\<forall>j<length bs. ob_internal_index (bs ! j) = n + j"
    and "\<not> sv_finished v"
    and "\<forall>i. map_of (sv_open v) i = (if n \<le> i \<and> i < n + length bs then Some (kind_block_type (ob_kind (bs ! (i - n)))) else None)"
    and "sv_chunk_count v + length bs < MAX_PROVIDER_STREAM_CHUNKS"
  shows "\<exists>v'. accept_all v cs = Inr v' \<and> \<not> sv_finished v' \<and> sv_usage_seen v' = sv_usage_seen v \<and> sv_open v' = []
     \<and> sv_chunk_count v' = sv_chunk_count v + length bs"
  using assms
proof (induction bs arbitrary: cs n v)
  case Nil
  then have "map_of (sv_open v) = Map.empty" by (intro ext) simp
  then show ?case using Nil by (simp add: accept_all_def)
next
  case (Cons b bs)
  obtain c ds where c: "end_chunk E b = Inr c" and ds: "end_chunks E bs = Inr ds" "cs = c # ds"
    using Cons.prems(1) by (auto simp: result_simps)
  have ix: "ob_internal_index b = n" using Cons.prems(2) by force
  obtain blk where blk: "sc_kind c = BlockEnd n blk" "block_type (cb_kind blk) = kind_block_type (ob_kind b)"
    using end_chunk_kind[OF c] ix by blast
  have "map_of (sv_open v) n = Some (kind_block_type (ob_kind b))" using Cons.prems(4) by simp
  define w where "w = v\<lparr>sv_open := filter (\<lambda>(j, _). j \<noteq> n) (sv_open v), sv_chunk_count := sv_chunk_count v + 1\<rparr>"
  have a: "accept v c = Inr w"
    using Cons.prems(3,5) blk \<open>map_of (sv_open v) n = _\<close>
    by (auto simp: accept_def prepare_def prepare_kind_def commit_def Let_def w_def)
  have "\<forall>i. map_of (sv_open w) i = (if Suc n \<le> i \<and> i < Suc n + length bs then Some (kind_block_type (ob_kind (bs ! (i - Suc n)))) else None)"
    using Cons.prems(4) by (auto simp: w_def map_of_remove nth_Cons' simp del: map_of_filter_in)
  moreover have "\<forall>j<length bs. ob_internal_index (bs ! j) = Suc n + j"
    using Cons.prems(2) by force
  ultimately obtain v' where "accept_all w ds = Inr v' \<and> \<not> sv_finished v' \<and> sv_usage_seen v' = sv_usage_seen w \<and> sv_open v' = []
     \<and> sv_chunk_count v' = sv_chunk_count w + length bs"
    using Cons.IH[OF ds(1), of "Suc n" w] Cons.prems(3,5) by (auto simp: w_def)
  then show ?case using a ds(2) by (simp add: accept_all_def w_def)
qed

lemma emit_all: "try_fold emit (d, out) cs = Inr (d', out') \<Longrightarrow> out' = out @ cs \<and> shape d' = shape d \<and> dt_blocks d' = dt_blocks d"
proof (induction cs arbitrary: d out)
  case (Cons c cs)
  then obtain e o' where "emit (d, out) c = Inr (e, o')" "try_fold emit (e, o') cs = Inr (d', out')"
    by (auto simp: bindR_Inr_iff)
  then show ?case using Cons.IH[of e o'] emit_Inr[of d out c e o'] by auto
qed simp

lemma finish_response_parts:
  assumes "finish_response E d = Inr (d', out)"
  obtains es us f where "out = es @ us @ [f]" "end_chunks E (dt_blocks d) = Inr es" "us = [] \<or> (\<exists>c u. us = [c] \<and> sc_kind c = UsageChunk u)"
    "\<exists>r p. sc_kind f = FinishChunk r p" "dt_done d'" "dt_blocks d' = dt_blocks d"
proof -
  define d0 where "d0 = d\<lparr>dt_done := True\<rparr>"
  obtain es us r f where es: "end_chunks E (dt_blocks d) = Inr es"
    and us: "(case dt_pending_usage d of None \<Rightarrow> Inr [] | Some u \<Rightarrow> model (bindR (chunk_usage E u) (\<lambda>c. Inr [c]))) = Inr us"
    and f: "chunk_finish E r None = Inr f"
    and all: "try_fold emit (d0\<lparr>dt_pending_usage := None\<rparr>, []) (es @ us @ [f]) = Inr (d', out)"
    using assms unfolding finish_response_def Let_def d0_def by (auto simp: result_simps)
  have "us = [] \<or> (\<exists>c u. us = [c] \<and> sc_kind c = UsageChunk u)"
    using us usage_kind[of E _] by (cases "dt_pending_usage d") (auto simp: result_simps)
  moreover have "out = es @ us @ [f]" "shape d' = shape d0" "dt_blocks d' = dt_blocks d"
    using emit_all[OF all] by (auto simp: shape_def d0_def)
  ultimately show ?thesis
    using that es finish_kind[OF f] by (auto simp: shape_def d0_def)
qed

text \<open>What the adapter hands on for a sequence of payloads.\<close>

fun translate_all :: "externals \<Rightarrow> (string \<Rightarrow> wire_chunk option) \<Rightarrow> deepseek_translator \<Rightarrow> string list \<Rightarrow> translate_error + translation" where
  "translate_all E wire d [] = Inr (d, [])"
| "translate_all E wire d (p # ps) =
     bindR (translate E wire d p) (\<lambda>(d, out). bindR (translate_all E wire d ps) (\<lambda>(d, out'). Inr (d, out @ out')))"

definition ended_blocks_ok :: "stream_chunk list \<Rightarrow> bool" where
  "ended_blocks_ok cs = (\<forall>c\<in>set cs. \<forall>i b. sc_kind c = BlockEnd i b \<longrightarrow> block_content (cb_kind b) = deltas i cs)"

definition within_budget :: "deepseek_translator \<Rightarrow> stream_chunk list \<Rightarrow> bool" where
  "within_budget d cs = (length cs \<le> MAX_PROVIDER_STREAM_CHUNKS \<and> (length cs = MAX_PROVIDER_STREAM_CHUNKS \<longrightarrow> dt_done d))"

lemma finish_good:
  assumes st: "in_step d pre" and f: "finish_response E d = Inr (d', out)" and n: "length (pre @ out) \<le> MAX_PROVIDER_STREAM_CHUNKS"
  shows "dt_done d' \<and> ended_blocks_ok (pre @ out) \<and> ends (pre @ out) = [0..<length (dt_blocks d')]
     \<and> (\<exists>v. accept_all sv_default (pre @ out) = Inr v \<and> complete v = Inr ())"
proof -
  obtain es us fc where out: "out = es @ us @ [fc]" and es: "end_chunks E (dt_blocks d) = Inr es"
    and us: "us = [] \<or> (\<exists>c u. us = [c] \<and> sc_kind c = UsageChunk u)"
    and fc: "\<exists>r p. sc_kind fc = FinishChunk r p" and d': "dt_done d'" "dt_blocks d' = dt_blocks d"
    using finish_response_parts[OF f] by blast
  have ne: "length es = length (dt_blocks d)" and en: "\<And>i. i < length es \<Longrightarrow> end_chunk E (dt_blocks d ! i) = Inr (es ! i)"
    using end_chunks_nth[OF es] by auto
  have ix: "\<And>i. i < length (dt_blocks d) \<Longrightarrow> ob_internal_index (dt_blocks d ! i) = i"
    using st by (simp add: in_step_def slots_ok_def)
  have ek: "\<exists>b. sc_kind (es ! i) = BlockEnd i b \<and> block_content (cb_kind b) = ob_text (dt_blocks d ! i)" if "i < length es" for i
    using end_chunk_kind[OF en[OF that]] ix that ne by auto
  have none: "delta_text i c = []" if "c \<in> set out" for i c
    using that ek fc us unfolding out by (auto simp: delta_text_def in_set_conv_nth; fastforce)
  then have "deltas i out = []" for i by (simp add: deltas_def)
  then have dl: "deltas i (pre @ out) = (if i < length (dt_blocks d) then ob_text (dt_blocks d ! i) else [])" for i
    using st by (simp add: in_step_def)
  have "ends pre = []" using st by (simp add: in_step_def)
  then have "\<forall>c\<in>set pre. \<forall>i b. sc_kind c \<noteq> BlockEnd i b" by (auto simp: ends_def split: stream_chunk_kind.splits)
  moreover have "\<forall>c\<in>set (us @ [fc]). \<forall>i b. sc_kind c \<noteq> BlockEnd i b" using us fc by auto
  moreover have "block_content (cb_kind b) = deltas j (pre @ out)" if "i < length es" "sc_kind (es ! i) = BlockEnd j b" for i j b
    using ek[OF that(1)] that dl ne by auto
  ultimately have "ended_blocks_ok (pre @ out)"
    unfolding ended_blocks_ok_def out by (auto simp: in_set_conv_nth[of _ es] simp del: deltas_simps)
  moreover have "map (\<lambda>c. case sc_kind c of BlockEnd i _ \<Rightarrow> [i] | _ \<Rightarrow> []) es = map (\<lambda>i. [i]) [0..<length es]"
    using ek by (intro nth_equalityI) (fastforce simp: nth_append)+
  then have "ends es = [0..<length es]" by (simp add: ends_def)
  then have "ends (pre @ out) = [0..<length (dt_blocks d')]"
    using \<open>ends pre = []\<close> us fc d'(2) ne by (auto simp: out) (auto simp: ends_def)
  moreover have "\<exists>v. accept_all sv_default (pre @ out) = Inr v \<and> complete v = Inr ()"
  proof -
    obtain v where v: "accept_all sv_default pre = Inr v" "follows (dt_blocks d) v" "sv_chunk_count v = length pre"
      using st n by (auto simp: in_step_def out)
    have "\<exists>v'. accept_all v es = Inr v' \<and> \<not> sv_finished v' \<and> sv_usage_seen v' = sv_usage_seen v \<and> sv_open v' = []
       \<and> sv_chunk_count v' = sv_chunk_count v + length (dt_blocks d)"
      by (rule ends_accepted[OF es, of 0]) (use v n ix ne out in \<open>auto simp: follows_def\<close>)
    then obtain w where w: "accept_all v es = Inr w" "\<not> sv_finished w" "\<not> sv_usage_seen w" "sv_open w = []"
       "sv_chunk_count w = length pre + length es"
      using v(2,3) ne by (auto simp: follows_def)
    have "\<exists>x. accept_all w us = Inr x \<and> \<not> sv_finished x \<and> sv_open x = [] \<and> sv_chunk_count x = length pre + length es + length us"
      using us w n by (auto simp: out accept_all_def accept_def prepare_def prepare_kind_def commit_def Let_def)
    then obtain x where x: "accept_all w us = Inr x" "\<not> sv_finished x" "sv_open x = []"
       "sv_chunk_count x = length pre + length es + length us" by blast
    have "\<exists>y. accept x fc = Inr y \<and> sv_finished y"
      using fc x n by (auto simp: out accept_def prepare_def prepare_kind_def commit_def Let_def is_finish_def)
    then obtain y where "accept x fc = Inr y" "sv_finished y" by blast
    then have "accept_all sv_default (pre @ out) = Inr y \<and> complete y = Inr ()"
      using v(1) w(1) x(1) by (simp add: out accept_all_def try_fold_append complete_def)
    then show ?thesis by blast
  qed
  ultimately show ?thesis using d'(1) by blast
qed

lemma translate_all_good:
  assumes "in_step d pre" "\<not> dt_done d" "translate_all E wire d ps = Inr (d', out)" and "within_budget d' (pre @ out)"
  shows "(\<exists>v. accept_all sv_default (pre @ out) = Inr v \<and> (dt_done d' \<longrightarrow> complete v = Inr ())) \<and> ended_blocks_ok (pre @ out)
     \<and> (dt_done d' \<longrightarrow> ends (pre @ out) = [0..<length (dt_blocks d')])"
  using assms
proof (induction ps arbitrary: d pre out)
  case Nil
  then have "ends pre = []" by (simp add: in_step_def)
  then have "\<forall>c\<in>set pre. \<forall>i b. sc_kind c \<noteq> BlockEnd i b" by (auto simp: ends_def split: stream_chunk_kind.splits)
  then show ?case using Nil by (auto simp: in_step_def ended_blocks_ok_def within_budget_def)
next
  case (Cons p ps)
  obtain e o1 o2 where e: "translate E wire d p = Inr (e, o1)" and r: "translate_all E wire e ps = Inr (d', o2)" "out = o1 @ o2"
    using Cons.prems(3) by (auto simp: bindR_Inr_iff)
  show ?case
  proof (cases "p = DONE")
    case False
    then have "in_step e (pre @ o1)" "\<not> dt_done e" using translate_good[OF Cons.prems(1,2) e] by auto
    then show ?thesis using Cons.IH[of e "pre @ o1" o2] r Cons.prems(4) by simp
  next
    case True
    then have f: "finish_response E d = Inr (e, o1)" using e Cons.prems(2) by (simp add: translate_def)
    have "ps = [] \<and> o2 = [] \<and> d' = e"
      using r(1) finish_good[OF Cons.prems(1) f] Cons.prems(4) r(2)
      by (cases ps) (auto simp: translate_def within_budget_def)
    then show ?thesis using finish_good[OF Cons.prems(1) f] Cons.prems(4) r(2) by (auto simp: within_budget_def)
  qed
qed

text \<open>
  C5: Within the chunk budget of a call, the chunks the translator makes of provider payloads are a valid stream for the session:
  the validator accepts them all; when the provider has said it is done the stream is complete,
  every block that was opened has been ended exactly once, in order; and each ended block carries
  exactly the concatenation of the deltas of its index, whatever the fragments and their
  interleaving were.
\<close>

theorem translated_stream_is_valid:
  assumes "translate_all E wire dt_default payloads = Inr (d, cs)" and "within_budget d cs"
  shows "(\<exists>v. accept_all sv_default cs = Inr v \<and> (dt_done d \<longrightarrow> complete v = Inr ()))
     \<and> (dt_done d \<longrightarrow> ends cs = [0..<length (dt_blocks d)])
     \<and> (\<forall>c\<in>set cs. \<forall>i b. sc_kind c = BlockEnd i b \<longrightarrow> block_content (cb_kind b) = deltas i cs)"
  using translate_all_good[OF in_step_default _ assms(1)] assms(2) by (simp add: ended_blocks_ok_def dt_default_def)

definition example_wire :: "string \<Rightarrow> wire_chunk option" where
  "example_wire p =
     (let call = \<lambda>s. \<lparr>wt_index = 7, wt_id = Some ''c'', wt_function = Some \<lparr>wn_name = Some ''ls'', wn_arguments = Some s\<rparr>\<rparr>;
          delta = \<lambda>d r. \<lparr>wk_choices = Some [\<lparr>wh_delta = Some d, wh_finish_reason = r\<rparr>],
             wk_usage = Some \<lparr>wu_prompt_tokens = 5, wu_completion_tokens = 2, wu_cache_hit_tokens = Some 1,
               wu_cached_tokens = None, wu_reasoning_tokens = None\<rparr>\<rparr> in
      if p = ''a'' then Some (delta \<lparr>wd_content = Some ''hi'', wd_reasoning_content = None, wd_tool_calls = Some [call ''{'']\<rparr> None)
      else if p = ''b'' then Some (delta \<lparr>wd_content = Some ''!'', wd_reasoning_content = Some ''hm'', wd_tool_calls = Some [call ''}'']\<rparr>
             (Some ''tool_calls''))
      else None)"

definition example_translation :: "bool \<times> nat \<times> nat" where
  "example_translation =
     (case translate_all example_externals example_wire dt_default [''a'', ''b'', DONE] of
        Inr (d, cs) \<Rightarrow> (dt_done d, length (dt_blocks d), length cs) | Inl _ \<Rightarrow> (False, 0, 0))"

lemma example_translation_value: "example_translation = (True, 3, 13)"
  by code_simp

theorem translated_stream_is_valid_witness:
  "\<exists>d cs v. translate_all example_externals example_wire dt_default [''a'', ''b'', DONE] = Inr (d, cs)
     \<and> accept_all sv_default cs = Inr v \<and> complete v = Inr () \<and> ends cs = [0, 1, 2]"
proof -
  define ps where "ps = [''a'', ''b'', DONE]"
  obtain d cs where t: "translate_all example_externals example_wire dt_default ps = Inr (d, cs)"
    and v: "dt_done d" "length (dt_blocks d) = 3" "length cs = 13"
    using example_translation_value unfolding example_translation_def ps_def[symmetric] by (auto split: sum.splits)
  have "within_budget d cs" using v(3) by (simp add: within_budget_def MAX_PROVIDER_STREAM_CHUNKS_def)
  note translated_stream_is_valid[OF t this]
  moreover have "[0..<3] = [0, 1, 2::nat]" by (simp add: upt_rec)
  ultimately show ?thesis using t v(1,2) unfolding ps_def by auto
qed

end
