(* ===== verification/DeepSeek_Failure_Proofs.thy ===== *)
theory DeepSeek_Failure_Proofs
  imports DeepSeek_Failure DeepSeek_Proofs Codec_Proofs
begin

text \<open>
  A provider failure whose facts are bounded always becomes a finish chunk; one with a retry
  delay beyond the exact integers of binary64 never does.
\<close>

section \<open>Small JSON values\<close>

text \<open>
  A value of at most \<open>n\<close> bytes of text and \<open>m\<close> nodes that is normal and sound, also when it is
  hung as deep as \<open>128 - d\<close>.
\<close>

definition small :: "externals \<Rightarrow> nat \<Rightarrow> nat \<Rightarrow> nat \<Rightarrow> json \<Rightarrow> bool" where
  "small E n m d v =
     (length (json_text E v) \<le> n \<and> json_nodes v \<le> m \<and> normal v \<and> (\<forall>e. e + d \<le> MAX_JSON_DEPTH \<longrightarrow> json_fits e v))"

lemma small_string: "length s \<le> k \<Longrightarrow> small E (6 * k + 2) 1 0 (JString s)"
  using string_text_length[of s] by (auto simp: small_def number_ok_def)

lemma small_int: "0 \<le> i \<Longrightarrow> nat i \<le> MAX_SAFE_INTEGER \<Longrightarrow> small E 20 1 0 (JInt i)"
  using digits_length[of "nat i" 20] by (auto simp: small_def number_ok_def int_text_def MAX_SAFE_INTEGER_def)

lemma small_mono: "small E n m d v \<Longrightarrow> n \<le> n' \<Longrightarrow> m \<le> m' \<Longrightarrow> d \<le> d' \<Longrightarrow> small E n' m' d' v"
  unfolding small_def by auto

lemma commas_le: "length (commas ss) \<le> sum_list (map (\<lambda>s. Suc (length s)) ss)"
  by (induction ss rule: commas.induct) auto

definition field_cost :: "externals \<Rightarrow> (string \<times> json) list \<Rightarrow> nat" where
  "field_cost E m = sum_list (map (\<lambda>(k, v). 6 * length k + 4 + length (json_text E v)) m)"

definition field_nodes :: "(string \<times> json) list \<Rightarrow> nat" where
  "field_nodes m = sum_list (map (\<lambda>(_, v). json_nodes v) m)"

lemma obj_insert_cost:
  "field_cost E (obj_insert k v m) \<le> field_cost E [(k, v)] + field_cost E m"
  "field_nodes (obj_insert k v m) \<le> json_nodes v + field_nodes m"
  by (induction m) (auto simp: field_cost_def field_nodes_def)

lemma fold_insert_cost:
  "field_cost E (fold (\<lambda>(k, v). obj_insert k v) kvs m) \<le> field_cost E kvs + field_cost E m \<and>
   field_nodes (fold (\<lambda>(k, v). obj_insert k v) kvs m) \<le> field_nodes kvs + field_nodes m"
proof (induction kvs arbitrary: m)
  case (Cons p kvs)
  obtain k v where p: "p = (k, v)" by fastforce
  show ?case
    using Cons[of "obj_insert k v m"] obj_insert_cost(1)[of E k v m] obj_insert_cost(2)[of k v m] by (auto simp: p field_cost_def field_nodes_def)
qed (simp add: field_cost_def field_nodes_def)

lemma json_text_cost: "length (json_text E (JObject m)) \<le> field_cost E m + 2"
proof -
  have "sum_list (map (\<lambda>s. Suc (length s)) (map (\<lambda>(k, v). string_text k @ '':'' @ json_text E v) m)) \<le> field_cost E m"
    unfolding field_cost_def map_map
  proof (rule sum_list_mono)
    fix p :: "string \<times> json"
    obtain k v where p: "p = (k, v)" by fastforce
    show "((\<lambda>s. Suc (length s)) \<circ> (\<lambda>(k, v). string_text k @ '':'' @ json_text E v)) p
        \<le> (case p of (k, v) \<Rightarrow> 6 * length k + 4 + length (json_text E v))"
      using string_text_length[of k] by (simp add: p)
  qed
  then show ?thesis using commas_le[of "map (\<lambda>(k, v). string_text k @ '':'' @ json_text E v) m"] by simp
qed

lemma small_obj:
  assumes f: "\<And>k v. (k, v) \<in> set kvs \<Longrightarrow> length k \<le> 30 \<and> small E n m d v" and l: "length kvs \<le> 8"
  shows "small E (8 * (n + 200) + 2) (8 * m + 1) (Suc d) (obj_of kvs)"
proof -
  have "6 * length k + 4 + length (json_text E v) \<le> n + 200 \<and> json_nodes v \<le> m" if "(k, v) \<in> set kvs" for k v
    using f[OF that] by (simp add: small_def)
  then have "field_cost E kvs \<le> length kvs * (n + 200) \<and> field_nodes kvs \<le> length kvs * m"
    by (induction kvs) (fastforce simp: field_cost_def field_nodes_def)+
  moreover have "field_cost E (obj_map kvs) \<le> field_cost E kvs \<and> field_nodes (obj_map kvs) \<le> field_nodes kvs"
    using fold_insert_cost[of E kvs "[]"] by (simp add: obj_map_def) (simp add: field_cost_def field_nodes_def)
  ultimately have c: "field_cost E (obj_map kvs) \<le> 8 * (n + 200)" "field_nodes (obj_map kvs) \<le> 8 * m"
    using mult_le_mono1[OF l, of "n + 200"] mult_le_mono1[OF l, of m] by linarith+
  have "json_fits e (obj_of kvs)" if "e + Suc d \<le> MAX_JSON_DEPTH" for e
    using set_obj_map[of kvs] f that by (fastforce simp: obj_of_obj_map small_def)
  moreover have "normal (obj_of kvs)" using f by (auto intro!: normal_obj simp: list_all_iff small_def)
  moreover have "length (json_text E (obj_of kvs)) \<le> 8 * (n + 200) + 2"
    using json_text_cost[of E "obj_map kvs"] c(1) by (simp add: obj_of_obj_map)
  moreover have "json_nodes (obj_of kvs) \<le> 8 * m + 1"
    using c(2) by (simp add: obj_of_obj_map field_nodes_def)
  ultimately show ?thesis by (simp add: small_def)
qed

lemma small_admitted:
  "small E n m d v \<Longrightarrow> n \<le> MAX_JSON_VALUE_BYTES \<Longrightarrow> m \<le> MAX_JSON_NODES \<Longrightarrow> d \<le> MAX_JSON_DEPTH \<Longrightarrow>
     new_value E v = Inr \<lparr>jv_value = v, jv_encoded_len = length (json_text E v)\<rparr>"
  by (auto simp: new_value_Inr json_value_new_iff small_def)


section \<open>A bounded failure becomes a finish\<close>

lemma obj_lookup: "as_object (obj_of kvs) = Some (obj_map kvs)" "map_of (obj_map kvs) k = map_of (rev kvs) k"
  by (simp_all add: obj_of_obj_map map_of_obj_map)

lemma de_positive_int: "0 < i \<Longrightarrow> de_positive_finite (JInt i) = Some (NumInt i)"
  by (simp add: de_positive_finite_def de_f64_def number_finite_def number_positive_def)

definition failure_fields :: "deepseek_failure \<Rightarrow> (string \<times> json) list" where
  "failure_fields f =
     [(''message'', JString (df_message f)), (''code'', JString (df_code f))]
         @ (case df_status f of None \<Rightarrow> [] | Some s \<Rightarrow> [(''status'', JInt (int s))])
         @ (case df_retry_after_ms f of None \<Rightarrow> [] | Some d \<Rightarrow> [(''providerRetryAfterMs'', number_value d)])
         @ (case df_request_id f of None \<Rightarrow> [] | Some r \<Rightarrow> [(''requestId'', JString r)])"

lemma failure_fields_small:
  assumes "failure_ok f"
  shows "small E 51000 9 1 (obj_of (failure_fields f))"
proof -
  have "small E 6150 1 0 (JString s)" if "length s \<le> 1024" for s
    using small_mono[OF small_string[OF that, of E], of 6150 1 0] by simp
  moreover have "small E 6150 1 0 (JInt i)" if "0 \<le> i" "nat i \<le> MAX_SAFE_INTEGER" for i
    using small_mono[OF small_int[OF that, of E], of 6150 1 0] by simp
  ultimately have "length k \<le> 30 \<and> small E 6150 1 0 v" if "(k, v) \<in> set (failure_fields f)" for k v
    using assms that
    by (auto simp: failure_fields_def failure_ok_def MAX_FAILURE_MESSAGE_BYTES_def MAX_REQUEST_ID_BYTES_def number_value_def
        MAX_SAFE_INTEGER_def split: option.splits)
  moreover have "length (failure_fields f) \<le> 8" by (auto simp: failure_fields_def split: option.splits)
  ultimately have "small E (8 * (6150 + 200) + 2) (8 * 1 + 1) (Suc 0) (obj_of (failure_fields f))"
    by (rule small_obj)
  then show ?thesis by (rule small_mono) simp_all
qed

lemma small_new:
  "small E n m d v \<Longrightarrow> n \<le> 8388608 \<Longrightarrow> m \<le> 1000000 \<Longrightarrow> d \<le> 128 \<Longrightarrow>
     new_value E v = Inr \<lparr>jv_value = v, jv_encoded_len = length (json_text E v)\<rparr>"
  by (rule small_admitted) (simp_all add: MAX_JSON_VALUE_BYTES_def MAX_JSON_NODES_def MAX_JSON_DEPTH_def)

lemma failure_parts:
  assumes "failure_ok f"
  shows "\<exists>g. failure_from_parts E (df_message f) (df_code f) (df_status f) (df_retry_after_ms f) (df_request_id f) = Inr g
     \<and> jv_value (lf_raw g) = obj_of (failure_fields f)"
proof -
  have "validate_failure_parts (df_message f) (df_code f) (df_status f) (df_request_id f) = Inr ()"
    using assms by (auto simp: validate_failure_parts_def failure_ok_def split: option.splits)
  moreover have "new_value E (obj_of (failure_fields f)) = Inr \<lparr>jv_value = obj_of (failure_fields f),
      jv_encoded_len = length (json_text E (obj_of (failure_fields f)))\<rparr>"
    by (rule small_new[OF failure_fields_small[OF assms]]) simp_all
  ultimately show ?thesis by (simp add: failure_from_parts_def failure_fields_def)
qed

lemma failure_read:
  assumes "failure_ok f"
  shows "\<exists>g. failure_from_value E (obj_of (failure_fields f)) = Inr g"
proof -
  have n: "new_value E (obj_of (failure_fields f)) = Inr \<lparr>jv_value = obj_of (failure_fields f),
      jv_encoded_len = length (json_text E (obj_of (failure_fields f)))\<rparr>"
    by (rule small_new[OF failure_fields_small[OF assms]]) simp_all
  define m where "m = obj_map (failure_fields f)"
  have k: "map_of m ''message'' = Some (JString (df_message f))" "map_of m ''code'' = Some (JString (df_code f))"
    "map_of m ''status'' = map_option (\<lambda>n. JInt (int n)) (df_status f)"
    "map_of m ''providerRetryAfterMs'' = map_option number_value (df_retry_after_ms f)"
    "map_of m ''requestId'' = map_option JString (df_request_id f)"
    by (auto simp: m_def map_of_obj_map failure_fields_def map_of_append split: option.splits)
  have "optional_typed de_u16 m ''status'' w = Inr (df_status f)" for w
    using assms by (auto simp: optional_typed_def k failure_ok_def de_u16_def split: option.splits)
  moreover have "optional_typed de_positive_finite m ''providerRetryAfterMs'' w = Inr (df_retry_after_ms f)" for w
    using assms by (auto simp: optional_typed_def k failure_ok_def number_value_def de_positive_int split: option.splits)
  moreover have "optional_string m ''requestId'' w = Inr (df_request_id f)" for w
    by (auto simp: optional_string_def k split: option.splits)
  moreover have "required_string m ''message'' w = Inr (df_message f)" "required_string m ''code'' w = Inr (df_code f)" for w
    by (simp_all add: required_string_def get_str_def k)
  moreover have "object (obj_of (failure_fields f)) w = Inr m" for w
    by (simp add: object_def obj_of_obj_map m_def)
  moreover have "validate_failure_parts (df_message f) (df_code f) (df_status f) (df_request_id f) = Inr ()"
    using assms by (auto simp: validate_failure_parts_def failure_ok_def split: option.splits)
  ultimately show ?thesis by (simp add: failure_from_value_def n)
qed

definition stops :: "stream_chunk \<Rightarrow> bool" where
  "stops c = (case sc_kind c of FinishChunk r None \<Rightarrow> can_leave_open r | _ \<Rightarrow> False)"

lemma reason_read:
  assumes f: "failure_ok f" and t: "t = ''error'' \<or> t = ''aborted''"
  defines "v \<equiv> obj_of [(''kind'', JString t), (''failure'', obj_of (failure_fields f))]"
  shows "\<exists>r. finish_reason_from_value E v = Inr r \<and> jv_value (fr_raw r) = v \<and> can_leave_open r" "small E 409602 73 2 v"
proof -
  have "length k \<le> 30 \<and> small E 51000 9 1 w" if "(k, w) \<in> set [(''kind'', JString t), (''failure'', obj_of (failure_fields f))]" for k w
    using that failure_fields_small[OF f, of E] small_mono[OF small_string[of t 7 E], of 51000 9 1] t by auto
  then have "small E (8 * (51000 + 200) + 2) (8 * 9 + 1) (Suc 1) v" unfolding v_def by (rule small_obj) simp_all
  then show s: "small E 409602 73 2 v" by (rule small_mono) simp_all
  have n: "new_value E v = Inr \<lparr>jv_value = v, jv_encoded_len = length (json_text E v)\<rparr>"
    by (rule small_new[OF s]) simp_all
  obtain g where g: "failure_from_value E (obj_of (failure_fields f)) = Inr g" using failure_read[OF f] by blast
  define m where "m = obj_map [(''kind'', JString t), (''failure'', obj_of (failure_fields f))]"
  have k: "map_of m ''kind'' = Some (JString t)" "map_of m ''failure'' = Some (obj_of (failure_fields f))"
    by (simp_all add: m_def map_of_obj_map)
  have "object v w = Inr m" for w by (simp add: object_def obj_of_obj_map m_def v_def)
  moreover have "required_string m ''kind'' w = Inr t" for w by (simp add: required_string_def get_str_def k)
  moreover have "required_typed (\<lambda>j. ok_value (failure_from_value E j)) m ''failure'' w = Inr g" for w
    by (simp add: required_typed_def k g ok_value_def)
  ultimately show "\<exists>r. finish_reason_from_value E v = Inr r \<and> jv_value (fr_raw r) = v \<and> can_leave_open r"
    using t by (auto simp: finish_reason_from_value_def n can_leave_open_def)
qed

lemma into_chunk_ok:
  assumes f: "failure_ok f"
  shows "\<exists>c. into_chunk E f = Inr c \<and> stops c"
proof -
  define t where "t = (if df_code f = ''ABORTED'' then ''aborted'' else ''error'')"
  have t: "t = ''error'' \<or> t = ''aborted''" by (simp add: t_def)
  define v where "v = obj_of [(''kind'', JString t), (''failure'', obj_of (failure_fields f))]"
  obtain g where g: "failure_from_parts E (df_message f) (df_code f) (df_status f) (df_retry_after_ms f) (df_request_id f) = Inr g"
    "jv_value (lf_raw g) = obj_of (failure_fields f)"
    using failure_parts[OF f] by blast
  obtain r where r: "finish_reason_from_value E v = Inr r" "jv_value (fr_raw r) = v" "can_leave_open r"
    using reason_read(1)[OF f t] unfolding v_def by blast
  have reason: "(if df_code f = ''ABORTED'' then reason_aborted E g else reason_error E g) = Inr r"
    using r(1) g(2) by (simp add: reason_aborted_def reason_error_def t_def v_def split: if_splits)
  define kvs where "kvs = [(''type'', JString ''finish''), (''reason'', v)]"
  have "length k \<le> 30 \<and> small E 409602 73 2 w" if "(k, w) \<in> set kvs" for k w
    using that reason_read(2)[OF f t, of E] small_mono[OF small_string[of "''finish''" 6 E], of 409602 73 2]
    by (auto simp: kvs_def v_def)
  then have "small E (8 * (409602 + 200) + 2) (8 * 73 + 1) (Suc 2) (obj_of kvs)" by (rule small_obj) (simp_all add: kvs_def)
  then have "small E 3278418 585 3 (obj_of kvs)" by (rule small_mono) simp_all
  then have n: "new_value E (obj_of kvs) = Inr \<lparr>jv_value = obj_of kvs, jv_encoded_len = length (json_text E (obj_of kvs))\<rparr>"
    by (rule small_new) simp_all
  define m where "m = obj_map kvs"
  have k: "map_of m ''type'' = Some (JString ''finish'')" "map_of m ''reason'' = Some v" "map_of m ''replayState'' = None"
    by (simp_all add: m_def map_of_obj_map kvs_def)
  have "object (obj_of kvs) w = Inr m" for w by (simp add: object_def obj_of_obj_map m_def)
  moreover have "required_string m ''type'' w = Inr ''finish''" for w by (simp add: required_string_def get_str_def k)
  moreover have "parse_chunk_kind E m ''finish'' = Inr (FinishChunk r None)"
    by (simp add: parse_chunk_kind_def required_typed_def optional_json_def k r(1) ok_value_def)
  ultimately have "chunk_from_value E (obj_of kvs) = Inr \<lparr>sc_kind = FinishChunk r None,
      sc_raw = \<lparr>jv_value = obj_of kvs, jv_encoded_len = length (json_text E (obj_of kvs))\<rparr>\<rparr>"
    by (simp add: chunk_from_value_def n)
  then show ?thesis
    unfolding into_chunk_def g(1) bindR_simps reason using r(2,3) by (simp add: chunk_finish_def kvs_def stops_def)
qed

end
