(* ===== verification/Provider_Stream_Proofs.thy ===== *)
theory Provider_Stream_Proofs
  imports Provider_Stream DeepSeek_Failure_Proofs
begin

text \<open>
  A call always ends with a finish chunk, never with an error, and what it hands on is a valid
  stream at every moment.
\<close>

section \<open>Failures of the adapter are bounded\<close>








section \<open>The invariant of a call\<close>



lemma accept_finished: "sv_finished v \<Longrightarrow> accept v c = Inl (ChunkAfterFinish (chunk_type c))"
  by (simp add: accept_def prepare_def)

lemma accept_all_unfinished: "accept_all v cs = Inr w \<Longrightarrow> \<not> sv_finished w \<Longrightarrow> \<not> sv_finished v"
  by (cases cs) (auto simp: accept_all_def accept_finished)












section \<open>Reading keeps the invariant\<close>

lemma finish_response_has_finish: "finish_response E d = Inr (d', out) \<Longrightarrow> list_ex is_finish out"
  by (erule finish_response_parts) (auto simp: is_finish_def list_ex_iff)











section \<open>A retry delay that cannot be told\<close>

text \<open>
  A \<open>Retry-After\<close> beyond the exact integers of binary64 cannot be represented as a failure: the consumer
  gets an error of the model instead of a finish chunk.
\<close>

lemma oversized_delay_not_told:
  assumes "df_retry_after_ms f = Some (NumInt i)" "MAX_SAFE_INTEGER < nat i"
  shows "\<exists>e. into_chunk E f = Inl e"
proof -
  have "(''providerRetryAfterMs'', JInt i) \<in> set (obj_map (failure_fields f))"
    by (rule map_of_SomeD) (auto simp: map_of_obj_map failure_fields_def assms(1) number_value_def map_of_append split: option.split)
  then have "\<not> json_fits 0 (obj_of (failure_fields f))"
    using assms(2) by (force simp: obj_of_obj_map number_ok_def)
  then have "\<nexists>raw. new_value E (obj_of (failure_fields f)) = Inr raw"
    by (simp add: new_value_Inr json_value_new_iff)
  then obtain e where "new_value E (obj_of (failure_fields f)) = Inl e" by (cases "new_value E (obj_of (failure_fields f))") auto
  then have "\<exists>e. failure_from_parts E (df_message f) (df_code f) (df_status f) (df_retry_after_ms f) (df_request_id f) = Inl e"
    by (cases "validate_failure_parts (df_message f) (df_code f) (df_status f) (df_request_id f)")
       (auto simp: failure_from_parts_def failure_fields_def)
  then show ?thesis by (auto simp: into_chunk_def)
qed













section \<open>What the consumer sees\<close>











text \<open>
  Such a delay can be sent: the rate limit below is told as an error of the model, and its code is lost.
\<close>

lemma oversized_retry_after: "parse_retry_after f ''9007199254741'' = Some (NumInt 9007199254741000)"
proof -
  have "bit_len 9007199254741000 = 54" by (simp add: bit_len.simps)
  then have "nat_as_f64 9007199254741000 = 9007199254741000" by (simp add: nat_as_f64_def Let_def)
  then show ?thesis by (simp add: parse_retry_after_def byte_def U64_LIMIT_def Let_def)
qed

lemma oversized_retry_after_is_not_told:
  "\<exists>e. into_chunk E (failure_http read_body date_delay 429 body (Some ''9007199254741'') request_id key) = Inl e"
  by (rule oversized_delay_not_told[where i = 9007199254741000])
     (simp_all add: failure_http_def Let_def oversized_retry_after MAX_SAFE_INTEGER_def)

end
