(* ===== verification/Visible_Text.thy ===== *)
theory Visible_Text
  imports Utf8
begin

text \<open>
  Text made safe for a terminal (\<open>src/tui/visible.rs\<close>): which characters must be escaped, how, and
  the bounded rendering.  A \<open>char\<close> is its scalar value.
\<close>

definition MAX_VISIBLE_OWNED_BYTES :: nat where
  "MAX_VISIBLE_OWNED_BYTES = 1024 * 1024"

definition UNICODE_16_FORMAT_RANGES :: "(nat \<times> nat) list" where
  "UNICODE_16_FORMAT_RANGES =
    [(0x00AD, 0x00AD), (0x0600, 0x0605), (0x061C, 0x061C), (0x06DD, 0x06DD), (0x070F, 0x070F), (0x0890, 0x0891),
     (0x08E2, 0x08E2), (0x180E, 0x180E), (0x200B, 0x200F), (0x202A, 0x202E), (0x2060, 0x2064), (0x2066, 0x206F),
     (0xFEFF, 0xFEFF), (0xFFF9, 0xFFFB), (0x110BD, 0x110BD), (0x110CD, 0x110CD), (0x13430, 0x1343F),
     (0x1BCA0, 0x1BCA3), (0x1D173, 0x1D17A), (0xE0001, 0xE0001), (0xE0020, 0xE007F)]"

definition OTHER_ESCAPED_RANGES :: "(nat \<times> nat) list" where
  "OTHER_ESCAPED_RANGES =
    [(0x0000, 0x001F), (0x007F, 0x009F), (0x034F, 0x034F), (0x115F, 0x1160), (0x17B4, 0x17B5), (0x180B, 0x180F),
     (0x2028, 0x2029), (0x2065, 0x2065), (0x3164, 0x3164), (0xFE00, 0xFE0F), (0xFFA0, 0xFFA0), (0xFFF0, 0xFFF8),
     (0x13440, 0x13455), (0xE0000, 0xE0FFF)]"

definition in_range :: "nat \<Rightarrow> nat \<times> nat \<Rightarrow> bool" where
  "in_range u r = (fst r \<le> u \<and> u \<le> snd r)"

definition must_escape :: "nat \<Rightarrow> bool" where
  "must_escape u = (list_ex (in_range u) UNICODE_16_FORMAT_RANGES \<or> list_ex (in_range u) OTHER_ESCAPED_RANGES)"

datatype visible_char = VisLineFeed | VisShortEscape string | VisUnicodeEscape nat | VisPrintable nat

definition BACKSLASH :: char where
  "BACKSLASH = CHR 0x5C"

definition classify :: "nat \<Rightarrow> bool \<Rightarrow> visible_char" where
  "classify u escape_line_feed =
     (if u = 10 \<and> \<not> escape_line_feed then VisLineFeed
      else if u = 10 then VisShortEscape [BACKSLASH, CHR ''n'']
      else if u = 9 then VisShortEscape [BACKSLASH, CHR ''t'']
      else if u = 13 then VisShortEscape [BACKSLASH, CHR ''r'']
      else if must_escape u then VisUnicodeEscape u
      else VisPrintable u)"

fun hex_digits :: "nat \<Rightarrow> nat" where
  "hex_digits value = (if value \<ge> 16 then hex_digits (value div 16) + 1 else 1)"

declare hex_digits.simps [simp del]

definition lower_hex_digit :: "nat \<Rightarrow> char" where
  "lower_hex_digit n = (if n < 10 then char_of (48 + n) else char_of (87 + n))"

fun hex_text :: "nat \<Rightarrow> string" where
  "hex_text n = (if n < 16 then [lower_hex_digit n] else hex_text (n div 16) @ [lower_hex_digit (n mod 16)])"

declare hex_text.simps [simp del]

definition unicode_escape :: "nat \<Rightarrow> string" where
  "unicode_escape u = [BACKSLASH, CHR ''u'', CHR ''{''] @ hex_text u @ [CHR ''}'']"

definition escaped_cell_width :: "visible_char \<Rightarrow> nat option" where
  "escaped_cell_width v =
     (case v of
        VisLineFeed \<Rightarrow> Some 0
      | VisShortEscape s \<Rightarrow> Some (length s)
      | VisUnicodeEscape u \<Rightarrow> Some (4 + hex_digits u)
      | VisPrintable _ \<Rightarrow> None)"

datatype visible_text_error = VisibleLimit

definition needed_bytes :: "visible_char \<Rightarrow> nat" where
  "needed_bytes v =
     (case v of
        VisLineFeed \<Rightarrow> 1
      | VisShortEscape s \<Rightarrow> length s
      | VisUnicodeEscape u \<Rightarrow> 4 + hex_digits u
      | VisPrintable u \<Rightarrow> length (utf8_encode u))"

definition visible_text :: "visible_char \<Rightarrow> string" where
  "visible_text v =
     (case v of
        VisLineFeed \<Rightarrow> [CHR 0x0A]
      | VisShortEscape s \<Rightarrow> s
      | VisUnicodeEscape u \<Rightarrow> unicode_escape u
      | VisPrintable u \<Rightarrow> utf8_encode u)"

fun render_loop :: "bool \<Rightarrow> nat \<Rightarrow> string \<Rightarrow> nat list \<Rightarrow> visible_text_error + string option" where
  "render_loop preserve max_bytes buffer [] = Inr (Some buffer)"
| "render_loop preserve max_bytes buffer (u # us) =
     (let visible = classify u (\<not> preserve) in
      bindR (ok_or VisibleLimit (checked_add_u64 (length buffer) (needed_bytes visible))) (\<lambda>n.
        if n > max_bytes then Inr None
        else render_loop preserve max_bytes (buffer @ visible_text visible) us))"

definition render_visible_owned_bounded :: "nat list \<Rightarrow> bool \<Rightarrow> nat \<Rightarrow> visible_text_error + string option" where
  "render_visible_owned_bounded input preserve_line_feed max_bytes =
     render_loop preserve_line_feed (min max_bytes MAX_VISIBLE_OWNED_BYTES) [] input"

definition render_visible_owned :: "nat list \<Rightarrow> bool \<Rightarrow> visible_text_error + string" where
  "render_visible_owned input preserve_line_feed =
     bindR (render_visible_owned_bounded input preserve_line_feed MAX_VISIBLE_OWNED_BYTES) (ok_or VisibleLimit)"

section \<open>What reaches the terminal\<close>

lemma hex_text_length: "length (hex_text u) = hex_digits u"
  by (induction u rule: hex_text.induct) (simp add: hex_text.simps[of _] hex_digits.simps[of _])

lemma needed_bytes_length: "needed_bytes v = length (visible_text v)"
  by (cases v) (simp_all add: needed_bytes_def visible_text_def unicode_escape_def hex_text_length)

definition safe_scalar :: "bool \<Rightarrow> nat \<Rightarrow> bool" where
  "safe_scalar preserve u = (is_scalar u \<and> (\<not> must_escape u \<or> u = 10 \<and> preserve))"

lemma ascii_safe: "33 \<le> u \<Longrightarrow> u < 127 \<Longrightarrow> safe_scalar preserve u"
  by (auto simp: safe_scalar_def is_scalar_def must_escape_def in_range_def UNICODE_16_FORMAT_RANGES_def OTHER_ESCAPED_RANGES_def)

text \<open>The text of a character spells safe scalars.\<close>

definition spells :: "bool \<Rightarrow> string \<Rightarrow> bool" where
  "spells preserve s = (\<exists>us. s = concat (map utf8_encode us) \<and> (\<forall>u\<in>set us. safe_scalar preserve u))"

lemma spells_append: "spells p s \<Longrightarrow> spells p t \<Longrightarrow> spells p (s @ t)"
  unfolding spells_def by (metis (no_types, opaque_lifting) concat_append map_append set_append Un_iff)

lemma spells_ascii: "list_all (\<lambda>c. 33 \<le> byte c \<and> byte c < 127) s \<Longrightarrow> spells p s"
proof -
  assume a: "list_all (\<lambda>c. 33 \<le> byte c \<and> byte c < 127) s"
  have "s = concat (map utf8_encode (map byte s))"
    using a by (induction s) (auto simp: utf8_encode_def byte_def)
  moreover have "\<forall>u\<in>set (map byte s). safe_scalar p u" using a ascii_safe by (auto simp: list_all_iff)
  ultimately show ?thesis unfolding spells_def by blast
qed

lemma hex_text_ascii: "list_all (\<lambda>c. 33 \<le> byte c \<and> byte c < 127) (hex_text u)"
proof (induction u rule: hex_text.induct)
  case (1 n)
  have "33 \<le> byte (lower_hex_digit k) \<and> byte (lower_hex_digit k) < 127" if "k < 16" for k
    using that by (simp add: lower_hex_digit_def)
  then show ?case using 1 by (subst hex_text.simps) simp
qed

lemma visible_text_spells:
  assumes "is_scalar u"
  shows "spells preserve (visible_text (classify u (\<not> preserve)))"
proof -
  have "spells preserve (unicode_escape u)"
    by (rule spells_ascii) (use hex_text_ascii in \<open>simp add: unicode_escape_def BACKSLASH_def byte_def\<close>)
  moreover have "spells preserve [BACKSLASH, c]" if "33 \<le> byte c \<and> byte c < 127" for c
    by (rule spells_ascii) (use that in \<open>simp add: BACKSLASH_def byte_def\<close>)
  moreover have "spells preserve (utf8_encode u)" if "\<not> must_escape u"
    unfolding spells_def by (rule exI[of _ "[u]"]) (use that assms in \<open>simp add: safe_scalar_def\<close>)
  moreover have "spells True [CHR 0x0A]"
    unfolding spells_def
    by (rule exI[of _ "[10]"]) (simp add: safe_scalar_def is_scalar_def utf8_encode_def byte_Char_eq[of _ 10] byte_def)
  ultimately show ?thesis by (auto simp: classify_def visible_text_def byte_def)
qed

lemma render_loop_spells:
  "render_loop preserve m buffer us = Inr (Some out) \<Longrightarrow> spells preserve buffer \<Longrightarrow> length buffer \<le> m
     \<Longrightarrow> \<forall>u\<in>set us. is_scalar u \<Longrightarrow> spells preserve out \<and> length out \<le> m"
proof (induction us arbitrary: buffer)
  case (Cons u us)
  have "spells preserve (buffer @ visible_text (classify u (\<not> preserve)))"
    using Cons.prems by (intro spells_append visible_text_spells) simp_all
  then show ?case
    using Cons by (auto simp: Let_def result_simps checked_simps needed_bytes_length split: if_splits)
qed simp

text \<open>
  C20: Whatever text is rendered for the terminal, the bytes written are well-formed UTF-8 within the limit
  and spell no control character, no invisible format character and no other character of the
  escaped set; only a line feed is kept, and only when asked.
\<close>

theorem rendered_text_is_safe:
  assumes "\<forall>u\<in>set input. is_scalar u" and "render_visible_owned_bounded input preserve max_bytes = Inr (Some out)"
  shows "\<exists>us. from_utf8 out = Inr us
     \<and> (\<forall>u\<in>set us. u = 10 \<and> preserve \<or> \<not> must_escape u \<and> 32 \<le> u \<and> \<not> (127 \<le> u \<and> u \<le> 159))
     \<and> length out \<le> max_bytes \<and> length out \<le> MAX_VISIBLE_OWNED_BYTES"
proof -
  have "spells preserve []" unfolding spells_def by (rule exI[of _ "[]"]) simp
  from render_loop_spells[OF assms(2)[unfolded render_visible_owned_bounded_def] this _ assms(1)]
  obtain us where us: "out = concat (map utf8_encode us)" "\<forall>u\<in>set us. safe_scalar preserve u"
    and l: "length out \<le> min max_bytes MAX_VISIBLE_OWNED_BYTES"
    unfolding spells_def by auto
  have "from_utf8 out = Inr us" unfolding us(1) by (rule from_utf8_concat) (use us(2) in \<open>simp add: safe_scalar_def\<close>)
  moreover have "32 \<le> u \<and> \<not> (127 \<le> u \<and> u \<le> 159)" if "\<not> must_escape u" for u
    using that by (auto simp: must_escape_def in_range_def OTHER_ESCAPED_RANGES_def)
  ultimately show ?thesis using us(2) l by (auto simp: safe_scalar_def)
qed

lemma rendered_text_is_safe_witness:
  "render_visible_owned_bounded [97, 27, 8238, 10] True 64 = Inr (Some (''a'' @ [BACKSLASH] @ ''u{1b}'' @ [BACKSLASH] @ ''u{202e}'' @ [CHR 0x0A]))
   \<and> (\<exists>us. from_utf8 (''a'' @ [BACKSLASH] @ ''u{1b}'' @ [BACKSLASH] @ ''u{202e}'' @ [CHR 0x0A]) = Inr us
         \<and> (\<forall>u\<in>set us. u = 10 \<or> \<not> must_escape u))"
proof -
  have r: "render_visible_owned_bounded [97, 27, 8238, 10] True 64
     = Inr (Some (''a'' @ [BACKSLASH] @ ''u{1b}'' @ [BACKSLASH] @ ''u{202e}'' @ [CHR 0x0A]))"
    by (simp add: render_visible_owned_bounded_def MAX_VISIBLE_OWNED_BYTES_def classify_def must_escape_def in_range_def
        UNICODE_16_FORMAT_RANGES_def OTHER_ESCAPED_RANGES_def needed_bytes_def visible_text_def utf8_encode_def unicode_escape_def
        lower_hex_digit_def checked_add_u64_def U64_LIMIT_def Let_def hex_digits.simps[of "numeral _"] hex_text.simps[of "numeral _"]
        hex_digits.simps[of "Suc 0"] hex_text.simps[of "Suc 0"] char_of_def bit_0)
  have "\<forall>u\<in>set [97, 27, 8238, 10]. is_scalar u" by (simp add: is_scalar_def)
  from rendered_text_is_safe[OF this r] r show ?thesis by auto
qed

end
