(* ===== verification/Composer.thy ===== *)
theory Composer
  imports Visible_Text Compaction_Events
begin

text \<open>
  The line editor of the prompt (\<open>src/tui/composer.rs\<close>).  The segmentation of text into grapheme
  clusters (\<open>unicode-segmentation\<close>) and the width of a text in cells (\<open>unicode-width\<close>) are
  parameters.  Offsets count the bytes of the UTF-8 text.  An operation that fails leaves the
  composer as it was.
\<close>

record text_metrics =
  tm_graphemes :: "string \<Rightarrow> string list"
  tm_width :: "string \<Rightarrow> nat"

definition MAX_PROMPT_BYTES :: nat where "MAX_PROMPT_BYTES = 64 * 1024"
definition MAX_UNDO_RECORDS :: nat where "MAX_UNDO_RECORDS = 128"
definition MAX_UNDO_PAYLOAD_BYTES :: nat where "MAX_UNDO_PAYLOAD_BYTES = 1024 * 1024"
definition MAX_YANK_BYTES :: nat where "MAX_YANK_BYTES = MAX_PROMPT_BYTES"

record cursor_position =
  cp_logical_row :: nat
  cp_display_column :: nat

datatype composer_error = ComposerPromptTooLarge | ComposerCapacity | ComposerInvalidState | ComposerRevisionExhausted

record undo_record =
  ur_start :: nat
  ur_inserted_bytes :: nat
  ur_deleted :: string
  ur_cursor_before :: nat

record composer =
  co_text :: string
  co_cursor :: nat
  co_content_revision :: nat
  co_preferred_column :: "nat option"
  co_undo :: "undo_record list"
  co_undo_payload_bytes :: nat
  co_yank :: string

definition composer_default :: composer where
  "composer_default = \<lparr>co_text = [], co_cursor = 0, co_content_revision = 0, co_preferred_column = None, co_undo = [],
     co_undo_payload_bytes = 0, co_yank = []\<rparr>"

section \<open>Boundaries\<close>

definition is_char_boundary :: "string \<Rightarrow> nat \<Rightarrow> bool" where
  "is_char_boundary s k = (k = 0 \<or> k = length s \<or> k < length s \<and> \<not> is_continuation (s ! k))"

text \<open>\<open>grapheme_indices\<close>: the pieces with the offsets they start at.\<close>

fun indexed :: "nat \<Rightarrow> string list \<Rightarrow> (nat \<times> string) list" where
  "indexed n [] = []"
| "indexed n (g # gs) = (n, g) # indexed (n + length g) gs"

definition grapheme_indices :: "text_metrics \<Rightarrow> string \<Rightarrow> (nat \<times> string) list" where
  "grapheme_indices M s = indexed 0 (tm_graphemes M s)"

definition previous_grapheme :: "text_metrics \<Rightarrow> string \<Rightarrow> nat \<Rightarrow> (nat \<times> string) option" where
  "previous_grapheme M text cursor =
     (let gs = grapheme_indices M (take cursor text) in if gs = [] then None else Some (last gs))"

definition previous_grapheme_start :: "text_metrics \<Rightarrow> string \<Rightarrow> nat \<Rightarrow> nat option" where
  "previous_grapheme_start M text cursor = map_option fst (previous_grapheme M text cursor)"

definition next_grapheme_end :: "text_metrics \<Rightarrow> string \<Rightarrow> nat \<Rightarrow> nat option" where
  "next_grapheme_end M text cursor =
     (case tm_graphemes M (drop cursor text) of [] \<Rightarrow> None | g # _ \<Rightarrow> Some (cursor + length g))"

definition LINE_FEED :: char where
  "LINE_FEED = CHR 0x0A"

definition line_start :: "text_metrics \<Rightarrow> string \<Rightarrow> nat \<Rightarrow> nat" where
  "line_start M text cursor =
     (let gs = filter (\<lambda>(_, g). LINE_FEED \<in> set g) (grapheme_indices M (take cursor text)) in
      if gs = [] then 0 else (case last gs of (start, g) \<Rightarrow> start + length g))"

definition line_end :: "text_metrics \<Rightarrow> string \<Rightarrow> nat \<Rightarrow> nat" where
  "line_end M text cursor =
     (case List.find (\<lambda>(_, g). LINE_FEED \<in> set g) (grapheme_indices M (drop cursor text)) of
        None \<Rightarrow> length text
      | Some (start, _) \<Rightarrow> cursor + start)"

definition is_grapheme_boundary :: "text_metrics \<Rightarrow> string \<Rightarrow> nat \<Rightarrow> bool" where
  "is_grapheme_boundary M text cursor =
     (cursor = length text \<or> list_ex (\<lambda>(boundary, _). boundary = cursor) (grapheme_indices M text))"

definition boundary_at_or_after :: "text_metrics \<Rightarrow> string \<Rightarrow> nat \<Rightarrow> nat" where
  "boundary_at_or_after M text cursor =
     (if cursor \<ge> length text then length text
      else case List.find (\<lambda>(boundary, _). boundary \<ge> cursor) (grapheme_indices M text) of
             None \<Rightarrow> length text
           | Some (boundary, _) \<Rightarrow> boundary)"

section \<open>Widths\<close>

definition chars_of :: "string \<Rightarrow> nat list" where
  "chars_of s = (case from_utf8 s of Inr us \<Rightarrow> us | Inl _ \<Rightarrow> [])"

definition escaped_width :: "nat \<Rightarrow> nat option" where
  "escaped_width u = escaped_cell_width (classify u False)"

definition visible_input_width :: "text_metrics \<Rightarrow> string \<Rightarrow> nat" where
  "visible_input_width M line =
     sum_list (map (\<lambda>g.
       if list_ex (\<lambda>u. escaped_width u \<noteq> None) (chars_of g)
       then sum_list (map (\<lambda>u. case escaped_width u of Some w \<Rightarrow> w | None \<Rightarrow> tm_width M (utf8_encode u)) (chars_of g))
       else tm_width M g) (tm_graphemes M line))"

definition advance_cells :: "cursor_position \<Rightarrow> nat \<Rightarrow> nat \<Rightarrow> cursor_position" where
  "advance_cells p cell_width width =
     (if cell_width = 0 then p
      else
        let p = (if cp_display_column p \<noteq> 0 \<and> cp_display_column p + cell_width > width
                 then p\<lparr>cp_logical_row := cp_logical_row p + 1, cp_display_column := 0\<rparr> else p);
            total_cells = cp_display_column p + cell_width in
        p\<lparr>cp_logical_row := cp_logical_row p + (total_cells - 1) div width,
          cp_display_column := (total_cells - 1) mod width + 1\<rparr>)"

definition advance_visual_position :: "text_metrics \<Rightarrow> nat \<Rightarrow> cursor_position \<Rightarrow> string \<Rightarrow> cursor_position" where
  "advance_visual_position M width p g =
     (if LINE_FEED \<in> set g then
        fold (\<lambda>u p.
          if u = 10 then p\<lparr>cp_logical_row := cp_logical_row p + 1, cp_display_column := 0\<rparr>
          else advance_cells p (visible_input_width M (utf8_encode u)) width) (chars_of g) p
      else advance_cells p (visible_input_width M g) width)"

definition origin :: cursor_position where
  "origin = \<lparr>cp_logical_row = 0, cp_display_column = 0\<rparr>"

definition visual_position_at :: "text_metrics \<Rightarrow> string \<Rightarrow> nat \<Rightarrow> nat \<Rightarrow> cursor_position" where
  "visual_position_at M text cursor width =
     fold (\<lambda>(_, g) p. advance_visual_position M width p g)
       (takeWhile (\<lambda>(start, _). start < cursor) (grapheme_indices M text)) origin"

definition abs_diff :: "nat \<Rightarrow> nat \<Rightarrow> nat" where
  "abs_diff a b = (if a < b then b - a else a - b)"

type_synonym row_candidate = "nat \<times> nat \<times> nat"

definition candidate_less :: "row_candidate \<Rightarrow> row_candidate \<Rightarrow> bool" where
  "candidate_less a b =
     (case (a, b) of ((d, c, k), (d', c', k')) \<Rightarrow> d < d' \<or> d = d' \<and> (c < c' \<or> c = c' \<and> k < k'))"

definition candidate_at :: "nat \<Rightarrow> cursor_position \<Rightarrow> nat \<Rightarrow> row_candidate" where
  "candidate_at preferred p boundary = (abs_diff (cp_display_column p) preferred, cp_display_column p, boundary)"

fun closest_loop ::
  "text_metrics \<Rightarrow> nat \<Rightarrow> nat \<Rightarrow> nat \<Rightarrow> cursor_position \<Rightarrow> row_candidate option \<Rightarrow> (nat \<times> string) list \<Rightarrow> row_candidate option" where
  "closest_loop M target_row preferred width p best [] = best"
| "closest_loop M target_row preferred width p best ((start, g) # gs) =
     (let p = advance_visual_position M width p g; boundary = start + length g in
      if cp_logical_row p = target_row then
        (let candidate = candidate_at preferred p boundary;
             best = (case best of None \<Rightarrow> Some candidate | Some b \<Rightarrow> if candidate_less candidate b then Some candidate else best) in
         closest_loop M target_row preferred width p best gs)
      else if cp_logical_row p > target_row \<and> best \<noteq> None then best
      else closest_loop M target_row preferred width p best gs)"

definition closest_boundary_on_row :: "text_metrics \<Rightarrow> string \<Rightarrow> nat \<Rightarrow> nat \<Rightarrow> nat \<Rightarrow> nat option" where
  "closest_boundary_on_row M text target_row preferred width =
     map_option (\<lambda>(_, _, boundary). boundary)
       (closest_loop M target_row preferred width origin
          (if cp_logical_row origin = target_row then Some (candidate_at preferred origin 0) else None) (grapheme_indices M text))"

section \<open>Editing\<close>

definition replace_range :: "nat \<Rightarrow> nat \<Rightarrow> string \<Rightarrow> string \<Rightarrow> string" where
  "replace_range start stop replacement s = take start s @ replacement @ drop stop s"

definition slice :: "nat \<Rightarrow> nat \<Rightarrow> string \<Rightarrow> string" where
  "slice start stop s = drop start (take stop s)"

definition clear_undo :: "composer \<Rightarrow> composer" where
  "clear_undo c = c\<lparr>co_undo := [], co_undo_payload_bytes := 0\<rparr>"

text \<open>The oldest records go until the new one fits.\<close>

fun evict_loop :: "undo_record list \<Rightarrow> nat \<Rightarrow> composer_error + undo_record list \<times> nat" where
  "evict_loop records undo_bytes =
     (if length records < MAX_UNDO_RECORDS \<and> undo_bytes \<le> MAX_UNDO_PAYLOAD_BYTES then Inr (records, undo_bytes)
      else case records of
        [] \<Rightarrow> Inl ComposerInvalidState
      | old # rest \<Rightarrow>
          bindR (ok_or ComposerInvalidState (checked_sub_u64 undo_bytes (length (ur_deleted old)))) (\<lambda>bytes.
            evict_loop rest bytes))"

declare evict_loop.simps [simp del]

definition next_revision :: "composer \<Rightarrow> composer_error + nat" where
  "next_revision c = ok_or ComposerRevisionExhausted (checked_add_u64 (co_content_revision c) 1)"

definition apply_edit :: "text_metrics \<Rightarrow> composer \<Rightarrow> nat \<Rightarrow> nat \<Rightarrow> string \<Rightarrow> bool \<Rightarrow> composer_error + composer" where
  "apply_edit M c start stop replacement update_yank =
     (let text = co_text c in
      if start > stop \<or> stop > length text \<or> \<not> is_char_boundary text start \<or> \<not> is_char_boundary text stop
         \<or> \<not> is_grapheme_boundary M text start \<or> \<not> is_grapheme_boundary M text stop
      then Inl ComposerInvalidState
      else
        bindR (ok_or ComposerPromptTooLarge
                 (Option.bind (checked_sub_u64 (length text) (stop - start)) (\<lambda>n. checked_add_u64 n (length replacement)))) (\<lambda>final_len.
        if final_len > MAX_PROMPT_BYTES then Inl ComposerPromptTooLarge
        else
          bindR (next_revision c) (\<lambda>revision.
          let deleted = slice start stop text in
          if update_yank \<and> length deleted > MAX_YANK_BYTES then Inl ComposerPromptTooLarge
          else
            bindR (ok_or ComposerCapacity (checked_add_u64 (co_undo_payload_bytes c) (length deleted))) (\<lambda>bytes.
            bindR (evict_loop (co_undo c) bytes) (\<lambda>(records, undo_bytes).
            let new_text = replace_range start stop replacement text in
            Inr \<lparr>co_text = new_text,
                 co_cursor = boundary_at_or_after M new_text (start + length replacement),
                 co_content_revision = revision,
                 co_preferred_column = None,
                 co_undo = records @ [\<lparr>ur_start = start, ur_inserted_bytes = length replacement, ur_deleted = deleted,
                    ur_cursor_before = co_cursor c\<rparr>],
                 co_undo_payload_bytes = undo_bytes,
                 co_yank = (if update_yank then deleted else co_yank c)\<rparr>)))))"

definition insert_text :: "text_metrics \<Rightarrow> composer \<Rightarrow> string \<Rightarrow> composer_error + composer" where
  "insert_text M c text = (if text = [] then Inr c else apply_edit M c (co_cursor c) (co_cursor c) text False)"

definition insert_char :: "text_metrics \<Rightarrow> composer \<Rightarrow> nat \<Rightarrow> composer_error + composer" where
  "insert_char M c character = insert_text M c (utf8_encode character)"

fun normalize_paste :: "string \<Rightarrow> string" where
  "normalize_paste [] = []"
| "normalize_paste (c # cs) =
     (if c = CHR 0x0D then
        LINE_FEED # (case cs of [] \<Rightarrow> [] | d # ds \<Rightarrow> if d = LINE_FEED then normalize_paste ds else normalize_paste cs)
      else c # normalize_paste cs)"

definition insert_paste :: "text_metrics \<Rightarrow> composer \<Rightarrow> string \<Rightarrow> composer_error + composer" where
  "insert_paste M c text = insert_text M c (normalize_paste text)"

definition insert_newline :: "text_metrics \<Rightarrow> composer \<Rightarrow> composer_error + composer" where
  "insert_newline M c = insert_text M c [LINE_FEED]"

definition move_left :: "text_metrics \<Rightarrow> composer \<Rightarrow> composer \<times> bool" where
  "move_left M c =
     (case previous_grapheme_start M (co_text c) (co_cursor c) of
        None \<Rightarrow> (c, False)
      | Some previous \<Rightarrow> (c\<lparr>co_cursor := previous, co_preferred_column := None\<rparr>, True))"

definition move_right :: "text_metrics \<Rightarrow> composer \<Rightarrow> composer \<times> bool" where
  "move_right M c =
     (case next_grapheme_end M (co_text c) (co_cursor c) of
        None \<Rightarrow> (c, False)
      | Some n \<Rightarrow> (c\<lparr>co_cursor := n, co_preferred_column := None\<rparr>, True))"

definition move_line_start :: "text_metrics \<Rightarrow> composer \<Rightarrow> composer \<times> bool" where
  "move_line_start M c =
     (let start = line_start M (co_text c) (co_cursor c) in
      (c\<lparr>co_cursor := start, co_preferred_column := None\<rparr>, co_cursor c \<noteq> start))"

definition move_line_end :: "text_metrics \<Rightarrow> composer \<Rightarrow> composer \<times> bool" where
  "move_line_end M c =
     (let stop = line_end M (co_text c) (co_cursor c) in
      (c\<lparr>co_cursor := stop, co_preferred_column := None\<rparr>, co_cursor c \<noteq> stop))"

definition move_vertical :: "text_metrics \<Rightarrow> composer \<Rightarrow> nat \<Rightarrow> bool \<Rightarrow> composer_error + composer \<times> bool" where
  "move_vertical M c width down =
     (if width = 0 then Inl ComposerInvalidState
      else
        let current = visual_position_at M (co_text c) (co_cursor c) width;
            target_row = (if down then map_option Some (checked_add_u64 (cp_logical_row current) 1)
                          else Some (checked_sub_u64 (cp_logical_row current) 1)) in
        case target_row of
          None \<Rightarrow> Inl ComposerInvalidState
        | Some None \<Rightarrow> Inr (c, False)
        | Some (Some row) \<Rightarrow>
            let preferred = (case co_preferred_column c of None \<Rightarrow> cp_display_column current | Some p \<Rightarrow> p) in
            (case closest_boundary_on_row M (co_text c) row preferred width of
               None \<Rightarrow> Inr (c, False)
             | Some cursor \<Rightarrow> Inr (c\<lparr>co_cursor := cursor, co_preferred_column := Some preferred\<rparr>, True)))"

definition move_up :: "text_metrics \<Rightarrow> composer \<Rightarrow> nat \<Rightarrow> composer_error + composer \<times> bool" where
  "move_up M c width = move_vertical M c width False"

definition move_down :: "text_metrics \<Rightarrow> composer \<Rightarrow> nat \<Rightarrow> composer_error + composer \<times> bool" where
  "move_down M c width = move_vertical M c width True"

definition edited :: "composer_error + composer \<Rightarrow> composer_error + composer \<times> bool" where
  "edited r = bindR r (\<lambda>c. Inr (c, True))"

definition backspace :: "text_metrics \<Rightarrow> composer \<Rightarrow> composer_error + composer \<times> bool" where
  "backspace M c =
     (case previous_grapheme_start M (co_text c) (co_cursor c) of
        None \<Rightarrow> Inr (c, False)
      | Some start \<Rightarrow> edited (apply_edit M c start (co_cursor c) [] False))"

definition delete_forward :: "text_metrics \<Rightarrow> composer \<Rightarrow> composer_error + composer \<times> bool" where
  "delete_forward M c =
     (case next_grapheme_end M (co_text c) (co_cursor c) of
        None \<Rightarrow> Inr (c, False)
      | Some stop \<Rightarrow> edited (apply_edit M c (co_cursor c) stop [] False))"

text \<open>
  Back over graphemes that are all white space, then over those that are not.  A grapheme is not
  empty, so the test of the offset holds; it makes the definition total for every segmentation.
\<close>

function back_while :: "text_metrics \<Rightarrow> (string \<Rightarrow> bool) \<Rightarrow> string \<Rightarrow> nat \<Rightarrow> nat" where
  "back_while M P text start =
     (case previous_grapheme M text start of
        None \<Rightarrow> start
      | Some (previous, g) \<Rightarrow> if P g \<and> previous < start then back_while M P text previous else start)"
  by pat_completeness auto
termination
  by (relation "measure (\<lambda>(_, _, _, start). start)") auto

declare back_while.simps [simp del]

definition erase_word :: "text_metrics \<Rightarrow> composer \<Rightarrow> composer_error + composer \<times> bool" where
  "erase_word M c =
     (let start = back_while M (\<lambda>g. \<not> blank g) (co_text c) (back_while M blank (co_text c) (co_cursor c)) in
      if start = co_cursor c then Inr (c, False) else edited (apply_edit M c start (co_cursor c) [] True))"

definition clear_before_cursor :: "text_metrics \<Rightarrow> composer \<Rightarrow> composer_error + composer \<times> bool" where
  "clear_before_cursor M c =
     (let start = line_start M (co_text c) (co_cursor c) in
      if start = co_cursor c then Inr (c, False) else edited (apply_edit M c start (co_cursor c) [] True))"

definition clear_after_cursor :: "text_metrics \<Rightarrow> composer \<Rightarrow> composer_error + composer \<times> bool" where
  "clear_after_cursor M c =
     (let stop = line_end M (co_text c) (co_cursor c) in
      if stop = co_cursor c then Inr (c, False) else edited (apply_edit M c (co_cursor c) stop [] True))"

definition yank :: "text_metrics \<Rightarrow> composer \<Rightarrow> composer_error + composer \<times> bool" where
  "yank M c = (if co_yank c = [] then Inr (c, False) else edited (insert_text M c (co_yank c)))"

definition undo :: "composer \<Rightarrow> composer_error + composer \<times> bool" where
  "undo c =
     (if co_undo c = [] then Inr (c, False)
      else
        let r = last (co_undo c) in
        bindR (ok_or ComposerInvalidState (checked_add_u64 (ur_start r) (ur_inserted_bytes r))) (\<lambda>stop.
        if stop > length (co_text c) \<or> \<not> is_char_boundary (co_text c) (ur_start r) \<or> \<not> is_char_boundary (co_text c) stop
        then Inl ComposerInvalidState
        else
          bindR (ok_or ComposerInvalidState (Option.bind (checked_sub_u64 (length (co_text c)) (ur_inserted_bytes r))
                   (\<lambda>n. checked_add_u64 n (length (ur_deleted r))))) (\<lambda>final_len.
          if final_len > MAX_PROMPT_BYTES then Inl ComposerInvalidState
          else
            bindR (next_revision c) (\<lambda>revision.
            bindR (ok_or ComposerInvalidState (checked_sub_u64 (co_undo_payload_bytes c) (length (ur_deleted r)))) (\<lambda>bytes.
              Inr (c\<lparr>co_undo := butlast (co_undo c), co_undo_payload_bytes := bytes,
                co_text := replace_range (ur_start r) stop (ur_deleted r) (co_text c), co_cursor := ur_cursor_before r,
                co_content_revision := revision, co_preferred_column := None\<rparr>, True))))))"

definition draft_fits :: "text_metrics \<Rightarrow> string \<Rightarrow> nat \<Rightarrow> bool" where
  "draft_fits M text cursor =
     (length text \<le> MAX_PROMPT_BYTES \<and> cursor \<le> length text \<and> is_char_boundary text cursor \<and> is_grapheme_boundary M text cursor)"

definition put_draft :: "composer \<Rightarrow> string \<Rightarrow> nat \<Rightarrow> nat \<Rightarrow> composer" where
  "put_draft c text cursor revision =
     (clear_undo (c\<lparr>co_text := text, co_cursor := cursor\<rparr>))\<lparr>co_content_revision := revision, co_preferred_column := None\<rparr>"

definition replace_all :: "text_metrics \<Rightarrow> composer \<Rightarrow> string \<Rightarrow> nat \<Rightarrow> composer_error + composer" where
  "replace_all M c text cursor =
     (if \<not> draft_fits M text cursor then Inl ComposerInvalidState
      else bindR (next_revision c) (\<lambda>revision. Inr (put_draft c text cursor revision)))"

definition take_draft :: "composer \<Rightarrow> composer_error + composer \<times> string" where
  "take_draft c = bindR (next_revision c) (\<lambda>revision. Inr (put_draft c [] 0 revision, co_text c))"

text \<open>The text that could not be restored comes back as the error.\<close>

definition restore_draft :: "text_metrics \<Rightarrow> composer \<Rightarrow> string \<Rightarrow> nat \<Rightarrow> string + composer" where
  "restore_draft M c text cursor =
     (if co_text c \<noteq> [] \<or> \<not> draft_fits M text cursor then Inl text
      else map_err (\<lambda>_. text) (bindR (next_revision c) (\<lambda>revision. Inr (put_draft c text cursor revision))))"

definition swap_draft :: "text_metrics \<Rightarrow> composer \<Rightarrow> string \<Rightarrow> nat \<Rightarrow> string + composer \<times> string \<times> nat" where
  "swap_draft M c text cursor =
     (if \<not> draft_fits M text cursor then Inl text
      else map_err (\<lambda>_. text)
        (bindR (next_revision c) (\<lambda>revision. Inr (put_draft c text cursor revision, co_text c, co_cursor c))))"

definition invariants_hold :: "text_metrics \<Rightarrow> composer \<Rightarrow> bool" where
  "invariants_hold M c =
     (length (co_text c) \<le> MAX_PROMPT_BYTES \<and> co_cursor c \<le> length (co_text c)
      \<and> is_char_boundary (co_text c) (co_cursor c) \<and> is_grapheme_boundary M (co_text c) (co_cursor c)
      \<and> length (co_undo c) \<le> MAX_UNDO_RECORDS \<and> co_undo_payload_bytes c \<le> MAX_UNDO_PAYLOAD_BYTES
      \<and> length (co_yank c) \<le> MAX_YANK_BYTES
      \<and> co_undo_payload_bytes c = sum_list (map (\<lambda>r. length (ur_deleted r)) (co_undo c)))"

end
