(* ===== verification/Input_Memory.thy ===== *)
theory Input_Memory
  imports Composer
begin

text \<open>
  The prompts of a terminal session (\<open>src/tui/input_memory.rs\<close>): the draft in the composer, the
  queue of prompts that wait for their turn, the history of committed prompts and the walk through
  it.  Failed allocations are left out.
\<close>

definition MAX_QUEUE_ITEMS :: nat where "MAX_QUEUE_ITEMS = 8"
definition MAX_QUEUE_BYTES :: nat where "MAX_QUEUE_BYTES = 256 * 1024"
definition MAX_HISTORY_ITEMS :: nat where "MAX_HISTORY_ITEMS = 128"
definition MAX_HISTORY_BYTES :: nat where "MAX_HISTORY_BYTES = 1024 * 1024"

datatype input_memory_error =
    InputEmpty | InputPromptTooLarge | InputQueueFull | InputQueueBytes | InputCapacity | InputIdExhausted
  | InputInvalidState | InputComposer

section \<open>The queue\<close>

record queued_prompt =
  qp_id :: nat
  qp_text :: string

record prompt_queue =
  pq_prompts :: "queued_prompt list"
  pq_total_bytes :: nat
  pq_next_id :: nat
  pq_reserved_front :: "nat option"

definition queue_default :: prompt_queue where
  "queue_default = \<lparr>pq_prompts = [], pq_total_bytes = 0, pq_next_id = 0, pq_reserved_front = None\<rparr>"

definition queue_len :: "prompt_queue \<Rightarrow> nat" where
  "queue_len q = length (pq_prompts q) - (if pq_reserved_front q \<noteq> None then 1 else 0)"

definition queue_bytes :: "prompt_queue \<Rightarrow> nat" where
  "queue_bytes q =
     pq_total_bytes q
     - (case (pq_reserved_front q, pq_prompts q) of
          (Some i, p # _) \<Rightarrow> if qp_id p = i then length (qp_text p) else 0
        | _ \<Rightarrow> 0)"

definition enqueue_from :: "prompt_queue \<Rightarrow> composer \<Rightarrow> input_memory_error + prompt_queue \<times> composer \<times> nat" where
  "enqueue_from q c =
     (let bytes = length (co_text c) in
      if bytes = 0 then Inl InputEmpty
      else if bytes > MAX_PROMPT_BYTES then Inl InputPromptTooLarge
      else if length (pq_prompts q) = MAX_QUEUE_ITEMS then Inl InputQueueFull
      else
        bindR (ok_or InputQueueBytes (checked_add_u64 (pq_total_bytes q) bytes)) (\<lambda>next_total.
        if next_total > MAX_QUEUE_BYTES then Inl InputQueueBytes
        else
          bindR (ok_or InputIdExhausted (checked_add_u64 (pq_next_id q) 1)) (\<lambda>next_id.
          bindR (map_err (\<lambda>_. InputComposer) (take_draft c)) (\<lambda>(c, text).
            Inr (q\<lparr>pq_prompts := pq_prompts q @ [\<lparr>qp_id = next_id, qp_text = text\<rparr>], pq_total_bytes := next_total,
              pq_next_id := next_id\<rparr>, c, next_id)))))"

definition reserve_front :: "prompt_queue \<Rightarrow> input_memory_error + prompt_queue \<times> queued_prompt" where
  "reserve_front q =
     (if pq_reserved_front q \<noteq> None then Inl InputInvalidState
      else case pq_prompts q of
        [] \<Rightarrow> Inl InputEmpty
      | front # _ \<Rightarrow> Inr (q\<lparr>pq_reserved_front := Some (qp_id front)\<rparr>, front))"

definition front_id :: "prompt_queue \<Rightarrow> nat option" where
  "front_id q = (case pq_prompts q of [] \<Rightarrow> None | p # _ \<Rightarrow> Some (qp_id p))"

definition release_reserved :: "prompt_queue \<Rightarrow> nat \<Rightarrow> input_memory_error + prompt_queue" where
  "release_reserved q i =
     (if pq_reserved_front q \<noteq> Some i \<or> front_id q \<noteq> Some i then Inl InputInvalidState
      else Inr (q\<lparr>pq_reserved_front := None\<rparr>))"

definition commit_reserved :: "prompt_queue \<Rightarrow> nat \<Rightarrow> input_memory_error + prompt_queue \<times> queued_prompt" where
  "commit_reserved q i =
     (if pq_reserved_front q \<noteq> Some i then Inl InputInvalidState
      else case pq_prompts q of
        [] \<Rightarrow> Inl InputInvalidState
      | prompt # rest \<Rightarrow>
          if qp_id prompt \<noteq> i then Inl InputInvalidState
          else
            bindR (ok_or InputInvalidState (checked_sub_u64 (pq_total_bytes q) (length (qp_text prompt)))) (\<lambda>next_total.
              Inr (q\<lparr>pq_prompts := rest, pq_total_bytes := next_total, pq_reserved_front := None\<rparr>, prompt)))"

definition recall_latest :: "text_metrics \<Rightarrow> prompt_queue \<Rightarrow> composer \<Rightarrow> input_memory_error + (prompt_queue \<times> composer) \<times> bool" where
  "recall_latest M q c =
     (if pq_prompts q = [] then Inr ((q, c), False)
      else
        let latest = last (pq_prompts q) in
        if pq_reserved_front q = Some (qp_id latest) then Inr ((q, c), False)
        else
          bindR (ok_or InputInvalidState (checked_sub_u64 (pq_total_bytes q) (length (qp_text latest)))) (\<lambda>without_latest.
          bindR (ok_or InputQueueBytes (checked_add_u64 without_latest (length (co_text c)))) (\<lambda>next_total.
          if next_total > MAX_QUEUE_BYTES then Inl InputQueueBytes
          else
            bindR (map_err (\<lambda>_. InputComposer) (swap_draft M c (qp_text latest) (length (qp_text latest)))) (\<lambda>(c, draft, _).
              Inr ((q\<lparr>pq_prompts := butlast (pq_prompts q) @ (if draft = [] then [] else [\<lparr>qp_id = qp_id latest, qp_text = draft\<rparr>]),
                 pq_total_bytes := next_total\<rparr>, c), True)))))"

section \<open>The history\<close>

record prompt_history =
  ph_prompts :: "string list"
  ph_total_bytes :: nat
  ph_truncated :: bool

definition history_default :: prompt_history where
  "history_default = \<lparr>ph_prompts = [], ph_total_bytes = 0, ph_truncated = False\<rparr>"

fun evict_history :: "string list \<Rightarrow> nat \<Rightarrow> input_memory_error + string list \<times> nat" where
  "evict_history prompts next_total =
     (if length prompts < MAX_HISTORY_ITEMS \<and> next_total \<le> MAX_HISTORY_BYTES then Inr (prompts, next_total)
      else case prompts of
        [] \<Rightarrow> Inl InputInvalidState
      | old # rest \<Rightarrow>
          bindR (ok_or InputInvalidState (checked_sub_u64 next_total (length old))) (evict_history rest))"

declare evict_history.simps [simp del]

definition record_committed :: "prompt_history \<Rightarrow> string \<Rightarrow> input_memory_error + prompt_history \<times> bool" where
  "record_committed h prompt =
     (if length prompt > MAX_PROMPT_BYTES then Inr (h\<lparr>ph_truncated := True\<rparr>, False)
      else
        bindR (ok_or InputCapacity (checked_add_u64 (ph_total_bytes h) (length prompt))) (\<lambda>next_total.
        bindR (evict_history (ph_prompts h) next_total) (\<lambda>(prompts, next_total).
          Inr (\<lparr>ph_prompts = prompts @ [prompt], ph_total_bytes = next_total,
                ph_truncated = (ph_truncated h \<or> prompts \<noteq> ph_prompts h)\<rparr>, True))))"

definition newest_at :: "prompt_history \<Rightarrow> nat \<Rightarrow> string option" where
  "newest_at h offset =
     Option.bind (checked_add_u64 offset 1) (\<lambda>n.
     Option.bind (checked_sub_u64 (length (ph_prompts h)) n) (\<lambda>i.
       if i < length (ph_prompts h) then Some (ph_prompts h ! i) else None))"

section \<open>The whole\<close>

record history_navigation =
  hn_offset_from_newest :: nat
  hn_saved_draft :: string
  hn_saved_cursor :: nat

record input_memory =
  im_composer :: composer
  im_queue :: prompt_queue
  im_history :: prompt_history
  im_navigation :: "history_navigation option"

definition input_default :: input_memory where
  "input_default = \<lparr>im_composer = composer_default, im_queue = queue_default, im_history = history_default, im_navigation = None\<rparr>"

definition from_composer :: "composer_error + 'a \<Rightarrow> input_memory_error + 'a" where
  "from_composer = map_err (\<lambda>_. InputComposer)"

text \<open>An edit that changed the content ends the walk through the history.\<close>

definition after_insert :: "input_memory \<Rightarrow> composer \<Rightarrow> input_memory" where
  "after_insert m c =
     m\<lparr>im_composer := c,
       im_navigation := (if co_content_revision c \<noteq> co_content_revision (im_composer m) then None else im_navigation m)\<rparr>"

definition im_insert_char :: "text_metrics \<Rightarrow> input_memory \<Rightarrow> nat \<Rightarrow> input_memory_error + input_memory" where
  "im_insert_char M m character = bindR (from_composer (insert_char M (im_composer m) character)) (\<lambda>c. Inr (after_insert m c))"

definition im_insert_text :: "text_metrics \<Rightarrow> input_memory \<Rightarrow> string \<Rightarrow> input_memory_error + input_memory" where
  "im_insert_text M m text = bindR (from_composer (insert_text M (im_composer m) text)) (\<lambda>c. Inr (after_insert m c))"

definition im_insert_paste :: "text_metrics \<Rightarrow> input_memory \<Rightarrow> string \<Rightarrow> input_memory_error + input_memory" where
  "im_insert_paste M m text = bindR (from_composer (insert_paste M (im_composer m) text)) (\<lambda>c. Inr (after_insert m c))"

definition im_insert_newline :: "text_metrics \<Rightarrow> input_memory \<Rightarrow> input_memory_error + input_memory" where
  "im_insert_newline M m =
     bindR (from_composer (insert_newline M (im_composer m))) (\<lambda>c. Inr (m\<lparr>im_composer := c, im_navigation := None\<rparr>))"

definition im_move :: "(composer \<Rightarrow> composer \<times> bool) \<Rightarrow> input_memory \<Rightarrow> input_memory \<times> bool" where
  "im_move f m = (case f (im_composer m) of (c, moved) \<Rightarrow> (m\<lparr>im_composer := c\<rparr>, moved))"

definition im_edit :: "(composer \<Rightarrow> composer_error + composer \<times> bool) \<Rightarrow> input_memory \<Rightarrow> input_memory_error + input_memory \<times> bool" where
  "im_edit f m =
     bindR (from_composer (f (im_composer m))) (\<lambda>(c, changed).
       Inr (m\<lparr>im_composer := c, im_navigation := (if changed then None else im_navigation m)\<rparr>, changed))"

definition im_recall_latest_queue :: "text_metrics \<Rightarrow> input_memory \<Rightarrow> input_memory_error + input_memory \<times> bool" where
  "im_recall_latest_queue M m =
     bindR (recall_latest M (im_queue m) (im_composer m)) (\<lambda>((q, c), recalled).
       Inr (m\<lparr>im_queue := q, im_composer := c, im_navigation := (if recalled then None else im_navigation m)\<rparr>, recalled))"

text \<open>Going to an entry of the history; the draft is saved when the walk begins.\<close>

definition show_history :: "text_metrics \<Rightarrow> input_memory \<Rightarrow> nat \<Rightarrow> string \<Rightarrow> input_memory_error + input_memory" where
  "show_history M m target_offset target =
     bindR (from_composer (replace_all M (im_composer m) target (length target))) (\<lambda>c.
       Inr (m\<lparr>im_composer := c,
         im_navigation := Some (case im_navigation m of
            Some n \<Rightarrow> n\<lparr>hn_offset_from_newest := target_offset\<rparr>
          | None \<Rightarrow> \<lparr>hn_offset_from_newest = target_offset, hn_saved_draft = co_text (im_composer m),
               hn_saved_cursor = co_cursor (im_composer m)\<rparr>)\<rparr>))"

definition next_older :: "input_memory \<Rightarrow> nat" where
  "next_older m = (case im_navigation m of None \<Rightarrow> 0 | Some n \<Rightarrow> hn_offset_from_newest n + 1)"

definition history_previous :: "text_metrics \<Rightarrow> input_memory \<Rightarrow> input_memory_error + input_memory \<times> bool" where
  "history_previous M m =
     (case newest_at (im_history m) (next_older m) of
        None \<Rightarrow> Inr (m, False)
      | Some target \<Rightarrow> bindR (show_history M m (next_older m) target) (\<lambda>m. Inr (m, True)))"

definition history_next :: "text_metrics \<Rightarrow> input_memory \<Rightarrow> input_memory_error + input_memory \<times> bool" where
  "history_next M m =
     (case im_navigation m of
        None \<Rightarrow> Inr (m, False)
      | Some n \<Rightarrow>
          if hn_offset_from_newest n \<noteq> 0 then
            bindR (ok_or InputInvalidState (newest_at (im_history m) (hn_offset_from_newest n - 1))) (\<lambda>target.
            bindR (show_history M m (hn_offset_from_newest n - 1) target) (\<lambda>m. Inr (m, True)))
          else
            bindR (map_err (\<lambda>_. InputComposer) (swap_draft M (im_composer m) (hn_saved_draft n) (hn_saved_cursor n))) (\<lambda>(c, _).
              Inr (m\<lparr>im_composer := c, im_navigation := None\<rparr>, True)))"

definition str_within :: "string \<Rightarrow> string \<Rightarrow> bool" where
  "str_within p s = list_ex (\<lambda>i. starts_with (drop i s) p) [0..<Suc (length s)]"

definition reverse_search_previous :: "text_metrics \<Rightarrow> input_memory \<Rightarrow> input_memory_error + input_memory \<times> bool" where
  "reverse_search_previous M m =
     (let query = (case im_navigation m of None \<Rightarrow> co_text (im_composer m) | Some n \<Rightarrow> hn_saved_draft n);
          matching = List.find (\<lambda>offset. case newest_at (im_history m) offset of None \<Rightarrow> False | Some p \<Rightarrow> str_within query p)
             [next_older m..<length (ph_prompts (im_history m))] in
      case matching of
        None \<Rightarrow> Inr (m, False)
      | Some offset \<Rightarrow>
          bindR (ok_or InputInvalidState (newest_at (im_history m) offset)) (\<lambda>target.
          bindR (show_history M m offset target) (\<lambda>m. Inr (m, True))))"

definition move_up_or_history :: "text_metrics \<Rightarrow> input_memory \<Rightarrow> nat \<Rightarrow> input_memory_error + input_memory \<times> bool" where
  "move_up_or_history M m width =
     bindR (from_composer (move_up M (im_composer m) width)) (\<lambda>(c, moved).
     let m = m\<lparr>im_composer := c\<rparr> in
       if moved then Inr (m, True)
       else if queue_len (im_queue m) \<noteq> 0 then im_recall_latest_queue M m
       else history_previous M m)"

definition move_down_or_history :: "text_metrics \<Rightarrow> input_memory \<Rightarrow> nat \<Rightarrow> input_memory_error + input_memory \<times> bool" where
  "move_down_or_history M m width =
     bindR (from_composer (move_down M (im_composer m) width)) (\<lambda>(c, moved).
     let m = m\<lparr>im_composer := c\<rparr> in
       if moved then Inr (m, True) else history_next M m)"

definition take_draft_for_turn :: "input_memory \<Rightarrow> input_memory_error + input_memory \<times> string" where
  "take_draft_for_turn m =
     bindR (from_composer (take_draft (im_composer m))) (\<lambda>(c, draft). Inr (m\<lparr>im_composer := c, im_navigation := None\<rparr>, draft))"

definition restore_uncommitted_draft :: "text_metrics \<Rightarrow> input_memory \<Rightarrow> string \<Rightarrow> nat \<Rightarrow> string + input_memory" where
  "restore_uncommitted_draft M m draft cursor =
     bindR (restore_draft M (im_composer m) draft cursor) (\<lambda>c. Inr (m\<lparr>im_composer := c\<rparr>))"

definition record_committed_human :: "input_memory \<Rightarrow> string \<Rightarrow> input_memory_error + input_memory \<times> bool" where
  "record_committed_human m prompt =
     bindR (case im_navigation m of
              None \<Rightarrow> Inr None
            | Some n \<Rightarrow> map_err (\<lambda>_. InputInvalidState) (bindR (ok_or () (checked_add_u64 (hn_offset_from_newest n) 1)) (\<lambda>k. Inr (Some k)))) (\<lambda>rebased.
     bindR (record_committed (im_history m) prompt) (\<lambda>(h, stored).
       Inr (m\<lparr>im_history := h,
         im_navigation := (case (stored, im_navigation m, rebased) of
            (True, Some n, Some k) \<Rightarrow> Some (n\<lparr>hn_offset_from_newest := k\<rparr>)
          | _ \<Rightarrow> im_navigation m)\<rparr>, stored)))"

definition enqueue_draft :: "input_memory \<Rightarrow> input_memory_error + input_memory \<times> nat" where
  "enqueue_draft m =
     bindR (enqueue_from (im_queue m) (im_composer m)) (\<lambda>(q, c, i).
       Inr (m\<lparr>im_queue := q, im_composer := c, im_navigation := None\<rparr>, i))"

end
