(* ===== verification/Composer_Proofs.thy ===== *)
theory Composer_Proofs
  imports Composer
begin

text \<open>
  The assertions of the composer never fail: after every operation the text and the undo payload
  are within their limits, the cursor stands between two grapheme clusters, and undoing the last
  edit gives the text and the cursor it was made on.
\<close>

section \<open>Boundaries\<close>

text \<open>
  What the segmentation of Unicode Standard Annex 29 guarantees: the clusters are a partition of the text
  into non-empty pieces that start at characters, and cutting the text at a boundary changes none
  of the other boundaries.
\<close>

definition starts_char :: "string \<Rightarrow> bool" where
  "starts_char s = (s = [] \<or> \<not> is_continuation (hd s))"

definition segmentation_ok :: "text_metrics \<Rightarrow> bool" where
  "segmentation_ok M =
     (\<forall>s. concat (tm_graphemes M s) = s \<and> (\<forall>g\<in>set (tm_graphemes M s). g \<noteq> []) \<and> (\<forall>g\<in>set (tl (tm_graphemes M s)). starts_char g)
       \<and> (\<forall>k. is_grapheme_boundary M s k \<longrightarrow> tm_graphemes M s = tm_graphemes M (take k s) @ tm_graphemes M (drop k s)))"

definition between :: "text_metrics \<Rightarrow> string \<Rightarrow> nat \<Rightarrow> bool" where
  "between M s k = (\<exists>us vs. tm_graphemes M s = us @ vs \<and> k = length (concat us))"

lemma indexed_nth: "(k, g) \<in> set (indexed n gs) \<longleftrightarrow> (\<exists>us vs. gs = us @ g # vs \<and> k = n + length (concat us))"
proof (induction gs arbitrary: n)
  case (Cons h gs)
  show ?case
  proof
    assume "(k, g) \<in> set (indexed n (h # gs))"
    then consider "k = n" "g = h" | "(k, g) \<in> set (indexed (n + length h) gs)" by auto
    then show "\<exists>us vs. h # gs = us @ g # vs \<and> k = n + length (concat us)"
    proof cases
      case 1
      then show ?thesis by (intro exI[of _ "[]"] exI[of _ gs]) simp
    next
      case 2
      then obtain us vs where "gs = us @ g # vs" "k = n + length h + length (concat us)" using Cons by blast
      then show ?thesis by (intro exI[of _ "h # us"] exI[of _ vs]) simp
    qed
  next
    assume "\<exists>us vs. h # gs = us @ g # vs \<and> k = n + length (concat us)"
    then obtain us vs where u: "h # gs = us @ g # vs" "k = n + length (concat us)" by blast
    show "(k, g) \<in> set (indexed n (h # gs))"
    proof (cases us)
      case (Cons x ys)
      then have "gs = ys @ g # vs" "k = n + length h + length (concat ys)" using u by auto
      then have "(k, g) \<in> set (indexed (n + length h) gs)" using Cons.IH by blast
      then show ?thesis by simp
    qed (use u in simp)
  qed
qed simp

lemma seg_concat:
  assumes ok: "segmentation_ok M"
  shows "concat (tm_graphemes M s) = s"
  using ok by (simp add: segmentation_ok_def)

lemma seg_piece: "segmentation_ok M \<Longrightarrow> g \<in> set (tm_graphemes M s) \<Longrightarrow> g \<noteq> []"
  unfolding segmentation_ok_def by blast

lemma seg_char: "segmentation_ok M \<Longrightarrow> g \<in> set (tl (tm_graphemes M s)) \<Longrightarrow> starts_char g"
  unfolding segmentation_ok_def by blast

lemma index_split: "(k, g) \<in> set (grapheme_indices M s) \<longleftrightarrow> (\<exists>us vs. tm_graphemes M s = us @ g # vs \<and> k = length (concat us))"
  by (simp add: grapheme_indices_def indexed_nth)

lemma boundary_iff:
  assumes ok: "segmentation_ok M"
  shows "is_grapheme_boundary M s k \<longleftrightarrow> between M s k"
proof
  assume "is_grapheme_boundary M s k"
  then consider "k = length s" | g where "(k, g) \<in> set (grapheme_indices M s)"
    by (auto simp: is_grapheme_boundary_def list_ex_iff)
  then show "between M s k"
  proof cases
    case 1
    then show ?thesis unfolding between_def using seg_concat[OF ok, of s] by (intro exI[of _ "tm_graphemes M s"] exI[of _ "[]"]) simp
  next
    case 2
    then show ?thesis unfolding between_def index_split by blast
  qed
next
  assume "between M s k"
  then obtain us vs where u: "tm_graphemes M s = us @ vs" "k = length (concat us)" unfolding between_def by blast
  show "is_grapheme_boundary M s k"
  proof (cases vs)
    case Nil
    then show ?thesis using u seg_concat[OF ok, of s] by (simp add: is_grapheme_boundary_def)
  next
    case (Cons g ws)
    then have "(k, g) \<in> set (grapheme_indices M s)" unfolding index_split using u by blast
    then show ?thesis by (auto simp: is_grapheme_boundary_def list_ex_iff)
  qed
qed

lemma between_0 [simp]: "between M s 0"
  unfolding between_def by (rule exI[of _ "[]"]) simp

lemma between_length:
  assumes ok: "segmentation_ok M"
  shows "between M s (length s)"
  using boundary_iff[OF ok, of s "length s"] by (simp add: is_grapheme_boundary_def)

lemma between_le:
  assumes ok: "segmentation_ok M"
  shows "between M s k \<Longrightarrow> k \<le> length s"
  unfolding between_def using seg_concat[OF ok, of s] by (metis concat_append length_append le_add1)

lemma cut:
  assumes ok: "segmentation_ok M"
  shows "between M s k \<Longrightarrow> tm_graphemes M s = tm_graphemes M (take k s) @ tm_graphemes M (drop k s)"
  using ok boundary_iff[OF ok] unfolding segmentation_ok_def by blast

lemma between_take:
  assumes ok: "segmentation_ok M"
  shows "between M s k \<Longrightarrow> between M (take k s) j \<Longrightarrow> between M s j"
  using cut[OF ok, of s k] unfolding between_def by (metis append.assoc)

lemma between_drop:
  assumes ok: "segmentation_ok M" and k: "between M s k" and j: "between M (drop k s) j"
  shows "between M s (k + j)"
proof -
  obtain us vs where "tm_graphemes M (drop k s) = us @ vs" "j = length (concat us)" using j unfolding between_def by blast
  moreover have "length (concat (tm_graphemes M (take k s))) = k" using seg_concat[OF ok] between_le[OF ok k] by simp
  ultimately show ?thesis
    unfolding between_def cut[OF ok k] by (intro exI[of _ "tm_graphemes M (take k s) @ us"] exI[of _ vs]) simp
qed

lemma between_char:
  assumes ok: "segmentation_ok M" and "between M s k"
  shows "is_char_boundary s k"
proof -
  obtain us vs where u: "tm_graphemes M s = us @ vs" "k = length (concat us)" using assms unfolding between_def by blast
  have s: "s = concat us @ concat vs" using seg_concat[OF ok, of s] u(1) by simp
  show ?thesis
  proof (cases vs)
    case Nil
    then show ?thesis using s u(2) by (simp add: is_char_boundary_def)
  next
    case (Cons g ws)
    have g: "g \<noteq> []" by (rule seg_piece[OF ok, of _ s]) (simp add: u(1) Cons)
    show ?thesis
    proof (cases us)
      case Nil
      then show ?thesis using u(2) by (simp add: is_char_boundary_def)
    next
      case (Cons h hs)
      have "g \<in> set (tl (tm_graphemes M s))" using u(1) Cons \<open>vs = g # ws\<close> by simp
      then have "starts_char g" by (rule seg_char[OF ok])
      moreover have "s ! k = hd g" using s u(2) \<open>vs = g # ws\<close> g by (simp add: nth_append hd_conv_nth)
      moreover have "k < length s" using s u(2) \<open>vs = g # ws\<close> g by simp
      ultimately show ?thesis using g by (simp add: is_char_boundary_def starts_char_def)
    qed
  qed
qed

lemma index_between:
  assumes ok: "segmentation_ok M"
  shows "(k, g) \<in> set (grapheme_indices M s) \<Longrightarrow> between M s k \<and> between M s (k + length g) \<and> g \<noteq> []"
proof -
  assume "(k, g) \<in> set (grapheme_indices M s)"
  then obtain us vs where u: "tm_graphemes M s = us @ g # vs" "k = length (concat us)" unfolding index_split by blast
  have "between M s k" unfolding between_def using u by blast
  moreover have "between M s (k + length g)"
    unfolding between_def using u by (intro exI[of _ "us @ [g]"] exI[of _ vs]) simp
  moreover have "g \<noteq> []" by (rule seg_piece[OF ok, of _ s]) (simp add: u(1))
  ultimately show ?thesis by blast
qed

section \<open>Where the cursor goes\<close>

lemma previous_between:
  assumes ok: "segmentation_ok M" and "between M s k" "previous_grapheme M s k = Some (p, g)"
  shows "between M s p" "p < k"
proof -
  have ne: "grapheme_indices M (take k s) \<noteq> []" and l: "last (grapheme_indices M (take k s)) = (p, g)"
    using assms(3) by (auto simp: previous_grapheme_def Let_def split: if_splits)
  have "(p, g) \<in> set (grapheme_indices M (take k s))" using last_in_set[OF ne] l by simp
  from index_between[OF ok this] have p: "between M (take k s) p" "between M (take k s) (p + length g)" "g \<noteq> []" by auto
  show "between M s p" by (rule between_take[OF ok assms(2) p(1)])
  show "p < k" using between_le[OF ok p(2)] p(3) by (cases g) auto
qed

lemma next_end_between:
  assumes ok: "segmentation_ok M" and k: "between M s k" and n: "next_grapheme_end M s k = Some j"
  shows "between M s j" "k < j"
proof -
  obtain g gs where g: "tm_graphemes M (drop k s) = g # gs" "j = k + length g"
    using n by (auto simp: next_grapheme_end_def split: list.splits)
  have "between M (drop k s) (length g)" unfolding between_def using g(1) by (intro exI[of _ "[g]"] exI[of _ gs]) simp
  from between_drop[OF ok k this] show "between M s j" using g(2) by simp
  have "g \<noteq> []" by (rule seg_piece[OF ok, of _ "drop k s"]) (simp add: g(1))
  then show "k < j" using g(2) by (cases g) auto
qed

lemma line_start_between:
  assumes ok: "segmentation_ok M"
  shows "between M s k \<Longrightarrow> between M s (line_start M s k) \<and> line_start M s k \<le> k"
proof -
  assume k: "between M s k"
  show ?thesis
  proof (cases "filter (\<lambda>(_, g). LINE_FEED \<in> set g) (grapheme_indices M (take k s)) = []")
    case False
    obtain p g where l: "last (filter (\<lambda>(_, g). LINE_FEED \<in> set g) (grapheme_indices M (take k s))) = (p, g)" by fastforce
    then have "(p, g) \<in> set (grapheme_indices M (take k s))" using last_in_set[OF False] by auto
    then have b: "between M (take k s) (p + length g)" using index_between[OF ok] by blast
    have "p + length g \<le> k" using between_le[OF ok b] by simp
    then show ?thesis using between_take[OF ok k b] l False by (simp add: line_start_def)
  qed (simp add: line_start_def between_0)
qed

lemma line_end_between:
  assumes ok: "segmentation_ok M"
  shows "between M s k \<Longrightarrow> between M s (line_end M s k) \<and> k \<le> line_end M s k"
proof -
  assume k: "between M s k"
  show ?thesis
  proof (cases "List.find (\<lambda>(_, g). LINE_FEED \<in> set g) (grapheme_indices M (drop k s))")
    case None
    then show ?thesis using between_le[OF ok k] between_length[OF ok] by (simp add: line_end_def)
  next
    case (Some a)
    obtain p g where a: "a = (p, g)" by fastforce
    then have "(p, g) \<in> set (grapheme_indices M (drop k s))" using find_split_list[OF Some] by auto
    then have "between M (drop k s) p" using index_between[OF ok] by blast
    then show ?thesis using between_drop[OF ok k] Some a by (simp add: line_end_def)
  qed
qed

lemma at_or_after_between:
  assumes ok: "segmentation_ok M"
  shows "between M s (boundary_at_or_after M s k)"
proof (cases "List.find (\<lambda>(boundary, _). boundary \<ge> k) (grapheme_indices M s)")
  case (Some a)
  obtain p g where a: "a = (p, g)" by fastforce
  then have "(p, g) \<in> set (grapheme_indices M s)" using find_split_list[OF Some] by auto
  then have "between M s p" using index_between[OF ok] by blast
  then show ?thesis using Some a between_length[OF ok] by (simp add: boundary_at_or_after_def)
qed (simp add: boundary_at_or_after_def between_length[OF ok])

lemma closest_loop_between:
  assumes "\<And>p g. (p, g) \<in> set gs \<Longrightarrow> between M s (p + length g)" and "\<And>d c b. best = Some (d, c, b) \<Longrightarrow> between M s b"
    and "closest_loop M row preferred width pos best gs = Some (d, c, b)"
  shows "between M s b"
  using assms
proof (induction M row preferred width pos best gs rule: closest_loop.induct)
  case (2 M' row preferred width pos best start g gs)
  then show ?case
    by (auto simp: Let_def candidate_at_def split: if_splits option.splits)
qed simp

lemma closest_between:
  assumes ok: "segmentation_ok M"
  shows "closest_boundary_on_row M s row preferred width = Some b \<Longrightarrow> between M s b"
proof -
  assume "closest_boundary_on_row M s row preferred width = Some b"
  then obtain d c where l: "closest_loop M row preferred width origin
      (if cp_logical_row origin = row then Some (candidate_at preferred origin 0) else None) (grapheme_indices M s) = Some (d, c, b)"
    by (auto simp: closest_boundary_on_row_def)
  show ?thesis
  proof (rule closest_loop_between[OF _ _ l])
    show "between M s (p + length g)" if "(p, g) \<in> set (grapheme_indices M s)" for p g
      using index_between[OF ok that] by blast
    show "between M s b'" if "(if cp_logical_row origin = row then Some (candidate_at preferred origin 0) else None) = Some (d', c', b')"
      for d' c' b' using that by (auto simp: candidate_at_def split: if_splits)
  qed
qed

lemma back_while_between:
  assumes ok: "segmentation_ok M"
  shows "between M s k \<Longrightarrow> between M s (back_while M P s k) \<and> back_while M P s k \<le> k"
proof (induction k rule: less_induct)
  case (less k)
  show ?case
  proof (cases "previous_grapheme M s k")
    case None
    then show ?thesis using less(2) by (simp add: back_while.simps[of M P s k])
  next
    case (Some a)
    obtain p g where a: "a = (p, g)" by fastforce
    then have p: "between M s p" "p < k" using previous_between[OF ok less(2)] Some by auto
    then show ?thesis using less(1)[OF p(2) p(1)] less(2) Some a by (auto simp: back_while.simps[of M P s k])
  qed
qed


section \<open>The invariant\<close>

text \<open>Undoing the newest record, then the one before it, and so on, always meets a sound text.\<close>

fun undo_ok :: "text_metrics \<Rightarrow> string \<Rightarrow> undo_record list \<Rightarrow> bool" where
  "undo_ok M text [] = True"
| "undo_ok M text (r # rs) =
     (let stop = ur_start r + ur_inserted_bytes r; before = replace_range (ur_start r) stop (ur_deleted r) text in
      stop \<le> length text \<and> is_char_boundary text (ur_start r) \<and> is_char_boundary text stop
      \<and> length before \<le> MAX_PROMPT_BYTES \<and> starts_char before \<and> between M before (ur_cursor_before r) \<and> undo_ok M before rs)"

definition payload :: "undo_record list \<Rightarrow> nat" where
  "payload rs = sum_list (map (\<lambda>r. length (ur_deleted r)) rs)"

definition composer_ok :: "text_metrics \<Rightarrow> composer \<Rightarrow> bool" where
  "composer_ok M c =
     (length (co_text c) \<le> MAX_PROMPT_BYTES \<and> starts_char (co_text c) \<and> between M (co_text c) (co_cursor c)
      \<and> length (co_undo c) \<le> MAX_UNDO_RECORDS \<and> co_undo_payload_bytes c \<le> MAX_UNDO_PAYLOAD_BYTES
      \<and> co_undo_payload_bytes c = payload (co_undo c)
      \<and> length (co_yank c) \<le> MAX_YANK_BYTES \<and> starts_char (co_yank c)
      \<and> undo_ok M (co_text c) (rev (co_undo c)))"

lemma composer_ok_invariants:
  assumes "segmentation_ok M" "composer_ok M c"
  shows "invariants_hold M c"
  using assms between_le[OF assms(1)] between_char[OF assms(1)] boundary_iff[OF assms(1)]
  by (auto simp: invariants_hold_def composer_ok_def payload_def)

lemma composer_default_ok: "composer_ok M composer_default"
  by (simp add: composer_ok_def composer_default_def starts_char_def payload_def between_0)

lemma undo_ok_append: "undo_ok M s (rs @ rs') \<Longrightarrow> undo_ok M s rs"
  by (induction rs arbitrary: s) (auto simp: Let_def)

lemma char_boundary_at: "is_char_boundary s k \<Longrightarrow> 0 < k \<Longrightarrow> k < length s \<Longrightarrow> \<not> is_continuation (s ! k)"
  by (auto simp: is_char_boundary_def)

lemma starts_drop: "starts_char s \<Longrightarrow> is_char_boundary s k \<Longrightarrow> starts_char (drop k s)"
  by (cases "k = 0"; cases "k < length s") (auto simp: starts_char_def is_char_boundary_def hd_drop_conv_nth)

lemma starts_take: "starts_char s \<Longrightarrow> starts_char (take k s)"
  by (cases k; cases s) (auto simp: starts_char_def)

lemma starts_char_append: "starts_char a \<Longrightarrow> starts_char b \<Longrightarrow> starts_char (a @ b)"
  by (cases a) (auto simp: starts_char_def)

lemma starts_boundary: "starts_char b \<Longrightarrow> is_char_boundary (a @ b) (length a)"
  by (cases b) (auto simp: starts_char_def is_char_boundary_def nth_append)

lemma starts_slice: "starts_char s \<Longrightarrow> is_char_boundary s start \<Longrightarrow> start \<le> stop \<Longrightarrow> starts_char (slice start stop s)"
  using starts_take[OF starts_drop, of s start "stop - start"] by (simp add: slice_def drop_take)

lemma edit_undone:
  assumes "start \<le> stop" "stop \<le> length s"
  shows "replace_range start (start + length r) (slice start stop s) (replace_range start stop r s) = s"
proof -
  have l: "length (take start s) = start" using assms by simp
  have "s = take start s @ slice start stop s @ drop stop s"
    using assms by (simp add: slice_def)
      (metis append_take_drop_id append.assoc drop_take le_add_diff_inverse take_add)
  then show ?thesis
    using assms by (simp add: replace_range_def l)
qed

lemma evict_ok:
  assumes "evict_loop rs n = Inr (rs', n')" and "n = payload rs + k"
  shows "(\<exists>old. rs = old @ rs') \<and> length rs' < MAX_UNDO_RECORDS \<and> n' \<le> MAX_UNDO_PAYLOAD_BYTES \<and> n' = payload rs' + k"
  using assms
proof (induction rs n rule: evict_loop.induct)
  case (1 rs n)
  show ?case
  proof (cases "length rs < MAX_UNDO_RECORDS \<and> n \<le> MAX_UNDO_PAYLOAD_BYTES")
    case True
    then have "rs' = rs" "n' = n" using 1(2) by (simp_all add: evict_loop.simps[of rs n])
    then show ?thesis using True 1(3) by simp
  next
    case False
    show ?thesis
    proof (cases rs)
      case Nil
      then show ?thesis using False 1(2) by (auto simp: evict_loop.simps[of "[]" n])
    next
      case (Cons old rest)
      obtain b where b: "checked_sub_u64 n (length (ur_deleted old)) = Some b" "evict_loop rest b = Inr (rs', n')"
        using 1(2) False unfolding Cons by (auto simp: evict_loop.simps[of "old # rest" n] result_simps split: option.splits if_splits)
      have "b = payload rest + k" using b(1) 1(3) Cons by (auto simp: checked_simps payload_def)
      from 1(1)[OF False Cons _ b(2) this] b(1) show ?thesis using Cons by auto
    qed
  qed
qed

text \<open>Eviction always succeeds: an empty list of records is within the limits.\<close>

lemma evict_total:
  assumes "n = payload rs + k" "k \<le> MAX_UNDO_PAYLOAD_BYTES"
  shows "\<exists>x. evict_loop rs n = Inr x"
  using assms
proof (induction rs n rule: evict_loop.induct)
  case (1 rs n)
  show ?case
  proof (cases "length rs < MAX_UNDO_RECORDS \<and> n \<le> MAX_UNDO_PAYLOAD_BYTES")
    case True
    then show ?thesis by (simp add: evict_loop.simps[of rs n])
  next
    case False
    then obtain old rest where Cons: "rs = old # rest"
      using 1(2,3) by (cases rs) (auto simp: payload_def MAX_UNDO_RECORDS_def)
    have "checked_sub_u64 n (length (ur_deleted old)) = Some (payload rest + k)"
      using 1(2) Cons by (simp add: checked_sub_u64_def payload_def)
    with 1(1)[OF False Cons, of "payload rest + k"] 1(3) False Cons show ?thesis
      by (auto simp: evict_loop.simps[of "old # rest" n])
  qed
qed

lemma apply_edit_ok:
  assumes M: "segmentation_ok M" and c: "composer_ok M c" and r: "starts_char r"
    and e: "apply_edit M c start stop r y = Inr c'"
  shows "composer_ok M c'"
    and "co_content_revision c' + 1 < U64_LIMIT \<Longrightarrow>
           \<exists>d. undo c' = Inr (d, True) \<and> co_text d = co_text c \<and> co_cursor d = co_cursor c"
proof -
  define s where "s = co_text c"
  define t where "t = replace_range start stop r s"
  define deleted where "deleted = slice start stop s"
  have b: "start \<le> stop" "stop \<le> length s" "is_char_boundary s start" "is_char_boundary s stop"
    using e by (auto simp: apply_edit_def Let_def s_def split: if_splits)
  obtain n bytes records undo_bytes where n: "n \<le> MAX_PROMPT_BYTES" "n = length s - (stop - start) + length r"
    and y: "y \<longrightarrow> length deleted \<le> MAX_YANK_BYTES"
    and bytes: "bytes = co_undo_payload_bytes c + length deleted" "evict_loop (co_undo c) bytes = Inr (records, undo_bytes)"
    and c': "c' = \<lparr>co_text = t, co_cursor = boundary_at_or_after M t (start + length r),
                 co_content_revision = co_content_revision c + 1, co_preferred_column = None,
                 co_undo = records @ [\<lparr>ur_start = start, ur_inserted_bytes = length r, ur_deleted = deleted,
                    ur_cursor_before = co_cursor c\<rparr>],
                 co_undo_payload_bytes = undo_bytes, co_yank = (if y then deleted else co_yank c)\<rparr>"
    using e unfolding apply_edit_def Let_def next_revision_def s_def t_def deleted_def
    by (auto simp: result_simps checked_simps bind_eq_Some_conv split: if_splits)
  have s: "length s \<le> MAX_PROMPT_BYTES" "starts_char s" "between M s (co_cursor c)" "undo_ok M s (rev (co_undo c))"
    "co_undo_payload_bytes c = payload (co_undo c)"
    using c by (simp_all add: composer_ok_def s_def)
  obtain old where ev: "co_undo c = old @ records" "length records < MAX_UNDO_RECORDS" "undo_bytes \<le> MAX_UNDO_PAYLOAD_BYTES"
    "undo_bytes = payload records + length deleted"
    using evict_ok[OF bytes(2)] bytes(1) s(5) by auto
  have len: "length t = n" using b n(2) by (simp add: t_def replace_range_def)
  have restored: "replace_range start (start + length r) deleted t = s"
    using edit_undone[OF b(1,2)] by (simp add: t_def deleted_def)
  have t: "t = take start s @ r @ drop stop s" by (simp add: t_def replace_range_def)
  have rd: "starts_char (r @ drop stop s)" by (rule starts_char_append[OF r starts_drop[OF s(2) b(4)]])
  have st: "starts_char t" unfolding t by (rule starts_char_append[OF starts_take[OF s(2)] rd])
  have cb: "is_char_boundary t start" "is_char_boundary t (start + length r)"
    using starts_boundary[OF rd, of "take start s"] starts_boundary[OF starts_drop[OF s(2) b(4)], of "take start s @ r"] b(1,2)
    by (simp_all add: t)
  have "undo_ok M s (rev records)"
    using s(4) undo_ok_append[of M s "rev records" "rev old"] ev(1) by simp
  then have un: "undo_ok M t (rev (records @ [\<lparr>ur_start = start, ur_inserted_bytes = length r, ur_deleted = deleted,
                    ur_cursor_before = co_cursor c\<rparr>]))"
    using restored cb s(1,2,3) b(1,2) by (simp add: Let_def t)
  have "starts_char deleted" unfolding deleted_def by (rule starts_slice[OF s(2) b(3,1)])
  moreover have "length (co_yank c) \<le> MAX_YANK_BYTES" "starts_char (co_yank c)" using c by (simp_all add: composer_ok_def)
  ultimately show "composer_ok M c'"
    using un st len n(1) ev y at_or_after_between[OF M]
    by (auto simp: composer_ok_def c' payload_def)
  show "\<exists>d. undo c' = Inr (d, True) \<and> co_text d = co_text c \<and> co_cursor d = co_cursor c"
    if "co_content_revision c' + 1 < U64_LIMIT"
  proof -
    have l: "start + length r \<le> length t" using b(1,2) by (simp add: t)
    have "length t < U64_LIMIT" using len n(1) by (simp add: MAX_PROMPT_BYTES_def U64_LIMIT_def)
    moreover have "length t - length r + length deleted = length s" using b by (simp add: t deleted_def slice_def)
    moreover have "length s < U64_LIMIT" using s(1) by (simp add: MAX_PROMPT_BYTES_def U64_LIMIT_def)
    ultimately show ?thesis
      using that l cb s(1) restored ev(4)
      by (simp add: undo_def c' Let_def checked_add_u64_def checked_sub_u64_def next_revision_def s_def not_less)
  qed
qed


section \<open>Every operation keeps the invariant\<close>

text \<open>Errors of edits whose range lies between clusters.\<close>

lemma apply_edit_errors:
  assumes M: "segmentation_ok M" and c: "composer_ok M c" and b: "between M (co_text c) start" "between M (co_text c) stop" "start \<le> stop"
    and e: "apply_edit M c start stop r y = Inl e"
  shows "e = ComposerPromptTooLarge \<or> e = ComposerRevisionExhausted"
proof -
  define s where "s = co_text c"
  define deleted where "deleted = slice start stop s"
  have g: "\<not> (start > stop \<or> stop > length s \<or> \<not> is_char_boundary s start \<or> \<not> is_char_boundary s stop
         \<or> \<not> is_grapheme_boundary M s start \<or> \<not> is_grapheme_boundary M s stop)"
    using b between_le[OF M] between_char[OF M] boundary_iff[OF M] by (auto simp: s_def not_less)
  have l: "length deleted \<le> MAX_PROMPT_BYTES" "co_undo_payload_bytes c \<le> MAX_UNDO_PAYLOAD_BYTES" "co_undo_payload_bytes c = payload (co_undo c)"
    using c by (auto simp: composer_ok_def s_def deleted_def slice_def)
  then have "checked_add_u64 (co_undo_payload_bytes c) (length deleted) = Some (payload (co_undo c) + length deleted)"
    by (simp add: checked_add_u64_def MAX_PROMPT_BYTES_def MAX_UNDO_PAYLOAD_BYTES_def U64_LIMIT_def)
  moreover obtain x where "evict_loop (co_undo c) (payload (co_undo c) + length deleted) = Inr x"
    using evict_total[OF refl, of "length deleted" "co_undo c"] l(1) by (auto simp: MAX_PROMPT_BYTES_def MAX_UNDO_PAYLOAD_BYTES_def)
  ultimately show ?thesis
    using e g unfolding apply_edit_def Let_def s_def[symmetric] deleted_def[symmetric] next_revision_def
    by (cases x) (auto simp: bindR_Inl_iff ok_or_def split: if_splits option.splits)
qed

lemma composer_cursor: "composer_ok M c \<Longrightarrow> between M (co_text c) (co_cursor c)"
  by (simp add: composer_ok_def)

lemma cursor_moved: "composer_ok M c \<Longrightarrow> between M (co_text c) k \<Longrightarrow> composer_ok M (c\<lparr>co_cursor := k, co_preferred_column := p\<rparr>)"
  by (simp add: composer_ok_def)

lemma insert_text_ok:
  "segmentation_ok M \<Longrightarrow> composer_ok M c \<Longrightarrow> starts_char t \<Longrightarrow> insert_text M c t = Inr c' \<Longrightarrow> composer_ok M c'"
  using apply_edit_ok(1)[of M c t] by (auto simp: insert_text_def split: if_splits)

lemma insert_text_errors:
  "segmentation_ok M \<Longrightarrow> composer_ok M c \<Longrightarrow> insert_text M c t = Inl e \<Longrightarrow> e = ComposerPromptTooLarge \<or> e = ComposerRevisionExhausted"
  using apply_edit_errors[of M c "co_cursor c" "co_cursor c"] by (auto simp: insert_text_def composer_cursor split: if_splits)

lemma starts_encode: "is_scalar u \<Longrightarrow> starts_char (utf8_encode u)"
  by (auto simp: starts_char_def utf8_encode_def is_continuation_def is_scalar_def Let_def)

lemma starts_normalize: "starts_char s \<Longrightarrow> starts_char (normalize_paste s)"
  by (cases s) (auto simp: starts_char_def is_continuation_def LINE_FEED_def Let_def)

lemma starts_line_feed: "starts_char [LINE_FEED]"
  by (simp add: starts_char_def is_continuation_def LINE_FEED_def)

lemma moves_ok:
  assumes "segmentation_ok M" "composer_ok M c"
  shows "composer_ok M (fst (move_left M c))" "composer_ok M (fst (move_right M c))"
    "composer_ok M (fst (move_line_start M c))" "composer_ok M (fst (move_line_end M c))"
    "move_vertical M c width down = Inr (c', b) \<Longrightarrow> composer_ok M c'"
proof -
  note k = composer_cursor[OF assms(2)]
  show "composer_ok M (fst (move_left M c))"
    using previous_between(1)[OF assms(1) k] assms(2)
    by (auto simp: move_left_def previous_grapheme_start_def intro!: cursor_moved split: option.split)
  show "composer_ok M (fst (move_right M c))"
    using next_end_between(1)[OF assms(1) k] assms(2) by (auto simp: move_right_def intro!: cursor_moved split: option.split)
  show "composer_ok M (fst (move_line_start M c))" "composer_ok M (fst (move_line_end M c))"
    using line_start_between[OF assms(1) k] line_end_between[OF assms(1) k] assms(2)
    by (auto simp: move_line_start_def move_line_end_def Let_def intro!: cursor_moved)
  show "move_vertical M c width down = Inr (c', b) \<Longrightarrow> composer_ok M c'"
    using closest_between[OF assms(1), of "co_text c"] assms(2)
    by (auto simp: move_vertical_def Let_def intro!: cursor_moved split: if_splits option.splits)
qed

lemma deletions_ok:
  assumes M: "segmentation_ok M" and c: "composer_ok M c"
    and f: "f \<in> {backspace, delete_forward, erase_word, clear_before_cursor, clear_after_cursor, yank}"
  shows "f M c = Inr (c', b) \<Longrightarrow> composer_ok M c'" "f M c = Inl e \<Longrightarrow> e = ComposerPromptTooLarge \<or> e = ComposerRevisionExhausted"
proof -
  note k = composer_cursor[OF c]
  have e: "starts_char []" by (simp add: starts_char_def)
  have y: "starts_char (co_yank c)" using c by (simp add: composer_ok_def)
  define P where "P r = ((\<forall>c' b. r = Inr (c', b) \<longrightarrow> composer_ok M c') \<and> (\<forall>e. r = Inl e \<longrightarrow> e = ComposerPromptTooLarge \<or> e = ComposerRevisionExhausted))"
    for r :: "composer_error + composer \<times> bool"
  have del: "P (edited (apply_edit M c i j [] w))" if "between M (co_text c) i" "between M (co_text c) j" "i \<le> j" for i j w
    using apply_edit_ok(1)[OF M c e] apply_edit_errors[OF M c that] by (auto simp: P_def edited_def result_simps bindR_Inl_iff)
  have same: "P (Inr (c, False))" using c by (simp add: P_def)
  have "P (backspace M c)"
    using del previous_between[OF M k] k same
    by (auto simp: backspace_def previous_grapheme_start_def intro: less_imp_le split: option.split)
  moreover have "P (delete_forward M c)"
    using del next_end_between[OF M k] k same by (auto simp: delete_forward_def intro: less_imp_le split: option.split)
  moreover have "P (erase_word M c)"
  proof -
    define i where "i = back_while M (\<lambda>g. \<not> blank g) (co_text c) (back_while M blank (co_text c) (co_cursor c))"
    have "between M (co_text c) i \<and> i \<le> co_cursor c"
      using back_while_between[OF M k, of blank] back_while_between[OF M] unfolding i_def by (meson order_trans)
    then show ?thesis using del k same by (simp add: erase_word_def Let_def i_def[symmetric])
  qed
  moreover have "P (clear_before_cursor M c)"
    using del line_start_between[OF M k] k same by (simp add: clear_before_cursor_def Let_def)
  moreover have "P (clear_after_cursor M c)"
    using del line_end_between[OF M k] k same by (simp add: clear_after_cursor_def Let_def)
  moreover have "P (yank M c)"
    using insert_text_ok[OF M c y] insert_text_errors[OF M c] same
    by (auto simp: yank_def P_def edited_def result_simps bindR_Inl_iff)
  ultimately have "P (f M c)" using f by auto
  then show "f M c = Inr (c', b) \<Longrightarrow> composer_ok M c'" "f M c = Inl e \<Longrightarrow> e = ComposerPromptTooLarge \<or> e = ComposerRevisionExhausted"
    by (auto simp: P_def)
qed

lemma undo_step:
  assumes c: "composer_ok M c"
  shows "undo c = Inr (c', b) \<Longrightarrow> composer_ok M c'" "undo c = Inl e \<Longrightarrow> e = ComposerRevisionExhausted"
proof -
  define P where "P r = ((\<forall>c' b. r = Inr (c', b) \<longrightarrow> composer_ok M c') \<and> (\<forall>e. r = Inl e \<longrightarrow> e = ComposerRevisionExhausted))"
    for r :: "composer_error + composer \<times> bool"
  have "P (undo c)"
  proof (cases "co_undo c" rule: rev_cases)
    case Nil
    then show ?thesis using c by (simp add: undo_def P_def)
  next
    case (snoc rs r)
    define s where "s = co_text c"
    define stop where "stop = ur_start r + ur_inserted_bytes r"
    define t where "t = replace_range (ur_start r) stop (ur_deleted r) s"
    have u: "stop \<le> length s" "is_char_boundary s (ur_start r)" "is_char_boundary s stop"
      "length t \<le> MAX_PROMPT_BYTES" "starts_char t" "between M t (ur_cursor_before r)" "undo_ok M t (rev rs)"
      using c snoc by (auto simp: composer_ok_def Let_def s_def stop_def t_def)
    have l: "length s \<le> MAX_PROMPT_BYTES" "co_undo_payload_bytes c = payload rs + length (ur_deleted r)" "length rs < MAX_UNDO_RECORDS"
      "co_undo_payload_bytes c \<le> MAX_UNDO_PAYLOAD_BYTES" "length (co_yank c) \<le> MAX_YANK_BYTES" "starts_char (co_yank c)"
      using c snoc by (auto simp: composer_ok_def s_def payload_def)
    have n: "length s - ur_inserted_bytes r + length (ur_deleted r) = length t"
      using u(1) by (simp add: t_def replace_range_def stop_def)
    have big: "MAX_PROMPT_BYTES < U64_LIMIT" by (simp add: MAX_PROMPT_BYTES_def U64_LIMIT_def)
    have a: "checked_add_u64 (ur_start r) (ur_inserted_bytes r) = Some stop"
      using u(1) l(1) big by (simp add: checked_add_u64_def stop_def)
    have d: "Option.bind (checked_sub_u64 (length s) (ur_inserted_bytes r)) (\<lambda>n. checked_add_u64 n (length (ur_deleted r))) = Some (length t)"
      using u(1,4) big n by (simp add: checked_add_u64_def checked_sub_u64_def stop_def)
    have p: "checked_sub_u64 (co_undo_payload_bytes c) (length (ur_deleted r)) = Some (payload rs)"
      using l(2) by (simp add: checked_sub_u64_def)
    have e: "undo c = bindR (next_revision c) (\<lambda>revision.
        Inr (c\<lparr>co_undo := rs, co_undo_payload_bytes := payload rs, co_text := t, co_cursor := ur_cursor_before r,
                co_content_revision := revision, co_preferred_column := None\<rparr>, True))"
      using u(1-4) unfolding undo_def Let_def s_def[symmetric] by (simp add: snoc a d p t_def[symmetric] not_less)
    show ?thesis
      unfolding e P_def next_revision_def using u l
      by (auto simp: result_simps bindR_Inl_iff ok_or_def composer_ok_def split: option.splits)
  qed
  then show "undo c = Inr (c', b) \<Longrightarrow> composer_ok M c'" "undo c = Inl e \<Longrightarrow> e = ComposerRevisionExhausted"
    by (auto simp: P_def)
qed

lemma draft_fits_between: "segmentation_ok M \<Longrightarrow> draft_fits M s k \<Longrightarrow> length s \<le> MAX_PROMPT_BYTES \<and> between M s k"
  using boundary_iff[of M s k] by (simp add: draft_fits_def)

lemma put_draft_ok:
  assumes "segmentation_ok M" "composer_ok M c" "draft_fits M s k" "starts_char s"
  shows "composer_ok M (put_draft c s k n)"
  using draft_fits_between[OF assms(1,3)] assms(2,4) by (simp add: composer_ok_def put_draft_def clear_undo_def payload_def)

lemma empty_draft_fits: "draft_fits M [] 0"
  by (simp add: draft_fits_def is_char_boundary_def is_grapheme_boundary_def)

lemma drafts_ok:
  assumes M: "segmentation_ok M" and c: "composer_ok M c"
  shows "starts_char s \<Longrightarrow> replace_all M c s k = Inr c' \<Longrightarrow> composer_ok M c'"
    "take_draft c = Inr (c', t) \<Longrightarrow> composer_ok M c' \<and> t = co_text c \<and> co_text c' = []"
    "starts_char s \<Longrightarrow> restore_draft M c s k = Inr c' \<Longrightarrow> composer_ok M c'"
    "starts_char s \<Longrightarrow> swap_draft M c s k = Inr (c', t, j) \<Longrightarrow> composer_ok M c' \<and> co_text c' = s \<and> t = co_text c \<and> j = co_cursor c"
  using put_draft_ok[OF M c] put_draft_ok[OF M c empty_draft_fits]
  by (auto simp: replace_all_def take_draft_def restore_draft_def swap_draft_def next_revision_def result_simps put_draft_def clear_undo_def
      starts_char_def split: if_splits)

end
