(* ===== verification/Input_Memory_Proofs.thy ===== *)
theory Input_Memory_Proofs
  imports Input_Memory Composer_Proofs
begin

text \<open>
  Any sequence of the operations a terminal session performs on its prompts keeps them well formed:
  the draft and its undo records, the queue, the history and the saved draft.
\<close>

section \<open>The queue\<close>

definition prompt_ok :: "string \<Rightarrow> bool" where
  "prompt_ok s = (length s \<le> MAX_PROMPT_BYTES \<and> starts_char s)"

definition text_bytes :: "string list \<Rightarrow> nat" where
  "text_bytes ss = sum_list (map length ss)"

lemma text_bytes_simps [simp]:
  "text_bytes [] = 0" "text_bytes (s # ss) = length s + text_bytes ss" "text_bytes (ss @ ts) = text_bytes ss + text_bytes ts"
  by (simp_all add: text_bytes_def)

definition queue_ok :: "prompt_queue \<Rightarrow> bool" where
  "queue_ok q =
     (length (pq_prompts q) \<le> MAX_QUEUE_ITEMS \<and> pq_total_bytes q \<le> MAX_QUEUE_BYTES
      \<and> pq_total_bytes q = text_bytes (map qp_text (pq_prompts q))
      \<and> (\<forall>p\<in>set (pq_prompts q). qp_text p \<noteq> [] \<and> prompt_ok (qp_text p) \<and> qp_id p \<le> pq_next_id q)
      \<and> sorted_wrt (<) (map qp_id (pq_prompts q))
      \<and> (\<forall>i. pq_reserved_front q = Some i \<longrightarrow> front_id q = Some i))"

lemma queue_default_ok: "queue_ok queue_default"
  by (simp add: queue_ok_def queue_default_def)

lemma composer_prompt: "composer_ok M c \<Longrightarrow> prompt_ok (co_text c)"
  by (simp add: composer_ok_def prompt_ok_def)

lemma enqueue_from_ok:
  assumes "segmentation_ok M" "composer_ok M c" "queue_ok q" "enqueue_from q c = Inr (q', c', i)"
  shows "queue_ok q'" "composer_ok M c'" "co_text c' = []"
proof -
  obtain next_total t where n: "next_total = pq_total_bytes q + length (co_text c)" "next_total \<le> MAX_QUEUE_BYTES"
    "co_text c \<noteq> []" "length (pq_prompts q) \<noteq> MAX_QUEUE_ITEMS" "i = pq_next_id q + 1" "take_draft c = Inr (c', t)"
    "q' = q\<lparr>pq_prompts := pq_prompts q @ [\<lparr>qp_id = i, qp_text = t\<rparr>], pq_total_bytes := next_total, pq_next_id := i\<rparr>"
    using assms(4) by (auto simp: enqueue_from_def Let_def result_simps checked_simps split: if_splits)
  note t = drafts_ok(2)[OF assms(1,2) n(6)]
  show "composer_ok M c'" "co_text c' = []" using t by simp_all
  have "front_id q' = (if pq_prompts q = [] then Some i else front_id q)"
    by (simp add: front_id_def n(7) split: list.splits)
  then show "queue_ok q'"
    using assms(3) n t composer_prompt[OF assms(2)]
    by (auto simp: queue_ok_def sorted_wrt_append front_id_def split: list.splits)
qed

lemma reserve_front_ok: "queue_ok q \<Longrightarrow> reserve_front q = Inr (q', p) \<Longrightarrow> queue_ok q'"
  by (auto simp: queue_ok_def reserve_front_def front_id_def split: if_splits list.splits)

lemma release_reserved_ok: "queue_ok q \<Longrightarrow> release_reserved q i = Inr q' \<Longrightarrow> queue_ok q'"
  by (auto simp: queue_ok_def release_reserved_def split: if_splits)

lemma commit_reserved_ok: "queue_ok q \<Longrightarrow> commit_reserved q i = Inr (q', p) \<Longrightarrow> queue_ok q'"
  by (auto simp: queue_ok_def commit_reserved_def result_simps checked_simps split: if_splits list.splits)

lemma butlast_bytes: "ps \<noteq> [] \<Longrightarrow> text_bytes (map qp_text ps) = text_bytes (map qp_text (butlast ps)) + length (qp_text (last ps))"
  by (induction ps rule: rev_induct) simp_all

lemma recall_latest_ok:
  assumes M: "segmentation_ok M" and c: "composer_ok M c" and q: "queue_ok q" and r: "recall_latest M q c = Inr ((q', c'), b)"
  shows "queue_ok q' \<and> composer_ok M c'"
proof (cases "q' = q \<and> c' = c")
  case False
  obtain ps latest where ps: "pq_prompts q = ps @ [latest]"
    using r False by (cases "pq_prompts q" rule: rev_cases) (auto simp: recall_latest_def)
  obtain draft k where d: "pq_reserved_front q \<noteq> Some (qp_id latest)"
    "swap_draft M c (qp_text latest) (length (qp_text latest)) = Inr (c', draft, k)"
    "length (qp_text latest) \<le> pq_total_bytes q"
    "pq_total_bytes q - length (qp_text latest) + length (co_text c) \<le> MAX_QUEUE_BYTES"
    "q' = q\<lparr>pq_prompts := ps @ (if draft = [] then [] else [\<lparr>qp_id = qp_id latest, qp_text = draft\<rparr>]),
            pq_total_bytes := pq_total_bytes q - length (qp_text latest) + length (co_text c)\<rparr>"
    using r False by (auto simp: recall_latest_def ps Let_def result_simps checked_simps split: if_splits)
  have l: "starts_char (qp_text latest)" using q by (simp add: queue_ok_def ps prompt_ok_def)
  note s = drafts_ok(4)[OF M c l d(2)]
  have "ps \<noteq> [] \<or> pq_reserved_front q = None" using q d(1)
    by (cases ps; cases "pq_reserved_front q") (auto simp: queue_ok_def ps front_id_def)
  then have "\<forall>i. pq_reserved_front q = Some i \<longrightarrow> front_id q' = Some i"
    using q by (cases ps) (auto simp: queue_ok_def ps front_id_def d(5))
  then have "queue_ok q'"
    using q d(4,5) s composer_prompt[OF c] by (auto simp: queue_ok_def ps sorted_wrt_append)
  then show ?thesis using s by simp
qed (use assms in simp)

section \<open>The history\<close>

definition history_ok :: "prompt_history \<Rightarrow> bool" where
  "history_ok h =
     (length (ph_prompts h) \<le> MAX_HISTORY_ITEMS \<and> ph_total_bytes h \<le> MAX_HISTORY_BYTES
      \<and> ph_total_bytes h = text_bytes (ph_prompts h) \<and> (\<forall>p\<in>set (ph_prompts h). prompt_ok p))"

lemma history_default_ok: "history_ok history_default"
  by (simp add: history_ok_def history_default_def)

lemma evict_history_ok:
  assumes "evict_history ps n = Inr (ps', n')" "n = text_bytes ps + k"
  shows "(\<exists>old. ps = old @ ps') \<and> length ps' < MAX_HISTORY_ITEMS \<and> n' \<le> MAX_HISTORY_BYTES \<and> n' = text_bytes ps' + k"
  using assms
proof (induction ps n rule: evict_history.induct)
  case (1 ps n)
  show ?case
  proof (cases "length ps < MAX_HISTORY_ITEMS \<and> n \<le> MAX_HISTORY_BYTES")
    case True
    then have "ps' = ps" "n' = n" using 1(2) by (simp_all add: evict_history.simps[of ps n])
    then show ?thesis using True 1(3) by simp
  next
    case False
    show ?thesis
    proof (cases ps)
      case Nil
      then show ?thesis using False 1(2) by (auto simp: evict_history.simps[of "[]" n])
    next
      case (Cons old rest)
      obtain b where b: "checked_sub_u64 n (length old) = Some b" "evict_history rest b = Inr (ps', n')"
        using 1(2) False unfolding Cons by (auto simp: evict_history.simps[of "old # rest" n] result_simps split: option.splits if_splits)
      have "b = text_bytes rest + k" using b(1) 1(3) Cons by (auto simp: checked_simps)
      from 1(1)[OF False Cons _ b(2) this] b(1) show ?thesis using Cons by auto
    qed
  qed
qed

lemma record_committed_ok:
  assumes "history_ok h" "starts_char p" "record_committed h p = Inr (h', b)"
  shows "history_ok h'"
proof (cases "length p > MAX_PROMPT_BYTES")
  case True
  then show ?thesis using assms by (auto simp: record_committed_def history_ok_def)
next
  case False
  then obtain ps n where e: "evict_history (ph_prompts h) (ph_total_bytes h + length p) = Inr (ps, n)"
    "ph_prompts h' = ps @ [p]" "ph_total_bytes h' = n"
    using assms(3) by (auto simp: record_committed_def result_simps checked_simps split: if_splits)
  from evict_history_ok[OF e(1), of "length p"] assms(1) obtain old where
    "ph_prompts h = old @ ps" "length ps < MAX_HISTORY_ITEMS" "n \<le> MAX_HISTORY_BYTES" "n = text_bytes ps + length p"
    by (auto simp: history_ok_def)
  then show ?thesis using assms(1,2) e False by (auto simp: history_ok_def prompt_ok_def)
qed

lemma newest_at_prompt: "history_ok h \<Longrightarrow> newest_at h k = Some s \<Longrightarrow> prompt_ok s"
  by (auto simp: newest_at_def history_ok_def bind_eq_Some_conv split: if_splits)

section \<open>The whole\<close>

definition navigation_ok :: "text_metrics \<Rightarrow> history_navigation \<Rightarrow> bool" where
  "navigation_ok M n = (starts_char (hn_saved_draft n) \<and> draft_fits M (hn_saved_draft n) (hn_saved_cursor n))"

definition input_ok :: "text_metrics \<Rightarrow> input_memory \<Rightarrow> bool" where
  "input_ok M m =
     (composer_ok M (im_composer m) \<and> queue_ok (im_queue m) \<and> history_ok (im_history m)
      \<and> (\<forall>n. im_navigation m = Some n \<longrightarrow> navigation_ok M n))"

lemma input_default_ok: "input_ok M input_default"
  by (simp add: input_ok_def input_default_def composer_default_ok queue_default_ok history_default_ok)

text \<open>What the keys of a session and the settling of its turns do with the prompts.\<close>

datatype input_op =
    TypeChar nat | TypeText string | PasteText string | TypeNewline
  | MoveLeft | MoveRight | MoveLineStart | MoveLineEnd | MoveUp nat | MoveDown nat
  | EraseBackward | EraseForward | EraseWord | ClearBefore | ClearAfter | YankBack | UndoEdit
  | TakeDraft | RestoreDraft string nat | CommitHuman string
  | ReserveFront | ReleaseReserved nat | CommitReserved nat
  | HistoryPrevious | HistoryNext | ReverseSearch | EnqueueDraft | RecallLatest

text \<open>What the types \<open>char\<close> and \<open>str\<close> promise of an argument.\<close>

fun op_ok :: "input_op \<Rightarrow> bool" where
  "op_ok (TypeChar u) = is_scalar u"
| "op_ok (TypeText s) = starts_char s"
| "op_ok (PasteText s) = starts_char s"
| "op_ok (RestoreDraft s k) = starts_char s"
| "op_ok (CommitHuman s) = starts_char s"
| "op_ok _ = True"

definition settled :: "input_memory \<Rightarrow> 'e + input_memory \<Rightarrow> input_memory" where
  "settled m r = (case r of Inl _ \<Rightarrow> m | Inr m' \<Rightarrow> m')"

definition settled_with :: "input_memory \<Rightarrow> 'e + input_memory \<times> 'a \<Rightarrow> input_memory" where
  "settled_with m r = (case r of Inl _ \<Rightarrow> m | Inr (m', _) \<Rightarrow> m')"

fun input_after :: "text_metrics \<Rightarrow> input_op \<Rightarrow> input_memory \<Rightarrow> input_memory" where
  "input_after M (TypeChar u) m = settled m (im_insert_char M m u)"
| "input_after M (TypeText s) m = settled m (im_insert_text M m s)"
| "input_after M (PasteText s) m = settled m (im_insert_paste M m s)"
| "input_after M TypeNewline m = settled m (im_insert_newline M m)"
| "input_after M MoveLeft m = fst (im_move (move_left M) m)"
| "input_after M MoveRight m = fst (im_move (move_right M) m)"
| "input_after M MoveLineStart m = fst (im_move (move_line_start M) m)"
| "input_after M MoveLineEnd m = fst (im_move (move_line_end M) m)"
| "input_after M (MoveUp width) m = settled_with m (move_up_or_history M m width)"
| "input_after M (MoveDown width) m = settled_with m (move_down_or_history M m width)"
| "input_after M EraseBackward m = settled_with m (im_edit (backspace M) m)"
| "input_after M EraseForward m = settled_with m (im_edit (delete_forward M) m)"
| "input_after M EraseWord m = settled_with m (im_edit (erase_word M) m)"
| "input_after M ClearBefore m = settled_with m (im_edit (clear_before_cursor M) m)"
| "input_after M ClearAfter m = settled_with m (im_edit (clear_after_cursor M) m)"
| "input_after M YankBack m = settled_with m (im_edit (yank M) m)"
| "input_after M UndoEdit m = settled_with m (im_edit undo m)"
| "input_after M TakeDraft m = settled_with m (take_draft_for_turn m)"
| "input_after M (RestoreDraft s k) m = settled m (restore_uncommitted_draft M m s k)"
| "input_after M (CommitHuman s) m = settled_with m (record_committed_human m s)"
| "input_after M ReserveFront m = settled_with m (bindR (reserve_front (im_queue m)) (\<lambda>(q, p). Inr (m\<lparr>im_queue := q\<rparr>, p)))"
| "input_after M (ReleaseReserved i) m = settled m (bindR (release_reserved (im_queue m) i) (\<lambda>q. Inr (m\<lparr>im_queue := q\<rparr>)))"
| "input_after M (CommitReserved i) m = settled_with m (bindR (commit_reserved (im_queue m) i) (\<lambda>(q, p). Inr (m\<lparr>im_queue := q\<rparr>, p)))"
| "input_after M HistoryPrevious m = settled_with m (history_previous M m)"
| "input_after M HistoryNext m = settled_with m (history_next M m)"
| "input_after M ReverseSearch m = settled_with m (reverse_search_previous M m)"
| "input_after M EnqueueDraft m = settled_with m (enqueue_draft m)"
| "input_after M RecallLatest m = settled_with m (im_recall_latest_queue M m)"

lemma settled_ok: "input_ok M m \<Longrightarrow> (\<And>m'. r = Inr m' \<Longrightarrow> input_ok M m') \<Longrightarrow> input_ok M (settled m r)"
  by (auto simp: settled_def split: sum.split)

lemma settled_with_ok: "input_ok M m \<Longrightarrow> (\<And>m' x. r = Inr (m', x) \<Longrightarrow> input_ok M m') \<Longrightarrow> input_ok M (settled_with m r)"
  by (auto simp: settled_with_def split: sum.split)

lemma from_composer_simps [simp]:
  "from_composer r = Inr c \<longleftrightarrow> r = Inr c" "bindR (from_composer r) f = Inr x \<longleftrightarrow> (\<exists>c. r = Inr c \<and> f c = Inr x)"
  by (cases r; auto simp: from_composer_def result_simps)+

lemma with_composer: "input_ok M m \<Longrightarrow> composer_ok M c \<Longrightarrow> input_ok M (m\<lparr>im_composer := c, im_navigation := n\<rparr>)"
  if "n = None \<or> n = im_navigation m"
  using that by (auto simp: input_ok_def)

lemma with_only_composer: "input_ok M m \<Longrightarrow> composer_ok M c \<Longrightarrow> input_ok M (m\<lparr>im_composer := c\<rparr>)"
  by (simp add: input_ok_def)

lemma im_composer_ok: "input_ok M m \<Longrightarrow> composer_ok M (im_composer m)"
  by (simp add: input_ok_def)

lemma inserted_ok: "input_ok M m \<Longrightarrow> composer_ok M c \<Longrightarrow> input_ok M (after_insert m c)"
  by (auto simp: after_insert_def intro: with_composer with_only_composer)

lemma im_edit_ok:
  "input_ok M m \<Longrightarrow> (\<And>c b. f (im_composer m) = Inr (c, b) \<Longrightarrow> composer_ok M c) \<Longrightarrow> im_edit f m = Inr (m', b) \<Longrightarrow> input_ok M m'"
  by (auto simp: im_edit_def intro!: with_composer)

lemma recall_queue_ok:
  assumes "segmentation_ok M" "input_ok M m" "im_recall_latest_queue M m = Inr (m', b)"
  shows "input_ok M m'"
proof -
  obtain q c where "recall_latest M (im_queue m) (im_composer m) = Inr ((q, c), b)"
    "m' = m\<lparr>im_queue := q, im_composer := c, im_navigation := (if b then None else im_navigation m)\<rparr>"
    using assms(3) by (auto simp: im_recall_latest_queue_def result_simps)
  moreover from this(1) have "queue_ok q \<and> composer_ok M c"
    by (rule recall_latest_ok[OF assms(1), rotated 2]) (use assms(2) in \<open>simp_all add: input_ok_def\<close>)
  ultimately show ?thesis using assms(2) by (simp add: input_ok_def)
qed

lemma show_history_ok:
  assumes M: "segmentation_ok M" and m: "input_ok M m" and t: "prompt_ok t" and s: "show_history M m k t = Inr m'"
  shows "input_ok M m'"
proof -
  obtain c where c: "replace_all M (im_composer m) t (length t) = Inr c"
    and m': "im_composer m' = c" "im_queue m' = im_queue m" "im_history m' = im_history m"
    "im_navigation m' = Some (case im_navigation m of
            Some n \<Rightarrow> n\<lparr>hn_offset_from_newest := k\<rparr>
          | None \<Rightarrow> \<lparr>hn_offset_from_newest = k, hn_saved_draft = co_text (im_composer m),
               hn_saved_cursor = co_cursor (im_composer m)\<rparr>)"
    using s by (auto simp: show_history_def)
  have "composer_ok M c" using drafts_ok(1)[OF M im_composer_ok[OF m] _ c] t by (simp add: prompt_ok_def)
  moreover have "draft_fits M (co_text (im_composer m)) (co_cursor (im_composer m)) \<and> starts_char (co_text (im_composer m))"
    using composer_ok_invariants[OF M im_composer_ok[OF m]] im_composer_ok[OF m]
    by (simp add: invariants_hold_def draft_fits_def composer_ok_def)
  ultimately show ?thesis
    using m m' by (auto simp: input_ok_def navigation_ok_def split: option.splits)
qed

lemma shown_entry_ok:
  "segmentation_ok M \<Longrightarrow> input_ok M m \<Longrightarrow> newest_at (im_history m) j = Some t \<Longrightarrow> show_history M m k t = Inr m' \<Longrightarrow> input_ok M m'"
  by (rule show_history_ok) (auto intro: newest_at_prompt simp: input_ok_def)

lemma history_previous_ok:
  assumes M: "segmentation_ok M" and m: "input_ok M m" and r: "history_previous M m = Inr (m', b)"
  shows "input_ok M m'"
proof (cases "m' = m")
  case False
  then obtain t where "newest_at (im_history m) (next_older m) = Some t" "show_history M m (next_older m) t = Inr m'"
    using r by (auto simp: history_previous_def result_simps split: option.splits)
  with shown_entry_ok[OF M m] show ?thesis by blast
qed (use m in simp)

lemma history_next_ok:
  assumes M: "segmentation_ok M" and m: "input_ok M m" and r: "history_next M m = Inr (m', b)"
  shows "input_ok M m'"
proof (cases "im_navigation m")
  case None
  then show ?thesis using m r by (simp add: history_next_def)
next
  case (Some n)
  show ?thesis
  proof (cases "hn_offset_from_newest n = 0")
    case True
    obtain c d k where c: "swap_draft M (im_composer m) (hn_saved_draft n) (hn_saved_cursor n) = Inr (c, d, k)"
      "m' = m\<lparr>im_composer := c, im_navigation := None\<rparr>"
      using r Some True by (auto simp: history_next_def result_simps)
    have "starts_char (hn_saved_draft n)" using m Some by (simp add: input_ok_def navigation_ok_def)
    from drafts_ok(4)[OF M im_composer_ok[OF m] this c(1)] c(2) m show ?thesis by (auto intro: with_composer)
  next
    case False
    obtain t where "newest_at (im_history m) (hn_offset_from_newest n - 1) = Some t"
      "show_history M m (hn_offset_from_newest n - 1) t = Inr m'"
      using r Some False by (auto simp: history_next_def result_simps)
    with shown_entry_ok[OF M m] show ?thesis by blast
  qed
qed

lemma reverse_search_ok:
  assumes M: "segmentation_ok M" and m: "input_ok M m" and r: "reverse_search_previous M m = Inr (m', b)"
  shows "input_ok M m'"
proof (cases "m' = m")
  case False
  then obtain k t where "newest_at (im_history m) k = Some t" "show_history M m k t = Inr m'"
    using r by (auto simp: reverse_search_previous_def Let_def result_simps split: option.splits)
  with shown_entry_ok[OF M m] show ?thesis by blast
qed (use m in simp)

lemma move_up_ok:
  assumes M: "segmentation_ok M" and m: "input_ok M m" and r: "move_up_or_history M m width = Inr (m', b)"
  shows "input_ok M m'"
proof -
  obtain c moved where c: "move_up M (im_composer m) width = Inr (c, moved)"
    and s: "(if moved then Inr (m\<lparr>im_composer := c\<rparr>, True)
       else if queue_len (im_queue (m\<lparr>im_composer := c\<rparr>)) \<noteq> 0 then im_recall_latest_queue M (m\<lparr>im_composer := c\<rparr>)
       else history_previous M (m\<lparr>im_composer := c\<rparr>)) = Inr (m', b)"
    using r by (auto simp: move_up_or_history_def Let_def)
  have "composer_ok M c" using moves_ok(5)[OF M im_composer_ok[OF m]] c by (simp add: move_up_def)
  note only = with_only_composer[OF m this]
  show ?thesis
  proof (cases "moved \<or> queue_len (im_queue m) = 0")
    case True
    then show ?thesis using s only history_previous_ok[OF M only] by (auto split: if_splits)
  next
    case False
    then have "im_recall_latest_queue M (m\<lparr>im_composer := c\<rparr>) = Inr (m', b)" using s by simp
    then show ?thesis by (rule recall_queue_ok[OF M only])
  qed
qed

lemma move_down_ok:
  assumes M: "segmentation_ok M" and m: "input_ok M m" and r: "move_down_or_history M m width = Inr (m', b)"
  shows "input_ok M m'"
proof -
  obtain c moved where c: "move_down M (im_composer m) width = Inr (c, moved)"
    and s: "(if moved then Inr (m\<lparr>im_composer := c\<rparr>, True) else history_next M (m\<lparr>im_composer := c\<rparr>)) = Inr (m', b)"
    using r by (auto simp: move_down_or_history_def Let_def)
  have "composer_ok M c" using moves_ok(5)[OF M im_composer_ok[OF m]] c by (simp add: move_down_def)
  note only = with_only_composer[OF m this]
  show ?thesis using s only history_next_ok[OF M only] by (auto split: if_splits)
qed

lemma record_human_ok:
  assumes m: "input_ok M m" and p: "starts_char p" and r: "record_committed_human m p = Inr (m', b)"
  shows "input_ok M m'"
proof -
  obtain rebased h where h: "record_committed (im_history m) p = Inr (h, b)"
    and m': "m' = m\<lparr>im_history := h,
         im_navigation := (case (b, im_navigation m, rebased) of
            (True, Some n, Some k) \<Rightarrow> Some (n\<lparr>hn_offset_from_newest := k\<rparr>)
          | _ \<Rightarrow> im_navigation m)\<rparr>"
    using r by (auto simp: record_committed_human_def result_simps)
  from record_committed_ok[OF _ p h] m m' show ?thesis
    by (auto simp: input_ok_def navigation_ok_def split: bool.splits option.splits)
qed

lemma inserts_ok:
  assumes M: "segmentation_ok M" and m: "input_ok M m"
  shows "is_scalar u \<Longrightarrow> im_insert_char M m u = Inr m' \<Longrightarrow> input_ok M m'"
    "starts_char s \<Longrightarrow> im_insert_text M m s = Inr m' \<Longrightarrow> input_ok M m'"
    "starts_char s \<Longrightarrow> im_insert_paste M m s = Inr m' \<Longrightarrow> input_ok M m'"
    "im_insert_newline M m = Inr m' \<Longrightarrow> input_ok M m'"
  using insert_text_ok[OF M im_composer_ok[OF m]] starts_encode starts_normalize starts_line_feed m
  by (auto simp: im_insert_char_def im_insert_text_def im_insert_paste_def im_insert_newline_def insert_char_def insert_paste_def
      insert_newline_def intro!: inserted_ok with_composer)

lemma edits_ok:
  assumes M: "segmentation_ok M" and m: "input_ok M m"
    and f: "f \<in> {backspace, delete_forward, erase_word, clear_before_cursor, clear_after_cursor, yank}"
  shows "im_edit (f M) m = Inr (m', b) \<Longrightarrow> input_ok M m'"
  using deletions_ok(1)[OF M im_composer_ok[OF m] f] im_edit_ok[OF m] by blast

lemma with_only_queue: "input_ok M m \<Longrightarrow> queue_ok q \<Longrightarrow> input_ok M (m\<lparr>im_queue := q\<rparr>)"
  by (simp add: input_ok_def)

lemma im_queue_ok: "input_ok M m \<Longrightarrow> queue_ok (im_queue m)"
  by (simp add: input_ok_def)

lemma queue_steps_ok:
  assumes m: "input_ok M m"
  shows "bindR (reserve_front (im_queue m)) (\<lambda>(q, p). Inr (m\<lparr>im_queue := q\<rparr>, p)) = Inr (m', x) \<Longrightarrow> input_ok M m'"
    "bindR (release_reserved (im_queue m) i) (\<lambda>q. Inr (m\<lparr>im_queue := q\<rparr>)) = (Inr m' :: input_memory_error + input_memory) \<Longrightarrow> input_ok M m'"
    "bindR (commit_reserved (im_queue m) i) (\<lambda>(q, p). Inr (m\<lparr>im_queue := q\<rparr>, p)) = Inr (m', x) \<Longrightarrow> input_ok M m'"
  using reserve_front_ok[OF im_queue_ok[OF m]] release_reserved_ok[OF im_queue_ok[OF m]] commit_reserved_ok[OF im_queue_ok[OF m]]
    with_only_queue[OF m]
  by (auto simp: result_simps)

lemma drafts_steps_ok:
  assumes M: "segmentation_ok M" and m: "input_ok M m"
  shows "take_draft_for_turn m = Inr (m', t) \<Longrightarrow> input_ok M m'"
    "restore_uncommitted_draft M m s k = Inr m' \<Longrightarrow> starts_char s \<Longrightarrow> input_ok M m'"
    "enqueue_draft m = Inr (m', i) \<Longrightarrow> input_ok M m'"
proof -
  note c = im_composer_ok[OF m]
  show "input_ok M m'" if taken: "take_draft_for_turn m = Inr (m', t)"
  proof -
    obtain d where d: "take_draft (im_composer m) = Inr (d, t)" "m' = m\<lparr>im_composer := d, im_navigation := None\<rparr>"
      using taken by (auto simp: take_draft_for_turn_def)
    show ?thesis unfolding d(2) by (rule with_composer[OF disjI1[OF refl] m]) (use drafts_ok(2)[OF M c d(1)] in simp)
  qed
  show "input_ok M m'" if restored: "restore_uncommitted_draft M m s k = Inr m'" and s: "starts_char s"
  proof -
    obtain d where d: "restore_draft M (im_composer m) s k = Inr d" "m' = m\<lparr>im_composer := d\<rparr>"
      using restored by (auto simp: restore_uncommitted_draft_def result_simps)
    show ?thesis unfolding d(2) by (rule with_only_composer[OF m drafts_ok(3)[OF M c s d(1)]])
  qed
  show "input_ok M m'" if queued: "enqueue_draft m = Inr (m', i)"
  proof -
    obtain q d where d: "enqueue_from (im_queue m) (im_composer m) = Inr (q, d, i)"
      "m' = m\<lparr>im_queue := q, im_composer := d, im_navigation := None\<rparr>"
      using queued by (auto simp: enqueue_draft_def result_simps)
    note e = enqueue_from_ok(1,2)[OF M c im_queue_ok[OF m] d(1)]
    show ?thesis using e m unfolding d(2) by (simp add: input_ok_def)
  qed
qed

lemma input_step_ok:
  assumes M: "segmentation_ok M" and m: "input_ok M m" and p: "op_ok op"
  shows "input_ok M (input_after M op m)"
proof -
  note c = im_composer_ok[OF m]
  note moves = moves_ok(1-4)[OF M c]
  show ?thesis
  proof (cases op)
    case (TypeChar u)
    then show ?thesis by (simp only: input_after.simps) (rule settled_ok[OF m], use p TypeChar in \<open>simp add: inserts_ok(1)[OF M m]\<close>)
  next
    case (TypeText s)
    then show ?thesis by (simp only: input_after.simps) (rule settled_ok[OF m], use p TypeText in \<open>simp add: inserts_ok(2)[OF M m]\<close>)
  next
    case (PasteText s)
    then show ?thesis by (simp only: input_after.simps) (rule settled_ok[OF m], use p PasteText in \<open>simp add: inserts_ok(3)[OF M m]\<close>)
  next
    case TypeNewline
    then show ?thesis by (simp only: input_after.simps) (rule settled_ok[OF m], rule inserts_ok(4)[OF M m])
  next
    case MoveLeft
    then show ?thesis using moves(1) by (auto simp: im_move_def split: prod.split intro: with_only_composer[OF m])
  next
    case MoveRight
    then show ?thesis using moves(2) by (auto simp: im_move_def split: prod.split intro: with_only_composer[OF m])
  next
    case MoveLineStart
    then show ?thesis using moves(3) by (auto simp: im_move_def split: prod.split intro: with_only_composer[OF m])
  next
    case MoveLineEnd
    then show ?thesis using moves(4) by (auto simp: im_move_def split: prod.split intro: with_only_composer[OF m])
  next
    case (MoveUp width)
    then show ?thesis by (simp only: input_after.simps) (rule settled_with_ok[OF m], rule move_up_ok[OF M m])
  next
    case (MoveDown width)
    then show ?thesis by (simp only: input_after.simps) (rule settled_with_ok[OF m], rule move_down_ok[OF M m])
  next
    case EraseBackward
    then show ?thesis by (simp only: input_after.simps) (rule settled_with_ok[OF m], rule edits_ok[OF M m, of backspace], simp)
  next
    case EraseForward
    then show ?thesis by (simp only: input_after.simps) (rule settled_with_ok[OF m], rule edits_ok[OF M m, of delete_forward], simp)
  next
    case EraseWord
    then show ?thesis by (simp only: input_after.simps) (rule settled_with_ok[OF m], rule edits_ok[OF M m, of erase_word], simp)
  next
    case ClearBefore
    then show ?thesis by (simp only: input_after.simps) (rule settled_with_ok[OF m], rule edits_ok[OF M m, of clear_before_cursor], simp)
  next
    case ClearAfter
    then show ?thesis by (simp only: input_after.simps) (rule settled_with_ok[OF m], rule edits_ok[OF M m, of clear_after_cursor], simp)
  next
    case YankBack
    then show ?thesis by (simp only: input_after.simps) (rule settled_with_ok[OF m], rule edits_ok[OF M m, of yank], simp)
  next
    case UndoEdit
    then show ?thesis by (simp only: input_after.simps) (rule settled_with_ok[OF m], rule im_edit_ok[OF m, of undo], rule undo_step(1)[OF c])
  next
    case TakeDraft
    then show ?thesis by (simp only: input_after.simps) (rule settled_with_ok[OF m], rule drafts_steps_ok(1)[OF M m])
  next
    case (RestoreDraft s k)
    then show ?thesis by (simp only: input_after.simps) (rule settled_ok[OF m], erule drafts_steps_ok(2)[OF M m], use p RestoreDraft in simp)
  next
    case (CommitHuman s)
    then show ?thesis by (simp only: input_after.simps) (rule settled_with_ok[OF m], rule record_human_ok[OF m], use p CommitHuman in simp)
  next
    case ReserveFront
    then show ?thesis by (simp only: input_after.simps) (rule settled_with_ok[OF m], rule queue_steps_ok(1)[OF m])
  next
    case (ReleaseReserved i)
    then show ?thesis by (simp only: input_after.simps) (rule settled_ok[OF m], rule queue_steps_ok(2)[OF m])
  next
    case (CommitReserved i)
    then show ?thesis by (simp only: input_after.simps) (rule settled_with_ok[OF m], rule queue_steps_ok(3)[OF m])
  next
    case HistoryPrevious
    then show ?thesis by (simp only: input_after.simps) (rule settled_with_ok[OF m], rule history_previous_ok[OF M m])
  next
    case HistoryNext
    then show ?thesis by (simp only: input_after.simps) (rule settled_with_ok[OF m], rule history_next_ok[OF M m])
  next
    case ReverseSearch
    then show ?thesis by (simp only: input_after.simps) (rule settled_with_ok[OF m], rule reverse_search_ok[OF M m])
  next
    case EnqueueDraft
    then show ?thesis by (simp only: input_after.simps) (rule settled_with_ok[OF m], rule drafts_steps_ok(3)[OF M m])
  next
    case RecallLatest
    then show ?thesis by (simp only: input_after.simps) (rule settled_with_ok[OF m], rule recall_queue_ok[OF M m])
  qed
qed

section \<open>A session of edits\<close>

lemma session_ok: "segmentation_ok M \<Longrightarrow> list_all op_ok ops \<Longrightarrow> input_ok M m \<Longrightarrow> input_ok M (fold (input_after M) ops m)"
  by (induction ops arbitrary: m) (simp_all add: input_step_ok)

text \<open>One character, one grapheme: a segmentation that satisfies what is asked of the library.\<close>

fun char_pieces :: "string \<Rightarrow> string list" where
  "char_pieces [] = []"
| "char_pieces (c # cs) =
     (case char_pieces cs of [] \<Rightarrow> [[c]] | p # ps \<Rightarrow> if is_continuation (hd p) then (c # p) # ps else [c] # p # ps)"

definition char_metrics :: text_metrics where
  "char_metrics = \<lparr>tm_graphemes = char_pieces, tm_width = length\<rparr>"

lemma pieces_concat: "concat (char_pieces s) = s"
  by (induction s) (auto split: list.splits)

lemma pieces_nonempty: "g \<in> set (char_pieces s) \<Longrightarrow> g \<noteq> []"
  by (induction s arbitrary: g) (auto split: list.splits if_splits)

lemma pieces_start: "g \<in> set (tl (char_pieces s)) \<Longrightarrow> starts_char g"
  by (induction s arbitrary: g) (auto simp: starts_char_def split: list.splits if_splits)

lemma pieces_hd: "char_pieces s = p # ps \<Longrightarrow> hd p = hd s"
  by (cases s) (auto split: list.splits if_splits)

lemma pieces_append: "starts_char b \<Longrightarrow> char_pieces (a @ b) = char_pieces a @ char_pieces b"
proof (induction a)
  case (Cons c a)
  show ?case
  proof (cases "char_pieces a")
    case Nil
    then have a: "a = []" using pieces_concat[of a] by simp
    show ?thesis
      using Cons.prems pieces_hd[of b] pieces_concat[of b] by (auto simp: a starts_char_def split: list.splits)
  qed (use Cons in simp)
qed simp

lemma char_metrics_ok: "segmentation_ok char_metrics"
proof -
  have "char_pieces s = char_pieces (take k s) @ char_pieces (drop k s)" if "is_grapheme_boundary char_metrics s k" for s k
  proof -
    have "starts_char (drop k s) \<or> k = 0"
      using that unfolding is_grapheme_boundary_def list_ex_iff
    proof
      assume "k = length s"
      then show ?thesis by (simp add: starts_char_def)
    next
      assume "\<exists>x\<in>set (grapheme_indices char_metrics s). case x of (boundary, _) \<Rightarrow> boundary = k"
      then obtain g us vs where u: "char_pieces s = us @ g # vs" "k = length (concat us)"
        using index_split[of k _ char_metrics s] by (auto simp: char_metrics_def)
      have "drop k s = g @ concat vs" using pieces_concat[of s] u by (metis append_eq_conv_conj concat.simps(2) concat_append)
      moreover have "starts_char g" if "us \<noteq> []" using pieces_start[of g s] u that by (cases us) auto
      ultimately show ?thesis using u pieces_nonempty[of g s] by (cases us) (auto simp: starts_char_def)
    qed
    then show ?thesis
      using pieces_append[of "drop k s" "take k s"] by (metis append_Nil append_take_drop_id char_pieces.simps(1) take_0 drop_0)
  qed
  then show ?thesis
    using pieces_concat pieces_nonempty pieces_start by (simp add: segmentation_ok_def char_metrics_def)
qed

text \<open>
  C16: Whatever sequence of keys, recalls, walks through the history and settled turns a terminal
  session performs, its prompts stay well formed: the draft and its cursor, the undo records and the
  yanked text keep the checks the code states for them, every undo record applies to the text it will
  meet, the queue and the history are within their limits with exact byte counts, the numbers of the
  queued prompts increase and the reserved one is the front, the saved draft can be restored.  So an
  edit of such a draft fails only when the prompt would grow too large or the revisions are used up,
  never because the state is invalid.
\<close>

theorem input_memory_well_formed:
  assumes "segmentation_ok M" and "list_all op_ok ops"
  shows "input_ok M (fold (input_after M) ops input_default)
     \<and> invariants_hold M (im_composer (fold (input_after M) ops input_default))
     \<and> (\<forall>f\<in>{backspace, delete_forward, erase_word, clear_before_cursor, clear_after_cursor, yank}. \<forall>e.
          f M (im_composer (fold (input_after M) ops input_default)) = Inl e \<longrightarrow> e = ComposerPromptTooLarge \<or> e = ComposerRevisionExhausted)
     \<and> (\<forall>t e. insert_text M (im_composer (fold (input_after M) ops input_default)) t = Inl e
          \<longrightarrow> e = ComposerPromptTooLarge \<or> e = ComposerRevisionExhausted)
     \<and> (\<forall>e. undo (im_composer (fold (input_after M) ops input_default)) = Inl e \<longrightarrow> e = ComposerRevisionExhausted)"
proof -
  have ok: "input_ok M (fold (input_after M) ops input_default)" by (rule session_ok[OF assms input_default_ok])
  note c = im_composer_ok[OF ok]
  show ?thesis
    using ok composer_ok_invariants[OF assms(1) c] deletions_ok(2)[OF assms(1) c] insert_text_errors[OF assms(1) c] undo_step(2)[OF c]
    by blast
qed

lemma input_memory_well_formed_witness:
  "segmentation_ok char_metrics
   \<and> list_all op_ok [TypeChar 104, TypeChar 228, EraseBackward, UndoEdit, EnqueueDraft, TypeText ''later'', RecallLatest]
   \<and> input_ok char_metrics (fold (input_after char_metrics)
        [TypeChar 104, TypeChar 228, EraseBackward, UndoEdit, EnqueueDraft, TypeText ''later'', RecallLatest] input_default)"
proof -
  have "list_all op_ok [TypeChar 104, TypeChar 228, EraseBackward, UndoEdit, EnqueueDraft, TypeText ''later'', RecallLatest]"
    by (simp add: is_scalar_def starts_char_def is_continuation_def)
  then show ?thesis using char_metrics_ok input_memory_well_formed[OF char_metrics_ok] by blast
qed

text \<open>
  C21: In every state of a session, undoing an edit that succeeded gives back the text and the place of
  the cursor from before it, however many records the edit had to evict, as long as a revision is left
  to count the undo.
\<close>

theorem edit_is_undone:
  assumes "segmentation_ok M" and "list_all op_ok ops" and "starts_char replacement"
    and "apply_edit M (im_composer (fold (input_after M) ops input_default)) start stop replacement keep = Inr c"
    and "co_content_revision c + 1 < U64_LIMIT"
  shows "\<exists>d. undo c = Inr (d, True) \<and> composer_ok M d
     \<and> co_text d = co_text (im_composer (fold (input_after M) ops input_default))
     \<and> co_cursor d = co_cursor (im_composer (fold (input_after M) ops input_default))"
proof -
  note c = im_composer_ok[OF session_ok[OF assms(1,2) input_default_ok]]
  obtain d where d: "undo c = Inr (d, True)"
    "co_text d = co_text (im_composer (fold (input_after M) ops input_default))"
    "co_cursor d = co_cursor (im_composer (fold (input_after M) ops input_default))"
    using apply_edit_ok(2)[OF assms(1) c assms(3,4,5)] by blast
  with undo_step(1)[OF apply_edit_ok(1)[OF assms(1) c assms(3,4)] d(1)] show ?thesis by blast
qed

lemma edit_is_undone_witness:
  "\<exists>c d. apply_edit char_metrics (im_composer (fold (input_after char_metrics) [TypeText ''let x''] input_default)) 0 3 ''var'' True = Inr c
     \<and> co_text c = ''var x'' \<and> co_yank c = ''let'' \<and> undo c = Inr (d, True) \<and> co_text d = ''let x'' \<and> co_cursor d = 5"
proof -
  define typed where "typed = \<lparr>co_text = ''let x'', co_cursor = 5, co_content_revision = 1, co_preferred_column = None,
     co_undo = [\<lparr>ur_start = 0, ur_inserted_bytes = 5, ur_deleted = [], ur_cursor_before = 0\<rparr>], co_undo_payload_bytes = 0, co_yank = []\<rparr>"
  define c where "c = \<lparr>co_text = ''var x'', co_cursor = 3, co_content_revision = 2, co_preferred_column = None,
     co_undo = [\<lparr>ur_start = 0, ur_inserted_bytes = 5, ur_deleted = [], ur_cursor_before = 0\<rparr>,
       \<lparr>ur_start = 0, ur_inserted_bytes = 3, ur_deleted = ''let'', ur_cursor_before = 5\<rparr>], co_undo_payload_bytes = 3, co_yank = ''let''\<rparr>"
  note edit_defs = apply_edit_def is_char_boundary_def is_grapheme_boundary_def next_revision_def slice_def
        replace_range_def boundary_at_or_after_def evict_loop.simps[of "[]"] evict_loop.simps[of "_ # _"] checked_add_u64_def
        checked_sub_u64_def U64_LIMIT_def MAX_PROMPT_BYTES_def MAX_UNDO_RECORDS_def MAX_UNDO_PAYLOAD_BYTES_def MAX_YANK_BYTES_def
        grapheme_indices_def char_metrics_def is_continuation_def
  have "insert_text char_metrics composer_default ''let x'' = Inr typed"
    unfolding typed_def by (simp add: insert_text_def composer_default_def edit_defs)
  then have m: "im_composer (fold (input_after char_metrics) [TypeText ''let x''] input_default) = typed"
    by (simp add: input_default_def im_insert_text_def settled_def from_composer_def after_insert_def result_simps)
  have e: "apply_edit char_metrics (im_composer (fold (input_after char_metrics) [TypeText ''let x''] input_default)) 0 3 ''var'' True = Inr c"
    unfolding m typed_def c_def by (simp add: edit_defs Let_def)
  have ops: "list_all op_ok [TypeText ''let x'']" and r: "starts_char ''var''" by (simp_all add: starts_char_def is_continuation_def)
  have "co_content_revision c + 1 < U64_LIMIT" by (simp add: c_def U64_LIMIT_def)
  from edit_is_undone[OF char_metrics_ok ops r e this]
  obtain d where "undo c = Inr (d, True)" "co_text d = ''let x''" "co_cursor d = 5" unfolding m typed_def by auto
  then show ?thesis using e by (auto simp: c_def)
qed

text \<open>
  Committing a prompt moves a walk through the history one entry further from the newest, although the
  history may have dropped its oldest entries; a walk that has left the history is stuck.
\<close>

lemma walk_outside_history:
  assumes "im_navigation m = Some n" and "length (ph_prompts (im_history m)) < hn_offset_from_newest n"
  shows "history_next M m = Inl InputInvalidState"
proof -
  have "newest_at (im_history m) (hn_offset_from_newest n - 1) = None"
    using assms(2) by (cases "hn_offset_from_newest n") (auto simp: newest_at_def checked_sub_u64_def checked_add_u64_def)
  then show ?thesis using assms by (simp add: history_next_def)
qed

lemma commits_leave_walk_behind:
  assumes "im_navigation m = Some n" and "hn_offset_from_newest n = MAX_HISTORY_ITEMS"
    and "history_ok (im_history m)" and "length (ph_prompts (im_history m)) = MAX_HISTORY_ITEMS"
    and "record_committed_human m prompt = Inr (m', True)" and "starts_char prompt"
  shows "history_next M m' = Inl InputInvalidState"
proof -
  obtain h where h: "record_committed (im_history m) prompt = Inr (h, True)" "im_history m' = h"
    "im_navigation m' = Some (n\<lparr>hn_offset_from_newest := MAX_HISTORY_ITEMS + 1\<rparr>)"
    using assms(1,2,5) by (auto simp: record_committed_human_def result_simps checked_simps)
  have "length (ph_prompts h) \<le> MAX_HISTORY_ITEMS"
    using record_committed_ok[OF assms(3,6) h(1)] by (simp add: history_ok_def)
  then show ?thesis using walk_outside_history[OF h(3)] h(2) by simp
qed

end
