(* ===== verification/Spec2Isabelle.thy ===== *)
theory Spec2Isabelle
  imports Sse Key_Decoder Durable_Example Codec_Proofs Recovery Memory_Example Patch_Settlement File_Proofs Provider_Stream_Proofs Input_Memory_Proofs
begin

text \<open>
  A verification library for \<open>dsh-rs\<close>, a coding agent that runs in a terminal.  All file names
  below are relative to \<open>src/\<close> of the repository.

  \<^bold>\<open>The program.\<close>  A user's turn is a sequence of steps.  In each step the agent loop
  (\<open>src/agent/\<close>) sends the conversation to a language model (\<open>src/provider/\<close>), receives the
  answer as a stream of chunks, runs the tools the answer calls (\<open>src/tools/\<close>), and shows what
  happens (\<open>src/tui/\<close>, \<open>src/cli/\<close>).  Everything that happened is an event of an append-only session
  log (\<open>src/session/\<close>), kept in memory or in a durable journal.  One reducer, the projection, checks
  every event against the history and computes from it the conversation the model sees (the
  surface), the open turn and step, the tool calls in flight, the attempt being streamed, the
  compaction under way and the usage.  A writer, a live session, and a reader of an old journal all
  use it, so the log is the only source of truth.

  \<^bold>\<open>Conventions\<close> (theory \<open>Prelude\<close>).  A \<open>Result<T, E>\<close> is \<open>E + T\<close> with \<open>Inl\<close> for \<open>Err\<close>; \<open>bindR\<close> is
  the \<open>?\<close> operator and \<open>try_fold\<close> the loop that stops at the first error.  A \<open>String\<close> is its UTF-8
  bytes.  A \<open>u64\<close> or \<open>usize\<close> is a natural number and every addition, subtraction and multiplication
  that could leave 64 bits is the program's checked or saturating one, written out; an \<open>i64\<close> is an
  integer.  Hash and tree maps are association lists.  A method that mutates \<open>self\<close> returns the new
  state, also when it fails where the caller can still see it.  What the model cannot read is a
  parameter: \<open>externals\<close> holds SHA-256 and the text of floating-point numbers; the JSON parser, derived
  readers of wire structs, the glob and regular-expression matchers, the parser of the \<open>diffy\<close> crate
  and the HTTP-date parser are arguments of the definitions that use them.  The clock, the
  cancellation token (asked by the number of the inquiry) and the answers of the operating system
  and the network are inputs.

  \<^bold>\<open>Values and messages.\<close>  \<open>Json_Value\<close>: the bounded JSON values of \<open>src/json_value.rs\<close>, with
  \<open>json_admission\<close> the exact condition under which one is admitted.  \<open>Utf8\<close>: the decoder of the
  standard library.  \<open>Model_Message\<close>, \<open>Model_Llm\<close>: \<open>src/model/mod.rs\<close>, \<open>message.rs\<close> and \<open>llm.rs\<close>, every
  type with the raw JSON it was read from.  \<open>Stream_Validator\<close>: \<open>src/model/stream.rs\<close>; its acceptance
  is proved equivalent to a grammar on whole sequences.

  \<^bold>\<open>The provider.\<close>  \<open>Sse\<close>: the framing of response bytes, equal to a reference definition on lines
  and independent of how the bytes are cut.  \<open>DeepSeek_Response\<close>: the translation of streamed JSON to
  chunks; \<open>DeepSeek_Proofs\<close> shows that the chunks are a valid stream for \<open>Stream_Validator\<close> and that each
  ended block is the concatenation of its deltas.  \<open>DeepSeek_Failure\<close>: the classification and redaction
  of failures.  \<open>Provider_Stream\<close>: the state machine of one call in \<open>adapter.rs\<close>, over the two theories before
  it; \<open>Provider_Stream_Proofs\<close> shows by an invariant of its turns that it hands on no error and ends with a
  finish chunk, and what happens in the one exception, a \<open>Retry-After\<close> too large for the record of a failure.  \<open>next_item\<close> terminates by the phases, the answers and the items left;
  \<open>stream_items\<close> asks it a number of times, and 4001 requests are enough because a call has at
  most 4000 chunks.

  \<^bold>\<open>Events and their codec.\<close>  \<open>Compaction_Events\<close>, \<open>Session_Events\<close>, \<open>Session_Header\<close>, \<open>Session_Errors\<close>: the event
  vocabulary of \<open>src/session/compaction.rs\<close>, \<open>event.rs\<close> and \<open>error.rs\<close> with its validation.  \<open>Event_Codec\<close>:
  \<open>codec.rs\<close>; \<open>Codec_Proofs\<close> shows kind by kind that what was written is read back.  \<open>Recovery\<close>: the plan
  that closes an interrupted session, and the repair of a torn tail.

  \<^bold>\<open>The projection.\<close>  \<open>Context_Budget\<close>: token estimates and the cut for a compaction.
  \<open>Tool_Result_Pruner\<close>: shortening a tool result.  \<open>Attempt\<close>: the fold of one provider attempt, as a state
  machine in \<open>Attempt_Runs\<close> with its invariant.  \<open>Projection_State\<close>, \<open>Projection_Calls\<close>, \<open>Projection_Compaction\<close>,
  \<open>Projection_Surface\<close> and \<open>Projection\<close> are \<open>src/session/projection.rs\<close> in the order of the file;
  \<open>Projection_Runs\<close> is the step relation of every way an event reaches the reducer.  \<open>Surface_Proofs\<close>: the
  running totals are the sums over the surface (a locale over both totals).  \<open>Projection_Turns\<close>: turns and steps
  refine a counting automaton.  \<open>Call_Bookkeeping\<close>, \<open>Call_History\<close>: the books of tool calls agree with each other
  and with the history.  \<open>Projection_Commute\<close>, \<open>Attempt_Replay\<close>, \<open>Durable_Replay\<close>: scanning a journal rebuilds the
  projection of the live session that wrote it.  It rests on SHA-256 telling apart the few source lists of that
  journal, and on a discipline of the agent, which settles the request header before it dispatches a call;
  \<open>Durable_Example\<close> has a run that shows what happens without it.

  \<^bold>\<open>The session in memory.\<close>  \<open>Session_Log\<close>: the log with its two limits.  \<open>Session_Claims\<close>: reservations, the
  claims that protect the room of closing events, and the capability of an attempt.  \<open>Session_Replay\<close>, \<open>Session_Runs\<close>,
  \<open>Session_Proofs\<close>: every run of these operations keeps exact books, replays to its projection, and leaves
  an open claim able to be settled.

  \<^bold>\<open>The tools.\<close>  \<open>Tool_Results\<close>, \<open>Approval_Prompt\<close>: the seam between agent and tools.  \<open>Patch_Tool\<close>, \<open>Patch_Diff\<close>:
  the strict application of a patch and the diff shown for approval; \<open>Patch_Proofs\<close> shows that the approved diff is
  the change that is made, \<open>Workspace_Commit\<close> is the commit in \<open>src/tools/workspace.rs\<close>, from the lock to
  the cleanup, and \<open>Patch_Settlement\<close> shows what a prepared mutation tells of it in each of its ends.
  \<open>Tool_Arguments\<close>, \<open>Workspace_Paths\<close>, \<open>File_Tools\<close>: arguments, paths and the answers of \<open>list\<close>, \<open>glob\<close>, \<open>grep\<close> and
  \<open>read\<close>; \<open>File_Proofs\<close> shows that answers fit and that the pages of a file are the file.

  \<^bold>\<open>The terminal.\<close>  \<open>Key_Decoder\<close>: \<open>src/tui/key_decoder.rs\<close>.  \<open>Incremental\<close> is the interface it shares
  with \<open>Sse\<close>: a consumer of inputs that does not depend on how they are cut; both interpret the locale.
  \<open>Visible_Text\<close>: which characters are escaped on the terminal (\<open>src/tui/visible.rs\<close>), and that nothing else gets
  there.  \<open>Composer\<close>, \<open>Input_Memory\<close>: the line editor with its undo records, the queue of prompts and the history
  (\<open>src/tui/composer.rs\<close>, \<open>src/tui/input_memory.rs\<close>), over a segmentation into graphemes and a width that are
  parameters; \<open>Composer_Proofs\<close> and \<open>Input_Memory_Proofs\<close> show that every sequence of operations keeps them well formed
  and that an undo gives the text back.

  \<^bold>\<open>Bounds.\<close>  No definition of the program takes fuel (\<open>stream_items\<close> and \<open>follow_pages\<close>, which count the
  requests of a caller, do).  Loops are structural, or carry a measure that is the part
  of the input not yet consumed.  Numeric limits are the constants of the source, kept under their names.
  The examples on which witnesses are evaluated (\<open>Session_Example\<close>, \<open>Call_Example\<close>, \<open>Durable_Example\<close>, \<open>Memory_Example\<close>
  and the last sections of other theories) are sessions and inputs that the definitions run on.

  \<^bold>\<open>Not modelled.\<close>  The scheduling around these parts: the agent loop, its compaction pass, the journal's
  writer thread and observers, the actor of a plugin.  The operating system: locks, permissions, directory
  capabilities, the system calls behind a commit, child processes and signals, the HTTP client.  Memory accounting:
  allocation failures, resident credits, and the charges of capacities.  The serialization of a request to the provider,
  and the views of the terminal.  Detail strings of errors that only a person reads are left out, as
  are the schemas of tools.
\<close>

end
